(* ===== verification/Alarm_Prelude.thy ===== *)
theory Alarm_Prelude
  imports Complex_Main "HOL-Library.AList" "HOL-Library.Char_ord" "HOL-Library.List_Lexorder"
    "HOL-Library.Product_Lexorder"
begin

text \<open>
  Shared vocabulary of the development: Qt and standard-library values the
  components have in common, and the facts about lists and associations that
  several of them use.  A \<open>QString\<close> is the list of its UTF-16 code units
  (\<open>qstring\<close>), a \<open>std::string\<close> an Isabelle \<open>string\<close>.  The fixed-width integers
  of the code are \<open>int\<close>s; where a cast can change the value the cast is a
  function of its own (\<open>to_u32\<close>, \<open>to_i32\<close>, \<open>to_i64\<close>).  \<open>float\<close> and \<open>double\<close> are \<open>real\<close>.
\<close>

section \<open>Text\<close>

type_synonym qstring = "int list"

definition qs :: "string \<Rightarrow> qstring" where
  "qs s = map of_char s"

lemma qs_inject [simp]: "qs a = qs b \<longleftrightarrow> a = b"
  unfolding qs_def by (simp add: inj_map_eq_map[OF inj_of_char])

lemma qs_Nil_iff [simp]: "qs a = [] \<longleftrightarrow> a = []" "[] = qs a \<longleftrightarrow> a = []"
  by (auto simp: qs_def)

text \<open>\<open>QString::contains\<close> with a string argument.\<close>

fun starts_with :: "'a list \<Rightarrow> 'a list \<Rightarrow> bool" where
  "starts_with [] ys = True"
| "starts_with (x # xs) [] = False"
| "starts_with (x # xs) (y # ys) = (x = y \<and> starts_with xs ys)"

fun contains :: "'a list \<Rightarrow> 'a list \<Rightarrow> bool" where
  "contains [] p = (p = [])"
| "contains (x # xs) p = (starts_with p (x # xs) \<or> contains xs p)"

text \<open>
  The Qt text operations the code relies on; \<open>sameCI\<close> is \<open>a.compare(b, Qt::CaseInsensitive) == 0\<close> and
  \<open>toLongLong\<close> is \<open>None\<close> where Qt sets \<open>ok\<close> to false.  They are not part of the repository, so they are parameters; \<open>text_laws\<close> is what Qt
  documents of them.
\<close>

record qt_text =
  trimmed :: "qstring \<Rightarrow> qstring"
  toLower :: "qstring \<Rightarrow> qstring"
  sameCI :: "qstring \<Rightarrow> qstring \<Rightarrow> bool"
  toLongLong :: "qstring \<Rightarrow> int option"

definition text_laws :: "qt_text \<Rightarrow> bool" where
  "text_laws T \<longleftrightarrow>
     (\<forall>s. trimmed T (trimmed T s) = trimmed T s) \<and>
     (\<forall>s. toLower T (toLower T s) = toLower T s) \<and>
     (\<forall>s. trimmed T (toLower T s) = toLower T (trimmed T s)) \<and>
     (\<forall>s. (toLower T s = []) = (s = [])) \<and>
     trimmed T [] = [] \<and>
     (\<forall>s. sameCI T s s) \<and>
     (\<forall>s. sameCI T [] s = (s = [])) \<and>
     (\<forall>s v. toLongLong T s = Some v \<longrightarrow> - (2 ^ 63) \<le> v \<and> v < 2 ^ 63)"

lemma text_lawsD:
  assumes "text_laws T"
  shows "trimmed T (trimmed T s) = trimmed T s"
    and "toLower T (toLower T s) = toLower T s"
    and "trimmed T (toLower T s) = toLower T (trimmed T s)"
    and "(toLower T s = []) = (s = [])"
    and "trimmed T [] = []"
    and "sameCI T s s"
    and "sameCI T [] s = (s = [])"
  using assms by (simp_all only: text_laws_def)

text \<open>An instance on the ASCII characters, on which the witnesses compute.\<close>

definition ascii_lower :: "int \<Rightarrow> int" where
  "ascii_lower c = (if 65 \<le> c \<and> c \<le> 90 then c + 32 else c)"

definition ascii_space :: "int \<Rightarrow> bool" where
  "ascii_space c = (c = 32 \<or> (9 \<le> c \<and> c \<le> 13))"

text \<open>Decimal digits with an optional minus sign, refused outside 64 bits.\<close>

definition ascii_digits :: "qstring \<Rightarrow> int option" where
  "ascii_digits s =
     (if s = [] \<or> \<not> list_all (\<lambda>c. 48 \<le> c \<and> c \<le> 57) s then None
      else Some (foldl (\<lambda>a c. 10 * a + (c - 48)) 0 s))"

definition ascii_toLongLong :: "qstring \<Rightarrow> int option" where
  "ascii_toLongLong s =
     (case (if take 1 s = [45] then map_option uminus (ascii_digits (drop 1 s)) else ascii_digits s) of
        None \<Rightarrow> None
      | Some v \<Rightarrow> if - (2 ^ 63) \<le> v \<and> v < 2 ^ 63 then Some v else None)"

lemma ascii_toLongLong_range: "ascii_toLongLong s = Some v \<Longrightarrow> - (2 ^ 63) \<le> v \<and> v < 2 ^ 63"
  by (simp add: ascii_toLongLong_def split: option.splits if_splits)

definition ascii_text :: qt_text where
  "ascii_text = \<lparr> trimmed = (\<lambda>s. rev (dropWhile ascii_space (rev (dropWhile ascii_space s)))),
                  toLower = map ascii_lower,
                  sameCI = (\<lambda>a b. map ascii_lower a = map ascii_lower b),
                  toLongLong = ascii_toLongLong \<rparr>"

lemma ascii_space_lower [simp]: "ascii_space (ascii_lower c) = ascii_space c"
  by (auto simp: ascii_space_def ascii_lower_def)

lemma ascii_lower_idem [simp]: "ascii_lower (ascii_lower c) = ascii_lower c"
  by (auto simp: ascii_lower_def)

lemma dropWhile_fixed: "xs = [] \<or> \<not> P (hd xs) \<Longrightarrow> dropWhile P xs = xs"
  by (cases xs) auto

lemma hd_dropWhile_neg: "dropWhile P xs = [] \<or> \<not> P (hd (dropWhile P xs))"
  using hd_dropWhile by blast

lemma hd_strip_back:
  assumes "xs = [] \<or> \<not> P (hd xs)"
  shows "rev (dropWhile P (rev xs)) = [] \<or> \<not> P (hd (rev (dropWhile P (rev xs))))"
proof (cases "dropWhile P (rev xs)" rule: rev_cases)
  case (snoc ys y)
  have "rev xs = takeWhile P (rev xs) @ dropWhile P (rev xs)" by simp
  with snoc have "xs = y # rev (takeWhile P (rev xs) @ ys)"
    by (metis append_assoc rev_append rev_rev_ident rev_singleton_conv append_Cons append_Nil)
  with assms snoc show ?thesis by (metis list.sel(1) list.simps(3) rev.simps(2) rev_append rev_rev_ident
      append_Cons append_Nil)
qed simp

lemma strip_idem:
  "rev (dropWhile P (rev (dropWhile P (rev (dropWhile P (rev (dropWhile P s)))))))
     = rev (dropWhile P (rev (dropWhile P s)))"
proof -
  let ?u = "rev (dropWhile P (rev (dropWhile P s)))"
  have "dropWhile P ?u = ?u"
    by (rule dropWhile_fixed, rule hd_strip_back, rule hd_dropWhile_neg)
  then show ?thesis by (simp add: dropWhile_idem)
qed

lemma ascii_text_laws: "text_laws ascii_text"
  unfolding text_laws_def ascii_text_def
  by (simp add: strip_idem dropWhile_map rev_map o_def ascii_toLongLong_range[simplified])

section \<open>Integer casts and printing\<close>

text \<open>\<open>std::to_string\<close> and \<open>QString::number\<close>.\<close>

fun dec :: "nat \<Rightarrow> string" where
  "dec n = (if n < 10 then [char_of (48 + n)] else dec (n div 10) @ [char_of (48 + n mod 10)])"

declare dec.simps [simp del]

definition dec_int :: "int \<Rightarrow> string" where
  "dec_int i = (if i < 0 then ''-'' @ dec (nat (- i)) else dec (nat i))"

text \<open>Reading the digits back: printing is injective.\<close>

definition undec :: "string \<Rightarrow> nat" where
  "undec s = foldl (\<lambda>a c. 10 * a + (of_char c - 48)) 0 s"

lemma undec_dec: "undec (dec n) = n"
proof (induction n rule: dec.induct)
  case (1 n)
  have digit: "of_char (char_of (48 + d) :: char) - 48 = d" if "d < 10" for d :: nat
    using that by (simp add: of_char_of)
  show ?case
  proof (cases "n < 10")
    case True
    then show ?thesis using digit[of n] by (simp add: dec.simps[of n] undec_def)
  next
    case False
    then have "undec (dec n) = 10 * undec (dec (n div 10)) + n mod 10"
      using digit[of "n mod 10"] by (simp add: dec.simps[of n] undec_def)
    with 1 False show ?thesis by simp
  qed
qed

lemma dec_inject [simp]: "dec a = dec b \<longleftrightarrow> a = b"
  by (metis undec_dec)

lemma dec_no_sign: "CHR ''-'' \<notin> set (dec n)"
proof (induction n rule: dec.induct)
  case (1 n)
  have "CHR ''-'' \<noteq> char_of (48 + d)" if "d < 10" for d :: nat
  proof
    assume "CHR ''-'' = char_of (48 + d)"
    then have "of_char (CHR ''-'') = (48 + d) mod 256" by simp
    with that show False by simp
  qed
  then show ?case using 1 by (cases "n < 10") (simp_all add: dec.simps[of n])
qed

lemma dec_int_inject [simp]: "dec_int a = dec_int b \<longleftrightarrow> a = b"
proof
  assume eq: "dec_int a = dec_int b"
  have "dec m \<noteq> CHR ''-'' # xs" for m xs using dec_no_sign[of m] by (metis list.set_intros(1))
  then show "a = b" using eq by (auto simp: dec_int_def split: if_splits) (metis)+
qed simp

definition to_u32 :: "int \<Rightarrow> int" where
  "to_u32 x = x mod 2 ^ 32"

definition to_i32 :: "int \<Rightarrow> int" where
  "to_i32 x = (x + 2 ^ 31) mod 2 ^ 32 - 2 ^ 31"

definition to_i64 :: "int \<Rightarrow> int" where
  "to_i64 x = (x + 2 ^ 63) mod 2 ^ 64 - 2 ^ 63"

lemma to_u32_range: "0 \<le> to_u32 x" "to_u32 x < 2 ^ 32"
  by (simp_all add: to_u32_def)

lemma to_u32_id [simp]: "0 \<le> x \<Longrightarrow> x < 4294967296 \<Longrightarrow> to_u32 x = x"
  by (simp add: to_u32_def)

lemma to_i32_id [simp]: "- 2147483648 \<le> x \<Longrightarrow> x < 2147483648 \<Longrightarrow> to_i32 x = x"
  by (simp add: to_i32_def)

lemma to_i64_id [simp]:
  "- 9223372036854775808 \<le> x \<Longrightarrow> x < 9223372036854775808 \<Longrightarrow> to_i64 x = x"
  by (simp add: to_i64_def)

section \<open>Clamping, as \<open>qBound\<close>, \<open>qMax\<close> and \<open>qMin\<close> do\<close>

definition qBound :: "'a::linorder \<Rightarrow> 'a \<Rightarrow> 'a \<Rightarrow> 'a" where
  "qBound lo v hi = max lo (min hi v)"

lemma qBound_range: "lo \<le> hi \<Longrightarrow> lo \<le> qBound lo v hi \<and> qBound lo v hi \<le> hi"
  by (simp add: qBound_def)

lemma qBound_id: "lo \<le> v \<Longrightarrow> v \<le> hi \<Longrightarrow> qBound lo v hi = v"
  by (simp add: qBound_def)

end
