(* ===== verification/Key_Store.thy ===== *)
theory Key_Store
  imports Alarm_Prelude
begin

text \<open>
  The key/value containers of the code.  \<open>QMap\<close> keeps its entries in key order
  and the code depends on that order when it scans, so a \<open>QMap\<close> is a list of
  pairs with strictly increasing keys (\<open>qm_insert\<close>, \<open>qm_remove\<close>, \<open>qm_ok\<close>).
  \<open>std::unordered_map\<close> and \<open>QHash\<close> have no specified order: they are association
  lists with distinct keys (\<open>um_insert\<close>, \<open>um_remove\<close>, \<open>um_ok\<close>), and no theorem
  depends on the position of an entry.  The locale \<open>key_store\<close> is the contract
  both meet, with the lemmas the components use.
\<close>

section \<open>\<open>QMap\<close>\<close>

type_synonym ('k, 'v) qmap = "('k \<times> 'v) list"

fun qm_insert :: "'k::linorder \<Rightarrow> 'v \<Rightarrow> ('k, 'v) qmap \<Rightarrow> ('k, 'v) qmap" where
  "qm_insert k v [] = [(k, v)]"
| "qm_insert k v ((k', v') # m) =
     (if k < k' then (k, v) # (k', v') # m
      else if k = k' then (k, v) # m
      else (k', v') # qm_insert k v m)"

definition qm_remove :: "'k \<Rightarrow> ('k, 'v) qmap \<Rightarrow> ('k, 'v) qmap" where
  "qm_remove k m = filter (\<lambda>p. fst p \<noteq> k) m"

definition qm_ok :: "('k::linorder, 'v) qmap \<Rightarrow> bool" where
  "qm_ok m = sorted_wrt (<) (map fst m)"

abbreviation qm_contains :: "('k, 'v) qmap \<Rightarrow> 'k \<Rightarrow> bool" where
  "qm_contains m k \<equiv> map_of m k \<noteq> None"

definition qm_value :: "('k, 'v) qmap \<Rightarrow> 'k \<Rightarrow> 'v \<Rightarrow> 'v" where
  "qm_value m k d = (case map_of m k of Some v \<Rightarrow> v | None \<Rightarrow> d)"

lemma qm_ok_distinct: "qm_ok m \<Longrightarrow> distinct (map fst m)"
  unfolding qm_ok_def by (simp add: strict_sorted_iff)

lemma map_of_qm_insert [simp]: "map_of (qm_insert k v m) k' = (if k' = k then Some v else map_of m k')"
  by (induction k v m rule: qm_insert.induct) auto

lemma keys_qm_insert: "fst ` set (qm_insert k v m) = insert k (fst ` set m)"
  by (induction k v m rule: qm_insert.induct) auto

lemma qm_ok_insert: "qm_ok m \<Longrightarrow> qm_ok (qm_insert k v m)"
  unfolding qm_ok_def
proof (induction k v m rule: qm_insert.induct)
  case (2 k v k' v' m)
  have *: "set (map fst (qm_insert k v m)) = insert k (set (map fst m))"
    using keys_qm_insert[of k v m] by simp
  show ?case using 2 by (auto simp: * simp del: set_map)
qed simp

lemma map_of_qm_remove [simp]: "map_of (qm_remove k m) k' = (if k' = k then None else map_of m k')"
  unfolding qm_remove_def by (induction m) auto

lemma sorted_wrt_map_filter: "sorted_wrt R (map f xs) \<Longrightarrow> sorted_wrt R (map f (filter P xs))"
  by (simp add: sorted_wrt_map sorted_wrt_filter)

lemma qm_ok_filter: "qm_ok m \<Longrightarrow> qm_ok (filter P m)"
  unfolding qm_ok_def by (rule sorted_wrt_map_filter)

lemma qm_ok_remove: "qm_ok m \<Longrightarrow> qm_ok (qm_remove k m)"
  unfolding qm_remove_def by (rule qm_ok_filter)

lemma qm_ok_Nil [simp]: "qm_ok []"
  by (simp add: qm_ok_def)

section \<open>\<open>std::unordered_map\<close> and \<open>QHash\<close>\<close>

type_synonym ('k, 'v) umap = "('k \<times> 'v) list"

definition um_insert :: "'k \<Rightarrow> 'v \<Rightarrow> ('k, 'v) umap \<Rightarrow> ('k, 'v) umap" where
  "um_insert k v m = AList.update k v m"

definition um_remove :: "'k \<Rightarrow> ('k, 'v) umap \<Rightarrow> ('k, 'v) umap" where
  "um_remove k m = AList.delete k m"

definition um_ok :: "('k, 'v) umap \<Rightarrow> bool" where
  "um_ok m = distinct (map fst m)"

lemma map_of_um_insert [simp]: "map_of (um_insert k v m) k' = (if k' = k then Some v else map_of m k')"
  by (simp add: um_insert_def update_conv)

lemma map_of_um_remove [simp]: "map_of (um_remove k m) k' = (if k' = k then None else map_of m k')"
  by (simp add: um_remove_def delete_conv)

lemma um_ok_insert: "um_ok m \<Longrightarrow> um_ok (um_insert k v m)"
  by (simp add: um_ok_def um_insert_def distinct_update)

lemma um_ok_remove: "um_ok m \<Longrightarrow> um_ok (um_remove k m)"
  by (simp add: um_ok_def um_remove_def distinct_delete)

section \<open>The contract\<close>

locale key_store =
  fixes lookup :: "'m \<Rightarrow> 'k \<Rightarrow> 'v option"
    and put :: "'k \<Rightarrow> 'v \<Rightarrow> 'm \<Rightarrow> 'm"
    and del :: "'k \<Rightarrow> 'm \<Rightarrow> 'm"
    and entries :: "'m \<Rightarrow> ('k \<times> 'v) list"
    and ok :: "'m \<Rightarrow> bool"
  assumes lookup_put: "ok m \<Longrightarrow> lookup (put k v m) k' = (if k' = k then Some v else lookup m k')"
    and lookup_del: "ok m \<Longrightarrow> lookup (del k m) k' = (if k' = k then None else lookup m k')"
    and ok_put: "ok m \<Longrightarrow> ok (put k v m)"
    and ok_del: "ok m \<Longrightarrow> ok (del k m)"
    and entries_iff: "ok m \<Longrightarrow> (k, v) \<in> set (entries m) \<longleftrightarrow> lookup m k = Some v"
    and entries_distinct: "ok m \<Longrightarrow> distinct (map fst (entries m))"
begin

lemma set_entries: "ok m \<Longrightarrow> set (entries m) = {(k, v). lookup m k = Some v}"
  using entries_iff by auto

lemma keys_entries: "ok m \<Longrightarrow> set (map fst (entries m)) = {k. lookup m k \<noteq> None}"
  by (force simp: set_entries image_iff)

lemma ok_del_many: "ok m \<Longrightarrow> ok (fold del ks m)"
  by (induction ks arbitrary: m) (simp_all add: ok_del)

lemma lookup_del_many: "ok m \<Longrightarrow> lookup (fold del ks m) k = (if k \<in> set ks then None else lookup m k)"
  by (induction ks arbitrary: m) (auto simp: lookup_del ok_del)

text \<open>Collecting the keys that satisfy a condition and removing them one by one.\<close>

lemma lookup_del_stale:
  assumes "ok m"
  shows "lookup (fold del (map fst (filter bad (entries m))) m) k =
           (case lookup m k of Some v \<Rightarrow> if bad (k, v) then None else Some v | None \<Rightarrow> None)"
proof (cases "lookup m k")
  case None
  then show ?thesis using assms by (simp add: lookup_del_many)
next
  case (Some v)
  have "k \<in> set (map fst (filter bad (entries m))) \<longleftrightarrow> bad (k, v)"
    using assms Some by (force simp: set_entries image_iff)
  with Some assms show ?thesis by (simp add: lookup_del_many)
qed

lemma length_entries: "ok m \<Longrightarrow> length (entries m) = card {k. lookup m k \<noteq> None}"
  using entries_distinct[of m] keys_entries[of m]
  by (metis distinct_card length_map)

lemma finite_keys: "ok m \<Longrightarrow> finite {k. lookup m k \<noteq> None}"
  by (metis keys_entries finite_set)

lemma length_put:
  assumes "ok m"
  shows "length (entries (put k v m)) =
           (if lookup m k = None then Suc (length (entries m)) else length (entries m))"
proof -
  have "{k'. lookup (put k v m) k' \<noteq> None} = insert k {k'. lookup m k' \<noteq> None}"
    using assms by (auto simp: lookup_put)
  then show ?thesis
    using assms finite_keys[OF assms] by (simp add: length_entries ok_put card_insert_if)
qed

lemma length_del:
  assumes "ok m"
  shows "length (entries (del k m)) =
           (if lookup m k = None then length (entries m) else length (entries m) - 1)"
proof -
  have "{k'. lookup (del k m) k' \<noteq> None} = {k'. lookup m k' \<noteq> None} - {k}"
    using assms by (auto simp: lookup_del)
  then show ?thesis
    using assms finite_keys[OF assms] by (simp add: length_entries ok_del card_Diff_singleton_if)
qed

end

interpretation qm: key_store map_of qm_insert qm_remove "\<lambda>m. m" qm_ok
  by unfold_locales (auto simp: qm_ok_insert qm_ok_remove qm_ok_distinct)

interpretation um: key_store map_of um_insert um_remove "\<lambda>m. m" um_ok
  by unfold_locales (auto simp: um_ok_insert um_ok_remove, simp_all add: um_ok_def)

end
