(* ===== verification/Alarm_Types.thy ===== *)
theory Alarm_Types
  imports Key_Store
begin

text \<open>
  The data the components exchange: tracks and trails (\<open>SPxPackets.h\<close>,
  \<open>commonStruct.h\<close>), alarms, areas and the configuration of the alarm logic.  A
  record keeps the fields the modelled code reads or writes.  \<open>QPointF\<close> is a pair
  (x is latitude, y is longitude).
\<close>

type_synonym point = "real \<times> real"
type_synonym trail = "point list"

text \<open>\<open>SPxPacketTrackExtended\<close>; \<open>fusion_trackID\<close> is the array of eight ids.\<close>

record SPxTrack =
  min_id :: int
  min_reserved1 :: int
  rangeMetres :: real
  azimuthDegrees :: real
  speedMps :: real
  courseDegrees :: real
  sizeMetres :: real
  sizeDegrees :: real
  norm_reserved1 :: int
  norm_reserved3 :: int
  sec_reserved0 :: int
  latDegs :: real
  longDegs :: real
  msgTimeSecs :: int
  msgTimeUsecs :: int
  altitudeMetres :: real
  fusion_sensors :: int
  fusion_trackID :: "int list"
  uniqueID :: int

text \<open>What \<open>std::memset(&out, 0, sizeof(out))\<close> leaves.\<close>

definition zero_track :: SPxTrack where
  "zero_track = \<lparr>min_id = 0, min_reserved1 = 0, rangeMetres = 0, azimuthDegrees = 0, speedMps = 0,
     courseDegrees = 0, sizeMetres = 0, sizeDegrees = 0, norm_reserved1 = 0, norm_reserved3 = 0, sec_reserved0 = 0, latDegs = 0, longDegs = 0,
     msgTimeSecs = 0, msgTimeUsecs = 0, altitudeMetres = 0, fusion_sensors = 0,
     fusion_trackID = replicate 8 0, uniqueID = 0\<rparr>"

record AISTrack =
  MMSI :: int
  ais_lat :: real
  ais_long :: real
  ais_speed :: real
  ais_course :: real
  ais_msgTimeSecs :: int

type_synonym track_map = "(int, SPxTrack) qmap"
type_synonym trail_map = "(int, trail) qmap"

text \<open>\<open>AlarmData\<close> (\<open>commonStruct.h\<close>): the fields of a rule alarm in memory.\<close>

record AlarmData =
  alarm_id :: string
  condition_id :: string
  mode_id :: int
  track_id :: int
  unique_id :: int
  targettype :: int
  targetbehavior :: int
  targetdist :: real
  targetlon :: real
  targetlat :: real
  targetspeed :: real
  targetdir :: real
  alarm_time :: int
  origintime :: int
  alarm_status :: int
  alarm_count :: int
  group_id :: int
  area_id :: int
  threatScore :: int
  task_status :: int
  alarm_content :: qstring
  threat_time_ms :: int

text \<open>
  \<open>AlarmRule\<close>: the fields the rule evaluation reads.  Times are milliseconds since the epoch:
  the code prints them with \<open>yyyy-MM-dd hh:mm:ss.zzz\<close> and parses the same format back.
\<close>

record AlarmRule =
  rule_condition_id :: string
  rule_track_type :: int
  rule_speed_condition :: int
  rule_speed :: int
  rule_area_judge :: int
  rule_group_id :: int
  rule_area_id :: int
  rule_alarm_level :: int
  rule_height_min :: int
  rule_height_max :: int
  rule_course_min :: int
  rule_course_max :: int
  rule_blacklist_judge :: int
  rule_whitelist_judge :: int
  rule_affiliation_judge :: int
  rule_corp_judge :: int
  rule_name :: qstring
  rule_alarmstate :: int
  rule_area_name :: qstring
  rule_direction :: int
  rule_distance_condition :: int
  rule_distance :: int
  rule_isBirdTrack :: int
  rule_targetattr_type :: int
  rule_camera_detect_type :: int
  rule_llm_detect_type :: int
  rule_uav_detect_type :: int
  rule_threat_level1 :: int
  rule_threat_level2 :: int
  rule_dist_to_protect_area :: int
  rule_entry_time :: int

text \<open>
  \<open>AlarmRule()\<close>, which \<open>QMap::value\<close> returns for a missing key: value initialisation, so zero
  where the struct gives no initialiser.
\<close>

definition default_rule :: AlarmRule where
  "default_rule = \<lparr>rule_condition_id = [], rule_track_type = 0, rule_speed_condition = 0, rule_speed = 0,
     rule_area_judge = 0, rule_group_id = 0, rule_area_id = 0, rule_alarm_level = 0, rule_height_min = 0,
     rule_height_max = 100, rule_course_min = 0, rule_course_max = 360, rule_blacklist_judge = 0,
     rule_whitelist_judge = 0, rule_affiliation_judge = 0, rule_corp_judge = 0, rule_name = [],
     rule_alarmstate = 0, rule_area_name = [], rule_direction = 0, rule_distance_condition = 0,
     rule_distance = 0, rule_isBirdTrack = -1, rule_targetattr_type = 0, rule_camera_detect_type = 0,
     rule_llm_detect_type = 0, rule_uav_detect_type = 0, rule_threat_level1 = 0, rule_threat_level2 = 0,
     rule_dist_to_protect_area = -1, rule_entry_time = 0\<rparr>"

text \<open>\<open>AlarmLogicConfig\<close> (\<open>Config.ini\<close>, section \<open>AlarmLogic\<close>) and the base point; a \<open>QSet<int>\<close> is a
  list of its elements, of which only membership is used.\<close>

record AlarmLogicConfig =
  cfg_mode :: int
  saveAlarmToDb :: int
  refreshTargetInfoFilterEachLoop :: int
  alarmMapPruneNonFirstStaleMs :: int
  dedupSameAlarmWindowMs :: int
  dedupMatchConditionAndTrack :: int
  originTimeFromTrackMsg :: int
  originTrackTimeIsMs :: int
  trackAlreadyHasAlarmWindowMs :: int
  alarmFilterTtlMs :: int
  speedDoubleCheckFuseTrackOnly :: int
  defaultThreatScore :: int
  birdRadarSourceId :: int
  birdFilterMode :: int
  birdSelfReportSubstrings :: qstring
  birdSkipTrackIds :: "int list"
  areaGroupIdAllow :: "int list"
  noAlarmGroupIds :: "int list"
  fuseMapRequireContain :: int
  useBasePoint :: int
  basePointLat :: real
  basePointLon :: real

text \<open>The defaults of the struct.\<close>

definition default_logic :: AlarmLogicConfig where
  "default_logic = \<lparr>cfg_mode = 0, saveAlarmToDb = 0, refreshTargetInfoFilterEachLoop = 1, alarmMapPruneNonFirstStaleMs = 5000,
     dedupSameAlarmWindowMs = 600000, dedupMatchConditionAndTrack = 0, originTimeFromTrackMsg = 1,
     originTrackTimeIsMs = 0, trackAlreadyHasAlarmWindowMs = 60000, alarmFilterTtlMs = 3600000,
     speedDoubleCheckFuseTrackOnly = 1, defaultThreatScore = 90, birdRadarSourceId = 9,
     birdFilterMode = 0, birdSelfReportSubstrings = [0x81EA, 0x62A5, 0x4F4D], birdSkipTrackIds = [],
     areaGroupIdAllow = [], noAlarmGroupIds = [], fuseMapRequireContain = 1, useBasePoint = 0,
     basePointLat = 0, basePointLon = 0\<rparr>"

end
