(* ===== verification/Target_Type_Fusion.thy ===== *)
theory Target_Type_Fusion
  imports Alarm_Types
begin

text \<open>
  Target-type judgement (\<open>dialog/analysis\<close>): the decision functions of
  \<open>TargetTypeFusionLogic\<close> and the cycle of \<open>TargetTypeFusionThread\<close>, which writes the
  judged type back to the database and pushes it over gRPC when it differs from what the
  track already carries.
\<close>

section \<open>\<open>TargetTypeFusionLogic\<close>\<close>

definition normalizeToken :: "qt_text \<Rightarrow> qstring \<Rightarrow> qstring" where
  "normalizeToken T value = toLower T (trimmed T value)"

text \<open>The Chinese words of the code, as UTF-16 code units.\<close>

definition w_fubiao :: qstring where "w_fubiao = [0x6D6E, 0x6807]"
definition w_wurenji :: qstring where "w_wurenji = [0x65E0, 0x4EBA, 0x673A]"
definition w_niao :: qstring where "w_niao = [0x9E1F]"
definition w_chuan :: qstring where "w_chuan = [0x8239]"
definition w_huolun :: qstring where "w_huolun = [0x8D27, 0x8F6E]"
definition w_youting :: qstring where "w_youting = [0x6E38, 0x8247]"
definition w_yuchuan :: qstring where "w_yuchuan = [0x6E14, 0x8239]"
definition w_qita :: qstring where "w_qita = [0x5176, 0x4ED6]"
definition w_weizhi :: qstring where "w_weizhi = [0x672A, 0x77E5]"

definition shipSubtypes :: "qstring list" where
  "shipSubtypes = map qs [''ship'', ''yacht'', ''cargo'', ''fishing'', ''speedboat'',
     ''cargoship'', ''fishingboat'', ''warship'', ''motorboat'']"

definition coarseFamily :: "qt_text \<Rightarrow> qstring \<Rightarrow> qstring" where
  "coarseFamily T type =
     (let t = normalizeToken T type in
      if t = [] then []
      else if t = qs ''buoy'' \<or> contains t w_fubiao then qs ''buoy''
      else if t = qs ''uav'' \<or> t = qs ''drone'' \<or> contains t w_wurenji then qs ''uav''
      else if t = qs ''bird'' \<or> contains t w_niao then qs ''bird''
      else if list_ex (\<lambda>shipType. t = shipType \<or> contains t w_chuan \<or> contains t w_huolun
                        \<or> contains t w_youting \<or> contains t w_yuchuan) shipSubtypes then qs ''ship''
      else if t = qs ''other'' \<or> contains t w_qita \<or> contains t w_weizhi then qs ''other''
      else qs ''other'')"

definition isShipSubtype :: "qt_text \<Rightarrow> qstring \<Rightarrow> bool" where
  "isShipSubtype T type =
     (let t = normalizeToken T type in
      if t = [] \<or> t = qs ''ship'' then False else coarseFamily T t = qs ''ship'')"

definition coarseEquals :: "qt_text \<Rightarrow> qstring \<Rightarrow> qstring \<Rightarrow> bool" where
  "coarseEquals T a b = (let ca = coarseFamily T a; cb = coarseFamily T b in ca \<noteq> [] \<and> ca = cb)"

record TargetTypeFusionInput =
  camType :: qstring
  trackType :: qstring
  llmType :: qstring

record TargetTypeFusionResult =
  shouldUpdate :: bool
  finalType :: qstring
  finalSource :: qstring

definition makeResult :: "qt_text \<Rightarrow> qstring \<Rightarrow> qstring \<Rightarrow> TargetTypeFusionResult" where
  "makeResult T ft src = \<lparr>shouldUpdate = (ft \<noteq> []), finalType = normalizeToken T ft, finalSource = src\<rparr>"

definition fuseTargetTypes :: "qt_text \<Rightarrow> TargetTypeFusionInput \<Rightarrow> TargetTypeFusionResult" where
  "fuseTargetTypes T input =
     (let track = normalizeToken T (trackType input);
          llm = normalizeToken T (llmType input)
      in if llm \<noteq> [] then makeResult T llm (qs ''llm'')
         else if track \<noteq> [] then makeResult T track (qs ''track'')
         else \<lparr>shouldUpdate = False, finalType = [], finalSource = []\<rparr>)"

definition shouldPushTargetTypeGrpc :: "qt_text \<Rightarrow> qstring \<Rightarrow> qstring \<Rightarrow> bool" where
  "shouldPushTargetTypeGrpc T trackTargetType judgedFinalType =
     (let judged = normalizeToken T judgedFinalType in
      if judged = [] then False
      else let track = normalizeToken T trackTargetType in
        if track = [] then True
        else if track = judged then False
        else if coarseEquals T track judged then
          (if isShipSubtype T track \<or> isShipSubtype T judged then track \<noteq> judged else False)
        else True)"

section \<open>\<open>TargetTypeFusionThread\<close>\<close>

definition collectActiveUniqueIds :: "track_map \<Rightarrow> track_map \<Rightarrow> int list" where
  "collectActiveUniqueIds fuse bird =
     remdups (filter (\<lambda>u. 0 < u) (map (\<lambda>p. uniqueID (snd p)) fuse)
            @ filter (\<lambda>u. 0 < u) (map (\<lambda>p. uniqueID (snd p)) bird))"

record JudgeRow =
  row_id :: int
  trackTargetType :: qstring
  llmTargetType :: qstring
  finalTargetType :: qstring
  finalTypeSource :: qstring

text \<open>
  The database and the gRPC client are parameters: \<open>db_update\<close> and \<open>grpc_push\<close> say
  whether the call succeeds.  The thread's state is \<open>m_lastGrpcPushedType\<close>; the calls made are
  recorded in order (\<open>updates\<close>: successful database writes, \<open>pushes\<close>: gRPC calls made).
\<close>

record fusion_env =
  db_update :: "int \<Rightarrow> qstring \<Rightarrow> qstring \<Rightarrow> bool"
  grpc_push :: "int \<Rightarrow> qstring \<Rightarrow> bool"

record fusion_state =
  lastPushed :: "(int, qstring) umap"
  updates :: "(int \<times> qstring \<times> qstring) list"
  pushes :: "(int \<times> qstring) list"

definition push_step :: "qt_text \<Rightarrow> fusion_env \<Rightarrow> JudgeRow \<Rightarrow> TargetTypeFusionResult
    \<Rightarrow> fusion_state \<Rightarrow> fusion_state" where
  "push_step T E row fused s =
     (let last = (case map_of (lastPushed s) (row_id row) of Some t \<Rightarrow> t | None \<Rightarrow> []) in
      if sameCI T last (finalType fused) then s
      else if grpc_push E (row_id row) (finalType fused)
        then s\<lparr>lastPushed := um_insert (row_id row) (finalType fused) (lastPushed s),
               pushes := pushes s @ [(row_id row, finalType fused)]\<rparr>
        else s\<lparr>pushes := pushes s @ [(row_id row, finalType fused)]\<rparr>)"

definition needsDbUpdate :: "qt_text \<Rightarrow> JudgeRow \<Rightarrow> TargetTypeFusionResult \<Rightarrow> bool" where
  "needsDbUpdate T row fused =
     (let sourceMissing = (trimmed T (finalTypeSource row) = []);
          resultMismatch = (\<not> sameCI T (finalTargetType row) (finalType fused)
                            \<or> \<not> sameCI T (finalTypeSource row) (finalSource fused))
      in sourceMissing \<or> resultMismatch)"

text \<open>The body of the row loop; every \<open>continue\<close> returns the state it has reached.\<close>

definition processRow :: "qt_text \<Rightarrow> fusion_env \<Rightarrow> JudgeRow \<Rightarrow> fusion_state \<Rightarrow> fusion_state" where
  "processRow T E row s =
     (if trimmed T (llmTargetType row) = [] then s
      else let fused = fuseTargetTypes T
                 \<lparr>camType = [], trackType = trackTargetType row, llmType = llmTargetType row\<rparr> in
        if \<not> shouldUpdate fused then s
        else let needsDb = needsDbUpdate T row fused;
                 needsGrpc = shouldPushTargetTypeGrpc T (trackTargetType row) (finalType fused)
          in if \<not> needsDb \<and> \<not> needsGrpc then s
             else if needsDb \<and> \<not> db_update E (row_id row) (finalType fused) (finalSource fused) then s
             else let s1 = (if needsDb
                       then s\<lparr>updates := updates s @ [(row_id row, finalType fused, finalSource fused)]\<rparr>
                       else s)
                  in if needsGrpc then push_step T E row fused s1 else s1)"

definition processOnce :: "qt_text \<Rightarrow> fusion_env \<Rightarrow> bool \<Rightarrow> (int list \<Rightarrow> JudgeRow list)
    \<Rightarrow> track_map \<Rightarrow> track_map \<Rightarrow> fusion_state \<Rightarrow> fusion_state" where
  "processOnce T E dbInitSuccess fetch fuse bird s =
     (if \<not> dbInitSuccess then s
      else let active = collectActiveUniqueIds fuse bird in
        if active = [] then s
        else let s1 = fold (processRow T E) (fetch active) s;
                 stale = filter (\<lambda>k. k \<notin> set active) (map fst (lastPushed s1))
             in s1\<lparr>lastPushed := fold um_remove stale (lastPushed s1)\<rparr>)"

section \<open>Facts\<close>

lemma normalizeToken_idem [simp]: "text_laws T \<Longrightarrow> normalizeToken T (normalizeToken T s) = normalizeToken T s"
  by (simp add: normalizeToken_def text_lawsD)

lemma coarseFamily_normalize [simp]:
  "text_laws T \<Longrightarrow> coarseFamily T (normalizeToken T s) = coarseFamily T s"
  by (simp add: coarseFamily_def)

lemma coarseFamily_Nil_iff: "coarseFamily T s = [] \<longleftrightarrow> normalizeToken T s = []"
  by (auto simp: coarseFamily_def Let_def)

text \<open>
  The decision to push, in closed form: a non-empty judgement is pushed exactly when it
  differs from the track's own type and, unless the track has none, either falls in another
  coarse family or names a different ship subtype.  Case and surrounding blanks never count.
\<close>

theorem should_push_characterised:
  assumes "text_laws T"
  shows "shouldPushTargetTypeGrpc T track judged \<longleftrightarrow>
     normalizeToken T judged \<noteq> [] \<and> normalizeToken T track \<noteq> normalizeToken T judged \<and>
     (normalizeToken T track = [] \<or> coarseFamily T track \<noteq> coarseFamily T judged
      \<or> coarseFamily T judged = qs ''ship'')"
  using assms
  by (auto simp: shouldPushTargetTypeGrpc_def coarseEquals_def isShipSubtype_def Let_def coarseFamily_Nil_iff)

theorem should_push_characterised_witness:
  "shouldPushTargetTypeGrpc ascii_text (qs ''Ship '') (qs ''warship'') \<and>
   \<not> shouldPushTargetTypeGrpc ascii_text (qs ''UAV'') (qs ''drone'')"
  unfolding should_push_characterised[OF ascii_text_laws]
  by code_simp

lemma fused_llm:
  assumes "text_laws T" "trimmed T (llmTargetType row) \<noteq> []"
  defines "f \<equiv> fuseTargetTypes T
     \<lparr>camType = [], trackType = trackTargetType row, llmType = llmTargetType row\<rparr>"
  shows "shouldUpdate f \<and> finalType f = normalizeToken T (llmTargetType row) \<and> finalSource f = qs ''llm''"
  using assms by (simp add: fuseTargetTypes_def makeResult_def text_lawsD Let_def
      normalizeToken_def)

text \<open>
  The judgement: a non-blank LLM type decides whatever the track or the camera say, the
  track's type is used only when there is none, and the result is normalised and non-empty
  exactly when an update is due.
\<close>

theorem fuse_priority:
  assumes "text_laws T"
  shows "fuseTargetTypes T i =
     (if normalizeToken T (llmType i) \<noteq> []
      then \<lparr>shouldUpdate = True, finalType = normalizeToken T (llmType i), finalSource = qs ''llm''\<rparr>
      else if normalizeToken T (trackType i) \<noteq> []
      then \<lparr>shouldUpdate = True, finalType = normalizeToken T (trackType i), finalSource = qs ''track''\<rparr>
      else \<lparr>shouldUpdate = False, finalType = [], finalSource = []\<rparr>)"
  using assms by (simp add: fuseTargetTypes_def makeResult_def Let_def)

theorem fuse_priority_witness:
  "finalType (fuseTargetTypes ascii_text
     \<lparr>camType = qs ''bird'', trackType = qs ''ship'', llmType = qs '' Warship ''\<rparr>) = qs ''warship''"
  unfolding fuse_priority[OF ascii_text_laws] by code_simp

section \<open>The cycle settles\<close>

abbreviation row_fused :: "qt_text \<Rightarrow> JudgeRow \<Rightarrow> TargetTypeFusionResult" where
  "row_fused T row \<equiv> fuseTargetTypes T
     \<lparr>camType = [], trackType = trackTargetType row, llmType = llmTargetType row\<rparr>"

text \<open>Whether the loop body gets as far as the gRPC stage for this row.\<close>

definition wants_push :: "qt_text \<Rightarrow> fusion_env \<Rightarrow> JudgeRow \<Rightarrow> bool" where
  "wants_push T E row \<longleftrightarrow> trimmed T (llmTargetType row) \<noteq> [] \<and> shouldUpdate (row_fused T row) \<and>
     shouldPushTargetTypeGrpc T (trackTargetType row) (finalType (row_fused T row)) \<and>
     (needsDbUpdate T row (row_fused T row) \<longrightarrow>
        db_update E (row_id row) (finalType (row_fused T row)) (finalSource (row_fused T row)))"

definition settled :: "qt_text \<Rightarrow> fusion_env \<Rightarrow> JudgeRow \<Rightarrow> (int, qstring) umap \<Rightarrow> bool" where
  "settled T E row m \<longleftrightarrow> (wants_push T E row \<longrightarrow>
     (\<exists>t. map_of m (row_id row) = Some t \<and> sameCI T t (finalType (row_fused T row))))"

lemma wants_push_nonempty:
  assumes "text_laws T" "wants_push T E row"
  shows "finalType (row_fused T row) \<noteq> []"
  using assms by (auto simp: wants_push_def shouldPushTargetTypeGrpc_def Let_def normalizeToken_def
      text_lawsD split: if_splits)

lemma processRow_push:
  "lastPushed (processRow T E row s) =
     (if wants_push T E row then lastPushed (push_step T E row (row_fused T row) s) else lastPushed s)"
  "pushes (processRow T E row s) =
     (if wants_push T E row then pushes (push_step T E row (row_fused T row) s) else pushes s)"
  by (auto simp: processRow_def wants_push_def push_step_def Let_def)

lemma settled_noop:
  "settled T E row (lastPushed s) \<Longrightarrow>
   lastPushed (processRow T E row s) = lastPushed s \<and> pushes (processRow T E row s) = pushes s"
  by (auto simp: processRow_push settled_def push_step_def)

lemma fold_settled_noop:
  "(\<And>r. r \<in> set rows \<Longrightarrow> settled T E r (lastPushed s)) \<Longrightarrow>
   lastPushed (fold (processRow T E) rows s) = lastPushed s \<and>
   pushes (fold (processRow T E) rows s) = pushes s"
  by (induction rows arbitrary: s) (simp_all add: settled_noop)

lemma processRow_settles:
  assumes "text_laws T" "grpc_push E = (\<lambda>_ _. True)"
  shows "settled T E row (lastPushed (processRow T E row s))"
  using assms wants_push_nonempty[OF assms(1), of E row]
  by (auto simp: settled_def processRow_push push_step_def Let_def text_lawsD split: option.splits)

lemma processRow_frame:
  "k \<noteq> row_id row \<Longrightarrow> map_of (lastPushed (processRow T E row s)) k = map_of (lastPushed s) k"
  by (simp add: processRow_push push_step_def Let_def)

lemma fold_frame:
  "k \<notin> row_id ` set rows \<Longrightarrow> map_of (lastPushed (fold (processRow T E) rows s)) k = map_of (lastPushed s) k"
  by (induction rows arbitrary: s) (auto simp: processRow_frame)

lemma fold_settles:
  assumes "text_laws T" "grpc_push E = (\<lambda>_ _. True)" "distinct (map row_id rows)" "row \<in> set rows"
  shows "settled T E row (lastPushed (fold (processRow T E) rows s))"
  using assms(3,4)
proof (induction rows arbitrary: s)
  case (Cons r rows)
  show ?case
  proof (cases "row = r")
    case True
    with Cons.prems have "row_id row \<notin> row_id ` set rows" by simp
    with processRow_settles[OF assms(1,2), of row s] True show ?thesis
      by (simp add: settled_def fold_frame)
  qed (use Cons in simp)
qed simp

lemma um_ok_processRow: "um_ok (lastPushed s) \<Longrightarrow> um_ok (lastPushed (processRow T E row s))"
  by (simp add: processRow_push push_step_def Let_def um_ok_insert)

lemma um_ok_fold_rows: "um_ok (lastPushed s) \<Longrightarrow> um_ok (lastPushed (fold (processRow T E) rows s))"
  by (induction rows arbitrary: s) (simp_all add: um_ok_processRow)

lemma lookup_drop_stale:
  assumes "um_ok m"
  shows "map_of (fold um_remove (filter (\<lambda>k. k \<notin> A) (map fst m)) m) k = (if k \<in> A then map_of m k else None)"
  using um.lookup_del_many[OF assms, of "filter (\<lambda>k. k \<notin> A) (map fst m)" k]
  by (auto simp: map_of_eq_None_iff)

lemma processOnce_lookup:
  assumes "um_ok (lastPushed s)" "active = collectActiveUniqueIds fuse bird" "active \<noteq> []"
  shows "map_of (lastPushed (processOnce T E True fetch fuse bird s)) k =
     (if k \<in> set active then map_of (lastPushed (fold (processRow T E) (fetch active) s)) k else None)"
  using assms by (simp add: processOnce_def Let_def lookup_drop_stale[OF um_ok_fold_rows])

text \<open>
  A cycle forgets: after a cycle that reaches the database with live targets, only targets
  that are still active have a remembered push, so the table cannot grow without bound.
\<close>

theorem pushed_table_bounded:
  assumes "um_ok (lastPushed s)" and "collectActiveUniqueIds fuse bird \<noteq> []"
    and "map_of (lastPushed (processOnce T E True fetch fuse bird s)) k = Some t"
  shows "k \<in> set (collectActiveUniqueIds fuse bird) \<and> 0 < k \<and>
    (\<exists>trk \<in> snd ` (set fuse \<union> set bird). uniqueID trk = k)"
proof -
  have "k \<in> set (collectActiveUniqueIds fuse bird)"
    using processOnce_lookup[OF assms(1) refl assms(2), of T E fetch k] assms(3) by (auto split: if_splits)
  then show ?thesis by (auto simp: collectActiveUniqueIds_def)
qed

definition sample_row :: JudgeRow where
  "sample_row = \<lparr>row_id = 7, trackTargetType = qs ''ship'', llmTargetType = qs ''UAV'',
     finalTargetType = [], finalTypeSource = []\<rparr>"

definition sample_fuse :: track_map where
  "sample_fuse = [(1, zero_track\<lparr>uniqueID := 7\<rparr>)]"

definition sample_env :: fusion_env where
  "sample_env = \<lparr>db_update = (\<lambda>_ _ _. True), grpc_push = (\<lambda>_ _. True)\<rparr>"

theorem pushed_table_bounded_witness:
  "map_of (lastPushed (processOnce ascii_text sample_env True (\<lambda>_. [sample_row]) sample_fuse []
      \<lparr>lastPushed = [(3, qs ''ship'')], updates = [], pushes = []\<rparr>)) 7 = Some (qs ''uav'') \<and>
   uniqueID (snd (hd sample_fuse)) = 7"
proof -
  let ?s = "\<lparr>lastPushed = [(3, qs ''ship'')], updates = [], pushes = []\<rparr>"
  have 1: "map_of (lastPushed (processOnce ascii_text sample_env True (\<lambda>_. [sample_row]) sample_fuse [] ?s)) 7
      = Some (qs ''uav'')" by code_simp
  have 2: "collectActiveUniqueIds sample_fuse [] \<noteq> []" by code_simp
  from pushed_table_bounded[OF _ 2 1] 1 show ?thesis by (simp add: um_ok_def sample_fuse_def)
qed

text \<open>
  The cycle settles: when the rows are for active targets, one per target, and every push is
  accepted, a second cycle over the same data makes no gRPC call at all, whatever the first one
  did and whatever database writes failed.
\<close>

theorem second_cycle_pushes_nothing:
  assumes "text_laws T" and "grpc_push E = (\<lambda>_ _. True)" and "um_ok (lastPushed s)"
    and "distinct (map row_id (fetch (collectActiveUniqueIds fuse bird)))"
    and "row_id ` set (fetch (collectActiveUniqueIds fuse bird)) \<subseteq> set (collectActiveUniqueIds fuse bird)"
    and "s' = processOnce T E dbInit fetch fuse bird s"
  shows "pushes (processOnce T E dbInit fetch fuse bird s') = pushes s'"
proof (cases "dbInit \<and> collectActiveUniqueIds fuse bird \<noteq> []")
  case True
  let ?A = "collectActiveUniqueIds fuse bird"
  have "settled T E r (lastPushed s')" if r: "r \<in> set (fetch ?A)" for r
  proof -
    have "row_id r \<in> set ?A" using assms(5) r by auto
    then have "map_of (lastPushed s') (row_id r) =
        map_of (lastPushed (fold (processRow T E) (fetch ?A) s)) (row_id r)"
      using True assms(6) processOnce_lookup[OF assms(3) refl, of fuse bird T E fetch "row_id r"] by simp
    then show ?thesis using fold_settles[OF assms(1,2,4) r, of s] by (simp add: settled_def)
  qed
  then show ?thesis using True fold_settled_noop[of "fetch ?A" T E s']
    by (simp add: processOnce_def Let_def)
qed (auto simp: processOnce_def Let_def)

theorem second_cycle_pushes_nothing_witness:
  "pushes (processOnce ascii_text sample_env True (\<lambda>_. [sample_row]) sample_fuse []
     (processOnce ascii_text sample_env True (\<lambda>_. [sample_row]) sample_fuse []
        \<lparr>lastPushed = [], updates = [], pushes = []\<rparr>)) = [(7, qs ''uav'')]"
proof -
  let ?s = "\<lparr>lastPushed = [], updates = [], pushes = []\<rparr> :: fusion_state"
  have 1: "distinct (map row_id ((\<lambda>_. [sample_row]) (collectActiveUniqueIds sample_fuse [])))" by simp
  have 2: "row_id ` set ((\<lambda>_. [sample_row]) (collectActiveUniqueIds sample_fuse []))
      \<subseteq> set (collectActiveUniqueIds sample_fuse [])" by code_simp
  have 3: "um_ok (lastPushed ?s)" by (simp add: um_ok_def)
  have 4: "grpc_push sample_env = (\<lambda>_ _. True)" by (simp add: sample_env_def)
  show ?thesis
    unfolding second_cycle_pushes_nothing[OF ascii_text_laws 4 3 1 2 refl, of True] by code_simp
qed

end
