(* ===== verification/Geometry.thy ===== *)
theory Geometry
  imports Alarm_Types
begin

text \<open>
  Distances and bearings: \<open>common/commonfunc.cpp\<close>, \<open>alarm_geoproj.cpp\<close> and the
  helpers at the head of \<open>TrackAlarmThread.cpp\<close>.  \<open>double\<close> is \<open>real\<close>: rounding
  and NaN are not modelled, and \<open>atan2\<close> does not tell the two zeros apart.
\<close>

section \<open>\<open>atan2\<close>\<close>

definition atan2 :: "real \<Rightarrow> real \<Rightarrow> real" where
  "atan2 y x =
     (if x > 0 then arctan (y / x)
      else if x < 0 then (if y \<ge> 0 then arctan (y / x) + pi else arctan (y / x) - pi)
      else if y > 0 then pi / 2 else if y < 0 then - (pi / 2) else 0)"

lemma sqrt_factor:
  assumes "x \<noteq> (0::real)"
  shows "sqrt (x\<^sup>2 + y\<^sup>2) = \<bar>x\<bar> * sqrt (1 + (y / x)\<^sup>2)"
proof -
  have "x\<^sup>2 + y\<^sup>2 = x\<^sup>2 * (1 + (y / x)\<^sup>2)" using assms by (simp add: power_divide distrib_left)
  then show ?thesis by (simp add: real_sqrt_mult)
qed

lemma polar_arctan:
  assumes "x \<noteq> (0::real)"
  shows "sqrt (x\<^sup>2 + y\<^sup>2) * cos (arctan (y / x)) = \<bar>x\<bar>"
    and "sqrt (x\<^sup>2 + y\<^sup>2) * sin (arctan (y / x)) = \<bar>x\<bar> * (y / x)"
proof -
  have "sqrt (1 + (y / x)\<^sup>2) \<noteq> 0"
    by (simp add: add_nonneg_eq_0_iff)
  then show "sqrt (x\<^sup>2 + y\<^sup>2) * cos (arctan (y / x)) = \<bar>x\<bar>"
    "sqrt (x\<^sup>2 + y\<^sup>2) * sin (arctan (y / x)) = \<bar>x\<bar> * (y / x)"
    unfolding sqrt_factor[OF assms] cos_arctan sin_arctan by auto
qed

lemma atan2_polar:
  "sqrt (x\<^sup>2 + y\<^sup>2) * cos (atan2 y x) = x" "sqrt (x\<^sup>2 + y\<^sup>2) * sin (atan2 y x) = y"
proof -
  consider "x > 0" | "x < 0" | "x = 0" by linarith
  then have "sqrt (x\<^sup>2 + y\<^sup>2) * cos (atan2 y x) = x \<and> sqrt (x\<^sup>2 + y\<^sup>2) * sin (atan2 y x) = y"
    by cases (use polar_arctan[of x y] in \<open>auto simp: atan2_def cos_add sin_add cos_diff sin_diff\<close>)
  then show "sqrt (x\<^sup>2 + y\<^sup>2) * cos (atan2 y x) = x" "sqrt (x\<^sup>2 + y\<^sup>2) * sin (atan2 y x) = y"
    by auto
qed

lemma atan2_bounds: "- pi < atan2 y x" "atan2 y x \<le> pi"
proof -
  have b: "- (pi / 2) < arctan (y / x)" "arctan (y / x) < pi / 2"
    by (rule arctan_lbound, rule arctan_ubound)
  have p: "0 < pi" by (rule pi_gt_zero)
  have n: "arctan (y / x) \<le> 0" if "x < 0" "y \<ge> 0"
    using that by (simp add: divide_le_0_iff)
  have q: "0 < arctan (y / x)" if "x < 0" "y < 0"
    using that by (simp add: zero_less_divide_iff)
  show "- pi < atan2 y x" "atan2 y x \<le> pi"
    using b p n q unfolding atan2_def by (auto split: if_splits)
qed

lemma atan2_quadrant: "0 \<le> x \<Longrightarrow> 0 \<le> y \<Longrightarrow> 0 \<le> atan2 y x \<and> atan2 y x \<le> pi / 2"
  using arctan_ubound[of "y / x"] by (auto simp: atan2_def zero_le_arctan_iff)

section \<open>\<open>commonfunc.cpp\<close>\<close>

definition EARTH_RADIUS :: real where "EARTH_RADIUS = 6378137"
definition EARTH_RADIUS2 :: real where "EARTH_RADIUS2 = 6371.393"

definition rad :: "real \<Rightarrow> real" where
  "rad d = d * pi / 180"

definition GetDistance :: "real \<Rightarrow> real \<Rightarrow> real \<Rightarrow> real \<Rightarrow> real" where
  "GetDistance lon1 lat1 lon2 lat2 =
     (let radLat1 = rad lat1; radLat2 = rad lat2;
          a = radLat1 - radLat2; b = rad lon1 - rad lon2;
          s = 2 * arcsin (sqrt ((sin (a / 2))\<^sup>2 + cos radLat1 * cos radLat2 * (sin (b / 2))\<^sup>2))
      in s * EARTH_RADIUS)"

text \<open>C's \<open>round\<close>: halves go away from zero.\<close>

definition c_round :: "real \<Rightarrow> real" where
  "c_round x = (if 0 \<le> x then of_int \<lfloor>x + 1 / 2\<rfloor> else - of_int \<lfloor>- x + 1 / 2\<rfloor>)"

definition GetDistance2 :: "real \<Rightarrow> real \<Rightarrow> real \<Rightarrow> real \<Rightarrow> real" where
  "GetDistance2 lat1 lng1 lat2 lng2 =
     (let radLat1 = lat1 * pi / 180; radLat2 = lat2 * pi / 180;
          a = radLat1 - radLat2; b = lng1 * pi / 180 - lng2 * pi / 180;
          dst = 2 * arcsin (sqrt ((sin (a / 2))\<^sup>2 + cos radLat1 * cos radLat2 * (sin (b / 2))\<^sup>2));
          dst1 = dst * EARTH_RADIUS2;
          dst2 = c_round (dst1 * 10000) / 10000
      in dst2 * 1000)"

definition getAngle2 :: "real \<Rightarrow> real \<Rightarrow> real \<Rightarrow> real \<Rightarrow> real" where
  "getAngle2 lat1 lng1 lat2 lng2 =
     (let r = atan2 \<bar>lng1 - lng2\<bar> \<bar>lat1 - lat2\<bar>;
          r1 = (if lng2 \<ge> lng1 then (if lat2 < lat1 then pi - r else r)
                else if lat2 \<ge> lat1 then 2 * pi - r else pi + r)
      in r1 * 180 / pi)"

text \<open>\<open>QVector2D\<close> as a pair; \<open>isNull\<close> is \<open>qFuzzyIsNull\<close>.\<close>

definition v_sub :: "point \<Rightarrow> point \<Rightarrow> point" where
  "v_sub p q = (fst p - fst q, snd p - snd q)"

definition v_dot :: "point \<Rightarrow> point \<Rightarrow> real" where
  "v_dot p q = fst p * fst q + snd p * snd q"

definition v_length :: "point \<Rightarrow> real" where
  "v_length p = sqrt (v_dot p p)"

definition v_along :: "point \<Rightarrow> real \<Rightarrow> point \<Rightarrow> point" where
  "v_along p t d = (fst p + t * fst d, snd p + t * snd d)"

definition pointToSegmentDistance :: "(real \<Rightarrow> bool) \<Rightarrow> point \<Rightarrow> point \<Rightarrow> point \<Rightarrow> real" where
  "pointToSegmentDistance isNull pt segmentStart segmentEnd =
     (let segmentDirection = v_sub segmentEnd segmentStart;
          vecFromStartToPoint = v_sub pt segmentStart;
          denom = v_dot segmentDirection segmentDirection
      in if isNull denom then v_length (v_sub pt segmentStart)
         else let t = v_dot vecFromStartToPoint segmentDirection / denom in
           if t < 0 then v_length (v_sub pt segmentStart)
           else if t > 1 then v_length (v_sub pt segmentEnd)
           else v_length (v_sub pt (v_along segmentStart t segmentDirection)))"

section \<open>\<open>alarm_geoproj.cpp\<close>\<close>

definition AlarmLatLongToMetres :: "real \<Rightarrow> real \<Rightarrow> point \<Rightarrow> point" where
  "AlarmLatLongToMetres lat0 lon0 ll =
     (let metersPerDegLat = 111320; metersPerDegLon = 111320 * cos (lat0 * pi / 180)
      in ((snd ll - lon0) * metersPerDegLon, (fst ll - lat0) * metersPerDegLat))"

section \<open>Head of \<open>TrackAlarmThread.cpp\<close>\<close>

definition rad2deg :: "real \<Rightarrow> real" where
  "rad2deg r = r * 180 / pi"

definition radians :: "real \<Rightarrow> real" where
  "radians degree = degree * pi / 180"

definition calculateBearing :: "real \<Rightarrow> real \<Rightarrow> real \<Rightarrow> real \<Rightarrow> real" where
  "calculateBearing lat1d lon1d lat2d lon2d =
     (let lat1 = radians lat1d; lon1 = radians lon1d; lat2 = radians lat2d; lon2 = radians lon2d;
          deltaLon = lon2 - lon1;
          y = sin deltaLon * cos lat2;
          x = cos lat1 * sin lat2 - sin lat1 * cos lat2 * cos deltaLon;
          bearingDeg = rad2deg (atan2 y x)
      in if bearingDeg < 0 then bearingDeg + 360 else bearingDeg)"

definition createCirclePolygon :: "point \<Rightarrow> real \<Rightarrow> nat \<Rightarrow> point list" where
  "createCirclePolygon center radius precision =
     map (\<lambda>i. let angle = 2 * pi * real i / real precision
              in (fst center + radius * cos angle, snd center + radius * sin angle)) [0..<precision]"

section \<open>Facts\<close>

definition hav :: "real \<Rightarrow> real \<Rightarrow> real \<Rightarrow> real \<Rightarrow> real" where
  "hav lon1 lat1 lon2 lat2 = (sin ((rad lat1 - rad lat2) / 2))\<^sup>2 +
     cos (rad lat1) * cos (rad lat2) * (sin ((rad lon1 - rad lon2) / 2))\<^sup>2"

lemma GetDistance_hav: "GetDistance lon1 lat1 lon2 lat2 = 2 * arcsin (sqrt (hav lon1 lat1 lon2 lat2)) * EARTH_RADIUS"
  by (simp add: GetDistance_def hav_def Let_def)

lemma cos_rad_nonneg: "-90 \<le> d \<Longrightarrow> d \<le> 90 \<Longrightarrow> 0 \<le> cos (rad d)"
proof -
  assume d: "-90 \<le> d" "d \<le> 90"
  have "d * pi \<le> 90 * pi" "-90 * pi \<le> d * pi"
    using mult_right_mono[OF d(2), of pi] mult_right_mono[OF d(1), of pi] by simp_all
  then show ?thesis by (intro cos_ge_zero) (simp_all add: rad_def)
qed

lemma sin_half_sq: "(sin (x / 2))\<^sup>2 = (1 - cos x) / 2" for x :: real
  using cos_double_sin[of "x / 2"] by simp

lemma hav_range:
  assumes "-90 \<le> lat1" "lat1 \<le> 90" "-90 \<le> lat2" "lat2 \<le> 90"
  shows "0 \<le> hav lon1 lat1 lon2 lat2" "hav lon1 lat1 lon2 lat2 \<le> 1"
proof -
  let ?p = "rad lat1" and ?q = "rad lat2" and ?b = "(rad lon1 - rad lon2) / 2"
  have c: "0 \<le> cos ?p * cos ?q" using assms by (simp add: cos_rad_nonneg)
  then show "0 \<le> hav lon1 lat1 lon2 lat2" by (simp add: hav_def)
  have s2: "(sin ?b)\<^sup>2 \<le> 1" using abs_sin_le_one[of ?b] by (simp add: abs_square_le_1)
  have half: "(sin ((?p - ?q) / 2))\<^sup>2 = (1 - cos (?p - ?q)) / 2"
    by (rule sin_half_sq)
  have "hav lon1 lat1 lon2 lat2 \<le> (sin ((?p - ?q) / 2))\<^sup>2 + cos ?p * cos ?q"
    using mult_left_mono[OF s2 c] by (simp add: hav_def)
  also have "\<dots> = (1 + cos (?p + ?q)) / 2"
    unfolding half by (simp add: cos_add cos_diff field_simps)
  also have "\<dots> \<le> 1" using cos_le_one[of "?p + ?q"] by simp
  finally show "hav lon1 lat1 lon2 lat2 \<le> 1" .
qed

lemma hav_sym: "hav lon1 lat1 lon2 lat2 = hav lon2 lat2 lon1 lat1"
proof -
  have "(sin ((x - y) / 2))\<^sup>2 = (sin ((y - x) / 2))\<^sup>2" for x y :: real
    using sin_minus[of "(x - y) / 2"] by (simp add: power2_eq_square minus_divide_left)
  then show ?thesis by (simp add: hav_def mult.commute)
qed

text \<open>
  The great-circle distance: for any two points with latitudes in -90..90 it is between 0
  and half the equatorial circumference, does not depend on the order of the points, and is 0
  for a point and itself.
\<close>

theorem GetDistance_metric_bounds:
  assumes "-90 \<le> lat1" "lat1 \<le> 90" "-90 \<le> lat2" "lat2 \<le> 90"
  shows "0 \<le> GetDistance lon1 lat1 lon2 lat2 \<and>
    GetDistance lon1 lat1 lon2 lat2 \<le> pi * EARTH_RADIUS \<and>
    GetDistance lon1 lat1 lon2 lat2 = GetDistance lon2 lat2 lon1 lat1 \<and>
    GetDistance lon1 lat1 lon1 lat1 = 0"
proof (intro conjI)
  let ?h = "sqrt (hav lon1 lat1 lon2 lat2)"
  have h: "0 \<le> ?h" "?h \<le> 1" using hav_range[OF assms, of lon1 lon2] by simp_all
  then have m: "-1 \<le> ?h" by linarith
  have "0 \<le> arcsin ?h" using arcsin_le_arcsin[of 0 ?h] h by simp
  moreover have "arcsin ?h \<le> pi / 2" using arcsin_ubound[OF m h(2)] .
  ultimately show "0 \<le> GetDistance lon1 lat1 lon2 lat2" "GetDistance lon1 lat1 lon2 lat2 \<le> pi * EARTH_RADIUS"
    by (simp_all add: GetDistance_hav EARTH_RADIUS_def)
  show "GetDistance lon1 lat1 lon2 lat2 = GetDistance lon2 lat2 lon1 lat1"
    unfolding GetDistance_hav by (subst hav_sym) (rule refl)
  show "GetDistance lon1 lat1 lon1 lat1 = 0"
    by (simp add: GetDistance_hav hav_def)
qed

theorem GetDistance_metric_bounds_witness:
  "GetDistance 120 30 121 31 = GetDistance 121 31 120 30 \<and> 0 \<le> GetDistance 120 30 121 31"
  using GetDistance_metric_bounds[of 30 31 120 121] by simp

lemma rad2deg_less: "rad2deg x \<le> 180" if "x \<le> pi"
  using that by (simp add: rad2deg_def divide_le_eq)

text \<open>
  A bearing is always in the half-open range 0..360, whatever the coordinates; the course
  tests downstream rely on it.
\<close>

theorem calculateBearing_range:
  "0 \<le> calculateBearing lat1 lon1 lat2 lon2 \<and> calculateBearing lat1 lon1 lat2 lon2 < 360"
proof -
  have r: "-180 < rad2deg (atan2 y x) \<and> rad2deg (atan2 y x) \<le> 180" for y x
    using atan2_bounds[of y x] rad2deg_less[of "atan2 y x"]
    by (simp add: rad2deg_def less_divide_eq)
  show ?thesis unfolding calculateBearing_def Let_def using r by (smt (verit))
qed

lemma getAngle2_rad:
  "getAngle2 lat1 lng1 lat2 lng2 * pi / 180 =
     (let r = atan2 \<bar>lng1 - lng2\<bar> \<bar>lat1 - lat2\<bar> in
      if lng2 \<ge> lng1 then (if lat2 < lat1 then pi - r else r)
      else if lat2 \<ge> lat1 then 2 * pi - r else pi + r)"
  by (simp add: getAngle2_def Let_def)

text \<open>
  \<open>getAngle2\<close> is the plane bearing from the first point to the second, clockwise from
  north: the unit vector at that angle, scaled by the planar distance, is the displacement in
  all four quadrants and on the axes.
\<close>

theorem getAngle2_direction:
  "sqrt ((lat2 - lat1)\<^sup>2 + (lng2 - lng1)\<^sup>2) * cos (getAngle2 lat1 lng1 lat2 lng2 * pi / 180) = lat2 - lat1 \<and>
   sqrt ((lat2 - lat1)\<^sup>2 + (lng2 - lng1)\<^sup>2) * sin (getAngle2 lat1 lng1 lat2 lng2 * pi / 180) = lng2 - lng1"
proof -
  let ?x = "\<bar>lat1 - lat2\<bar>" and ?y = "\<bar>lng1 - lng2\<bar>"
  have "(lat2 - lat1)\<^sup>2 + (lng2 - lng1)\<^sup>2 = ?x\<^sup>2 + ?y\<^sup>2"
    by (simp add: power2_commute)
  then have d: "sqrt ((lat2 - lat1)\<^sup>2 + (lng2 - lng1)\<^sup>2) = sqrt (?x\<^sup>2 + ?y\<^sup>2)" by simp
  show ?thesis
    unfolding getAngle2_rad d Let_def
    using atan2_polar[where x = ?x and y = ?y] by (auto simp: cos_diff sin_diff cos_add sin_add)
qed

lemma v_length_sq: "(v_length p)\<^sup>2 = v_dot p p"
  by (simp add: v_length_def v_dot_def)

lemma along_sq:
  "v_dot (v_sub p (v_along a t d)) (v_sub p (v_along a t d)) =
     v_dot (v_sub p a) (v_sub p a) - 2 * t * v_dot (v_sub p a) d + t\<^sup>2 * v_dot d d"
  by (simp add: v_dot_def v_sub_def v_along_def power2_eq_square algebra_simps)

lemma quadratic_min:
  fixes D b s :: real
  assumes D: "0 < D" and s: "0 \<le> s" "s \<le> 1"
  shows "b / D < 0 \<Longrightarrow> 0 \<le> - 2 * s * b + s\<^sup>2 * D"
    and "b / D > 1 \<Longrightarrow> - 2 * b + D \<le> - 2 * s * b + s\<^sup>2 * D"
    and "- 2 * (b / D) * b + (b / D)\<^sup>2 * D \<le> - 2 * s * b + s\<^sup>2 * D"
proof -
  show "0 \<le> - 2 * s * b + s\<^sup>2 * D" if "b / D < 0"
  proof -
    have "b \<le> 0" using that D by (simp add: divide_less_0_iff)
    then have "s * b \<le> 0" using s by (simp add: mult_nonneg_nonpos)
    moreover have "0 \<le> s\<^sup>2 * D" using D by simp
    ultimately show ?thesis by simp
  qed
  show "- 2 * b + D \<le> - 2 * s * b + s\<^sup>2 * D" if "b / D > 1"
  proof -
    have bD: "D \<le> b" using that D by (simp add: less_divide_eq)
    have "0 \<le> (1 - s) * (2 * b - (1 + s) * D)"
    proof (rule mult_nonneg_nonneg)
      have "(1 + s) * D \<le> 2 * D" using s D by (intro mult_right_mono) auto
      then show "0 \<le> 2 * b - (1 + s) * D" using bD by simp
    qed (use s in simp)
    then show ?thesis by (simp add: power2_eq_square algebra_simps)
  qed
  have "0 \<le> D * (s - b / D)\<^sup>2" using D by simp
  also have "\<dots> = (- 2 * s * b + s\<^sup>2 * D) - (- 2 * (b / D) * b + (b / D)\<^sup>2 * D)"
    using D by (simp add: power2_eq_square field_simps)
  finally show "- 2 * (b / D) * b + (b / D)\<^sup>2 * D \<le> - 2 * s * b + s\<^sup>2 * D" by simp
qed

lemma v_dot_pos: "v_dot d d \<noteq> 0 \<Longrightarrow> 0 < v_dot d d"
  by (metis v_length_sq power2_eq_square zero_le_square order_le_less)

text \<open>
  \<open>pointToSegmentDistance\<close> is the distance to the nearest point of the segment: no
  point of the segment is closer and some point is exactly that far.  (\<open>qFuzzyIsNull\<close> is
  taken at exact zero here, where the segment is a single point.)
\<close>

theorem segment_distance_is_minimum:
  assumes "0 \<le> s" "s \<le> 1"
  shows "pointToSegmentDistance (\<lambda>d. d = 0) p a b \<le> v_length (v_sub p (v_along a s (v_sub b a))) \<and>
    (\<exists>t. 0 \<le> t \<and> t \<le> 1 \<and>
       pointToSegmentDistance (\<lambda>d. d = 0) p a b = v_length (v_sub p (v_along a t (v_sub b a))))"
proof -
  let ?d = "v_sub b a" and ?D = "v_dot (v_sub b a) (v_sub b a)" and ?b = "v_dot (v_sub p a) (v_sub b a)"
  have at0: "v_length (v_sub p a) = v_length (v_sub p (v_along a 0 ?d))" by (simp add: v_along_def)
  have at1: "v_length (v_sub p b) = v_length (v_sub p (v_along a 1 ?d))" by (simp add: v_along_def v_sub_def)
  have le: "v_length (v_sub p (v_along a t ?d)) \<le> v_length (v_sub p (v_along a s ?d))"
    if "- 2 * t * ?b + t\<^sup>2 * ?D \<le> - 2 * s * ?b + s\<^sup>2 * ?D" for t
    using that by (simp add: v_length_def along_sq)
  show ?thesis
  proof (cases "?D = 0")
    case True
    then have "?d = (0, 0)"
      by (auto simp: v_dot_def v_sub_def sum_squares_eq_zero_iff[unfolded power2_eq_square, symmetric]
          add_nonneg_eq_0_iff)
    then have eq: "v_length (v_sub p (v_along a t ?d)) = v_length (v_sub p a)" for t
      by (simp add: v_along_def)
    have "pointToSegmentDistance (\<lambda>d. d = 0) p a b = v_length (v_sub p a)"
      using True by (simp add: pointToSegmentDistance_def Let_def)
    with eq show ?thesis by (metis order_refl zero_le_one)
  next
    case False
    then have D: "0 < ?D" by (rule v_dot_pos)
    consider "?b / ?D < 0" | "?b / ?D > 1" | "0 \<le> ?b / ?D" "?b / ?D \<le> 1" by linarith
    then show ?thesis
    proof cases
      case 1
      then have "pointToSegmentDistance (\<lambda>d. d = 0) p a b = v_length (v_sub p (v_along a 0 ?d))"
        using False at0 by (simp add: pointToSegmentDistance_def Let_def)
      moreover have "v_length (v_sub p (v_along a 0 ?d)) \<le> v_length (v_sub p (v_along a s ?d))"
        using quadratic_min(1)[OF D assms 1] by (intro le) simp
      ultimately show ?thesis by (intro conjI exI[of _ 0]) simp_all
    next
      case 2
      then have "pointToSegmentDistance (\<lambda>d. d = 0) p a b = v_length (v_sub p (v_along a 1 ?d))"
        using False at1 by (simp add: pointToSegmentDistance_def Let_def)
      moreover have "v_length (v_sub p (v_along a 1 ?d)) \<le> v_length (v_sub p (v_along a s ?d))"
        using quadratic_min(2)[OF D assms 2] by (intro le) simp
      ultimately show ?thesis by (intro conjI exI[of _ 1]) simp_all
    next
      case 3
      then have "pointToSegmentDistance (\<lambda>d. d = 0) p a b = v_length (v_sub p (v_along a (?b / ?D) ?d))"
        using False by (simp add: pointToSegmentDistance_def Let_def)
      moreover have "v_length (v_sub p (v_along a (?b / ?D) ?d)) \<le> v_length (v_sub p (v_along a s ?d))"
        by (intro le quadratic_min(3)[OF D assms])
      ultimately show ?thesis using 3 by (intro conjI exI[of _ "?b / ?D"]) simp_all
    qed
  qed
qed

theorem segment_distance_is_minimum_witness:
  "pointToSegmentDistance (\<lambda>d. d = 0) (1, 1) (0, 0) (2, 0)
     \<le> v_length (v_sub (1, 1) (v_along (0, 0) (1 / 4) (v_sub (2, 0) (0, 0))))"
  using segment_distance_is_minimum[of "1 / 4" "(1, 1)" "(0, 0)" "(2, 0)"] by simp

end
