(* ===== verification/Threat_Assessment.thy ===== *)
theory Threat_Assessment
  imports Target_Type_Fusion Geometry
begin

text \<open>
  The threat assessment of \<open>TrackAlarmThread.cpp\<close>: the bit mask of a target type
  (\<open>convertTargetTypeStringToBitmask\<close>), the weighted score
  (\<open>calculateThreatAssessment\<close>) and the time a target needs to reach a protected circle
  (\<open>calculateTimeToProtectArea\<close>).
\<close>

section \<open>Target types as bits\<close>

definition w_xunfeidan :: qstring where "w_xunfeidan = [0x5DE1, 0x98DE, 0x5F39]"
definition w_weizhimubiao :: qstring where "w_weizhimubiao = [0x672A, 0x77E5, 0x76EE, 0x6807]"

definition convertTargetTypeStringToBitmask :: "qt_text \<Rightarrow> qstring \<Rightarrow> int" where
  "convertTargetTypeStringToBitmask T targetType =
     (if targetType = [] then 0
      else let lowerType = toLower T targetType in
        if lowerType = qs ''ship'' then or (or (or (2 ^ 1) (2 ^ 2)) (2 ^ 3)) (2 ^ 4)
        else if lowerType = qs ''speedboat'' \<or> lowerType = qs ''yacht'' \<or> lowerType = w_youting then 2 ^ 1
        else if lowerType = qs ''buoy'' \<or> lowerType = w_fubiao then 2 ^ 2
        else if lowerType = qs ''cargoship'' \<or> lowerType = qs ''cargo'' \<or> lowerType = w_huolun then 2 ^ 3
        else if lowerType = qs ''fishingboat'' \<or> lowerType = qs ''fishing'' \<or> lowerType = w_yuchuan then 2 ^ 4
        else if lowerType = qs ''uav'' \<or> lowerType = qs ''drone'' \<or> lowerType = w_wurenji then 2 ^ 5
        else if lowerType = qs ''missile'' \<or> lowerType = qs ''missle'' \<or> lowerType = w_xunfeidan then 2 ^ 6
        else if lowerType = qs ''unknown'' \<or> lowerType = w_weizhi \<or> lowerType = w_weizhimubiao then 2 ^ 7
        else 0)"

section \<open>The score\<close>

record DetectionTypeResult =
  det_found :: bool
  det_final :: qstring
  det_llm :: qstring
  det_cam :: qstring
  det_uav :: qstring

record ThreatAssessmentParams =
  tp_groupId :: int
  tp_areaId :: int
  seaSpeedboatScore :: real
  seaWarshipScore :: real
  seaMotorboatScore :: real
  seaFishingBoatScore :: real
  seaShipScore :: real
  seaCargoShipScore :: real
  seaUnknownScore :: real
  seaBuoyScore :: real
  airDroneScore :: real
  airDroneSwarmScore :: real
  airCompoundWingScore :: real
  airRotorcraftScore :: real
  airAircraftScore :: real
  airBirdScore :: real
  airBirdFlockScore :: real
  typeWeight :: real
  angleWeight :: real
  speedWeight :: real
  distanceWeight :: real
  speedThresholdLow :: real
  speedThresholdHigh :: real
  maxEffectiveDistance :: real

definition default_params :: "int \<Rightarrow> int \<Rightarrow> ThreatAssessmentParams" where
  "default_params gId aId = \<lparr>tp_groupId = gId, tp_areaId = aId, seaSpeedboatScore = 10, seaWarshipScore = 10,
     seaMotorboatScore = 8, seaFishingBoatScore = 4, seaShipScore = 4, seaCargoShipScore = 2, seaUnknownScore = 5,
     seaBuoyScore = 0, airDroneScore = 10, airDroneSwarmScore = 10, airCompoundWingScore = 10,
     airRotorcraftScore = 10, airAircraftScore = 0, airBirdScore = 0, airBirdFlockScore = 0,
     typeWeight = 0.42, angleWeight = 0.18, speedWeight = 0.16, distanceWeight = 0.24,
     speedThresholdLow = 5, speedThresholdHigh = 30, maxEffectiveDistance = 50\<rparr>"

record ThreatAssessmentResult =
  targetTypeScore :: real
  capabilityScore :: real
  speedScore :: real
  distanceScore :: real
  weightedTypeScore :: real
  weightedSpeedScore :: real
  weightedAngleScore :: real
  weightedDistanceScore :: real
  totalThreatLevel :: real
  threatDescription :: qstring

text \<open>The type used for the score: a drone when the cognition has none and the track is marked as one.\<close>

definition assessed_type :: "SPxTrack \<Rightarrow> DetectionTypeResult \<Rightarrow> qstring" where
  "assessed_type track det = (if det_final det = [] \<and> min_reserved1 track = 3 then qs ''drone'' else det_final det)"

definition type_score :: "ThreatAssessmentParams \<Rightarrow> qstring \<Rightarrow> real" where
  "type_score p t =
     (if t = [] then 0
      else if t = qs ''speedboat'' \<or> t = qs ''yacht'' then seaSpeedboatScore p
      else if t = qs ''warship'' then seaWarshipScore p
      else if t = qs ''motorboat'' then seaMotorboatScore p
      else if t = qs ''fishingboat'' then seaFishingBoatScore p
      else if t = qs ''ship'' then seaShipScore p
      else if t = qs ''cargoship'' then seaCargoShipScore p
      else if t = qs ''buoy'' then seaBuoyScore p
      else if t = qs ''uav'' \<or> t = qs ''drone'' then airDroneScore p
      else if t = qs ''drone_swarm'' then airDroneSwarmScore p
      else if t = qs ''compound_wing'' then airCompoundWingScore p
      else if t = qs ''rotorcraft'' then airRotorcraftScore p
      else if t = qs ''aircraft'' then airAircraftScore p
      else if t = qs ''bird'' then airBirdScore p
      else if t = qs ''bird_flock'' then airBirdFlockScore p
      else seaUnknownScore p)"

definition speed_score :: "ThreatAssessmentParams \<Rightarrow> real \<Rightarrow> real" where
  "speed_score p speed =
     (if speed < speedThresholdLow p then 0
      else if speed \<le> speedThresholdHigh p
      then (speed - speedThresholdLow p) / (speedThresholdHigh p - speedThresholdLow p) * 10
      else 10)"

text \<open>The distance that counts: to the protected circle's centre, to the base point, or the range.\<close>

definition assessed_distance :: "AlarmLogicConfig \<Rightarrow> SPxTrack \<Rightarrow> point option \<Rightarrow> real" where
  "assessed_distance al track protectCenter =
     (case protectCenter of
        Some c \<Rightarrow> GetDistance (longDegs track) (latDegs track) (snd c) (fst c)
      | None \<Rightarrow>
          if useBasePoint al = 1
          then GetDistance (longDegs track) (latDegs track) (basePointLon al) (basePointLat al)
          else rangeMetres track)"

definition distance_score :: "ThreatAssessmentParams \<Rightarrow> real \<Rightarrow> real" where
  "distance_score p d =
     (if d > 0 \<and> maxEffectiveDistance p > 0
      then max 0 ((maxEffectiveDistance p - d) / maxEffectiveDistance p * 10) else 0)"

definition capability_score :: "qstring \<Rightarrow> bool \<Rightarrow> real \<Rightarrow> real \<Rightarrow> real" where
  "capability_score t hasProtectArea entryAngle courseDeg =
     (if t = qs ''buoy'' then 0
      else if hasProtectArea then \<bar>(180 - entryAngle) / 180 * 10\<bar>
      else \<bar>(180 - courseDeg) / 180 * 10\<bar>)"

definition clamp_total :: "real \<Rightarrow> real" where
  "clamp_total x = (let y = (if x < 0 then 0 else x) in if y > 100 then 100 else y)"

definition threat_text :: "real \<Rightarrow> qstring" where
  "threat_text lvl =
     (if lvl \<ge> 70 then [0x9AD8, 0x5A01, 0x80C1]
      else if lvl \<ge> 30 then [0x4E2D, 0x5A01, 0x80C1]
      else if lvl > 0 then [0x4F4E, 0x5A01, 0x80C1]
      else [0x65E0, 0x5A01, 0x80C1])"

definition calculateThreatAssessment :: "AlarmLogicConfig \<Rightarrow> SPxTrack \<Rightarrow> DetectionTypeResult \<Rightarrow> ThreatAssessmentParams
    \<Rightarrow> point option \<Rightarrow> real \<Rightarrow> ThreatAssessmentResult" where
  "calculateThreatAssessment al track det p protectCenter entryAngle =
     (let t = assessed_type track det;
          ts = type_score p t;
          ss = speed_score p (speedMps track);
          ds = distance_score p (assessed_distance al track protectCenter);
          cs = capability_score t (protectCenter \<noteq> None) entryAngle (courseDegrees track);
          wt = ts * typeWeight p / 10 * 100;
          wa = cs * angleWeight p / 10 * 100;
          ws = ss * speedWeight p / 10 * 100;
          wd = ds * distanceWeight p / 10 * 100;
          lvl = clamp_total (wt + wa + ws + wd)
      in \<lparr>targetTypeScore = ts, capabilityScore = cs, speedScore = ss, distanceScore = ds,
          weightedTypeScore = wt, weightedSpeedScore = ws, weightedAngleScore = wa, weightedDistanceScore = wd,
          totalThreatLevel = lvl, threatDescription = threat_text lvl\<rparr>)"

section \<open>The time to the protected circle\<close>

definition calculateTimeToProtectArea :: "SPxTrack \<Rightarrow> point \<Rightarrow> real \<Rightarrow> real" where
  "calculateTimeToProtectArea track protectCenter protectRadius =
     (if GetDistance (longDegs track) (latDegs track) (snd protectCenter) (fst protectCenter) \<le> protectRadius then 0
      else if speedMps track \<le> 0.1 then -1
      else let bearingToCenter = calculateBearing (latDegs track) (longDegs track) (fst protectCenter) (snd protectCenter);
               courseDiff0 = \<bar>courseDegrees track - bearingToCenter\<bar>;
               courseDiff = (if courseDiff0 > 180 then 360 - courseDiff0 else courseDiff0)
           in if courseDiff > 90 then -1
           else let courseRad = courseDegrees track * pi / 180;
                    targetX = (longDegs track - snd protectCenter) * 111320 * cos (fst protectCenter * pi / 180);
                    targetY = (latDegs track - fst protectCenter) * 111320;
                    dirX = sin courseRad; dirY = cos courseRad;
                    a = dirX * dirX + dirY * dirY;
                    b = 2 * (targetX * dirX + targetY * dirY);
                    c = targetX * targetX + targetY * targetY - protectRadius * protectRadius;
                    discriminant = b * b - 4 * a * c
                in if discriminant < 0 then -1
                else let t1 = (- b - sqrt discriminant) / (2 * a);
                         t2 = (- b + sqrt discriminant) / (2 * a);
                         t = (if t1 > 0 \<and> t2 > 0 then min t1 t2 else if t1 > 0 then t1 else if t2 > 0 then t2 else -1)
                     in if t > 0 then t / speedMps track else -1)"

section \<open>Facts: the score\<close>

definition sane_params :: "ThreatAssessmentParams \<Rightarrow> bool" where
  "sane_params p \<longleftrightarrow>
     list_all (\<lambda>x. 0 \<le> x \<and> x \<le> 10) [seaSpeedboatScore p, seaWarshipScore p, seaMotorboatScore p, seaFishingBoatScore p,
       seaShipScore p, seaCargoShipScore p, seaUnknownScore p, seaBuoyScore p, airDroneScore p, airDroneSwarmScore p,
       airCompoundWingScore p, airRotorcraftScore p, airAircraftScore p, airBirdScore p, airBirdFlockScore p] \<and>
     list_all (\<lambda>w. 0 \<le> w) [typeWeight p, angleWeight p, speedWeight p, distanceWeight p] \<and>
     typeWeight p + angleWeight p + speedWeight p + distanceWeight p \<le> 1 \<and>
     speedThresholdLow p < speedThresholdHigh p"

lemma sane_default: "sane_params (default_params g a)"
  by (simp add: sane_params_def default_params_def)

lemma type_score_range: "sane_params p \<Longrightarrow> 0 \<le> type_score p t \<and> type_score p t \<le> 10"
  by (simp add: type_score_def sane_params_def)

lemma speed_score_range: "sane_params p \<Longrightarrow> 0 \<le> speed_score p v \<and> speed_score p v \<le> 10"
  by (auto simp: speed_score_def sane_params_def divide_simps)

lemma distance_score_range: "0 \<le> distance_score p d \<and> distance_score p d \<le> 10"
  by (auto simp: distance_score_def divide_simps)

lemma capability_score_range:
  "0 \<le> e \<Longrightarrow> e \<le> 360 \<Longrightarrow> 0 \<le> c \<Longrightarrow> c \<le> 360 \<Longrightarrow> 0 \<le> capability_score t h e c \<and> capability_score t h e c \<le> 10"
  by (auto simp: capability_score_def abs_le_iff divide_simps)

lemma clamp_total_range: "0 \<le> clamp_total x \<and> clamp_total x \<le> 100"
  by (simp add: clamp_total_def Let_def)

lemma clamp_total_id: "0 \<le> x \<Longrightarrow> x \<le> 100 \<Longrightarrow> clamp_total x = x"
  by (simp add: clamp_total_def Let_def)

lemma clamp_total_mono: "x \<le> y \<Longrightarrow> clamp_total x \<le> clamp_total y"
  by (simp add: clamp_total_def Let_def)

lemma speed_score_mono: "sane_params p \<Longrightarrow> v \<le> w \<Longrightarrow> speed_score p v \<le> speed_score p w"
  by (auto simp: speed_score_def sane_params_def divide_simps)

lemma distance_score_antimono: "0 < d \<Longrightarrow> d \<le> d' \<Longrightarrow> distance_score p d' \<le> distance_score p d"
  by (auto simp: distance_score_def max_def divide_simps)

section \<open>Facts: the time to the circle\<close>

text \<open>The course of the target in the plane the code uses: how far outside the circle it is after \<open>s\<close> seconds.\<close>

definition planar_offset :: "SPxTrack \<Rightarrow> point \<Rightarrow> point" where
  "planar_offset track c =
     ((longDegs track - snd c) * 111320 * cos (fst c * pi / 180), (latDegs track - fst c) * 111320)"

definition planar_gap :: "SPxTrack \<Rightarrow> point \<Rightarrow> real \<Rightarrow> real \<Rightarrow> real" where
  "planar_gap track c r s =
     (fst (planar_offset track c) + s * speedMps track * sin (courseDegrees track * pi / 180))\<^sup>2
       + (snd (planar_offset track c) + s * speedMps track * cos (courseDegrees track * pi / 180))\<^sup>2 - r\<^sup>2"

text \<open>The target moves towards the circle: within 90 degrees of the bearing to its centre.\<close>

definition heads_for :: "SPxTrack \<Rightarrow> point \<Rightarrow> bool" where
  "heads_for track c \<longleftrightarrow>
     (let d = \<bar>courseDegrees track - calculateBearing (latDegs track) (longDegs track) (fst c) (snd c)\<bar>
      in (if d > 180 then 360 - d else d) \<le> 90)"

definition first_hit :: "real \<Rightarrow> real \<Rightarrow> real" where
  "first_hit b c =
     (if b * b - 4 * c < 0 then -1
      else let t1 = (- b - sqrt (b * b - 4 * c)) / 2; t2 = (- b + sqrt (b * b - 4 * c)) / 2
           in if t1 > 0 \<and> t2 > 0 then min t1 t2 else if t1 > 0 then t1 else if t2 > 0 then t2 else -1)"

lemma planar_gap_quadratic:
  fixes track c r
  defines "X \<equiv> fst (planar_offset track c)" and "Y \<equiv> snd (planar_offset track c)"
    and "dx \<equiv> sin (courseDegrees track * pi / 180)" and "dy \<equiv> cos (courseDegrees track * pi / 180)"
  shows "planar_gap track c r s
    = (s * speedMps track)\<^sup>2 + 2 * (X * dx + Y * dy) * (s * speedMps track) + (X * X + Y * Y - r * r)"
proof -
  define u where "u = s * speedMps track"
  have one: "dx\<^sup>2 + dy\<^sup>2 = 1" by (simp add: dx_def dy_def)
  have "(X + u * dx)\<^sup>2 + (Y + u * dy)\<^sup>2 - r\<^sup>2 = u\<^sup>2 * (dx\<^sup>2 + dy\<^sup>2) + 2 * (X * dx + Y * dy) * u + (X * X + Y * Y - r * r)"
    by (simp add: power2_eq_square algebra_simps)
  then show ?thesis
    by (simp add: one planar_gap_def X_def Y_def dx_def dy_def u_def)
qed

lemma time_eq_first_hit:
  assumes "\<not> GetDistance (longDegs track) (latDegs track) (snd c) (fst c) \<le> r" "0.1 < speedMps track" "heads_for track c"
  shows "calculateTimeToProtectArea track c r
    = (let X = fst (planar_offset track c); Y = snd (planar_offset track c);
           t = first_hit (2 * (X * sin (courseDegrees track * pi / 180) + Y * cos (courseDegrees track * pi / 180)))
                 (X * X + Y * Y - r * r)
       in if t > 0 then t / speedMps track else -1)"
proof -
  have one: "sin x * sin x + cos x * cos x = 1" for x :: real
    using sin_cos_squared_add[of x] by (simp add: power2_eq_square)
  have slow: "\<not> speedMps track \<le> 0.1" using assms(2) by simp
  have ahead: "\<not> (if 180 < \<bar>courseDegrees track - calculateBearing (latDegs track) (longDegs track) (fst c) (snd c)\<bar>
      then 360 - \<bar>courseDegrees track - calculateBearing (latDegs track) (longDegs track) (fst c) (snd c)\<bar>
      else \<bar>courseDegrees track - calculateBearing (latDegs track) (longDegs track) (fst c) (snd c)\<bar>) > 90"
    using assms(3) unfolding heads_for_def Let_def by simp
  show ?thesis
    unfolding calculateTimeToProtectArea_def first_hit_def planar_offset_def Let_def fst_conv snd_conv one
      if_not_P[OF assms(1)] if_not_P[OF slow] if_not_P[OF ahead] mult_1_right
    by simp
qed

lemma first_hit_spec:
  assumes c: "0 < (c::real)"
  shows "(first_hit b c = -1 \<and> (\<forall>u\<ge>0. 0 < u\<^sup>2 + b * u + c))
    \<or> (0 < first_hit b c \<and> (first_hit b c)\<^sup>2 + b * first_hit b c + c = 0
       \<and> (\<forall>u. 0 \<le> u \<longrightarrow> u < first_hit b c \<longrightarrow> 0 < u\<^sup>2 + b * u + c))"
proof (cases "b * b - 4 * c < 0")
  case True
  have "0 < u\<^sup>2 + b * u + c" for u
  proof -
    have "u\<^sup>2 + b * u + c = (u + b / 2)\<^sup>2 + (4 * c - b * b) / 4"
      by (simp add: power2_eq_square field_simps)
    moreover have "0 \<le> (u + b / 2)\<^sup>2" by simp
    moreover have "0 < (4 * c - b * b) / 4" using True by simp
    ultimately show ?thesis by linarith
  qed
  then show ?thesis using True by (simp add: first_hit_def)
next
  case False
  define q where "q = sqrt (b * b - 4 * c)"
  define t1 where "t1 = (- b - q) / 2"
  define t2 where "t2 = (- b + q) / 2"
  have q: "0 \<le> q" "q * q = b * b - 4 * c" using False by (simp_all add: q_def)
  have le: "t1 \<le> t2" using q by (simp add: t1_def t2_def)
  have prod: "t1 * t2 = c" using q by (simp add: t1_def t2_def field_simps)
  have factor: "u\<^sup>2 + b * u + c = (u - t1) * (u - t2)" for u
    using prod by (simp add: t1_def t2_def power2_eq_square field_simps)
  have hit: "first_hit b c = (if t1 > 0 then t1 else if t2 > 0 then t2 else -1)"
    using False le by (simp add: first_hit_def Let_def t1_def t2_def q_def)
  have "(0 < t1 \<and> 0 < t2) \<or> (t1 < 0 \<and> t2 < 0)" using prod c by (metis zero_less_mult_iff)
  then show ?thesis
  proof
    assume t: "0 < t1 \<and> 0 < t2"
    have "0 < (u - t1) * (u - t2)" if "u < t1" for u
      using that le by (intro mult_neg_neg) simp_all
    with t show ?thesis by (simp add: hit factor)
  next
    assume t: "t1 < 0 \<and> t2 < 0"
    have "0 < (u - t1) * (u - t2)" if "0 \<le> u" for u
      using that t by (intro mult_pos_pos) simp_all
    with t show ?thesis by (simp add: hit factor)
  qed
qed

section \<open>What the assessment guarantees\<close>

text \<open>Every contribution lies in its share of the total, so the final clamping changes nothing.\<close>

lemma weighted_range:
  fixes x w :: real
  assumes "0 \<le> x \<and> x \<le> 10" "0 \<le> w"
  shows "0 \<le> x * w / 10 * 100" "x * w / 10 * 100 \<le> 100 * w"
  using assms mult_right_mono[of x 10 w] by (simp_all add: mult.commute)

text \<open>
  C40. The score: with scores between 0 and 10 and non-negative weights that sum to at most one, the
  total is the sum of the four weighted contributions (the clamping never acts), each
  contribution stays within its weight, and the total is between 0 and 100.
\<close>

theorem threat_total_exact:
  assumes p: "sane_params p" and e: "0 \<le> entryAngle" "entryAngle \<le> 360"
    and c: "0 \<le> courseDegrees track" "courseDegrees track \<le> 360"
    and r: "r = calculateThreatAssessment al track det p protectCenter entryAngle"
  shows "totalThreatLevel r = weightedTypeScore r + weightedAngleScore r + weightedSpeedScore r + weightedDistanceScore r
    \<and> (0 \<le> weightedTypeScore r \<and> weightedTypeScore r \<le> 100 * typeWeight p)
    \<and> (0 \<le> weightedAngleScore r \<and> weightedAngleScore r \<le> 100 * angleWeight p)
    \<and> (0 \<le> weightedSpeedScore r \<and> weightedSpeedScore r \<le> 100 * speedWeight p)
    \<and> (0 \<le> weightedDistanceScore r \<and> weightedDistanceScore r \<le> 100 * distanceWeight p)
    \<and> 0 \<le> totalThreatLevel r \<and> totalThreatLevel r \<le> 100"
proof -
  have w: "0 \<le> typeWeight p" "0 \<le> angleWeight p" "0 \<le> speedWeight p" "0 \<le> distanceWeight p"
    "typeWeight p + angleWeight p + speedWeight p + distanceWeight p \<le> 1"
    using p by (simp_all add: sane_params_def)
  note parts = weighted_range[OF type_score_range[OF p] w(1), of "assessed_type track det"]
    weighted_range[OF capability_score_range[OF e c] w(2), of "assessed_type track det" "protectCenter \<noteq> None"]
    weighted_range[OF speed_score_range[OF p] w(3), of "speedMps track"]
    weighted_range[OF distance_score_range w(4), of p "assessed_distance al track protectCenter"]
  show ?thesis
    unfolding r calculateThreatAssessment_def Let_def ThreatAssessmentResult.simps
    by (intro conjI clamp_total_id clamp_total_range[THEN conjunct1] clamp_total_range[THEN conjunct2])
      (use parts w in linarith)+
qed

definition sample_params :: ThreatAssessmentParams where
  "sample_params = default_params 1 1"

definition sample_boat :: SPxTrack where
  "sample_boat = zero_track\<lparr>speedMps := 30, courseDegrees := 0, rangeMetres := 25\<rparr>"

definition sample_detection :: DetectionTypeResult where
  "sample_detection = \<lparr>det_found = True, det_final = qs ''speedboat'', det_llm = [], det_cam = [], det_uav = []\<rparr>"

theorem threat_total_exact_witness:
  "totalThreatLevel (calculateThreatAssessment default_logic sample_boat sample_detection sample_params None 0)
     = 88 \<and> \<not> 100 < totalThreatLevel (calculateThreatAssessment default_logic sample_boat sample_detection sample_params None 0)"
proof -
  have "sane_params sample_params" by (simp add: sample_params_def sane_default)
  from threat_total_exact[of sample_params 0 sample_boat _ default_logic sample_detection None, OF this _ _ _ _ refl]
  show ?thesis
    by (simp add: sample_params_def sample_boat_def zero_track_def calculateThreatAssessment_def
        sample_detection_def assessed_type_def type_score_def default_params_def speed_score_def capability_score_def
        distance_score_def assessed_distance_def default_logic_def qs_def Let_def)
qed

text \<open>
  A faster target is never rated lower: with everything else equal, the total threat grows (weakly) with
  the speed, and its speed contribution with it.
\<close>

theorem threat_monotone_in_speed:
  assumes p: "sane_params p" and le: "v \<le> w"
  shows "totalThreatLevel (calculateThreatAssessment al (track\<lparr>speedMps := v\<rparr>) det p protectCenter entryAngle)
      \<le> totalThreatLevel (calculateThreatAssessment al (track\<lparr>speedMps := w\<rparr>) det p protectCenter entryAngle)"
proof -
  have "0 \<le> speedWeight p" using p by (simp add: sane_params_def)
  then have "speed_score p v * speedWeight p \<le> speed_score p w * speedWeight p"
    by (intro mult_right_mono speed_score_mono[OF p le])
  moreover have "assessed_type (track\<lparr>speedMps := x\<rparr>) det = assessed_type track det"
    "assessed_distance al (track\<lparr>speedMps := x\<rparr>) protectCenter = assessed_distance al track protectCenter" for x
    by (simp_all add: assessed_type_def assessed_distance_def split: option.splits)
  ultimately show ?thesis
    by (simp add: calculateThreatAssessment_def Let_def) (intro clamp_total_mono; simp)
qed

theorem threat_monotone_in_speed_witness:
  "totalThreatLevel (calculateThreatAssessment default_logic (sample_boat\<lparr>speedMps := 3\<rparr>) sample_detection sample_params None 0)
     \<le> totalThreatLevel (calculateThreatAssessment default_logic (sample_boat\<lparr>speedMps := 12\<rparr>) sample_detection sample_params None 0)"
  using threat_monotone_in_speed[of sample_params 3 12] sane_default by (simp add: sample_params_def)

text \<open>
  The time to the protected circle is the first time: for a moving target that starts outside the
  circle and heads for it, the planar model either never enters the circle (and -1 is returned),
  or the time returned is positive, the target is then exactly on the circle and strictly outside before.
\<close>

theorem time_to_protect_is_first_entry:
  assumes out: "\<not> GetDistance (longDegs track) (latDegs track) (snd c) (fst c) \<le> r"
    and fast: "0.1 < speedMps track" and heads: "heads_for track c" and gap0: "0 < planar_gap track c r 0"
    and T: "T = calculateTimeToProtectArea track c r"
  shows "(T = -1 \<and> (\<forall>s. 0 \<le> s \<longrightarrow> 0 < planar_gap track c r s))
    \<or> (0 < T \<and> planar_gap track c r T = 0 \<and> (\<forall>s. 0 \<le> s \<longrightarrow> s < T \<longrightarrow> 0 < planar_gap track c r s))"
proof -
  define X where "X = fst (planar_offset track c)"
  define Y where "Y = snd (planar_offset track c)"
  define b where "b = 2 * (X * sin (courseDegrees track * pi / 180) + Y * cos (courseDegrees track * pi / 180))"
  define k where "k = X * X + Y * Y - r * r"
  define v where "v = speedMps track"
  have v: "0 < v" using fast by (simp add: v_def)
  have gap: "planar_gap track c r s = (s * v)\<^sup>2 + b * (s * v) + k" for s
    by (simp add: planar_gap_quadratic b_def k_def X_def Y_def v_def)
  have k: "0 < k" using gap0 by (simp add: gap)
  have T': "T = (if first_hit b k > 0 then first_hit b k / v else -1)"
    by (simp add: T time_eq_first_hit[OF out fast heads] b_def k_def X_def Y_def v_def Let_def)
  from first_hit_spec[OF k, of b] show ?thesis
  proof
    assume h: "first_hit b k = - 1 \<and> (\<forall>u\<ge>0. 0 < u\<^sup>2 + b * u + k)"
    then have "0 < planar_gap track c r s" if "0 \<le> s" for s using that v by (simp add: gap)
    with h show ?thesis by (simp add: T')
  next
    assume h: "0 < first_hit b k \<and> (first_hit b k)\<^sup>2 + b * first_hit b k + k = 0
      \<and> (\<forall>u. 0 \<le> u \<longrightarrow> u < first_hit b k \<longrightarrow> 0 < u\<^sup>2 + b * u + k)"
    then have "0 < planar_gap track c r s" if "0 \<le> s" "s < T" for s
      using that v by (simp add: gap T' pos_less_divide_eq)
    with h v show ?thesis by (simp add: T' gap)
  qed
qed

definition polar_boat :: SPxTrack where
  "polar_boat = zero_track\<lparr>latDegs := 90, speedMps := 10, courseDegrees := 180\<rparr>"

lemma polar_boat_facts:
  "\<not> GetDistance (longDegs polar_boat) (latDegs polar_boat) 0 0 \<le> 1000"
  "heads_for polar_boat (0, 0)" "0 < planar_gap polar_boat (0, 0) 1000 0"
  "planar_gap polar_boat (0, 0) 1000 ((90 * 111320 - 1000) / 10) = 0"
proof -
  have "arcsin (sqrt ((sqrt 2 / 2)\<^sup>2)) = pi / 4"
    using arcsin_sin[of "pi / 4"] pi_gt_zero by (simp add: sin_45 real_sqrt_divide)
  then have "GetDistance 0 90 0 0 = pi / 2 * 6378137"
    by (simp add: GetDistance_def rad_def EARTH_RADIUS_def Let_def sin_45)
  then show "\<not> GetDistance (longDegs polar_boat) (latDegs polar_boat) 0 0 \<le> 1000"
    using pi_ge_two by (simp add: polar_boat_def zero_track_def)
  have "calculateBearing 90 0 0 0 = 180"
    by (simp add: calculateBearing_def radians_def rad2deg_def atan2_def Let_def)
  then show "heads_for polar_boat (0, 0)" by (simp add: heads_for_def polar_boat_def zero_track_def)
  show "0 < planar_gap polar_boat (0, 0) 1000 0"
    "planar_gap polar_boat (0, 0) 1000 ((90 * 111320 - 1000) / 10) = 0"
    by (simp_all add: planar_gap_def planar_offset_def polar_boat_def zero_track_def)
qed

theorem time_to_protect_is_first_entry_witness:
  "0 < calculateTimeToProtectArea polar_boat (0, 0) 1000
    \<and> planar_gap polar_boat (0, 0) 1000 (calculateTimeToProtectArea polar_boat (0, 0) 1000) = 0"
proof -
  have "0.1 < speedMps polar_boat" by (simp add: polar_boat_def)
  from time_to_protect_is_first_entry[of polar_boat "(0, 0)" 1000, OF _ this polar_boat_facts(2,3) refl]
  show ?thesis using polar_boat_facts(1,4) by (force simp: less_le)
qed

text \<open>
  The bit masks do not cover the type list of the fusion: a warship, a motorboat and a bird are
  judged types with a score of their own (and the first two are ship subtypes), yet
  \<open>convertTargetTypeStringToBitmask\<close> gives 0 for them, so that no
  detection mask of a rule can select them, while every mask of a subtype it knows is part of the mask of a ship.
\<close>

theorem bitmask_misses_judged_types:
  "isShipSubtype ascii_text (qs ''warship'') \<and> isShipSubtype ascii_text (qs ''motorboat'')
   \<and> convertTargetTypeStringToBitmask ascii_text (qs ''warship'') = 0
   \<and> convertTargetTypeStringToBitmask ascii_text (qs ''motorboat'') = 0
   \<and> convertTargetTypeStringToBitmask ascii_text (qs ''bird'') = 0
   \<and> and (convertTargetTypeStringToBitmask ascii_text (qs ''ship''))
         (convertTargetTypeStringToBitmask ascii_text (qs ''FishingBoat'')) = 16"
  by code_simp

end
