(* ===== verification/Alarm_Content.thy ===== *)
theory Alarm_Content
  imports Threat_Assessment
begin

text \<open>
  The evidence written into an alarm (\<open>AlarmContentBuilder.cpp\<close>): the label of the target type,
  the list of rule conditions that hold, the threat contributions, and the JSON object that carries them.
  A text built with \<open>QString::arg\<close> is the concatenation of its pieces (the inserted texts contain no
  place marker).  The database, the number format and the JSON printer are parameters.
\<close>

section \<open>Texts\<close>

definition c_chuanbo :: qstring where "c_chuanbo = [0x8239, 0x8236]"
definition c_kuaiting :: qstring where "c_kuaiting = [0x5FEB, 0x8247]"
definition c_youting :: qstring where "c_youting = [0x6E38, 0x8247]"
definition c_fubiao :: qstring where "c_fubiao = [0x6D6E, 0x6807]"
definition c_huolun :: qstring where "c_huolun = [0x8D27, 0x8F6E]"
definition c_yuchuan :: qstring where "c_yuchuan = [0x6E14, 0x8239]"
definition c_junjian :: qstring where "c_junjian = [0x519B, 0x8230]"
definition c_motuoting :: qstring where "c_motuoting = [0x6469, 0x6258, 0x8247]"
definition c_wurenji :: qstring where "c_wurenji = [0x65E0, 0x4EBA, 0x673A]"
definition c_xunfeidan :: qstring where "c_xunfeidan = [0x5DE1, 0x98DE, 0x5F39]"
definition c_niaolei :: qstring where "c_niaolei = [0x9E1F, 0x7C7B]"
definition c_feiji :: qstring where "c_feiji = [0x98DE, 0x673A]"
definition c_weizhimubiao :: qstring where "c_weizhimubiao = [0x672A, 0x77E5, 0x76EE, 0x6807]"
definition c_unknown_kind :: qstring where "c_unknown_kind = [0x672A, 0x77E5, 0x7C7B, 0x578B]"
definition c_air :: qstring where "c_air = [0x7A7A, 0x4E2D]"
definition c_sea :: qstring where "c_sea = [0x6D77, 0x4E0A]"
definition c_target :: qstring where "c_target = [0x76EE, 0x6807]"
definition c_id_open :: qstring where "c_id_open = [0xFF08, 73, 68, 32]"
definition c_speed :: qstring where "c_speed = [0xFF09, 0x901F, 0x5EA6, 32]"
definition c_speed_unit :: qstring where "c_speed_unit = [32, 109, 47, 115, 0xFF0C]"
definition c_degree :: qstring where "c_degree = [32, 0x5EA6]"
definition c_attack :: qstring where "c_attack = [0x8FDB, 0x653B, 0x65B9, 0x5411]"
definition c_course :: qstring where "c_course = [0x822A, 0x5411]"
definition c_rule :: qstring where "c_rule = [0xFF0C, 0x89E6, 0x53D1, 0x544A, 0x8B66, 0x89C4, 0x5219, 0xFF1A]"
definition c_by_user :: qstring where "c_by_user = [0xFF09, 0x7531, 0x7528, 0x6237, 0x5224, 0x5B9A, 0x4E3A, 0x5A01, 0x80C1, 0x76EE, 0x6807]"
definition c_speed_below :: qstring where "c_speed_below = [0x901F, 0x5EA6, 0x5C0F, 0x4E8E, 32]"
definition c_speed_above :: qstring where "c_speed_above = [0x901F, 0x5EA6, 0x5927, 0x4E8E, 32]"
definition c_mps :: qstring where "c_mps = [32, 109, 47, 115]"
definition c_attack_in :: qstring where "c_attack_in = [0x8FDB, 0x653B, 0x65B9, 0x5411, 0x5728, 32]"
definition c_course_in :: qstring where "c_course_in = [0x822A, 0x5411, 0x5728, 32]"
definition c_height :: qstring where "c_height = [0x9AD8, 0x5EA6, 32]"
definition c_metre :: qstring where "c_metre = [32, 109]"
definition c_blacklist :: qstring where "c_blacklist = [0x9ED1, 0x540D, 0x5355, 0x76EE, 0x6807]"
definition c_area_rule :: qstring where "c_area_rule = [0x533A, 0x57DF, 47, 0x89C4, 0x5219, 0x6761, 0x4EF6, 0x6EE1, 0x8DB3]"
definition c_cam_match :: qstring where "c_cam_match = [0x5149, 0x7535, 0x68C0, 0x6D4B, 0x76EE, 0x6807, 0x7C7B, 0x578B, 0x5339, 0x914D]"
definition c_llm_match :: qstring where "c_llm_match = [0x5927, 0x6A21, 0x578B, 0x7814, 0x5224, 0x76EE, 0x6807, 0x7C7B, 0x578B, 0x5339, 0x914D]"
definition c_uav_match :: qstring where "c_uav_match = [0x65E0, 0x4EBA, 0x673A, 0x68C0, 0x6D4B, 0x76EE, 0x6807, 0x7C7B, 0x578B, 0x5339, 0x914D]"
definition c_attr_match :: qstring where "c_attr_match = [0x76EE, 0x6807, 0x5C5E, 0x6027, 0x7C7B, 0x578B, 0x5339, 0x914D]"
definition c_dist_below :: qstring where "c_dist_below = [0x8DDD, 0x4FDD, 0x62A4, 0x533A, 0x5C0F, 0x4E8E, 32]"
definition c_threat_ge :: qstring where "c_threat_ge = [0x5A01, 0x80C1, 0x5EA6, 0x2265]"
definition c_comma :: qstring where "c_comma = [0xFF0C]"
definition c_threat_total :: qstring where "c_threat_total = [0xFF0C, 0x5A01, 0x80C1, 0x5206, 0xFF1A, 0x603B, 0x5206, 32]"
definition c_threat_type :: qstring where "c_threat_type = [0xFF08, 0x7C7B, 0x578B, 32]"
definition c_threat_speed :: qstring where "c_threat_speed = [0xFF0C, 0x901F, 0x5EA6, 32]"
definition c_threat_dist :: qstring where "c_threat_dist = [0xFF0C, 0x8DDD, 0x79BB, 32]"
definition c_close :: qstring where "c_close = [0xFF09]"
definition c_cam_confirm :: qstring where "c_cam_confirm = [0xFF0C, 0x5149, 0x7535, 0x53D6, 0x8BC1, 0x786E, 0x8BA4, 0x4E3A, 0x300C]"
definition c_llm_confirm :: qstring where "c_llm_confirm = [0xFF0C, 0x5927, 0x6A21, 0x578B, 0x7814, 0x5224, 0x4E3A, 0x300C]"
definition c_quote :: qstring where "c_quote = [0x300D]"
definition c_forensics :: qstring where "c_forensics = [0xFF0C, 0x5E76, 0x7ECF, 0x8FC7, 0x5149, 0x7535, 0x53D6, 0x8BC1]"

definition numText :: "int \<Rightarrow> qstring" where
  "numText n = qs (dec_int n)"

section \<open>Parameters and input\<close>

record MinioMetadata =
  mm_bucket :: qstring
  mm_objectKey :: qstring
  mm_downloadUrl :: qstring
  mm_cameraIndex :: qstring
  mm_uploadedAt :: qstring

datatype content_value = CInt int | CNum real | CText qstring | CNull

type_synonym json_object = "(string, content_value) qmap"

record content_env =
  ce_text :: qt_text
  ce_detect :: "int \<Rightarrow> DetectionTypeResult"
  ce_metadata :: "int \<Rightarrow> MinioMetadata option"
  ce_hasMulti :: "int \<Rightarrow> bool"
  ce_dict :: "qstring list"
  ce_targetTypes :: "(string, int) qmap"
  ce_params :: "ThreatAssessmentParams list"
  ce_fixed1 :: "real \<Rightarrow> qstring"
  ce_json :: "json_object \<Rightarrow> qstring"

text \<open>\<open>AlarmContentBuildInput\<close>; the pairs of a flag and a value are options.\<close>

record AlarmContentBuildInput =
  ci_rule :: AlarmRule
  ci_uniqueId :: int
  ci_speedMps :: real
  ci_courseDeg :: real
  ci_attackAngleDeg :: real
  ci_heightM :: real
  ci_threatScore :: int
  ci_hasProtectArea :: bool
  ci_isAirTrack :: bool
  ci_breakdown :: "ThreatAssessmentResult option"
  ci_triggerPath :: qstring
  ci_detection :: "DetectionTypeResult option"

section \<open>The target type\<close>

definition type_labels :: "(qstring \<times> qstring) list" where
  "type_labels = [(qs ''ship'', c_chuanbo), (qs ''speedboat'', c_kuaiting), (qs ''yacht'', c_youting),
     (qs ''buoy'', c_fubiao), (qs ''cargoship'', c_huolun), (qs ''cargo'', c_huolun), (qs ''fishingboat'', c_yuchuan),
     (qs ''fishing'', c_yuchuan), (qs ''warship'', c_junjian), (qs ''motorboat'', c_motuoting), (qs ''uav'', c_wurenji),
     (qs ''drone'', c_wurenji), (qs ''missile'', c_xunfeidan), (qs ''missle'', c_xunfeidan), (qs ''bird'', c_niaolei),
     (qs ''aircraft'', c_feiji), (qs ''unknown'', c_weizhimubiao)]"

definition targetTypeToChinese :: "qt_text \<Rightarrow> qstring \<Rightarrow> qstring" where
  "targetTypeToChinese T raw =
     (if raw = [] then []
      else case map_of type_labels (toLower T (trimmed T raw)) of Some l \<Rightarrow> l | None \<Rightarrow> raw)"

text \<open>The first type a detection result names: final, then camera, then language model.\<close>

definition first_type :: "qt_text \<Rightarrow> DetectionTypeResult \<Rightarrow> qstring option" where
  "first_type T d =
     (if \<not> det_found d then None
      else if det_final d \<noteq> [] then Some (toLower T (trimmed T (det_final d)))
      else if det_cam d \<noteq> [] then Some (toLower T (trimmed T (det_cam d)))
      else if det_llm d \<noteq> [] then Some (toLower T (trimmed T (det_llm d)))
      else None)"

definition resolveTargetTypeRaw :: "content_env \<Rightarrow> int \<Rightarrow> DetectionTypeResult option \<Rightarrow> qstring" where
  "resolveTargetTypeRaw E uid detection =
     (case Option.bind detection (first_type (ce_text E)) of
        Some t \<Rightarrow> t
      | None \<Rightarrow> (case first_type (ce_text E) (ce_detect E uid) of Some t \<Rightarrow> t | None \<Rightarrow> qs ''unknown''))"

definition resolveTargetTypeLabel :: "content_env \<Rightarrow> int \<Rightarrow> DetectionTypeResult option \<Rightarrow> qstring" where
  "resolveTargetTypeLabel E uid detection =
     (let label = targetTypeToChinese (ce_text E) (resolveTargetTypeRaw E uid detection) in
      if label \<noteq> [] then label
      else let typeId = qm_value (ce_targetTypes E) (dec_int uid) 0 in
        if typeId > 0 \<and> typeId \<le> int (length (ce_dict E)) then ce_dict E ! nat (typeId - 1)
        else c_unknown_kind)"

section \<open>The conditions that hold\<close>

definition speedSatisfiesRule :: "real \<Rightarrow> int \<Rightarrow> int \<Rightarrow> bool" where
  "speedSatisfiesRule speed cond threshold =
     (if cond \<le> 0 then False
      else if cond = 1 then speed < of_int threshold
      else if cond = 2 then speed > of_int threshold
      else False)"

definition formatSpeedRuleText :: "int \<Rightarrow> int \<Rightarrow> qstring" where
  "formatSpeedRuleText cond threshold =
     (if cond = 1 then c_speed_below @ numText threshold @ c_mps
      else if cond = 2 then c_speed_above @ numText threshold @ c_mps else [])"

definition courseEnabled :: "AlarmRule \<Rightarrow> bool" where
  "courseEnabled r =
     (if rule_course_min r = rule_course_max r then False
      else if rule_course_min r = 0 \<and> rule_course_max r = 360 then False else True)"

definition courseSatisfiesRule :: "real \<Rightarrow> AlarmRule \<Rightarrow> bool" where
  "courseSatisfiesRule angle r =
     (if \<not> courseEnabled r then False
      else if rule_course_min r \<le> rule_course_max r
      then angle \<ge> of_int (rule_course_min r) \<and> angle \<le> of_int (rule_course_max r)
      else angle \<ge> of_int (rule_course_min r) \<or> angle \<le> of_int (rule_course_max r))"

definition formatCourseRuleText :: "AlarmRule \<Rightarrow> bool \<Rightarrow> qstring" where
  "formatCourseRuleText r hasProtectArea =
     (if \<not> courseEnabled r then []
      else (if hasProtectArea then c_attack_in else c_course_in) @ numText (rule_course_min r) @ qs ''~''
             @ numText (rule_course_max r) @ c_degree)"

definition heightEnabled :: "AlarmRule \<Rightarrow> bool" where
  "heightEnabled r =
     (if rule_height_min r = rule_height_max r then False
      else if rule_height_min r = 0 \<and> (rule_height_max r = 100 \<or> rule_height_max r = 1000) then False else True)"

definition heightSatisfiesRule :: "real \<Rightarrow> AlarmRule \<Rightarrow> bool" where
  "heightSatisfiesRule h r =
     (if \<not> heightEnabled r then False else h \<ge> of_int (rule_height_min r) \<and> h \<le> of_int (rule_height_max r))"

definition formatHeightRuleText :: "AlarmRule \<Rightarrow> qstring" where
  "formatHeightRuleText r =
     (if \<not> heightEnabled r then []
      else c_height @ numText (rule_height_min r) @ qs ''~'' @ numText (rule_height_max r) @ c_metre)"

text \<open>The list of parts, in the order of the code, and \<open>parts.join\<close>.\<close>

definition detected :: "AlarmContentBuildInput \<Rightarrow> (DetectionTypeResult \<Rightarrow> qstring) \<Rightarrow> bool" where
  "detected i field = (case ci_detection i of Some d \<Rightarrow> field d \<noteq> [] | None \<Rightarrow> False)"

definition angle_value :: "AlarmContentBuildInput \<Rightarrow> real" where
  "angle_value i = (if ci_hasProtectArea i then ci_attackAngleDeg i else ci_courseDeg i)"

definition trigger_parts :: "AlarmContentBuildInput \<Rightarrow> qstring list" where
  "trigger_parts i =
     (let r = ci_rule i; when = (\<lambda>b t. if b then [t] else []) in
      when (speedSatisfiesRule (ci_speedMps i) (rule_speed_condition r) (rule_speed r))
        (formatSpeedRuleText (rule_speed_condition r) (rule_speed r))
      @ when (courseSatisfiesRule (angle_value i) r) (formatCourseRuleText r (ci_hasProtectArea i))
      @ when (heightSatisfiesRule (ci_heightM i) r) (formatHeightRuleText r)
      @ when (rule_camera_detect_type r > 0 \<and> detected i det_cam) c_cam_match
      @ when (rule_llm_detect_type r > 0 \<and> detected i det_llm) c_llm_match
      @ when (rule_uav_detect_type r > 0 \<and> detected i det_uav) c_uav_match
      @ when (rule_targetattr_type r > 0) c_attr_match
      @ when (rule_dist_to_protect_area r \<ge> 0) (c_dist_below @ numText (rule_dist_to_protect_area r) @ c_metre)
      @ when (rule_threat_level1 r > 0 \<and> ci_threatScore i \<ge> rule_threat_level1 r)
          (c_threat_ge @ numText (rule_threat_level1 r)))"

fun join :: "qstring \<Rightarrow> qstring list \<Rightarrow> qstring" where
  "join sep [] = []"
| "join sep [t] = t"
| "join sep (t # u # ts) = t @ sep @ join sep (u # ts)"

definition formatRuleTriggerSummary :: "AlarmContentBuildInput \<Rightarrow> qstring" where
  "formatRuleTriggerSummary i =
     (if ci_triggerPath i = qs ''blacklist'' then c_blacklist
      else let parts = trigger_parts i;
               parts' = (if parts = [] \<and> rule_name (ci_rule i) \<noteq> [] then [rule_name (ci_rule i)] else parts)
           in if parts' = [] then c_area_rule else join c_comma parts')"

section \<open>Threat contributions and forensics\<close>

definition formatThreatBreakdownSuffix :: "content_env \<Rightarrow> AlarmContentBuildInput \<Rightarrow> qstring" where
  "formatThreatBreakdownSuffix E i =
     (case ci_breakdown i of
        None \<Rightarrow> []
      | Some t \<Rightarrow>
          c_threat_total @ ce_fixed1 E (totalThreatLevel t) @ c_threat_type @ ce_fixed1 E (weightedTypeScore t)
            @ c_threat_speed @ ce_fixed1 E (weightedSpeedScore t) @ c_comma
            @ (if ci_hasProtectArea i then c_attack else c_course) @ qs '' '' @ ce_fixed1 E (weightedAngleScore t)
            @ c_threat_dist @ ce_fixed1 E (weightedDistanceScore t) @ c_close)"

definition formatEoVerificationSuffix :: "content_env \<Rightarrow> int \<Rightarrow> DetectionTypeResult option \<Rightarrow> qstring" where
  "formatEoVerificationSuffix E uid detection =
     (let det = (case detection of
                   Some d \<Rightarrow> if det_found d then d else ce_detect E uid
                 | None \<Rightarrow> ce_detect E uid)
      in if det_cam det \<noteq> [] then c_cam_confirm @ targetTypeToChinese (ce_text E) (det_cam det) @ c_quote
         else if det_llm det \<noteq> [] then c_llm_confirm @ targetTypeToChinese (ce_text E) (det_llm det) @ c_quote
         else if ce_hasMulti E uid then c_forensics
         else [])"

text \<open>The largest contributions: type, speed, angle, distance.\<close>

definition params_for :: "ThreatAssessmentParams list \<Rightarrow> AlarmRule \<Rightarrow> ThreatAssessmentParams option" where
  "params_for ps r = find (\<lambda>p. tp_groupId p = rule_group_id r \<and> tp_areaId p = rule_area_id r) ps"

definition resolveScoreMaxes :: "content_env \<Rightarrow> AlarmRule \<Rightarrow> real \<times> real \<times> real \<times> real" where
  "resolveScoreMaxes E r =
     (case params_for (ce_params E) r of
        Some p \<Rightarrow> (typeWeight p * 100, speedWeight p * 100, angleWeight p * 100, distanceWeight p * 100)
      | None \<Rightarrow> (42, 16, 18, 24))"

definition appendImageFields :: "content_env \<Rightarrow> int \<Rightarrow> json_object \<Rightarrow> json_object" where
  "appendImageFields E uid obj =
     (if uid \<le> 0 then obj
      else case ce_metadata E uid of
        None \<Rightarrow> obj
      | Some m \<Rightarrow>
          let o1 = qm_insert ''image_bucket'' (CText (mm_bucket m)) obj;
              o2 = qm_insert ''image_object_key'' (CText (mm_objectKey m)) o1;
              o3 = (if mm_downloadUrl m \<noteq> [] then qm_insert ''image_download_url'' (CText (mm_downloadUrl m)) o2 else o2);
              o4 = (if mm_cameraIndex m \<noteq> [] then qm_insert ''image_camera_index'' (CText (mm_cameraIndex m)) o3 else o3)
          in if mm_uploadedAt m \<noteq> [] then qm_insert ''image_uploaded_at'' (CText (mm_uploadedAt m)) o4 else o4)"

section \<open>The content\<close>

definition put_all :: "(string \<times> content_value) list \<Rightarrow> json_object \<Rightarrow> json_object" where
  "put_all kvs obj = foldl (\<lambda>m (k, v). qm_insert k v m) obj kvs"

definition rule_summary :: "content_env \<Rightarrow> AlarmContentBuildInput \<Rightarrow> qstring" where
  "rule_summary E i =
     (if ci_isAirTrack i then c_air else c_sea) @ c_target
       @ resolveTargetTypeLabel E (ci_uniqueId i) (ci_detection i) @ c_id_open @ numText (ci_uniqueId i) @ c_speed
       @ ce_fixed1 E (ci_speedMps i) @ c_speed_unit @ (if ci_hasProtectArea i then c_attack else c_course) @ qs '' ''
       @ ce_fixed1 E (angle_value i) @ c_degree @ c_rule @ formatRuleTriggerSummary i
       @ formatThreatBreakdownSuffix E i @ formatEoVerificationSuffix E (ci_uniqueId i) (ci_detection i)"

definition score_fields :: "content_env \<Rightarrow> AlarmContentBuildInput \<Rightarrow> (string \<times> content_value) list" where
  "score_fields E i =
     (case ci_breakdown i of
        Some t \<Rightarrow>
          (let (typeMax, speedMax, angleMax, distanceMax) = resolveScoreMaxes E (ci_rule i) in
           [(''threat_total'', CNum (totalThreatLevel t)), (''score_type'', CNum (weightedTypeScore t)),
            (''score_speed'', CNum (weightedSpeedScore t)), (''score_angle'', CNum (weightedAngleScore t)),
            (''score_distance'', CNum (weightedDistanceScore t)), (''score_max_type'', CNum typeMax),
            (''score_max_speed'', CNum speedMax), (''score_max_angle'', CNum angleMax),
            (''score_max_distance'', CNum distanceMax)])
      | None \<Rightarrow> map (\<lambda>k. (k, CNull)) [''threat_total'', ''score_type'', ''score_speed'', ''score_angle'', ''score_distance''])"

definition rule_content_object :: "content_env \<Rightarrow> AlarmContentBuildInput \<Rightarrow> json_object" where
  "rule_content_object E i =
     (let typeRaw = resolveTargetTypeRaw E (ci_uniqueId i) (ci_detection i);
          typeLabel = resolveTargetTypeLabel E (ci_uniqueId i) (ci_detection i);
          obj = put_all
            [(''v'', CInt 1), (''summary'', CText (rule_summary E i)), (''unique_id'', CInt (ci_uniqueId i)),
             (''domain'', CText (if ci_isAirTrack i then qs ''air'' else qs ''sea'')), (''target_type'', CText typeRaw),
             (''target_type_label'', CText typeLabel),
             (''angle_label'', CText (if ci_hasProtectArea i then c_attack else c_course))] []
      in appendImageFields E (ci_uniqueId i) (put_all (score_fields E i) obj))"

definition buildRuleAlarmContent :: "content_env \<Rightarrow> AlarmContentBuildInput \<Rightarrow> qstring" where
  "buildRuleAlarmContent E i = ce_json E (rule_content_object E i)"

definition manual_content_object :: "content_env \<Rightarrow> int \<Rightarrow> bool \<Rightarrow> json_object" where
  "manual_content_object E uid isAirTrack =
     (let typeLabel = resolveTargetTypeLabel E uid None in
      appendImageFields E uid
        (put_all
          ([(''v'', CInt 1),
            (''summary'', CText ((if isAirTrack then c_air else c_sea) @ c_target @ typeLabel @ c_id_open @ numText uid @ c_by_user)),
            (''unique_id'', CInt uid), (''domain'', CText (if isAirTrack then qs ''air'' else qs ''sea'')),
            (''target_type'', CText (resolveTargetTypeRaw E uid None)), (''target_type_label'', CText typeLabel)]
           @ map (\<lambda>k. (k, CNull)) [''threat_total'', ''score_type'', ''score_speed'', ''score_angle'', ''score_distance'']) []))"

definition buildManualAlarmContent :: "content_env \<Rightarrow> int \<Rightarrow> bool \<Rightarrow> real \<Rightarrow> real \<Rightarrow> qstring" where
  "buildManualAlarmContent E uid isAirTrack sp crs = ce_json E (manual_content_object E uid isAirTrack)"

end
