(* ===== verification/Track_Convert.thy ===== *)
theory Track_Convert
  imports Geometry
begin

text \<open>
  From a received target to the internal track: \<open>NewTrackStructGrpcConvert\<close>
  (\<open>grpc_track/new_track_struct_grpc_convert.cpp\<close>), its DDS twin
  \<open>NewTrackStructConvert\<close> (\<open>fastdds_newtrack\<close>) and \<open>trackDataClassToSpx\<close> of the
  radar/AIS/bird stream.  A generated message is a record of the fields read here.
\<close>

section \<open>Messages\<close>

datatype TargetState = STABLE | COASTING | LOST | MERGED | SPLIT | UnknownState int
datatype EnvironmentType = ENV_UNKNOWN | LAND | AIR | SURFACE | SUBSURFACE | SPACE | MARITIME
  | UnknownEnv int
datatype ThreatLevel = TL_LOW | TL_MEDIUM | TL_HIGH | UnknownThreat int

record FusionSourceItem =
  dataSourceId :: string
  fs_trackId :: int

record RadarProfile =
  r_lat :: real
  r_lon :: real
  r_alt :: real
  r_range :: real
  r_azimuth :: real
  start_range_m :: real
  end_range_m :: real
  start_azimuth_deg :: real
  end_azimuth_deg :: real
  fusionSources :: "FusionSourceItem list"

text \<open>A source carries a radar profile or not (\<open>radar_source_present\<close>).\<close>

record TargetObject =
  target_id :: qstring
  t_environment :: EnvironmentType
  t_state :: TargetState
  t_sources :: "RadarProfile option list"
  t_latitude :: real
  t_longitude :: real
  t_altitude :: real
  fused_range_m :: real
  fused_azimuth_deg :: real
  t_speed :: real
  t_yaw :: real
  velocity_e :: real
  velocity_n :: real
  threat_level :: ThreatLevel
  threat_confidence :: real
  classified_drone :: bool

section \<open>\<open>NewTrackStructGrpcConvert\<close>\<close>

fun findRadarProfile_loop :: "RadarProfile option list \<Rightarrow> RadarProfile option" where
  "findRadarProfile_loop [] = None"
| "findRadarProfile_loop (None # rest) = findRadarProfile_loop rest"
| "findRadarProfile_loop (Some p # rest) = Some p"

definition findRadarProfile :: "TargetObject \<Rightarrow> RadarProfile option" where
  "findRadarProfile t = findRadarProfile_loop (t_sources t)"

fun zibaowei_in :: "FusionSourceItem list \<Rightarrow> int option" where
  "zibaowei_in [] = None"
| "zibaowei_in (fs # rest) =
     (if dataSourceId fs = ''zibaowei'' then Some (fs_trackId fs) else zibaowei_in rest)"

fun zibaowei_loop :: "RadarProfile option list \<Rightarrow> int" where
  "zibaowei_loop [] = 0"
| "zibaowei_loop (None # rest) = zibaowei_loop rest"
| "zibaowei_loop (Some p # rest) =
     (case zibaowei_in (fusionSources p) of Some i \<Rightarrow> i | None \<Rightarrow> zibaowei_loop rest)"

definition zibaoweiTrackIdFromFusionSources :: "TargetObject \<Rightarrow> int" where
  "zibaoweiTrackIdFromFusionSources t = zibaowei_loop (t_sources t)"

text \<open>The two nested loops of \<open>fillFusionTrackIds\<close>, carrying \<open>idx\<close> and the id array.\<close>

fun fill_profile :: "FusionSourceItem list \<Rightarrow> nat \<times> int list \<Rightarrow> nat \<times> int list" where
  "fill_profile [] acc = acc"
| "fill_profile (fs # rest) (idx, ids) =
     (if dataSourceId fs = ''tan_niao'' then fill_profile rest (idx, ids)
      else if idx < 8 then fill_profile rest (idx + 1, ids[idx := fs_trackId fs])
      else fill_profile rest (idx, ids))"

fun fill_sources :: "RadarProfile option list \<Rightarrow> nat \<times> int list \<Rightarrow> nat \<times> int list" where
  "fill_sources [] acc = acc"
| "fill_sources (None # rest) acc = fill_sources rest acc"
| "fill_sources (Some p # rest) acc = fill_sources rest (fill_profile (fusionSources p) acc)"

definition fillFusionTrackIds :: "TargetObject \<Rightarrow> SPxTrack \<Rightarrow> SPxTrack" where
  "fillFusionTrackIds t out =
     (let (idx, ids) = fill_sources (t_sources t) (0, fusion_trackID out);
          out1 = out\<lparr>fusion_trackID := ids\<rparr>;
          out2 = (if idx > 0 then out1\<lparr>fusion_sensors := to_u32 (2 ^ idx - 1)\<rparr> else out1);
          zibaoweiId = zibaoweiTrackIdFromFusionSources t
      in if zibaoweiId \<noteq> 0 then out2\<lparr>fusion_trackID := ids[0 := zibaoweiId]\<rparr> else out2)"

definition kEps :: real where "kEps = 1 / 10 ^ 6"

definition pickFirstNonZero :: "real \<Rightarrow> real \<Rightarrow> real \<Rightarrow> real" where
  "pickFirstNonZero a b c = (if \<bar>a\<bar> > kEps then a else if \<bar>b\<bar> > kEps then b else c)"

definition courseFromEnu :: "real \<Rightarrow> real \<Rightarrow> real" where
  "courseFromEnu e n =
     (if \<bar>e\<bar> < kEps \<and> \<bar>n\<bar> < kEps then 0
      else let deg = atan2 e n * 180 / pi in if deg < 0 then deg + 360 else deg)"

definition threatScoreFromPriority :: "TargetObject \<Rightarrow> int" where
  "threatScoreFromPriority t =
     (case threat_level t of
        TL_HIGH \<Rightarrow> 75
      | TL_MEDIUM \<Rightarrow> 50
      | TL_LOW \<Rightarrow> 25
      | UnknownThreat _ \<Rightarrow>
          if threat_confidence t > kEps then to_u32 \<lfloor>threat_confidence t * 100\<rfloor> else 0)"

definition parseTargetId :: "qt_text \<Rightarrow> TargetObject \<Rightarrow> int option" where
  "parseTargetId T t =
     (let s = trimmed T (target_id t) in
      if s = [] then None
      else case toLongLong T s of
             None \<Rightarrow> None
           | Some v \<Rightarrow> if v \<le> 0 then None else Some v)"

definition preserveStableUniqueId :: "int \<Rightarrow> int \<Rightarrow> int" where
  "preserveStableUniqueId previous incoming =
     (if previous \<noteq> 0 \<and> incoming = 0 then previous else incoming)"

definition targetToSpxExtended :: "qt_text \<Rightarrow> int \<Rightarrow> TargetObject \<Rightarrow> SPxTrack option" where
  "targetToSpxExtended T nowSecs t =
     (case parseTargetId T t of
        None \<Rightarrow> None
      | Some targetId \<Rightarrow>
          (let r = findRadarProfile t;
               rv = (\<lambda>f. case r of Some p \<Rightarrow> f p | None \<Rightarrow> 0);
               o1 = zero_track\<lparr>
                 latDegs := pickFirstNonZero (t_latitude t) (rv r_lat) 0,
                 longDegs := pickFirstNonZero (t_longitude t) (rv r_lon) 0,
                 altitudeMetres := pickFirstNonZero (t_altitude t) (rv r_alt) 0,
                 rangeMetres := pickFirstNonZero (fused_range_m t) (rv r_range) 0,
                 azimuthDegrees := pickFirstNonZero (fused_azimuth_deg t) (rv r_azimuth) 0,
                 speedMps := t_speed t,
                 courseDegrees := pickFirstNonZero (t_yaw t) (courseFromEnu (velocity_e t) (velocity_n t)) 0\<rparr>;
               o2 = (case r of
                       Some p \<Rightarrow> o1\<lparr>sizeMetres := end_range_m p - start_range_m p,
                                    sizeDegrees := end_azimuth_deg p - start_azimuth_deg p\<rparr>
                     | None \<Rightarrow> o1);
               o3 = o2\<lparr>msgTimeSecs := to_u32 nowSecs, msgTimeUsecs := 0, min_id := 0,
                       uniqueID := (if targetId \<le> 4294967295 then to_u32 targetId
                                    else to_u32 (targetId mod 2 ^ 32)),
                       norm_reserved3 := threatScoreFromPriority t\<rparr>;
               o4 = fillFusionTrackIds t o3
           in Some (if classified_drone t then o4\<lparr>min_reserved1 := 3\<rparr> else o4\<lparr>min_reserved1 := 1\<rparr>)))"

section \<open>The DDS twin\<close>

text \<open>The same steps over the DDS types, with the casts the DDS version writes out.\<close>

definition dds_zibaoweiTrackId :: "TargetObject \<Rightarrow> int" where
  "dds_zibaoweiTrackId t =
     (case concat (map (\<lambda>s. case s of Some p \<Rightarrow> filter (\<lambda>fs. dataSourceId fs = ''zibaowei'') (fusionSources p)
                             | None \<Rightarrow> []) (t_sources t)) of
        [] \<Rightarrow> 0 | fs # _ \<Rightarrow> to_u32 (fs_trackId fs))"

fun dds_fill_profile :: "FusionSourceItem list \<Rightarrow> nat \<times> int list \<Rightarrow> nat \<times> int list" where
  "dds_fill_profile [] acc = acc"
| "dds_fill_profile (fs # rest) (idx, ids) =
     (if dataSourceId fs = ''tan_niao'' then dds_fill_profile rest (idx, ids)
      else if idx < 8 then dds_fill_profile rest (idx + 1, ids[idx := to_u32 (fs_trackId fs)])
      else dds_fill_profile rest (idx, ids))"

definition dds_fillFusionTrackIds :: "TargetObject \<Rightarrow> SPxTrack \<Rightarrow> SPxTrack" where
  "dds_fillFusionTrackIds t out =
     (let (idx, ids) = fold (\<lambda>s acc. case s of Some p \<Rightarrow> dds_fill_profile (fusionSources p) acc | None \<Rightarrow> acc)
                         (t_sources t) (0, fusion_trackID out);
          out1 = out\<lparr>fusion_trackID := ids\<rparr>;
          out2 = (if idx > 0 then out1\<lparr>fusion_sensors := to_u32 (2 ^ idx - 1)\<rparr> else out1);
          zibaoweiId = dds_zibaoweiTrackId t
      in if zibaoweiId \<noteq> 0 then out2\<lparr>fusion_trackID := ids[0 := zibaoweiId]\<rparr> else out2)"

definition applyAirTargetReserved1 :: "TargetObject \<Rightarrow> SPxTrack \<Rightarrow> SPxTrack" where
  "applyAirTargetReserved1 t track =
     (if classified_drone t then track\<lparr>min_reserved1 := 3\<rparr> else track\<lparr>min_reserved1 := 1\<rparr>)"

definition dds_targetToSpxExtended :: "qt_text \<Rightarrow> int \<Rightarrow> TargetObject \<Rightarrow> SPxTrack option" where
  "dds_targetToSpxExtended T nowSecs t =
     (case parseTargetId T t of
        None \<Rightarrow> None
      | Some targetId \<Rightarrow>
          (let r = findRadarProfile t;
               rv = (\<lambda>f. case r of Some p \<Rightarrow> f p | None \<Rightarrow> 0);
               o1 = zero_track\<lparr>
                 latDegs := pickFirstNonZero (t_latitude t) (rv r_lat) 0,
                 longDegs := pickFirstNonZero (t_longitude t) (rv r_lon) 0,
                 altitudeMetres := pickFirstNonZero (t_altitude t) (rv r_alt) 0,
                 rangeMetres := pickFirstNonZero (fused_range_m t) (rv r_range) 0,
                 azimuthDegrees := pickFirstNonZero (fused_azimuth_deg t) (rv r_azimuth) 0,
                 speedMps := t_speed t,
                 courseDegrees := pickFirstNonZero (t_yaw t) (courseFromEnu (velocity_e t) (velocity_n t)) 0\<rparr>;
               o2 = (case r of
                       Some p \<Rightarrow> o1\<lparr>sizeMetres := end_range_m p - start_range_m p,
                                    sizeDegrees := end_azimuth_deg p - start_azimuth_deg p\<rparr>
                     | None \<Rightarrow> o1);
               o3 = o2\<lparr>msgTimeSecs := to_u32 nowSecs, msgTimeUsecs := 0, min_id := 0,
                       uniqueID := (if targetId \<le> 4294967295 then to_u32 targetId
                                    else to_u32 (targetId mod 2 ^ 32)),
                       norm_reserved3 := to_u32 (threatScoreFromPriority t)\<rparr>
           in Some (applyAirTargetReserved1 t (dds_fillFusionTrackIds t o3))))"

definition applyBirdFuseExtras :: "TargetObject \<Rightarrow> SPxTrack \<Rightarrow> SPxTrack" where
  "applyBirdFuseExtras t track = dds_fillFusionTrackIds t (applyAirTargetReserved1 t track)"

section \<open>Facts\<close>

text \<open>The fusion sources the loops see, in order, and the ids they keep.\<close>

definition all_fusion_sources :: "TargetObject \<Rightarrow> FusionSourceItem list" where
  "all_fusion_sources t = concat (map (\<lambda>s. case s of Some p \<Rightarrow> fusionSources p | None \<Rightarrow> []) (t_sources t))"

definition kept_ids :: "FusionSourceItem list \<Rightarrow> int list" where
  "kept_ids fss = map fs_trackId (filter (\<lambda>fs. dataSourceId fs \<noteq> ''tan_niao'') fss)"

lemma fill_profile_eq:
  "idx \<le> 8 \<Longrightarrow> length ids = 8 \<Longrightarrow>
   fill_profile fss (idx, ids) =
     (min 8 (idx + length (kept_ids fss)),
      take 8 (take idx ids @ kept_ids fss) @ drop (idx + length (kept_ids fss)) ids)"
proof (induction fss arbitrary: idx ids)
  case (Cons fs fss)
  show ?case
  proof (cases "dataSourceId fs \<noteq> ''tan_niao'' \<and> idx < 8")
    case True
    then have "take (Suc idx) (ids[idx := fs_trackId fs]) = take idx ids @ [fs_trackId fs]"
      using Cons.prems by (simp add: take_Suc_conv_app_nth)
    with True Cons.IH[of "idx + 1" "ids[idx := fs_trackId fs]"] Cons.prems show ?thesis
      by (simp add: kept_ids_def)
  next
    case False
    with Cons.prems Cons.IH[of idx ids] show ?thesis
      by (cases "dataSourceId fs = ''tan_niao''") (auto simp: kept_ids_def)
  qed
qed (simp add: kept_ids_def)

lemma fill_profile_append: "fill_profile (xs @ ys) acc = fill_profile ys (fill_profile xs acc)"
proof (induction xs acc rule: fill_profile.induct)
  case (2 fs rest idx ids)
  then show ?case by simp
qed simp

lemma fill_sources_concat:
  "fill_sources ss acc =
     fill_profile (concat (map (\<lambda>s. case s of Some p \<Rightarrow> fusionSources p | None \<Rightarrow> []) ss)) acc"
  by (induction ss acc rule: fill_sources.induct) (simp_all add: fill_profile_append)

lemma zibaowei_in_append:
  "zibaowei_in (xs @ ys) = (case zibaowei_in xs of Some i \<Rightarrow> Some i | None \<Rightarrow> zibaowei_in ys)"
  by (induction xs) simp_all

lemma zibaowei_loop_concat:
  "zibaowei_loop ss =
     (case zibaowei_in (concat (map (\<lambda>s. case s of Some p \<Rightarrow> fusionSources p | None \<Rightarrow> []) ss)) of
        Some i \<Rightarrow> i | None \<Rightarrow> 0)"
  by (induction ss rule: zibaowei_loop.induct) (simp_all add: zibaowei_in_append split: option.splits)

lemma zibaowei_in_filter:
  "zibaowei_in fss = (case filter (\<lambda>fs. dataSourceId fs = ''zibaowei'') fss of
     [] \<Rightarrow> None | fs # _ \<Rightarrow> Some (fs_trackId fs))"
  by (induction fss) simp_all

text \<open>
  \<open>fillFusionTrackIds\<close> into a cleared track keeps the first eight source ids that are not
  \<open>tan_niao\<close>, in message order, zero-padded; \<open>sensors\<close> has exactly one low bit per kept
  id; and a non-zero \<open>zibaowei\<close> id (the first one of the message) takes slot 0.
\<close>

theorem fusion_ids_filled:
  assumes "fusion_trackID out = replicate 8 0" and "fusion_sensors out = 0"
    and "ks = kept_ids (all_fusion_sources t)" and "z = zibaoweiTrackIdFromFusionSources t"
    and "ids = take 8 ks @ replicate (8 - length ks) 0"
  shows "fusion_trackID (fillFusionTrackIds t out) = (if z = 0 then ids else ids[0 := z]) \<and>
    length (fusion_trackID (fillFusionTrackIds t out)) = 8 \<and>
    fusion_sensors (fillFusionTrackIds t out) = 2 ^ min 8 (length ks) - 1"
proof -
  have fs: "fill_sources (t_sources t) (0, fusion_trackID out) = (min 8 (length ks), ids)"
    using assms fill_profile_eq[of 0 "replicate 8 0" "all_fusion_sources t"]
    by (simp add: fill_sources_concat all_fusion_sources_def)
  have len: "length ids = 8" using assms(5) by simp
  have r: "(2::int) ^ min 8 (length ks) \<le> 2 ^ 8" by (rule power_increasing) auto
  have "to_u32 (2 ^ min 8 (length ks) - 1) = (2::int) ^ min 8 (length ks) - 1"
    using r by (intro to_u32_id) auto
  then show ?thesis using assms(2,4) len
    by (auto simp: fillFusionTrackIds_def fs Let_def)
qed

definition sample_target :: TargetObject where
  "sample_target = \<lparr>target_id = qs ''42'', t_environment = AIR, t_state = STABLE,
     t_sources = [None, Some \<lparr>r_lat = 30, r_lon = 121, r_alt = 100, r_range = 5000, r_azimuth = 45,
       start_range_m = 1, end_range_m = 3, start_azimuth_deg = 1, end_azimuth_deg = 2,
       fusionSources = [\<lparr>dataSourceId = ''tan_niao'', fs_trackId = 5\<rparr>,
         \<lparr>dataSourceId = ''radar1'', fs_trackId = 6\<rparr>, \<lparr>dataSourceId = ''zibaowei'', fs_trackId = 9\<rparr>]\<rparr>],
     t_latitude = 0, t_longitude = 121, t_altitude = 0, fused_range_m = 0, fused_azimuth_deg = 0,
     t_speed = 12, t_yaw = 90, velocity_e = 0, velocity_n = 0, threat_level = TL_LOW,
     threat_confidence = 1 / 2, classified_drone = True\<rparr>"

theorem fusion_ids_filled_witness:
  "fusion_trackID (fillFusionTrackIds sample_target zero_track) = [9, 9, 0, 0, 0, 0, 0, 0] \<and>
   fusion_sensors (fillFusionTrackIds sample_target zero_track) = 3"
proof -
  have k: "kept_ids (all_fusion_sources sample_target) = [6, 9]"
    by (simp add: kept_ids_def all_fusion_sources_def sample_target_def)
  have z: "zibaoweiTrackIdFromFusionSources sample_target = 9"
    by (simp add: zibaoweiTrackIdFromFusionSources_def sample_target_def)
  have i: "[6, 9, 0, 0, 0, 0, 0, 0] = take 8 [6, 9] @ replicate (8 - length [6, 9::int]) (0::int)"
    by (simp add: numeral_eq_Suc)
  from fusion_ids_filled[of zero_track "[6, 9]" sample_target 9, OF _ _ k[symmetric] z[symmetric] i]
  show ?thesis by (simp add: zero_track_def)
qed

lemma dds_fill_profile_eq:
  "list_all (\<lambda>fs. 0 \<le> fs_trackId fs \<and> fs_trackId fs < 4294967296) fss \<Longrightarrow>
   dds_fill_profile fss acc = fill_profile fss acc"
  by (induction fss acc rule: fill_profile.induct) simp_all

lemma dds_fold_eq:
  "list_all (\<lambda>fs. 0 \<le> fs_trackId fs \<and> fs_trackId fs < 4294967296)
     (concat (map (\<lambda>s. case s of Some p \<Rightarrow> fusionSources p | None \<Rightarrow> []) ss)) \<Longrightarrow>
   fold (\<lambda>s acc. case s of Some p \<Rightarrow> dds_fill_profile (fusionSources p) acc | None \<Rightarrow> acc) ss acc
     = fill_sources ss acc"
  by (induction ss acc rule: fill_sources.induct) (simp_all add: dds_fill_profile_eq)

lemma filter_concat_case:
  "concat (map (\<lambda>s. case s of Some p \<Rightarrow> filter P (f p) | None \<Rightarrow> []) ss)
     = filter P (concat (map (\<lambda>s. case s of Some p \<Rightarrow> f p | None \<Rightarrow> []) ss))"
proof (induction ss)
  case (Cons s ss)
  then show ?case by (cases s) simp_all
qed simp

lemma dds_zibaowei_eq:
  assumes "list_all (\<lambda>fs. 0 \<le> fs_trackId fs \<and> fs_trackId fs < 4294967296) (all_fusion_sources t)"
  shows "dds_zibaoweiTrackId t = zibaoweiTrackIdFromFusionSources t"
proof -
  let ?F = "filter (\<lambda>fs. dataSourceId fs = ''zibaowei'') (all_fusion_sources t)"
  note d = dds_zibaoweiTrackId_def zibaoweiTrackIdFromFusionSources_def
    zibaowei_loop_concat zibaowei_in_filter filter_concat_case all_fusion_sources_def[symmetric]
  show ?thesis
  proof (cases ?F)
    case (Cons a l)
    then have "a \<in> set ?F" by simp
    then have "to_u32 (fs_trackId a) = fs_trackId a" using assms by (simp add: list_all_iff)
    with Cons show ?thesis by (simp add: d)
  qed (simp add: d)
qed

lemma dds_fill_eq:
  assumes "list_all (\<lambda>fs. 0 \<le> fs_trackId fs \<and> fs_trackId fs < 4294967296) (all_fusion_sources t)"
  shows "dds_fillFusionTrackIds t out = fillFusionTrackIds t out"
  using assms dds_zibaowei_eq[OF assms]
  by (simp add: dds_fillFusionTrackIds_def fillFusionTrackIds_def dds_fold_eq all_fusion_sources_def)

lemma fill_reserved1: "fillFusionTrackIds t (o1\<lparr>min_reserved1 := v\<rparr>) = (fillFusionTrackIds t o1)\<lparr>min_reserved1 := v\<rparr>"
  by (simp add: fillFusionTrackIds_def Let_def split: prod.splits)

lemma to_u32_idem [simp]: "to_u32 (to_u32 x) = to_u32 x"
  by (simp add: to_u32_def)

lemma threatScore_u32 [simp]: "to_u32 (threatScoreFromPriority t) = threatScoreFromPriority t"
  by (simp add: threatScoreFromPriority_def split: ThreatLevel.splits)

lemma converters_agree_lemma:
  "list_all (\<lambda>fs. 0 \<le> fs_trackId fs \<and> fs_trackId fs < 4294967296) (all_fusion_sources t) \<Longrightarrow>
   dds_targetToSpxExtended T now t = targetToSpxExtended T now t"
  by (simp add: dds_targetToSpxExtended_def targetToSpxExtended_def Let_def dds_fill_eq
      applyAirTargetReserved1_def split: option.splits)

text \<open>
  The DDS converter and the gRPC converter produce the same track from the same target
  (source ids are 32-bit unsigned in both schemas).
\<close>

theorem converters_agree:
  assumes "list_all (\<lambda>fs. 0 \<le> fs_trackId fs \<and> fs_trackId fs < 4294967296) (all_fusion_sources t)"
  shows "dds_targetToSpxExtended T now t = targetToSpxExtended T now t"
  using assms by (rule converters_agree_lemma)

theorem converters_agree_witness:
  "dds_targetToSpxExtended ascii_text 1700000000 sample_target
     = targetToSpxExtended ascii_text 1700000000 sample_target"
  by (rule converters_agree) (simp add: all_fusion_sources_def sample_target_def)

lemma fill_other_fields [simp]:
  "uniqueID (fillFusionTrackIds t o1) = uniqueID o1"
  "msgTimeSecs (fillFusionTrackIds t o1) = msgTimeSecs o1"
  "courseDegrees (fillFusionTrackIds t o1) = courseDegrees o1"
  "latDegs (fillFusionTrackIds t o1) = latDegs o1"
  "longDegs (fillFusionTrackIds t o1) = longDegs o1"
  "norm_reserved3 (fillFusionTrackIds t o1) = norm_reserved3 o1"
  by (simp_all add: fillFusionTrackIds_def Let_def split: prod.splits)

lemma courseFromEnu_range: "0 \<le> courseFromEnu e n \<and> courseFromEnu e n < 360"
proof -
  have "-180 < rad2deg (atan2 e n) \<and> rad2deg (atan2 e n) \<le> 180"
    using atan2_bounds[of e n] rad2deg_less[of "atan2 e n"] by (simp add: rad2deg_def less_divide_eq)
  then show ?thesis unfolding courseFromEnu_def Let_def rad2deg_def by auto
qed

lemma parseTargetId_pos: "parseTargetId T t = Some v \<Longrightarrow> 0 < v"
  by (auto simp: parseTargetId_def Let_def split: if_splits option.splits)

text \<open>
  A target is converted exactly when its id parses to a positive number; the track then
  carries the low 32 bits of that id as \<open>uniqueID\<close>, the drone mark exactly for drones, the
  receive time, and, when the message has no yaw, a course in 0..360 taken from the velocity.
\<close>

theorem target_conversion:
  "(case parseTargetId T t of
      None \<Rightarrow> targetToSpxExtended T now t = None
    | Some v \<Rightarrow> (\<exists>trk. targetToSpxExtended T now t = Some trk \<and> 0 < v \<and> uniqueID trk = v mod 2 ^ 32 \<and>
        (min_reserved1 trk = 3) = classified_drone t \<and> msgTimeSecs trk = to_u32 now \<and>
        (t_yaw t = 0 \<longrightarrow> 0 \<le> courseDegrees trk \<and> courseDegrees trk < 360)))"
proof (cases "parseTargetId T t")
  case (Some v)
  have "pickFirstNonZero 0 (courseFromEnu e n) 0 \<ge> 0 \<and> pickFirstNonZero 0 (courseFromEnu e n) 0 < 360" for e n
    using courseFromEnu_range[of e n] by (simp add: pickFirstNonZero_def kEps_def)
  then show ?thesis using Some parseTargetId_pos[OF Some]
    by (auto simp: targetToSpxExtended_def Let_def to_u32_def split: option.splits)
qed (simp add: targetToSpxExtended_def)

theorem target_conversion_witness:
  "\<exists>trk. targetToSpxExtended ascii_text 9 (sample_target\<lparr>t_yaw := 0, velocity_e := 1\<rparr>) = Some trk \<and>
     uniqueID trk = 42 \<and> courseDegrees trk < 360 \<and> min_reserved1 trk = 3"
proof -
  let ?t = "sample_target\<lparr>t_yaw := 0, velocity_e := 1\<rparr>"
  have "parseTargetId ascii_text ?t = Some 42" by code_simp
  with target_conversion[where T = ascii_text and t = ?t and now = 9] show ?thesis by (auto simp: sample_target_def)
qed

text \<open>
  The confidence of a threat is never used for the levels the schema names: \<open>LOW\<close> is the
  proto3 default, so a target that carries no threat at all scores 25, and the confidence branch
  is reached only by values outside the enum.
\<close>

theorem threat_confidence_unused:
  "threat_level t \<in> {TL_LOW, TL_MEDIUM, TL_HIGH} \<Longrightarrow>
   threatScoreFromPriority (t\<lparr>threat_confidence := c\<rparr>) = threatScoreFromPriority t \<and>
   threatScoreFromPriority t \<in> {25, 50, 75}"
  by (auto simp: threatScoreFromPriority_def)

theorem threat_confidence_unused_witness:
  "threatScoreFromPriority (sample_target\<lparr>threat_confidence := 1\<rparr>) = 25"
proof -
  have "threat_level sample_target \<in> {TL_LOW, TL_MEDIUM, TL_HIGH}" by (simp add: sample_target_def)
  from threat_confidence_unused[OF this, of 1] show ?thesis
    by (simp add: threatScoreFromPriority_def sample_target_def)
qed

end
