(* ===== verification/Track_Ingest.thy ===== *)
theory Track_Ingest
  imports Track_Convert "HOL-Library.Sublist"
begin

text \<open>
  The track tables and how streams fill and prune them: \<open>NewTrackStructGrpcClient\<close>
  (fusion and bird tracks by environment), the DDS subscriber that writes the same tables,
  and \<open>FusionTrackGrpcClient\<close> (radar, AIS and bird radar).  A trail is the list of the
  positions a track has reported, the newest at the end.  \<open>same\<close> is \<open>QPointF\<close>'s
  \<open>operator==\<close>, which Qt defines with a tolerance: a parameter.
\<close>

section \<open>\<open>NewTrackStructGrpcClient\<close>\<close>

record tables =
  fuseTrack :: track_map
  fuseTrail :: trail_map
  birdTrack :: track_map
  birdTrail :: trail_map

definition appendTrailPoint :: "(point \<Rightarrow> point \<Rightarrow> bool) \<Rightarrow> trail \<Rightarrow> SPxTrack \<Rightarrow> nat \<Rightarrow> trail" where
  "appendTrailPoint same tr track maxPoints =
     (let pt = (latDegs track, longDegs track) in
      if list_ex (\<lambda>q. same q pt) tr then tr
      else let tr1 = (if length tr > maxPoints then tl tr else tr) in tr1 @ [pt])"

text \<open>\<open>trailMap[key]\<close> creates an empty trail for a new key.\<close>

definition trail_at :: "trail_map \<Rightarrow> int \<Rightarrow> trail" where
  "trail_at m k = (case map_of m k of Some tr \<Rightarrow> tr | None \<Rightarrow> [])"

text \<open>The lambda of \<open>clearStaleTrackMaps\<close>: the loop over the track keys, then the loop over
  the trail keys that drops orphans.\<close>

definition prune_track :: "int \<Rightarrow> int \<Rightarrow> int \<Rightarrow> track_map \<times> trail_map \<Rightarrow> track_map \<times> trail_map" where
  "prune_track now staleSecs key mt =
     (case map_of (fst mt) key of
        None \<Rightarrow> mt
      | Some track \<Rightarrow>
          if now - msgTimeSecs track > staleSecs then (qm_remove key (fst mt), qm_remove key (snd mt)) else mt)"

definition prune_orphan :: "track_map \<Rightarrow> int \<Rightarrow> trail_map \<Rightarrow> trail_map" where
  "prune_orphan trackMap key trails = (if \<not> qm_contains trackMap key then qm_remove key trails else trails)"

definition pruneMap64 :: "int \<Rightarrow> track_map \<Rightarrow> trail_map \<Rightarrow> int \<Rightarrow> track_map \<times> trail_map" where
  "pruneMap64 now trackMap trailMap staleSecs =
     (let (tm, tr) = fold (prune_track now staleSecs) (map fst trackMap) (trackMap, trailMap)
      in (tm, fold (prune_orphan tm) (map fst tr) tr))"

definition clearStaleTrackMaps :: "int \<Rightarrow> tables \<Rightarrow> tables" where
  "clearStaleTrackMaps now s =
     (let (ft, fl) = pruneMap64 now (fuseTrack s) (fuseTrail s) 8;
          (bt, bl) = pruneMap64 now (birdTrack s) (birdTrail s) 4
      in \<lparr>fuseTrack = ft, fuseTrail = fl, birdTrack = bt, birdTrail = bl\<rparr>)"

text \<open>Storing a live target: keep a known \<open>uniqueID\<close>, insert the track, extend the trail.\<close>

definition store_track :: "(point \<Rightarrow> point \<Rightarrow> bool) \<Rightarrow> nat \<Rightarrow> int \<Rightarrow> SPxTrack
    \<Rightarrow> track_map \<times> trail_map \<Rightarrow> track_map \<times> trail_map" where
  "store_track same trailMax targetId track mt =
     (let track1 = (case map_of (fst mt) targetId of
                      Some prev \<Rightarrow> track\<lparr>uniqueID := preserveStableUniqueId (uniqueID prev) (uniqueID track)\<rparr>
                    | None \<Rightarrow> track)
      in (qm_insert targetId track1 (fst mt),
          qm_insert targetId (appendTrailPoint same (trail_at (snd mt) targetId) track1 trailMax) (snd mt)))"

text \<open>One iteration of the loop of \<open>applyTargetOutputSet\<close>; the third component collects the
  stubs (ids) stored for the sea and the air batch.\<close>

definition applyTarget :: "qt_text \<Rightarrow> (point \<Rightarrow> point \<Rightarrow> bool) \<Rightarrow> int \<Rightarrow> int \<Rightarrow> TargetObject
    \<Rightarrow> tables \<times> qstring list \<times> qstring list \<Rightarrow> tables \<times> qstring list \<times> qstring list" where
  "applyTarget T same mode now t acc =
     (case acc of (s, sea, air) \<Rightarrow>
      (case parseTargetId T t of
         None \<Rightarrow> acc
       | Some targetId \<Rightarrow>
          (let isBird = (t_environment t = AIR) in
           if t_state t = LOST \<or> t_state t = MERGED then
             (if isBird
              then (s\<lparr>birdTrack := qm_remove targetId (birdTrack s), birdTrail := qm_remove targetId (birdTrail s)\<rparr>, sea, air)
              else (s\<lparr>fuseTrack := qm_remove targetId (fuseTrack s), fuseTrail := qm_remove targetId (fuseTrail s)\<rparr>, sea, air))
           else case targetToSpxExtended T now t of
             None \<Rightarrow> acc
           | Some track \<Rightarrow>
               if isBird
               then (let (bt, bl) = store_track same 10 targetId track (birdTrack s, birdTrail s)
                     in (s\<lparr>birdTrack := bt, birdTrail := bl\<rparr>, sea, air @ [target_id t]))
               else (let (ft, fl) = store_track same (if mode = 1 then 15 else 10) targetId track (fuseTrack s, fuseTrail s)
                     in (s\<lparr>fuseTrack := ft, fuseTrail := fl\<rparr>, sea @ [target_id t], air)))))"

record grpc_client =
  tabs :: tables
  latest_fuse :: "qstring list option"
  latest_bird :: "qstring list option"

definition applyTargetOutputSet :: "qt_text \<Rightarrow> (point \<Rightarrow> point \<Rightarrow> bool) \<Rightarrow> int \<Rightarrow> int
    \<Rightarrow> TargetObject list \<Rightarrow> grpc_client \<Rightarrow> grpc_client" where
  "applyTargetOutputSet T same mode now sample c =
     (case fold (applyTarget T same mode now) sample (tabs c, [], []) of (s, sea, air) \<Rightarrow>
        c\<lparr>tabs := s,
          latest_fuse := (if sea \<noteq> [] then Some sea else latest_fuse c),
          latest_bird := (if air \<noteq> [] then Some air else latest_bird c)\<rparr>)"

definition build_merged_latest :: "grpc_client \<Rightarrow> qstring list option" where
  "build_merged_latest c =
     (if latest_fuse c = None \<and> latest_bird c = None then None
      else Some ((case latest_fuse c of Some t \<Rightarrow> t | None \<Rightarrow> []) @
                 (case latest_bird c of Some t \<Rightarrow> t | None \<Rightarrow> [])))"

text \<open>The reconnect loop: \<open>outcomes\<close> says for each round whether \<open>subscribeOnce\<close> returned
  (and did not throw); the result is the wait chosen after each round, in seconds.\<close>

fun runLoop_waits :: "real \<Rightarrow> bool list \<Rightarrow> real list" where
  "runLoop_waits backoff [] = []"
| "runLoop_waits backoff (returned # rest) =
     (let b = (if returned then 2 else backoff) in b # runLoop_waits (min (b * 2) 30) rest)"

section \<open>The DDS subscriber of the same tables\<close>

definition dds_applyTarget :: "qt_text \<Rightarrow> (point \<Rightarrow> point \<Rightarrow> bool) \<Rightarrow> int \<Rightarrow> int \<Rightarrow> bool \<Rightarrow> TargetObject
    \<Rightarrow> tables \<Rightarrow> tables" where
  "dds_applyTarget T same mode now isBirdTopic t s =
     (case dds_targetToSpxExtended T now t of
        None \<Rightarrow> s
      | Some track \<Rightarrow>
         (case parseTargetId T t of
            None \<Rightarrow> s
          | Some targetId \<Rightarrow>
             if isBirdTopic
             then (let track1 = applyBirdFuseExtras t track;
                       (bt, bl) = store_track same 10 targetId track1 (birdTrack s, birdTrail s)
                   in s\<lparr>birdTrack := bt, birdTrail := bl\<rparr>)
             else (let (ft, fl) = store_track same (if mode = 1 then 15 else 10) targetId track (fuseTrack s, fuseTrail s)
                   in s\<lparr>fuseTrack := ft, fuseTrail := fl\<rparr>)))"

definition dds_applyTargetOutputSet :: "qt_text \<Rightarrow> (point \<Rightarrow> point \<Rightarrow> bool) \<Rightarrow> int \<Rightarrow> int \<Rightarrow> bool
    \<Rightarrow> TargetObject list \<Rightarrow> tables \<Rightarrow> tables" where
  "dds_applyTargetOutputSet T same mode now isBirdTopic sample s =
     fold (dds_applyTarget T same mode now isBirdTopic) sample s"

section \<open>\<open>FusionTrackGrpcClient\<close>\<close>

record TrackDataClass =
  st_trackid :: int
  st_mmsi :: int
  st_uniqueid :: int
  st_longitude :: real
  st_latitude :: real
  st_course :: real
  st_distance :: real
  st_speed :: real
  st_height :: real
  st_azimuth :: real
  st_sizeMetres :: real
  st_sizeDegrees :: real
  st_sensors :: int
  st_fusion_track_ids :: "int list"
  st_trackCategoryId :: int
  st_reserved4 :: int

text \<open>The configured routes: bucket of a data source and its radar code (0 when unknown).\<close>

record routes =
  routeBucketFor :: "string \<Rightarrow> string"
  radarSourceCodeFor :: "string \<Rightarrow> int"

definition trackDataClassToSpx :: "int \<Rightarrow> int \<Rightarrow> TrackDataClass \<Rightarrow> int \<Rightarrow> SPxTrack" where
  "trackDataClassToSpx nowSecs nowMicros st sourceCode = zero_track\<lparr>
     min_id := to_u32 (to_i32 (st_trackid st)),
     longDegs := st_longitude st, latDegs := st_latitude st, altitudeMetres := st_height st,
     rangeMetres := st_distance st, azimuthDegrees := st_azimuth st, courseDegrees := st_course st,
     speedMps := st_speed st, sizeDegrees := st_sizeDegrees st, sizeMetres := st_sizeMetres st,
     norm_reserved1 := to_u32 (st_trackCategoryId st), msgTimeSecs := to_u32 nowSecs,
     fusion_trackID := take 8 (st_fusion_track_ids st) @ replicate (8 - length (st_fusion_track_ids st)) 0,
     msgTimeUsecs := to_u32 nowMicros, uniqueID := st_uniqueid st, norm_reserved3 := st_reserved4 st,
     fusion_sensors := st_sensors st, sec_reserved0 := sourceCode\<rparr>"

definition spxMapKeyFromTrack :: "TrackDataClass \<Rightarrow> int" where
  "spxMapKeyFromTrack st = (let u = to_i32 (st_uniqueid st) in if u > 0 then u else to_i32 (st_trackid st))"

record ingest_tables =
  radarTrack :: track_map
  radarTrail :: trail_map
  aisTrack :: "(int, AISTrack) qmap"
  aisTrail :: trail_map
  birdRadarTrack :: track_map
  birdRadarTrail :: trail_map

definition appendTrail :: "(point \<Rightarrow> point \<Rightarrow> bool) \<Rightarrow> trail_map \<Rightarrow> int \<Rightarrow> point \<Rightarrow> trail_map" where
  "appendTrail same trailMap mapKey pt =
     (let tr = trail_at trailMap mapKey in
      qm_insert mapKey
        (if list_ex (\<lambda>q. same q pt) tr then tr
         else (if length tr > 10 then tl tr else tr) @ [pt]) trailMap)"

fun eraseStaleSpxMap :: "int \<Rightarrow> track_map \<Rightarrow> trail_map \<Rightarrow> track_map \<times> trail_map" where
  "eraseStaleSpxMap now [] trails = ([], trails)"
| "eraseStaleSpxMap now ((k, track) # rest) trails =
     (if now - msgTimeSecs track > 20 then eraseStaleSpxMap now rest (qm_remove k trails)
      else (let (m, tr) = eraseStaleSpxMap now rest trails in ((k, track) # m, tr)))"

fun eraseStaleAis :: "int \<Rightarrow> (int, AISTrack) qmap \<Rightarrow> trail_map \<Rightarrow> (int, AISTrack) qmap \<times> trail_map" where
  "eraseStaleAis now [] trails = ([], trails)"
| "eraseStaleAis now ((k, a) # rest) trails =
     (if ais_msgTimeSecs a > 0 \<and> now - ais_msgTimeSecs a > 20 then eraseStaleAis now rest (qm_remove k trails)
      else (let (m, tr) = eraseStaleAis now rest trails in ((k, a) # m, tr)))"

definition clearStaleIngestedTracks :: "int \<Rightarrow> ingest_tables \<Rightarrow> ingest_tables" where
  "clearStaleIngestedTracks now s =
     (let (rt, rl) = eraseStaleSpxMap now (radarTrack s) (radarTrail s);
          (bt, bl) = eraseStaleSpxMap now (birdRadarTrack s) (birdRadarTrail s);
          (ais, al) = eraseStaleAis now (aisTrack s) (aisTrail s)
      in \<lparr>radarTrack = rt, radarTrail = rl, aisTrack = ais,
          aisTrail = filter (\<lambda>p. qm_contains ais (fst p)) al,
          birdRadarTrack = bt, birdRadarTrail = bl\<rparr>)"

text \<open>One track of a batch with the data source id of its slot.\<close>

definition applyBatchTrack :: "routes \<Rightarrow> (point \<Rightarrow> point \<Rightarrow> bool) \<Rightarrow> int \<Rightarrow> int \<Rightarrow> string \<times> TrackDataClass
    \<Rightarrow> ingest_tables \<Rightarrow> ingest_tables" where
  "applyBatchTrack R same nowSecs nowMicros p s =
     (case p of (ds, st) \<Rightarrow>
      (let bucket = routeBucketFor R ds in
       if bucket = [] then s
       else if bucket = ''radar'' then
         (let sourceCode = radarSourceCodeFor R ds in
          if sourceCode = 0 then s
          else let track = trackDataClassToSpx nowSecs nowMicros st sourceCode;
                   mapKey = spxMapKeyFromTrack st
            in if mapKey \<le> 0 then s
               else s\<lparr>radarTrack := qm_insert mapKey track (radarTrack s),
                      radarTrail := appendTrail same (radarTrail s) mapKey (latDegs track, longDegs track)\<rparr>)
       else if bucket = ''ais'' then
         (let m1 = (if st_mmsi st \<noteq> 0 then st_mmsi st else st_trackid st);
              m2 = (if m1 = 0 then st_uniqueid st else m1)
          in if m2 = 0 then s
             else let ais = \<lparr>MMSI = m2, ais_lat = st_latitude st, ais_long = st_longitude st,
                              ais_speed = st_speed st, ais_course = st_course st,
                              ais_msgTimeSecs = to_i32 nowSecs\<rparr>;
                      key = to_i32 m2
               in s\<lparr>aisTrack := qm_insert key ais (aisTrack s),
                    aisTrail := appendTrail same (aisTrail s) key (ais_lat ais, ais_long ais)\<rparr>)
       else if bucket = ''bird'' then
         (let track = trackDataClassToSpx nowSecs nowMicros st 0; mapKey = spxMapKeyFromTrack st
          in if mapKey \<le> 0 then s
             else s\<lparr>birdRadarTrack := qm_insert mapKey track (birdRadarTrack s),
                    birdRadarTrail := appendTrail same (birdRadarTrail s) mapKey (latDegs track, longDegs track)\<rparr>)
       else s))"

definition applyBatch :: "routes \<Rightarrow> (point \<Rightarrow> point \<Rightarrow> bool) \<Rightarrow> int \<Rightarrow> int \<Rightarrow> TrackDataClass list \<Rightarrow> string list
    \<Rightarrow> ingest_tables \<Rightarrow> ingest_tables" where
  "applyBatch R same nowSecs nowMicros tracks sources s =
     fold (applyBatchTrack R same nowSecs nowMicros)
       (zip (map (\<lambda>i. if i < length sources then sources ! i else []) [0..<length tracks]) tracks) s"

section \<open>Trails\<close>

definition position :: "SPxTrack \<Rightarrow> point" where
  "position trk = (latDegs trk, longDegs trk)"

definition trail_ok :: "(point \<Rightarrow> point \<Rightarrow> bool) \<Rightarrow> nat \<Rightarrow> trail \<Rightarrow> bool" where
  "trail_ok same n tr = (length tr \<le> n + 1 \<and> sorted_wrt (\<lambda>q p. \<not> same q p) tr)"

lemma appendTrailPoint_cases:
  "appendTrailPoint same tr trk n = tr \<and> list_ex (\<lambda>q. same q (position trk)) tr \<or>
   \<not> list_ex (\<lambda>q. same q (position trk)) tr \<and>
     appendTrailPoint same tr trk n = (if length tr > n then tl tr else tr) @ [position trk]"
  by (simp add: appendTrailPoint_def position_def Let_def)

lemma trail_ok_append: "trail_ok same n tr \<Longrightarrow> trail_ok same n (appendTrailPoint same tr trk n)"
  using appendTrailPoint_cases[of same tr trk n]
  by (cases tr) (auto simp: trail_ok_def sorted_wrt_append list_ex_iff)

lemma appendTrailPoint_nonempty: "appendTrailPoint same tr trk n \<noteq> []"
  using appendTrailPoint_cases[of same tr trk n] by (cases tr) auto

lemma appendTrailPoint_subseq: "subseq (appendTrailPoint same tr trk n) (tr @ [position trk])"
proof -
  have "subseq (tl tr) tr" by (cases tr) (auto intro: subseq_Cons')
  then have "subseq (tl tr @ [p]) (tr @ [p])" for p by (rule list_emb_append_mono) simp
  then show ?thesis using appendTrailPoint_cases[of same tr trk n] by (auto split: if_splits)
qed

text \<open>The trail of one target after the reports \<open>trks\<close>, oldest first.\<close>

definition trail_run :: "(point \<Rightarrow> point \<Rightarrow> bool) \<Rightarrow> nat \<Rightarrow> SPxTrack list \<Rightarrow> trail" where
  "trail_run same n trks = foldl (\<lambda>tr trk. appendTrailPoint same tr trk n) [] trks"

lemma trail_run_snoc: "trail_run same n (trks @ [t]) = appendTrailPoint same (trail_run same n trks) t n"
  by (simp add: trail_run_def)

lemma trail_run_ok: "trail_ok same n (trail_run same n trks)"
  by (induction trks rule: rev_induct)
    (simp_all add: trail_run_snoc trail_ok_append, simp add: trail_run_def trail_ok_def)

lemma trail_run_subseq: "subseq (trail_run same n trks) (map position trks)"
proof (induction trks rule: rev_induct)
  case (snoc t trks)
  then have "subseq (trail_run same n trks @ [position t]) (map position trks @ [position t])"
    by (rule list_emb_append_mono) simp
  from subseq_order.trans[OF appendTrailPoint_subseq this] show ?case
    by (simp add: trail_run_snoc)
qed (simp add: trail_run_def)

text \<open>
  A trail is chronological and bounded: after any reports it is a subsequence of the
  reported positions in the order they arrived (so \<open>at(0)\<close> is the oldest point kept), it has
  at most \<open>maxPoints + 1\<close> points, no later point repeats an earlier one, and unless the last
  report repeated a kept position it ends in that position.
\<close>

theorem trail_chronological:
  "subseq (trail_run same n trks) (map position trks) \<and>
   length (trail_run same n trks) \<le> n + 1 \<and>
   sorted_wrt (\<lambda>q p. \<not> same q p) (trail_run same n trks) \<and>
   (last (trail_run same n (trks @ [t])) = position t \<or>
    list_ex (\<lambda>q. same q (position t)) (trail_run same n trks))"
proof -
  note ok = trail_run_ok[of same n trks]
  have "last (trail_run same n (trks @ [t])) = position t \<or>
      list_ex (\<lambda>q. same q (position t)) (trail_run same n trks)"
    using appendTrailPoint_cases[of same "trail_run same n trks" t n] by (auto simp: trail_run_snoc)
  then show ?thesis using ok trail_run_subseq[of same n trks] by (simp add: trail_ok_def)
qed

section \<open>Pruning\<close>

abbreviation stale :: "int \<Rightarrow> int \<Rightarrow> SPxTrack \<Rightarrow> bool" where
  "stale now secs trk \<equiv> now - msgTimeSecs trk > secs"

lemma fold_prune_track:
  assumes "distinct ks"
  shows "fold (prune_track now secs) ks (m, tr) =
    (fold qm_remove (filter (\<lambda>k. \<exists>t. map_of m k = Some t \<and> stale now secs t) ks) m,
     fold qm_remove (filter (\<lambda>k. \<exists>t. map_of m k = Some t \<and> stale now secs t) ks) tr)"
  using assms
proof (induction ks arbitrary: m tr)
  case (Cons k ks)
  let ?bad = "\<lambda>m k. \<exists>t. map_of m k = Some t \<and> stale now secs t"
  have f: "filter (?bad (qm_remove k m)) ks = filter (?bad m) ks"
    using Cons.prems by (intro filter_cong) auto
  show ?case
  proof (cases "?bad m k")
    case True
    then have "prune_track now secs k (m, tr) = (qm_remove k m, qm_remove k tr)"
      by (auto simp: prune_track_def)
    with True Cons f show ?thesis by simp
  next
    case False
    then have "prune_track now secs k (m, tr) = (m, tr)"
      by (auto simp: prune_track_def split: option.splits)
    moreover have "filter (?bad m) (k # ks) = filter (?bad m) ks"
      using False by (simp only: filter.simps if_False simp_thms)
    ultimately show ?thesis using Cons by (simp del: filter.simps)
  qed
qed simp

lemma fold_prune_orphan:
  "fold (prune_orphan m) ks tr = fold qm_remove (filter (\<lambda>k. map_of m k = None) ks) tr"
  by (induction ks arbitrary: tr) (simp_all add: prune_orphan_def)

lemma pruneMap64_lookup:
  assumes "qm_ok m" "qm_ok tr" "pruneMap64 now m tr secs = (m', tr')"
  shows "map_of m' k = (case map_of m k of Some t \<Rightarrow> if stale now secs t then None else Some t | None \<Rightarrow> None)"
    and "map_of tr' k = (if map_of m' k = None then None else map_of tr k)"
    and "qm_ok m'" and "qm_ok tr'"
proof -
  let ?bad = "filter (\<lambda>k. \<exists>t. map_of m k = Some t \<and> stale now secs t) (map fst m)"
  have d: "distinct (map fst m)" using assms(1) by (rule qm_ok_distinct)
  define tr1 where "tr1 = fold qm_remove ?bad tr"
  have m': "m' = fold qm_remove ?bad m"
    and tr': "tr' = fold qm_remove (filter (\<lambda>k. map_of m' k = None) (map fst tr1)) tr1"
    using assms(3) fold_prune_track[OF d, of now secs m tr]
    by (auto simp: pruneMap64_def fold_prune_orphan tr1_def)
  have ok1: "qm_ok tr1" unfolding tr1_def using assms(2) by (rule qm.ok_del_many)
  show "qm_ok m'" unfolding m' using assms(1) by (rule qm.ok_del_many)
  show "qm_ok tr'" unfolding tr' using ok1 by (rule qm.ok_del_many)
  show mk: "map_of m' k = (case map_of m k of Some t \<Rightarrow> if stale now secs t then None else Some t | None \<Rightarrow> None)" for k
  proof (cases "map_of m k")
    case None
    then show ?thesis using assms(1) by (simp add: m' qm.lookup_del_many)
  next
    case (Some t)
    then have "k \<in> set (map fst m)" by (metis map_of_eq_None_iff option.distinct(1) set_map)
    with Some show ?thesis using assms(1) by (auto simp: m' qm.lookup_del_many)
  qed
  have t1: "map_of tr1 k = (if k \<in> set ?bad then None else map_of tr k)" for k
    unfolding tr1_def using assms(2) by (rule qm.lookup_del_many)
  have bad: "map_of m' k = None" if "k \<in> set ?bad" for k using that by (auto simp: mk)
  have keys: "k \<in> set (map fst tr1)" if "map_of tr1 k \<noteq> None" for k
    using that by (simp add: map_of_eq_None_iff)
  have *: "map_of tr' k = (if k \<in> set (filter (\<lambda>k. map_of m' k = None) (map fst tr1)) then None else map_of tr1 k)"
    unfolding tr' using ok1 by (rule qm.lookup_del_many)
  show "map_of tr' k = (if map_of m' k = None then None else map_of tr k)"
  proof (cases "map_of m' k = None")
    case False
    then have "k \<notin> set ?bad" by (rule contrapos_nn) (rule bad)
    then have "map_of tr1 k = map_of tr k" unfolding t1 by (rule if_not_P)
    with False * show ?thesis by auto
  next
    case True
    then show ?thesis using * keys[of k] by (cases "map_of tr1 k") simp_all
  qed
qed

text \<open>
  Pruning is exact: a track survives \<open>clearStaleTrackMaps\<close> precisely when its last
  message is at most 8 seconds old (4 for air targets), unchanged, and a trail survives precisely
  when its track does, unchanged: no orphan trail is left and nothing live is lost.
\<close>

theorem prune_exact:
  assumes "qm_ok (fuseTrack s)" "qm_ok (fuseTrail s)" "qm_ok (birdTrack s)" "qm_ok (birdTrail s)"
    and "s' = clearStaleTrackMaps now s"
  shows "(map_of (fuseTrack s') k = Some t \<longleftrightarrow> map_of (fuseTrack s) k = Some t \<and> now - msgTimeSecs t \<le> 8) \<and>
    map_of (fuseTrail s') k = (if map_of (fuseTrack s') k = None then None else map_of (fuseTrail s) k) \<and>
    (map_of (birdTrack s') k = Some t \<longleftrightarrow> map_of (birdTrack s) k = Some t \<and> now - msgTimeSecs t \<le> 4) \<and>
    map_of (birdTrail s') k = (if map_of (birdTrack s') k = None then None else map_of (birdTrail s) k)"
proof -
  obtain ft fl bt bl where p: "pruneMap64 now (fuseTrack s) (fuseTrail s) 8 = (ft, fl)"
      "pruneMap64 now (birdTrack s) (birdTrail s) 4 = (bt, bl)" by (metis surj_pair)
  then have s': "s' = \<lparr>fuseTrack = ft, fuseTrail = fl, birdTrack = bt, birdTrail = bl\<rparr>"
    using assms(5) by (simp add: clearStaleTrackMaps_def)
  note f = pruneMap64_lookup(1,2)[OF assms(1,2) p(1), of k]
  note b = pruneMap64_lookup(1,2)[OF assms(3,4) p(2), of k]
  have "map_of ft k = Some t \<longleftrightarrow> map_of (fuseTrack s) k = Some t \<and> now - msgTimeSecs t \<le> 8"
    using f(1) by (auto split: option.splits)
  moreover have "map_of bt k = Some t \<longleftrightarrow> map_of (birdTrack s) k = Some t \<and> now - msgTimeSecs t \<le> 4"
    using b(1) by (auto split: option.splits)
  ultimately show ?thesis using f(2) b(2) by (simp add: s')
qed

definition sample_tables :: tables where
  "sample_tables = \<lparr>fuseTrack = [(1, zero_track\<lparr>msgTimeSecs := 90\<rparr>), (2, zero_track\<lparr>msgTimeSecs := 99\<rparr>)],
     fuseTrail = [(1, [(30, 120)]), (2, [(31, 121)])], birdTrack = [], birdTrail = []\<rparr>"

theorem prune_exact_witness:
  "map_of (fuseTrail (clearStaleTrackMaps 100 sample_tables)) 1 = None \<and>
   map_of (fuseTrail (clearStaleTrackMaps 100 sample_tables)) 2 = Some [(31, 121)]"
proof -
  have ok: "qm_ok (fuseTrack sample_tables)" "qm_ok (fuseTrail sample_tables)"
    "qm_ok (birdTrack sample_tables)" "qm_ok (birdTrail sample_tables)"
    by (simp_all add: sample_tables_def qm_ok_def)
  note p = prune_exact[OF ok refl, of 100]
  have "map_of (fuseTrack (clearStaleTrackMaps 100 sample_tables)) 1 \<noteq> Some t" for t
    using p[of 1 t] by (auto simp: sample_tables_def zero_track_def)
  then have "map_of (fuseTrack (clearStaleTrackMaps 100 sample_tables)) 1 = None" by (metis not_Some_eq)
  moreover have "map_of (fuseTrack (clearStaleTrackMaps 100 sample_tables)) 2 = Some (zero_track\<lparr>msgTimeSecs := 99\<rparr>)"
    using p[of 2 "zero_track\<lparr>msgTimeSecs := 99\<rparr>"] by (simp add: sample_tables_def)
  ultimately show ?thesis using p[of 1] p[of 2] by (simp add: sample_tables_def)
qed

section \<open>The invariant of the tables\<close>

definition pair_ok :: "(point \<Rightarrow> point \<Rightarrow> bool) \<Rightarrow> nat \<Rightarrow> track_map \<times> trail_map \<Rightarrow> bool" where
  "pair_ok same n mt = (qm_ok (fst mt) \<and> qm_ok (snd mt) \<and>
     (\<forall>k. (map_of (fst mt) k = None) = (map_of (snd mt) k = None)) \<and>
     (\<forall>k trk. map_of (fst mt) k = Some trk \<longrightarrow> 0 < k \<and> uniqueID trk = k mod 2 ^ 32) \<and>
     (\<forall>k tr. map_of (snd mt) k = Some tr \<longrightarrow> tr \<noteq> [] \<and> trail_ok same n tr))"

lemma pair_ok_remove: "pair_ok same n (m, tr) \<Longrightarrow> pair_ok same n (qm_remove k m, qm_remove k tr)"
  by (auto simp: pair_ok_def qm_ok_remove split: if_splits)

lemma trail_at_ok: "pair_ok same n (m, tr) \<Longrightarrow> trail_ok same n (trail_at tr k)"
  by (auto simp: pair_ok_def trail_at_def trail_ok_def split: option.splits)

text \<open>A known \<open>uniqueID\<close> equals the incoming one, so keeping it changes nothing.\<close>

lemma preserve_same [simp]: "preserveStableUniqueId u u = u"
  by (simp add: preserveStableUniqueId_def)

lemma store_track_known:
  assumes "pair_ok same n (m, tr)" "uniqueID trk = k mod 2 ^ 32"
  shows "store_track same n k trk (m, tr) =
    (qm_insert k trk m, qm_insert k (appendTrailPoint same (trail_at tr k) trk n) tr)"
proof (cases "map_of m k")
  case (Some prev)
  then have "uniqueID prev = uniqueID trk" using assms by (simp add: pair_ok_def)
  then have "trk\<lparr>uniqueID := preserveStableUniqueId (uniqueID prev) (uniqueID trk)\<rparr> = trk" by simp
  with Some show ?thesis by (simp add: store_track_def Let_def)
qed (simp add: store_track_def)

lemma pair_ok_store:
  assumes "pair_ok same n (m, tr)" "uniqueID trk = k mod 2 ^ 32" "0 < k"
  shows "pair_ok same n (store_track same n k trk (m, tr))"
  using assms trail_ok_append[OF trail_at_ok[OF assms(1)], of k trk]
  unfolding store_track_known[OF assms(1,2)]
  by (auto simp: pair_ok_def qm_ok_insert appendTrailPoint_nonempty split: if_splits)

lemma pair_ok_prune:
  assumes "pair_ok same n (m, tr)" "pruneMap64 now m tr secs = (m', tr')"
  shows "pair_ok same n (m', tr')"
proof -
  have q: "qm_ok m" "qm_ok tr" using assms(1) by (auto simp: pair_ok_def)
  note p = pruneMap64_lookup[OF q assms(2)]
  have m: "map_of m' k = Some t \<Longrightarrow> map_of m k = Some t" for k t
    using p(1)[of k] by (auto split: option.splits if_splits)
  have n: "(map_of m k = None) = (map_of tr k = None)" for k using assms(1) by (simp add: pair_ok_def)
  have k: "(map_of m' k = None) = (map_of tr' k = None)" for k
    using p(2)[of k] n[of k] m[of k] by (cases "map_of m' k") auto
  have t: "map_of tr' k = Some l \<Longrightarrow> map_of tr k = Some l" for k l
    using p(2)[of k] by (auto split: if_splits)
  show ?thesis using p(3,4) k m t assms(1) by (simp add: pair_ok_def) metis
qed

definition tables_ok :: "(point \<Rightarrow> point \<Rightarrow> bool) \<Rightarrow> int \<Rightarrow> tables \<Rightarrow> bool" where
  "tables_ok same mode s = (pair_ok same (if mode = 1 then 15 else 10) (fuseTrack s, fuseTrail s) \<and>
     pair_ok same 10 (birdTrack s, birdTrail s))"

lemma tables_ok_prune: "tables_ok same mode s \<Longrightarrow> tables_ok same mode (clearStaleTrackMaps now s)"
  by (auto simp: tables_ok_def clearStaleTrackMaps_def intro: pair_ok_prune split: prod.splits)

lemma converted_uniqueID:
  assumes "targetToSpxExtended T now t = Some trk" "parseTargetId T t = Some v"
  shows "uniqueID trk = v mod 2 ^ 32 \<and> 0 < v"
  using assms parseTargetId_pos[OF assms(2)]
  by (auto simp: targetToSpxExtended_def Let_def to_u32_def split: option.splits if_splits)

lemma converted_some: "parseTargetId T t = Some v \<Longrightarrow> \<exists>trk. targetToSpxExtended T now t = Some trk"
  by (simp add: targetToSpxExtended_def Let_def)

lemma applyTarget_cases:
  "fst (applyTarget T same mode now t (s, sea, air)) =
    (case parseTargetId T t of None \<Rightarrow> s
     | Some v \<Rightarrow>
       if t_state t = LOST \<or> t_state t = MERGED then
         (if t_environment t = AIR
          then s\<lparr>birdTrack := qm_remove v (birdTrack s), birdTrail := qm_remove v (birdTrail s)\<rparr>
          else s\<lparr>fuseTrack := qm_remove v (fuseTrack s), fuseTrail := qm_remove v (fuseTrail s)\<rparr>)
       else let trk = the (targetToSpxExtended T now t) in
         if t_environment t = AIR
         then s\<lparr>birdTrack := fst (store_track same 10 v trk (birdTrack s, birdTrail s)),
                birdTrail := snd (store_track same 10 v trk (birdTrack s, birdTrail s))\<rparr>
         else s\<lparr>fuseTrack := fst (store_track same (if mode = 1 then 15 else 10) v trk (fuseTrack s, fuseTrail s)),
                fuseTrail := snd (store_track same (if mode = 1 then 15 else 10) v trk (fuseTrack s, fuseTrail s))\<rparr>)"
proof (cases "parseTargetId T t")
  case (Some v)
  then obtain trk where "targetToSpxExtended T now t = Some trk"
    using converted_some by blast
  with Some show ?thesis
    by (simp add: applyTarget_def Let_def split: prod.splits)
qed (simp add: applyTarget_def)

lemma tables_ok_applyTarget:
  assumes "tables_ok same mode s"
  shows "tables_ok same mode (fst (applyTarget T same mode now t (s, sea, air)))"
proof (cases "parseTargetId T t")
  case (Some v)
  then obtain trk where trk: "targetToSpxExtended T now t = Some trk"
    using converted_some by blast
  note u = converted_uniqueID[OF trk Some]
  show ?thesis using assms u
    by (auto simp: applyTarget_cases Some trk tables_ok_def Let_def pair_ok_remove pair_ok_store)
qed (use assms in \<open>simp add: applyTarget_cases\<close>)

lemma tables_ok_fold:
  "tables_ok same mode (fst acc) \<Longrightarrow> tables_ok same mode (fst (fold (applyTarget T same mode now) ts acc))"
proof (induction ts arbitrary: acc)
  case (Cons t ts)
  obtain s sea air where "acc = (s, sea, air)" by (cases acc) auto
  with Cons tables_ok_applyTarget show ?case by simp
qed simp

lemma tabs_applyTargetOutputSet:
  "tabs (applyTargetOutputSet T same mode now ts c) = fst (fold (applyTarget T same mode now) ts (tabs c, [], []))"
  by (simp add: applyTargetOutputSet_def split: prod.splits)

definition empty_client :: grpc_client where
  "empty_client = \<lparr>tabs = \<lparr>fuseTrack = [], fuseTrail = [], birdTrack = [], birdTrail = []\<rparr>,
     latest_fuse = None, latest_bird = None\<rparr>"

text \<open>The stream thread and the prune thread interleave under the write lock.\<close>

inductive ingest_reachable :: "qt_text \<Rightarrow> (point \<Rightarrow> point \<Rightarrow> bool) \<Rightarrow> int \<Rightarrow> grpc_client \<Rightarrow> bool"
  for T same mode where
  init: "ingest_reachable T same mode empty_client"
| batch: "ingest_reachable T same mode c \<Longrightarrow>
    ingest_reachable T same mode (applyTargetOutputSet T same mode now ts c)"
| prune: "ingest_reachable T same mode c \<Longrightarrow>
    ingest_reachable T same mode (c\<lparr>tabs := clearStaleTrackMaps now (tabs c)\<rparr>)"

lemma tables_ok_reachable: "ingest_reachable T same mode c \<Longrightarrow> tables_ok same mode (tabs c)"
proof (induction rule: ingest_reachable.induct)
  case init
  show ?case by (simp add: empty_client_def tables_ok_def pair_ok_def)
qed (simp_all add: tabs_applyTargetOutputSet tables_ok_fold tables_ok_prune)

text \<open>
  C12. However batches and prunes interleave, track and trail tables have the same ids, every
  id is positive and determines the track's \<open>uniqueID\<close> (its low 32 bits), and every trail is
  non-empty, free of repetitions and at most 11 points long (16 for sea tracks in mode 1).
\<close>

theorem ingest_invariant:
  assumes "ingest_reachable T same mode c"
  shows "(map_of (fuseTrack (tabs c)) k = None) = (map_of (fuseTrail (tabs c)) k = None) \<and>
    (map_of (birdTrack (tabs c)) k = None) = (map_of (birdTrail (tabs c)) k = None) \<and>
    (map_of (fuseTrack (tabs c)) k = Some trk \<longrightarrow> 0 < k \<and> uniqueID trk = k mod 2 ^ 32) \<and>
    (map_of (fuseTrail (tabs c)) k = Some tr \<longrightarrow> tr \<noteq> [] \<and> sorted_wrt (\<lambda>q p. \<not> same q p) tr \<and>
       length tr \<le> (if mode = 1 then 16 else 11)) \<and>
    (map_of (birdTrail (tabs c)) k = Some tr \<longrightarrow> tr \<noteq> [] \<and> sorted_wrt (\<lambda>q p. \<not> same q p) tr \<and> length tr \<le> 11)"
  using tables_ok_reachable[OF assms]
  by (auto simp: tables_ok_def pair_ok_def trail_ok_def)

theorem ingest_invariant_witness:
  "map_of (birdTrail (tabs (applyTargetOutputSet ascii_text (=) 0 5 [sample_target] empty_client))) 42 \<noteq> None \<and>
   map_of (birdTrack (tabs (applyTargetOutputSet ascii_text (=) 0 5 [sample_target] empty_client))) 42 \<noteq> None"
proof -
  have p: "parseTargetId ascii_text sample_target = Some 42" by code_simp
  let ?c = "applyTargetOutputSet ascii_text (=) 0 5 [sample_target] empty_client"
  have "ingest_reachable ascii_text (=) 0 ?c" by (intro ingest_reachable.intros)
  from ingest_invariant[OF this, of 42] have
    "(map_of (birdTrack (tabs ?c)) 42 = None) = (map_of (birdTrail (tabs ?c)) 42 = None)" by simp
  moreover have "map_of (birdTrack (tabs ?c)) 42 \<noteq> None"
  proof -
    have "t_environment sample_target = AIR" "t_state sample_target = STABLE"
      by (simp_all add: sample_target_def)
    then show ?thesis
      by (simp add: tabs_applyTargetOutputSet applyTarget_cases p empty_client_def store_track_def Let_def)
  qed
  ultimately show ?thesis by simp
qed

text \<open>
  A target reported \<open>LOST\<close> or \<open>MERGED\<close> is gone at once from the tables of its environment,
  with its trail, and nothing else changes.
\<close>

theorem lost_target_removed:
  assumes "parseTargetId T t = Some v" and "t_state t = LOST \<or> t_state t = MERGED" and "t_environment t \<noteq> AIR"
    and "c' = applyTargetOutputSet T same mode now [t] c"
  shows "map_of (fuseTrack (tabs c')) = (map_of (fuseTrack (tabs c)))(v := None) \<and>
    map_of (fuseTrail (tabs c')) = (map_of (fuseTrail (tabs c)))(v := None) \<and>
    birdTrack (tabs c') = birdTrack (tabs c) \<and> birdTrail (tabs c') = birdTrail (tabs c) \<and>
    latest_fuse c' = latest_fuse c \<and> latest_bird c' = latest_bird c"
  using assms by (auto simp: applyTargetOutputSet_def applyTarget_def Let_def fun_eq_iff)

theorem lost_target_removed_witness:
  "map_of (fuseTrack (tabs (applyTargetOutputSet ascii_text (=) 0 5
     [sample_target\<lparr>t_state := LOST, t_environment := SURFACE\<rparr>]
     (empty_client\<lparr>tabs := sample_tables\<lparr>fuseTrack := [(42, zero_track)]\<rparr>\<rparr>)))) 42 = None"
proof -
  have "parseTargetId ascii_text (sample_target\<lparr>t_state := LOST, t_environment := SURFACE\<rparr>) = Some 42"
    by code_simp
  from lost_target_removed[OF this _ _ refl] show ?thesis by simp
qed

section \<open>The two subscribers agree\<close>

lemma dds_apply_agrees:
  assumes "list_all (\<lambda>fs. 0 \<le> fs_trackId fs \<and> fs_trackId fs < 4294967296) (all_fusion_sources t)"
    and "t_environment t \<noteq> AIR" and "t_state t \<noteq> LOST" and "t_state t \<noteq> MERGED"
  shows "dds_applyTarget T same mode now False t s = fst (applyTarget T same mode now t (s, sea, air))"
proof (cases "parseTargetId T t")
  case None
  then show ?thesis by (simp add: dds_applyTarget_def applyTarget_def dds_targetToSpxExtended_def)
next
  case (Some v)
  then obtain trk where trk: "targetToSpxExtended T now t = Some trk"
    using converted_some by blast
  have d: "dds_targetToSpxExtended T now t = Some trk"
    using converters_agree_lemma[OF assms(1)] trk by simp
  show ?thesis using assms
    by (simp add: applyTarget_cases Some trk d dds_applyTarget_def split: prod.splits)
qed

text \<open>
  Sea targets that are all alive leave the same tables whether they arrive on the DDS topic
  or on the gRPC stream.
\<close>

theorem dds_and_grpc_ingest_agree:
  assumes "list_all (\<lambda>t. list_all (\<lambda>fs. 0 \<le> fs_trackId fs \<and> fs_trackId fs < 4294967296) (all_fusion_sources t) \<and>
      t_environment t \<noteq> AIR \<and> t_state t \<noteq> LOST \<and> t_state t \<noteq> MERGED) ts"
  shows "dds_applyTargetOutputSet T same mode now False ts (tabs c) =
    tabs (applyTargetOutputSet T same mode now ts c)"
proof -
  have "fold (dds_applyTarget T same mode now False) ts (fst acc) = fst (fold (applyTarget T same mode now) ts acc)" for acc
    using assms
  proof (induction ts arbitrary: acc)
    case (Cons t ts)
    obtain s sea air where acc: "acc = (s, sea, air)" by (cases acc) auto
    have "dds_applyTarget T same mode now False t s = fst (applyTarget T same mode now t (s, sea, air))"
      by (rule dds_apply_agrees) (use Cons.prems in auto)
    then show ?case using Cons.IH[of "applyTarget T same mode now t acc"] Cons.prems by (simp add: acc)
  qed simp
  from this[of "(tabs c, [], [])"] show ?thesis
    by (simp add: dds_applyTargetOutputSet_def tabs_applyTargetOutputSet)
qed

theorem dds_and_grpc_ingest_agree_witness:
  "dds_applyTargetOutputSet ascii_text (=) 1 9 False [sample_target\<lparr>t_environment := SURFACE\<rparr>] sample_tables =
   tabs (applyTargetOutputSet ascii_text (=) 1 9 [sample_target\<lparr>t_environment := SURFACE\<rparr>] (empty_client\<lparr>tabs := sample_tables\<rparr>))"
proof -
  have "list_all (\<lambda>t. list_all (\<lambda>fs. 0 \<le> fs_trackId fs \<and> fs_trackId fs < 4294967296) (all_fusion_sources t) \<and>
      t_environment t \<noteq> AIR \<and> t_state t \<noteq> LOST \<and> t_state t \<noteq> MERGED) [sample_target\<lparr>t_environment := SURFACE\<rparr>]"
    by (simp add: all_fusion_sources_def sample_target_def)
  from dds_and_grpc_ingest_agree[OF this, of ascii_text "(=)" 1 9 "empty_client\<lparr>tabs := sample_tables\<rparr>"]
  show ?thesis by simp
qed

text \<open>
  The reconnect wait is always between 2 and 30 seconds, starts again at 2 after every
  connection that ended without an exception, and otherwise doubles until the cap.
\<close>

theorem reconnect_wait_bounded:
  assumes "2 \<le> backoff" "backoff \<le> 30" and "i < length outcomes"
  shows "2 \<le> runLoop_waits backoff outcomes ! i \<and> runLoop_waits backoff outcomes ! i \<le> 30 \<and>
    (outcomes ! i \<longrightarrow> runLoop_waits backoff outcomes ! i = 2) \<and>
    (Suc i < length outcomes \<and> \<not> outcomes ! Suc i \<longrightarrow>
       runLoop_waits backoff outcomes ! Suc i = min (2 * runLoop_waits backoff outcomes ! i) 30)"
  using assms
proof (induction outcomes arbitrary: backoff i)
  case (Cons r rest)
  let ?b = "if r then 2 else backoff"
  have b: "2 \<le> min (?b * 2) 30" "min (?b * 2) 30 \<le> 30" using Cons.prems by auto
  show ?case
  proof (cases i)
    case 0
    then show ?thesis using Cons.prems by (cases rest) (auto simp: Let_def)
  next
    case (Suc j)
    with Cons.prems Cons.IH[OF b, of j] show ?thesis by (simp add: Let_def)
  qed
qed simp

theorem reconnect_wait_bounded_witness:
  "runLoop_waits 2 [False, False, False, False, False, True] ! 4 \<le> 30"
  using reconnect_wait_bounded[of 2 4 "[False, False, False, False, False, True]"]
  by (simp del: runLoop_waits.simps)

end
