(* ===== verification/Alarm_Store.thy ===== *)
theory Alarm_Store
  imports Track_Ingest
begin

text \<open>
  The alarm tables the threads share (members of \<open>CustomConfig\<close>) and what is done to
  them: silencing a target (\<open>addAlarmFilter\<close> and its companions), raising or refreshing
  an alarm (\<open>TrackAlarmThread::SaveToDB\<close>), the prune loop of \<open>TrackAlarmThread::run\<close>,
  and manual confirmation (\<open>confirmAlarmByUniqueId\<close>, \<open>syncManualAlarmsBeforePublish\<close>).
  Each operation reads the clock once here; \<open>now\<close> is that reading in milliseconds.
\<close>

section \<open>State\<close>

record alarm_state =
  mapAlarmData :: "(string, AlarmData) qmap"
  alarmFilterExpireMs :: "(int \<times> int, int) qmap"
  manualAlarmData :: "(string, AlarmData) qmap"
  manualAlarmAirTrack :: "(int, bool) qmap"
  manualConfirmedUniqueIds :: "int set"
  manualConfirmResolvedTime :: "(int, int) qmap"
  identificationResolvedTime :: "(string, int) qmap"
  mapTargetType :: "(string, int) qmap"
  listAlarmData :: "AlarmData list"

datatype db_op = DbInsert AlarmData | DbUpdate AlarmData | DbEvaluation string int int int

section \<open>Silencing a target\<close>

fun pruneExpiredAlarmFilters :: "int \<Rightarrow> (int \<times> int, int) qmap \<Rightarrow> (int \<times> int, int) qmap" where
  "pruneExpiredAlarmFilters nowMs [] = []"
| "pruneExpiredAlarmFilters nowMs ((k, e) # rest) =
     (if e \<le> nowMs then pruneExpiredAlarmFilters nowMs rest else (k, e) # pruneExpiredAlarmFilters nowMs rest)"

definition removeAlarmFilterForUniqueId :: "int \<Rightarrow> alarm_state \<Rightarrow> alarm_state" where
  "removeAlarmFilterForUniqueId uid s =
     (if uid \<le> 0 then s
      else s\<lparr>alarmFilterExpireMs := qm_remove (1, uid) (qm_remove (0, uid) (alarmFilterExpireMs s))\<rparr>)"

definition keys_of_target :: "int \<Rightarrow> (string, AlarmData) qmap \<Rightarrow> string list" where
  "keys_of_target targetId m = map fst (filter (\<lambda>p. unique_id (snd p) = targetId) m)"

definition addAlarmFilter :: "AlarmLogicConfig \<Rightarrow> int \<Rightarrow> int \<Rightarrow> int \<Rightarrow> alarm_state \<Rightarrow> alarm_state" where
  "addAlarmFilter al nowMs type targetId s =
     (if targetId \<le> 0 then s
      else let expireMs = nowMs + max 1000 (alarmFilterTtlMs al);
               s1 = s\<lparr>alarmFilterExpireMs := qm_insert (type, targetId) expireMs (alarmFilterExpireMs s)\<rparr>;
               ruleKeys = keys_of_target targetId (mapAlarmData s1);
               s2 = s1\<lparr>mapAlarmData := fold qm_remove ruleKeys (mapAlarmData s1)\<rparr>;
               manualKeys = keys_of_target targetId (manualAlarmData s2);
               s3 = s2\<lparr>manualAlarmData := fold qm_remove manualKeys (manualAlarmData s2)\<rparr>
           in s3\<lparr>mapTargetType := qm_remove (dec_int targetId) (mapTargetType s3)\<rparr>)"

definition isUniqueIdAlarmFiltered :: "int \<Rightarrow> int \<Rightarrow> alarm_state \<Rightarrow> bool \<times> alarm_state" where
  "isUniqueIdAlarmFiltered nowMs uid s =
     (if uid \<le> 0 then (False, s)
      else let f = pruneExpiredAlarmFilters nowMs (alarmFilterExpireMs s);
               isActive = (\<lambda>type. case map_of f (type, uid) of Some e \<Rightarrow> e > nowMs | None \<Rightarrow> False)
           in (isActive (0::int) \<or> isActive 1, s\<lparr>alarmFilterExpireMs := f\<rparr>))"

section \<open>\<open>TrackAlarmThread::SaveToDB\<close>\<close>

text \<open>The arguments of one call, the fresh UUID, and the value \<open>targettype\<close> and
  \<open>targetbehavior\<close> happen to have in a new \<open>AlarmData\<close> (the struct leaves them unset).\<close>

record save_args =
  sv_info :: AlarmRule
  sv_targetId :: int
  sv_lat :: real
  sv_lon :: real
  sv_speed :: real
  sv_dir :: real
  sv_dis :: real
  sv_threatScore :: int
  sv_timestampSec :: int
  sv_radarSourceId :: int
  sv_content :: qstring
  sv_uuid :: string
  sv_unset_targettype :: int
  sv_unset_targetbehavior :: int

definition matchesDedupKey :: "AlarmLogicConfig \<Rightarrow> save_args \<Rightarrow> AlarmData \<Rightarrow> bool" where
  "matchesDedupKey al a ad =
     (if dedupMatchConditionAndTrack al \<noteq> 0
      then condition_id ad = rule_condition_id (sv_info a) \<and> unique_id ad = sv_targetId a
      else unique_id ad = sv_targetId a)"

fun dedup_scan :: "AlarmLogicConfig \<Rightarrow> save_args \<Rightarrow> int \<Rightarrow> (string, AlarmData) qmap \<Rightarrow> AlarmData option" where
  "dedup_scan al a now [] = None"
| "dedup_scan al a now ((k, ad) # rest) =
     (if matchesDedupKey al a ad \<and> now - alarm_time ad < dedupSameAlarmWindowMs al then Some ad
      else dedup_scan al a now rest)"

definition origin_ms :: "AlarmLogicConfig \<Rightarrow> save_args \<Rightarrow> int \<Rightarrow> int" where
  "origin_ms al a now =
     (if originTimeFromTrackMsg al = 0 then now
      else if originTrackTimeIsMs al \<noteq> 0 then sv_timestampSec a else sv_timestampSec a * 1000)"

definition alarm_dist :: "AlarmLogicConfig \<Rightarrow> save_args \<Rightarrow> real" where
  "alarm_dist al a =
     (if useBasePoint al = 1
      then GetDistance (sv_lon a) (sv_lat a) (basePointLon al) (basePointLat al) / 1852
      else sv_dis a / 1852)"

definition alarm_dir :: "AlarmLogicConfig \<Rightarrow> save_args \<Rightarrow> real" where
  "alarm_dir al a =
     (if useBasePoint al = 1
      then getAngle2 (sv_lat a) (sv_lon a) (basePointLat al) (basePointLon al)
      else sv_dir a)"

definition new_alarm :: "AlarmLogicConfig \<Rightarrow> save_args \<Rightarrow> int \<Rightarrow> AlarmData" where
  "new_alarm al a now =
     \<lparr>alarm_id = sv_uuid a, condition_id = rule_condition_id (sv_info a), mode_id = 1, track_id = 0,
      unique_id = sv_targetId a,
      targettype = (if sv_radarSourceId a \<noteq> 0 then sv_radarSourceId a else sv_unset_targettype a),
      targetbehavior = sv_unset_targetbehavior a,
      targetdist = alarm_dist al a, targetlon = sv_lon a, targetlat = sv_lat a,
      targetspeed = sv_speed a, targetdir = alarm_dir al a,
      alarm_time = now, origintime = origin_ms al a now, alarm_status = 0, alarm_count = 1,
      group_id = rule_group_id (sv_info a), area_id = rule_area_id (sv_info a),
      threatScore = sv_threatScore a, task_status = 0, alarm_content = sv_content a,
      threat_time_ms = origin_ms al a now\<rparr>"

definition refreshed_alarm :: "AlarmLogicConfig \<Rightarrow> save_args \<Rightarrow> int \<Rightarrow> AlarmData \<Rightarrow> AlarmData" where
  "refreshed_alarm al a now old =
     (let s1 = old\<lparr>targetlat := sv_lat a, targetlon := sv_lon a, targetspeed := sv_speed a,
                  alarm_count := alarm_count old + 1, threatScore := sv_threatScore a,
                  unique_id := sv_targetId a, track_id := 0\<rparr>;
          s2 = (if sv_radarSourceId a \<noteq> 0 then s1\<lparr>targettype := sv_radarSourceId a\<rparr> else s1);
          s3 = s2\<lparr>group_id := rule_group_id (sv_info a), area_id := rule_area_id (sv_info a)\<rparr>;
          s4 = (if sv_content a \<noteq> [] then s3\<lparr>alarm_content := sv_content a\<rparr> else s3)
      in s4\<lparr>alarm_time := now, targetdist := alarm_dist al a, targetdir := alarm_dir al a\<rparr>)"

definition SaveToDB :: "AlarmLogicConfig \<Rightarrow> int \<Rightarrow> save_args \<Rightarrow> alarm_state \<Rightarrow> alarm_state \<times> db_op option" where
  "SaveToDB al now a s0 =
     (if sv_targetId a \<le> 0 then (s0, None)
      else let (filtered, s) = isUniqueIdAlarmFiltered now (sv_targetId a) s0 in
        if filtered then (s, None)
        else case dedup_scan al a now (mapAlarmData s) of
          None \<Rightarrow>
            (let n = new_alarm al a now in
             (s\<lparr>mapAlarmData := qm_insert (alarm_id n) n (mapAlarmData s)\<rparr>,
              if saveAlarmToDb al \<noteq> 0 then Some (DbInsert n) else None))
        | Some old \<Rightarrow>
            (let u = refreshed_alarm al a now old;
                 s1 = (if alarm_status u = 0 then s\<lparr>listAlarmData := listAlarmData s @ [u]\<rparr> else s)
             in (s1\<lparr>mapAlarmData := qm_insert (alarm_id u) u (mapAlarmData s1)\<rparr>,
                 if alarm_status u = 0 \<and> saveAlarmToDb al \<noteq> 0 then Some (DbUpdate u) else None)))"

section \<open>The prune loop of \<open>TrackAlarmThread::run\<close>\<close>

text \<open>
  The iterator starts at the last entry; \<open>prune_loop i\<close> is the loop with the iterator at entry
  \<open>i\<close>, the entry at 0 being handled after it.  Removal is by the \<open>alarm_id\<close> of the value.
\<close>

definition prune_entry :: "AlarmLogicConfig \<Rightarrow> int \<Rightarrow> AlarmData \<Rightarrow> (string, AlarmData) qmap \<Rightarrow> (string, AlarmData) qmap" where
  "prune_entry al now ad m =
     (if now - alarm_time ad > alarmMapPruneNonFirstStaleMs al then qm_remove (alarm_id ad) m else m)"

fun prune_loop :: "AlarmLogicConfig \<Rightarrow> int \<Rightarrow> nat \<Rightarrow> (string, AlarmData) qmap \<Rightarrow> (string, AlarmData) qmap" where
  "prune_loop al now 0 m = prune_entry al now (snd (m ! 0)) m"
| "prune_loop al now (Suc i) m = prune_loop al now i (prune_entry al now (snd (m ! Suc i)) m)"

definition prune_alarms :: "AlarmLogicConfig \<Rightarrow> int \<Rightarrow> alarm_state \<Rightarrow> alarm_state" where
  "prune_alarms al now s =
     (if mapAlarmData s = [] then s
      else s\<lparr>mapAlarmData := prune_loop al now (length (mapAlarmData s) - 1) (mapAlarmData s)\<rparr>)"

section \<open>Facts about silencing\<close>

lemma pruneExpired_filter: "pruneExpiredAlarmFilters now f = filter (\<lambda>p. now < snd p) f"
  by (induction now f rule: pruneExpiredAlarmFilters.induct) auto

lemma map_of_filter_value:
  assumes "distinct (map fst m)"
  shows "map_of (filter (\<lambda>p. P (snd p)) m) k =
    (case map_of m k of Some v \<Rightarrow> if P v then Some v else None | None \<Rightarrow> None)"
  using assms
proof (induction m)
  case (Cons p m)
  then have "map_of m (fst p) = None" by (simp add: map_of_eq_None_iff)
  with Cons show ?case by (cases p) (auto split: option.splits)
qed simp

lemma map_of_pruneExpired:
  "qm_ok f \<Longrightarrow> map_of (pruneExpiredAlarmFilters now f) k =
     (case map_of f k of Some e \<Rightarrow> if now < e then Some e else None | None \<Rightarrow> None)"
  unfolding pruneExpired_filter by (rule map_of_filter_value) (rule qm_ok_distinct)

lemma qm_ok_pruneExpired: "qm_ok f \<Longrightarrow> qm_ok (pruneExpiredAlarmFilters now f)"
  by (simp add: pruneExpired_filter qm_ok_filter)

text \<open>Whether a filter entry of type 0 or 1 is in force.\<close>

definition silenced :: "int \<Rightarrow> int \<Rightarrow> alarm_state \<Rightarrow> bool" where
  "silenced now uid s \<longleftrightarrow> (\<exists>type \<in> {0, 1}. \<exists>e. map_of (alarmFilterExpireMs s) (type, uid) = Some e \<and> now < e)"

lemma isFiltered_iff:
  "qm_ok (alarmFilterExpireMs s) \<Longrightarrow> fst (isUniqueIdAlarmFiltered now uid s) = (0 < uid \<and> silenced now uid s)"
  by (auto simp: isUniqueIdAlarmFiltered_def silenced_def map_of_pruneExpired Let_def
      split: option.splits if_splits)

lemma isFiltered_state:
  "snd (isUniqueIdAlarmFiltered now uid s) =
     (if uid \<le> 0 then s
      else s\<lparr>alarmFilterExpireMs := pruneExpiredAlarmFilters now (alarmFilterExpireMs s)\<rparr>)"
  by (simp add: isUniqueIdAlarmFiltered_def Let_def)

lemma isFiltered_mapAlarmData [simp]:
  "mapAlarmData (snd (isUniqueIdAlarmFiltered now uid s)) = mapAlarmData s"
  by (simp add: isFiltered_state)

lemma silenced_prune:
  "qm_ok (alarmFilterExpireMs s) \<Longrightarrow> now \<le> later \<Longrightarrow>
   silenced later uid (snd (isUniqueIdAlarmFiltered now uid' s)) = silenced later uid s"
  by (auto simp: isFiltered_state silenced_def map_of_pruneExpired split: option.splits if_splits)

lemma lookup_drop_target:
  assumes "qm_ok m"
  shows "map_of (fold qm_remove (keys_of_target t m) m) k =
    (case map_of m k of Some v \<Rightarrow> if unique_id v = t then None else Some v | None \<Rightarrow> None)"
  using qm.lookup_del_stale[OF assms, of "\<lambda>p. unique_id (snd p) = t" k]
  by (cases "map_of m k") (simp_all add: keys_of_target_def)

section \<open>The invariant of the alarm table\<close>

definition alarms_ok :: "alarm_state \<Rightarrow> bool" where
  "alarms_ok s = (qm_ok (mapAlarmData s) \<and> qm_ok (alarmFilterExpireMs s) \<and> qm_ok (manualAlarmData s) \<and>
     (\<forall>k ad. map_of (mapAlarmData s) k = Some ad \<longrightarrow> alarm_id ad = k \<and> 0 < unique_id ad \<and> 1 \<le> alarm_count ad))"

lemma alarms_okD:
  "alarms_ok s \<Longrightarrow> map_of (mapAlarmData s) k = Some ad \<Longrightarrow> alarm_id ad = k \<and> 0 < unique_id ad \<and> 1 \<le> alarm_count ad"
  "alarms_ok s \<Longrightarrow> qm_ok (mapAlarmData s)" "alarms_ok s \<Longrightarrow> qm_ok (alarmFilterExpireMs s)"
  by (auto simp: alarms_ok_def)

lemma alarms_ok_isFiltered: "alarms_ok s \<Longrightarrow> alarms_ok (snd (isUniqueIdAlarmFiltered now uid s))"
  by (auto simp: alarms_ok_def isFiltered_state qm_ok_pruneExpired)

lemma alarms_ok_addAlarmFilter: "alarms_ok s \<Longrightarrow> alarms_ok (addAlarmFilter al now type t s)"
  by (auto simp: alarms_ok_def addAlarmFilter_def Let_def qm_ok_insert qm.ok_del_many lookup_drop_target
      split: option.splits if_splits)

lemma dedup_scan_Some:
  "dedup_scan al a now m = Some ad \<Longrightarrow>
   ad \<in> snd ` set m \<and> matchesDedupKey al a ad \<and> now - alarm_time ad < dedupSameAlarmWindowMs al"
  by (induction al a now m rule: dedup_scan.induct) (auto split: if_splits)

lemma dedup_scan_None:
  "dedup_scan al a now m = None \<longleftrightarrow>
   (\<forall>ad \<in> snd ` set m. matchesDedupKey al a ad \<longrightarrow> dedupSameAlarmWindowMs al \<le> now - alarm_time ad)"
  by (induction al a now m rule: dedup_scan.induct) auto

lemma in_map_values: "qm_ok m \<Longrightarrow> ad \<in> snd ` set m \<longleftrightarrow> (\<exists>k. map_of m k = Some ad)"
  by (force simp: qm.set_entries)

lemma refreshed_fields [simp]:
  "alarm_id (refreshed_alarm al a now old) = alarm_id old"
  "condition_id (refreshed_alarm al a now old) = condition_id old"
  "unique_id (refreshed_alarm al a now old) = sv_targetId a"
  "alarm_count (refreshed_alarm al a now old) = alarm_count old + 1"
  "alarm_time (refreshed_alarm al a now old) = now"
  "alarm_status (refreshed_alarm al a now old) = alarm_status old"
  "threatScore (refreshed_alarm al a now old) = sv_threatScore a"
  "origintime (refreshed_alarm al a now old) = origintime old"
  by (simp_all add: refreshed_alarm_def Let_def)

lemma new_alarm_fields [simp]:
  "alarm_id (new_alarm al a now) = sv_uuid a"
  "condition_id (new_alarm al a now) = rule_condition_id (sv_info a)"
  "unique_id (new_alarm al a now) = sv_targetId a"
  "alarm_count (new_alarm al a now) = 1"
  "alarm_time (new_alarm al a now) = now"
  "alarm_status (new_alarm al a now) = 0"
  by (simp_all add: new_alarm_def)

text \<open>What \<open>SaveToDB\<close> leaves in the table, on every branch.\<close>

lemma SaveToDB_cases:
  assumes "alarms_ok s"
  obtains (skip) "sv_targetId a \<le> 0 \<or> silenced now (sv_targetId a) s"
      "mapAlarmData (fst (SaveToDB al now a s)) = mapAlarmData s" "snd (SaveToDB al now a s) = None"
  | (fresh) "0 < sv_targetId a" "\<not> silenced now (sv_targetId a) s"
      "dedup_scan al a now (mapAlarmData s) = None"
      "mapAlarmData (fst (SaveToDB al now a s)) = qm_insert (sv_uuid a) (new_alarm al a now) (mapAlarmData s)"
  | (refresh) old where "0 < sv_targetId a" "\<not> silenced now (sv_targetId a) s"
      "dedup_scan al a now (mapAlarmData s) = Some old"
      "map_of (mapAlarmData s) (alarm_id old) = Some old"
      "matchesDedupKey al a old" "now - alarm_time old < dedupSameAlarmWindowMs al"
      "mapAlarmData (fst (SaveToDB al now a s)) =
         qm_insert (alarm_id old) (refreshed_alarm al a now old) (mapAlarmData s)"
proof -
  let ?f = "isUniqueIdAlarmFiltered now (sv_targetId a) s"
  obtain b s1 where f: "?f = (b, s1)" by (cases ?f)
  have b: "b = (0 < sv_targetId a \<and> silenced now (sv_targetId a) s)"
    using isFiltered_iff[OF alarms_okD(3)[OF assms], of now "sv_targetId a"] f by simp
  have m: "mapAlarmData s1 = mapAlarmData s"
    using isFiltered_mapAlarmData[of now "sv_targetId a" s] f by simp
  show ?thesis
  proof (cases "sv_targetId a \<le> 0 \<or> b")
    case True
    then show ?thesis using f m b by (intro skip) (auto simp: SaveToDB_def)
  next
    case False
    show ?thesis
    proof (cases "dedup_scan al a now (mapAlarmData s)")
      case None
      then show ?thesis using False f m b
        by (intro fresh) (auto simp: SaveToDB_def Let_def)
    next
      case (Some old)
      from dedup_scan_Some[OF this] obtain k where k: "map_of (mapAlarmData s) k = Some old"
        "matchesDedupKey al a old" "now - alarm_time old < dedupSameAlarmWindowMs al"
        using in_map_values[OF alarms_okD(2)[OF assms]] by blast
      then have "alarm_id old = k" using alarms_okD(1)[OF assms] by blast
      with k Some False f m b show ?thesis
        by (intro refresh[of old]) (auto simp: SaveToDB_def Let_def)
    qed
  qed
qed

lemma SaveToDB_filters:
  "alarmFilterExpireMs (fst (SaveToDB al now a s)) =
     (if sv_targetId a \<le> 0 then alarmFilterExpireMs s
      else pruneExpiredAlarmFilters now (alarmFilterExpireMs s))"
  "manualAlarmData (fst (SaveToDB al now a s)) = manualAlarmData s"
  using isFiltered_state[of now "sv_targetId a" s]
  by (auto simp: SaveToDB_def Let_def split: prod.splits option.splits)

lemma alarms_ok_SaveToDB: "alarms_ok s \<Longrightarrow> alarms_ok (fst (SaveToDB al now a s))"
proof -
  assume ok: "alarms_ok s"
  have f: "qm_ok (alarmFilterExpireMs (fst (SaveToDB al now a s)))" "qm_ok (manualAlarmData (fst (SaveToDB al now a s)))"
    using ok by (simp_all add: SaveToDB_filters alarms_ok_def qm_ok_pruneExpired)
  from ok show ?thesis
  proof (cases rule: SaveToDB_cases[of s a now al])
    case skip
    then show ?thesis using ok f by (simp add: alarms_ok_def)
  next
    case fresh
    then show ?thesis using ok f by (auto simp: alarms_ok_def qm_ok_insert split: if_splits)
  next
    case (refresh old)
    from alarms_okD(1)[OF ok refresh(4)] refresh(1,7) ok f show ?thesis
      by (auto simp: alarms_ok_def qm_ok_insert split: if_splits)
  qed
qed

section \<open>The prune loop is a filter\<close>

lemma filter_other_keys: "k \<notin> fst ` set xs \<Longrightarrow> filter (\<lambda>p. fst p \<noteq> k) xs = xs"
  by (induction xs) auto

lemma qm_remove_nth:
  assumes "distinct (map fst m)" "i < length m"
  shows "qm_remove (fst (m ! i)) m = take i m @ drop (Suc i) m"
proof -
  have m: "m = take i m @ m ! i # drop (Suc i) m" using assms(2) by (simp add: id_take_nth_drop)
  then have "distinct (map fst (take i m @ m ! i # drop (Suc i) m))" using assms(1) by simp
  then have "filter (\<lambda>p. fst p \<noteq> fst (m ! i)) (take i m @ m ! i # drop (Suc i) m) = take i m @ drop (Suc i) m"
    by (simp add: filter_other_keys)
  then show ?thesis unfolding qm_remove_def using m by simp
qed

definition fresh_alarm :: "AlarmLogicConfig \<Rightarrow> int \<Rightarrow> AlarmData \<Rightarrow> bool" where
  "fresh_alarm al now ad = (now - alarm_time ad \<le> alarmMapPruneNonFirstStaleMs al)"

lemma prune_entry_nth:
  assumes "distinct (map fst m)" "i < length m" "alarm_id (snd (m ! i)) = fst (m ! i)"
  shows "prune_entry al now (snd (m ! i)) m = take i m @ filter (fresh_alarm al now \<circ> snd) [m ! i] @ drop (Suc i) m"
  using assms qm_remove_nth[OF assms(1,2)] id_take_nth_drop[OF assms(2)]
  by (simp add: prune_entry_def fresh_alarm_def)

lemma prune_loop_filter:
  assumes "distinct (map fst (xs @ ys))" "\<forall>p \<in> set xs. alarm_id (snd p) = fst p" "length xs = Suc i"
  shows "prune_loop al now i (xs @ ys) = filter (fresh_alarm al now \<circ> snd) xs @ ys"
  using assms
proof (induction i arbitrary: xs ys)
  case 0
  then obtain p where "xs = [p]" by (auto simp: length_Suc_conv)
  with 0 prune_entry_nth[of "xs @ ys" 0] show ?case by simp
next
  case (Suc i)
  then obtain zs p where xs: "xs = zs @ [p]" by (metis length_Suc_conv_rev)
  then have z: "length zs = Suc i" using Suc.prems by simp
  have nth: "(xs @ ys) ! Suc i = p" "take (Suc i) (xs @ ys) = zs" "drop (Suc (Suc i)) (xs @ ys) = ys"
    using xs z by (simp_all add: nth_append)
  let ?q = "filter (fresh_alarm al now \<circ> snd) [p] @ ys"
  have "prune_entry al now (snd p) (xs @ ys) = zs @ ?q"
    using prune_entry_nth[of "xs @ ys" "Suc i" al now] Suc.prems nth xs by simp
  moreover have "distinct (map fst (zs @ ?q))" "\<forall>p \<in> set zs. alarm_id (snd p) = fst p"
    using Suc.prems xs by auto
  ultimately show ?case using Suc.IH[of zs ?q] z nth xs by simp
qed

lemma prune_alarms_map:
  assumes "alarms_ok s"
  shows "mapAlarmData (prune_alarms al now s) = filter (fresh_alarm al now \<circ> snd) (mapAlarmData s)"
proof (cases "mapAlarmData s = []")
  case False
  have "distinct (map fst (mapAlarmData s))" using assms by (simp add: alarms_ok_def qm_ok_distinct)
  moreover have "\<forall>p \<in> set (mapAlarmData s). alarm_id (snd p) = fst p"
    using assms calculation by (force simp: alarms_ok_def)
  ultimately show ?thesis
    using False prune_loop_filter[of "mapAlarmData s" "[]" "length (mapAlarmData s) - 1" al now]
    by (simp add: prune_alarms_def)
qed (simp add: prune_alarms_def)

lemma prune_alarms_lookup:
  assumes "alarms_ok s"
  shows "map_of (mapAlarmData (prune_alarms al now s)) k =
    (case map_of (mapAlarmData s) k of Some ad \<Rightarrow> if fresh_alarm al now ad then Some ad else None | None \<Rightarrow> None)"
  using assms map_of_filter_value[of "mapAlarmData s" "fresh_alarm al now" k]
  by (simp add: prune_alarms_map alarms_ok_def qm_ok_distinct o_def)

lemma alarms_ok_prune: "alarms_ok s \<Longrightarrow> alarms_ok (prune_alarms al now s)"
  using prune_alarms_lookup[of s al now] prune_alarms_map[of s al now]
  by (auto simp: alarms_ok_def qm_ok_filter prune_alarms_def split: option.splits if_splits)

section \<open>Runs of the alarm table\<close>

datatype alarm_event = EvSave int save_args | EvPrune int | EvFilter int int int | EvQuery int int

fun ev_time :: "alarm_event \<Rightarrow> int" where
  "ev_time (EvSave now a) = now"
| "ev_time (EvPrune now) = now"
| "ev_time (EvFilter now type t) = now"
| "ev_time (EvQuery now t) = now"

fun apply_event :: "AlarmLogicConfig \<Rightarrow> alarm_event \<Rightarrow> alarm_state \<Rightarrow> alarm_state" where
  "apply_event al (EvSave now a) s = fst (SaveToDB al now a s)"
| "apply_event al (EvPrune now) s = prune_alarms al now s"
| "apply_event al (EvFilter now type t) s = addAlarmFilter al now type t s"
| "apply_event al (EvQuery now t) s = snd (isUniqueIdAlarmFiltered now t s)"

definition run_events :: "AlarmLogicConfig \<Rightarrow> alarm_event list \<Rightarrow> alarm_state \<Rightarrow> alarm_state" where
  "run_events al evs s = fold (apply_event al) evs s"

lemma alarms_ok_event: "alarms_ok s \<Longrightarrow> alarms_ok (apply_event al ev s)"
  by (cases ev) (simp_all add: alarms_ok_SaveToDB alarms_ok_prune alarms_ok_addAlarmFilter alarms_ok_isFiltered)

lemma alarms_ok_run: "alarms_ok s \<Longrightarrow> alarms_ok (run_events al evs s)"
  unfolding run_events_def by (induction evs arbitrary: s) (simp_all add: alarms_ok_event)

lemma addAlarmFilter_lookup:
  assumes "alarms_ok s" "0 < t"
  shows "map_of (mapAlarmData (addAlarmFilter al now type t s)) k =
      (case map_of (mapAlarmData s) k of Some v \<Rightarrow> if unique_id v = t then None else Some v | None \<Rightarrow> None)"
    and "map_of (alarmFilterExpireMs (addAlarmFilter al now type t s)) f =
      (if f = (type, t) then Some (now + max 1000 (alarmFilterTtlMs al)) else map_of (alarmFilterExpireMs s) f)"
  using assms by (simp_all add: addAlarmFilter_def Let_def lookup_drop_target alarms_ok_def)

section \<open>A silenced target stays silent\<close>

definition quiet :: "int \<Rightarrow> int \<Rightarrow> int \<Rightarrow> alarm_state \<Rightarrow> bool" where
  "quiet type t until s \<longleftrightarrow> alarms_ok s \<and>
     (\<exists>e. map_of (alarmFilterExpireMs s) (type, t) = Some e \<and> until \<le> e) \<and>
     (\<forall>k ad. map_of (mapAlarmData s) k = Some ad \<longrightarrow> unique_id ad \<noteq> t)"

lemma quiet_SaveToDB:
  assumes q: "quiet type t until s" and ty: "type \<in> {0, 1}" and now: "now < until"
  shows "quiet type t until (fst (SaveToDB al now a s))"
proof -
  have ok: "alarms_ok s" using q by (simp add: quiet_def)
  have f: "\<exists>e. map_of (alarmFilterExpireMs (fst (SaveToDB al now a s))) (type, t) = Some e \<and> until \<le> e"
    using q now by (auto simp: quiet_def SaveToDB_filters map_of_pruneExpired[OF alarms_okD(3)])
  have n: "map_of (mapAlarmData s) k = Some ad \<Longrightarrow> unique_id ad \<noteq> t" for k ad
    using q by (auto simp: quiet_def)
  have other: "sv_targetId a \<noteq> t" if "\<not> silenced now (sv_targetId a) s"
  proof
    assume "sv_targetId a = t"
    with q ty now have "silenced now (sv_targetId a) s" by (auto simp: quiet_def silenced_def)
    with that show False ..
  qed
  have "unique_id ad \<noteq> t" if "map_of (mapAlarmData (fst (SaveToDB al now a s))) k = Some ad" for k ad
    using ok
  proof (cases rule: SaveToDB_cases[of s a now al])
    case skip
    with that n show ?thesis by simp
  next
    case fresh
    with that n other show ?thesis by (auto split: if_splits)
  next
    case (refresh old)
    with that n other show ?thesis by (auto split: if_splits)
  qed
  with f alarms_ok_SaveToDB[OF ok] show ?thesis by (simp add: quiet_def)
qed

lemma quiet_prune:
  assumes q: "quiet type t until s"
  shows "quiet type t until (prune_alarms al n s)"
proof -
  have ok: "alarms_ok s" using q by (simp add: quiet_def)
  have f: "alarmFilterExpireMs (prune_alarms al n s) = alarmFilterExpireMs s" by (simp add: prune_alarms_def)
  show ?thesis using q alarms_ok_prune[OF ok] prune_alarms_lookup[OF ok]
    by (auto simp: quiet_def f split: option.splits if_splits)
qed

lemma quiet_event:
  assumes q: "quiet type t until s" and ty: "type \<in> {0, 1}"
    and now: "until - max 1000 (alarmFilterTtlMs al) \<le> ev_time ev" "ev_time ev < until"
  shows "quiet type t until (apply_event al ev s)"
proof (cases ev)
  case (EvSave n a)
  then show ?thesis using quiet_SaveToDB[OF q ty] now by simp
next
  case (EvPrune n)
  then show ?thesis using quiet_prune[OF q] by simp
next
  case (EvFilter n ty' t')
  have ok: "alarms_ok s" using q by (simp add: quiet_def)
  show ?thesis
  proof (cases "t' \<le> 0")
    case True
    then show ?thesis using q EvFilter by (simp add: addAlarmFilter_def)
  next
    case False
    then show ?thesis using q EvFilter now alarms_ok_addAlarmFilter[OF ok] addAlarmFilter_lookup[OF ok, of t']
      by (auto simp: quiet_def split: option.splits if_splits)
  qed
next
  case (EvQuery n t')
  have ok: "alarms_ok s" using q by (simp add: quiet_def)
  show ?thesis using q EvQuery now alarms_ok_isFiltered[OF ok]
    by (auto simp: quiet_def isFiltered_state map_of_pruneExpired[OF alarms_okD(3)[OF ok]])
qed

lemma quiet_fold:
  assumes "quiet type t until s" "type \<in> {0, 1}"
    and "list_all (\<lambda>ev. until - max 1000 (alarmFilterTtlMs al) \<le> ev_time ev \<and> ev_time ev < until) evs"
  shows "quiet type t until (fold (apply_event al) evs s)"
  using assms by (induction evs arbitrary: s) (simp_all add: quiet_event)

text \<open>
  C4. After a target has been silenced (type 0 or 1), no alarm of it is in memory, and none
  appears through any saves, prunes, queries and further filters until the filter's time to live
  (at least one second) is over.
\<close>

theorem silenced_target_raises_no_alarm:
  assumes "alarms_ok s" and "0 < t" and "type \<in> {0, 1}"
    and "until = t0 + max 1000 (alarmFilterTtlMs al)"
    and "list_all (\<lambda>ev. t0 \<le> ev_time ev \<and> ev_time ev < until) evs"
    and "map_of (mapAlarmData (run_events al evs (addAlarmFilter al t0 type t s))) k = Some ad"
  shows "unique_id ad \<noteq> t"
proof -
  have "quiet type t until (addAlarmFilter al t0 type t s)"
    using assms(1,2,4) alarms_ok_addAlarmFilter[OF assms(1)] addAlarmFilter_lookup[OF assms(1,2)]
    by (auto simp: quiet_def split: option.splits if_splits)
  from quiet_fold[OF this assms(3), of al evs] assms(4,5,6) show ?thesis
    by (simp add: quiet_def run_events_def)
qed

definition empty_state :: alarm_state where
  "empty_state = \<lparr>mapAlarmData = [], alarmFilterExpireMs = [], manualAlarmData = [], manualAlarmAirTrack = [],
     manualConfirmedUniqueIds = {}, manualConfirmResolvedTime = [], identificationResolvedTime = [],
     mapTargetType = [], listAlarmData = []\<rparr>"

lemma alarms_ok_empty: "alarms_ok empty_state"
  by (simp add: alarms_ok_def empty_state_def)

definition sample_rule :: AlarmRule where
  "sample_rule = default_rule\<lparr>rule_condition_id := ''c1'', rule_area_judge := 1, rule_group_id := 3,
     rule_area_id := 4, rule_alarm_level := 1, rule_alarmstate := 1\<rparr>"

definition sample_save :: "int \<Rightarrow> string \<Rightarrow> save_args" where
  "sample_save t uuid = \<lparr>sv_info = sample_rule, sv_targetId = t, sv_lat = 30, sv_lon = 121, sv_speed = 5,
     sv_dir = 90, sv_dis = 1852, sv_threatScore = 60, sv_timestampSec = 1, sv_radarSourceId = 0,
     sv_content = [], sv_uuid = uuid, sv_unset_targettype = 0, sv_unset_targetbehavior = 0\<rparr>"

theorem silenced_target_raises_no_alarm_witness:
  "map_of (mapAlarmData (run_events default_logic [EvSave 2000 (sample_save 7 ''a''), EvSave 3000 (sample_save 8 ''b'')]
     (addAlarmFilter default_logic 1000 0 7 empty_state))) ''b'' = Some (new_alarm default_logic (sample_save 8 ''b'') 3000) \<and>
   unique_id (new_alarm default_logic (sample_save 8 ''b'') 3000) \<noteq> 7"
proof -
  let ?s = "run_events default_logic [EvSave 2000 (sample_save 7 ''a''), EvSave 3000 (sample_save 8 ''b'')]
     (addAlarmFilter default_logic 1000 0 7 empty_state)"
  have m: "map_of (mapAlarmData ?s) ''b'' = Some (new_alarm default_logic (sample_save 8 ''b'') 3000)"
    by (simp add: run_events_def addAlarmFilter_def empty_state_def keys_of_target_def SaveToDB_def
        isUniqueIdAlarmFiltered_def sample_save_def default_logic_def Let_def qm_remove_def new_alarm_def)
  have w: "list_all (\<lambda>ev. 1000 \<le> ev_time ev \<and> ev_time ev < 3601000)
      [EvSave 2000 (sample_save 7 ''a''), EvSave 3000 (sample_save 8 ''b'')]" by simp
  from silenced_target_raises_no_alarm[OF alarms_ok_empty, of 7 0 3601000 1000 default_logic, OF _ _ _ w m] m
  show ?thesis by (simp add: default_logic_def)
qed

section \<open>No duplicate live alarms\<close>

definition same_key :: "AlarmLogicConfig \<Rightarrow> AlarmData \<Rightarrow> AlarmData \<Rightarrow> bool" where
  "same_key al a b \<longleftrightarrow> unique_id a = unique_id b \<and>
     (dedupMatchConditionAndTrack al = 0 \<or> condition_id a = condition_id b)"

definition live :: "AlarmLogicConfig \<Rightarrow> int \<Rightarrow> AlarmData \<Rightarrow> bool" where
  "live al now ad \<longleftrightarrow> now - alarm_time ad < dedupSameAlarmWindowMs al"

definition live_unique :: "AlarmLogicConfig \<Rightarrow> int \<Rightarrow> (string, AlarmData) qmap \<Rightarrow> bool" where
  "live_unique al now m \<longleftrightarrow> (\<forall>k1 k2 a1 a2. map_of m k1 = Some a1 \<longrightarrow> map_of m k2 = Some a2 \<longrightarrow>
     same_key al a1 a2 \<longrightarrow> live al now a1 \<longrightarrow> live al now a2 \<longrightarrow> k1 = k2)"

lemma live_unique_later: "live_unique al now m \<Longrightarrow> now \<le> later \<Longrightarrow> live_unique al later m"
  unfolding live_unique_def live_def by (meson diff_right_mono le_less_trans)

lemma live_unique_sub:
  "live_unique al now m \<Longrightarrow> (\<And>k a. map_of m' k = Some a \<Longrightarrow> map_of m k = Some a) \<Longrightarrow> live_unique al now m'"
  unfolding live_unique_def by meson

lemma live_unique_put:
  assumes "live_unique al now m"
    and "\<And>k a. map_of m k = Some a \<Longrightarrow> k \<noteq> j \<Longrightarrow> same_key al a b \<Longrightarrow> live al now a \<Longrightarrow> False"
  shows "live_unique al now (qm_insert j b m)"
proof -
  have s: "same_key al x y = same_key al y x" for x y by (auto simp: same_key_def)
  show ?thesis using assms unfolding live_unique_def by (auto simp: s split: if_splits) (metis+)
qed

lemma matches_same_key:
  "matchesDedupKey al a ad \<longleftrightarrow> same_key al ad (new_alarm al a now)"
  by (auto simp: matchesDedupKey_def same_key_def)

lemma live_unique_SaveToDB:
  assumes ok: "alarms_ok s" and u: "live_unique al now (mapAlarmData s)"
  shows "live_unique al now (mapAlarmData (fst (SaveToDB al now a s)))"
  using ok
proof (cases rule: SaveToDB_cases[of s a now al])
  case skip
  with u show ?thesis by simp
next
  case fresh
  have "\<not> live al now ad" if "map_of (mapAlarmData s) k = Some ad" "same_key al ad (new_alarm al a now)" for k ad
    using fresh(3) that in_map_values[OF alarms_okD(2)[OF ok]]
    by (fastforce simp: dedup_scan_None matches_same_key[of al a _ now] live_def)
  with u fresh show ?thesis by (auto intro: live_unique_put)
next
  case (refresh old)
  have "live al now old" using refresh by (simp add: live_def)
  have "k = alarm_id old" if "map_of (mapAlarmData s) k = Some ad"
      "same_key al ad (refreshed_alarm al a now old)" "live al now ad" for k ad
  proof -
    have "same_key al ad old" using that refresh(5)
      by (auto simp: same_key_def matchesDedupKey_def split: if_splits)
    with u that refresh(4) \<open>live al now old\<close> show ?thesis unfolding live_unique_def by blast
  qed
  with u refresh show ?thesis by (auto intro: live_unique_put)
qed

lemma live_unique_event:
  assumes "alarms_ok s" "live_unique al (ev_time ev) (mapAlarmData s)"
  shows "live_unique al (ev_time ev) (mapAlarmData (apply_event al ev s))"
proof (cases ev)
  case (EvFilter n ty t)
  show ?thesis
  proof (cases "t \<le> 0")
    case False
    with assms EvFilter addAlarmFilter_lookup(1)[OF assms(1), of t al n ty] show ?thesis
      by (auto elim!: live_unique_sub split: option.splits if_splits)
  qed (use assms EvFilter in \<open>simp add: addAlarmFilter_def\<close>)
next
  case (EvPrune n)
  with assms prune_alarms_lookup[OF assms(1)] show ?thesis
    by (auto elim!: live_unique_sub split: option.splits if_splits)
qed (use assms live_unique_SaveToDB in auto)

lemma live_unique_run:
  assumes "alarms_ok s" "live_unique al t0 (mapAlarmData s)" "sorted (t0 # map ev_time evs)"
  shows "live_unique al (last (t0 # map ev_time evs)) (mapAlarmData (fold (apply_event al) evs s))"
  using assms
proof (induction evs arbitrary: s t0)
  case (Cons ev evs)
  have "live_unique al (ev_time ev) (mapAlarmData s)"
    using Cons.prems by (auto intro: live_unique_later)
  then have "live_unique al (ev_time ev) (mapAlarmData (apply_event al ev s))"
    by (rule live_unique_event[OF Cons.prems(1)])
  from Cons.IH[OF alarms_ok_event[OF Cons.prems(1)] this] Cons.prems(3) show ?case by simp
qed simp

text \<open>
  C11. Deduplication works: in any run from an empty table with a clock that does not go back,
  two alarms for the same target (the same target and rule, when so configured) whose last trigger
  is within the deduplication window are one alarm.
\<close>

theorem one_live_alarm_per_target:
  assumes "sorted (map ev_time evs)" and "\<forall>ev \<in> set evs. ev_time ev \<le> now"
    and "m = mapAlarmData (run_events al evs empty_state)"
    and "map_of m k1 = Some a1" and "map_of m k2 = Some a2" and "same_key al a1 a2"
    and "live al now a1" and "live al now a2"
  shows "k1 = k2 \<and> a1 = a2"
proof (cases evs)
  case Nil
  with assms show ?thesis by (simp add: run_events_def empty_state_def)
next
  case (Cons ev rest)
  have "live_unique al (ev_time ev) (mapAlarmData empty_state)" by (simp add: live_unique_def empty_state_def)
  from live_unique_run[OF alarms_ok_empty this, of evs] assms(1) Cons
  have "live_unique al (last (map ev_time evs)) m" by (simp add: assms(3) run_events_def)
  moreover have "last (map ev_time evs) \<le> now" using assms(2) Cons by (simp add: last_map)
  ultimately have "live_unique al now m" by (rule live_unique_later)
  with assms(4-8) show ?thesis unfolding live_unique_def by (metis option.inject)
qed

theorem one_live_alarm_per_target_witness:
  "alarm_count (the (map_of (mapAlarmData (run_events default_logic
     [EvSave 1000 (sample_save 7 ''a''), EvSave 2000 (sample_save 7 ''b'')] empty_state)) ''a'')) = 2 \<and>
   \<not> (\<exists>k ad. map_of (mapAlarmData (run_events default_logic
     [EvSave 1000 (sample_save 7 ''a''), EvSave 2000 (sample_save 7 ''b'')] empty_state)) k = Some ad \<and> unique_id ad = 7
      \<and> live default_logic 2000 ad \<and> k \<noteq> ''a'')"
proof -
  let ?evs = "[EvSave 1000 (sample_save 7 ''a''), EvSave 2000 (sample_save 7 ''b'')]"
  let ?m = "mapAlarmData (run_events default_logic ?evs empty_state)"
  obtain a where a: "map_of ?m ''a'' = Some a" "alarm_count a = 2" "unique_id a = 7" "live default_logic 2000 a"
    by (simp add: run_events_def SaveToDB_def isUniqueIdAlarmFiltered_def empty_state_def sample_save_def
        new_alarm_def default_logic_def matchesDedupKey_def refreshed_alarm_def Let_def live_def)
  have s: "same_key default_logic x a" if "unique_id x = 7" for x
    using a that by (simp add: same_key_def default_logic_def)
  have "k = ''a''" if "map_of ?m k = Some ad" "unique_id ad = 7" "live default_logic 2000 ad" for k ad
    using one_live_alarm_per_target[OF _ _ refl that(1) a(1) s[OF that(2)] that(3) a(4)] by simp
  with a show ?thesis by auto
qed

text \<open>The alarm a save may refresh, said without the scan.\<close>

definition may_refresh :: "AlarmLogicConfig \<Rightarrow> save_args \<Rightarrow> int \<Rightarrow> AlarmData \<Rightarrow> bool" where
  "may_refresh al a now ad \<longleftrightarrow>
     unique_id ad = sv_targetId a \<and> now - alarm_time ad < dedupSameAlarmWindowMs al \<and>
     (dedupMatchConditionAndTrack al = 0 \<or> condition_id ad = rule_condition_id (sv_info a))"

lemma dedup_scan_first:
  assumes "qm_ok m" "dedup_scan al a now m = Some old"
  shows "\<exists>k. map_of m k = Some old \<and> may_refresh al a now old \<and> (\<forall>k' x. k' < k \<longrightarrow> map_of m k' = Some x \<longrightarrow> \<not> may_refresh al a now x)"
  using assms
proof (induction al a now m rule: dedup_scan.induct)
  case (2 al a now k ad rest)
  have m: "may_refresh al a now ad \<longleftrightarrow> matchesDedupKey al a ad \<and> now - alarm_time ad < dedupSameAlarmWindowMs al" for ad
    by (auto simp: may_refresh_def matchesDedupKey_def)
  have above: "k < k'" if "map_of rest k' = Some x" for k' x
    using 2(2) map_of_SomeD[OF that] by (force simp: qm_ok_def)
  show ?case
  proof (cases "may_refresh al a now ad")
    case True
    then have "ad = old" using 2(3) m by simp
    moreover have "\<not> (k' < k \<and> map_of ((k, ad) # rest) k' = Some x)" for k' x using above[of k' x] by (auto split: if_splits)
    ultimately show ?thesis using True by (intro exI[of _ k]) auto
  next
    case False
    then have "dedup_scan al a now rest = Some old" "qm_ok rest" using 2(2,3) m by (auto simp: qm_ok_def split: if_splits)
    then obtain k0 where k0: "map_of rest k0 = Some old" "may_refresh al a now old" "\<forall>k' x. k' < k0 \<longrightarrow> map_of rest k' = Some x \<longrightarrow> \<not> may_refresh al a now x"
      using 2(1) False m by blast
    then show ?thesis using above[OF k0(1)] False by (intro exI[of _ k0]) auto
  qed
qed simp

text \<open>
  C38. One call of \<open>SaveToDB\<close> for a target that is not silenced leaves exactly one entry written, which carries the target, the new score and the
  time of the call; every other entry is untouched.  When no alarm of the target (and, if the settings ask for it, of the rule) was triggered inside
  the window, the entry is a new alarm under the fresh id: count 1, the rule's id, and the origin time the settings ask for (the call's or
  the message's, in seconds or milliseconds).  Otherwise it is the first such alarm in key order, which keeps its rule and origin time and counts one more.
\<close>

theorem SaveToDB_effect:
  assumes "alarms_ok s" and "0 < sv_targetId a" and "\<not> silenced now (sv_targetId a) s"
  shows "\<exists>k ad. mapAlarmData (fst (SaveToDB al now a s)) = qm_insert k ad (mapAlarmData s) \<and>
    unique_id ad = sv_targetId a \<and> alarm_time ad = now \<and> threatScore ad = sv_threatScore a \<and>
    ((\<forall>k' x. map_of (mapAlarmData s) k' = Some x \<longrightarrow> \<not> may_refresh al a now x) \<and>
       k = sv_uuid a \<and> alarm_count ad = 1 \<and> condition_id ad = rule_condition_id (sv_info a) \<and>
       origintime ad = (if originTimeFromTrackMsg al = 0 then now else (if originTrackTimeIsMs al = 0 then 1000 else 1) * sv_timestampSec a) \<or>
     (\<exists>old. map_of (mapAlarmData s) k = Some old \<and> may_refresh al a now old \<and>
       (\<forall>k' x. k' < k \<longrightarrow> map_of (mapAlarmData s) k' = Some x \<longrightarrow> \<not> may_refresh al a now x) \<and>
       alarm_count ad = alarm_count old + 1 \<and> condition_id ad = condition_id old \<and> origintime ad = origintime old))"
  using assms(1)
proof (cases rule: SaveToDB_cases[of s a now al])
  case skip
  with assms show ?thesis by simp
next
  case fresh
  have "\<not> may_refresh al a now x" if "map_of (mapAlarmData s) k' = Some x" for k' x
  proof -
    have "x \<in> snd ` set (mapAlarmData s)" using that in_map_values[OF alarms_okD(2)[OF assms(1)]] by blast
    then have "matchesDedupKey al a x \<Longrightarrow> dedupSameAlarmWindowMs al \<le> now - alarm_time x" using fresh(3) unfolding dedup_scan_None by blast
    moreover have "may_refresh al a now x \<Longrightarrow> matchesDedupKey al a x" by (auto simp: may_refresh_def matchesDedupKey_def)
    ultimately show ?thesis by (auto simp: may_refresh_def)
  qed
  then show ?thesis using fresh(4)
    by (intro exI[of _ "sv_uuid a"] exI[of _ "new_alarm al a now"]) (simp add: new_alarm_def origin_ms_def)
next
  case (refresh old)
  obtain k where k: "map_of (mapAlarmData s) k = Some old" "may_refresh al a now old"
    "\<forall>k' x. k' < k \<longrightarrow> map_of (mapAlarmData s) k' = Some x \<longrightarrow> \<not> may_refresh al a now x"
    using dedup_scan_first[OF alarms_okD(2)[OF assms(1)] refresh(3)] by blast
  have "k = alarm_id old" using alarms_okD(1)[OF assms(1)] k(1) by blast
  then show ?thesis using k refresh(7)
    by (intro exI[of _ "alarm_id old"] exI[of _ "refreshed_alarm al a now old"] conjI disjI2 exI[of _ old]) simp_all
qed

theorem SaveToDB_effect_witness:
  "\<exists>n ad. mapAlarmData (fst (SaveToDB default_logic 1000 (sample_save 7 ''a'') empty_state)) = [(''a'', n)] \<and> alarm_count n = 1 \<and> origintime n = 1000 \<and>
     mapAlarmData (fst (SaveToDB default_logic 2000 (sample_save 7 ''b'') (empty_state\<lparr>mapAlarmData := [(''a'', n)]\<rparr>))) = [(''a'', ad)] \<and>
     alarm_count ad = 2 \<and> origintime ad = 1000 \<and> alarm_time ad = 2000"
proof -
  have quiet: "\<not> silenced now 7 (empty_state\<lparr>mapAlarmData := m\<rparr>)" for now m by (simp add: silenced_def empty_state_def)
  have same: "empty_state\<lparr>mapAlarmData := []\<rparr> = empty_state" by (simp add: empty_state_def)
  have "\<exists>k n. mapAlarmData (fst (SaveToDB default_logic 1000 (sample_save 7 ''a'') empty_state)) = qm_insert k n [] \<and> k = ''a'' \<and>
      unique_id n = 7 \<and> alarm_time n = 1000 \<and> alarm_count n = 1 \<and> origintime n = 1000"
    using SaveToDB_effect[OF alarms_ok_empty, of "sample_save 7 ''a''" 1000 default_logic] quiet[of 1000 "[]"] same
    by (auto simp: sample_save_def empty_state_def default_logic_def)
  then obtain n where n: "mapAlarmData (fst (SaveToDB default_logic 1000 (sample_save 7 ''a'') empty_state)) = [(''a'', n)]"
    "unique_id n = 7" "alarm_time n = 1000" "alarm_count n = 1" "origintime n = 1000" by auto
  have id: "alarm_id n = ''a''"
    using alarms_okD(1)[OF alarms_ok_SaveToDB[OF alarms_ok_empty], of default_logic 1000 "sample_save 7 ''a''" "''a''" n] n(1) by simp
  let ?s = "empty_state\<lparr>mapAlarmData := [(''a'', n)]\<rparr>"
  have ok: "alarms_ok ?s" using id n(2,4) by (simp add: alarms_ok_def empty_state_def qm_ok_def)
  have "may_refresh default_logic (sample_save 7 ''b'') 2000 n" using n by (simp add: may_refresh_def default_logic_def sample_save_def)
  then have "\<exists>k ad. mapAlarmData (fst (SaveToDB default_logic 2000 (sample_save 7 ''b'') ?s)) = qm_insert k ad [(''a'', n)] \<and> k = ''a'' \<and>
      alarm_time ad = 2000 \<and> alarm_count ad = 2 \<and> origintime ad = 1000"
    using SaveToDB_effect[OF ok, of "sample_save 7 ''b''" 2000 default_logic] quiet[of 2000 "[(''a'', n)]"] n(4,5)
    by (fastforce simp: sample_save_def split: if_splits)
  then obtain ad where "mapAlarmData (fst (SaveToDB default_logic 2000 (sample_save 7 ''b'') ?s)) = [(''a'', ad)]"
    "alarm_time ad = 2000" "alarm_count ad = 2" "origintime ad = 1000" by auto
  then show ?thesis using n by blast
qed

text \<open>
  The prune loop, which walks the table backwards and removes while it walks, keeps exactly
  the alarms triggered within \<open>alarmMapPruneNonFirstStaleMs\<close>, in order.  The first entry is
  treated like every other one.
\<close>

theorem prune_loop_exact:
  assumes "alarms_ok s"
  shows "mapAlarmData (prune_alarms al now s) =
    filter (\<lambda>p. now - alarm_time (snd p) \<le> alarmMapPruneNonFirstStaleMs al) (mapAlarmData s)"
  using prune_alarms_map[OF assms, of al now] by (simp add: fresh_alarm_def comp_def)

lemma alarms_ok_one_save: "alarms_ok (fst (SaveToDB default_logic 1000 (sample_save 7 ''a'') empty_state))"
  by (rule alarms_ok_SaveToDB[OF alarms_ok_empty])

lemma one_save_map:
  "mapAlarmData (fst (SaveToDB default_logic 1000 (sample_save 7 ''a'') empty_state)) =
     [(''a'', new_alarm default_logic (sample_save 7 ''a'') 1000)]"
  by (simp add: SaveToDB_def isUniqueIdAlarmFiltered_def empty_state_def sample_save_def
      new_alarm_def default_logic_def Let_def)

theorem prune_loop_exact_witness:
  "mapAlarmData (prune_alarms default_logic 6001
     (fst (SaveToDB default_logic 1000 (sample_save 7 ''a'') empty_state))) = []"
  unfolding prune_loop_exact[OF alarms_ok_one_save] one_save_map by (simp add: default_logic_def)

text \<open>
  The prune time bounds the deduplication window: once an alarm has gone
  \<open>alarmMapPruneNonFirstStaleMs\<close> without a trigger when the loop prunes, the next trigger of the
  target raises a new alarm under a new id with count 1, however long \<open>dedupSameAlarmWindowMs\<close> is.
\<close>

theorem dedup_window_cut_by_prune:
  assumes "alarms_ok s" and "0 < sv_targetId a" and "\<not> silenced later (sv_targetId a) s"
    and "\<forall>k ad. map_of (mapAlarmData s) k = Some ad \<longrightarrow> unique_id ad = sv_targetId a \<longrightarrow>
           now - alarm_time ad > alarmMapPruneNonFirstStaleMs al"
  shows "map_of (mapAlarmData (fst (SaveToDB al later a (prune_alarms al now s)))) (sv_uuid a) =
    Some (new_alarm al a later)"
proof -
  let ?s = "prune_alarms al now s"
  have ok: "alarms_ok ?s" using assms(1) by (rule alarms_ok_prune)
  have f: "alarmFilterExpireMs ?s = alarmFilterExpireMs s" by (simp add: prune_alarms_def)
  have none: "unique_id ad \<noteq> sv_targetId a" if "map_of (mapAlarmData ?s) k = Some ad" for k ad
    using that prune_alarms_lookup[OF assms(1), of al now k] assms(4)[rule_format, of k ad]
    by (auto simp: fresh_alarm_def split: option.splits if_splits)
  from ok show ?thesis
  proof (cases rule: SaveToDB_cases[of ?s a later al])
    case skip
    moreover have "silenced later (sv_targetId a) ?s = silenced later (sv_targetId a) s"
      by (simp only: silenced_def f)
    ultimately show ?thesis using assms(2,3) by simp
  next
    case fresh
    then show ?thesis by simp
  next
    case (refresh old)
    with none[OF refresh(4)] show ?thesis by (auto simp: matchesDedupKey_def split: if_splits)
  qed
qed

theorem dedup_window_cut_by_prune_witness:
  "alarm_count (the (map_of (mapAlarmData (fst (SaveToDB default_logic 7000 (sample_save 7 ''b'')
     (prune_alarms default_logic 6001
       (fst (SaveToDB default_logic 1000 (sample_save 7 ''a'') empty_state)))))) ''b'')) = 1 \<and>
   7000 - 1000 < dedupSameAlarmWindowMs default_logic"
proof -
  let ?s = "fst (SaveToDB default_logic 1000 (sample_save 7 ''a'') empty_state)"
  have "\<not> silenced 7000 7 ?s"
    by (simp add: silenced_def SaveToDB_filters sample_save_def empty_state_def)
  moreover have "\<forall>k ad. map_of (mapAlarmData ?s) k = Some ad \<longrightarrow> unique_id ad = 7 \<longrightarrow>
      6001 - alarm_time ad > alarmMapPruneNonFirstStaleMs default_logic"
    unfolding one_save_map by (simp add: default_logic_def)
  ultimately show ?thesis
    using dedup_window_cut_by_prune[OF alarms_ok_one_save, of "sample_save 7 ''b''" 7000 default_logic 6001]
    by (simp add: sample_save_def default_logic_def)
qed

end
