(* ===== verification/Track_Area.thy ===== *)
theory Track_Area
  imports Alarm_Store
begin

text \<open>
  The alarm areas (\<open>TrackAlarmThread.cpp\<close>): parsing the descriptions that come from the
  database (\<open>parseCoordPair\<close>, \<open>parseAreaRect\<close>, \<open>appendPolygonPoints\<close>,
  \<open>getAlarmArea\<close>) and the tests whether a point lies in an area or in a group of areas.
  A coordinate pair is (latitude, longitude), as the code stores it in a \<open>QPointF\<close>.
\<close>

section \<open>Areas\<close>

text \<open>What the code uses of Qt: splitting at commas (empty parts dropped), reading numbers
  (\<open>None\<close> where \<open>ok\<close> becomes false), rectangles and polygons.\<close>

type_synonym qrect = "point \<times> point"

record qt_area =
  splitComma :: "qstring \<Rightarrow> qstring list"
  toFloat :: "qstring \<Rightarrow> real option"
  toInt :: "qstring \<Rightarrow> int option"
  rectNormalized :: "qrect \<Rightarrow> qrect"
  rectContains :: "qrect \<Rightarrow> point \<Rightarrow> bool"
  rectPolygon :: "qrect \<Rightarrow> point list"
  polygonContains :: "point list \<Rightarrow> point \<Rightarrow> bool"

text \<open>\<open>AreaInfo\<close> (text, as loaded) and \<open>AlarmArea\<close> (parsed).\<close>

record AreaInfo =
  an_groupID :: int
  an_areaID :: int
  an_areaName :: qstring
  an_areaType :: int
  an_startPoint :: qstring
  an_endPoint :: qstring
  an_areaRect :: qstring
  an_areaPoints :: qstring

record AlarmArea =
  ar_groupID :: int
  ar_areaID :: int
  ar_areaName :: qstring
  ar_type :: int
  ar_start :: point
  ar_end :: point
  ar_rect :: qrect
  ar_polygon :: "point list"
  ar_road :: "point list"

definition empty_area :: AlarmArea where
  "empty_area = \<lparr>ar_groupID = 0, ar_areaID = 0, ar_areaName = [], ar_type = 0, ar_start = (0, 0), ar_end = (0, 0),
     ar_rect = ((0, 0), (0, 0)), ar_polygon = [], ar_road = []\<rparr>"

section \<open>Parsing\<close>

definition parseCoordPair :: "qt_text \<Rightarrow> qt_area \<Rightarrow> qstring \<Rightarrow> point option" where
  "parseCoordPair T Q csv =
     (let parts = splitComma Q csv in
      if length parts < 2 then None
      else case (toFloat Q (trimmed T (parts ! 0)), toFloat Q (trimmed T (parts ! 1))) of
        (Some x, Some y) \<Rightarrow> Some (x, y)
      | _ \<Rightarrow> None)"

definition parseAreaRect :: "qt_text \<Rightarrow> qt_area \<Rightarrow> qstring \<Rightarrow> qrect option" where
  "parseAreaRect T Q csv =
     (let parts = splitComma Q csv in
      if length parts < 4 then None
      else case toFloat Q (trimmed T (parts ! 0)) of None \<Rightarrow> None | Some x1 \<Rightarrow>
           case toFloat Q (trimmed T (parts ! 1)) of None \<Rightarrow> None | Some y1 \<Rightarrow>
           case toFloat Q (trimmed T (parts ! 2)) of None \<Rightarrow> None | Some x2 \<Rightarrow>
           case toFloat Q (trimmed T (parts ! 3)) of None \<Rightarrow> None | Some y2 \<Rightarrow> Some ((x1, y1), (x2, y2)))"

text \<open>The loop over the points: a pair that does not parse is left out.\<close>

fun point_loop :: "qt_text \<Rightarrow> qt_area \<Rightarrow> int \<Rightarrow> qstring list \<Rightarrow> nat list \<Rightarrow> AlarmArea \<Rightarrow> AlarmArea" where
  "point_loop T Q areaType parts [] a = a"
| "point_loop T Q areaType parts (j # js) a =
     (case (toFloat Q (trimmed T (parts ! (j * 2 + 1))), toFloat Q (trimmed T (parts ! (j * 2 + 2)))) of
        (Some x, Some y) \<Rightarrow>
          point_loop T Q areaType parts js
            (if areaType = 4 then a\<lparr>ar_road := ar_road a @ [(x, y)]\<rparr>
             else if areaType = 3 then a\<lparr>ar_polygon := ar_polygon a @ [(x, y)]\<rparr> else a)
      | _ \<Rightarrow> point_loop T Q areaType parts js a)"

definition appendPolygonPoints :: "qt_text \<Rightarrow> qt_area \<Rightarrow> qstring \<Rightarrow> int \<Rightarrow> AlarmArea \<Rightarrow> AlarmArea" where
  "appendPolygonPoints T Q areaPoints areaType a =
     (let parts = splitComma Q areaPoints in
      if parts = [] then a
      else case toInt Q (trimmed T (parts ! 0)) of
        None \<Rightarrow> a
      | Some pSize \<Rightarrow>
          if pSize < 2 then a
          else if int (length parts) < 1 + (pSize - 1) * 2 then a
          else point_loop T Q areaType parts [0 ..< nat (pSize - 1)] a)"

text \<open>One iteration of the loop of \<open>getAlarmArea\<close>; \<open>None\<close> where the code skips the area.\<close>

definition parseArea :: "qt_text \<Rightarrow> qt_area \<Rightarrow> AreaInfo \<Rightarrow> AlarmArea option" where
  "parseArea T Q i =
     (let a = empty_area\<lparr>ar_areaName := an_areaName i, ar_type := an_areaType i, ar_groupID := an_groupID i,
                ar_areaID := an_areaID i\<rparr>;
          startPt = parseCoordPair T Q (an_startPoint i);
          endPt = parseCoordPair T Q (an_endPoint i) in
      if ar_type a = 2 \<and> (startPt = None \<or> endPt = None) then None
      else let a1 = (case startPt of Some p \<Rightarrow> a\<lparr>ar_start := p\<rparr> | None \<Rightarrow> a);
               a2 = (case endPt of Some p \<Rightarrow> a1\<lparr>ar_end := p\<rparr> | None \<Rightarrow> a1);
               rect = parseAreaRect T Q (an_areaRect i);
               a3 = (case rect of Some r \<Rightarrow> a2\<lparr>ar_rect := rectNormalized Q r\<rparr> | None \<Rightarrow> a2);
               a4 = appendPolygonPoints T Q (an_areaPoints i) (ar_type a3) a3
           in if ar_type a4 = 1
              then (if rect = None then None else Some (a4\<lparr>ar_polygon := rectPolygon Q (ar_rect a4)\<rparr>))
              else if ar_type a4 = 3 \<and> ar_polygon a4 = [] then None
              else Some a4)"

type_synonym area_map = "(int, AlarmArea list) qmap"

fun area_loop :: "qt_text \<Rightarrow> qt_area \<Rightarrow> AreaInfo list \<Rightarrow> area_map \<Rightarrow> area_map" where
  "area_loop T Q [] m = m"
| "area_loop T Q (i # is) m =
     (case parseArea T Q i of
        None \<Rightarrow> area_loop T Q is m
      | Some a \<Rightarrow> area_loop T Q is (qm_insert (an_groupID i) (qm_value m (an_groupID i) [] @ [a]) m))"

text \<open>The map of areas by group and the list of groups 1 and 2.\<close>

definition getAlarmArea :: "qt_text \<Rightarrow> qt_area \<Rightarrow> AreaInfo list \<Rightarrow> area_map \<times> AlarmArea list" where
  "getAlarmArea T Q infos =
     (let m = area_loop T Q infos [] in (m, qm_value m 1 [] @ qm_value m 2 []))"

section \<open>Points in areas\<close>

definition circle_radius :: "AlarmArea \<Rightarrow> real" where
  "circle_radius a = GetDistance2 (fst (ar_start a)) (snd (ar_start a)) (fst (ar_end a)) (snd (ar_end a))"

definition circle_dist :: "AlarmArea \<Rightarrow> point \<Rightarrow> real" where
  "circle_dist a pt = GetDistance2 (fst (ar_start a)) (snd (ar_start a)) (fst pt) (snd pt)"

definition inArea :: "qt_area \<Rightarrow> AlarmArea \<Rightarrow> point \<Rightarrow> bool" where
  "inArea Q a pt =
     (if ar_type a = 1 then rectContains Q (ar_rect a) pt
      else if ar_type a = 2 then circle_dist a pt \<le> circle_radius a
      else if ar_type a = 3 then polygonContains Q (ar_polygon a) pt
      else False)"

fun isTrackInGroupArea_loop :: "qt_area \<Rightarrow> int list \<Rightarrow> AlarmArea list \<Rightarrow> point \<Rightarrow> bool" where
  "isTrackInGroupArea_loop Q allowG [] pt = False"
| "isTrackInGroupArea_loop Q allowG (a # as) pt =
     (if allowG \<noteq> [] \<and> ar_groupID a \<notin> set allowG then isTrackInGroupArea_loop Q allowG as pt
      else if inArea Q a pt then True else isTrackInGroupArea_loop Q allowG as pt)"

definition isTrackInGroupArea :: "AlarmLogicConfig \<Rightarrow> qt_area \<Rightarrow> AlarmArea list \<Rightarrow> point \<Rightarrow> bool" where
  "isTrackInGroupArea al Q groupAreas pt = isTrackInGroupArea_loop Q (areaGroupIdAllow al) groupAreas pt"

fun inSome_area :: "qt_area \<Rightarrow> AlarmArea list \<Rightarrow> point \<Rightarrow> bool" where
  "inSome_area Q [] pt = False"
| "inSome_area Q (a # as) pt = (if inArea Q a pt then True else inSome_area Q as pt)"

definition isTrackInGroupAreaByGroupId :: "qt_area \<Rightarrow> area_map \<Rightarrow> point \<Rightarrow> int \<Rightarrow> bool" where
  "isTrackInGroupAreaByGroupId Q areas pt groupId =
     (if groupId < 0 \<or> \<not> qm_contains areas groupId then False
      else inSome_area Q (qm_value areas groupId []) pt)"

text \<open>The area of a rule: \<open>processAlarms\<close> takes the entry at position \<open>area_id\<close> of the group's
  list and gives up (\<open>None\<close>) when there is none or it has no name.\<close>

definition ruleArea :: "area_map \<Rightarrow> AlarmRule \<Rightarrow> AlarmArea option" where
  "ruleArea areas info =
     (let as = qm_value areas (rule_group_id info) [] in
      if int (length as) > rule_area_id info \<and> ar_areaName (as ! nat (rule_area_id info)) \<noteq> []
      then Some (as ! nat (rule_area_id info)) else None)"

section \<open>Facts: what is loaded\<close>

lemma area_loop_value:
  "qm_value (area_loop T Q infos m) g [] =
     qm_value m g [] @ List.map_filter (parseArea T Q) (filter (\<lambda>i. an_groupID i = g) infos)"
proof (induction T Q infos m rule: area_loop.induct)
  case (2 T Q i "is" m)
  then show ?case by (cases "parseArea T Q i") (simp_all add: List.map_filter_def qm_value_def)
qed (simp add: List.map_filter_def)

lemma point_loop_fields:
  "ar_type (point_loop T Q ty parts js a) = ar_type a" "ar_groupID (point_loop T Q ty parts js a) = ar_groupID a"
  "ar_areaID (point_loop T Q ty parts js a) = ar_areaID a" "ar_areaName (point_loop T Q ty parts js a) = ar_areaName a"
  by (induction T Q ty parts js a rule: point_loop.induct) (auto split: option.splits)

lemma appendPolygonPoints_fields [simp]:
  "ar_type (appendPolygonPoints T Q s ty a) = ar_type a" "ar_groupID (appendPolygonPoints T Q s ty a) = ar_groupID a"
  "ar_areaID (appendPolygonPoints T Q s ty a) = ar_areaID a"
  "ar_areaName (appendPolygonPoints T Q s ty a) = ar_areaName a"
  by (auto simp: appendPolygonPoints_def Let_def point_loop_fields split: option.splits)

lemma parseArea_fields:
  "parseArea T Q i = Some a \<Longrightarrow> ar_groupID a = an_groupID i \<and> ar_areaID a = an_areaID i \<and>
     ar_areaName a = an_areaName i \<and> ar_type a = an_areaType i \<and> (ar_type a = 3 \<longrightarrow> ar_polygon a \<noteq> [])"
  by (auto simp: parseArea_def Let_def empty_area_def split: if_splits option.splits)

text \<open>The areas of a group are its descriptions that parse, in order.\<close>

lemma ruleArea_position:
  assumes "rule_group_id info = g" and "rule_area_id info = int n"
    and "areas = fst (getAlarmArea T Q infos)"
    and "parsed = List.map_filter (parseArea T Q) (filter (\<lambda>i. an_groupID i = g) infos)"
  shows "ruleArea areas info = (if n < length parsed \<and> ar_areaName (parsed ! n) \<noteq> [] then Some (parsed ! n) else None)"
  using assms area_loop_value[of T Q infos "[]" g]
  by (simp add: ruleArea_def getAlarmArea_def Let_def qm_value_def)

lemma map_filter_append: "List.map_filter f (xs @ ys) = List.map_filter f xs @ List.map_filter f ys"
  by (simp add: List.map_filter_def)

lemma map_filter_all: "list_all (\<lambda>x. f x \<noteq> None) xs \<Longrightarrow> List.map_filter f xs = map (\<lambda>x. the (f x)) xs"
  by (induction xs) (auto simp: List.map_filter_def)

text \<open>
  A malformed area shifts the rules of its group: the code addresses areas by their position in
  the list of well-formed ones, so when the description of one area cannot be parsed, every rule
  bound to an area after it is evaluated on the next area instead of its own.
\<close>

theorem malformed_area_shifts_rules:
  assumes "filter (\<lambda>i. an_groupID i = g) infos = pre @ bad # post"
    and "map an_areaID (pre @ bad # post) = map int [0 ..< length (pre @ bad # post)]"
    and "list_all (\<lambda>i. parseArea T Q i \<noteq> None \<and> an_areaName i \<noteq> []) (pre @ post)" and "parseArea T Q bad = None"
    and "rule_group_id info = g" and "rule_area_id info = int n" and "length pre \<le> n" and "Suc n < length (pre @ bad # post)"
  shows "\<exists>a. ruleArea (fst (getAlarmArea T Q infos)) info = Some a \<and> ar_areaID a = rule_area_id info + 1"
proof -
  let ?is = "pre @ bad # post" and ?f = "\<lambda>i. the (parseArea T Q i)"
  have parsed: "List.map_filter (parseArea T Q) ?is = map ?f (pre @ post)"
  proof -
    have "List.map_filter (parseArea T Q) ?is = List.map_filter (parseArea T Q) (pre @ post)"
      using assms(4) by (simp add: List.map_filter_def)
    also have "\<dots> = map ?f (pre @ post)" using assms(3) by (intro map_filter_all) (auto simp: list_all_iff)
    finally show ?thesis .
  qed
  let ?i = "?is ! Suc n"
  have i: "?i = post ! (n - length pre)" "(pre @ post) ! n = ?i" "n < length (pre @ post)"
    using assms(7,8) by (simp_all add: nth_append Suc_diff_le)
  then have "?i \<in> set (pre @ post)" by (metis nth_mem)
  then obtain a where a: "parseArea T Q ?i = Some a" "an_areaName ?i \<noteq> []" using assms(3) by (auto simp: list_all_iff)
  have "an_areaID ?i = int (Suc n)"
    using arg_cong[OF assms(2), of "\<lambda>xs. xs ! Suc n"] assms(8) by (simp del: map_append upt_Suc)
  then have "ar_areaID a = int n + 1" "ar_areaName a \<noteq> []" using parseArea_fields[OF a(1)] a(2) by simp_all
  moreover have "ruleArea (fst (getAlarmArea T Q infos)) info = Some a"
    using ruleArea_position[OF assms(5,6) refl refl, of T Q infos] assms(1) parsed i a \<open>ar_areaName a \<noteq> []\<close>
    by (simp del: map_append)
  ultimately show ?thesis using assms(6) by auto
qed

definition sample_qt_area :: qt_area where
  "sample_qt_area = \<lparr>splitComma = (\<lambda>s. if s = [] then [] else [s, s]), toFloat = (\<lambda>_. Some 1), toInt = (\<lambda>_. None),
     rectNormalized = (\<lambda>r. r),
     rectContains = (\<lambda>r p. fst (fst r) \<le> fst p \<and> fst p \<le> fst (snd r) \<and> snd (fst r) \<le> snd p \<and> snd p \<le> snd (snd r)),
     rectPolygon = (\<lambda>r. [fst r, snd r]), polygonContains = (\<lambda>_ _. False)\<rparr>"

definition sample_info :: "int \<Rightarrow> qstring \<Rightarrow> AreaInfo" where
  "sample_info i coords = \<lparr>an_groupID = 3, an_areaID = i, an_areaName = qs ''n'', an_areaType = 2,
     an_startPoint = coords, an_endPoint = coords, an_areaRect = [], an_areaPoints = []\<rparr>"

theorem malformed_area_shifts_rules_witness:
  "\<exists>a. ruleArea (fst (getAlarmArea ascii_text sample_qt_area
      [sample_info 0 (qs ''p''), sample_info 1 [], sample_info 2 (qs ''q'')]))
      (default_rule\<lparr>rule_group_id := 3, rule_area_id := 1\<rparr>) = Some a \<and> ar_areaID a = 2"
proof -
  let ?infos = "[sample_info 0 (qs ''p''), sample_info 1 [], sample_info 2 (qs ''q'')]"
  let ?rule = "default_rule\<lparr>rule_group_id := 3, rule_area_id := 1\<rparr>"
  have 1: "filter (\<lambda>i. an_groupID i = 3) ?infos = [sample_info 0 (qs ''p'')] @ sample_info 1 [] # [sample_info 2 (qs ''q'')]"
    by (simp add: sample_info_def)
  have 2: "map an_areaID ([sample_info 0 (qs ''p'')] @ sample_info 1 [] # [sample_info 2 (qs ''q'')])
      = map int [0 ..< length ([sample_info 0 (qs ''p'')] @ sample_info 1 [] # [sample_info 2 (qs ''q'')])]"
    by (simp add: sample_info_def)
  have 3: "list_all (\<lambda>i. parseArea ascii_text sample_qt_area i \<noteq> None \<and> an_areaName i \<noteq> [])
      ([sample_info 0 (qs ''p'')] @ [sample_info 2 (qs ''q'')])"
    by (simp add: sample_info_def parseArea_def sample_qt_area_def parseCoordPair_def Let_def empty_area_def
        parseAreaRect_def appendPolygonPoints_def)
  have 4: "parseArea ascii_text sample_qt_area (sample_info 1 []) = None"
    by (simp add: sample_info_def parseArea_def sample_qt_area_def parseCoordPair_def Let_def empty_area_def)
  show ?thesis using malformed_area_shifts_rules[OF 1 2 3 4, of ?rule 1] by simp
qed

section \<open>Facts: points in areas\<close>

lemma group_loop_iff:
  "isTrackInGroupArea_loop Q allowG as pt \<longleftrightarrow>
     (\<exists>a \<in> set as. (allowG = [] \<or> ar_groupID a \<in> set allowG) \<and> inArea Q a pt)"
  by (induction Q allowG as pt rule: isTrackInGroupArea_loop.induct) auto

lemma inSome_area_iff: "inSome_area Q as pt \<longleftrightarrow> (\<exists>a \<in> set as. inArea Q a pt)"
  by (induction as) auto

end
