(* ===== verification/Rule_Eval.thy ===== *)
theory Rule_Eval
  imports Alarm_Content Track_Area
begin

text \<open>
  The evaluation of one rule on the targets that satisfy its area condition
  (\<open>TrackAlarmThread::updataAlarmTrackToDB\<close>): finding the track, the bird-radar filter, the
  no-alarm zones, the black and white lists, then the conditions in the code's order (speed, height,
  course or entry angle, distance and time to the protected circle, target attributes, detected types, threat), and
  the alarm that is saved.  The clock is read once for a batch (\<open>now\<close>); \<open>QSet::toList\<close> is the list that is
  passed in.
\<close>

section \<open>Environment and state\<close>

record TargetInfoFilter =
  black_white_attr :: int
  affiliation_attr :: int
  corp_attr :: int

text \<open>
  \<open>re_protect\<close> is \<open>m_mapSchemeProtectAreas\<close>, its key \<open>group_area\<close> a pair.  \<open>re_unset_track\<close> is the value an
  uninitialised \<open>SPxPacketTrackExtended\<close> happens to have, \<open>re_unset_type\<close> and \<open>re_unset_behavior\<close> the same for the two
  fields of a new \<open>AlarmData\<close> the code leaves unset; \<open>re_uuid n\<close> is the n-th \<open>QUuid\<close> made.
\<close>

record rule_env =
  re_logic :: AlarmLogicConfig
  re_content :: content_env
  re_qarea :: qt_area
  re_areas :: area_map
  re_filters :: "(int, TargetInfoFilter) qmap"
  re_protect :: "(int \<times> int, int \<times> int) qmap"
  re_uuid :: "nat \<Rightarrow> string"
  re_unset_track :: SPxTrack
  re_unset_type :: int
  re_unset_behavior :: int

record rule_state =
  rs_alarms :: alarm_state
  rs_speedLast :: "(int, bool) qmap"
  rs_uuids :: nat
  rs_ops :: "db_op list"
  rs_areaAlarms :: "(qstring, AlarmData list) qmap"

record eval_tables =
  et_fuse :: track_map
  et_radar :: track_map
  et_bird :: track_map

section \<open>The track of a candidate\<close>

definition findByAnyId :: "track_map \<Rightarrow> int \<Rightarrow> SPxTrack option" where
  "findByAnyId m cid =
     (case map_of m cid of
        Some t \<Rightarrow> Some t
      | None \<Rightarrow> map_option snd (find (\<lambda>p. uniqueID (snd p) = to_u32 cid \<or> min_id (snd p) = to_u32 cid) m))"

text \<open>\<open>None\<close>: the candidate is skipped.  The radar table has \<open>int\<close> keys; type 2 (AIS) reads no table.\<close>

definition candidateTrack :: "rule_env \<Rightarrow> eval_tables \<Rightarrow> int \<Rightarrow> int \<Rightarrow> SPxTrack option" where
  "candidateTrack E tbs type cid =
     (if type = 0 then map_of (et_fuse tbs) cid
      else if type = 1
      then findByAnyId (et_radar tbs) (to_i32 cid)
      else if type = 3 then findByAnyId (et_bird tbs) cid
      else Some (re_unset_track E))"

definition findBirdSkipFusionTrackId :: "SPxTrack \<Rightarrow> int list \<Rightarrow> int" where
  "findBirdSkipFusionTrackId tr skipIds =
     (case find (\<lambda>t. to_i32 t > 0 \<and> to_i32 t \<in> set skipIds) (take 8 (fusion_trackID tr)) of
        Some t \<Rightarrow> to_i32 t | None \<Rightarrow> 0)"

definition w_radar14S :: qstring where "w_radar14S = [49, 52, 83, 0x96F7, 0x8FBE, 32]"
definition w_radarSC :: qstring where "w_radarSC = [0x56DB, 0x521B, 0x96F7, 0x8FBE, 32]"
definition w_selfReport :: qstring where "w_selfReport = [0x81EA, 0x62A5, 0x4F4D, 32]"

definition sensor_names :: "int \<Rightarrow> qstring" where
  "sensor_names sensors =
     (if bit sensors 0 then w_radar14S else []) @ (if bit sensors 1 then w_radarSC else [])
       @ (if bit sensors 2 then w_selfReport else [])"

definition self_reported :: "rule_env \<Rightarrow> SPxTrack \<Rightarrow> bool" where
  "self_reported E tr =
     list_ex (\<lambda>sub. let t = trimmed (ce_text (re_content E)) sub in t \<noteq> [] \<and> contains (sensor_names (fusion_sensors tr)) t)
       (splitComma (re_qarea E) (birdSelfReportSubstrings (re_logic E)))"

definition bird_skipped :: "rule_env \<Rightarrow> int \<Rightarrow> int \<Rightarrow> SPxTrack \<Rightarrow> bool" where
  "bird_skipped E type radarSourceId tr =
     (if type = 3 \<and> radarSourceId = birdRadarSourceId (re_logic E)
      then (if findBirdSkipFusionTrackId tr (birdSkipTrackIds (re_logic E)) > 0 then True
            else if birdFilterMode (re_logic E) = 0 then self_reported E tr else False)
      else False)"

section \<open>No-alarm zones, lists and running alarms\<close>

definition in_no_alarm_zone :: "rule_env \<Rightarrow> SPxTrack \<Rightarrow> bool" where
  "in_no_alarm_zone E tr =
     list_ex (\<lambda>gid. \<not> gid < 0 \<and> isTrackInGroupAreaByGroupId (re_qarea E) (re_areas E) (latDegs tr, longDegs tr) gid)
       (noAlarmGroupIds (re_logic E))"

definition trackHasPublishedAlarm :: "int \<Rightarrow> int \<Rightarrow> int \<Rightarrow> (string, AlarmData) qmap \<Rightarrow> bool" where
  "trackHasPublishedAlarm now tid windowMs m =
     (if tid \<le> 0 \<or> windowMs \<le> 0 then False
      else list_ex (\<lambda>(k, ad). \<not> (unique_id ad \<noteq> tid \<or> alarm_status ad = 2) \<and> now - alarm_time ad < windowMs) m)"

definition filterLookupKey :: "int \<Rightarrow> int" where
  "filterLookupKey tid = (if tid > 0 \<and> tid \<le> 2147483647 then tid else 0)"

definition targetInfo :: "rule_env \<Rightarrow> int \<Rightarrow> TargetInfoFilter option" where
  "targetInfo E tid = (if filterLookupKey tid > 0 then map_of (re_filters E) (filterLookupKey tid) else None)"

datatype list_verdict = Blacklisted | NotWhitelisted | Unlisted

definition blackWhite :: "rule_env \<Rightarrow> AlarmRule \<Rightarrow> int \<Rightarrow> list_verdict" where
  "blackWhite E info tid =
     (case targetInfo E tid of
        None \<Rightarrow> Unlisted
      | Some ti \<Rightarrow>
          if rule_blacklist_judge info = 1 \<and> black_white_attr ti = 2 then Blacklisted
          else if rule_whitelist_judge info = 1 \<and> black_white_attr ti \<noteq> 1 then NotWhitelisted
          else Unlisted)"

definition trackAlreadyHasAlarm :: "AlarmLogicConfig \<Rightarrow> int \<Rightarrow> AlarmRule \<Rightarrow> int \<Rightarrow> (string, AlarmData) qmap \<Rightarrow> bool" where
  "trackAlreadyHasAlarm al now info tid m =
     list_ex (\<lambda>(k, ad). condition_id ad = rule_condition_id info \<and> unique_id ad = tid
                \<and> now - alarm_time ad < trackAlreadyHasAlarmWindowMs al) m"

section \<open>The conditions, in order\<close>

definition currentSpeedCheck :: "AlarmRule \<Rightarrow> SPxTrack \<Rightarrow> bool" where
  "currentSpeedCheck info tr =
     (if rule_speed_condition info = 1 \<and> speedMps tr \<ge> of_int (rule_speed info) then False
      else if rule_speed_condition info = 2 \<and> speedMps tr \<le> of_int (rule_speed info) then False
      else True)"

text \<open>The verdict and the new \<open>m_mapSpeedLastCheck\<close>.\<close>

definition speed_stage :: "AlarmLogicConfig \<Rightarrow> int \<Rightarrow> AlarmRule \<Rightarrow> int \<Rightarrow> SPxTrack \<Rightarrow> (int, bool) qmap
    \<Rightarrow> bool \<times> (int, bool) qmap" where
  "speed_stage al type info tid tr mem =
     (if rule_speed_condition info > 0
      then let cur = currentSpeedCheck info tr;
               ok = (if type = 0 \<or> speedDoubleCheckFuseTrackOnly al = 0
                     then (case map_of mem tid of Some l \<Rightarrow> l \<and> cur | None \<Rightarrow> False)
                     else cur)
           in (ok, qm_insert tid cur mem)
      else (True, mem))"

definition height_ok :: "AlarmRule \<Rightarrow> real \<Rightarrow> bool" where
  "height_ok info h =
     (if rule_height_min info \<noteq> rule_height_max info
      then \<not> (h < of_int (rule_height_min info) \<or> h > of_int (rule_height_max info)) else True)"

text \<open>The protected circle of a rule: the circles of the scheme's protected group with its area id.\<close>

definition protect_circles :: "rule_env \<Rightarrow> AlarmRule \<Rightarrow> AlarmArea list" where
  "protect_circles E info =
     (case map_of (re_protect E) (rule_group_id info, rule_area_id info) of
        None \<Rightarrow> []
      | Some (pg, pa) \<Rightarrow>
          if pg > 0 \<and> pa \<ge> 0 then filter (\<lambda>a. ar_areaID a = pa \<and> ar_type a = 2) (qm_value (re_areas E) pg []) else [])"

text \<open>The course stage keeps the last such circle (its loop has no \<open>break\<close>), the distance stage the first.\<close>

definition protect_last :: "rule_env \<Rightarrow> AlarmRule \<Rightarrow> point option" where
  "protect_last E info = (if protect_circles E info = [] then None else Some (ar_start (last (protect_circles E info))))"

definition protect_first :: "rule_env \<Rightarrow> AlarmRule \<Rightarrow> point option" where
  "protect_first E info = (if protect_circles E info = [] then None else Some (ar_start (hd (protect_circles E info))))"

definition protect_radius :: "rule_env \<Rightarrow> AlarmRule \<Rightarrow> real" where
  "protect_radius E info =
     (let (pg, pa) = qm_value (re_protect E) (rule_group_id info, rule_area_id info) (0, 0);
          a = (case find (\<lambda>a. ar_areaID a = pa) (qm_value (re_areas E) pg []) of Some a \<Rightarrow> a | None \<Rightarrow> empty_area)
      in GetDistance (snd (ar_start a)) (fst (ar_start a)) (snd (ar_end a)) (fst (ar_end a)))"

definition entry_angle :: "SPxTrack \<Rightarrow> point \<Rightarrow> real" where
  "entry_angle tr c =
     (let d = \<bar>courseDegrees tr - calculateBearing (latDegs tr) (longDegs tr) (fst c) (snd c)\<bar>
      in if d > 180 then 360 - d else d)"

definition angle_ok :: "AlarmRule \<Rightarrow> real \<Rightarrow> bool" where
  "angle_ok info a =
     (if rule_course_min info \<le> rule_course_max info
      then \<not> (a < of_int (rule_course_min info) \<or> a > of_int (rule_course_max info))
      else \<not> (a < of_int (rule_course_min info) \<and> a > of_int (rule_course_max info)))"

text \<open>What the stages hand on: the verdict so far, the centre of the protected circle, and the angle checked.\<close>

type_synonym stage = "bool \<times> point option \<times> real"

definition course_stage :: "rule_env \<Rightarrow> AlarmRule \<Rightarrow> SPxTrack \<Rightarrow> bool \<Rightarrow> stage" where
  "course_stage E info tr pass =
     (if pass \<and> rule_course_min info \<noteq> rule_course_max info
      then let p = protect_last E info;
               a = (case p of Some c \<Rightarrow> entry_angle tr c | None \<Rightarrow> courseDegrees tr)
           in (angle_ok info a, p, a)
      else (pass, None, 0))"

definition protect_distance :: "rule_env \<Rightarrow> AlarmRule \<Rightarrow> SPxTrack \<Rightarrow> point \<Rightarrow> real" where
  "protect_distance E info tr c =
     (let d = GetDistance (longDegs tr) (latDegs tr) (snd c) (fst c); r = protect_radius E info
      in if d > r then d - r else 0)"

definition distance_stage :: "rule_env \<Rightarrow> AlarmRule \<Rightarrow> SPxTrack \<Rightarrow> stage \<Rightarrow> stage" where
  "distance_stage E info tr s =
     (case s of (pass, p, a) \<Rightarrow>
        if rule_dist_to_protect_area info \<ge> 0 \<and> pass
        then let p' = (if p = None then protect_first E info else p) in
          (case p' of
             Some c \<Rightarrow> (if protect_distance E info tr c < of_int (rule_dist_to_protect_area info) then pass else False, p', a)
           | None \<Rightarrow> (pass, p', a))
        else s)"

definition entry_stage :: "rule_env \<Rightarrow> AlarmRule \<Rightarrow> SPxTrack \<Rightarrow> stage \<Rightarrow> stage" where
  "entry_stage E info tr s =
     (case s of (pass, p, a) \<Rightarrow>
        (case p of
           Some c \<Rightarrow>
             if rule_entry_time info > 0 \<and> pass
             then let t = calculateTimeToProtectArea tr c (protect_radius E info) in
               (if t < 0 then (False, p, a)
                else if t > of_int (rule_entry_time info * 60) then (False, p, a) else s)
             else s
         | None \<Rightarrow> s))"

text \<open>Affiliation (a bit mask; \<open>1 << attr\<close> for the attributes 0 to 30) and cooperation.\<close>

definition attributes_ok :: "rule_env \<Rightarrow> AlarmRule \<Rightarrow> int \<Rightarrow> bool" where
  "attributes_ok E info tid =
     (case targetInfo E tid of
        None \<Rightarrow> True
      | Some ti \<Rightarrow>
          (let ok = (if rule_affiliation_judge info > 0
                     then and (rule_affiliation_judge info) (2 ^ nat (affiliation_attr ti)) \<noteq> 0 else True)
           in if rule_corp_judge info > 0 \<and> ok
              then (if rule_corp_judge info = 1 then corp_attr ti = 1
                    else if rule_corp_judge info = 2 then corp_attr ti \<noteq> 1 else ok)
              else ok))"

definition mask_ok :: "qt_text \<Rightarrow> int \<Rightarrow> qstring \<Rightarrow> bool" where
  "mask_ok T msk t =
     (if msk > 0
      then let b = convertTargetTypeStringToBitmask T t in \<not> (b = 0 \<or> and msk b = 0)
      else True)"

definition needs_detection :: "AlarmRule \<Rightarrow> bool" where
  "needs_detection info \<longleftrightarrow> rule_camera_detect_type info > 0 \<or> rule_llm_detect_type info > 0 \<or> rule_uav_detect_type info > 0
     \<or> rule_threat_level1 info > 0 \<or> rule_threat_level2 info > 0"

definition detection_ok :: "qt_text \<Rightarrow> int \<Rightarrow> AlarmRule \<Rightarrow> DetectionTypeResult \<Rightarrow> bool" where
  "detection_ok T type info d =
     (if \<not> det_found d then type = 3
      else mask_ok T (rule_camera_detect_type info) (det_cam d) \<and> mask_ok T (rule_llm_detect_type info) (det_llm d)
           \<and> mask_ok T (rule_uav_detect_type info) (det_uav d))"

definition qRound :: "real \<Rightarrow> int" where
  "qRound x = \<lfloor>x + 1 / 2\<rfloor>"

definition rule_threat :: "rule_env \<Rightarrow> AlarmRule \<Rightarrow> SPxTrack \<Rightarrow> point option \<Rightarrow> real \<Rightarrow> ThreatAssessmentResult" where
  "rule_threat E info tr p a =
     calculateThreatAssessment (re_logic E) tr (ce_detect (re_content E) (uniqueID tr))
       (case params_for (ce_params (re_content E)) info of
          Some q \<Rightarrow> q | None \<Rightarrow> default_params (rule_group_id info) (rule_area_id info)) p a"

text \<open>The threat stage: the verdict, the score for the alarm, and the contributions if they were computed.\<close>

definition detection_stage :: "rule_env \<Rightarrow> int \<Rightarrow> AlarmRule \<Rightarrow> SPxTrack \<Rightarrow> stage
    \<Rightarrow> bool \<times> int \<times> ThreatAssessmentResult option" where
  "detection_stage E type info tr s =
     (case s of (pass, p, a) \<Rightarrow>
        if pass \<and> needs_detection info
        then let pass1 = detection_ok (ce_text (re_content E)) type info (ce_detect (re_content E) (uniqueID tr)) in
          if (rule_threat_level1 info > 0 \<or> rule_threat_level2 info > 0) \<and> pass1
          then let r = rule_threat E info tr p a;
                   score = qBound 0 (qRound (totalThreatLevel r)) 100
               in (if rule_threat_level1 info > 0 \<and> totalThreatLevel r \<ge> of_int (rule_threat_level1 info) then pass1
                   else if rule_threat_level1 info > 0 \<and> totalThreatLevel r < of_int (rule_threat_level1 info) then False
                   else pass1, score, Some r)
          else (pass1, defaultThreatScore (re_logic E), None)
        else (pass, defaultThreatScore (re_logic E), None))"

section \<open>Saving\<close>

definition content_input :: "AlarmRule \<Rightarrow> int \<Rightarrow> int \<Rightarrow> SPxTrack \<Rightarrow> qstring \<Rightarrow> bool \<Rightarrow> real \<Rightarrow> int
    \<Rightarrow> DetectionTypeResult option \<Rightarrow> ThreatAssessmentResult option \<Rightarrow> AlarmContentBuildInput" where
  "content_input info type tid tr path hasProtect attack score det breakdown =
     \<lparr>ci_rule = info, ci_uniqueId = tid, ci_speedMps = speedMps tr, ci_courseDeg = courseDegrees tr,
      ci_attackAngleDeg = attack, ci_heightM = altitudeMetres tr, ci_threatScore = score,
      ci_hasProtectArea = hasProtect, ci_isAirTrack = (rule_track_type info > 0 \<or> type = 3), ci_breakdown = breakdown,
      ci_triggerPath = path, ci_detection = det\<rparr>"

definition rule_save_args :: "rule_env \<Rightarrow> AlarmRule \<Rightarrow> int \<Rightarrow> int \<Rightarrow> SPxTrack \<Rightarrow> int \<Rightarrow> qstring \<Rightarrow> string \<Rightarrow> save_args" where
  "rule_save_args E info radarSourceId tid tr score content uuid =
     \<lparr>sv_info = info, sv_targetId = tid, sv_lat = latDegs tr, sv_lon = longDegs tr, sv_speed = speedMps tr,
      sv_dir = courseDegrees tr, sv_dis = rangeMetres tr, sv_threatScore = score,
      sv_timestampSec = to_i32 (msgTimeSecs tr), sv_radarSourceId = radarSourceId, sv_content = content, sv_uuid = uuid,
      sv_unset_targettype = re_unset_type E, sv_unset_targetbehavior = re_unset_behavior E\<rparr>"

definition save_candidate :: "rule_env \<Rightarrow> int \<Rightarrow> AlarmRule \<Rightarrow> int \<Rightarrow> int \<Rightarrow> SPxTrack \<Rightarrow> int \<Rightarrow> qstring
    \<Rightarrow> rule_state \<Rightarrow> rule_state" where
  "save_candidate E now info radarSourceId tid tr score content st =
     (case SaveToDB (re_logic E) now
             (rule_save_args E info radarSourceId tid tr score content (re_uuid E (rs_uuids st))) (rs_alarms st) of
        (s, op) \<Rightarrow> st\<lparr>rs_alarms := s, rs_uuids := Suc (rs_uuids st),
                     rs_ops := rs_ops st @ (case op of Some x \<Rightarrow> [x] | None \<Rightarrow> [])\<rparr>)"

text \<open>The conditions of one candidate: verdict, score, contributions, circle and angle, and the speed memory.\<close>

definition conditions :: "rule_env \<Rightarrow> int \<Rightarrow> AlarmRule \<Rightarrow> int \<Rightarrow> SPxTrack \<Rightarrow> (int, bool) qmap
    \<Rightarrow> (bool \<times> int \<times> ThreatAssessmentResult option) \<times> (point option \<times> real) \<times> (int, bool) qmap" where
  "conditions E type info tid tr mem =
     (let (sp, mem') = speed_stage (re_logic E) type info tid tr mem;
          hp = (if sp then height_ok info (altitudeMetres tr) else False);
          (pass, p, a) = entry_stage E info tr (distance_stage E info tr (course_stage E info tr hp));
          pass1 = (if pass then attributes_ok E info tid else False)
      in (detection_stage E type info tr (pass1, p, a), (p, a), mem'))"

definition match_content :: "rule_env \<Rightarrow> int \<Rightarrow> AlarmRule \<Rightarrow> int \<Rightarrow> SPxTrack \<Rightarrow> point option \<Rightarrow> real \<Rightarrow> int
    \<Rightarrow> ThreatAssessmentResult option \<Rightarrow> AlarmContentBuildInput" where
  "match_content E type info tid tr p a score breakdown =
     (let key = (if uniqueID tr > 0 then uniqueID tr else tid);
          det = ce_detect (re_content E) key;
          path = (if rule_threat_level1 info > 0 \<and> score \<ge> rule_threat_level1 info
                  then qs ''threat_direct'' else qs ''rule_match'')
      in content_input info type tid tr path (p \<noteq> None) a score (if det_found det then Some det else None) breakdown)"

definition evalConditions :: "rule_env \<Rightarrow> int \<Rightarrow> AlarmRule \<Rightarrow> int \<Rightarrow> int \<Rightarrow> int \<Rightarrow> SPxTrack \<Rightarrow> rule_state \<Rightarrow> rule_state" where
  "evalConditions E now info type radarSourceId tid tr st =
     (let sticky = trackAlreadyHasAlarm (re_logic E) now info tid (mapAlarmData (rs_alarms st));
          ((pass, score, breakdown), (p, a), mem') = conditions E type info tid tr (rs_speedLast st);
          st1 = st\<lparr>rs_speedLast := mem'\<rparr>;
          content = (if sticky \<and> \<not> pass then []
                     else buildRuleAlarmContent (re_content E) (match_content E type info tid tr p a score breakdown))
      in if pass \<or> sticky then save_candidate E now info radarSourceId tid tr score content st1 else st1)"

section \<open>One candidate and one batch\<close>

definition evalTrack :: "rule_env \<Rightarrow> int \<Rightarrow> AlarmRule \<Rightarrow> int \<Rightarrow> int \<Rightarrow> int \<Rightarrow> SPxTrack \<Rightarrow> rule_state \<Rightarrow> rule_state" where
  "evalTrack E now info type radarSourceId tid tr st =
     (if bird_skipped E type radarSourceId tr then st
      else if in_no_alarm_zone E tr
         \<and> \<not> trackHasPublishedAlarm now tid (trackAlreadyHasAlarmWindowMs (re_logic E)) (mapAlarmData (rs_alarms st))
      then st
      else case blackWhite E info tid of
        Blacklisted \<Rightarrow>
          save_candidate E now info radarSourceId tid tr (defaultThreatScore (re_logic E))
            (buildRuleAlarmContent (re_content E)
              (content_input info type tid tr (qs ''blacklist'') False (courseDegrees tr)
                 (defaultThreatScore (re_logic E)) None None)) st
      | NotWhitelisted \<Rightarrow> st
      | Unlisted \<Rightarrow> evalConditions E now info type radarSourceId tid tr st)"

definition evalCandidate :: "rule_env \<Rightarrow> int \<Rightarrow> eval_tables \<Rightarrow> AlarmRule \<Rightarrow> int \<Rightarrow> int \<Rightarrow> int \<Rightarrow> rule_state \<Rightarrow> rule_state" where
  "evalCandidate E now tbs info type radarSourceId cid st =
     (if type \<le> 3
      then (case candidateTrack E tbs type cid of
              None \<Rightarrow> st
            | Some tr \<Rightarrow> evalTrack E now info type radarSourceId cid tr st)
      else st)"

definition updataAlarmTrackToDB :: "rule_env \<Rightarrow> int \<Rightarrow> eval_tables \<Rightarrow> AlarmRule \<Rightarrow> int \<Rightarrow> int \<Rightarrow> int list \<Rightarrow> rule_state
    \<Rightarrow> rule_state" where
  "updataAlarmTrackToDB E now tbs info type radarSourceId listID st0 =
     (let st1 = st0\<lparr>rs_alarms := (rs_alarms st0)\<lparr>listAlarmData := []\<rparr>\<rparr>;
          st = fold (evalCandidate E now tbs info type radarSourceId) listID st1
      in st\<lparr>rs_areaAlarms := qm_insert (rule_name info) (listAlarmData (rs_alarms st)) (rs_areaAlarms st)\<rparr>)"

section \<open>Facts: the stages decide the conjunction of the conditions\<close>

definition protect_centre :: "rule_env \<Rightarrow> AlarmRule \<Rightarrow> point option" where
  "protect_centre E info =
     (if rule_course_min info \<noteq> rule_course_max info then protect_last E info
      else if rule_dist_to_protect_area info \<ge> 0 then protect_first E info else None)"

definition checked_angle :: "rule_env \<Rightarrow> AlarmRule \<Rightarrow> SPxTrack \<Rightarrow> real" where
  "checked_angle E info tr =
     (if rule_course_min info = rule_course_max info then 0
      else case protect_last E info of Some c \<Rightarrow> entry_angle tr c | None \<Rightarrow> courseDegrees tr)"

text \<open>The rule as a plain conjunction.\<close>

definition speed_matches :: "AlarmLogicConfig \<Rightarrow> int \<Rightarrow> AlarmRule \<Rightarrow> int \<Rightarrow> SPxTrack \<Rightarrow> (int, bool) qmap \<Rightarrow> bool" where
  "speed_matches al type info tid tr mem \<longleftrightarrow>
     (rule_speed_condition info > 0 \<longrightarrow>
        currentSpeedCheck info tr \<and>
        (type = 0 \<or> speedDoubleCheckFuseTrackOnly al = 0 \<longrightarrow> map_of mem tid = Some True))"

definition sector_matches :: "AlarmRule \<Rightarrow> real \<Rightarrow> bool" where
  "sector_matches info a \<longleftrightarrow>
     (if rule_course_min info \<le> rule_course_max info
      then of_int (rule_course_min info) \<le> a \<and> a \<le> of_int (rule_course_max info)
      else of_int (rule_course_min info) \<le> a \<or> a \<le> of_int (rule_course_max info))"

definition circle_matches :: "rule_env \<Rightarrow> AlarmRule \<Rightarrow> SPxTrack \<Rightarrow> bool" where
  "circle_matches E info tr \<longleftrightarrow>
     (\<forall>c. protect_centre E info = Some c \<longrightarrow>
        (rule_dist_to_protect_area info \<ge> 0 \<longrightarrow> protect_distance E info tr c < of_int (rule_dist_to_protect_area info)) \<and>
        (rule_entry_time info > 0 \<longrightarrow>
           0 \<le> calculateTimeToProtectArea tr c (protect_radius E info) \<and>
           calculateTimeToProtectArea tr c (protect_radius E info) \<le> of_int (rule_entry_time info * 60)))"

definition threat_matches :: "rule_env \<Rightarrow> int \<Rightarrow> AlarmRule \<Rightarrow> SPxTrack \<Rightarrow> bool" where
  "threat_matches E type info tr \<longleftrightarrow>
     (needs_detection info \<longrightarrow> detection_ok (ce_text (re_content E)) type info (ce_detect (re_content E) (uniqueID tr))) \<and>
     (rule_threat_level1 info > 0 \<longrightarrow>
        of_int (rule_threat_level1 info)
          \<le> totalThreatLevel (rule_threat E info tr (protect_centre E info) (checked_angle E info tr)))"

definition rule_matches :: "rule_env \<Rightarrow> int \<Rightarrow> AlarmRule \<Rightarrow> int \<Rightarrow> SPxTrack \<Rightarrow> (int, bool) qmap \<Rightarrow> bool" where
  "rule_matches E type info tid tr mem \<longleftrightarrow>
     speed_matches (re_logic E) type info tid tr mem \<and>
     (rule_height_min info \<noteq> rule_height_max info \<longrightarrow>
        of_int (rule_height_min info) \<le> altitudeMetres tr \<and> altitudeMetres tr \<le> of_int (rule_height_max info)) \<and>
     (rule_course_min info \<noteq> rule_course_max info \<longrightarrow> sector_matches info (checked_angle E info tr)) \<and>
     circle_matches E info tr \<and> attributes_ok E info tid \<and> threat_matches E type info tr"

lemma angle_ok_iff: "angle_ok info a = sector_matches info a"
  by (auto simp: angle_ok_def sector_matches_def)

lemma height_ok_iff:
  "height_ok info h = (rule_height_min info \<noteq> rule_height_max info \<longrightarrow>
     of_int (rule_height_min info) \<le> h \<and> h \<le> of_int (rule_height_max info))"
  by (auto simp: height_ok_def)

lemma speed_stage_verdict: "fst (speed_stage al type info tid tr mem) = speed_matches al type info tid tr mem"
  by (auto simp: speed_stage_def speed_matches_def Let_def split: option.splits)

lemma protect_first_last: "protect_last E info = None \<longleftrightarrow> protect_first E info = None"
  by (simp add: protect_last_def protect_first_def)

definition geometry_stages :: "rule_env \<Rightarrow> AlarmRule \<Rightarrow> SPxTrack \<Rightarrow> bool \<Rightarrow> stage" where
  "geometry_stages E info tr pass = entry_stage E info tr (distance_stage E info tr (course_stage E info tr pass))"

lemma geometry_verdict:
  "fst (geometry_stages E info tr pass) \<longleftrightarrow>
     pass \<and> (rule_course_min info \<noteq> rule_course_max info \<longrightarrow> sector_matches info (checked_angle E info tr)) \<and>
     circle_matches E info tr"
proof (cases "pass \<and> (rule_course_min info \<noteq> rule_course_max info \<longrightarrow> sector_matches info (checked_angle E info tr))")
  case False
  then have "fst (course_stage E info tr pass) = False"
    by (auto simp: course_stage_def checked_angle_def angle_ok_iff Let_def)
  then have "fst (geometry_stages E info tr pass) = False"
    by (cases "course_stage E info tr pass")
      (auto simp: geometry_stages_def distance_stage_def entry_stage_def split: option.splits)
  with False show ?thesis by auto
next
  case True
  then have c: "course_stage E info tr pass =
      (True, if rule_course_min info \<noteq> rule_course_max info then protect_last E info else None, checked_angle E info tr)"
    by (auto simp: course_stage_def checked_angle_def angle_ok_iff Let_def split: option.splits)
  have d: "distance_stage E info tr (course_stage E info tr pass) =
      ((\<forall>c. protect_centre E info = Some c \<longrightarrow> rule_dist_to_protect_area info \<ge> 0 \<longrightarrow>
          protect_distance E info tr c < of_int (rule_dist_to_protect_area info)),
       protect_centre E info, checked_angle E info tr)"
    using protect_first_last[of E info]
    by (auto simp: c distance_stage_def protect_centre_def Let_def split: option.splits)
  show ?thesis
    using True unfolding geometry_stages_def d
    by (auto simp: entry_stage_def circle_matches_def Let_def split: option.splits)
qed

lemma geometry_values:
  assumes "fst (geometry_stages E info tr pass)"
  shows "snd (geometry_stages E info tr pass) = (protect_centre E info, checked_angle E info tr)"
proof -
  have "fst (course_stage E info tr pass)"
    using assms by (cases "course_stage E info tr pass")
      (auto simp: geometry_stages_def distance_stage_def entry_stage_def split: option.splits if_splits)
  then have c: "course_stage E info tr pass =
      (True, if rule_course_min info \<noteq> rule_course_max info then protect_last E info else None, checked_angle E info tr)"
    by (auto simp: course_stage_def checked_angle_def Let_def split: option.splits if_splits)
  show ?thesis
    using protect_first_last[of E info]
    by (auto simp: geometry_stages_def c distance_stage_def entry_stage_def protect_centre_def Let_def split: option.splits)
qed

text \<open>The score the alarm gets when the rule matches.\<close>

definition rule_score :: "rule_env \<Rightarrow> AlarmRule \<Rightarrow> SPxTrack \<Rightarrow> int" where
  "rule_score E info tr =
     (if rule_threat_level1 info > 0 \<or> rule_threat_level2 info > 0
      then qBound 0 (qRound (totalThreatLevel (rule_threat E info tr (protect_centre E info) (checked_angle E info tr)))) 100
      else defaultThreatScore (re_logic E))"

lemma detection_verdict:
  "fst (detection_stage E type info tr (pass, protect_centre E info, checked_angle E info tr))
     \<longleftrightarrow> pass \<and> threat_matches E type info tr"
  by (auto simp: detection_stage_def threat_matches_def needs_detection_def Let_def)

lemma detection_score:
  "fst (detection_stage E type info tr (pass, protect_centre E info, checked_angle E info tr)) \<Longrightarrow>
   fst (snd (detection_stage E type info tr (pass, protect_centre E info, checked_angle E info tr))) = rule_score E info tr"
  by (auto simp: detection_stage_def rule_score_def needs_detection_def Let_def split: if_splits)

lemma detection_fails: "fst (detection_stage E type info tr (False, p, a)) = False"
  by (simp add: detection_stage_def)

lemma conditions_eq:
  "conditions E type info tid tr mem =
     (let g = geometry_stages E info tr (speed_matches (re_logic E) type info tid tr mem \<and> height_ok info (altitudeMetres tr))
      in (detection_stage E type info tr (fst g \<and> attributes_ok E info tid, snd g), snd g,
          snd (speed_stage (re_logic E) type info tid tr mem)))"
  using speed_stage_verdict[of "re_logic E" type info tid tr mem]
  by (cases "speed_stage (re_logic E) type info tid tr mem")
    (auto simp: conditions_def geometry_stages_def Let_def split: prod.splits)

lemma conditions_verdict: "fst (fst (conditions E type info tid tr mem)) = rule_matches E type info tid tr mem"
proof -
  let ?g = "geometry_stages E info tr (speed_matches (re_logic E) type info tid tr mem \<and> height_ok info (altitudeMetres tr))"
  show ?thesis
  proof (cases "fst ?g")
    case True
    note v = geometry_values[OF True]
    have "fst (fst (conditions E type info tid tr mem)) = (attributes_ok E info tid \<and> threat_matches E type info tr)"
      using True v by (simp add: conditions_eq Let_def detection_verdict)
    then show ?thesis using True unfolding geometry_verdict rule_matches_def height_ok_iff by blast
  next
    case False
    then have "fst (fst (conditions E type info tid tr mem)) = False"
      by (cases ?g) (simp add: conditions_eq Let_def detection_fails)
    then show ?thesis using False unfolding geometry_verdict rule_matches_def height_ok_iff by blast
  qed
qed

lemma conditions_values:
  assumes "rule_matches E type info tid tr mem"
  shows "fst (snd (fst (conditions E type info tid tr mem))) = rule_score E info tr"
    and "fst (snd (conditions E type info tid tr mem)) = (protect_centre E info, checked_angle E info tr)"
proof -
  let ?g = "geometry_stages E info tr (speed_matches (re_logic E) type info tid tr mem \<and> height_ok info (altitudeMetres tr))"
  have m: "fst (fst (conditions E type info tid tr mem))" using assms by (simp add: conditions_verdict)
  have g: "fst ?g"
    using assms unfolding geometry_verdict rule_matches_def height_ok_iff by blast
  note v = geometry_values[OF g]
  show "fst (snd (fst (conditions E type info tid tr mem))) = rule_score E info tr"
    using m g v detection_score[of E type info tr "attributes_ok E info tid"] by (simp add: conditions_eq Let_def)
  show "fst (snd (conditions E type info tid tr mem)) = (protect_centre E info, checked_angle E info tr)"
    using v by (simp add: conditions_eq Let_def)
qed

lemma conditions_memory:
  "snd (snd (conditions E type info tid tr mem)) =
     (if rule_speed_condition info > 0 then qm_insert tid (currentSpeedCheck info tr) mem else mem)"
  by (simp add: conditions_eq speed_stage_def Let_def)

section \<open>Facts: what one candidate does to the alarms\<close>

lemma save_candidate_alarms [simp]:
  "rs_alarms (save_candidate E now info src tid tr score content st) =
     fst (SaveToDB (re_logic E) now (rule_save_args E info src tid tr score content (re_uuid E (rs_uuids st))) (rs_alarms st))"
  "rs_speedLast (save_candidate E now info src tid tr score content st) = rs_speedLast st"
  "rs_uuids (save_candidate E now info src tid tr score content st) = Suc (rs_uuids st)"
  by (simp_all add: save_candidate_def split: prod.splits)

lemma rule_save_args_fields [simp]:
  "sv_targetId (rule_save_args E info src tid tr score content u) = tid"
  "sv_info (rule_save_args E info src tid tr score content u) = info"
  "sv_threatScore (rule_save_args E info src tid tr score content u) = score"
  "sv_content (rule_save_args E info src tid tr score content u) = content"
  "sv_uuid (rule_save_args E info src tid tr score content u) = u"
  by (simp_all add: rule_save_args_def)

abbreviation already :: "rule_env \<Rightarrow> int \<Rightarrow> AlarmRule \<Rightarrow> int \<Rightarrow> rule_state \<Rightarrow> bool" where
  "already E now info tid st \<equiv> trackAlreadyHasAlarm (re_logic E) now info tid (mapAlarmData (rs_alarms st))"

abbreviation published :: "rule_env \<Rightarrow> int \<Rightarrow> int \<Rightarrow> rule_state \<Rightarrow> bool" where
  "published E now tid st \<equiv>
     trackHasPublishedAlarm now tid (trackAlreadyHasAlarmWindowMs (re_logic E)) (mapAlarmData (rs_alarms st))"

lemma evalConditions_alarms:
  obtains score content where
    "rs_alarms (evalConditions E now info type src tid tr st) =
       (if rule_matches E type info tid tr (rs_speedLast st) \<or> already E now info tid st
        then fst (SaveToDB (re_logic E) now (rule_save_args E info src tid tr score content (re_uuid E (rs_uuids st)))
               (rs_alarms st))
        else rs_alarms st)"
    "rule_matches E type info tid tr (rs_speedLast st) \<Longrightarrow> score = rule_score E info tr"
    "\<not> rule_matches E type info tid tr (rs_speedLast st) \<Longrightarrow> content = []"
    "rs_speedLast (evalConditions E now info type src tid tr st) =
       (if rule_speed_condition info > 0 then qm_insert tid (currentSpeedCheck info tr) (rs_speedLast st)
        else rs_speedLast st)"
    "rs_uuids (evalConditions E now info type src tid tr st) =
       (if rule_matches E type info tid tr (rs_speedLast st) \<or> already E now info tid st then Suc (rs_uuids st) else rs_uuids st)"
proof -
  obtain pass score b p a mem' where c: "conditions E type info tid tr (rs_speedLast st) = ((pass, score, b), (p, a), mem')"
    by (metis surj_pair)
  have pass: "pass = rule_matches E type info tid tr (rs_speedLast st)"
    using conditions_verdict[of E type info tid tr "rs_speedLast st"] by (simp add: c)
  have sc: "rule_matches E type info tid tr (rs_speedLast st) \<Longrightarrow> score = rule_score E info tr"
    using conditions_values(1)[of E type info tid tr "rs_speedLast st"] by (simp add: c)
  have m: "mem' = (if rule_speed_condition info > 0 then qm_insert tid (currentSpeedCheck info tr) (rs_speedLast st)
      else rs_speedLast st)"
    using conditions_memory[of E type info tid tr "rs_speedLast st"] by (simp add: c)
  let ?content = "if already E now info tid st \<and> \<not> pass then []
    else buildRuleAlarmContent (re_content E) (match_content E type info tid tr p a score b)"
  show ?thesis
  proof (cases "pass \<or> already E now info tid st")
    case True
    then show ?thesis
      by (intro that[of score ?content]) (simp_all add: evalConditions_def c Let_def pass[symmetric] sc m)
  next
    case False
    then show ?thesis
      by (intro that[of score "[]"]) (simp_all add: evalConditions_def c Let_def pass[symmetric] sc m)
  qed
qed

lemma evalCandidate_cases:
  obtains (unchanged) "rs_alarms (evalCandidate E now tbs info type src tid st) = rs_alarms st"
      "rs_uuids (evalCandidate E now tbs info type src tid st) = rs_uuids st"
  | (saved) tr score content where "type \<le> 3" "candidateTrack E tbs type tid = Some tr" "\<not> bird_skipped E type src tr"
      "in_no_alarm_zone E tr \<Longrightarrow> published E now tid st" "blackWhite E info tid \<noteq> NotWhitelisted"
      "blackWhite E info tid = Unlisted \<Longrightarrow> rule_matches E type info tid tr (rs_speedLast st) \<or> already E now info tid st"
      "rs_alarms (evalCandidate E now tbs info type src tid st) =
         fst (SaveToDB (re_logic E) now (rule_save_args E info src tid tr score content (re_uuid E (rs_uuids st)))
           (rs_alarms st))"
      "rs_uuids (evalCandidate E now tbs info type src tid st) = Suc (rs_uuids st)"
proof (cases "type \<le> 3 \<and> candidateTrack E tbs type tid \<noteq> None")
  case False
  then show ?thesis by (intro unchanged) (auto simp: evalCandidate_def)
next
  case True
  then obtain tr where tr: "type \<le> 3" "candidateTrack E tbs type tid = Some tr" by auto
  then have e: "evalCandidate E now tbs info type src tid st = evalTrack E now info type src tid tr st"
    by (simp add: evalCandidate_def)
  show ?thesis
  proof (cases "bird_skipped E type src tr \<or> in_no_alarm_zone E tr \<and> \<not> published E now tid st")
    case True
    then show ?thesis by (intro unchanged) (auto simp: e evalTrack_def)
  next
    case free: False
    show ?thesis
    proof (cases "blackWhite E info tid")
      case Blacklisted
      with free show ?thesis by (intro saved[OF tr]) (auto simp: e evalTrack_def)
    next
      case NotWhitelisted
      with free show ?thesis by (intro unchanged) (auto simp: e evalTrack_def)
    next
      case Unlisted
      with free have ev: "evalTrack E now info type src tid tr st = evalConditions E now info type src tid tr st"
        by (auto simp: evalTrack_def)
      obtain score content where c:
        "rs_alarms (evalConditions E now info type src tid tr st) =
           (if rule_matches E type info tid tr (rs_speedLast st) \<or> already E now info tid st
            then fst (SaveToDB (re_logic E) now (rule_save_args E info src tid tr score content (re_uuid E (rs_uuids st)))
                   (rs_alarms st))
            else rs_alarms st)"
        "rs_uuids (evalConditions E now info type src tid tr st) =
           (if rule_matches E type info tid tr (rs_speedLast st) \<or> already E now info tid st then Suc (rs_uuids st) else rs_uuids st)"
        by (rule evalConditions_alarms)
      show ?thesis
      proof (cases "rule_matches E type info tid tr (rs_speedLast st) \<or> already E now info tid st")
        case True
        with free Unlisted c show ?thesis by (intro saved[OF tr]) (auto simp: e ev)
      next
        case False
        with c show ?thesis by (intro unchanged) (simp_all add: e ev)
      qed
    qed
  qed
qed

section \<open>Facts: what a save leaves in the table\<close>

lemma SaveToDB_raises:
  assumes "alarms_ok s" "0 < sv_targetId a" "\<not> silenced now (sv_targetId a) s"
  obtains k ad where "map_of (mapAlarmData (fst (SaveToDB al now a s))) k = Some ad"
    "unique_id ad = sv_targetId a" "alarm_time ad = now"
  using assms(1)
proof (cases rule: SaveToDB_cases[of s a now al])
  case skip
  with assms(2,3) show ?thesis by simp
next
  case fresh
  then show ?thesis by (intro that[of "sv_uuid a" "new_alarm al a now"]) simp_all
next
  case (refresh old)
  then show ?thesis by (intro that[of "alarm_id old" "refreshed_alarm al a now old"]) simp_all
qed

lemma SaveToDB_provenance:
  assumes "alarms_ok s" "map_of (mapAlarmData (fst (SaveToDB al now a s))) k = Some ad"
  shows "map_of (mapAlarmData s) k = Some ad \<or>
    (unique_id ad = sv_targetId a \<and> 0 < sv_targetId a \<and> alarm_time ad = now \<and> \<not> silenced now (sv_targetId a) s
     \<and> group_id ad = rule_group_id (sv_info a) \<and> area_id ad = rule_area_id (sv_info a))"
  using assms(1)
proof (cases rule: SaveToDB_cases[of s a now al])
  case fresh
  with assms(2) show ?thesis by (auto simp: new_alarm_def split: if_splits)
next
  case (refresh old)
  with assms(2) show ?thesis by (auto simp: refreshed_alarm_def Let_def split: if_splits)
qed (use assms in simp)

lemma silenced_SaveToDB:
  assumes "alarms_ok s"
  shows "silenced now t (fst (SaveToDB al now a s)) = silenced now t s"
  using alarms_okD(3)[OF assms] by (auto simp: silenced_def SaveToDB_filters map_of_pruneExpired split: option.splits)

lemma alarms_ok_evalCandidate:
  "alarms_ok (rs_alarms st) \<Longrightarrow> alarms_ok (rs_alarms (evalCandidate E now tbs info type src tid st))"
  by (cases rule: evalCandidate_cases[of E now tbs info type src tid st]) (simp_all add: alarms_ok_SaveToDB)

lemma silenced_evalCandidate:
  "alarms_ok (rs_alarms st) \<Longrightarrow>
   silenced now t (rs_alarms (evalCandidate E now tbs info type src tid st)) = silenced now t (rs_alarms st)"
  by (cases rule: evalCandidate_cases[of E now tbs info type src tid st]) (simp_all add: silenced_SaveToDB)

lemma alarms_ok_batch:
  "alarms_ok (rs_alarms st) \<Longrightarrow> alarms_ok (rs_alarms (fold (evalCandidate E now tbs info type src) ids st))"
  by (induction ids arbitrary: st) (simp_all add: alarms_ok_evalCandidate)

lemma alarms_ok_list [simp]: "alarms_ok (s\<lparr>listAlarmData := l\<rparr>) = alarms_ok s"
  by (simp add: alarms_ok_def)

lemma alarms_ok_updata:
  "alarms_ok (rs_alarms st) \<Longrightarrow> alarms_ok (rs_alarms (updataAlarmTrackToDB E now tbs info type src ids st))"
  by (simp add: updataAlarmTrackToDB_def Let_def alarms_ok_batch)

lemma updata_alarms:
  "mapAlarmData (rs_alarms (updataAlarmTrackToDB E now tbs info type src ids st)) =
   mapAlarmData (rs_alarms (fold (evalCandidate E now tbs info type src) ids
     (st\<lparr>rs_alarms := (rs_alarms st)\<lparr>listAlarmData := []\<rparr>\<rparr>)))"
  "rs_speedLast (updataAlarmTrackToDB E now tbs info type src ids st) =
   rs_speedLast (fold (evalCandidate E now tbs info type src) ids
     (st\<lparr>rs_alarms := (rs_alarms st)\<lparr>listAlarmData := []\<rparr>\<rparr>))"
  by (simp_all add: updataAlarmTrackToDB_def Let_def)

text \<open>Every alarm after a batch was there before or belongs to a candidate that was let through.\<close>

definition let_through :: "rule_env \<Rightarrow> eval_tables \<Rightarrow> AlarmRule \<Rightarrow> int \<Rightarrow> int \<Rightarrow> int \<Rightarrow> bool" where
  "let_through E tbs info type src tid \<longleftrightarrow>
     type \<le> 3 \<and> blackWhite E info tid \<noteq> NotWhitelisted \<and>
     (\<exists>tr. candidateTrack E tbs type tid = Some tr \<and> \<not> bird_skipped E type src tr)"

lemma batch_provenance:
  assumes "alarms_ok (rs_alarms st)"
    and "map_of (mapAlarmData (rs_alarms (fold (evalCandidate E now tbs info type src) ids st))) k = Some ad"
  shows "map_of (mapAlarmData (rs_alarms st)) k = Some ad \<or>
    (unique_id ad \<in> set ids \<and> 0 < unique_id ad \<and> alarm_time ad = now \<and> \<not> silenced now (unique_id ad) (rs_alarms st)
     \<and> group_id ad = rule_group_id info \<and> area_id ad = rule_area_id info \<and> let_through E tbs info type src (unique_id ad))"
  using assms
proof (induction ids arbitrary: st)
  case (Cons tid ids)
  let ?st = "evalCandidate E now tbs info type src tid st"
  from Cons.IH[of ?st] Cons.prems have
    "map_of (mapAlarmData (rs_alarms ?st)) k = Some ad \<or>
      (unique_id ad \<in> set ids \<and> 0 < unique_id ad \<and> alarm_time ad = now \<and> \<not> silenced now (unique_id ad) (rs_alarms st)
       \<and> group_id ad = rule_group_id info \<and> area_id ad = rule_area_id info \<and> let_through E tbs info type src (unique_id ad))"
    by (simp add: alarms_ok_evalCandidate silenced_evalCandidate)
  then show ?case
  proof
    assume at: "map_of (mapAlarmData (rs_alarms ?st)) k = Some ad"
    show ?thesis
    proof (cases rule: evalCandidate_cases[of E now tbs info type src tid st])
      case unchanged
      with at show ?thesis by simp
    next
      case (saved tr score content)
      then have "let_through E tbs info type src tid" by (auto simp: let_through_def)
      with SaveToDB_provenance[OF Cons.prems(1)] at saved(7) show ?thesis by fastforce
    qed
  qed auto
qed simp

section \<open>The decision\<close>

text \<open>
  C5. The staged evaluation decides exactly the conjunction of the rule's conditions: for a candidate that has a track,
  is not dropped by the bird filter or a no-alarm zone and is on no list, the alarm is saved if and
  only if every enabled condition holds or the rule already has a live alarm of the target; when the rule
  matches, the alarm carries the rule's score, and when it is only kept alive no new evidence is written.
\<close>

theorem rule_decision_exact:
  assumes "type \<le> 3" and "candidateTrack E tbs type tid = Some tr" and "\<not> bird_skipped E type src tr"
    and "in_no_alarm_zone E tr \<longrightarrow> published E now tid st" and "blackWhite E info tid = Unlisted"
    and m: "m = rule_matches E type info tid tr (rs_speedLast st)"
  shows "\<exists>score content.
      rs_alarms (evalCandidate E now tbs info type src tid st) =
        (if m \<or> already E now info tid st
         then fst (SaveToDB (re_logic E) now (rule_save_args E info src tid tr score content (re_uuid E (rs_uuids st)))
                (rs_alarms st))
         else rs_alarms st)
      \<and> (m \<longrightarrow> score = rule_score E info tr) \<and> (\<not> m \<longrightarrow> content = [])"
proof -
  obtain score content where c:
    "rs_alarms (evalConditions E now info type src tid tr st) =
       (if rule_matches E type info tid tr (rs_speedLast st) \<or> already E now info tid st
        then fst (SaveToDB (re_logic E) now (rule_save_args E info src tid tr score content (re_uuid E (rs_uuids st)))
               (rs_alarms st))
        else rs_alarms st)"
    "rule_matches E type info tid tr (rs_speedLast st) \<Longrightarrow> score = rule_score E info tr"
    "\<not> rule_matches E type info tid tr (rs_speedLast st) \<Longrightarrow> content = []"
    by (rule evalConditions_alarms) blast
  have e: "evalCandidate E now tbs info type src tid st = evalConditions E now info type src tid tr st"
    using assms(1-5) by (auto simp: evalCandidate_def evalTrack_def)
  show ?thesis using c by (intro exI[of _ score] exI[of _ content]) (simp add: e m)
qed

text \<open>A small environment, on which the witnesses compute.\<close>

definition no_detection :: DetectionTypeResult where
  "no_detection = \<lparr>det_found = False, det_final = [], det_llm = [], det_cam = [], det_uav = []\<rparr>"

definition sample_content_env :: content_env where
  "sample_content_env = \<lparr>ce_text = ascii_text, ce_detect = (\<lambda>_. no_detection), ce_metadata = (\<lambda>_. None),
     ce_hasMulti = (\<lambda>_. False), ce_dict = [], ce_targetTypes = [], ce_params = [], ce_fixed1 = (\<lambda>_. []),
     ce_json = (\<lambda>_. qs ''{}'')\<rparr>"

definition rules_env :: rule_env where
  "rules_env = \<lparr>re_logic = default_logic, re_content = sample_content_env, re_qarea = sample_qt_area, re_areas = [],
     re_filters = [(8, \<lparr>black_white_attr = 0, affiliation_attr = 1, corp_attr = 0\<rparr>)], re_protect = [],
     re_uuid = (\<lambda>n. ''u'' @ dec n), re_unset_track = zero_track, re_unset_type = 0, re_unset_behavior = 0\<rparr>"

definition fast_rule :: AlarmRule where
  "fast_rule = default_rule\<lparr>rule_condition_id := ''fast'', rule_speed_condition := 2, rule_speed := 10\<rparr>"

definition slow_rule :: AlarmRule where
  "slow_rule = default_rule\<lparr>rule_condition_id := ''slow'', rule_speed_condition := 1, rule_speed := 10\<rparr>"

definition moving :: "real \<Rightarrow> SPxTrack" where
  "moving v = zero_track\<lparr>speedMps := v\<rparr>"

definition one_track :: "int \<Rightarrow> real \<Rightarrow> eval_tables" where
  "one_track tid v = \<lparr>et_fuse = [(tid, moving v)], et_radar = [(tid, moving v)], et_bird = []\<rparr>"

definition fresh_rules :: rule_state where
  "fresh_rules = \<lparr>rs_alarms = empty_state, rs_speedLast = [], rs_uuids = 0, rs_ops = [], rs_areaAlarms = []\<rparr>"

lemmas sample_rule_defs = rules_env_def sample_content_env_def no_detection_def fast_rule_def slow_rule_def moving_def
  one_track_def fresh_rules_def default_rule_def default_logic_def zero_track_def

lemma sample_pass:
  assumes "0 < tid" "tid < 2147483648"
  shows "candidateTrack rules_env (one_track tid v) 0 tid = Some (moving v)"
    "candidateTrack rules_env (one_track tid v) 1 tid = Some (moving v)"
    "bird_skipped rules_env 0 src tr = False" "bird_skipped rules_env 1 src tr = False"
    "in_no_alarm_zone rules_env tr = False"
    "tid \<noteq> 8 \<Longrightarrow> blackWhite rules_env info tid = Unlisted"
  using assms
  by (simp_all add: candidateTrack_def findByAnyId_def one_track_def bird_skipped_def in_no_alarm_zone_def rules_env_def
      default_logic_def blackWhite_def targetInfo_def filterLookupKey_def)

lemma sample_matches:
  "rule_matches rules_env 1 fast_rule tid (moving v) mem = (10 < v)"
  "rule_matches rules_env 0 fast_rule tid (moving v) mem = (10 < v \<and> map_of mem tid = Some True)"
  "rule_matches rules_env 0 slow_rule tid (moving v) mem = (v < 10 \<and> map_of mem tid = Some True)"
proof -
  have t: "targetInfo rules_env tid = None \<or> targetInfo rules_env tid = Some \<lparr>black_white_attr = 0, affiliation_attr = 1, corp_attr = 0\<rparr>"
    by (simp add: targetInfo_def rules_env_def)
  then have a: "attributes_ok rules_env fast_rule tid" "attributes_ok rules_env slow_rule tid"
    by (auto simp: attributes_ok_def fast_rule_def slow_rule_def default_rule_def)
  have c: "checked_angle rules_env r (moving v) = 0" if "re_protect rules_env = []" for r
    using that by (simp add: checked_angle_def protect_last_def protect_circles_def moving_def zero_track_def)
  have p: "re_protect rules_env = []" by (simp add: rules_env_def)
  show "rule_matches rules_env 1 fast_rule tid (moving v) mem = (10 < v)"
    "rule_matches rules_env 0 fast_rule tid (moving v) mem = (10 < v \<and> map_of mem tid = Some True)"
    "rule_matches rules_env 0 slow_rule tid (moving v) mem = (v < 10 \<and> map_of mem tid = Some True)"
    using a c[OF p]
    by (auto simp: rule_matches_def speed_matches_def currentSpeedCheck_def sector_matches_def circle_matches_def
        protect_centre_def protect_last_def protect_circles_def p threat_matches_def needs_detection_def
        fast_rule_def slow_rule_def default_rule_def moving_def zero_track_def rules_env_def default_logic_def)
qed

lemma fresh_rules_quiet: "already E now info tid fresh_rules = False" "alarms_ok (rs_alarms fresh_rules)"
  "silenced now tid (rs_alarms fresh_rules) = False"
  by (simp_all add: fresh_rules_def empty_state_def trackAlreadyHasAlarm_def alarms_ok_empty[unfolded empty_state_def]
      silenced_def)

theorem rule_decision_exact_witness:
  "\<exists>content. rs_alarms (evalCandidate rules_env 0 (one_track 7 20) fast_rule 1 0 7 fresh_rules) =
     fst (SaveToDB default_logic 0 (rule_save_args rules_env fast_rule 0 7 (moving 20) 90 content (''u'' @ dec 0))
       empty_state)"
proof -
  have seven: "0 < (7::int)" "(7::int) < 2147483648" by simp_all
  note p = sample_pass[OF seven]
  from rule_decision_exact[of 1 rules_env "one_track 7 20" 7 "moving 20" 0 0 fresh_rules fast_rule, OF _ _ _ _ _ refl]
  have "\<exists>score content. rs_alarms (evalCandidate rules_env 0 (one_track 7 20) fast_rule 1 0 7 fresh_rules) =
        fst (SaveToDB (re_logic rules_env) 0 (rule_save_args rules_env fast_rule 0 7 (moving 20) score content
              (re_uuid rules_env (rs_uuids fresh_rules))) (rs_alarms fresh_rules))
      \<and> score = rule_score rules_env fast_rule (moving 20)"
    by (simp add: p sample_matches)
  moreover have "rule_score rules_env fast_rule (moving 20) = 90"
    by (simp add: rule_score_def sample_rule_defs)
  ultimately show ?thesis by (auto simp: rules_env_def fresh_rules_def)
qed

text \<open>
  A running alarm is kept: while a rule has a live alarm of a target, every further evaluation of that target
  refreshes an alarm of the target (one more count, the present time), whether or not the rule's
  conditions still hold; when they do not, the evidence of the alarm is left as it was.
\<close>

theorem running_alarm_is_kept:
  assumes ok: "alarms_ok (rs_alarms st)" and "type \<le> 3" and "candidateTrack E tbs type tid = Some tr"
    and "\<not> bird_skipped E type src tr" and "in_no_alarm_zone E tr \<longrightarrow> published E now tid st"
    and "blackWhite E info tid = Unlisted" and al: "already E now info tid st"
    and t: "0 < tid" and quiet: "\<not> silenced now tid (rs_alarms st)"
    and win: "trackAlreadyHasAlarmWindowMs (re_logic E) \<le> dedupSameAlarmWindowMs (re_logic E)"
  shows "\<exists>k old ad. map_of (mapAlarmData (rs_alarms st)) k = Some old \<and> unique_id old = tid
    \<and> map_of (mapAlarmData (rs_alarms (evalCandidate E now tbs info type src tid st))) k = Some ad
    \<and> unique_id ad = tid \<and> alarm_time ad = now \<and> alarm_count ad = alarm_count old + 1
    \<and> (\<not> rule_matches E type info tid tr (rs_speedLast st) \<longrightarrow> alarm_content ad = alarm_content old)"
proof -
  from rule_decision_exact[OF assms(2-6) refl] al obtain score content where
    ev: "rs_alarms (evalCandidate E now tbs info type src tid st) =
      fst (SaveToDB (re_logic E) now (rule_save_args E info src tid tr score content (re_uuid E (rs_uuids st))) (rs_alarms st))"
    and c: "\<not> rule_matches E type info tid tr (rs_speedLast st) \<Longrightarrow> content = []"
    by auto
  let ?a = "rule_save_args E info src tid tr score content (re_uuid E (rs_uuids st))"
  from al obtain k ad where ad: "(k, ad) \<in> set (mapAlarmData (rs_alarms st))" "condition_id ad = rule_condition_id info"
    "unique_id ad = tid" "now - alarm_time ad < trackAlreadyHasAlarmWindowMs (re_logic E)"
    by (auto simp: trackAlreadyHasAlarm_def list_ex_iff)
  have "dedup_scan (re_logic E) ?a now (mapAlarmData (rs_alarms st)) \<noteq> None"
  proof
    assume "dedup_scan (re_logic E) ?a now (mapAlarmData (rs_alarms st)) = None"
    moreover have "ad \<in> snd ` set (mapAlarmData (rs_alarms st))" using ad(1) by force
    moreover have "matchesDedupKey (re_logic E) ?a ad" using ad by (simp add: matchesDedupKey_def)
    ultimately show False using ad(4) win by (force simp: dedup_scan_None)
  qed
  with ok show ?thesis
  proof (cases rule: SaveToDB_cases[of "rs_alarms st" ?a now "re_logic E"])
    case skip
    with t quiet show ?thesis by simp
  next
    case (refresh old)
    have "unique_id old = tid" using refresh(5) by (auto simp: matchesDedupKey_def split: if_splits)
    moreover have "content = [] \<Longrightarrow> alarm_content (refreshed_alarm (re_logic E) ?a now old) = alarm_content old"
      by (simp add: refreshed_alarm_def Let_def)
    ultimately show ?thesis
      using refresh(4,7) c by (intro exI[of _ "alarm_id old"] exI[of _ old]
          exI[of _ "refreshed_alarm (re_logic E) ?a now old"]) (auto simp: ev)
  qed simp
qed

definition kept_alarm :: AlarmData where
  "kept_alarm = (new_alarm default_logic (rule_save_args rules_env fast_rule 0 7 (moving 20) 90 (qs ''c'') ''u1'') 0)"

definition kept_state :: rule_state where
  "kept_state = fresh_rules\<lparr>rs_alarms := empty_state\<lparr>mapAlarmData := [(''u1'', kept_alarm)]\<rparr>\<rparr>"

lemma kept_alarm_fields [simp]:
  "alarm_id kept_alarm = ''u1''" "condition_id kept_alarm = ''fast''" "unique_id kept_alarm = 7"
  "alarm_time kept_alarm = 0" "alarm_count kept_alarm = 1" "alarm_status kept_alarm = 0" "alarm_content kept_alarm = qs ''c''"
  by (simp_all add: kept_alarm_def fast_rule_def) (simp add: new_alarm_def)

lemma kept_state_facts:
  "alarms_ok (rs_alarms kept_state)" "already rules_env 50000 fast_rule 7 kept_state"
  "\<not> silenced 50000 7 (rs_alarms kept_state)" "map_of (mapAlarmData (rs_alarms kept_state)) = [''u1'' \<mapsto> kept_alarm]"
  by (simp_all add: kept_state_def alarms_ok_def empty_state_def qm_ok_def trackAlreadyHasAlarm_def silenced_def
      rules_env_def default_logic_def) (simp add: fast_rule_def)

theorem running_alarm_is_kept_witness:
  "\<exists>ad. map_of (mapAlarmData (rs_alarms (evalCandidate rules_env 50000 (one_track 7 5) fast_rule 1 0 7 kept_state))) ''u1''
     = Some ad \<and> alarm_time ad = 50000 \<and> alarm_count ad = 2 \<and> alarm_content ad = qs ''c''"
proof -
  have seven: "0 < (7::int)" "(7::int) < 2147483648" by simp_all
  note p = sample_pass[OF seven]
  have "trackAlreadyHasAlarmWindowMs (re_logic rules_env) \<le> dedupSameAlarmWindowMs (re_logic rules_env)"
    by (simp add: rules_env_def default_logic_def)
  moreover have "\<not> bird_skipped rules_env 1 0 (moving 5)" "blackWhite rules_env fast_rule 7 = Unlisted"
    "in_no_alarm_zone rules_env (moving 5) \<longrightarrow> published rules_env 50000 7 kept_state"
    by (simp_all add: p)
  ultimately show ?thesis
    using running_alarm_is_kept[OF kept_state_facts(1) _ p(2)[of 5] _ _ _ kept_state_facts(2) _ kept_state_facts(3), of 0]
    by (auto simp: p(5) sample_matches kept_state_facts(4) split: if_splits)
qed

section \<open>Batches\<close>

text \<open>
  Every alarm has a cause: after a batch, an alarm was in the table before with the same content, or it
  belongs to a candidate of the batch whose track was found, that no filter and no list dropped, that is not
  silenced at that time, and it carries the rule's group and area and the time of the batch.
\<close>

theorem batch_alarms_have_a_cause:
  assumes "alarms_ok (rs_alarms st)"
    and "map_of (mapAlarmData (rs_alarms (updataAlarmTrackToDB E now tbs info type src ids st))) k = Some ad"
  shows "map_of (mapAlarmData (rs_alarms st)) k = Some ad \<or>
    (unique_id ad \<in> set ids \<and> 0 < unique_id ad \<and> alarm_time ad = now \<and> \<not> silenced now (unique_id ad) (rs_alarms st)
     \<and> group_id ad = rule_group_id info \<and> area_id ad = rule_area_id info \<and> let_through E tbs info type src (unique_id ad))"
  using batch_provenance[of "st\<lparr>rs_alarms := (rs_alarms st)\<lparr>listAlarmData := []\<rparr>\<rparr>" E now tbs info type src ids k ad] assms
  by (simp add: updata_alarms silenced_def)

lemma sample_batch_table:
  "map_of (mapAlarmData (rs_alarms (updataAlarmTrackToDB rules_env 50000 (one_track 7 20) fast_rule 1 0 [7] kept_state))) ''u1''
     \<noteq> None"
proof -
  have e: "fold (evalCandidate rules_env 50000 (one_track 7 20) fast_rule 1 0) [7] (kept_state\<lparr>rs_alarms := (rs_alarms kept_state)\<lparr>listAlarmData := []\<rparr>\<rparr>)
      = evalCandidate rules_env 50000 (one_track 7 20) fast_rule 1 0 7 kept_state"
    by (simp add: kept_state_def empty_state_def)
  show ?thesis
    unfolding updata_alarms e
  proof (cases rule: evalCandidate_cases[of rules_env 50000 "one_track 7 20" fast_rule 1 0 7 kept_state])
    case unchanged
    then show "map_of (mapAlarmData (rs_alarms (evalCandidate rules_env 50000 (one_track 7 20) fast_rule 1 0 7 kept_state))) ''u1'' \<noteq> None"
      using kept_state_facts(4) by simp
  next
    case (saved tr score content)
    let ?a = "rule_save_args rules_env fast_rule 0 7 tr score content (re_uuid rules_env (rs_uuids kept_state))"
    show "map_of (mapAlarmData (rs_alarms (evalCandidate rules_env 50000 (one_track 7 20) fast_rule 1 0 7 kept_state))) ''u1'' \<noteq> None"
      unfolding saved(7)
      by (cases rule: SaveToDB_cases[OF kept_state_facts(1), of ?a 50000 "re_logic rules_env"])
        (simp_all add: kept_state_facts(4))
  qed
qed

theorem batch_alarms_have_a_cause_witness:
  "\<exists>ad. map_of (mapAlarmData (rs_alarms (updataAlarmTrackToDB rules_env 50000 (one_track 7 20) fast_rule 1 0 [7] kept_state))) ''u1''
     = Some ad \<and> (ad = kept_alarm \<or> (unique_id ad = 7 \<and> alarm_time ad = 50000))"
proof -
  obtain ad where "map_of (mapAlarmData (rs_alarms (updataAlarmTrackToDB rules_env 50000 (one_track 7 20) fast_rule 1 0 [7] kept_state))) ''u1'' = Some ad"
    using sample_batch_table by blast
  with batch_alarms_have_a_cause[OF kept_state_facts(1) this] show ?thesis
    by (auto simp: kept_state_facts(4))
qed

text \<open>The alarms of a target that a table has are alarms another table has.\<close>

definition no_more_of :: "int \<Rightarrow> alarm_state \<Rightarrow> alarm_state \<Rightarrow> bool" where
  "no_more_of t s s' \<longleftrightarrow>
     (\<forall>k ad. map_of (mapAlarmData s') k = Some ad \<longrightarrow> unique_id ad = t \<longrightarrow> map_of (mapAlarmData s) k = Some ad)"

lemma published_iff:
  assumes "alarms_ok (rs_alarms st)"
  shows "published E now t st \<longleftrightarrow>
    0 < t \<and> 0 < trackAlreadyHasAlarmWindowMs (re_logic E) \<and>
    (\<exists>k ad. map_of (mapAlarmData (rs_alarms st)) k = Some ad \<and> unique_id ad = t \<and> alarm_status ad \<noteq> 2
       \<and> now - alarm_time ad < trackAlreadyHasAlarmWindowMs (re_logic E))"
proof -
  have "(k, ad) \<in> set (mapAlarmData (rs_alarms st)) \<longleftrightarrow> map_of (mapAlarmData (rs_alarms st)) k = Some ad" for k ad
    using alarms_okD(2)[OF assms] by (simp add: qm_ok_distinct)
  then show ?thesis by (auto simp: trackHasPublishedAlarm_def list_ex_iff)
qed

lemma published_no_more:
  assumes "alarms_ok (rs_alarms st)" "alarms_ok (rs_alarms st')" "no_more_of t (rs_alarms st) (rs_alarms st')"
    "\<not> published E now t st"
  shows "\<not> published E now t st'"
  using assms unfolding published_iff[OF assms(1)] published_iff[OF assms(2)] no_more_of_def by blast

lemma zone_candidate:
  assumes ok: "alarms_ok (rs_alarms st)"
    and zone: "\<forall>tr. candidateTrack E tbs type t = Some tr \<longrightarrow> in_no_alarm_zone E tr" and p: "\<not> published E now t st"
  shows "no_more_of t (rs_alarms st) (rs_alarms (evalCandidate E now tbs info type src tid st))"
proof (cases rule: evalCandidate_cases[of E now tbs info type src tid st])
  case (saved tr score content)
  then have "tid \<noteq> t" using zone p by auto
  with SaveToDB_provenance[OF ok] show ?thesis unfolding no_more_of_def saved(7) by fastforce
qed (simp add: no_more_of_def)

text \<open>
  A no-alarm zone holds: a target whose track lies in a no-alarm group and that has no live published alarm gets none
  from a batch, whatever the rule and whatever else the batch contains.
\<close>

theorem no_alarm_zone_holds:
  assumes "alarms_ok (rs_alarms st)"
    and "\<forall>tr. candidateTrack E tbs type t = Some tr \<longrightarrow> in_no_alarm_zone E tr" and "\<not> published E now t st"
    and "map_of (mapAlarmData (rs_alarms (updataAlarmTrackToDB E now tbs info type src ids st))) k = Some ad"
    and "unique_id ad = t"
  shows "map_of (mapAlarmData (rs_alarms st)) k = Some ad"
proof -
  have "no_more_of t (rs_alarms st') (rs_alarms (fold (evalCandidate E now tbs info type src) ids st'))"
    if "alarms_ok (rs_alarms st')" "\<not> published E now t st'" for st'
    using that
  proof (induction ids arbitrary: st')
    case (Cons tid ids)
    let ?st = "evalCandidate E now tbs info type src tid st'"
    have z: "no_more_of t (rs_alarms st') (rs_alarms ?st)" by (rule zone_candidate[OF Cons.prems(1) assms(2) Cons.prems(2)])
    have ok: "alarms_ok (rs_alarms ?st)" using Cons.prems(1) by (rule alarms_ok_evalCandidate)
    from Cons.IH[OF ok published_no_more[OF Cons.prems(1) ok z Cons.prems(2)]] z show ?case
      by (auto simp: no_more_of_def)
  qed (simp add: no_more_of_def)
  from this[of "st\<lparr>rs_alarms := (rs_alarms st)\<lparr>listAlarmData := []\<rparr>\<rparr>"] assms show ?thesis
    by (simp add: no_more_of_def updata_alarms trackHasPublishedAlarm_def)
qed

definition zone_env :: rule_env where
  "zone_env = rules_env\<lparr>re_logic := default_logic\<lparr>noAlarmGroupIds := [5]\<rparr>,
     re_areas := [(5, [empty_area\<lparr>ar_type := 1\<rparr>])]\<rparr>"

theorem no_alarm_zone_holds_witness:
  "\<not> (\<exists>k ad. map_of (mapAlarmData (rs_alarms
        (updataAlarmTrackToDB zone_env 0 (one_track 7 20) fast_rule 1 0 [7] fresh_rules))) k = Some ad \<and> unique_id ad = 7)"
proof -
  have "in_no_alarm_zone zone_env (moving 20)"
    by (simp add: in_no_alarm_zone_def zone_env_def isTrackInGroupAreaByGroupId_def inArea_def empty_area_def
        rules_env_def sample_qt_area_def moving_def zero_track_def qm_value_def)
  moreover have "candidateTrack zone_env (one_track 7 20) 1 7 = Some (moving 20)"
    by (simp add: candidateTrack_def findByAnyId_def one_track_def)
  moreover have e: "mapAlarmData (rs_alarms fresh_rules) = []" by (simp add: fresh_rules_def empty_state_def)
  moreover have "\<not> published zone_env 0 7 fresh_rules" by (simp add: e trackHasPublishedAlarm_def)
  ultimately show ?thesis
    using no_alarm_zone_holds[OF fresh_rules_quiet(2), of zone_env "one_track 7 20" 1 7 0 fast_rule 0 "[7]"]
    by fastforce
qed

lemma whitelist_ignored:
  fixes w :: int
  defines "u \<equiv> rule_whitelist_judge_update (\<lambda>_. w)"
  shows "speed_matches al type (u info) tid tr mem = speed_matches al type info tid tr mem"
    "sector_matches (u info) a = sector_matches info a"
    "protect_last E (u info) = protect_last E info" "protect_first E (u info) = protect_first E info"
    "protect_radius E (u info) = protect_radius E info" "attributes_ok E (u info) tid = attributes_ok E info tid"
    "needs_detection (u info) = needs_detection info" "detection_ok T type (u info) d = detection_ok T type info d"
    "rule_threat E (u info) tr p a = rule_threat E info tr p a"
  by (simp_all add: u_def speed_matches_def currentSpeedCheck_def sector_matches_def protect_last_def protect_first_def
      protect_circles_def protect_radius_def attributes_ok_def needs_detection_def detection_ok_def rule_threat_def
      params_for_def cong del: if_weak_cong option.case_cong_weak)

lemma whitelist_ignored_geometry:
  "protect_centre E (info\<lparr>rule_whitelist_judge := w\<rparr>) = protect_centre E info"
  "checked_angle E (info\<lparr>rule_whitelist_judge := w\<rparr>) tr = checked_angle E info tr"
  "protect_distance E (info\<lparr>rule_whitelist_judge := w\<rparr>) tr c = protect_distance E info tr c"
  by (simp_all add: protect_centre_def checked_angle_def protect_distance_def whitelist_ignored cong del: if_weak_cong option.case_cong_weak)

lemma rule_matches_whitelist:
  "rule_matches E type (info\<lparr>rule_whitelist_judge := w\<rparr>) tid tr mem = rule_matches E type info tid tr mem"
  by (simp add: rule_matches_def circle_matches_def threat_matches_def whitelist_ignored whitelist_ignored_geometry
      cong del: if_weak_cong option.case_cong_weak)

text \<open>
  Lists: a blacklisted target raises an alarm whatever the other conditions say, while under a whitelist rule a target
  that the filter table lists with another attribute is left alone; a target the table does not
  list at all is not held back by the whitelist and is judged by the conditions like any other.
\<close>

theorem list_verdicts:
  assumes ok: "alarms_ok (rs_alarms st)" and "type \<le> 3" and tr: "candidateTrack E tbs type tid = Some tr"
    and "\<not> bird_skipped E type src tr" and "\<not> in_no_alarm_zone E tr"
    and t: "0 < tid" "\<not> silenced now tid (rs_alarms st)"
    and v: "v = blackWhite E info tid"
  shows "(v = Blacklisted \<longrightarrow>
      (\<exists>k ad. map_of (mapAlarmData (rs_alarms (evalCandidate E now tbs info type src tid st))) k = Some ad
         \<and> unique_id ad = tid \<and> alarm_time ad = now))
    \<and> (v = NotWhitelisted \<longrightarrow> evalCandidate E now tbs info type src tid st = st)
    \<and> (targetInfo E tid = None \<and> rule_matches E type info tid tr (rs_speedLast st) \<longrightarrow>
      (\<exists>k ad. map_of (mapAlarmData (rs_alarms (evalCandidate E now tbs info type src tid st))) k = Some ad
         \<and> unique_id ad = tid \<and> alarm_time ad = now))"
proof -
  have e: "evalCandidate E now tbs info type src tid st = evalTrack E now info type src tid tr st"
    using assms(2,3) by (simp add: evalCandidate_def)
  have raised: "\<exists>k ad. map_of (mapAlarmData (fst (SaveToDB al now (rule_save_args E info src tid tr score content u) (rs_alarms st)))) k
      = Some ad \<and> unique_id ad = tid \<and> alarm_time ad = now" for al score content u
  proof -
    let ?a = "rule_save_args E info src tid tr score content u"
    have "0 < sv_targetId ?a" "\<not> silenced now (sv_targetId ?a) (rs_alarms st)" using t by simp_all
    then obtain k ad where "map_of (mapAlarmData (fst (SaveToDB al now ?a (rs_alarms st)))) k = Some ad"
      "unique_id ad = sv_targetId ?a" "alarm_time ad = now"
      by (rule SaveToDB_raises[OF ok])
    then show ?thesis by auto
  qed
  have 1: "\<exists>k ad. map_of (mapAlarmData (rs_alarms (evalCandidate E now tbs info type src tid st))) k = Some ad
         \<and> unique_id ad = tid \<and> alarm_time ad = now" if "v = Blacklisted"
    using that assms(4,5) raised by (simp add: e evalTrack_def v[symmetric])
  have 2: "evalCandidate E now tbs info type src tid st = st" if "v = NotWhitelisted"
    using that assms(4,5) by (simp add: e evalTrack_def v[symmetric])
  have 3: "\<exists>k ad. map_of (mapAlarmData (rs_alarms (evalCandidate E now tbs info type src tid st))) k = Some ad
         \<and> unique_id ad = tid \<and> alarm_time ad = now"
    if "targetInfo E tid = None" "rule_matches E type info tid tr (rs_speedLast st)"
  proof -
    have "blackWhite E info tid = Unlisted" using that by (simp add: blackWhite_def)
    from rule_decision_exact[OF assms(2) tr assms(4) _ this refl, of now st] assms(5) that(2) obtain score content where
      "rs_alarms (evalCandidate E now tbs info type src tid st) =
         fst (SaveToDB (re_logic E) now (rule_save_args E info src tid tr score content (re_uuid E (rs_uuids st))) (rs_alarms st))"
      by auto
    then show ?thesis using raised by simp
  qed
  show ?thesis using 1 2 3 by blast
qed

theorem list_verdicts_witness:
  "(\<exists>k ad. map_of (mapAlarmData (rs_alarms
       (evalCandidate rules_env 0 (one_track 7 20) (fast_rule\<lparr>rule_whitelist_judge := 1\<rparr>) 1 0 7 fresh_rules))) k = Some ad
     \<and> unique_id ad = 7)
   \<and> evalCandidate rules_env 0 (one_track 8 20) (fast_rule\<lparr>rule_whitelist_judge := 1\<rparr>) 1 0 8 fresh_rules = fresh_rules"
proof -
  have seven: "0 < (7::int)" "(7::int) < 2147483648" and eight: "0 < (8::int)" "(8::int) < 2147483648" by simp_all
  note p = sample_pass[OF seven] and q = sample_pass[OF eight]
  let ?r = "fast_rule\<lparr>rule_whitelist_judge := 1\<rparr>"
  have m: "rule_matches rules_env 1 ?r 7 (moving 20) (rs_speedLast fresh_rules)"
    by (simp add: rule_matches_whitelist sample_matches)
  have n: "targetInfo rules_env 7 = None" by (simp add: targetInfo_def filterLookupKey_def rules_env_def)
  have a: "\<exists>k ad. map_of (mapAlarmData (rs_alarms
       (evalCandidate rules_env 0 (one_track 7 20) ?r 1 0 7 fresh_rules))) k = Some ad \<and> unique_id ad = 7"
    using list_verdicts[OF fresh_rules_quiet(2) _ p(2)[of 20] _ _ _ _ refl, where info = ?r and now = 0 and src = 0] m n by (auto simp: p fresh_rules_quiet)
  have "blackWhite rules_env ?r 8 = NotWhitelisted"
    by (simp add: blackWhite_def targetInfo_def filterLookupKey_def rules_env_def fast_rule_def)
  then have "evalCandidate rules_env 0 (one_track 8 20) ?r 1 0 8 fresh_rules = fresh_rules"
    using list_verdicts[OF fresh_rules_quiet(2) _ q(2)[of 20] _ _ _ _ refl, where info = ?r and now = 0 and src = 0] by (auto simp: q fresh_rules_quiet)
  with a show ?thesis by blast
qed

end
