(* ===== verification/Alarm_Confirm.thy ===== *)
theory Alarm_Confirm
  imports Alarm_Store
begin

text \<open>
  Manual confirmation of a target (\<open>CustomConfig::confirmAlarmByUniqueId\<close>) and the upkeep
  of manual alarms before they are published (\<open>syncManualAlarmsBeforePublish\<close>), with the
  track lookup they share.  The text of a manual alarm (\<open>buildManualAlarmContent\<close>) is
  the parameter \<open>content\<close>.
\<close>

section \<open>Helpers of \<open>customconfig.cpp\<close>\<close>

definition legacyDdsTrackId :: "int \<Rightarrow> int" where
  "legacyDdsTrackId targetId =
     (if targetId \<le> 0 then 0
      else if targetId > 2147483647 then to_i32 (targetId mod 2 ^ 31)
      else to_i32 targetId)"

text \<open>The track tables a confirmation searches; the two radar tables have \<open>int\<close> keys.\<close>

record track_tables =
  tt_birdFuse :: track_map
  tt_birdRadar :: track_map
  tt_fuse :: track_map
  tt_radar :: track_map

type_synonym track_hit = "(SPxTrack \<times> bool) option"

definition tryMap :: "track_map \<Rightarrow> bool \<Rightarrow> int \<Rightarrow> track_hit \<Rightarrow> track_hit" where
  "tryMap m isAir uid hit =
     (if hit \<noteq> None then hit
      else case map_of m uid of Some t \<Rightarrow> Some (t, isAir) | None \<Rightarrow> None)"

definition tryMapInt :: "track_map \<Rightarrow> bool \<Rightarrow> int \<Rightarrow> track_hit \<Rightarrow> track_hit" where
  "tryMapInt m isAir uid hit = (if hit \<noteq> None \<or> uid > 2147483647 then hit else tryMap m isAir uid hit)"

definition scanBySecondaryUniqueId :: "track_map \<Rightarrow> bool \<Rightarrow> int \<Rightarrow> track_hit \<Rightarrow> track_hit" where
  "scanBySecondaryUniqueId m isAir uid hit =
     (if hit \<noteq> None then hit
      else case find (\<lambda>p. uniqueID (snd p) = uid) m of Some p \<Rightarrow> Some (snd p, isAir) | None \<Rightarrow> None)"

definition scanBySecondaryUniqueIdInt :: "track_map \<Rightarrow> bool \<Rightarrow> int \<Rightarrow> track_hit \<Rightarrow> track_hit" where
  "scanBySecondaryUniqueIdInt m isAir uid hit =
     (if hit \<noteq> None \<or> uid > 2147483647 then hit else scanBySecondaryUniqueId m isAir uid hit)"

definition findTrackByUniqueId :: "track_tables \<Rightarrow> int \<Rightarrow> track_hit" where
  "findTrackByUniqueId cfg uid =
     (if uid \<le> 0 then None
      else let h1 = tryMap (tt_birdFuse cfg) True uid None;
               h2 = tryMapInt (tt_birdRadar cfg) True uid h1;
               h3 = tryMap (tt_fuse cfg) False uid h2;
               h4 = tryMapInt (tt_radar cfg) False uid h3;
               h5 = scanBySecondaryUniqueId (tt_birdFuse cfg) True uid h4;
               h6 = scanBySecondaryUniqueIdInt (tt_birdRadar cfg) True uid h5;
               h7 = scanBySecondaryUniqueId (tt_fuse cfg) False uid h6
           in scanBySecondaryUniqueIdInt (tt_radar cfg) False uid h7)"

definition effectiveUniqueIdFromTrackHit :: "track_hit \<Rightarrow> int \<Rightarrow> int" where
  "effectiveUniqueIdFromTrackHit hit requestUniqueId =
     (case hit of
        None \<Rightarrow> requestUniqueId
      | Some (t, _) \<Rightarrow> if uniqueID t > 0 then uniqueID t else requestUniqueId)"

definition manual_id :: "int \<Rightarrow> string" where
  "manual_id uid = ''manual-'' @ dec_int uid"

definition confirm_floor :: "int \<Rightarrow> int" where
  "confirm_floor defaultThreat = (if defaultThreat > 0 then defaultThreat else 90)"

definition buildManualAlarmDataFromTrack :: "int \<Rightarrow> SPxTrack \<Rightarrow> int \<Rightarrow> int \<Rightarrow> AlarmData option \<Rightarrow> AlarmData" where
  "buildManualAlarmDataFromTrack now trk uid defaultThreat existing =
     \<lparr>alarm_id = manual_id uid, condition_id = ''manual_confirm'', mode_id = 1, track_id = 0, unique_id = uid,
      targettype = (case existing of Some e \<Rightarrow> targettype e | None \<Rightarrow> 0), targetbehavior = 0,
      targetdist = rangeMetres trk / 1852, targetlon = longDegs trk, targetlat = latDegs trk,
      targetspeed = speedMps trk, targetdir = courseDegrees trk, alarm_time = now,
      origintime = (case existing of Some e \<Rightarrow> origintime e | None \<Rightarrow> now),
      alarm_status = 0, alarm_count = (case existing of Some e \<Rightarrow> alarm_count e + 1 | None \<Rightarrow> 1),
      group_id = 0, area_id = 0,
      threatScore = max (case existing of Some e \<Rightarrow> threatScore e | None \<Rightarrow> 0) (confirm_floor defaultThreat),
      task_status = 0, alarm_content = [],
      threat_time_ms = (case existing of
          Some e \<Rightarrow> if threat_time_ms e > 0 then threat_time_ms e else now | None \<Rightarrow> now)\<rparr>"

section \<open>\<open>syncManualAlarmsBeforePublish\<close>\<close>

type_synonym content_fun = "int \<Rightarrow> bool \<Rightarrow> real \<Rightarrow> real \<Rightarrow> qstring"

fun sync_loop :: "AlarmLogicConfig \<Rightarrow> content_fun \<Rightarrow> int \<Rightarrow> track_tables \<Rightarrow> (string, AlarmData) qmap
    \<Rightarrow> (int, bool) qmap \<Rightarrow> (string, AlarmData) qmap \<times> (int, bool) qmap" where
  "sync_loop al content now cfg [] air = ([], air)"
| "sync_loop al content now cfg ((k, prev) # rest) air =
     (let uid = unique_id prev in
      case findTrackByUniqueId cfg uid of
        None \<Rightarrow>
          (if alarm_time prev > 0 \<and> now - alarm_time prev > 600 * 1000
           then sync_loop al content now cfg rest (qm_remove uid air)
           else (let (m, a) = sync_loop al content now cfg rest air in ((k, prev) # m, a)))
      | Some (trk, isAir) \<Rightarrow>
          (let u1 = buildManualAlarmDataFromTrack now trk uid (defaultThreatScore al) (Some prev);
               u2 = u1\<lparr>alarm_count := alarm_count prev, origintime := origintime prev,
                       threat_time_ms := threat_time_ms prev\<rparr>;
               u3 = u2\<lparr>alarm_content := content uid isAir (targetspeed u2) (targetdir u2)\<rparr>;
               (m, a) = sync_loop al content now cfg rest (qm_insert uid isAir air)
           in ((k, u3) # m, a)))"

definition syncManualAlarmsBeforePublish :: "AlarmLogicConfig \<Rightarrow> content_fun \<Rightarrow> int \<Rightarrow> track_tables
    \<Rightarrow> alarm_state \<Rightarrow> alarm_state" where
  "syncManualAlarmsBeforePublish al content now cfg s =
     (let (m, a) = sync_loop al content now cfg (manualAlarmData s) (manualAlarmAirTrack s)
      in s\<lparr>manualAlarmData := m, manualAlarmAirTrack := a\<rparr>)"

section \<open>\<open>confirmAlarmByUniqueId\<close>\<close>

record track_hint =
  hint_lat :: real
  hint_lon :: real
  hint_speed :: real
  hint_course :: real
  hint_air :: bool

text \<open>The loop over the rule alarms: raise the score to the floor and stamp the time the
  identification was resolved, once; returns the new table, the stamps, the evaluation writes
  and whether a rule alarm was found.\<close>

fun confirm_loop :: "AlarmLogicConfig \<Rightarrow> int \<Rightarrow> int \<Rightarrow> int \<Rightarrow> (string, AlarmData) qmap
    \<Rightarrow> (string, int) qmap \<Rightarrow> (string, AlarmData) qmap \<times> (string, int) qmap \<times> db_op list \<times> bool" where
  "confirm_loop al now uid stamp [] res = ([], res, [], False)"
| "confirm_loop al now uid stamp ((k, ad) # rest) res =
     (if unique_id ad \<noteq> uid
      then (let (m, r, ops, had) = confirm_loop al now uid stamp rest res in ((k, ad) # m, r, ops, had))
      else (let ad1 = (if threatScore ad < confirm_floor (defaultThreatScore al)
                       then ad\<lparr>threatScore := confirm_floor (defaultThreatScore al)\<rparr> else ad)
            in if qm_contains res (alarm_id ad)
               then (let (m, r, ops, had) = confirm_loop al now uid stamp rest res in ((k, ad1) # m, r, ops, True))
               else (let (m, r, ops, had) = confirm_loop al now uid stamp rest (qm_insert (alarm_id ad) stamp res)
                     in ((k, ad1) # m, r,
                         (if saveAlarmToDb al \<noteq> 0
                          then DbEvaluation (alarm_id ad) uid (threat_time_ms ad) now # ops else ops), True))))"

definition mark_confirmed :: "int \<Rightarrow> int \<Rightarrow> alarm_state \<Rightarrow> alarm_state" where
  "mark_confirmed now uid s =
     s\<lparr>manualConfirmedUniqueIds := insert uid (manualConfirmedUniqueIds s),
       manualConfirmResolvedTime := (if qm_contains (manualConfirmResolvedTime s) uid
         then manualConfirmResolvedTime s else qm_insert uid now (manualConfirmResolvedTime s))\<rparr>"

definition hint_track :: "int \<Rightarrow> int \<Rightarrow> track_hint \<Rightarrow> SPxTrack" where
  "hint_track now uid h =
     (let t = zero_track\<lparr>latDegs := hint_lat h, longDegs := hint_lon h, speedMps := hint_speed h,
                courseDegrees := hint_course h\<rparr>;
          t1 = (if uid \<le> 4294967295 then t\<lparr>uniqueID := to_u32 uid\<rparr> else t)
      in t1\<lparr>msgTimeSecs := to_u32 (now div 1000)\<rparr>)"

text \<open>The part up to the end of the loop, and the part that makes the manual alarm.\<close>

definition confirm_rules :: "AlarmLogicConfig \<Rightarrow> int \<Rightarrow> int \<Rightarrow> alarm_state \<Rightarrow> alarm_state \<times> db_op list \<times> bool" where
  "confirm_rules al now uid s =
     (let s1 = mark_confirmed now uid (removeAlarmFilterForUniqueId uid s);
          stamp = qm_value (manualConfirmResolvedTime s1) uid 0;
          (m, res, ops, hadRuleAlarm) = confirm_loop al now uid stamp (mapAlarmData s1) (identificationResolvedTime s1)
      in (s1\<lparr>mapAlarmData := m, identificationResolvedTime := res\<rparr>, ops, hadRuleAlarm))"

definition confirm_manual :: "AlarmLogicConfig \<Rightarrow> content_fun \<Rightarrow> int \<Rightarrow> int \<Rightarrow> int \<Rightarrow> SPxTrack \<Rightarrow> bool
    \<Rightarrow> alarm_state \<Rightarrow> alarm_state" where
  "confirm_manual al content now uid storage trk isAir s2 =
     (let s3 = (if storage \<noteq> uid then removeAlarmFilterForUniqueId storage s2 else s2);
          s4 = mark_confirmed now storage s3;
          existing = map_of (manualAlarmData s4) (manual_id storage);
          b = buildManualAlarmDataFromTrack now trk storage (defaultThreatScore al) existing;
          b1 = b\<lparr>alarm_content := content storage isAir (targetspeed b) (targetdir b)\<rparr>
      in s4\<lparr>manualAlarmData := qm_insert (manual_id storage) b1 (manualAlarmData s4),
            manualAlarmAirTrack := qm_insert storage isAir (manualAlarmAirTrack s4)\<rparr>)"

definition confirm_hit :: "int \<Rightarrow> track_tables \<Rightarrow> track_hint option \<Rightarrow> int \<Rightarrow> track_hit" where
  "confirm_hit now cfg hint uid =
     (if findTrackByUniqueId cfg uid \<noteq> None then findTrackByUniqueId cfg uid
      else case hint of Some h \<Rightarrow> Some (hint_track now uid h, hint_air h) | None \<Rightarrow> None)"

definition confirmAlarmByUniqueId :: "AlarmLogicConfig \<Rightarrow> content_fun \<Rightarrow> int \<Rightarrow> track_tables \<Rightarrow> track_hint option
    \<Rightarrow> int \<Rightarrow> alarm_state \<Rightarrow> (string + string) \<times> alarm_state \<times> db_op list" where
  "confirmAlarmByUniqueId al content now cfg hint uid s =
     (if uid \<le> 0 then (Inl ''invalid uniqueId'', s, [])
      else case confirm_rules al now uid s of (s2, ops, hadRuleAlarm) \<Rightarrow>
        if hadRuleAlarm then (Inr ''ok'', s2, ops)
        else case confirm_hit now cfg hint uid of
               None \<Rightarrow> (Inl ''track not found for uniqueId (not in fuse/radar map)'', s2, ops)
             | Some (trk, isAir) \<Rightarrow>
                 (Inr (if findTrackByUniqueId cfg uid = None
                       then ''ok (manual alarm created from client track hint)''
                       else ''ok (manual alarm created for dds)''),
                  confirm_manual al content now uid
                    (effectiveUniqueIdFromTrackHit (Some (trk, isAir)) uid) trk isAir s2, ops))"

section \<open>Facts\<close>

lemma confirm_loop_had: "snd (snd (snd (confirm_loop al now uid stamp m res))) \<longleftrightarrow> list_ex (\<lambda>p. unique_id (snd p) = uid) m"
  by (induction al now uid stamp m res rule: confirm_loop.induct) (simp_all add: Let_def case_prod_beta)

lemma confirm_loop_map:
  "fst (confirm_loop al now uid stamp m res) =
     map (\<lambda>(k, ad). (k, if unique_id ad = uid
            then ad\<lparr>threatScore := max (threatScore ad) (confirm_floor (defaultThreatScore al))\<rparr> else ad)) m"
  by (induction al now uid stamp m res rule: confirm_loop.induct)
    (auto simp: Let_def max_def split: prod.splits)

lemma confirm_loop_res_mono:
  "map_of res x \<noteq> None \<Longrightarrow> map_of (fst (snd (confirm_loop al now uid stamp m res))) x = map_of res x"
  by (induction al now uid stamp m res rule: confirm_loop.induct) (auto simp: Let_def split: prod.splits)

lemma confirm_loop_res:
  "(k, ad) \<in> set m \<Longrightarrow> unique_id ad = uid \<Longrightarrow>
   map_of (fst (snd (confirm_loop al now uid stamp m res))) (alarm_id ad) \<noteq> None"
proof (induction al now uid stamp m res rule: confirm_loop.induct)
  case (2 al now uid stamp k' ad' rest res)
  then show ?case
    using confirm_loop_res_mono[of "qm_insert (alarm_id ad') stamp res" "alarm_id ad" al now uid stamp rest]
      confirm_loop_res_mono[of res "alarm_id ad" al now uid stamp rest]
    by (auto simp: Let_def split: prod.splits if_splits)
qed simp

lemma map_of_map_value: "map_of (map (\<lambda>(k, v). (k, f v)) m) k = map_option f (map_of m k)"
  by (induction m) auto

lemma not_silenced_removed:
  "0 < uid \<Longrightarrow> \<not> silenced now uid (removeAlarmFilterForUniqueId uid s)"
  by (auto simp: silenced_def removeAlarmFilterForUniqueId_def)

lemma silenced_mark [simp]: "silenced now u (mark_confirmed t uid s) = silenced now u s"
  by (simp add: silenced_def mark_confirmed_def)

lemma removeFilter_fields [simp]:
  "mapAlarmData (removeAlarmFilterForUniqueId uid s) = mapAlarmData s"
  "identificationResolvedTime (removeAlarmFilterForUniqueId uid s) = identificationResolvedTime s"
  "manualAlarmData (removeAlarmFilterForUniqueId uid s) = manualAlarmData s"
  "manualConfirmedUniqueIds (removeAlarmFilterForUniqueId uid s) = manualConfirmedUniqueIds s"
  by (simp_all add: removeAlarmFilterForUniqueId_def)

lemma mark_fields [simp]:
  "mapAlarmData (mark_confirmed t uid s) = mapAlarmData s"
  "identificationResolvedTime (mark_confirmed t uid s) = identificationResolvedTime s"
  "manualAlarmData (mark_confirmed t uid s) = manualAlarmData s"
  "manualConfirmedUniqueIds (mark_confirmed t uid s) = insert uid (manualConfirmedUniqueIds s)"
  by (simp_all add: mark_confirmed_def)

lemma silenced_upd [simp]:
  "silenced now u (s\<lparr>mapAlarmData := m\<rparr>) = silenced now u s"
  "silenced now u (s\<lparr>identificationResolvedTime := r\<rparr>) = silenced now u s"
  "silenced now u (s\<lparr>manualAlarmData := m\<rparr>) = silenced now u s"
  "silenced now u (s\<lparr>manualAlarmAirTrack := a\<rparr>) = silenced now u s"
  by (simp_all add: silenced_def)

lemma confirm_rules_facts:
  assumes "0 < uid" "confirm_rules al now uid s = (s2, ops, had)"
  shows "had \<longleftrightarrow> list_ex (\<lambda>p. unique_id (snd p) = uid) (mapAlarmData s)"
    and "mapAlarmData s2 = map (\<lambda>(k, ad). (k, if unique_id ad = uid
            then ad\<lparr>threatScore := max (threatScore ad) (confirm_floor (defaultThreatScore al))\<rparr> else ad)) (mapAlarmData s)"
    and "map_of (mapAlarmData s) j = Some ad \<Longrightarrow> unique_id ad = uid \<Longrightarrow>
            map_of (identificationResolvedTime s2) (alarm_id ad) \<noteq> None"
    and "\<not> silenced now uid s2" and "uid \<in> manualConfirmedUniqueIds s2"
    and "manualAlarmData s2 = manualAlarmData s"
proof -
  let ?s1 = "mark_confirmed now uid (removeAlarmFilterForUniqueId uid s)"
  let ?stamp = "qm_value (manualConfirmResolvedTime ?s1) uid 0"
  let ?l = "confirm_loop al now uid ?stamp (mapAlarmData s) (identificationResolvedTime s)"
  have s2: "s2 = ?s1\<lparr>mapAlarmData := fst ?l, identificationResolvedTime := fst (snd ?l)\<rparr>"
    and had: "had = snd (snd (snd ?l))"
    using assms(2) by (auto simp: confirm_rules_def Let_def case_prod_beta)
  show "had \<longleftrightarrow> list_ex (\<lambda>p. unique_id (snd p) = uid) (mapAlarmData s)"
    unfolding had by (rule confirm_loop_had)
  show "mapAlarmData s2 = map (\<lambda>(k, ad). (k, if unique_id ad = uid
      then ad\<lparr>threatScore := max (threatScore ad) (confirm_floor (defaultThreatScore al))\<rparr> else ad)) (mapAlarmData s)"
    by (simp add: s2 confirm_loop_map)
  show "map_of (mapAlarmData s) j = Some ad \<Longrightarrow> unique_id ad = uid \<Longrightarrow>
      map_of (identificationResolvedTime s2) (alarm_id ad) \<noteq> None"
    using confirm_loop_res[OF map_of_SomeD] by (simp add: s2)
  show "\<not> silenced now uid s2" using not_silenced_removed[OF assms(1)] by (simp add: s2)
  show "uid \<in> manualConfirmedUniqueIds s2" "manualAlarmData s2 = manualAlarmData s" by (simp_all add: s2)
qed

text \<open>
  C27. Confirming a target that has rule alarms succeeds with \<open>ok\<close>: exactly its alarms have their
  score raised to at least the configured floor, every one of them now has a resolution time, the
  target is no longer silenced and is recorded as confirmed; other alarms and all manual alarms are
  untouched.
\<close>

theorem confirm_with_rule_alarm:
  assumes "0 < uid" and "map_of (mapAlarmData s) k0 = Some ad0" and "unique_id ad0 = uid"
    and "confirmAlarmByUniqueId al content now cfg hint uid s = (r, s', ops)"
  shows "r = Inr ''ok'' \<and>
    map_of (mapAlarmData s') k = map_option (\<lambda>ad. if unique_id ad = uid
      then ad\<lparr>threatScore := max (threatScore ad) (confirm_floor (defaultThreatScore al))\<rparr> else ad)
      (map_of (mapAlarmData s) k) \<and>
    (\<forall>j ad. map_of (mapAlarmData s) j = Some ad \<and> unique_id ad = uid \<longrightarrow>
       map_of (identificationResolvedTime s') (alarm_id ad) \<noteq> None) \<and>
    \<not> silenced now uid s' \<and> uid \<in> manualConfirmedUniqueIds s' \<and> manualAlarmData s' = manualAlarmData s"
proof -
  obtain s2 ops2 had where c: "confirm_rules al now uid s = (s2, ops2, had)" by (metis surj_pair)
  note f = confirm_rules_facts[OF assms(1) c]
  have "(k0, ad0) \<in> set (mapAlarmData s)" using assms(2) by (rule map_of_SomeD)
  then have "\<exists>p \<in> set (mapAlarmData s). unique_id (snd p) = uid"
    using assms(3) by (intro bexI[of _ "(k0, ad0)"]) simp_all
  then have had using f(1) by (simp add: list_ex_iff)
  then have e: "r = Inr ''ok''" "s' = s2" using assms(1,4) c by (simp_all add: confirmAlarmByUniqueId_def)
  have "\<forall>j ad. map_of (mapAlarmData s) j = Some ad \<and> unique_id ad = uid \<longrightarrow>
      map_of (identificationResolvedTime s2) (alarm_id ad) \<noteq> None" using f(3) by blast
  then show ?thesis using f(2,4,5,6) by (simp add: e map_of_map_value)
qed

definition no_tracks :: track_tables where
  "no_tracks = \<lparr>tt_birdFuse = [], tt_birdRadar = [], tt_fuse = [], tt_radar = []\<rparr>"

theorem confirm_with_rule_alarm_witness:
  "\<exists>r s' ops. confirmAlarmByUniqueId default_logic (\<lambda>_ _ _ _. []) 2000 no_tracks None 7
     (fst (SaveToDB default_logic 1000 (sample_save 7 ''a'') empty_state)) = (r, s', ops) \<and>
     threatScore (the (map_of (mapAlarmData s') ''a'')) = 90"
proof -
  let ?s = "fst (SaveToDB default_logic 1000 (sample_save 7 ''a'') empty_state)"
  let ?n = "new_alarm default_logic (sample_save 7 ''a'') 1000"
  have 1: "map_of (mapAlarmData ?s) ''a'' = Some ?n" unfolding one_save_map by simp
  have 2: "unique_id ?n = 7" by (simp add: sample_save_def)
  have 3: "threatScore ?n = 60" by (simp add: new_alarm_def sample_save_def)
  obtain r s' ops where c: "confirmAlarmByUniqueId default_logic (\<lambda>_ _ _ _. []) 2000 no_tracks None 7 ?s = (r, s', ops)"
    by (metis surj_pair)
  have "map_of (mapAlarmData s') ''a'' = Some (?n\<lparr>threatScore := 90\<rparr>)"
    using confirm_with_rule_alarm[OF _ 1 2 c, of "''a''"] 1 2 3
    by (simp add: confirm_floor_def default_logic_def)
  with c show ?thesis by auto
qed

lemma confirm_manual_facts:
  assumes "0 < storage" "\<not> silenced now uid s2" "uid \<in> manualConfirmedUniqueIds s2"
    and "s' = confirm_manual al content now uid storage trk isAir s2"
  shows "\<exists>ad. map_of (manualAlarmData s') (manual_id storage) = Some ad \<and> unique_id ad = storage \<and>
      alarm_status ad = 0 \<and> confirm_floor (defaultThreatScore al) \<le> threatScore ad \<and>
      alarm_count ad = (case map_of (manualAlarmData s2) (manual_id storage) of
         Some e \<Rightarrow> alarm_count e + 1 | None \<Rightarrow> 1)"
    and "\<not> silenced now uid s' \<and> \<not> silenced now storage s'"
    and "{uid, storage} \<subseteq> manualConfirmedUniqueIds s'"
proof -
  have keep: "\<not> silenced now uid (removeAlarmFilterForUniqueId storage s2)"
    using assms(2) by (auto simp: silenced_def removeAlarmFilterForUniqueId_def split: if_splits)
  show "\<not> silenced now uid s' \<and> \<not> silenced now storage s'"
    using assms(2,4) keep not_silenced_removed[OF assms(1), of now s2] by (auto simp: confirm_manual_def Let_def)
  show "{uid, storage} \<subseteq> manualConfirmedUniqueIds s'"
    using assms(3,4) by (auto simp: confirm_manual_def Let_def)
  show "\<exists>ad. map_of (manualAlarmData s') (manual_id storage) = Some ad \<and> unique_id ad = storage \<and>
      alarm_status ad = 0 \<and> confirm_floor (defaultThreatScore al) \<le> threatScore ad \<and>
      alarm_count ad = (case map_of (manualAlarmData s2) (manual_id storage) of
         Some e \<Rightarrow> alarm_count e + 1 | None \<Rightarrow> 1)"
    using assms(4) by (auto simp: confirm_manual_def Let_def buildManualAlarmDataFromTrack_def)
qed

text \<open>
  A confirmation without a rule alarm: a target found in a track table (or, failing that,
  described by the client's hint) gets a manual alarm under its id, with a score of at least the
  floor and a count one higher than the manual alarm it replaces, and is neither silenced nor
  forgotten as confirmed.
\<close>

theorem confirm_creates_manual_alarm:
  assumes "0 < uid" and "\<not> list_ex (\<lambda>p. unique_id (snd p) = uid) (mapAlarmData s)"
    and "confirm_hit now cfg hint uid = Some (trk, isAir)"
    and "storage = effectiveUniqueIdFromTrackHit (Some (trk, isAir)) uid"
    and "confirmAlarmByUniqueId al content now cfg hint uid s = (r, s', ops)"
  shows "(\<exists>msg. r = Inr msg) \<and> (\<exists>ad. map_of (manualAlarmData s') (manual_id storage) = Some ad \<and>
      unique_id ad = storage \<and> alarm_status ad = 0 \<and> confirm_floor (defaultThreatScore al) \<le> threatScore ad \<and>
      alarm_count ad = (case map_of (manualAlarmData s) (manual_id storage) of
         Some e \<Rightarrow> alarm_count e + 1 | None \<Rightarrow> 1)) \<and>
    \<not> silenced now uid s' \<and> \<not> silenced now storage s' \<and> {uid, storage} \<subseteq> manualConfirmedUniqueIds s'"
proof -
  obtain s2 ops2 had where c: "confirm_rules al now uid s = (s2, ops2, had)" by (metis surj_pair)
  note f = confirm_rules_facts[OF assms(1) c]
  have sp: "0 < storage" using assms(1,4) by (simp add: effectiveUniqueIdFromTrackHit_def)
  have e: "\<exists>msg. r = Inr msg" "s' = confirm_manual al content now uid storage trk isAir s2"
    using assms(1,2,3,4,5) c f(1) by (auto simp: confirmAlarmByUniqueId_def)
  show ?thesis using confirm_manual_facts[OF sp f(4,5) e(2)] e(1) f(6) by simp
qed

definition sample_hint :: track_hint where
  "sample_hint = \<lparr>hint_lat = 30, hint_lon = 121, hint_speed = 4, hint_course = 10, hint_air = True\<rparr>"

theorem confirm_creates_manual_alarm_witness:
  "\<exists>r s' ops ad. confirmAlarmByUniqueId default_logic (\<lambda>_ _ _ _. []) 2000 no_tracks (Some sample_hint) 7 empty_state = (r, s', ops) \<and>
     map_of (manualAlarmData s') (manual_id 7) = Some ad \<and> alarm_count ad = 1 \<and> 90 \<le> threatScore ad"
proof -
  obtain r s' ops where c: "confirmAlarmByUniqueId default_logic (\<lambda>_ _ _ _. []) 2000 no_tracks (Some sample_hint) 7 empty_state
      = (r, s', ops)" by (metis surj_pair)
  have h: "confirm_hit 2000 no_tracks (Some sample_hint) 7 = Some (hint_track 2000 7 sample_hint, True)"
    by (simp add: confirm_hit_def findTrackByUniqueId_def no_tracks_def tryMap_def tryMapInt_def
        scanBySecondaryUniqueId_def scanBySecondaryUniqueIdInt_def sample_hint_def)
  have u: "effectiveUniqueIdFromTrackHit (Some (hint_track 2000 7 sample_hint, True)) 7 = 7"
    by (simp add: effectiveUniqueIdFromTrackHit_def hint_track_def)
  have l: "\<not> list_ex (\<lambda>p. unique_id (snd p) = 7) (mapAlarmData empty_state)" by (simp add: empty_state_def)
  from confirm_creates_manual_alarm[OF _ l h u[symmetric] c] c show ?thesis
    by (auto simp: confirm_floor_def default_logic_def empty_state_def)
qed

text \<open>
  A refused confirmation is not without effect: when the target has no rule alarm, no track
  and no hint, the call answers false, yet the target's silence is lifted and it is recorded as
  confirmed from then on; only a non-positive id changes nothing.
\<close>

theorem refused_confirmation_lifts_silence:
  assumes "\<not> list_ex (\<lambda>p. unique_id (snd p) = uid) (mapAlarmData s)" and "findTrackByUniqueId cfg uid = None"
    and "confirmAlarmByUniqueId al content now cfg None uid s = (r, s', ops)"
  shows "(\<exists>msg. r = Inl msg) \<and> mapAlarmData s' = mapAlarmData s \<and> manualAlarmData s' = manualAlarmData s \<and>
    (if uid \<le> 0 then s' = s else \<not> silenced now uid s' \<and> uid \<in> manualConfirmedUniqueIds s')"
proof (cases "uid \<le> 0")
  case False
  then have p: "0 < uid" by simp
  obtain s2 ops2 had where c: "confirm_rules al now uid s = (s2, ops2, had)" by (metis surj_pair)
  note f = confirm_rules_facts[OF p c]
  have e: "\<exists>msg. r = Inl msg" "s' = s2"
    using p assms c f(1) by (auto simp: confirmAlarmByUniqueId_def confirm_hit_def)
  have "map (\<lambda>(k, ad). (k, if unique_id ad = uid
      then ad\<lparr>threatScore := max (threatScore ad) (confirm_floor (defaultThreatScore al))\<rparr> else ad)) (mapAlarmData s)
    = mapAlarmData s"
    using assms(1) by (intro map_idI) (auto simp: list_ex_iff)
  then show ?thesis using e f False by simp
qed (use assms in \<open>auto simp: confirmAlarmByUniqueId_def\<close>)

theorem refused_confirmation_lifts_silence_witness:
  "\<exists>r s' ops. confirmAlarmByUniqueId default_logic (\<lambda>_ _ _ _. []) 2000 no_tracks None 7
     (addAlarmFilter default_logic 1000 0 7 empty_state) = (r, s', ops) \<and> (\<exists>msg. r = Inl msg) \<and> \<not> silenced 2000 7 s' \<and>
     silenced 2000 7 (addAlarmFilter default_logic 1000 0 7 empty_state)"
proof -
  let ?s = "addAlarmFilter default_logic 1000 0 7 empty_state"
  obtain r s' ops where c: "confirmAlarmByUniqueId default_logic (\<lambda>_ _ _ _. []) 2000 no_tracks None 7 ?s = (r, s', ops)"
    by (metis surj_pair)
  have n: "findTrackByUniqueId no_tracks 7 = None"
    by (simp add: findTrackByUniqueId_def no_tracks_def tryMap_def tryMapInt_def
        scanBySecondaryUniqueId_def scanBySecondaryUniqueIdInt_def)
  have l: "\<not> list_ex (\<lambda>p. unique_id (snd p) = 7) (mapAlarmData ?s)"
    by (simp add: addAlarmFilter_def empty_state_def keys_of_target_def)
  have "silenced 2000 7 ?s" by (simp add: silenced_def addAlarmFilter_def empty_state_def default_logic_def)
  with refused_confirmation_lifts_silence[OF l n c] c show ?thesis by auto
qed

section \<open>Upkeep of manual alarms\<close>

lemma manual_id_inject [simp]: "0 \<le> a \<Longrightarrow> 0 \<le> b \<Longrightarrow> manual_id a = manual_id b \<longleftrightarrow> a = b"
  by (simp add: manual_id_def dec_int_def eq_nat_nat_iff)

definition synced :: "AlarmLogicConfig \<Rightarrow> content_fun \<Rightarrow> int \<Rightarrow> track_tables \<Rightarrow> AlarmData \<Rightarrow> AlarmData" where
  "synced al content now cfg prev =
     (case findTrackByUniqueId cfg (unique_id prev) of
        None \<Rightarrow> prev
      | Some (trk, isAir) \<Rightarrow>
          (buildManualAlarmDataFromTrack now trk (unique_id prev) (defaultThreatScore al) (Some prev))
            \<lparr>alarm_count := alarm_count prev, origintime := origintime prev, threat_time_ms := threat_time_ms prev,
             alarm_content := content (unique_id prev) isAir (speedMps trk) (courseDegrees trk)\<rparr>)"

definition abandoned :: "int \<Rightarrow> track_tables \<Rightarrow> AlarmData \<Rightarrow> bool" where
  "abandoned now cfg prev \<longleftrightarrow> findTrackByUniqueId cfg (unique_id prev) = None \<and>
     alarm_time prev > 0 \<and> now - alarm_time prev > 600000"

lemma sync_loop_eq:
  "fst (sync_loop al content now cfg m air) =
     map (\<lambda>(k, prev). (k, synced al content now cfg prev)) (filter (\<lambda>p. \<not> abandoned now cfg (snd p)) m)"
proof (induction al content now cfg m air rule: sync_loop.induct)
  case (2 al content now cfg k prev rest air)
  then show ?case
    by (auto simp: Let_def case_prod_beta synced_def abandoned_def buildManualAlarmDataFromTrack_def split: option.splits)
qed simp

text \<open>
  Before publication a manual alarm is dropped exactly when its target has no track and it was
  last refreshed more than ten minutes ago; an alarm whose target is tracked is brought up to the
  track and keeps its id, count, origin time and threat time, and its score never falls.
\<close>

theorem sync_manual_alarms:
  assumes "qm_ok (manualAlarmData s)" and "map_of (manualAlarmData s) k = Some prev"
    and "s' = syncManualAlarmsBeforePublish al content now cfg s"
  shows "(case findTrackByUniqueId cfg (unique_id prev) of
      None \<Rightarrow> map_of (manualAlarmData s') k =
        (if alarm_time prev > 0 \<and> now - alarm_time prev > 600000 then None else Some prev)
    | Some (trk, isAir) \<Rightarrow> (\<exists>ad. map_of (manualAlarmData s') k = Some ad \<and> unique_id ad = unique_id prev \<and>
        alarm_count ad = alarm_count prev \<and> origintime ad = origintime prev \<and>
        threat_time_ms ad = threat_time_ms prev \<and> threatScore prev \<le> threatScore ad \<and>
        targetlat ad = latDegs trk \<and> targetlon ad = longDegs trk \<and> alarm_time ad = now))"
proof -
  have m: "manualAlarmData s' = map (\<lambda>(k, p). (k, synced al content now cfg p))
      (filter (\<lambda>p. \<not> abandoned now cfg (snd p)) (manualAlarmData s))"
    using assms(3) by (simp add: syncManualAlarmsBeforePublish_def case_prod_beta sync_loop_eq)
  have "map_of (manualAlarmData s') k =
      (if abandoned now cfg prev then None else Some (synced al content now cfg prev))"
    unfolding m map_of_map_value
    using assms(2) map_of_filter_value[OF qm_ok_distinct[OF assms(1)], of "\<lambda>p. \<not> abandoned now cfg p" k]
    by simp
  then show ?thesis
    by (auto simp: synced_def abandoned_def buildManualAlarmDataFromTrack_def split: option.splits)
qed

theorem sync_manual_alarms_witness:
  "map_of (manualAlarmData (syncManualAlarmsBeforePublish default_logic (\<lambda>_ _ _ _. []) 700000 no_tracks
     (empty_state\<lparr>manualAlarmData := [(manual_id 7, new_alarm default_logic (sample_save 7 ''x'') 1000)]\<rparr>))) (manual_id 7) = None"
proof -
  let ?s = "empty_state\<lparr>manualAlarmData := [(manual_id 7, new_alarm default_logic (sample_save 7 ''x'') 1000)]\<rparr>"
  have n: "findTrackByUniqueId no_tracks u = None" for u
    by (simp add: findTrackByUniqueId_def no_tracks_def tryMap_def tryMapInt_def
        scanBySecondaryUniqueId_def scanBySecondaryUniqueIdInt_def)
  have "qm_ok (manualAlarmData ?s)" by (simp add: qm_ok_def)
  from sync_manual_alarms[OF this _ refl, of "manual_id 7" "new_alarm default_logic (sample_save 7 ''x'') 1000"
      default_logic "\<lambda>_ _ _ _. []" 700000 no_tracks] show ?thesis by (simp add: n)
qed

section \<open>Ids beyond 32 bits\<close>

text \<open>
  A target whose id needs more than 32 bits is confirmed under another id: its track carries
  the low 32 bits as \<open>uniqueID\<close>, so (unless these are zero) the manual alarm is filed under
  \<open>id mod 2 ^ 32\<close>, which is the id of a different target.
\<close>

theorem wide_id_confirmed_as_other_target:
  assumes "ingest_reachable T same mode c" and "2 ^ 32 \<le> uid" and "uid mod 2 ^ 32 \<noteq> 0"
    and "map_of (fuseTrack (tabs c)) uid = Some trk"
    and "findTrackByUniqueId (no_tracks\<lparr>tt_fuse := fuseTrack (tabs c)\<rparr>) uid = hit"
  shows "hit = Some (trk, False) \<and> effectiveUniqueIdFromTrackHit hit uid = uid mod 2 ^ 32 \<and>
    effectiveUniqueIdFromTrackHit hit uid \<noteq> uid"
proof -
  have u: "uniqueID trk = uid mod 2 ^ 32"
    using tables_ok_reachable[OF assms(1)] assms(4) by (simp add: tables_ok_def pair_ok_def)
  have p: "0 < uid mod 2 ^ 32" "uid mod 2 ^ 32 < 2 ^ 32"
    using assms(3) by (simp_all add: order.not_eq_order_implies_strict)
  have "hit = Some (trk, False)" using assms(2,4,5)
    by (auto simp: findTrackByUniqueId_def no_tracks_def tryMap_def tryMapInt_def scanBySecondaryUniqueId_def
        scanBySecondaryUniqueIdInt_def)
  then show ?thesis using u p assms(2) by (simp add: effectiveUniqueIdFromTrackHit_def)
qed

definition wide_target :: TargetObject where
  "wide_target = sample_target\<lparr>target_id := qs ''4294967301'', t_environment := SURFACE\<rparr>"

theorem wide_id_confirmed_as_other_target_witness:
  "effectiveUniqueIdFromTrackHit (findTrackByUniqueId (no_tracks\<lparr>tt_fuse :=
     fuseTrack (tabs (applyTargetOutputSet ascii_text (=) 0 5 [wide_target] empty_client))\<rparr>) 4294967301) 4294967301 = 5"
proof -
  let ?c = "applyTargetOutputSet ascii_text (=) 0 5 [wide_target] empty_client"
  have p: "parseTargetId ascii_text wide_target = Some 4294967301" by code_simp
  have e: "t_environment wide_target \<noteq> AIR" "t_state wide_target = STABLE"
    by (simp_all add: wide_target_def sample_target_def)
  have r: "ingest_reachable ascii_text (=) 0 ?c" by (intro ingest_reachable.intros)
  obtain trk where t: "map_of (fuseTrack (tabs ?c)) 4294967301 = Some trk"
    using e by (simp add: tabs_applyTargetOutputSet applyTarget_cases p empty_client_def store_track_def Let_def)
  have w: "(2::int) ^ 32 \<le> 4294967301" "(4294967301::int) mod 2 ^ 32 \<noteq> 0" by simp_all
  note wide_id_confirmed_as_other_target[OF r w t refl]
  then have "effectiveUniqueIdFromTrackHit (findTrackByUniqueId (no_tracks\<lparr>tt_fuse := fuseTrack (tabs ?c)\<rparr>) 4294967301) 4294967301
      = 4294967301 mod 2 ^ 32" by (elim conjE)
  then show ?thesis by simp
qed

end
