(* ===== verification/Alarm_Disposition.thy ===== *)
theory Alarm_Disposition
  imports Alarm_Confirm
begin

text \<open>
  Which disposition a rule alarm is published with (\<open>customconfig.cpp\<close>): the identification
  rules bound to an area and their criteria (\<open>evalOneRowDetectionRules\<close> and its callers), and
  \<open>CustomConfig::resolveRuleAlarmDisposition\<close>, which also fixes the time an alarm was
  first resolved.  JSON parsing and the lookup of optical evidence in the database are
  parameters.
\<close>

section \<open>Identification rules\<close>

text \<open>A JSON value as far as the code asks: \<open>toBool\<close>, \<open>toInt(0)\<close>, \<open>toString\<close>.\<close>

datatype json_value = JBool bool | JInt int | JText qstring | JOther

fun json_toBool :: "json_value \<Rightarrow> bool" where
  "json_toBool (JBool b) = b"
| "json_toBool _ = False"

fun json_toInt :: "json_value \<Rightarrow> int" where
  "json_toInt (JInt i) = i"
| "json_toInt _ = 0"

fun json_toString :: "json_value \<Rightarrow> qstring" where
  "json_toString (JText t) = t"
| "json_toString _ = []"

text \<open>\<open>json_object\<close> is \<open>None\<close> for a text that is no JSON object; \<open>optic_evidence\<close> is
  \<open>DataAccessLayer::hasMinioMultiMetadataForUniqueId\<close>.\<close>

record ident_env =
  json_object :: "qstring \<Rightarrow> (string \<rightharpoonup> json_value) option"
  optic_evidence :: "int \<Rightarrow> qstring \<Rightarrow> bool"

record RuleSub =
  criteria_id :: qstring
  detection_rules_json :: qstring
  sub_enabled :: bool

definition trackDurationExceeded :: "int \<Rightarrow> AlarmData \<Rightarrow> int \<Rightarrow> bool" where
  "trackDurationExceeded now ad seconds =
     (if seconds \<le> 0 then False else now - origintime ad \<ge> seconds * 1000)"

definition evalOneRowDetectionRules :: "qt_text \<Rightarrow> ident_env \<Rightarrow> int \<Rightarrow> AlarmData \<Rightarrow> qstring \<Rightarrow> bool" where
  "evalOneRowDetectionRules T I now ad jsonStr =
     (if trimmed T jsonStr = [] then True
      else case json_object I jsonStr of
        None \<Rightarrow> False
      | Some ob \<Rightarrow>
          (let needOptic = (case ob ''optic'' of Some v \<Rightarrow> json_toBool v | None \<Rightarrow> False);
               trackDurSec = (case ob ''track_duration'' of Some v \<Rightarrow> json_toInt v | None \<Rightarrow> 0);
               needTrackDur = (ob ''track_duration'' \<noteq> None \<and> trackDurSec > 0)
           in if \<not> needOptic \<and> \<not> needTrackDur then True
              else let likePattern = (case ob ''file_name_like'' of Some v \<Rightarrow> json_toString v | None \<Rightarrow> qs ''%'');
                       ok1 = (if needOptic then optic_evidence I (unique_id ad) likePattern else True)
                   in if needTrackDur then ok1 \<and> trackDurationExceeded now ad trackDurSec else ok1))"

definition ruleHasDetectionConstraints :: "qt_text \<Rightarrow> RuleSub list \<Rightarrow> bool" where
  "ruleHasDetectionConstraints T subs = list_ex (\<lambda>s. sub_enabled s \<and> trimmed T (detection_rules_json s) \<noteq> []) subs"

definition criteria_key :: "qt_text \<Rightarrow> RuleSub \<Rightarrow> qstring" where
  "criteria_key T s = (if trimmed T (criteria_id s) = [] then qs ''__default__'' else trimmed T (criteria_id s))"

fun byCriteria :: "qt_text \<Rightarrow> RuleSub list \<Rightarrow> (qstring, RuleSub list) qmap \<Rightarrow> (qstring, RuleSub list) qmap" where
  "byCriteria T [] m = m"
| "byCriteria T (s # rest) m =
     (if \<not> sub_enabled s then byCriteria T rest m
      else byCriteria T rest (qm_insert (criteria_key T s) (qm_value m (criteria_key T s) [] @ [s]) m))"

fun groupOk :: "qt_text \<Rightarrow> ident_env \<Rightarrow> int \<Rightarrow> AlarmData \<Rightarrow> RuleSub list \<Rightarrow> bool" where
  "groupOk T I now ad [] = True"
| "groupOk T I now ad (row # rest) =
     (if \<not> evalOneRowDetectionRules T I now ad (detection_rules_json row) then False else groupOk T I now ad rest)"

fun anyGroupOk :: "qt_text \<Rightarrow> ident_env \<Rightarrow> int \<Rightarrow> AlarmData \<Rightarrow> (qstring, RuleSub list) qmap \<Rightarrow> bool" where
  "anyGroupOk T I now ad [] = False"
| "anyGroupOk T I now ad ((k, rows) # rest) = (if groupOk T I now ad rows then True else anyGroupOk T I now ad rest)"

definition evalSingleRuleCriteriaIntersection :: "qt_text \<Rightarrow> ident_env \<Rightarrow> int \<Rightarrow> AlarmData \<Rightarrow> RuleSub list \<Rightarrow> bool" where
  "evalSingleRuleCriteriaIntersection T I now ad subs = anyGroupOk T I now ad (byCriteria T subs [])"

text \<open>The loop over the rule ids: the result and \<open>outAnyRuleHadConstraints\<close>.\<close>

fun union_loop :: "qt_text \<Rightarrow> ident_env \<Rightarrow> int \<Rightarrow> AlarmData \<Rightarrow> (string, RuleSub list) qmap \<Rightarrow> bool
    \<Rightarrow> string list \<Rightarrow> bool \<times> bool" where
  "union_loop T I now ad mapSubs any [] = (False, any)"
| "union_loop T I now ad mapSubs any (rid # rest) =
     (let subs = qm_value mapSubs rid [] in
      if \<not> ruleHasDetectionConstraints T subs then union_loop T I now ad mapSubs any rest
      else if evalSingleRuleCriteriaIntersection T I now ad subs then (True, True)
      else union_loop T I now ad mapSubs True rest)"

record ident_rules =
  areaToRuleIds :: "(string, string list) qmap"
  ruleSubs :: "(string, RuleSub list) qmap"

definition area_key :: "AlarmData \<Rightarrow> string" where
  "area_key ad = dec_int (group_id ad) @ ''_'' @ dec_int (area_id ad)"

definition bound_rules :: "ident_rules \<Rightarrow> AlarmData \<Rightarrow> string list" where
  "bound_rules R ad =
     (let ruleIds = qm_value (areaToRuleIds R) (area_key ad) [] in
      if condition_id ad \<in> set ruleIds then ruleIds else ruleIds @ [condition_id ad])"

definition evalIdentificationRulesUnion :: "qt_text \<Rightarrow> ident_env \<Rightarrow> ident_rules \<Rightarrow> int \<Rightarrow> AlarmData \<Rightarrow> bool \<times> bool" where
  "evalIdentificationRulesUnion T I R now ad = union_loop T I now ad (ruleSubs R) False (bound_rules R ad)"

section \<open>\<open>resolveRuleAlarmDisposition\<close>\<close>

record disposition =
  eff_task_status :: int
  eff_resolved :: "int option"

definition base_task_status :: "int \<Rightarrow> int" where
  "base_task_status st = (if st = 0 then 0 else if st = 1 then 1 else if st = 2 then 2 else 3)"

definition resolveRuleAlarmDisposition :: "qt_text \<Rightarrow> ident_env \<Rightarrow> ident_rules \<Rightarrow> AlarmLogicConfig \<Rightarrow> int
    \<Rightarrow> AlarmData \<Rightarrow> alarm_state \<Rightarrow> disposition \<times> alarm_state \<times> db_op list" where
  "resolveRuleAlarmDisposition T I R al now ad s =
     (let (verifyOk, anyRuleHadConstraints) = evalIdentificationRulesUnion T I R now ad;
          manuallyConfirmed = (unique_id ad \<in> manualConfirmedUniqueIds s) in
      if manuallyConfirmed \<or> (anyRuleHadConstraints \<and> verifyOk)
      then (let (s1, ops) =
                  (if \<not> qm_contains (identificationResolvedTime s) (alarm_id ad)
                   then let resolvedAt = qm_value (manualConfirmResolvedTime s) (unique_id ad) now in
                        (s\<lparr>identificationResolvedTime := qm_insert (alarm_id ad) resolvedAt (identificationResolvedTime s)\<rparr>,
                         if saveAlarmToDb al \<noteq> 0
                         then [DbEvaluation (alarm_id ad) (unique_id ad) (threat_time_ms ad) now] else [])
                   else (s, []))
            in (\<lparr>eff_task_status = 3,
                 eff_resolved = (case map_of (identificationResolvedTime s1) (alarm_id ad) of
                    Some t \<Rightarrow> Some t
                  | None \<Rightarrow> map_of (manualConfirmResolvedTime s1) (unique_id ad))\<rparr>, s1, ops))
      else (\<lparr>eff_task_status = base_task_status (task_status ad), eff_resolved = None\<rparr>, s, []))"

section \<open>What the rules decide\<close>

lemma groupOk_iff:
  "groupOk T I now ad rows \<longleftrightarrow> (\<forall>r \<in> set rows. evalOneRowDetectionRules T I now ad (detection_rules_json r))"
  by (induction rows) auto

lemma anyGroupOk_iff: "anyGroupOk T I now ad m \<longleftrightarrow> (\<exists>rows \<in> snd ` set m. groupOk T I now ad rows)"
  by (induction m) auto

lemma qm_value_insert [simp]: "qm_value (qm_insert k v m) k' d = (if k' = k then v else qm_value m k' d)"
  by (simp add: qm_value_def)

lemma qm_ok_byCriteria: "qm_ok m \<Longrightarrow> qm_ok (byCriteria T subs m)"
  by (induction T subs m rule: byCriteria.induct) (simp_all add: qm_ok_insert)

lemma byCriteria_value:
  "qm_value (byCriteria T subs m) k [] = qm_value m k [] @ filter (\<lambda>s. sub_enabled s \<and> criteria_key T s = k) subs"
  by (induction T subs m rule: byCriteria.induct) auto

lemma byCriteria_keys:
  "fst ` set (byCriteria T subs m) = fst ` set m \<union> criteria_key T ` {s \<in> set subs. sub_enabled s}"
  by (induction T subs m rule: byCriteria.induct) (auto simp: keys_qm_insert)

lemma byCriteria_entry:
  "(k, rows) \<in> set (byCriteria T subs []) \<Longrightarrow> rows = filter (\<lambda>s. sub_enabled s \<and> criteria_key T s = k) subs"
  using qm.entries_iff[OF qm_ok_byCriteria[of "[]" T subs], of k rows] byCriteria_value[of T subs "[]" k]
  by (simp add: qm_value_def)

lemma single_rule_iff:
  "evalSingleRuleCriteriaIntersection T I now ad subs \<longleftrightarrow>
     (\<exists>s \<in> set subs. sub_enabled s \<and> (\<forall>r \<in> set subs. sub_enabled r \<and> criteria_key T r = criteria_key T s \<longrightarrow>
        evalOneRowDetectionRules T I now ad (detection_rules_json r)))"
  (is "_ \<longleftrightarrow> (\<exists>s \<in> set subs. ?ok s)")
proof -
  let ?m = "byCriteria T subs []"
  have "anyGroupOk T I now ad ?m \<longleftrightarrow> (\<exists>k \<in> fst ` set ?m.
      \<forall>r \<in> set subs. sub_enabled r \<and> criteria_key T r = k \<longrightarrow> evalOneRowDetectionRules T I now ad (detection_rules_json r))"
    by (force simp: anyGroupOk_iff groupOk_iff dest: byCriteria_entry)
  also have "\<dots> \<longleftrightarrow> (\<exists>s \<in> set subs. ?ok s)" by (auto simp: byCriteria_keys)
  finally show ?thesis by (simp add: evalSingleRuleCriteriaIntersection_def)
qed

definition rule_verifies :: "qt_text \<Rightarrow> ident_env \<Rightarrow> ident_rules \<Rightarrow> int \<Rightarrow> AlarmData \<Rightarrow> string \<Rightarrow> bool" where
  "rule_verifies T I R now ad rid \<longleftrightarrow>
     ruleHasDetectionConstraints T (qm_value (ruleSubs R) rid []) \<and>
     evalSingleRuleCriteriaIntersection T I now ad (qm_value (ruleSubs R) rid [])"

lemma fst_union_loop:
  "fst (union_loop T I now ad (ruleSubs R) any rids) = list_ex (rule_verifies T I R now ad) rids"
  by (induction rids arbitrary: any) (auto simp: Let_def rule_verifies_def)

lemma snd_union_loop:
  "fst (union_loop T I now ad m any rids) \<Longrightarrow> snd (union_loop T I now ad m any rids)"
  by (induction rids arbitrary: any) (auto simp: Let_def split: if_splits)

lemma set_bound_rules: "set (bound_rules R ad) = insert (condition_id ad) (set (qm_value (areaToRuleIds R) (area_key ad) []))"
  by (auto simp: bound_rules_def Let_def)

definition identified :: "qt_text \<Rightarrow> ident_env \<Rightarrow> ident_rules \<Rightarrow> int \<Rightarrow> AlarmData \<Rightarrow> bool" where
  "identified T I R now ad \<longleftrightarrow>
     (let (verifyOk, anyRuleHadConstraints) = evalIdentificationRulesUnion T I R now ad
      in anyRuleHadConstraints \<and> verifyOk)"

lemma identified_rules: "identified T I R now ad \<longleftrightarrow> list_ex (rule_verifies T I R now ad) (bound_rules R ad)"
  using snd_union_loop[of T I now ad "ruleSubs R" False "bound_rules R ad"] fst_union_loop[of T I now ad R False "bound_rules R ad"]
  by (auto simp: identified_def evalIdentificationRulesUnion_def case_prod_beta)

text \<open>
  When an alarm counts as identified: exactly when a rule bound to its area, or the rule that
  raised it, has an enabled row with a condition and one of its criteria (the enabled rows with
  the same trimmed criteria id, blank ids counting as one criterion) with every row satisfied.
  The rows of a criterion are joined by AND, criteria and rules by OR; the position of rows and rules is irrelevant.
\<close>

theorem identification_characterised:
  "identified T I R now ad \<longleftrightarrow>
     (\<exists>rid \<in> insert (condition_id ad) (set (qm_value (areaToRuleIds R) (area_key ad) [])).
        \<exists>c \<in> set (qm_value (ruleSubs R) rid []). sub_enabled c \<and> trimmed T (detection_rules_json c) \<noteq> [] \<and>
        (\<exists>s \<in> set (qm_value (ruleSubs R) rid []). sub_enabled s \<and>
           list_all (\<lambda>r. evalOneRowDetectionRules T I now ad (detection_rules_json r))
             (filter (\<lambda>r. sub_enabled r \<and> criteria_key T r = criteria_key T s) (qm_value (ruleSubs R) rid []))))"
proof -
  have filtered: "list_all P (filter Q xs) \<longleftrightarrow> (\<forall>r \<in> set xs. Q r \<longrightarrow> P r)" for P Q and xs :: "RuleSub list"
    by (auto simp: list_all_iff)
  show ?thesis
    unfolding identified_rules list_ex_iff set_bound_rules rule_verifies_def single_rule_iff
      ruleHasDetectionConstraints_def filtered
    by (intro bex_cong refl) blast
qed

section \<open>When an alarm was resolved\<close>

definition resolved_state :: "int \<Rightarrow> AlarmData \<Rightarrow> alarm_state \<Rightarrow> alarm_state" where
  "resolved_state now ad s =
     (if qm_contains (identificationResolvedTime s) (alarm_id ad) then s
      else s\<lparr>identificationResolvedTime := qm_insert (alarm_id ad)
                (qm_value (manualConfirmResolvedTime s) (unique_id ad) now) (identificationResolvedTime s)\<rparr>)"

lemma resolve_eq:
  "resolveRuleAlarmDisposition T I R al now ad s =
     (if unique_id ad \<in> manualConfirmedUniqueIds s \<or> identified T I R now ad
      then (\<lparr>eff_task_status = 3,
              eff_resolved = map_of (identificationResolvedTime (resolved_state now ad s)) (alarm_id ad)\<rparr>,
            resolved_state now ad s,
            if \<not> qm_contains (identificationResolvedTime s) (alarm_id ad) \<and> saveAlarmToDb al \<noteq> 0
            then [DbEvaluation (alarm_id ad) (unique_id ad) (threat_time_ms ad) now] else [])
      else (\<lparr>eff_task_status = base_task_status (task_status ad), eff_resolved = None\<rparr>, s, []))"
  by (cases "map_of (identificationResolvedTime s) (alarm_id ad)")
     (auto simp: resolveRuleAlarmDisposition_def identified_def resolved_state_def Let_def case_prod_beta)

lemma resolved_state_has: "map_of (identificationResolvedTime (resolved_state now ad s)) (alarm_id ad) =
    Some (case map_of (identificationResolvedTime s) (alarm_id ad) of Some t \<Rightarrow> t
      | None \<Rightarrow> qm_value (manualConfirmResolvedTime s) (unique_id ad) now)"
  by (auto simp: resolved_state_def)

text \<open>A sequence of publications: each resolves an alarm at some time under the rules then loaded.\<close>

definition resolve_all :: "qt_text \<Rightarrow> ident_env \<Rightarrow> AlarmLogicConfig \<Rightarrow> (ident_rules \<times> int \<times> AlarmData) list
    \<Rightarrow> alarm_state \<Rightarrow> alarm_state" where
  "resolve_all T I al calls s =
     fold (\<lambda>(R, now, ad) s. fst (snd (resolveRuleAlarmDisposition T I R al now ad s))) calls s"

lemma resolve_keeps_time:
  "map_of (identificationResolvedTime s) a = Some t \<Longrightarrow>
   map_of (identificationResolvedTime (fst (snd (resolveRuleAlarmDisposition T I R al now ad s)))) a = Some t"
  by (auto simp: resolve_eq resolved_state_def)

lemma resolve_all_keeps_time:
  "map_of (identificationResolvedTime s) a = Some t \<Longrightarrow>
   map_of (identificationResolvedTime (resolve_all T I al calls s)) a = Some t"
  unfolding resolve_all_def
  by (induction calls arbitrary: s) (auto simp: resolve_keeps_time split: prod.splits)

text \<open>
  The resolution time is written once: the first publication that resolves an alarm stamps it
  with the time of the manual confirmation, if there was one, else with the clock, writes the
  evaluation record at that moment only, and every later publication that resolves the alarm,
  after any publications of any alarms in between, reports the same time and writes nothing.
\<close>

theorem resolution_time_fixed:
  assumes "resolveRuleAlarmDisposition T I R al now ad s = (d, s', ops)"
    and "eff_task_status d = 3" and "eff_resolved d = Some t"
    and "resolveRuleAlarmDisposition T I R' al now' ad (resolve_all T I al calls s') = (d', s'', ops')"
  shows "(map_of (identificationResolvedTime s) (alarm_id ad) = None \<longrightarrow>
      t = qm_value (manualConfirmResolvedTime s) (unique_id ad) now \<and>
      ops = (if saveAlarmToDb al \<noteq> 0 then [DbEvaluation (alarm_id ad) (unique_id ad) (threat_time_ms ad) now] else [])) \<and>
    (eff_resolved d' = None \<or> eff_resolved d' = Some t \<and> eff_task_status d' = 3) \<and> ops' = []"
proof -
  have 1: "s' = resolved_state now ad s" "eff_resolved d = map_of (identificationResolvedTime s') (alarm_id ad)"
    "ops = (if \<not> qm_contains (identificationResolvedTime s) (alarm_id ad) \<and> saveAlarmToDb al \<noteq> 0
            then [DbEvaluation (alarm_id ad) (unique_id ad) (threat_time_ms ad) now] else [])"
    using assms(1,3) by (auto simp: resolve_eq split: if_splits)
  have t: "map_of (identificationResolvedTime s') (alarm_id ad) = Some t" using 1(2) assms(3) by simp
  have u: "map_of (identificationResolvedTime (resolve_all T I al calls s')) (alarm_id ad) = Some t"
    by (rule resolve_all_keeps_time[OF t])
  have "eff_resolved d' = None \<or> eff_resolved d' = Some t \<and> eff_task_status d' = 3" "ops' = []"
    using assms(4) u by (auto simp: resolve_eq resolved_state_def split: if_splits)
  then show ?thesis using 1 t resolved_state_has[of now ad s] by auto
qed

definition sample_alarm :: "string \<Rightarrow> int \<Rightarrow> int \<Rightarrow> AlarmData" where
  "sample_alarm aid uid score =
     \<lparr>alarm_id = aid, condition_id = ''c1'', mode_id = 1, track_id = 0, unique_id = uid, targettype = 0,
      targetbehavior = 0, targetdist = 1, targetlon = 121, targetlat = 30, targetspeed = 5, targetdir = 90,
      alarm_time = 1000, origintime = 1000, alarm_status = 0, alarm_count = 1, group_id = 3, area_id = 4,
      threatScore = score, task_status = 0, alarm_content = [], threat_time_ms = 1000\<rparr>"

definition sample_ident :: ident_env where
  "sample_ident = \<lparr>json_object = (\<lambda>t. if t = qs ''D60'' then Some [''track_duration'' \<mapsto> JInt 60]
       else if t = qs ''OPT'' then Some [''optic'' \<mapsto> JBool True] else None),
     optic_evidence = (\<lambda>_ _. False)\<rparr>"

definition sample_rules :: ident_rules where
  "sample_rules = \<lparr>areaToRuleIds = [(''3_4'', [''r''])],
     ruleSubs = [(''r'', [\<lparr>criteria_id = qs ''a'', detection_rules_json = qs ''OPT'', sub_enabled = True\<rparr>,
                        \<lparr>criteria_id = qs ''b'', detection_rules_json = qs ''D60'', sub_enabled = True\<rparr>])]\<rparr>"

theorem resolution_time_fixed_witness:
  "fst (resolveRuleAlarmDisposition ascii_text sample_ident sample_rules default_logic 99000
      (sample_alarm ''x'' 7 60)
      (resolve_all ascii_text sample_ident default_logic []
        (fst (snd (resolveRuleAlarmDisposition ascii_text sample_ident sample_rules default_logic 90000
           (sample_alarm ''x'' 7 60) empty_state)))))
   = \<lparr>eff_task_status = 3, eff_resolved = Some 90000\<rparr>"
proof -
  let ?ad = "sample_alarm ''x'' 7 60"
  let ?r = "resolveRuleAlarmDisposition ascii_text sample_ident sample_rules default_logic 90000 ?ad empty_state"
  let ?r' = "resolveRuleAlarmDisposition ascii_text sample_ident sample_rules default_logic 99000 ?ad
      (resolve_all ascii_text sample_ident default_logic [] (fst (snd ?r)))"
  have json1: "trimmed ascii_text (qs ''D60'') \<noteq> []" by code_simp
  have i: "identified ascii_text sample_ident sample_rules now ?ad" if "61000 \<le> now" for now
  proof -
    have "evalOneRowDetectionRules ascii_text sample_ident now ?ad (qs ''D60'')"
      using that by (simp add: evalOneRowDetectionRules_def sample_ident_def trackDurationExceeded_def Let_def
          sample_alarm_def json1)
    moreover have "byCriteria ascii_text (qm_value (ruleSubs sample_rules) ''r'' []) [] =
        [(qs ''a'', [\<lparr>criteria_id = qs ''a'', detection_rules_json = qs ''OPT'', sub_enabled = True\<rparr>]),
         (qs ''b'', [\<lparr>criteria_id = qs ''b'', detection_rules_json = qs ''D60'', sub_enabled = True\<rparr>])]" by code_simp
    moreover have "ruleHasDetectionConstraints ascii_text (qm_value (ruleSubs sample_rules) ''r'' [])" by code_simp
    moreover have "''r'' \<in> set (bound_rules sample_rules ?ad)" by code_simp
    ultimately show ?thesis unfolding identified_rules list_ex_iff rule_verifies_def evalSingleRuleCriteriaIntersection_def
      by (intro bexI[of _ "''r''"]) simp_all
  qed
  obtain d s' ops where r: "?r = (d, s', ops)" by (metis surj_pair)
  obtain d' s'' ops' where r': "?r' = (d', s'', ops')" by (metis surj_pair)
  have d: "eff_task_status d = 3" "eff_resolved d = Some 90000"
    using r i[of 90000] by (auto simp: resolve_eq resolved_state_has empty_state_def qm_value_def)
  have "eff_task_status d' = 3" "eff_resolved d' \<noteq> None"
    using r' i[of 99000] by (auto simp: resolve_eq resolved_state_has)
  then show ?thesis using resolution_time_fixed[OF r d, of sample_rules 99000 "[]" d' s'' ops'] r r' by (cases d') auto
qed

end
