(* ===== verification/Alarm_Event.thy ===== *)
theory Alarm_Event
  imports Alarm_Disposition "HOL-Library.Multiset"
begin

text \<open>
  Publication over DDS (\<open>customconfig.cpp\<close>): \<open>SendAllAlarmEventMsg\<close> builds the alarm event from
  the rule alarms, the manual alarms and the targets whose type was set by hand;
  \<open>SendNewTrackStructAlarmMsg\<close> and \<open>SendSuspiciousTargetMsg\<close> publish the matching
  targets.  The publishers are parameters: an operation returns what it hands to them.
\<close>

section \<open>The event\<close>

datatype EventStatus = EV_ACTIVE | EV_FOCUS | EV_DELETED
datatype EventTaskStatus = EV_UNASSIGNED | EV_ASSIGNED | EV_VERIFY_FAILED | EV_VERIFY_SUCCESS
datatype EventTrackType = EV_FUSE | EV_BIRD

record TrackData =
  td_trackId :: int
  td_mmsi :: "int option"
  td_longitude :: real
  td_latitude :: real
  td_course :: real
  td_speed :: real
  td_trackType :: EventTrackType

record AlarmInfo =
  ai_status :: EventStatus
  ai_ruleIds :: "string list"
  ai_alarmId :: string
  ai_taskStatus :: EventTaskStatus
  ai_content :: qstring
  ai_level :: int
  ai_areaId :: string
  ai_areaName :: qstring
  ai_trackId :: string
  ai_classId :: int
  ai_behaviorId :: int
  ai_position :: "real \<times> real \<times> real"
  ai_updateTime :: int
  ai_resolvedTime :: "int option"
  ai_boxTrackId :: int
  ai_track :: TrackData

record publish_env =
  pe_text :: qt_text
  pe_ident :: ident_env
  pe_identRules :: ident_rules
  pe_logic :: AlarmLogicConfig
  pe_alarmRules :: "(string, AlarmRule) qmap"
  pe_tables :: track_tables
  pe_content :: content_fun
  pe_publishEvent :: bool
  pe_ddsReady :: bool
  pe_multi :: bool
  pe_single :: bool

abbreviation track_type_of :: "publish_env \<Rightarrow> AlarmData \<Rightarrow> int" where
  "track_type_of E ad \<equiv> rule_track_type (qm_value (pe_alarmRules E) (condition_id ad) default_rule)"

section \<open>The five levels\<close>

definition ruleTrackAlive :: "publish_env \<Rightarrow> AlarmData \<Rightarrow> bool" where
  "ruleTrackAlive E ad =
     (if track_type_of E ad > 0 then qm_contains (tt_birdFuse (pe_tables E)) (unique_id ad)
      else qm_contains (tt_fuse (pe_tables E)) (unique_id ad))"

fun validRuleAlarms :: "publish_env \<Rightarrow> int \<Rightarrow> (string, AlarmData) qmap \<Rightarrow> (string \<times> int) list" where
  "validRuleAlarms E now [] = []"
| "validRuleAlarms E now ((k, ad) # rest) =
     (if \<not> ruleTrackAlive E ad then validRuleAlarms E now rest
      else if now - alarm_time ad \<le> 5 * 1000 then (alarm_id ad, threatScore ad) # validRuleAlarms E now rest
      else validRuleAlarms E now rest)"

fun validManualAlarms :: "publish_env \<Rightarrow> int \<Rightarrow> (string, AlarmData) qmap \<Rightarrow> (string \<times> int) list" where
  "validManualAlarms E now [] = []"
| "validManualAlarms E now ((k, ad) # rest) =
     (if findTrackByUniqueId (pe_tables E) (unique_id ad) = None then validManualAlarms E now rest
      else if now - alarm_time ad \<le> 5 * 1000 then (alarm_id ad, threatScore ad) # validManualAlarms E now rest
      else validManualAlarms E now rest)"

text \<open>\<open>std::sort\<close> by falling score, then rising id.\<close>

definition sortAlarms :: "(string \<times> int) list \<Rightarrow> (string \<times> int) list" where
  "sortAlarms xs = sort_key (\<lambda>p. (- snd p, fst p)) xs"

fun assignLevels :: "nat \<Rightarrow> (string \<times> int) list \<Rightarrow> (string, int) qmap \<Rightarrow> (string, int) qmap" where
  "assignLevels i [] m = m"
| "assignLevels i (p # rest) m =
     (if i < 5 then assignLevels (Suc i) rest (qm_insert (fst p) (5 - int i) m) else m)"

definition alarmLevelMap :: "publish_env \<Rightarrow> int \<Rightarrow> alarm_state \<Rightarrow> (string, int) qmap" where
  "alarmLevelMap E now s =
     assignLevels 0 (sortAlarms (validRuleAlarms E now (mapAlarmData s) @ validManualAlarms E now (manualAlarmData s))) []"

section \<open>Rule alarms\<close>

definition event_status :: "int \<Rightarrow> EventStatus" where
  "event_status st = (if st = 0 then EV_ACTIVE else if st = 1 then EV_FOCUS else if st = 2 then EV_DELETED else EV_ACTIVE)"

definition event_task_status :: "int \<Rightarrow> EventTaskStatus" where
  "event_task_status st = (if st = 0 then EV_UNASSIGNED else if st = 1 then EV_ASSIGNED
     else if st = 2 then EV_VERIFY_FAILED else EV_VERIFY_SUCCESS)"

definition areaNameOf :: "(string, AlarmRule) qmap \<Rightarrow> AlarmData \<Rightarrow> qstring" where
  "areaNameOf rules ad =
     (case find (\<lambda>p. rule_area_id (snd p) = area_id ad \<and> rule_group_id (snd p) = group_id ad) rules of
        Some p \<Rightarrow> rule_area_name (snd p)
      | None \<Rightarrow> [])"

definition level_of :: "(string, int) qmap \<Rightarrow> AlarmData \<Rightarrow> int" where
  "level_of levels ad = (case map_of levels (alarm_id ad) of Some l \<Rightarrow> l | None \<Rightarrow> 0)"

definition track_data :: "AlarmData \<Rightarrow> EventTrackType \<Rightarrow> TrackData" where
  "track_data ad tt = \<lparr>td_trackId = legacyDdsTrackId (unique_id ad), td_mmsi = Some (legacyDdsTrackId (unique_id ad)),
     td_longitude = targetlon ad, td_latitude = targetlat ad, td_course = targetdir ad, td_speed = targetspeed ad,
     td_trackType = tt\<rparr>"

definition rule_info :: "publish_env \<Rightarrow> (string, int) qmap \<Rightarrow> AlarmData \<Rightarrow> disposition \<Rightarrow> AlarmInfo" where
  "rule_info E levels ad effDisp =
     \<lparr>ai_status = event_status (alarm_status ad), ai_ruleIds = [condition_id ad], ai_alarmId = alarm_id ad,
      ai_taskStatus = event_task_status (eff_task_status effDisp),
      ai_content = qs (dec_int (level_of levels ad)), ai_level = threatScore ad,
      ai_areaId = area_key ad, ai_areaName = areaNameOf (pe_alarmRules E) ad, ai_trackId = dec_int (unique_id ad),
      ai_classId = targettype ad, ai_behaviorId = targetbehavior ad, ai_position = (targetlon ad, targetlat ad, 0),
      ai_updateTime = alarm_time ad, ai_resolvedTime = eff_resolved effDisp,
      ai_boxTrackId = legacyDdsTrackId (unique_id ad),
      ai_track = track_data ad (if track_type_of E ad > 0 then EV_BIRD else EV_FUSE)\<rparr>"

fun ruleInfos :: "publish_env \<Rightarrow> int \<Rightarrow> (string, int) qmap \<Rightarrow> (string, AlarmData) qmap \<Rightarrow> alarm_state
    \<Rightarrow> AlarmInfo list \<times> alarm_state \<times> db_op list" where
  "ruleInfos E now levels [] s = ([], s, [])"
| "ruleInfos E now levels ((k, ad) # rest) s =
     (let (filtered, s1) = isUniqueIdAlarmFiltered now (unique_id ad) s in
      if filtered then ruleInfos E now levels rest s1
      else if now - alarm_time ad > 600 * 1000 then ruleInfos E now levels rest s1
      else let (effDisp, s2, ops) = resolveRuleAlarmDisposition (pe_text E) (pe_ident E) (pe_identRules E) (pe_logic E) now ad s1;
               (infos, s3, ops') = ruleInfos E now levels rest s2
           in (rule_info E levels ad effDisp # infos, s3, ops @ ops'))"

section \<open>Manual alarms\<close>

definition manual_info :: "(string, int) qmap \<Rightarrow> bool \<Rightarrow> int \<Rightarrow> AlarmData \<Rightarrow> AlarmInfo" where
  "manual_info levels isAirTrack resolvedAt ad =
     \<lparr>ai_status = EV_ACTIVE, ai_ruleIds = [condition_id ad], ai_alarmId = alarm_id ad,
      ai_taskStatus = EV_VERIFY_SUCCESS, ai_content = qs (dec_int (level_of levels ad)), ai_level = threatScore ad,
      ai_areaId = [], ai_areaName = [], ai_trackId = dec_int (unique_id ad),
      ai_classId = targettype ad, ai_behaviorId = targetbehavior ad, ai_position = (targetlon ad, targetlat ad, 0),
      ai_updateTime = alarm_time ad, ai_resolvedTime = Some resolvedAt,
      ai_boxTrackId = legacyDdsTrackId (unique_id ad),
      ai_track = track_data ad (if isAirTrack then EV_BIRD else EV_FUSE)\<rparr>"

fun manualInfos :: "publish_env \<Rightarrow> int \<Rightarrow> (string, int) qmap \<Rightarrow> (string, AlarmData) qmap \<Rightarrow> alarm_state
    \<Rightarrow> AlarmInfo list \<times> alarm_state" where
  "manualInfos E now levels [] s = ([], s)"
| "manualInfos E now levels ((k, ad) # rest) s =
     (let isAirTrack = qm_value (manualAlarmAirTrack s) (unique_id ad) False;
          (filtered, s1) = isUniqueIdAlarmFiltered now (unique_id ad) s in
      if filtered then manualInfos E now levels rest s1
      else if now - alarm_time ad > 600 * 1000 then manualInfos E now levels rest s1
      else if findTrackByUniqueId (pe_tables E) (unique_id ad) = None then manualInfos E now levels rest s1
      else let resolvedAt = qm_value (manualConfirmResolvedTime s1) (unique_id ad) (alarm_time ad);
               (infos, s2) = manualInfos E now levels rest s1
           in (manual_info levels isAirTrack resolvedAt ad # infos, s2))"

section \<open>Targets whose type was set by hand\<close>

text \<open>The words before the id in the content of such an alarm.\<close>

definition type_update_text :: qstring where
  "type_update_text = [0x76EE, 0x6807, 0x7C7B, 0x578B, 0x66F4, 0x65B0] @ qs '': target_id ''"

definition type_info :: "int \<Rightarrow> string \<Rightarrow> int \<Rightarrow> SPxTrack \<Rightarrow> EventTrackType \<Rightarrow> bool \<Rightarrow> int \<Rightarrow> int \<Rightarrow> AlarmInfo" where
  "type_info now targetIdStr targetId track tt manuallyConfirmed resolvedAt cls =
     \<lparr>ai_status = EV_ACTIVE, ai_ruleIds = [], ai_alarmId = ''-1'',
      ai_taskStatus = (if manuallyConfirmed then EV_VERIFY_SUCCESS else EV_UNASSIGNED),
      ai_content = type_update_text @ qs (dec_int targetId), ai_level = 1, ai_areaId = [], ai_areaName = [],
      ai_trackId = targetIdStr, ai_classId = cls, ai_behaviorId = 0,
      ai_position = (longDegs track, latDegs track, altitudeMetres track), ai_updateTime = now,
      ai_resolvedTime = (if manuallyConfirmed then Some resolvedAt else None),
      ai_boxTrackId = legacyDdsTrackId targetId,
      ai_track = \<lparr>td_trackId = legacyDdsTrackId targetId, td_mmsi = None, td_longitude = longDegs track,
        td_latitude = latDegs track, td_course = courseDegrees track, td_speed = speedMps track, td_trackType = tt\<rparr>\<rparr>"

definition typeTrack :: "track_tables \<Rightarrow> int \<Rightarrow> (SPxTrack \<times> EventTrackType) option" where
  "typeTrack cfg targetId =
     (case map_of (tt_fuse cfg) targetId of
        Some track \<Rightarrow> Some (track, EV_FUSE)
      | None \<Rightarrow> (case map_of (tt_birdFuse cfg) targetId of Some track \<Rightarrow> Some (track, EV_BIRD) | None \<Rightarrow> None))"

fun typeInfos :: "publish_env \<Rightarrow> int \<Rightarrow> string list \<Rightarrow> (string, int) qmap \<Rightarrow> alarm_state
    \<Rightarrow> AlarmInfo list \<times> alarm_state" where
  "typeInfos E now processed [] s = ([], s)"
| "typeInfos E now processed ((targetIdStr, cls) # rest) s =
     (if targetIdStr \<in> set processed then typeInfos E now processed rest s
      else case toLongLong (pe_text E) (qs targetIdStr) of
        None \<Rightarrow> typeInfos E now processed rest s
      | Some targetId \<Rightarrow>
          if targetId \<le> 0 then typeInfos E now processed rest s
          else let (filtered, s1) = isUniqueIdAlarmFiltered now targetId s in
            if filtered then typeInfos E now processed rest s1
            else case typeTrack (pe_tables E) targetId of
              None \<Rightarrow> typeInfos E now processed rest s1
            | Some (track, tt) \<Rightarrow>
                (let info = type_info now targetIdStr targetId track tt (targetId \<in> manualConfirmedUniqueIds s1)
                       (qm_value (manualConfirmResolvedTime s1) targetId now) cls;
                     (infos, s2) = typeInfos E now processed rest s1
                 in (info # infos, s2)))"

definition processedTargetIds :: "alarm_state \<Rightarrow> string list" where
  "processedTargetIds s = map (\<lambda>p. dec_int (unique_id (snd p))) (mapAlarmData s) @
     map (\<lambda>p. dec_int (unique_id (snd p))) (manualAlarmData s)"

section \<open>\<open>SendAllAlarmEventMsg\<close>\<close>

text \<open>
  The event handed to the publishers (\<open>None\<close> when nothing is sent).  The code reads the push
  mode \<open>m_bAlarmEventPushFullEnabled\<close> nowhere here: \<open>fullPush\<close> is set to true under its mutex.
\<close>

definition SendAllAlarmEventMsg :: "publish_env \<Rightarrow> int \<Rightarrow> alarm_state \<Rightarrow> AlarmInfo list option \<times> alarm_state \<times> db_op list" where
  "SendAllAlarmEventMsg E now s0 =
     (if \<not> pe_publishEvent E then (None, s0, [])
      else if \<not> pe_ddsReady E \<or> \<not> pe_multi E then (None, s0, [])
      else let fullPush = True in
        if \<not> fullPush then (Some [], s0, [])
        else let s1 = syncManualAlarmsBeforePublish (pe_logic E) (pe_content E) now (pe_tables E) s0 in
          if mapAlarmData s1 = [] \<and> manualAlarmData s1 = [] then (Some [], s1, [])
          else let levels = alarmLevelMap E now s1;
                   (rules, s2, ops) = ruleInfos E now levels (mapAlarmData s1) s1;
                   (manuals, s3) = manualInfos E now levels (manualAlarmData s1) s2;
                   (types, s4) = typeInfos E now (processedTargetIds s3) (mapTargetType s3) s3
               in (Some (rules @ manuals @ types), s4, ops))"

section \<open>Publishing the targets behind the alarms\<close>

text \<open>
  A merged target list is a list of values with an id (\<open>id_of\<close>); \<open>None\<close> is the case that
  neither the DDS nor the gRPC client has one.  \<open>mk_stub\<close> makes a target of its id alone.
\<close>

definition find_qs :: "(string, 'v) qmap \<Rightarrow> qstring \<Rightarrow> 'v option" where
  "find_qs m q = map_option snd (find (\<lambda>p. qs (fst p) = q) m)"

definition isManualAlarmId :: "qstring \<Rightarrow> bool" where
  "isManualAlarmId alarmId = (take 7 alarmId = qs ''manual-'')"

text \<open>One step of the loop over the alarms of the event: the id it adds to the set.\<close>

definition alarmUniqueId :: "qt_text \<Rightarrow> alarm_state \<Rightarrow> AlarmInfo \<Rightarrow> string option" where
  "alarmUniqueId T s ai =
     (let alarmId = trimmed T (qs (ai_alarmId ai));
          known = (\<lambda>m. case find_qs m alarmId of Some ad \<Rightarrow> if unique_id ad > 0 then Some (unique_id ad) else None
                     | None \<Rightarrow> None) in
      if alarmId = [] then None
      else case known (mapAlarmData s) of
        Some uid \<Rightarrow> Some (dec_int uid)
      | None \<Rightarrow> if isManualAlarmId alarmId then map_option dec_int (known (manualAlarmData s)) else None)"

definition SendNewTrackStructAlarmMsg :: "qt_text \<Rightarrow> ('t \<Rightarrow> qstring) \<Rightarrow> bool \<Rightarrow> 't list option \<Rightarrow> alarm_state
    \<Rightarrow> AlarmInfo list \<Rightarrow> 't list option" where
  "SendNewTrackStructAlarmMsg T id_of ready merged s event =
     (if \<not> ready \<or> event = [] then None
      else let alarmUniqueIdStrs = List.map_filter (alarmUniqueId T s) event in
        if alarmUniqueIdStrs = [] then None
        else case merged of
          None \<Rightarrow> None
        | Some targets \<Rightarrow>
            (let filtered = filter (\<lambda>t. trimmed T (id_of t) \<noteq> [] \<and> trimmed T (id_of t) \<in> qs ` set alarmUniqueIdStrs) targets
             in if filtered = [] then None else Some filtered))"

text \<open>The loop over the merged targets: the targets taken and the ids not yet found.\<close>

fun take_suspicious :: "qt_text \<Rightarrow> ('t \<Rightarrow> qstring) \<Rightarrow> 't list \<Rightarrow> qstring list \<Rightarrow> 't list \<times> qstring list" where
  "take_suspicious T id_of [] remaining = ([], remaining)"
| "take_suspicious T id_of (t # rest) remaining =
     (let targetId = trimmed T (id_of t) in
      if targetId \<noteq> [] \<and> targetId \<in> set remaining
      then (let (taken, r) = take_suspicious T id_of rest (removeAll targetId remaining) in (t # taken, r))
      else take_suspicious T id_of rest remaining)"

definition SendSuspiciousTargetMsg :: "qt_text \<Rightarrow> ('t \<Rightarrow> qstring) \<Rightarrow> (qstring \<Rightarrow> 't) \<Rightarrow> bool \<Rightarrow> ('t list \<Rightarrow> bool)
    \<Rightarrow> 't list option \<Rightarrow> qstring list \<Rightarrow> 't list option \<times> int" where
  "SendSuspiciousTargetMsg T id_of mk_stub ready send merged ids =
     (if \<not> ready \<or> ids = [] then (None, 0)
      else case merged of
        None \<Rightarrow> (None, 0)
      | Some targets \<Rightarrow>
          (let (taken, remaining) = take_suspicious T id_of targets ids;
               filtered = taken @ map mk_stub remaining
           in if filtered = [] then (None, 0)
              else if send filtered then (Some filtered, int (length filtered)) else (Some filtered, 0)))"

section \<open>The push throttle\<close>

text \<open>\<open>tickAlarmGrpcSnapshot\<close>: whether the tick pushes, and the time it remembers.\<close>

definition tickAlarmGrpcSnapshot :: "bool \<Rightarrow> int \<Rightarrow> int \<Rightarrow> bool \<times> int" where
  "tickAlarmGrpcSnapshot enabled nowMs lastMs =
     (if \<not> enabled then (False, lastMs)
      else if lastMs \<noteq> 0 \<and> nowMs - lastMs < 1000 then (False, lastMs)
      else (True, nowMs))"

section \<open>Facts: the levels\<close>

lemma assignLevels_other: "a \<notin> fst ` set xs \<Longrightarrow> map_of (assignLevels i xs m) a = map_of m a"
  by (induction i xs m rule: assignLevels.induct) auto

lemma assignLevels_nth:
  "distinct (map fst xs) \<Longrightarrow> j < length xs \<Longrightarrow>
   map_of (assignLevels i xs m) (fst (xs ! j)) = (if i + j < 5 then Some (5 - int (i + j)) else map_of m (fst (xs ! j)))"
proof (induction i xs m arbitrary: j rule: assignLevels.induct)
  case (2 i p rest m)
  show ?case
  proof (cases j)
    case 0
    with 2 show ?thesis by (simp add: assignLevels_other)
  next
    case (Suc j')
    with 2 have "fst (rest ! j') \<noteq> fst p" by (auto simp: image_iff) (metis nth_mem)
    with 2 Suc show ?thesis by simp
  qed
qed simp

lemma card_below_nth:
  fixes ys :: "'a::linorder list"
  assumes "sorted_wrt (<) ys" "i < length ys"
  shows "card {y \<in> set ys. y < ys ! i} = i"
proof -
  have s: "sorted ys" "distinct ys" using assms(1) by (simp_all add: strict_sorted_iff)
  have "{y \<in> set ys. y < ys ! i} = set (take i ys)"
  proof (intro set_eqI iffI)
    fix y assume "y \<in> {y \<in> set ys. y < ys ! i}"
    then obtain j where "j < length ys" "y = ys ! j" "ys ! j < ys ! i" by (auto simp: in_set_conv_nth)
    then have "j < i" using sorted_nth_mono[OF s(1), of i j] by (meson leD not_le_imp_less)
    then show "y \<in> set (take i ys)" using \<open>y = ys ! j\<close> assms(2) by (auto simp: in_set_conv_nth intro!: exI[of _ j])
  next
    fix y assume "y \<in> set (take i ys)"
    then obtain j where "j < i" "y = ys ! j" using assms(2) by (auto simp: in_set_conv_nth)
    then show "y \<in> {y \<in> set ys. y < ys ! i}" using assms sorted_wrt_nth_less[OF assms(1), of j i] by simp
  qed
  then show ?thesis using s(2) assms(2) by (simp add: distinct_card)
qed

abbreviation alarm_rank :: "string \<times> int \<Rightarrow> int \<times> string" where
  "alarm_rank p \<equiv> (- snd p, fst p)"

lemma inj_alarm_rank: "inj alarm_rank"
  by (auto simp: inj_def)

lemma sortAlarms_facts:
  "set (sortAlarms xs) = set xs" "length (sortAlarms xs) = length xs"
  "distinct (map fst xs) \<Longrightarrow> distinct (map fst (sortAlarms xs))"
  "distinct xs \<Longrightarrow> sorted_wrt (<) (map alarm_rank (sortAlarms xs))"
proof -
  have m: "mset (sortAlarms xs) = mset xs" by (simp add: sortAlarms_def)
  show "set (sortAlarms xs) = set xs" "length (sortAlarms xs) = length xs" by (simp_all add: sortAlarms_def)
  show "distinct (map fst xs) \<Longrightarrow> distinct (map fst (sortAlarms xs))"
    using m by (metis mset_eq_imp_distinct_iff mset_map)
  assume d: "distinct xs"
  have "sorted (map alarm_rank (sortAlarms xs))" by (simp add: sortAlarms_def)
  moreover have "distinct (map alarm_rank (sortAlarms xs))"
    using d inj_on_subset[OF inj_alarm_rank] by (simp add: distinct_map sortAlarms_def)
  ultimately show "sorted_wrt (<) (map alarm_rank (sortAlarms xs))" by (simp add: strict_sorted_iff)
qed

lemma assigned_level_is_rank:
  assumes "distinct (map fst V)"
  shows "qm_value (assignLevels 0 (sortAlarms V) []) a 0 =
    (case map_of V a of
       None \<Rightarrow> 0
     | Some sc \<Rightarrow> max 0 (5 - int (card {p \<in> set V. snd p > sc \<or> (snd p = sc \<and> fst p < a)})))"
proof -
  let ?S = "sortAlarms V"
  have d: "distinct V" using assms by (simp add: distinct_map)
  note f = sortAlarms_facts[of V]
  show ?thesis
  proof (cases "map_of V a")
    case None
    then have "a \<notin> fst ` set ?S" using f(1) by (simp add: map_of_eq_None_iff)
    then show ?thesis using None by (simp add: qm_value_def assignLevels_other)
  next
    case (Some sc)
    then have "(a, sc) \<in> set ?S" using f(1) by (simp add: map_of_SomeD)
    then obtain j where j: "j < length ?S" "?S ! j = (a, sc)" by (auto simp: in_set_conv_nth)
    have "card {y \<in> set (map alarm_rank ?S). y < map alarm_rank ?S ! j} = j"
      using j(1) f(4)[OF d] by (intro card_below_nth) simp_all
    moreover have "{y \<in> set (map alarm_rank ?S). y < map alarm_rank ?S ! j} =
        alarm_rank ` {p \<in> set V. snd p > sc \<or> (snd p = sc \<and> fst p < a)}"
      using j f(1) by (auto simp: less_prod_def')
    ultimately have "card {p \<in> set V. snd p > sc \<or> (snd p = sc \<and> fst p < a)} = j"
      by (simp add: card_image inj_on_subset[OF inj_alarm_rank])
    then show ?thesis using Some j assignLevels_nth[OF f(3)[OF assms] j(1), of 0 "[]"]
      by (simp add: qm_value_def)
  qed
qed

abbreviation candidates :: "publish_env \<Rightarrow> int \<Rightarrow> alarm_state \<Rightarrow> (string \<times> int) list" where
  "candidates E now s \<equiv> validRuleAlarms E now (mapAlarmData s) @ validManualAlarms E now (manualAlarmData s)"

text \<open>
  The level shown for an alarm is its rank: among the alarms that are tracked and at most five
  seconds old, five minus the number of alarms that beat it (a higher score, or the same score and
  a smaller id), but never less than zero; every other alarm has level zero.
\<close>

theorem level_is_rank:
  assumes "distinct (map fst (candidates E now s))"
  shows "qm_value (alarmLevelMap E now s) a 0 =
    (case map_of (candidates E now s) a of
       None \<Rightarrow> 0
     | Some sc \<Rightarrow> max 0 (5 - int (card {p \<in> set (candidates E now s).
           snd p > sc \<or> (snd p = sc \<and> fst p < a)})))"
  using assigned_level_is_rank[OF assms] by (simp only: alarmLevelMap_def)

definition alarm_at :: "string \<Rightarrow> int \<Rightarrow> int \<Rightarrow> string \<times> AlarmData" where
  "alarm_at aid uid score = (aid, sample_alarm aid uid score)"

definition sample_publish :: publish_env where
  "sample_publish = \<lparr>pe_text = ascii_text, pe_ident = sample_ident, pe_identRules = sample_rules,
     pe_logic = default_logic, pe_alarmRules = [(''c1'', sample_rule)],
     pe_tables = no_tracks\<lparr>tt_fuse := map (\<lambda>u. (u, zero_track\<lparr>uniqueID := u\<rparr>)) [1 .. 9]\<rparr>,
     pe_content = (\<lambda>_ _ _ _. []), pe_publishEvent = True, pe_ddsReady = True, pe_multi = True, pe_single = False\<rparr>"

definition ranked_state :: alarm_state where
  "ranked_state = empty_state\<lparr>mapAlarmData :=
     [alarm_at ''a'' 1 10, alarm_at ''b'' 2 90, alarm_at ''c'' 3 50, alarm_at ''d'' 4 90, alarm_at ''e'' 5 70,
      alarm_at ''f'' 6 20, alarm_at ''g'' 77 95]\<rparr>"

theorem level_is_rank_witness:
  "map (\<lambda>a. qm_value (alarmLevelMap sample_publish 2000 ranked_state) a 0) [''b'', ''d'', ''e'', ''c'', ''f'', ''a'', ''g'']
     = [5, 4, 3, 2, 1, 0, 0]"
proof -
  have c: "candidates sample_publish 2000 ranked_state =
      [(''a'', 10), (''b'', 90), (''c'', 50), (''d'', 90), (''e'', 70), (''f'', 20)]" by code_simp
  have d: "distinct (map fst (candidates sample_publish 2000 ranked_state))" unfolding c by simp
  show ?thesis unfolding list.map level_is_rank[OF d] unfolding c by code_simp
qed

section \<open>Facts: what is published\<close>

lemma silenced_resolved [simp]: "silenced now u (resolved_state t ad s) = silenced now u s"
  by (simp add: silenced_def resolved_state_def)

lemma resolved_state_fields [simp]:
  "mapAlarmData (resolved_state t ad s) = mapAlarmData s" "manualAlarmData (resolved_state t ad s) = manualAlarmData s"
  "alarmFilterExpireMs (resolved_state t ad s) = alarmFilterExpireMs s"
  "manualConfirmedUniqueIds (resolved_state t ad s) = manualConfirmedUniqueIds s"
  "manualConfirmResolvedTime (resolved_state t ad s) = manualConfirmResolvedTime s"
  "manualAlarmAirTrack (resolved_state t ad s) = manualAlarmAirTrack s"
  "mapTargetType (resolved_state t ad s) = mapTargetType s"
  by (simp_all add: resolved_state_def)

text \<open>Two states that agree on everything but expired filters and resolution times.\<close>

definition same_alarms :: "int \<Rightarrow> alarm_state \<Rightarrow> alarm_state \<Rightarrow> bool" where
  "same_alarms now s s' \<longleftrightarrow> mapAlarmData s' = mapAlarmData s \<and> manualAlarmData s' = manualAlarmData s \<and>
     manualAlarmAirTrack s' = manualAlarmAirTrack s \<and> mapTargetType s' = mapTargetType s \<and>
     manualConfirmedUniqueIds s' = manualConfirmedUniqueIds s \<and>
     manualConfirmResolvedTime s' = manualConfirmResolvedTime s \<and> qm_ok (alarmFilterExpireMs s') \<and>
     (\<forall>u. silenced now u s' = silenced now u s)"

lemma same_alarms_trans: "same_alarms now s s' \<Longrightarrow> same_alarms now s' s'' \<Longrightarrow> same_alarms now s s''"
  by (simp add: same_alarms_def)

lemma same_alarms_filtered:
  assumes "qm_ok (alarmFilterExpireMs s)"
  shows "same_alarms now s (snd (isUniqueIdAlarmFiltered now u s))"
  using assms silenced_prune[OF assms order.refl, of now] by (auto simp: same_alarms_def isFiltered_state qm_ok_pruneExpired)

lemma same_alarms_resolve:
  assumes "qm_ok (alarmFilterExpireMs s)" "resolveRuleAlarmDisposition T I R al now ad s = (d, s', ops)"
  shows "same_alarms now s s'"
  using assms by (auto simp: same_alarms_def resolve_eq split: if_splits)

lemma isFiltered_resolvedTime [simp]:
  "identificationResolvedTime (snd (isUniqueIdAlarmFiltered now u s)) = identificationResolvedTime s"
  by (simp add: isFiltered_state)

text \<open>The disposition of an alarm depends on its own resolution time only.\<close>

lemma disposition_cong:
  "same_alarms now s s' \<Longrightarrow>
   map_of (identificationResolvedTime s') (alarm_id ad) = map_of (identificationResolvedTime s) (alarm_id ad) \<Longrightarrow>
   fst (resolveRuleAlarmDisposition T I R al now ad s') = fst (resolveRuleAlarmDisposition T I R al now ad s)"
  by (auto simp: resolve_eq same_alarms_def resolved_state_has split: option.splits)

lemma resolve_other_time:
  "alarm_id ad \<noteq> a \<Longrightarrow>
   map_of (identificationResolvedTime (fst (snd (resolveRuleAlarmDisposition T I R al now ad s)))) a =
   map_of (identificationResolvedTime s) a"
  by (simp add: resolve_eq resolved_state_def)

definition publishable :: "int \<Rightarrow> alarm_state \<Rightarrow> AlarmData \<Rightarrow> bool" where
  "publishable now s ad \<longleftrightarrow> \<not> (0 < unique_id ad \<and> silenced now (unique_id ad) s) \<and> now - alarm_time ad \<le> 600000"

abbreviation disposition_of :: "publish_env \<Rightarrow> int \<Rightarrow> alarm_state \<Rightarrow> AlarmData \<Rightarrow> disposition" where
  "disposition_of E now s ad \<equiv>
     fst (resolveRuleAlarmDisposition (pe_text E) (pe_ident E) (pe_identRules E) (pe_logic E) now ad s)"

lemma publishable_cong: "same_alarms now s s' \<Longrightarrow> publishable now s' ad = publishable now s ad"
  by (simp add: publishable_def same_alarms_def)

lemma ruleInfos_spec:
  assumes "qm_ok (alarmFilterExpireMs s)" "distinct (map (alarm_id \<circ> snd) m)"
  shows "fst (ruleInfos E now levels m s) =
      map (\<lambda>p. rule_info E levels (snd p) (disposition_of E now s (snd p))) (filter (\<lambda>p. publishable now s (snd p)) m)
    \<and> same_alarms now s (fst (snd (ruleInfos E now levels m s)))"
  using assms
proof (induction E now levels m s rule: ruleInfos.induct)
  case (1 E now levels s)
  then show ?case by (simp add: same_alarms_def)
next
  case (2 E now levels k ad rest s)
  obtain b s1 where f: "isUniqueIdAlarmFiltered now (unique_id ad) s = (b, s1)" by fastforce
  have b: "b = (0 < unique_id ad \<and> silenced now (unique_id ad) s)"
    using isFiltered_iff[OF 2(4), of now "unique_id ad"] f by simp
  have s1: "same_alarms now s s1" using same_alarms_filtered[OF 2(4), of now "unique_id ad"] f by simp
  have t1: "identificationResolvedTime s1 = identificationResolvedTime s"
    using isFiltered_resolvedTime[of now "unique_id ad" s] f by simp
  have ok1: "qm_ok (alarmFilterExpireMs s1)" using s1 by (simp add: same_alarms_def)
  have d: "distinct (map (alarm_id \<circ> snd) rest)" using 2(5) by (simp add: o_def)
  have fresh: "alarm_id (snd p) \<noteq> alarm_id ad" if "p \<in> set rest" for p using 2(5) that by (auto simp: image_iff)
  have cong: "map (\<lambda>p. rule_info E levels (snd p) (disposition_of E now s' (snd p))) (filter (\<lambda>p. publishable now s' (snd p)) rest)
      = map (\<lambda>p. rule_info E levels (snd p) (disposition_of E now s (snd p))) (filter (\<lambda>p. publishable now s (snd p)) rest)"
    if "same_alarms now s s'" "\<And>p. p \<in> set rest \<Longrightarrow> map_of (identificationResolvedTime s') (alarm_id (snd p)) =
        map_of (identificationResolvedTime s) (alarm_id (snd p))" for s'
    using that by (auto intro!: map_cong filter_cong simp: publishable_cong disposition_cong)
  show ?case
  proof (cases "publishable now s ad")
    case False
    then have skip: "ruleInfos E now levels ((k, ad) # rest) s = ruleInfos E now levels rest s1"
      using b f by (auto simp: publishable_def)
    have "fst (ruleInfos E now levels rest s1) =
        map (\<lambda>p. rule_info E levels (snd p) (disposition_of E now s1 (snd p))) (filter (\<lambda>p. publishable now s1 (snd p)) rest) \<and>
      same_alarms now s1 (fst (snd (ruleInfos E now levels rest s1)))"
    proof (cases b)
      case True
      then show ?thesis using 2(1)[OF f[symmetric] refl _ ok1 d] by simp
    next
      case nb: False
      then have "600 * 1000 < now - alarm_time ad" using False b by (auto simp: publishable_def)
      then show ?thesis using 2(2)[OF f[symmetric] refl nb _ ok1 d] by simp
    qed
    then show ?thesis using skip False cong[OF s1] t1 same_alarms_trans[OF s1] by simp
  next
    case True
    then have nb: "\<not> b" and old: "\<not> 600 * 1000 < now - alarm_time ad" using b by (auto simp: publishable_def)
    obtain e s2 ops where r: "resolveRuleAlarmDisposition (pe_text E) (pe_ident E) (pe_identRules E) (pe_logic E) now ad s1
        = (e, s2, ops)" by (metis surj_pair)
    have s2: "same_alarms now s s2" using same_alarms_trans[OF s1 same_alarms_resolve[OF ok1 r]] .
    have ok2: "qm_ok (alarmFilterExpireMs s2)" using s2 by (simp add: same_alarms_def)
    have e: "e = disposition_of E now s ad" using disposition_cong[OF s1, of ad] t1 r by (metis fst_conv)
    have t2: "map_of (identificationResolvedTime s2) (alarm_id (snd p)) = map_of (identificationResolvedTime s) (alarm_id (snd p))"
      if "p \<in> set rest" for p
      using resolve_other_time[of ad "alarm_id (snd p)"] fresh[OF that] r t1 by (metis fst_conv snd_conv)
    have "fst (ruleInfos E now levels rest s2) =
        map (\<lambda>p. rule_info E levels (snd p) (disposition_of E now s2 (snd p))) (filter (\<lambda>p. publishable now s2 (snd p)) rest) \<and>
      same_alarms now s2 (fst (snd (ruleInfos E now levels rest s2)))"
      using 2(3)[OF f[symmetric] refl nb old r[symmetric] refl refl ok2 d] .
    then show ?thesis using True nb old f r e cong[OF s2 t2] same_alarms_trans[OF s2]
      by (simp add: Let_def case_prod_beta)
  qed
qed

lemma manualInfos_spec:
  assumes "qm_ok (alarmFilterExpireMs s)"
  shows "fst (manualInfos E now levels m s) =
      map (\<lambda>p. manual_info levels (qm_value (manualAlarmAirTrack s) (unique_id (snd p)) False)
             (qm_value (manualConfirmResolvedTime s) (unique_id (snd p)) (alarm_time (snd p))) (snd p))
        (filter (\<lambda>p. publishable now s (snd p) \<and> findTrackByUniqueId (pe_tables E) (unique_id (snd p)) \<noteq> None) m)
    \<and> same_alarms now s (snd (manualInfos E now levels m s))"
  using assms
proof (induction m arbitrary: s)
  case (Cons p rest)
  obtain k ad where p: "p = (k, ad)" by fastforce
  obtain b s1 where f: "isUniqueIdAlarmFiltered now (unique_id ad) s = (b, s1)" by fastforce
  have b: "b = (0 < unique_id ad \<and> silenced now (unique_id ad) s)"
    using isFiltered_iff[OF Cons.prems, of now "unique_id ad"] f by simp
  have s1: "same_alarms now s s1" using same_alarms_filtered[OF Cons.prems, of now "unique_id ad"] f by simp
  have ok1: "qm_ok (alarmFilterExpireMs s1)" using s1 by (simp add: same_alarms_def)
  have "publishable now s1 = publishable now s" using publishable_cong[OF s1] by blast
  with Cons.IH[OF ok1] s1 b f same_alarms_trans[OF s1] show ?case
    by (simp add: p Let_def case_prod_beta same_alarms_def) (auto simp: publishable_def)
qed (simp add: same_alarms_def)

lemma typeInfos_spec:
  assumes "qm_ok (alarmFilterExpireMs s)" "i \<in> set (fst (typeInfos E now processed m s))"
  shows "ai_alarmId i = ''-1'' \<and> ai_trackId i \<in> fst ` set m \<and> ai_trackId i \<notin> set processed \<and>
    (\<exists>uid > 0. toLongLong (pe_text E) (qs (ai_trackId i)) = Some uid \<and> \<not> silenced now uid s \<and>
       typeTrack (pe_tables E) uid \<noteq> None)"
  using assms
proof (induction m arbitrary: s)
  case (Cons p rest)
  obtain k cls where p: "p = (k, cls)" by fastforce
  show ?case
  proof (cases "k \<in> set processed \<or> toLongLong (pe_text E) (qs k) = None \<or> the (toLongLong (pe_text E) (qs k)) \<le> 0")
    case True
    then have "typeInfos E now processed (p # rest) s = typeInfos E now processed rest s"
      by (cases "toLongLong (pe_text E) (qs k)") (auto simp: p)
    then show ?thesis using Cons by auto
  next
    case False
    then obtain uid where u: "toLongLong (pe_text E) (qs k) = Some uid" "0 < uid" "k \<notin> set processed" by auto
    obtain b s1 where f: "isUniqueIdAlarmFiltered now uid s = (b, s1)" by fastforce
    have b: "b = silenced now uid s" using isFiltered_iff[OF Cons.prems(1), of now uid] f u by simp
    have s1: "same_alarms now s s1" using same_alarms_filtered[OF Cons.prems(1), of now uid] f by simp
    have ok1: "qm_ok (alarmFilterExpireMs s1)" using s1 by (simp add: same_alarms_def)
    note IH = Cons.IH[OF ok1]
    show ?thesis using Cons.prems(2) u f b IH s1
      by (auto simp: p Let_def case_prod_beta type_info_def same_alarms_def split: if_splits option.splits)
  qed
qed simp

lemma same_alarms_typeInfos:
  "qm_ok (alarmFilterExpireMs s) \<Longrightarrow> same_alarms now s (snd (typeInfos E now processed m s))"
proof (induction m arbitrary: s)
  case (Cons p rest)
  obtain k cls where p: "p = (k, cls)" by fastforce
  have "same_alarms now s (snd (typeInfos E now processed rest (snd (isUniqueIdAlarmFiltered now u s))))" for u
    using Cons same_alarms_filtered[OF Cons.prems, of now u] by (auto intro: same_alarms_trans simp: same_alarms_def)
  then show ?case using Cons by (auto simp: p Let_def case_prod_beta split: option.splits)
qed (simp add: same_alarms_def)

lemma sync_frame:
  "mapAlarmData (syncManualAlarmsBeforePublish al content now cfg s) = mapAlarmData s"
  "alarmFilterExpireMs (syncManualAlarmsBeforePublish al content now cfg s) = alarmFilterExpireMs s"
  "identificationResolvedTime (syncManualAlarmsBeforePublish al content now cfg s) = identificationResolvedTime s"
  "manualConfirmedUniqueIds (syncManualAlarmsBeforePublish al content now cfg s) = manualConfirmedUniqueIds s"
  "manualConfirmResolvedTime (syncManualAlarmsBeforePublish al content now cfg s) = manualConfirmResolvedTime s"
  "silenced now u (syncManualAlarmsBeforePublish al content now cfg s) = silenced now u s"
  by (simp_all add: syncManualAlarmsBeforePublish_def case_prod_beta)

abbreviation synced_state :: "publish_env \<Rightarrow> int \<Rightarrow> alarm_state \<Rightarrow> alarm_state" where
  "synced_state E now s \<equiv> syncManualAlarmsBeforePublish (pe_logic E) (pe_content E) now (pe_tables E) s"

lemma synced_publishable: "publishable now (synced_state E now s) ad = publishable now s ad"
  by (simp add: publishable_def sync_frame)

lemma synced_disposition: "disposition_of E now (synced_state E now s) ad = disposition_of E now s ad"
  by (simp add: resolve_eq resolved_state_has sync_frame split: option.split)

lemma alarm_ids_distinct: "alarms_ok s \<Longrightarrow> distinct (map (alarm_id \<circ> snd) (mapAlarmData s))"
proof -
  assume ok: "alarms_ok s"
  have d: "distinct (map fst (mapAlarmData s))" using ok by (simp add: alarms_ok_def qm_ok_distinct)
  then have "map (alarm_id \<circ> snd) (mapAlarmData s) = map fst (mapAlarmData s)"
    using ok by (force simp: alarms_ok_def)
  then show ?thesis using d by (simp only:)
qed

lemma info_ids [simp]:
  "ai_alarmId (rule_info E levels ad d) = alarm_id ad"
  "ai_trackId (rule_info E levels ad d) = dec_int (unique_id ad)"
  "ai_alarmId (manual_info levels air t ad) = alarm_id ad"
  "ai_trackId (manual_info levels air t ad) = dec_int (unique_id ad)"
  by (simp_all add: rule_info_def manual_info_def)

text \<open>The entries a state gives rise to, in closed form.\<close>

definition rule_part :: "publish_env \<Rightarrow> int \<Rightarrow> alarm_state \<Rightarrow> AlarmInfo list" where
  "rule_part E now s =
     map (\<lambda>p. rule_info E (alarmLevelMap E now (synced_state E now s)) (snd p) (disposition_of E now s (snd p)))
       (filter (\<lambda>p. publishable now s (snd p)) (mapAlarmData s))"

definition manual_part :: "publish_env \<Rightarrow> int \<Rightarrow> alarm_state \<Rightarrow> AlarmInfo list" where
  "manual_part E now s =
     map (\<lambda>p. manual_info (alarmLevelMap E now (synced_state E now s))
              (qm_value (manualAlarmAirTrack (synced_state E now s)) (unique_id (snd p)) False)
              (qm_value (manualConfirmResolvedTime s) (unique_id (snd p)) (alarm_time (snd p))) (snd p))
       (filter (\<lambda>p. publishable now s (snd p) \<and> findTrackByUniqueId (pe_tables E) (unique_id (snd p)) \<noteq> None)
          (manualAlarmData (synced_state E now s)))"

lemma set_rule_part:
  "i \<in> set (rule_part E now s) \<Longrightarrow> \<exists>p \<in> set (mapAlarmData s). publishable now s (snd p) \<and>
     ai_alarmId i = alarm_id (snd p) \<and> ai_trackId i = dec_int (unique_id (snd p))"
  unfolding rule_part_def set_map set_filter by auto

lemma rule_part_has:
  "p \<in> set (mapAlarmData s) \<Longrightarrow> publishable now s (snd p) \<Longrightarrow>
     \<exists>i \<in> set (rule_part E now s). ai_alarmId i = alarm_id (snd p)"
  unfolding rule_part_def set_map set_filter by (simp only: bex_simps info_ids) blast

lemma set_manual_part:
  "i \<in> set (manual_part E now s) \<Longrightarrow> \<exists>p \<in> set (manualAlarmData (synced_state E now s)). publishable now s (snd p) \<and>
     findTrackByUniqueId (pe_tables E) (unique_id (snd p)) \<noteq> None \<and>
     ai_alarmId i = alarm_id (snd p) \<and> ai_trackId i = dec_int (unique_id (snd p))"
  unfolding manual_part_def set_map set_filter by auto

lemma manual_part_has:
  "p \<in> set (manualAlarmData (synced_state E now s)) \<Longrightarrow> publishable now s (snd p) \<Longrightarrow>
     findTrackByUniqueId (pe_tables E) (unique_id (snd p)) \<noteq> None \<Longrightarrow>
     \<exists>i \<in> set (manual_part E now s). ai_alarmId i = alarm_id (snd p)"
  unfolding manual_part_def set_map set_filter by (simp only: bex_simps info_ids) blast

lemma SendAll_shape:
  assumes "alarms_ok s" and "SendAllAlarmEventMsg E now s = (Some infos, s', ops)"
    and "mapAlarmData s \<noteq> [] \<or> manualAlarmData (synced_state E now s) \<noteq> []"
  shows "\<exists>processed m s3. same_alarms now (synced_state E now s) s3 \<and>
    infos = rule_part E now s @ manual_part E now s @ fst (typeInfos E now processed m s3) \<and>
    processed = processedTargetIds (synced_state E now s) \<and> m = mapTargetType (synced_state E now s) \<and>
    same_alarms now (synced_state E now s) s'"
proof -
  let ?s1 = "synced_state E now s" let ?L = "alarmLevelMap E now ?s1"
  obtain rules s2 ops2 where r: "ruleInfos E now ?L (mapAlarmData ?s1) ?s1 = (rules, s2, ops2)" by (metis surj_pair)
  obtain manuals s3 where m: "manualInfos E now ?L (manualAlarmData ?s1) s2 = (manuals, s3)" by (metis surj_pair)
  obtain types s4 where t: "typeInfos E now (processedTargetIds s3) (mapTargetType s3) s3 = (types, s4)" by (metis surj_pair)
  have ok: "qm_ok (alarmFilterExpireMs ?s1)" "distinct (map (alarm_id \<circ> snd) (mapAlarmData ?s1))"
    using assms(1) alarm_ids_distinct by (simp_all add: sync_frame alarms_ok_def)
  have e: "infos = rules @ manuals @ types" "s' = s4"
    using assms(2,3) r m t by (auto simp: SendAllAlarmEventMsg_def Let_def sync_frame split: if_splits)
  note R = ruleInfos_spec[OF ok, of E now ?L, unfolded r, simplified]
  have ok2: "qm_ok (alarmFilterExpireMs s2)" using R by (simp add: same_alarms_def)
  note M = manualInfos_spec[OF ok2, of E now ?L "manualAlarmData ?s1", unfolded m, simplified]
  have s3: "same_alarms now ?s1 s3" using R M same_alarms_trans by blast
  have s4: "same_alarms now ?s1 s4"
    using same_alarms_typeInfos[of s3 now E "processedTargetIds s3" "mapTargetType s3"] t s3 same_alarms_trans[OF s3]
    by (simp add: same_alarms_def)
  have p: "processedTargetIds s3 = processedTargetIds ?s1" "mapTargetType s3 = mapTargetType ?s1"
    using s3 by (simp_all add: same_alarms_def processedTargetIds_def)
  have pub: "publishable now s2 = publishable now s" "publishable now ?s1 = publishable now s"
    using publishable_cong[of now ?s1 s2] R synced_publishable by blast+
  have maps: "manualAlarmAirTrack s2 = manualAlarmAirTrack ?s1" "manualConfirmResolvedTime s2 = manualConfirmResolvedTime s"
    using R by (simp_all add: same_alarms_def sync_frame)
  have "rules = rule_part E now s"
    using R pub by (simp only: synced_disposition) (simp add: sync_frame rule_part_def)
  moreover have "manuals = manual_part E now s"
    using M pub maps by (simp add: manual_part_def)
  ultimately show ?thesis using e s3 s4 t p by (intro exI[of _ "processedTargetIds ?s1"] exI[of _ "mapTargetType ?s1"] exI[of _ s3]) simp
qed

lemma SendAll_entry:
  assumes "alarms_ok s" and "SendAllAlarmEventMsg E now s = (Some infos, s', ops)"
    and "mapAlarmData s \<noteq> [] \<or> manualAlarmData (synced_state E now s) \<noteq> []" and "i \<in> set infos"
  obtains (rule) p where "p \<in> set (mapAlarmData s)" "publishable now s (snd p)"
      "ai_alarmId i = alarm_id (snd p)" "ai_trackId i = dec_int (unique_id (snd p))"
  | (manual) p where "p \<in> set (manualAlarmData (synced_state E now s))" "publishable now s (snd p)"
      "findTrackByUniqueId (pe_tables E) (unique_id (snd p)) \<noteq> None"
      "ai_alarmId i = alarm_id (snd p)" "ai_trackId i = dec_int (unique_id (snd p))"
  | (hand) uid where "ai_alarmId i = ''-1''" "0 < uid" "\<not> silenced now uid s"
      "toLongLong (pe_text E) (qs (ai_trackId i)) = Some uid"
proof -
  from SendAll_shape[OF assms(1,2,3)] assms(4) obtain processed m s3 where s3: "same_alarms now (synced_state E now s) s3"
    and c: "i \<in> set (rule_part E now s) \<or> i \<in> set (manual_part E now s) \<or> i \<in> set (fst (typeInfos E now processed m s3))"
    by auto
  have "qm_ok (alarmFilterExpireMs s3)" "silenced now u s3 = silenced now u s" for u
    using s3 by (simp_all add: same_alarms_def sync_frame)
  with c typeInfos_spec[of s3 i E now processed m] set_rule_part[of i E now s] set_manual_part[of i E now s] that
  show ?thesis by metis
qed

text \<open>
  C15. The alarm event is exact: it opens with one entry per rule alarm that is not silenced and was
  refreshed within ten minutes, in the order of the table and with the disposition the alarm has
  of its own (\<open>rule_part\<close>), then one per such manual alarm whose target is tracked (\<open>manual_part\<close>);
  every further entry is a target whose type was set by hand, is tracked, not silenced, and has no
  alarm of either kind.
\<close>

theorem event_content_exact:
  assumes "alarms_ok s" and "SendAllAlarmEventMsg E now s = (Some infos, s', ops)"
    and "s1 = syncManualAlarmsBeforePublish (pe_logic E) (pe_content E) now (pe_tables E) s"
    and "mapAlarmData s \<noteq> [] \<or> manualAlarmData s1 \<noteq> []"
  shows "\<exists>types. infos = rule_part E now s @ manual_part E now s @ types \<and>
    (\<forall>i \<in> set types. ai_alarmId i = ''-1'' \<and> ai_trackId i \<in> fst ` set (mapTargetType s) \<and>
       ai_trackId i \<notin> set (processedTargetIds s1) \<and>
       (\<exists>uid > 0. toLongLong (pe_text E) (qs (ai_trackId i)) = Some uid \<and> \<not> silenced now uid s \<and>
          typeTrack (pe_tables E) uid \<noteq> None))"
proof -
  obtain s3 where s3: "same_alarms now s1 s3" and i: "infos = rule_part E now s @ manual_part E now s
      @ fst (typeInfos E now (processedTargetIds s1) (mapTargetType s1) s3)"
    using SendAll_shape[OF assms(1,2)] assms(3,4) by auto
  have ok: "qm_ok (alarmFilterExpireMs s3)" using s3 by (simp add: same_alarms_def)
  have t: "mapTargetType s1 = mapTargetType s" "silenced now u s3 = silenced now u s" for u
    using s3 assms(3) by (simp_all add: same_alarms_def sync_frame)
      (simp add: syncManualAlarmsBeforePublish_def case_prod_beta)
  show ?thesis using i typeInfos_spec[OF ok, of _ E now "processedTargetIds s1" "mapTargetType s1"] t
    by (intro exI[of _ "fst (typeInfos E now (processedTargetIds s1) (mapTargetType s1) s3)"]) simp
qed

text \<open>
  No entry of a published event is about a silenced target: whatever the id an entry stands
  for (the decimal number it carries, or the number its text parses to), no filter is in force
  for it.
\<close>

theorem no_silenced_target_published:
  assumes "alarms_ok s" and "SendAllAlarmEventMsg E now s = (Some infos, s', ops)" and "i \<in> set infos"
  shows "\<exists>uid. (ai_trackId i = dec_int uid \<or> toLongLong (pe_text E) (qs (ai_trackId i)) = Some uid) \<and>
    \<not> (0 < uid \<and> silenced now uid s)"
proof (cases "mapAlarmData s \<noteq> [] \<or> manualAlarmData (synced_state E now s) \<noteq> []")
  case True
  show ?thesis using SendAll_entry[OF assms(1,2) True assms(3)] by cases (auto simp: publishable_def)
next
  case False
  then have "infos = []" using assms(2)
    by (auto simp: SendAllAlarmEventMsg_def Let_def sync_frame split: if_splits)
  with assms(3) show ?thesis by simp
qed

definition one_alarm :: alarm_state where
  "one_alarm = empty_state\<lparr>mapAlarmData := [alarm_at ''a'' 7 60]\<rparr>"

lemma one_alarm_ok: "alarms_ok one_alarm" "mapAlarmData one_alarm \<noteq> []" "\<not> silenced now u one_alarm"
  "publishable 2000 one_alarm (snd (alarm_at ''a'' 7 60))" "mapAlarmData one_alarm = [alarm_at ''a'' 7 60]"
  "manualAlarmData one_alarm = []"
  by (simp_all add: one_alarm_def alarms_ok_def alarm_at_def sample_alarm_def empty_state_def silenced_def publishable_def
      qm_ok_def)

lemma sample_sends: "\<exists>infos s' ops. SendAllAlarmEventMsg sample_publish now s = (Some infos, s', ops)"
  by (simp add: SendAllAlarmEventMsg_def sample_publish_def Let_def case_prod_beta)

theorem event_content_exact_witness:
  "\<exists>infos s' ops types. SendAllAlarmEventMsg sample_publish 2000 one_alarm = (Some infos, s', ops) \<and>
     infos = rule_part sample_publish 2000 one_alarm @ manual_part sample_publish 2000 one_alarm @ types \<and>
     length (rule_part sample_publish 2000 one_alarm) = 1"
proof -
  obtain infos s' ops where r: "SendAllAlarmEventMsg sample_publish 2000 one_alarm = (Some infos, s', ops)"
    using sample_sends by blast
  have "length (rule_part sample_publish 2000 one_alarm) = 1" using one_alarm_ok(4) by (simp add: rule_part_def one_alarm_ok(5))
  then show ?thesis using event_content_exact[OF one_alarm_ok(1) r refl] one_alarm_ok(2) r by blast
qed

theorem no_silenced_target_published_witness:
  "\<exists>infos s' ops i uid. SendAllAlarmEventMsg sample_publish 2000 one_alarm = (Some infos, s', ops) \<and> i \<in> set infos \<and>
     (ai_trackId i = dec_int uid \<or> toLongLong ascii_text (qs (ai_trackId i)) = Some uid) \<and>
     \<not> (0 < uid \<and> silenced 2000 uid one_alarm)"
proof -
  obtain infos s' ops where r: "SendAllAlarmEventMsg sample_publish 2000 one_alarm = (Some infos, s', ops)"
    using sample_sends by blast
  have "\<exists>i. i \<in> set (rule_part sample_publish 2000 one_alarm)"
    using rule_part_has[of "alarm_at ''a'' 7 60" one_alarm 2000 sample_publish] one_alarm_ok(4,5) by auto
  moreover have "set (rule_part sample_publish 2000 one_alarm) \<subseteq> set infos"
    using SendAll_shape[OF one_alarm_ok(1) r] one_alarm_ok(2) by auto
  ultimately obtain i where i: "i \<in> set infos" by blast
  have "pe_text sample_publish = ascii_text" by (simp add: sample_publish_def)
  then show ?thesis using no_silenced_target_published[OF one_alarm_ok(1) r i] r i by auto
qed

section \<open>Facts: which targets are published\<close>

lemma dec_not_Nil [simp]: "dec n \<noteq> []"
  by (simp add: dec.simps[of n])

lemma dec_int_not_Nil [simp]: "dec_int i \<noteq> []"
  by (simp add: dec_int_def)

lemma map_filter_set: "set (List.map_filter f xs) = {y. \<exists>x \<in> set xs. f x = Some y}"
  by (force simp: List.map_filter_def)

lemma take_qs [simp]: "take n (qs s) = qs (take n s)"
  by (simp add: qs_def take_map)

lemma find_qs_map_of [simp]: "find_qs m (qs k) = map_of m k"
  by (induction m) (auto simp: find_qs_def)

text \<open>Ids as the program makes them: no blanks to trim, none empty, none equal to the \<open>-1\<close>
  of an entry without an alarm; a manual alarm is filed under the id of its target.\<close>

definition plain_ids :: "qt_text \<Rightarrow> alarm_state \<Rightarrow> bool" where
  "plain_ids T s \<longleftrightarrow> trimmed T (qs ''-1'') = qs ''-1'' \<and>
     (\<forall>k \<in> fst ` set (mapAlarmData s). k \<noteq> [] \<and> k \<noteq> ''-1'' \<and> trimmed T (qs k) = qs k) \<and>
     (\<forall>k ad. (k, ad) \<in> set (manualAlarmData s) \<longrightarrow> 0 < unique_id ad \<and> alarm_id ad = k \<and>
        k = manual_id (unique_id ad) \<and> trimmed T (qs k) = qs k \<and> k \<notin> fst ` set (mapAlarmData s))"

text \<open>The targets an event speaks of: those of its rule alarms and of its manual alarms.\<close>

definition alarmed_targets :: "publish_env \<Rightarrow> int \<Rightarrow> alarm_state \<Rightarrow> int set" where
  "alarmed_targets E now s =
     {unique_id ad |ad. ad \<in> snd ` set (mapAlarmData s) \<and> publishable now s ad} \<union>
     {unique_id ad |ad. ad \<in> snd ` set (manualAlarmData s) \<and>
        findTrackByUniqueId (pe_tables E) (unique_id ad) \<noteq> None \<and> \<not> silenced now (unique_id ad) s}"

lemma synced_manual:
  "manualAlarmData (synced_state E now s) =
     map (\<lambda>(k, p). (k, synced (pe_logic E) (pe_content E) now (pe_tables E) p))
       (filter (\<lambda>p. \<not> abandoned now (pe_tables E) (snd p)) (manualAlarmData s))"
  by (simp add: syncManualAlarmsBeforePublish_def case_prod_beta sync_loop_eq)

lemma synced_fields:
  "unique_id (synced al content now cfg p) = unique_id p"
  "alarm_id (synced al content now cfg p) =
     (if findTrackByUniqueId cfg (unique_id p) = None then alarm_id p else manual_id (unique_id p))"
  "findTrackByUniqueId cfg (unique_id p) \<noteq> None \<Longrightarrow> alarm_time (synced al content now cfg p) = now"
  by (auto simp: synced_def buildManualAlarmDataFromTrack_def split: option.splits)

lemma isManual_manual_id: "isManualAlarmId (qs (manual_id u))"
  by (simp add: isManualAlarmId_def manual_id_def qs_def)

lemma map_of_entry: "distinct (map fst m) \<Longrightarrow> (k, v) \<in> set m \<Longrightarrow> map_of m k = Some v"
  by simp

lemma alarmUniqueId_rule:
  assumes "alarms_ok s" "plain_ids T s" "(k, ad) \<in> set (mapAlarmData s)" "ai_alarmId i = alarm_id ad"
  shows "alarmUniqueId T s i = Some (dec_int (unique_id ad))"
proof -
  have m: "map_of (mapAlarmData s) k = Some ad" using assms(1,3) by (simp add: alarms_ok_def qm_ok_distinct)
  have k: "alarm_id ad = k" "0 < unique_id ad" using alarms_okD(1)[OF assms(1) m] by simp_all
  have "trimmed T (qs k) = qs k" "k \<noteq> []" using assms(2,3) by (force simp: plain_ids_def)+
  with m k assms(4) show ?thesis by (simp add: alarmUniqueId_def)
qed

lemma alarmUniqueId_manual:
  assumes "plain_ids T s" "qm_ok (manualAlarmData s)" "(k, ad) \<in> set (manualAlarmData s)" "ai_alarmId i = alarm_id ad"
  shows "alarmUniqueId T s i = Some (dec_int (unique_id ad))"
proof -
  have m: "map_of (manualAlarmData s) k = Some ad" using assms(2,3) by (simp add: qm_ok_distinct)
  have k: "alarm_id ad = k" "k = manual_id (unique_id ad)" "0 < unique_id ad" "trimmed T (qs k) = qs k"
    "map_of (mapAlarmData s) k = None"
    using assms(1,3) by (auto simp: plain_ids_def map_of_eq_None_iff)
  have "k \<noteq> []" using k(2) by (simp add: manual_id_def)
  with m k assms(4) isManual_manual_id[of "unique_id ad"] show ?thesis by (simp add: alarmUniqueId_def)
qed

lemma alarmUniqueId_type:
  assumes "plain_ids T s" "ai_alarmId i = ''-1''"
  shows "alarmUniqueId T s i = None"
proof -
  have "map_of (mapAlarmData s) ''-1'' = None" using assms(1) by (auto simp: plain_ids_def map_of_eq_None_iff)
  then show ?thesis using assms by (simp add: alarmUniqueId_def plain_ids_def isManualAlarmId_def)
qed

lemma plain_ids_cong:
  "mapAlarmData s' = mapAlarmData s \<Longrightarrow> manualAlarmData s' = manualAlarmData s \<Longrightarrow> plain_ids T s' = plain_ids T s"
  by (simp add: plain_ids_def)

lemma plain_ids_synced: "plain_ids T s \<Longrightarrow> plain_ids T (synced_state E now s)"
proof -
  assume P: "plain_ids T s"
  have "0 < unique_id ad \<and> alarm_id ad = k \<and> k = manual_id (unique_id ad) \<and> trimmed T (qs k) = qs k \<and> k \<notin> fst ` set (mapAlarmData s)"
    if "(k, ad) \<in> set (manualAlarmData (synced_state E now s))" for k ad
  proof -
    from that obtain p where p: "(k, p) \<in> set (manualAlarmData s)"
      and ad: "ad = synced (pe_logic E) (pe_content E) now (pe_tables E) p"
      unfolding synced_manual by auto
    have "0 < unique_id p \<and> alarm_id p = k \<and> k = manual_id (unique_id p) \<and> trimmed T (qs k) = qs k \<and>
        k \<notin> fst ` set (mapAlarmData s)"
      using P p unfolding plain_ids_def by blast
    then show ?thesis by (elim conjE) (simp add: ad synced_fields)
  qed
  with P show ?thesis unfolding plain_ids_def sync_frame by blast
qed

lemma alarmed_from_synced:
  "alarmed_targets E now s =
     unique_id ` {ad \<in> snd ` set (mapAlarmData s). publishable now s ad} \<union>
     unique_id ` {ad \<in> snd ` set (manualAlarmData (synced_state E now s)). publishable now s ad \<and>
        findTrackByUniqueId (pe_tables E) (unique_id ad) \<noteq> None}"
proof -
  let ?sy = "synced (pe_logic E) (pe_content E) now (pe_tables E)" and ?find = "findTrackByUniqueId (pe_tables E)"
  have pos: "0 < u" if "?find u \<noteq> None" for u using that by (auto simp: findTrackByUniqueId_def split: if_splits)
  have pub: "publishable now s (?sy p) = (\<not> silenced now (unique_id p) s)" if "?find (unique_id p) \<noteq> None" for p
    using synced_fields(3)[OF that] pos[OF that] by (simp add: publishable_def synced_fields)
  have "unique_id ` {ad \<in> snd ` set (manualAlarmData (synced_state E now s)). publishable now s ad \<and> ?find (unique_id ad) \<noteq> None}
      = unique_id ` {ad \<in> ?sy ` snd ` set (filter (\<lambda>p. \<not> abandoned now (pe_tables E) (snd p)) (manualAlarmData s)).
           publishable now s ad \<and> ?find (unique_id ad) \<noteq> None}"
    unfolding synced_manual by (simp add: image_image case_prod_beta)
  also have "\<dots> = {unique_id ad |ad. ad \<in> snd ` set (manualAlarmData s) \<and> ?find (unique_id ad) \<noteq> None
        \<and> \<not> silenced now (unique_id ad) s}" (is "?L = ?R")
  proof (intro set_eqI iffI)
    fix u assume "u \<in> ?L"
    then obtain q p where q: "q = ?sy p" "u = unique_id q" "publishable now s q" "?find (unique_id q) \<noteq> None"
      and p: "p \<in> snd ` set (filter (\<lambda>p. \<not> abandoned now (pe_tables E) (snd p)) (manualAlarmData s))" by blast
    have "p \<in> snd ` set (manualAlarmData s)" using p by auto
    then show "u \<in> ?R" using q pub[of p] by (auto simp: synced_fields)
  next
    fix u assume "u \<in> ?R"
    then obtain p where p: "p \<in> snd ` set (manualAlarmData s)" "u = unique_id p" "?find (unique_id p) \<noteq> None"
      "\<not> silenced now (unique_id p) s" by blast
    then have "\<not> abandoned now (pe_tables E) p" by (simp add: abandoned_def)
    with p have "?sy p \<in> ?sy ` snd ` set (filter (\<lambda>p. \<not> abandoned now (pe_tables E) (snd p)) (manualAlarmData s))" by auto
    moreover have "u = unique_id (?sy p)" using p by (simp add: synced_fields)
    ultimately show "u \<in> ?L" using p pub[OF p(3)] by (intro image_eqI[of _ _ "?sy p"]) (simp_all add: synced_fields)
  qed
  finally show ?thesis by (auto simp: alarmed_targets_def)
qed

lemma qm_ok_map_value: "qm_ok (map (\<lambda>(k, v). (k, f v)) m) = qm_ok m"
  by (simp add: qm_ok_def comp_def case_prod_beta)

lemma alarms_ok_synced: "alarms_ok s \<Longrightarrow> alarms_ok (synced_state E now s)"
  unfolding alarms_ok_def synced_manual sync_frame by (simp add: qm_ok_map_value qm_ok_filter)

lemma alarms_ok_same: "alarms_ok s \<Longrightarrow> same_alarms now s s' \<Longrightarrow> alarms_ok s'"
  by (simp add: alarms_ok_def same_alarms_def)

lemma event_target_ids:
  assumes "alarms_ok s" "plain_ids (pe_text E) s" and "SendAllAlarmEventMsg E now s = (Some infos, s', ops)"
  shows "set (List.map_filter (alarmUniqueId (pe_text E) s') infos) = dec_int ` alarmed_targets E now s"
proof (cases "mapAlarmData s \<noteq> [] \<or> manualAlarmData (synced_state E now s) \<noteq> []")
  case False
  then have "infos = []" using assms(3) by (auto simp: SendAllAlarmEventMsg_def Let_def sync_frame split: if_splits)
  with False show ?thesis by (simp add: alarmed_from_synced List.map_filter_def)
next
  case True
  let ?T = "pe_text E" and ?s1 = "synced_state E now s"
  have s': "same_alarms now ?s1 s'" using SendAll_shape[OF assms(1,3) True] by blast
  have maps: "mapAlarmData s' = mapAlarmData s" "manualAlarmData s' = manualAlarmData ?s1"
    using s' by (simp_all add: same_alarms_def sync_frame)
  have P: "plain_ids ?T s'" using plain_ids_cong[of s' ?s1] maps plain_ids_synced[OF assms(2)] by (simp add: sync_frame)
  have ok: "alarms_ok s'" by (rule alarms_ok_same[OF alarms_ok_synced[OF assms(1)] s'])
  have okm: "qm_ok (manualAlarmData s')" using ok by (simp add: alarms_ok_def)
  have r: "alarmUniqueId ?T s' i = Some (dec_int (unique_id (snd p)))"
    if "p \<in> set (mapAlarmData s)" "ai_alarmId i = alarm_id (snd p)" for i p
    using alarmUniqueId_rule[OF ok P, of "fst p" "snd p" i] that maps by simp
  have m: "alarmUniqueId ?T s' i = Some (dec_int (unique_id (snd p)))"
    if "p \<in> set (manualAlarmData ?s1)" "ai_alarmId i = alarm_id (snd p)" for i p
    using alarmUniqueId_manual[OF P okm, of "fst p" "snd p" i] that maps by simp
  show ?thesis
  proof (intro set_eqI iffI)
    fix x assume "x \<in> set (List.map_filter (alarmUniqueId ?T s') infos)"
    then obtain i where i: "i \<in> set infos" "alarmUniqueId ?T s' i = Some x" by (auto simp: map_filter_set)
    from assms(1,3) True i(1) show "x \<in> dec_int ` alarmed_targets E now s"
    proof (cases rule: SendAll_entry)
      case (rule p)
      then show ?thesis using r[of p i] i(2) by (force simp: alarmed_from_synced)
    next
      case (manual p)
      then have "unique_id (snd p) \<in> alarmed_targets E now s" unfolding alarmed_from_synced by blast
      then show ?thesis using m[of p i] manual i(2) by force
    qed (use alarmUniqueId_type[OF P] i(2) in simp)
  next
    fix x assume "x \<in> dec_int ` alarmed_targets E now s"
    then obtain p where x: "x = dec_int (unique_id (snd p))" and
      "p \<in> set (mapAlarmData s) \<and> publishable now s (snd p) \<or>
       p \<in> set (manualAlarmData ?s1) \<and> publishable now s (snd p) \<and> findTrackByUniqueId (pe_tables E) (unique_id (snd p)) \<noteq> None"
      unfolding alarmed_from_synced by blast
    then have "p \<in> set (mapAlarmData s) \<or> p \<in> set (manualAlarmData ?s1)"
      and "\<exists>i \<in> set (rule_part E now s) \<union> set (manual_part E now s). ai_alarmId i = alarm_id (snd p)"
      using rule_part_has[of p s now E] manual_part_has[of p E now s] by blast+
    moreover have "set (rule_part E now s) \<union> set (manual_part E now s) \<subseteq> set infos"
      using SendAll_shape[OF assms(1,3) True] by auto
    ultimately obtain i where "i \<in> set infos" "ai_alarmId i = alarm_id (snd p)"
      "p \<in> set (mapAlarmData s) \<or> p \<in> set (manualAlarmData ?s1)" by blast
    then show "x \<in> set (List.map_filter (alarmUniqueId ?T s') infos)" using r[of p i] m[of p i] x by (force simp: map_filter_set)
  qed
qed

text \<open>
  The target stream follows the event: of the merged targets exactly those are published whose
  trimmed id is the number of a target with a published rule alarm, or with a manual alarm that is
  tracked and not silenced; nothing is sent when there is none.
\<close>

theorem published_targets_exact:
  assumes "alarms_ok s" and "plain_ids (pe_text E) s"
    and "SendAllAlarmEventMsg E now s = (Some infos, s', ops)"
    and "out = filter (\<lambda>t. trimmed (pe_text E) (id_of t) \<in> (\<lambda>u. qs (dec_int u)) ` alarmed_targets E now s) targets"
  shows "SendNewTrackStructAlarmMsg (pe_text E) id_of True (Some targets) s' infos = (if out = [] then None else Some out)"
proof -
  let ?ids = "List.map_filter (alarmUniqueId (pe_text E) s') infos"
  have ids: "set ?ids = dec_int ` alarmed_targets E now s" by (rule event_target_ids[OF assms(1-3)])
  have out: "out = filter (\<lambda>t. trimmed (pe_text E) (id_of t) \<noteq> [] \<and> trimmed (pe_text E) (id_of t) \<in> qs ` set ?ids) targets"
    unfolding assms(4) ids by (auto intro!: filter_cong)
  have e: "infos = [] \<Longrightarrow> ?ids = []" by (simp add: List.map_filter_def)
  show ?thesis
  proof (cases "?ids = []")
    case True
    then show ?thesis by (simp add: SendNewTrackStructAlarmMsg_def out)
  next
    case False
    then show ?thesis using e by (auto simp: SendNewTrackStructAlarmMsg_def out Let_def)
  qed
qed

theorem published_targets_exact_witness:
  "\<exists>infos s' ops. SendAllAlarmEventMsg sample_publish 2000 one_alarm = (Some infos, s', ops) \<and>
     SendNewTrackStructAlarmMsg ascii_text id True (Some [qs ''7'', qs ''8'']) s' infos = Some [qs ''7'']"
proof -
  obtain infos s' ops where r: "SendAllAlarmEventMsg sample_publish 2000 one_alarm = (Some infos, s', ops)"
    using sample_sends by blast
  have T: "pe_text sample_publish = ascii_text" by (simp add: sample_publish_def)
  have P: "plain_ids (pe_text sample_publish) one_alarm"
  proof -
    have "trimmed ascii_text (qs ''-1'') = qs ''-1''" "trimmed ascii_text (qs ''a'') = qs ''a''" by code_simp+
    then show ?thesis by (simp add: plain_ids_def T one_alarm_ok alarm_at_def)
  qed
  have A: "alarmed_targets sample_publish 2000 one_alarm = {7}"
    using one_alarm_ok(4) by (auto simp: alarmed_targets_def one_alarm_ok(5,6) alarm_at_def sample_alarm_def)
  have t: "trimmed ascii_text (qs ''7'') = qs ''7''" "trimmed ascii_text (qs ''8'') = qs ''8''" "dec_int 7 = ''7''" by code_simp+
  have "filter (\<lambda>t. trimmed (pe_text sample_publish) (id t) \<in> (\<lambda>u. qs (dec_int u)) ` {7}) [qs ''7'', qs ''8''] = [qs ''7'']"
    by (simp add: T t)
  from published_targets_exact[OF one_alarm_ok(1) P r, unfolded A, OF this[symmetric]] r T show ?thesis by (auto simp: id_def)
qed

text \<open>
  Every suspicious target is published exactly once: the ids of what is sent are, as a bag, the
  requested ids, whether or not the merged batch knows the target (a missing one is sent as a
  stub), and the call answers their number when the publisher takes them.
\<close>

theorem suspicious_sent_once:
  assumes "distinct ids" and "ids \<noteq> []" and "\<And>i. i \<in> set ids \<Longrightarrow> trimmed T i = i \<and> i \<noteq> []"
    and "\<And>i. id_of (mk_stub i) = i"
    and "SendSuspiciousTargetMsg T id_of mk_stub True send (Some targets) ids = (sent, n)"
  shows "\<exists>out. sent = Some out \<and> mset (map (\<lambda>t. trimmed T (id_of t)) out) = mset ids \<and>
    n = (if send out then int (length ids) else 0)"
proof -
  have take: "mset (map (\<lambda>t. trimmed T (id_of t)) (fst (take_suspicious T id_of ts r))) + mset (snd (take_suspicious T id_of ts r)) = mset r
      \<and> set (snd (take_suspicious T id_of ts r)) \<subseteq> set r" if "distinct r" for ts r
    using that
  proof (induction ts arbitrary: r)
    case (Cons t ts)
    show ?case
    proof (cases "trimmed T (id_of t) \<in> set r \<and> trimmed T (id_of t) \<noteq> []")
      case True
      let ?x = "trimmed T (id_of t)"
      have "mset r = add_mset ?x (mset (removeAll ?x r))"
        using True Cons.prems by (simp add: distinct_remove1_removeAll[symmetric])
      with True Cons.IH[of "removeAll ?x r"] Cons.prems show ?thesis
        by (auto simp: Let_def case_prod_beta distinct_removeAll)
    qed (use Cons in \<open>auto simp: Let_def\<close>)
  qed simp
  obtain taken rest where t: "take_suspicious T id_of targets ids = (taken, rest)" by fastforce
  note F = take[OF assms(1), of targets, unfolded t, simplified]
  have "map (\<lambda>t. trimmed T (id_of t)) (map mk_stub rest) = rest"
    using F assms(3,4) by (intro map_idI[of rest, THEN trans[rotated]]) (auto simp: subset_iff)
  then have m: "mset (map (\<lambda>t. trimmed T (id_of t)) (taken @ map mk_stub rest)) = mset ids" using F by simp
  then have l: "length (taken @ map mk_stub rest) = length ids" by (metis length_map mset_eq_length)
  then have "taken @ map mk_stub rest \<noteq> []" using assms(2) by auto
  with m l assms(2,5) show ?thesis
    by (intro exI[of _ "taken @ map mk_stub rest"]) (auto simp: SendSuspiciousTargetMsg_def t split: if_splits)
qed

theorem suspicious_sent_once_witness:
  "SendSuspiciousTargetMsg ascii_text id id True (\<lambda>_. True) (Some [qs ''9'', qs '' 7'', qs ''7'']) [qs ''7'', qs ''5'']
     = (Some [qs '' 7'', qs ''5''], 2) \<and>
   mset (map (\<lambda>t. trimmed ascii_text (id t)) [qs '' 7'', qs ''5'']) = mset [qs ''7'', qs ''5'']"
proof -
  have r: "SendSuspiciousTargetMsg ascii_text id id True (\<lambda>_. True) (Some [qs ''9'', qs '' 7'', qs ''7'']) [qs ''7'', qs ''5'']
     = (Some [qs '' 7'', qs ''5''], 2)" by code_simp
  have "trimmed ascii_text (qs ''7'') = qs ''7''" "trimmed ascii_text (qs ''5'') = qs ''5''" by code_simp+
  then have t: "trimmed ascii_text i = i \<and> i \<noteq> []" if "i \<in> set [qs ''7'', qs ''5'']" for i using that by auto
  have "distinct [qs ''7'', qs ''5'']" "[qs ''7'', qs ''5''] \<noteq> []" "\<And>i. id (id i) = i" by simp_all
  from suspicious_sent_once[OF this(1,2) t this(3) r] r show ?thesis by auto
qed

end
