(* ===== verification/Qt_Json.thy ===== *)
theory Qt_Json
  imports Key_Store
begin

text \<open>
  Values of Qt's JSON classes and the text operations several components share: \<open>QJsonValue\<close>, \<open>indexOf\<close>, and \<open>split\<close> and \<open>join\<close> at a
  character.  The JSON parser itself is a parameter of the components; a JSON number is a finite real.
\<close>

section \<open>JSON values\<close>

datatype qjson = QUndefined | QNull | QBool bool | QNumber real | QString qstring | QArray "qjson list"
  | QObject "(qstring \<times> qjson) list"

definition qjson_value :: "qjson \<Rightarrow> string \<Rightarrow> qjson" where
  "qjson_value j k = (case j of QObject m \<Rightarrow> (case map_of m (qs k) of Some v \<Rightarrow> v | None \<Rightarrow> QUndefined) | _ \<Rightarrow> QUndefined)"

definition qjson_toString :: "qjson \<Rightarrow> qstring" where
  "qjson_toString j = (case j of QString s \<Rightarrow> s | _ \<Rightarrow> [])"

text \<open>\<open>QJsonValue::toInt\<close>: 0 for a number that is not an \<open>int\<close>.\<close>

definition qjson_toInt :: "qjson \<Rightarrow> int" where
  "qjson_toInt j = (case j of
     QNumber d \<Rightarrow> if of_int \<lfloor>d\<rfloor> = d \<and> - 2147483648 \<le> d \<and> d \<le> 2147483647 then \<lfloor>d\<rfloor> else 0 | _ \<Rightarrow> 0)"

section \<open>Splitting and joining\<close>

text \<open>\<open>indexOf\<close>, and \<open>split\<close> and \<open>join\<close> at one character.\<close>

fun index_of :: "'a list \<Rightarrow> 'a list \<Rightarrow> nat option" where
  "index_of p [] = (if p = [] then Some 0 else None)"
| "index_of p (x # xs) = (if starts_with p (x # xs) then Some 0 else map_option Suc (index_of p xs))"

fun split_char :: "'a \<Rightarrow> 'a list \<Rightarrow> 'a list list" where
  "split_char c [] = [[]]"
| "split_char c (x # xs) =
     (if x = c then [] # split_char c xs
      else case split_char c xs of [] \<Rightarrow> [[x]] | p # ps \<Rightarrow> (x # p) # ps)"

fun join_char :: "'a \<Rightarrow> 'a list list \<Rightarrow> 'a list" where
  "join_char c [] = []"
| "join_char c [p] = p"
| "join_char c (p # q # ps) = p @ c # join_char c (q # ps)"

lemma split_char_nonempty [simp]: "split_char c xs \<noteq> []"
  by (induction xs) (auto split: list.splits)

lemma split_char_pieces: "p \<in> set (split_char c xs) \<Longrightarrow> c \<notin> set p"
proof (induction xs arbitrary: p)
  case (Cons x xs)
  obtain q qs where q: "split_char c xs = q # qs" by (cases "split_char c xs") simp_all
  show ?case using Cons q by (auto split: if_splits)
qed simp

lemma join_split: "join_char c (split_char c xs) = xs"
proof (induction xs)
  case (Cons x xs)
  obtain q qs where q: "split_char c xs = q # qs" by (cases "split_char c xs") simp_all
  show ?case using Cons q by (cases qs) (auto split: if_splits)
qed simp

lemma split_free: "c \<notin> set xs \<Longrightarrow> split_char c xs = [xs]"
  by (induction xs) auto

lemma split_join:
  assumes "ps \<noteq> []" and "\<And>p. p \<in> set ps \<Longrightarrow> c \<notin> set p"
  shows "split_char c (join_char c ps) = ps"
  using assms
proof (induction c ps rule: join_char.induct)
  case (3 c p q ps)
  have "split_char c (u @ c # v) = u # split_char c v" if "c \<notin> set u" for u v
    using that by (induction u) auto
  then show ?case using 3 by simp
qed (auto simp: split_free)

lemma join_has_sep: "2 \<le> length ps \<Longrightarrow> c \<in> set (join_char c ps)"
  by (induction c ps rule: join_char.induct) auto

section \<open>\<open>QString::toInt\<close>\<close>

text \<open>What Qt documents of \<open>toInt\<close>, for the components that take it as a parameter: it reads back a printed \<open>int\<close> and refuses the empty
  text and a text with a comma.\<close>

definition toInt_laws :: "(qstring \<Rightarrow> int option) \<Rightarrow> bool" where
  "toInt_laws f \<longleftrightarrow> (\<forall>n. - (2 ^ 31) \<le> n \<and> n < 2 ^ 31 \<longrightarrow> f (qs (dec_int n)) = Some n) \<and>
     f [] = None \<and> (\<forall>s. 44 \<in> set s \<longrightarrow> f s = None)"

definition ascii_toInt :: "qstring \<Rightarrow> int option" where
  "ascii_toInt s = (case ascii_toLongLong s of Some v \<Rightarrow> if - (2 ^ 31) \<le> v \<and> v < 2 ^ 31 then Some v else None | None \<Rightarrow> None)"

lemma of_char_digit: "d < 10 \<Longrightarrow> (of_char (char_of (48 + d :: nat)) :: int) = 48 + int d"
proof -
  assume "d < 10"
  then have "(of_char (char_of (48 + d :: nat)) :: nat) = 48 + d" by (simp add: of_char_of)
  then have "int (of_char (char_of (48 + d :: nat)) :: nat) = 48 + int d" by simp
  then show ?thesis by (simp only: of_nat_of_char)
qed

lemma ascii_digits_dec: "ascii_digits (qs (dec n)) = Some (int n)"
proof -
  have "qs (dec n) \<noteq> [] \<and> list_all (\<lambda>c. 48 \<le> c \<and> c \<le> 57) (qs (dec n)) \<and> foldl (\<lambda>a c. 10 * a + (c - 48)) 0 (qs (dec n)) = int n"
  proof (induction n rule: dec.induct)
    case (1 n)
    show ?case
    proof (cases "n < 10")
      case True
      then show ?thesis using of_char_digit[of n] by (simp add: dec.simps[of n] qs_def)
    next
      case False
      have "int n = 10 * int (n div 10) + int (n mod 10)" by presburger
      with 1 False show ?thesis using of_char_digit[of "n mod 10"]
        by (simp add: dec.simps[of n] qs_def)
    qed
  qed
  then show ?thesis by (simp add: ascii_digits_def)
qed

lemma dec_first_not_sign: "take 1 (qs (dec n)) \<noteq> [45]"
proof
  assume "take 1 (qs (dec n)) = [45]"
  then have "45 \<in> set (qs (dec n))" by (metis in_set_takeD list.set_intros(1))
  moreover have "list_all (\<lambda>c. 48 \<le> c \<and> c \<le> 57) (qs (dec n))"
    using ascii_digits_dec[of n] by (auto simp: ascii_digits_def split: if_splits)
  ultimately show False by (auto simp: list_all_iff)
qed

lemma ascii_toInt_laws: "toInt_laws ascii_toInt"
proof -
  have "ascii_toInt (qs (dec_int n)) = Some n" if "- (2 ^ 31) \<le> n" "n < 2 ^ 31" for n
  proof (cases "n < 0")
    case True
    have "qs (''-'' @ dec m) = 45 # qs (dec m)" for m by (simp add: qs_def)
    then show ?thesis using True that
      by (simp add: ascii_toInt_def ascii_toLongLong_def dec_int_def ascii_digits_dec)
  next
    case False
    then show ?thesis using that dec_first_not_sign[of "nat n"]
      by (simp add: ascii_toInt_def ascii_toLongLong_def dec_int_def ascii_digits_dec)
  qed
  moreover have "ascii_toInt s = None" if "44 \<in> set s" for s
  proof -
    have d: "44 \<in> set t \<Longrightarrow> ascii_digits t = None" for t by (force simp: ascii_digits_def list_all_iff)
    have "44 \<in> set (drop 1 s)" if "take 1 s = [45]" using \<open>44 \<in> set s\<close> that by (cases s) auto
    then show ?thesis using d that by (auto simp: ascii_toInt_def ascii_toLongLong_def)
  qed
  moreover have "ascii_toInt [] = None" by (simp add: ascii_toInt_def ascii_toLongLong_def ascii_digits_def)
  ultimately show ?thesis by (simp add: toInt_laws_def)
qed

end
