(* ===== verification/Alarm_Control.thy ===== *)
theory Alarm_Control
  imports Rule_Eval Alarm_Event Qt_Json
begin

text \<open>
  The control interfaces of the process: the HTTP server (\<open>AlarmHttpServer\<close>), the subscriber to the destroy events
  (\<open>AlarmGrpcDestroySubscriber\<close>) and the reload of the tables kept from the database
  (\<open>CustomConfig::reloadAlarmConfigFromDb\<close>).  Qt's JSON parser, URL query, UTF-8 decoding and number conversions are
  parameters; a JSON number is a finite real.
\<close>

section \<open>Requests and replies\<close>

text \<open>
  What the handlers use of Qt: text, \<open>QString::toInt\<close>, UTF-8, the JSON parser (\<open>None\<close> on a parse error), the
  \<open>full\<close> item of the query of a path, and the cast of a number outside the range of \<open>qint64\<close>, which C++ leaves undefined.
\<close>

record http_env =
  hx_text :: qt_text
  hx_toInt :: "qstring \<Rightarrow> int option"
  hx_fromUtf8 :: "string \<Rightarrow> qstring"
  hx_trimBytes :: "string \<Rightarrow> string"
  hx_fromJson :: "string \<Rightarrow> qjson option"
  hx_queryFull :: "qstring \<Rightarrow> qstring"
  hx_wideCast :: "real \<Rightarrow> int"

record http_reply =
  reply_status :: int
  reply_text :: string
  reply_body :: "(string \<times> qjson) list"

definition httpReply :: "int \<Rightarrow> string \<Rightarrow> int \<Rightarrow> (string \<times> qjson) list \<Rightarrow> qstring \<Rightarrow> http_reply" where
  "httpReply status txt code extra msg =
     \<lparr>reply_status = status, reply_text = txt,
      reply_body = (''code'', QNumber (of_int code)) # extra @ [(''message'', QString msg)]\<rparr>"

definition badRequest :: "string \<Rightarrow> http_reply" where
  "badRequest msg = httpReply 400 ''Bad Request'' (-1) [] (qs msg)"

definition notAllowed :: "string \<Rightarrow> http_reply" where
  "notAllowed msg = httpReply 405 ''Method Not Allowed'' (-1) [] (qs msg)"

text \<open>The body after the blank line, and the parts of the request line.\<close>

definition crlf :: "nat list" where "crlf = [13, 10]"

definition bodyBytes :: "string \<Rightarrow> string" where
  "bodyBytes requestData =
     (case index_of (map char_of (crlf @ crlf)) requestData of Some i \<Rightarrow> drop (i + 4) requestData | None \<Rightarrow> [])"

definition requestLine :: "qstring \<Rightarrow> qstring list" where
  "requestLine requestString =
     split_char 32 (case index_of (map int crlf) requestString of Some i \<Rightarrow> take i requestString | None \<Rightarrow> requestString)"

section \<open>The tables read from the database\<close>

record ('v, 'h) db_tables =
  dt_rules :: "(string, AlarmRule) qmap"
  dt_areas :: "AreaInfo list"
  dt_protect :: "(int \<times> int, int \<times> int) qmap"
  dt_threat :: "ThreatAssessmentParams list"
  dt_identSubs :: "(string, RuleSub list) qmap"
  dt_identAreas :: "(string, string list) qmap"
  dt_verification :: 'v
  dt_handle :: 'h

text \<open>\<open>ready\<close> is \<open>m_dbInitSuccess || initDatabase()\<close>, \<open>fresh\<close> what the queries return.\<close>

definition reloadAlarmConfigFromDb :: "qt_text \<Rightarrow> bool \<Rightarrow> ('v, 'h) db_tables \<Rightarrow> qstring \<Rightarrow> ('v, 'h) db_tables
    \<Rightarrow> ('v, 'h) db_tables" where
  "reloadAlarmConfigFromDb T ready fresh scope c =
     (if \<not> ready then c
      else let s = (if trimmed T scope = [] then qs ''all'' else trimmed T scope);
               all = (s = qs ''all'');
               c1 = (if all \<or> s = qs ''alarm_rules''
                     then c\<lparr>dt_rules := dt_rules fresh, dt_areas := dt_areas fresh, dt_protect := dt_protect fresh\<rparr> else c);
               c2 = (if all \<or> s = qs ''threat_params'' then c1\<lparr>dt_threat := dt_threat fresh\<rparr> else c1);
               c3 = (if all \<or> s = qs ''identification''
                     then c2\<lparr>dt_identSubs := dt_identSubs fresh, dt_identAreas := dt_identAreas fresh\<rparr> else c2);
               c4 = (if all \<or> s = qs ''verification'' then c3\<lparr>dt_verification := dt_verification fresh\<rparr> else c3)
           in (if all \<or> s = qs ''handle_rules'' then c4\<lparr>dt_handle := dt_handle fresh\<rparr> else c4))"

text \<open>The look-up with its fallback to the database, which it remembers.\<close>

definition getThreatAssessmentParams :: "(int \<Rightarrow> int \<Rightarrow> ThreatAssessmentParams) \<Rightarrow> int \<Rightarrow> int
    \<Rightarrow> ThreatAssessmentParams list \<Rightarrow> ThreatAssessmentParams \<times> ThreatAssessmentParams list" where
  "getThreatAssessmentParams query groupId areaId ps =
     (case find (\<lambda>p. tp_groupId p = groupId \<and> tp_areaId p = areaId) ps of
        Some p \<Rightarrow> (p, ps)
      | None \<Rightarrow> (let p = query groupId areaId
                 in (p, if tp_groupId p = groupId \<and> tp_areaId p = areaId then ps @ [p] else ps)))"

section \<open>The HTTP handlers\<close>

text \<open>The state the handlers change, and what a request reads: \<open>ci_cfg\<close> is whether \<open>m_cfg\<close> is set.\<close>

record ('v, 'h) control_state =
  ct_alarms :: alarm_state
  ct_full :: bool
  ct_db :: "('v, 'h) db_tables"

record ('v, 'h) control_input =
  ci_http :: http_env
  ci_cfg :: bool
  ci_now :: int
  ci_logic :: AlarmLogicConfig
  ci_content :: content_fun
  ci_tracks :: track_tables
  ci_dbReady :: bool
  ci_fresh :: "('v, 'h) db_tables"

definition kFilterSpecType :: string where
  "kFilterSpecType = ''type.casia.tasks.v1.filterTargetOrForce''"

definition qjson_toQint64 :: "http_env \<Rightarrow> real \<Rightarrow> int" where
  "qjson_toQint64 X d =
     (let n = (if 0 \<le> d then \<lfloor>d\<rfloor> else \<lceil>d\<rceil>)
      in if - (2 ^ 63) \<le> n \<and> n < 2 ^ 63 then n else hx_wideCast X d)"

definition qjson_id :: "http_env \<Rightarrow> qjson \<Rightarrow> int option" where
  "qjson_id X v =
     (case v of
        QNumber d \<Rightarrow> (let targetId = qjson_toQint64 X d in if 0 < targetId then Some targetId else None)
      | QString s \<Rightarrow> (case toLongLong (hx_text X) (trimmed (hx_text X) s) of
                       Some targetId \<Rightarrow> if 0 < targetId then Some targetId else None | None \<Rightarrow> None)
      | _ \<Rightarrow> None)"

definition qjson_type :: "http_env \<Rightarrow> qjson \<Rightarrow> int option" where
  "qjson_type X v = (case v of QNumber d \<Rightarrow> Some (qjson_toInt v) | QString s \<Rightarrow> hx_toInt X s | _ \<Rightarrow> None)"

definition jsonObject :: "http_env \<Rightarrow> string \<Rightarrow> qjson option" where
  "jsonObject X bytes = (case hx_fromJson X bytes of Some (QObject m) \<Rightarrow> Some (QObject m) | _ \<Rightarrow> None)"

definition alarm_filter :: "('v, 'h) control_input \<Rightarrow> qstring \<Rightarrow> string \<Rightarrow> ('v, 'h) control_state
    \<Rightarrow> http_reply \<times> ('v, 'h) control_state" where
  "alarm_filter I verb requestData s =
     (let X = ci_http I in
      if verb \<noteq> qs ''POST'' then (notAllowed ''Method Not Allowed, use POST'', s)
      else case jsonObject X (bodyBytes requestData) of
        None \<Rightarrow> (badRequest ''invalid JSON body'', s)
      | Some doc \<Rightarrow>
          (let spec = qjson_value doc ''specification'' in
           if qjson_toString (qjson_value spec ''@type'') \<noteq> qs kFilterSpecType
           then (badRequest ''invalid specification.@type'', s)
           else case (qjson_type X (qjson_value spec ''type''), qjson_id X (qjson_value spec ''id'')) of
             (Some type, Some targetId) \<Rightarrow>
               (if 0 \<le> type \<and> type \<le> 1
                then (httpReply 200 ''OK'' 0 [] (qs ''ok''),
                      if ci_cfg I then s\<lparr>ct_alarms := addAlarmFilter (ci_logic I) (ci_now I) type targetId (ct_alarms s)\<rparr> else s)
                else (badRequest ''invalid or missing specification.type(0/1) or specification.id'', s))
           | _ \<Rightarrow> (badRequest ''invalid or missing specification.type(0/1) or specification.id'', s)))"

definition parseReloadScope :: "http_env \<Rightarrow> string \<Rightarrow> qstring \<Rightarrow> qstring" where
  "parseReloadScope X requestData verb =
     (if verb \<noteq> qs ''POST'' \<and> verb \<noteq> qs ''PUT'' then qs ''all''
      else let body = hx_trimBytes X (bodyBytes requestData) in
           if body = [] then qs ''all''
           else case jsonObject X body of
             None \<Rightarrow> qs ''all''
           | Some doc \<Rightarrow> (case qjson_value doc ''scope'' of
               QString t \<Rightarrow> if trimmed (hx_text X) t \<noteq> [] then trimmed (hx_text X) t else qs ''all''
             | _ \<Rightarrow> qs ''all''))"

definition updateRule :: "('v, 'h) control_input \<Rightarrow> qstring \<Rightarrow> ('v, 'h) control_state \<Rightarrow> ('v, 'h) control_state" where
  "updateRule I scope s =
     (if \<not> ci_cfg I then s
      else s\<lparr>ct_db := reloadAlarmConfigFromDb (hx_text (ci_http I)) (ci_dbReady I) (ci_fresh I) scope (ct_db s)\<rparr>)"

definition alarms_update :: "('v, 'h) control_input \<Rightarrow> qstring \<Rightarrow> string \<Rightarrow> ('v, 'h) control_state
    \<Rightarrow> http_reply \<times> ('v, 'h) control_state" where
  "alarms_update I verb requestData s =
     (let scope = parseReloadScope (ci_http I) requestData verb
      in (httpReply 200 ''OK'' 0 [(''scope'', QString scope)] (qs ''ok''), updateRule I scope s))"

definition full_field :: "bool \<Rightarrow> (string \<times> qjson) list" where
  "full_field on = [(''full'', QNumber (if on then 1 else 0))]"

definition alarm_event_push :: "('v, 'h) control_input \<Rightarrow> qstring \<Rightarrow> qstring \<Rightarrow> ('v, 'h) control_state
    \<Rightarrow> http_reply option \<times> ('v, 'h) control_state" where
  "alarm_event_push I verb path s =
     (if verb = qs ''GET''
      then (let on = (ci_cfg I \<and> ct_full s)
            in (Some (httpReply 200 ''OK'' 0 (full_field on) (qs (if on then ''full SendAllAlarmEventMsg'' else ''dds_light_only''))), s))
      else if verb = qs ''PUT''
      then (let fullStr = hx_queryFull (ci_http I) path in
            if fullStr \<noteq> qs ''0'' \<and> fullStr \<noteq> qs ''1''
            then (Some (badRequest ''missing or invalid full (use 0 or 1)''), s)
            else if ci_cfg I
            then (Some (httpReply 200 ''OK'' 0 (full_field (fullStr = qs ''1'')) (qs ''ok'')), s\<lparr>ct_full := (fullStr = qs ''1'')\<rparr>)
            else (None, s))
      else (Some (notAllowed ''Method Not Allowed, use GET or PUT''), s))"

text \<open>The track hint of a confirmation: the first key of each group that holds a number.\<close>

fun readFloat :: "qjson \<Rightarrow> string list \<Rightarrow> real option" where
  "readFloat doc [] = None"
| "readFloat doc (k # ks) = (case qjson_value doc k of QNumber d \<Rightarrow> Some d | _ \<Rightarrow> readFloat doc ks)"

definition hint_isAir :: "qjson \<Rightarrow> bool" where
  "hint_isAir doc =
     (case qjson_value doc ''isAirTrack'' of
        QBool b \<Rightarrow> b
      | QNumber d \<Rightarrow> qjson_toInt (QNumber d) \<noteq> 0
      | _ \<Rightarrow> (case qjson_value doc ''fuseType'' of QNumber d \<Rightarrow> qjson_toInt (QNumber d) = 1 | _ \<Rightarrow> False))"

definition parseHint :: "qjson \<Rightarrow> track_hint option" where
  "parseHint doc =
     (case (readFloat doc [''lat'', ''latitude'', ''targetlat''], readFloat doc [''lon'', ''lng'', ''longitude'', ''targetlon'']) of
        (Some lat, Some lon) \<Rightarrow>
          Some \<lparr>hint_lat = lat, hint_lon = lon,
                hint_speed = (case readFloat doc [''speed'', ''speedMps''] of Some v \<Rightarrow> v | None \<Rightarrow> 0),
                hint_course = (case readFloat doc [''course'', ''courseDeg'', ''heading''] of Some v \<Rightarrow> v | None \<Rightarrow> 0),
                hint_air = hint_isAir doc\<rparr>
      | _ \<Rightarrow> None)"

definition uniqueValue :: "qjson \<Rightarrow> qjson" where
  "uniqueValue doc =
     (let a = qjson_value doc ''uniqueId''; b = qjson_value doc ''unique_id'' in
      if a \<noteq> QUndefined then a else if b \<noteq> QUndefined then b else qjson_value doc ''uniqueID'')"

definition alarm_confirm :: "('v, 'h) control_input \<Rightarrow> qstring \<Rightarrow> string \<Rightarrow> ('v, 'h) control_state
    \<Rightarrow> http_reply \<times> ('v, 'h) control_state \<times> db_op list" where
  "alarm_confirm I verb requestData s =
     (let X = ci_http I in
      if verb \<noteq> qs ''POST'' then (notAllowed ''Method Not Allowed, use POST'', s, [])
      else case jsonObject X (bodyBytes requestData) of
        None \<Rightarrow> (badRequest ''invalid JSON body'', s, [])
      | Some doc \<Rightarrow>
          (case qjson_id X (uniqueValue doc) of
             None \<Rightarrow> (badRequest ''missing or invalid uniqueId'', s, [])
           | Some uid \<Rightarrow>
               (if \<not> ci_cfg I then (badRequest '''', s, [])
                else case confirmAlarmByUniqueId (ci_logic I) (ci_content I) (ci_now I) (ci_tracks I) (parseHint doc) uid (ct_alarms s) of
                  (Inr msg, a, ops) \<Rightarrow> (httpReply 200 ''OK'' 0 [] (qs msg), s\<lparr>ct_alarms := a\<rparr>, ops)
                | (Inl msg, a, ops) \<Rightarrow>
                    ((if contains msg ''track not found'' then httpReply 404 ''Not Found'' (-1) [] (qs msg)
                      else badRequest msg), s\<lparr>ct_alarms := a\<rparr>, ops))))"

definition path_is :: "qstring \<Rightarrow> string \<Rightarrow> bool" where
  "path_is pathOnly p = (pathOnly = qs (CHR ''/'' # p) \<or> pathOnly = qs p)"

text \<open>One call of the handler on the bytes read: the reply, if one is sent, the state and the database writes.\<close>

definition handleClientRequest :: "('v, 'h) control_input \<Rightarrow> string \<Rightarrow> ('v, 'h) control_state
    \<Rightarrow> http_reply option \<times> ('v, 'h) control_state \<times> db_op list" where
  "handleClientRequest I requestData s =
     (case requestLine (hx_fromUtf8 (ci_http I) requestData) of
        verb # path # _ # _ \<Rightarrow>
          (let pathOnly = takeWhile (\<lambda>c. c \<noteq> 63) path in
           if verb = qs ''OPTIONS'' then (Some \<lparr>reply_status = 200, reply_text = ''OK'', reply_body = []\<rparr>, s, [])
           else if path_is pathOnly ''api/alarm_filter''
           then (case alarm_filter I verb requestData s of (r, s') \<Rightarrow> (Some r, s', []))
           else if path_is pathOnly ''api/alarms/update''
           then (case alarms_update I verb requestData s of (r, s') \<Rightarrow> (Some r, s', []))
           else if path_is pathOnly ''api/alarm_event/push''
           then (case alarm_event_push I verb path s of (r, s') \<Rightarrow> (r, s', []))
           else if path_is pathOnly ''api/alarm_confirm''
           then (case alarm_confirm I verb requestData s of (r, s', ops) \<Rightarrow> (Some r, s', ops))
           else (Some \<lparr>reply_status = 404, reply_text = ''Not Found'', reply_body = []\<rparr>, s, []))
      | _ \<Rightarrow> (None, s, []))"

section \<open>The destroy subscriber\<close>

record destroy_event =
  de_at_type :: string
  de_type :: int
  de_id :: string

definition parseFilterTargetId :: "http_env \<Rightarrow> string \<Rightarrow> int option" where
  "parseFilterTargetId X idStr =
     (if idStr = [] then None
      else case toLongLong (hx_text X) (trimmed (hx_text X) (hx_fromUtf8 X idStr)) of
        None \<Rightarrow> None | Some targetId \<Rightarrow> if targetId \<le> 0 then None else Some targetId)"

definition handleDestroyEvent :: "('v, 'h) control_input \<Rightarrow> destroy_event \<Rightarrow> alarm_state \<Rightarrow> alarm_state" where
  "handleDestroyEvent I event s =
     (if \<not> ci_cfg I then s
      else if hx_fromUtf8 (ci_http I) (de_at_type event) \<noteq> qs kFilterSpecType then s
      else if de_type event < 0 \<or> 1 < de_type event then s
      else case parseFilterTargetId (ci_http I) (de_id event) of
        None \<Rightarrow> s | Some targetId \<Rightarrow> addAlarmFilter (ci_logic I) (ci_now I) (de_type event) targetId s)"

text \<open>
  One subscription: the value of \<open>m_stop\<close> before each read with what the read returns, paired with the reading of the process at that
  event.  The stop flag is read again after the stream ended.
\<close>

record ('v, 'h) session =
  se_stopBefore :: bool
  se_channel :: bool
  se_reader :: bool
  se_reads :: "(bool \<times> (('v, 'h) control_input \<times> destroy_event) option) list"
  se_stopAfter :: bool

fun read_loop :: "(bool \<times> (('v, 'h) control_input \<times> destroy_event) option) list \<Rightarrow> alarm_state \<Rightarrow> alarm_state" where
  "read_loop [] s = s"
| "read_loop ((stop, r) # rest) s =
     (if stop then s else case r of None \<Rightarrow> s | Some (I, event) \<Rightarrow> read_loop rest (handleDestroyEvent I event s))"

definition subscribeOnce :: "bool \<Rightarrow> bool \<Rightarrow> ('v, 'h) session \<Rightarrow> alarm_state \<Rightarrow> bool \<times> alarm_state" where
  "subscribeOnce cfg enabled v s =
     (if se_stopBefore v \<or> \<not> cfg \<or> \<not> enabled then (True, s)
      else if \<not> se_channel v then (False, s)
      else if \<not> se_reader v then (False, s)
      else (se_stopAfter v, read_loop (se_reads v) s))"

text \<open>The loop of the thread over \<open>(m_stop, session, stop flags seen by the waits)\<close>; the number of 100 ms waits is returned too.\<close>

fun destroy_loop :: "bool \<Rightarrow> bool \<Rightarrow> (bool \<times> ('v, 'h) session \<times> bool list) list \<Rightarrow> alarm_state \<Rightarrow> nat list \<times> alarm_state" where
  "destroy_loop cfg enabled [] s = ([], s)"
| "destroy_loop cfg enabled ((stop, v, flags) # rest) s =
     (if stop then ([], s)
      else if \<not> cfg \<or> \<not> enabled then ([], s)
      else (let (r, s1) = subscribeOnce cfg enabled v s;
                waits = (if r then 0 else length (takeWhile Not (take 30 flags)));
                (ws, s2) = destroy_loop cfg enabled rest s1
            in (waits # ws, s2)))"

record destroy_subscriber =
  su_host :: string
  su_port :: int
  su_enabled :: bool
  su_cfg :: bool
  su_stop :: bool
  su_thread :: bool
  su_channel :: bool

definition destroy_start :: "bool \<Rightarrow> destroy_subscriber \<Rightarrow> destroy_subscriber" where
  "destroy_start cfg u =
     (if \<not> su_enabled u \<or> \<not> cfg then u
      else if su_thread u then u
      else u\<lparr>su_cfg := cfg, su_stop := False, su_thread := True\<rparr>)"

text \<open>\<open>stop\<close> returns only when the thread has ended.\<close>

definition destroy_stop :: "destroy_subscriber \<Rightarrow> destroy_subscriber" where
  "destroy_stop u = u\<lparr>su_stop := True, su_channel := False, su_thread := False\<rparr>"

definition destroy_configure :: "string \<Rightarrow> int \<Rightarrow> bool \<Rightarrow> destroy_subscriber \<Rightarrow> destroy_subscriber" where
  "destroy_configure host port enabled u =
     (let wasRunning = su_thread u;
          u1 = (if wasRunning then destroy_stop u else u);
          u2 = u1\<lparr>su_host := host, su_port := port, su_enabled := enabled, su_channel := False\<rparr>
      in if wasRunning \<and> su_enabled u2 \<and> su_cfg u2 then destroy_start (su_cfg u2) u2 else u2)"

section \<open>Facts on the handlers\<close>

lemma httpReply_status [simp]:
  "reply_status (httpReply st txt code extra msg) = st" "reply_status (badRequest m) = 400" "reply_status (notAllowed m) = 405"
  by (simp_all add: httpReply_def badRequest_def notAllowed_def)

lemma qjson_id_pos: "qjson_id X v = Some n \<Longrightarrow> 0 < n"
  by (auto simp: qjson_id_def Let_def split: qjson.splits option.splits if_splits)

text \<open>The filter order of a request, when it carries one.\<close>

definition filter_order :: "http_env \<Rightarrow> qstring \<Rightarrow> string \<Rightarrow> (int \<times> int) option" where
  "filter_order X verb requestData =
     (case (if verb = qs ''POST'' then jsonObject X (bodyBytes requestData) else None) of
        None \<Rightarrow> None
      | Some doc \<Rightarrow>
          (let spec = qjson_value doc ''specification'' in
           if qjson_toString (qjson_value spec ''@type'') \<noteq> qs kFilterSpecType then None
           else case (qjson_type X (qjson_value spec ''type''), qjson_id X (qjson_value spec ''id'')) of
             (Some type, Some uid) \<Rightarrow> if type \<in> {0, 1} then Some (type, uid) else None | _ \<Rightarrow> None))"

lemma filter_order_valid: "filter_order X verb data = Some (type, uid) \<Longrightarrow> type \<in> {0, 1} \<and> 0 < uid"
  by (auto simp: filter_order_def Let_def qjson_id_pos split: option.splits if_splits)

lemma alarm_filter_order:
  "alarm_filter I verb data s =
     (case filter_order (ci_http I) verb data of
        Some (type, uid) \<Rightarrow> (httpReply 200 ''OK'' 0 [] (qs ''ok''),
          if ci_cfg I then s\<lparr>ct_alarms := addAlarmFilter (ci_logic I) (ci_now I) type uid (ct_alarms s)\<rparr> else s)
      | None \<Rightarrow> (fst (alarm_filter I verb data s), s))"
  "filter_order (ci_http I) verb data = None \<Longrightarrow> reply_status (fst (alarm_filter I verb data s)) \<in> {400, 405}"
  by (auto simp: alarm_filter_def filter_order_def Let_def split: option.splits if_splits)

text \<open>
  A filter request is answered truthfully: with status 200 the target of the order is silenced and has no rule alarm left;
  with any other status, which is 400 or 405, nothing has changed.
\<close>
theorem filter_reply_truthful:
  assumes "alarms_ok (ct_alarms s)" and "ci_cfg I" and "alarm_filter I verb data s = (r, s')"
  shows "if reply_status r = 200
         then \<exists>uid>0. silenced (ci_now I) uid (ct_alarms s') \<and>
           map_of (mapAlarmData (ct_alarms s')) =
             (\<lambda>k. case map_of (mapAlarmData (ct_alarms s)) k of Some ad \<Rightarrow> if unique_id ad = uid then None else Some ad | None \<Rightarrow> None)
         else reply_status r \<in> {400, 405} \<and> s' = s"
proof (cases "filter_order (ci_http I) verb data")
  case None
  then show ?thesis using assms(3) alarm_filter_order[of I verb data s] by (auto split: option.splits)
next
  case (Some p)
  obtain type uid where p: "p = (type, uid)" by fastforce
  have v: "type \<in> {0, 1}" "0 < uid" using filter_order_valid Some p by blast+
  have e: "r = httpReply 200 ''OK'' 0 [] (qs ''ok'')"
    "ct_alarms s' = addAlarmFilter (ci_logic I) (ci_now I) type uid (ct_alarms s)"
    using assms(2,3) alarm_filter_order(1)[of I verb data s] Some p by auto
  have "silenced (ci_now I) uid (ct_alarms s')"
    unfolding silenced_def e addAlarmFilter_lookup(2)[OF assms(1) v(2)] using v(1) by auto
  moreover have "map_of (mapAlarmData (ct_alarms s')) =
      (\<lambda>k. case map_of (mapAlarmData (ct_alarms s)) k of Some ad \<Rightarrow> if unique_id ad = uid then None else Some ad | None \<Rightarrow> None)"
    unfolding e using addAlarmFilter_lookup(1)[OF assms(1) v(2)] by blast
  ultimately show ?thesis using e(1) v(2) by auto
qed

text \<open>
  C30. The two ways to silence a target agree: a POST whose specification carries the type, kind and id of a destroy event leaves the
  same alarms as the event does on the gRPC stream.  HTTP answers 200 exactly when the content is valid (type name, kind 0 or 1, an id); then
  the target of that id is silenced both ways when the configuration object is there, and neither way does anything when it is not, although HTTP answers
  200 all the same; an event with other content changes nothing.
\<close>
theorem filter_interfaces_agree:
  assumes "jsonObject (ci_http I) (bodyBytes data) = Some doc"
    and "qjson_value (qjson_value doc ''specification'') ''@type'' = QString (hx_fromUtf8 (ci_http I) (de_at_type ev))"
    and "qjson_value (qjson_value doc ''specification'') ''type'' = QNumber (of_int (de_type ev))"
    and "qjson_value (qjson_value doc ''specification'') ''id'' = QString (hx_fromUtf8 (ci_http I) (de_id ev))"
    and "de_id ev \<noteq> []" and "- (2 ^ 31) \<le> de_type ev" and "de_type ev < 2 ^ 31"
  shows "ct_alarms (snd (alarm_filter I (qs ''POST'') data s)) = handleDestroyEvent I ev (ct_alarms s) \<and>
         (reply_status (fst (alarm_filter I (qs ''POST'') data s)) = 200 \<longleftrightarrow>
            hx_fromUtf8 (ci_http I) (de_at_type ev) = qs kFilterSpecType \<and> de_type ev \<in> {0, 1} \<and>
            parseFilterTargetId (ci_http I) (de_id ev) \<noteq> None) \<and>
         handleDestroyEvent I ev (ct_alarms s) =
           (if reply_status (fst (alarm_filter I (qs ''POST'') data s)) = 200 \<and> ci_cfg I
            then addAlarmFilter (ci_logic I) (ci_now I) (de_type ev) (the (parseFilterTargetId (ci_http I) (de_id ev))) (ct_alarms s)
            else ct_alarms s)"
proof -
  have type: "qjson_type (ci_http I) (QNumber (of_int (de_type ev))) = Some (de_type ev)"
    using assms(6,7) by (simp add: qjson_type_def qjson_toInt_def)
  have id: "qjson_id (ci_http I) (QString (hx_fromUtf8 (ci_http I) (de_id ev))) = parseFilterTargetId (ci_http I) (de_id ev)"
    using assms(5) by (auto simp: qjson_id_def parseFilterTargetId_def split: option.splits)
  have order: "filter_order (ci_http I) (qs ''POST'') data =
      (if hx_fromUtf8 (ci_http I) (de_at_type ev) = qs kFilterSpecType \<and> de_type ev \<in> {0, 1}
       then map_option (Pair (de_type ev)) (parseFilterTargetId (ci_http I) (de_id ev)) else None)"
    by (auto simp: filter_order_def assms(1-4) type id qjson_toString_def Let_def split: option.splits)
  show ?thesis
  proof (cases "filter_order (ci_http I) (qs ''POST'') data")
    case None
    then have "alarm_filter I (qs ''POST'') data s = (fst (alarm_filter I (qs ''POST'') data s), s)"
      using alarm_filter_order(1)[of I "qs ''POST''" data s] by simp
    then have "snd (alarm_filter I (qs ''POST'') data s) = s" by (metis snd_conv)
    moreover have "reply_status (fst (alarm_filter I (qs ''POST'') data s)) \<in> {400, 405}"
      using alarm_filter_order(2)[OF None] .
    ultimately show ?thesis using None order by (auto simp: handleDestroyEvent_def split: option.splits if_splits)
  next
    case (Some p)
    then show ?thesis using order alarm_filter_order(1)[of I "qs ''POST''" data s]
      by (auto simp: handleDestroyEvent_def split: option.splits if_splits)
  qed
qed

text \<open>
  A type that is not a whole number passes for 0: \<open>toInt\<close> gives 0 for it and the handler takes that for the type, so
  the target is silenced although the request names neither of the two types.
\<close>
theorem fractional_type_silences:
  assumes "jsonObject (ci_http I) (bodyBytes data) = Some doc"
    and "qjson_toString (qjson_value (qjson_value doc ''specification'') ''@type'') = qs kFilterSpecType"
    and "qjson_value (qjson_value doc ''specification'') ''type'' = QNumber d" and "d \<notin> \<int>"
    and "qjson_id (ci_http I) (qjson_value (qjson_value doc ''specification'') ''id'') = Some uid" and "ci_cfg I"
  shows "alarm_filter I (qs ''POST'') data s =
           (httpReply 200 ''OK'' 0 [] (qs ''ok''),
            s\<lparr>ct_alarms := addAlarmFilter (ci_logic I) (ci_now I) 0 uid (ct_alarms s)\<rparr>)"
proof -
  have "of_int \<lfloor>d\<rfloor> \<noteq> d" using assms(4) by (metis Ints_of_int)
  then have "qjson_type (ci_http I) (QNumber d) = Some 0" by (simp add: qjson_type_def qjson_toInt_def)
  then show ?thesis using assms by (simp add: alarm_filter_def Let_def)
qed

section \<open>Confirmation and reload\<close>

text \<open>
  The status of a confirmation tells its outcome: 200 exactly when the target has a rule alarm, is tracked or the client sent a
  position with both coordinates, else 404; a valid id is never answered 400.
\<close>
theorem confirm_status:
  assumes "jsonObject (ci_http I) (bodyBytes data) = Some doc"
    and "qjson_id (ci_http I) (uniqueValue doc) = Some uid" and "ci_cfg I"
    and "alarm_confirm I (qs ''POST'') data s = (r, s', ops)"
  shows "reply_status r =
           (if list_ex (\<lambda>p. unique_id (snd p) = uid) (mapAlarmData (ct_alarms s)) \<or>
               findTrackByUniqueId (ci_tracks I) uid \<noteq> None \<or>
               (readFloat doc [''lat'', ''latitude'', ''targetlat''] \<noteq> None \<and>
                readFloat doc [''lon'', ''lng'', ''longitude'', ''targetlon''] \<noteq> None)
            then 200 else 404) \<and>
         ct_alarms s' = fst (snd (confirmAlarmByUniqueId (ci_logic I) (ci_content I) (ci_now I) (ci_tracks I) (parseHint doc) uid (ct_alarms s)))"
proof -
  have pos: "0 < uid" using qjson_id_pos assms(2) by blast
  have hint: "parseHint doc = None \<longleftrightarrow> \<not> (readFloat doc [''lat'', ''latitude'', ''targetlat''] \<noteq> None \<and>
      readFloat doc [''lon'', ''lng'', ''longitude'', ''targetlon''] \<noteq> None)"
    unfolding parseHint_def by (simp split: option.split)
  obtain s2 ops2 had where c: "confirm_rules (ci_logic I) (ci_now I) uid (ct_alarms s) = (s2, ops2, had)" by (metis surj_pair)
  have had: "had \<longleftrightarrow> list_ex (\<lambda>p. unique_id (snd p) = uid) (mapAlarmData (ct_alarms s))"
    by (rule confirm_rules_facts(1)[OF pos c])
  have hit: "confirm_hit (ci_now I) (ci_tracks I) (parseHint doc) uid = None \<longleftrightarrow>
      findTrackByUniqueId (ci_tracks I) uid = None \<and> parseHint doc = None"
    by (cases "findTrackByUniqueId (ci_tracks I) uid"; cases "parseHint doc") (simp_all add: confirm_hit_def)
  obtain res a ops' where k: "confirmAlarmByUniqueId (ci_logic I) (ci_content I) (ci_now I) (ci_tracks I) (parseHint doc) uid
      (ct_alarms s) = (res, a, ops')" by (metis surj_pair)
  have "(\<exists>m. res = Inr m) \<longleftrightarrow> had \<or> confirm_hit (ci_now I) (ci_tracks I) (parseHint doc) uid \<noteq> None"
    "(\<exists>m. res = Inl m) \<longrightarrow> res = Inl ''track not found for uniqueId (not in fuse/radar map)''"
    using k c pos by (auto simp: confirmAlarmByUniqueId_def split: if_splits option.splits)
  moreover have "contains ''track not found for uniqueId (not in fuse/radar map)'' ''track not found''" by simp
  ultimately show ?thesis using assms k pos unfolding hit had hint
    by (cases res) (auto simp: alarm_confirm_def Let_def)
qed

definition reload_scopes :: "string list" where
  "reload_scopes = [''alarm_rules'', ''threat_params'', ''identification'', ''verification'', ''handle_rules'']"

text \<open>
  The scopes partition the tables: reloading the five named scopes one after the other is the same as reloading \<open>all\<close>, and
  leaves exactly what the database returned; a scope with another name reloads nothing.
\<close>
theorem reload_in_parts:
  assumes "\<forall>w\<in>set (''all'' # reload_scopes). trimmed T (qs w) = qs w"
    and "trimmed T other \<noteq> []" and "trimmed T other \<notin> qs ` set (''all'' # reload_scopes)"
  shows "fold (\<lambda>w. reloadAlarmConfigFromDb T True fresh (qs w)) reload_scopes c = reloadAlarmConfigFromDb T True fresh (qs ''all'') c \<and>
         db_tables.truncate (reloadAlarmConfigFromDb T True fresh (qs ''all'') c) = db_tables.truncate fresh \<and>
         reloadAlarmConfigFromDb T True fresh other c = c"
proof -
  have "reloadAlarmConfigFromDb T True fresh other c = c"
    using assms(2,3) by (simp add: reloadAlarmConfigFromDb_def reload_scopes_def Let_def)
  moreover have "db_tables.truncate (reloadAlarmConfigFromDb T True fresh (qs ''all'') c) = db_tables.truncate fresh"
    using assms(1) by (simp add: reloadAlarmConfigFromDb_def Let_def db_tables.truncate_def)
  moreover have "fold (\<lambda>w. reloadAlarmConfigFromDb T True fresh (qs w)) reload_scopes c =
      reloadAlarmConfigFromDb T True fresh (qs ''all'') c"
    using assms(1) by (simp add: reloadAlarmConfigFromDb_def reload_scopes_def Let_def)
  ultimately show ?thesis by blast
qed

text \<open>
  The reply to an update request does not tell whether anything was reloaded: code 0 and status 200 are sent also when the
  database is not available or the scope is none of the known ones, and then the tables are what they were.
\<close>
theorem update_reply_unconditional:
  assumes "\<not> ci_dbReady I \<or> (trimmed (hx_text (ci_http I)) (parseReloadScope (ci_http I) data verb) \<noteq> [] \<and>
      trimmed (hx_text (ci_http I)) (parseReloadScope (ci_http I) data verb) \<notin> qs ` set (''all'' # reload_scopes))"
    and "alarms_update I verb data s = (r, s')"
  shows "reply_status r = 200 \<and> map_of (reply_body r) ''code'' = Some (QNumber 0) \<and> s' = s"
proof -
  have "updateRule I (parseReloadScope (ci_http I) data verb) s = s"
    using assms(1) by (auto simp: updateRule_def reloadAlarmConfigFromDb_def reload_scopes_def Let_def)
  then show ?thesis using assms(2) by (auto simp: alarms_update_def Let_def httpReply_def)
qed

text \<open>What a request can do to the alarms.\<close>

lemma alarm_filter_alarms:
  assumes "alarm_filter I verb data s = (r, s')" and "ct_alarms s' \<noteq> ct_alarms s"
  shows "verb = qs ''POST'' \<and> reply_status r = 200 \<and>
    (\<exists>type\<in>{0, 1}. \<exists>uid>0. ct_alarms s' = addAlarmFilter (ci_logic I) (ci_now I) type uid (ct_alarms s))"
proof (cases "filter_order (ci_http I) verb data")
  case None
  then show ?thesis using assms alarm_filter_order(1)[of I verb data s] by (auto split: option.splits)
next
  case (Some p)
  obtain type uid where p: "p = (type, uid)" by fastforce
  have "verb = qs ''POST''" using Some by (auto simp: filter_order_def split: if_splits)
  moreover have "type \<in> {0, 1}" "0 < uid" using filter_order_valid Some p by blast+
  moreover have "reply_status r = 200" "ct_alarms s' = addAlarmFilter (ci_logic I) (ci_now I) type uid (ct_alarms s)"
    using assms alarm_filter_order(1)[of I verb data s] Some p by (auto split: if_splits)
  ultimately show ?thesis by blast
qed

lemma alarm_confirm_alarms:
  assumes "alarm_confirm I verb data s = (r, s', ops)" and "ct_alarms s' \<noteq> ct_alarms s \<or> ops \<noteq> []"
  shows "verb = qs ''POST'' \<and>
    (\<exists>uid>0. \<exists>hint res. confirmAlarmByUniqueId (ci_logic I) (ci_content I) (ci_now I) (ci_tracks I) hint uid (ct_alarms s) =
       (res, ct_alarms s', ops))"
proof -
  obtain doc uid where d: "verb = qs ''POST''" "qjson_id (ci_http I) (uniqueValue doc) = Some uid"
    "ct_alarms s' = fst (snd (confirmAlarmByUniqueId (ci_logic I) (ci_content I) (ci_now I) (ci_tracks I) (parseHint doc) uid (ct_alarms s)))"
    "ops = snd (snd (confirmAlarmByUniqueId (ci_logic I) (ci_content I) (ci_now I) (ci_tracks I) (parseHint doc) uid (ct_alarms s)))"
    using assms by (auto simp: alarm_confirm_def Let_def split: if_splits option.splits prod.splits sum.splits)
  then have "confirmAlarmByUniqueId (ci_logic I) (ci_content I) (ci_now I) (ci_tracks I) (parseHint doc) uid (ct_alarms s) =
      (fst (confirmAlarmByUniqueId (ci_logic I) (ci_content I) (ci_now I) (ci_tracks I) (parseHint doc) uid (ct_alarms s)), ct_alarms s', ops)"
    by (metis prod.collapse)
  then show ?thesis using d(1) qjson_id_pos[OF d(2)] by blast
qed

text \<open>
  C31. Only two requests touch the alarms: when a request changes them or writes to the database, it is a POST to
  \<open>alarm_filter\<close> that silences a target and is answered 200, or a POST to \<open>alarm_confirm\<close> whose effect is the confirmation of a target.
\<close>
theorem request_touches_alarms:
  assumes "handleClientRequest I data s = (reply, s', ops)" and "ct_alarms s' \<noteq> ct_alarms s \<or> ops \<noteq> []"
  shows "\<exists>path rest r. requestLine (hx_fromUtf8 (ci_http I) data) = qs ''POST'' # path # rest \<and> reply = Some r \<and>
    ((path_is (takeWhile (\<lambda>c. c \<noteq> 63) path) ''api/alarm_filter'' \<and> reply_status r = 200 \<and> ops = [] \<and>
      (\<exists>type\<in>{0, 1}. \<exists>uid>0. ct_alarms s' = addAlarmFilter (ci_logic I) (ci_now I) type uid (ct_alarms s))) \<or>
     (path_is (takeWhile (\<lambda>c. c \<noteq> 63) path) ''api/alarm_confirm'' \<and>
      (\<exists>uid>0. \<exists>hint res. confirmAlarmByUniqueId (ci_logic I) (ci_content I) (ci_now I) (ci_tracks I) hint uid (ct_alarms s) =
         (res, ct_alarms s', ops))))"
proof -
  let ?l = "requestLine (hx_fromUtf8 (ci_http I) data)"
  obtain verb path p3 rest where l: "?l = verb # path # p3 # rest"
    using assms by (auto simp: handleClientRequest_def split: list.splits)
  let ?p = "takeWhile (\<lambda>c. c \<noteq> 63) path"
  have upd: "alarms_update I verb data s = (r, t) \<Longrightarrow> ct_alarms t = ct_alarms s" for r t
    by (auto simp: alarms_update_def updateRule_def Let_def)
  have push: "alarm_event_push I verb path s = (r, t) \<Longrightarrow> ct_alarms t = ct_alarms s" for r t
    by (auto simp: alarm_event_push_def Let_def split: if_splits)
  show ?thesis
  proof (cases "path_is ?p ''api/alarm_filter''")
    case True
    obtain r t where f: "alarm_filter I verb data s = (r, t)" by fastforce
    then have "reply = Some r" "t = s'" "ops = []"
      using assms l True by (auto simp: handleClientRequest_def Let_def split: if_splits)
    then show ?thesis using alarm_filter_alarms[OF f] assms(2) l True by auto
  next
    case False
    have c: "path_is ?p ''api/alarm_confirm''"
    proof (rule ccontr)
      assume n: "\<not> ?thesis"
      obtain ru tu where u: "alarms_update I verb data s = (ru, tu)" by fastforce
      obtain rp tp where q: "alarm_event_push I verb path s = (rp, tp)" by fastforce
      have "ct_alarms s' = ct_alarms s \<and> ops = []"
        using assms(1) upd[OF u] push[OF q] by (simp add: handleClientRequest_def l False n u q Let_def split: if_splits)
      then show False using assms(2) by blast
    qed
    have no: "\<not> path_is ?p ''api/alarms/update''" "\<not> path_is ?p ''api/alarm_event/push''"
      using c by (auto simp: path_is_def)
    obtain r t ops' where f: "alarm_confirm I verb data s = (r, t, ops')" by (metis surj_pair)
    then have e: "reply = Some r" "t = s'" "ops' = ops"
      using assms l False no c by (auto simp: handleClientRequest_def Let_def split: if_splits)
    then show ?thesis using alarm_confirm_alarms[OF f] assms(2) l c by auto
  qed
qed

section \<open>The subscriber\<close>

fun received :: "(bool \<times> 'e option) list \<Rightarrow> 'e list" where
  "received [] = []"
| "received ((stop, r) # rest) = (if stop then [] else case r of None \<Rightarrow> [] | Some e \<Rightarrow> e # received rest)"

fun delivered :: "(bool \<times> ('v, 'h) session \<times> bool list) list \<Rightarrow> (('v, 'h) control_input \<times> destroy_event) list" where
  "delivered [] = []"
| "delivered ((stop, v, flags) # rest) =
     (if stop then []
      else (if se_stopBefore v \<or> \<not> se_channel v \<or> \<not> se_reader v then [] else received (se_reads v)) @ delivered rest)"

lemma read_loop_fold: "read_loop reads s = fold (\<lambda>(I, e). handleDestroyEvent I e) (received reads) s"
  by (induction reads s rule: read_loop.induct) (auto split: option.splits)

text \<open>
  Whatever breaks and restarts the subscription sees, the alarms are those after the events read before the stop, applied in the order
  they came over all subscriptions; between two subscriptions the thread waits at most 30 times 100 ms.
\<close>
theorem destroy_loop_folds:
  "snd (destroy_loop True True rounds s) = fold (\<lambda>(I, e). handleDestroyEvent I e) (delivered rounds) s \<and>
   list_all (\<lambda>w. w \<le> 30) (fst (destroy_loop True True rounds s))"
proof (induction rounds arbitrary: s)
  case (Cons x rounds)
  obtain stop v flags where x: "x = (stop, v, flags)" by (metis prod_cases3)
  have "length (takeWhile Not (take 30 flags)) \<le> 30"
    by (rule order_trans[OF length_takeWhile_le]) simp
  then show ?case using Cons
    by (auto simp: x subscribeOnce_def read_loop_fold Let_def split: prod.splits) (metis fst_conv snd_conv)+
qed simp

inductive subscriber_reach :: "destroy_subscriber \<Rightarrow> bool" where
  new: "subscriber_reach \<lparr>su_host = host, su_port = port, su_enabled = False, su_cfg = False, su_stop = False,
          su_thread = False, su_channel = False\<rparr>"
| config: "subscriber_reach u \<Longrightarrow> subscriber_reach (destroy_configure host port enabled u)"
| start: "subscriber_reach u \<Longrightarrow> subscriber_reach (destroy_start cfg u)"
| stop: "subscriber_reach u \<Longrightarrow> subscriber_reach (destroy_stop u)"

text \<open>
  Life cycle: in every state the public operations can reach a live thread belongs to an enabled subscriber with a configuration whose
  stop flag is down; a new configuration keeps the subscriber running exactly when it was running and stays enabled.
\<close>
theorem subscriber_lifecycle:
  assumes "subscriber_reach u"
  shows "(su_thread u \<longrightarrow> su_enabled u \<and> su_cfg u \<and> \<not> su_stop u) \<and>
         (su_thread (destroy_configure host port enabled u) \<longleftrightarrow> su_thread u \<and> enabled) \<and>
         su_host (destroy_configure host port enabled u) = host \<and> su_port (destroy_configure host port enabled u) = port"
proof -
  have inv: "su_thread u \<longrightarrow> su_enabled u \<and> su_cfg u \<and> \<not> su_stop u"
    using assms by induction (auto simp: destroy_configure_def destroy_start_def destroy_stop_def Let_def)
  then show ?thesis by (auto simp: destroy_configure_def destroy_start_def destroy_stop_def Let_def)
qed

section \<open>Witnesses\<close>

definition sample_http :: "qjson \<Rightarrow> http_env" where
  "sample_http doc = \<lparr>hx_text = ascii_text, hx_toInt = toLongLong ascii_text, hx_fromUtf8 = qs, hx_trimBytes = (\<lambda>b. b),
     hx_fromJson = (\<lambda>_. Some doc), hx_queryFull = (\<lambda>_. qs ''1''), hx_wideCast = (\<lambda>_. 0)\<rparr>"

definition no_db_tables :: "(unit, unit) db_tables" where
  "no_db_tables = \<lparr>dt_rules = [], dt_areas = [], dt_protect = [], dt_threat = [], dt_identSubs = [], dt_identAreas = [],
     dt_verification = (), dt_handle = ()\<rparr>"

definition sample_input :: "qjson \<Rightarrow> (unit, unit) control_input" where
  "sample_input doc = \<lparr>ci_http = sample_http doc, ci_cfg = True, ci_now = 5000, ci_logic = default_logic,
     ci_content = (\<lambda>_ _ _ _. []), ci_tracks = no_tracks, ci_dbReady = False, ci_fresh = no_db_tables\<rparr>"

definition sample_control :: "(unit, unit) control_state" where
  "sample_control = \<lparr>ct_alarms = empty_state, ct_full = False, ct_db = no_db_tables\<rparr>"

definition filter_doc :: "qjson \<Rightarrow> qjson \<Rightarrow> qjson" where
  "filter_doc t i = QObject [(qs ''specification'',
     QObject [(qs ''@type'', QString (qs kFilterSpecType)), (qs ''type'', t), (qs ''id'', i)])]"

lemma filter_doc_values:
  "jsonObject (ci_http (sample_input (filter_doc t i))) bytes = Some (filter_doc t i)"
  "qjson_value (qjson_value (filter_doc t i) ''specification'') ''@type'' = QString (qs kFilterSpecType)"
  "qjson_value (qjson_value (filter_doc t i) ''specification'') ''type'' = t"
  "qjson_value (qjson_value (filter_doc t i) ''specification'') ''id'' = i"
  by (simp_all add: filter_doc_def jsonObject_def sample_input_def sample_http_def qjson_value_def)

lemma sample_id: "qjson_id (ci_http I) (QNumber 7) = Some 7"
  by (simp add: qjson_id_def qjson_toQint64_def)

lemma sample_filter:
  "alarm_filter (sample_input (filter_doc (QNumber 0) (QNumber 7))) (qs ''POST'') data s =
     (httpReply 200 ''OK'' 0 [] (qs ''ok''), s\<lparr>ct_alarms := addAlarmFilter default_logic 5000 0 7 (ct_alarms s)\<rparr>)"
  by (simp add: alarm_filter_def Let_def filter_doc_values sample_id)
    (simp add: qjson_toString_def qjson_type_def qjson_toInt_def sample_input_def)

theorem filter_reply_truthful_witness:
  "\<exists>uid. 0 < uid \<and>
     silenced 5000 uid (ct_alarms (snd (alarm_filter (sample_input (filter_doc (QNumber 0) (QNumber 7))) (qs ''POST'') [] sample_control)))"
proof -
  let ?I = "sample_input (filter_doc (QNumber 0) (QNumber 7))"
  have ok: "alarms_ok (ct_alarms sample_control)" "ci_cfg ?I" and n: "ci_now ?I = 5000" by (simp_all add: sample_control_def sample_input_def alarms_ok_empty)
  show ?thesis using filter_reply_truthful[OF ok sample_filter] by (auto simp: sample_filter n)
qed

theorem filter_interfaces_agree_witness:
  "ct_alarms (snd (alarm_filter (sample_input (filter_doc (QNumber 1) (QString (qs ''7'')))) (qs ''POST'') [] sample_control)) =
   handleDestroyEvent (sample_input (filter_doc (QNumber 1) (QString (qs ''7''))))
     \<lparr>de_at_type = kFilterSpecType, de_type = 1, de_id = ''7''\<rparr> empty_state"
proof -
  let ?I = "sample_input (filter_doc (QNumber 1) (QString (qs ''7'')))"
  let ?e = "\<lparr>de_at_type = kFilterSpecType, de_type = 1, de_id = ''7''\<rparr>"
  have u: "hx_fromUtf8 (ci_http ?I) = qs" by (simp add: sample_input_def sample_http_def)
  have "ct_alarms (snd (alarm_filter ?I (qs ''POST'') [] sample_control)) = handleDestroyEvent ?I ?e (ct_alarms sample_control)"
    by (rule filter_interfaces_agree[OF filter_doc_values(1), THEN conjunct1]) (simp_all add: filter_doc_values u)
  then show ?thesis by (simp add: sample_control_def)
qed

theorem fractional_type_silences_witness:
  "reply_status (fst (alarm_filter (sample_input (filter_doc (QNumber (1 / 2)) (QNumber 7))) (qs ''POST'') [] sample_control)) = 200"
proof -
  have "(1 / 2 :: real) \<notin> \<int>"
  proof
    assume "(1 / 2 :: real) \<in> \<int>"
    then obtain n :: int where "(1 / 2 :: real) = of_int n" by (rule Ints_cases)
    then have "of_int (2 * n) = (of_int 1 :: real)" by simp
    then have "2 * n = 1" by (simp only: of_int_eq_iff)
    then show False by presburger
  qed
  moreover have "ci_cfg (sample_input (filter_doc (QNumber (1 / 2)) (QNumber 7)))" by (simp add: sample_input_def)
  ultimately show ?thesis
    using fractional_type_silences[OF filter_doc_values(1)[where t = "QNumber (1 / 2)" and i = "QNumber 7"], where d = "1 / 2" and uid = 7]
    by (simp add: filter_doc_values sample_id qjson_toString_def)
qed

definition confirm_doc :: qjson where
  "confirm_doc = QObject [(qs ''uniqueId'', QNumber 7), (qs ''lat'', QNumber 30)]"

theorem confirm_status_witness:
  "reply_status (fst (alarm_confirm (sample_input confirm_doc) (qs ''POST'') [] sample_control)) = 404"
proof -
  have d: "jsonObject (ci_http (sample_input confirm_doc)) (bodyBytes []) = Some confirm_doc"
    by (simp add: jsonObject_def sample_input_def sample_http_def confirm_doc_def)
  have u: "qjson_id (ci_http (sample_input confirm_doc)) (uniqueValue confirm_doc) = Some 7"
    by (simp add: uniqueValue_def confirm_doc_def qjson_value_def) (simp add: sample_id)
  have c: "ci_cfg (sample_input confirm_doc)" by (simp add: sample_input_def)
  obtain r s' ops where k: "alarm_confirm (sample_input confirm_doc) (qs ''POST'') [] sample_control = (r, s', ops)"
    by (metis surj_pair)
  have t: "findTrackByUniqueId (ci_tracks (sample_input confirm_doc)) 7 = None"
    by (simp add: sample_input_def no_tracks_def findTrackByUniqueId_def tryMap_def tryMapInt_def
        scanBySecondaryUniqueId_def scanBySecondaryUniqueIdInt_def)
  show ?thesis using confirm_status[OF d u c k, THEN conjunct1]
    by (simp add: k t) (simp add: sample_control_def empty_state_def confirm_doc_def qjson_value_def)
qed

lemma ascii_trimmed_scopes: "\<forall>w\<in>set (''all'' # reload_scopes). trimmed ascii_text (qs w) = qs w"
  by (simp add: reload_scopes_def ascii_text_def qs_def ascii_space_def)

theorem reload_in_parts_witness:
  "reloadAlarmConfigFromDb ascii_text True no_db_tables (qs ''areas'') no_db_tables = no_db_tables"
proof -
  have t: "trimmed ascii_text (qs ''areas'') = qs ''areas''" by (simp add: ascii_text_def qs_def ascii_space_def)
  show ?thesis
    using reload_in_parts[OF ascii_trimmed_scopes, of "qs ''areas''" no_db_tables no_db_tables]
    by (simp add: t reload_scopes_def)
qed

theorem update_reply_unconditional_witness:
  "reply_status (fst (alarms_update (sample_input QNull) (qs ''GET'') [] sample_control)) = 200"
proof -
  obtain r s' where u: "alarms_update (sample_input QNull) (qs ''GET'') [] sample_control = (r, s')" by fastforce
  have "\<not> ci_dbReady (sample_input QNull)" by (simp add: sample_input_def)
  then show ?thesis using update_reply_unconditional[OF _ u] by (simp add: u)
qed

definition filter_request :: string where
  "filter_request = ''POST /api/alarm_filter HTTP/1.1''"

lemma filter_request_line: "requestLine (qs filter_request) = [qs ''POST'', qs ''/api/alarm_filter'', qs ''HTTP/1.1'']"
  by (simp add: filter_request_def requestLine_def qs_def crlf_def)

theorem request_touches_alarms_witness:
  "\<exists>r. fst (handleClientRequest (sample_input (filter_doc (QNumber 0) (QNumber 7))) filter_request sample_control) = Some r"
proof -
  let ?I = "sample_input (filter_doc (QNumber 0) (QNumber 7))"
  let ?s' = "sample_control\<lparr>ct_alarms := addAlarmFilter default_logic 5000 0 7 (ct_alarms sample_control)\<rparr>"
  have u: "hx_fromUtf8 (ci_http ?I) = qs" by (simp add: sample_input_def sample_http_def)
  have p: "takeWhile (\<lambda>c. c \<noteq> 63) (qs ''/api/alarm_filter'') = qs ''/api/alarm_filter''" by (simp add: qs_def)
  have h: "handleClientRequest ?I filter_request sample_control = (Some (httpReply 200 ''OK'' 0 [] (qs ''ok'')), ?s', [])"
    by (simp add: handleClientRequest_def u filter_request_line p path_is_def sample_filter)
  have "ct_alarms ?s' \<noteq> ct_alarms sample_control"
    by (simp add: sample_control_def empty_state_def addAlarmFilter_def Let_def keys_of_target_def)
  then show ?thesis using request_touches_alarms[OF h] h by auto
qed

theorem subscriber_lifecycle_witness:
  "su_thread (destroy_configure ''h'' 1 True (destroy_start True (destroy_configure ''g'' 2 True
     \<lparr>su_host = [], su_port = 0, su_enabled = False, su_cfg = False, su_stop = False, su_thread = False, su_channel = False\<rparr>)))"
proof -
  let ?u = "destroy_start True (destroy_configure ''g'' 2 True
     \<lparr>su_host = [], su_port = 0, su_enabled = False, su_cfg = False, su_stop = False, su_thread = False, su_channel = False\<rparr>)"
  have "subscriber_reach ?u" by (intro subscriber_reach.intros)
  moreover have "su_thread ?u" by (simp add: destroy_start_def destroy_configure_def Let_def)
  ultimately show ?thesis using subscriber_lifecycle by blast
qed

end
