(* ===== verification/Rpc_Client.thy ===== *)
theory Rpc_Client
  imports Alarm_Prelude
begin

text \<open>
  The contract the gRPC clients of the program share (\<open>TargetTypeGrpcClient\<close>,
  \<open>AlarmGrpcSnapshotClient\<close>): a disabled client does nothing, a call sends at most one
  request, it answers true only when its request was accepted and then stays connected.
  The clients interpret the locale on their own push operation.
\<close>

datatype rpc_answer = RpcError | RpcReply bool

locale rpc_client =
  fixes call :: "'a \<Rightarrow> 'c \<Rightarrow> bool \<times> 'c"
    and enabled :: "'c \<Rightarrow> bool"
    and connected :: "'c \<Rightarrow> bool"
    and sent :: "'c \<Rightarrow> nat"
  assumes disabled_call: "\<not> enabled c \<Longrightarrow> call a c = (False, c)"
    and enabled_kept: "enabled (snd (call a c)) = enabled c"
    and at_most_one: "sent (snd (call a c)) = sent c \<or> sent (snd (call a c)) = Suc (sent c)"
    and success: "fst (call a c) \<Longrightarrow> sent (snd (call a c)) = Suc (sent c) \<and> connected (snd (call a c))"
begin

text \<open>A sequence of calls: the answers, in order, and the client afterwards.\<close>

fun calls :: "'a list \<Rightarrow> 'c \<Rightarrow> bool list \<times> 'c" where
  "calls [] c = ([], c)"
| "calls (a # as) c =
     (let (r, c1) = call a c; (rs, c2) = calls as c1 in (r # rs, c2))"

lemma calls_disabled: "\<not> enabled c \<Longrightarrow> calls as c = (replicate (length as) False, c)"
  by (induction as) (simp_all add: disabled_call)

lemma calls_enabled: "enabled (snd (calls as c)) = enabled c"
  by (induction as arbitrary: c) (simp_all add: case_prod_beta enabled_kept)

lemma successes_sent: "length (filter id (fst (calls as c))) + sent c \<le> sent (snd (calls as c))"
proof (induction as arbitrary: c)
  case (Cons a as)
  obtain r c1 where r: "call a c = (r, c1)" by fastforce
  have "sent c \<le> sent c1" "r \<longrightarrow> sent c1 = Suc (sent c)"
    using at_most_one[of a c] success[of a c] r by auto
  with Cons[of c1] r show ?case by (auto simp: case_prod_beta)
qed simp

lemma sent_calls: "sent (snd (calls as c)) \<le> sent c + length as"
proof (induction as arbitrary: c)
  case (Cons a as)
  obtain r c1 where r: "call a c = (r, c1)" by fastforce
  have "sent c1 \<le> Suc (sent c)" using at_most_one[of a c] r by auto
  with Cons[of c1] r show ?case by (simp add: case_prod_beta)
qed simp

end

end
