(* ===== verification/Target_Type_Client.thy ===== *)
theory Target_Type_Client
  imports Target_Type_Fusion Rpc_Client
begin

text \<open>
  The gRPC client through which a judged target type leaves the program
  (\<open>grpc_target_type/TargetTypeGrpcClient.cpp\<close>) and what its list of accepted types means for
  the cycle of \<open>TargetTypeFusionThread\<close>.  The network is a parameter: whether a channel can
  be created, and what an RPC answers.
\<close>

section \<open>The client\<close>

definition kAllowedTargetTypes :: "string list" where
  "kAllowedTargetTypes = [''ship'', ''yacht'', ''cargo'', ''fishing'', ''buoy'', ''uav'', ''bird'', ''other'']"

definition isAllowedTargetType :: "qt_text \<Rightarrow> qstring \<Rightarrow> bool" where
  "isAllowedTargetType T type = list_ex (\<lambda>allowed. sameCI T type (qs allowed)) kAllowedTargetTypes"

definition canonicalTargetType :: "qt_text \<Rightarrow> qstring \<Rightarrow> qstring" where
  "canonicalTargetType T type =
     (let normalized = toLower T (trimmed T type) in
      case find (\<lambda>allowed. normalized = qs allowed) kAllowedTargetTypes of
        Some allowed \<Rightarrow> qs allowed
      | None \<Rightarrow> normalized)"

text \<open>
  \<open>tc_channel\<close> and \<open>tc_stub\<close> say whether \<open>m_channel\<close> and \<open>m_stub\<close> hold an object; \<open>tc_sent\<close>
  lists the requests that went out (target id, type).
\<close>

record type_client =
  tc_host :: string
  tc_port :: int
  tc_enabled :: bool
  tc_channel :: bool
  tc_stub :: bool
  tc_sent :: "(string \<times> qstring) list"

record type_network =
  net_channel :: "string \<Rightarrow> bool"
  net_update :: "string \<Rightarrow> qstring \<Rightarrow> rpc_answer"

definition type_configure :: "string \<Rightarrow> int \<Rightarrow> bool \<Rightarrow> type_client \<Rightarrow> type_client" where
  "type_configure host port enabled c =
     c\<lparr>tc_host := host, tc_port := port, tc_enabled := (enabled \<and> host \<noteq> [] \<and> port > 0),
       tc_channel := False, tc_stub := False\<rparr>"

definition type_ensureChannel :: "type_network \<Rightarrow> type_client \<Rightarrow> bool \<times> type_client" where
  "type_ensureChannel N c =
     (if tc_stub c \<and> tc_channel c then (True, c)
      else if \<not> tc_enabled c then (False, c)
      else let address = tc_host c @ '':'' @ dec_int (tc_port c);
               c1 = c\<lparr>tc_channel := net_channel N address\<rparr>
           in if \<not> tc_channel c1 then (False, c1) else (True, c1\<lparr>tc_stub := True\<rparr>))"

definition updateTargetType :: "qt_text \<Rightarrow> type_network \<Rightarrow> int \<Rightarrow> qstring \<Rightarrow> type_client \<Rightarrow> bool \<times> type_client" where
  "updateTargetType T N targetId targetType c =
     (if \<not> tc_enabled c \<or> targetId \<le> 0 then (False, c)
      else let canonicalType = canonicalTargetType T targetType in
        if \<not> isAllowedTargetType T canonicalType then (False, c)
        else case type_ensureChannel N c of
          (False, c1) \<Rightarrow> (False, c1)
        | (True, c1) \<Rightarrow>
            (let c2 = c1\<lparr>tc_sent := tc_sent c1 @ [(dec_int targetId, canonicalType)]\<rparr> in
             case net_update N (dec_int targetId) canonicalType of
               RpcError \<Rightarrow> (False, c2\<lparr>tc_channel := False, tc_stub := False\<rparr>)
             | RpcReply accepted \<Rightarrow> (accepted, c2)))"

section \<open>Facts\<close>

lemma canonical_normalized: "canonicalTargetType T type = normalizeToken T type"
  by (auto simp: canonicalTargetType_def normalizeToken_def Let_def find_Some_iff split: option.splits)

lemma canonical_allowed:
  "text_laws T \<Longrightarrow> normalizeToken T type = qs a \<Longrightarrow> a \<in> set kAllowedTargetTypes \<Longrightarrow>
   isAllowedTargetType T (canonicalTargetType T type)"
  by (auto simp: canonical_normalized isAllowedTargetType_def list_ex_iff intro!: bexI[of _ a] dest: text_lawsD(6))

text \<open>A stub is only ever held together with the channel it was made on.\<close>

definition type_client_ok :: "type_client \<Rightarrow> bool" where
  "type_client_ok c \<longleftrightarrow> (tc_stub c \<longrightarrow> tc_channel c) \<and> (tc_enabled c \<longrightarrow> tc_host c \<noteq> [] \<and> tc_port c > 0) \<and>
     (tc_stub c \<longrightarrow> tc_enabled c)"

lemma ok_configure: "type_client_ok (type_configure host port enabled c)"
  by (simp add: type_client_ok_def type_configure_def)

lemma ok_ensure: "type_client_ok c \<Longrightarrow> type_client_ok (snd (type_ensureChannel N c))"
  by (auto simp: type_client_ok_def type_ensureChannel_def Let_def)

lemma ensure_result:
  "type_ensureChannel N c = (b, c1) \<Longrightarrow> b = (tc_stub c1 \<and> tc_channel c1) \<or> (\<not> b \<and> \<not> tc_channel c1) \<or> (\<not> b \<and> \<not> tc_enabled c)"
  by (auto simp: type_ensureChannel_def Let_def split: if_splits)

lemma ensure_frame:
  "type_ensureChannel N c = (b, c1) \<Longrightarrow> tc_sent c1 = tc_sent c \<and> tc_enabled c1 = tc_enabled c \<and>
     tc_host c1 = tc_host c \<and> tc_port c1 = tc_port c"
  by (auto simp: type_ensureChannel_def Let_def split: if_splits)

lemma ok_update: "type_client_ok c \<Longrightarrow> type_client_ok (snd (updateTargetType T N i t c))"
  using ok_ensure[of c N]
  by (auto simp: updateTargetType_def Let_def type_client_ok_def split: prod.splits bool.splits rpc_answer.splits)

abbreviation type_push :: "qt_text \<Rightarrow> type_network \<Rightarrow> int \<times> qstring \<Rightarrow> type_client \<Rightarrow> bool \<times> type_client" where
  "type_push T N a \<equiv> updateTargetType T N (fst a) (snd a)"

interpretation type_rpc: rpc_client "type_push T N" tc_enabled tc_stub "\<lambda>c. length (tc_sent c)" for T N
proof
  fix a and c
  obtain b c1 where e: "type_ensureChannel N c = (b, c1)" by (metis surj_pair)
  note f = ensure_result[OF e] ensure_frame[OF e]
  note u = updateTargetType_def Let_def e
  show "\<not> tc_enabled c \<Longrightarrow> type_push T N a c = (False, c)" by (simp add: u)
  show "tc_enabled (snd (type_push T N a c)) = tc_enabled c"
    using f by (auto simp: u split: bool.splits rpc_answer.splits)
  show "length (tc_sent (snd (type_push T N a c))) = length (tc_sent c) \<or>
      length (tc_sent (snd (type_push T N a c))) = Suc (length (tc_sent c))"
    using f by (auto simp: u split: bool.splits rpc_answer.splits)
  show "fst (type_push T N a c) \<Longrightarrow>
      length (tc_sent (snd (type_push T N a c))) = Suc (length (tc_sent c)) \<and> tc_stub (snd (type_push T N a c))"
    using f by (auto simp: u split: bool.splits rpc_answer.splits if_splits)
qed

text \<open>
  What one push does: it answers true exactly when a request went out and was accepted; a
  request goes out for a positive id, a type the list accepts and an open channel only, and it
  carries the decimal id and the normalised type; after a failed call the connection is dropped,
  so the next push opens a new one, while a refusal keeps it.
\<close>

theorem update_target_type_outcome:
  assumes "type_client_ok c" and "updateTargetType T N i t c = (r, c')"
  shows "type_client_ok c' \<and>
    (r \<longleftrightarrow> tc_sent c' \<noteq> tc_sent c \<and> net_update N (dec_int i) (normalizeToken T t) = RpcReply True) \<and>
    (tc_sent c' = tc_sent c \<or> tc_sent c' = tc_sent c @ [(dec_int i, normalizeToken T t)] \<and>
       0 < i \<and> tc_enabled c \<and> isAllowedTargetType T (normalizeToken T t) \<and>
       tc_stub c' = (net_update N (dec_int i) (normalizeToken T t) \<noteq> RpcError))"
proof (intro conjI)
  show "type_client_ok c'" using ok_update[OF assms(1), of T N i t] assms(2) by simp
  obtain b c1 where e: "type_ensureChannel N c = (b, c1)" by (metis surj_pair)
  note f = ensure_result[OF e] ensure_frame[OF e]
  note u = updateTargetType_def Let_def e canonical_normalized
  show "r \<longleftrightarrow> tc_sent c' \<noteq> tc_sent c \<and> net_update N (dec_int i) (normalizeToken T t) = RpcReply True"
    using assms(2) f by (auto simp: u split: if_splits bool.splits rpc_answer.splits)
  show "tc_sent c' = tc_sent c \<or> tc_sent c' = tc_sent c @ [(dec_int i, normalizeToken T t)] \<and>
       0 < i \<and> tc_enabled c \<and> isAllowedTargetType T (normalizeToken T t) \<and>
       tc_stub c' = (net_update N (dec_int i) (normalizeToken T t) \<noteq> RpcError)"
    using assms(2) f by (auto simp: u split: if_splits bool.splits rpc_answer.splits)
qed

definition sample_client :: type_client where
  "sample_client = \<lparr>tc_host = ''h'', tc_port = 50, tc_enabled = True, tc_channel = False, tc_stub = False, tc_sent = []\<rparr>"

definition sample_net :: type_network where
  "sample_net = \<lparr>net_channel = (\<lambda>_. True), net_update = (\<lambda>_ t. if t = qs ''bird'' then RpcError else RpcReply True)\<rparr>"

theorem update_target_type_outcome_witness:
  "fst (updateTargetType ascii_text sample_net 7 (qs '' UAV '') sample_client) \<and>
   tc_sent (snd (updateTargetType ascii_text sample_net 7 (qs '' UAV '') sample_client)) = [(''7'', qs ''uav'')]"
proof -
  let ?r = "updateTargetType ascii_text sample_net 7 (qs '' UAV '') sample_client"
  have ok: "type_client_ok sample_client" by (simp add: type_client_ok_def sample_client_def)
  have s: "tc_sent (snd ?r) = [(''7'', qs ''uav'')]" by code_simp
  have n: "net_update sample_net (dec_int 7) (normalizeToken ascii_text (qs '' UAV '')) = RpcReply True" by code_simp
  from update_target_type_outcome[OF ok, of ascii_text sample_net 7 "qs '' UAV ''" "fst ?r" "snd ?r"] s n
  show ?thesis by (simp add: sample_client_def)
qed

section \<open>Types the client never sends\<close>

lemma refused_type: "\<not> isAllowedTargetType T (normalizeToken T t) \<Longrightarrow> updateTargetType T N i t c = (False, c)"
  by (simp add: updateTargetType_def canonical_normalized Let_def)

lemma push_step_refused:
  assumes "text_laws T" "wants_push T E row" "\<not> grpc_push E (row_id row) (finalType (row_fused T row))"
    and "\<not> settled T E row (lastPushed s)"
  shows "lastPushed (processRow T E row s) = lastPushed s \<and>
     pushes (processRow T E row s) = pushes s @ [(row_id row, finalType (row_fused T row))]"
proof -
  have "\<not> sameCI T (case map_of (lastPushed s) (row_id row) of Some t \<Rightarrow> t | None \<Rightarrow> []) (finalType (row_fused T row))"
    using assms wants_push_nonempty[OF assms(1,2)] by (auto simp: settled_def text_lawsD split: option.splits)
  with assms(2,3) show ?thesis by (simp add: processRow_push push_step_def Let_def)
qed

text \<open>
  A judged type outside the client's list is pushed in vain for ever: the judgement asks for
  the push (the type differs from the track's), the client refuses it before any network call and
  without recording anything, so after any number of cycles over the row the push has been
  attempted once per cycle and nothing is remembered.
\<close>

theorem unlisted_type_retried_forever:
  assumes "text_laws T" and "wants_push T E row"
    and "grpc_push E = (\<lambda>i t. fst (updateTargetType T N i t c))"
    and "\<not> isAllowedTargetType T (finalType (row_fused T row))"
    and "map_of (lastPushed s) (row_id row) = None"
  shows "let s' = (processRow T E row ^^ n) s in lastPushed s' = lastPushed s \<and>
     pushes s' = pushes s @ replicate n (row_id row, finalType (row_fused T row))"
proof (induction n)
  case (Suc n)
  let ?s = "(processRow T E row ^^ n) s"
  have f: "finalType (row_fused T row) = normalizeToken T (finalType (row_fused T row))"
    using fused_llm[OF assms(1), of row] assms(1,2) by (auto simp: wants_push_def)
  have g: "\<not> grpc_push E (row_id row) (finalType (row_fused T row))"
    using refused_type[of T "finalType (row_fused T row)" N "row_id row" c] f assms(3,4) by simp
  have "\<not> settled T E row (lastPushed ?s)" using Suc assms(2,5) by (simp add: settled_def Let_def)
  from push_step_refused[OF assms(1,2) g this] Suc show ?case
    by (simp add: Let_def replicate_append_same)
qed (simp add: Let_def)

definition warship_row :: JudgeRow where
  "warship_row = \<lparr>row_id = 7, trackTargetType = qs ''ship'', llmTargetType = qs ''Warship'',
     finalTargetType = qs ''warship'', finalTypeSource = qs ''llm''\<rparr>"

theorem unlisted_type_retried_forever_witness:
  "pushes ((processRow ascii_text \<lparr>db_update = (\<lambda>_ _ _. True),
       grpc_push = (\<lambda>i t. fst (updateTargetType ascii_text sample_net i t sample_client))\<rparr> warship_row ^^ 3)
     \<lparr>lastPushed = [], updates = [], pushes = []\<rparr>) = replicate 3 (7, qs ''warship'')"
proof -
  let ?E = "\<lparr>db_update = (\<lambda>_ _ _. True),
       grpc_push = (\<lambda>i t. fst (updateTargetType ascii_text sample_net i t sample_client))\<rparr>"
  let ?s = "\<lparr>lastPushed = [], updates = [], pushes = []\<rparr> :: fusion_state"
  have 1: "wants_push ascii_text ?E warship_row" by code_simp
  have 2: "grpc_push ?E = (\<lambda>i t. fst (updateTargetType ascii_text sample_net i t sample_client))" by simp
  have 3: "\<not> isAllowedTargetType ascii_text (finalType (row_fused ascii_text warship_row))" by code_simp
  have 4: "map_of (lastPushed ?s) (row_id warship_row) = None" by simp
  have 5: "(row_id warship_row, finalType (row_fused ascii_text warship_row)) = (7, qs ''warship'')" by code_simp
  from unlisted_type_retried_forever[OF ascii_text_laws 1 2 3 4, of 3] show ?thesis
    unfolding 5 Let_def by simp
qed

end
