(* ===== verification/Alarm_Snapshot.thy ===== *)
theory Alarm_Snapshot
  imports Alarm_Event Target_Type_Client
begin

text \<open>
  The full snapshot pushed to TrackManager (\<open>grpc_alarm/AlarmGrpcSnapshotClient.cpp\<close>): one
  record per target and environment, chosen from the rule alarms and the manual alarms, with the
  suspicious targets embedded afterwards, and the connection it is pushed over.  Times in the
  records are seconds.
\<close>

section \<open>Records\<close>

datatype GrpcThreat = GT_LOW | GT_MEDIUM | GT_HIGH
datatype GrpcLifecycle = GL_ACTIVE | GL_FOCUS | GL_DELETED
datatype GrpcDisposition = GD_UNASSIGNED | GD_ASSIGNED | GD_VERIFY_FAILED | GD_VERIFY_SUCCESS
datatype GrpcCategory = GC_TRACK_AREA | GC_CUSTOM1

text \<open>The levels compare as their numbers in the schema.\<close>

fun threat_num :: "GrpcThreat \<Rightarrow> nat" where
  "threat_num GT_LOW = 0"
| "threat_num GT_MEDIUM = 1"
| "threat_num GT_HIGH = 2"

instantiation GrpcThreat :: linorder
begin

definition less_eq_GrpcThreat :: "GrpcThreat \<Rightarrow> GrpcThreat \<Rightarrow> bool" where
  "less_eq_GrpcThreat a b = (threat_num a \<le> threat_num b)"

definition less_GrpcThreat :: "GrpcThreat \<Rightarrow> GrpcThreat \<Rightarrow> bool" where
  "less_GrpcThreat a b = (threat_num a < threat_num b)"

instance
proof
  fix a b c :: GrpcThreat
  have inj: "a = b" if "threat_num a = threat_num b" for a b using that by (cases a; cases b) simp_all
  show "a \<le> b \<Longrightarrow> b \<le> a \<Longrightarrow> a = b" using inj by (simp add: less_eq_GrpcThreat_def)
qed (auto simp: less_eq_GrpcThreat_def less_GrpcThreat_def)

end

record AlarmItem =
  it_alarmId :: qstring
  it_category :: GrpcCategory
  it_status :: GrpcLifecycle
  it_disposition :: GrpcDisposition
  it_content :: qstring
  it_level :: GrpcThreat
  it_area :: "(string \<times> qstring) option"
  it_classId :: int
  it_behaviorId :: int
  it_position :: "(real \<times> real) option"
  it_bearing :: real
  it_raised :: real
  it_updated :: real
  it_resolved :: real
  it_ruleIds :: "qstring list"
  it_details :: qstring

record TargetAlarmRecord =
  sr_environment :: EnvironmentType
  sr_targetId :: qstring
  sr_producer :: string
  sr_updateTime :: int
  sr_alarm :: AlarmItem

definition threatLevelFromScore :: "int \<Rightarrow> GrpcThreat" where
  "threatLevelFromScore score = (if score \<ge> 70 then GT_HIGH else if score \<ge> 30 then GT_MEDIUM else GT_LOW)"

definition lifecycleFromStatus :: "int \<Rightarrow> GrpcLifecycle" where
  "lifecycleFromStatus st = (if st = 1 then GL_FOCUS else if st = 2 then GL_DELETED else GL_ACTIVE)"

definition dispositionFromTaskStatus :: "int \<Rightarrow> GrpcDisposition" where
  "dispositionFromTaskStatus st = (if st = 1 then GD_ASSIGNED else if st = 2 then GD_VERIFY_FAILED
     else if st = 3 then GD_VERIFY_SUCCESS else GD_UNASSIGNED)"

definition environmentFromRuleTrackType :: "int \<Rightarrow> EnvironmentType" where
  "environmentFromRuleTrackType t = (if t > 0 then AIR else SURFACE)"

text \<open>The words around the rule and the target in the content of an alarm that brings none.\<close>

definition rule_alarm_text :: "AlarmData \<Rightarrow> qstring" where
  "rule_alarm_text ad = [0x544A, 0x8B66, 0x89C4, 0x5219] @ qs '':'' @ qs (condition_id ad) @ qs '' '' @
     [0x822A, 0x8FF9] @ qs '':'' @ qs (dec_int (unique_id ad))"

definition buildAlarmItem :: "content_fun \<Rightarrow> (int, bool) qmap \<Rightarrow> AlarmData \<Rightarrow> qstring \<Rightarrow> AlarmItem" where
  "buildAlarmItem content airTrack ad areaName =
     \<lparr>it_alarmId = qs (alarm_id ad), it_category = GC_TRACK_AREA, it_status = lifecycleFromStatus (alarm_status ad),
      it_disposition = dispositionFromTaskStatus (task_status ad),
      it_content = (if alarm_content ad \<noteq> [] then alarm_content ad
                    else if condition_id ad = ''manual_confirm''
                    then content (unique_id ad) (qm_value airTrack (unique_id ad) False) (targetspeed ad) (targetdir ad)
                    else rule_alarm_text ad),
      it_level = (if condition_id ad = ''manual_confirm'' then GT_HIGH else threatLevelFromScore (threatScore ad)),
      it_area = Some (area_key ad, areaName), it_classId = targettype ad, it_behaviorId = targetbehavior ad,
      it_position = Some (targetlon ad, targetlat ad), it_bearing = targetdir ad,
      it_raised = of_int (origintime ad) / 1000, it_updated = of_int (alarm_time ad) / 1000, it_resolved = 0,
      it_ruleIds = [qs (condition_id ad)], it_details = []\<rparr>"

section \<open>One record per target and environment\<close>

text \<open>\<open>SnapshotKey\<close>: the number of the environment in the schema, then the id.\<close>

type_synonym snapshot_key = "int \<times> qstring"
type_synonym snapshot = "(snapshot_key, TargetAlarmRecord) qmap"

fun env_num :: "EnvironmentType \<Rightarrow> int" where
  "env_num ENV_UNKNOWN = 1"
| "env_num LAND = 2"
| "env_num AIR = 3"
| "env_num SURFACE = 4"
| "env_num SUBSURFACE = 5"
| "env_num SPACE = 6"
| "env_num MARITIME = 7"

definition snapshot_key :: "TargetAlarmRecord \<Rightarrow> snapshot_key" where
  "snapshot_key r = (env_num (sr_environment r), sr_targetId r)"

abbreviation sr_level :: "TargetAlarmRecord \<Rightarrow> GrpcThreat" where
  "sr_level r \<equiv> it_level (sr_alarm r)"

definition dedup_put :: "TargetAlarmRecord \<Rightarrow> snapshot \<Rightarrow> snapshot" where
  "dedup_put r m =
     (case map_of m (snapshot_key r) of
        None \<Rightarrow> qm_insert (snapshot_key r) r m
      | Some old \<Rightarrow> if sr_level old < sr_level r then qm_insert (snapshot_key r) r m else m)"

definition rule_record :: "publish_env \<Rightarrow> string \<Rightarrow> int \<Rightarrow> alarm_state \<Rightarrow> AlarmData \<Rightarrow> disposition \<Rightarrow> TargetAlarmRecord" where
  "rule_record E producer now s ad effDisp =
     (let item = buildAlarmItem (pe_content E) (manualAlarmAirTrack s) ad (areaNameOf (pe_alarmRules E) ad);
          item1 = item\<lparr>it_disposition := dispositionFromTaskStatus (eff_task_status effDisp)\<rparr>;
          item2 = (case eff_resolved effDisp of Some t \<Rightarrow> item1\<lparr>it_resolved := of_int t / 1000\<rparr> | None \<Rightarrow> item1)
      in \<lparr>sr_environment = environmentFromRuleTrackType (track_type_of E ad), sr_targetId = qs (dec_int (unique_id ad)),
          sr_producer = producer, sr_updateTime = now div 1000, sr_alarm = item2\<rparr>)"

fun snapshotRules :: "publish_env \<Rightarrow> string \<Rightarrow> int \<Rightarrow> (string, AlarmData) qmap \<Rightarrow> snapshot \<Rightarrow> alarm_state
    \<Rightarrow> snapshot \<times> alarm_state \<times> db_op list" where
  "snapshotRules E producer now [] m s = (m, s, [])"
| "snapshotRules E producer now ((k, ad) # rest) m s =
     (if now - alarm_time ad > 600 * 1000 then snapshotRules E producer now rest m s
      else let (filtered, s1) = isUniqueIdAlarmFiltered now (unique_id ad) s in
        if filtered then snapshotRules E producer now rest m s1
        else if unique_id ad \<le> 0 then snapshotRules E producer now rest m s1
        else let (effDisp, s2, ops) =
                   resolveRuleAlarmDisposition (pe_text E) (pe_ident E) (pe_identRules E) (pe_logic E) now ad s1;
                 (m', s3, ops') = snapshotRules E producer now rest
                   (dedup_put (rule_record E producer now s1 ad effDisp) m) s2
             in (m', s3, ops @ ops'))"

definition manual_record :: "publish_env \<Rightarrow> string \<Rightarrow> int \<Rightarrow> alarm_state \<Rightarrow> AlarmData \<Rightarrow> TargetAlarmRecord" where
  "manual_record E producer now s ad =
     \<lparr>sr_environment = (if qm_value (manualAlarmAirTrack s) (unique_id ad) False then AIR else SURFACE),
      sr_targetId = qs (dec_int (unique_id ad)), sr_producer = producer, sr_updateTime = now div 1000,
      sr_alarm = (buildAlarmItem (pe_content E) (manualAlarmAirTrack s) ad [])\<lparr>it_disposition := GD_VERIFY_SUCCESS\<rparr>\<rparr>"

fun snapshotManuals :: "publish_env \<Rightarrow> string \<Rightarrow> int \<Rightarrow> (string, AlarmData) qmap \<Rightarrow> snapshot \<Rightarrow> alarm_state
    \<Rightarrow> snapshot \<times> alarm_state" where
  "snapshotManuals E producer now [] m s = (m, s)"
| "snapshotManuals E producer now ((k, ad) # rest) m s =
     (let (filtered, s1) = isUniqueIdAlarmFiltered now (unique_id ad) s in
      if filtered then snapshotManuals E producer now rest m s1
      else if now - alarm_time ad > 600 * 1000 then snapshotManuals E producer now rest m s1
      else if unique_id ad \<le> 0 then snapshotManuals E producer now rest m s1
      else snapshotManuals E producer now rest (dedup_put (manual_record E producer now s1 ad) m) s1)"

section \<open>Suspicious targets\<close>

definition suspicious_record :: "string \<Rightarrow> int \<Rightarrow> qstring \<Rightarrow> EnvironmentType \<Rightarrow> qstring \<Rightarrow> TargetAlarmRecord" where
  "suspicious_record producer now ruleId env targetId =
     \<lparr>sr_environment = env, sr_targetId = targetId, sr_producer = producer, sr_updateTime = now div 1000,
      sr_alarm = \<lparr>it_alarmId = qs ''suspicious_'' @ targetId, it_category = GC_CUSTOM1, it_status = GL_ACTIVE,
        it_disposition = GD_UNASSIGNED, it_content = qs ''SuspiciousTarget'', it_level = GT_MEDIUM, it_area = None,
        it_classId = 0, it_behaviorId = 0, it_position = None, it_bearing = 0, it_raised = of_int (now div 1000),
        it_updated = of_int (now div 1000), it_resolved = 0, it_ruleIds = [ruleId], it_details = qs ''is_suspicious''\<rparr>\<rparr>"

definition add_rule_id :: "qstring \<Rightarrow> TargetAlarmRecord \<Rightarrow> TargetAlarmRecord" where
  "add_rule_id ruleId r =
     (if ruleId \<in> set (it_ruleIds (sr_alarm r)) then r
      else r\<lparr>sr_alarm := (sr_alarm r)\<lparr>it_ruleIds := it_ruleIds (sr_alarm r) @ [ruleId]\<rparr>\<rparr>)"

text \<open>\<open>QChar::isDigit\<close> is a parameter.\<close>

definition enrichOne :: "qt_text \<Rightarrow> (int \<Rightarrow> bool) \<Rightarrow> string \<Rightarrow> int \<Rightarrow> qstring \<Rightarrow> EnvironmentType \<Rightarrow> qstring
    \<Rightarrow> snapshot \<Rightarrow> snapshot" where
  "enrichOne T isDigit producer now ruleId env tid m =
     (let targetId = trimmed T tid in
      if targetId = [] \<or> \<not> isDigit (hd targetId) then m
      else let key = (env_num env, targetId) in
        case map_of m key of
          Some r \<Rightarrow> qm_insert key (add_rule_id ruleId r) m
        | None \<Rightarrow> qm_insert key (suspicious_record producer now ruleId env targetId) m)"

definition enrichOrCreate :: "qt_text \<Rightarrow> (int \<Rightarrow> bool) \<Rightarrow> string \<Rightarrow> int \<Rightarrow> qstring \<Rightarrow> EnvironmentType \<Rightarrow> qstring list
    \<Rightarrow> snapshot \<Rightarrow> snapshot" where
  "enrichOrCreate T isDigit producer now ruleId env ids m = fold (enrichOne T isDigit producer now ruleId env) ids m"

section \<open>Pushing\<close>

record suspicious_cfg =
  embedInTarget :: bool
  embedRuleId :: qstring
  seaIds :: "qstring list"
  airIds :: "qstring list"

definition suspicious_rule_id :: "qt_text \<Rightarrow> suspicious_cfg \<Rightarrow> qstring" where
  "suspicious_rule_id T c = (if trimmed T (embedRuleId c) = [] then qs ''suspicious_target'' else trimmed T (embedRuleId c))"

definition buildSnapshot :: "publish_env \<Rightarrow> (int \<Rightarrow> bool) \<Rightarrow> suspicious_cfg \<Rightarrow> string \<Rightarrow> int \<Rightarrow> alarm_state
    \<Rightarrow> snapshot \<times> alarm_state \<times> db_op list" where
  "buildSnapshot E isDigit susp producer now s =
     (let (m1, s1, ops) = snapshotRules E producer now (mapAlarmData s) [] s;
          (m2, s2) = snapshotManuals E producer now (manualAlarmData s1) m1 s1;
          ruleId = suspicious_rule_id (pe_text E) susp;
          m3 = (if embedInTarget susp
                then enrichOrCreate (pe_text E) isDigit producer now ruleId AIR (airIds susp)
                       (enrichOrCreate (pe_text E) isDigit producer now ruleId SURFACE (seaIds susp) m2)
                else m2)
      in (m3, s2, ops))"

record snapshot_client =
  sc_enabled :: bool
  sc_host :: string
  sc_port :: int
  sc_producer :: string
  sc_channel :: bool
  sc_stub :: bool
  sc_pushed :: "TargetAlarmRecord list list"

definition snapshot_configure :: "string \<Rightarrow> int \<Rightarrow> bool \<Rightarrow> string \<Rightarrow> snapshot_client \<Rightarrow> snapshot_client" where
  "snapshot_configure host port enabled producerId c =
     c\<lparr>sc_host := host, sc_port := port, sc_enabled := enabled, sc_producer := producerId,
       sc_channel := False, sc_stub := False\<rparr>"

definition snapshot_ensureChannel :: "(string \<Rightarrow> bool) \<Rightarrow> snapshot_client \<Rightarrow> bool \<times> snapshot_client" where
  "snapshot_ensureChannel create c =
     (if \<not> sc_enabled c then (False, c)
      else if sc_stub c then (True, c)
      else let address = sc_host c @ '':'' @ dec_int (sc_port c) in
        if \<not> create address then (False, c) else (True, c\<lparr>sc_channel := True, sc_stub := True\<rparr>))"

record snapshot_net =
  sn_channel :: "string \<Rightarrow> bool"
  sn_update :: "TargetAlarmRecord list \<Rightarrow> rpc_answer"

definition pushSnapshot :: "publish_env \<Rightarrow> (int \<Rightarrow> bool) \<Rightarrow> suspicious_cfg \<Rightarrow> snapshot_net \<Rightarrow> int
    \<Rightarrow> snapshot_client \<Rightarrow> alarm_state \<Rightarrow> bool \<times> snapshot_client \<times> alarm_state \<times> db_op list" where
  "pushSnapshot E isDigit susp N now c s =
     (if \<not> sc_enabled c then (False, c, s, [])
      else case snapshot_ensureChannel (sn_channel N) c of
        (False, c1) \<Rightarrow> (False, c1, s, [])
      | (True, c1) \<Rightarrow>
          (let (m, s1, ops) = buildSnapshot E isDigit susp (sc_producer c1) now s;
               items = map snd m;
               c2 = c1\<lparr>sc_pushed := sc_pushed c1 @ [items]\<rparr>
           in case sn_update N items of
                RpcError \<Rightarrow> (False, c2\<lparr>sc_stub := False, sc_channel := False\<rparr>, s1, ops)
              | RpcReply accepted \<Rightarrow> (accepted, c2, s1, ops)))"

section \<open>Facts: choosing a record\<close>

lemma dedup_put_lookup:
  "map_of (dedup_put r m) k =
     (if k = snapshot_key r then
        (case map_of m k of None \<Rightarrow> Some r | Some old \<Rightarrow> if sr_level old < sr_level r then Some r else Some old)
      else map_of m k)"
  by (auto simp: dedup_put_def split: option.splits)

lemma qm_ok_dedup: "qm_ok m \<Longrightarrow> qm_ok (fold dedup_put rs m)"
  by (induction rs arbitrary: m) (auto simp: dedup_put_def qm_ok_insert split: option.splits)

text \<open>The record that wins a key: the first of the highest level.\<close>

definition wins :: "TargetAlarmRecord \<Rightarrow> snapshot_key \<Rightarrow> TargetAlarmRecord list \<Rightarrow> bool" where
  "wins r k rs \<longleftrightarrow> (\<exists>pre post. rs = pre @ r # post \<and> snapshot_key r = k \<and>
     list_all (\<lambda>x. snapshot_key x \<noteq> k \<or> sr_level x < sr_level r) pre \<and>
     list_all (\<lambda>x. snapshot_key x \<noteq> k \<or> sr_level x \<le> sr_level r) post)"

lemma wins_snoc:
  "wins r k (rs @ [x]) \<longleftrightarrow>
     (if snapshot_key x \<noteq> k then wins r k rs
      else (wins r k rs \<and> sr_level x \<le> sr_level r) \<or>
           (r = x \<and> list_all (\<lambda>y. snapshot_key y \<noteq> k \<or> sr_level y < sr_level x) rs))"
proof -
  have "wins r k (rs @ [x]) \<longleftrightarrow>
      (wins r k rs \<and> (snapshot_key x \<noteq> k \<or> sr_level x \<le> sr_level r)) \<or>
      (r = x \<and> snapshot_key x = k \<and> list_all (\<lambda>y. snapshot_key y \<noteq> k \<or> sr_level y < sr_level x) rs)"
    (is "?L \<longleftrightarrow> ?R")
  proof
    assume ?L
    then obtain pre post where d: "rs @ [x] = pre @ r # post" "snapshot_key r = k"
      "list_all (\<lambda>y. snapshot_key y \<noteq> k \<or> sr_level y < sr_level r) pre"
      "list_all (\<lambda>y. snapshot_key y \<noteq> k \<or> sr_level y \<le> sr_level r) post" by (auto simp: wins_def)
    show ?R
    proof (cases post rule: rev_cases)
      case Nil
      then show ?thesis using d by auto
    next
      case (snoc post' y)
      then have "rs = pre @ r # post'" "y = x" using d(1) by (metis append_Cons append_assoc append1_eq_conv)+
      then show ?thesis using d snoc by (auto simp: wins_def)
    qed
  next
    assume ?R
    then show ?L
    proof (elim disjE)
      assume a: "wins r k rs \<and> (snapshot_key x \<noteq> k \<or> sr_level x \<le> sr_level r)"
      then obtain pre post where "rs = pre @ r # post" "snapshot_key r = k"
        "list_all (\<lambda>y. snapshot_key y \<noteq> k \<or> sr_level y < sr_level r) pre"
        "list_all (\<lambda>y. snapshot_key y \<noteq> k \<or> sr_level y \<le> sr_level r) post" by (auto simp: wins_def)
      with a show ?L unfolding wins_def by (intro exI[of _ pre] exI[of _ "post @ [x]"]) auto
    next
      assume "r = x \<and> snapshot_key x = k \<and> list_all (\<lambda>y. snapshot_key y \<noteq> k \<or> sr_level y < sr_level x) rs"
      then show ?L unfolding wins_def by (intro exI[of _ rs] exI[of _ "[]"]) auto
    qed
  qed
  then show ?thesis by auto
qed

lemma wins_unique: "wins r k rs \<Longrightarrow> wins r' k rs \<Longrightarrow> r = r'"
proof (induction rs rule: rev_induct)
  case (snoc x rs)
  have "False" if "wins q k rs" "sr_level x \<le> sr_level q" "list_all (\<lambda>y. snapshot_key y \<noteq> k \<or> sr_level y < sr_level x) rs" for q
    using that by (auto simp: wins_def)
  with snoc show ?case by (auto simp: wins_snoc split: if_splits)
qed (simp add: wins_def)

lemma fold_dedup_lookup: "map_of (fold dedup_put rs []) k = Some r \<longleftrightarrow> wins r k rs"
  and fold_dedup_none: "map_of (fold dedup_put rs []) k = None \<longleftrightarrow> list_all (\<lambda>x. snapshot_key x \<noteq> k) rs"
proof (induction rs arbitrary: r rule: rev_induct)
  case Nil
  { case 1 show ?case by (simp add: wins_def) }
  { case 2 show ?case by simp }
next
  case (snoc x rs)
  let ?m = "map_of (fold dedup_put rs []) k"
  { case 1
    show ?case
    proof (cases ?m)
      case None
      then have "list_all (\<lambda>x. snapshot_key x \<noteq> k) rs" using snoc(2) by simp
      then have "\<not> wins r k rs" "list_all (\<lambda>y. snapshot_key y \<noteq> k \<or> sr_level y < sr_level x) rs"
        by (auto simp: wins_def list_all_iff)
      then show ?thesis using None by (auto simp: dedup_put_lookup wins_snoc)
    next
      case (Some old)
      then have w: "wins old k rs" using snoc(1) by simp
      have lt: "list_all (\<lambda>y. snapshot_key y \<noteq> k \<or> sr_level y < sr_level x) rs \<longleftrightarrow> sr_level old < sr_level x"
        using w by (fastforce simp: wins_def list_all_iff)
      have eq: "wins r k rs \<longleftrightarrow> r = old" using w wins_unique by blast
      show ?thesis using Some lt eq by (auto simp: dedup_put_lookup wins_snoc not_le)
    qed }
  { case 2 show ?case using snoc(2) by (auto simp: dedup_put_lookup split: option.splits) }
qed

section \<open>Facts: what the snapshot holds\<close>

text \<open>The records the alarms of a state give rise to, before one is chosen per key.\<close>

definition reportable :: "int \<Rightarrow> alarm_state \<Rightarrow> AlarmData \<Rightarrow> bool" where
  "reportable now s ad \<longleftrightarrow> publishable now s ad \<and> 0 < unique_id ad"

definition rule_records :: "publish_env \<Rightarrow> string \<Rightarrow> int \<Rightarrow> alarm_state \<Rightarrow> (string, AlarmData) qmap
    \<Rightarrow> TargetAlarmRecord list" where
  "rule_records E producer now s m =
     map (\<lambda>p. rule_record E producer now s (snd p) (disposition_of E now s (snd p)))
       (filter (\<lambda>p. reportable now s (snd p)) m)"

definition manual_records :: "publish_env \<Rightarrow> string \<Rightarrow> int \<Rightarrow> alarm_state \<Rightarrow> (string, AlarmData) qmap
    \<Rightarrow> TargetAlarmRecord list" where
  "manual_records E producer now s m =
     map (\<lambda>p. manual_record E producer now s (snd p)) (filter (\<lambda>p. reportable now s (snd p)) m)"

lemma reportable_cong: "same_alarms now s s' \<Longrightarrow> reportable now s' = reportable now s"
  by (auto simp: reportable_def publishable_cong fun_eq_iff)

lemma record_cong:
  "same_alarms now s s' \<Longrightarrow> rule_record E producer now s' = rule_record E producer now s"
  "same_alarms now s s' \<Longrightarrow> manual_record E producer now s' = manual_record E producer now s"
  by (auto simp: rule_record_def manual_record_def same_alarms_def fun_eq_iff)

lemma rule_records_cong:
  assumes "same_alarms now s s'"
    and "\<And>p. p \<in> set m \<Longrightarrow> map_of (identificationResolvedTime s') (alarm_id (snd p)) =
        map_of (identificationResolvedTime s) (alarm_id (snd p))"
  shows "rule_records E producer now s' m = rule_records E producer now s m"
  using assms by (auto simp: rule_records_def reportable_cong record_cong disposition_cong intro!: map_cong)

lemma snapshotRules_spec:
  assumes "qm_ok (alarmFilterExpireMs s)" "distinct (map (alarm_id \<circ> snd) es)"
  shows "fst (snapshotRules E producer now es m s) = fold dedup_put (rule_records E producer now s es) m
    \<and> same_alarms now s (fst (snd (snapshotRules E producer now es m s)))"
  using assms
proof (induction es arbitrary: m s)
  case Nil
  then show ?case by (simp add: same_alarms_def rule_records_def)
next
  case (Cons p rest)
  obtain k ad where p: "p = (k, ad)" by fastforce
  obtain b s1 where f: "isUniqueIdAlarmFiltered now (unique_id ad) s = (b, s1)" by fastforce
  have b: "b = (0 < unique_id ad \<and> silenced now (unique_id ad) s)"
    using isFiltered_iff[OF Cons.prems(1), of now "unique_id ad"] f by simp
  have s1: "same_alarms now s s1" using same_alarms_filtered[OF Cons.prems(1), of now "unique_id ad"] f by simp
  have t1: "identificationResolvedTime s1 = identificationResolvedTime s"
    using isFiltered_resolvedTime[of now "unique_id ad" s] f by simp
  have ok1: "qm_ok (alarmFilterExpireMs s1)" using s1 by (simp add: same_alarms_def)
  have d: "distinct (map (alarm_id \<circ> snd) rest)" using Cons.prems(2) by (simp add: o_def)
  have fresh: "alarm_id (snd q) \<noteq> alarm_id ad" if "q \<in> set rest" for q using Cons.prems(2) that p by (auto simp: image_iff)
  show ?case
  proof (cases "reportable now s ad")
    case False
    then have "snapshotRules E producer now (p # rest) m s = snapshotRules E producer now rest m s1 \<or>
        snapshotRules E producer now (p # rest) m s = snapshotRules E producer now rest m s"
      using b f by (auto simp: p reportable_def publishable_def)
    moreover have "rule_records E producer now s (p # rest) = rule_records E producer now s rest"
      using False by (simp add: rule_records_def p)
    moreover have "rule_records E producer now s1 rest = rule_records E producer now s rest"
      by (rule rule_records_cong[OF s1]) (simp add: t1)
    ultimately show ?thesis
      using Cons.IH[OF ok1 d, of m] Cons.IH[OF Cons.prems(1) d, of m] same_alarms_trans[OF s1] by auto
  next
    case True
    obtain e s2 ops where r: "resolveRuleAlarmDisposition (pe_text E) (pe_ident E) (pe_identRules E) (pe_logic E) now ad s1
        = (e, s2, ops)" by (metis surj_pair)
    have s2: "same_alarms now s s2" using same_alarms_trans[OF s1 same_alarms_resolve[OF ok1 r]] .
    have ok2: "qm_ok (alarmFilterExpireMs s2)" using s2 by (simp add: same_alarms_def)
    have e: "e = disposition_of E now s ad" using disposition_cong[OF s1, of ad] t1 r by (metis fst_conv)
    have t2: "map_of (identificationResolvedTime s2) (alarm_id (snd q)) = map_of (identificationResolvedTime s) (alarm_id (snd q))"
      if "q \<in> set rest" for q
      using resolve_other_time[of ad "alarm_id (snd q)"] fresh[OF that] r t1 by (metis fst_conv snd_conv)
    let ?r = "rule_record E producer now s ad e"
    have "snapshotRules E producer now (p # rest) m s =
        (let (m', s3, ops') = snapshotRules E producer now rest (dedup_put ?r m) s2 in (m', s3, ops @ ops'))"
      using True b f r record_cong(1)[OF s1, of E producer] by (simp add: p reportable_def publishable_def)
    moreover have "rule_records E producer now s (p # rest) = ?r # rule_records E producer now s2 rest"
      using True rule_records_cong[OF s2 t2] by (simp add: rule_records_def p e)
    ultimately show ?thesis using Cons.IH[OF ok2 d, of "dedup_put ?r m"] same_alarms_trans[OF s2]
      by (simp add: case_prod_beta)
  qed
qed

lemma snapshotManuals_spec:
  assumes "qm_ok (alarmFilterExpireMs s)"
  shows "fst (snapshotManuals E producer now es m s) = fold dedup_put (manual_records E producer now s es) m
    \<and> same_alarms now s (snd (snapshotManuals E producer now es m s))"
  using assms
proof (induction es arbitrary: m s)
  case (Cons p rest)
  obtain k ad where p: "p = (k, ad)" by fastforce
  obtain b s1 where f: "isUniqueIdAlarmFiltered now (unique_id ad) s = (b, s1)" by fastforce
  have b: "b = (0 < unique_id ad \<and> silenced now (unique_id ad) s)"
    using isFiltered_iff[OF Cons.prems, of now "unique_id ad"] f by simp
  have s1: "same_alarms now s s1" using same_alarms_filtered[OF Cons.prems, of now "unique_id ad"] f by simp
  have ok1: "qm_ok (alarmFilterExpireMs s1)" using s1 by (simp add: same_alarms_def)
  have "manual_records E producer now s1 rest = manual_records E producer now s rest"
    using reportable_cong[OF s1] record_cong(2)[OF s1] by (simp add: manual_records_def)
  with Cons.IH[OF ok1] b f same_alarms_trans[OF s1] record_cong(2)[OF s1, of E producer] show ?case
    by (auto simp: p manual_records_def reportable_def publishable_def)
qed (simp add: same_alarms_def manual_records_def)

lemma resolve_frame: "same_alarms now s s' \<Longrightarrow> manualAlarmData s' = manualAlarmData s"
  by (simp add: same_alarms_def)

text \<open>All candidate records in the order the code meets them.\<close>

definition snapshot_records :: "publish_env \<Rightarrow> string \<Rightarrow> int \<Rightarrow> alarm_state \<Rightarrow> TargetAlarmRecord list" where
  "snapshot_records E producer now s =
     rule_records E producer now s (mapAlarmData s) @ manual_records E producer now s (manualAlarmData s)"

lemma alarms_snapshot:
  assumes "alarms_ok s" "snapshotRules E producer now (mapAlarmData s) [] s = (m1, s1, ops)"
    "snapshotManuals E producer now (manualAlarmData s1) m1 s1 = (m2, s2)"
  shows "m2 = fold dedup_put (snapshot_records E producer now s) [] \<and> same_alarms now s s2"
proof -
  have ok: "qm_ok (alarmFilterExpireMs s)" using assms(1) by (simp add: alarms_ok_def)
  note R = snapshotRules_spec[OF ok alarm_ids_distinct[OF assms(1)], of E producer now "[]", unfolded assms(2), simplified]
  have ok1: "qm_ok (alarmFilterExpireMs s1)" using R by (simp add: same_alarms_def)
  have "manual_records E producer now s1 (manualAlarmData s1) = manual_records E producer now s (manualAlarmData s)"
    using R reportable_cong[of now s s1] record_cong(2)[of now s s1] by (simp add: manual_records_def same_alarms_def)
  with snapshotManuals_spec[OF ok1, of E producer now "manualAlarmData s1" m1, unfolded assms(3)] R show ?thesis
    by (auto simp: snapshot_records_def intro: same_alarms_trans)
qed

section \<open>Facts: suspicious targets and the connection\<close>

definition suspicious_key :: "qt_text \<Rightarrow> (int \<Rightarrow> bool) \<Rightarrow> EnvironmentType \<Rightarrow> qstring list \<Rightarrow> snapshot_key \<Rightarrow> bool" where
  "suspicious_key T isDigit env ids k \<longleftrightarrow>
     list_ex (\<lambda>tid. trimmed T tid \<noteq> [] \<and> isDigit (hd (trimmed T tid)) \<and> k = (env_num env, trimmed T tid)) ids"

lemma add_rule_id_twice [simp]: "add_rule_id ruleId (add_rule_id ruleId r) = add_rule_id ruleId r"
  by (simp add: add_rule_id_def)

lemma add_rule_id_suspicious [simp]:
  "add_rule_id ruleId (suspicious_record producer now ruleId env t) = suspicious_record producer now ruleId env t"
  by (simp add: add_rule_id_def suspicious_record_def)

lemma enrichOne_lookup:
  "map_of (enrichOne T isDigit producer now ruleId env tid m) k =
     (if suspicious_key T isDigit env [tid] k
      then Some (case map_of m k of Some r \<Rightarrow> add_rule_id ruleId r
                 | None \<Rightarrow> suspicious_record producer now ruleId env (snd k))
      else map_of m k)"
  by (auto simp: enrichOne_def suspicious_key_def Let_def split: option.splits)

lemma enrichOrCreate_lookup:
  "map_of (enrichOrCreate T isDigit producer now ruleId env ids m) k =
     (if suspicious_key T isDigit env ids k
      then Some (case map_of m k of Some r \<Rightarrow> add_rule_id ruleId r
                 | None \<Rightarrow> suspicious_record producer now ruleId env (snd k))
      else map_of m k)"
  unfolding enrichOrCreate_def
proof (induction ids arbitrary: m)
  case (Cons tid ids)
  have "suspicious_key T isDigit env (tid # ids) k \<longleftrightarrow> suspicious_key T isDigit env [tid] k \<or> suspicious_key T isDigit env ids k"
    by (simp add: suspicious_key_def)
  with Cons show ?case by (auto simp: enrichOne_lookup split: option.splits)
qed (simp add: suspicious_key_def)

lemma suspicious_key_env: "suspicious_key T isDigit env ids k \<Longrightarrow> fst k = env_num env"
  by (auto simp: suspicious_key_def list_ex_iff)

lemma buildSnapshot_lookup:
  assumes "alarms_ok s" "buildSnapshot E isDigit susp producer now s = (m, s', ops)"
    and "alarm = map_of (fold dedup_put (snapshot_records E producer now s) []) k"
    and "rid = suspicious_rule_id (pe_text E) susp"
  shows "map_of m k =
     (if embedInTarget susp \<and> suspicious_key (pe_text E) isDigit SURFACE (seaIds susp) k
      then Some (case alarm of Some r \<Rightarrow> add_rule_id rid r | None \<Rightarrow> suspicious_record producer now rid SURFACE (snd k))
      else if embedInTarget susp \<and> suspicious_key (pe_text E) isDigit AIR (airIds susp) k
      then Some (case alarm of Some r \<Rightarrow> add_rule_id rid r | None \<Rightarrow> suspicious_record producer now rid AIR (snd k))
      else alarm)"
proof -
  obtain m1 s1 o1 where 1: "snapshotRules E producer now (mapAlarmData s) [] s = (m1, s1, o1)" by (metis surj_pair)
  obtain m2 s2 where 2: "snapshotManuals E producer now (manualAlarmData s1) m1 s1 = (m2, s2)" by (metis surj_pair)
  have m2: "m2 = fold dedup_put (snapshot_records E producer now s) []" using alarms_snapshot[OF assms(1) 1 2] by simp
  have "\<not> (suspicious_key (pe_text E) isDigit SURFACE (seaIds susp) k \<and> suspicious_key (pe_text E) isDigit AIR (airIds susp) k)"
    using suspicious_key_env[of "pe_text E" isDigit SURFACE "seaIds susp" k]
      suspicious_key_env[of "pe_text E" isDigit AIR "airIds susp" k] by auto
  then show ?thesis using assms(2) unfolding assms(3,4) m2[symmetric]
    by (auto simp: buildSnapshot_def 1 2 enrichOrCreate_lookup Let_def)
qed

text \<open>
  C26. The snapshot is exact: under each key (environment and target) stands the first record of the
  highest level among the alarms that are not silenced and at most ten minutes old, rule alarms
  before manual ones; a suspicious target only adds its rule id to a record that is there and gets
  a record of its own exactly where no alarm has one.
\<close>

theorem snapshot_content_exact:
  assumes "alarms_ok s" and "buildSnapshot E isDigit susp producer now s = (m, s', ops)"
    and "rid = suspicious_rule_id (pe_text E) susp"
    and "env = (if fst k = 4 then SURFACE else AIR)"
    and "flagged = (embedInTarget susp \<and> (suspicious_key (pe_text E) isDigit SURFACE (seaIds susp) k \<or>
           suspicious_key (pe_text E) isDigit AIR (airIds susp) k))"
  shows "(\<exists>r. wins r k (snapshot_records E producer now s) \<and> map_of m k = Some (if flagged then add_rule_id rid r else r)) \<or>
    ((\<nexists>r. r \<in> set (snapshot_records E producer now s) \<and> snapshot_key r = k) \<and>
     map_of m k = (if flagged then Some (suspicious_record producer now rid env (snd k)) else None))"
proof -
  let ?rs = "snapshot_records E producer now s"
  note L = buildSnapshot_lookup[OF assms(1,2) refl assms(3), of k]
  have e: "suspicious_key (pe_text E) isDigit SURFACE (seaIds susp) k \<Longrightarrow> env = SURFACE"
    "suspicious_key (pe_text E) isDigit AIR (airIds susp) k \<Longrightarrow> env = AIR"
    using assms(4) suspicious_key_env[of "pe_text E" isDigit SURFACE "seaIds susp" k]
      suspicious_key_env[of "pe_text E" isDigit AIR "airIds susp" k] by auto
  show ?thesis
  proof (cases "map_of (fold dedup_put ?rs []) k")
    case None
    then have "\<nexists>r. r \<in> set ?rs \<and> snapshot_key r = k" by (auto simp: fold_dedup_none list_all_iff)
    then show ?thesis using None L e assms(5) by (auto split: if_splits)
  next
    case (Some r)
    then have "wins r k ?rs" by (simp add: fold_dedup_lookup)
    then show ?thesis using Some L e assms(5) by (auto split: if_splits)
  qed
qed

lemma reportable_one_alarm: "reportable 2000 one_alarm (sample_alarm ''a'' 7 60)"
  using one_alarm_ok(4) by (simp add: reportable_def alarm_at_def) (simp add: sample_alarm_def)

definition sample_susp :: suspicious_cfg where
  "sample_susp = \<lparr>embedInTarget = True, embedRuleId = [], seaIds = [qs ''7'', qs '' 8 ''], airIds = []\<rparr>"

definition ascii_digit :: "int \<Rightarrow> bool" where
  "ascii_digit c = (48 \<le> c \<and> c \<le> 57)"

lemma sample_suspicious_key:
  "suspicious_key (pe_text sample_publish) ascii_digit SURFACE (seaIds sample_susp) (4, qs ''8'')"
  "suspicious_key (pe_text sample_publish) ascii_digit SURFACE (seaIds sample_susp) (4, qs ''7'')"
  by code_simp+

lemma one_alarm_records:
  "\<exists>r. snapshot_records sample_publish p 2000 one_alarm = [r] \<and> snapshot_key r = (4, qs ''7'') \<and> sr_level r = GT_MEDIUM \<and>
     it_ruleIds (sr_alarm r) = [qs ''c1'']"
proof -
  let ?ad = "sample_alarm ''a'' 7 60"
  let ?r = "rule_record sample_publish p 2000 one_alarm ?ad (disposition_of sample_publish 2000 one_alarm ?ad)"
  have "snapshot_records sample_publish p 2000 one_alarm = [?r]"
    using reportable_one_alarm by (simp add: snapshot_records_def rule_records_def manual_records_def one_alarm_ok(5,6) alarm_at_def)
  moreover have "dec_int 7 = ''7''" by code_simp
  then have "snapshot_key ?r = (4, qs ''7'') \<and> sr_level ?r = GT_MEDIUM \<and> it_ruleIds (sr_alarm ?r) = [qs ''c1'']"
    by (simp add: rule_record_def Let_def snapshot_key_def buildAlarmItem_def sample_alarm_def environmentFromRuleTrackType_def
        sample_publish_def qm_value_def sample_rule_def default_rule_def threatLevelFromScore_def split: option.split)
  ultimately show ?thesis by blast
qed

theorem snapshot_content_exact_witness:
  "map_of (fst (buildSnapshot sample_publish ascii_digit sample_susp ''p'' 2000 one_alarm)) (4, qs ''8'')
     = Some (suspicious_record ''p'' 2000 (suspicious_rule_id ascii_text sample_susp) SURFACE (qs ''8''))"
proof -
  obtain m s' ops where b: "buildSnapshot sample_publish ascii_digit sample_susp ''p'' 2000 one_alarm = (m, s', ops)"
    by (metis surj_pair)
  obtain r where r: "snapshot_records sample_publish ''p'' 2000 one_alarm = [r]" "snapshot_key r = (4, qs ''7'')"
    using one_alarm_records by blast
  have "\<not> wins q (4, qs ''8'') (snapshot_records sample_publish ''p'' 2000 one_alarm)" for q
    using r by (auto simp: wins_def Cons_eq_append_conv)
  then show ?thesis
    using snapshot_content_exact[OF one_alarm_ok(1) b refl refl refl, of "(4, qs ''8'')"] b sample_suspicious_key
    by (auto simp: sample_susp_def sample_publish_def)
qed

lemma wins_facts: "wins r k rs \<Longrightarrow> r \<in> set rs \<and> snapshot_key r = k \<and> (\<forall>x \<in> set rs. snapshot_key x = k \<longrightarrow> sr_level x \<le> sr_level r)"
  by (force simp: wins_def list_all_iff)

lemma record_fields [simp]:
  "snapshot_key (rule_record E producer now s ad d) =
     (env_num (environmentFromRuleTrackType (track_type_of E ad)), qs (dec_int (unique_id ad)))"
  "sr_level (rule_record E producer now s ad d) =
     (if condition_id ad = ''manual_confirm'' then GT_HIGH else threatLevelFromScore (threatScore ad))"
  "it_category (sr_alarm (rule_record E producer now s ad d)) = GC_TRACK_AREA"
  "snd (snapshot_key (manual_record E producer now s ad)) = qs (dec_int (unique_id ad))"
  "it_category (sr_alarm (manual_record E producer now s ad)) = GC_TRACK_AREA"
  by (auto simp: rule_record_def manual_record_def snapshot_key_def buildAlarmItem_def Let_def split: option.split)

lemma add_rule_id_fields [simp]:
  "sr_level (add_rule_id rid r) = sr_level r" "it_category (sr_alarm (add_rule_id rid r)) = it_category (sr_alarm r)"
  by (simp_all add: add_rule_id_def)

lemma snapshot_records_target:
  "r \<in> set (snapshot_records E producer now s) \<Longrightarrow>
   \<exists>uid > 0. snd (snapshot_key r) = qs (dec_int uid) \<and> \<not> silenced now uid s \<and> it_category (sr_alarm r) = GC_TRACK_AREA"
  by (auto simp: snapshot_records_def rule_records_def manual_records_def reportable_def publishable_def)

text \<open>
  Every reportable rule alarm is represented: its key holds a record of an alarm whose level is
  at least the level its own score gives, also when the target is suspicious at the same time; and
  every record of an alarm (not of a mere suspicion) is about a target that is not silenced.
\<close>

theorem alarm_represented:
  assumes "alarms_ok s" and "buildSnapshot E isDigit susp producer now s = (m, s', ops)"
    and "(k, ad) \<in> set (mapAlarmData s)" and "reportable now s ad"
    and "map_of m q = Some x" and "it_category (sr_alarm x) = GC_TRACK_AREA"
  shows "(\<exists>r. map_of m (env_num (environmentFromRuleTrackType (track_type_of E ad)), qs (dec_int (unique_id ad))) = Some r \<and>
      it_category (sr_alarm r) = GC_TRACK_AREA \<and>
      (if condition_id ad = ''manual_confirm'' then GT_HIGH else threatLevelFromScore (threatScore ad)) \<le> sr_level r) \<and>
    (\<exists>uid > 0. snd q = qs (dec_int uid) \<and> \<not> silenced now uid s)"
proof -
  let ?rs = "snapshot_records E producer now s"
  let ?a = "rule_record E producer now s ad (disposition_of E now s ad)"
  note L = buildSnapshot_lookup[OF assms(1,2) refl refl]
  have a: "?a \<in> set ?rs" using assms(3,4) by (force simp: snapshot_records_def rule_records_def)
  then have "map_of (fold dedup_put ?rs []) (snapshot_key ?a) \<noteq> None"
    by (simp only: fold_dedup_none list_all_iff) blast
  then obtain r where r: "map_of (fold dedup_put ?rs []) (snapshot_key ?a) = Some r" by blast
  then have w: "r \<in> set ?rs" "sr_level ?a \<le> sr_level r"
    using wins_facts[of r "snapshot_key ?a" ?rs] a by (simp_all only: fold_dedup_lookup)
  have 1: "\<exists>r. map_of m (snapshot_key ?a) = Some r \<and> it_category (sr_alarm r) = GC_TRACK_AREA \<and> sr_level ?a \<le> sr_level r"
    using L[of "snapshot_key ?a"] r w snapshot_records_target[OF w(1)] by (auto simp del: record_fields)
  have 2: "\<exists>uid > 0. snd q = qs (dec_int uid) \<and> \<not> silenced now uid s"
  proof -
    have "map_of (fold dedup_put ?rs []) q \<noteq> None"
    proof
      assume n: "map_of (fold dedup_put ?rs []) q = None"
      show False using L[of q] assms(5,6) by (auto simp: n suspicious_record_def split: if_splits)
    qed
    then obtain y where y: "map_of (fold dedup_put ?rs []) q = Some y" by blast
    then have "y \<in> set ?rs" "snapshot_key y = q" using wins_facts[of y q ?rs] by (simp_all only: fold_dedup_lookup)
    with snapshot_records_target[of y E producer now s] show ?thesis by auto
  qed
  from 1 2 show ?thesis by (auto simp only: record_fields)
qed

theorem alarm_represented_witness:
  "\<exists>r. map_of (fst (buildSnapshot sample_publish ascii_digit sample_susp ''p'' 2000 one_alarm)) (4, qs ''7'') = Some r \<and>
     it_category (sr_alarm r) = GC_TRACK_AREA \<and> GT_MEDIUM \<le> sr_level r"
proof -
  let ?ad = "sample_alarm ''a'' 7 60"
  obtain m s' ops where b: "buildSnapshot sample_publish ascii_digit sample_susp ''p'' 2000 one_alarm = (m, s', ops)"
    by (metis surj_pair)
  obtain r where r: "snapshot_records sample_publish ''p'' 2000 one_alarm = [r]" "snapshot_key r = (4, qs ''7'')"
    using one_alarm_records by blast
  have f: "map_of (fold dedup_put [r] []) (4, qs ''7'') = Some r" using r(2) by (simp add: dedup_put_lookup)
  have c: "it_category (sr_alarm r) = GC_TRACK_AREA"
    using snapshot_records_target[of r sample_publish "''p''" 2000 one_alarm] r(1) by auto
  have "\<exists>x. map_of m (4, qs ''7'') = Some x \<and> it_category (sr_alarm x) = GC_TRACK_AREA"
    using buildSnapshot_lookup[OF one_alarm_ok(1) b refl refl, of "(4, qs ''7'')", unfolded r(1) f] c by auto
  then obtain x where x: "map_of m (4, qs ''7'') = Some x" "it_category (sr_alarm x) = GC_TRACK_AREA" by blast
  have i: "(''a'', ?ad) \<in> set (mapAlarmData one_alarm)" by (simp add: one_alarm_ok(5) alarm_at_def)
  have "dec_int 7 = ''7''" by code_simp
  then have k: "(env_num (environmentFromRuleTrackType (track_type_of sample_publish ?ad)), qs (dec_int (unique_id ?ad))) = (4, qs ''7'')"
    by (simp add: sample_alarm_def environmentFromRuleTrackType_def sample_publish_def qm_value_def sample_rule_def default_rule_def)
  have l: "(if condition_id ?ad = ''manual_confirm'' then GT_HIGH else threatLevelFromScore (threatScore ?ad)) = GT_MEDIUM"
    by (simp add: sample_alarm_def threatLevelFromScore_def)
  from alarm_represented[OF one_alarm_ok(1) b i reportable_one_alarm x, unfolded k l] b show ?thesis by auto
qed

abbreviation snapshot_push :: "publish_env \<Rightarrow> (int \<Rightarrow> bool) \<Rightarrow> suspicious_cfg \<Rightarrow> snapshot_net \<Rightarrow> int
    \<Rightarrow> snapshot_client \<times> alarm_state \<Rightarrow> bool \<times> snapshot_client \<times> alarm_state" where
  "snapshot_push E isDigit susp N now cs \<equiv>
     (case pushSnapshot E isDigit susp N now (fst cs) (snd cs) of (r, c, s, ops) \<Rightarrow> (r, c, s))"

interpretation snapshot_rpc: rpc_client "snapshot_push E isDigit susp N" "\<lambda>cs. sc_enabled (fst cs)" "\<lambda>cs. sc_stub (fst cs)"
  "\<lambda>cs. length (sc_pushed (fst cs))" for E isDigit susp N
proof
  fix now and cs :: "snapshot_client \<times> alarm_state"
  obtain c s where cs: "cs = (c, s)" by fastforce
  note u = pushSnapshot_def snapshot_ensureChannel_def Let_def cs case_prod_beta
  let ?r = "snapshot_push E isDigit susp N now cs"
  show "\<not> sc_enabled (fst cs) \<Longrightarrow> ?r = (False, cs)" by (simp add: u)
  show "sc_enabled (fst (snd ?r)) = sc_enabled (fst cs)" by (auto simp: u split: rpc_answer.splits)
  show "length (sc_pushed (fst (snd ?r))) = length (sc_pushed (fst cs)) \<or>
      length (sc_pushed (fst (snd ?r))) = Suc (length (sc_pushed (fst cs)))"
    by (auto simp: u split: rpc_answer.splits)
  show "fst ?r \<Longrightarrow> length (sc_pushed (fst (snd ?r))) = Suc (length (sc_pushed (fst cs))) \<and> sc_stub (fst (snd ?r))"
    by (auto simp: u split: rpc_answer.splits if_splits)
qed

text \<open>
  Pushes are accounted for: over any sequence of pushes at most one snapshot goes out per call, the
  calls that answer true are no more than the snapshots sent, and a disabled client sends nothing.
\<close>

theorem snapshot_push_accounting:
  assumes "rpc_client.calls (snapshot_push E isDigit susp N) nows (c, s) = (rs, c', s')"
  shows "length (filter id rs) + length (sc_pushed c) \<le> length (sc_pushed c') \<and>
    length (sc_pushed c') \<le> length (sc_pushed c) + length nows \<and>
    (sc_enabled c \<or> (c', s') = (c, s) \<and> rs = replicate (length nows) False)"
  using snapshot_rpc.successes_sent[of E isDigit susp N nows "(c, s)"]
    snapshot_rpc.sent_calls[of E isDigit susp N nows "(c, s)"]
    snapshot_rpc.calls_disabled[of "(c, s)" E isDigit susp N nows]
  unfolding assms by auto

definition sample_snapshot_client :: snapshot_client where
  "sample_snapshot_client = \<lparr>sc_enabled = True, sc_host = ''h'', sc_port = 1, sc_producer = ''p'',
     sc_channel = False, sc_stub = False, sc_pushed = []\<rparr>"

definition sample_snapshot_net :: snapshot_net where
  "sample_snapshot_net = \<lparr>sn_channel = (\<lambda>_. True), sn_update = (\<lambda>items. if items = [] then RpcError else RpcReply True)\<rparr>"

theorem snapshot_push_accounting_witness:
  "\<exists>rs c' s'. rpc_client.calls (snapshot_push sample_publish ascii_digit sample_susp sample_snapshot_net) [2000, 3000]
     (sample_snapshot_client, one_alarm) = (rs, c', s') \<and> length (sc_pushed c') \<le> 2"
proof -
  obtain rs c' s' where r: "rpc_client.calls (snapshot_push sample_publish ascii_digit sample_susp sample_snapshot_net) [2000, 3000]
     (sample_snapshot_client, one_alarm) = (rs, c', s')" by (rule prod_cases3)
  have "length (sc_pushed c') \<le> length (sc_pushed sample_snapshot_client) + length [2000, 3000 :: int]"
    using snapshot_push_accounting[OF r] by (elim conjE)
  moreover have "sc_pushed sample_snapshot_client = []" by (simp add: sample_snapshot_client_def)
  ultimately have "length (sc_pushed c') \<le> 2" by simp
  with r show ?thesis by blast
qed

text \<open>The times at which a sequence of ticks pushes.\<close>

fun tick_pushes :: "bool \<Rightarrow> int \<Rightarrow> int list \<Rightarrow> int list" where
  "tick_pushes enabled lastMs [] = []"
| "tick_pushes enabled lastMs (t # ts) =
     (let (push, lastMs') = tickAlarmGrpcSnapshot enabled t lastMs
      in if push then t # tick_pushes enabled lastMs' ts else tick_pushes enabled lastMs' ts)"

lemma tick_pushes_after:
  "0 < lastMs \<Longrightarrow> p \<in> set (tick_pushes enabled lastMs ts) \<Longrightarrow> sorted ts \<Longrightarrow> list_all (\<lambda>t. lastMs \<le> t) ts \<Longrightarrow> lastMs + 1000 \<le> p"
proof (induction ts arbitrary: lastMs)
  case (Cons t ts)
  have "lastMs + 1000 \<le> p" if "p \<in> set (tick_pushes enabled t ts)" "lastMs + 1000 \<le> t"
    using Cons.IH[of t] Cons.prems that by (auto simp: list_all_iff)
  then show ?case using Cons by (auto simp: tickAlarmGrpcSnapshot_def Let_def list_all_iff split: if_splits)
qed simp

text \<open>
  The snapshot is throttled: whatever the rhythm of the ticks, two pushes are at least a second
  apart, and a client that is not enabled is never asked.
\<close>

theorem snapshot_throttled:
  assumes "sorted ts" and "list_all (\<lambda>t. 0 < t \<and> lastMs \<le> t) ts" and "0 \<le> lastMs"
  shows "sorted_wrt (\<lambda>a b. a + 1000 \<le> b) (tick_pushes enabled lastMs ts) \<and> (enabled \<or> tick_pushes enabled lastMs ts = [])"
proof
  show "sorted_wrt (\<lambda>a b. a + 1000 \<le> b) (tick_pushes enabled lastMs ts)" using assms
  proof (induction ts arbitrary: lastMs)
    case (Cons t ts)
    have s: "sorted ts" "list_all (\<lambda>u. 0 < u \<and> t \<le> u) ts" using Cons.prems(1,2) by (auto simp: list_all_iff)
    have "list_all (\<lambda>u. 0 < u \<and> lastMs \<le> u) ts" using Cons.prems(2) by simp
    with Cons.IH[OF s(1,2)] Cons.IH[OF s(1)] tick_pushes_after[of t _ enabled ts] s Cons.prems
    show ?case by (auto simp: tickAlarmGrpcSnapshot_def Let_def list_all_iff)
  qed simp
  show "enabled \<or> tick_pushes enabled lastMs ts = []"
    by (induction ts arbitrary: lastMs) (auto simp: tickAlarmGrpcSnapshot_def)
qed

theorem snapshot_throttled_witness:
  "tick_pushes True 0 [100, 600, 1100, 1500, 2100] = [100, 1100, 2100] \<and>
   sorted_wrt (\<lambda>a b. a + 1000 \<le> b) (tick_pushes True 0 [100, 600, 1100, 1500, 2100])"
  using snapshot_throttled[of "[100, 600, 1100, 1500, 2100]" 0 True] by (simp add: tickAlarmGrpcSnapshot_def)

end
