(* ===== verification/Suspicious_Target.thy ===== *)
theory Suspicious_Target
  imports Rule_Eval Alarm_Event
begin

text \<open>
  The suspicious-target thread (\<open>SuspiciousTargetThread\<close>): every pass judges the fused sea tracks and the drones among the air
  tracks by two speed rules, each confirmed by two consecutive samples, and replaces the sets of suspicious ids
  the snapshot client embeds.  The thread reads the areas, the protected areas and the configuration; the areas are parsed as in
  \<open>Track_Area\<close>, except that a rectangle that does not parse does not drop its area here.
\<close>

section \<open>Configuration and state\<close>

record suspicious_config =
  sp_judgeIntervalMs :: int
  sp_speedLowThresholdMps :: real
  sp_speedHighThresholdMps :: real
  sp_protectAngleMaxDeg :: real
  sp_speedCheckClearIntervalMin :: int
  sp_publishDds :: bool

definition default_suspicious :: suspicious_config where
  "default_suspicious = \<lparr>sp_judgeIntervalMs = 5000, sp_speedLowThresholdMps = 3, sp_speedHighThresholdMps = 8,
     sp_protectAngleMaxDeg = 30, sp_speedCheckClearIntervalMin = 30, sp_publishDds = False\<rparr>"

text \<open>The double-check maps of the thread, and the sets of ids it publishes to the rest of the process.\<close>

type_synonym check_map = "(int, bool) qmap"

record suspicious_state =
  ss_lowSea :: check_map
  ss_highSea :: check_map
  ss_lowAir :: check_map
  ss_highAir :: check_map
  ss_lastClear :: int
  ss_seaIds :: "string list"
  ss_airIds :: "string list"

section \<open>Areas and protected centres\<close>

definition loadArea :: "qt_text \<Rightarrow> qt_area \<Rightarrow> AreaInfo \<Rightarrow> AlarmArea option" where
  "loadArea T Q i =
     (let a = empty_area\<lparr>ar_areaName := an_areaName i, ar_type := an_areaType i, ar_groupID := an_groupID i,
                ar_areaID := an_areaID i\<rparr>;
          startPt = parseCoordPair T Q (an_startPoint i);
          endPt = parseCoordPair T Q (an_endPoint i) in
      if ar_type a = 2 \<and> (startPt = None \<or> endPt = None) then None
      else let a1 = (case startPt of Some p \<Rightarrow> a\<lparr>ar_start := p\<rparr> | None \<Rightarrow> a);
               a2 = (case endPt of Some p \<Rightarrow> a1\<lparr>ar_end := p\<rparr> | None \<Rightarrow> a1);
               rect = parseAreaRect T Q (an_areaRect i);
               a3 = (case rect of Some r \<Rightarrow> a2\<lparr>ar_rect := rectNormalized Q r\<rparr> | None \<Rightarrow> a2);
               a4 = appendPolygonPoints T Q (an_areaPoints i) (ar_type a3) a3
           in if ar_type a4 = 1 \<and> rect \<noteq> None then Some (a4\<lparr>ar_polygon := rectPolygon Q (ar_rect a4)\<rparr>)
              else if ar_type a4 = 3 \<and> ar_polygon a4 = [] then None
              else Some a4)"

fun loadAlarmAreas :: "qt_text \<Rightarrow> qt_area \<Rightarrow> AreaInfo list \<Rightarrow> area_map \<Rightarrow> area_map" where
  "loadAlarmAreas T Q [] m = m"
| "loadAlarmAreas T Q (i # is) m =
     (case loadArea T Q i of
        None \<Rightarrow> loadAlarmAreas T Q is m
      | Some a \<Rightarrow> loadAlarmAreas T Q is (qm_insert (an_groupID i) (qm_value m (an_groupID i) [] @ [a]) m))"

text \<open>The loop over the protected areas of the scheme; \<open>seen\<close> are the pairs met so far.\<close>

fun protectCenters :: "area_map \<Rightarrow> (int \<times> int) list \<Rightarrow> (int \<times> int) list \<Rightarrow> point list" where
  "protectCenters areas [] seen = []"
| "protectCenters areas ((g, k) # rest) seen =
     (if g \<le> 0 \<or> k < 0 then protectCenters areas rest seen
      else if (g, k) \<in> set seen then protectCenters areas rest seen
      else case find (\<lambda>a. ar_areaID a = k) (qm_value areas g []) of
        Some a \<Rightarrow> (if ar_type a = 2 then ar_start a # protectCenters areas rest ((g, k) # seen)
                  else protectCenters areas rest ((g, k) # seen))
      | None \<Rightarrow> protectCenters areas rest ((g, k) # seen))"

definition collectProtectCenters :: "area_map \<Rightarrow> (int \<times> int, int \<times> int) qmap \<Rightarrow> point list" where
  "collectProtectCenters areas scheme = protectCenters areas (map snd scheme) []"

section \<open>One track\<close>

definition courseAngleDiff :: "real \<Rightarrow> real \<Rightarrow> real" where
  "courseAngleDiff courseDeg bearingDeg =
     (let d = \<bar>courseDeg - bearingDeg\<bar> in if d > 180 then 360 - d else d)"

definition applySpeedDoubleCheck :: "int \<Rightarrow> bool \<Rightarrow> check_map \<Rightarrow> bool \<times> check_map" where
  "applySpeedDoubleCheck trackId currentOk m =
     (case map_of m trackId of Some b \<Rightarrow> b \<and> currentOk | None \<Rightarrow> False, qm_insert trackId currentOk m)"

definition minAngle :: "SPxTrack \<Rightarrow> point list \<Rightarrow> real" where
  "minAngle track centers =
     fold (\<lambda>c m. min m (courseAngleDiff (courseDegrees track)
       (calculateBearing (latDegs track) (longDegs track) (fst c) (snd c)))) centers 360"

definition speedHighNow :: "suspicious_config \<Rightarrow> SPxTrack \<Rightarrow> bool" where
  "speedHighNow cfg track = (speedMps track > sp_speedHighThresholdMps cfg)"

definition speedLowNow :: "suspicious_config \<Rightarrow> point list \<Rightarrow> SPxTrack \<Rightarrow> bool" where
  "speedLowNow cfg centers track =
     (speedMps track > sp_speedLowThresholdMps cfg \<and> minAngle track centers \<le> sp_protectAngleMaxDeg cfg)"

text \<open>Whether the track is suspicious, and the two maps.\<close>

definition evaluateTrack :: "suspicious_config \<Rightarrow> point list \<Rightarrow> int \<Rightarrow> SPxTrack \<Rightarrow> check_map \<times> check_map
    \<Rightarrow> bool \<times> check_map \<times> check_map" where
  "evaluateTrack cfg centers trackId track maps =
     (case maps of (low, high) \<Rightarrow>
      if trackId \<le> 0 then (False, low, high)
      else let (highConfirmed, high') = applySpeedDoubleCheck trackId (speedHighNow cfg track) high;
               (lowConfirmed, low') =
                 (if centers \<noteq> [] then applySpeedDoubleCheck trackId (speedLowNow cfg centers track) low
                  else (False, qm_remove trackId low))
           in (highConfirmed \<or> lowConfirmed, low', high'))"

section \<open>One pass\<close>

fun judge_sea :: "suspicious_config \<Rightarrow> point list \<Rightarrow> (int \<times> SPxTrack) list \<Rightarrow> check_map \<times> check_map
    \<Rightarrow> string list \<times> check_map \<times> check_map" where
  "judge_sea cfg centers [] maps = ([], maps)"
| "judge_sea cfg centers ((k, t) # rest) maps =
     (let (b, maps1) = evaluateTrack cfg centers k t maps; (ids, maps2) = judge_sea cfg centers rest maps1
      in (if b then dec_int k # ids else ids, maps2))"

definition isAirDroneTrack :: "SPxTrack \<Rightarrow> bool" where
  "isAirDroneTrack track = (min_reserved1 track = 3)"

definition isBirdSelfReportSensorFiltered :: "rule_env \<Rightarrow> SPxTrack \<Rightarrow> bool" where
  "isBirdSelfReportSensorFiltered E track =
     (if birdFilterMode (re_logic E) \<noteq> 0 then False else self_reported E track)"

definition shouldSkipBirdAirTrackForSuspicious :: "rule_env \<Rightarrow> SPxTrack \<Rightarrow> bool" where
  "shouldSkipBirdAirTrackForSuspicious E track =
     (if findBirdSkipFusionTrackId track (birdSkipTrackIds (re_logic E)) > 0 then True
      else isBirdSelfReportSensorFiltered E track)"

fun judge_air :: "rule_env \<Rightarrow> suspicious_config \<Rightarrow> point list \<Rightarrow> (int \<times> SPxTrack) list \<Rightarrow> check_map \<times> check_map
    \<Rightarrow> string list \<times> check_map \<times> check_map" where
  "judge_air E cfg centers [] maps = ([], maps)"
| "judge_air E cfg centers ((k, t) # rest) maps =
     (if \<not> isAirDroneTrack t then judge_air E cfg centers rest maps
      else if shouldSkipBirdAirTrackForSuspicious E t
      then judge_air E cfg centers rest (qm_remove k (fst maps), qm_remove k (snd maps))
      else let (b, maps1) = evaluateTrack cfg centers k t maps; (ids, maps2) = judge_air E cfg centers rest maps1
           in (if b then dec_int k # ids else ids, maps2))"

text \<open>What a pass reads; the environment \<open>si_env\<close> holds the logic configuration, the areas' parser and the protected areas.\<close>

record suspicious_input =
  si_now :: int
  si_cfg :: suspicious_config
  si_env :: rule_env
  si_areas :: "AreaInfo list"
  si_sea :: track_map
  si_air :: track_map

definition pass_centers :: "suspicious_input \<Rightarrow> point list" where
  "pass_centers i = collectProtectCenters (loadAlarmAreas (ce_text (re_content (si_env i))) (re_qarea (si_env i)) (si_areas i) [])
     (re_protect (si_env i))"

definition processSuspiciousTargets :: "suspicious_input \<Rightarrow> suspicious_state \<Rightarrow> suspicious_state" where
  "processSuspiciousTargets i s =
     (let centers = pass_centers i;
          (sea, low1, high1) = judge_sea (si_cfg i) centers (si_sea i) (ss_lowSea s, ss_highSea s);
          (air, low2, high2) = judge_air (si_env i) (si_cfg i) centers (si_air i) (ss_lowAir s, ss_highAir s)
      in s\<lparr>ss_lowSea := low1, ss_highSea := high1, ss_lowAir := low2, ss_highAir := high2,
           ss_seaIds := sea, ss_airIds := air\<rparr>)"

text \<open>The ids of the DDS message: \<open>QSet::unite\<close>.\<close>

definition allSuspiciousIds :: "suspicious_state \<Rightarrow> string list" where
  "allSuspiciousIds s = ss_seaIds s @ filter (\<lambda>x. x \<notin> set (ss_seaIds s)) (ss_airIds s)"

definition clearChecks :: "suspicious_config \<Rightarrow> int \<Rightarrow> suspicious_state \<Rightarrow> suspicious_state" where
  "clearChecks cfg nowMs s =
     (let clearIntervalMs = sp_speedCheckClearIntervalMin cfg * 60 * 1000 in
      if ss_lastClear s = 0 then s\<lparr>ss_lastClear := nowMs\<rparr>
      else if clearIntervalMs > 0 \<and> nowMs - ss_lastClear s \<ge> clearIntervalMs
      then s\<lparr>ss_lowSea := [], ss_highSea := [], ss_lowAir := [], ss_highAir := [], ss_lastClear := nowMs\<rparr>
      else s)"

definition suspicious_pass :: "suspicious_input \<Rightarrow> suspicious_state \<Rightarrow> suspicious_state" where
  "suspicious_pass i s = processSuspiciousTargets i (clearChecks (si_cfg i) (si_now i) s)"

text \<open>\<open>run\<close>: the passes of the thread, and the messages it sends when DDS is on.\<close>

definition suspicious_message :: "qt_text \<Rightarrow> ('t \<Rightarrow> qstring) \<Rightarrow> (qstring \<Rightarrow> 't) \<Rightarrow> bool \<Rightarrow> ('t list \<Rightarrow> bool) \<Rightarrow> 't list option
    \<Rightarrow> suspicious_input \<Rightarrow> suspicious_state \<Rightarrow> 't list option \<times> int" where
  "suspicious_message T id_of mk_stub ready send merged i s =
     (if sp_publishDds (si_cfg i)
      then SendSuspiciousTargetMsg T id_of mk_stub ready send merged (map qs (allSuspiciousIds s)) else (None, 0))"

fun suspicious_run :: "suspicious_input list \<Rightarrow> suspicious_state \<Rightarrow> suspicious_state" where
  "suspicious_run [] s = s"
| "suspicious_run (i # is) s = suspicious_run is (suspicious_pass i s)"

section \<open>Facts\<close>

text \<open>What one evaluation decides, given the maps it starts from.\<close>

definition confirmed :: "suspicious_config \<Rightarrow> point list \<Rightarrow> SPxTrack \<Rightarrow> bool option \<Rightarrow> bool option \<Rightarrow> bool" where
  "confirmed cfg centers t low high \<longleftrightarrow>
     (high = Some True \<and> speedHighNow cfg t) \<or> (centers \<noteq> [] \<and> low = Some True \<and> speedLowNow cfg centers t)"

definition low_sample :: "suspicious_config \<Rightarrow> point list \<Rightarrow> SPxTrack \<Rightarrow> bool option" where
  "low_sample cfg centers t = (if centers = [] then None else Some (speedLowNow cfg centers t))"

lemma applySpeedDoubleCheck_facts:
  "fst (applySpeedDoubleCheck k b m) \<longleftrightarrow> map_of m k = Some True \<and> b"
  "snd (applySpeedDoubleCheck k b m) = qm_insert k b m"
  by (auto simp: applySpeedDoubleCheck_def split: option.splits)

lemma evaluateTrack_skips: "k \<le> 0 \<Longrightarrow> evaluateTrack cfg centers k t maps = (False, maps)"
  by (simp add: evaluateTrack_def split: prod.splits)

lemma evaluateTrack_facts:
  assumes "0 < k"
  shows "fst (evaluateTrack cfg centers k t maps) =
           confirmed cfg centers t (map_of (fst maps) k) (map_of (snd maps) k)"
    and "map_of (fst (snd (evaluateTrack cfg centers k t maps))) k' =
           (if k' = k then low_sample cfg centers t else map_of (fst maps) k')"
    and "map_of (snd (snd (evaluateTrack cfg centers k t maps))) k' =
           (if k' = k then Some (speedHighNow cfg t) else map_of (snd maps) k')"
proof -
  obtain low high where m: "maps = (low, high)" by (cases maps)
  obtain hc high' where h: "applySpeedDoubleCheck k (speedHighNow cfg t) high = (hc, high')"
    by (cases "applySpeedDoubleCheck k (speedHighNow cfg t) high")
  obtain lc low' where l: "applySpeedDoubleCheck k (speedLowNow cfg centers t) low = (lc, low')"
    by (cases "applySpeedDoubleCheck k (speedLowNow cfg centers t) low")
  note hf = applySpeedDoubleCheck_facts[of k "speedHighNow cfg t" high, unfolded h]
  note lf = applySpeedDoubleCheck_facts[of k "speedLowNow cfg centers t" low, unfolded l]
  have ev: "evaluateTrack cfg centers k t maps =
      (hc \<or> (centers \<noteq> [] \<and> lc), if centers \<noteq> [] then low' else qm_remove k low, high')"
    using assms h l by (simp add: evaluateTrack_def m)
  show "fst (evaluateTrack cfg centers k t maps) =
          confirmed cfg centers t (map_of (fst maps) k) (map_of (snd maps) k)"
    using hf lf by (auto simp: ev[unfolded m] m confirmed_def)
  show "map_of (fst (snd (evaluateTrack cfg centers k t maps))) k' =
          (if k' = k then low_sample cfg centers t else map_of (fst maps) k')"
    using lf by (simp add: ev[unfolded m] m low_sample_def)
  show "map_of (snd (snd (evaluateTrack cfg centers k t maps))) k' =
          (if k' = k then Some (speedHighNow cfg t) else map_of (snd maps) k')"
    using hf by (simp add: ev[unfolded m] m)
qed

text \<open>The two loops have one shape: every entry is passed over, forgotten or judged.\<close>

datatype verdict = Over | Forget | Judge

fun judge_run :: "(SPxTrack \<Rightarrow> verdict) \<Rightarrow> suspicious_config \<Rightarrow> point list \<Rightarrow> (int \<times> SPxTrack) list
    \<Rightarrow> check_map \<times> check_map \<Rightarrow> string list \<times> check_map \<times> check_map" where
  "judge_run f cfg centers [] maps = ([], maps)"
| "judge_run f cfg centers ((k, t) # rest) maps =
     (case f t of
        Over \<Rightarrow> judge_run f cfg centers rest maps
      | Forget \<Rightarrow> judge_run f cfg centers rest (qm_remove k (fst maps), qm_remove k (snd maps))
      | Judge \<Rightarrow>
          (let (b, maps1) = evaluateTrack cfg centers k t maps; (ids, maps2) = judge_run f cfg centers rest maps1
           in (if b then dec_int k # ids else ids, maps2)))"

definition air_verdict :: "rule_env \<Rightarrow> SPxTrack \<Rightarrow> verdict" where
  "air_verdict E t = (if \<not> isAirDroneTrack t then Over
                      else if shouldSkipBirdAirTrackForSuspicious E t then Forget else Judge)"

lemma judge_sea_run: "judge_sea cfg centers tm maps = judge_run (\<lambda>_. Judge) cfg centers tm maps"
  by (induction cfg centers tm maps rule: judge_sea.induct) (auto split: prod.splits)

lemma judge_air_run: "judge_air E cfg centers tm maps = judge_run (air_verdict E) cfg centers tm maps"
  by (induction E cfg centers tm maps rule: judge_air.induct)
     (auto simp: air_verdict_def Let_def split: prod.splits)

text \<open>The memory of one id after the loop, from its memory before.\<close>

definition memory_after :: "(SPxTrack \<Rightarrow> verdict) \<Rightarrow> (SPxTrack \<Rightarrow> bool option) \<Rightarrow> track_map \<Rightarrow> int \<Rightarrow> bool option
    \<Rightarrow> bool option" where
  "memory_after f sample tm k old =
     (case map_of tm k of
        None \<Rightarrow> old
      | Some t \<Rightarrow> (case f t of Over \<Rightarrow> old | Forget \<Rightarrow> None | Judge \<Rightarrow> if 0 < k then sample t else old))"

definition judged :: "(SPxTrack \<Rightarrow> verdict) \<Rightarrow> track_map \<Rightarrow> int \<Rightarrow> SPxTrack \<Rightarrow> bool" where
  "judged f tm k t \<longleftrightarrow> 0 < k \<and> map_of tm k = Some t \<and> f t = Judge"

lemma judge_run_maps:
  assumes "distinct (map fst tm)"
  shows "map_of (fst (snd (judge_run f cfg centers tm maps))) k =
           memory_after f (low_sample cfg centers) tm k (map_of (fst maps) k) \<and>
         map_of (snd (snd (judge_run f cfg centers tm maps))) k =
           memory_after f (\<lambda>t. Some (speedHighNow cfg t)) tm k (map_of (snd maps) k)"
  using assms
proof (induction f cfg centers tm maps rule: judge_run.induct)
  case (2 f cfg centers k' t rest maps)
  have fresh: "map_of rest k' = None" using 2 by (simp add: map_of_eq_None_iff)
  show ?case
  proof (cases "f t")
    case Judge
    obtain b maps1 where ev: "evaluateTrack cfg centers k' t maps = (b, maps1)" by (cases "evaluateTrack cfg centers k' t maps")
    obtain ids maps2 where run: "judge_run f cfg centers rest maps1 = (ids, maps2)" by (cases "judge_run f cfg centers rest maps1")
    have IH: "map_of (fst maps2) k = memory_after f (low_sample cfg centers) rest k (map_of (fst maps1) k) \<and>
        map_of (snd maps2) k = memory_after f (\<lambda>t. Some (speedHighNow cfg t)) rest k (map_of (snd maps1) k)"
      using 2(3)[OF Judge ev[symmetric] refl] run 2(4) by simp
    show ?thesis
    proof (cases "0 < k'")
      case True
      then show ?thesis
        using IH evaluateTrack_facts(2,3)[OF True, of cfg centers t maps k] fresh ev run Judge
        by (cases "k = k'") (simp_all add: memory_after_def split: option.splits verdict.splits)
    next
      case False
      then have "maps1 = maps" using ev evaluateTrack_skips[of k' cfg centers t maps] by simp
      then show ?thesis using IH fresh ev run Judge False by (simp add: memory_after_def)
    qed
  qed (use 2 fresh in \<open>auto simp: memory_after_def\<close>)
qed (simp add: memory_after_def)

lemma judge_run_ids:
  assumes "distinct (map fst tm)"
  shows "x \<in> set (fst (judge_run f cfg centers tm maps)) \<longleftrightarrow>
           (\<exists>k t. x = dec_int k \<and> judged f tm k t \<and>
              confirmed cfg centers t (map_of (fst maps) k) (map_of (snd maps) k))"
  using assms
proof (induction f cfg centers tm maps rule: judge_run.induct)
  case (2 f cfg centers k' t rest maps)
  have fresh: "map_of rest k' = None" using 2 by (simp add: map_of_eq_None_iff)
  have other: "judged f rest k u \<Longrightarrow> k \<noteq> k'" for k u using fresh by (auto simp: judged_def)
  have split: "judged f ((k', t) # rest) k u \<longleftrightarrow>
      (k = k' \<and> u = t \<and> 0 < k' \<and> f t = Judge) \<or> judged f rest k u" for k u
    using fresh by (auto simp: judged_def)
  show ?case
  proof (cases "f t")
    case Over
    then show ?thesis using 2 split by simp
  next
    case Forget
    then have "x \<in> set (fst (judge_run f cfg centers ((k', t) # rest) maps)) \<longleftrightarrow>
        (\<exists>k u. x = dec_int k \<and> judged f rest k u \<and>
           confirmed cfg centers u (map_of (qm_remove k' (fst maps)) k) (map_of (qm_remove k' (snd maps)) k))"
      using 2 by simp
    also have "\<dots> \<longleftrightarrow> (\<exists>k u. x = dec_int k \<and> judged f rest k u \<and>
           confirmed cfg centers u (map_of (fst maps) k) (map_of (snd maps) k))"
      using other by auto metis+
    finally show ?thesis using split Forget by simp
  next
    case Judge
    obtain b maps1 where ev: "evaluateTrack cfg centers k' t maps = (b, maps1)" by (cases "evaluateTrack cfg centers k' t maps")
    obtain ids maps2 where run: "judge_run f cfg centers rest maps1 = (ids, maps2)" by (cases "judge_run f cfg centers rest maps1")
    have IH: "x \<in> set ids \<longleftrightarrow> (\<exists>k u. x = dec_int k \<and> judged f rest k u \<and>
        confirmed cfg centers u (map_of (fst maps1) k) (map_of (snd maps1) k))"
      using 2(3)[OF Judge ev[symmetric] refl] run 2(4) by simp
    have same: "judged f rest k u \<Longrightarrow> map_of (fst maps1) k = map_of (fst maps) k \<and> map_of (snd maps1) k = map_of (snd maps) k" for k u
      using other[of k u] ev evaluateTrack_facts(2,3)[of k' cfg centers t maps k] evaluateTrack_skips[of k' cfg centers t maps]
      by (cases "0 < k'") auto
    have b: "b \<longleftrightarrow> 0 < k' \<and> confirmed cfg centers t (map_of (fst maps) k') (map_of (snd maps) k')"
      using ev evaluateTrack_facts(1)[of k' cfg centers t maps] evaluateTrack_skips[of k' cfg centers t maps]
      by (cases "0 < k'") auto
    have "x \<in> set (fst (judge_run f cfg centers ((k', t) # rest) maps)) \<longleftrightarrow> (b \<and> x = dec_int k') \<or> x \<in> set ids"
      using ev run Judge by auto
    then show ?thesis unfolding split IH b using same Judge by metis
  qed
qed (simp add: judged_def)

section \<open>Passes\<close>

definition cleared :: "suspicious_input \<Rightarrow> suspicious_state \<Rightarrow> bool" where
  "cleared i s \<longleftrightarrow> ss_lastClear s \<noteq> 0 \<and> 0 < sp_speedCheckClearIntervalMin (si_cfg i) * 60 * 1000 \<and>
     si_now i - ss_lastClear s \<ge> sp_speedCheckClearIntervalMin (si_cfg i) * 60 * 1000"

lemma clearChecks_facts:
  "ss_lowSea (clearChecks (si_cfg i) (si_now i) s) = (if cleared i s then [] else ss_lowSea s)"
  "ss_highSea (clearChecks (si_cfg i) (si_now i) s) = (if cleared i s then [] else ss_highSea s)"
  "ss_lowAir (clearChecks (si_cfg i) (si_now i) s) = (if cleared i s then [] else ss_lowAir s)"
  "ss_highAir (clearChecks (si_cfg i) (si_now i) s) = (if cleared i s then [] else ss_highAir s)"
  "\<not> cleared i s \<Longrightarrow> ss_lastClear s \<noteq> 0 \<Longrightarrow> ss_lastClear (clearChecks (si_cfg i) (si_now i) s) = ss_lastClear s"
  by (auto simp: clearChecks_def cleared_def Let_def)

abbreviation sea_run :: "suspicious_input \<Rightarrow> check_map \<times> check_map \<Rightarrow> string list \<times> check_map \<times> check_map" where
  "sea_run i \<equiv> judge_run (\<lambda>_. Judge) (si_cfg i) (pass_centers i) (si_sea i)"

abbreviation air_run :: "suspicious_input \<Rightarrow> check_map \<times> check_map \<Rightarrow> string list \<times> check_map \<times> check_map" where
  "air_run i \<equiv> judge_run (air_verdict (si_env i)) (si_cfg i) (pass_centers i) (si_air i)"

lemma suspicious_pass_facts:
  fixes i s
  defines "c \<equiv> clearChecks (si_cfg i) (si_now i) s"
  shows "ss_seaIds (suspicious_pass i s) = fst (sea_run i (ss_lowSea c, ss_highSea c))"
    and "ss_lowSea (suspicious_pass i s) = fst (snd (sea_run i (ss_lowSea c, ss_highSea c)))"
    and "ss_highSea (suspicious_pass i s) = snd (snd (sea_run i (ss_lowSea c, ss_highSea c)))"
    and "ss_airIds (suspicious_pass i s) = fst (air_run i (ss_lowAir c, ss_highAir c))"
    and "ss_lowAir (suspicious_pass i s) = fst (snd (air_run i (ss_lowAir c, ss_highAir c)))"
    and "ss_highAir (suspicious_pass i s) = snd (snd (air_run i (ss_lowAir c, ss_highAir c)))"
    and "ss_lastClear (suspicious_pass i s) = ss_lastClear c"
  by (simp_all add: suspicious_pass_def processSuspiciousTargets_def judge_sea_run judge_air_run Let_def c_def
      split: prod.splits)

lemma suspicious_run_append: "suspicious_run (is @ js) s = suspicious_run js (suspicious_run is s)"
  by (induction "is" s rule: suspicious_run.induct) auto

text \<open>
  The previous sample of target \<open>k\<close> after the passes \<open>is\<close>: the last pass that judged it, provided that no later pass forgot it or cleared
  the maps.
\<close>

definition not_judged :: "(suspicious_input \<Rightarrow> SPxTrack \<Rightarrow> verdict) \<Rightarrow> (suspicious_input \<Rightarrow> track_map) \<Rightarrow> suspicious_input \<Rightarrow> int \<Rightarrow> bool" where
  "not_judged f table i k \<longleftrightarrow> (case map_of (table i) k of None \<Rightarrow> True | Some t \<Rightarrow> f i t = Over)"

definition previous_sample :: "(suspicious_input \<Rightarrow> SPxTrack \<Rightarrow> verdict) \<Rightarrow> (suspicious_input \<Rightarrow> track_map) \<Rightarrow> suspicious_input list
    \<Rightarrow> suspicious_state \<Rightarrow> int \<Rightarrow> nat \<Rightarrow> SPxTrack \<Rightarrow> bool" where
  "previous_sample f table is s k m u \<longleftrightarrow>
     m < length is \<and> judged (f (is ! m)) (table (is ! m)) k u \<and>
     (\<forall>j. m < j \<and> j < length is \<longrightarrow> not_judged f table (is ! j) k \<and> \<not> cleared (is ! j) (suspicious_run (take j is) s))"

lemma previous_sample_snoc:
  "previous_sample f table (is @ [i]) s k m u \<longleftrightarrow>
     m = length is \<and> judged (f i) (table i) k u \<or>
     previous_sample f table is s k m u \<and> not_judged f table i k \<and> \<not> cleared i (suspicious_run is s)"
  unfolding previous_sample_def by (auto simp: nth_append less_Suc_eq)

text \<open>
  What each of the four double-check maps promises: after a pass it holds the sample of the pass where the track was
  judged, and else what it held before unless the maps were cleared.
\<close>

locale sample_memory =
  fixes verdict_of :: "suspicious_input \<Rightarrow> SPxTrack \<Rightarrow> verdict"
    and table :: "suspicious_input \<Rightarrow> track_map"
    and sample :: "suspicious_input \<Rightarrow> SPxTrack \<Rightarrow> bool option"
    and mem :: "suspicious_state \<Rightarrow> check_map"
  assumes step: "qm_ok (table i) \<Longrightarrow> map_of (mem (suspicious_pass i s)) k =
    memory_after (verdict_of i) (sample i) (table i) k (if cleared i s then None else map_of (mem s) k)"
begin

lemma judged_sample:
  "qm_ok (table i) \<Longrightarrow> judged (verdict_of i) (table i) k t \<Longrightarrow> map_of (mem (suspicious_pass i s)) k = sample i t"
  by (simp add: step memory_after_def judged_def)

lemma absent_keeps:
  "qm_ok (table i) \<Longrightarrow> map_of (table i) k = None \<Longrightarrow> \<not> cleared i s \<Longrightarrow>
     map_of (mem (suspicious_pass i s)) k = map_of (mem s) k"
  by (simp add: step memory_after_def)

lemma forgets:
  "qm_ok (table i) \<Longrightarrow> map_of (table i) k = Some t \<Longrightarrow> verdict_of i t = Forget \<Longrightarrow>
     map_of (mem (suspicious_pass i s)) k = None"
  by (simp add: step memory_after_def)

lemma history:
  assumes "\<And>i. i \<in> set is \<Longrightarrow> qm_ok (table i)" and "mem s = []"
    and "map_of (mem (suspicious_run is s)) k = Some b"
  shows "\<exists>m t. m < length is \<and> judged (verdict_of (is ! m)) (table (is ! m)) k t \<and> sample (is ! m) t = Some b \<and>
           (\<forall>j u. m < j \<and> j < length is \<longrightarrow> \<not> judged (verdict_of (is ! j)) (table (is ! j)) k u)"
  using assms
proof (induction "is" rule: rev_induct)
  case (snoc i "is")
  let ?s = "suspicious_run is s"
  have pass: "map_of (mem (suspicious_pass i ?s)) k = Some b" using snoc by (simp add: suspicious_run_append)
  have ok: "qm_ok (table i)" using snoc by simp
  show ?case
  proof (cases "\<exists>t. judged (verdict_of i) (table i) k t")
    case True
    then obtain t where t: "judged (verdict_of i) (table i) k t" by blast
    then have "sample i t = Some b" using judged_sample[OF ok t] pass by simp
    with t show ?thesis by (intro exI[of _ "length is"]) (auto simp: nth_append)
  next
    case False
    have "memory_after (verdict_of i) (sample i) (table i) k old \<noteq> None \<Longrightarrow>
        memory_after (verdict_of i) (sample i) (table i) k old = old" for old
      using False by (auto simp: memory_after_def judged_def split: option.splits verdict.splits)
    then have "map_of (mem ?s) k = Some b" using pass step[OF ok, of ?s k] by (metis option.distinct(1))
    with snoc obtain m t where m: "m < length is" "judged (verdict_of (is ! m)) (table (is ! m)) k t"
      "sample (is ! m) t = Some b" "\<forall>j u. m < j \<and> j < length is \<longrightarrow> \<not> judged (verdict_of (is ! j)) (table (is ! j)) k u"
      by auto
    then show ?thesis using False
      by (intro exI[of _ m] exI[of _ t]) (auto simp: nth_append less_Suc_eq)
  qed
qed simp

lemma exact_history:
  assumes "\<And>i. i \<in> set is \<Longrightarrow> qm_ok (table i)" and "mem s = []"
  shows "map_of (mem (suspicious_run is s)) k = Some b \<longleftrightarrow>
           (\<exists>m u. previous_sample verdict_of table is s k m u \<and> sample (is ! m) u = Some b)"
  using assms
proof (induction "is" arbitrary: b rule: rev_induct)
  case (snoc i "is")
  let ?s = "suspicious_run is s"
  have ok: "qm_ok (table i)" using snoc by simp
  have old: "map_of (mem ?s) k = Some b \<longleftrightarrow> (\<exists>m u. previous_sample verdict_of table is s k m u \<and> sample (is ! m) u = Some b)" for b
    using snoc by simp
  have at: "previous_sample verdict_of table is s k m u \<Longrightarrow> (is @ [i]) ! m = is ! m \<and> 0 < k" for m u
    by (simp add: previous_sample_def nth_append judged_def)
  then have pos: "map_of (mem ?s) k = Some b \<Longrightarrow> 0 < k" using old by blast
  have kept: "(\<exists>m u. previous_sample verdict_of table is s k m u \<and> sample ((is @ [i]) ! m) u = Some b) \<longleftrightarrow> map_of (mem ?s) k = Some b"
    unfolding old using at by metis
  have split_last: "(\<exists>m u. (m = n \<and> J u \<or> P m u \<and> A \<and> B) \<and> S m u) \<longleftrightarrow> (\<exists>u. J u \<and> S n u) \<or> A \<and> B \<and> (\<exists>m u. P m u \<and> S m u)"
    for n :: nat and J P S and A B by blast
  have "(\<exists>m u. previous_sample verdict_of table (is @ [i]) s k m u \<and> sample ((is @ [i]) ! m) u = Some b) \<longleftrightarrow>
      (\<exists>u. judged (verdict_of i) (table i) k u \<and> sample i u = Some b) \<or> not_judged verdict_of table i k \<and> \<not> cleared i ?s \<and> map_of (mem ?s) k = Some b"
    unfolding previous_sample_snoc kept[symmetric] by (rule trans[OF split_last]) simp
  moreover have "map_of (mem (suspicious_run (is @ [i]) s)) k = Some b \<longleftrightarrow>
      (\<exists>u. judged (verdict_of i) (table i) k u \<and> sample i u = Some b) \<or> not_judged verdict_of table i k \<and> \<not> cleared i ?s \<and> map_of (mem ?s) k = Some b"
    using step[OF ok, of ?s k] pos
    by (auto simp: suspicious_run_append memory_after_def judged_def not_judged_def split: option.splits verdict.splits if_splits)
  ultimately show ?case by blast
qed (simp add: previous_sample_def)

end

interpretation low_sea: sample_memory "\<lambda>i _. Judge" si_sea "\<lambda>i. low_sample (si_cfg i) (pass_centers i)" ss_lowSea
  by unfold_locales (simp add: suspicious_pass_facts(2) judge_run_maps qm_ok_distinct clearChecks_facts)

interpretation high_sea: sample_memory "\<lambda>i _. Judge" si_sea "\<lambda>i t. Some (speedHighNow (si_cfg i) t)" ss_highSea
  by unfold_locales (simp add: suspicious_pass_facts(3) judge_run_maps qm_ok_distinct clearChecks_facts)

interpretation low_air: sample_memory "\<lambda>i. air_verdict (si_env i)" si_air
    "\<lambda>i. low_sample (si_cfg i) (pass_centers i)" ss_lowAir
  by unfold_locales (simp add: suspicious_pass_facts(5) judge_run_maps qm_ok_distinct clearChecks_facts)

interpretation high_air: sample_memory "\<lambda>i. air_verdict (si_env i)" si_air
    "\<lambda>i t. Some (speedHighNow (si_cfg i) t)" ss_highAir
  by unfold_locales (simp add: suspicious_pass_facts(6) judge_run_maps qm_ok_distinct clearChecks_facts)

section \<open>What a pass publishes\<close>

text \<open>A sample memory before the pass, after the clearing.\<close>

definition recall :: "suspicious_input \<Rightarrow> suspicious_state \<Rightarrow> (suspicious_state \<Rightarrow> check_map) \<Rightarrow> int \<Rightarrow> bool option" where
  "recall i s mem k = (if cleared i s then None else map_of (mem s) k)"

lemma pass_ids:
  assumes "qm_ok (si_sea i)" and "qm_ok (si_air i)"
  shows "x \<in> set (ss_seaIds (suspicious_pass i s)) \<longleftrightarrow>
           (\<exists>k t. x = dec_int k \<and> judged (\<lambda>_. Judge) (si_sea i) k t \<and>
              confirmed (si_cfg i) (pass_centers i) t (recall i s ss_lowSea k) (recall i s ss_highSea k))"
    and "x \<in> set (ss_airIds (suspicious_pass i s)) \<longleftrightarrow>
           (\<exists>k t. x = dec_int k \<and> judged (air_verdict (si_env i)) (si_air i) k t \<and>
              confirmed (si_cfg i) (pass_centers i) t (recall i s ss_lowAir k) (recall i s ss_highAir k))"
  using assms by (simp_all add: suspicious_pass_facts judge_run_ids qm_ok_distinct clearChecks_facts recall_def)

lemma confirmed_recall:
  assumes "confirmed cfg cs t (recall i s low k) (recall i s high k)"
  obtains "map_of (high s) k = Some True" "speedHighNow cfg t"
  | "map_of (low s) k = Some True" "cs \<noteq> []" "speedLowNow cfg cs t"
  using assms by (auto simp: confirmed_def recall_def split: if_splits)

text \<open>
  C19. The ids of the last pass of any run from empty maps: the sea target \<open>k\<close> is suspicious exactly when it is tracked under a positive id, this pass
  did not clear the maps, and one of the two rules holds for it now and held for its previous sample (the last pass that judged it, with no clearing
  since); for the slow rule there have to be protected centres at both samples.  An air target must also be a drone that neither the list of
  skipped fusion ids nor the self-report filter takes out, and its previous sample is lost when such a filter took it out in between.
\<close>
theorem suspicious_ids_exact:
  assumes ok: "\<forall>j\<in>set (is @ [i]). qm_ok (si_sea j) \<and> qm_ok (si_air j)"
    and start: "ss_lowSea s = []" "ss_highSea s = []" "ss_lowAir s = []" "ss_highAir s = []"
  shows "(dec_int k \<in> set (ss_seaIds (suspicious_run (is @ [i]) s)) \<longleftrightarrow>
            (\<exists>t m u. 0 < k \<and> map_of (si_sea i) k = Some t \<and> \<not> cleared i (suspicious_run is s) \<and>
              previous_sample (\<lambda>_ _. Judge) si_sea is s k m u \<and>
              (speedHighNow (si_cfg i) t \<and> speedHighNow (si_cfg (is ! m)) u \<or>
               pass_centers i \<noteq> [] \<and> speedLowNow (si_cfg i) (pass_centers i) t \<and>
               pass_centers (is ! m) \<noteq> [] \<and> speedLowNow (si_cfg (is ! m)) (pass_centers (is ! m)) u))) \<and>
         (dec_int k \<in> set (ss_airIds (suspicious_run (is @ [i]) s)) \<longleftrightarrow>
            (\<exists>t m u. 0 < k \<and> map_of (si_air i) k = Some t \<and> isAirDroneTrack t \<and>
              \<not> shouldSkipBirdAirTrackForSuspicious (si_env i) t \<and> \<not> cleared i (suspicious_run is s) \<and>
              previous_sample (\<lambda>i. air_verdict (si_env i)) si_air is s k m u \<and>
              (speedHighNow (si_cfg i) t \<and> speedHighNow (si_cfg (is ! m)) u \<or>
               pass_centers i \<noteq> [] \<and> speedLowNow (si_cfg i) (pass_centers i) t \<and>
               pass_centers (is ! m) \<noteq> [] \<and> speedLowNow (si_cfg (is ! m)) (pass_centers (is ! m)) u)))"
proof -
  let ?s = "suspicious_run is s"
  have oks: "\<And>j. j \<in> set is \<Longrightarrow> qm_ok (si_sea j)" "\<And>j. j \<in> set is \<Longrightarrow> qm_ok (si_air j)" and oki: "qm_ok (si_sea i)" "qm_ok (si_air i)"
    using ok by auto
  have judge: "air_verdict (si_env i) t = Judge \<longleftrightarrow> isAirDroneTrack t \<and> \<not> shouldSkipBirdAirTrackForSuspicious (si_env i) t" for t
    by (simp add: air_verdict_def)
  have low: "low_sample cfg cs u = Some True \<longleftrightarrow> cs \<noteq> [] \<and> speedLowNow cfg cs u" for cfg cs u by (simp add: low_sample_def)
  let ?P = "previous_sample (\<lambda>_ _. Judge) si_sea is s k" and ?Q = "previous_sample (\<lambda>i. air_verdict (si_env i)) si_air is s k"
  let ?H = "\<lambda>m u. speedHighNow (si_cfg (is ! m)) u"
    and ?L = "\<lambda>m u. pass_centers (is ! m) \<noteq> [] \<and> speedLowNow (si_cfg (is ! m)) (pass_centers (is ! m)) u"
  have ls: "map_of (ss_lowSea ?s) k = Some True \<longleftrightarrow> (\<exists>m u. ?P m u \<and> ?L m u)"
    using low_sea.exact_history[OF oks(1) start(1), where k = k and b = True] unfolding low .
  have hs: "map_of (ss_highSea ?s) k = Some True \<longleftrightarrow> (\<exists>m u. ?P m u \<and> ?H m u)"
    using high_sea.exact_history[OF oks(1) start(2), where k = k and b = True] by simp
  have la: "map_of (ss_lowAir ?s) k = Some True \<longleftrightarrow> (\<exists>m u. ?Q m u \<and> ?L m u)"
    using low_air.exact_history[OF oks(2) start(3), where k = k and b = True] unfolding low .
  have ha: "map_of (ss_highAir ?s) k = Some True \<longleftrightarrow> (\<exists>m u. ?Q m u \<and> ?H m u)"
    using high_air.exact_history[OF oks(2) start(4), where k = k and b = True] by simp
  have sea: "dec_int k \<in> set (ss_seaIds (suspicious_run (is @ [i]) s)) \<longleftrightarrow>
      (\<exists>t. 0 < k \<and> map_of (si_sea i) k = Some t \<and> \<not> cleared i ?s \<and>
        ((map_of (ss_highSea ?s) k = Some True \<and> speedHighNow (si_cfg i) t) \<or>
         (map_of (ss_lowSea ?s) k = Some True \<and> pass_centers i \<noteq> [] \<and> speedLowNow (si_cfg i) (pass_centers i) t)))"
    unfolding suspicious_run_append suspicious_run.simps pass_ids[OF oki] judged_def confirmed_def recall_def by (auto split: if_splits)
  have air: "dec_int k \<in> set (ss_airIds (suspicious_run (is @ [i]) s)) \<longleftrightarrow>
      (\<exists>t. 0 < k \<and> map_of (si_air i) k = Some t \<and> isAirDroneTrack t \<and> \<not> shouldSkipBirdAirTrackForSuspicious (si_env i) t \<and> \<not> cleared i ?s \<and>
        ((map_of (ss_highAir ?s) k = Some True \<and> speedHighNow (si_cfg i) t) \<or>
         (map_of (ss_lowAir ?s) k = Some True \<and> pass_centers i \<noteq> [] \<and> speedLowNow (si_cfg i) (pass_centers i) t)))"
    unfolding suspicious_run_append suspicious_run.simps pass_ids[OF oki] judged_def confirmed_def recall_def judge by (auto split: if_splits)
  have "dec_int k \<in> set (ss_seaIds (suspicious_run (is @ [i]) s)) \<longleftrightarrow>
      (\<exists>t m u. 0 < k \<and> map_of (si_sea i) k = Some t \<and> \<not> cleared i ?s \<and> ?P m u \<and>
        (speedHighNow (si_cfg i) t \<and> ?H m u \<or> (pass_centers i \<noteq> [] \<and> speedLowNow (si_cfg i) (pass_centers i) t) \<and> ?L m u))"
    using sea unfolding ls hs by blast
  moreover have "dec_int k \<in> set (ss_airIds (suspicious_run (is @ [i]) s)) \<longleftrightarrow>
      (\<exists>t m u. 0 < k \<and> map_of (si_air i) k = Some t \<and> isAirDroneTrack t \<and> \<not> shouldSkipBirdAirTrackForSuspicious (si_env i) t \<and> \<not> cleared i ?s \<and> ?Q m u \<and>
        (speedHighNow (si_cfg i) t \<and> ?H m u \<or> (pass_centers i \<noteq> [] \<and> speedLowNow (si_cfg i) (pass_centers i) t) \<and> ?L m u))"
    using air unfolding la ha by blast
  ultimately show ?thesis unfolding conj_assoc by blast
qed

text \<open>
  C22. Two samples: an id the thread publishes after any number of passes from empty maps, a ship's or a drone's, belongs to a target that
  met the same rule in the last pass and in an earlier one, and was not judged in between; one fast sample is never enough.
\<close>
theorem suspicious_needs_two_samples:
  assumes ok: "\<forall>j\<in>set (is @ [i]). qm_ok (si_sea j) \<and> qm_ok (si_air j)"
    and start: "ss_lowSea s = []" "ss_highSea s = []" "ss_lowAir s = []" "ss_highAir s = []"
    and table: "(table, f, ids) \<in> {(si_sea, \<lambda>_ _. Judge, ss_seaIds), (si_air, \<lambda>j. air_verdict (si_env j), ss_airIds)}"
    and pub: "x \<in> set (ids (suspicious_run (is @ [i]) s))"
  shows "\<exists>k t m u. x = dec_int k \<and> judged (f i) (table i) k t \<and> m < length is \<and>
           judged (f (is ! m)) (table (is ! m)) k u \<and> (\<forall>j v. m < j \<and> j < length is \<longrightarrow> \<not> judged (f (is ! j)) (table (is ! j)) k v) \<and>
           ((speedHighNow (si_cfg i) t \<and> speedHighNow (si_cfg (is ! m)) u) \<or>
            (speedLowNow (si_cfg i) (pass_centers i) t \<and> speedLowNow (si_cfg (is ! m)) (pass_centers (is ! m)) u))"
proof -
  let ?s = "suspicious_run is s"
  have oks: "\<And>j. j \<in> set is \<Longrightarrow> qm_ok (si_sea j)" "\<And>j. j \<in> set is \<Longrightarrow> qm_ok (si_air j)" and oki: "qm_ok (si_sea i)" "qm_ok (si_air i)"
    using ok by auto
  have low: "low_sample cfg cs u = Some True \<longleftrightarrow> cs \<noteq> [] \<and> speedLowNow cfg cs u" for cfg cs u by (simp add: low_sample_def)
  consider (sea) "table = si_sea" "f = (\<lambda>_ _. Judge)" "x \<in> set (ss_seaIds (suspicious_pass i ?s))"
    | (air) "table = si_air" "f = (\<lambda>j. air_verdict (si_env j))" "x \<in> set (ss_airIds (suspicious_pass i ?s))"
    using table pub by (auto simp: suspicious_run_append)
  then show ?thesis
  proof cases
    case sea
    then obtain k t where k: "x = dec_int k" "judged (f i) (table i) k t"
      "confirmed (si_cfg i) (pass_centers i) t (recall i ?s ss_lowSea k) (recall i ?s ss_highSea k)"
      unfolding pass_ids(1)[OF oki] by blast
    from k(3) show ?thesis
    proof (cases rule: confirmed_recall)
      case 1
      then show ?thesis using high_sea.history[OF oks(1) start(2) 1(1)] k(1,2) unfolding sea(1,2) option.inject eq_True by blast
    next
      case 2
      then show ?thesis using low_sea.history[OF oks(1) start(1) 2(1), unfolded low] k(1,2) unfolding sea(1,2) by blast
    qed
  next
    case air
    then obtain k t where k: "x = dec_int k" "judged (f i) (table i) k t"
      "confirmed (si_cfg i) (pass_centers i) t (recall i ?s ss_lowAir k) (recall i ?s ss_highAir k)"
      unfolding pass_ids(2)[OF oki] by blast
    from k(3) show ?thesis
    proof (cases rule: confirmed_recall)
      case 1
      then show ?thesis using high_air.history[OF oks(2) start(4) 1(1)] k(1,2) unfolding air(1,2) option.inject eq_True by blast
    next
      case 2
      then show ?thesis using low_air.history[OF oks(2) start(3) 2(1), unfolded low] k(1,2) unfolding air(1,2) by blast
    qed
  qed
qed

text \<open>
  The memory outlives the track: as long as the maps are not cleared, a target that was fast in one pass, then
  was lost for any number of passes and comes back fast is published in the first pass that sees it again.
\<close>
theorem lost_target_confirmed_on_return:
  assumes ok: "\<forall>j\<in>set (i # is @ [l]). qm_ok (si_sea j) \<and> qm_ok (si_air j)"
    and clear: "ss_lastClear s \<noteq> 0"
      "\<forall>j\<in>set (i # is @ [l]). si_now j - ss_lastClear s < sp_speedCheckClearIntervalMin (si_cfg j) * 60 * 1000"
    and first: "0 < k" "map_of (si_sea i) k = Some t" "speedHighNow (si_cfg i) t"
    and lost: "\<forall>j\<in>set is. map_of (si_sea j) k = None"
    and again: "map_of (si_sea l) k = Some u" "speedHighNow (si_cfg l) u"
  shows "dec_int k \<in> set (ss_seaIds (suspicious_run (i # is @ [l]) s))"
proof -
  have keep: "ss_lastClear (suspicious_run js s') = ss_lastClear s' \<and> map_of (ss_highSea (suspicious_run js s')) k = map_of (ss_highSea s') k"
    if "\<forall>j\<in>set js. qm_ok (si_sea j) \<and> map_of (si_sea j) k = None \<and>
          si_now j - ss_lastClear s' < sp_speedCheckClearIntervalMin (si_cfg j) * 60 * 1000"
      and "ss_lastClear s' \<noteq> 0" for js s'
    using that
  proof (induction js s' rule: suspicious_run.induct)
    case (2 j js s')
    have nc: "\<not> cleared j s'" using 2 by (auto simp: cleared_def)
    then have "ss_lastClear (suspicious_pass j s') = ss_lastClear s'"
      using 2 by (simp add: suspicious_pass_facts clearChecks_facts)
    moreover have "map_of (ss_highSea (suspicious_pass j s')) k = map_of (ss_highSea s') k"
      using 2 nc by (intro high_sea.absent_keeps) auto
    ultimately show ?case using 2 by simp
  qed simp
  have nc: "\<not> cleared i s" using clear by (auto simp: cleared_def)
  let ?s1 = "suspicious_pass i s" let ?s2 = "suspicious_run is ?s1"
  have c1: "ss_lastClear ?s1 = ss_lastClear s" using nc clear by (simp add: suspicious_pass_facts clearChecks_facts)
  have "map_of (ss_highSea ?s1) k = Some True"
    using high_sea.judged_sample[of i k t s] ok first by (simp add: judged_def)
  moreover have kept: "ss_lastClear ?s2 = ss_lastClear ?s1 \<and> map_of (ss_highSea ?s2) k = map_of (ss_highSea ?s1) k"
    using keep[of "is" ?s1] ok clear lost c1 by simp
  ultimately have "map_of (ss_highSea ?s2) k = Some True" by simp
  moreover have "\<not> cleared l ?s2" using kept c1 clear by (auto simp: cleared_def)
  moreover have "qm_ok (si_sea l)" "qm_ok (si_air l)" using ok by auto
  ultimately have "dec_int k \<in> set (ss_seaIds (suspicious_pass l ?s2))"
    using first(1) again unfolding pass_ids(1)[OF \<open>qm_ok (si_sea l)\<close> \<open>qm_ok (si_air l)\<close>]
    by (auto simp: judged_def confirmed_def recall_def)
  then show ?thesis by (simp add: suspicious_run_append)
qed

text \<open>
  A drone the bird filters take out is not published in that pass, and its samples are forgotten: it is not
  published in the next pass either, whatever its speed there.
\<close>
theorem filtered_drone_starts_over:
  assumes "qm_ok (si_sea i)" "qm_ok (si_air i)" "qm_ok (si_sea l)" "qm_ok (si_air l)"
    and "map_of (si_air i) k = Some t" "isAirDroneTrack t" "shouldSkipBirdAirTrackForSuspicious (si_env i) t"
  shows "dec_int k \<notin> set (ss_airIds (suspicious_pass i s)) \<and>
         dec_int k \<notin> set (ss_airIds (suspicious_pass l (suspicious_pass i s)))"
proof -
  have v: "air_verdict (si_env i) t = Forget" using assms by (simp add: air_verdict_def)
  have "map_of (ss_lowAir (suspicious_pass i s)) k = None" "map_of (ss_highAir (suspicious_pass i s)) k = None"
    using low_air.forgets[OF assms(2,5) v] high_air.forgets[OF assms(2,5) v] by simp_all
  then have "\<not> confirmed cfg cs u (recall l (suspicious_pass i s) ss_lowAir k) (recall l (suspicious_pass i s) ss_highAir k)"
    for cfg cs u by (simp add: confirmed_def recall_def)
  then show ?thesis
    unfolding pass_ids(2)[OF assms(1,2)] pass_ids(2)[OF assms(3,4)] using v assms(5) by (auto simp: judged_def)
qed

text \<open>
  For a course in degrees, \<open>courseAngleDiff\<close> is the angle between the course and the bearing of the protected
  centre: it lies between 0 and 180 and has the cosine of their difference; the thread compares the least of
  these angles over the protected centres.
\<close>
theorem protect_angle_exact:
  assumes "0 \<le> courseDegrees t" "courseDegrees t < 360" and "centers \<noteq> []"
  defines "b \<equiv> \<lambda>c. calculateBearing (latDegs t) (longDegs t) (fst c) (snd c)"
  shows "minAngle t centers = Min ((\<lambda>c. courseAngleDiff (courseDegrees t) (b c)) ` set centers) \<and>
         0 \<le> minAngle t centers \<and> minAngle t centers \<le> 180 \<and>
         list_all (\<lambda>c. cos (courseAngleDiff (courseDegrees t) (b c) * pi / 180) = cos ((courseDegrees t - b c) * pi / 180)) centers"
proof -
  define f where "f = (\<lambda>c. courseAngleDiff (courseDegrees t) (b c))"
  have range: "0 \<le> f c \<and> f c \<le> 180" for c
    using assms(1,2) calculateBearing_range[of "latDegs t" "longDegs t" "fst c" "snd c"]
    unfolding f_def courseAngleDiff_def b_def Let_def by (auto simp: abs_if)
  have full: "(360 - d) * pi / 180 = 2 * pi - d * pi / 180" for d :: real by (simp add: field_simps)
  have cosine: "cos (f c * pi / 180) = cos ((courseDegrees t - b c) * pi / 180)" for c
  proof -
    have "cos (f c * pi / 180) = cos (\<bar>courseDegrees t - b c\<bar> * pi / 180)"
      unfolding f_def courseAngleDiff_def Let_def by (simp add: full)
    also have "\<dots> = cos (\<bar>(courseDegrees t - b c) * pi / 180\<bar>)" by (simp add: abs_mult)
    also have "\<dots> = cos ((courseDegrees t - b c) * pi / 180)" by (rule cos_abs_real)
    finally show ?thesis .
  qed
  have fold: "fold (\<lambda>c m. min m (f c)) cs a = Min (insert a (f ` set cs))" for cs a
  proof (induction cs arbitrary: a)
    case (Cons c cs)
    show ?case using Cons by (cases "cs = []") (simp_all add: min.assoc)
  qed simp
  have "minAngle t centers = Min (insert 360 (f ` set centers))"
    unfolding minAngle_def using fold[of centers 360] by (simp add: f_def b_def)
  also have "\<dots> = min 360 (Min (f ` set centers))" using assms(3) by simp
  also have "\<dots> = Min (f ` set centers)"
  proof (rule min_absorb2)
    have "Min (f ` set centers) \<in> f ` set centers" using assms(3) by (intro Min_in) auto
    then obtain c where "Min (f ` set centers) = f c" by blast
    then show "Min (f ` set centers) \<le> 360" using range[of c] by simp
  qed
  finally have m: "minAngle t centers = Min (f ` set centers)" .
  moreover have "Min (f ` set centers) \<in> f ` set centers" using assms(3) by (intro Min_in) auto
  ultimately show ?thesis using range cosine by (auto simp: f_def list_all_iff)
qed

section \<open>Witnesses\<close>

definition quick_pass :: "int \<Rightarrow> track_map \<Rightarrow> track_map \<Rightarrow> suspicious_input" where
  "quick_pass now sea air = \<lparr>si_now = now, si_cfg = default_suspicious,
     si_env = rules_env\<lparr>re_logic := default_logic\<lparr>birdSkipTrackIds := [12]\<rparr>\<rparr>, si_areas = [], si_sea = sea, si_air = air\<rparr>"

definition fresh_suspicious :: "int \<Rightarrow> suspicious_state" where
  "fresh_suspicious now = \<lparr>ss_lowSea = [], ss_highSea = [], ss_lowAir = [], ss_highAir = [], ss_lastClear = now,
     ss_seaIds = [], ss_airIds = []\<rparr>"

lemmas quick_defs = quick_pass_def fresh_suspicious_def default_suspicious_def moving_def zero_track_def speedHighNow_def

lemma quick_centers: "pass_centers (quick_pass now sea air) = []"
  by (simp add: pass_centers_def quick_pass_def collectProtectCenters_def rules_env_def)

abbreviation "fast_once now \<equiv> quick_pass now [(7, moving 20)] []"

theorem suspicious_ids_exact_witness:
  "dec_int 7 \<in> set (ss_seaIds (suspicious_run [fast_once 1, fast_once 2] (fresh_suspicious 1))) \<and>
   dec_int 7 \<notin> set (ss_seaIds (suspicious_run [fast_once 1, quick_pass 2 [(7, moving 1)] [], fast_once 3] (fresh_suspicious 1))) \<and>
   dec_int 7 \<in> set (ss_airIds (suspicious_run [quick_pass 1 [] [(7, (moving 20)\<lparr>min_reserved1 := 3\<rparr>)], quick_pass 2 [] [(7, (moving 20)\<lparr>min_reserved1 := 3\<rparr>)]]
     (fresh_suspicious 1)))"
proof -
  have start: "ss_lowSea (fresh_suspicious 1) = []" "ss_highSea (fresh_suspicious 1) = []" "ss_lowAir (fresh_suspicious 1) = []" "ss_highAir (fresh_suspicious 1) = []"
    by (simp_all add: fresh_suspicious_def)
  note exact = suspicious_ids_exact[where s = "fresh_suspicious 1" and k = 7, OF _ start]
  have clear: "\<not> cleared (quick_pass n a b) (suspicious_run is (fresh_suspicious 1))"
    if "n < 1000" "\<forall>j \<in> set is. \<exists>n a b. n < 1000 \<and> j = quick_pass n a b" for n a b "is"
  proof -
    have "ss_lastClear (suspicious_run is (fresh_suspicious 1)) = 1 \<and> (\<forall>n a b. n < 1000 \<longrightarrow> \<not> cleared (quick_pass n a b) (suspicious_run is (fresh_suspicious 1)))"
      using that(2)
    proof (induction "is" rule: rev_induct)
      case Nil
      then show ?case by (simp add: cleared_def quick_defs)
    next
      case (snoc j "is")
      obtain n a b where j: "j = quick_pass n a b" "n < 1000" using snoc.prems by auto
      have "ss_lastClear (suspicious_run (is @ [j]) (fresh_suspicious 1)) = 1"
        using snoc j by (simp add: suspicious_run_append suspicious_pass_facts clearChecks_facts)
      then show ?case by (simp add: cleared_def quick_defs)
    qed
    then show ?thesis using that(1) by blast
  qed
  have quick: "\<exists>n < 1000. \<exists>a b. quick_pass p x y = quick_pass n a b" if "p < 1000" for p x y using that by blast
  have ok: "qm_ok [(7 :: int, t)]" "qm_ok ([] :: track_map)" for t :: SPxTrack by (simp_all add: qm_ok_def)
  have sea: "dec_int 7 \<in> set (ss_seaIds (suspicious_run ([fast_once 1] @ [fast_once 2]) (fresh_suspicious 1)))"
  proof (subst conjunct1[OF exact])
    show "\<forall>j\<in>set ([fast_once 1] @ [fast_once 2]). qm_ok (si_sea j) \<and> qm_ok (si_air j)" by (simp add: quick_pass_def ok)
    have "previous_sample (\<lambda>_ _. Judge) si_sea [fast_once 1] (fresh_suspicious 1) 7 0 (moving 20)"
      by (simp add: previous_sample_def judged_def quick_pass_def)
    moreover have "\<not> cleared (fast_once 2) (suspicious_run [fast_once 1] (fresh_suspicious 1))" by (rule clear) (simp_all add: quick)
    ultimately show "\<exists>t m u. 0 < (7 :: int) \<and> map_of (si_sea (fast_once 2)) 7 = Some t \<and> \<not> cleared (fast_once 2) (suspicious_run [fast_once 1] (fresh_suspicious 1)) \<and>
        previous_sample (\<lambda>_ _. Judge) si_sea [fast_once 1] (fresh_suspicious 1) 7 m u \<and>
        (speedHighNow (si_cfg (fast_once 2)) t \<and> speedHighNow (si_cfg ([fast_once 1] ! m)) u \<or>
         pass_centers (fast_once 2) \<noteq> [] \<and> speedLowNow (si_cfg (fast_once 2)) (pass_centers (fast_once 2)) t \<and>
         pass_centers ([fast_once 1] ! m) \<noteq> [] \<and> speedLowNow (si_cfg ([fast_once 1] ! m)) (pass_centers ([fast_once 1] ! m)) u)"
      by (intro exI[of _ "moving 20"] exI[of _ 0]) (simp add: quick_defs)
  qed
  have slow: "dec_int 7 \<notin> set (ss_seaIds (suspicious_run ([fast_once 1, quick_pass 2 [(7, moving 1)] []] @ [fast_once 3]) (fresh_suspicious 1)))"
  proof (subst conjunct1[OF exact])
    show "\<forall>j\<in>set ([fast_once 1, quick_pass 2 [(7, moving 1)] []] @ [fast_once 3]). qm_ok (si_sea j) \<and> qm_ok (si_air j)" by (simp add: quick_pass_def ok)
    have "m = 1 \<and> u = moving 1" if "previous_sample (\<lambda>_ _. Judge) si_sea [fast_once 1, quick_pass 2 [(7, moving 1)] []] (fresh_suspicious 1) 7 m u" for m u
    proof (cases m)
      case 0
      then have "not_judged (\<lambda>_ _. Judge) si_sea (quick_pass 2 [(7, moving 1)] []) 7" using that by (auto simp: previous_sample_def dest: spec[of _ 1])
      then show ?thesis by (simp add: not_judged_def quick_pass_def)
    next
      case (Suc n)
      then show ?thesis using that by (auto simp: previous_sample_def judged_def quick_pass_def)
    qed
    then have last: "m = 1 \<and> u = moving 1" if "previous_sample (\<lambda>_ _. Judge) si_sea [fast_once 1, quick_pass 2 [(7, moving 1)] []] (fresh_suspicious 1) 7 m u" for m u
      using that by blast
    have calm: "\<not> speedHighNow (si_cfg ([fast_once 1, quick_pass 2 [(7, moving 1)] []] ! 1)) (moving 1)" by (simp add: quick_defs)
    show "\<not> (\<exists>t m u. 0 < (7 :: int) \<and> map_of (si_sea (fast_once 3)) 7 = Some t \<and>
        \<not> cleared (fast_once 3) (suspicious_run [fast_once 1, quick_pass 2 [(7, moving 1)] []] (fresh_suspicious 1)) \<and>
        previous_sample (\<lambda>_ _. Judge) si_sea [fast_once 1, quick_pass 2 [(7, moving 1)] []] (fresh_suspicious 1) 7 m u \<and>
        (speedHighNow (si_cfg (fast_once 3)) t \<and> speedHighNow (si_cfg ([fast_once 1, quick_pass 2 [(7, moving 1)] []] ! m)) u \<or>
         pass_centers (fast_once 3) \<noteq> [] \<and> speedLowNow (si_cfg (fast_once 3)) (pass_centers (fast_once 3)) t \<and>
         pass_centers ([fast_once 1, quick_pass 2 [(7, moving 1)] []] ! m) \<noteq> [] \<and>
         speedLowNow (si_cfg ([fast_once 1, quick_pass 2 [(7, moving 1)] []] ! m)) (pass_centers ([fast_once 1, quick_pass 2 [(7, moving 1)] []] ! m)) u))"
      using calm by (auto simp only: quick_centers dest!: last)
  qed
  let ?d = "(moving 20)\<lparr>min_reserved1 := 3\<rparr>"
  have judge: "air_verdict (si_env (quick_pass n a b)) ?d = Judge" for n a b
    by (simp add: air_verdict_def quick_pass_def moving_def zero_track_def isAirDroneTrack_def shouldSkipBirdAirTrackForSuspicious_def findBirdSkipFusionTrackId_def isBirdSelfReportSensorFiltered_def self_reported_def sensor_names_def list_ex_iff eval_nat_numeral to_i32_def rules_env_def default_logic_def Let_def)
  have air: "dec_int 7 \<in> set (ss_airIds (suspicious_run ([quick_pass 1 [] [(7, ?d)]] @ [quick_pass 2 [] [(7, ?d)]]) (fresh_suspicious 1)))"
  proof (subst conjunct2[OF exact])
    show "\<forall>j\<in>set ([quick_pass 1 [] [(7, ?d)]] @ [quick_pass 2 [] [(7, ?d)]]). qm_ok (si_sea j) \<and> qm_ok (si_air j)" by (simp add: quick_pass_def ok)
    have "previous_sample (\<lambda>i. air_verdict (si_env i)) si_air [quick_pass 1 [] [(7, ?d)]] (fresh_suspicious 1) 7 0 ?d"
      using judge by (simp add: previous_sample_def judged_def) (simp add: quick_pass_def)
    moreover have "\<not> cleared (quick_pass 2 [] [(7, ?d)]) (suspicious_run [quick_pass 1 [] [(7, ?d)]] (fresh_suspicious 1))" by (rule clear) (simp_all add: quick)
    moreover have "isAirDroneTrack ?d \<and> \<not> shouldSkipBirdAirTrackForSuspicious (si_env (quick_pass 2 [] [(7, ?d)])) ?d"
      using judge[of 2 "[]" "[(7, ?d)]"] by (simp add: air_verdict_def split: if_splits)
    ultimately show "\<exists>t m u. 0 < (7 :: int) \<and> map_of (si_air (quick_pass 2 [] [(7, ?d)])) 7 = Some t \<and> isAirDroneTrack t \<and>
        \<not> shouldSkipBirdAirTrackForSuspicious (si_env (quick_pass 2 [] [(7, ?d)])) t \<and>
        \<not> cleared (quick_pass 2 [] [(7, ?d)]) (suspicious_run [quick_pass 1 [] [(7, ?d)]] (fresh_suspicious 1)) \<and>
        previous_sample (\<lambda>i. air_verdict (si_env i)) si_air [quick_pass 1 [] [(7, ?d)]] (fresh_suspicious 1) 7 m u \<and>
        (speedHighNow (si_cfg (quick_pass 2 [] [(7, ?d)])) t \<and> speedHighNow (si_cfg ([quick_pass 1 [] [(7, ?d)]] ! m)) u \<or>
         pass_centers (quick_pass 2 [] [(7, ?d)]) \<noteq> [] \<and> speedLowNow (si_cfg (quick_pass 2 [] [(7, ?d)])) (pass_centers (quick_pass 2 [] [(7, ?d)])) t \<and>
         pass_centers ([quick_pass 1 [] [(7, ?d)]] ! m) \<noteq> [] \<and>
         speedLowNow (si_cfg ([quick_pass 1 [] [(7, ?d)]] ! m)) (pass_centers ([quick_pass 1 [] [(7, ?d)]] ! m)) u)"
      by (intro exI[of _ ?d] exI[of _ 0]) (simp add: quick_defs)
  qed
  show ?thesis using sea slow air by simp
qed

lemma quick_ok: "qm_ok (si_sea (fast_once now))" "qm_ok (si_air (fast_once now))"
  by (simp_all add: quick_pass_def qm_ok_def)

lemma fast_twice: "dec_int 7 \<in> set (ss_seaIds (suspicious_run [fast_once 1, fast_once 2] (fresh_suspicious 1)))"
proof -
  let ?s1 = "suspicious_pass (fast_once 1) (fresh_suspicious 1)"
  have j: "judged (\<lambda>_. Judge) (si_sea (fast_once now)) 7 (moving 20)" for now by (simp add: judged_def quick_pass_def)
  have v: "speedHighNow (si_cfg (fast_once now)) (moving 20)" for now by (simp add: quick_defs)
  have "map_of (ss_highSea ?s1) 7 = Some True" using high_sea.judged_sample[OF quick_ok(1) j] v by simp
  moreover have "ss_lastClear ?s1 = 1" by (simp add: suspicious_pass_facts clearChecks_def quick_defs)
  then have "\<not> cleared (fast_once 2) ?s1" by (simp add: cleared_def quick_defs)
  ultimately show ?thesis unfolding suspicious_run.simps pass_ids(1)[OF quick_ok] using j v
    by (auto simp: confirmed_def recall_def)
qed

theorem suspicious_needs_two_samples_witness:
  "\<exists>k t. dec_int 7 = dec_int k \<and> judged (\<lambda>_. Judge) (si_sea (fast_once 2)) k t"
proof -
  have ok: "\<forall>j\<in>set ([fast_once 1] @ [fast_once 2]). qm_ok (si_sea j) \<and> qm_ok (si_air j)" using quick_ok by simp
  have start: "ss_lowSea (fresh_suspicious 1) = []" "ss_highSea (fresh_suspicious 1) = []" "ss_lowAir (fresh_suspicious 1) = []" "ss_highAir (fresh_suspicious 1) = []"
    by (simp_all add: fresh_suspicious_def)
  have "dec_int 7 \<in> set (ss_seaIds (suspicious_run ([fast_once 1] @ [fast_once 2]) (fresh_suspicious 1)))"
    using fast_twice by simp
  from suspicious_needs_two_samples[OF ok start insertI1 this] show ?thesis by blast
qed

theorem lost_target_confirmed_on_return_witness:
  "dec_int 7 \<in> set (ss_seaIds (suspicious_run [fast_once 1, quick_pass 2 [] [], fast_once 600000] (fresh_suspicious 1)))"
  using lost_target_confirmed_on_return[where i = "fast_once 1" and ?is = "[quick_pass 2 [] []]" and l = "fast_once 600000"
      and s = "fresh_suspicious 1" and k = 7 and t = "moving 20" and u = "moving 20"]
  by (simp add: quick_defs qm_ok_def)

theorem filtered_drone_starts_over_witness:
  "dec_int 7 \<notin> set (ss_airIds (suspicious_pass (quick_pass 2 [] [(7, (moving 20)\<lparr>min_reserved1 := 3\<rparr>)])
     (suspicious_pass (quick_pass 1 [] [(7, (moving 20)\<lparr>min_reserved1 := 3, fusion_trackID := [12]\<rparr>)]) (fresh_suspicious 1))))"
  using filtered_drone_starts_over[where i = "quick_pass 1 [] [(7, (moving 20)\<lparr>min_reserved1 := 3, fusion_trackID := [12]\<rparr>)]"
      and l = "quick_pass 2 [] [(7, (moving 20)\<lparr>min_reserved1 := 3\<rparr>)]" and k = 7 and s = "fresh_suspicious 1"
      and t = "(moving 20)\<lparr>min_reserved1 := 3, fusion_trackID := [12]\<rparr>"]
  by (simp add: quick_pass_def qm_ok_def isAirDroneTrack_def shouldSkipBirdAirTrackForSuspicious_def
      findBirdSkipFusionTrackId_def to_i32_def)

theorem protect_angle_exact_witness:
  "0 \<le> minAngle zero_track [(1, 1)] \<and> minAngle zero_track [(1, 1)] \<le> 180"
  using protect_angle_exact[where t = zero_track and centers = "[(1, 1)]"] by (simp add: zero_track_def)

end
