(* ===== verification/Track_Class.thy ===== *)
theory Track_Class
  imports Track_Ingest Qt_Json
begin

text \<open>
  The subscriber to the older DDS track topics (\<open>fastdds_track/TrackClassSubscriberApp.cxx\<close>), which fills the same tables as the
  streams of \<open>Track_Ingest\<close>, and the look-ups of a radar track in \<open>CustomConfig\<close>.
\<close>

section \<open>Samples and topics\<close>

text \<open>The IDL type has more fields than the message of the gRPC stream.\<close>

record class_sample = TrackDataClass +
  st_threatScore :: real
  st_reserved6 :: string

record class_config =
  tp_mode :: int
  tp_fuse :: qstring
  tp_fuseBird :: qstring
  tp_radar1 :: qstring
  tp_radar2 :: qstring
  tp_ais :: qstring
  tp_bird :: qstring
  tp_autoBird :: qstring
  tp_ku :: qstring

text \<open>
  \<open>fromJson\<close> is the JSON parser (\<open>None\<close> on an error), \<open>toInt\<close> is \<open>QString::toInt\<close>, and \<open>unset\<close> what an uninitialised track structure
  happens to hold; \<open>wideScore\<close> is the cast of a threat score outside the range of the field.
\<close>

record class_env =
  cl_cfg :: class_config
  cl_fromJson :: "string \<Rightarrow> qjson option"
  cl_toInt :: "qstring \<Rightarrow> int option"
  cl_unset :: SPxTrack
  cl_wideScore :: "real \<Rightarrow> int"
  cl_same :: "point \<Rightarrow> point \<Rightarrow> bool"

record class_tables =
  cl_tabs :: tables
  cl_ingest :: ingest_tables

section \<open>One sample\<close>

definition score_field :: "class_env \<Rightarrow> real \<Rightarrow> int" where
  "score_field E d = (if -1 < d \<and> d < 4294967296 then (if 0 \<le> d then \<lfloor>d\<rfloor> else 0) else cl_wideScore E d)"

definition class_track :: "class_env \<Rightarrow> int \<Rightarrow> class_sample \<Rightarrow> SPxTrack" where
  "class_track E nowSecs st = (cl_unset E)\<lparr>
     min_id := to_u32 (st_trackid st), longDegs := st_longitude st, latDegs := st_latitude st,
     altitudeMetres := st_height st, rangeMetres := st_distance st, azimuthDegrees := st_azimuth st,
     courseDegrees := st_course st, speedMps := st_speed st, sizeDegrees := st_sizeDegrees st,
     sizeMetres := st_sizeMetres st, msgTimeSecs := to_u32 nowSecs, msgTimeUsecs := 0, uniqueID := st_uniqueid st,
     norm_reserved3 := score_field E (st_threatScore st), fusion_sensors := st_sensors st,
     fusion_trackID := take 8 (st_fusion_track_ids st)\<rparr>"

text \<open>Insert the track and extend its trail.\<close>

definition class_store :: "(point \<Rightarrow> point \<Rightarrow> bool) \<Rightarrow> nat \<Rightarrow> int \<Rightarrow> SPxTrack \<Rightarrow> track_map \<times> trail_map \<Rightarrow> track_map \<times> trail_map" where
  "class_store same trailMax k track mt =
     (qm_insert k track (fst mt), qm_insert k (appendTrailPoint same (trail_at (snd mt) k) track trailMax) (snd mt))"

text \<open>The ids of the other sources in \<open>reserved6\<close>, joined by commas.\<close>

definition zibaowei_ids :: "class_env \<Rightarrow> string \<Rightarrow> int list" where
  "zibaowei_ids E reserved6 =
     (if reserved6 = [] then []
      else case cl_fromJson E reserved6 of
        Some (QArray arr) \<Rightarrow>
          map (\<lambda>obj. qjson_toInt (qjson_value obj ''trackId''))
            (filter (\<lambda>obj. qjson_toString (qjson_value obj ''dataSourceId'') \<noteq> qs ''tan_niao'' \<and> qjson_value obj ''trackId'' \<noteq> QUndefined) arr)
      | _ \<Rightarrow> [])"

definition zibaowei :: "class_env \<Rightarrow> string \<Rightarrow> int" where
  "zibaowei E reserved6 =
     (case cl_toInt E (join_char 44 (map (\<lambda>i. qs (dec_int i)) (zibaowei_ids E reserved6))) of Some v \<Rightarrow> v | None \<Rightarrow> 0)"

definition category_reserved1 :: "class_sample \<Rightarrow> SPxTrack \<Rightarrow> SPxTrack" where
  "category_reserved1 st track = track\<lparr>min_reserved1 := (if st_trackCategoryId st = 3 then 3 else 1)\<rparr>"

definition store_fuse :: "class_env \<Rightarrow> nat \<Rightarrow> int \<Rightarrow> SPxTrack \<Rightarrow> class_tables \<Rightarrow> class_tables" where
  "store_fuse E trailMax k track s =
     (let t = cl_tabs s; (m, tr) = class_store (cl_same E) trailMax k track (fuseTrack t, fuseTrail t)
      in s\<lparr>cl_tabs := t\<lparr>fuseTrack := m, fuseTrail := tr\<rparr>\<rparr>)"

definition store_birdFuse :: "class_env \<Rightarrow> int \<Rightarrow> SPxTrack \<Rightarrow> class_tables \<Rightarrow> class_tables" where
  "store_birdFuse E k track s =
     (let t = cl_tabs s; (m, tr) = class_store (cl_same E) 10 k track (birdTrack t, birdTrail t)
      in s\<lparr>cl_tabs := t\<lparr>birdTrack := m, birdTrail := tr\<rparr>\<rparr>)"

definition store_radar :: "class_env \<Rightarrow> int \<Rightarrow> SPxTrack \<Rightarrow> class_tables \<Rightarrow> class_tables" where
  "store_radar E k track s =
     (let t = cl_ingest s; (m, tr) = class_store (cl_same E) 10 k track (radarTrack t, radarTrail t)
      in s\<lparr>cl_ingest := t\<lparr>radarTrack := m, radarTrail := tr\<rparr>\<rparr>)"

definition store_birdRadar :: "class_env \<Rightarrow> int \<Rightarrow> SPxTrack \<Rightarrow> class_tables \<Rightarrow> class_tables" where
  "store_birdRadar E k track s =
     (let t = cl_ingest s; (m, tr) = class_store (cl_same E) 10 k track (birdRadarTrack t, birdRadarTrail t)
      in s\<lparr>cl_ingest := t\<lparr>birdRadarTrack := m, birdRadarTrail := tr\<rparr>\<rparr>)"

definition store_ais :: "class_sample \<Rightarrow> class_tables \<Rightarrow> class_tables" where
  "store_ais st s =
     (let t = cl_ingest s;
          ais = \<lparr>MMSI = st_mmsi st, ais_lat = st_latitude st, ais_long = st_longitude st, ais_speed = st_speed st,
                 ais_course = st_course st, ais_msgTimeSecs = 0\<rparr>
      in s\<lparr>cl_ingest := t\<lparr>aisTrack := qm_insert (to_i32 (st_mmsi st)) ais (aisTrack t)\<rparr>\<rparr>)"

definition class_sample_step :: "class_env \<Rightarrow> int \<Rightarrow> qstring \<Rightarrow> class_sample \<Rightarrow> class_tables \<Rightarrow> class_tables" where
  "class_sample_step E nowSecs topicName st s =
     (let c = cl_cfg E; track = class_track E nowSecs st; trackid = to_i32 (st_trackid st) in
      if topicName = tp_ais c then store_ais st s
      else if topicName = tp_fuse c then
        (if tp_mode c = 1
         then (let key = to_i32 (st_reserved4 st) in store_fuse E 15 key (track\<lparr>min_id := to_u32 key\<rparr>) s)
         else if trackid < 10000 then store_fuse E 10 trackid (track\<lparr>min_id := to_u32 trackid\<rparr>) s else s)
      else if topicName = tp_fuseBird c then
        (let track1 = track\<lparr>fusion_trackID := (fusion_trackID track)[0 := to_u32 (zibaowei E (st_reserved6 st))]\<rparr>
         in store_birdFuse E trackid (category_reserved1 st track1) s)
      else if topicName = tp_radar1 c \<or> topicName = tp_radar2 c then store_radar E trackid track s
      else if topicName = tp_ku c then store_birdRadar E trackid track s
      else if topicName = tp_bird c \<or> topicName = tp_autoBird c then store_birdRadar E trackid (category_reserved1 st track) s
      else s)"

text \<open>\<open>on_data_available\<close>: the samples taken until the stop flag is seen; a sample that is not alive or carries no data is dropped.\<close>

fun on_data_available :: "class_env \<Rightarrow> int \<Rightarrow> qstring \<Rightarrow> (bool \<times> bool \<times> class_sample) list \<Rightarrow> class_tables \<Rightarrow> class_tables" where
  "on_data_available E nowSecs topicName [] s = s"
| "on_data_available E nowSecs topicName ((stopped, valid, st) # rest) s =
     (if stopped then s
      else on_data_available E nowSecs topicName rest (if valid then class_sample_step E nowSecs topicName st s else s))"

section \<open>The timer\<close>

text \<open>\<open>slotClearTrack\<close> prunes four pairs of tables and leaves the AIS table alone.\<close>

definition slotClearTrack :: "int \<Rightarrow> class_tables \<Rightarrow> class_tables" where
  "slotClearTrack now s =
     (let t = cl_tabs s; g = cl_ingest s;
          (fm, ft) = pruneMap64 now (fuseTrack t) (fuseTrail t) 8;
          (bm, bt) = pruneMap64 now (birdTrack t) (birdTrail t) 4;
          (rm, rt) = pruneMap64 now (radarTrack g) (radarTrail g) 8;
          (km, kt) = pruneMap64 now (birdRadarTrack g) (birdRadarTrail g) 8
      in s\<lparr>cl_tabs := t\<lparr>fuseTrack := fm, fuseTrail := ft, birdTrack := bm, birdTrail := bt\<rparr>,
           cl_ingest := g\<lparr>radarTrack := rm, radarTrail := rt, birdRadarTrack := km, birdRadarTrail := kt\<rparr>\<rparr>)"

section \<open>Radar look-ups (\<open>CustomConfig\<close>)\<close>

definition radarDataSourceCode :: "SPxTrack \<Rightarrow> int" where
  "radarDataSourceCode track = sec_reserved0 track"

definition setRadarDataSourceCode :: "SPxTrack \<Rightarrow> int \<Rightarrow> SPxTrack" where
  "setRadarDataSourceCode track sourceCode = track\<lparr>sec_reserved0 := sourceCode\<rparr>"

definition matchSource :: "int \<Rightarrow> SPxTrack \<Rightarrow> bool" where
  "matchSource sourceCode t = (sourceCode = 0 \<or> radarDataSourceCode t = sourceCode)"

definition tryGetRadarTrack :: "track_map \<Rightarrow> int \<Rightarrow> int \<Rightarrow> SPxTrack option" where
  "tryGetRadarTrack m i sourceCode =
     (if i \<le> 0 then None
      else case map_of m i of
        Some t \<Rightarrow> (if matchSource sourceCode t then Some t
                  else map_option snd (find (\<lambda>(k, u). matchSource sourceCode u \<and> (uniqueID u = to_u32 i \<or> min_id u = to_u32 i)) m))
      | None \<Rightarrow> map_option snd (find (\<lambda>(k, u). matchSource sourceCode u \<and> (uniqueID u = to_u32 i \<or> min_id u = to_u32 i)) m))"

definition hasRadarTrack :: "track_map \<Rightarrow> int \<Rightarrow> int \<Rightarrow> bool" where
  "hasRadarTrack m i sourceCode = (tryGetRadarTrack m i sourceCode \<noteq> None)"

definition radarTrackValue :: "track_map \<Rightarrow> int \<Rightarrow> int \<Rightarrow> SPxTrack" where
  "radarTrackValue m i sourceCode = (case tryGetRadarTrack m i sourceCode of Some t \<Rightarrow> t | None \<Rightarrow> zero_track)"

definition tryGetRadarTrackBySourceId :: "qt_text \<Rightarrow> (qstring, int) umap \<Rightarrow> track_map \<Rightarrow> int \<Rightarrow> qstring \<Rightarrow> SPxTrack option" where
  "tryGetRadarTrackBySourceId T codes m i srcId =
     tryGetRadarTrack m i (case map_of codes (trimmed T srcId) of Some c \<Rightarrow> c | None \<Rightarrow> 0)"

section \<open>The invariant of the tables\<close>

definition class_pair_ok :: "(point \<Rightarrow> point \<Rightarrow> bool) \<Rightarrow> nat \<Rightarrow> track_map \<times> trail_map \<Rightarrow> bool" where
  "class_pair_ok same n mt \<longleftrightarrow> qm_ok (fst mt) \<and> qm_ok (snd mt) \<and>
     (\<forall>k. (map_of (fst mt) k = None) = (map_of (snd mt) k = None)) \<and>
     (\<forall>k tr. map_of (snd mt) k = Some tr \<longrightarrow> tr \<noteq> [] \<and> trail_ok same n tr)"

lemma class_pair_ok_Nil: "class_pair_ok same n ([], [])"
  by (simp add: class_pair_ok_def)

lemma class_pair_ok_store:
  assumes "class_pair_ok same n (m, tr)"
  shows "class_pair_ok same n (class_store same n k trk (m, tr))"
proof -
  have "trail_ok same n (trail_at tr k)"
    using assms by (auto simp: class_pair_ok_def trail_at_def trail_ok_def split: option.splits)
  then show ?thesis using assms trail_ok_append[of same n "trail_at tr k" trk]
    by (auto simp: class_pair_ok_def class_store_def qm_ok_insert appendTrailPoint_nonempty)
qed

lemma class_pair_ok_prune:
  assumes "class_pair_ok same n (m, tr)" "pruneMap64 now m tr secs = (m', tr')"
  shows "class_pair_ok same n (m', tr')"
proof -
  have q: "qm_ok m" "qm_ok tr" using assms(1) by (auto simp: class_pair_ok_def)
  note p = pruneMap64_lookup[OF q assms(2)]
  have m: "map_of m' k = Some t \<Longrightarrow> map_of m k = Some t" for k t
    using p(1)[of k] by (auto split: option.splits if_splits)
  have n: "(map_of m k = None) = (map_of tr k = None)" for k using assms(1) by (simp add: class_pair_ok_def)
  have k: "(map_of m' k = None) = (map_of tr' k = None)" for k
    using p(2)[of k] n[of k] m[of k] by (cases "map_of m' k") auto
  have t: "map_of tr' k = Some t \<Longrightarrow> t \<noteq> [] \<and> trail_ok same n t" for k t
    using p(2)[of k] assms(1) by (auto simp: class_pair_ok_def split: if_splits)
  show ?thesis using p(3,4) k t by (simp add: class_pair_ok_def)
qed

definition fuse_max :: "class_env \<Rightarrow> nat" where
  "fuse_max E = (if tp_mode (cl_cfg E) = 1 then 15 else 10)"

definition class_tables_ok :: "class_env \<Rightarrow> class_tables \<Rightarrow> bool" where
  "class_tables_ok E s \<longleftrightarrow>
     class_pair_ok (cl_same E) (fuse_max E) (fuseTrack (cl_tabs s), fuseTrail (cl_tabs s)) \<and>
     class_pair_ok (cl_same E) 10 (birdTrack (cl_tabs s), birdTrail (cl_tabs s)) \<and>
     class_pair_ok (cl_same E) 10 (radarTrack (cl_ingest s), radarTrail (cl_ingest s)) \<and>
     class_pair_ok (cl_same E) 10 (birdRadarTrack (cl_ingest s), birdRadarTrail (cl_ingest s))"

lemmas class_stores = store_fuse_def store_birdFuse_def store_radar_def store_birdRadar_def store_ais_def Let_def

lemma class_tables_ok_stores:
  assumes "class_tables_ok E s"
  shows "class_tables_ok E (store_fuse E (fuse_max E) k t s)" "class_tables_ok E (store_birdFuse E k t s)"
    "class_tables_ok E (store_radar E k t s)" "class_tables_ok E (store_birdRadar E k t s)" "class_tables_ok E (store_ais st s)"
  using assms class_pair_ok_store[of "cl_same E"]
  by (auto simp: class_tables_ok_def class_stores split: prod.splits) (metis)+

lemma class_step_cases:
  obtains (ais) "topicName = tp_ais (cl_cfg E)" "class_sample_step E now topicName st s = store_ais st s"
  | (fuse) k t where "class_sample_step E now topicName st s = store_fuse E (fuse_max E) k t s"
  | (birdFuse) k t where "class_sample_step E now topicName st s = store_birdFuse E k t s"
  | (radar) k t where "class_sample_step E now topicName st s = store_radar E k t s"
  | (birdRadar) k t where "class_sample_step E now topicName st s = store_birdRadar E k t s"
  | (skip) "class_sample_step E now topicName st s = s"
  unfolding class_sample_step_def Let_def fuse_max_def by (smt (verit, ccfv_threshold))

datatype class_event = Samples int qstring "(bool \<times> bool \<times> class_sample) list" | ClearTimer int

fun class_event_step :: "class_env \<Rightarrow> class_event \<Rightarrow> class_tables \<Rightarrow> class_tables" where
  "class_event_step E (Samples now topicName samples) s = on_data_available E now topicName samples s"
| "class_event_step E (ClearTimer now) s = slotClearTrack now s"

definition class_run :: "class_env \<Rightarrow> class_event list \<Rightarrow> class_tables \<Rightarrow> class_tables" where
  "class_run E evs s = fold (class_event_step E) evs s"

definition empty_class_tables :: class_tables where
  "empty_class_tables = \<lparr>cl_tabs = \<lparr>fuseTrack = [], fuseTrail = [], birdTrack = [], birdTrail = []\<rparr>,
     cl_ingest = \<lparr>radarTrack = [], radarTrail = [], aisTrack = [], aisTrail = [], birdRadarTrack = [], birdRadarTrail = []\<rparr>\<rparr>"

lemma class_tables_ok_sample: "class_tables_ok E s \<Longrightarrow> class_tables_ok E (class_sample_step E now topicName st s)"
  by (cases rule: class_step_cases[of topicName E now st s]) (simp_all add: class_tables_ok_stores)

lemma class_tables_ok_event: "class_tables_ok E s \<Longrightarrow> class_tables_ok E (class_event_step E ev s)"
proof (cases ev)
  case (Samples now topicName samples)
  assume "class_tables_ok E s"
  then have "class_tables_ok E (on_data_available E now topicName samples s)"
    by (induction E now topicName samples s rule: on_data_available.induct) (auto simp: class_tables_ok_sample)
  then show ?thesis by (simp add: Samples)
next
  case (ClearTimer now)
  assume "class_tables_ok E s"
  then show ?thesis unfolding ClearTimer class_event_step.simps
    by (auto simp: class_tables_ok_def slotClearTrack_def Let_def intro: class_pair_ok_prune split: prod.splits)
qed

lemma class_tables_ok_run: "class_tables_ok E s \<Longrightarrow> class_tables_ok E (class_run E evs s)"
  unfolding class_run_def by (induction evs arbitrary: s) (simp_all add: class_tables_ok_event)

text \<open>
  However samples of the topics and clearings interleave, each of the four pairs of tables keeps one trail per track, every trail is
  non-empty and free of repetitions and has at most eleven points (sixteen for fused tracks in mode 1).
\<close>
theorem class_ingest_invariant:
  "let s = class_run E evs empty_class_tables in
     class_pair_ok (cl_same E) (if tp_mode (cl_cfg E) = 1 then 15 else 10) (fuseTrack (cl_tabs s), fuseTrail (cl_tabs s)) \<and>
     class_pair_ok (cl_same E) 10 (birdTrack (cl_tabs s), birdTrail (cl_tabs s)) \<and>
     class_pair_ok (cl_same E) 10 (radarTrack (cl_ingest s), radarTrail (cl_ingest s)) \<and>
     class_pair_ok (cl_same E) 10 (birdRadarTrack (cl_ingest s), birdRadarTrail (cl_ingest s))"
proof -
  have "class_tables_ok E empty_class_tables"
    by (simp add: class_tables_ok_def empty_class_tables_def class_pair_ok_Nil)
  then show ?thesis using class_tables_ok_run[of E empty_class_tables evs]
    by (simp add: class_tables_ok_def fuse_max_def Let_def)
qed

section \<open>AIS over DDS\<close>

text \<open>An event adds AIS targets and removes none; it never writes a trail of one.\<close>

lemma ais_sample:
  "aisTrail (cl_ingest (class_sample_step E now topicName st s)) = aisTrail (cl_ingest s) \<and>
   (map_of (aisTrack (cl_ingest s)) k \<noteq> None \<longrightarrow> map_of (aisTrack (cl_ingest (class_sample_step E now topicName st s))) k \<noteq> None)"
  by (cases rule: class_step_cases[of topicName E now st s]) (auto simp: class_stores split: prod.splits)

lemma ais_event:
  "aisTrail (cl_ingest (class_event_step E ev s)) = aisTrail (cl_ingest s) \<and>
   (map_of (aisTrack (cl_ingest s)) k \<noteq> None \<longrightarrow> map_of (aisTrack (cl_ingest (class_event_step E ev s))) k \<noteq> None)"
proof (cases ev)
  case (Samples now topicName samples)
  have "aisTrail (cl_ingest (on_data_available E now topicName samples s)) = aisTrail (cl_ingest s) \<and>
    (map_of (aisTrack (cl_ingest s)) k \<noteq> None \<longrightarrow> map_of (aisTrack (cl_ingest (on_data_available E now topicName samples s))) k \<noteq> None)"
  proof (induction E now topicName samples s rule: on_data_available.induct)
    case (2 E now topicName stopped valid st rest s)
    show ?case
    proof (cases stopped)
      case False
      then show ?thesis using 2[OF False] ais_sample[of E now topicName st s k] by (cases valid) auto
    qed simp
  qed simp
  then show ?thesis by (simp add: Samples)
next
  case (ClearTimer now)
  then show ?thesis by (simp add: slotClearTrack_def Let_def split: prod.splits)
qed

text \<open>
  An AIS target reported on the DDS topic is never dropped: the timer clears every table but this one, so the target is
  there after any later events, and it has no trail.
\<close>
theorem dds_ais_never_cleared:
  "map_of (aisTrack (cl_ingest (class_run E (Samples now (tp_ais (cl_cfg E)) [(False, True, st)] # evs) s))) (to_i32 (st_mmsi st)) \<noteq> None \<and>
   aisTrail (cl_ingest (class_run E (Samples now (tp_ais (cl_cfg E)) [(False, True, st)] # evs) s)) = aisTrail (cl_ingest s)"
proof -
  have s1: "class_event_step E (Samples now (tp_ais (cl_cfg E)) [(False, True, st)]) s = store_ais st s"
    by (simp add: class_sample_step_def Let_def)
  have run: "class_run E (Samples now (tp_ais (cl_cfg E)) [(False, True, st)] # evs) s = class_run E evs (store_ais st s)"
    unfolding class_run_def fold.simps comp_def s1 ..
  have "aisTrail (cl_ingest (class_run E evs t)) = aisTrail (cl_ingest t) \<and>
      (map_of (aisTrack (cl_ingest t)) k \<noteq> None \<longrightarrow> map_of (aisTrack (cl_ingest (class_run E evs t))) k \<noteq> None)" for k t
    unfolding class_run_def
  proof (induction evs arbitrary: t)
    case (Cons ev evs)
    show ?case using Cons[of "class_event_step E ev t"] ais_event[of E ev t k] by simp
  qed simp
  from this[of "store_ais st s" "to_i32 (st_mmsi st)"] show ?thesis unfolding run by (simp add: store_ais_def Let_def)
qed

section \<open>The self-report id\<close>

text \<open>
  The id of the self-report source reaches slot 0 of a bird track only when \<open>reserved6\<close> names a single source besides \<open>tan_niao\<close>: two or more
  ids are joined by commas, the text is no number, and slot 0 becomes 0, which no list of skipped ids matches.
\<close>
theorem self_report_id_single:
  assumes "toInt_laws (cl_toInt E)" and "\<forall>n\<in>set (zibaowei_ids E r6). - (2 ^ 31) \<le> n \<and> n < 2 ^ 31"
  shows "zibaowei E r6 = (case zibaowei_ids E r6 of [n] \<Rightarrow> n | _ \<Rightarrow> 0)"
proof (cases "zibaowei_ids E r6")
  case Nil
  then show ?thesis using assms(1) by (simp add: zibaowei_def toInt_laws_def)
next
  case (Cons n ns)
  show ?thesis
  proof (cases ns)
    case Nil
    then show ?thesis using assms Cons by (simp add: zibaowei_def toInt_laws_def)
  next
    fix m ms assume ns: "ns = m # ms"
    let ?j = "join_char 44 (map (\<lambda>i. qs (dec_int i)) (n # m # ms))"
    have "44 \<in> set ?j" by (rule join_has_sep) simp
    then have "cl_toInt E ?j = None" using assms(1) by (simp add: toInt_laws_def)
    then show ?thesis using Cons ns by (simp add: zibaowei_def del: join_char.simps)
  qed
qed

section \<open>Radar look-ups\<close>

text \<open>
  A look-up returns a track of the asked source that carries the id as its key, its unique id or its local number,
  and finds one whenever there is one; but a data source that is not configured has code 0 and then a track of any source is returned.
\<close>
theorem radar_lookup_sound_complete:
  assumes "qm_ok m" and "0 < i"
  shows "(tryGetRadarTrack m i src = None \<longleftrightarrow>
            (\<forall>k t. map_of m k = Some t \<longrightarrow> \<not> (matchSource src t \<and> (k = i \<or> uniqueID t = to_u32 i \<or> min_id t = to_u32 i)))) \<and>
         (\<forall>t. tryGetRadarTrack m i src = Some t \<longrightarrow>
            (\<exists>k. map_of m k = Some t \<and> matchSource src t \<and> (k = i \<or> uniqueID t = to_u32 i \<or> min_id t = to_u32 i))) \<and>
         (map_of codes (trimmed T name) = None \<longrightarrow> tryGetRadarTrackBySourceId T codes m i name = tryGetRadarTrack m i 0)"
proof -
  let ?P = "\<lambda>(k, u). matchSource src u \<and> (uniqueID u = to_u32 i \<or> min_id u = to_u32 i)"
  have mem: "(k, t) \<in> set m \<longleftrightarrow> map_of m k = Some t" for k t using qm.entries_iff[OF assms(1)] .
  have none: "find ?P m = None \<longleftrightarrow> (\<forall>k t. map_of m k = Some t \<longrightarrow> \<not> ?P (k, t))"
    unfolding find_None_iff using mem by auto
  have some: "find ?P m = Some (k, t) \<Longrightarrow> map_of m k = Some t \<and> ?P (k, t)" for k t
    unfolding find_Some_iff using mem by (metis nth_mem)
  show ?thesis
  proof (cases "\<exists>t. map_of m i = Some t \<and> matchSource src t")
    case True
    then obtain t where t: "map_of m i = Some t" "matchSource src t" by blast
    then have "tryGetRadarTrack m i src = Some t" using assms(2) by (simp add: tryGetRadarTrack_def)
    with t show ?thesis by (auto simp: tryGetRadarTrackBySourceId_def)
  next
    case False
    then have r: "tryGetRadarTrack m i src = map_option snd (find ?P m)"
      using assms(2) by (auto simp: tryGetRadarTrack_def split: option.splits)
    show ?thesis
    proof (cases "find ?P m")
      case None
      then show ?thesis using none r False by (auto simp: tryGetRadarTrackBySourceId_def)
    next
      case (Some p)
      obtain k t where p: "p = (k, t)" by fastforce
      have "map_of m k = Some t" "?P (k, t)" using some Some p by blast+
      then show ?thesis using r Some p by (auto simp: tryGetRadarTrackBySourceId_def)
    qed
  qed
qed

section \<open>Witnesses\<close>

definition sample_class :: "qjson option \<Rightarrow> class_env" where
  "sample_class doc = \<lparr>cl_cfg = \<lparr>tp_mode = 0, tp_fuse = qs ''fuse'', tp_fuseBird = qs ''fuseBird'', tp_radar1 = qs ''radar1'',
       tp_radar2 = qs ''radar2'', tp_ais = qs ''ais'', tp_bird = qs ''bird'', tp_autoBird = qs ''autoBird'', tp_ku = qs ''ku''\<rparr>,
     cl_fromJson = (\<lambda>_. doc), cl_toInt = ascii_toInt, cl_unset = zero_track, cl_wideScore = (\<lambda>_. 0), cl_same = (=)\<rparr>"

definition two_sources :: qjson where
  "two_sources = QArray [QObject [(qs ''trackId'', QNumber 12)], QObject [(qs ''trackId'', QNumber 13)]]"

theorem self_report_id_single_witness:
  "zibaowei (sample_class (Some two_sources)) ''x'' = 0"
proof -
  have ids: "zibaowei_ids (sample_class (Some two_sources)) ''x'' = [12, 13]"
    by (simp add: zibaowei_ids_def sample_class_def two_sources_def qjson_value_def qjson_toString_def qjson_toInt_def)
  have laws: "toInt_laws (cl_toInt (sample_class (Some two_sources)))" by (simp add: sample_class_def ascii_toInt_laws)
  show ?thesis using self_report_id_single[OF laws, of "''x''"] by (simp add: ids)
qed

theorem radar_lookup_sound_complete_witness:
  "tryGetRadarTrack [(5, zero_track\<lparr>uniqueID := 9\<rparr>)] 9 0 \<noteq> None"
proof -
  have "qm_ok [(5 :: int, zero_track\<lparr>uniqueID := 9\<rparr>)]" by (simp add: qm_ok_def)
  from radar_lookup_sound_complete[OF this, of 9 0] show ?thesis by (auto simp: matchSource_def to_u32_def)
qed

end
