(* ===== verification/Config_Load.thy ===== *)
theory Config_Load
  imports Alarm_Control Alarm_Snapshot Suspicious_Target Target_Type_Client Track_Class
begin

text \<open>
  Reading \<open>Config.ini\<close> (\<open>CustomConfig::LoadConfig\<close> with its two helpers) and the parameter store of \<open>CustomConfig\<close>.  A
  setting is what \<open>QSettings::value\<close> returns for a key of an ini file: nothing, a text (unquoted without a comma, or quoted), or a
  list of texts (an unquoted value with commas).  Conversions of a text to a number are parameters; a number that Qt
  cannot read is 0.
\<close>

section \<open>Settings and their conversions\<close>

datatype qvariant = VInvalid | VText qstring | VList "qstring list"

type_synonym ini = "string \<Rightarrow> qvariant"

record cfg_env =
  ce_qt :: qt_text
  ce_toInt :: "qstring \<Rightarrow> int option"
  ce_toUInt :: "qstring \<Rightarrow> int option"
  ce_textInt :: "qstring \<Rightarrow> int"
  ce_textBool :: "qstring \<Rightarrow> bool"
  ce_textReal :: "qstring \<Rightarrow> real"
  ce_textFloat :: "qstring \<Rightarrow> real"
  ce_realInt :: "real \<Rightarrow> int"
  ce_toStd :: "qstring \<Rightarrow> string"

text \<open>\<open>QVariant::toString\<close> and \<open>toStringList\<close>: a list is a text only when it has one item.\<close>

definition var_toString :: "qvariant \<Rightarrow> qstring" where
  "var_toString v = (case v of VText s \<Rightarrow> s | VList [s] \<Rightarrow> s | _ \<Rightarrow> [])"

definition var_toStringList :: "qvariant \<Rightarrow> qstring list" where
  "var_toStringList v = (case v of VText s \<Rightarrow> [s] | VList ps \<Rightarrow> ps | VInvalid \<Rightarrow> [])"

definition var_toInt :: "cfg_env \<Rightarrow> qvariant \<Rightarrow> int" where
  "var_toInt E v = (case v of VText s \<Rightarrow> ce_textInt E s | _ \<Rightarrow> 0)"

definition var_toReal :: "cfg_env \<Rightarrow> qvariant \<Rightarrow> real" where
  "var_toReal E v = (case v of VText s \<Rightarrow> ce_textReal E s | _ \<Rightarrow> 0)"

text \<open>\<open>settings.value(key, default)\<close> followed by a conversion.\<close>

definition int_setting :: "cfg_env \<Rightarrow> ini \<Rightarrow> string \<Rightarrow> int \<Rightarrow> int" where
  "int_setting E ini key d = (if ini key = VInvalid then d else var_toInt E (ini key))"

definition real_setting :: "cfg_env \<Rightarrow> ini \<Rightarrow> string \<Rightarrow> real \<Rightarrow> real" where
  "real_setting E ini key d = (if ini key = VInvalid then d else var_toReal E (ini key))"

definition text_setting :: "ini \<Rightarrow> string \<Rightarrow> qstring \<Rightarrow> qstring" where
  "text_setting ini key d = (if ini key = VInvalid then d else var_toString (ini key))"

section \<open>Sets of numbers\<close>

text \<open>The parts of a text between commas, without the empty ones.\<close>

definition csv_parts :: "qstring \<Rightarrow> qstring list" where
  "csv_parts s = filter (\<lambda>p. p \<noteq> []) (split_char 44 s)"

definition insert_ints :: "cfg_env \<Rightarrow> qstring list \<Rightarrow> int list" where
  "insert_ints E ps =
     fold (\<lambda>p out. case ce_toInt E (trimmed (ce_qt E) p) of Some v \<Rightarrow> List.insert v out | None \<Rightarrow> out) ps []"

definition parseCsvIntSet :: "cfg_env \<Rightarrow> qstring \<Rightarrow> int list" where
  "parseCsvIntSet E csv = insert_ints E (csv_parts csv)"

definition parseIntSetFromSettings :: "cfg_env \<Rightarrow> qvariant \<Rightarrow> int list" where
  "parseIntSetFromSettings E v =
     (let parts = var_toStringList v in
      if v \<noteq> VInvalid \<and> parts \<noteq> [] then insert_ints E parts
      else let csv = trimmed (ce_qt E) (var_toString v) in if csv \<noteq> [] then parseCsvIntSet E csv else [])"

section \<open>Members that are copied from one key\<close>

text \<open>
  Most statements of \<open>LoadConfig\<close> copy one key to one member of \<open>BasicConfig\<close> or \<open>RadarAttr\<close>: a row has the member, the key, the
  conversion and whether the statement is guarded by \<open>settings.contains\<close>.
\<close>

datatype cfg_value = CInt int | CBool bool | CReal real | CText qstring

datatype conversion = AsInt | AsBool | AsBoolInt | AsReal | AsFloat | AsTrunc | AsText | AsTextInt

fun converted :: "cfg_env \<Rightarrow> conversion \<Rightarrow> qvariant \<Rightarrow> cfg_value" where
  "converted E AsInt v = CInt (var_toInt E v)"
| "converted E AsBool v = CBool (case v of VText s \<Rightarrow> ce_textBool E s | _ \<Rightarrow> False)"
| "converted E AsBoolInt v = CInt (case v of VText s \<Rightarrow> if ce_textBool E s then 1 else 0 | _ \<Rightarrow> 0)"
| "converted E AsReal v = CReal (var_toReal E v)"
| "converted E AsFloat v = CReal (case v of VText s \<Rightarrow> ce_textFloat E s | _ \<Rightarrow> 0)"
| "converted E AsTrunc v = CInt (ce_realInt E (var_toReal E v))"
| "converted E AsText v = CText (var_toString v)"
| "converted E AsTextInt v = CInt (case ce_toInt E (var_toString v) of Some n \<Rightarrow> n | None \<Rightarrow> 0)"

type_synonym members = "string \<Rightarrow> cfg_value"

definition load_member :: "cfg_env \<Rightarrow> ini \<Rightarrow> string \<times> string \<times> conversion \<times> bool \<Rightarrow> members \<Rightarrow> members" where
  "load_member E ini row m =
     (case row of (member, key, conv, guarded) \<Rightarrow>
        if guarded \<and> ini key = VInvalid then m else m(member := converted E conv (ini key)))"

definition load_members :: "cfg_env \<Rightarrow> ini \<Rightarrow> (string \<times> string \<times> conversion \<times> bool) list \<Rightarrow> members \<Rightarrow> members" where
  "load_members E ini rows m = fold (load_member E ini) rows m"

definition first_members :: "(string \<times> string \<times> conversion \<times> bool) list" where
  "first_members = [
    (''m_nStyleMode'', ''Basic/StyleMode'', AsInt, False), (''m_nRadarCnt'', ''Basic/RadarCnt'', AsInt, False),
    (''m_nCameraCnt'', ''Basic/CameraCnt'', AsInt, False), (''m_nPlatformCnt'', ''Basic/PlatformCnt'', AsInt, False),
    (''m_nRefpCnt'', ''Basic/RefpCnt'', AsTextInt, False), (''m_bEnableWideCam'', ''Basic/EnableWideCam'', AsBool, False),
    (''m_bShipPlatform'', ''Basic/ShipPlatform'', AsBool, False), (''m_bShowFrameRate'', ''Basic/ShowFrameRate'', AsBool, False),
    (''m_nRefreshInterval'', ''Basic/RefreshInterval'', AsInt, False),
    (''m_nAutoHandleInterval'', ''Basic/AutoHandleInterval'', AsInt, False),
    (''m_nCameraDecodeType'', ''Basic/CameraDecodeType'', AsInt, False), (''m_nCameraTopRoot'', ''Basic/CameraTopRoot'', AsInt, False),
    (''m_nUsePtzModel'', ''Basic/UsePTZModel'', AsInt, False), (''m_nPPIDDSPort'', ''Basic/PPIDDSPort'', AsInt, False),
    (''m_bDebugMode'', ''Basic/DebugMode'', AsBool, True), (''m_bUseRemoteCameraControl'', ''Basic/UseRemoteCameraControl'', AsBool, True),
    (''m_strControlIP'', ''Basic/RemoteControllP'', AsText, False), (''m_nControlPort'', ''Basic/RemoteControlPort'', AsInt, False),
    (''m_bUseSingleTrackMeataTask'', ''Basic/UseSingleTrackMetaTask'', AsBool, True),
    (''m_strSingleTrackServerIP'', ''Basic/SingleTrackServerlP'', AsText, False),
    (''m_nSingleTrackServerPort'', ''Basic/SingleTrackServerPort'', AsInt, False),
    (''m_dCheckOffsetHS'', ''Basic/CheckOffsetHS'', AsFloat, True),
    (''m_bUseSingleDDSPort'', ''Basic/RecvSinglePortDDS'', AsBoolInt, True),
    (''m_nCameraStateDDSPort'', ''Basic/RemoteControlDDSPort'', AsInt, True),
    (''m_nCameraMultiTrackRectDDSPort'', ''Basic/MultiTrackDDSPort'', AsInt, True),
    (''m_nCameraSingleTrackRectDDSPort'', ''Basic/SingleTrackDDSPort'', AsInt, True),
    (''m_nAlarmEventDDSPort'', ''Basic/AlarmEventDDSPort'', AsInt, True),
    (''m_nAlarmEventDDSPortSingle'', ''Basic/AlarmEventDDSPortSingle'', AsInt, True),
    (''m_nTrackDDSPort'', ''Basic/TrackDDSPort'', AsInt, True)]"

definition later_members :: "(string \<times> string \<times> conversion \<times> bool) list" where
  "later_members = [
    (''m_bEnableLaserRadar'', ''Basic/EnableLaserRadar'', AsBool, False),
    (''m_bEnableMilliwaveRadar'', ''Basic/EnableMilliwaveRadar'', AsBool, False),
    (''m_strVesselName'', ''Basic/VesselName'', AsText, False), (''m_strAisNum'', ''Basic/AisNum'', AsText, False),
    (''m_nVesselLength'', ''Basic/VesselLength'', AsInt, False), (''m_nVesselWidth'', ''Basic/VesselWidth'', AsInt, False),
    (''m_nAlarmCPA'', ''Basic/AlarmCPA'', AsInt, False), (''m_nAlarmTCPA'', ''Basic/AlarmTCPA'', AsInt, False),
    (''m_nAlarmTime'', ''Basic/AlarmTCPA'', AsInt, False), (''m_strEmailAddr'', ''Basic/EmailAddr'', AsText, False),
    (''m_strADSBIP'', ''Basic/ADSBIP'', AsText, False), (''m_nADSBPort'', ''Basic/ADSBPort'', AsInt, False),
    (''m_nGpsProto'', ''Basic/GpsProto'', AsInt, False), (''m_nGpsInputType'', ''Basic/GpsInputType'', AsInt, False),
    (''m_strGpsIP'', ''Basic/GpsIP'', AsText, False), (''m_nGpsPort'', ''Basic/GpsPort'', AsInt, False),
    (''m_strGpsSerialPort'', ''Basic/GpsSerialPort'', AsText, False), (''m_nGpsSerialBaud'', ''Basic/GpsSerialBaud'', AsInt, False),
    (''m_nCompProto'', ''Basic/CompProto'', AsInt, False), (''m_nCompInputType'', ''Basic/CompInputType'', AsInt, False),
    (''m_strCompIP'', ''Basic/CompIP'', AsText, False), (''m_nCompPort'', ''Basic/CompPort'', AsInt, False),
    (''m_strCompSerialPort'', ''Basic/CompSerialPort'', AsText, False), (''m_nCompSerialBaud'', ''Basic/CompSerialBaud'', AsInt, False),
    (''m_nDeptInputType'', ''Basic/DeptInputType'', AsInt, False), (''m_nDeptProto'', ''Basic/DeptProto'', AsInt, False),
    (''m_strDeptIP'', ''Basic/DeptIP'', AsText, False), (''m_nDeptPort'', ''Basic/DeptPort'', AsInt, False),
    (''m_strDeptSerialPort'', ''Basic/DeptSerialPort'', AsText, False), (''m_nDeptSerialBaud'', ''Basic/DeptSerialBaud'', AsInt, False),
    (''m_nWeatherInputType'', ''Basic/WeatherInputType'', AsInt, False), (''m_nWeatherProto'', ''Basic/WeatherProto'', AsInt, False),
    (''m_strWeatherIP'', ''Basic/WeatherIP'', AsText, False), (''m_nWeatherPort'', ''Basic/WeatherPort'', AsInt, False),
    (''m_strWeatherSerialPort'', ''Basic/WeatherSerialPort'', AsText, False),
    (''m_nWeatherSerialBaud'', ''Basic/WeatherSerialBaud'', AsInt, False), (''m_nMergeInputType'', ''Basic/MergeInputType'', AsInt, False),
    (''m_nMergeProto'', ''Basic/MergeProto'', AsInt, False), (''m_strMergeIP'', ''Basic/MergeIP'', AsText, False),
    (''m_nMergePort'', ''Basic/MergePort'', AsInt, False), (''m_strMergeSerialPort'', ''Basic/MergeSerialPort'', AsText, False),
    (''m_nMergeSerialBaud'', ''Basic/MergeSerialBaud'', AsInt, False), (''m_nAISInputType'', ''Basic/AISInputType'', AsInt, False),
    (''m_nAISProto'', ''Basic/AISProto'', AsInt, False), (''m_strAISIP'', ''Basic/AISIP'', AsText, False),
    (''m_nAISPort'', ''Basic/AISPort'', AsInt, False), (''m_strAISSerialPort'', ''Basic/AISSerialPort'', AsText, False),
    (''m_nAISSerialBaud'', ''Basic/AISSerialBaud'', AsInt, False), (''m_strSurroundCam0'', ''Basic/SurroundCam0'', AsText, False),
    (''m_strSurroundCam1'', ''Basic/SurroundCam1'', AsText, False), (''m_strSurroundCam2'', ''Basic/SurroundCam2'', AsText, False),
    (''m_strSurroundCam3'', ''Basic/SurroundCam3'', AsText, False), (''m_strSurroundCam4'', ''Basic/SurroundCam4'', AsText, False),
    (''m_nUseBasePoint'', ''Basic/UseBasePoint'', AsInt, False), (''m_dBasePointLon'', ''Basic/BasePointLon'', AsReal, False),
    (''m_dBasePointLat'', ''Basic/BasePointLat'', AsReal, False), (''m_strVlmServerIp'', ''Basic/VlmJudgeIP'', AsText, False),
    (''m_nVlmServerPort'', ''Basic/VlmJudgePort'', AsInt, False), (''m_nCollectHostPort'', ''Basic/CollectHostPort'', AsInt, False),
    (''m_nTaskHostPort'', ''Basic/TaskHostPort'', AsInt, False), (''m_nTaskHandleHostPort'', ''Basic/TaskHandleHostPort'', AsInt, False),
    (''m_strTaskServerIp'', ''Basic/TaskServerIP'', AsText, False), (''m_nTaskServerPort'', ''Basic/TaskServerPort'', AsInt, False),
    (''m_strCollectServerIp'', ''Basic/CollectServerIP'', AsText, False),
    (''m_nCollectServerPort'', ''Basic/CollectServerPort'', AsInt, False), (''m_strUavServerIp'', ''Basic/UavServerIP'', AsText, False),
    (''m_nUavServerPort'', ''Basic/UavServerPort'', AsInt, False), (''m_strUavVideoHostIP'', ''Basic/UUAVVideoHostIP'', AsText, False),
    (''m_nUavVideoDetectPort'', ''Basic/UAVVideoDetectPort'', AsInt, False),
    (''m_strUavVideoDetectIP'', ''Basic/UAVVideoDetectIP'', AsText, False),
    (''m_nUavVideoDetectPort1'', ''Basic/UAVVideoDetectPort1'', AsInt, False),
    (''m_nUavVideoDetectPort2'', ''Basic/UAVVideoDetectPort2'', AsInt, False),
    (''m_nUavVideoDetectPort3'', ''Basic/UAVVideoDetectPort3'', AsInt, False),
    (''m_strAudioTransIp'', ''Basic/AudioTransIP'', AsText, False), (''m_nAudioTransPort'', ''Basic/AudioTransPort'', AsInt, False),
    (''m_nAudioTransWithIdentifyPort'', ''Basic/AudioTransWithIdentifyPort'', AsInt, False),
    (''m_bUseChatRoute'', ''Basic/UseChatRoute'', AsBool, False), (''m_strAliAudioTransIp'', ''Basic/AliAudioTransIP'', AsText, False),
    (''m_nAliAudioTransPort'', ''Basic/AliAudioTransPort'', AsInt, False), (''m_nVideoTransPort'', ''Basic/VideoTransPort'', AsInt, False),
    (''m_strShipFileIp'', ''Basic/ShipFileServerIP'', AsText, False), (''m_nShipFilePort'', ''Basic/ShipFileServerPort'', AsInt, False),
    (''m_strSelfPoseTrackServerIp'', ''Basic/SelfPoseTrackServerIP'', AsText, False),
    (''m_nSelfPoseTrackServerPort'', ''Basic/SelfPoseTrackServerPort'', AsInt, False),
    (''m_nSelfPoseAirTrackServerPort'', ''Basic/SelfPoseAirTrackServerPort'', AsInt, False),
    (''m_strRecvSelfPoseIP'', ''Basic/RecvSelfPoseIP'', AsText, False),
    (''m_nRecvSelfPosePort'', ''Basic/RecvSelfPosePort'', AsInt, False), (''m_nLLMMode'', ''Basic/LLMMode'', AsInt, False),
    (''m_nAutoHandleMode'', ''Basic/AutoHandleMode'', AsInt, False)]"

definition radar_members :: "(string \<times> string \<times> conversion \<times> bool) list" where
  "radar_members = [
    (''m_strRadarName'', ''RadarName'', AsText, False), (''m_bEnable'', ''RadarEnable'', AsBool, False),
    (''m_nResolution'', ''RadarResolution'', AsInt, False), (''m_dPRF'', ''RadarPRF'', AsReal, False),
    (''m_dAzi'', ''RadarAzi'', AsReal, False), (''m_dDuraton'', ''RadarDuration'', AsReal, False),
    (''m_nPosType'', ''RadarPosType'', AsTrunc, False), (''m_nRefPoint'', ''RadarRefp'', AsInt, False),
    (''m_dOffsetX'', ''RadarOffsetX'', AsReal, False), (''m_dOffsetY'', ''RadarOffsetY'', AsReal, False),
    (''m_dLon'', ''RadarLon'', AsReal, False), (''m_dLat'', ''RadarLat'', AsReal, False), (''m_dAlt'', ''RadarAlt'', AsReal, False),
    (''m_dHeight'', ''RadarHeight'', AsReal, False), (''m_dSpiral'', ''RadarSpiral'', AsReal, False),
    (''m_nGpsFmt'', ''RadarGpsFmt'', AsInt, False), (''m_strGpsIP'', ''RadarGpsIP'', AsText, False),
    (''m_nGpsPort'', ''RadarGpsPort'', AsInt, False), (''m_strGpsInputInterface'', ''RadarGpsIf'', AsText, False),
    (''m_nVideoFmt'', ''RadarVideoFmt'', AsInt, False), (''m_strVideoInputIP'', ''RadarVideoIP'', AsText, False),
    (''m_nVideoInputPort'', ''RadarVideoPort'', AsInt, False), (''m_strVideoInputInterface'', ''RadarVideoIf'', AsText, False),
    (''m_nTrackFmt'', ''RadarTrackFmt'', AsInt, False), (''m_strTrackInputIP'', ''RadarTrackIP'', AsText, False),
    (''m_nTrackInputPort'', ''RadarTrackPort'', AsInt, False), (''m_strTrackInputInterface'', ''RadarTrackIf'', AsText, False),
    (''m_nRadarType'', ''RadarType'', AsInt, False), (''m_nCtrlConf'', ''RadarCtrlConf'', AsInt, False),
    (''m_nRange'', ''RadarRange'', AsReal, False), (''m_dGain'', ''RadarGain'', AsReal, False)]"

definition ui_texts :: "(string \<times> qstring list) list" where
  "ui_texts = [
    (''m_listRange'', [qs ''1NM'', qs ''3NM'', qs ''6NM'', qs ''12NM'', qs ''24NM'', qs ''48NM'', qs ''96NM'']),
    (''m_listBowOrient'', [qs ''C up'', qs ''H up'', qs ''N up'']),
    (''m_listAlarmTbl'', [[29366, 24577], [26102, 38388], [21517, 31216], [33322, 36857], qs ''CPA'', qs ''TCPA'', [35302, 21457, 22120]]),
    (''m_listTrackCommon'', [[21517, 31216], [31867, 22411], qs ''ID'', [20998, 31867], [35686, 25253], [20301, 32622], [36317, 31163], [26041, 20301], qs ''SOG'', qs ''COG'', [22791, 27880]]),
    (''m_listTrackMerge'', [[20108, 27425]]),
    (''m_listTrackAIS'', [qs ''AIS MMSI'', qs ''AIS IMO'', [65, 73, 83, 21628, 21495], [65, 73, 83, 33337, 21517], [65, 73, 83, 23548, 33322, 29366, 24577], [65, 73, 83, 38271, 24230], [65, 73, 83, 21507, 27700], [65, 73, 83, 36716, 24367, 35282, 36895, 24230], [65, 73, 83, 33337, 22411], [65, 73, 83, 30446, 30340, 22320], [65, 73, 83, 39044, 35745, 21040, 36798, 26102, 38388], [65, 73, 83, 23610, 23544]]),
    (''m_listEquipTbl'', [[24207, 21495], [35774, 22791, 21517, 31216], [35774, 22791, 29366, 24577]]),
    (''m_listChannelTbl'', [[24207, 21495], [20449, 36947, 21517, 31216], [20449, 36947, 29366, 24577]]),
    (''m_listTemplateTbl'', [qs '''', [20219, 21153, 21517, 31216]]),
    (''m_listHistoryTbl'', [[20219, 21153, 21517, 31216], [37319, 38598, 21592], [37319, 38598, 26102, 38388], [37319, 38598, 26102, 38271, 40, 31186, 41], [37319, 38598, 29366, 24577]])]"

definition radar_group :: "nat \<Rightarrow> (string \<times> string \<times> conversion \<times> bool) list" where
  "radar_group i = map (\<lambda>(member, key, conv, guarded). (member, ''RadarAttr'' @ dec i @ ''/'' @ key, conv, guarded)) radar_members"

text \<open>The four \<open>RadarAttr\<close>; a member no statement writes is as a new structure holds it (\<open>unset\<close>).\<close>

definition load_radars :: "cfg_env \<Rightarrow> ini \<Rightarrow> members \<Rightarrow> members list" where
  "load_radars E ini unset = map (\<lambda>i. load_members E ini (radar_group i) (unset(''m_nRadarId'' := CInt (int i)))) [0..<4]"

section \<open>Track transports and routes\<close>

definition load_transport :: "cfg_env \<Rightarrow> ini \<Rightarrow> string \<Rightarrow> qstring" where
  "load_transport E ini key =
     (let tx = toLower (ce_qt E) (trimmed (ce_qt E) (text_setting ini key (qs ''dds'')))
      in if tx = qs ''grpc'' then qs ''grpc'' else qs ''dds'')"

definition load_address :: "cfg_env \<Rightarrow> ini \<Rightarrow> string \<Rightarrow> string \<Rightarrow> qstring" where
  "load_address E ini key d = trimmed (ce_qt E) (text_setting ini key (qs d))"

definition kValidBuckets :: "qstring list" where
  "kValidBuckets = [qs ''radar'', qs ''ais'', qs ''bird'']"

definition route_step :: "qt_text \<Rightarrow> qstring \<Rightarrow> (qstring, qstring) umap \<Rightarrow> (qstring, qstring) umap" where
  "route_step T part m =
     (let kv = split_char 58 (trimmed T part) in
      if length kv < 2 then m
      else let ds = trimmed T (kv ! 0);
               b0 = toLower T (trimmed T (kv ! 1));
               bucket = (if b0 = qs ''auto_bird'' \<or> b0 = qs ''ku_bird'' then qs ''bird'' else b0)
           in if ds = [] \<or> bucket \<notin> set kValidBuckets then m else um_insert ds bucket m)"

definition parse_routes :: "qt_text \<Rightarrow> qstring \<Rightarrow> (qstring, qstring) umap" where
  "parse_routes T csv = fold (route_step T) (csv_parts csv) []"

definition default_routes :: "(qstring, qstring) umap" where
  "default_routes = [(qs ''yuan_yao'', qs ''radar''), (qs ''jing_zi_tou'', qs ''radar''), (qs ''udp_xpf_track'', qs ''radar''),
     (qs ''ais'', qs ''ais''), (qs ''tan_niao'', qs ''bird''), (qs ''auto_bird'', qs ''bird''), (qs ''ku_lei_da'', qs ''bird''),
     (qs ''udp_fanwucar_track'', qs ''bird'')]"

definition routes_default_text :: string where
  "routes_default_text = ''yuan_yao:radar,jing_zi_tou:radar,udp_xpf_track:radar,'' @
     ''ais:ais,tan_niao:bird,auto_bird:bird,'' @ ''ku_lei_da:bird,udp_fanwucar_track:bird''"

definition load_routes :: "cfg_env \<Rightarrow> ini \<Rightarrow> (qstring, qstring) umap" where
  "load_routes E ini =
     (let m = parse_routes (ce_qt E) (trimmed (ce_qt E)
                (text_setting ini ''Basic/FusionTrackGrpcSourceRoutes'' (qs routes_default_text)))
      in if m = [] then default_routes else m)"

definition code_step :: "cfg_env \<Rightarrow> qstring \<Rightarrow> (qstring, int) umap \<Rightarrow> (qstring, int) umap" where
  "code_step E part m =
     (let kv = split_char 58 (trimmed (ce_qt E) part) in
      if length kv < 2 then m
      else let ds = trimmed (ce_qt E) (kv ! 0) in
        case ce_toUInt E (trimmed (ce_qt E) (kv ! 1)) of
          None \<Rightarrow> m
        | Some code \<Rightarrow> if ds = [] \<or> code = 0 then m else um_insert ds code m)"

definition default_codes :: "(qstring, int) umap" where
  "default_codes = [(qs ''yuan_yao'', 1), (qs ''jing_zi_tou'', 2), (qs ''udp_xpf_track'', 3)]"

definition load_codes :: "cfg_env \<Rightarrow> ini \<Rightarrow> (qstring, int) umap" where
  "load_codes E ini =
     (let m = fold (code_step E) (csv_parts (trimmed (ce_qt E)
                (text_setting ini ''Basic/RadarTrackGrpcSources'' (qs ''yuan_yao:1,jing_zi_tou:2,udp_xpf_track:3'')))) []
      in if m = [] then default_codes else m)"

definition slot_step :: "cfg_env \<Rightarrow> qstring \<Rightarrow> (int \<times> qstring) list \<Rightarrow> (int \<times> qstring) list" where
  "slot_step E part m =
     (let kv = split_char 58 (trimmed (ce_qt E) part) in
      if length kv < 2 then m
      else let ds = trimmed (ce_qt E) (kv ! 1) in
        case ce_toInt E (trimmed (ce_qt E) (kv ! 0)) of
          None \<Rightarrow> m
        | Some slot \<Rightarrow> if slot < 0 \<or> 8 \<le> slot \<or> ds = [] then m else m @ [(slot, ds)])"

definition default_slots :: "(int \<times> qstring) list" where
  "default_slots = [(0, qs ''yuan_yao''), (2, qs ''jing_zi_tou'')]"

definition load_slots :: "cfg_env \<Rightarrow> ini \<Rightarrow> (int \<times> qstring) list" where
  "load_slots E ini =
     (let m = fold (slot_step E) (csv_parts (trimmed (ce_qt E)
                (text_setting ini ''Basic/RadarFusionTrackIdSlots'' (qs ''0:yuan_yao,2:jing_zi_tou'')))) []
      in if m = [] then default_slots else m)"

record basic_config =
  bc_members :: members
  bc_fusionTransport :: qstring
  bc_newTrackAddr :: qstring
  bc_radarTransport :: qstring
  bc_fusionStreamAddr :: qstring
  bc_routes :: "(qstring, qstring) umap"
  bc_codes :: "(qstring, int) umap"
  bc_slots :: "(int \<times> qstring) list"

definition load_basic :: "cfg_env \<Rightarrow> ini \<Rightarrow> basic_config \<Rightarrow> basic_config" where
  "load_basic E ini b = \<lparr>
     bc_members = load_members E ini later_members (load_members E ini first_members (bc_members b)),
     bc_fusionTransport = load_transport E ini ''Basic/FusionTrackTransport'',
     bc_newTrackAddr = load_address E ini ''Basic/NewTrackStructGrpcAddr'' ''192.168.18.141:60055'',
     bc_radarTransport = load_transport E ini ''Basic/RadarTrackTransport'',
     bc_fusionStreamAddr = load_address E ini ''Basic/FusionTrackStreamGrpcAddr'' ''192.168.18.141:60056'',
     bc_routes = load_routes E ini, bc_codes = load_codes E ini, bc_slots = load_slots E ini\<rparr>"

definition member_int :: "members \<Rightarrow> string \<Rightarrow> int" where
  "member_int m name = (case m name of CInt n \<Rightarrow> n | _ \<Rightarrow> 0)"

definition member_real :: "members \<Rightarrow> string \<Rightarrow> real" where
  "member_real m name = (case m name of CReal d \<Rightarrow> d | _ \<Rightarrow> 0)"

section \<open>The alarm logic\<close>

definition load_bird_skip :: "cfg_env \<Rightarrow> ini \<Rightarrow> int list \<Rightarrow> int list" where
  "load_bird_skip E ini old =
     (let ids = (if ini ''AlarmLogic/BirdSkipTrackIds'' \<noteq> VInvalid
                 then parseIntSetFromSettings E (ini ''AlarmLogic/BirdSkipTrackIds'') else old)
      in if ids = [] then parseCsvIntSet E (qs ''4001,4002,4003,4004,4008,4011'') else ids)"

definition load_area_groups :: "cfg_env \<Rightarrow> ini \<Rightarrow> int list \<Rightarrow> int list" where
  "load_area_groups E ini old =
     (let ids = (if ini ''AlarmLogic/AreaGroupIdAllowList'' \<noteq> VInvalid
                 then parseIntSetFromSettings E (ini ''AlarmLogic/AreaGroupIdAllowList'') else old)
      in if ids = [] then parseCsvIntSet E (qs ''1,2'') else ids)"

definition load_no_alarm_groups :: "cfg_env \<Rightarrow> ini \<Rightarrow> int list" where
  "load_no_alarm_groups E ini =
     (if ini ''AlarmLogic/NoAlarmGroupIdList'' \<noteq> VInvalid
      then parseIntSetFromSettings E (ini ''AlarmLogic/NoAlarmGroupIdList'')
      else if ini ''AlarmLogic/NoAlarmGroupId'' \<noteq> VInvalid
      then (let legacy = var_toInt E (ini ''AlarmLogic/NoAlarmGroupId'') in if 0 \<le> legacy then [legacy] else [])
      else parseCsvIntSet E (qs ''1,2''))"

text \<open>The record of the model also carries the base point, which the code reads in \<open>BasicConfig\<close>.\<close>

definition load_logic :: "cfg_env \<Rightarrow> ini \<Rightarrow> members \<Rightarrow> AlarmLogicConfig \<Rightarrow> AlarmLogicConfig" where
  "load_logic E ini m al = \<lparr>
     cfg_mode = int_setting E ini ''AlarmLogic/Mode'' 0,
     saveAlarmToDb = int_setting E ini ''AlarmLogic/SaveAlarmToDb'' 0,
     refreshTargetInfoFilterEachLoop = int_setting E ini ''AlarmLogic/RefreshTargetInfoFilterEachLoop'' 1,
     alarmMapPruneNonFirstStaleMs = int_setting E ini ''AlarmLogic/AlarmMapPruneNonFirstStaleMs'' 5000,
     dedupSameAlarmWindowMs = int_setting E ini ''AlarmLogic/DedupSameAlarmWindowMs'' 600000,
     dedupMatchConditionAndTrack = int_setting E ini ''AlarmLogic/DedupMatchConditionAndTrack'' 0,
     originTimeFromTrackMsg = int_setting E ini ''AlarmLogic/OriginTimeFromTrackMsg'' 1,
     originTrackTimeIsMs = int_setting E ini ''AlarmLogic/OriginTrackTimeIsMs'' 0,
     trackAlreadyHasAlarmWindowMs = int_setting E ini ''AlarmLogic/TrackAlreadyHasAlarmWindowMs'' 60000,
     alarmFilterTtlMs = int_setting E ini ''AlarmLogic/AlarmFilterTtlMs'' 3600000,
     speedDoubleCheckFuseTrackOnly = int_setting E ini ''AlarmLogic/SpeedDoubleCheckFuseTrackOnly'' 1,
     defaultThreatScore = int_setting E ini ''AlarmLogic/DefaultThreatScore'' 90,
     birdRadarSourceId = int_setting E ini ''AlarmLogic/BirdRadarSourceId'' 9,
     birdFilterMode = int_setting E ini ''AlarmLogic/BirdFilterMode'' 0,
     birdSelfReportSubstrings = text_setting ini ''AlarmLogic/BirdSelfReportSubstrings'' [0x81EA, 0x62A5, 0x4F4D],
     birdSkipTrackIds = load_bird_skip E ini (birdSkipTrackIds al),
     areaGroupIdAllow = load_area_groups E ini (areaGroupIdAllow al),
     noAlarmGroupIds = load_no_alarm_groups E ini,
     fuseMapRequireContain = int_setting E ini ''AlarmLogic/FuseMapRequireContain'' 1,
     useBasePoint = member_int m ''m_nUseBasePoint'',
     basePointLat = member_real m ''m_dBasePointLat'', basePointLon = member_real m ''m_dBasePointLon''\<rparr>"

section \<open>Suspicious targets\<close>

record suspicious_settings = suspicious_config +
  sx_enabled :: int
  sx_embedInTarget :: int
  sx_ddsTopic :: qstring
  sx_embedRuleId :: qstring

definition load_suspicious :: "cfg_env \<Rightarrow> ini \<Rightarrow> suspicious_settings" where
  "load_suspicious E ini =
     (let interval = int_setting E ini ''SuspiciousTarget/JudgeIntervalMs'' 5000;
          ruleId = text_setting ini ''SuspiciousTarget/EmbedRuleId'' (qs ''suspicious_target'')
      in \<lparr>sp_judgeIntervalMs = (if interval < 1000 then 1000 else interval),
          sp_speedLowThresholdMps = real_setting E ini ''SuspiciousTarget/SpeedLowThresholdMps'' 3,
          sp_speedHighThresholdMps = real_setting E ini ''SuspiciousTarget/SpeedHighThresholdMps'' 8,
          sp_protectAngleMaxDeg = real_setting E ini ''SuspiciousTarget/ProtectAngleMaxDeg'' 30,
          sp_speedCheckClearIntervalMin = int_setting E ini ''SuspiciousTarget/SpeedCheckClearIntervalMin'' 30,
          sp_publishDds = (int_setting E ini ''SuspiciousTarget/PublishDds'' 0 \<noteq> 0),
          sx_enabled = int_setting E ini ''SuspiciousTarget/Enabled'' 0,
          sx_embedInTarget = int_setting E ini ''SuspiciousTarget/EmbedInTarget'' 1,
          sx_ddsTopic = text_setting ini ''SuspiciousTarget/DdsTopic'' (qs ''NewTrackStructSuspicious''),
          sx_embedRuleId = (if trimmed (ce_qt E) ruleId = [] then qs ''suspicious_target'' else ruleId)\<rparr>)"

section \<open>The whole configuration\<close>

record config =
  cg_basic :: basic_config
  cg_radars :: "members list"
  cg_lists :: "string \<Rightarrow> qstring list"
  cg_logic :: AlarmLogicConfig
  cg_suspicious :: suspicious_settings
  cg_publishDds :: bool
  cg_snapshot :: snapshot_client
  cg_snapshotThread :: bool
  cg_destroy :: "destroy_subscriber option"
  cg_typeClient :: "type_client option"
  cg_sysEnabled :: bool
  cg_sysListen :: qstring
  cg_sysPort :: int

text \<open>Every load appends the captions to the tables of the user interface.\<close>

definition append_texts :: "(string \<Rightarrow> qstring list) \<Rightarrow> string \<Rightarrow> qstring list" where
  "append_texts old name = old name @ (case map_of ui_texts name of Some ts \<Rightarrow> ts | None \<Rightarrow> [])"

definition load_alarm_grpc :: "cfg_env \<Rightarrow> ini \<Rightarrow> config \<Rightarrow> config" where
  "load_alarm_grpc E ini c =
     (let grpcEnabled = (int_setting E ini ''GrpcAlarm/Enabled'' 1 \<noteq> 0);
          grpcHost = text_setting ini ''GrpcAlarm/Host'' (qs ''192.168.18.141'');
          grpcPort = int_setting E ini ''GrpcAlarm/Port'' 25051;
          grpcProducer = text_setting ini ''GrpcAlarm/ProducerId'' (qs ''AlarmSys-linux'')
      in c\<lparr>cg_snapshot := snapshot_configure (ce_toStd E grpcHost) grpcPort grpcEnabled (ce_toStd E grpcProducer) (cg_snapshot c)\<rparr>)"

text \<open>The thread that pushes snapshots is started once and never by a disabled client; stopping it is the destructor's.\<close>

definition startGrpcSnapshotTimer :: "config \<Rightarrow> config" where
  "startGrpcSnapshotTimer c =
     (if cg_snapshotThread c then c else if \<not> sc_enabled (cg_snapshot c) then c else c\<lparr>cg_snapshotThread := True\<rparr>)"

definition stopGrpcSnapshotTimer :: "config \<Rightarrow> config" where
  "stopGrpcSnapshotTimer c = (if \<not> cg_snapshotThread c then c else c\<lparr>cg_snapshotThread := False\<rparr>)"

definition load_destroy_grpc :: "cfg_env \<Rightarrow> ini \<Rightarrow> config \<Rightarrow> config" where
  "load_destroy_grpc E ini c =
     (let grpcHost = text_setting ini ''GrpcAlarm/Host'' (qs ''192.168.18.141'');
          enabled = (int_setting E ini ''GrpcDestroy/Enabled'' 1 \<noteq> 0);
          host = text_setting ini ''GrpcDestroy/Host'' grpcHost;
          port = int_setting E ini ''GrpcDestroy/Port'' 50061
      in c\<lparr>cg_destroy := map_option (destroy_configure (ce_toStd E host) port enabled) (cg_destroy c)\<rparr>)"

definition load_type_grpc :: "cfg_env \<Rightarrow> ini \<Rightarrow> config \<Rightarrow> config" where
  "load_type_grpc E ini c =
     (let enabled = (int_setting E ini ''GrpcTargetType/Enabled'' 1 \<noteq> 0);
          host = text_setting ini ''GrpcTargetType/Host'' (qs ''192.168.18.141'');
          port = int_setting E ini ''GrpcTargetType/Port'' 60054
      in c\<lparr>cg_typeClient := map_option (type_configure (ce_toStd E host) port enabled) (cg_typeClient c)\<rparr>)"

definition load_system_grpc :: "cfg_env \<Rightarrow> ini \<Rightarrow> config \<Rightarrow> config" where
  "load_system_grpc E ini c = c\<lparr>
     cg_sysEnabled := (int_setting E ini ''GrpcSystemAlarm/Enabled'' 1 \<noteq> 0),
     cg_sysListen := text_setting ini ''GrpcSystemAlarm/Listen'' (qs ''192.168.18.141''),
     cg_sysPort := int_setting E ini ''GrpcSystemAlarm/Port'' 25071\<rparr>"

definition load_tables :: "cfg_env \<Rightarrow> ini \<Rightarrow> members \<Rightarrow> config \<Rightarrow> config" where
  "load_tables E ini unset c =
     (let basic = load_basic E ini (cg_basic c) in c\<lparr>
        cg_basic := basic, cg_radars := load_radars E ini unset, cg_lists := append_texts (cg_lists c),
        cg_logic := load_logic E ini (bc_members basic) (cg_logic c), cg_suspicious := load_suspicious E ini,
        cg_publishDds := (int_setting E ini ''DDS/PublishAlarmEventDds'' 0 \<noteq> 0)\<rparr>)"

definition LoadConfig :: "cfg_env \<Rightarrow> ini \<Rightarrow> members \<Rightarrow> config \<Rightarrow> config" where
  "LoadConfig E ini unset c =
     load_system_grpc E ini (load_type_grpc E ini (load_destroy_grpc E ini
       (startGrpcSnapshotTimer (load_alarm_grpc E ini (load_tables E ini unset c)))))"

section \<open>Calls through the clients, and the parameter store\<close>

definition startAlarmDestroyGrpcSubscriber :: "config \<Rightarrow> config" where
  "startAlarmDestroyGrpcSubscriber c = c\<lparr>cg_destroy := map_option (destroy_start True) (cg_destroy c)\<rparr>"

definition stopAlarmDestroyGrpcSubscriber :: "config \<Rightarrow> config" where
  "stopAlarmDestroyGrpcSubscriber c = c\<lparr>cg_destroy := map_option destroy_stop (cg_destroy c)\<rparr>"

definition pushTargetTypeGrpcUpdate :: "qt_text \<Rightarrow> type_network \<Rightarrow> int \<Rightarrow> qstring \<Rightarrow> config \<Rightarrow> bool \<times> config" where
  "pushTargetTypeGrpcUpdate T N targetId targetType c =
     (case cg_typeClient c of
        None \<Rightarrow> (False, c)
      | Some k \<Rightarrow> if \<not> tc_enabled k then (False, c)
                  else let (r, k') = updateTargetType T N targetId targetType k in (r, c\<lparr>cg_typeClient := Some k'\<rparr>))"

text \<open>The parameter store; \<open>std::stoi\<close> and \<open>std::stof\<close> throw (\<open>None\<close>) on a text that is no number.\<close>

definition setConfig :: "string \<Rightarrow> string \<Rightarrow> (string, string) qmap \<Rightarrow> (string, string) qmap" where
  "setConfig name v m = qm_insert name v m"

definition valS :: "(string, string) qmap \<Rightarrow> string \<Rightarrow> string" where
  "valS m name = (case map_of m name of Some v \<Rightarrow> v | None \<Rightarrow> [])"

definition valI :: "(string \<Rightarrow> int option) \<Rightarrow> (string, string) qmap \<Rightarrow> string \<Rightarrow> int option" where
  "valI stoi m name = (if valS m name \<noteq> [] then stoi (valS m name) else Some 0)"

definition valF :: "(string \<Rightarrow> real option) \<Rightarrow> (string, string) qmap \<Rightarrow> string \<Rightarrow> real option" where
  "valF stof m name = (if valS m name \<noteq> [] then stof (valS m name) else Some 0)"

section \<open>Facts on the loaders\<close>

text \<open>A member holds what the last row that writes it says.\<close>

lemma load_members_append: "load_members E ini (r1 @ r2) m = load_members E ini r2 (load_members E ini r1 m)"
  by (simp add: load_members_def)

lemma load_members_lookup:
  "load_members E ini rows m n =
     (case find (\<lambda>(member, key, conv, guarded). member = n \<and> \<not> (guarded \<and> ini key = VInvalid)) (rev rows) of
        None \<Rightarrow> m n | Some (member, key, conv, guarded) \<Rightarrow> converted E conv (ini key))"
proof (induction rows rule: rev_induct)
  case (snoc r rows)
  have "load_members E ini (rows @ [r]) m = load_member E ini r (load_members E ini rows m)"
    by (simp add: load_members_def)
  then show ?case using snoc by (cases r) (auto simp: load_member_def)
qed (simp add: load_members_def)

lemma load_members_again: "load_members E ini rows (load_members E ini rows m) = load_members E ini rows m"
  by (rule ext) (auto simp: load_members_lookup split: option.splits)

lemma load_basic_again: "load_basic E ini (load_basic E ini b) = load_basic E ini b"
  using load_members_again[of E ini "first_members @ later_members"]
  by (simp add: load_basic_def load_members_append)

lemma insert_ints_nonempty: "insert_ints E ps \<noteq> [] \<longleftrightarrow> (\<exists>p \<in> set ps. ce_toInt E (trimmed (ce_qt E) p) \<noteq> None)"
proof -
  have "fold (\<lambda>p out. case ce_toInt E (trimmed (ce_qt E) p) of Some v \<Rightarrow> List.insert v out | None \<Rightarrow> out) ps out \<noteq> [] \<longleftrightarrow>
     out \<noteq> [] \<or> (\<exists>p \<in> set ps. ce_toInt E (trimmed (ce_qt E) p) \<noteq> None)" for out
    by (induction ps arbitrary: out) (auto split: option.splits simp: List.insert_def)
  then show ?thesis by (simp add: insert_ints_def)
qed

lemma load_sets_again:
  "load_bird_skip E ini (load_bird_skip E ini old) = load_bird_skip E ini old"
  "load_area_groups E ini (load_area_groups E ini old) = load_area_groups E ini old"
  by (simp_all add: load_bird_skip_def load_area_groups_def Let_def)

lemma load_logic_again: "load_logic E ini m (load_logic E ini m al) = load_logic E ini m al"
  by (simp add: load_logic_def load_sets_again)

lemma destroy_configure_again: "destroy_configure h p e (destroy_configure h p e u) = destroy_configure h p e u"
  by (simp add: destroy_configure_def destroy_start_def destroy_stop_def Let_def)

lemma load_option_again: "(\<And>x. f (f x) = f x) \<Longrightarrow> map_option f (map_option f u) = map_option f u"
  by (cases u) simp_all

text \<open>The fields after a load.\<close>

abbreviation snapshot_enabled :: "cfg_env \<Rightarrow> ini \<Rightarrow> bool" where
  "snapshot_enabled E ini \<equiv> int_setting E ini ''GrpcAlarm/Enabled'' 1 \<noteq> 0"

abbreviation snapshot_host :: "ini \<Rightarrow> qstring" where
  "snapshot_host ini \<equiv> text_setting ini ''GrpcAlarm/Host'' (qs ''192.168.18.141'')"

lemma startGrpcSnapshotTimer_eq:
  "startGrpcSnapshotTimer c = c\<lparr>cg_snapshotThread := cg_snapshotThread c \<or> sc_enabled (cg_snapshot c)\<rparr>"
  by (simp add: startGrpcSnapshotTimer_def)

lemma LoadConfig_tables:
  "cg_basic (LoadConfig E ini unset c) = load_basic E ini (cg_basic c)"
  "cg_radars (LoadConfig E ini unset c) = load_radars E ini unset"
  "cg_lists (LoadConfig E ini unset c) = append_texts (cg_lists c)"
  "cg_logic (LoadConfig E ini unset c) = load_logic E ini (bc_members (load_basic E ini (cg_basic c))) (cg_logic c)"
  "cg_suspicious (LoadConfig E ini unset c) = load_suspicious E ini"
  "cg_publishDds (LoadConfig E ini unset c) = (int_setting E ini ''DDS/PublishAlarmEventDds'' 0 \<noteq> 0)"
  by (simp_all add: LoadConfig_def load_system_grpc_def load_type_grpc_def load_destroy_grpc_def startGrpcSnapshotTimer_eq
      load_alarm_grpc_def load_tables_def Let_def)

lemma LoadConfig_clients:
  "cg_snapshot (LoadConfig E ini unset c) = snapshot_configure (ce_toStd E (snapshot_host ini)) (int_setting E ini ''GrpcAlarm/Port'' 25051)
     (snapshot_enabled E ini) (ce_toStd E (text_setting ini ''GrpcAlarm/ProducerId'' (qs ''AlarmSys-linux''))) (cg_snapshot c)"
  "cg_snapshotThread (LoadConfig E ini unset c) = (cg_snapshotThread c \<or> snapshot_enabled E ini)"
  "cg_destroy (LoadConfig E ini unset c) = map_option (destroy_configure (ce_toStd E (text_setting ini ''GrpcDestroy/Host'' (snapshot_host ini)))
     (int_setting E ini ''GrpcDestroy/Port'' 50061) (int_setting E ini ''GrpcDestroy/Enabled'' 1 \<noteq> 0)) (cg_destroy c)"
  "cg_typeClient (LoadConfig E ini unset c) = map_option (type_configure
     (ce_toStd E (text_setting ini ''GrpcTargetType/Host'' (qs ''192.168.18.141''))) (int_setting E ini ''GrpcTargetType/Port'' 60054)
     (int_setting E ini ''GrpcTargetType/Enabled'' 1 \<noteq> 0)) (cg_typeClient c)"
  "cg_sysEnabled (LoadConfig E ini unset c) = (int_setting E ini ''GrpcSystemAlarm/Enabled'' 1 \<noteq> 0)"
  "cg_sysListen (LoadConfig E ini unset c) = text_setting ini ''GrpcSystemAlarm/Listen'' (qs ''192.168.18.141'')"
  "cg_sysPort (LoadConfig E ini unset c) = int_setting E ini ''GrpcSystemAlarm/Port'' 25071"
  by (simp_all add: LoadConfig_def load_system_grpc_def load_type_grpc_def load_destroy_grpc_def startGrpcSnapshotTimer_eq
      load_alarm_grpc_def load_tables_def Let_def snapshot_configure_def)

lemmas LoadConfig_fields = LoadConfig_tables LoadConfig_clients

text \<open>
  \<open>LoadConfig\<close> runs twice, in the constructor and in \<open>main\<close>.  Loading the same settings again changes nothing but the captions of
  the user interface: each load appends all of them once more.
\<close>
theorem load_settles:
  "LoadConfig E ini unset (LoadConfig E ini unset c) =
     (LoadConfig E ini unset c)\<lparr>cg_lists := append_texts (append_texts (cg_lists c))\<rparr>"
proof -
  have "map_option (destroy_configure h p e) (map_option (destroy_configure h p e) u) = map_option (destroy_configure h p e) u"
    for h p e u by (rule load_option_again) (rule destroy_configure_again)
  moreover have "map_option (type_configure h p e) (map_option (type_configure h p e) u) = map_option (type_configure h p e) u"
    for h p e u by (rule load_option_again) (simp add: type_configure_def)
  moreover have "snapshot_configure h p e d (snapshot_configure h p e d u) = snapshot_configure h p e d u" for h p e d u
    by (simp add: snapshot_configure_def)
  ultimately show ?thesis
    by (intro config.equality) (simp_all add: LoadConfig_fields load_basic_again load_logic_again)
qed

section \<open>What every load establishes\<close>

definition routes_ok :: "(qstring, qstring) umap \<Rightarrow> bool" where
  "routes_ok m \<longleftrightarrow> um_ok m \<and> list_all (\<lambda>(d, b). d \<noteq> [] \<and> b \<in> set kValidBuckets) m"

definition codes_ok :: "(qstring, int) umap \<Rightarrow> bool" where
  "codes_ok m \<longleftrightarrow> um_ok m \<and> list_all (\<lambda>(d, code). d \<noteq> [] \<and> code \<noteq> 0) m"

definition slots_ok :: "(int \<times> qstring) list \<Rightarrow> bool" where
  "slots_ok m \<longleftrightarrow> list_all (\<lambda>(slot, d). 0 \<le> slot \<and> slot < 8 \<and> d \<noteq> []) m"

lemma list_all_um_insert:
  "list_all (\<lambda>(k, v). P k v) m \<Longrightarrow> P k v \<Longrightarrow> list_all (\<lambda>(k, v). P k v) (um_insert k v m)"
  unfolding um_insert_def by (induction m) auto

lemma fold_keeps: "(\<And>x m. P m \<Longrightarrow> P (f x m)) \<Longrightarrow> P m \<Longrightarrow> P (fold f xs m)"
  by (induction xs arbitrary: m) auto

lemma route_step_ok: "routes_ok m \<Longrightarrow> routes_ok (route_step T p m)"
  unfolding routes_ok_def route_step_def Let_def
  by (auto intro!: list_all_um_insert[where P = "\<lambda>d b. d \<noteq> [] \<and> b \<in> set kValidBuckets"] um_ok_insert)

lemma code_step_ok: "codes_ok m \<Longrightarrow> codes_ok (code_step E p m)"
  unfolding codes_ok_def code_step_def Let_def
  by (auto intro!: list_all_um_insert[where P = "\<lambda>d code. d \<noteq> [] \<and> code \<noteq> 0"] um_ok_insert split: option.splits)

lemma slot_step_ok: "slots_ok m \<Longrightarrow> slots_ok (slot_step E p m)"
  unfolding slots_ok_def slot_step_def Let_def by (auto split: option.splits)

lemma load_routes_ok: "routes_ok (load_routes E ini) \<and> load_routes E ini \<noteq> []"
proof -
  have "routes_ok (parse_routes (ce_qt E) csv)" for csv
    unfolding parse_routes_def by (rule fold_keeps) (auto simp: route_step_ok, simp add: routes_ok_def um_ok_def)
  moreover have "routes_ok default_routes" "default_routes \<noteq> []"
    by (simp_all add: routes_ok_def default_routes_def um_ok_def kValidBuckets_def)
  ultimately show ?thesis by (simp add: load_routes_def Let_def)
qed

lemma load_codes_ok: "codes_ok (load_codes E ini) \<and> load_codes E ini \<noteq> []"
proof -
  have "codes_ok (fold (code_step E) ps [])" for ps
    by (rule fold_keeps) (auto simp: code_step_ok, simp add: codes_ok_def um_ok_def)
  moreover have "codes_ok default_codes" "default_codes \<noteq> []"
    by (simp_all add: codes_ok_def default_codes_def um_ok_def)
  ultimately show ?thesis by (simp add: load_codes_def Let_def)
qed

lemma load_slots_ok: "slots_ok (load_slots E ini) \<and> load_slots E ini \<noteq> []"
proof -
  have "slots_ok (fold (slot_step E) ps [])" for ps
    by (rule fold_keeps) (auto simp: slot_step_ok, simp add: slots_ok_def)
  moreover have "slots_ok default_slots" "default_slots \<noteq> []"
    by (simp_all add: slots_ok_def default_slots_def)
  ultimately show ?thesis by (simp add: load_slots_def Let_def)
qed

text \<open>
  What Qt documents of \<open>trimmed\<close>: it takes white space (a set \<open>ws\<close> without the printable ASCII characters) off both ends and nothing else.
  \<open>toLower\<close> leaves lower-case letters alone.
\<close>

definition trim_law :: "(int \<Rightarrow> bool) \<Rightarrow> qt_text \<Rightarrow> bool" where
  "trim_law ws T \<longleftrightarrow> text_laws T \<and> (\<forall>c. 33 \<le> c \<and> c \<le> 126 \<longrightarrow> \<not> ws c) \<and>
     (\<forall>s. \<exists>a b. s = a @ trimmed T s @ b \<and> list_all ws a \<and> list_all ws b) \<and>
     (\<forall>s. list_all (\<lambda>c. 97 \<le> c \<and> c \<le> 122) s \<longrightarrow> toLower T s = s)"

lemma trim_lawD:
  assumes "trim_law ws T"
  shows "text_laws T" "\<And>c. 33 \<le> c \<Longrightarrow> c \<le> 126 \<Longrightarrow> \<not> ws c"
    "\<And>s. \<exists>a b. s = a @ trimmed T s @ b \<and> list_all ws a \<and> list_all ws b"
    "\<And>s. list_all (\<lambda>c. 97 \<le> c \<and> c \<le> 122) s \<Longrightarrow> toLower T s = s"
  using assms unfolding trim_law_def by blast+

lemma trim_keeps:
  assumes "trim_law ws T" "c \<in> set s" "\<not> ws c"
  shows "c \<in> set (trimmed T s)"
proof -
  obtain a b where s: "s = a @ trimmed T s @ b" and ab: "list_all ws a" "list_all ws b"
    using trim_lawD(3)[OF assms(1)] by metis
  have "c \<in> set (a @ trimmed T s @ b)" using assms(2) s by simp
  moreover have "c \<notin> set a" "c \<notin> set b" using ab assms(3) by (auto simp: list_all_iff)
  ultimately show ?thesis by simp
qed

lemma trim_fixed:
  assumes "trim_law ws T" "s = [] \<or> \<not> ws (hd s) \<and> \<not> ws (last s)"
  shows "trimmed T s = s"
proof (cases "s = []")
  case True
  then show ?thesis using text_lawsD(5)[OF trim_lawD(1)[OF assms(1)]] by simp
next
  case False
  obtain a b where s: "s = a @ trimmed T s @ b" and ab: "list_all ws a" "list_all ws b"
    using trim_lawD(3)[OF assms(1)] by metis
  have "a = []"
  proof (cases a)
    case (Cons x xs)
    then have "hd s = x" using s by (metis append_Cons list.sel(1))
    then show ?thesis using ab(1) assms(2) False by (simp add: Cons)
  qed simp
  moreover have "b = []"
  proof (cases b rule: rev_cases)
    case (snoc xs x)
    then have "last s = x" using s by (metis append_assoc last_snoc)
    then show ?thesis using ab(2) assms(2) False by (simp add: snoc)
  qed simp
  ultimately show ?thesis using s by simp
qed

lemma ascii_trim_law: "trim_law ascii_space ascii_text"
proof -
  have "\<exists>a b. s = a @ trimmed ascii_text s @ b \<and> list_all ascii_space a \<and> list_all ascii_space b" for s
  proof (intro exI conjI)
    let ?t = "dropWhile ascii_space s"
    have "rev ?t = takeWhile ascii_space (rev ?t) @ dropWhile ascii_space (rev ?t)" by simp
    then have "?t = rev (dropWhile ascii_space (rev ?t)) @ rev (takeWhile ascii_space (rev ?t))"
      by (metis rev_append rev_rev_ident)
    then show "s = takeWhile ascii_space s @ trimmed ascii_text s @ rev (takeWhile ascii_space (rev ?t))"
      by (metis ascii_text_def qt_text.select_convs(1) takeWhile_dropWhile_id)
    show "list_all ascii_space (takeWhile ascii_space s)" "list_all ascii_space (rev (takeWhile ascii_space (rev ?t)))"
      by (auto simp: list_all_iff dest: set_takeWhileD)
  qed
  moreover have "list_all (\<lambda>c. 97 \<le> c \<and> c \<le> 122) s \<Longrightarrow> toLower ascii_text s = s" for s
    by (induction s) (auto simp: ascii_text_def ascii_lower_def)
  ultimately show ?thesis by (auto simp: trim_law_def ascii_text_laws ascii_space_def)
qed

text \<open>The conversions of the settings together.\<close>

definition cfg_laws :: "(int \<Rightarrow> bool) \<Rightarrow> cfg_env \<Rightarrow> bool" where
  "cfg_laws ws E \<longleftrightarrow> trim_law ws (ce_qt E) \<and> toInt_laws (ce_toInt E)"

lemma cfg_toInt:
  assumes "cfg_laws ws E" "- (2 ^ 31) \<le> n" "n < 2 ^ 31"
  shows "ce_toInt E (qs (dec_int n)) = Some n"
  using assms by (simp add: cfg_laws_def toInt_laws_def)

lemma cfg_trim_qs:
  assumes "cfg_laws ws E" "list_all (\<lambda>c. 33 \<le> c \<and> c \<le> 126) (qs s)"
  shows "trimmed (ce_qt E) (qs s) = qs s"
proof -
  have t: "trim_law ws (ce_qt E)" using assms(1) by (simp add: cfg_laws_def)
  have "\<not> ws (hd (qs s)) \<and> \<not> ws (last (qs s))" if "qs s \<noteq> []"
    using trim_lawD(2)[OF t] assms(2) that by (auto simp: list_all_iff simp del: qs_Nil_iff)
  then show ?thesis using trim_fixed[OF t, of "qs s"] by blast
qed

lemma csv_4001: "\<exists>ps. csv_parts (qs ''4001,4002,4003,4004,4008,4011'') = qs ''4001'' # ps"
  by (simp add: csv_parts_def qs_def)

lemma csv_12: "\<exists>ps. csv_parts (qs ''1,2'') = qs ''1'' # ps"
  by (simp add: csv_parts_def qs_def)

lemma default_sets_nonempty:
  assumes "cfg_laws ws E"
  shows "parseCsvIntSet E (qs ''4001,4002,4003,4004,4008,4011'') \<noteq> []" "parseCsvIntSet E (qs ''1,2'') \<noteq> []"
proof -
  have d: "dec_int 4001 = ''4001''" "dec_int 1 = ''1''" 
    by (simp_all add: dec_int_def dec.simps) (code_simp, code_simp)
  have p: "list_all (\<lambda>c. 33 \<le> c \<and> c \<le> 126) (qs ''4001'')" "list_all (\<lambda>c. 33 \<le> c \<and> c \<le> 126) (qs ''1'')"
    by (simp_all add: qs_def)
  have "ce_toInt E (trimmed (ce_qt E) (qs ''4001'')) = Some 4001" "ce_toInt E (trimmed (ce_qt E) (qs ''1'')) = Some 1"
    using cfg_toInt[OF assms, of 4001] cfg_toInt[OF assms, of 1] cfg_trim_qs[OF assms p(1)] cfg_trim_qs[OF assms p(2)] by (simp_all add: d)
  then show "parseCsvIntSet E (qs ''4001,4002,4003,4004,4008,4011'') \<noteq> []" "parseCsvIntSet E (qs ''1,2'') \<noteq> []"
    using csv_4001 csv_12 by (metis insert_ints_nonempty list.set_intros(1) option.distinct(1) parseCsvIntSet_def)+
qed

text \<open>
  C18. Whatever the file says, a loaded configuration is usable: both transports are dds or grpc, the routes, radar codes and slots are
  non-empty and valid with one entry per source, the suspicious targets are judged at most once a second under a rule id that is not
  blank, and the bird ids and area groups are non-empty.  So \<open>areaGroupIdAllow\<close> never has the value that its declaration
  documents as \<open>no restriction\<close>.
\<close>
theorem loaded_config_valid:
  assumes "cfg_laws ws E" and "c' = LoadConfig E ini unset c"
  shows "bc_fusionTransport (cg_basic c') \<in> {qs ''dds'', qs ''grpc''} \<and> bc_radarTransport (cg_basic c') \<in> {qs ''dds'', qs ''grpc''} \<and>
    routes_ok (bc_routes (cg_basic c')) \<and> bc_routes (cg_basic c') \<noteq> [] \<and>
    codes_ok (bc_codes (cg_basic c')) \<and> bc_codes (cg_basic c') \<noteq> [] \<and>
    slots_ok (bc_slots (cg_basic c')) \<and> bc_slots (cg_basic c') \<noteq> [] \<and>
    1000 \<le> sp_judgeIntervalMs (cg_suspicious c') \<and> trimmed (ce_qt E) (sx_embedRuleId (cg_suspicious c')) \<noteq> [] \<and>
    birdSkipTrackIds (cg_logic c') \<noteq> [] \<and> areaGroupIdAllow (cg_logic c') \<noteq> []"
proof -
  have "list_all (\<lambda>c. 33 \<le> c \<and> c \<le> 126) (qs ''suspicious_target'')" by (simp add: qs_def)
  then have "trimmed (ce_qt E) (qs ''suspicious_target'') = qs ''suspicious_target''" using cfg_trim_qs[OF assms(1)] by blast
  then have "1000 \<le> sp_judgeIntervalMs (load_suspicious E ini) \<and> trimmed (ce_qt E) (sx_embedRuleId (load_suspicious E ini)) \<noteq> []"
    by (simp add: load_suspicious_def Let_def)
  moreover have "birdSkipTrackIds (load_logic E ini m al) \<noteq> [] \<and> areaGroupIdAllow (load_logic E ini m al) \<noteq> []" for m al
    using default_sets_nonempty[OF assms(1)] by (simp add: load_logic_def load_bird_skip_def load_area_groups_def Let_def)
  moreover have "load_transport E ini k \<in> {qs ''dds'', qs ''grpc''}" for k by (simp add: load_transport_def Let_def)
  ultimately show ?thesis using load_routes_ok[of E ini] load_codes_ok[of E ini] load_slots_ok[of E ini]
    by (simp add: assms(2) LoadConfig_tables load_basic_def del: qs_inject)
qed

section \<open>Lists in the file\<close>

text \<open>
  A value with an unquoted comma reaches the program as a list, whose text is empty.  The routes, radar codes and slots of such a
  setting are dropped for the built-in ones, and the texts of self-reported birds for none at all, so no bird is skipped
  by its sensors any more.
\<close>
theorem comma_values_lost:
  assumes "text_laws (ce_qt E)" and "c' = LoadConfig E ini unset c"
    and "ini ''Basic/FusionTrackGrpcSourceRoutes'' = VList (r1 # r2 # rs)" and "ini ''Basic/RadarTrackGrpcSources'' = VList (s1 # s2 # ss)"
    and "ini ''Basic/RadarFusionTrackIdSlots'' = VList (t1 # t2 # ts)"
    and "ini ''AlarmLogic/BirdSelfReportSubstrings'' = VList (b1 # b2 # bs)"
    and "re_logic R = cg_logic c'" and "splitComma (re_qarea R) [] = []"
  shows "bc_routes (cg_basic c') = default_routes \<and> bc_codes (cg_basic c') = default_codes \<and> bc_slots (cg_basic c') = default_slots \<and>
    birdSelfReportSubstrings (cg_logic c') = [] \<and> \<not> self_reported R tr"
proof -
  have "trimmed (ce_qt E) [] = []" using text_lawsD(5)[OF assms(1)] .
  moreover have "csv_parts [] = []" by (simp add: csv_parts_def)
  ultimately have "load_routes E ini = default_routes" "load_codes E ini = default_codes" "load_slots E ini = default_slots"
    using assms(3-5) by (simp_all add: load_routes_def load_codes_def load_slots_def parse_routes_def text_setting_def var_toString_def)
  moreover have "birdSelfReportSubstrings (load_logic E ini m al) = []" for m al
    using assms(6) by (simp add: load_logic_def text_setting_def var_toString_def)
  ultimately show ?thesis using assms(7,8) by (simp add: assms(2) LoadConfig_tables load_basic_def self_reported_def)
qed

lemma quoted_ids_empty:
  assumes "cfg_laws ws E" "44 \<in> set s"
  shows "parseIntSetFromSettings E (VText s) = []"
proof -
  have t: "trim_law ws (ce_qt E)" "toInt_laws (ce_toInt E)" using assms(1) by (simp_all add: cfg_laws_def)
  have "44 \<in> set (trimmed (ce_qt E) s)" using trim_keeps[OF t(1) assms(2)] trim_lawD(2)[OF t(1), of 44] by simp
  then have "ce_toInt E (trimmed (ce_qt E) s) = None" using t(2) by (simp add: toInt_laws_def)
  then show ?thesis by (simp add: parseIntSetFromSettings_def var_toStringList_def insert_ints_def)
qed

text \<open>
  A list of ids that is quoted in the file is one text for the reader, and its branch for comma-separated texts is never
  reached: the quoted bird ids and area groups are replaced by the built-in ones, and with quoted no-alarm groups no target is in a
  no-alarm zone.
\<close>
theorem quoted_ids_lost:
  assumes "cfg_laws ws E" and "c' = LoadConfig E ini unset c"
    and "ini ''AlarmLogic/BirdSkipTrackIds'' = VText s" and "ini ''AlarmLogic/AreaGroupIdAllowList'' = VText s'"
    and "ini ''AlarmLogic/NoAlarmGroupIdList'' = VText s''" and "44 \<in> set s \<inter> set s' \<inter> set s''" and "re_logic R = cg_logic c'"
  shows "birdSkipTrackIds (cg_logic c') = parseCsvIntSet E (qs ''4001,4002,4003,4004,4008,4011'') \<and>
    areaGroupIdAllow (cg_logic c') = parseCsvIntSet E (qs ''1,2'') \<and> noAlarmGroupIds (cg_logic c') = [] \<and> \<not> in_no_alarm_zone R tr"
proof -
  have "parseIntSetFromSettings E (VText s) = []" "parseIntSetFromSettings E (VText s') = []" "parseIntSetFromSettings E (VText s'') = []"
    using quoted_ids_empty[OF assms(1)] assms(6) by auto
  then have "birdSkipTrackIds (load_logic E ini m al) = parseCsvIntSet E (qs ''4001,4002,4003,4004,4008,4011'')"
    "areaGroupIdAllow (load_logic E ini m al) = parseCsvIntSet E (qs ''1,2'')" "noAlarmGroupIds (load_logic E ini m al) = []" for m al
    using assms(3-5) by (simp_all add: load_logic_def load_bird_skip_def load_area_groups_def load_no_alarm_groups_def Let_def)
  then show ?thesis using assms(7) by (simp add: assms(2) LoadConfig_tables in_no_alarm_zone_def)
qed

section \<open>Printing and reading routes\<close>

definition route_text :: "qstring \<times> qstring \<Rightarrow> qstring" where
  "route_text r = fst r @ 58 # snd r"

definition print_routes :: "(qstring, qstring) umap \<Rightarrow> qstring" where
  "print_routes m = join_char 44 (map route_text m)"

definition printable_route :: "(int \<Rightarrow> bool) \<Rightarrow> qstring \<times> qstring \<Rightarrow> bool" where
  "printable_route ws r \<longleftrightarrow> fst r \<noteq> [] \<and> 44 \<notin> set (fst r) \<and> 58 \<notin> set (fst r) \<and>
     \<not> ws (hd (fst r)) \<and> \<not> ws (last (fst r)) \<and> snd r \<in> set kValidBuckets"

lemma bucket_facts:
  assumes "b \<in> set kValidBuckets"
  shows "b \<noteq> []" "44 \<notin> set b" "58 \<notin> set b" "list_all (\<lambda>c. 97 \<le> c \<and> c \<le> 122) b" "b \<noteq> qs ''auto_bird''" "b \<noteq> qs ''ku_bird''"
  using assms by (auto simp: kValidBuckets_def, simp_all add: qs_def)

lemma um_insert_new: "k \<notin> fst ` set m \<Longrightarrow> um_insert k v m = m @ [(k, v)]"
  unfolding um_insert_def by (induction m) auto

lemma route_step_text:
  assumes "trim_law ws T" "printable_route ws r"
  shows "route_step T (route_text r) m = um_insert (fst r) (snd r) m"
proof -
  obtain d b where r: "r = (d, b)" by fastforce
  have d: "d \<noteq> []" "58 \<notin> set d" "\<not> ws (hd d)" "\<not> ws (last d)" and b: "b \<in> set kValidBuckets"
    using assms(2) by (simp_all add: printable_route_def r)
  note bf = bucket_facts[OF b]
  have lower: "\<not> ws c" if "c \<in> set b" for c
    using trim_lawD(2)[OF assms(1), of c] bf(4) that by (force simp: list_all_iff)
  then have wb: "\<not> ws (hd b)" "\<not> ws (last b)" using bf(1) by simp_all
  have "trimmed T (d @ 58 # b) = d @ 58 # b"
    using trim_fixed[OF assms(1), of "d @ 58 # b"] d(1,3) bf(1) wb(2) by simp
  moreover have "split_char 58 (d @ 58 # b) = [d, b]"
    using split_join[of "[d, b]" 58] d(2) bf(3) by auto
  moreover have "trimmed T d = d" "trimmed T b = b"
    using trim_fixed[OF assms(1)] d(3,4) wb by blast+
  ultimately show ?thesis using d(1) b bf(5,6) trim_lawD(4)[OF assms(1) bf(4)]
    by (simp add: r route_step_def route_text_def Let_def)
qed

lemma fold_routes:
  assumes "trim_law ws T" "list_all (printable_route ws) m" "distinct (map fst (acc @ m))"
  shows "fold (route_step T) (map route_text m) acc = acc @ m"
  using assms(2,3)
proof (induction m arbitrary: acc)
  case (Cons r m)
  have "route_step T (route_text r) acc = acc @ [r]"
    using Cons.prems route_step_text[OF assms(1), of r acc] um_insert_new[of "fst r" acc "snd r"] by (auto simp: image_iff)
  then show ?case using Cons.IH[of "acc @ [r]"] Cons.prems by simp
qed simp

lemma print_routes_ends:
  assumes "trim_law ws T" "list_all (printable_route ws) m" "m \<noteq> []"
  shows "trimmed T (print_routes m) = print_routes m"
proof -
  have e: "\<not> ws (hd (route_text r)) \<and> \<not> ws (last (route_text r)) \<and> route_text r \<noteq> []" if "r \<in> set m" for r
  proof -
    have r: "fst r \<noteq> []" "\<not> ws (hd (fst r))" "snd r \<in> set kValidBuckets"
      using assms(2) that by (auto simp: list_all_iff printable_route_def)
    have "97 \<le> last (snd r) \<and> last (snd r) \<le> 122" using bucket_facts(1,4)[OF r(3)] by (auto simp: list_all_iff)
    then show ?thesis using r bucket_facts(1)[OF r(3)] trim_lawD(2)[OF assms(1), of "last (snd r)"] by (simp add: route_text_def)
  qed
  have "\<not> ws (hd (join_char 44 ps)) \<and> \<not> ws (last (join_char 44 ps)) \<and> join_char 44 ps \<noteq> []"
    if "ps \<noteq> []" "\<forall>p \<in> set ps. \<not> ws (hd p) \<and> \<not> ws (last p) \<and> p \<noteq> []" for ps
    using that by (induction "44 :: int" ps rule: join_char.induct) auto
  from this[of "map route_text m"] show ?thesis
    using e assms(3) trim_fixed[OF assms(1)] by (simp add: print_routes_def)
qed

text \<open>
  C33. Routes survive printing and reading: a quoted setting with the printed routes loads exactly these routes, whatever their number.
  The same routes without the quotes are replaced by the built-in ones as soon as there are two of them.
\<close>
theorem routes_roundtrip:
  assumes "trim_law ws (ce_qt E)" and "m \<noteq> []" and "distinct (map fst m)" and "list_all (printable_route ws) m"
  shows "(ini ''Basic/FusionTrackGrpcSourceRoutes'' = VText (print_routes m) \<longrightarrow> bc_routes (cg_basic (LoadConfig E ini unset c)) = m) \<and>
    (ini ''Basic/FusionTrackGrpcSourceRoutes'' = VList (map route_text m) \<and> 2 \<le> length m \<longrightarrow>
       bc_routes (cg_basic (LoadConfig E ini unset c)) = default_routes)"
proof -
  have free: "44 \<notin> set p \<and> p \<noteq> []" if p: "p \<in> set (map route_text m)" for p
  proof -
    obtain r where r: "r \<in> set m" "p = route_text r" using p by auto
    then have "printable_route ws r" using assms(4) by (simp add: list_all_iff)
    then show ?thesis using bucket_facts(2)[of "snd r"] by (auto simp: r(2) printable_route_def route_text_def)
  qed
  have "split_char 44 (print_routes m) = map route_text m"
    unfolding print_routes_def using free assms(2) by (intro split_join) auto
  then have "csv_parts (print_routes m) = map route_text m" using free by (simp add: csv_parts_def filter_id_conv)
  then have "parse_routes (ce_qt E) (print_routes m) = m"
    using fold_routes[OF assms(1,4), of "[]"] assms(3) by (simp add: parse_routes_def)
  moreover have "var_toString (VList (map route_text m)) = []" if "2 \<le> length m"
    using that by (cases m) (auto simp: var_toString_def split: list.splits)
  moreover have "parse_routes (ce_qt E) (trimmed (ce_qt E) []) = []"
    using text_lawsD(5)[OF trim_lawD(1)[OF assms(1)]] by (simp add: parse_routes_def csv_parts_def)
  ultimately show ?thesis using print_routes_ends[OF assms(1,4,2)] assms(2)
    by (auto simp: LoadConfig_tables load_basic_def load_routes_def text_setting_def Let_def var_toString_def[of "VText _"])
qed

section \<open>Witnesses\<close>

definition sample_cfg :: cfg_env where
  "sample_cfg = \<lparr>ce_qt = ascii_text, ce_toInt = ascii_toInt,
     ce_toUInt = (\<lambda>s. case ascii_toInt s of Some n \<Rightarrow> if 0 \<le> n then Some n else None | None \<Rightarrow> None),
     ce_textInt = (\<lambda>s. case ascii_toInt s of Some n \<Rightarrow> n | None \<Rightarrow> 0), ce_textBool = (\<lambda>s. s \<noteq> [] \<and> s \<noteq> qs ''0''),
     ce_textReal = (\<lambda>s. case ascii_toInt s of Some n \<Rightarrow> of_int n | None \<Rightarrow> 0),
     ce_textFloat = (\<lambda>s. case ascii_toInt s of Some n \<Rightarrow> of_int n | None \<Rightarrow> 0),
     ce_realInt = floor, ce_toStd = map char_of\<rparr>"

lemma sample_cfg_laws: "cfg_laws ascii_space sample_cfg"
  by (simp add: cfg_laws_def sample_cfg_def ascii_trim_law ascii_toInt_laws)

definition new_config :: config where
  "new_config = \<lparr>cg_basic = \<lparr>bc_members = (\<lambda>_. CInt 0), bc_fusionTransport = qs ''dds'', bc_newTrackAddr = [],
       bc_radarTransport = qs ''dds'', bc_fusionStreamAddr = [], bc_routes = [], bc_codes = [], bc_slots = []\<rparr>,
     cg_radars = [], cg_lists = (\<lambda>_. []), cg_logic = default_logic,
     cg_suspicious = \<lparr>sp_judgeIntervalMs = 5000, sp_speedLowThresholdMps = 3, sp_speedHighThresholdMps = 8,
       sp_protectAngleMaxDeg = 30, sp_speedCheckClearIntervalMin = 30, sp_publishDds = False, sx_enabled = 0,
       sx_embedInTarget = 1, sx_ddsTopic = [], sx_embedRuleId = []\<rparr>,
     cg_publishDds = False,
     cg_snapshot = \<lparr>sc_enabled = False, sc_host = [], sc_port = 0, sc_producer = [], sc_channel = False, sc_stub = False, sc_pushed = []\<rparr>,
     cg_snapshotThread = False, cg_destroy = None, cg_typeClient = None, cg_sysEnabled = True, cg_sysListen = [], cg_sysPort = 0\<rparr>"

abbreviation loaded :: "ini \<Rightarrow> config" where
  "loaded ini \<equiv> LoadConfig sample_cfg ini (\<lambda>_. CInt 0) new_config"

theorem loaded_config_valid_witness:
  "1000 \<le> sp_judgeIntervalMs (cg_suspicious (loaded ((\<lambda>_. VInvalid)(''SuspiciousTarget/JudgeIntervalMs'' := VText (qs ''5''))))) \<and>
   areaGroupIdAllow (cg_logic (loaded (\<lambda>_. VList []))) \<noteq> []"
  using loaded_config_valid[OF sample_cfg_laws refl] by blast

definition list_ini :: ini where
  "list_ini = (\<lambda>_. VInvalid)(
     ''Basic/FusionTrackGrpcSourceRoutes'' := VList [qs ''lei_da:radar'', qs ''ais:ais''],
     ''Basic/RadarTrackGrpcSources'' := VList [qs ''lei_da:7'', qs ''yuan_yao:1''],
     ''Basic/RadarFusionTrackIdSlots'' := VList [qs ''0:lei_da'', qs ''1:yuan_yao''],
     ''AlarmLogic/BirdSelfReportSubstrings'' := VList [w_selfReport, w_radarSC])"

theorem comma_values_lost_witness:
  "bc_routes (cg_basic (loaded list_ini)) = default_routes \<and>
   \<not> self_reported (rules_env\<lparr>re_logic := cg_logic (loaded list_ini)\<rparr>) (zero_track\<lparr>fusion_sensors := 6\<rparr>)"
proof -
  have "text_laws (ce_qt sample_cfg)" by (simp add: sample_cfg_def ascii_text_laws)
  moreover have "splitComma (re_qarea (rules_env\<lparr>re_logic := cg_logic (loaded list_ini)\<rparr>)) [] = []"
    by (simp add: rules_env_def sample_qt_area_def)
  moreover have "list_ini ''Basic/FusionTrackGrpcSourceRoutes'' = VList [qs ''lei_da:radar'', qs ''ais:ais'']"
    "list_ini ''Basic/RadarTrackGrpcSources'' = VList [qs ''lei_da:7'', qs ''yuan_yao:1'']"
    "list_ini ''Basic/RadarFusionTrackIdSlots'' = VList [qs ''0:lei_da'', qs ''1:yuan_yao'']"
    "list_ini ''AlarmLogic/BirdSelfReportSubstrings'' = VList [w_selfReport, w_radarSC]" by (simp_all add: list_ini_def)
  ultimately show ?thesis
    using comma_values_lost[OF _ refl, of sample_cfg list_ini _ _ _ _ _ _ _ _ _ _ _ _
        "rules_env\<lparr>re_logic := cg_logic (loaded list_ini)\<rparr>" "\<lambda>_. CInt 0" new_config "zero_track\<lparr>fusion_sensors := 6\<rparr>"] by simp
qed

definition quoted_ini :: ini where
  "quoted_ini = (\<lambda>_. VInvalid)(''AlarmLogic/BirdSkipTrackIds'' := VText (qs ''5,6''),
     ''AlarmLogic/AreaGroupIdAllowList'' := VText (qs ''3,4''), ''AlarmLogic/NoAlarmGroupIdList'' := VText (qs ''1,2''))"

theorem quoted_ids_lost_witness:
  "noAlarmGroupIds (cg_logic (loaded quoted_ini)) = [] \<and> areaGroupIdAllow (cg_logic (loaded quoted_ini)) = [2, 1]"
proof -
  have "44 \<in> set (qs ''5,6'') \<inter> set (qs ''3,4'') \<inter> set (qs ''1,2'')" by (simp add: qs_def)
  moreover have "quoted_ini ''AlarmLogic/BirdSkipTrackIds'' = VText (qs ''5,6'')"
    "quoted_ini ''AlarmLogic/AreaGroupIdAllowList'' = VText (qs ''3,4'')"
    "quoted_ini ''AlarmLogic/NoAlarmGroupIdList'' = VText (qs ''1,2'')" by (simp_all add: quoted_ini_def)
  ultimately have "areaGroupIdAllow (cg_logic (loaded quoted_ini)) = parseCsvIntSet sample_cfg (qs ''1,2'')"
    "noAlarmGroupIds (cg_logic (loaded quoted_ini)) = []"
    using quoted_ids_lost[OF sample_cfg_laws refl, of quoted_ini "qs ''5,6''" "qs ''3,4''" "qs ''1,2''"
        "rules_env\<lparr>re_logic := cg_logic (loaded quoted_ini)\<rparr>" "\<lambda>_. CInt 0" new_config] by simp_all
  moreover have "parseCsvIntSet sample_cfg (qs ''1,2'') = [2, 1]" by code_simp
  ultimately show ?thesis by simp
qed

definition two_routes :: "(qstring, qstring) umap" where
  "two_routes = [(qs ''lei_da'', qs ''radar''), (qs ''ais'', qs ''ais'')]"

theorem routes_roundtrip_witness:
  "bc_routes (cg_basic (loaded ((\<lambda>_. VInvalid)(''Basic/FusionTrackGrpcSourceRoutes'' := VText (print_routes two_routes))))) = two_routes \<and>
   bc_routes (cg_basic (loaded ((\<lambda>_. VInvalid)(''Basic/FusionTrackGrpcSourceRoutes'' := VList (map route_text two_routes))))) = default_routes"
proof -
  have "trim_law ascii_space (ce_qt sample_cfg)" using sample_cfg_laws by (simp add: cfg_laws_def)
  moreover have "two_routes \<noteq> []" "distinct (map fst two_routes)" "2 \<le> length two_routes" by (simp_all add: two_routes_def)
  moreover have "list_all (printable_route ascii_space) two_routes"
    by (simp add: two_routes_def printable_route_def kValidBuckets_def) (simp add: qs_def ascii_space_def)
  ultimately show ?thesis using routes_roundtrip[of ascii_space sample_cfg two_routes _ "\<lambda>_. CInt 0" new_config] by simp
qed


end
