(* ===== verification/Track_Subscriber.thy ===== *)
theory Track_Subscriber
  imports Config_Load
begin

text \<open>
  The DDS subscriber of fused targets (\<open>fastdds_newtrack/NewTrackStructSubscriberApp.cxx\<close>), the default source of the track tables: its settings and
  construction, the handler of arriving samples, and the copies of the newest batches it hands out.  What one batch does to the tables is
  in \<open>Track_Ingest\<close>.  A sample is its targets and its groups; groups are only passed on.
\<close>

section \<open>Settings and construction\<close>

record sub_dds_config =
  sd_use_profile :: bool
  sd_xml_file :: qstring
  sd_participant_profile :: qstring
  sd_topic_fuse :: qstring
  sd_topic_bird :: qstring

definition loadNewTrackSubDdsConfig :: "cfg_env \<Rightarrow> ini \<Rightarrow> sub_dds_config" where
  "loadNewTrackSubDdsConfig E ini =
     \<lparr>sd_use_profile = int_setting E ini ''DDS/NewTrackSubUseProfile'' 1 \<noteq> 0,
      sd_xml_file = text_setting ini ''DDS/NewTrackSubXml'' (qs ''newtrack_sub_recv.xml''),
      sd_participant_profile = text_setting ini ''DDS/NewTrackSubParticipantProfile'' (qs ''participant_newtrack_sub''),
      sd_topic_fuse = text_setting ini ''DDS/NewTrackSubTopicFuse'' (qs ''TrackTopic_NewStruct_FuseTrack''),
      sd_topic_bird = text_setting ini ''DDS/NewTrackSubTopicBird'' (qs ''TrackTopic_NewStruct_FuseBirdTrack'')\<rparr>"

type_synonym 'g target_batch = "TargetObject list \<times> 'g list"

record 'g struct_subscriber =
  ss_topic_fuse :: qstring
  ss_topic_bird :: qstring
  ss_latest_fuse :: "'g target_batch option"
  ss_latest_bird :: "'g target_batch option"
  ss_stop :: bool
  ss_tabs :: tables
  ss_lastClear :: int

text \<open>The settings of the older subscriber (\<open>TrackClassSubscriberApp.cxx\<close>), and the topics it reads: three of them can be switched off.\<close>

definition loadTrackDdsConfig :: "ini \<Rightarrow> cfg_env \<Rightarrow> class_config" where
  "loadTrackDdsConfig ini E =
     \<lparr>tp_mode = int_setting E ini ''AlarmLogic/Mode'' 0,
      tp_fuse = text_setting ini ''DDS/TrackTopicFuse'' (qs ''TrackDataClassTopic_FuseTrack''),
      tp_fuseBird = text_setting ini ''DDS/TrackTopicFuseBirdRadar'' (qs ''TrackDataClassTopic_FuseBirdRadarTrack''),
      tp_radar1 = text_setting ini ''DDS/TrackTopicRadar1'' (qs ''TrackDataClassTopic_RadarTrack1''),
      tp_radar2 = text_setting ini ''DDS/TrackTopicRadar2'' (qs ''TrackDataClassTopic_RadarTrack2''),
      tp_ais = text_setting ini ''DDS/TrackTopicAIS'' (qs ''TrackDataClassTopic_AISTrack''),
      tp_bird = text_setting ini ''DDS/TrackTopicBirdRadar'' (qs ''TrackDataClassTopic_BirdRadarTrack''),
      tp_autoBird = text_setting ini ''DDS/TrackTopicAutoBirdRadar'' (qs ''TrackDataClassTopic_AutoBirdRadarTrack''),
      tp_ku = text_setting ini ''DDS/TrackTopicKuRadar'' (qs ''TrackDataClassTopic_KuRadarTrack'')\<rparr>"

definition optional_topic :: "cfg_env \<Rightarrow> ini \<Rightarrow> string \<Rightarrow> qstring \<Rightarrow> qstring list" where
  "optional_topic E ini enable topic = (if int_setting E ini enable 1 \<noteq> 0 \<and> trimmed (ce_qt E) topic \<noteq> [] then [topic] else [])"

definition class_topics :: "cfg_env \<Rightarrow> ini \<Rightarrow> qstring list" where
  "class_topics E ini =
     (let c = loadTrackDdsConfig ini E in
      [tp_fuse c, tp_radar1 c, tp_radar2 c, tp_ais c,
       text_setting ini ''DDS/TrackTopicUAVPose'' (qs ''TrackDataClassTopic_UAVPoseTrack''), tp_bird c] @
      optional_topic E ini ''DDS/TrackEnableAutoBirdRadar'' (tp_autoBird c) @
      optional_topic E ini ''DDS/TrackEnableFuseBirdRadar'' (tp_fuseBird c) @
      optional_topic E ini ''DDS/TrackEnableKuRadar'' (tp_ku c))"

lemma default_topics_distinct:
  "distinct (class_topics sample_cfg (\<lambda>_. VInvalid)) \<and> length (class_topics sample_cfg (\<lambda>_. VInvalid)) = 9"
  by code_simp

text \<open>
  The constructor: the entities the library could create, and the tables of the process.  It throws (\<open>None\<close>) when one of them is null; both topics
  are created before they are checked, and so are both readers.
\<close>

datatype sub_entity = SubParticipant | SubSubscriber | SubTopicFuse | SubTopicBird | SubReaderFuse | SubReaderBird

definition newStructSubscriber :: "cfg_env \<Rightarrow> ini \<Rightarrow> (sub_entity \<Rightarrow> bool) \<Rightarrow> tables \<Rightarrow> 'g struct_subscriber option" where
  "newStructSubscriber E ini created tb =
     (let c = loadNewTrackSubDdsConfig E ini in
      if \<not> created SubParticipant then None
      else if \<not> created SubSubscriber then None
      else if \<not> created SubTopicFuse \<or> \<not> created SubTopicBird then None
      else if \<not> created SubReaderFuse \<or> \<not> created SubReaderBird then None
      else Some \<lparr>ss_topic_fuse = sd_topic_fuse c, ss_topic_bird = sd_topic_bird c, ss_latest_fuse = None, ss_latest_bird = None,
        ss_stop = False, ss_tabs = tb, ss_lastClear = 0\<rparr>)"

definition stop_subscriber :: "'g struct_subscriber \<Rightarrow> 'g struct_subscriber" where
  "stop_subscriber S = S\<lparr>ss_stop := True\<rparr>"

section \<open>Arriving samples\<close>

text \<open>
  The loop over the queue of the reader: for every round the value of \<open>stop_\<close>, whether the sample is valid, and the sample.  The result has the
  newest copies and the last valid sample.
\<close>

fun take_samples :: "bool \<Rightarrow> bool \<Rightarrow> (bool \<times> bool \<times> 'g target_batch) list \<Rightarrow> 'g struct_subscriber \<Rightarrow> 'g target_batch option
    \<Rightarrow> 'g struct_subscriber \<times> 'g target_batch option" where
  "take_samples isFuse isBird [] S got = (S, got)"
| "take_samples isFuse isBird ((stopped, valid_data, sample) # rest) S got =
     (if stopped then (S, got)
      else if \<not> valid_data then take_samples isFuse isBird rest S got
      else take_samples isFuse isBird rest
        (if isFuse then S\<lparr>ss_latest_fuse := Some sample\<rparr> else if isBird then S\<lparr>ss_latest_bird := Some sample\<rparr> else S) (Some sample))"

definition struct_data_available :: "qt_text \<Rightarrow> (point \<Rightarrow> point \<Rightarrow> bool) \<Rightarrow> int \<Rightarrow> int \<Rightarrow> qstring \<Rightarrow> (bool \<times> bool \<times> 'g target_batch) list
    \<Rightarrow> 'g struct_subscriber \<Rightarrow> 'g struct_subscriber" where
  "struct_data_available T same mode nowMs topic_name queue S =
     (if ss_stop S then S
      else let isFuse = (topic_name = ss_topic_fuse S); isBird = (topic_name = ss_topic_bird S);
               (S1, got) = take_samples isFuse isBird queue S None in
        case got of
          None \<Rightarrow> S1
        | Some batch \<Rightarrow>
            (let S2 = (if isFuse then S1\<lparr>ss_tabs := dds_applyTargetOutputSet T same mode (nowMs div 1000) False (fst batch) (ss_tabs S1)\<rparr>
                       else if isBird then S1\<lparr>ss_tabs := dds_applyTargetOutputSet T same mode (nowMs div 1000) True (fst batch) (ss_tabs S1)\<rparr>
                       else S1)
             in if 2000 \<le> nowMs - ss_lastClear S2
                then S2\<lparr>ss_tabs := clearStaleTrackMaps (nowMs div 1000) (ss_tabs S2), ss_lastClear := nowMs\<rparr> else S2))"

section \<open>The newest batches\<close>

definition sub_latest_fuse :: "'g struct_subscriber \<Rightarrow> 'g target_batch option" where
  "sub_latest_fuse S = ss_latest_fuse S"

definition sub_latest_bird :: "'g struct_subscriber \<Rightarrow> 'g target_batch option" where
  "sub_latest_bird S = ss_latest_bird S"

definition sub_build_merged_latest :: "'g struct_subscriber \<Rightarrow> 'g target_batch option" where
  "sub_build_merged_latest S =
     (if ss_latest_fuse S = None \<and> ss_latest_bird S = None then None
      else let (t1, g1) = (case ss_latest_fuse S of Some b \<Rightarrow> b | None \<Rightarrow> ([], []));
               (t2, g2) = (case ss_latest_bird S of Some b \<Rightarrow> b | None \<Rightarrow> ([], []))
           in Some (t1 @ t2, g1 @ g2))"

section \<open>Facts\<close>

definition valid_samples :: "(bool \<times> bool \<times> 'g target_batch) list \<Rightarrow> 'g target_batch list" where
  "valid_samples queue = map (\<lambda>q. snd (snd q)) (filter (\<lambda>q. fst (snd q)) queue)"

lemma take_samples_last:
  assumes "list_all (\<lambda>q. \<not> fst q) queue"
  shows "take_samples isFuse isBird queue S got =
    (if valid_samples queue = [] then (S, got)
     else take_samples isFuse isBird [(False, True, last (valid_samples queue))] S got)"
  using assms
proof (induction queue arbitrary: S got)
  case (Cons q queue)
  obtain st va b where q: "q = (st, va, b)" by (metis prod_cases3)
  show ?case
    using Cons.IH[of "if isFuse then S\<lparr>ss_latest_fuse := Some b\<rparr> else if isBird then S\<lparr>ss_latest_bird := Some b\<rparr> else S" "Some b"]
      Cons.IH[of S got] Cons.prems
    by (cases va; cases "valid_samples queue = []") (auto simp: q valid_samples_def)
qed (simp add: valid_samples_def)

lemma take_samples_unread: "ss_tabs (fst (take_samples isFuse isBird queue S got)) = ss_tabs S"
  by (induction isFuse isBird queue S got rule: take_samples.induct) auto

lemma dds_converted:
  assumes "dds_targetToSpxExtended T now t = Some trk" and "parseTargetId T t = Some v"
  shows "uniqueID trk = v mod 2 ^ 32 \<and> msgTimeSecs trk = to_u32 now \<and> 0 < v"
  using assms parseTargetId_pos[OF assms(2)]
  by (auto simp: dds_targetToSpxExtended_def Let_def to_u32_def dds_fillFusionTrackIds_def applyAirTargetReserved1_def
      split: option.splits if_splits prod.splits)

lemma bird_extras_uniqueID: "uniqueID (applyBirdFuseExtras t trk) = uniqueID trk"
  by (simp add: applyBirdFuseExtras_def dds_fillFusionTrackIds_def applyAirTargetReserved1_def Let_def split: prod.splits)

lemma tables_ok_dds_applyTarget:
  assumes "tables_ok same mode s"
  shows "tables_ok same mode (dds_applyTarget T same mode now bird t s)"
proof (cases "parseTargetId T t")
  case (Some v)
  show ?thesis
  proof (cases "dds_targetToSpxExtended T now t")
    case (Some trk)
    note u = dds_converted[OF Some \<open>parseTargetId T t = Some v\<close>]
    show ?thesis using assms u
      pair_ok_store[of same 10 "birdTrack s" "birdTrail s" "applyBirdFuseExtras t trk" v]
      pair_ok_store[of same "if mode = 1 then 15 else 10" "fuseTrack s" "fuseTrail s" trk v]
      by (auto simp: dds_applyTarget_def Some \<open>parseTargetId T t = Some v\<close> tables_ok_def bird_extras_uniqueID Let_def split: prod.splits)
  qed (use assms in \<open>simp add: dds_applyTarget_def\<close>)
qed (use assms in \<open>simp add: dds_applyTarget_def dds_targetToSpxExtended_def\<close>)

lemma tables_ok_dds_batch: "tables_ok same mode s \<Longrightarrow> tables_ok same mode (dds_applyTargetOutputSet T same mode now bird ts s)"
  by (induction ts arbitrary: s) (simp_all add: dds_applyTargetOutputSet_def tables_ok_dds_applyTarget)

lemma tables_ok_data_available:
  assumes "tables_ok same mode (ss_tabs S)"
  shows "tables_ok same mode (ss_tabs (struct_data_available T same mode nowMs topic queue S))"
proof -
  obtain S1 got where t: "take_samples (topic = ss_topic_fuse S) (topic = ss_topic_bird S) queue S None = (S1, got)" by fastforce
  have "tables_ok same mode (ss_tabs S1)" using assms take_samples_unread[of _ _ queue S None] t by (metis fst_conv)
  then show ?thesis using assms
    by (auto simp: struct_data_available_def t Let_def tables_ok_dds_batch tables_ok_prune split: option.split)
qed

section \<open>What the handler does\<close>

lemma no_valid_sample:
  assumes "list_all (\<lambda>q. \<not> fst q) queue" and "valid_samples queue = []"
  shows "struct_data_available T same mode nowMs topic queue S = S"
  using take_samples_last[OF assms(1)] assms(2) by (simp add: struct_data_available_def)

text \<open>
  Of the samples that wait when the handler runs only the last valid one counts: the tables, trails and copies become what they would
  be if it were the only one, so the positions of the earlier ones leave no trace.
\<close>
theorem only_last_sample_counts:
  assumes "list_all (\<lambda>q. \<not> fst q) queue" and "valid_samples queue = before @ [b]"
  shows "struct_data_available T same mode nowMs topic queue S = struct_data_available T same mode nowMs topic [(False, True, b)] S"
proof -
  have "take_samples isFuse isBird queue S None = take_samples isFuse isBird [(False, True, b)] S None" for isFuse isBird
    using take_samples_last[OF assms(1), of isFuse isBird S None] assms(2) by simp
  then show ?thesis by (simp only: struct_data_available_def)
qed

definition sample_subscriber :: "unit struct_subscriber" where
  "sample_subscriber = \<lparr>ss_topic_fuse = qs ''f'', ss_topic_bird = qs ''b'', ss_latest_fuse = None, ss_latest_bird = None, ss_stop = False,
     ss_tabs = \<lparr>fuseTrack = [], fuseTrail = [], birdTrack = [], birdTrail = []\<rparr>, ss_lastClear = 0\<rparr>"

theorem only_last_sample_counts_witness:
  "ss_latest_fuse (struct_data_available ascii_text (=) 0 5000 (qs ''f'') [(False, True, ([sample_target], [])), (False, False, ([], [])),
     (False, True, ([], []))] sample_subscriber) = Some ([], []) \<and>
   fuseTrack (ss_tabs (struct_data_available ascii_text (=) 0 5000 (qs ''f'') [(False, True, ([sample_target], [])), (False, False, ([], [])),
     (False, True, ([], []))] sample_subscriber)) = []"
proof -
  have v: "valid_samples [(False, True, ([sample_target], [])), (False, False, ([], [])), (False, True, ([], []))] =
      [([sample_target], [])] @ [([], [] :: unit list)]" by (simp add: valid_samples_def)
  show ?thesis
    by (subst (1 2) only_last_sample_counts[OF _ v])
      (simp_all add: struct_data_available_def sample_subscriber_def dds_applyTargetOutputSet_def clearStaleTrackMaps_def pruneMap64_def)
qed

text \<open>
  C28. A target that the fusion reports as lost or merged is removed when it comes over gRPC, with its trail, from the table of birds when it is in
  the air and else from that of the fused targets; over DDS it is stored like any other in the table of its topic, with a trail and the
  time of its arrival, so that it also starts to age anew.
\<close>
theorem lost_target_stays_on_dds:
  assumes "parseTargetId T t = Some v" and "t_state t = LOST \<or> t_state t = MERGED" and "tables_ok same mode (tabs c)"
  shows "(let s = tabs (applyTargetOutputSet T same mode now [t] c) in
      if t_environment t = AIR then map_of (birdTrack s) v = None \<and> map_of (birdTrail s) v = None
      else map_of (fuseTrack s) v = None \<and> map_of (fuseTrail s) v = None) \<and>
    (let s = dds_applyTargetOutputSet T same mode now False [t] (tabs c) in
      \<exists>trk tr. map_of (fuseTrack s) v = Some trk \<and> msgTimeSecs trk = to_u32 now \<and> map_of (fuseTrail s) v = Some tr \<and> tr \<noteq> []) \<and>
    (let s = dds_applyTargetOutputSet T same mode now True [t] (tabs c) in
      \<exists>trk tr. map_of (birdTrack s) v = Some trk \<and> msgTimeSecs trk = to_u32 now \<and> map_of (birdTrail s) v = Some tr \<and> tr \<noteq> [])"
proof -
  have q: "qm_ok (fuseTrack (tabs c))" "qm_ok (fuseTrail (tabs c))" "qm_ok (birdTrack (tabs c))" "qm_ok (birdTrail (tabs c))"
    using assms(3) by (simp_all add: tables_ok_def pair_ok_def)
  have "tabs (applyTargetOutputSet T same mode now [t] c) = (if t_environment t = AIR
      then (tabs c)\<lparr>birdTrack := qm_remove v (birdTrack (tabs c)), birdTrail := qm_remove v (birdTrail (tabs c))\<rparr>
      else (tabs c)\<lparr>fuseTrack := qm_remove v (fuseTrack (tabs c)), fuseTrail := qm_remove v (fuseTrail (tabs c))\<rparr>)"
    using assms(1,2) by (auto simp: tabs_applyTargetOutputSet applyTarget_cases)
  moreover obtain trk where d: "dds_targetToSpxExtended T now t = Some trk" using assms(1) by (simp add: dds_targetToSpxExtended_def Let_def)
  have time: "msgTimeSecs (applyBirdFuseExtras t trk) = to_u32 now" "msgTimeSecs trk = to_u32 now"
    using dds_converted[OF d assms(1)]
    by (simp_all add: applyBirdFuseExtras_def dds_fillFusionTrackIds_def applyAirTargetReserved1_def Let_def split: prod.splits)
  have ok: "tables_ok same mode (dds_applyTargetOutputSet T same mode now bird [t] (tabs c))" for bird by (rule tables_ok_dds_batch[OF assms(3)])
  have stored: "\<exists>trk. map_of (fuseTrack (dds_applyTargetOutputSet T same mode now False [t] (tabs c))) v = Some trk \<and> msgTimeSecs trk = to_u32 now"
    "\<exists>trk. map_of (birdTrack (dds_applyTargetOutputSet T same mode now True [t] (tabs c))) v = Some trk \<and> msgTimeSecs trk = to_u32 now"
    using time by (auto simp: dds_applyTargetOutputSet_def dds_applyTarget_def d assms(1) store_track_def Let_def split: prod.splits option.splits)
  have "\<exists>tr. map_of (fuseTrail (dds_applyTargetOutputSet T same mode now False [t] (tabs c))) v = Some tr \<and> tr \<noteq> []"
    using ok[of False] stored(1) unfolding tables_ok_def pair_ok_def fst_conv snd_conv by (metis option.exhaust option.distinct(1))
  moreover have "\<exists>tr. map_of (birdTrail (dds_applyTargetOutputSet T same mode now True [t] (tabs c))) v = Some tr \<and> tr \<noteq> []"
    using ok[of True] stored(2) unfolding tables_ok_def pair_ok_def fst_conv snd_conv by (metis option.exhaust option.distinct(1))
  ultimately show ?thesis using q stored by (simp add: Let_def)
qed

theorem lost_target_stays_on_dds_witness:
  "map_of (birdTrack (tabs (applyTargetOutputSet ascii_text (=) 1 9 [sample_target\<lparr>t_state := LOST, t_environment := AIR\<rparr>] empty_client))) 42 = None \<and>
   map_of (birdTrack (dds_applyTargetOutputSet ascii_text (=) 1 9 True [sample_target\<lparr>t_state := LOST, t_environment := AIR\<rparr>] (tabs empty_client))) 42 \<noteq> None \<and>
   map_of (fuseTrack (tabs (applyTargetOutputSet ascii_text (=) 1 9 [sample_target\<lparr>t_state := MERGED, t_environment := SURFACE\<rparr>] empty_client))) 42 = None \<and>
   map_of (fuseTrack (dds_applyTargetOutputSet ascii_text (=) 1 9 False [sample_target\<lparr>t_state := MERGED, t_environment := SURFACE\<rparr>] (tabs empty_client))) 42 \<noteq> None"
proof -
  let ?a = "sample_target\<lparr>t_state := LOST, t_environment := AIR\<rparr>" and ?s = "sample_target\<lparr>t_state := MERGED, t_environment := SURFACE\<rparr>"
  have id: "parseTargetId ascii_text ?a = Some 42" "parseTargetId ascii_text ?s = Some 42" by code_simp+
  have ok: "tables_ok (=) 1 (tabs empty_client)" by (simp add: empty_client_def tables_ok_def pair_ok_def)
  show ?thesis using lost_target_stays_on_dds[OF id(1) _ ok, of 9] lost_target_stays_on_dds[OF id(2) _ ok, of 9] by (auto simp: Let_def)
qed

section \<open>The tables over a run\<close>

text \<open>A run of the handler: every call has its time, topic and queue.\<close>

definition handle_all :: "qt_text \<Rightarrow> (point \<Rightarrow> point \<Rightarrow> bool) \<Rightarrow> int \<Rightarrow> (int \<times> qstring \<times> (bool \<times> bool \<times> 'g target_batch) list) list
    \<Rightarrow> 'g struct_subscriber \<Rightarrow> 'g struct_subscriber" where
  "handle_all T same mode calls S = fold (\<lambda>(nowMs, topic, queue). struct_data_available T same mode nowMs topic queue) calls S"

lemma tables_ok_handle_all: "tables_ok same mode (ss_tabs S) \<Longrightarrow> tables_ok same mode (ss_tabs (handle_all T same mode calls S))"
  by (induction calls arbitrary: S) (auto simp: handle_all_def tables_ok_data_available)

lemma last_clear_age:
  assumes "tables_ok same mode s"
  shows "map_of (fuseTrack (clearStaleTrackMaps now s)) k = Some trk \<Longrightarrow> now - msgTimeSecs trk \<le> 8"
    "map_of (birdTrack (clearStaleTrackMaps now s)) k = Some trk \<Longrightarrow> now - msgTimeSecs trk \<le> 4"
proof -
  have q: "qm_ok (fuseTrack s)" "qm_ok (fuseTrail s)" "qm_ok (birdTrack s)" "qm_ok (birdTrail s)"
    using assms(1) by (auto simp: tables_ok_def pair_ok_def)
  obtain m tr b br where p: "pruneMap64 now (fuseTrack s) (fuseTrail s) 8 = (m, tr)" "pruneMap64 now (birdTrack s) (birdTrail s) 4 = (b, br)"
    by fastforce
  then have "fuseTrack (clearStaleTrackMaps now s) = m" "birdTrack (clearStaleTrackMaps now s) = b"
    by (simp_all add: clearStaleTrackMaps_def split: prod.splits)
  with pruneMap64_lookup(1)[OF q(1,2) p(1), of k] pruneMap64_lookup(1)[OF q(3,4) p(2), of k]
  show "map_of (fuseTrack (clearStaleTrackMaps now s)) k = Some trk \<Longrightarrow> now - msgTimeSecs trk \<le> 8"
    "map_of (birdTrack (clearStaleTrackMaps now s)) k = Some trk \<Longrightarrow> now - msgTimeSecs trk \<le> 4"
    by (auto split: option.splits if_splits)
qed

lemma handler_clears:
  assumes "tables_ok same mode (ss_tabs S)" and "\<not> ss_stop S" and "list_all (\<lambda>q. \<not> fst q) queue" and "valid_samples queue \<noteq> []"
    and "ss_lastClear S + 2000 \<le> nowMs"
  shows "\<exists>s2. tables_ok same mode s2 \<and>
    ss_tabs (struct_data_available T same mode nowMs topic queue S) = clearStaleTrackMaps (nowMs div 1000) s2"
proof -
  let ?b = "last (valid_samples queue)"
  let ?A = "\<lambda>bird. dds_applyTargetOutputSet T same mode (nowMs div 1000) bird (fst ?b) (ss_tabs S)"
  have "take_samples isFuse isBird queue S None = take_samples isFuse isBird [(False, True, ?b)] S None" for isFuse isBird
    using take_samples_last[OF assms(3), of isFuse isBird S None] assms(4) by simp
  then have "ss_tabs (struct_data_available T same mode nowMs topic queue S) = clearStaleTrackMaps (nowMs div 1000)
      (if topic = ss_topic_fuse S then ?A False else if topic = ss_topic_bird S then ?A True else ss_tabs S)"
    using assms(2,5) by (auto simp: struct_data_available_def Let_def)
  moreover have "tables_ok same mode (if topic = ss_topic_fuse S then ?A False else if topic = ss_topic_bird S then ?A True else ss_tabs S)"
    using assms(1) tables_ok_dds_batch by auto
  ultimately show ?thesis by blast
qed

text \<open>
  C13. The tables the DDS subscriber keeps: after any calls of the handler, on any topics and queues, tracks and trails of the fused targets have the same
  ids, and so have those of the birds; every track carries the low 32 bits of its positive id; every trail is non-empty and has at most 11
  points (16 for fused targets in mode 1).  This subscriber removes old tracks only when data comes: a call that finds a valid sample at least two
  seconds after the last clearing leaves no fused target older than eight seconds and no bird older than four, and calls that find none
  change nothing, whatever the time.
\<close>
theorem subscriber_tables:
  assumes "newStructSubscriber E ini created \<lparr>fuseTrack = [], fuseTrail = [], birdTrack = [], birdTrail = []\<rparr> = Some S0"
    and "S = handle_all T same mode calls S0"
  shows "(map_of (fuseTrack (ss_tabs S)) k = None) = (map_of (fuseTrail (ss_tabs S)) k = None) \<and>
    (map_of (birdTrack (ss_tabs S)) k = None) = (map_of (birdTrail (ss_tabs S)) k = None) \<and>
    (map_of (fuseTrack (ss_tabs S)) k = Some trk \<or> map_of (birdTrack (ss_tabs S)) k = Some trk \<longrightarrow> 0 < k \<and> uniqueID trk = k mod 2 ^ 32) \<and>
    (map_of (fuseTrail (ss_tabs S)) k = Some tr \<longrightarrow> tr \<noteq> [] \<and> length tr \<le> (if mode = 1 then 16 else 11)) \<and>
    (map_of (birdTrail (ss_tabs S)) k = Some tr \<longrightarrow> tr \<noteq> [] \<and> length tr \<le> 11) \<and>
    (\<not> ss_stop S \<longrightarrow> list_all (\<lambda>q. \<not> fst q) queue \<longrightarrow> valid_samples queue \<noteq> [] \<longrightarrow> ss_lastClear S + 2000 \<le> nowMs \<longrightarrow>
      (map_of (fuseTrack (ss_tabs (struct_data_available T same mode nowMs topic queue S))) k = Some trk \<longrightarrow> nowMs div 1000 - msgTimeSecs trk \<le> 8) \<and>
      (map_of (birdTrack (ss_tabs (struct_data_available T same mode nowMs topic queue S))) k = Some trk \<longrightarrow> nowMs div 1000 - msgTimeSecs trk \<le> 4)) \<and>
    (list_all (\<lambda>q. \<not> fst q) queue \<longrightarrow> valid_samples queue = [] \<longrightarrow> struct_data_available T same mode nowMs topic queue S = S)"
proof -
  have "ss_tabs S0 = \<lparr>fuseTrack = [], fuseTrail = [], birdTrack = [], birdTrail = []\<rparr>"
    using assms(1) by (auto simp: newStructSubscriber_def Let_def split: if_splits)
  then have "tables_ok same mode (ss_tabs S0)" by (simp add: tables_ok_def pair_ok_def)
  then have ok: "tables_ok same mode (ss_tabs S)" using tables_ok_handle_all assms(2) by blast
  then have p: "pair_ok same (if mode = 1 then 15 else 10) (fuseTrack (ss_tabs S), fuseTrail (ss_tabs S))"
    "pair_ok same 10 (birdTrack (ss_tabs S), birdTrail (ss_tabs S))" by (simp_all add: tables_ok_def)
  have a: "(map_of (fuseTrack (ss_tabs S)) k = None) = (map_of (fuseTrail (ss_tabs S)) k = None)"
    "(map_of (birdTrack (ss_tabs S)) k = None) = (map_of (birdTrail (ss_tabs S)) k = None)"
    "map_of (fuseTrack (ss_tabs S)) k = Some trk \<or> map_of (birdTrack (ss_tabs S)) k = Some trk \<longrightarrow> 0 < k \<and> uniqueID trk = k mod 2 ^ 32"
    using p by (auto simp: pair_ok_def)
  have b: "map_of (fuseTrail (ss_tabs S)) k = Some tr \<longrightarrow> tr \<noteq> [] \<and> length tr \<le> (if mode = 1 then 16 else 11)"
    "map_of (birdTrail (ss_tabs S)) k = Some tr \<longrightarrow> tr \<noteq> [] \<and> length tr \<le> 11"
    using p by (auto simp: pair_ok_def trail_ok_def)
  have c: "(map_of (fuseTrack (ss_tabs (struct_data_available T same mode nowMs topic queue S))) k = Some trk \<longrightarrow> nowMs div 1000 - msgTimeSecs trk \<le> 8) \<and>
      (map_of (birdTrack (ss_tabs (struct_data_available T same mode nowMs topic queue S))) k = Some trk \<longrightarrow> nowMs div 1000 - msgTimeSecs trk \<le> 4)"
    if h: "\<not> ss_stop S" "list_all (\<lambda>q. \<not> fst q) queue" "valid_samples queue \<noteq> []" "ss_lastClear S + 2000 \<le> nowMs"
  proof -
    obtain s2 where "tables_ok same mode s2"
      "ss_tabs (struct_data_available T same mode nowMs topic queue S) = clearStaleTrackMaps (nowMs div 1000) s2"
      using handler_clears[OF ok h, of T topic] by blast
    then show ?thesis using last_clear_age by metis
  qed
  have d: "struct_data_available T same mode nowMs topic queue S = S"
    if "list_all (\<lambda>q. \<not> fst q) queue" "valid_samples queue = []" by (rule no_valid_sample[OF that])
  show ?thesis using a b c d by blast
qed

text \<open>A target in the air that arrives on the topic of the birds, and a later call on the other topic.\<close>

theorem subscriber_tables_witness:
  "\<exists>(S0 :: unit struct_subscriber) S trk tr. newStructSubscriber sample_cfg (\<lambda>_. VInvalid) (\<lambda>_. True)
       \<lparr>fuseTrack = [], fuseTrail = [], birdTrack = [], birdTrail = []\<rparr> = Some S0 \<and>
     S = handle_all ascii_text (=) 0 [(5000, qs ''TrackTopic_NewStruct_FuseBirdTrack'', [(False, True, ([sample_target], []))])] S0 \<and>
     map_of (birdTrack (ss_tabs S)) 42 = Some trk \<and> uniqueID trk = 42 \<and> map_of (birdTrail (ss_tabs S)) 42 = Some tr \<and> tr \<noteq> [] \<and> length tr \<le> 11 \<and>
     (case map_of (birdTrack (ss_tabs (struct_data_available ascii_text (=) 0 20000 (qs ''TrackTopic_NewStruct_FuseTrack'') [(False, True, ([], []))] S))) 42 of
        None \<Rightarrow> True | Some trk' \<Rightarrow> 20 - msgTimeSecs trk' \<le> 4)"
proof -
  let ?empty = "\<lparr>fuseTrack = [], fuseTrail = [], birdTrack = [], birdTrail = []\<rparr>"
  let ?c = "loadNewTrackSubDdsConfig sample_cfg (\<lambda>_. VInvalid)"
  define S0 :: "unit struct_subscriber" where "S0 = \<lparr>ss_topic_fuse = sd_topic_fuse ?c, ss_topic_bird = sd_topic_bird ?c, ss_latest_fuse = None, ss_latest_bird = None,
    ss_stop = False, ss_tabs = ?empty, ss_lastClear = 0\<rparr>"
  have new: "newStructSubscriber sample_cfg (\<lambda>_. VInvalid) (\<lambda>_. True) ?empty = Some S0" by (simp add: newStructSubscriber_def Let_def S0_def)
  have topics: "sd_topic_fuse ?c = qs ''TrackTopic_NewStruct_FuseTrack''" "sd_topic_bird ?c = qs ''TrackTopic_NewStruct_FuseBirdTrack''"
    by (simp_all add: loadNewTrackSubDdsConfig_def text_setting_def)
  define S where "S = handle_all ascii_text (=) 0 [(5000, qs ''TrackTopic_NewStruct_FuseBirdTrack'', [(False, True, ([sample_target], []))])] S0"
  have id: "parseTargetId ascii_text sample_target = Some 42" by code_simp
  obtain trk0 where d: "dds_targetToSpxExtended ascii_text 5 sample_target = Some trk0" using id by (simp add: dds_targetToSpxExtended_def Let_def)
  have "S = S0\<lparr>ss_latest_bird := Some ([sample_target], []), ss_tabs := clearStaleTrackMaps 5 (dds_applyTargetOutputSet ascii_text (=) 0 5 True [sample_target] ?empty),
      ss_lastClear := 5000\<rparr>"
    unfolding S_def S0_def by (simp add: handle_all_def struct_data_available_def topics Let_def qs_def)
  then have S: "ss_tabs S = clearStaleTrackMaps 5 (dds_applyTargetOutputSet ascii_text (=) 0 5 True [sample_target] ?empty)" "\<not> ss_stop S" "ss_lastClear S = 5000"
    by (simp_all add: S0_def)
  let ?trk = "applyBirdFuseExtras sample_target trk0" and ?B = "dds_applyTargetOutputSet ascii_text (=) 0 5 True [sample_target] ?empty"
  have age: "msgTimeSecs ?trk = 5" using dds_converted[OF d id]
    by (simp add: applyBirdFuseExtras_def dds_fillFusionTrackIds_def applyAirTargetReserved1_def Let_def to_u32_def split: prod.splits)
  have B: "map_of (birdTrack ?B) 42 = Some ?trk"
    by (simp add: dds_applyTargetOutputSet_def dds_applyTarget_def d id store_track_def Let_def)
  have "tables_ok (=) 0 ?B" by (rule tables_ok_dds_batch) (simp add: tables_ok_def pair_ok_def)
  then have q: "qm_ok (birdTrack ?B)" "qm_ok (birdTrail ?B)" by (simp_all add: tables_ok_def pair_ok_def)
  obtain m tr0 where p: "pruneMap64 5 (birdTrack ?B) (birdTrail ?B) 4 = (m, tr0)" by fastforce
  then have "birdTrack (ss_tabs S) = m" unfolding S(1) by (simp add: clearStaleTrackMaps_def split: prod.splits)
  then have trk: "map_of (birdTrack (ss_tabs S)) 42 = Some ?trk" using pruneMap64_lookup(1)[OF q p, of 42] B age by simp
  note facts = subscriber_tables[OF new S_def, where queue = "[(False, True, ([], []))]" and nowMs = 20000 and k = 42]
  obtain tr where tr: "map_of (birdTrail (ss_tabs S)) 42 = Some tr" using facts trk by (metis option.exhaust option.distinct(1))
  have 1: "uniqueID ?trk = 42" using facts trk by auto
  have 2: "tr \<noteq> [] \<and> length tr \<le> 11" using facts tr by blast
  have 3: "case map_of (birdTrack (ss_tabs (struct_data_available ascii_text (=) 0 20000 (qs ''TrackTopic_NewStruct_FuseTrack'') [(False, True, ([], []))] S))) 42 of
        None \<Rightarrow> True | Some trk' \<Rightarrow> 20 - msgTimeSecs trk' \<le> 4"
    using facts[where topic = "qs ''TrackTopic_NewStruct_FuseTrack''"] S(2,3) by (auto simp: valid_samples_def split: option.split)
  show ?thesis using new S_def trk tr 1 2 3 by blast
qed

end
