(* ===== verification/Track_Streams.thy ===== *)
theory Track_Streams
  imports Track_Subscriber
begin

text \<open>
  The gRPC streams of tracks: \<open>subscribeOnce\<close> and the threads of \<open>NewTrackStructGrpcClient\<close> (sea and air targets) and of \<open>FusionTrackGrpcClient\<close>
  (radar, AIS and bird tracks), and the tables that the clients can produce.  What one batch does to the tables is in \<open>Track_Ingest\<close>.
\<close>

section \<open>Reading a stream\<close>

text \<open>
  The loop \<open>while (!stop_.load() && stream->Read(&batch))\<close> of both clients: every round has the value of \<open>stop_\<close>, the batch and the clock in milliseconds;
  at the end of the list \<open>Read\<close> fails.  \<open>lastClearMs\<close> is a local variable.
\<close>

fun read_stream :: "(int \<Rightarrow> 'b \<Rightarrow> 's \<Rightarrow> 's) \<Rightarrow> (int \<Rightarrow> 's \<Rightarrow> 's) \<Rightarrow> int \<Rightarrow> (bool \<times> 'b \<times> int) list \<Rightarrow> 's \<Rightarrow> 's" where
  "read_stream apply_batch clear lastClearMs [] s = s"
| "read_stream apply_batch clear lastClearMs ((stopped, b, nowMs) # rest) s =
     (if stopped then s
      else let s1 = apply_batch nowMs b s in
        if 2000 \<le> nowMs - lastClearMs then read_stream apply_batch clear nowMs rest (clear nowMs s1)
        else read_stream apply_batch clear lastClearMs rest s1)"

text \<open>A round of the loop in \<open>runLoop\<close>: whether the stub and the stream could be made, and what arrives.  Without them \<open>subscribeOnce\<close> throws.\<close>

type_synonym 'b stream_round = "bool \<times> (bool \<times> 'b \<times> int) list"

definition struct_subscribeOnce :: "qt_text \<Rightarrow> (point \<Rightarrow> point \<Rightarrow> bool) \<Rightarrow> int \<Rightarrow> TargetObject list stream_round \<Rightarrow> grpc_client \<Rightarrow> grpc_client" where
  "struct_subscribeOnce T same mode r c =
     (if \<not> fst r then c
      else read_stream (\<lambda>nowMs. applyTargetOutputSet T same mode (nowMs div 1000))
        (\<lambda>nowMs c. c\<lparr>tabs := clearStaleTrackMaps (nowMs div 1000) (tabs c)\<rparr>) 0 (snd r) c)"

text \<open>A batch of tracks with the source ids, and the microseconds of the conversion.\<close>

type_synonym track_batch = "TrackDataClass list \<times> string list \<times> int"

definition fusion_subscribeOnce :: "routes \<Rightarrow> (point \<Rightarrow> point \<Rightarrow> bool) \<Rightarrow> track_batch stream_round \<Rightarrow> ingest_tables \<Rightarrow> ingest_tables" where
  "fusion_subscribeOnce R same r s =
     (if \<not> fst r then s
      else read_stream (\<lambda>nowMs (tracks, sources, micros). applyBatch R same (nowMs div 1000) micros tracks sources)
        (\<lambda>nowMs. clearStaleIngestedTracks (nowMs div 1000)) 0 (snd r) s)"

section \<open>The threads of a client\<close>

text \<open>\<open>stop_\<close>, and whether the reading and the pruning thread exist; \<open>stop\<close> waits for both.\<close>

record client_threads =
  ct_stop :: bool
  ct_reads :: bool
  ct_prunes :: bool

definition struct_client_start :: "client_threads \<Rightarrow> client_threads" where
  "struct_client_start w = (if ct_reads w then w else w\<lparr>ct_stop := False, ct_reads := True, ct_prunes := True\<rparr>)"

definition struct_client_stop :: "client_threads \<Rightarrow> client_threads" where
  "struct_client_stop w = w\<lparr>ct_stop := True, ct_reads := False, ct_prunes := False\<rparr>"

definition fusion_client_start :: "client_threads \<Rightarrow> client_threads" where
  "fusion_client_start w = (if ct_reads w then w else w\<lparr>ct_stop := False, ct_reads := True\<rparr>)"

definition fusion_client_stop :: "client_threads \<Rightarrow> client_threads" where
  "fusion_client_stop w = w\<lparr>ct_stop := True, ct_reads := False\<rparr>"

text \<open>The address a client dials.\<close>

definition struct_client_target :: "qt_text \<Rightarrow> qstring \<Rightarrow> qstring" where
  "struct_client_target T target = (if trimmed T target = [] then qs ''192.168.18.141:60055'' else trimmed T target)"

definition fusion_client_target :: "qt_text \<Rightarrow> qstring \<Rightarrow> qstring" where
  "fusion_client_target T target = (if trimmed T target = [] then qs ''192.168.18.141:60056'' else trimmed T target)"

section \<open>The radar, AIS and bird tables\<close>

definition paired :: "(int, 't) qmap \<Rightarrow> trail_map \<Rightarrow> bool" where
  "paired m tr \<longleftrightarrow> qm_ok m \<and> qm_ok tr \<and> (\<forall>k. map_of m k = None \<longleftrightarrow> map_of tr k = None) \<and>
     (\<forall>k ps. map_of tr k = Some ps \<longrightarrow> ps \<noteq> [] \<and> length ps \<le> 11)"

definition ingest_ok :: "ingest_tables \<Rightarrow> bool" where
  "ingest_ok s \<longleftrightarrow> paired (radarTrack s) (radarTrail s) \<and> paired (aisTrack s) (aisTrail s) \<and> paired (birdRadarTrack s) (birdRadarTrail s)"

lemma trail_at_paired: "paired m tr \<Longrightarrow> length (trail_at tr k) \<le> 11"
  by (auto simp: paired_def trail_at_def split: option.split)

lemma paired_store: "paired m tr \<Longrightarrow> paired (qm_insert k t m) (appendTrail same tr k pt)"
  using trail_at_paired[of m tr k]
  by (auto simp: paired_def appendTrail_def Let_def qm_ok_insert list_ex_iff split: if_splits)

lemma erase_spx:
  "eraseStaleSpxMap now m tr =
    (filter (\<lambda>p. \<not> 20 < now - msgTimeSecs (snd p)) m,
     fold qm_remove (map fst (filter (\<lambda>p. 20 < now - msgTimeSecs (snd p)) m)) tr)"
  by (induction now m tr rule: eraseStaleSpxMap.induct) (auto split: prod.splits)

lemma erase_ais:
  "eraseStaleAis now m tr =
    (filter (\<lambda>p. \<not> (0 < ais_msgTimeSecs (snd p) \<and> 20 < now - ais_msgTimeSecs (snd p))) m,
     fold qm_remove (map fst (filter (\<lambda>p. 0 < ais_msgTimeSecs (snd p) \<and> 20 < now - ais_msgTimeSecs (snd p)) m)) tr)"
  by (induction now m tr rule: eraseStaleAis.induct) (auto split: prod.splits)

lemma map_of_filter_snd: "qm_ok m \<Longrightarrow> map_of (filter (\<lambda>p. P (snd p)) m) k = (case map_of m k of Some v \<Rightarrow> if P v then Some v else None | None \<Rightarrow> None)"
proof (induction m)
  case (Cons p m)
  have "qm_ok m" "fst p \<notin> fst ` set m" using Cons.prems by (auto simp: qm_ok_def)
  with Cons.IH show ?case by (cases p) (force split: option.splits dest: map_of_SomeD)
qed simp

lemma in_removed: "qm_ok m \<Longrightarrow> k \<in> fst ` set (filter (\<lambda>p. P (snd p)) m) \<longleftrightarrow> (\<exists>v. map_of m k = Some v \<and> P v)"
  by (force dest: map_of_SomeD qm_ok_distinct intro: map_of_is_SomeI)

lemma paired_erase:
  assumes "paired m tr"
  shows "paired (filter (\<lambda>p. \<not> P (snd p)) m) (fold qm_remove (map fst (filter (\<lambda>p. P (snd p)) m)) tr)"
proof -
  have q: "qm_ok m" "qm_ok tr" using assms by (simp_all add: paired_def)
  have tr: "map_of (fold qm_remove (map fst (filter (\<lambda>p. P (snd p)) m)) tr) k =
      (if \<exists>v. map_of m k = Some v \<and> P v then None else map_of tr k)" for k
    using qm.lookup_del_many[OF q(2), of "map fst (filter (\<lambda>p. P (snd p)) m)" k] in_removed[OF q(1), of k P] by simp
  have "qm_ok (fold qm_remove (map fst (filter (\<lambda>p. P (snd p)) m)) tr)" by (rule qm.ok_del_many[OF q(2)])
  moreover have "qm_ok (filter (\<lambda>p. \<not> P (snd p)) m)" by (rule qm_ok_filter[OF q(1)])
  moreover have m: "map_of (filter (\<lambda>p. \<not> P (snd p)) m) k = None \<longleftrightarrow> map_of m k = None \<or> (\<exists>v. map_of m k = Some v \<and> P v)" for k
    by (simp add: map_of_filter_snd[OF q(1), where P = "\<lambda>v. \<not> P v"] split: option.split)
  moreover have "map_of m k = None \<longleftrightarrow> map_of tr k = None" "map_of tr k = Some ps \<longrightarrow> ps \<noteq> [] \<and> length ps \<le> 11" for k ps
    using assms by (simp_all add: paired_def)
  ultimately show ?thesis unfolding paired_def m tr by auto
qed

lemma ingest_ok_batch:
  assumes "ingest_ok s"
  shows "ingest_ok (applyBatch R same nowSecs micros tracks sources s)"
proof -
  have "ingest_ok s \<Longrightarrow> ingest_ok (applyBatchTrack R same nowSecs micros p s)" for p s
    by (auto simp: applyBatchTrack_def ingest_ok_def Let_def paired_store split: prod.split)
  then have "ingest_ok s \<Longrightarrow> ingest_ok (fold (applyBatchTrack R same nowSecs micros) ps s)" for ps s
    by (induction ps arbitrary: s) auto
  with assms show ?thesis by (simp add: applyBatch_def)
qed

lemma paired_only: "paired m tr \<Longrightarrow> filter (\<lambda>p. qm_contains m (fst p)) tr = tr"
  by (force simp: paired_def filter_id_conv dest: map_of_is_SomeI[OF qm_ok_distinct])

lemma cleared_tables:
  assumes "ingest_ok s"
  shows "ingest_ok (clearStaleIngestedTracks now s)"
    and "radarTrack (clearStaleIngestedTracks now s) = filter (\<lambda>p. \<not> 20 < now - msgTimeSecs (snd p)) (radarTrack s)"
proof -
  note e = paired_erase[of "radarTrack s" "radarTrail s" "\<lambda>t. 20 < now - msgTimeSecs t"]
    paired_erase[of "birdRadarTrack s" "birdRadarTrail s" "\<lambda>t. 20 < now - msgTimeSecs t"]
    paired_erase[of "aisTrack s" "aisTrail s" "\<lambda>a. 0 < ais_msgTimeSecs a \<and> 20 < now - ais_msgTimeSecs a"]
  show "ingest_ok (clearStaleIngestedTracks now s)"
    using assms e e(3)[THEN paired_only] by (simp add: ingest_ok_def clearStaleIngestedTracks_def erase_spx erase_ais)
  show "radarTrack (clearStaleIngestedTracks now s) = filter (\<lambda>p. \<not> 20 < now - msgTimeSecs (snd p)) (radarTrack s)"
    by (simp add: clearStaleIngestedTracks_def erase_spx erase_ais)
qed

lemma read_stream_keeps:
  assumes "\<And>now b s. P s \<Longrightarrow> P (apply_batch now b s)" and "\<And>now s. P s \<Longrightarrow> P (clear now s)"
  shows "P s \<Longrightarrow> P (read_stream apply_batch clear lastClearMs rs s)"
  using assms by (induction apply_batch clear lastClearMs rs s rule: read_stream.induct) (auto simp: Let_def)

text \<open>The tables a client without tracks starts with, and what the rounds of \<open>runLoop\<close> make of them.\<close>

definition no_ingest :: ingest_tables where
  "no_ingest = \<lparr>radarTrack = [], radarTrail = [], aisTrack = [], aisTrail = [], birdRadarTrack = [], birdRadarTrail = []\<rparr>"

definition fusion_runLoop :: "routes \<Rightarrow> (point \<Rightarrow> point \<Rightarrow> bool) \<Rightarrow> track_batch stream_round list \<Rightarrow> ingest_tables \<Rightarrow> ingest_tables" where
  "fusion_runLoop R same rounds s = fold (fusion_subscribeOnce R same) rounds s"

lemma ingest_ok_run: "ingest_ok s \<Longrightarrow> ingest_ok (fusion_runLoop R same rounds s)"
proof (induction rounds arbitrary: s)
  case (Cons r rounds)
  have "ingest_ok (fusion_subscribeOnce R same r s)"
    unfolding fusion_subscribeOnce_def using Cons.prems
    by (auto intro!: read_stream_keeps ingest_ok_batch cleared_tables(1) split: prod.split)
  with Cons.IH show ?case by (simp add: fusion_runLoop_def)
qed (simp add: fusion_runLoop_def)

text \<open>
  The tables of the radar stream: whatever streams were read, tracks and trails of all three kinds have the same ids and every trail
  is non-empty and has at most eleven points.  The tables lose old tracks only when a batch arrives: rounds in which the connection fails or no
  batch comes leave every track in the table, however long they last.
\<close>
theorem silent_streams_keep_tracks:
  assumes "s = fusion_runLoop R same rounds no_ingest"
    and "list_all (\<lambda>r. fst r \<longrightarrow> snd r = []) silent"
  shows "ingest_ok s \<and> fusion_runLoop R same silent s = s"
proof
  have "ingest_ok no_ingest" by (simp add: no_ingest_def ingest_ok_def paired_def)
  then show "ingest_ok s" using assms(1) ingest_ok_run by blast
  have "list_all (\<lambda>r. fst r \<longrightarrow> snd r = []) silent \<Longrightarrow> fusion_runLoop R same silent s = s" for s
    by (induction silent) (auto simp: fusion_runLoop_def fusion_subscribeOnce_def)
  with assms(2) show "fusion_runLoop R same silent s = s" by blast
qed

text \<open>
  A batch that arrives at least two seconds after the last clearing, in particular the first of every stream, leaves no radar track that is
  older than twenty seconds; the sea and air tables of the other client are cleared by a thread of their own.
\<close>
theorem batch_clears_old_tracks:
  assumes "2000 \<le> nowMs - lastClearMs"
    and "s' = read_stream (\<lambda>nowMs (tracks, sources, micros). applyBatch R same (nowMs div 1000) micros tracks sources)
      (\<lambda>nowMs. clearStaleIngestedTracks (nowMs div 1000)) lastClearMs [(False, b, nowMs)] s"
    and "ingest_ok s" and "(k, trk) \<in> set (radarTrack s')"
  shows "nowMs div 1000 - msgTimeSecs trk \<le> 20"
proof -
  obtain tracks sources micros where b: "b = (tracks, sources, micros)" by (metis prod_cases3)
  let ?s = "applyBatch R same (nowMs div 1000) micros tracks sources s"
  have "s' = clearStaleIngestedTracks (nowMs div 1000) ?s" using assms(1,2) by (simp add: b)
  with assms(4) cleared_tables(2)[OF ingest_ok_batch[OF assms(3)]] show ?thesis by auto
qed

section \<open>What the clients can make of the tables\<close>

text \<open>The sea and air tables under any interleaving of gRPC batches, DDS batches on both topics and clearings.\<close>

inductive sea_air_reachable :: "qt_text \<Rightarrow> (point \<Rightarrow> point \<Rightarrow> bool) \<Rightarrow> int \<Rightarrow> tables \<Rightarrow> bool"
  for T same mode where
  init: "sea_air_reachable T same mode (tabs empty_client)"
| grpc: "sea_air_reachable T same mode (tabs c) \<Longrightarrow> sea_air_reachable T same mode (tabs (applyTargetOutputSet T same mode now ts c))"
| dds: "sea_air_reachable T same mode s \<Longrightarrow> sea_air_reachable T same mode (dds_applyTargetOutputSet T same mode now bird ts s)"
| clear: "sea_air_reachable T same mode s \<Longrightarrow> sea_air_reachable T same mode (clearStaleTrackMaps now s)"

lemma tables_ok_sea_air: "sea_air_reachable T same mode s \<Longrightarrow> tables_ok same mode s"
proof (induction rule: sea_air_reachable.induct)
  case init
  show ?case by (simp add: empty_client_def tables_ok_def pair_ok_def)
qed (simp_all add: tabs_applyTargetOutputSet tables_ok_fold tables_ok_prune tables_ok_dds_batch)

text \<open>The radar and AIS tables under any batches and clearings.\<close>

inductive radar_ais_reachable :: "routes \<Rightarrow> (point \<Rightarrow> point \<Rightarrow> bool) \<Rightarrow> ingest_tables \<Rightarrow> bool"
  for R same where
  init: "radar_ais_reachable R same no_ingest"
| batch: "radar_ais_reachable R same s \<Longrightarrow> radar_ais_reachable R same (applyBatch R same now micros tracks sources s)"
| clear: "radar_ais_reachable R same s \<Longrightarrow> radar_ais_reachable R same (clearStaleIngestedTracks now s)"

lemma ingest_ok_reachable: "radar_ais_reachable R same s \<Longrightarrow> ingest_ok s"
proof (induction rule: radar_ais_reachable.induct)
  case init
  show ?case by (simp add: no_ingest_def ingest_ok_def paired_def)
qed (simp_all add: ingest_ok_batch cleared_tables(1))

section \<open>Witnesses\<close>

definition sample_slot :: TrackDataClass where
  "sample_slot = \<lparr>st_trackid = 7, st_mmsi = 0, st_uniqueid = 7, st_longitude = 120, st_latitude = 30, st_course = 0, st_distance = 0,
     st_speed = 0, st_height = 0, st_azimuth = 0, st_sizeMetres = 0, st_sizeDegrees = 0, st_sensors = 0, st_fusion_track_ids = [],
     st_trackCategoryId = 0, st_reserved4 = 0\<rparr>"

definition radar_routes :: routes where
  "radar_routes = \<lparr>routeBucketFor = (\<lambda>_. ''radar''), radarSourceCodeFor = (\<lambda>_. 1)\<rparr>"

text \<open>A track that arrived once is still there after a day of failed connections.\<close>

theorem silent_streams_keep_tracks_witness:
  "map_of (radarTrack (fusion_runLoop radar_routes (=) (replicate 2880 (False, []))
     (fusion_runLoop radar_routes (=) [(True, [(False, ([sample_slot], [''lei_da''], 0), 5000)])] no_ingest))) 7 \<noteq> None"
proof -
  let ?s = "fusion_runLoop radar_routes (=) [(True, [(False, ([sample_slot], [''lei_da''], 0), 5000)])] no_ingest"
  have "list_all (\<lambda>r. fst r \<longrightarrow> snd r = []) (replicate 2880 (False, [] :: (bool \<times> track_batch \<times> int) list))"
    by (simp add: list_all_iff)
  moreover have "radarTrack ?s = [(7, trackDataClassToSpx 5 0 sample_slot 1)]"
    by (simp add: fusion_runLoop_def fusion_subscribeOnce_def applyBatch_def applyBatchTrack_def radar_routes_def no_ingest_def
        spxMapKeyFromTrack_def sample_slot_def clearStaleIngestedTracks_def erase_spx erase_ais trackDataClassToSpx_def Let_def to_u32_def)
  ultimately show ?thesis
    using silent_streams_keep_tracks[OF refl, of "replicate 2880 (False, [])" radar_routes "(=)"
        "[(True, [(False, ([sample_slot], [''lei_da''], 0), 5000)])]"] by simp
qed

definition old_radar :: ingest_tables where
  "old_radar = no_ingest\<lparr>radarTrack := [(3, zero_track\<lparr>msgTimeSecs := 100\<rparr>)], radarTrail := [(3, [(30, 120)])]\<rparr>"

theorem batch_clears_old_tracks_witness:
  "(3, zero_track\<lparr>msgTimeSecs := 100\<rparr>) \<notin> set (radarTrack (read_stream
     (\<lambda>nowMs (tracks, sources, micros). applyBatch radar_routes (=) (nowMs div 1000) micros tracks sources)
     (\<lambda>nowMs. clearStaleIngestedTracks (nowMs div 1000)) 0 [(False, ([], [], 0), 200000)] old_radar))"
proof -
  have ok: "ingest_ok old_radar" by (simp add: old_radar_def no_ingest_def ingest_ok_def paired_def qm_ok_def)
  show ?thesis
    using batch_clears_old_tracks[OF _ refl ok, where b = "([], [], 0)" and nowMs = 200000 and k = 3 and trk = "zero_track\<lparr>msgTimeSecs := 100\<rparr>"
        and lastClearMs = 0] by auto
qed

end
