(* ===== verification/Dds_Cleanup.thy ===== *)
theory Dds_Cleanup
  imports Qt_Json
begin

text \<open>
  \<open>CustomConfig::CleanupDDSResources\<close> under Linux: the commands that remove the shared memory and the semaphores of a DDS domain before its channels are
  opened.  What \<open>ipcs\<close> prints and which characters Qt counts as white space are arguments.
\<close>

fun split_where :: "('a \<Rightarrow> bool) \<Rightarrow> 'a list \<Rightarrow> 'a list list" where
  "split_where P [] = [[]]"
| "split_where P (x # xs) =
     (if P x then [] # split_where P xs
      else (case split_where P xs of [] \<Rightarrow> [[x]] | w # ws \<Rightarrow> (x # w) # ws))"

text \<open>\<open>line.split(QRegExp("\s+"), SkipEmptyParts)\<close>.\<close>

definition line_parts :: "(int \<Rightarrow> bool) \<Rightarrow> qstring \<Rightarrow> qstring list" where
  "line_parts space line = filter (\<lambda>w. w \<noteq> []) (split_where space line)"

definition domain_tag :: "int \<Rightarrow> qstring" where
  "domain_tag domainId = qs (''fastrtps_'' @ dec_int domainId)"

text \<open>The loop over the lines of one list: the ids that are removed.\<close>

definition removed_ids :: "(int \<Rightarrow> bool) \<Rightarrow> int \<Rightarrow> qstring \<Rightarrow> qstring list" where
  "removed_ids space domainId output =
     concat (map (\<lambda>line. if contains line (domain_tag domainId)
                       then (let parts = line_parts space line in if 1 < length parts then [parts ! 1] else [])
                       else []) (split_char 10 output))"

definition CleanupDDSResources :: "(int \<Rightarrow> bool) \<Rightarrow> qstring \<Rightarrow> qstring \<Rightarrow> int \<Rightarrow> qstring list" where
  "CleanupDDSResources space memory semaphores domainId =
     map (\<lambda>i. qs ''ipcrm -m '' @ i) (removed_ids space domainId memory) @
     map (\<lambda>i. qs ''ipcrm -s '' @ i) (removed_ids space domainId semaphores)"

section \<open>Facts\<close>

lemma starts_with_iff: "starts_with p s \<longleftrightarrow> (\<exists>r. s = p @ r)"
  by (induction p s rule: starts_with.induct) auto

lemma contains_iff: "contains s p \<longleftrightarrow> (\<exists>a b. s = a @ p @ b)"
proof (induction s)
  case (Cons x s)
  show ?case
  proof
    assume "contains (x # s) p"
    then consider "starts_with p (x # s)" | "contains s p" by auto
    then show "\<exists>a b. x # s = a @ p @ b"
    proof cases
      case 1
      then obtain r where "x # s = [] @ p @ r" by (auto simp: starts_with_iff)
      then show ?thesis by blast
    next
      case 2
      then obtain a b where "s = a @ p @ b" using Cons.IH by blast
      then have "x # s = (x # a) @ p @ b" by simp
      then show ?thesis by blast
    qed
  next
    assume "\<exists>a b. x # s = a @ p @ b"
    then obtain a b where ab: "x # s = a @ p @ b" by blast
    have "starts_with p (x # s) \<or> contains s p"
      using ab Cons.IH unfolding starts_with_iff by (cases a) auto
    then show "contains (x # s) p" using contains.simps(2)[of x s p] by blast
  qed
qed simp

lemma dec_prefix: "0 < m \<Longrightarrow> dec (m * 10 + k) = dec m @ dec k" if "k < 10"
  using that dec.simps[of k] by (subst dec.simps) simp

text \<open>
  Cleaning up a domain touches other domains too: a line about domain \<open>10 d + k\<close> contains the text that is looked for on behalf of \<open>d\<close>, so
  what belongs to that domain is removed along with the own resources, which are exactly those of the lines that contain the text.
\<close>
theorem cleanup_reaches_longer_domains:
  assumes "0 < d" and "k < 10" and "line \<in> set (split_char 10 memory)" and "contains line (domain_tag (int (d * 10 + k)))"
    and "1 < length (line_parts space line)"
  shows "qs ''ipcrm -m '' @ line_parts space line ! 1 \<in> set (CleanupDDSResources space memory semaphores (int d))"
proof -
  have "dec_int (int n) = dec n" for n by (simp add: dec_int_def)
  then have "domain_tag (int (d * 10 + k)) = domain_tag (int d) @ qs (dec k)"
    using dec_prefix[OF assms(2,1)] by (simp only: domain_tag_def) (simp add: qs_def)
  then have "contains line (domain_tag (int d))" using assms(4) by (auto simp: contains_iff)
  then have "line_parts space line ! 1 \<in> set (removed_ids space (int d) memory)"
    using assms(3,5) by (auto simp: removed_ids_def Let_def intro!: bexI[of _ line])
  then show ?thesis by (auto simp: CleanupDDSResources_def)
qed

theorem cleanup_reaches_longer_domains_witness:
  "qs ''ipcrm -m 66'' \<in> set (CleanupDDSResources (\<lambda>c. c = 32) (qs ''0x1 66 fastrtps_70'') [] 7)"
proof -
  have l: "qs ''0x1 66 fastrtps_70'' \<in> set (split_char 10 (qs ''0x1 66 fastrtps_70''))" by code_simp
  have c: "contains (qs ''0x1 66 fastrtps_70'') (domain_tag (int (7 * 10 + 0)))" by code_simp
  have p: "line_parts (\<lambda>c. c = 32) (qs ''0x1 66 fastrtps_70'') = [qs ''0x1'', qs ''66'', qs ''fastrtps_70'']" by code_simp
  show ?thesis
    using cleanup_reaches_longer_domains[OF _ _ l c, of "\<lambda>c. c = 32" "[]"] unfolding p by (simp add: qs_def)
qed

end
