(* ===== verification/Rule_Evidence.thy ===== *)
theory Rule_Evidence
  imports Rule_Eval
begin

text \<open>
  Three consequences of the rule evaluation: the speed memory that all rules of a target share, the evidence an alarm
  carries (\<open>AlarmContentBuilder.cpp\<close> against the decision of \<open>updataAlarmTrackToDB\<close>), and
  the AIS candidates, whose track is never read.
\<close>

section \<open>The shared speed memory\<close>

text \<open>One pass of the two rules over a fused target, in the order of the rule list.\<close>

definition two_rules :: "rule_env \<Rightarrow> eval_tables \<Rightarrow> AlarmRule \<Rightarrow> AlarmRule \<Rightarrow> int \<Rightarrow> int \<Rightarrow> rule_state \<Rightarrow> rule_state" where
  "two_rules E tbs A B tid now st = evalCandidate E now tbs B 0 0 tid (evalCandidate E now tbs A 0 0 tid st)"

definition no_alarm_of :: "int \<Rightarrow> rule_state \<Rightarrow> bool" where
  "no_alarm_of tid st \<longleftrightarrow> (\<forall>p \<in> set (mapAlarmData (rs_alarms st)). unique_id (snd p) \<noteq> tid)"

lemma no_alarm_of_not_already: "no_alarm_of tid st \<Longrightarrow> \<not> already E now info tid st"
  by (force simp: no_alarm_of_def trackAlreadyHasAlarm_def list_ex_iff)

lemma failing_speed_rule:
  assumes "candidateTrack E tbs 0 tid = Some tr" "\<not> in_no_alarm_zone E tr" "blackWhite E info tid = Unlisted"
    and "rule_speed_condition info > 0" "\<not> rule_matches E 0 info tid tr (rs_speedLast st)" "no_alarm_of tid st"
  shows "rs_alarms (evalCandidate E now tbs info 0 0 tid st) = rs_alarms st"
    and "rs_speedLast (evalCandidate E now tbs info 0 0 tid st) = qm_insert tid (currentSpeedCheck info tr) (rs_speedLast st)"
proof -
  have e: "evalCandidate E now tbs info 0 0 tid st = evalConditions E now info 0 0 tid tr st"
    using assms(1-3) by (simp add: evalCandidate_def evalTrack_def bird_skipped_def)
  obtain score content where c:
    "rs_alarms (evalConditions E now info 0 0 tid tr st) =
       (if rule_matches E 0 info tid tr (rs_speedLast st) \<or> already E now info tid st
        then fst (SaveToDB (re_logic E) now (rule_save_args E info 0 tid tr score content (re_uuid E (rs_uuids st)))
               (rs_alarms st))
        else rs_alarms st)"
    "rs_speedLast (evalConditions E now info 0 0 tid tr st) =
       (if rule_speed_condition info > 0 then qm_insert tid (currentSpeedCheck info tr) (rs_speedLast st)
        else rs_speedLast st)"
    by (rule evalConditions_alarms)
  with assms(4-6) no_alarm_of_not_already show
    "rs_alarms (evalCandidate E now tbs info 0 0 tid st) = rs_alarms st"
    "rs_speedLast (evalCandidate E now tbs info 0 0 tid st) = qm_insert tid (currentSpeedCheck info tr) (rs_speedLast st)"
    by (auto simp: e)
qed

text \<open>What the memory holds before the first of the two rules: a pass only if the second rule's speed condition holds.\<close>

lemma two_rules_step:
  assumes tr: "candidateTrack E tbs 0 tid = Some tr" "\<not> in_no_alarm_zone E tr"
    and lists: "blackWhite E A tid = Unlisted" "blackWhite E B tid = Unlisted"
    and A: "rule_speed_condition A = 1" and B: "rule_speed_condition B = 2" and le: "rule_speed A \<le> rule_speed B"
    and none: "no_alarm_of tid st"
    and mem: "map_of (rs_speedLast st) tid = Some True \<longrightarrow> currentSpeedCheck B tr"
  shows "rs_alarms (two_rules E tbs A B tid now st) = rs_alarms st"
    and "map_of (rs_speedLast (two_rules E tbs A B tid now st)) tid = Some True \<longrightarrow> currentSpeedCheck B tr"
proof -
  have opposed: "\<not> (currentSpeedCheck A tr \<and> currentSpeedCheck B tr)"
    using A B le by (auto simp: currentSpeedCheck_def split: if_splits)
  let ?s = "evalCandidate E now tbs A 0 0 tid st"
  have "\<not> rule_matches E 0 A tid tr (rs_speedLast st)"
    using opposed mem A by (auto simp: rule_matches_def speed_matches_def)
  note a = failing_speed_rule[OF tr lists(1) _ this none, of now]
  have "\<not> rule_matches E 0 B tid tr (rs_speedLast ?s)"
    using opposed a(2) A B by (auto simp: rule_matches_def speed_matches_def)
  note b = failing_speed_rule[OF tr lists(2) _ this, of now]
  have "no_alarm_of tid ?s" using none a(1) A by (simp add: no_alarm_of_def)
  with a b A B show "rs_alarms (two_rules E tbs A B tid now st) = rs_alarms st"
    "map_of (rs_speedLast (two_rules E tbs A B tid now st)) tid = Some True \<longrightarrow> currentSpeedCheck B tr"
    by (simp_all add: two_rules_def)
qed

text \<open>
  C37. Two rules on the speed of the same fused target, one for slow and one for fast targets, disable each other:
  both write the one speed memory of the target, so at a steady speed neither ever sees its own second sample and no
  number of passes raises an alarm, although the slow or the fast rule on its own would fire in the second pass.
\<close>

theorem opposed_speed_rules_never_fire:
  assumes "candidateTrack E tbs 0 tid = Some tr" "\<not> in_no_alarm_zone E tr"
    and "blackWhite E A tid = Unlisted" "blackWhite E B tid = Unlisted"
    and "rule_speed_condition A = 1" and "rule_speed_condition B = 2" and "rule_speed A \<le> rule_speed B"
    and "no_alarm_of tid st" and "map_of (rs_speedLast st) tid \<noteq> Some True"
  shows "rs_alarms (fold (two_rules E tbs A B tid) nows st) = rs_alarms st"
proof -
  have "rs_alarms (fold (two_rules E tbs A B tid) nows st') = rs_alarms st'"
    if "no_alarm_of tid st'" "map_of (rs_speedLast st') tid = Some True \<longrightarrow> currentSpeedCheck B tr" for st'
    using that
  proof (induction nows arbitrary: st')
    case (Cons now nows)
    note s = two_rules_step[OF assms(1-7) Cons.prems, of now]
    have "no_alarm_of tid (two_rules E tbs A B tid now st')" using Cons.prems(1) s(1) by (simp add: no_alarm_of_def)
    from Cons.IH[OF this s(2)] s(1) show ?case by simp
  qed simp
  then show ?thesis using assms(8,9) by simp
qed

lemma sample_fused:
  "candidateTrack rules_env (one_track 7 v) 0 7 = Some (moving v)" "\<not> in_no_alarm_zone rules_env (moving v)"
  "blackWhite rules_env r 7 = Unlisted" "no_alarm_of 7 fresh_rules" "map_of (rs_speedLast fresh_rules) 7 \<noteq> Some True"
  using sample_pass[of 7]
  by (simp_all add: no_alarm_of_def fresh_rules_def empty_state_def)

theorem opposed_speed_rules_never_fire_witness:
  "rs_alarms (fold (two_rules rules_env (one_track 7 3) slow_rule fast_rule 7) [0, 100, 200, 300] fresh_rules) = empty_state
   \<and> rule_matches rules_env 0 slow_rule 7 (moving 3) (qm_insert 7 (currentSpeedCheck slow_rule (moving 3)) [])"
proof -
  have "rs_alarms (fold (two_rules rules_env (one_track 7 3) slow_rule fast_rule 7) [0, 100, 200, 300] fresh_rules)
      = rs_alarms fresh_rules"
    by (rule opposed_speed_rules_never_fire[OF sample_fused(1,2,3,3) _ _ _ sample_fused(4,5)])
      (simp_all add: slow_rule_def fast_rule_def)
  then show ?thesis
    by (simp add: fresh_rules_def sample_matches) (simp add: currentSpeedCheck_def slow_rule_def moving_def)
qed

section \<open>The evidence\<close>

lemma match_content_fields [simp]:
  "ci_rule (match_content E type info tid tr p a score b) = info"
  "ci_speedMps (match_content E type info tid tr p a score b) = speedMps tr"
  "ci_courseDeg (match_content E type info tid tr p a score b) = courseDegrees tr"
  "ci_attackAngleDeg (match_content E type info tid tr p a score b) = a"
  "ci_heightM (match_content E type info tid tr p a score b) = altitudeMetres tr"
  "ci_threatScore (match_content E type info tid tr p a score b) = score"
  "ci_hasProtectArea (match_content E type info tid tr p a score b) = (p \<noteq> None)"
  by (simp_all add: match_content_def content_input_def Let_def)

lemma course_enabled_neq: "courseEnabled info \<Longrightarrow> rule_course_min info \<noteq> rule_course_max info"
  by (auto simp: courseEnabled_def split: if_splits)

text \<open>The angle shown in the text is the angle that was checked.\<close>

lemma shown_angle:
  assumes "courseEnabled info"
  shows "angle_value (match_content E type info tid tr (protect_centre E info) (checked_angle E info tr) score b)
    = checked_angle E info tr"
  using course_enabled_neq[OF assms]
  by (auto simp: angle_value_def protect_centre_def checked_angle_def split: option.splits)

lemma score_reaches_level:
  assumes "of_int n \<le> x" "x \<le> 100"
  shows "n \<le> qBound 0 (qRound x) 100"
proof -
  have "n \<le> \<lfloor>x + 1 / 2\<rfloor>" using assms(1) by (simp add: le_floor_iff)
  moreover have "n \<le> 100" using assms by linarith
  ultimately show ?thesis by (simp add: qBound_def qRound_def)
qed

lemma totalThreatLevel_le_100: "totalThreatLevel (calculateThreatAssessment al tr d p c e) \<le> 100"
  using clamp_total_range by (simp add: calculateThreatAssessment_def Let_def)

text \<open>
  C39. The evidence is complete: when a rule matches, the trigger summary built for its alarm names the speed condition
  (smaller or greater), the course or attack sector, the height range and the threat threshold of the rule, each of them
  whenever the rule enables it, and the trigger path is the threat path exactly when the threshold is enabled.
\<close>

theorem evidence_matches_decision:
  assumes m: "rule_matches E type info tid tr mem"
    and i: "i = match_content E type info tid tr (protect_centre E info) (checked_angle E info tr) (rule_score E info tr) b"
  shows "(rule_speed_condition info \<in> {1, 2} \<longrightarrow>
        formatSpeedRuleText (rule_speed_condition info) (rule_speed info) \<in> set (trigger_parts i))
    \<and> (courseEnabled info \<longrightarrow> formatCourseRuleText info (protect_centre E info \<noteq> None) \<in> set (trigger_parts i))
    \<and> (heightEnabled info \<longrightarrow> formatHeightRuleText info \<in> set (trigger_parts i))
    \<and> (rule_threat_level1 info > 0 \<longrightarrow> c_threat_ge @ numText (rule_threat_level1 info) \<in> set (trigger_parts i))
    \<and> (ci_triggerPath i = qs ''threat_direct'' \<longleftrightarrow> rule_threat_level1 info > 0)"
proof -
  have speed: "speedSatisfiesRule (speedMps tr) (rule_speed_condition info) (rule_speed info)"
    if "rule_speed_condition info = 1 \<or> rule_speed_condition info = 2"
    using m that
    by (auto simp: rule_matches_def speed_matches_def currentSpeedCheck_def speedSatisfiesRule_def split: if_splits)
  have course: "courseSatisfiesRule (angle_value i) info" if "courseEnabled info"
    using m that course_enabled_neq[OF that]
    unfolding i shown_angle[OF that] by (auto simp: rule_matches_def sector_matches_def courseSatisfiesRule_def)
  have height: "heightSatisfiesRule (altitudeMetres tr) info" if "heightEnabled info"
    using m that by (auto simp: rule_matches_def heightSatisfiesRule_def heightEnabled_def split: if_splits)
  have threat: "rule_threat_level1 info \<le> rule_score E info tr" if "rule_threat_level1 info > 0"
    using m that score_reaches_level[OF _ totalThreatLevel_le_100]
    by (auto simp: rule_matches_def threat_matches_def rule_score_def rule_threat_def)
  have f: "ci_rule i = info" "ci_speedMps i = speedMps tr" "ci_heightM i = altitudeMetres tr"
    "ci_hasProtectArea i = (protect_centre E info \<noteq> None)" "ci_threatScore i = rule_score E info tr"
    by (simp_all add: i)
  have path: "ci_triggerPath i = qs ''threat_direct'' \<longleftrightarrow> rule_threat_level1 info > 0"
    using threat by (auto simp: i match_content_def content_input_def Let_def)
  show ?thesis
    using speed course height threat path by (auto simp: trigger_parts_def f Let_def simp del: append_eq_append_conv)
qed

theorem evidence_matches_decision_witness:
  "formatSpeedRuleText 2 10 \<in> set (trigger_parts
     (match_content rules_env 1 fast_rule 7 (moving 20) (protect_centre rules_env fast_rule)
        (checked_angle rules_env fast_rule (moving 20)) (rule_score rules_env fast_rule (moving 20)) None))"
proof -
  have "rule_matches rules_env 1 fast_rule 7 (moving 20) []" by (simp add: sample_matches)
  from evidence_matches_decision[OF this refl, of None] show ?thesis by (simp add: fast_rule_def)
qed

section \<open>AIS candidates\<close>

text \<open>
  An AIS rule never looks at its target: for candidates of type 2 the evaluation gives the same result whatever the
  track tables hold, and an alarm that it raises carries the position of a track structure that was never initialised.
\<close>

theorem ais_candidates_read_no_track:
  assumes "alarms_ok (rs_alarms st)" "0 < tid" "\<not> silenced now tid (rs_alarms st)"
    and "\<not> in_no_alarm_zone E (re_unset_track E)" "blackWhite E info tid = Unlisted"
    and "rule_matches E 2 info tid (re_unset_track E) (rs_speedLast st)"
  shows "evalCandidate E now tbs info 2 src tid st = evalCandidate E now tbs' info 2 src tid st
    \<and> (\<exists>k ad. map_of (mapAlarmData (rs_alarms (evalCandidate E now tbs info 2 src tid st))) k = Some ad
         \<and> unique_id ad = tid \<and> alarm_time ad = now
         \<and> targetlat ad = latDegs (re_unset_track E) \<and> targetlon ad = longDegs (re_unset_track E))"
proof -
  have c: "candidateTrack E t 2 tid = Some (re_unset_track E)" for t by (simp add: candidateTrack_def)
  have b: "\<not> bird_skipped E 2 src (re_unset_track E)" by (simp add: bird_skipped_def)
  have same: "evalCandidate E now tbs info 2 src tid st = evalCandidate E now tbs' info 2 src tid st"
    by (simp add: evalCandidate_def c)
  from rule_decision_exact[OF _ c b _ assms(5) refl, where st = st and now = now and tbs = tbs] assms(4,6) obtain score content where
    e: "rs_alarms (evalCandidate E now tbs info 2 src tid st) =
      fst (SaveToDB (re_logic E) now
        (rule_save_args E info src tid (re_unset_track E) score content (re_uuid E (rs_uuids st))) (rs_alarms st))"
    by auto
  let ?a = "rule_save_args E info src tid (re_unset_track E) score content (re_uuid E (rs_uuids st))"
  have f: "sv_lat ?a = latDegs (re_unset_track E)" "sv_lon ?a = longDegs (re_unset_track E)"
    by (simp_all add: rule_save_args_def)
  have "\<exists>k ad. map_of (mapAlarmData (fst (SaveToDB (re_logic E) now ?a (rs_alarms st)))) k = Some ad
         \<and> unique_id ad = tid \<and> alarm_time ad = now
         \<and> targetlat ad = latDegs (re_unset_track E) \<and> targetlon ad = longDegs (re_unset_track E)"
  proof (cases rule: SaveToDB_cases[OF assms(1), of ?a now "re_logic E"])
    case 1
    with assms(2,3) show ?thesis by simp
  next
    case 2
    then show ?thesis
      by (intro exI[of _ "sv_uuid ?a"] exI[of _ "new_alarm (re_logic E) ?a now"]) (simp add: new_alarm_def f)
  next
    case (3 old)
    then show ?thesis
      by (intro exI[of _ "alarm_id old"] exI[of _ "refreshed_alarm (re_logic E) ?a now old"])
        (simp add: refreshed_alarm_def Let_def f)
  qed
  with same e show ?thesis by simp
qed

definition ais_rule :: AlarmRule where
  "ais_rule = default_rule\<lparr>rule_condition_id := ''ais'', rule_track_type := 2\<rparr>"

theorem ais_candidates_read_no_track_witness:
  "\<exists>k ad. map_of (mapAlarmData (rs_alarms
       (evalCandidate rules_env 0 (one_track 7 20) ais_rule 2 0 412 fresh_rules))) k = Some ad
     \<and> unique_id ad = 412 \<and> targetlat ad = 0"
proof -
  have u: "re_unset_track rules_env = zero_track" by (simp add: rules_env_def)
  have "rule_matches rules_env 2 ais_rule 412 zero_track (rs_speedLast fresh_rules)"
    by (simp add: rule_matches_def speed_matches_def sector_matches_def circle_matches_def protect_centre_def
        protect_last_def protect_circles_def checked_angle_def attributes_ok_def targetInfo_def filterLookupKey_def
        threat_matches_def needs_detection_def ais_rule_def default_rule_def rules_env_def zero_track_def)
  moreover have "blackWhite rules_env ais_rule 412 = Unlisted" "\<not> in_no_alarm_zone rules_env zero_track"
    using sample_pass[of 412] by simp_all
  moreover have "latDegs zero_track = 0" by (simp add: zero_track_def)
  ultimately show ?thesis
    using ais_candidates_read_no_track[OF fresh_rules_quiet(2), of 412 0 rules_env ais_rule "one_track 7 20" 0 "one_track 7 20"]
    unfolding u by (fastforce simp: fresh_rules_quiet)
qed

end
