(* ===== verification/Area_Judge.thy ===== *)
theory Area_Judge
  imports Rule_Eval
begin

text \<open>
  The area judgement of \<open>TrackAlarmThread::processAlarms\<close>: which targets satisfy the area condition of a rule
  (stay, enter, leave, approach, speed, direction along a road, everywhere, distance to the UAV), for the four
  kinds of track tables.  Trails are lists with the oldest point first.  Reading past the end of a
  list or through an end iterator is the value \<open>Undefined\<close>, a loop that never ends is \<open>Forever\<close>.
\<close>

section \<open>Tables and results\<close>

datatype 'a run = Ok 'a | Undefined | Forever

record judge_tables =
  jt_fuse :: track_map
  jt_radar :: track_map
  jt_bird :: track_map
  jt_ais :: "(int, AISTrack) qmap"
  jt_fuseTrail :: trail_map
  jt_radarTrail :: trail_map
  jt_birdTrail :: trail_map
  jt_aisTrail :: trail_map

text \<open>
  \<open>je_order\<close> is the order in which \<open>QSet::toList\<close> lists the ids that were inserted, \<open>je_isNull\<close> is \<open>qFuzzyIsNull\<close>,
  \<open>je_uav\<close> the value of the members \<open>m_uavLat\<close> and \<open>m_uavLon\<close>, which nothing in the code sets.
\<close>

record judge_env =
  je_rule :: rule_env
  je_order :: "int list \<Rightarrow> int list"
  je_isNull :: "real \<Rightarrow> bool"
  je_uav :: point

text \<open>\<open>copyTrailForLiveTracks\<close>: the trails of the tracks that have one.\<close>

fun copyTrailForLiveTracks :: "trail_map \<Rightarrow> (int \<times> 't) list \<Rightarrow> trail_map" where
  "copyTrailForLiveTracks src [] = []"
| "copyTrailForLiveTracks src (p # ps) =
     (case map_of src (fst p) of
        Some tr \<Rightarrow> qm_insert (fst p) tr (copyTrailForLiveTracks src ps)
      | None \<Rightarrow> copyTrailForLiveTracks src ps)"

definition snapshotTables :: "judge_tables \<Rightarrow> judge_tables" where
  "snapshotTables g = g\<lparr>
     jt_fuseTrail := copyTrailForLiveTracks (jt_fuseTrail g) (jt_fuse g),
     jt_radarTrail := copyTrailForLiveTracks (jt_radarTrail g) (jt_radar g),
     jt_birdTrail := copyTrailForLiveTracks (jt_birdTrail g) (jt_bird g)\<rparr>"

section \<open>Loops over tracks and over trails\<close>

text \<open>
  A loop over a track table: tracks that pass \<open>pre\<close> have their trail read with \<open>operator[]\<close>, which inserts an empty trail
  when there is none; \<open>post\<close> decides on the trail.
\<close>

definition touch :: "int \<Rightarrow> trail_map \<Rightarrow> trail_map" where
  "touch k m = (if qm_contains m k then m else qm_insert k [] m)"

fun scan_tracks :: "('t \<Rightarrow> bool) \<Rightarrow> ('t \<Rightarrow> trail \<Rightarrow> bool option) \<Rightarrow> (int \<Rightarrow> 't \<Rightarrow> int) \<Rightarrow> (int \<times> 't) list \<Rightarrow> trail_map
    \<Rightarrow> (int list \<times> trail_map) option" where
  "scan_tracks pre post idf [] trails = Some ([], trails)"
| "scan_tracks pre post idf ((k, t) # rest) trails =
     (if \<not> pre t then scan_tracks pre post idf rest trails
      else case post t (qm_value trails k []) of
        None \<Rightarrow> None
      | Some b \<Rightarrow>
          (case scan_tracks pre post idf rest (touch k trails) of
             None \<Rightarrow> None
           | Some (ids, trails') \<Rightarrow> Some (if b then idf k t # ids else ids, trails')))"

fun scan_trails :: "(trail \<Rightarrow> bool option) \<Rightarrow> trail_map \<Rightarrow> int list option" where
  "scan_trails post [] = Some []"
| "scan_trails post ((k, tr) # rest) =
     (case post tr of
        None \<Rightarrow> None
      | Some b \<Rightarrow> map_option (\<lambda>ids. if b then k # ids else ids) (scan_trails post rest))"

section \<open>Conditions on a track and its trail\<close>

definition track_pt :: "SPxTrack \<Rightarrow> point" where
  "track_pt t = (latDegs t, longDegs t)"

definition ais_pt :: "AISTrack \<Rightarrow> point" where
  "ais_pt t = (ais_lat t, ais_long t)"

definition in_height :: "AlarmRule \<Rightarrow> real \<Rightarrow> bool" where
  "in_height info h = (h \<ge> of_int (rule_height_min info) \<and> h \<le> of_int (rule_height_max info))"

definition trackCount :: nat where "trackCount = 10"
definition trailCount :: nat where "trailCount = 2"

text \<open>Stay: more than ten trail points, the oldest ten of them in the area.\<close>

definition stay_post :: "qt_area \<Rightarrow> AlarmArea \<Rightarrow> AlarmRule \<Rightarrow> real \<Rightarrow> trail \<Rightarrow> bool option" where
  "stay_post Q a info h tr =
     Some (length tr > trackCount \<and> in_height info h \<and> list_all (inArea Q a) (take trackCount tr))"

text \<open>The circle of a radar rule: ten points are read whatever the length of the trail.\<close>

definition radar_circle_post :: "qt_area \<Rightarrow> AlarmArea \<Rightarrow> trail \<Rightarrow> bool option" where
  "radar_circle_post Q a tr =
     (if list_all (inArea Q a) (take trackCount tr)
      then (if length tr \<ge> trackCount then Some True else None)
      else Some False)"

definition bird_stay_post :: "AlarmArea \<Rightarrow> AlarmRule \<Rightarrow> SPxTrack \<Rightarrow> trail \<Rightarrow> bool option" where
  "bird_stay_post a info t tr =
     Some (length tr > trailCount \<and>
       (if ar_type a = 3
        then altitudeMetres t > of_int (rule_height_min info) \<or> altitudeMetres t < of_int (rule_height_max info)
        else altitudeMetres t \<ge> of_int (rule_height_min info) \<or> altitudeMetres t \<le> of_int (rule_height_max info)))"

definition drone_stay_post :: "qt_area \<Rightarrow> AlarmArea \<Rightarrow> AlarmRule \<Rightarrow> SPxTrack \<Rightarrow> trail \<Rightarrow> bool option" where
  "drone_stay_post Q a info t tr =
     Some (length tr > trackCount \<and>
       (if ar_type a = 3
        then altitudeMetres t > of_int (rule_height_min info) \<and> altitudeMetres t < of_int (rule_height_max info)
        else in_height info (altitudeMetres t)) \<and>
       min_reserved1 t = 3 \<and> list_all (inArea Q a) (take trackCount tr))"

text \<open>Enter and leave read \<open>at(0)\<close>, so an empty trail is undefined; enter looks at the points 1 to 9.\<close>

definition enters :: "qt_area \<Rightarrow> AlarmArea \<Rightarrow> trail \<Rightarrow> bool" where
  "enters Q a tr = (inArea Q a (hd tr) \<and> list_ex (\<lambda>p. \<not> inArea Q a p) (take 9 (tl tr)))"

definition leaves :: "qt_area \<Rightarrow> AlarmArea \<Rightarrow> trail \<Rightarrow> bool" where
  "leaves Q a tr = (\<not> inArea Q a (hd tr) \<and> list_ex (inArea Q a) (tl tr))"

definition on_nonempty :: "(trail \<Rightarrow> bool) \<Rightarrow> trail \<Rightarrow> bool option" where
  "on_nonempty P tr = (if tr = [] then None else Some (P tr))"

text \<open>The air part of the enter rule of fused tracks dereferences the end iterator of the first loop.\<close>

definition bird_enter_post :: "qt_area \<Rightarrow> AlarmArea \<Rightarrow> AlarmRule \<Rightarrow> SPxTrack \<Rightarrow> trail \<Rightarrow> bool option" where
  "bird_enter_post Q a info t tr =
     (if min_reserved1 t = 3 \<and> in_height info (altitudeMetres t)
      then (if (if ar_type a = 2 then length tr > 1 else list_ex (\<lambda>p. \<not> inArea Q a p) (take 9 (tl tr))) then None
            else Some False)
      else Some False)"

text \<open>Approach: outside the area and within a nautical mile of its border.\<close>

definition metres :: "AlarmLogicConfig \<Rightarrow> point \<Rightarrow> point" where
  "metres al p = AlarmLatLongToMetres (basePointLat al) (basePointLon al) p"

definition c_trunc :: "real \<Rightarrow> real" where
  "c_trunc x = of_int (if 0 \<le> x then \<lfloor>x\<rfloor> else \<lceil>x\<rceil>)"

definition qpoint :: "point \<Rightarrow> point" where
  "qpoint p = (c_trunc (fst p), c_trunc (snd p))"

definition rect_corners :: "qrect \<Rightarrow> point list" where
  "rect_corners r = [fst r, (fst (snd r), snd (fst r)), snd r, (fst (fst r), snd (snd r))]"

definition border :: "point list \<Rightarrow> (point \<times> point) list" where
  "border ps = map (\<lambda>i. (ps ! i, if i < length ps - 1 then ps ! (i + 1) else ps ! 0)) [0 ..< length ps]"

definition near_border :: "judge_env \<Rightarrow> point list \<Rightarrow> point \<Rightarrow> bool" where
  "near_border E ps pt =
     (let m = (\<lambda>p. qpoint (metres (re_logic (je_rule E)) p)) in
      list_ex (\<lambda>(s, e). pointToSegmentDistance (je_isNull E) (m pt) (m s) (m e) < 1852) (border ps))"

definition approaches :: "judge_env \<Rightarrow> AlarmArea \<Rightarrow> point \<Rightarrow> bool" where
  "approaches E a pt =
     (if ar_type a = 1
      then (if rectContains (re_qarea (je_rule E)) (ar_rect a) pt then False else near_border E (rect_corners (ar_rect a)) pt)
      else if ar_type a = 2
      then circle_dist a pt > circle_radius a \<and> circle_dist a pt < circle_radius a + 1852
      else if ar_type a = 3
      then (if polygonContains (re_qarea (je_rule E)) (ar_polygon a) pt then False else near_border E (ar_polygon a) pt)
      else False)"

definition trail_long :: "'t \<Rightarrow> trail \<Rightarrow> bool option" where
  "trail_long t tr = Some (length tr > trailCount)"

text \<open>Direction along a road (area type 4): the distances of the first two trail points to a segment.\<close>

definition road_hit :: "judge_env \<Rightarrow> bool \<Rightarrow> AlarmArea \<Rightarrow> point \<Rightarrow> point \<Rightarrow> bool" where
  "road_hit E away a pt pt2 =
     (let m = metres (re_logic (je_rule E)); d = (\<lambda>p s e. pointToSegmentDistance (je_isNull E) (qpoint (m p)) (m s) (m e)) in
      ar_type a = 4 \<and>
      list_ex (\<lambda>(s, e). d pt s e < 1852 \<and> (if away then d pt s e > d pt2 s e else d pt s e < d pt2 s e))
        (zip (ar_road a) (tl (ar_road a))))"

text \<open>Only the first loop (fused tracks, direction 1) skips trails with fewer than two points.\<close>

definition direction_post :: "judge_env \<Rightarrow> bool \<Rightarrow> bool \<Rightarrow> AlarmArea \<Rightarrow> trail \<Rightarrow> bool option" where
  "direction_post E away skipShort a tr =
     (case tr of
        p # q # rest \<Rightarrow> Some (road_hit E away a p q)
      | _ \<Rightarrow> if skipShort then Some False else None)"

text \<open>Distance to the UAV.\<close>

definition uav_dist :: "judge_env \<Rightarrow> point \<Rightarrow> real" where
  "uav_dist E pt = GetDistance2 (fst (je_uav E)) (snd (je_uav E)) (fst pt) (snd pt)"

definition uav_within :: "judge_env \<Rightarrow> AlarmRule \<Rightarrow> point \<Rightarrow> bool" where
  "uav_within E info pt =
     (if rule_distance_condition info = 1 then uav_dist E pt \<le> of_int (rule_distance info)
      else uav_dist E pt > of_int (rule_distance info))"

definition uav_leaves :: "judge_env \<Rightarrow> AlarmRule \<Rightarrow> trail \<Rightarrow> bool" where
  "uav_leaves E info tr =
     (let r = of_int (rule_distance info) in
      if rule_speed_condition info = 1
      then \<not> uav_dist E (hd tr) \<le> r \<and> list_ex (\<lambda>p. uav_dist E p \<le> r) (tl tr)
      else if rule_speed_condition info = 2
      then \<not> uav_dist E (hd tr) > r \<and> list_ex (\<lambda>p. uav_dist E p > r) (tl tr)
      else False)"

definition uav_approaches :: "judge_env \<Rightarrow> AlarmRule \<Rightarrow> point \<Rightarrow> bool" where
  "uav_approaches E info pt =
     (let r = of_int (rule_distance info); d = uav_dist E pt in
      if rule_distance_condition info = 1 then d \<le> r + 1852 \<and> d > r else d \<le> r \<and> d > r - 1852)"

section \<open>The candidates of one rule\<close>

text \<open>A batch: the type and the radar source passed to \<open>updataAlarmTrackToDB\<close>, and the ids inserted.\<close>

type_synonym batch = "int \<times> int \<times> int list"

definition no_batch :: batch where
  "no_batch = (0, 0, [])"

definition of_scan :: "(int list \<Rightarrow> trail_map \<Rightarrow> batch \<times> judge_tables) \<Rightarrow> (int list \<times> trail_map) option
    \<Rightarrow> (batch \<times> judge_tables) run" where
  "of_scan f r = (case r of None \<Rightarrow> Undefined | Some (ids, trails) \<Rightarrow> Ok (f ids trails))"

text \<open>The three loops over a track table with the key (or, for AIS where the code does, the MMSI) inserted.\<close>

definition fuse_scan :: "(SPxTrack \<Rightarrow> bool) \<Rightarrow> (SPxTrack \<Rightarrow> trail \<Rightarrow> bool option) \<Rightarrow> judge_tables
    \<Rightarrow> (batch \<times> judge_tables) run" where
  "fuse_scan pre post J =
     of_scan (\<lambda>ids trails. ((0, 0, ids), J\<lparr>jt_fuseTrail := trails\<rparr>))
       (scan_tracks pre post (\<lambda>k t. k) (jt_fuse J) (jt_fuseTrail J))"

definition radar_scan :: "(SPxTrack \<Rightarrow> bool) \<Rightarrow> (SPxTrack \<Rightarrow> trail \<Rightarrow> bool option) \<Rightarrow> judge_tables
    \<Rightarrow> (batch \<times> judge_tables) run" where
  "radar_scan pre post J =
     of_scan (\<lambda>ids trails. ((1, 0, ids), J\<lparr>jt_radarTrail := trails\<rparr>))
       (scan_tracks pre post (\<lambda>k t. k) (jt_radar J) (jt_radarTrail J))"

definition ais_scan :: "(AISTrack \<Rightarrow> bool) \<Rightarrow> (AISTrack \<Rightarrow> trail \<Rightarrow> bool option) \<Rightarrow> bool \<Rightarrow> judge_tables
    \<Rightarrow> (batch \<times> judge_tables) run" where
  "ais_scan pre post byMmsi J =
     of_scan (\<lambda>ids trails. ((2, 0, ids), J\<lparr>jt_aisTrail := trails\<rparr>))
       (scan_tracks pre post (\<lambda>k t. if byMmsi then MMSI t else k) (jt_ais J) (jt_aisTrail J))"

definition bird_scan :: "int \<Rightarrow> int \<Rightarrow> (SPxTrack \<Rightarrow> bool) \<Rightarrow> (SPxTrack \<Rightarrow> trail \<Rightarrow> bool option) \<Rightarrow> judge_tables
    \<Rightarrow> (batch \<times> judge_tables) run" where
  "bird_scan type src pre post J =
     of_scan (\<lambda>ids trails. ((type, src, ids), J\<lparr>jt_birdTrail := trails\<rparr>))
       (scan_tracks pre post (\<lambda>k t. k) (jt_bird J) (jt_birdTrail J))"

definition trail_batch :: "int \<Rightarrow> int list option \<Rightarrow> judge_tables \<Rightarrow> (batch \<times> judge_tables) run" where
  "trail_batch type r J = (case r of None \<Rightarrow> Undefined | Some ids \<Rightarrow> Ok ((type, 0, ids), J))"

text \<open>\<open>area_judge == 1\<close>: staying in the area.\<close>

definition judge_stay :: "judge_env \<Rightarrow> AlarmArea \<Rightarrow> AlarmRule \<Rightarrow> judge_tables \<Rightarrow> (batch \<times> judge_tables) run" where
  "judge_stay E a info J =
     (let Q = re_qarea (je_rule E); al = re_logic (je_rule E); inA = (\<lambda>t. inArea Q a (track_pt t)) in
      if rule_track_type info = 0
      then fuse_scan inA (\<lambda>t. stay_post Q a info (altitudeMetres t)) J
      else if rule_track_type info = 1
      then radar_scan inA (\<lambda>t. if ar_type a = 2 then radar_circle_post Q a else stay_post Q a info (altitudeMetres t)) J
      else if rule_track_type info = 2
      then (if ar_type a = 2 then ais_scan (\<lambda>t. inArea Q a (ais_pt t)) trail_long True J
            else ais_scan (\<lambda>t. inArea Q a (ais_pt t)) (\<lambda>t. stay_post Q a info 0) False J)
      else if rule_track_type info = 3
      then bird_scan 3 9 (\<lambda>t. (cfg_mode al = 0 \<longrightarrow> min_reserved1 t = 3) \<and> inA t) (bird_stay_post a info) J
      else if rule_track_type info = 4
      then bird_scan 1 7 inA (drone_stay_post Q a info) J
      else Ok (no_batch, J))"

text \<open>
  \<open>area_judge == 4\<close>: entering.  The loop over the fused trails does not advance on an empty trail
  (\<open>None\<close>: it never returns).
\<close>

partial_function (option) enter_loop :: "(trail \<Rightarrow> bool) \<Rightarrow> trail_map \<Rightarrow> int list option" where
  "enter_loop P m =
     (if m = [] then Some []
      else if snd (hd m) = [] then enter_loop P m
      else Option.bind (enter_loop P (tl m)) (\<lambda>ids. Some (if P (snd (hd m)) then fst (hd m) # ids else ids)))"

definition judge_enter :: "judge_env \<Rightarrow> AlarmArea \<Rightarrow> AlarmRule \<Rightarrow> judge_tables \<Rightarrow> (batch \<times> judge_tables) run" where
  "judge_enter E a info J =
     (let Q = re_qarea (je_rule E) in
      if rule_track_type info = 0
      then (case enter_loop (enters Q a) (jt_fuseTrail J) of
              None \<Rightarrow> Forever
            | Some ids \<Rightarrow>
                of_scan (\<lambda>none trails. ((0, 0, ids), J\<lparr>jt_birdTrail := trails\<rparr>))
                  (scan_tracks (\<lambda>t. inArea Q a (track_pt t) \<and> min_reserved1 t = 3 \<and> in_height info (altitudeMetres t))
                     (bird_enter_post Q a info) (\<lambda>k t. k) (jt_bird J) (jt_birdTrail J)))
      else if rule_track_type info = 1
      then trail_batch 1 (scan_trails (on_nonempty (enters Q a)) (jt_radarTrail J)) J
      else if rule_track_type info = 2
      then trail_batch 2 (scan_trails (on_nonempty (enters Q a)) (jt_aisTrail J)) J
      else Ok (no_batch, J))"

text \<open>A rule on the trails of fused, radar or AIS tracks; on the tracks with a trail of more than two points.\<close>

definition judge_trails :: "(trail \<Rightarrow> bool option) \<Rightarrow> (trail \<Rightarrow> bool option) \<Rightarrow> AlarmRule \<Rightarrow> judge_tables
    \<Rightarrow> (batch \<times> judge_tables) run" where
  "judge_trails fusePost post info J =
     (if rule_track_type info = 0 then trail_batch 0 (scan_trails fusePost (jt_fuseTrail J)) J
      else if rule_track_type info = 1 then trail_batch 1 (scan_trails post (jt_radarTrail J)) J
      else if rule_track_type info = 2 then trail_batch 2 (scan_trails post (jt_aisTrail J)) J
      else Ok (no_batch, J))"

definition judge_tracks :: "(point \<Rightarrow> real \<Rightarrow> bool) \<Rightarrow> bool \<Rightarrow> AlarmRule \<Rightarrow> judge_tables \<Rightarrow> (batch \<times> judge_tables) run" where
  "judge_tracks cond byMmsi info J =
     (if rule_track_type info = 0 then fuse_scan (\<lambda>t. cond (track_pt t) (speedMps t)) trail_long J
      else if rule_track_type info = 1 then radar_scan (\<lambda>t. cond (track_pt t) (speedMps t)) trail_long J
      else if rule_track_type info = 2 then ais_scan (\<lambda>t. cond (ais_pt t) (ais_speed t)) trail_long byMmsi J
      else Ok (no_batch, J))"

definition judge_leave :: "judge_env \<Rightarrow> AlarmArea \<Rightarrow> AlarmRule \<Rightarrow> judge_tables \<Rightarrow> (batch \<times> judge_tables) run" where
  "judge_leave E a = judge_trails (on_nonempty (leaves (re_qarea (je_rule E)) a)) (on_nonempty (leaves (re_qarea (je_rule E)) a))"

definition judge_approach :: "judge_env \<Rightarrow> AlarmArea \<Rightarrow> AlarmRule \<Rightarrow> judge_tables \<Rightarrow> (batch \<times> judge_tables) run" where
  "judge_approach E a = judge_tracks (\<lambda>pt v. approaches E a pt) True"

definition judge_speed :: "AlarmRule \<Rightarrow> judge_tables \<Rightarrow> (batch \<times> judge_tables) run" where
  "judge_speed info =
     judge_tracks (\<lambda>pt v. if rule_speed_condition info = 1 then v \<le> of_int (rule_speed info)
                          else v > of_int (rule_speed info)) False info"

definition judge_direction :: "judge_env \<Rightarrow> AlarmArea \<Rightarrow> AlarmRule \<Rightarrow> judge_tables \<Rightarrow> (batch \<times> judge_tables) run" where
  "judge_direction E a info =
     (if rule_direction info = 1 then judge_trails (direction_post E True True a) (direction_post E True False a) info
      else judge_trails (direction_post E False False a) (direction_post E False False a) info)"

text \<open>The rules without an area: every target (group and area -10), distance to the UAV (-20).\<close>

definition judge_everywhere :: "AlarmRule \<Rightarrow> judge_tables \<Rightarrow> (batch \<times> judge_tables) run" where
  "judge_everywhere info J =
     (if rule_area_judge info = 1
      then (if rule_track_type info = 0 then Ok ((0, 0, map fst (jt_fuse J)), J)
            else if rule_track_type info = 1 then Ok ((1, 0, map fst (jt_radar J)), J)
            else if rule_track_type info = 2 then Ok ((2, 0, map fst (jt_ais J)), J)
            else Ok (no_batch, J))
      else Ok (no_batch, J))"

definition judge_uav :: "judge_env \<Rightarrow> AlarmRule \<Rightarrow> judge_tables \<Rightarrow> (batch \<times> judge_tables) run" where
  "judge_uav E info =
     (if rule_area_judge info = 1 then judge_tracks (\<lambda>pt v. uav_within E info pt) False info
      else if rule_area_judge info = 2
      then judge_trails (on_nonempty (uav_leaves E info)) (on_nonempty (uav_leaves E info)) info
      else if rule_area_judge info = 3 then judge_tracks (\<lambda>pt v. uav_approaches E info pt) False info
      else (\<lambda>J. Ok (no_batch, J)))"

definition has_area :: "AlarmRule \<Rightarrow> bool" where
  "has_area info = (rule_group_id info \<ge> 0 \<and> rule_area_id info \<ge> 0)"

definition judge_rule :: "judge_env \<Rightarrow> AlarmArea \<Rightarrow> AlarmRule \<Rightarrow> judge_tables \<Rightarrow> (batch \<times> judge_tables) run" where
  "judge_rule E a info J =
     (if has_area info
      then (if rule_area_judge info = 1 then judge_stay E a info J
            else if rule_area_judge info = 4 then judge_enter E a info J
            else if rule_area_judge info = 2 then judge_leave E a info J
            else if rule_area_judge info = 3 then judge_approach E a info J
            else if rule_speed_condition info = 1 \<or> rule_speed_condition info = 2 then judge_speed info J
            else if rule_direction info = 1 \<or> rule_direction info = 2 then judge_direction E a info J
            else Ok (no_batch, J))
      else if rule_group_id info = -10 \<and> rule_area_id info = -10 then judge_everywhere info J
      else if rule_group_id info = -20 \<and> rule_area_id info = -20 then judge_uav E info J
      else Ok (no_batch, J))"

section \<open>Facts: what the loops over the tables collect\<close>

lemma qm_value_touch [simp]: "qm_value (touch k m) k' [] = qm_value m k' []"
  by (auto simp: touch_def qm_value_def split: option.splits)

definition touched :: "('t \<Rightarrow> bool) \<Rightarrow> (int \<times> 't) list \<Rightarrow> trail_map \<Rightarrow> trail_map" where
  "touched pre ts m = fold (\<lambda>p m. if pre (snd p) then touch (fst p) m else m) ts m"

abbreviation verdict :: "('t \<Rightarrow> bool) \<Rightarrow> ('t \<Rightarrow> trail \<Rightarrow> bool option) \<Rightarrow> trail_map \<Rightarrow> int \<times> 't \<Rightarrow> bool option" where
  "verdict pre post m p \<equiv> (if pre (snd p) then post (snd p) (qm_value m (fst p) []) else Some False)"

lemma qm_value_touched [simp]: "qm_value (touched pre ts m) k [] = qm_value m k []"
  unfolding touched_def by (induction ts arbitrary: m) auto

lemma verdict_touch: "verdict pre post (touch k m) = verdict pre post m"
  by (rule ext) simp

lemma scan_tracks_spec:
  "scan_tracks pre post idf ts m =
     (if \<exists>p \<in> set ts. verdict pre post m p = None then None
      else Some (map (\<lambda>p. idf (fst p) (snd p)) (filter (\<lambda>p. verdict pre post m p = Some True) ts), touched pre ts m))"
proof (induction ts arbitrary: m)
  case Nil
  show ?case by (simp add: touched_def)
next
  case (Cons p ts)
  obtain k t where p: "p = (k, t)" by (cases p)
  show ?case
  proof (cases "pre t")
    case False
    then show ?thesis by (simp add: p Cons.IH touched_def)
  next
    case True
    then show ?thesis
      by (cases "post t (qm_value m k [])") (auto simp: p Cons.IH verdict_touch touched_def)
  qed
qed

lemma scan_trails_spec:
  "scan_trails post m =
     (if \<exists>p \<in> set m. post (snd p) = None then None else Some (map fst (filter (\<lambda>p. post (snd p) = Some True) m)))"
  by (induction post m rule: scan_trails.induct) (auto split: option.splits)

text \<open>A loop whose decision is always defined.\<close>

lemma scan_tracks_total:
  assumes "\<And>t tr. pre t \<Longrightarrow> post t tr = Some (P t tr)"
  shows "scan_tracks pre post idf ts m =
    Some ([idf k t. (k, t) \<leftarrow> ts, pre t \<and> P t (qm_value m k [])], touched pre ts m)"
proof -
  have "verdict pre post m p = Some (pre (snd p) \<and> P (snd p) (qm_value m (fst p) []))" for p
    using assms by simp
  moreover have "map (\<lambda>p. idf (fst p) (snd p)) (filter (\<lambda>p. pre (snd p) \<and> P (snd p) (qm_value m (fst p) [])) ts) =
      [idf k t. (k, t) \<leftarrow> ts, pre t \<and> P t (qm_value m k [])]"
    by (induction ts) auto
  ultimately show ?thesis by (simp add: scan_tracks_spec)
qed

lemmas scan_defs = fuse_scan_def radar_scan_def ais_scan_def bird_scan_def trail_batch_def of_scan_def
  scan_tracks_spec scan_trails_spec

text \<open>The loop over the fused trails returns exactly when no trail is empty.\<close>

lemma enter_loop_Cons [simp]:
  "tr \<noteq> [] \<Longrightarrow> enter_loop P ((k, tr) # m) =
     Option.bind (enter_loop P m) (\<lambda>ids. Some (if P tr then k # ids else ids))"
  by (subst enter_loop.simps) (simp cong del: if_weak_cong)

lemma enter_loop_Nil [simp]: "enter_loop P [] = Some []"
  by (subst enter_loop.simps) simp

lemma enter_loop_nonempty: "enter_loop P m = Some ids \<Longrightarrow> \<forall>p \<in> set m. snd p \<noteq> []"
proof -
  assume "enter_loop P m = Some ids"
  then have "(case (P, m) of (P, m) \<Rightarrow> \<forall>p \<in> set m. snd p \<noteq> [])"
  proof (rule enter_loop.raw_induct[rotated])
    fix loop :: "(trail \<Rightarrow> bool) \<Rightarrow> trail_map \<Rightarrow> int list option" and P m ids
    assume rest: "\<And>P m ids. loop P m = Some ids \<Longrightarrow> (case (P, m) of (P, m) \<Rightarrow> \<forall>p \<in> set m. snd p \<noteq> [])"
      and "(if m = [] then Some [] else if snd (hd m) = [] then loop P m
            else Option.bind (loop P (tl m)) (\<lambda>ids. Some (if P (snd (hd m)) then fst (hd m) # ids else ids))) = Some ids"
    then show "case (P, m) of (P, m) \<Rightarrow> \<forall>p \<in> set m. snd p \<noteq> []"
      by (cases m) (auto split: if_splits simp: bind_eq_Some_conv dest: rest)
  qed
  then show ?thesis by simp
qed

lemma enter_loop_spec:
  "enter_loop P m = (if \<forall>p \<in> set m. snd p \<noteq> [] then Some (map fst (filter (\<lambda>p. P (snd p)) m)) else None)"
proof (cases "\<forall>p \<in> set m. snd p \<noteq> []")
  case True
  then show ?thesis
  proof (induction m)
    case (Cons p m)
    then show ?case by (cases p) simp
  qed simp
next
  case False
  then have "enter_loop P m = None" using enter_loop_nonempty[of P m] by (cases "enter_loop P m") auto
  with False show ?thesis by (simp only: if_False)
qed

section \<open>Facts: the candidates of the area rules\<close>

text \<open>The ids of a batch that a rule hands over, as one value; \<open>None\<close> when the rule does not return.\<close>

definition batch_of :: "('b \<times> judge_tables) run \<Rightarrow> 'b option" where
  "batch_of r = (case r of Ok (b, J) \<Rightarrow> Some b | _ \<Rightarrow> None)"

lemma list_all_take: "n \<le> length xs \<Longrightarrow> list_all P (take n xs) = (\<forall>i<n. P (xs ! i))"
  by (auto simp: list_all_length)

definition dwells :: "qt_area \<Rightarrow> AlarmArea \<Rightarrow> AlarmRule \<Rightarrow> SPxTrack \<Rightarrow> trail \<Rightarrow> bool" where
  "dwells Q a info t tr \<longleftrightarrow> inArea Q a (track_pt t) \<and> in_height info (altitudeMetres t) \<and>
     10 < length tr \<and> (\<forall>i<10. inArea Q a (tr ! i))"

lemma stay_post_dwells:
  "inArea Q a (track_pt t) \<Longrightarrow> stay_post Q a info (altitudeMetres t) tr = Some (dwells Q a info t tr)"
  by (auto simp: stay_post_def dwells_def trackCount_def list_all_take)

lemma judge_stay_fuse:
  assumes "rule_track_type info = 0"
  shows "judge_stay E a info J =
    Ok ((0, 0, [k. (k, t) \<leftarrow> jt_fuse J, dwells (re_qarea (je_rule E)) a info t (qm_value (jt_fuseTrail J) k [])]),
        J\<lparr>jt_fuseTrail := touched (\<lambda>t. inArea (re_qarea (je_rule E)) a (track_pt t)) (jt_fuse J) (jt_fuseTrail J)\<rparr>)"
proof -
  let ?Q = "re_qarea (je_rule E)"
  have "(inArea ?Q a (track_pt t) \<and> dwells ?Q a info t tr) = dwells ?Q a info t tr" for t tr by (auto simp: dwells_def)
  then show ?thesis
    using assms scan_tracks_total[where idf = "\<lambda>k t. k" and ts = "jt_fuse J" and m = "jt_fuseTrail J",
        OF stay_post_dwells[of ?Q a _ info]]
    by (simp add: judge_stay_def Let_def fuse_scan_def of_scan_def)
qed

text \<open>The other loops of the stay rule.\<close>

lemma stays_with_height:
  "stay_post Q a info h tr = Some (in_height info h \<and> 10 < length tr \<and> (\<forall>i<10. inArea Q a (tr ! i)))"
  by (auto simp: stay_post_def trackCount_def list_all_take)

lemma stay_in_radar_circle:
  "scan_tracks (\<lambda>t. inArea Q a (track_pt t)) (\<lambda>t. radar_circle_post Q a) (\<lambda>k t. k) ts m =
     (if \<exists>(k, t) \<in> set ts. inArea Q a (track_pt t) \<and> length (qm_value m k []) < 10 \<and> list_all (inArea Q a) (qm_value m k []) then None
      else Some ([k. (k, t) \<leftarrow> ts, inArea Q a (track_pt t) \<and> 10 \<le> length (qm_value m k []) \<and> (\<forall>i<10. inArea Q a (qm_value m k [] ! i))],
        touched (\<lambda>t. inArea Q a (track_pt t)) ts m))"
proof -
  have v: "radar_circle_post Q a tr = (if length tr < 10 \<and> list_all (inArea Q a) tr then None else Some (10 \<le> length tr \<and> (\<forall>i<10. inArea Q a (tr ! i))))"
    for tr by (auto simp: radar_circle_post_def trackCount_def list_all_take)
  have "map fst (filter (\<lambda>p. verdict (\<lambda>t. inArea Q a (track_pt t)) (\<lambda>t. radar_circle_post Q a) m p = Some True) ts) =
      [k. (k, t) \<leftarrow> ts, inArea Q a (track_pt t) \<and> 10 \<le> length (qm_value m k []) \<and> (\<forall>i<10. inArea Q a (qm_value m k [] ! i))]"
    by (induction ts) (auto simp: v)
  moreover have "(\<exists>p \<in> set ts. verdict (\<lambda>t. inArea Q a (track_pt t)) (\<lambda>t. radar_circle_post Q a) m p = None) \<longleftrightarrow>
      (\<exists>(k, t) \<in> set ts. inArea Q a (track_pt t) \<and> length (qm_value m k []) < 10 \<and> list_all (inArea Q a) (qm_value m k []))"
  proof -
    have "verdict (\<lambda>t. inArea Q a (track_pt t)) (\<lambda>t. radar_circle_post Q a) m p = None \<longleftrightarrow>
        inArea Q a (track_pt (snd p)) \<and> length (qm_value m (fst p) []) < 10 \<and> list_all (inArea Q a) (qm_value m (fst p) [])" for p by (simp add: v)
    then show ?thesis by (simp only:) (force simp: Bex_def)
  qed
  ultimately show ?thesis by (simp add: scan_tracks_spec)
qed

text \<open>
  C8. Who stays in an area, on every branch of the rule. The rule hands over, in key order:
  fused tracks, and radar tracks unless the area is a circle, that are in the area now, within the heights, and have more than ten trail points of which
  the ten oldest are in the area;
  radar tracks in a circle that are in it now and whose ten oldest points are, without a look at the height; a track in the circle with fewer than ten
  points, all of them in it, makes the code read beyond the trail (no result);
  AIS tracks like fused ones with the height 0, and in a circle, under their MMSI, all that are in it with more than two points;
  birds of the air table (in mode 0 only drones) in the area with more than two points, whose height is above the lower or below the upper bound;
  drones of the air table like fused tracks, in a polygon with the bounds excluded.
\<close>

theorem stay_candidates_exact:
  assumes "Q = re_qarea (je_rule E)" and "run = (\<lambda>n. batch_of (judge_stay E a (info\<lparr>rule_track_type := n\<rparr>) J))"
    and "low = of_int (rule_height_min info)" and "high = of_int (rule_height_max info)"
    and "stays = (\<lambda>tr. 10 < length tr \<and> (\<forall>i<10. inArea Q a (tr ! i)))"
  shows "run 0 = Some (0, 0, [k. (k, t) \<leftarrow> jt_fuse J, inArea Q a (track_pt t) \<and> low \<le> altitudeMetres t \<and> altitudeMetres t \<le> high \<and>
        stays (qm_value (jt_fuseTrail J) k [])]) \<and>
    run 1 = (if ar_type a = 2
      then (if \<exists>(k, t) \<in> set (jt_radar J). inArea Q a (track_pt t) \<and> length (qm_value (jt_radarTrail J) k []) < 10 \<and>
                 list_all (inArea Q a) (qm_value (jt_radarTrail J) k []) then None
            else Some (1, 0, [k. (k, t) \<leftarrow> jt_radar J, inArea Q a (track_pt t) \<and> 10 \<le> length (qm_value (jt_radarTrail J) k []) \<and>
                 (\<forall>i<10. inArea Q a (qm_value (jt_radarTrail J) k [] ! i))]))
      else Some (1, 0, [k. (k, t) \<leftarrow> jt_radar J, inArea Q a (track_pt t) \<and> low \<le> altitudeMetres t \<and> altitudeMetres t \<le> high \<and>
             stays (qm_value (jt_radarTrail J) k [])])) \<and>
    run 2 = Some (2, 0, if ar_type a = 2
      then [MMSI t. (k, t) \<leftarrow> jt_ais J, inArea Q a (ais_pt t) \<and> 2 < length (qm_value (jt_aisTrail J) k [])]
      else [k. (k, t) \<leftarrow> jt_ais J, inArea Q a (ais_pt t) \<and> low \<le> 0 \<and> 0 \<le> high \<and> stays (qm_value (jt_aisTrail J) k [])]) \<and>
    run 3 = Some (3, 9, [k. (k, t) \<leftarrow> jt_bird J, (cfg_mode (re_logic (je_rule E)) = 0 \<longrightarrow> min_reserved1 t = 3) \<and> inArea Q a (track_pt t) \<and>
      2 < length (qm_value (jt_birdTrail J) k []) \<and>
      (if ar_type a = 3 then low < altitudeMetres t \<or> altitudeMetres t < high else low \<le> altitudeMetres t \<or> altitudeMetres t \<le> high)]) \<and>
    run 4 = Some (1, 7, [k. (k, t) \<leftarrow> jt_bird J, inArea Q a (track_pt t) \<and> min_reserved1 t = 3 \<and>
      (if ar_type a = 3 then low < altitudeMetres t \<and> altitudeMetres t < high else low \<le> altitudeMetres t \<and> altitudeMetres t \<le> high) \<and>
      stays (qm_value (jt_birdTrail J) k [])])"
proof -
  have h: "in_height (info\<lparr>rule_track_type := n\<rparr>) x \<longleftrightarrow> low \<le> x \<and> x \<le> high" for n x by (auto simp: in_height_def assms(3,4))
  note run_def = assms(2) judge_stay_def Let_def batch_of_def of_scan_def assms(1)[symmetric]
  note stay = stays_with_height[of Q a "info\<lparr>rule_track_type := n\<rparr>" for n, unfolded h, folded fun_cong[OF assms(5)]]
  have "run 0 = Some (0, 0, [k. (k, t) \<leftarrow> jt_fuse J, inArea Q a (track_pt t) \<and> (low \<le> altitudeMetres t \<and> altitudeMetres t \<le> high) \<and>
      stays (qm_value (jt_fuseTrail J) k [])])"
    using scan_tracks_total[where idf = "\<lambda>k t. k" and ts = "jt_fuse J" and m = "jt_fuseTrail J" and pre = "\<lambda>t. inArea Q a (track_pt t)", OF stay]
    by (simp add: run_def fuse_scan_def)
  moreover have "run 1 = Some (1, 0, [k. (k, t) \<leftarrow> jt_radar J, inArea Q a (track_pt t) \<and> (low \<le> altitudeMetres t \<and> altitudeMetres t \<le> high) \<and>
      stays (qm_value (jt_radarTrail J) k [])])" if "ar_type a \<noteq> 2"
    using scan_tracks_total[where idf = "\<lambda>k t. k" and ts = "jt_radar J" and m = "jt_radarTrail J" and pre = "\<lambda>t. inArea Q a (track_pt t)", OF stay] that
    by (simp add: run_def radar_scan_def)
  moreover have "run 1 = (if \<exists>(k, t) \<in> set (jt_radar J). inArea Q a (track_pt t) \<and> length (qm_value (jt_radarTrail J) k []) < 10 \<and>
          list_all (inArea Q a) (qm_value (jt_radarTrail J) k []) then None
        else Some (1, 0, [k. (k, t) \<leftarrow> jt_radar J, inArea Q a (track_pt t) \<and> 10 \<le> length (qm_value (jt_radarTrail J) k []) \<and>
          (\<forall>i<10. inArea Q a (qm_value (jt_radarTrail J) k [] ! i))]))" if "ar_type a = 2"
    using stay_in_radar_circle[of Q a "jt_radar J" "jt_radarTrail J"] that by (simp add: run_def radar_scan_def)
  moreover have "run 2 = Some (2, 0, [MMSI t. (k, t) \<leftarrow> jt_ais J, inArea Q a (ais_pt t) \<and> 2 < length (qm_value (jt_aisTrail J) k [])])" if "ar_type a = 2"
    using scan_tracks_total[where idf = "\<lambda>k. MMSI" and ts = "jt_ais J" and m = "jt_aisTrail J" and pre = "\<lambda>t. inArea Q a (ais_pt t)"
        and post = trail_long and P = "\<lambda>t tr. 2 < length tr"] that
    by (simp add: run_def ais_scan_def trail_long_def trailCount_def)
  moreover have "run 2 = Some (2, 0, [k. (k, t) \<leftarrow> jt_ais J, inArea Q a (ais_pt t) \<and> (low \<le> 0 \<and> 0 \<le> high) \<and> stays (qm_value (jt_aisTrail J) k [])])"
    if "ar_type a \<noteq> 2"
    using scan_tracks_total[where idf = "\<lambda>k t. k" and ts = "jt_ais J" and m = "jt_aisTrail J" and pre = "\<lambda>t. inArea Q a (ais_pt t)", OF stay] that
    by (simp add: run_def ais_scan_def)
  moreover have "run 3 = Some (3, 9, [k. (k, t) \<leftarrow> jt_bird J, ((cfg_mode (re_logic (je_rule E)) = 0 \<longrightarrow> min_reserved1 t = 3) \<and> inArea Q a (track_pt t)) \<and>
      2 < length (qm_value (jt_birdTrail J) k []) \<and>
      (if ar_type a = 3 then low < altitudeMetres t \<or> altitudeMetres t < high else low \<le> altitudeMetres t \<or> altitudeMetres t \<le> high)])"
    using scan_tracks_total[where idf = "\<lambda>k t. k" and ts = "jt_bird J" and m = "jt_birdTrail J"
        and pre = "\<lambda>t. (cfg_mode (re_logic (je_rule E)) = 0 \<longrightarrow> min_reserved1 t = 3) \<and> inArea Q a (track_pt t)"
        and post = "bird_stay_post a (info\<lparr>rule_track_type := 3\<rparr>)" and P = "\<lambda>t tr. 2 < length tr \<and>
          (if ar_type a = 3 then low < altitudeMetres t \<or> altitudeMetres t < high else low \<le> altitudeMetres t \<or> altitudeMetres t \<le> high)"]
    by (simp add: run_def bird_scan_def bird_stay_post_def trailCount_def assms(3,4))
  moreover have "run 4 = Some (1, 7, [k. (k, t) \<leftarrow> jt_bird J, inArea Q a (track_pt t) \<and> min_reserved1 t = 3 \<and>
      (if ar_type a = 3 then low < altitudeMetres t \<and> altitudeMetres t < high else low \<le> altitudeMetres t \<and> altitudeMetres t \<le> high) \<and>
      stays (qm_value (jt_birdTrail J) k [])])"
  proof -
    have "drone_stay_post Q a (info\<lparr>rule_track_type := 4\<rparr>) t tr = Some (min_reserved1 t = 3 \<and>
        (if ar_type a = 3 then low < altitudeMetres t \<and> altitudeMetres t < high else low \<le> altitudeMetres t \<and> altitudeMetres t \<le> high) \<and> stays tr)" for t tr
      unfolding drone_stay_post_def h assms(3-5) by (auto simp: trackCount_def list_all_take)
    from scan_tracks_total[where idf = "\<lambda>k t. k" and ts = "jt_bird J" and m = "jt_birdTrail J" and pre = "\<lambda>t. inArea Q a (track_pt t)", OF this]
    show ?thesis by (simp add: run_def bird_scan_def)
  qed
  ultimately show ?thesis by (cases "ar_type a = 2") (simp_all only: conj_assoc if_True if_False simp_thms not_True_eq_False)
qed

lemma key_in_filter:
  assumes "distinct (map fst m)" "(k, v) \<in> set m"
  shows "k \<in> set (map fst (filter (\<lambda>p. P (snd p)) m)) \<longleftrightarrow> P v"
  using assms by (force dest: eq_key_imp_eq_value)

text \<open>
  C9. Entering and leaving are swapped.  Trails list the oldest point first, the rules take the first point for the
  newest.  Consider a fused target that crossed the border once: \<open>old\<close> are its older trail points, all on one side
  (inside if \<open>b\<close>, at most nine), \<open>new\<close> the newer ones, all on the other.  The enter rule picks it exactly when it
  was inside before and is outside now, the leave rule exactly when it was outside before and is inside now.
\<close>

theorem enter_leave_swapped:
  assumes "rule_track_type info = 0" and "distinct (map fst (jt_fuseTrail J))"
    and "(k, old @ new) \<in> set (jt_fuseTrail J)" and "old \<noteq> []" and "new \<noteq> []" and "length old \<le> 9"
    and "\<forall>p \<in> set old. inArea (re_qarea (je_rule E)) a p = b" and "\<forall>p \<in> set new. inArea (re_qarea (je_rule E)) a p = (\<not> b)"
    and "judge_enter E a info J = Ok ((0, 0, entered), J1)" and "judge_leave E a info J = Ok ((0, 0, left), J2)"
  shows "(k \<in> set entered) = b \<and> (k \<in> set left) = (\<not> b)"
proof -
  let ?Q = "re_qarea (je_rule E)" and ?m = "jt_fuseTrail J"
  obtain p ps q qs where o: "old = p # ps" "new = q # qs" using assms(4,5) by (cases old; cases new) auto
  have e: "enters ?Q a (old @ new) = b"
  proof (cases b)
    case True
    have "q \<in> set (take 9 (ps @ q # qs))" using assms(6) o by (simp add: take_Cons')
    moreover have "\<not> inArea ?Q a q" using assms(8) o True by simp
    ultimately show ?thesis using assms(7) o True by (auto simp: enters_def list_ex_iff)
  qed (use assms(7) o in \<open>simp add: enters_def\<close>)
  have l: "leaves ?Q a (old @ new) = (\<not> b)"
    using assms(7,8) o by (auto simp: leaves_def list_ex_iff)
  have "enter_loop (enters ?Q a) ?m = Some entered"
    using assms(1,9) by (auto simp: judge_enter_def Let_def of_scan_def split: option.splits)
  then have "entered = map fst (filter (\<lambda>p. enters ?Q a (snd p)) ?m)"
    by (simp add: enter_loop_spec split: if_splits)
  moreover have "left = map fst (filter (\<lambda>p. on_nonempty (leaves ?Q a) (snd p) = Some True) ?m)"
    using assms(1,10)
    by (auto simp: judge_leave_def judge_trails_def trail_batch_def scan_trails_spec split: if_splits)
  ultimately show ?thesis
    using key_in_filter[OF assms(2,3), of "enters ?Q a"] e l assms(4)
      key_in_filter[OF assms(2,3), of "\<lambda>tr. on_nonempty (leaves ?Q a) tr = Some True"]
    by (simp only: on_nonempty_def append_is_Nil_conv if_False option.inject simp_thms)
qed

text \<open>A box area and tables on which the witnesses compute.\<close>

definition box_area :: AlarmArea where
  "box_area = empty_area\<lparr>ar_areaName := qs ''box'', ar_type := 1, ar_rect := ((0, 0), (20, 20))\<rparr>"

definition sample_judge :: judge_env where
  "sample_judge = \<lparr>je_rule = rules_env, je_order = (\<lambda>ids. ids), je_isNull = (\<lambda>x. x = 0), je_uav = (0, 0)\<rparr>"

definition no_tables :: judge_tables where
  "no_tables = \<lparr>jt_fuse = [], jt_radar = [], jt_bird = [], jt_ais = [], jt_fuseTrail = [], jt_radarTrail = [],
     jt_birdTrail = [], jt_aisTrail = []\<rparr>"

definition walk :: "nat \<Rightarrow> trail" where
  "walk n = map (\<lambda>i. (real i, 1)) [0 ..< n]"

definition sea_tables :: "trail \<Rightarrow> judge_tables" where
  "sea_tables tr = no_tables\<lparr>jt_fuse := [(7, zero_track\<lparr>latDegs := 11, longDegs := 1\<rparr>)], jt_fuseTrail := [(7, tr)]\<rparr>"

lemmas sample_judge_defs = sample_judge_def no_tables_def sea_tables_def rules_env_def

lemma inArea_box [simp]:
  "inArea sample_qt_area box_area p = (0 \<le> fst p \<and> fst p \<le> 20 \<and> 0 \<le> snd p \<and> snd p \<le> 20)"
  by (auto simp: inArea_def box_area_def empty_area_def sample_qt_area_def)

lemma sample_qarea [simp]: "re_qarea (je_rule sample_judge) = sample_qt_area"
  by (simp add: sample_judge_defs)

theorem stay_candidates_exact_witness:
  "batch_of (judge_stay sample_judge box_area (default_rule\<lparr>rule_track_type := 0\<rparr>) (sea_tables (walk 11))) = Some (0, 0, [7]) \<and>
   batch_of (judge_stay sample_judge (box_area\<lparr>ar_type := 2\<rparr>) (default_rule\<lparr>rule_track_type := 1\<rparr>) (sea_tables (walk 11))) = Some (1, 0, []) \<and>
   batch_of (judge_stay sample_judge box_area (default_rule\<lparr>rule_track_type := 4\<rparr>)
     (no_tables\<lparr>jt_bird := [(7, zero_track\<lparr>latDegs := 11, longDegs := 1, min_reserved1 := 3\<rparr>)], jt_birdTrail := [(7, walk 11)]\<rparr>)) = Some (1, 7, [7])"
proof -
  note at = stay_candidates_exact[OF refl refl refl refl refl, where E = sample_judge and info = default_rule]
  have "batch_of (judge_stay sample_judge box_area (default_rule\<lparr>rule_track_type := 0\<rparr>) (sea_tables (walk 11))) = Some (0, 0, [7])"
    using conjunct1[OF at[of box_area "sea_tables (walk 11)"]]
    by (simp add: sea_tables_def no_tables_def qm_value_def track_pt_def default_rule_def zero_track_def walk_def)
  moreover have "batch_of (judge_stay sample_judge (box_area\<lparr>ar_type := 2\<rparr>) (default_rule\<lparr>rule_track_type := 1\<rparr>) (sea_tables (walk 11))) = Some (1, 0, [])"
    using conjunct1[OF conjunct2[OF at[of "box_area\<lparr>ar_type := 2\<rparr>" "sea_tables (walk 11)"]]]
    by (simp add: sea_tables_def no_tables_def)
  moreover have "batch_of (judge_stay sample_judge box_area (default_rule\<lparr>rule_track_type := 4\<rparr>)
     (no_tables\<lparr>jt_bird := [(7, zero_track\<lparr>latDegs := 11, longDegs := 1, min_reserved1 := 3\<rparr>)], jt_birdTrail := [(7, walk 11)]\<rparr>)) = Some (1, 7, [7])"
    using at[of box_area "no_tables\<lparr>jt_bird := [(7, zero_track\<lparr>latDegs := 11, longDegs := 1, min_reserved1 := 3\<rparr>)], jt_birdTrail := [(7, walk 11)]\<rparr>"]
    by (simp add: box_area_def[THEN arg_cong[of _ _ ar_type]] empty_area_def no_tables_def qm_value_def track_pt_def default_rule_def zero_track_def walk_def)
  ultimately show ?thesis by blast
qed

theorem enter_leave_swapped_witness:
  "\<exists>entered left J1 J2. judge_enter sample_judge box_area default_rule (sea_tables [(- 1, 1), (1, 1)]) = Ok ((0, 0, entered), J1) \<and>
     judge_leave sample_judge box_area default_rule (sea_tables [(- 1, 1), (1, 1)]) = Ok ((0, 0, left), J2) \<and>
     7 \<notin> set entered \<and> 7 \<in> set left"
proof -
  let ?J = "sea_tables [(- 1, 1), (1, 1)]"
  obtain entered J1 where e: "judge_enter sample_judge box_area default_rule ?J = Ok ((0, 0, entered), J1)"
    by (simp add: judge_enter_def default_rule_def enter_loop_spec of_scan_def sea_tables_def no_tables_def Let_def)
  obtain left J2 where l: "judge_leave sample_judge box_area default_rule ?J = Ok ((0, 0, left), J2)"
    by (simp add: judge_leave_def judge_trails_def default_rule_def trail_batch_def scan_trails_spec on_nonempty_def
        sea_tables_def no_tables_def)
  have "(7 \<in> set entered) = False \<and> (7 \<in> set left) = (\<not> False)"
    by (rule enter_leave_swapped[OF _ _ _ _ _ _ _ _ e l, where old = "[(- 1, 1)]" and new = "[(1, 1)]"])
      (simp_all add: sea_tables_def default_rule_def)
  with e l show ?thesis by blast
qed

text \<open>
  A stay rule needs a moving target: a fused target whose trail was built by the ingest from the reports \<open>trks\<close>
  is a candidate of a stay rule only after reports of at least eleven different positions, because the trail takes in
  no position twice and the rule asks for more than ten points.
\<close>

theorem stay_needs_eleven_positions:
  assumes "\<And>p. same p p" and "rule_track_type info = 0"
    and "batch_of (judge_stay E a info J) = Some (ty, src, ids)" and "k \<in> set ids"
    and "distinct (map fst (jt_fuse J))" and "map_of (jt_fuseTrail J) k = Some (trail_run same n trks)"
  shows "11 \<le> card (position ` set trks)"
proof -
  let ?Q = "re_qarea (je_rule E)" and ?tr = "trail_run same n trks"
  have "k \<in> set [k. (k, t) \<leftarrow> jt_fuse J, dwells ?Q a info t (qm_value (jt_fuseTrail J) k [])]"
    using assms(2-4) judge_stay_fuse[of info E a J] by (simp add: batch_of_def)
  then have len: "10 < length ?tr" using assms(6) by (auto simp: dwells_def qm_value_def)
  have "sorted_wrt (\<lambda>q p. \<not> same q p) ?tr"
    using trail_run_ok[of same n trks] by (simp add: trail_ok_def)
  then have "distinct ?tr"
    unfolding sorted_wrt_iff_nth_less distinct_conv_nth using assms(1) by (metis nat_neq_iff)
  then have "length ?tr = card (set ?tr)" by (simp add: distinct_card)
  also have "\<dots> \<le> card (position ` set trks)"
    using list_emb_set[OF trail_run_subseq[of same n trks]] by (intro card_mono) auto
  finally show ?thesis using len by simp
qed

theorem stay_needs_eleven_positions_witness:
  "11 \<le> card (position ` set (map (\<lambda>i. zero_track\<lparr>latDegs := real i, longDegs := 1\<rparr>) [0 ..< 11]))"
proof -
  let ?trks = "map (\<lambda>i. zero_track\<lparr>latDegs := real i, longDegs := 1\<rparr>) [0 ..< 11]"
  have r: "trail_run (=) 10 ?trks = walk 11"
    by (simp add: trail_run_def appendTrailPoint_def walk_def upt_rec)
  have b: "batch_of (judge_stay sample_judge box_area default_rule (sea_tables (walk 11))) = Some (0, 0, [7])"
    by (simp add: batch_of_def judge_stay_def default_rule_def Let_def fuse_scan_def of_scan_def sea_tables_def no_tables_def
        stay_post_def trackCount_def track_pt_def in_height_def zero_track_def qm_value_def walk_def upt_rec)
  show ?thesis
    by (rule stay_needs_eleven_positions[OF _ _ b, where same = "(=)" and k = 7 and n = 10])
      (simp_all add: default_rule_def sea_tables_def no_tables_def r)
qed

text \<open>
  The height bounds of a bird rule decide nothing: the test joins the two comparisons with \<open>or\<close>, so with ordered
  bounds every height passes, and the same birds are handed over whatever the bounds are.
\<close>

theorem bird_height_is_ignored:
  assumes "rule_track_type info = 3" and "rule_height_min info < rule_height_max info" and "m < M"
  shows "judge_stay E a (info\<lparr>rule_height_min := m, rule_height_max := M\<rparr>) J = judge_stay E a info J"
proof -
  have "bird_stay_post a (info\<lparr>rule_height_min := m, rule_height_max := M\<rparr>) = bird_stay_post a info"
  proof (intro ext)
    fix t :: SPxTrack and tr
    let ?h = "altitudeMetres t"
    have "of_int x < ?h \<or> ?h < of_int y" "of_int x \<le> ?h \<or> ?h \<le> of_int y" if "x < y" for x y :: int
      using of_int_less_iff[of x y, where 'a = real] that by linarith+
    from this[OF assms(2)] this[OF assms(3)]
    show "bird_stay_post a (info\<lparr>rule_height_min := m, rule_height_max := M\<rparr>) t tr = bird_stay_post a info t tr"
      by (simp add: bird_stay_post_def)
  qed
  then show ?thesis using assms(1) by (simp add: judge_stay_def Let_def)
qed

theorem bird_height_is_ignored_witness:
  "judge_stay sample_judge box_area (default_rule\<lparr>rule_track_type := 3, rule_height_min := 5, rule_height_max := 6\<rparr>)
     (no_tables\<lparr>jt_bird := [(8, zero_track\<lparr>min_reserved1 := 3\<rparr>)], jt_birdTrail := [(8, walk 3)]\<rparr>) =
   judge_stay sample_judge box_area (default_rule\<lparr>rule_track_type := 3\<rparr>)
     (no_tables\<lparr>jt_bird := [(8, zero_track\<lparr>min_reserved1 := 3\<rparr>)], jt_birdTrail := [(8, walk 3)]\<rparr>)"
  using bird_height_is_ignored[of "default_rule\<lparr>rule_track_type := 3\<rparr>" 5 6 sample_judge box_area
      "no_tables\<lparr>jt_bird := [(8, zero_track\<lparr>min_reserved1 := 3\<rparr>)], jt_birdTrail := [(8, walk 3)]\<rparr>"]
  by (simp add: default_rule_def)

text \<open>
  Leaving the circle around the UAV (area -20, judgement 2) is decided by the speed condition of the rule, not by
  its distance condition: without a speed condition the rule has no candidate, whatever the trails and the distance
  condition are.
\<close>

theorem uav_leave_needs_speed_condition:
  assumes "rule_area_judge info = 2" and "rule_speed_condition info \<notin> {1, 2}"
    and "batch_of (judge_uav E info J) = Some (ty, src, ids)"
  shows "ids = []"
proof -
  have "uav_leaves E info tr = False" for tr
    using assms(2) by (simp add: uav_leaves_def Let_def)
  then have "filter (\<lambda>p. on_nonempty (uav_leaves E info) (snd p) = Some True) m = []" for m :: trail_map
    by (simp add: filter_empty_conv on_nonempty_def)
  then show ?thesis
    using assms(1,3)
    by (auto simp: judge_uav_def judge_trails_def trail_batch_def scan_trails_spec batch_of_def no_batch_def
        split: if_splits)
qed

theorem uav_leave_needs_speed_condition_witness:
  "\<exists>ids. batch_of (judge_uav sample_judge (default_rule\<lparr>rule_area_judge := 2, rule_distance_condition := 1, rule_distance := 5\<rparr>)
      (sea_tables [(1, 1), (0, 0)])) = Some (0, 0, ids) \<and> ids = []"
proof -
  let ?info = "default_rule\<lparr>rule_area_judge := 2, rule_distance_condition := 1, rule_distance := 5\<rparr>"
  obtain ids where b: "batch_of (judge_uav sample_judge ?info (sea_tables [(1, 1), (0, 0)])) = Some (0, 0, ids)"
    by (simp add: judge_uav_def judge_trails_def trail_batch_def scan_trails_spec batch_of_def on_nonempty_def
        default_rule_def sea_tables_def no_tables_def)
  from uav_leave_needs_speed_condition[OF _ _ b] b show ?thesis by (simp add: default_rule_def)
qed

text \<open>
  The drone part of an enter rule on fused tracks is undefined: it inserts the key of the iterator of the loop
  before, which is at its end.  So the rule never completes on tables with a drone in a circular area, within the
  heights, whose trail has two points.
\<close>

theorem enter_rule_undefined_for_drones:
  assumes "rule_track_type info = 0" and "ar_type a = 2" and "(k, t) \<in> set (jt_bird J)" and "min_reserved1 t = 3"
    and "in_height info (altitudeMetres t)" and "inArea (re_qarea (je_rule E)) a (track_pt t)"
    and "map_of (jt_birdTrail J) k = Some tr" and "length tr \<ge> 2"
    and "\<forall>p \<in> set (jt_fuseTrail J). snd p \<noteq> []"
  shows "judge_enter E a info J = Undefined"
proof -
  let ?pre = "\<lambda>t. inArea (re_qarea (je_rule E)) a (track_pt t) \<and> min_reserved1 t = 3 \<and> in_height info (altitudeMetres t)"
  have "verdict ?pre (bird_enter_post (re_qarea (je_rule E)) a info) (jt_birdTrail J) (k, t) = None"
    using assms(2,4-8) by (simp add: bird_enter_post_def qm_value_def)
  with assms(3) have "scan_tracks ?pre (bird_enter_post (re_qarea (je_rule E)) a info) (\<lambda>k t. k) (jt_bird J) (jt_birdTrail J) = None"
    unfolding scan_tracks_spec by (metis (no_types, lifting))
  then show ?thesis
    using assms(1,9) by (simp add: judge_enter_def Let_def enter_loop_spec of_scan_def)
qed

theorem enter_rule_undefined_for_drones_witness:
  "judge_enter sample_judge (empty_area\<lparr>ar_type := 2\<rparr>) default_rule
     (no_tables\<lparr>jt_bird := [(8, zero_track\<lparr>min_reserved1 := 3\<rparr>)], jt_birdTrail := [(8, [(0, 0), (0, 1)])]\<rparr>) = Undefined"
  by (rule enter_rule_undefined_for_drones[where k = 8 and t = "zero_track\<lparr>min_reserved1 := 3\<rparr>" and tr = "[(0, 0), (0, 1)]"])
    (simp_all add: default_rule_def no_tables_def in_height_def zero_track_def inArea_def circle_dist_def circle_radius_def
      empty_area_def track_pt_def)

section \<open>Facts: which tables a rule leaves behind\<close>

text \<open>Only the trail tables change, by empty trails for tracks that had none.\<close>

lemma judge_trails_tables:
  "judge_trails fp p info J = Ok (b, J') \<Longrightarrow> J' = J"
  by (auto simp: judge_trails_def trail_batch_def split: if_splits option.splits)

definition same_tables :: "judge_tables \<Rightarrow> judge_tables \<Rightarrow> bool" where
  "same_tables J J' \<longleftrightarrow> jt_fuse J' = jt_fuse J \<and> jt_radar J' = jt_radar J \<and> jt_bird J' = jt_bird J \<and> jt_ais J' = jt_ais J \<and>
     (\<exists>pre. jt_fuseTrail J' = touched pre (jt_fuse J) (jt_fuseTrail J)) \<and>
     (\<exists>pre. jt_radarTrail J' = touched pre (jt_radar J) (jt_radarTrail J)) \<and>
     (\<exists>pre. jt_birdTrail J' = touched pre (jt_bird J) (jt_birdTrail J)) \<and>
     (\<exists>pre. jt_aisTrail J' = touched pre (jt_ais J) (jt_aisTrail J))"

lemma touched_none: "touched (\<lambda>_. False) ts m = m"
  unfolding touched_def by (induction ts) auto

lemma touched_refl: "\<exists>pre. m = touched pre ts m"
  by (rule exI[of _ "\<lambda>_. False"]) (simp add: touched_none)

lemma same_tables_refl: "same_tables J J"
  by (simp add: same_tables_def touched_refl)

lemma same_tables_touched:
  "same_tables J (J\<lparr>jt_fuseTrail := touched p (jt_fuse J) (jt_fuseTrail J)\<rparr>)"
  "same_tables J (J\<lparr>jt_radarTrail := touched p (jt_radar J) (jt_radarTrail J)\<rparr>)"
  "same_tables J (J\<lparr>jt_birdTrail := touched p (jt_bird J) (jt_birdTrail J)\<rparr>)"
  "same_tables J (J\<lparr>jt_aisTrail := touched pa (jt_ais J) (jt_aisTrail J)\<rparr>)"
  unfolding same_tables_def by (simp_all add: touched_refl) blast+

lemma scan_tables:
  "fuse_scan pre post J = Ok (b, J') \<Longrightarrow> same_tables J J'"
  "radar_scan pre post J = Ok (b, J') \<Longrightarrow> same_tables J J'"
  "ais_scan apre apost byMmsi J = Ok (b, J') \<Longrightarrow> same_tables J J'"
  "bird_scan type src pre post J = Ok (b, J') \<Longrightarrow> same_tables J J'"
  using same_tables_refl[of J]
  by (auto simp: scan_defs same_tables_touched split: if_splits)

lemma judge_tracks_tables: "judge_tracks cond byMmsi info J = Ok (b, J') \<Longrightarrow> same_tables J J'"
  by (auto simp: judge_tracks_def same_tables_refl dest: scan_tables split: if_splits)

lemma judge_enter_tables: "judge_enter E a info J = Ok (b, J') \<Longrightarrow> same_tables J J'"
  using same_tables_refl[of J]
  by (auto simp: judge_enter_def Let_def scan_defs same_tables_touched split: if_splits option.splits)

lemma judge_rule_tables: "judge_rule E a info J = Ok (b, J') \<Longrightarrow> same_tables J J'"
  by (auto simp: judge_rule_def judge_stay_def Let_def judge_leave_def judge_approach_def judge_speed_def judge_direction_def
      judge_everywhere_def judge_uav_def same_tables_refl judge_enter_tables
      dest!: judge_trails_tables dest: scan_tables judge_tracks_tables split: if_splits)

text \<open>A rule that does not come to an end is an enter rule on fused trails of which one is empty.\<close>

lemma judge_rule_Forever:
  "judge_rule E a info J = Forever \<Longrightarrow>
     has_area info \<and> rule_area_judge info = 4 \<and> rule_track_type info = 0 \<and> (\<exists>p \<in> set (jt_fuseTrail J). snd p = [])"
  by (auto simp: judge_rule_def judge_stay_def judge_enter_def Let_def judge_leave_def judge_approach_def judge_speed_def
      judge_direction_def judge_everywhere_def judge_uav_def judge_tracks_def judge_trails_def scan_defs enter_loop_spec
      split: if_splits option.splits)

text \<open>
  Every fused, radar and AIS track has a trail, and no such trail is empty: what the ingest keeps.  On such tables a rule reads
  outside a trail, or from an iterator at its end, only where \<open>reads_in_range\<close> fails: in the circle of a radar rule, in the drone part of
  an enter rule, and where a direction rule reads the second point of a trail of one.
\<close>

definition trails_ready :: "judge_tables \<Rightarrow> bool" where
  "trails_ready J \<longleftrightarrow>
     (\<forall>p \<in> set (jt_fuse J). qm_contains (jt_fuseTrail J) (fst p)) \<and> (\<forall>p \<in> set (jt_fuseTrail J). snd p \<noteq> []) \<and>
     (\<forall>p \<in> set (jt_radar J). qm_contains (jt_radarTrail J) (fst p)) \<and> (\<forall>p \<in> set (jt_radarTrail J). snd p \<noteq> []) \<and>
     (\<forall>p \<in> set (jt_ais J). qm_contains (jt_aisTrail J) (fst p)) \<and> (\<forall>p \<in> set (jt_aisTrail J). snd p \<noteq> [])"

definition reads_in_range :: "judge_tables \<Rightarrow> AlarmArea \<Rightarrow> AlarmRule \<Rightarrow> bool" where
  "reads_in_range J a info \<longleftrightarrow> \<not> has_area info \<or>
     (if rule_area_judge info = 1 then \<not> (rule_track_type info = 1 \<and> ar_type a = 2)
      else if rule_area_judge info = 4 then rule_track_type info \<noteq> 0 \<or> (\<forall>p \<in> set (jt_bird J). min_reserved1 (snd p) \<noteq> 3)
      else rule_area_judge info = 2 \<or> rule_area_judge info = 3 \<or> rule_speed_condition info \<in> {1, 2} \<or>
        rule_direction info \<notin> {1, 2} \<or> rule_track_type info \<notin> {0, 1, 2} \<or>
        (rule_direction info = 1 \<and> rule_track_type info = 0))"

lemma touched_known: "\<forall>p \<in> set ts. qm_contains m (fst p) \<Longrightarrow> touched pre ts m = m"
  unfolding touched_def by (induction ts) (auto simp: touch_def)

lemma trails_ready_step: "trails_ready J \<Longrightarrow> same_tables J J' \<Longrightarrow> trails_ready J'"
  unfolding same_tables_def trails_ready_def
  using touched_known[of "jt_fuse J" "jt_fuseTrail J"] touched_known[of "jt_radar J" "jt_radarTrail J"]
    touched_known[of "jt_ais J" "jt_aisTrail J"] by auto

fun returns :: "'a run \<Rightarrow> bool" where
  "returns (Ok x) = True"
| "returns Undefined = False"
| "returns Forever = False"

lemma returns_Ok: "returns r \<longleftrightarrow> (\<exists>x. r = Ok x)"
  by (cases r) auto

lemma scans_return:
  "(\<And>t tr. post t tr \<noteq> None) \<Longrightarrow> returns (fuse_scan pre post J)"
  "(\<And>t tr. post t tr \<noteq> None) \<Longrightarrow> returns (radar_scan pre post J)"
  "(\<And>t tr. apost t tr \<noteq> None) \<Longrightarrow> returns (ais_scan apre apost byMmsi J)"
  "(\<And>t tr. post t tr \<noteq> None) \<Longrightarrow> returns (bird_scan type src pre post J)"
  by (auto simp: scan_defs split: if_splits)

lemma defined_posts:
  "stay_post Q a info h tr \<noteq> None" "trail_long u tr \<noteq> None" "bird_stay_post a info t tr \<noteq> None" "drone_stay_post Q a info t tr \<noteq> None"
  by (simp_all add: stay_post_def trail_long_def bird_stay_post_def drone_stay_post_def)

lemma stay_returns: "\<not> (rule_track_type info = 1 \<and> ar_type a = 2) \<Longrightarrow> returns (judge_stay E a info J)"
  by (simp add: judge_stay_def Let_def scans_return defined_posts)

lemma tracks_return: "returns (judge_tracks cond byMmsi info J)"
  by (simp add: judge_tracks_def scans_return defined_posts)

lemma trail_batch_returns: "\<forall>p \<in> set m. post (snd p) \<noteq> None \<Longrightarrow> returns (trail_batch type (scan_trails post m) J)"
  by (simp add: scan_defs)

lemma nonempty_trails:
  "trails_ready J \<Longrightarrow> \<forall>p \<in> set (jt_fuseTrail J). on_nonempty P (snd p) \<noteq> None"
  "trails_ready J \<Longrightarrow> \<forall>p \<in> set (jt_radarTrail J). on_nonempty P (snd p) \<noteq> None"
  "trails_ready J \<Longrightarrow> \<forall>p \<in> set (jt_aisTrail J). on_nonempty P (snd p) \<noteq> None"
  by (simp_all add: trails_ready_def on_nonempty_def)

lemma trails_return: "trails_ready J \<Longrightarrow> returns (judge_trails (on_nonempty P) (on_nonempty P') info J)"
  by (simp add: judge_trails_def trail_batch_returns nonempty_trails)

lemma enter_returns:
  assumes "trails_ready J" and "rule_track_type info \<noteq> 0 \<or> (\<forall>p \<in> set (jt_bird J). min_reserved1 (snd p) \<noteq> 3)"
  shows "returns (judge_enter E a info J)"
proof (cases "rule_track_type info = 0")
  case True
  have "\<forall>p \<in> set (jt_fuseTrail J). snd p \<noteq> []" using assms(1) by (simp add: trails_ready_def)
  with assms(2) True show ?thesis
    by (simp add: judge_enter_def Let_def enter_loop_spec of_scan_def scan_tracks_spec)
next
  case False
  then show ?thesis using nonempty_trails[OF assms(1)] by (simp add: judge_enter_def Let_def trail_batch_returns)
qed

lemma direction_returns:
  assumes "rule_track_type info \<notin> {0, 1, 2} \<or> (rule_direction info = 1 \<and> rule_track_type info = 0)"
  shows "returns (judge_direction E a info J)"
proof -
  have "direction_post E away True a tr \<noteq> None" for away tr by (auto simp: direction_post_def split: list.split)
  then show ?thesis using assms by (auto simp: judge_direction_def judge_trails_def intro!: trail_batch_returns)
qed

lemma judge_rule_returns:
  assumes "trails_ready J" and "reads_in_range J a info"
  shows "returns (judge_rule E a info J)"
proof (cases "has_area info")
  case False
  then show ?thesis
    by (simp add: judge_rule_def judge_everywhere_def judge_uav_def tracks_return trails_return[OF assms(1)])
next
  case True
  note a = True assms(2)[unfolded reads_in_range_def]
  consider "rule_area_judge info = 1" | "rule_area_judge info = 4" | "rule_area_judge info = 2" | "rule_area_judge info = 3"
    | "rule_area_judge info \<notin> {1, 2, 3, 4}" by blast
  then show ?thesis
  proof cases
    case 1
    with a show ?thesis by (simp add: judge_rule_def stay_returns)
  next
    case 2
    with a show ?thesis by (simp add: judge_rule_def enter_returns[OF assms(1)])
  next
    case 5
    with a show ?thesis by (auto simp: judge_rule_def judge_speed_def tracks_return intro: direction_returns)
  qed (simp_all add: True judge_rule_def judge_leave_def judge_approach_def tracks_return trails_return[OF assms(1)])
qed

end
