(* ===== verification/Alarm_Cycle.thy ===== *)
theory Alarm_Cycle
  imports Area_Judge Alarm_Event
begin

text \<open>
  The alarm thread: the loop of \<open>TrackAlarmThread::processAlarms\<close> over the rules, which hands the candidates of
  each rule to \<open>updataAlarmTrackToDB\<close>, and one pass of \<open>TrackAlarmThread::run\<close> (clearing the speed memory, loading
  the target lists, judging, publishing, pruning).  The locale \<open>table_invariant\<close> is the contract between the alarm table and
  the thread: an invariant that saving, pruning and expiring keep is kept by whole passes.  \<open>judged_through\<close> are the tables a rule of
  the loop reads.
\<close>

section \<open>The loop over the rules\<close>

definition tables_of :: "judge_tables \<Rightarrow> eval_tables" where
  "tables_of J = \<lparr>et_fuse = jt_fuse J, et_radar = jt_radar J, et_bird = jt_bird J\<rparr>"

definition submit :: "judge_env \<Rightarrow> int \<Rightarrow> judge_tables \<Rightarrow> AlarmRule \<Rightarrow> batch \<Rightarrow> rule_state \<Rightarrow> rule_state" where
  "submit E now J info b st =
     (case b of (type, src, ids) \<Rightarrow>
        if ids = [] then st else updataAlarmTrackToDB (je_rule E) now (tables_of J) info type src (je_order E ids) st)"

text \<open>A rule whose area is missing ends the loop (\<open>break\<close>).\<close>

fun rule_loop :: "judge_env \<Rightarrow> int \<Rightarrow> AlarmRule list \<Rightarrow> judge_tables \<Rightarrow> rule_state \<Rightarrow> rule_state run" where
  "rule_loop E now [] J st = Ok st"
| "rule_loop E now (info # rules) J st =
     (if rule_alarmstate info = 0 then rule_loop E now rules J st
      else if has_area info \<and> ruleArea (re_areas (je_rule E)) info = None then Ok st
      else case judge_rule E (if has_area info then the (ruleArea (re_areas (je_rule E)) info) else empty_area) info J of
        Ok (b, J') \<Rightarrow> rule_loop E now rules J' (submit E now J' info b st)
      | Undefined \<Rightarrow> Undefined
      | Forever \<Rightarrow> Forever)"

definition processAlarms :: "judge_env \<Rightarrow> int \<Rightarrow> AreaInfo list \<Rightarrow> judge_tables \<Rightarrow> (string, AlarmRule) qmap \<Rightarrow> rule_state
    \<Rightarrow> rule_state run" where
  "processAlarms E now infos shared rules st =
     (let E' = E\<lparr>je_rule := (je_rule E)\<lparr>re_areas :=
                 fst (getAlarmArea (ce_text (re_content (je_rule E))) (re_qarea (je_rule E)) infos)\<rparr>\<rparr>
      in rule_loop E' now (map snd rules) (snapshotTables shared) st)"

section \<open>One pass of the thread\<close>

record thread_state =
  th_rules :: rule_state
  th_lastClear :: int
  th_filters :: "(int, TargetInfoFilter) qmap"

text \<open>What a pass reads of the shared configuration.\<close>

record cycle_input =
  cy_now :: int
  cy_judge :: judge_env
  cy_publish :: publish_env
  cy_areas :: "AreaInfo list"
  cy_tables :: judge_tables
  cy_alarmRules :: "(string, AlarmRule) qmap"
  cy_dbFilters :: "(int, TargetInfoFilter) qmap"

abbreviation cy_logic :: "cycle_input \<Rightarrow> AlarmLogicConfig" where
  "cy_logic c \<equiv> re_logic (je_rule (cy_judge c))"

definition clearSpeedMemory :: "int \<Rightarrow> thread_state \<Rightarrow> thread_state" where
  "clearSpeedMemory now th =
     (if th_lastClear th = 0 then th\<lparr>th_lastClear := now\<rparr>
      else if now - th_lastClear th \<ge> 30 * 60 * 1000
      then th\<lparr>th_rules := (th_rules th)\<lparr>rs_speedLast := []\<rparr>, th_lastClear := now\<rparr>
      else th)"

text \<open>The environment of a pass: the target lists and the areas as just loaded.\<close>

definition cycle_filters :: "cycle_input \<Rightarrow> thread_state \<Rightarrow> (int, TargetInfoFilter) qmap" where
  "cycle_filters c th = (if refreshTargetInfoFilterEachLoop (cy_logic c) \<noteq> 0 then cy_dbFilters c else th_filters th)"

definition thread_cycle :: "cycle_input \<Rightarrow> thread_state \<Rightarrow> (AlarmInfo list option \<times> thread_state) run" where
  "thread_cycle c th =
     (let th1 = clearSpeedMemory (cy_now c) th;
          E = (cy_judge c)\<lparr>je_rule := (je_rule (cy_judge c))\<lparr>re_filters := cycle_filters c th\<rparr>\<rparr>
      in case processAlarms E (cy_now c) (cy_areas c) (cy_tables c) (cy_alarmRules c) (th_rules th1) of
           Ok rs \<Rightarrow>
             (let (msg, s, ops) = SendAllAlarmEventMsg (cy_publish c) (cy_now c) (rs_alarms rs)
              in Ok (msg, th1\<lparr>th_rules := rs\<lparr>rs_alarms := prune_alarms (cy_logic c) (cy_now c) s, rs_ops := rs_ops rs @ ops\<rparr>,
                              th_filters := cycle_filters c th\<rparr>))
         | Undefined \<Rightarrow> Undefined
         | Forever \<Rightarrow> Forever)"

fun run_cycles :: "cycle_input list \<Rightarrow> thread_state \<Rightarrow> (AlarmInfo list option list \<times> thread_state) run" where
  "run_cycles [] th = Ok ([], th)"
| "run_cycles (c # cs) th =
     (case thread_cycle c th of
        Ok (msg, th1) \<Rightarrow>
          (case run_cycles cs th1 of
             Ok (msgs, th2) \<Rightarrow> Ok (msg # msgs, th2)
           | Undefined \<Rightarrow> Undefined
           | Forever \<Rightarrow> Forever)
      | Undefined \<Rightarrow> Undefined
      | Forever \<Rightarrow> Forever)"

section \<open>Facts: the loop as a list of batches\<close>

fun map_run :: "('a \<Rightarrow> 'b) \<Rightarrow> 'a run \<Rightarrow> 'b run" where
  "map_run f (Ok x) = Ok (f x)"
| "map_run f Undefined = Undefined"
| "map_run f Forever = Forever"

lemma map_run_simps [simp]:
  "map_run f r = Ok y \<longleftrightarrow> (\<exists>x. r = Ok x \<and> y = f x)" "map_run f r = Forever \<longleftrightarrow> r = Forever"
  "map_run f r = Undefined \<longleftrightarrow> r = Undefined"
  by (cases r; auto)+

text \<open>The candidates do not depend on the alarms: the loop is the judgement of all rules, then the saves.\<close>

abbreviation area_of :: "judge_env \<Rightarrow> AlarmRule \<Rightarrow> AlarmArea option" where
  "area_of E info \<equiv> ruleArea (re_areas (je_rule E)) info"

abbreviation judged_area :: "judge_env \<Rightarrow> AlarmRule \<Rightarrow> AlarmArea" where
  "judged_area E info \<equiv> (if has_area info then the (area_of E info) else empty_area)"

fun rule_batches :: "judge_env \<Rightarrow> AlarmRule list \<Rightarrow> judge_tables \<Rightarrow> (judge_tables \<times> AlarmRule \<times> batch) list run" where
  "rule_batches E [] J = Ok []"
| "rule_batches E (info # rules) J =
     (if rule_alarmstate info = 0 then rule_batches E rules J
      else if has_area info \<and> area_of E info = None then Ok []
      else case judge_rule E (judged_area E info) info J of
        Ok (b, J') \<Rightarrow> map_run (\<lambda>bs. (J', info, b) # bs) (rule_batches E rules J')
      | Undefined \<Rightarrow> Undefined
      | Forever \<Rightarrow> Forever)"

definition submit_all :: "judge_env \<Rightarrow> int \<Rightarrow> (judge_tables \<times> AlarmRule \<times> batch) list \<Rightarrow> rule_state \<Rightarrow> rule_state" where
  "submit_all E now bs st = fold (\<lambda>(J, info, b). submit E now J info b) bs st"

lemma map_run_comp: "map_run f (map_run g r) = map_run (\<lambda>x. f (g x)) r"
  by (cases r) auto

lemma rule_loop_batches: "rule_loop E now rules J st = map_run (\<lambda>bs. submit_all E now bs st) (rule_batches E rules J)"
  by (induction E now rules J st rule: rule_loop.induct)
    (auto simp: submit_all_def map_run_comp split: run.splits prod.splits)

text \<open>
  What the rules before a rule leave of the tables: the rules that are switched off are passed over, and there are no such tables when the loop ends
  at one of the rules.
\<close>

fun judged_through :: "judge_env \<Rightarrow> AlarmRule list \<Rightarrow> judge_tables \<Rightarrow> judge_tables option" where
  "judged_through E [] J = Some J"
| "judged_through E (info # rules) J =
     (if rule_alarmstate info = 0 then judged_through E rules J
      else if has_area info \<and> area_of E info = None then None
      else case judge_rule E (judged_area E info) info J of
        Ok (b, J') \<Rightarrow> judged_through E rules J'
      | _ \<Rightarrow> None)"

text \<open>Tables with the same tracks that show every track the same trail: rules only add empty trails to tracks without one.\<close>

definition alike :: "judge_tables \<Rightarrow> judge_tables \<Rightarrow> bool" where
  "alike J J' \<longleftrightarrow> jt_fuse J' = jt_fuse J \<and> jt_radar J' = jt_radar J \<and> jt_bird J' = jt_bird J \<and> jt_ais J' = jt_ais J \<and>
     (\<forall>k. qm_value (jt_fuseTrail J') k [] = qm_value (jt_fuseTrail J) k [] \<and>
        qm_value (jt_radarTrail J') k [] = qm_value (jt_radarTrail J) k [] \<and>
        qm_value (jt_birdTrail J') k [] = qm_value (jt_birdTrail J) k [] \<and>
        qm_value (jt_aisTrail J') k [] = qm_value (jt_aisTrail J) k [])"

lemma alike_refl: "alike J J" and alike_trans: "alike J J' \<Longrightarrow> alike J' J'' \<Longrightarrow> alike J J''"
  by (simp_all add: alike_def)

lemma alike_tables: "alike J J' \<Longrightarrow> tables_of J' = tables_of J"
  by (simp add: alike_def tables_of_def)

lemma alike_step: "judge_rule E a info J = Ok (b, J') \<Longrightarrow> alike J J'"
  using judge_rule_tables[of E a info J b J'] by (auto simp: same_tables_def alike_def)

lemma alike_judged: "judged_through E rules J = Some J' \<Longrightarrow> alike J J'"
proof (induction E rules J rule: judged_through.induct)
  case (2 E r rules J)
  show ?case
  proof (cases "rule_alarmstate r = 0")
    case True
    with 2 show ?thesis by simp
  next
    case False
    with 2(3) obtain b J1 where j: "\<not> (has_area r \<and> area_of E r = None)" "judge_rule E (judged_area E r) r J = Ok (b, J1)"
      "judged_through E rules J1 = Some J'"
      by (auto split: run.splits if_splits simp del: not_None_eq)
    from 2(2)[OF False j(1,2) refl j(3)] alike_step[OF j(2)] show ?thesis by (rule alike_trans[rotated])
  qed
qed (simp add: alike_refl)

text \<open>Every batch comes from an active rule that has its area, judged on the tables the rules before it left.\<close>

lemma rule_batches_cause:
  assumes "rule_batches E rules J0 = Ok bs" and "(J', info, b) \<in> set bs"
  shows "\<exists>before after J. rules = before @ info # after \<and> judged_through E before J0 = Some J \<and>
    rule_alarmstate info \<noteq> 0 \<and> (has_area info \<longrightarrow> area_of E info \<noteq> None) \<and> judge_rule E (judged_area E info) info J = Ok (b, J')"
  using assms
proof (induction rules arbitrary: J0 bs)
  case (Cons r rules)
  show ?case
  proof (cases "rule_alarmstate r = 0")
    case True
    with Cons.prems have "rule_batches E rules J0 = Ok bs" by simp
    from Cons.IH[OF this Cons.prems(2)] obtain before after J where "rules = before @ info # after"
      "judged_through E before J0 = Some J" "rule_alarmstate info \<noteq> 0" "has_area info \<longrightarrow> area_of E info \<noteq> None"
      "judge_rule E (judged_area E info) info J = Ok (b, J')" by blast
    with True show ?thesis by (intro exI[of _ "r # before"] exI[of _ after] exI[of _ J]) simp
  next
    case False
    show ?thesis
    proof (cases "has_area r \<and> area_of E r = None")
      case True
      with Cons.prems False show ?thesis by simp
    next
      case area: False
      with Cons.prems(1) False obtain x J1 bs' where j: "judge_rule E (judged_area E r) r J0 = Ok (x, J1)"
        "rule_batches E rules J1 = Ok bs'" "bs = (J1, r, x) # bs'"
        by (auto split: run.splits prod.splits simp del: if_split)
      show ?thesis
      proof (cases "(J', info, b) \<in> set bs'")
        case True
        from Cons.IH[OF j(2) True] obtain before after J where "rules = before @ info # after"
          "judged_through E before J1 = Some J" "rule_alarmstate info \<noteq> 0" "has_area info \<longrightarrow> area_of E info \<noteq> None"
          "judge_rule E (judged_area E info) info J = Ok (b, J')" by blast
        with j(1) False area show ?thesis by (intro exI[of _ "r # before"] exI[of _ after] exI[of _ J]) auto
      next
        case new: False
        with Cons.prems(2) j have "J' = J1" "info = r" "b = x" by auto
        with j(1) False area show ?thesis by (intro exI[of _ "[]"] exI[of _ rules] exI[of _ J0]) auto
      qed
    qed
  qed
qed simp

lemma missing_area_cuts:
  assumes "rule_alarmstate info \<noteq> 0" "has_area info" "area_of E info = None"
  shows "rule_batches E (before @ info # after) J = rule_batches E before J"
  by (induction before arbitrary: J) (use assms in \<open>auto split: run.splits prod.splits\<close>)

text \<open>
  One rule without its area switches off every rule after it: the loop is left with \<open>break\<close>, so whatever rules
  follow an active rule whose area is not loaded are not judged in any pass.
\<close>

theorem missing_area_stops_later_rules:
  assumes "rule_alarmstate info \<noteq> 0" and "has_area info"
    and "areas = fst (getAlarmArea (ce_text (re_content (je_rule E))) (re_qarea (je_rule E)) infos)"
    and "ruleArea areas info = None"
  shows "processAlarms E now infos shared (before @ (k, info) # after) st = processAlarms E now infos shared before st"
  using missing_area_cuts[OF assms(1,2)] assms(3,4)
  by (simp add: processAlarms_def Let_def rule_loop_batches)

theorem missing_area_stops_later_rules_witness:
  "processAlarms sample_judge 0 [] no_tables [(''a'', sample_rule), (''b'', default_rule\<lparr>rule_group_id := -10\<rparr>)] fresh_rules =
   processAlarms sample_judge 0 [] no_tables [] fresh_rules"
proof -
  have f: "rule_alarmstate sample_rule \<noteq> 0" "has_area sample_rule"
    by (simp_all add: sample_rule_def default_rule_def has_area_def)
  have n: "ruleArea (fst (getAlarmArea T Q [])) sample_rule = None" for T Q
    by (simp add: getAlarmArea_def ruleArea_def qm_value_def sample_rule_def default_rule_def)
  show ?thesis
    using missing_area_stops_later_rules[OF f refl n, where before = "[]"] by (simp only: append_Nil)
qed

section \<open>A pass comes to an end\<close>

lemma copyTrail_lookup:
  "map_of (copyTrailForLiveTracks src ts) k = (if k \<in> fst ` set ts then map_of src k else None)"
  by (induction src ts rule: copyTrailForLiveTracks.induct) (auto split: option.splits)

lemma copyTrail_keys: "(k, tr) \<in> set (copyTrailForLiveTracks src ts) \<Longrightarrow> (k, tr) \<in> set src"
proof (induction src ts rule: copyTrailForLiveTracks.induct)
  case (2 src p ps)
  have "(k, tr) \<in> set (qm_insert j x m) \<Longrightarrow> (k, tr) = (j, x) \<or> (k, tr) \<in> set m" for j and x :: trail and m
    by (induction j x m rule: qm_insert.induct) (auto split: if_splits)
  with 2 show ?case by (auto split: option.splits dest: map_of_SomeD)
qed simp

lemma rule_batches_returns: "trails_ready J \<Longrightarrow> rule_batches E rules J \<noteq> Forever"
proof (induction E rules J rule: rule_batches.induct)
  case (2 E info rules J)
  have "judge_rule E (judged_area E info) info J \<noteq> Forever"
    using judge_rule_Forever[of E _ info J] 2(3) by (auto simp: trails_ready_def)
  moreover have "trails_ready J'" if "judge_rule E (judged_area E info) info J = Ok (b, J')" for b J'
    using trails_ready_step[OF 2(3) judge_rule_tables[OF that]] .
  ultimately show ?case using 2 by (auto split: run.splits prod.splits)
qed simp

lemma reads_in_range_step: "same_tables J J' \<Longrightarrow> reads_in_range J' a info = reads_in_range J a info"
  by (simp add: reads_in_range_def same_tables_def)

lemma rule_batches_defined:
  assumes "trails_ready J" and "\<forall>r \<in> set rules. rule_alarmstate r \<noteq> 0 \<longrightarrow> reads_in_range J (judged_area E r) r"
  shows "\<exists>bs. rule_batches E rules J = Ok bs"
  using assms
proof (induction rules arbitrary: J)
  case (Cons r rules)
  show ?case
  proof (cases "rule_alarmstate r = 0 \<or> has_area r \<and> area_of E r = None")
    case True
    with Cons show ?thesis by auto
  next
    case False
    with Cons.prems(2) have "reads_in_range J (judged_area E r) r" by simp
    then obtain b J' where j: "judge_rule E (judged_area E r) r J = Ok (b, J')"
      using judge_rule_returns[OF Cons.prems(1), of "judged_area E r" r E] unfolding returns_Ok by auto
    note t = judge_rule_tables[OF j]
    have "\<exists>bs. rule_batches E rules J' = Ok bs"
      using Cons.prems(2) by (intro Cons.IH trails_ready_step[OF Cons.prems(1) t]) (simp add: reads_in_range_step[OF t])
    with False j show ?thesis by auto
  qed
qed simp

text \<open>A snapshot shows every track a trail when the shared tables do.\<close>

definition trails_paired :: "(int, 't) qmap \<Rightarrow> trail_map \<Rightarrow> bool" where
  "trails_paired m tr \<longleftrightarrow> (\<forall>p \<in> set m. qm_contains tr (fst p)) \<and> (\<forall>p \<in> set tr. snd p \<noteq> [])"

lemma trails_paired_copied:
  assumes "trails_paired m tr"
  shows "trails_paired m (copyTrailForLiveTracks tr m)"
  using assms copyTrail_keys[where src = tr and ts = m]
  by (auto simp: trails_paired_def copyTrail_lookup intro: rev_image_eqI; metis snd_conv)

lemma snapshot_ready:
  assumes "trails_paired (jt_fuse g) (jt_fuseTrail g)" "trails_paired (jt_radar g) (jt_radarTrail g)" "trails_paired (jt_ais g) (jt_aisTrail g)"
  shows "trails_ready (snapshotTables g)"
  using trails_paired_copied[OF assms(1)] trails_paired_copied[OF assms(2)] assms(3)
  by (simp add: trails_ready_def trails_paired_def snapshotTables_def)

lemma pair_ok_trails:
  assumes "pair_ok same n (m, tr)"
  shows "trails_paired m tr"
proof -
  have q: "qm_ok m" "qm_ok tr" and same: "(map_of m k = None) = (map_of tr k = None)" for k
    using assms by (simp_all add: pair_ok_def)
  have "qm_contains tr k" if "(k, t) \<in> set m" for k t
    using same[of k] qm.entries_iff[OF q(1), of k t] that by simp
  moreover have "ps \<noteq> []" if "(k, ps) \<in> set tr" for k ps
    using assms qm.entries_iff[OF q(2), of k ps] that by (auto simp: pair_ok_def)
  ultimately show ?thesis by (auto simp: trails_paired_def)
qed

lemma processAlarms_ready:
  assumes "trails_ready (snapshotTables g)"
    and "E' = E\<lparr>je_rule := (je_rule E)\<lparr>re_areas :=
           fst (getAlarmArea (ce_text (re_content (je_rule E))) (re_qarea (je_rule E)) infos)\<rparr>\<rparr>"
  shows "processAlarms E now infos g rules st \<noteq> Forever"
    and "\<forall>r \<in> set (map snd rules). rule_alarmstate r \<noteq> 0 \<longrightarrow> reads_in_range g (judged_area E' r) r \<Longrightarrow>
      \<exists>st'. processAlarms E now infos g rules st = Ok st'"
proof -
  show "processAlarms E now infos g rules st \<noteq> Forever"
    using rule_batches_returns[OF assms(1)] by (simp add: processAlarms_def Let_def rule_loop_batches)
  assume r: "\<forall>r \<in> set (map snd rules). rule_alarmstate r \<noteq> 0 \<longrightarrow> reads_in_range g (judged_area E' r) r"
  have "reads_in_range (snapshotTables g) a r = reads_in_range g a r" for a r
    by (simp add: reads_in_range_def snapshotTables_def)
  then show "\<exists>st'. processAlarms E now infos g rules st = Ok st'"
    using rule_batches_defined[OF assms(1), of "map snd rules" E'] r
    by (auto simp: processAlarms_def Let_def rule_loop_batches assms(2))
qed

text \<open>
  The guard is needed: a fused track without a trail in the area of a stay rule gets an empty trail from
  \<open>operator[]\<close>, and the next enter rule on fused tracks never returns.
\<close>

theorem trailless_track_hangs_enter_rule:
  assumes "map_of (jt_fuse J) k = Some t" and "map_of (jt_fuseTrail J) k = None"
    and "inArea (re_qarea (je_rule E)) a (track_pt t)"
    and "rule_track_type stay = 0" and "rule_track_type enter = 0"
    and "judge_stay E a stay J = Ok (b, J')"
  shows "judge_enter E a' enter J' = Forever"
proof -
  let ?pre = "\<lambda>t. inArea (re_qarea (je_rule E)) a (track_pt t)"
  have m: "map_of (touched pre ts m) k = Some []"
    if "(k, t) \<in> set ts" "pre t" "map_of m k \<in> {None, Some []}" for pre ts m
    using that unfolding touched_def
  proof (induction ts arbitrary: m)
    case (Cons p ts)
    have step: "map_of (if pre (snd p) then touch (fst p) m else m) k \<in> {None, Some []}"
      using Cons.prems(3) by (auto simp: touch_def)
    have stays: "map_of (fold (\<lambda>p m. if pre (snd p) then touch (fst p) m else m) ts m') k = Some []"
      if "map_of m' k = Some []" for m' using that by (induction ts arbitrary: m') (auto simp: touch_def)
    show ?case
    proof (cases "p = (k, t)")
      case True
      then have "map_of (if pre (snd p) then touch (fst p) m else m) k = Some []"
        using Cons.prems by (auto simp: touch_def)
      from stays[OF this] show ?thesis by simp
    next
      case False
      then show ?thesis using Cons.IH[OF _ Cons.prems(2) step] Cons.prems(1) by auto
    qed
  qed simp
  have "jt_fuseTrail J' = touched ?pre (jt_fuse J) (jt_fuseTrail J)"
    using assms(4,6) by (auto simp: judge_stay_def Let_def scan_defs split: if_splits)
  then have "map_of (jt_fuseTrail J') k = Some []"
    using m[of "jt_fuse J" ?pre] assms(1-3) by (simp add: map_of_SomeD)
  then have "(k, []) \<in> set (jt_fuseTrail J')" by (rule map_of_SomeD)
  then show ?thesis using assms(5) by (auto simp: judge_enter_def Let_def enter_loop_spec)
qed

theorem trailless_track_hangs_enter_rule_witness:
  "\<exists>b J'. judge_stay sample_judge box_area default_rule (sea_tables [] \<lparr>jt_fuseTrail := []\<rparr>) = Ok (b, J') \<and>
     judge_enter sample_judge box_area default_rule J' = Forever"
proof -
  let ?J = "sea_tables [] \<lparr>jt_fuseTrail := []\<rparr>"
  have J: "jt_fuse ?J = [(7, zero_track\<lparr>latDegs := 11, longDegs := 1\<rparr>)]" "jt_fuseTrail ?J = []"
    by (simp_all add: sea_tables_def no_tables_def)
  obtain b J' where s: "judge_stay sample_judge box_area default_rule ?J = Ok (b, J')"
    using judge_stay_fuse[of default_rule sample_judge box_area ?J] by (simp add: default_rule_def)
  have "judge_enter sample_judge box_area default_rule J' = Forever"
    by (rule trailless_track_hangs_enter_rule[OF _ _ _ _ _ s, where k = 7 and t = "zero_track\<lparr>latDegs := 11, longDegs := 1\<rparr>"])
      (simp_all add: J default_rule_def track_pt_def zero_track_def)
  with s show ?thesis by blast
qed

section \<open>What publishing leaves of the alarm table\<close>

definition expired_only :: "int \<Rightarrow> alarm_state \<Rightarrow> alarm_state \<Rightarrow> bool" where
  "expired_only now s s' \<longleftrightarrow> mapAlarmData s' = mapAlarmData s \<and>
     (alarmFilterExpireMs s' = alarmFilterExpireMs s \<or>
      alarmFilterExpireMs s' = pruneExpiredAlarmFilters now (alarmFilterExpireMs s))"

lemma expired_only_trans: "expired_only now s s' \<Longrightarrow> expired_only now s' s'' \<Longrightarrow> expired_only now s s''"
  by (auto simp: expired_only_def pruneExpired_filter)

lemma expired_only_query: "expired_only now s (snd (isUniqueIdAlarmFiltered now u s))"
  by (simp add: expired_only_def isFiltered_state)

lemma expired_only_resolve: "expired_only now s (fst (snd (resolveRuleAlarmDisposition T D R al now ad s)))"
  by (auto simp: expired_only_def resolve_eq)

lemma expired_only_ruleInfos: "expired_only now s (fst (snd (ruleInfos E now levels m s)))"
proof (induction m arbitrary: s)
  case (Cons p rest)
  obtain k ad where p: "p = (k, ad)" by fastforce
  have then_rest: "expired_only now s (fst (snd (ruleInfos E now levels rest s')))" if "expired_only now s s'" for s'
    using expired_only_trans[OF that Cons.IH] .
  let ?s1 = "snd (isUniqueIdAlarmFiltered now (unique_id ad) s)"
  let ?s2 = "fst (snd (resolveRuleAlarmDisposition (pe_text E) (pe_ident E) (pe_identRules E) (pe_logic E) now ad ?s1))"
  have 1: "expired_only now s ?s1" by (rule expired_only_query)
  have 2: "expired_only now s ?s2" by (rule expired_only_trans[OF 1 expired_only_resolve])
  show ?case using then_rest[OF 1] then_rest[OF 2] by (simp add: p Let_def case_prod_beta)
qed (simp add: expired_only_def)

lemma expired_only_manualInfos: "expired_only now s (snd (manualInfos E now levels m s))"
proof (induction m arbitrary: s)
  case (Cons p rest)
  obtain k ad where p: "p = (k, ad)" by fastforce
  have "expired_only now s (snd (manualInfos E now levels rest (snd (isUniqueIdAlarmFiltered now (unique_id ad) s))))"
    using expired_only_trans[OF expired_only_query Cons.IH] .
  then show ?case by (simp add: p Let_def case_prod_beta)
qed (simp add: expired_only_def)

lemma expired_only_typeInfos: "expired_only now s (snd (typeInfos E now processed m s))"
proof (induction m arbitrary: s)
  case (Cons p rest)
  obtain k cls where p: "p = (k, cls)" by fastforce
  have "expired_only now s (snd (typeInfos E now processed rest (snd (isUniqueIdAlarmFiltered now u s))))" for u
    using expired_only_trans[OF expired_only_query Cons.IH] .
  then show ?case using Cons.IH by (auto simp: p Let_def case_prod_beta split: option.splits)
qed (simp add: expired_only_def)

lemma expired_only_publish:
  assumes "SendAllAlarmEventMsg E now s = (msg, s', ops)"
  shows "expired_only now s s'"
proof -
  let ?s1 = "synced_state E now s" let ?L = "alarmLevelMap E now ?s1"
  obtain rules s2 ops2 where r: "ruleInfos E now ?L (mapAlarmData ?s1) ?s1 = (rules, s2, ops2)" by (metis surj_pair)
  obtain manuals s3 where m: "manualInfos E now ?L (manualAlarmData ?s1) s2 = (manuals, s3)" by (metis surj_pair)
  obtain types s4 where t: "typeInfos E now (processedTargetIds s3) (mapTargetType s3) s3 = (types, s4)" by (metis surj_pair)
  have 1: "expired_only now s ?s1" by (simp add: expired_only_def sync_frame)
  have "expired_only now ?s1 s2" "expired_only now s2 s3" "expired_only now s3 s4"
    using expired_only_ruleInfos[of now ?s1 E ?L "mapAlarmData ?s1"]
      expired_only_manualInfos[of now s2 E ?L "manualAlarmData ?s1"]
      expired_only_typeInfos[of now s3 E "processedTargetIds s3" "mapTargetType s3"] by (simp_all add: r m t)
  then have "expired_only now s s4" using 1 expired_only_trans by meson
  moreover have "expired_only now s s" by (simp add: expired_only_def)
  ultimately show ?thesis
    using assms 1 r m t by (auto simp: SendAllAlarmEventMsg_def Let_def split: if_splits)
qed

lemma manual_ok_publish:
  assumes "alarms_ok s" and "SendAllAlarmEventMsg E now s = (msg, s', ops)"
  shows "qm_ok (manualAlarmData s')"
proof -
  have q: "qm_ok (manualAlarmData s)" "qm_ok (manualAlarmData (synced_state E now s))"
    using assms(1) alarms_ok_synced[OF assms(1)] by (simp_all add: alarms_ok_def)
  consider "s' = s" | "s' = synced_state E now s" | infos where "msg = Some infos"
      "mapAlarmData s \<noteq> [] \<or> manualAlarmData (synced_state E now s) \<noteq> []"
    using assms(2) by (auto simp: SendAllAlarmEventMsg_def Let_def sync_frame split: if_splits prod.splits)
  then show ?thesis
  proof cases
    case (3 infos)
    with SendAll_shape[OF assms(1), of E now infos s' ops] assms(2) have "same_alarms now (synced_state E now s) s'" by auto
    with q show ?thesis by (simp add: same_alarms_def)
  qed (use q in simp_all)
qed

section \<open>Where the alarms of a pass come from\<close>

lemma submit_cases:
  obtains "submit E now J info (type, src, ids) st = st" "ids = []"
  | "submit E now J info (type, src, ids) st = updataAlarmTrackToDB (je_rule E) now (tables_of J) info type src (je_order E ids) st"
  by (cases "ids = []") (simp_all add: submit_def)

definition cycle_env :: "cycle_input \<Rightarrow> thread_state \<Rightarrow> judge_env" where
  "cycle_env c th = (cy_judge c)\<lparr>je_rule := (je_rule (cy_judge c))\<lparr>re_filters := cycle_filters c th,
     re_areas := fst (getAlarmArea (ce_text (re_content (je_rule (cy_judge c)))) (re_qarea (je_rule (cy_judge c))) (cy_areas c))\<rparr>\<rparr>"

lemma cycle_env_logic [simp]: "re_logic (je_rule (cycle_env c th)) = cy_logic c"
  by (simp add: cycle_env_def)

lemma clearSpeedMemory_fields [simp]:
  "rs_alarms (th_rules (clearSpeedMemory now th)) = rs_alarms (th_rules th)"
  "rs_uuids (th_rules (clearSpeedMemory now th)) = rs_uuids (th_rules th)"
  by (simp_all add: clearSpeedMemory_def)

text \<open>A pass that returns: the batches of its rules are saved, the result is published, then pruned.\<close>

lemma cycle_judged:
  "processAlarms ((cy_judge c)\<lparr>je_rule := (je_rule (cy_judge c))\<lparr>re_filters := cycle_filters c th\<rparr>\<rparr>) now (cy_areas c) g rules st =
     map_run (\<lambda>bs. submit_all (cycle_env c th) now bs st) (rule_batches (cycle_env c th) (map snd rules) (snapshotTables g))"
  by (simp add: processAlarms_def Let_def rule_loop_batches cycle_env_def)

lemma thread_cycle_parts:
  assumes "thread_cycle c th = Ok (msg, th')"
  shows "\<exists>bs s ops. rule_batches (cycle_env c th) (map snd (cy_alarmRules c)) (snapshotTables (cy_tables c)) = Ok bs \<and>
    SendAllAlarmEventMsg (cy_publish c) (cy_now c)
      (rs_alarms (submit_all (cycle_env c th) (cy_now c) bs (th_rules (clearSpeedMemory (cy_now c) th)))) = (msg, s, ops) \<and>
    rs_alarms (th_rules th') = prune_alarms (cy_logic c) (cy_now c) s"
  using assms by (fastforce simp: thread_cycle_def Let_def cycle_judged split: run.splits prod.splits)

lemma thread_cycle_returns:
  assumes "rule_batches (cycle_env c th) (map snd (cy_alarmRules c)) (snapshotTables (cy_tables c)) = Ok bs"
  shows "\<exists>msg th'. thread_cycle c th = Ok (msg, th')"
  using assms by (auto simp: thread_cycle_def Let_def cycle_judged split: prod.splits)

lemma silenced_list [simp]: "silenced now t (s\<lparr>listAlarmData := l\<rparr>) = silenced now t s"
  by (simp add: silenced_def)

lemma silenced_batch:
  "alarms_ok (rs_alarms st) \<Longrightarrow>
   silenced now t (rs_alarms (fold (evalCandidate E now tbs info type src) ids st)) = silenced now t (rs_alarms st)"
  by (induction ids arbitrary: st) (simp_all add: silenced_evalCandidate alarms_ok_evalCandidate)

lemma silenced_updata:
  "alarms_ok (rs_alarms st) \<Longrightarrow>
   silenced now t (rs_alarms (updataAlarmTrackToDB E now tbs info type src ids st)) = silenced now t (rs_alarms st)"
  by (simp add: updataAlarmTrackToDB_def Let_def silenced_batch)

text \<open>The contract of the evaluation of one candidate towards the loop over the rules.\<close>

locale batch_invariant =
  fixes K :: "rule_env \<Rightarrow> int \<Rightarrow> rule_state \<Rightarrow> bool"
  assumes step: "K E now st \<Longrightarrow> K E now (evalCandidate E now tbs info type src tid st)"
    and list_reset: "K E now st \<Longrightarrow> K E now (st\<lparr>rs_alarms := (rs_alarms st)\<lparr>listAlarmData := l\<rparr>\<rparr>)"
    and area_list: "K E now st \<Longrightarrow> K E now (st\<lparr>rs_areaAlarms := m\<rparr>)"
    and areas: "K (E\<lparr>re_areas := ar\<rparr>) now st = K E now st"
begin

lemma batch: "K E now st \<Longrightarrow> K E now (fold (evalCandidate E now tbs info type src) ids st)"
  by (induction ids arbitrary: st) (simp_all add: step)

lemma updata: "K E now st \<Longrightarrow> K E now (updataAlarmTrackToDB E now tbs info type src ids st)"
  by (simp add: updataAlarmTrackToDB_def Let_def batch list_reset area_list)

lemma submitted: "K (je_rule E) now st \<Longrightarrow> K (je_rule E) now (submit E now J info b st)"
  by (cases b) (simp add: submit_def updata)

lemma submitted_all: "K (je_rule E) now st \<Longrightarrow> K (je_rule E) now (submit_all E now bs st)"
  unfolding submit_all_def by (induction bs arbitrary: st) (auto simp: submitted split: prod.splits)

lemma judged: "K (je_rule E) now st \<Longrightarrow> processAlarms E now infos shared rules st = Ok st' \<Longrightarrow> K (je_rule E) now st'"
  using submitted_all[of "E\<lparr>je_rule := (je_rule E)\<lparr>re_areas := ar\<rparr>\<rparr>" for ar]
  by (auto simp: processAlarms_def Let_def rule_loop_batches areas)

end

text \<open>The contract of the alarm table towards the thread.\<close>

locale table_invariant =
  fixes al :: AlarmLogicConfig and I :: "int \<Rightarrow> alarm_state \<Rightarrow> bool"
  assumes later: "I t s \<Longrightarrow> t \<le> t' \<Longrightarrow> I t' s"
    and cong: "I t s \<Longrightarrow> mapAlarmData s' = mapAlarmData s \<Longrightarrow> alarmFilterExpireMs s' = alarmFilterExpireMs s \<Longrightarrow>
      qm_ok (manualAlarmData s') \<Longrightarrow> I t s'"
    and ok: "I t s \<Longrightarrow> alarms_ok s"
    and save: "I t s \<Longrightarrow> I t (fst (SaveToDB al t a s))"
    and prune: "I t s \<Longrightarrow> I t (prune_alarms al t s)"
    and expire: "I t s \<Longrightarrow> I t (s\<lparr>alarmFilterExpireMs := pruneExpiredAlarmFilters t (alarmFilterExpireMs s)\<rparr>)"
begin

definition kept :: "rule_env \<Rightarrow> int \<Rightarrow> rule_state \<Rightarrow> bool" where
  "kept E now st \<longleftrightarrow> re_logic E = al \<and> I now (rs_alarms st)"

lemma kept_step: "kept E now st \<Longrightarrow> kept E now (evalCandidate E now tbs info type src tid st)"
proof (cases rule: evalCandidate_cases[of E now tbs info type src tid st])
  case (saved tr score content)
  assume "kept E now st"
  then show ?thesis using save[of now "rs_alarms st"] saved by (simp add: kept_def)
qed (simp add: kept_def)

lemma kept_list: "kept E now st \<Longrightarrow> kept E now (st\<lparr>rs_alarms := (rs_alarms st)\<lparr>listAlarmData := l\<rparr>\<rparr>)"
  using ok[of now "rs_alarms st"] cong[of now "rs_alarms st"] by (auto simp: kept_def alarms_ok_def)

end

sublocale table_invariant \<subseteq> table: batch_invariant kept
  by unfold_locales (simp_all add: kept_step kept_list, simp_all add: kept_def)

context table_invariant
begin

lemma published:
  assumes "I now s" and "SendAllAlarmEventMsg P now s = (msg, s', ops)"
  shows "I now s'"
  using expired_only_publish[OF assms(2)] cong[OF assms(1), of s'] cong[OF expire[OF assms(1)], of s']
    manual_ok_publish[OF ok[OF assms(1)] assms(2)]
  by (auto simp: expired_only_def)

lemma cycle:
  assumes "cy_logic c = al" and "I t (rs_alarms (th_rules th))" and "t \<le> cy_now c" and "thread_cycle c th = Ok (msg, th')"
  shows "I (cy_now c) (rs_alarms (th_rules th'))"
proof -
  have i: "I (cy_now c) (rs_alarms (th_rules (clearSpeedMemory (cy_now c) th)))"
    using later[OF assms(2,3)] by (simp add: clearSpeedMemory_def)
  from thread_cycle_parts[OF assms(4)] obtain bs s ops where
    m: "SendAllAlarmEventMsg (cy_publish c) (cy_now c)
      (rs_alarms (submit_all (cycle_env c th) (cy_now c) bs (th_rules (clearSpeedMemory (cy_now c) th)))) = (msg, s, ops)"
    and e: "rs_alarms (th_rules th') = prune_alarms (cy_logic c) (cy_now c) s"
    by metis
  have "I (cy_now c) (rs_alarms (submit_all (cycle_env c th) (cy_now c) bs (th_rules (clearSpeedMemory (cy_now c) th))))"
    using table.submitted_all[of "cycle_env c th"] i assms(1) by (simp add: kept_def)
  from prune[OF published[OF this m]] show ?thesis using e assms(1) by simp
qed

lemma cycle_publishes:
  assumes "cy_logic c = al" and "I t (rs_alarms (th_rules th))" and "t \<le> cy_now c" and "thread_cycle c th = Ok (msg, th')"
  shows "\<exists>s s' ops. I (cy_now c) s \<and> SendAllAlarmEventMsg (cy_publish c) (cy_now c) s = (msg, s', ops)"
proof -
  have i: "I (cy_now c) (rs_alarms (th_rules (clearSpeedMemory (cy_now c) th)))"
    using later[OF assms(2,3)] by simp
  have "I (cy_now c) (rs_alarms (submit_all (cycle_env c th) (cy_now c) bs (th_rules (clearSpeedMemory (cy_now c) th))))" for bs
    using table.submitted_all[of "cycle_env c th"] i assms(1) by (simp add: kept_def)
  then show ?thesis using thread_cycle_parts[OF assms(4)] by metis
qed

lemma cycles:
  assumes "\<forall>c \<in> set cs. cy_logic c = al" and "sorted (t # map cy_now cs)" and "I t (rs_alarms (th_rules th))"
    and "run_cycles cs th = Ok (msgs, th')"
  shows "I (last (t # map cy_now cs)) (rs_alarms (th_rules th'))"
  using assms
proof (induction cs arbitrary: t th msgs)
  case (Cons c cs)
  obtain msg th1 msgs' where c: "thread_cycle c th = Ok (msg, th1)" "run_cycles cs th1 = Ok (msgs', th')"
    using Cons.prems(4) by (auto split: run.splits prod.splits)
  have "I (cy_now c) (rs_alarms (th_rules th1))"
    using cycle[OF _ Cons.prems(3) _ c(1)] Cons.prems(1,2) by simp
  from Cons.IH[OF _ _ this c(2)] Cons.prems(1,2) show ?case by (cases cs) auto
qed simp

lemma cycles_publish:
  assumes "\<forall>c \<in> set cs. cy_logic c = al" and "sorted (t # map cy_now cs)" and "I t (rs_alarms (th_rules th))"
    and "run_cycles cs th = Ok (msgs, th')" and "msg \<in> set msgs"
  shows "\<exists>c \<in> set cs. \<exists>s s' ops. I (cy_now c) s \<and> SendAllAlarmEventMsg (cy_publish c) (cy_now c) s = (msg, s', ops)"
  using assms
proof (induction cs arbitrary: t th msgs)
  case (Cons c cs)
  obtain m th1 msgs' where c: "thread_cycle c th = Ok (m, th1)" "run_cycles cs th1 = Ok (msgs', th')" "msgs = m # msgs'"
    using Cons.prems(4) by (auto split: run.splits prod.splits)
  have i: "I (cy_now c) (rs_alarms (th_rules th1))"
    using cycle[OF _ Cons.prems(3) _ c(1)] Cons.prems(1,2) by simp
  show ?case
  proof (cases "msg = m")
    case True
    then show ?thesis using cycle_publishes[OF _ Cons.prems(3) _ c(1)] Cons.prems(1,2) by simp
  next
    case False
    then show ?thesis using Cons.IH[OF _ _ i c(2)] Cons.prems(1,2,5) c(3) by simp
  qed
qed simp

end

lemma alarms_ok_cong:
  "alarms_ok s \<Longrightarrow> mapAlarmData s' = mapAlarmData s \<Longrightarrow> alarmFilterExpireMs s' = alarmFilterExpireMs s \<Longrightarrow>
   qm_ok (manualAlarmData s') \<Longrightarrow> alarms_ok s'"
  by (simp add: alarms_ok_def)

lemma alarms_ok_expire:
  "alarms_ok s \<Longrightarrow> alarms_ok (s\<lparr>alarmFilterExpireMs := pruneExpiredAlarmFilters now (alarmFilterExpireMs s)\<rparr>)"
  by (simp add: alarms_ok_def qm_ok_pruneExpired)

lemma quiet_cong:
  "quiet type t until s \<Longrightarrow> mapAlarmData s' = mapAlarmData s \<Longrightarrow> alarmFilterExpireMs s' = alarmFilterExpireMs s \<Longrightarrow>
   qm_ok (manualAlarmData s') \<Longrightarrow> quiet type t until s'"
  by (auto simp: quiet_def intro: alarms_ok_cong)

lemma quiet_expire:
  "quiet type t until s \<Longrightarrow> now < until \<Longrightarrow>
   quiet type t until (s\<lparr>alarmFilterExpireMs := pruneExpiredAlarmFilters now (alarmFilterExpireMs s)\<rparr>)"
  by (auto simp: quiet_def alarms_ok_expire alarms_okD(3) map_of_pruneExpired)

lemma live_unique_prune:
  "alarms_ok s \<Longrightarrow> live_unique al t (mapAlarmData s) \<Longrightarrow> live_unique al t (mapAlarmData (prune_alarms al t s))"
  by (auto intro: live_unique_sub[of al t "mapAlarmData s"] simp: prune_alarms_lookup split: option.splits if_splits)

interpretation table_ok: table_invariant al "\<lambda>t s. alarms_ok s" for al
  by unfold_locales (simp_all add: alarms_ok_SaveToDB alarms_ok_prune alarms_ok_cong alarms_ok_expire)

text \<open>Two live alarms with the same key are the same alarm.\<close>

interpretation one_live: table_invariant al "\<lambda>t s. alarms_ok s \<and> live_unique al t (mapAlarmData s)" for al
  by unfold_locales
    (auto simp: alarms_ok_SaveToDB live_unique_SaveToDB alarms_ok_prune live_unique_prune alarms_ok_expire
      intro: live_unique_later alarms_ok_cong)

text \<open>A silenced target has no alarm.\<close>

interpretation silence: table_invariant al
  "\<lambda>now s. alarms_ok s \<and> (now < until \<longrightarrow> type \<in> {0, 1} \<longrightarrow> quiet type t until s)" for al type t until
  by unfold_locales
    (auto simp: alarms_ok_SaveToDB quiet_SaveToDB alarms_ok_prune quiet_prune alarms_ok_expire quiet_expire
      intro: alarms_ok_cong quiet_cong)

section \<open>Alarms raised in a pass stay to its end\<close>

definition has_alarm :: "int \<Rightarrow> int \<Rightarrow> alarm_state \<Rightarrow> bool" where
  "has_alarm now t s \<longleftrightarrow> (\<exists>k ad. map_of (mapAlarmData s) k = Some ad \<and> unique_id ad = t \<and> alarm_time ad = now)"

text \<open>The ids the thread is going to draw are new: what \<open>QUuid::createUuid\<close> promises.\<close>

definition fresh_ids :: "rule_env \<Rightarrow> rule_state \<Rightarrow> bool" where
  "fresh_ids E st \<longleftrightarrow> inj (re_uuid E) \<and> (\<forall>n \<ge> rs_uuids st. map_of (mapAlarmData (rs_alarms st)) (re_uuid E n) = None)"

lemma SaveToDB_keys:
  assumes "alarms_ok s" "map_of (mapAlarmData s) k = None" "k \<noteq> sv_uuid a"
  shows "map_of (mapAlarmData (fst (SaveToDB al now a s))) k = None"
  using assms(1)
proof (cases rule: SaveToDB_cases[of s a now al])
  case (refresh old)
  with assms show ?thesis by auto
qed (use assms in simp_all)

lemma SaveToDB_keeps:
  assumes "alarms_ok s" "has_alarm now t s" "map_of (mapAlarmData s) (sv_uuid a) = None"
  shows "has_alarm now t (fst (SaveToDB al now a s))"
proof -
  obtain k ad where k: "map_of (mapAlarmData s) k = Some ad" "unique_id ad = t" "alarm_time ad = now"
    using assms(2) by (auto simp: has_alarm_def)
  show ?thesis
    using assms(1)
  proof (cases rule: SaveToDB_cases[of s a now al])
    case skip
    with assms(2) show ?thesis by (simp add: has_alarm_def)
  next
    case fresh
    with k assms(3) show ?thesis unfolding has_alarm_def by (intro exI[of _ k] exI[of _ ad]) auto
  next
    case (refresh old)
    show ?thesis
    proof (cases "k = alarm_id old")
      case True
      with refresh k have "old = ad" by simp
      with refresh k(2) have "sv_targetId a = t" by (auto simp: matchesDedupKey_def split: if_splits)
      with refresh show ?thesis unfolding has_alarm_def
        by (intro exI[of _ "alarm_id old"] exI[of _ "refreshed_alarm al a now old"]) simp
    next
      case False
      with k refresh show ?thesis unfolding has_alarm_def by (intro exI[of _ k] exI[of _ ad]) simp
    qed
  qed
qed

lemma fresh_ids_step:
  assumes "alarms_ok (rs_alarms st)" "fresh_ids E st"
  shows "fresh_ids E (evalCandidate E now tbs info type src tid st)"
proof (cases rule: evalCandidate_cases[of E now tbs info type src tid st])
  case unchanged
  with assms show ?thesis by (simp add: fresh_ids_def)
next
  case (saved tr score content)
  have "map_of (mapAlarmData (fst (SaveToDB (re_logic E) now
      (rule_save_args E info src tid tr score content (re_uuid E (rs_uuids st))) (rs_alarms st)))) (re_uuid E n) = None"
    if "Suc (rs_uuids st) \<le> n" for n
    using assms that by (intro SaveToDB_keys) (auto simp: fresh_ids_def inj_eq)
  with saved assms show ?thesis by (simp add: fresh_ids_def)
qed

lemma has_alarm_step:
  assumes "alarms_ok (rs_alarms st)" "fresh_ids E st" "has_alarm now t (rs_alarms st)"
  shows "has_alarm now t (rs_alarms (evalCandidate E now tbs info type src tid st))"
proof (cases rule: evalCandidate_cases[of E now tbs info type src tid st])
  case unchanged
  with assms show ?thesis by simp
next
  case (saved tr score content)
  have "map_of (mapAlarmData (rs_alarms st)) (re_uuid E (rs_uuids st)) = None"
    using assms(2) by (simp add: fresh_ids_def)
  with SaveToDB_keeps[OF assms(1,3)] saved show ?thesis by simp
qed

text \<open>A table in which a target may get an alarm, and one in which it has one.\<close>

definition ready :: "int \<Rightarrow> rule_env \<Rightarrow> int \<Rightarrow> rule_state \<Rightarrow> bool" where
  "ready t E now st \<longleftrightarrow> alarms_ok (rs_alarms st) \<and> fresh_ids E st \<and> \<not> silenced now t (rs_alarms st)"

definition raised :: "int \<Rightarrow> rule_env \<Rightarrow> int \<Rightarrow> rule_state \<Rightarrow> bool" where
  "raised t E now st \<longleftrightarrow> ready t E now st \<and> has_alarm now t (rs_alarms st)"

interpretation ready: batch_invariant "ready t" for t
  by unfold_locales
    (auto simp: ready_def fresh_ids_step alarms_ok_evalCandidate silenced_evalCandidate, simp_all add: fresh_ids_def)

lemma has_alarm_list [simp]: "has_alarm now t (s\<lparr>listAlarmData := l\<rparr>) = has_alarm now t s"
  by (simp add: has_alarm_def)

lemma has_alarm_ready:
  "ready t E now st \<Longrightarrow> has_alarm now t (rs_alarms st) \<Longrightarrow>
   has_alarm now t (rs_alarms (evalCandidate E now tbs info type src tid st))"
  by (simp add: ready_def has_alarm_step)

interpretation raised: batch_invariant "raised t" for t
  by unfold_locales
    (simp_all add: raised_def has_alarm_ready ready.step ready.list_reset ready.area_list ready.areas)

lemma has_alarm_saved:
  assumes "alarms_ok s" "0 < sv_targetId a" "\<not> silenced now (sv_targetId a) s"
  shows "has_alarm now (sv_targetId a) (fst (SaveToDB al now a s))"
  using SaveToDB_raises[OF assms] unfolding has_alarm_def by metis

lemma candidate_raises:
  assumes "ready tid E now st" "0 < tid" "type \<le> 3" "candidateTrack E tbs type tid = Some tr" "\<not> bird_skipped E type src tr"
    and "\<not> in_no_alarm_zone E tr" "blackWhite E info tid = Unlisted" "rule_matches E type info tid tr (rs_speedLast st)"
  shows "raised tid E now (evalCandidate E now tbs info type src tid st)"
proof -
  have e: "evalCandidate E now tbs info type src tid st = evalConditions E now info type src tid tr st"
    using assms(3-7) by (simp add: evalCandidate_def evalTrack_def)
  obtain score content where "rs_alarms (evalConditions E now info type src tid tr st) =
      fst (SaveToDB (re_logic E) now (rule_save_args E info src tid tr score content (re_uuid E (rs_uuids st))) (rs_alarms st))"
    by (rule evalConditions_alarms[of E now info type src tid tr st]) (use assms(8) in simp)
  then have "has_alarm now tid (rs_alarms (evalCandidate E now tbs info type src tid st))"
    using has_alarm_saved[of "rs_alarms st" "rule_save_args E info src tid tr score content (re_uuid E (rs_uuids st))" now]
      assms(1,2) by (simp add: e ready_def)
  then show ?thesis using ready.step[OF assms(1)] by (simp add: raised_def)
qed

lemma matches_any_memory:
  "rule_speed_condition info \<le> 0 \<Longrightarrow> rule_matches E type info tid tr mem = rule_matches E type info tid tr mem'"
  by (simp add: rule_matches_def speed_matches_def)

lemma batch_raises:
  assumes "ready tid E now st" "tid \<in> set ids" "0 < tid" "type \<le> 3" "candidateTrack E tbs type tid = Some tr"
    "\<not> bird_skipped E type src tr" "\<not> in_no_alarm_zone E tr" "blackWhite E info tid = Unlisted"
    "rule_speed_condition info \<le> 0" "rule_matches E type info tid tr []"
  shows "raised tid E now (updataAlarmTrackToDB E now tbs info type src ids st)"
proof -
  obtain xs ys where ids: "ids = xs @ tid # ys" using assms(2) by (meson split_list)
  let ?st = "fold (evalCandidate E now tbs info type src) xs (st\<lparr>rs_alarms := (rs_alarms st)\<lparr>listAlarmData := []\<rparr>\<rparr>)"
  have "ready tid E now ?st" using ready.batch[OF ready.list_reset[OF assms(1)]] .
  then have "raised tid E now (evalCandidate E now tbs info type src tid ?st)"
    using candidate_raises assms(3-8,10) matches_any_memory[OF assms(9)] by blast
  then have "raised tid E now (fold (evalCandidate E now tbs info type src) ys (evalCandidate E now tbs info type src tid ?st))"
    by (rule raised.batch)
  then show ?thesis by (simp add: updataAlarmTrackToDB_def Let_def ids raised.area_list)
qed

section \<open>From the track table to the event\<close>

lemma rule_batches_reaches:
  assumes "rule_batches E (before @ info # after) J0 = Ok bs"
    and "\<forall>r \<in> set before. rule_alarmstate r \<noteq> 0 \<longrightarrow> has_area r \<longrightarrow> area_of E r \<noteq> None"
    and "rule_alarmstate info \<noteq> 0" "has_area info" "area_of E info = Some a"
  shows "\<exists>bs1 J b J' bs2. bs = bs1 @ (J', info, b) # bs2 \<and> judge_rule E a info J = Ok (b, J') \<and> alike J0 J"
  using assms(1,2)
proof (induction before arbitrary: J0 bs)
  case Nil
  then show ?case
    using assms(3-5) alike_refl[of J0] by (fastforce split: run.splits prod.splits)
next
  case (Cons r before)
  show ?case
  proof (cases "rule_alarmstate r = 0")
    case True
    with Cons show ?thesis by auto
  next
    case False
    with Cons.prems obtain b J1 bs' where j: "judge_rule E (judged_area E r) r J0 = Ok (b, J1)"
      "rule_batches E (before @ info # after) J1 = Ok bs'" "bs = (J1, r, b) # bs'"
      by (auto split: run.splits prod.splits if_splits)
    have "\<forall>r \<in> set before. rule_alarmstate r \<noteq> 0 \<longrightarrow> has_area r \<longrightarrow> area_of E r \<noteq> None" using Cons.prems(2) by simp
    from Cons.IH[OF j(2) this] obtain bs1 J b' J' bs2
      where "bs' = bs1 @ (J', info, b') # bs2" "judge_rule E a info J = Ok (b', J')" "alike J1 J" by blast
    with j show ?thesis
      using alike_trans[OF alike_step[OF j(1)]] by (intro exI[of _ "(J1, r, b) # bs1"]) auto
  qed
qed

lemma snapshot_fuse:
  assumes "map_of (jt_fuse g) k = Some t"
  shows "map_of (jt_fuse (snapshotTables g)) k = Some t"
    "qm_value (jt_fuseTrail (snapshotTables g)) k [] = qm_value (jt_fuseTrail g) k []"
  using assms by (auto simp: snapshotTables_def qm_value_def copyTrail_lookup dest: map_of_SomeD intro: rev_image_eqI)

lemma rule_part_tracks:
  "p \<in> set (mapAlarmData s) \<Longrightarrow> publishable now s (snd p) \<Longrightarrow>
   \<exists>i \<in> set (rule_part E now s). ai_trackId i = dec_int (unique_id (snd p))"
  unfolding rule_part_def set_map set_filter by (simp only: bex_simps info_ids) blast

lemma raised_is_published:
  assumes "raised tid E now st" and "SendAllAlarmEventMsg P now (rs_alarms st) = (msg, s', ops)"
    and "pe_publishEvent P" "pe_ddsReady P" "pe_multi P"
  shows "\<exists>infos. msg = Some infos \<and> dec_int tid \<in> ai_trackId ` set infos"
proof -
  let ?s = "rs_alarms st"
  obtain k ad where k: "map_of (mapAlarmData ?s) k = Some ad" "unique_id ad = tid" "alarm_time ad = now"
    and r: "alarms_ok ?s" "\<not> silenced now tid ?s"
    using assms(1) by (auto simp: raised_def ready_def has_alarm_def)
  have m: "(k, ad) \<in> set (mapAlarmData ?s)" using k(1) by (rule map_of_SomeD)
  then have ne: "mapAlarmData ?s \<noteq> []" by auto
  obtain infos where i: "msg = Some infos"
    using assms(2-5) ne by (auto simp: SendAllAlarmEventMsg_def Let_def sync_frame split: prod.splits)
  have "set (rule_part P now ?s) \<subseteq> set infos"
    using SendAll_shape[OF r(1), of P now infos s' ops] assms(2) i ne by auto
  moreover have "publishable now ?s ad" using k r by (simp add: publishable_def)
  ultimately have "dec_int tid \<in> ai_trackId ` set infos"
    using rule_part_tracks[OF m, of now P] k(2) by (auto intro: rev_image_eqI)
  with i show ?thesis by blast
qed

lemma staying_target_is_raised:
  assumes "rule_batches E (before @ info # after) (snapshotTables g) = Ok bs" and "ready tid (je_rule E) now st"
    and "\<And>ids. set (je_order E ids) = set ids"
    and "\<forall>r \<in> set before. rule_alarmstate r \<noteq> 0 \<longrightarrow> has_area r \<longrightarrow> area_of E r \<noteq> None"
    and "rule_alarmstate info \<noteq> 0" "has_area info" "area_of E info = Some a"
    and "rule_area_judge info = 1" "rule_track_type info = 0" "rule_speed_condition info = 0"
    and "map_of (jt_fuse g) tid = Some t" "dwells (re_qarea (je_rule E)) a info t (qm_value (jt_fuseTrail g) tid [])"
    and "0 < tid" "\<not> in_no_alarm_zone (je_rule E) t" "blackWhite (je_rule E) info tid = Unlisted"
    and "rule_matches (je_rule E) 0 info tid t []"
  shows "raised tid (je_rule E) now (submit_all E now bs st)"
proof -
  from rule_batches_reaches[OF assms(1,4-7)] obtain bs1 J b J' bs2 where
    p: "bs = bs1 @ (J', info, b) # bs2" "judge_rule E a info J = Ok (b, J')" "alike (snapshotTables g) J" by blast
  let ?ids = "[k. (k, t) \<leftarrow> jt_fuse J, dwells (re_qarea (je_rule E)) a info t (qm_value (jt_fuseTrail J) k [])]"
  have J: "map_of (jt_fuse J) tid = Some t" "dwells (re_qarea (je_rule E)) a info t (qm_value (jt_fuseTrail J) tid [])"
    using snapshot_fuse[OF assms(11)] p(3) assms(12) by (simp_all add: alike_def)
  have b: "b = (0, 0, ?ids)" "jt_fuse J' = jt_fuse J"
    using p(2) judge_stay_fuse[OF assms(9), of E a J] assms(6,8) by (auto simp: judge_rule_def)
  have tid: "tid \<in> set ?ids" using J map_of_SomeD[OF J(1)] by auto
  have "raised tid (je_rule E) now (updataAlarmTrackToDB (je_rule E) now (tables_of J') info 0 0 (je_order E ?ids)
      (submit_all E now bs1 st))"
  proof (rule batch_raises[where tr = t])
    show "ready tid (je_rule E) now (submit_all E now bs1 st)" by (rule ready.submitted_all[OF assms(2)])
    show "candidateTrack (je_rule E) (tables_of J') 0 tid = Some t"
      using J(1) b(2) by (simp add: candidateTrack_def tables_of_def)
    show "\<not> bird_skipped (je_rule E) 0 0 t" by (simp add: bird_skipped_def)
  qed (use assms tid in simp_all)
  moreover have "submit E now J' info b st = updataAlarmTrackToDB (je_rule E) now (tables_of J') info 0 0 (je_order E ?ids) st" for st
    using tid by (auto simp: submit_def b(1))
  ultimately show ?thesis
    using raised.submitted_all[of tid E now] by (simp add: submit_all_def p(1))
qed

text \<open>
  C1. A target that stays in a guarded area is published in the same pass: let an active stay rule on fused tracks
  have its area, and every active rule before it too; let a fused target dwell in the area, meet the conditions of the
  rule (one without a speed condition), be on no list, outside the no-alarm zones, and not silenced.  If the pass returns, the
  event it sends has an entry for the target.
\<close>

theorem staying_target_is_published:
  assumes "thread_cycle c th = Ok (msg, th')" and "E = cycle_env c th" and "now = cy_now c"
    and "alarms_ok (rs_alarms (th_rules th))" and "fresh_ids (je_rule E) (th_rules th)"
    and "\<And>ids. set (je_order E ids) = set ids"
    and "map snd (cy_alarmRules c) = before @ info # after"
    and "\<forall>r \<in> set before. rule_alarmstate r \<noteq> 0 \<longrightarrow> has_area r \<longrightarrow> area_of E r \<noteq> None"
    and "rule_alarmstate info \<noteq> 0" and "has_area info" and "area_of E info = Some a"
    and "rule_area_judge info = 1" and "rule_track_type info = 0" and "rule_speed_condition info = 0"
    and "map_of (jt_fuse (cy_tables c)) tid = Some t"
    and "dwells (re_qarea (je_rule E)) a info t (qm_value (jt_fuseTrail (cy_tables c)) tid [])"
    and "0 < tid" and "\<not> silenced now tid (rs_alarms (th_rules th))"
    and "\<not> in_no_alarm_zone (je_rule E) t" and "blackWhite (je_rule E) info tid = Unlisted"
    and "rule_matches (je_rule E) 0 info tid t []"
    and "pe_publishEvent (cy_publish c)" and "pe_ddsReady (cy_publish c)" and "pe_multi (cy_publish c)"
  shows "\<exists>infos. msg = Some infos \<and> dec_int tid \<in> ai_trackId ` set infos"
proof -
  let ?st = "th_rules (clearSpeedMemory now th)"
  from thread_cycle_parts[OF assms(1)] assms(2,3) obtain bs s ops where
    bs: "rule_batches E (map snd (cy_alarmRules c)) (snapshotTables (cy_tables c)) = Ok bs"
    and send: "SendAllAlarmEventMsg (cy_publish c) now (rs_alarms (submit_all E now bs ?st)) = (msg, s, ops)" by metis
  have "ready tid (je_rule E) now ?st" using assms(4,5,18) by (simp add: ready_def fresh_ids_def)
  from staying_target_is_raised[OF bs[unfolded assms(7)] this assms(6,8-17,19-21)]
  show ?thesis by (rule raised_is_published[OF _ send assms(22-24)])
qed

text \<open>A pass over one stay rule and one target, on which the witnesses compute.\<close>

definition box_qt_area :: qt_area where
  "box_qt_area = sample_qt_area\<lparr>splitComma := (\<lambda>s. if s = [] then [] else [[], [], s, s]),
     toFloat := (\<lambda>s. Some (real (length s)))\<rparr>"

definition box_info :: AreaInfo where
  "box_info = \<lparr>an_groupID = 3, an_areaID = 0, an_areaName = qs ''box'', an_areaType = 1, an_startPoint = [], an_endPoint = [],
     an_areaRect = qs ''aaaaaaaaaaaaaaaaaaaa'', an_areaPoints = []\<rparr>"

definition guard_rule :: AlarmRule where
  "guard_rule = default_rule\<lparr>rule_condition_id := ''guard'', rule_alarmstate := 1, rule_group_id := 3, rule_area_judge := 1\<rparr>"

definition box_judge :: judge_env where
  "box_judge = sample_judge\<lparr>je_rule := rules_env\<lparr>re_qarea := box_qt_area\<rparr>\<rparr>"

definition guard_cycle :: "int \<Rightarrow> cycle_input" where
  "guard_cycle now = \<lparr>cy_now = now, cy_judge = box_judge, cy_publish = sample_publish, cy_areas = [box_info],
     cy_tables = sea_tables (walk 11), cy_alarmRules = [(''guard'', guard_rule)], cy_dbFilters = []\<rparr>"

definition idle_thread :: thread_state where
  "idle_thread = \<lparr>th_rules = fresh_rules, th_lastClear = 0, th_filters = []\<rparr>"

definition guarded :: AlarmArea where
  "guarded = empty_area\<lparr>ar_areaName := qs ''box'', ar_type := 1, ar_groupID := 3, ar_rect := ((0, 0), (20, 20)),
     ar_polygon := [(0, 0), (20, 20)]\<rparr>"

lemma box_parsed: "parseArea ascii_text box_qt_area box_info = Some guarded"
proof -
  have "length (trimmed ascii_text (qs ''aaaaaaaaaaaaaaaaaaaa'')) = 20" "trimmed ascii_text [] = []" by code_simp+
  then show ?thesis
    by (simp add: parseArea_def box_info_def box_qt_area_def sample_qt_area_def parseAreaRect_def parseCoordPair_def
        appendPolygonPoints_def guarded_def empty_area_def Let_def)
qed

lemma guard_env:
  "re_areas (je_rule (cycle_env (guard_cycle now) th)) = [(3, [guarded])]"
  "re_filters (je_rule (cycle_env (guard_cycle now) th)) = []" "re_protect (je_rule (cycle_env (guard_cycle now) th)) = []"
  "re_logic (je_rule (cycle_env (guard_cycle now) th)) = default_logic" "re_qarea (je_rule (cycle_env (guard_cycle now) th)) = box_qt_area"
  "re_content (je_rule (cycle_env (guard_cycle now) th)) = sample_content_env"
  "je_order (cycle_env (guard_cycle now) th) = (\<lambda>ids. ids)"
  "re_uuid (je_rule (cycle_env (guard_cycle now) th)) = (\<lambda>n. ''u'' @ dec n)"
  using box_parsed
  by (simp_all add: cycle_env_def guard_cycle_def box_judge_def sample_judge_def rules_env_def sample_content_env_def getAlarmArea_def
      box_info_def[THEN arg_cong[of _ _ an_groupID]] qm_value_def cycle_filters_def default_logic_def)

lemma guard_rule_fields [simp]:
  "rule_alarmstate guard_rule = 1" "has_area guard_rule" "rule_area_judge guard_rule = 1" "rule_track_type guard_rule = 0"
  "rule_speed_condition guard_rule = 0" "rule_group_id guard_rule = 3" "rule_area_id guard_rule = 0"
  by (simp_all add: guard_rule_def default_rule_def has_area_def)

lemma guard_area: "ruleArea [(3, [guarded])] guard_rule = Some guarded"
  by (simp add: ruleArea_def qm_value_def guarded_def)

abbreviation seventh :: SPxTrack where
  "seventh \<equiv> zero_track\<lparr>latDegs := 11, longDegs := 1\<rparr>"

lemma guard_dwells: "dwells box_qt_area guarded guard_rule seventh (walk 11)"
  by (simp add: dwells_def track_pt_def in_height_def guard_rule_def default_rule_def zero_track_def walk_def inArea_def
      guarded_def empty_area_def box_qt_area_def sample_qt_area_def)

lemma guard_matches:
  assumes "re_filters E = []" "re_protect E = []"
  shows "rule_matches E 0 guard_rule 7 seventh []" "blackWhite E guard_rule 7 = Unlisted"
  using assms
  by (auto simp: rule_matches_def speed_matches_def sector_matches_def circle_matches_def attributes_ok_def targetInfo_def
      protect_centre_def protect_last_def protect_circles_def threat_matches_def needs_detection_def checked_angle_def
      guard_rule_def default_rule_def zero_track_def blackWhite_def)

lemma guard_fields [simp]:
  "cy_now (guard_cycle now) = now" "cy_tables (guard_cycle now) = sea_tables (walk 11)"
  "map snd (cy_alarmRules (guard_cycle now)) = [guard_rule]" "cy_publish (guard_cycle now) = sample_publish"
  "cy_logic (guard_cycle now) = default_logic"
  by (simp_all add: guard_cycle_def box_judge_def sample_judge_def rules_env_def)

lemma guard_returns: "\<exists>msg th'. thread_cycle (guard_cycle now) th = Ok (msg, th')"
proof -
  have "\<exists>bs. rule_batches (cycle_env (guard_cycle now) th) [guard_rule] J = Ok bs" for J
    using judge_stay_fuse[of guard_rule "cycle_env (guard_cycle now) th" guarded J]
    by (simp add: guard_env guard_area judge_rule_def)
  then show ?thesis using thread_cycle_returns[of "guard_cycle now" th] by (auto simp del: rule_batches.simps)
qed

lemma idle_fields [simp]: "th_rules idle_thread = fresh_rules" "th_lastClear idle_thread = 0"
  by (simp_all add: idle_thread_def)

lemma idle_fresh: "fresh_ids (je_rule (cycle_env (guard_cycle now) th)) fresh_rules"
  by (simp add: fresh_ids_def guard_env inj_def fresh_rules_def empty_state_def)

lemma guard_target:
  "map_of (jt_fuse (sea_tables tr)) 7 = Some seventh" "qm_value (jt_fuseTrail (sea_tables tr)) 7 [] = tr"
  by (simp_all add: sea_tables_def no_tables_def qm_value_def)

theorem staying_target_is_published_witness:
  "\<exists>infos th'. thread_cycle (guard_cycle 1000) idle_thread = Ok (Some infos, th') \<and> ''7'' \<in> ai_trackId ` set infos"
proof -
  obtain msg th' where r: "thread_cycle (guard_cycle 1000) idle_thread = Ok (msg, th')" using guard_returns by blast
  have "\<exists>infos. msg = Some infos \<and> dec_int 7 \<in> ai_trackId ` set infos"
    by (rule staying_target_is_published[OF r refl refl, where before = "[]" and info = guard_rule and after = "[]"
          and a = guarded and t = seventh])
      (simp_all add: fresh_rules_quiet guard_env guard_area guard_dwells guard_matches guard_target idle_fresh
        sample_publish_def[THEN arg_cong[of _ _ pe_publishEvent]] sample_publish_def[THEN arg_cong[of _ _ pe_ddsReady]]
        sample_publish_def[THEN arg_cong[of _ _ pe_multi]] in_no_alarm_zone_def default_logic_def)
  moreover have "dec_int 7 = ''7''" by code_simp
  ultimately show ?thesis using r by auto
qed

section \<open>Properties of runs of the thread\<close>

text \<open>
  C7. No duplicates over a whole run: if no two live alarms of the table have the same key, the same holds after any
  number of passes with non-decreasing clock readings, whatever tracks, rules and areas they meet.
\<close>

theorem passes_keep_one_live_alarm:
  assumes "\<forall>c \<in> set cs. cy_logic c = al" and "sorted (t # map cy_now cs)"
    and "alarms_ok (rs_alarms (th_rules th))" and "live_unique al t (mapAlarmData (rs_alarms (th_rules th)))"
    and "run_cycles cs th = Ok (msgs, th')"
  shows "alarms_ok (rs_alarms (th_rules th')) \<and>
    live_unique al (last (t # map cy_now cs)) (mapAlarmData (rs_alarms (th_rules th')))"
  using one_live.cycles[OF assms(1,2) conjI[OF assms(3,4)] assms(5)] by simp

lemma guard_run: "\<exists>msgs th'. run_cycles [guard_cycle 1000, guard_cycle 2000] th = Ok (msgs, th')"
proof -
  obtain m1 th1 where 1: "thread_cycle (guard_cycle 1000) th = Ok (m1, th1)" using guard_returns by blast
  obtain m2 th2 where 2: "thread_cycle (guard_cycle 2000) th1 = Ok (m2, th2)" using guard_returns by blast
  show ?thesis by (simp add: 1 2)
qed

theorem passes_keep_one_live_alarm_witness:
  "\<exists>msgs th'. run_cycles [guard_cycle 1000, guard_cycle 2000] idle_thread = Ok (msgs, th') \<and>
     live_unique default_logic 2000 (mapAlarmData (rs_alarms (th_rules th')))"
proof -
  obtain msgs th' where r: "run_cycles [guard_cycle 1000, guard_cycle 2000] idle_thread = Ok (msgs, th')"
    using guard_run by blast
  have "live_unique default_logic (last (0 # map cy_now [guard_cycle 1000, guard_cycle 2000]))
      (mapAlarmData (rs_alarms (th_rules th')))"
    by (rule passes_keep_one_live_alarm[OF _ _ _ _ r, THEN conjunct2])
      (simp_all add: fresh_rules_quiet, simp add: fresh_rules_def empty_state_def live_unique_def)
  then show ?thesis using r by auto
qed

text \<open>
  C10. The table stays well formed: after any passes its entries are in strict key order, the key of an alarm is its id,
  its target is a positive number and its count at least one, whatever the passes judged and published.
\<close>

theorem passes_keep_table_well_formed:
  assumes "sorted (t # map cy_now cs)" and "\<forall>c \<in> set cs. cy_logic c = al" and "alarms_ok (rs_alarms (th_rules th))"
    and "run_cycles cs th = Ok (msgs, th')" and "m = mapAlarmData (rs_alarms (th_rules th'))"
  shows "sorted_wrt (<) (map fst m) \<and> (\<forall>(k, ad) \<in> set m. alarm_id ad = k \<and> 0 < unique_id ad \<and> 1 \<le> alarm_count ad)"
proof -
  have "alarms_ok (rs_alarms (th_rules th'))" using table_ok.cycles[OF assms(2,1,3,4)] .
  then have "qm_ok m" "(k, ad) \<in> set m \<Longrightarrow> alarm_id ad = k \<and> 0 < unique_id ad \<and> 1 \<le> alarm_count ad" for k ad
    using qm.entries_iff[of m k ad] by (auto simp: alarms_ok_def assms(5))
  then show ?thesis by (auto simp: qm_ok_def)
qed

theorem passes_keep_table_well_formed_witness:
  "\<exists>msgs th'. run_cycles [guard_cycle 1000, guard_cycle 2000] idle_thread = Ok (msgs, th') \<and>
     sorted_wrt (<) (map fst (mapAlarmData (rs_alarms (th_rules th'))))"
proof -
  obtain msgs th' where r: "run_cycles [guard_cycle 1000, guard_cycle 2000] idle_thread = Ok (msgs, th')"
    using guard_run by blast
  have "sorted_wrt (<) (map fst (mapAlarmData (rs_alarms (th_rules th'))))"
    by (rule passes_keep_table_well_formed[OF _ _ _ r refl, where al = default_logic and t = 0, THEN conjunct1])
      (simp_all add: fresh_rules_quiet)
  then show ?thesis using r by auto
qed

lemma quiet_through_passes:
  assumes q: "quiet type tgt tEnd (rs_alarms (th_rules th))" and ty: "0 < tgt" "type \<in> {0, 1}"
    and cfg: "\<forall>c \<in> set cs. cy_logic c = al \<and> cy_now c < tEnd"
    and sorted: "sorted (start # map cy_now cs)" "start < tEnd" and run: "run_cycles cs th = Ok (msgs, th')"
  shows "(\<forall>k ad. map_of (mapAlarmData (rs_alarms (th_rules th'))) k = Some ad \<longrightarrow> unique_id ad \<noteq> tgt) \<and>
    (\<forall>infos i. Some infos \<in> set msgs \<longrightarrow> i \<in> set infos \<longrightarrow> ai_trackId i = dec_int tgt \<longrightarrow> ai_alarmId i = ''-1'')"
proof -
  have i: "alarms_ok (rs_alarms (th_rules th)) \<and> (start < tEnd \<longrightarrow> type \<in> {0, 1} \<longrightarrow> quiet type tgt tEnd (rs_alarms (th_rules th)))"
    using q by (simp add: quiet_def)
  have al: "\<forall>c \<in> set cs. cy_logic c = al" using cfg by blast
  have "last (start # map cy_now cs) < tEnd"
    using cfg sorted(2) last_in_set[of cs] by (cases cs) (auto simp: last_map)
  then have "quiet type tgt tEnd (rs_alarms (th_rules th'))"
    using silence.cycles[OF al sorted(1) i run] ty(2) by blast
  moreover have "ai_alarmId i = ''-1''" if m: "Some infos \<in> set msgs" "i \<in> set infos" "ai_trackId i = dec_int tgt" for infos i
  proof -
    from silence.cycles_publish[OF al sorted(1) i run m(1)] obtain c s1 s' ops where
      c: "c \<in> set cs" "alarms_ok s1" "cy_now c < tEnd \<longrightarrow> type \<in> {0, 1} \<longrightarrow> quiet type tgt tEnd s1"
      and send: "SendAllAlarmEventMsg (cy_publish c) (cy_now c) s1 = (Some infos, s', ops)" by blast
    have "quiet type tgt tEnd s1" "cy_now c < tEnd" using c ty(2) cfg by blast+
    then have q: "silenced (cy_now c) tgt s1" using ty(2) by (auto simp: quiet_def silenced_def)
    show ?thesis
    proof (cases "mapAlarmData s1 \<noteq> [] \<or> manualAlarmData (synced_state (cy_publish c) (cy_now c) s1) \<noteq> []")
      case True
      show ?thesis
        using SendAll_entry[OF c(2) send True m(2)] q m(3) ty(1) by cases (auto simp: publishable_def)
    next
      case False
      then have "infos = []" using send by (auto simp: SendAllAlarmEventMsg_def Let_def sync_frame split: if_splits)
      with m(2) show ?thesis by simp
    qed
  qed
  ultimately show ?thesis by (auto simp: quiet_def)
qed

text \<open>
  Silence over a whole run: after a target has been silenced, no pass before the end of the time to live leaves
  an alarm of it in the table or puts an alarm of it (a rule alarm or a manual one) into the event it publishes.
\<close>

theorem silenced_through_passes:
  assumes "alarms_ok s" and "0 < tgt" and "type \<in> {0, 1}"
    and "rs_alarms (th_rules th) = addAlarmFilter al start type tgt s"
    and "\<forall>c \<in> set cs. cy_logic c = al \<and> cy_now c < start + max 1000 (alarmFilterTtlMs al)"
    and "sorted (start # map cy_now cs)" and "run_cycles cs th = Ok (msgs, th')"
  shows "(\<forall>k ad. map_of (mapAlarmData (rs_alarms (th_rules th'))) k = Some ad \<longrightarrow> unique_id ad \<noteq> tgt) \<and>
    (\<forall>infos i. Some infos \<in> set msgs \<longrightarrow> i \<in> set infos \<longrightarrow> ai_trackId i = dec_int tgt \<longrightarrow> ai_alarmId i = ''-1'')"
proof -
  let ?until = "start + max 1000 (alarmFilterTtlMs al)"
  have "quiet type tgt ?until (rs_alarms (th_rules th))"
    using addAlarmFilter_lookup[OF assms(1,2)] alarms_ok_addAlarmFilter[OF assms(1)]
    by (auto simp: assms(4) quiet_def split: option.splits)
  then show ?thesis using quiet_through_passes[OF _ assms(2,3,5,6) _ assms(7)] by simp
qed

definition silenced_thread :: thread_state where
  "silenced_thread = idle_thread\<lparr>th_rules := fresh_rules\<lparr>rs_alarms := addAlarmFilter default_logic 500 0 7 empty_state\<rparr>\<rparr>"

theorem silenced_through_passes_witness:
  "\<exists>msgs th'. run_cycles [guard_cycle 1000, guard_cycle 2000] silenced_thread = Ok (msgs, th') \<and>
     7 \<notin> unique_id ` ran (map_of (mapAlarmData (rs_alarms (th_rules th'))))"
proof -
  obtain msgs th' where r: "run_cycles [guard_cycle 1000, guard_cycle 2000] silenced_thread = Ok (msgs, th')"
    using guard_run by blast
  have "\<forall>k ad. map_of (mapAlarmData (rs_alarms (th_rules th'))) k = Some ad \<longrightarrow> unique_id ad \<noteq> 7"
    by (rule silenced_through_passes[OF alarms_ok_empty _ _ _ _ _ r, where al = default_logic and start = 500 and type = 0, THEN conjunct1])
      (simp_all add: silenced_thread_def, simp add: default_logic_def)
  then have "7 \<notin> unique_id ` ran (map_of (mapAlarmData (rs_alarms (th_rules th'))))" by (auto simp: ran_def)
  with r show ?thesis by blast
qed

lemma submit_frame:
  assumes "alarms_ok (rs_alarms st)"
  shows "alarms_ok (rs_alarms (submit E now J info b st))" "silenced now u (rs_alarms (submit E now J info b st)) = silenced now u (rs_alarms st)"
  using assms by (cases b; simp add: submit_def alarms_ok_updata silenced_updata)+

lemma submit_all_frame:
  "alarms_ok (rs_alarms st) \<Longrightarrow> alarms_ok (rs_alarms (submit_all E now bs st)) \<and>
   silenced now u (rs_alarms (submit_all E now bs st)) = silenced now u (rs_alarms st)"
proof (induction bs arbitrary: st)
  case (Cons x bs)
  obtain J info b where x: "x = (J, info, b)" by (metis prod_cases3)
  have "submit_all E now (x # bs) st = submit_all E now bs (submit E now J info b st)" by (simp add: submit_all_def x)
  with Cons.IH[OF submit_frame(1)[OF Cons.prems]] submit_frame(2)[OF Cons.prems] show ?case by simp
qed (simp add: submit_all_def)

lemma submit_provenance:
  assumes "alarms_ok (rs_alarms st)" "\<And>ids. set (je_order E ids) = set ids"
    and "map_of (mapAlarmData (rs_alarms (submit E now J info (type, src, ids) st))) k = Some ad"
  shows "map_of (mapAlarmData (rs_alarms st)) k = Some ad \<or>
    (alarm_time ad = now \<and> \<not> silenced now (unique_id ad) (rs_alarms st) \<and> unique_id ad \<in> set ids \<and>
     let_through (je_rule E) (tables_of J) info type src (unique_id ad))"
proof (cases "ids = []")
  case True
  with assms(3) show ?thesis by (simp add: submit_def)
next
  case False
  let ?r = "st\<lparr>rs_alarms := (rs_alarms st)\<lparr>listAlarmData := []\<rparr>\<rparr>"
  have "map_of (mapAlarmData (rs_alarms (fold (evalCandidate (je_rule E) now (tables_of J) info type src) (je_order E ids) ?r))) k = Some ad"
    using assms(3) False by (simp add: submit_def updata_alarms)
  from batch_provenance[OF _ this] assms(1,2) show ?thesis by auto
qed

lemma submit_all_provenance:
  assumes "alarms_ok (rs_alarms st)" "\<And>ids. set (je_order E ids) = set ids"
    and "map_of (mapAlarmData (rs_alarms (submit_all E now bs st))) k = Some ad"
  shows "map_of (mapAlarmData (rs_alarms st)) k = Some ad \<or>
    (alarm_time ad = now \<and> \<not> silenced now (unique_id ad) (rs_alarms st) \<and>
     (\<exists>J info type src ids. (J, info, type, src, ids) \<in> set bs \<and> unique_id ad \<in> set ids \<and>
        let_through (je_rule E) (tables_of J) info type src (unique_id ad)))"
  using assms(3)
proof (induction bs rule: rev_induct)
  case (snoc x bs)
  obtain J info type src ids where x: "x = (J, info, type, src, ids)" by (metis prod_cases5)
  let ?s = "submit_all E now bs st"
  have "map_of (mapAlarmData (rs_alarms (submit E now J info (type, src, ids) ?s))) k = Some ad"
    using snoc.prems by (simp add: submit_all_def x)
  from submit_provenance[OF _ assms(2) this] submit_all_frame[OF assms(1), of E now bs]
  consider "map_of (mapAlarmData (rs_alarms ?s)) k = Some ad"
    | "alarm_time ad = now" "\<not> silenced now (unique_id ad) (rs_alarms st)" "unique_id ad \<in> set ids"
      "let_through (je_rule E) (tables_of J) info type src (unique_id ad)" by blast
  then show ?case
  proof cases
    case 1
    then show ?thesis using snoc.IH unfolding set_append by blast
  next
    case 2
    moreover have "(J, info, type, src, ids) \<in> set (bs @ [x])" by (simp add: x)
    ultimately show ?thesis by blast
  qed
qed (simp add: submit_all_def)

text \<open>
  C2. Every alarm has a cause: an alarm in the table after a pass was there before, or it carries the time of
  the pass, its target is not silenced, and some active rule of the list, whose area (if it needs one) was loaded, judged the
  target a candidate and let it through the lists and filters.  The tables that rule read are those the rules before it leave of the snapshot:
  they hold the tracks of the snapshot and show every track the trail of the snapshot.
\<close>

theorem pass_alarms_have_a_cause:
  assumes "processAlarms E now infos shared rules st = Ok st'" and "alarms_ok (rs_alarms st)"
    and "\<And>ids. set (je_order E ids) = set ids"
    and "E' = E\<lparr>je_rule := (je_rule E)\<lparr>re_areas :=
           fst (getAlarmArea (ce_text (re_content (je_rule E))) (re_qarea (je_rule E)) infos)\<rparr>\<rparr>"
    and "map_of (mapAlarmData (rs_alarms st')) k = Some ad"
  shows "map_of (mapAlarmData (rs_alarms st)) k = Some ad \<or>
    (alarm_time ad = now \<and> \<not> silenced now (unique_id ad) (rs_alarms st) \<and>
     (\<exists>before info after J J' type src ids.
        map snd rules = before @ info # after \<and>
        judged_through E' before (snapshotTables shared) = Some J \<and> alike (snapshotTables shared) J \<and>
        rule_alarmstate info \<noteq> 0 \<and> (has_area info \<longrightarrow> area_of E' info \<noteq> None) \<and>
        judge_rule E' (judged_area E' info) info J = Ok ((type, src, ids), J') \<and> unique_id ad \<in> set ids \<and>
        let_through (je_rule E') (tables_of (snapshotTables shared)) info type src (unique_id ad)))"
proof -
  let ?S = "snapshotTables shared"
  obtain bs where bs: "rule_batches E' (map snd rules) ?S = Ok bs" "st' = submit_all E' now bs st"
    using assms(1) by (auto simp: processAlarms_def Let_def rule_loop_batches assms(4))
  show ?thesis
  proof (cases "map_of (mapAlarmData (rs_alarms st)) k = Some ad")
    case False
    have "set (je_order E' ids) = set ids" for ids using assms(3,4) by simp
    from submit_all_provenance[OF assms(2) this, of now bs k ad] False assms(5) bs(2) obtain J' info type src ids where
      new: "alarm_time ad = now" "\<not> silenced now (unique_id ad) (rs_alarms st)" "(J', info, type, src, ids) \<in> set bs"
        "unique_id ad \<in> set ids" "let_through (je_rule E') (tables_of J') info type src (unique_id ad)" by auto
    from rule_batches_cause[OF bs(1) new(3)] obtain before after J where
      c: "map snd rules = before @ info # after" "judged_through E' before ?S = Some J" "rule_alarmstate info \<noteq> 0"
        "has_area info \<longrightarrow> area_of E' info \<noteq> None" "judge_rule E' (judged_area E' info) info J = Ok ((type, src, ids), J')" by blast
    have a: "alike ?S J" "tables_of J' = tables_of ?S"
      using alike_judged[OF c(2)] alike_tables alike_step[OF c(5)] by auto
    show ?thesis using new(1,2,4) new(5)[unfolded a(2)] c a(1) by blast
  qed simp
qed

theorem pass_alarms_have_a_cause_witness:
  "\<exists>E st' k ad J' type src ids. processAlarms E 1000 [box_info] (sea_tables (walk 11)) [(''guard'', guard_rule)] fresh_rules = Ok st' \<and>
     map_of (mapAlarmData (rs_alarms st')) k = Some ad \<and>
     judge_rule (cycle_env (guard_cycle 1000) idle_thread) guarded guard_rule (snapshotTables (sea_tables (walk 11))) =
       Ok ((type, src, ids), J') \<and> unique_id ad \<in> set ids"
proof -
  let ?c = "guard_cycle 1000" and ?E' = "cycle_env (guard_cycle 1000) idle_thread"
  let ?E = "(cy_judge ?c)\<lparr>je_rule := (je_rule (cy_judge ?c))\<lparr>re_filters := cycle_filters ?c idle_thread\<rparr>\<rparr>"
  have area: "area_of ?E' guard_rule = Some guarded" by (simp add: guard_env guard_area)
  obtain bs where bs: "rule_batches ?E' [guard_rule] (snapshotTables (sea_tables (walk 11))) = Ok bs"
    using judge_stay_fuse[of guard_rule ?E' guarded] by (simp add: area judge_rule_def)
  have a: "cy_areas ?c = [box_info]" by (simp add: guard_cycle_def)
  have p: "processAlarms ?E 1000 [box_info] (sea_tables (walk 11)) [(''guard'', guard_rule)] fresh_rules =
      Ok (submit_all ?E' 1000 bs fresh_rules)"
    using cycle_judged[of ?c idle_thread 1000 "sea_tables (walk 11)" "[(''guard'', guard_rule)]" fresh_rules] bs by (simp add: a)
  have "raised 7 (je_rule ?E') 1000 (submit_all ?E' 1000 bs fresh_rules)"
    by (rule staying_target_is_raised[where before = "[]" and info = guard_rule and after = "[]" and a = guarded and t = seventh
          and g = "sea_tables (walk 11)"])
      (simp_all add: bs fresh_rules_quiet guard_env guard_area guard_dwells guard_matches guard_target idle_fresh ready_def
        in_no_alarm_zone_def default_logic_def del: rule_batches.simps)
  then obtain k ad where k: "map_of (mapAlarmData (rs_alarms (submit_all ?E' 1000 bs fresh_rules))) k = Some ad"
    by (auto simp: raised_def has_alarm_def)
  have o: "set (je_order ?E ids) = set ids" for ids by (simp add: guard_cycle_def box_judge_def sample_judge_def)
  have e: "?E' = ?E\<lparr>je_rule := (je_rule ?E)\<lparr>re_areas :=
      fst (getAlarmArea (ce_text (re_content (je_rule ?E))) (re_qarea (je_rule ?E)) [box_info])\<rparr>\<rparr>"
    by (simp add: cycle_env_def a)
  have n: "map_of (mapAlarmData (rs_alarms fresh_rules)) k \<noteq> Some ad" by (simp add: fresh_rules_def empty_state_def)
  from pass_alarms_have_a_cause[OF p fresh_rules_quiet(2) o e k] n obtain before info after J J' type src ids where
    c: "[guard_rule] = before @ info # after" "judged_through ?E' before (snapshotTables (sea_tables (walk 11))) = Some J"
      "judge_rule ?E' (judged_area ?E' info) info J = Ok ((type, src, ids), J')" "unique_id ad \<in> set ids" by auto
  have b: "before = []" "info = guard_rule" using c(1) by (auto simp: Cons_eq_append_conv)
  have "has_area guard_rule" by (simp add: guard_rule_def default_rule_def has_area_def)
  with c(2-4) b area have "judge_rule ?E' guarded guard_rule (snapshotTables (sea_tables (walk 11))) = Ok ((type, src, ids), J')" by simp
  with c(4) p k show ?thesis by blast
qed

lemma drone_batches:
  "rule_track_type info = 4 \<Longrightarrow> judge_rule E a info J = Ok ((type, src, ids), J') \<Longrightarrow> ids = [] \<or> type = 1"
  by (auto simp: judge_rule_def judge_stay_def judge_enter_def Let_def judge_leave_def judge_approach_def judge_speed_def
      judge_direction_def judge_everywhere_def judge_uav_def judge_tracks_def judge_trails_def bird_scan_def of_scan_def
      no_batch_def split: if_splits option.splits)

lemma radar_batch_without_radar:
  assumes "jt_radar J = []"
  shows "mapAlarmData (rs_alarms (submit E now J info (1, src, ids) st)) = mapAlarmData (rs_alarms st)"
proof -
  have "fold (evalCandidate (je_rule E) now (tables_of J) info 1 src) xs st = st" for xs st
    using assms by (induction xs) (simp_all add: evalCandidate_def candidateTrack_def tables_of_def findByAnyId_def)
  then show ?thesis by (simp add: submit_def updata_alarms)
qed

text \<open>
  Drone rules (track type 4) never raise an alarm without the radar table: they find drones in the air
  table but submit them as radar targets, which are looked up in the radar table, so while that table is empty a
  pass over drone rules leaves the alarms as they were, whatever drones are in their areas.
\<close>

theorem drone_rules_search_radar_table:
  assumes "\<forall>info \<in> set (map snd rules). rule_track_type info = 4" and "jt_radar shared = []"
    and "processAlarms E now infos shared rules st = Ok st'"
  shows "mapAlarmData (rs_alarms st') = mapAlarmData (rs_alarms st)"
proof -
  let ?E = "E\<lparr>je_rule := (je_rule E)\<lparr>re_areas :=
    fst (getAlarmArea (ce_text (re_content (je_rule E))) (re_qarea (je_rule E)) infos)\<rparr>\<rparr>"
  obtain bs where bs: "rule_batches ?E (map snd rules) (snapshotTables shared) = Ok bs" "st' = submit_all ?E now bs st"
    using assms(3) by (auto simp: processAlarms_def Let_def rule_loop_batches)
  have "mapAlarmData (rs_alarms (submit ?E now J info b st)) = mapAlarmData (rs_alarms st)" if "(J, info, b) \<in> set bs" for J info b st
  proof -
    obtain type src ids where b: "b = (type, src, ids)" by (metis prod_cases3)
    from rule_batches_cause[OF bs(1) that] obtain before after J0 where
      c: "map snd rules = before @ info # after" "judged_through ?E before (snapshotTables shared) = Some J0"
        "judge_rule ?E (judged_area ?E info) info J0 = Ok (b, J)" by blast
    have "jt_radar J = []"
      using alike_trans[OF alike_judged[OF c(2)] alike_step[OF c(3)]] assms(2) by (simp add: alike_def snapshotTables_def)
    moreover have "info \<in> set (map snd rules)" by (simp only: c(1)) simp
    then have "ids = [] \<or> type = 1" using c(3) drone_batches assms(1) b by blast
    ultimately show ?thesis using radar_batch_without_radar[of J ?E now info src ids st] unfolding b
      by (elim disjE) (simp_all add: submit_def)
  qed
  then have "mapAlarmData (rs_alarms (submit_all ?E now bs st)) = mapAlarmData (rs_alarms st)" for st
    unfolding submit_all_def by (induction bs arbitrary: st) auto
  then show ?thesis using bs(2) by simp
qed

definition drone_tables :: judge_tables where
  "drone_tables = no_tables\<lparr>jt_bird := [(8, seventh\<lparr>min_reserved1 := 3\<rparr>)], jt_birdTrail := [(8, walk 11)]\<rparr>"

theorem drone_rules_search_radar_table_witness:
  "\<exists>st'. processAlarms box_judge 1000 [box_info] drone_tables [(''drone'', guard_rule\<lparr>rule_track_type := 4\<rparr>)] fresh_rules = Ok st' \<and>
     mapAlarmData (rs_alarms st') = []"
proof -
  let ?rule = "guard_rule\<lparr>rule_track_type := 4\<rparr>"
  have f: "rule_alarmstate ?rule = 1" "has_area ?rule" "rule_area_judge ?rule = 1" "rule_track_type ?rule = 4"
    by (simp_all add: guard_rule_def default_rule_def has_area_def)
  have r: "\<exists>bs. rule_batches E [?rule] J = Ok bs" for E J
  proof (cases "area_of E ?rule")
    case (Some a)
    have "\<exists>b J'. judge_stay E a ?rule J = Ok (b, J')"
      using f(4) by (auto simp: judge_stay_def Let_def scan_defs drone_stay_post_def)
    with f Some show ?thesis by (auto simp: judge_rule_def)
  qed (use f in simp)
  then obtain st' where p: "processAlarms box_judge 1000 [box_info] drone_tables [(''drone'', ?rule)] fresh_rules = Ok st'"
    unfolding processAlarms_def Let_def rule_loop_batches list.map snd_conv using r by (metis map_run.simps(1))
  have "mapAlarmData (rs_alarms st') = mapAlarmData (rs_alarms fresh_rules)"
    by (rule drone_rules_search_radar_table[OF _ _ p]) (simp_all add: drone_tables_def no_tables_def)
  with p show ?thesis by (simp add: fresh_rules_def empty_state_def)
qed

end
