(* ===== verification/System_Alarm.thy ===== *)
theory System_Alarm
  imports Key_Store
begin

text \<open>
  The system-alarm service (\<open>grpc_system_alarm\<close>): the in-memory pool
  \<open>SystemAlarmStore\<close>, the three RPC handlers of \<open>SystemAlarmServiceImpl\<close> and the
  life cycle of \<open>SystemAlarmGrpcServer\<close>.  The pool is an \<open>unordered_map\<close> from
  \<open>alarm_id\<close> to the item; every handler runs under the mutex, so a run of the
  service is a sequence of requests.
\<close>

section \<open>Messages\<close>

text \<open>proto3 enums are open: a value the schema does not name survives parsing.\<close>

datatype AlarmKind = ALARM_KIND_UNSPECIFIED | EQUIPMENT | DATA_COMM | TASK | ENVIRONMENT
  | COMPREHENSIVE | SYSTEM_AUTH | UnknownKind int

datatype AlarmLevel = LOW | MEDIUM | HIGH | UnknownLevel int

record SystemAlarmItem =
  alarm_id :: string
  system_id :: string
  description :: string
  timestamp_ms :: int
  raised_time_ms :: int
  canceled_time_ms :: int
  alarm_kind :: AlarmKind
  entity_id :: string
  level :: AlarmLevel

record CommonAck =
  ack_ok :: bool
  message :: string
  server_time_ms :: int

record CancelAlarmRequest =
  c_alarm_id :: string
  c_system_id :: string
  c_canceled_time_ms :: int

record GetActiveAlarmsRequest =
  g_system_id :: string
  g_alarm_kind :: AlarmKind
  g_level_filter_set :: bool
  g_level :: AlarmLevel

type_synonym active = "(string, SystemAlarmItem) umap"

section \<open>\<open>SystemAlarmStore\<close>\<close>

definition isValidKind :: "AlarmKind \<Rightarrow> bool" where
  "isValidKind kind =
     (kind = EQUIPMENT \<or> kind = DATA_COMM \<or> kind = TASK
      \<or> kind = ENVIRONMENT \<or> kind = COMPREHENSIVE \<or> kind = SYSTEM_AUTH)"

text \<open>The result of an operation is the text it writes to \<open>err\<close>: \<open>Inl\<close> when it
  returns false, \<open>Inr\<close> with the new pool when it returns true (and writes \<open>ok\<close>).\<close>

definition report :: "SystemAlarmItem \<Rightarrow> active \<Rightarrow> string + active" where
  "report item pool =
     (if alarm_id item = [] then Inl ''invalid_param: alarm_id empty''
      else if system_id item = [] then Inl ''invalid_param: system_id empty''
      else if description item = [] then Inl ''invalid_param: description empty''
      else if timestamp_ms item \<le> 0 then Inl ''invalid_param: timestamp_ms''
      else if raised_time_ms item \<le> 0 then Inl ''invalid_param: raised_time_ms''
      else if \<not> isValidKind (alarm_kind item) then Inl ''invalid_param: alarm_kind''
      else (let stored = item\<lparr>canceled_time_ms := 0\<rparr>
            in Inr (um_insert (alarm_id stored) stored pool)))"

definition cancel :: "string \<Rightarrow> string \<Rightarrow> int \<Rightarrow> active \<Rightarrow> string + active" where
  "cancel aid sid canceled pool =
     (if aid = [] then Inl ''invalid_param: alarm_id empty''
      else if sid = [] then Inl ''invalid_param: system_id empty''
      else if canceled \<le> 0 then Inl ''invalid_param: canceled_time_ms''
      else (case map_of pool aid of
              None \<Rightarrow> Inl ''not_found''
            | Some _ \<Rightarrow> Inr (um_remove aid pool)))"

fun listActive_loop :: "string \<Rightarrow> AlarmKind \<Rightarrow> bool \<Rightarrow> AlarmLevel \<Rightarrow> active \<Rightarrow> SystemAlarmItem list" where
  "listActive_loop sf kf ls lf [] = []"
| "listActive_loop sf kf ls lf ((k, a) # rest) =
     (if sf \<noteq> [] \<and> system_id a \<noteq> sf then listActive_loop sf kf ls lf rest
      else if kf \<noteq> ALARM_KIND_UNSPECIFIED \<and> alarm_kind a \<noteq> kf then listActive_loop sf kf ls lf rest
      else if ls \<and> level a \<noteq> lf then listActive_loop sf kf ls lf rest
      else a # listActive_loop sf kf ls lf rest)"

definition listActive :: "string \<Rightarrow> AlarmKind \<Rightarrow> bool \<Rightarrow> AlarmLevel \<Rightarrow> active \<Rightarrow> SystemAlarmItem list" where
  "listActive sf kf ls lf pool = listActive_loop sf kf ls lf pool"

definition store_size :: "active \<Rightarrow> nat" where
  "store_size pool = length pool"

section \<open>\<open>SystemAlarmServiceImpl\<close>\<close>

text \<open>A null request or a request without \<open>alarm\<close> is \<open>None\<close>; \<open>now\<close> is \<open>nowMs()\<close>.\<close>

definition ReportAlarm :: "int \<Rightarrow> SystemAlarmItem option \<Rightarrow> active \<Rightarrow> CommonAck \<times> active" where
  "ReportAlarm now request pool =
     (case request of
        None \<Rightarrow> (\<lparr>ack_ok = False, message = ''invalid_param: alarm missing'', server_time_ms = now\<rparr>, pool)
      | Some item \<Rightarrow>
          (case report item pool of
             Inl msg \<Rightarrow> (\<lparr>ack_ok = False, message = msg, server_time_ms = now\<rparr>, pool)
           | Inr pool' \<Rightarrow> (\<lparr>ack_ok = True, message = ''ok'', server_time_ms = now\<rparr>, pool')))"

definition CancelAlarm :: "int \<Rightarrow> CancelAlarmRequest option \<Rightarrow> active \<Rightarrow> CommonAck \<times> active" where
  "CancelAlarm now request pool =
     (case request of
        None \<Rightarrow> (\<lparr>ack_ok = False, message = ''invalid_param'', server_time_ms = now\<rparr>, pool)
      | Some r \<Rightarrow>
          (case cancel (c_alarm_id r) (c_system_id r) (c_canceled_time_ms r) pool of
             Inl msg \<Rightarrow> (\<lparr>ack_ok = False, message = msg, server_time_ms = now\<rparr>, pool)
           | Inr pool' \<Rightarrow> (\<lparr>ack_ok = True, message = ''ok'', server_time_ms = now\<rparr>, pool')))"

definition GetActiveAlarms :: "int \<Rightarrow> GetActiveAlarmsRequest option \<Rightarrow> active \<Rightarrow> SystemAlarmItem list \<times> int" where
  "GetActiveAlarms now request pool =
     (case request of
        None \<Rightarrow> (listActive [] ALARM_KIND_UNSPECIFIED False LOW pool, now)
      | Some r \<Rightarrow>
          (listActive (g_system_id r) (g_alarm_kind r) (g_level_filter_set r) (g_level r) pool, now))"

text \<open>A run of the service: the requests in the order the mutex admits them.\<close>

datatype request = Report "SystemAlarmItem option" | Cancel "CancelAlarmRequest option"
  | GetActive "GetActiveAlarmsRequest option"

fun serve :: "request \<Rightarrow> active \<Rightarrow> active" where
  "serve (Report r) pool = snd (ReportAlarm 0 r pool)"
| "serve (Cancel r) pool = snd (CancelAlarm 0 r pool)"
| "serve (GetActive r) pool = pool"

definition serve_all :: "request list \<Rightarrow> active" where
  "serve_all rs = fold serve rs []"

section \<open>\<open>SystemAlarmGrpcServer\<close>\<close>

record GrpcServer =
  m_running :: bool
  m_server :: bool
  m_service :: bool
  m_thread_joinable :: bool
  m_address :: string

definition server_init :: GrpcServer where
  "server_init = \<lparr>m_running = False, m_server = False, m_service = False,
                  m_thread_joinable = False, m_address = []\<rparr>"

text \<open>
  \<open>up\<close> is whether \<open>BuildAndStart\<close> returned a server.  Assigning to \<open>m_thread\<close>
  while it is joinable ends the process (\<open>std::terminate\<close>): that is \<open>None\<close>.
\<close>

definition server_start :: "bool \<Rightarrow> string \<Rightarrow> int \<Rightarrow> GrpcServer \<Rightarrow> (bool \<times> GrpcServer) option" where
  "server_start up listen_host port s =
     (if m_running s then Some (True, s)
      else if port \<le> 0 \<or> port > 65535 then Some (False, s)
      else (let host = (if listen_host = [] then ''192.168.18.141'' else listen_host);
                s1 = s\<lparr>m_address := host @ '':'' @ dec (nat port), m_service := True, m_server := up\<rparr>
            in if \<not> up then Some (False, s1\<lparr>m_service := False\<rparr>)
               else if m_thread_joinable s1 then None
               else Some (True, s1\<lparr>m_running := True, m_thread_joinable := True\<rparr>)))"

text \<open>\<open>stop\<close> shuts the server down, joins the thread (whose \<open>runWait\<close> clears
  \<open>m_running\<close>) and drops server and service.\<close>

definition server_stop :: "GrpcServer \<Rightarrow> GrpcServer" where
  "server_stop s = s\<lparr>m_thread_joinable := False, m_server := False, m_service := False, m_running := False\<rparr>"

inductive server_step :: "GrpcServer \<Rightarrow> GrpcServer \<Rightarrow> bool" where
  start: "server_start up host port s = Some (b, s') \<Longrightarrow> server_step s s'"
| stop: "server_step s (server_stop s)"

inductive server_reachable :: "GrpcServer \<Rightarrow> bool" where
  init: "server_reachable server_init"
| step: "server_reachable s \<Longrightarrow> server_step s s' \<Longrightarrow> server_reachable s'"

inductive_cases server_stepE: "server_step s s'"

section \<open>The pool keeps its invariant\<close>

definition valid_item :: "SystemAlarmItem \<Rightarrow> bool" where
  "valid_item a = (alarm_id a \<noteq> [] \<and> system_id a \<noteq> [] \<and> description a \<noteq> [] \<and>
     0 < timestamp_ms a \<and> 0 < raised_time_ms a \<and> isValidKind (alarm_kind a))"

definition pool_ok :: "active \<Rightarrow> bool" where
  "pool_ok pool = (um_ok pool \<and>
     (\<forall>k a. map_of pool k = Some a \<longrightarrow> alarm_id a = k \<and> valid_item a \<and> canceled_time_ms a = 0))"

lemma report_valid_iff: "(\<exists>pool'. report item pool = Inr pool') \<longleftrightarrow> valid_item item"
  by (auto simp: report_def valid_item_def Let_def not_le)

lemma report_Inr:
  "report item pool = Inr pool' \<longleftrightarrow>
     valid_item item \<and> pool' = um_insert (alarm_id item) (item\<lparr>canceled_time_ms := 0\<rparr>) pool"
  by (auto simp: report_def valid_item_def Let_def not_le)

lemma report_accept:
  "valid_item a \<Longrightarrow> report a pool = Inr (um_insert (alarm_id a) (a\<lparr>canceled_time_ms := 0\<rparr>) pool)"
  by (simp add: report_Inr)

lemma cancel_Inr:
  "cancel aid sid t pool = Inr pool' \<longleftrightarrow>
     aid \<noteq> [] \<and> sid \<noteq> [] \<and> 0 < t \<and> map_of pool aid \<noteq> None \<and> pool' = um_remove aid pool"
  by (auto simp: cancel_def split: option.splits)

lemma report_invalid: "\<not> valid_item a \<Longrightarrow> \<exists>m. report a pool = Inl m \<and> m \<noteq> ''ok''"
  by (auto simp add: report_def valid_item_def Let_def not_le)

lemma valid_item_stored [simp]: "valid_item (item\<lparr>canceled_time_ms := 0\<rparr>) = valid_item item"
  by (simp add: valid_item_def)

lemma pool_ok_report: "pool_ok pool \<Longrightarrow> report item pool = Inr pool' \<Longrightarrow> pool_ok pool'"
  by (auto simp: report_Inr pool_ok_def um_ok_insert split: if_splits)

lemma pool_ok_cancel: "pool_ok pool \<Longrightarrow> cancel aid sid t pool = Inr pool' \<Longrightarrow> pool_ok pool'"
  by (auto simp: cancel_Inr pool_ok_def um_ok_remove split: if_splits)

lemma pool_ok_serve: "pool_ok pool \<Longrightarrow> pool_ok (serve r pool)"
  by (cases r) (auto simp: ReportAlarm_def CancelAlarm_def
      split: option.splits sum.splits elim: pool_ok_report[rotated] pool_ok_cancel[rotated])

lemma pool_ok_Nil: "pool_ok []"
  by (simp add: pool_ok_def um_ok_def)

lemma pool_ok_fold: "pool_ok pool \<Longrightarrow> pool_ok (fold serve rs pool)"
  by (induction rs arbitrary: pool) (simp_all add: pool_ok_serve)

lemma pool_ok_serve_all: "pool_ok (serve_all rs)"
  by (simp add: serve_all_def pool_ok_fold pool_ok_Nil)

section \<open>What a run leaves in the pool\<close>

text \<open>
  The abstract pool: the last request about an id decides.  The function reads
  the requests newest first and knows nothing of the store.
\<close>

fun verdict :: "string \<Rightarrow> request list \<Rightarrow> SystemAlarmItem option" where
  "verdict k [] = None"
| "verdict k (Report (Some a) # older) =
     (if alarm_id a = k \<and> valid_item a then Some (a\<lparr>canceled_time_ms := 0\<rparr>) else verdict k older)"
| "verdict k (Cancel (Some c) # older) =
     (if c_alarm_id c = k \<and> k \<noteq> [] \<and> c_system_id c \<noteq> [] \<and> 0 < c_canceled_time_ms c
      then None else verdict k older)"
| "verdict k (_ # older) = verdict k older"

lemma map_of_serve:
  "map_of (serve r pool) k =
     (case r of
        Report (Some a) \<Rightarrow>
          if alarm_id a = k \<and> valid_item a then Some (a\<lparr>canceled_time_ms := 0\<rparr>) else map_of pool k
      | Cancel (Some c) \<Rightarrow>
          if c_alarm_id c = k \<and> k \<noteq> [] \<and> c_system_id c \<noteq> [] \<and> 0 < c_canceled_time_ms c
          then None else map_of pool k
      | _ \<Rightarrow> map_of pool k)"
proof (cases r)
  case (Report q)
  show ?thesis
  proof (cases q)
    case (Some a)
    with Report show ?thesis
      by (cases "valid_item a")
        (auto simp: ReportAlarm_def report_accept dest: report_invalid[of a pool])
  qed (simp add: Report ReportAlarm_def)
next
  case (Cancel q)
  show ?thesis
  proof (cases q)
    case (Some c)
    with Cancel show ?thesis
      by (auto simp: CancelAlarm_def cancel_def split: option.splits)
  qed (simp add: Cancel CancelAlarm_def)
qed simp

lemma verdict_step:
  "verdict k (r # older) =
     (case r of
        Report (Some a) \<Rightarrow>
          if alarm_id a = k \<and> valid_item a then Some (a\<lparr>canceled_time_ms := 0\<rparr>) else verdict k older
      | Cancel (Some c) \<Rightarrow>
          if c_alarm_id c = k \<and> k \<noteq> [] \<and> c_system_id c \<noteq> [] \<and> 0 < c_canceled_time_ms c
          then None else verdict k older
      | _ \<Rightarrow> verdict k older)"
  by (auto split: request.splits option.splits)

lemma map_of_serve_all: "map_of (serve_all rs) k = verdict k (rev rs)"
proof (induction rs rule: rev_induct)
  case (snoc r rs)
  have "serve_all (rs @ [r]) = serve r (serve_all rs)" by (simp add: serve_all_def)
  with snoc show ?case
    by (simp add: map_of_serve verdict_step del: verdict.simps split: request.splits option.splits)
qed (simp add: serve_all_def)

section \<open>Listing\<close>

definition passes :: "string \<Rightarrow> AlarmKind \<Rightarrow> bool \<Rightarrow> AlarmLevel \<Rightarrow> SystemAlarmItem \<Rightarrow> bool" where
  "passes sf kf ls lf a = ((sf = [] \<or> system_id a = sf) \<and>
     (kf = ALARM_KIND_UNSPECIFIED \<or> alarm_kind a = kf) \<and> (ls \<longrightarrow> level a = lf))"

lemma listActive_loop_filter: "listActive_loop sf kf ls lf pool = filter (passes sf kf ls lf) (map snd pool)"
  by (induction sf kf ls lf pool rule: listActive_loop.induct) (auto simp: passes_def)

lemma pool_ok_distinct_items: "pool_ok pool \<Longrightarrow> distinct (map snd pool)"
proof -
  assume ok: "pool_ok pool"
  then have um: "um_ok pool" by (simp add: pool_ok_def)
  have "map (alarm_id \<circ> snd) pool = map fst pool"
  proof (rule map_cong)
    fix p assume "p \<in> set pool"
    with um have "map_of pool (fst p) = Some (snd p)" by (simp add: um_ok_def)
    with ok show "(alarm_id \<circ> snd) p = fst p" by (auto simp: pool_ok_def)
  qed simp
  with um show ?thesis
    by (metis distinct_map map_map um_ok_def)
qed

lemma set_map_snd: "um_ok pool \<Longrightarrow> set (map snd pool) = {a. \<exists>k. map_of pool k = Some a}"
  by (force simp: um.set_entries[symmetric] um_ok_def image_iff)

lemma listActive_set:
  "um_ok pool \<Longrightarrow> set (listActive sf kf ls lf pool) = {a. (\<exists>k. map_of pool k = Some a) \<and> passes sf kf ls lf a}"
  unfolding listActive_def listActive_loop_filter by (auto simp: set_map_snd simp del: set_map)

section \<open>Properties\<close>

text \<open>
  C34. After any sequence of requests an alarm is in the pool exactly when the
  last accepted request about its \<open>alarm_id\<close> is a report, and then it is that
  report's item with \<open>canceled_time_ms\<close> cleared: the pool refines the abstract
  pool in which the last word on an id counts, and \<open>GetActiveAlarms\<close> without filters
  returns precisely these items, each once.
\<close>

theorem system_alarm_run_refines:
  "map_of (serve_all rs) k = verdict k (rev rs) \<and>
   set (fst (GetActiveAlarms now None (serve_all rs))) = {a. \<exists>k. verdict k (rev rs) = Some a} \<and>
   distinct (fst (GetActiveAlarms now None (serve_all rs)))"
proof (intro conjI)
  have um: "um_ok (serve_all rs)" using pool_ok_serve_all by (simp add: pool_ok_def)
  show "set (fst (GetActiveAlarms now None (serve_all rs))) = {a. \<exists>k. verdict k (rev rs) = Some a}"
    using um by (simp add: GetActiveAlarms_def listActive_set passes_def map_of_serve_all)
  show "distinct (fst (GetActiveAlarms now None (serve_all rs)))"
    using pool_ok_distinct_items[OF pool_ok_serve_all, of rs]
    by (simp add: GetActiveAlarms_def listActive_def listActive_loop_filter)
qed (rule map_of_serve_all)

text \<open>
  Whatever requests arrive, every item a filtered query returns was accepted
  by all six guards of \<open>report\<close>, is marked not cancelled, meets each filter that is set,
  and no stored item that meets the filters is left out.
\<close>

theorem system_alarm_query_exact:
  "a \<in> set (listActive sf kf ls lf (serve_all rs)) \<longleftrightarrow>
     map_of (serve_all rs) (alarm_id a) = Some a \<and> valid_item a \<and> canceled_time_ms a = 0 \<and>
     passes sf kf ls lf a"
  using pool_ok_serve_all[of rs] listActive_set[of "serve_all rs" sf kf ls lf]
  by (auto simp: pool_ok_def)

text \<open>
  The acknowledgement of \<open>ReportAlarm\<close> tells the truth: \<open>ok\<close> is set exactly for a
  valid item, the message is then \<open>ok\<close> and the pool grows by one precisely when the id was
  new; otherwise the pool is unchanged and the message names a parameter.
\<close>

theorem report_ack_truthful:
  assumes "pool_ok pool" and "ReportAlarm now request pool = (ack, pool')"
  shows "(ack_ok ack \<longleftrightarrow> (\<exists>a. request = Some a \<and> valid_item a)) \<and>
    (message ack = ''ok'' \<longleftrightarrow> ack_ok ack) \<and>
    store_size pool' = (if ack_ok ack \<and> map_of pool (alarm_id (the request)) = None
                        then Suc (store_size pool) else store_size pool) \<and>
    (\<not> ack_ok ack \<longrightarrow> pool' = pool)"
proof (cases request)
  case None
  with assms show ?thesis by (auto simp: ReportAlarm_def)
next
  case (Some a)
  have um: "um_ok pool" using assms by (simp add: pool_ok_def)
  show ?thesis
  proof (cases "valid_item a")
    case True
    then have "report a pool = Inr (um_insert (alarm_id a) (a\<lparr>canceled_time_ms := 0\<rparr>) pool)"
      by (simp add: report_Inr)
    with Some True assms(2) um.length_put[OF um] show ?thesis
      by (auto simp: ReportAlarm_def store_size_def)
  next
    case False
    then obtain m where "report a pool = Inl m" "m \<noteq> ''ok''"
      using report_invalid by blast
    with Some False assms(2) show ?thesis by (auto simp: ReportAlarm_def)
  qed
qed

definition sample_item :: SystemAlarmItem where
  "sample_item = \<lparr>alarm_id = ''alarm_camera_1'', system_id = ''sys-005'', description = ''down'',
     timestamp_ms = 1721020800123, raised_time_ms = 1721020799000, canceled_time_ms = 7,
     alarm_kind = EQUIPMENT, entity_id = ''camera_004'', level = HIGH\<rparr>"

theorem report_ack_truthful_witness:
  "ack_ok (fst (ReportAlarm 5 (Some sample_item) [])) \<and>
   store_size (snd (ReportAlarm 5 (Some sample_item) [])) = 1"
proof -
  have v: "valid_item sample_item" by (simp add: valid_item_def sample_item_def isValidKind_def)
  from report_ack_truthful[OF pool_ok_Nil prod.collapse[symmetric], of 5 "Some sample_item"] v
  show ?thesis by (auto simp: store_size_def)
qed

text \<open>
  Report and cancel are inverse on the pool: an accepted report followed by a
  cancel with the same id (whoever sends it) succeeds and leaves the id absent, every other
  alarm as it was, and a second cancel is answered \<open>not_found\<close>.
\<close>

theorem report_cancel_roundtrip:
  assumes "report a pool = Inr pool1" and "sid \<noteq> []" and "0 < t"
  shows "\<exists>pool2. cancel (alarm_id a) sid t pool1 = Inr pool2 \<and>
    map_of pool2 = (map_of pool)(alarm_id a := None) \<and>
    cancel (alarm_id a) sid t pool2 = Inl ''not_found''"
proof (intro exI conjI)
  from assms have ne: "alarm_id a \<noteq> []" and p1: "pool1 = um_insert (alarm_id a) (a\<lparr>canceled_time_ms := 0\<rparr>) pool"
    by (auto simp: report_Inr valid_item_def)
  show "cancel (alarm_id a) sid t pool1 = Inr (um_remove (alarm_id a) pool1)"
    using ne assms p1 by (simp add: cancel_Inr)
  show "map_of (um_remove (alarm_id a) pool1) = (map_of pool)(alarm_id a := None)"
    by (rule ext) (simp add: p1)
  show "cancel (alarm_id a) sid t (um_remove (alarm_id a) pool1) = Inl ''not_found''"
    using ne assms by (simp add: cancel_def)
qed

theorem report_cancel_roundtrip_witness:
  "\<exists>pool1 pool2. report sample_item [] = Inr pool1 \<and>
     cancel ''alarm_camera_1'' ''sys-001'' 9 pool1 = Inr pool2 \<and> map_of pool2 ''alarm_camera_1'' = None"
proof -
  have "valid_item sample_item" by (simp add: valid_item_def sample_item_def isValidKind_def)
  then obtain p where p: "report sample_item [] = Inr p" by (auto simp: report_Inr)
  from report_cancel_roundtrip[OF p, of "''sys-001''" 9] obtain p2 where
    "cancel (alarm_id sample_item) ''sys-001'' 9 p = Inr p2"
    "map_of p2 = (map_of [])(alarm_id sample_item := None)" by auto
  with p show ?thesis by (auto simp: sample_item_def)
qed

section \<open>The server's life cycle\<close>

definition server_ok :: "GrpcServer \<Rightarrow> bool" where
  "server_ok s = (m_server s = m_running s \<and> m_service s = m_running s \<and> m_thread_joinable s = m_running s)"

lemma server_ok_start: "server_ok s \<Longrightarrow> server_start up h p s = Some (b, s') \<Longrightarrow> server_ok s'"
  by (auto simp: server_ok_def server_start_def Let_def split: if_splits)

lemma server_ok_step: "server_ok s \<Longrightarrow> server_step s s' \<Longrightarrow> server_ok s'"
  by (erule server_stepE) (auto simp: server_ok_start, simp add: server_ok_def server_stop_def)

lemma server_ok_reachable: "server_reachable s \<Longrightarrow> server_ok s"
  by (induction rule: server_reachable.induct)
    (simp_all add: server_ok_step, simp add: server_ok_def server_init_def)

text \<open>
  However \<open>start\<close> and \<open>stop\<close> are interleaved, \<open>start\<close> never reassigns a live
  thread (which would terminate the process), a server and its service exist exactly
  while \<open>m_running\<close> is set, and \<open>start\<close> answers true exactly when the server then runs.
\<close>

theorem server_lifecycle_safe:
  assumes "server_reachable s"
  shows "\<exists>b s'. server_start up host port s = Some (b, s') \<and> b = m_running s' \<and>
           m_server s' = m_running s' \<and> m_service s' = m_running s'"
proof -
  have ok: "server_ok s" using assms by (rule server_ok_reachable)
  then have "server_start up host port s \<noteq> None"
    by (auto simp: server_start_def server_ok_def Let_def)
  then obtain b s' where r: "server_start up host port s = Some (b, s')" by auto
  moreover have "b = m_running s'"
    using r ok by (auto simp: server_start_def server_ok_def Let_def split: if_splits)
  ultimately show ?thesis using server_ok_start[OF ok r] by (auto simp: server_ok_def)
qed

theorem server_lifecycle_safe_witness:
  "\<exists>s'. server_start True [] 25071 server_init = Some (True, s') \<and> m_service s'"
proof -
  from server_lifecycle_safe[OF server_reachable.init, of True "[]" 25071]
  show ?thesis by (auto simp: server_start_def server_init_def Let_def)
qed

end
