(* ===== verification/Process_Life.thy ===== *)
theory Process_Life
  imports Config_Load System_Alarm Area_Judge
begin

text \<open>
  The life of the process: the DDS and gRPC channels \<open>InitFastdds\<close> opens and \<open>DestoryFastdds\<close> closes, \<open>SaveConfig\<close>, and \<open>main\<close> with the
  threads and servers it starts and stops.  Channel objects live on a heap, so that an object no pointer reaches any more is visible.
\<close>

section \<open>Channels\<close>

datatype channel = AlarmMulti | AlarmSingle | StructMulti | StructSingle | SuspiciousMulti | SuspiciousSingle
  | TrackClassSub | StructSub | StructGrpc | FusionGrpc

text \<open>
  The member pointers, the objects that are alive, the next object and \<open>m_bFastDDSInitialized\<close>.
\<close>

record dds_state =
  dd_ptr :: "channel \<Rightarrow> nat option"
  dd_heap :: "(nat \<times> channel) list"
  dd_next :: nat
  dd_ready :: bool

text \<open>
  What a statement \<open>p = new T(...)\<close> and the start of its thread can do: succeed, throw in the constructor (nothing is allocated and \<open>p\<close>
  is not assigned), or throw in the start, after the assignment.
\<close>

datatype build = Built | CtorThrows | StartThrows

definition open_channel :: "(channel \<Rightarrow> build) \<Rightarrow> channel \<Rightarrow> dds_state \<Rightarrow> bool \<times> dds_state" where
  "open_channel oc ch d =
     (if oc ch = CtorThrows then (False, d)
      else (oc ch = Built, d\<lparr>dd_ptr := (dd_ptr d)(ch := Some (dd_next d)), dd_heap := dd_heap d @ [(dd_next d, ch)],
                             dd_next := Suc (dd_next d)\<rparr>))"

definition clear_ptr :: "channel \<Rightarrow> dds_state \<Rightarrow> dds_state" where
  "clear_ptr ch d = d\<lparr>dd_ptr := (dd_ptr d)(ch := None)\<rparr>"

text \<open>\<open>try { p = new ... } catch { p = nullptr }\<close>, and the same for two pointers in one block.\<close>

definition open_one :: "(channel \<Rightarrow> build) \<Rightarrow> channel \<Rightarrow> dds_state \<Rightarrow> dds_state" where
  "open_one oc a d = (let (ok, d1) = open_channel oc a d in if ok then d1 else clear_ptr a d1)"

definition open_pair :: "(channel \<Rightarrow> build) \<Rightarrow> channel \<Rightarrow> channel \<Rightarrow> dds_state \<Rightarrow> dds_state" where
  "open_pair oc a b d =
     (let (ok1, d1) = open_channel oc a d in
      if \<not> ok1 then clear_ptr b (clear_ptr a d1)
      else let (ok2, d2) = open_channel oc b d1 in if ok2 then d2 else clear_ptr b (clear_ptr a d2))"

section \<open>\<open>SaveConfig\<close>\<close>

record PtzConfAttr =
  pz_mainCamID :: int
  pz_sideCamEnable :: int
  pz_sideCamID :: int
  pz_showAR :: int
  pz_showDetect :: int
  pz_showTrack :: int
  pz_showRadar :: int
  pz_showFuse :: int

text \<open>The settings it writes; \<open>m_vPtzConfig[i]\<close> reads outside the vector are undefined.\<close>

definition ptz_writes :: "nat \<Rightarrow> PtzConfAttr \<Rightarrow> (string \<times> int) list" where
  "ptz_writes i p = map (\<lambda>(k, v). (''PTZ'' @ dec i @ ''/'' @ k, v))
     [(''MainCamID'', pz_mainCamID p), (''SideCamEnable'', pz_sideCamEnable p), (''SideCamID'', pz_sideCamID p),
      (''ShowAR'', pz_showAR p), (''ShowDetect'', pz_showDetect p), (''ShowTrack'', pz_showTrack p),
      (''ShowRadar'', pz_showRadar p), (''ShowFuse'', pz_showFuse p)]"

definition SaveConfig :: "PtzConfAttr list \<Rightarrow> PtzConfAttr \<Rightarrow> (string \<times> int) list run" where
  "SaveConfig ptz wild =
     (if length ptz < 16 then Undefined
      else Ok (concat (map (\<lambda>i. ptz_writes i (ptz ! i)) [0..<16]) @
        [(''PTZWILD/MainCamID'', pz_mainCamID wild), (''PTZWILD/SideCamEnable'', pz_sideCamEnable wild),
         (''PTZWILD/SideCamID'', pz_sideCamID wild)]))"

section \<open>\<open>InitFastdds\<close> and \<open>DestoryFastdds\<close>\<close>

definition uses_grpc :: "cfg_env \<Rightarrow> qstring \<Rightarrow> bool" where
  "uses_grpc E transport = (toLower (ce_qt E) (trimmed (ce_qt E) transport) = qs ''grpc'')"

definition init_alarm_event :: "(channel \<Rightarrow> build) \<Rightarrow> config \<Rightarrow> dds_state \<Rightarrow> dds_state" where
  "init_alarm_event oc c d =
     (if cg_publishDds c then open_pair oc AlarmMulti AlarmSingle d else clear_ptr AlarmSingle (clear_ptr AlarmMulti d))"

definition init_track_class :: "(channel \<Rightarrow> build) \<Rightarrow> int \<Rightarrow> bool \<Rightarrow> dds_state \<Rightarrow> dds_state" where
  "init_track_class oc enableOld radarUseGrpc d =
     (if enableOld \<noteq> 0 \<and> \<not> radarUseGrpc then open_one oc TrackClassSub d else d)"

definition init_fusion :: "(channel \<Rightarrow> build) \<Rightarrow> bool \<Rightarrow> dds_state \<Rightarrow> dds_state" where
  "init_fusion oc fusionUseGrpc d = (if fusionUseGrpc then open_one oc StructGrpc d else open_one oc StructSub d)"

definition init_struct_alarm :: "(channel \<Rightarrow> build) \<Rightarrow> config \<Rightarrow> dds_state \<Rightarrow> dds_state" where
  "init_struct_alarm oc c d =
     (if cg_publishDds c then open_pair oc StructMulti StructSingle d else clear_ptr StructSingle (clear_ptr StructMulti d))"

definition init_radar :: "(channel \<Rightarrow> build) \<Rightarrow> bool \<Rightarrow> dds_state \<Rightarrow> dds_state" where
  "init_radar oc radarUseGrpc d = (if radarUseGrpc then open_one oc FusionGrpc d else d)"

definition init_suspicious :: "(channel \<Rightarrow> build) \<Rightarrow> config \<Rightarrow> dds_state \<Rightarrow> dds_state" where
  "init_suspicious oc c d =
     (if sx_enabled (cg_suspicious c) \<noteq> 0 \<and> sp_publishDds (cg_suspicious c) then open_pair oc SuspiciousMulti SuspiciousSingle d else d)"

definition init_channels :: "cfg_env \<Rightarrow> ini \<Rightarrow> (channel \<Rightarrow> build) \<Rightarrow> config \<Rightarrow> dds_state \<Rightarrow> dds_state" where
  "init_channels E ini oc c d =
     (let enableOld = int_setting E ini ''DDS/TrackEnableOldSubscriber'' 1;
          fusionUseGrpc = uses_grpc E (bc_fusionTransport (cg_basic c));
          radarUseGrpc = uses_grpc E (bc_radarTransport (cg_basic c));
          d1 = init_suspicious oc c (init_radar oc radarUseGrpc (init_struct_alarm oc c
                 (init_fusion oc fusionUseGrpc (init_track_class oc enableOld radarUseGrpc (init_alarm_event oc c d)))))
      in d1\<lparr>dd_ready := (if cg_publishDds c then dd_ptr d1 AlarmMulti \<noteq> None else True)\<rparr>)"

text \<open>A domain id above 250 is replaced by 0 and the configuration is saved first.\<close>

definition InitFastdds :: "cfg_env \<Rightarrow> ini \<Rightarrow> (channel \<Rightarrow> build) \<Rightarrow> PtzConfAttr list \<Rightarrow> PtzConfAttr \<Rightarrow> config \<Rightarrow> dds_state \<Rightarrow>
    (config \<times> dds_state) run" where
  "InitFastdds E ini oc ptz wild c d =
     (if 250 < member_int (bc_members (cg_basic c)) ''m_nPPIDDSPort''
      then (let c1 = c\<lparr>cg_basic := (cg_basic c)\<lparr>bc_members := (bc_members (cg_basic c))(''m_nPPIDDSPort'' := CInt 0)\<rparr>\<rparr> in
        case SaveConfig ptz wild of
          Ok _ \<Rightarrow> Ok (c1, init_channels E ini oc c1 d)
        | Undefined \<Rightarrow> Undefined
        | Forever \<Rightarrow> Forever)
      else Ok (c, init_channels E ini oc c d))"

text \<open>
  Deleting a channel: subscribers and clients are stopped first, and if \<open>stop\<close> throws the object is not deleted; the pointer is
  cleared in any case.
\<close>

definition has_stop :: "channel \<Rightarrow> bool" where
  "has_stop ch \<longleftrightarrow> ch \<in> {TrackClassSub, StructSub, StructGrpc, FusionGrpc}"

definition close_channel :: "(channel \<Rightarrow> bool) \<Rightarrow> channel \<Rightarrow> dds_state \<Rightarrow> dds_state" where
  "close_channel stopThrows ch d =
     (case dd_ptr d ch of
        None \<Rightarrow> d
      | Some i \<Rightarrow>
          (let d1 = (if has_stop ch \<and> stopThrows ch then d else d\<lparr>dd_heap := filter (\<lambda>(j, _). j \<noteq> i) (dd_heap d)\<rparr>)
           in clear_ptr ch d1))"

definition close_order :: "channel list" where
  "close_order = [AlarmMulti, AlarmSingle, StructMulti, StructSingle, SuspiciousMulti, SuspiciousSingle,
     TrackClassSub, StructSub, StructGrpc, FusionGrpc]"

definition DestoryFastdds :: "(channel \<Rightarrow> bool) \<Rightarrow> dds_state \<Rightarrow> dds_state" where
  "DestoryFastdds stopThrows d = (fold (close_channel stopThrows) close_order d)\<lparr>dd_ready := False\<rparr>"

text \<open>A process that has opened nothing.\<close>

definition no_channels :: dds_state where
  "no_channels = \<lparr>dd_ptr = (\<lambda>_. None), dd_heap = [], dd_next = 0, dd_ready = False\<rparr>"

section \<open>What \<open>InitFastdds\<close> opens\<close>

definition wanted :: "cfg_env \<Rightarrow> ini \<Rightarrow> config \<Rightarrow> channel \<Rightarrow> bool" where
  "wanted E ini c ch =
     (case ch of
        AlarmMulti \<Rightarrow> cg_publishDds c | AlarmSingle \<Rightarrow> cg_publishDds c
      | StructMulti \<Rightarrow> cg_publishDds c | StructSingle \<Rightarrow> cg_publishDds c
      | SuspiciousMulti \<Rightarrow> sx_enabled (cg_suspicious c) \<noteq> 0 \<and> sp_publishDds (cg_suspicious c)
      | SuspiciousSingle \<Rightarrow> sx_enabled (cg_suspicious c) \<noteq> 0 \<and> sp_publishDds (cg_suspicious c)
      | TrackClassSub \<Rightarrow> int_setting E ini ''DDS/TrackEnableOldSubscriber'' 1 \<noteq> 0 \<and> bc_radarTransport (cg_basic c) = qs ''dds''
      | StructSub \<Rightarrow> bc_fusionTransport (cg_basic c) = qs ''dds'' | StructGrpc \<Rightarrow> bc_fusionTransport (cg_basic c) = qs ''grpc''
      | FusionGrpc \<Rightarrow> bc_radarTransport (cg_basic c) = qs ''grpc'')"

section \<open>Facts on opening and closing\<close>

lemma open_one_ptr [simp]:
  "dd_ptr (open_one oc a d) = (dd_ptr d)(a := if oc a = Built then Some (dd_next d) else None)"
  by (simp add: open_one_def open_channel_def clear_ptr_def Let_def)

lemma open_pair_ptr [simp]:
  "a \<noteq> b \<Longrightarrow> dd_ptr (open_pair oc a b d) =
     (if oc a = Built \<and> oc b = Built then (dd_ptr d)(a := Some (dd_next d), b := Some (Suc (dd_next d)))
      else (dd_ptr d)(a := None, b := None))"
  by (auto simp: open_pair_def open_channel_def clear_ptr_def Let_def fun_eq_iff)

lemma clear_ptr_ptr [simp]: "dd_ptr (clear_ptr a d) = (dd_ptr d)(a := None)"
  by (simp add: clear_ptr_def)

lemmas init_defs = init_alarm_event_def init_track_class_def init_fusion_def init_struct_alarm_def init_radar_def init_suspicious_def

definition works :: "(channel \<Rightarrow> build) \<Rightarrow> channel \<Rightarrow> bool" where
  "works oc ch = (oc ch = Built \<and>
     (case ch of AlarmMulti \<Rightarrow> oc AlarmSingle = Built | AlarmSingle \<Rightarrow> oc AlarmMulti = Built
      | StructMulti \<Rightarrow> oc StructSingle = Built | StructSingle \<Rightarrow> oc StructMulti = Built
      | SuspiciousMulti \<Rightarrow> oc SuspiciousSingle = Built | SuspiciousSingle \<Rightarrow> oc SuspiciousMulti = Built
      | _ \<Rightarrow> True))"

text \<open>Which pointers are null after each step.\<close>

lemma init_null:
  "dd_ptr (init_alarm_event oc c d) ch = None \<longleftrightarrow>
     (if ch = AlarmMulti \<or> ch = AlarmSingle then \<not> (cg_publishDds c \<and> works oc ch) else dd_ptr d ch = None)"
  "dd_ptr (init_struct_alarm oc c d) ch = None \<longleftrightarrow>
     (if ch = StructMulti \<or> ch = StructSingle then \<not> (cg_publishDds c \<and> works oc ch) else dd_ptr d ch = None)"
  "dd_ptr (init_track_class oc old g d) ch = None \<longleftrightarrow>
     (if ch = TrackClassSub \<and> old \<noteq> 0 \<and> \<not> g then \<not> works oc ch else dd_ptr d ch = None)"
  "dd_ptr (init_fusion oc g d) ch = None \<longleftrightarrow>
     (if ch = (if g then StructGrpc else StructSub) then \<not> works oc ch else dd_ptr d ch = None)"
  "dd_ptr (init_radar oc g d) ch = None \<longleftrightarrow> (if ch = FusionGrpc \<and> g then \<not> works oc ch else dd_ptr d ch = None)"
  "dd_ptr (init_suspicious oc c d) ch = None \<longleftrightarrow>
     (if (ch = SuspiciousMulti \<or> ch = SuspiciousSingle) \<and> sx_enabled (cg_suspicious c) \<noteq> 0 \<and> sp_publishDds (cg_suspicious c)
      then \<not> works oc ch else dd_ptr d ch = None)"
  by (auto simp: init_defs works_def)

lemma init_channels_null:
  "dd_ptr (init_channels E ini oc c d) ch = None \<longleftrightarrow> dd_ptr (init_suspicious oc c (init_radar oc (uses_grpc E (bc_radarTransport (cg_basic c)))
     (init_struct_alarm oc c (init_fusion oc (uses_grpc E (bc_fusionTransport (cg_basic c)))
       (init_track_class oc (int_setting E ini ''DDS/TrackEnableOldSubscriber'' 1) (uses_grpc E (bc_radarTransport (cg_basic c)))
         (init_alarm_event oc c d)))))) ch = None"
  "dd_ready (init_channels E ini oc c d) \<longleftrightarrow> cg_publishDds c \<longrightarrow> dd_ptr (init_channels E ini oc c d) AlarmMulti \<noteq> None"
  by (simp_all add: init_channels_def Let_def)

lemma init_channels_members:
  "init_channels E ini oc (c\<lparr>cg_basic := (cg_basic c)\<lparr>bc_members := m\<rparr>\<rparr>) d = init_channels E ini oc c d"
  by (simp add: init_channels_def init_alarm_event_def init_struct_alarm_def init_suspicious_def)

lemma InitFastdds_Ok:
  assumes "InitFastdds E ini oc ptz wild c d0 = Ok (c', d)"
  shows "d = init_channels E ini oc c d0" "cg_publishDds c' = cg_publishDds c" "cg_suspicious c' = cg_suspicious c"
    "cg_destroy c' = cg_destroy c" "cg_snapshotThread c' = cg_snapshotThread c" "cg_snapshot c' = cg_snapshot c"
    "cg_typeClient c' = cg_typeClient c" "cg_sysEnabled c' = cg_sysEnabled c" "cg_sysListen c' = cg_sysListen c"
    "cg_sysPort c' = cg_sysPort c"
    "n \<noteq> ''m_nPPIDDSPort'' \<Longrightarrow> bc_members (cg_basic c') n = bc_members (cg_basic c) n"
  using assms by (auto simp: InitFastdds_def init_channels_members Let_def split: if_splits run.splits)

lemma transports_stable:
  assumes "cfg_laws ws E" "t \<in> {qs ''dds'', qs ''grpc''}"
  shows "uses_grpc E t = (t = qs ''grpc'')"
proof -
  have t: "trim_law ws (ce_qt E)" using assms(1) by (simp add: cfg_laws_def)
  have "list_all (\<lambda>c. 97 \<le> c \<and> c \<le> 122) (qs ''dds'')" "list_all (\<lambda>c. 97 \<le> c \<and> c \<le> 122) (qs ''grpc'')"
    by (simp_all add: qs_def)
  moreover from this have "list_all (\<lambda>c. 33 \<le> c \<and> c \<le> 126) (qs ''dds'')" "list_all (\<lambda>c. 33 \<le> c \<and> c \<le> 126) (qs ''grpc'')"
    by (simp_all add: qs_def)
  ultimately have "toLower (ce_qt E) (trimmed (ce_qt E) (qs ''dds'')) = qs ''dds''"
    "toLower (ce_qt E) (trimmed (ce_qt E) (qs ''grpc'')) = qs ''grpc''"
    using cfg_trim_qs[OF assms(1)] trim_lawD(4)[OF t] by simp_all
  then show ?thesis using assms(2) by (auto simp: uses_grpc_def simp del: qs_inject)
qed

text \<open>
  C20. \<open>InitFastdds\<close> on a loaded configuration opens exactly the channels the settings ask for and whose construction works: one
  source of fused targets, DDS or gRPC, the older subscriber only when the radar tracks come over DDS and it is enabled, the gRPC stream when
  they come over gRPC; so with radar tracks over DDS and the older subscriber disabled no channel fills the radar table.
\<close>
theorem channels_exact:
  assumes "cfg_laws ws E" and "c = LoadConfig E ini unset c0"
    and "InitFastdds E ini oc ptz wild c no_channels = Ok (c', d)"
  shows "(\<forall>ch. dd_ptr d ch \<noteq> None \<longleftrightarrow> wanted E ini c ch \<and> works oc ch) \<and>
    (dd_ready d \<longleftrightarrow> cg_publishDds c \<longrightarrow> works oc AlarmMulti) \<and>
    (wanted E ini c StructSub \<longleftrightarrow> \<not> wanted E ini c StructGrpc) \<and> \<not> (wanted E ini c TrackClassSub \<and> wanted E ini c FusionGrpc) \<and>
    (\<not> wanted E ini c TrackClassSub \<and> \<not> wanted E ini c FusionGrpc \<longleftrightarrow>
       bc_radarTransport (cg_basic c) = qs ''dds'' \<and> int_setting E ini ''DDS/TrackEnableOldSubscriber'' 1 = 0)"
proof -
  have t: "bc_fusionTransport (cg_basic c) \<in> {qs ''dds'', qs ''grpc''}" "bc_radarTransport (cg_basic c) \<in> {qs ''dds'', qs ''grpc''}"
    using loaded_config_valid[OF assms(1,2)] by blast+
  note g = transports_stable[OF assms(1) t(1)] transports_stable[OF assms(1) t(2)]
  have "dd_ptr (init_channels E ini oc c no_channels) ch \<noteq> None \<longleftrightarrow> wanted E ini c ch \<and> works oc ch" for ch
    using t by (cases ch) (auto simp: init_channels_null(1) init_null wanted_def g no_channels_def)
  moreover have "dd_ready (init_channels E ini oc c no_channels) \<longleftrightarrow> cg_publishDds c \<longrightarrow> works oc AlarmMulti"
    by (simp add: init_channels_null init_null)
  ultimately show ?thesis using t by (auto simp: InitFastdds_Ok(1)[OF assms(3)] wanted_def)
qed

section \<open>Objects nobody can reach\<close>

definition dds_ok :: "dds_state \<Rightarrow> bool" where
  "dds_ok d \<longleftrightarrow> distinct (map fst (dd_heap d)) \<and> (\<forall>x \<in> set (dd_heap d). fst x < dd_next d) \<and>
     (\<forall>ch i. dd_ptr d ch = Some i \<longrightarrow> (i, ch) \<in> set (dd_heap d))"

text \<open>The live objects their pointer does not hold.\<close>

definition leaked :: "dds_state \<Rightarrow> channel list" where
  "leaked d = map snd (filter (\<lambda>(i, ch). dd_ptr d ch \<noteq> Some i) (dd_heap d))"

definition one_left :: "(channel \<Rightarrow> build) \<Rightarrow> channel \<Rightarrow> channel list" where
  "one_left oc a = (if oc a = StartThrows then [a] else [])"

definition pair_left :: "(channel \<Rightarrow> build) \<Rightarrow> channel \<Rightarrow> channel \<Rightarrow> channel list" where
  "pair_left oc a b = (case oc a of CtorThrows \<Rightarrow> [] | StartThrows \<Rightarrow> [a]
     | Built \<Rightarrow> (case oc b of Built \<Rightarrow> [] | CtorThrows \<Rightarrow> [a] | StartThrows \<Rightarrow> [a, b]))"

lemma leaked_skip: "dd_ptr d' = (dd_ptr d)(a := None) \<Longrightarrow> dd_ptr d a = None \<Longrightarrow> dd_heap d' = dd_heap d \<Longrightarrow> leaked d' = leaked d"
  by (simp add: leaked_def fun_upd_idem)

lemma leaked_new:
  assumes "dds_ok d" "dd_ptr d a = None"
    and "dd_ptr d' = (dd_ptr d)(a := (if held then Some (dd_next d) else None))" and "dd_heap d' = dd_heap d @ [(dd_next d, a)]"
  shows "leaked d' = leaked d @ (if held then [] else [a])"
proof -
  have "filter (\<lambda>(i, ch). dd_ptr d' ch \<noteq> Some i) (dd_heap d) = filter (\<lambda>(i, ch). dd_ptr d ch \<noteq> Some i) (dd_heap d)"
    using assms(1,2) by (intro filter_cong) (auto simp: dds_ok_def assms(3))
  then show ?thesis by (simp add: leaked_def assms(3,4))
qed

lemma dds_ok_new:
  assumes "dds_ok d" "dd_ptr d a = None"
    and "dd_ptr d' = (dd_ptr d)(a := (if held then Some (dd_next d) else None))" and "dd_heap d' = dd_heap d @ [(dd_next d, a)]"
    and "dd_next d' = Suc (dd_next d)"
  shows "dds_ok d'"
  using assms by (auto simp: dds_ok_def less_Suc_eq)

lemma dds_ok_clear: "dds_ok d \<Longrightarrow> dds_ok (clear_ptr a d)"
  by (auto simp: dds_ok_def clear_ptr_def)

lemma open_one_heap:
  "dd_heap (open_one oc a d) = dd_heap d @ (if oc a = CtorThrows then [] else [(dd_next d, a)])"
  "dd_next (open_one oc a d) = (if oc a = CtorThrows then dd_next d else Suc (dd_next d))"
  by (simp_all add: open_one_def open_channel_def clear_ptr_def Let_def)

lemma open_one_leak:
  assumes "dds_ok d" "dd_ptr d a = None"
  shows "dds_ok (open_one oc a d) \<and> leaked (open_one oc a d) = leaked d @ one_left oc a"
proof (cases "oc a = CtorThrows")
  case True
  then have "open_one oc a d = clear_ptr a d" by (simp add: open_one_def open_channel_def)
  then show ?thesis using True assms leaked_skip[of "clear_ptr a d" d a]
    by (simp add: dds_ok_clear one_left_def) (simp add: clear_ptr_def)
next
  case False
  then show ?thesis
    using leaked_new[OF assms, of "open_one oc a d" "oc a = Built"] dds_ok_new[OF assms, of "open_one oc a d" "oc a = Built"]
    by (cases "oc a") (simp_all add: open_one_heap one_left_def)
qed

text \<open>A pair is the first channel and, when that works, the second, whose failure also forgets the first.\<close>

lemma open_pair_split:
  assumes "a \<noteq> b" "dd_ptr d b = None"
  shows "open_pair oc a b d =
    (if oc a = Built then (if oc b = Built then open_one oc b (open_one oc a d) else clear_ptr a (open_one oc b (open_one oc a d)))
     else open_one oc a d)"
  using assms
  by (simp add: open_pair_def open_one_def open_channel_def clear_ptr_def Let_def fun_upd_twist fun_upd_idem)

lemma open_pair_leak:
  assumes "dds_ok d" "dd_ptr d a = None" "dd_ptr d b = None" "a \<noteq> b"
  shows "dds_ok (open_pair oc a b d) \<and> leaked (open_pair oc a b d) = leaked d @ pair_left oc a b"
proof (cases "oc a = Built")
  case False
  then show ?thesis using open_one_leak[OF assms(1,2), of oc]
    by (cases "oc a") (simp_all add: open_pair_split[OF assms(4,3)] one_left_def pair_left_def)
next
  case True
  let ?d1 = "open_one oc a d" and ?d2 = "open_one oc b (open_one oc a d)"
  have d1: "dds_ok ?d1" "leaked ?d1 = leaked d" "dd_ptr ?d1 b = None"
    using open_one_leak[OF assms(1,2), of oc] assms(3,4) by (simp_all add: True one_left_def)
  note d2 = open_one_leak[OF d1(1,3), of oc]
  show ?thesis
  proof (cases "oc b = Built")
    case b: True
    then show ?thesis using d2 d1(2) by (simp add: open_pair_split[OF assms(4,3)] True one_left_def pair_left_def)
  next
    case b: False
    have "dd_ptr (clear_ptr a ?d2) = dd_ptr d" using assms(2,3) b by (auto simp: fun_eq_iff)
    moreover have "dd_heap (clear_ptr a ?d2) = dd_heap d @ (dd_next d, a) # (if oc b = CtorThrows then [] else [(Suc (dd_next d), b)])"
      by (simp add: clear_ptr_def open_one_heap True)
    ultimately have "leaked (clear_ptr a ?d2) = leaked d @ pair_left oc a b"
      using assms(2,3) True b by (cases "oc b") (auto simp: leaked_def pair_left_def)
    then show ?thesis using b d2 by (simp add: open_pair_split[OF assms(4,3)] True dds_ok_clear)
  qed
qed

lemma clear_ptr_null: "dd_ptr d a = None \<Longrightarrow> clear_ptr a d = d"
  by (simp add: clear_ptr_def fun_upd_idem)

definition orphans :: "cfg_env \<Rightarrow> ini \<Rightarrow> config \<Rightarrow> (channel \<Rightarrow> build) \<Rightarrow> channel list" where
  "orphans E ini c oc =
     (let radarGrpc = uses_grpc E (bc_radarTransport (cg_basic c)); fusionGrpc = uses_grpc E (bc_fusionTransport (cg_basic c)) in
      (if cg_publishDds c then pair_left oc AlarmMulti AlarmSingle else []) @
      (if int_setting E ini ''DDS/TrackEnableOldSubscriber'' 1 \<noteq> 0 \<and> \<not> radarGrpc then one_left oc TrackClassSub else []) @
      one_left oc (if fusionGrpc then StructGrpc else StructSub) @
      (if cg_publishDds c then pair_left oc StructMulti StructSingle else []) @
      (if radarGrpc then one_left oc FusionGrpc else []) @
      (if sx_enabled (cg_suspicious c) \<noteq> 0 \<and> sp_publishDds (cg_suspicious c) then pair_left oc SuspiciousMulti SuspiciousSingle else []))"

text \<open>Each step of \<open>InitFastdds\<close> on pointers that are null.\<close>

lemma init_leaks:
  "dds_ok d \<Longrightarrow> dd_ptr d AlarmMulti = None \<Longrightarrow> dd_ptr d AlarmSingle = None \<Longrightarrow> dds_ok (init_alarm_event oc c d) \<and>
     leaked (init_alarm_event oc c d) = leaked d @ (if cg_publishDds c then pair_left oc AlarmMulti AlarmSingle else [])"
  "dds_ok d \<Longrightarrow> dd_ptr d StructMulti = None \<Longrightarrow> dd_ptr d StructSingle = None \<Longrightarrow> dds_ok (init_struct_alarm oc c d) \<and>
     leaked (init_struct_alarm oc c d) = leaked d @ (if cg_publishDds c then pair_left oc StructMulti StructSingle else [])"
  "dds_ok d \<Longrightarrow> dd_ptr d SuspiciousMulti = None \<Longrightarrow> dd_ptr d SuspiciousSingle = None \<Longrightarrow> dds_ok (init_suspicious oc c d) \<and>
     leaked (init_suspicious oc c d) = leaked d @
       (if sx_enabled (cg_suspicious c) \<noteq> 0 \<and> sp_publishDds (cg_suspicious c) then pair_left oc SuspiciousMulti SuspiciousSingle else [])"
  "dds_ok d \<Longrightarrow> dd_ptr d TrackClassSub = None \<Longrightarrow> dds_ok (init_track_class oc old g d) \<and>
     leaked (init_track_class oc old g d) = leaked d @ (if old \<noteq> 0 \<and> \<not> g then one_left oc TrackClassSub else [])"
  "dds_ok d \<Longrightarrow> dd_ptr d (if g then StructGrpc else StructSub) = None \<Longrightarrow> dds_ok (init_fusion oc g d) \<and>
     leaked (init_fusion oc g d) = leaked d @ one_left oc (if g then StructGrpc else StructSub)"
  "dds_ok d \<Longrightarrow> dd_ptr d FusionGrpc = None \<Longrightarrow> dds_ok (init_radar oc g d) \<and>
     leaked (init_radar oc g d) = leaked d @ (if g then one_left oc FusionGrpc else [])"
  by (auto simp: init_defs open_pair_leak open_one_leak clear_ptr_null)

lemma dds_ok_ready [simp]: "dds_ok (d\<lparr>dd_ready := r\<rparr>) = dds_ok d" "leaked (d\<lparr>dd_ready := r\<rparr>) = leaked d"
  by (simp_all add: dds_ok_def leaked_def)

lemma init_channels_leak:
  assumes "dds_ok d" "\<And>ch. dd_ptr d ch = None"
  shows "dds_ok (init_channels E ini oc c d) \<and> leaked (init_channels E ini oc c d) = leaked d @ orphans E ini c oc"
  using assms(1) by (simp add: init_channels_def Let_def orphans_def init_leaks init_null assms(2))

section \<open>Closing\<close>

lemma close_channel_heap:
  assumes "dds_ok d"
  shows "dds_ok (close_channel (\<lambda>_. False) ch d) \<and> leaked (close_channel (\<lambda>_. False) ch d) = leaked d \<and>
    dd_ptr (close_channel (\<lambda>_. False) ch d) = (dd_ptr d)(ch := None)"
proof (cases "dd_ptr d ch")
  case None
  then show ?thesis using assms by (simp add: close_channel_def fun_upd_idem)
next
  case (Some i)
  have own: "k = ch" if "(i, k) \<in> set (dd_heap d)" for k
  proof -
    have "(i, ch) \<in> set (dd_heap d)" using assms Some by (simp add: dds_ok_def)
    then show ?thesis using that assms eq_key_imp_eq_value[of "dd_heap d" i k ch] by (simp add: dds_ok_def)
  qed
  have "filter (\<lambda>(j, k). ((dd_ptr d)(ch := None)) k \<noteq> Some j) (filter (\<lambda>(j, _). j \<noteq> i) (dd_heap d)) =
      filter (\<lambda>(j, k). dd_ptr d k \<noteq> Some j) (dd_heap d)"
    unfolding filter_filter using own Some by (intro filter_cong) (auto split: if_splits)
  moreover have "j \<noteq> i" if "dd_ptr d k = Some j" "k \<noteq> ch" for k j
    using own[of k] assms that by (auto simp: dds_ok_def)
  ultimately show ?thesis using assms Some
    by (auto simp: close_channel_def clear_ptr_def leaked_def dds_ok_def Let_def distinct_map inj_on_def)
qed

lemma close_all:
  "dds_ok d \<Longrightarrow> dds_ok (fold (close_channel (\<lambda>_. False)) chs d) \<and> leaked (fold (close_channel (\<lambda>_. False)) chs d) = leaked d \<and>
     dd_ptr (fold (close_channel (\<lambda>_. False)) chs d) = (\<lambda>ch. if ch \<in> set chs then None else dd_ptr d ch)"
proof (induction chs arbitrary: d)
  case (Cons ch chs)
  then show ?case using close_channel_heap[OF Cons.prems, of ch] by (auto simp: fun_eq_iff)
qed simp

lemma close_order_all: "ch \<in> set close_order"
  by (cases ch) (simp_all add: close_order_def)

lemma init_dds_ok: "InitFastdds E ini oc ptz wild c no_channels = Ok (c', d) \<Longrightarrow> dds_ok d \<and> leaked d = orphans E ini c oc"
proof -
  have "dds_ok no_channels" "leaked no_channels = []" "\<And>ch. dd_ptr no_channels ch = None"
    by (simp_all add: dds_ok_def no_channels_def leaked_def)
  then show "InitFastdds E ini oc ptz wild c no_channels = Ok (c', d) \<Longrightarrow> dds_ok d \<and> leaked d = orphans E ini c oc"
    using init_channels_leak[of no_channels E ini oc c] InitFastdds_Ok(1)[of E ini oc ptz wild c no_channels c' d] by simp
qed

lemma close_all_ptr: "dds_ok d \<Longrightarrow> dd_ptr (DestoryFastdds (\<lambda>_. False) d) = (\<lambda>_. None)"
  using close_all[of d close_order] close_order_all by (simp add: DestoryFastdds_def)

text \<open>
  \<open>DestoryFastdds\<close> after \<open>InitFastdds\<close>: every pointer is null, the flag is down, and the objects left alive are exactly those whose
  construction failed half-way: a publisher whose partner could not be built, and an object whose thread did not start.
  When every construction works nothing is left.
\<close>
theorem channels_released:
  assumes "InitFastdds E ini oc ptz wild c no_channels = Ok (c', d)" and "d' = DestoryFastdds (\<lambda>_. False) d"
  shows "dd_ptr d' = (\<lambda>_. None) \<and> \<not> dd_ready d' \<and> map snd (dd_heap d') = orphans E ini c oc \<and>
    ((\<forall>ch. oc ch = Built) \<longrightarrow> dd_heap d' = [])"
proof -
  have d: "dds_ok d" "leaked d = orphans E ini c oc" using init_dds_ok[OF assms(1)] by simp_all
  then have p: "dd_ptr d' = (\<lambda>_. None)" "leaked d' = orphans E ini c oc"
    using close_all[OF d(1), of close_order] close_all_ptr[OF d(1)] by (simp_all add: assms(2)) (simp add: DestoryFastdds_def)
  then have h: "map snd (dd_heap d') = orphans E ini c oc" by (simp add: leaked_def case_prod_unfold)
  have "orphans E ini c oc = []" if "\<forall>ch. oc ch = Built"
    using that by (simp add: orphans_def pair_left_def one_left_def Let_def)
  then show ?thesis using p(1) h by (auto simp: assms(2) DestoryFastdds_def)
qed

section \<open>\<open>main\<close>\<close>

text \<open>
  The settings, how constructions end, whether the gRPC server of the system alarms can bind, and which ports the HTTP server can
  listen on.
\<close>

record outside =
  ou_env :: cfg_env
  ou_ini :: ini
  ou_unset :: members
  ou_build :: "channel \<Rightarrow> build"
  ou_wild :: PtzConfAttr
  ou_grpcUp :: bool
  ou_listen :: "int \<Rightarrow> bool"

record process =
  pr_cfg :: config
  pr_dds :: dds_state
  pr_sys :: GrpcServer
  pr_alarmThread :: bool
  pr_suspiciousThread :: bool
  pr_typeThread :: bool
  pr_http :: "int option"

text \<open>
  \<open>getInstance\<close> constructs the configuration, which loads it once; \<open>main\<close> loads it again.  No code fills \<open>m_vPtzConfig\<close>.
\<close>

definition main_start :: "outside \<Rightarrow> config \<Rightarrow> process run" where
  "main_start W c0 =
     (let E = ou_env W; constructed = LoadConfig E (ou_ini W) (ou_unset W) c0;
          c1 = LoadConfig E (ou_ini W) (ou_unset W) constructed
      in case InitFastdds E (ou_ini W) (ou_build W) [] (ou_wild W) c1 no_channels of
           Undefined \<Rightarrow> Undefined
         | Forever \<Rightarrow> Forever
         | Ok (c2, d) \<Rightarrow>
             (let c3 = startAlarmDestroyGrpcSubscriber c2;
                  sys = (if cg_sysEnabled c3 then server_start (ou_grpcUp W) (ce_toStd E (cg_sysListen c3)) (cg_sysPort c3) server_init
                         else Some (False, server_init));
                  port = member_int (bc_members (cg_basic c3)) ''m_nTaskHostPort'' mod 65536
              in case sys of
                   None \<Rightarrow> Undefined
                 | Some (_, s) \<Rightarrow> Ok \<lparr>pr_cfg = c3, pr_dds = d, pr_sys = s, pr_alarmThread = True,
                     pr_suspiciousThread = (sx_enabled (cg_suspicious c3) \<noteq> 0), pr_typeThread = True,
                     pr_http = (if ou_listen W port then Some port else None)\<rparr>))"

text \<open>What \<open>main\<close> stops after the event loop; the HTTP server goes with its scope.\<close>

definition main_stop :: "(channel \<Rightarrow> bool) \<Rightarrow> process \<Rightarrow> process" where
  "main_stop stopThrows P = P\<lparr>
     pr_sys := server_stop (pr_sys P), pr_alarmThread := False, pr_suspiciousThread := False, pr_typeThread := False,
     pr_cfg := stopAlarmDestroyGrpcSubscriber (pr_cfg P), pr_dds := DestoryFastdds stopThrows (pr_dds P), pr_http := None\<rparr>"

text \<open>A new configuration object: the clients exist and nothing runs.\<close>

definition fresh_config :: "config \<Rightarrow> bool" where
  "fresh_config c \<longleftrightarrow> \<not> cg_snapshotThread c \<and>
     (\<exists>u k. cg_destroy c = Some u \<and> \<not> su_thread u \<and> \<not> su_cfg u \<and> cg_typeClient c = Some k)"

lemma loaded_port: "bc_members (load_basic E ini b) ''m_nTaskHostPort'' = CInt (var_toInt E (ini ''Basic/TaskHostPort''))"
  by (simp add: load_basic_def load_members_lookup[of E ini later_members]) (simp add: later_members_def)

lemma loaded_domain: "bc_members (load_basic E ini b) ''m_nPPIDDSPort'' = CInt (var_toInt E (ini ''Basic/PPIDDSPort''))"
  by (simp add: load_basic_def load_members_lookup) (simp add: later_members_def first_members_def load_members_lookup)

lemma InitFastdds_domain:
  "250 < member_int (bc_members (cg_basic c)) ''m_nPPIDDSPort'' \<Longrightarrow> InitFastdds E ini oc [] wild c d = Undefined"
  by (simp add: InitFastdds_def SaveConfig_def)

lemma large_domain_eq:
  "main_start W c0 = Undefined \<longleftrightarrow> 250 < var_toInt (ou_env W) (ou_ini W ''Basic/PPIDDSPort'')"
proof -
  define c1 where "c1 = LoadConfig (ou_env W) (ou_ini W) (ou_unset W) (LoadConfig (ou_env W) (ou_ini W) (ou_unset W) c0)"
  have m: "member_int (bc_members (cg_basic c1)) ''m_nPPIDDSPort'' = var_toInt (ou_env W) (ou_ini W ''Basic/PPIDDSPort'')"
    by (simp add: c1_def LoadConfig_tables loaded_domain member_int_def)
  have up: "server_start up h p server_init \<noteq> None" for up h p by (auto simp: server_start_def server_init_def Let_def)
  show ?thesis
  proof (cases "250 < var_toInt (ou_env W) (ou_ini W ''Basic/PPIDDSPort'')")
    case True
    then show ?thesis using m by (simp add: main_start_def InitFastdds_domain Let_def flip: c1_def)
  next
    case False
    then have "InitFastdds (ou_env W) (ou_ini W) (ou_build W) [] (ou_wild W) c1 no_channels =
        Ok (c1, init_channels (ou_env W) (ou_ini W) (ou_build W) c1 no_channels)" using m by (simp add: InitFastdds_def)
    moreover have "\<exists>r s. server_start h p q server_init = Some (r, s)" for h p q
      using up[of h p q] by (cases "server_start h p q server_init") auto
    ultimately show ?thesis using False
      by (auto simp: main_start_def Let_def simp flip: c1_def split: option.splits) (metis option.distinct(1))
  qed
qed

text \<open>
  A domain id above 250 does not fall back to 0, as the message in the code says: the configuration is saved first, which reads sixteen
  entries of a vector that is never filled, so the start of the process is undefined.  With a smaller id it is defined.
\<close>
theorem large_domain_undefined:
  "main_start W c0 = Undefined \<longleftrightarrow> 250 < var_toInt (ou_env W) (ou_ini W ''Basic/PPIDDSPort'')"
  by (rule large_domain_eq)

lemma main_start_Ok:
  assumes "main_start W c0 = Ok P"
  obtains c1 c2 d r s where
    "c1 = LoadConfig (ou_env W) (ou_ini W) (ou_unset W) (LoadConfig (ou_env W) (ou_ini W) (ou_unset W) c0)"
    "InitFastdds (ou_env W) (ou_ini W) (ou_build W) [] (ou_wild W) c1 no_channels = Ok (c2, d)"
    "(if cg_sysEnabled c2 then server_start (ou_grpcUp W) (ce_toStd (ou_env W) (cg_sysListen c2)) (cg_sysPort c2) server_init
      else Some (False, server_init)) = Some (r, s)"
    "pr_cfg P = startAlarmDestroyGrpcSubscriber c2" "pr_dds P = d" "pr_sys P = s" "pr_alarmThread P" "pr_typeThread P"
    "pr_suspiciousThread P \<longleftrightarrow> sx_enabled (cg_suspicious c2) \<noteq> 0"
    "pr_http P = (let port = member_int (bc_members (cg_basic c2)) ''m_nTaskHostPort'' mod 65536 in if ou_listen W port then Some port else None)"
proof -
  let ?c1 = "LoadConfig (ou_env W) (ou_ini W) (ou_unset W) (LoadConfig (ou_env W) (ou_ini W) (ou_unset W) c0)"
  let ?sys = "\<lambda>c. if cg_sysEnabled c then server_start (ou_grpcUp W) (ce_toStd (ou_env W) (cg_sysListen c)) (cg_sysPort c) server_init
      else Some (False, server_init)"
  obtain c2 d where c2: "InitFastdds (ou_env W) (ou_ini W) (ou_build W) [] (ou_wild W) ?c1 no_channels = Ok (c2, d)"
    using assms by (auto simp: main_start_def Let_def split: run.splits)
  have k: "?sys (startAlarmDestroyGrpcSubscriber c2) = ?sys c2" "cg_basic (startAlarmDestroyGrpcSubscriber c2) = cg_basic c2"
    "cg_suspicious (startAlarmDestroyGrpcSubscriber c2) = cg_suspicious c2" by (simp_all add: startAlarmDestroyGrpcSubscriber_def)
  obtain r s where s: "?sys c2 = Some (r, s)"
    using assms k(1) by (auto simp: main_start_def Let_def c2 split: option.splits)
  show thesis
    by (rule that[OF refl c2 s]) (use assms k s in \<open>auto simp: main_start_def Let_def c2\<close>)
qed

text \<open>
  What runs after the start of \<open>main\<close> follows the settings: the alarm and target-type threads always; the suspicious-target thread, the
  destroy subscriber and the snapshot thread when they are enabled; the system-alarm server when it is enabled, its port is valid and
  the address can be bound; the HTTP server on the configured port modulo 65536 if that port is free.
\<close>
theorem services_follow_settings:
  assumes "fresh_config c0" and "main_start W c0 = Ok P"
  shows "pr_alarmThread P \<and> pr_typeThread P \<and>
    (pr_suspiciousThread P \<longleftrightarrow> int_setting (ou_env W) (ou_ini W) ''SuspiciousTarget/Enabled'' 0 \<noteq> 0) \<and>
    (\<exists>u. cg_destroy (pr_cfg P) = Some u \<and> (su_thread u \<longleftrightarrow> int_setting (ou_env W) (ou_ini W) ''GrpcDestroy/Enabled'' 1 \<noteq> 0)) \<and>
    (cg_snapshotThread (pr_cfg P) \<longleftrightarrow> int_setting (ou_env W) (ou_ini W) ''GrpcAlarm/Enabled'' 1 \<noteq> 0) \<and>
    (m_running (pr_sys P) \<longleftrightarrow> int_setting (ou_env W) (ou_ini W) ''GrpcSystemAlarm/Enabled'' 1 \<noteq> 0 \<and>
       0 < int_setting (ou_env W) (ou_ini W) ''GrpcSystemAlarm/Port'' 25071 \<and>
       int_setting (ou_env W) (ou_ini W) ''GrpcSystemAlarm/Port'' 25071 \<le> 65535 \<and> ou_grpcUp W) \<and>
    pr_http P = (let port = var_toInt (ou_env W) (ou_ini W ''Basic/TaskHostPort'') mod 65536 in if ou_listen W port then Some port else None)"
proof -
  obtain c1 c2 d r s where c1: "c1 = LoadConfig (ou_env W) (ou_ini W) (ou_unset W) (LoadConfig (ou_env W) (ou_ini W) (ou_unset W) c0)"
    and c2: "InitFastdds (ou_env W) (ou_ini W) (ou_build W) [] (ou_wild W) c1 no_channels = Ok (c2, d)"
    and sys: "(if cg_sysEnabled c2 then server_start (ou_grpcUp W) (ce_toStd (ou_env W) (cg_sysListen c2)) (cg_sysPort c2) server_init
      else Some (False, server_init)) = Some (r, s)"
    and P: "pr_cfg P = startAlarmDestroyGrpcSubscriber c2" "pr_dds P = d" "pr_sys P = s" "pr_alarmThread P" "pr_typeThread P"
      "pr_suspiciousThread P \<longleftrightarrow> sx_enabled (cg_suspicious c2) \<noteq> 0"
      "pr_http P = (let port = member_int (bc_members (cg_basic c2)) ''m_nTaskHostPort'' mod 65536 in if ou_listen W port then Some port else None)"
    using assms(2) by (rule main_start_Ok)
  note k = InitFastdds_Ok[OF c2]
  obtain u where u: "cg_destroy c0 = Some u" "\<not> su_thread u" using assms(1) by (auto simp: fresh_config_def)
  have "m_running s \<longleftrightarrow> cg_sysEnabled c2 \<and> 0 < cg_sysPort c2 \<and> cg_sysPort c2 \<le> 65535 \<and> ou_grpcUp W"
    using sys by (auto simp: server_start_def server_init_def Let_def split: if_splits)
  moreover have "\<exists>v. cg_destroy (pr_cfg P) = Some v \<and> (su_thread v \<longleftrightarrow> int_setting (ou_env W) (ou_ini W) ''GrpcDestroy/Enabled'' 1 \<noteq> 0)"
    using u by (simp add: P(1) startAlarmDestroyGrpcSubscriber_def k(4) c1 LoadConfig_clients destroy_configure_again)
      (simp add: destroy_configure_def destroy_start_def Let_def)
  moreover have "cg_snapshotThread (pr_cfg P) \<longleftrightarrow> int_setting (ou_env W) (ou_ini W) ''GrpcAlarm/Enabled'' 1 \<noteq> 0"
    using assms(1) by (auto simp: P(1) startAlarmDestroyGrpcSubscriber_def k(5) c1 LoadConfig_clients fresh_config_def)
  moreover have "sx_enabled (cg_suspicious c2) = int_setting (ou_env W) (ou_ini W) ''SuspiciousTarget/Enabled'' 0"
    by (simp add: k(3) c1 LoadConfig_tables load_suspicious_def Let_def)
  moreover have "member_int (bc_members (cg_basic c2)) ''m_nTaskHostPort'' = var_toInt (ou_env W) (ou_ini W ''Basic/TaskHostPort'')"
    by (simp add: member_int_def k(11) c1 LoadConfig_tables loaded_port)
  ultimately show ?thesis using P by (simp add: k(8,10) c1 LoadConfig_clients)
qed

text \<open>
  After the event loop \<open>main\<close> stops every thread and server it started and closes the channels, except one: the thread that pushes
  alarm snapshots, which \<open>LoadConfig\<close> started, still runs, because only the destructor of the configuration stops it and nobody
  destroys the configuration.
\<close>
theorem shutdown_leaves_snapshot_thread:
  assumes "fresh_config c0" and "main_start W c0 = Ok P" and "P' = main_stop (\<lambda>_. False) P"
  shows "\<not> pr_alarmThread P' \<and> \<not> pr_typeThread P' \<and> \<not> pr_suspiciousThread P' \<and> \<not> m_running (pr_sys P') \<and>
    (\<forall>u. cg_destroy (pr_cfg P') = Some u \<longrightarrow> \<not> su_thread u) \<and> dd_ptr (pr_dds P') = (\<lambda>_. None) \<and> pr_http P' = None \<and>
    (cg_snapshotThread (pr_cfg P') \<longleftrightarrow> int_setting (ou_env W) (ou_ini W) ''GrpcAlarm/Enabled'' 1 \<noteq> 0)"
proof -
  obtain c1 c2 d where c1: "c1 = LoadConfig (ou_env W) (ou_ini W) (ou_unset W) (LoadConfig (ou_env W) (ou_ini W) (ou_unset W) c0)"
    and c2: "InitFastdds (ou_env W) (ou_ini W) (ou_build W) [] (ou_wild W) c1 no_channels = Ok (c2, d)"
    and P: "pr_cfg P = startAlarmDestroyGrpcSubscriber c2" "pr_dds P = d"
    using assms(2) by (rule main_start_Ok)
  have "cg_snapshotThread c2 \<longleftrightarrow> int_setting (ou_env W) (ou_ini W) ''GrpcAlarm/Enabled'' 1 \<noteq> 0"
    using assms(1) by (auto simp: InitFastdds_Ok(5)[OF c2] c1 LoadConfig_clients fresh_config_def)
  moreover have "dd_ptr (DestoryFastdds (\<lambda>_. False) d) = (\<lambda>_. None)"
    using close_all_ptr[of d] init_dds_ok[OF c2] by simp
  ultimately show ?thesis
    by (auto simp: assms(3) main_stop_def server_stop_def stopAlarmDestroyGrpcSubscriber_def startAlarmDestroyGrpcSubscriber_def
        destroy_stop_def P)
qed

section \<open>Witnesses\<close>

definition no_settings :: ini where
  "no_settings = (\<lambda>_. VInvalid)"

definition fresh_sample :: config where
  "fresh_sample = new_config\<lparr>
     cg_destroy := Some \<lparr>su_host = [], su_port = 0, su_enabled = False, su_cfg = False, su_stop = False, su_thread = False, su_channel = False\<rparr>,
     cg_typeClient := Some \<lparr>tc_host = [], tc_port = 0, tc_enabled = False, tc_channel = False, tc_stub = False, tc_sent = []\<rparr>\<rparr>"

definition no_ptz :: PtzConfAttr where
  "no_ptz = \<lparr>pz_mainCamID = 0, pz_sideCamEnable = 0, pz_sideCamID = 0, pz_showAR = 0, pz_showDetect = 0, pz_showTrack = 0,
     pz_showRadar = 0, pz_showFuse = 0\<rparr>"

definition sample_world :: outside where
  "sample_world = \<lparr>ou_env = sample_cfg, ou_ini = no_settings, ou_unset = (\<lambda>_. CInt 0), ou_build = (\<lambda>_. Built), ou_wild = no_ptz,
     ou_grpcUp = True, ou_listen = (\<lambda>_. True)\<rparr>"

lemma fresh_sample_fresh: "fresh_config fresh_sample"
  by (simp add: fresh_config_def fresh_sample_def new_config_def)

lemma no_settings_domain: "member_int (bc_members (cg_basic (LoadConfig sample_cfg no_settings u c))) ''m_nPPIDDSPort'' = 0"
  by (simp add: member_int_def LoadConfig_tables loaded_domain no_settings_def var_toInt_def)

lemma no_settings_init:
  "InitFastdds sample_cfg no_settings oc [] no_ptz (LoadConfig sample_cfg no_settings u c) no_channels =
     Ok (LoadConfig sample_cfg no_settings u c, init_channels sample_cfg no_settings oc (LoadConfig sample_cfg no_settings u c) no_channels)"
  by (simp add: InitFastdds_def no_settings_domain)

lemma sample_world_starts: "\<exists>P. main_start sample_world fresh_sample = Ok P"
proof -
  have "main_start sample_world fresh_sample \<noteq> Undefined"
    by (simp add: large_domain_eq sample_world_def no_settings_def var_toInt_def)
  moreover have "main_start sample_world fresh_sample \<noteq> Forever"
    by (simp add: main_start_def sample_world_def no_settings_init Let_def split: option.splits)
  ultimately show ?thesis by (cases "main_start sample_world fresh_sample") auto
qed

lemma no_settings_fusion: "bc_fusionTransport (cg_basic (LoadConfig sample_cfg no_settings u c)) = qs ''dds''"
proof -
  have "list_all (\<lambda>c. 33 \<le> c \<and> c \<le> 126) (qs ''dds'')" "list_all (\<lambda>c. 97 \<le> c \<and> c \<le> 122) (qs ''dds'')" by (simp_all add: qs_def)
  then have "trimmed (ce_qt sample_cfg) (qs ''dds'') = qs ''dds''" "toLower (ce_qt sample_cfg) (qs ''dds'') = qs ''dds''"
    using cfg_trim_qs[OF sample_cfg_laws] trim_lawD(4)[of ascii_space] sample_cfg_laws by (simp_all add: cfg_laws_def)
  then show ?thesis by (simp add: LoadConfig_tables load_basic_def load_transport_def text_setting_def no_settings_def)
qed

theorem channels_exact_witness:
  "dd_ptr (init_channels sample_cfg no_settings (\<lambda>_. Built) (loaded no_settings) no_channels) StructSub \<noteq> None \<and>
   dd_ptr (init_channels sample_cfg no_settings (\<lambda>_. Built) (loaded no_settings) no_channels) StructGrpc = None"
proof -
  let ?d = "init_channels sample_cfg no_settings (\<lambda>_. Built) (loaded no_settings) no_channels"
  have "dd_ptr ?d ch \<noteq> None \<longleftrightarrow> wanted sample_cfg no_settings (loaded no_settings) ch \<and> works (\<lambda>_. Built) ch" for ch
    using channels_exact[OF sample_cfg_laws refl no_settings_init] by blast
  from this[of StructSub] this[of StructGrpc] show ?thesis by (simp add: works_def wanted_def no_settings_fusion)
qed

theorem channels_released_witness:
  "dd_heap (DestoryFastdds (\<lambda>_. False) (init_channels sample_cfg no_settings (\<lambda>_. Built) (loaded no_settings) no_channels)) = []"
  using channels_released[OF no_settings_init refl, of "\<lambda>_. Built" "\<lambda>_. CInt 0" new_config] by simp

theorem services_follow_settings_witness:
  "\<exists>P. main_start sample_world fresh_sample = Ok P \<and> m_running (pr_sys P) \<and> \<not> pr_suspiciousThread P \<and> pr_http P = Some 0"
proof -
  obtain P where P: "main_start sample_world fresh_sample = Ok P" using sample_world_starts by blast
  then show ?thesis using services_follow_settings[OF fresh_sample_fresh P]
    by (simp add: sample_world_def no_settings_def int_setting_def var_toInt_def)
qed

theorem shutdown_leaves_snapshot_thread_witness:
  "\<exists>P. main_start sample_world fresh_sample = Ok P \<and> \<not> m_running (pr_sys (main_stop (\<lambda>_. False) P)) \<and>
     cg_snapshotThread (pr_cfg (main_stop (\<lambda>_. False) P))"
proof -
  obtain P where P: "main_start sample_world fresh_sample = Ok P" using sample_world_starts by blast
  then show ?thesis using shutdown_leaves_snapshot_thread[OF fresh_sample_fresh P refl]
    by (simp add: sample_world_def no_settings_def int_setting_def)
qed

end
