(* ===== verification/Alarm_Publisher.thy ===== *)
theory Alarm_Publisher
  imports Alarm_Event Config_Load
begin

text \<open>
  Sending alarm events over DDS (\<open>fastdds_alarmevent/AlarmEventPublisherApp.cxx\<close>), the publisher of the targets behind the alarms
  (\<open>fastdds_newtrack/NewTrackStructAlarmPublisherApp.cxx\<close>) and the log files (\<open>AlarmFileLogger.cpp\<close>).  The answers of the DDS
  library, the readings of the clock and the texts of a date are arguments.  \<open>sendLst\<close> replaces the event the publisher holds; its thread writes
  that event once a period.
\<close>

section \<open>Settings of the publishers\<close>

record alarm_dds_config =
  ac_useProfile :: bool
  ac_xmlMulti :: qstring
  ac_profileMulti :: qstring
  ac_xmlSingle :: qstring
  ac_profileSingle :: qstring
  ac_topicName :: qstring

definition loadAlarmEventDdsConfig :: "cfg_env \<Rightarrow> ini \<Rightarrow> alarm_dds_config" where
  "loadAlarmEventDdsConfig E ini =
     \<lparr>ac_useProfile = int_setting E ini ''DDS/AlarmEventUseProfile'' 1 \<noteq> 0,
      ac_xmlMulti = text_setting ini ''DDS/AlarmEventXmlMulti'' (text_setting ini ''DDS/AlarmEventXml'' (qs ''alarmevent_multi.xml'')),
      ac_profileMulti = text_setting ini ''DDS/AlarmEventParticipantProfileMulti''
        (text_setting ini ''DDS/AlarmEventParticipantProfile'' (qs ''participant_alarmevent'')),
      ac_xmlSingle = text_setting ini ''DDS/AlarmEventXmlSingle'' (qs ''alarmevent_single.xml''),
      ac_profileSingle = text_setting ini ''DDS/AlarmEventParticipantProfileSingle'' (qs ''participant_alarmevent_single''),
      ac_topicName = text_setting ini ''DDS/AlarmEventTopic'' (qs ''AlarmEventTopic'')\<rparr>"

definition loadNewTrackAlarmDdsConfig :: "cfg_env \<Rightarrow> ini \<Rightarrow> alarm_dds_config" where
  "loadNewTrackAlarmDdsConfig E ini =
     \<lparr>ac_useProfile = int_setting E ini ''DDS/NewTrackAlarmUseProfile'' 1 \<noteq> 0,
      ac_xmlMulti = text_setting ini ''DDS/NewTrackAlarmXmlMulti'' (qs ''newtrack_alarm_multi.xml''),
      ac_profileMulti = text_setting ini ''DDS/NewTrackAlarmParticipantProfileMulti'' (qs ''participant_newtrack_alarm_multi''),
      ac_xmlSingle = text_setting ini ''DDS/NewTrackAlarmXmlSingle'' (qs ''newtrack_alarm_single.xml''),
      ac_profileSingle = text_setting ini ''DDS/NewTrackAlarmParticipantProfileSingle'' (qs ''participant_newtrack_alarm_single''),
      ac_topicName = text_setting ini ''DDS/NewTrackAlarmTopic'' (qs ''NewTrackStructAlarm'')\<rparr>"

section \<open>Building a publisher\<close>

text \<open>
  Both constructors create a participant, a publisher, a topic and a writer, in this order, and throw at the first null pointer.  The
  destructor does not run then: what was created stays (the second component of the error).
\<close>

datatype dds_entity = EParticipant | EPublisher | ETopic | EWriter

fun create_entities :: "(dds_entity \<Rightarrow> bool) \<Rightarrow> dds_entity list \<Rightarrow> dds_entity list \<Rightarrow> (dds_entity \<times> dds_entity list) + dds_entity list" where
  "create_entities created made [] = Inr made"
| "create_entities created made (e # es) =
     (if created e then create_entities created (made @ [e]) es else Inl (e, made))"

text \<open>The participant asked for: its domain, the profile file and profile name when profiles are used, and the topic.\<close>

record participant_request =
  pr_domain :: int
  pr_profile :: "(qstring \<times> qstring) option"
  pr_topic :: qstring

definition dds_request :: "alarm_dds_config \<Rightarrow> int \<Rightarrow> int \<Rightarrow> participant_request" where
  "dds_request c domain mode =
     \<lparr>pr_domain = domain,
      pr_profile = (if ac_useProfile c
        then Some (if mode = 0 then (ac_xmlMulti c, ac_profileMulti c) else (ac_xmlSingle c, ac_profileSingle c)) else None),
      pr_topic = ac_topicName c\<rparr>"

text \<open>A duration of whole seconds and nanoseconds (\<open>Duration_t\<close>), and the liveliness of the writer.\<close>

definition durationFromMs :: "int \<Rightarrow> int \<times> int" where
  "durationFromMs ms0 = (let ms = (if ms0 < 1 then 1 else ms0) in (to_i32 (ms div 1000), to_u32 (ms mod 1000 * 1000000)))"

definition applyManualLivelinessQos :: "int \<Rightarrow> (int \<times> int) \<times> (int \<times> int)" where
  "applyManualLivelinessQos periodMs =
     (let announceMs = max 100 (periodMs div 2); leaseMs = max (announceMs + 1000) (periodMs * 3)
      in (durationFromMs announceMs, durationFromMs leaseMs))"

definition period_ms :: int where
  "period_ms = 1000"

section \<open>The publisher\<close>

record 'i sent_event =
  ev_eventId :: string
  ev_alarm :: "'i list"

record 'i publisher =
  pb_mode :: int
  pb_domain :: int
  pb_request :: participant_request
  pb_liveliness :: "(int \<times> int) \<times> (int \<times> int)"
  pb_writer :: bool
  pb_matched :: int
  pb_sent :: int
  pb_stop :: bool
  pb_cur :: "'i sent_event"

text \<open>The constructor.\<close>

definition newAlarmPublisher :: "cfg_env \<Rightarrow> ini \<Rightarrow> (dds_entity \<Rightarrow> bool) \<Rightarrow> int \<Rightarrow> int
    \<Rightarrow> (dds_entity \<times> dds_entity list) + 'i publisher" where
  "newAlarmPublisher E ini created domain mode =
     (case create_entities created [] [EParticipant, EPublisher, ETopic, EWriter] of
        Inl err \<Rightarrow> Inl err
      | Inr es \<Rightarrow> Inr \<lparr>pb_mode = mode, pb_domain = domain, pb_request = dds_request (loadAlarmEventDdsConfig E ini) domain mode,
          pb_liveliness = applyManualLivelinessQos period_ms, pb_writer = True, pb_matched = 0, pb_sent = 0, pb_stop = False,
          pb_cur = \<lparr>ev_eventId = [], ev_alarm = []\<rparr>\<rparr>)"

definition publisherTag :: "int \<Rightarrow> string" where
  "publisherTag mode = (if mode = 0 then ''multi'' else ''single'')"

text \<open>The lines handed to the log file and the times of the last line of each key.\<close>

record dds_log =
  dl_throttle :: "(string, int) qmap"
  dl_lines :: "string list"

definition logDdsEvent :: "string \<Rightarrow> dds_log \<Rightarrow> dds_log" where
  "logDdsEvent line L = L\<lparr>dl_lines := dl_lines L @ [line]\<rparr>"

definition logDdsEventThrottled :: "int \<Rightarrow> string \<Rightarrow> string \<Rightarrow> int \<Rightarrow> dds_log \<Rightarrow> dds_log" where
  "logDdsEventThrottled now key line intervalMs L =
     (case map_of (dl_throttle L) key of
        Some before \<Rightarrow> if now - before < intervalMs then L
          else logDdsEvent line (L\<lparr>dl_throttle := qm_insert key now (dl_throttle L)\<rparr>)
      | None \<Rightarrow> logDdsEvent line (L\<lparr>dl_throttle := qm_insert key now (dl_throttle L)\<rparr>))"

definition on_publication_matched :: "int \<Rightarrow> int \<Rightarrow> 'i publisher \<Rightarrow> dds_log \<Rightarrow> 'i publisher \<times> dds_log" where
  "on_publication_matched current_count change p L =
     (let p' = p\<lparr>pb_matched := current_count\<rparr>;
          rest = '' tag='' @ publisherTag (pb_mode p) @ '' domain='' @ dec_int (pb_domain p) @ '' count='' @ dec_int current_count @ '' change='' in
      if change > 0 then (p', logDdsEvent (''[matched]'' @ rest @ ''+'' @ dec_int change) L)
      else if change < 0 then (p', logDdsEvent (''[unmatched]'' @ rest @ dec_int change) L)
      else (p', L))"

text \<open>
  One call of \<open>publish\<close>: the answers of \<open>assert_liveliness\<close> and \<open>write\<close> (0 is \<open>RETCODE_OK\<close>) and the clock.  The second component of the result is
  the sample the writer took.
\<close>

record tick_env =
  tk_liveliness :: int
  tk_write :: int
  tk_now :: int

definition line_head :: "string \<Rightarrow> 'i publisher \<Rightarrow> string" where
  "line_head what p = ''['' @ what @ ''] tag='' @ publisherTag (pb_mode p) @ '' domain='' @ dec_int (pb_domain p)"

definition publish :: "tick_env \<Rightarrow> 'i publisher \<Rightarrow> dds_log \<Rightarrow> bool \<times> 'i sent_event option \<times> dds_log" where
  "publish e p L =
     (if pb_stop p \<or> \<not> pb_writer p then (False, None, L)
      else let tag = publisherTag (pb_mode p);
               livelinessOk = (tk_liveliness e = 0);
               L1 = (if livelinessOk then L
                     else logDdsEventThrottled (tk_now e) (''liveliness_fail_'' @ tag)
                       (line_head ''liveliness_fail'' p @ '' code='' @ dec_int (tk_liveliness e)) 30000 L);
               sample = pb_cur p;
               alarmCount = to_i32 (int (length (ev_alarm sample)));
               L2 = logDdsEventThrottled (tk_now e) (''status_'' @ tag)
                      (line_head ''status'' p @ '' matched='' @ dec_int (pb_matched p) @ '' alarm_count='' @ dec_int alarmCount @
                       '' liveliness_ok='' @ (if livelinessOk then ''1'' else ''0'')) 60000 L1 in
        if pb_matched p \<le> 0
        then (False, None, logDdsEventThrottled (tk_now e) (''skip_nomatch_'' @ tag)
               (line_head ''skip'' p @ '' reason=no_subscriber alarm_count='' @ dec_int alarmCount) 60000 L2)
        else if alarmCount \<le> 0 then (False, None, L2)
        else if tk_write e \<noteq> 0
        then (False, None, logDdsEvent (line_head ''write_fail'' p @ '' code='' @ dec_int (tk_write e) @ '' alarm_count='' @ dec_int alarmCount) L2)
        else (True, Some sample, L2))"

text \<open>One turn of the loop in \<open>run\<close>; the counter of samples has 16 bits.\<close>

definition run_turn :: "tick_env \<Rightarrow> 'i publisher \<Rightarrow> dds_log \<Rightarrow> 'i sent_event option \<times> 'i publisher \<times> dds_log" where
  "run_turn e p L =
     (case publish e p L of
        (False, out, L1) \<Rightarrow> (out, p, L1)
      | (True, out, L1) \<Rightarrow>
          (let p1 = p\<lparr>pb_sent := (pb_sent p + 1) mod 65536\<rparr> in
           (out, p1, logDdsEventThrottled (tk_now e) (''sent_'' @ publisherTag (pb_mode p))
              (line_head ''sent'' p1 @ '' samples='' @ dec_int (pb_sent p1) @ '' matched='' @ dec_int (pb_matched p1)) 60000 L1)))"

definition stop_publisher :: "'i publisher \<Rightarrow> 'i publisher" where
  "stop_publisher p = p\<lparr>pb_stop := True\<rparr>"

definition sendLst :: "'i sent_event \<Rightarrow> 'i publisher \<Rightarrow> 'i publisher" where
  "sendLst msg p = p\<lparr>pb_cur := msg\<rparr>"

definition sendNewAlarm :: "int \<Rightarrow> 'i sent_event \<Rightarrow> 'i publisher \<Rightarrow> dds_log \<Rightarrow> bool \<times> 'i sent_event option \<times> dds_log" where
  "sendNewAlarm wc msg p L =
     (if \<not> pb_writer p then (False, None, L)
      else if wc = 0
      then (True, Some msg, logDdsEvent (line_head ''sendNewAlarm'' p @ '' matched='' @ dec_int (pb_matched p) @
              '' alarm_count='' @ dec_int (to_i32 (int (length (ev_alarm msg))))) L)
      else (False, None, logDdsEvent (line_head ''sendNewAlarm_fail'' p @ '' code='' @ dec_int wc) L))"

text \<open>\<open>NewTrackStructAlarmPublisherApp\<close>: the constructor's request, and \<open>send\<close>, whose result is whether the writer took the targets.\<close>

definition newStructPublisher :: "cfg_env \<Rightarrow> ini \<Rightarrow> (dds_entity \<Rightarrow> bool) \<Rightarrow> int \<Rightarrow> int \<Rightarrow> qstring
    \<Rightarrow> (dds_entity \<times> dds_entity list) + participant_request" where
  "newStructPublisher E ini created domain mode topic_override =
     (let c0 = loadNewTrackAlarmDdsConfig E ini;
          c = (if topic_override = [] then c0 else c0\<lparr>ac_topicName := topic_override\<rparr>) in
      case create_entities created [] [EParticipant, EPublisher, ETopic, EWriter] of
        Inl err \<Rightarrow> Inl err
      | Inr es \<Rightarrow> Inr (dds_request c domain mode))"

definition send_targets :: "bool \<Rightarrow> int \<Rightarrow> 't list \<Rightarrow> bool \<times> 't list option" where
  "send_targets writer wc msg = (if \<not> writer then (False, None) else if wc = 0 then (True, Some msg) else (False, None))"

section \<open>The publisher at work\<close>

text \<open>
  What happens to a publisher: subscribers come and go, its thread takes a turn, events are handed over, and it is stopped.  The samples
  the writer took are kept with the way they were sent.
\<close>

datatype 'i pub_event =
    Matched int int
  | Turn tick_env
  | Handed "'i sent_event"
  | NewAlarm int "'i sent_event"
  | Stopped

datatype 'i sample = Periodic "'i sent_event" | Immediate "'i sent_event"

definition as_sample :: "('i sent_event \<Rightarrow> 'i sample) \<Rightarrow> 'i sent_event option \<Rightarrow> 'i sample list" where
  "as_sample f out = (case out of None \<Rightarrow> [] | Some ev \<Rightarrow> [f ev])"

fun pub_step :: "'i pub_event \<Rightarrow> 'i publisher \<times> dds_log \<times> 'i sample list \<Rightarrow> 'i publisher \<times> dds_log \<times> 'i sample list" where
  "pub_step (Matched n c) (p, L, out) = (let (p', L') = on_publication_matched n c p L in (p', L', out))"
| "pub_step (Turn e) (p, L, out) = (let (s, p', L') = run_turn e p L in (p', L', out @ as_sample Periodic s))"
| "pub_step (Handed ev) (p, L, out) = (sendLst ev p, L, out)"
| "pub_step (NewAlarm wc ev) (p, L, out) = (let (ok, s, L') = sendNewAlarm wc ev p L in (p, L', out @ as_sample Immediate s))"
| "pub_step Stopped (p, L, out) = (stop_publisher p, L, out)"

definition pub_run :: "'i pub_event list \<Rightarrow> 'i publisher \<Rightarrow> 'i publisher \<times> dds_log \<times> 'i sample list" where
  "pub_run evs p = fold pub_step evs (p, \<lparr>dl_throttle = [], dl_lines = []\<rparr>, [])"

abbreviation sent_by :: "'i publisher \<times> dds_log \<times> 'i sample list \<Rightarrow> 'i sample list" where
  "sent_by r \<equiv> snd (snd r)"

text \<open>What has happened to a publisher, read off the events: its subscribers and the event it holds.\<close>

definition subscribers :: "'i pub_event list \<Rightarrow> int" where
  "subscribers evs = fold (\<lambda>x n. case x of Matched m _ \<Rightarrow> m | _ \<Rightarrow> n) evs 0"

definition held_event :: "'i pub_event list \<Rightarrow> 'i sent_event" where
  "held_event evs = fold (\<lambda>x h. case x of Handed ev \<Rightarrow> ev | _ \<Rightarrow> h) evs \<lparr>ev_eventId = [], ev_alarm = []\<rparr>"

lemma throttled_lines: "dl_lines (logDdsEventThrottled now k l i L) \<in> {dl_lines L, dl_lines L @ [l]}"
  by (simp add: logDdsEventThrottled_def logDdsEvent_def split: option.split)

lemma run_turn_result:
  "run_turn e p L = (out, p', L') \<Longrightarrow>
   out = (if \<not> pb_stop p \<and> pb_writer p \<and> 0 < pb_matched p \<and> 0 < to_i32 (int (length (ev_alarm (pb_cur p)))) \<and> tk_write e = 0
          then Some (pb_cur p) else None) \<and>
   p' = (if out = None then p else p\<lparr>pb_sent := (pb_sent p + 1) mod 65536\<rparr>)"
  by (auto simp: run_turn_def publish_def Let_def split: if_splits)

lemma pub_run_snoc: "pub_run (evs @ [x]) p = pub_step x (pub_run evs p)"
  by (simp add: pub_run_def)

lemma new_publisher_fields:
  assumes "newAlarmPublisher E ini created domain mode = Inr p"
  shows "pb_writer p" "pb_matched p = 0" "pb_sent p = 0" "\<not> pb_stop p" "pb_cur p = \<lparr>ev_eventId = [], ev_alarm = []\<rparr>"
    "pb_liveliness p = applyManualLivelinessQos period_ms"
  using assms by (auto simp: newAlarmPublisher_def split: sum.splits)

lemma pub_run_state:
  assumes "newAlarmPublisher E ini created domain mode = Inr p"
  shows "pb_writer (fst (pub_run evs p))" "pb_matched (fst (pub_run evs p)) = subscribers evs"
    "pb_stop (fst (pub_run evs p)) \<longleftrightarrow> Stopped \<in> set evs" "pb_cur (fst (pub_run evs p)) = held_event evs"
proof -
  let ?q = "\<lambda>evs. fst (pub_run evs p)"
  have "pb_writer (?q evs) \<and> pb_matched (?q evs) = subscribers evs \<and> (pb_stop (?q evs) \<longleftrightarrow> Stopped \<in> set evs) \<and>
      pb_cur (?q evs) = held_event evs"
  proof (induction evs rule: rev_induct)
    case Nil
    show ?case using new_publisher_fields[OF assms] by (simp add: pub_run_def subscribers_def held_event_def)
  next
    case (snoc x evs)
    obtain q L out where r: "pub_run evs p = (q, L, out)" by (metis prod_cases3)
    show ?case
    proof (cases x)
      case (Turn e)
      obtain s q' L' where t: "run_turn e q L = (s, q', L')" by (metis prod_cases3)
      show ?thesis using snoc r run_turn_result[OF t]
        by (simp add: pub_run_snoc Turn t subscribers_def held_event_def split: if_splits)
    next
      case (NewAlarm wc ev)
      obtain ok s L' where t: "sendNewAlarm wc ev q L = (ok, s, L')" by (metis prod_cases3)
      show ?thesis using snoc r by (simp add: pub_run_snoc NewAlarm t subscribers_def held_event_def)
    qed (use snoc r in \<open>auto simp: pub_run_snoc on_publication_matched_def sendLst_def stop_publisher_def subscribers_def held_event_def Let_def\<close>)
  qed
  then show "pb_writer (?q evs)" "pb_matched (?q evs) = subscribers evs" "pb_stop (?q evs) \<longleftrightarrow> Stopped \<in> set evs"
    "pb_cur (?q evs) = held_event evs" by auto
qed

lemma samples_exact_step:
  assumes "newAlarmPublisher E ini created domain mode = Inr p" and "length (ev_alarm (held_event evs)) < 2 ^ 31"
  shows "sent_by (pub_run (evs @ [x]) p) = sent_by (pub_run evs p) @
    (case x of
       Turn e \<Rightarrow> if Stopped \<notin> set evs \<and> 0 < subscribers evs \<and> ev_alarm (held_event evs) \<noteq> [] \<and> tk_write e = 0
                 then [Periodic (held_event evs)] else []
     | NewAlarm wc ev \<Rightarrow> if wc = 0 then [Immediate ev] else []
     | _ \<Rightarrow> [])"
proof -
  obtain q L out where r: "pub_run evs p = (q, L, out)" by (metis prod_cases3)
  note st = pub_run_state[OF assms(1), of evs, unfolded r, simplified]
  show ?thesis
  proof (cases x)
    case (Turn e)
    obtain s q' L' where t: "run_turn e q L = (s, q', L')" by (metis prod_cases3)
    have "to_i32 (int (length (ev_alarm (held_event evs)))) = int (length (ev_alarm (held_event evs)))"
      using assms(2) by simp
    then show ?thesis using run_turn_result[OF t] st by (simp add: pub_run_snoc r Turn t as_sample_def)
  next
    case (NewAlarm wc ev)
    then show ?thesis using st by (simp add: pub_run_snoc r sendNewAlarm_def as_sample_def)
  qed (auto simp: pub_run_snoc r on_publication_matched_def Let_def)
qed

text \<open>
  C16. What a publisher sends: a turn of its thread sends the event handed over last, exactly when it was not stopped, a subscriber is matched,
  that event has alarms and the writer accepts it; a new alarm is sent at once, with or without a subscriber, and is not repeated; nothing else sends.
\<close>
theorem samples_exact:
  assumes "newAlarmPublisher E ini created domain mode = Inr p" and "length (ev_alarm (held_event evs)) < 2 ^ 31"
  shows "sent_by (pub_run (evs @ [x]) p) = sent_by (pub_run evs p) @
    (case x of
       Turn e \<Rightarrow> if Stopped \<notin> set evs \<and> 0 < subscribers evs \<and> ev_alarm (held_event evs) \<noteq> [] \<and> tk_write e = 0
                 then [Periodic (held_event evs)] else []
     | NewAlarm wc ev \<Rightarrow> if wc = 0 then [Immediate ev] else []
     | _ \<Rightarrow> [])"
  by (rule samples_exact_step[OF assms])

definition sample_publisher :: "nat publisher" where
  "sample_publisher = projr (newAlarmPublisher sample_cfg (\<lambda>_. VInvalid) (\<lambda>_. True) 7 0)"

lemma sample_publisher_new: "newAlarmPublisher sample_cfg (\<lambda>_. VInvalid) (\<lambda>_. True) 7 0 = Inr sample_publisher"
  by (simp add: sample_publisher_def newAlarmPublisher_def)

abbreviation good_turn :: tick_env where
  "good_turn \<equiv> \<lparr>tk_liveliness = 0, tk_write = 0, tk_now = 5\<rparr>"

theorem samples_exact_witness:
  "sent_by (pub_run ([Handed \<lparr>ev_eventId = ''e'', ev_alarm = [3::nat]\<rparr>, Matched 1 1] @ [Turn good_turn]) sample_publisher) =
   [Periodic \<lparr>ev_eventId = ''e'', ev_alarm = [3]\<rparr>]"
proof -
  have "sent_by (pub_run [Handed \<lparr>ev_eventId = ''e'', ev_alarm = [3::nat]\<rparr>, Matched 1 1] sample_publisher) = []"
    by (simp add: pub_run_def on_publication_matched_def Let_def)
  then show ?thesis
    using samples_exact[OF sample_publisher_new, of "[Handed \<lparr>ev_eventId = ''e'', ev_alarm = [3]\<rparr>, Matched 1 1]" "Turn good_turn"]
    by (simp add: subscribers_def held_event_def)
qed

section \<open>When alarms end\<close>

text \<open>An event after which nothing with alarms has been handed over.\<close>

fun no_alarms :: "'i pub_event \<Rightarrow> bool" where
  "no_alarms (Handed ev) \<longleftrightarrow> ev_alarm ev = []"
| "no_alarms (NewAlarm wc ev) \<longleftrightarrow> False"
| "no_alarms _ \<longleftrightarrow> True"

lemma held_event_snoc: "held_event (evs @ [x]) = (case x of Handed ev \<Rightarrow> ev | _ \<Rightarrow> held_event evs)"
  by (cases x) (simp_all add: held_event_def)

lemma empty_event_stays:
  "ev_alarm (held_event evs) = [] \<Longrightarrow> list_all no_alarms later \<Longrightarrow> ev_alarm (held_event (evs @ later)) = []"
proof (induction later rule: rev_induct)
  case (snoc x later)
  then show ?case by (cases x) (simp_all add: held_event_snoc flip: append_assoc)
qed simp

lemma nothing_sent_without_alarms:
  assumes "newAlarmPublisher E ini created domain mode = Inr p" and "ev_alarm (held_event evs) = []"
  shows "list_all no_alarms later \<Longrightarrow> sent_by (pub_run (evs @ later) p) = sent_by (pub_run evs p)"
proof (induction later rule: rev_induct)
  case (snoc x later)
  then have e: "ev_alarm (held_event (evs @ later)) = []" using empty_event_stays[OF assms(2)] by simp
  then have "length (ev_alarm (held_event (evs @ later))) < 2 ^ 31" by simp
  from samples_exact_step[OF assms(1) this, of x] show ?case using snoc e by (cases x) simp_all
qed simp

lemma periodic_samples_have_alarms:
  assumes "newAlarmPublisher E ini created domain mode = Inr p"
  shows "Periodic ev \<in> set (sent_by (pub_run evs p)) \<Longrightarrow> ev_alarm ev \<noteq> []"
proof (induction evs rule: rev_induct)
  case (snoc x evs)
  obtain q L out where r: "pub_run evs p = (q, L, out)" by (metis prod_cases3)
  show ?case
  proof (cases x)
    case (Turn e)
    obtain s q' L' where t: "run_turn e q L = (s, q', L')" by (metis prod_cases3)
    show ?thesis using snoc run_turn_result[OF t] by (auto simp: pub_run_snoc r Turn t as_sample_def to_i32_def split: if_splits)
  qed (use snoc in \<open>auto simp: pub_run_snoc r on_publication_matched_def sendNewAlarm_def as_sample_def Let_def split: if_splits\<close>)
qed (simp add: pub_run_def)

text \<open>
  C24. The end of the alarms is not sent: when a pass finds both alarm tables empty, it hands over an event without alarms, and from then on the
  publisher sends nothing until an event with alarms is handed over.  Its periodic samples all have alarms, so the last of them still
  reports the alarms that have ended.
\<close>
theorem ended_alarms_linger:
  assumes "newAlarmPublisher E ini created domain mode = Inr p"
    and "SendAllAlarmEventMsg P now s = (Some infos, s', ops)"
    and "mapAlarmData (synced_state P now s) = []" and "manualAlarmData (synced_state P now s) = []"
    and "list_all no_alarms later"
  shows "sent_by (pub_run (evs @ Handed \<lparr>ev_eventId = i, ev_alarm = infos\<rparr> # later) p) = sent_by (pub_run evs p) \<and>
    (Periodic ev \<in> set (sent_by (pub_run evs p)) \<longrightarrow> ev_alarm ev \<noteq> [])"
proof -
  let ?h = "Handed \<lparr>ev_eventId = i, ev_alarm = infos\<rparr>"
  have "infos = []" using assms(2-4) by (auto simp: SendAllAlarmEventMsg_def Let_def split: if_splits)
  then have "ev_alarm (held_event (evs @ [?h])) = []" by (simp add: held_event_snoc)
  from nothing_sent_without_alarms[OF assms(1) this assms(5)]
  have "sent_by (pub_run (evs @ ?h # later) p) = sent_by (pub_run (evs @ [?h]) p)" by simp
  moreover obtain q L out where "pub_run evs p = (q, L, out)" by (metis prod_cases3)
  ultimately have "sent_by (pub_run (evs @ ?h # later) p) = sent_by (pub_run evs p)" by (simp add: pub_run_snoc)
  then show ?thesis using periodic_samples_have_alarms[OF assms(1)] by blast
qed

section \<open>The liveliness of the writer\<close>

text \<open>A duration in nanoseconds.\<close>

definition nanos :: "int \<times> int \<Rightarrow> int" where
  "nanos d = fst d * 1000000000 + snd d"

lemma durationFromMs_exact:
  assumes "1 \<le> ms" and "ms < 2147483648000"
  shows "nanos (durationFromMs ms) = ms * 1000000 \<and> 0 \<le> snd (durationFromMs ms) \<and> snd (durationFromMs ms) < 1000000000"
proof -
  have "ms mod 1000 < 1000" "0 \<le> ms mod 1000" by simp_all
  moreover have "ms div 1000 * 1000000000 + ms mod 1000 * 1000000 = ms * 1000000" by presburger
  moreover have "0 \<le> ms div 1000" "ms div 1000 < 2147483648" using assms by auto
  ultimately show ?thesis using assms(1) by (auto simp: durationFromMs_def nanos_def to_u32_def)
qed

text \<open>
  For every period of 32 bits the lease of the writer's liveliness is at least a second longer than the announcement period and at least
  three periods long, so that two missed turns do not end it, and both durations are exact, with less than a second of nanoseconds.
\<close>
theorem lease_outlasts_period:
  assumes "0 \<le> period" and "period < 2 ^ 32"
  shows "nanos (fst (applyManualLivelinessQos period)) + 1000000000 \<le> nanos (snd (applyManualLivelinessQos period))"
    and "3 * period * 1000000 \<le> nanos (snd (applyManualLivelinessQos period))"
    and "snd (fst (applyManualLivelinessQos period)) < 1000000000" and "snd (snd (applyManualLivelinessQos period)) < 1000000000"
proof -
  define a l where "a = max 100 (period div 2)" and "l = max (a + 1000) (period * 3)"
  have b: "1 \<le> a" "a < 2147483648000" "1 \<le> l" "l < 2147483648000" "a + 1000 \<le> l" "period * 3 \<le> l"
    using assms by (auto simp: a_def l_def)
  have "applyManualLivelinessQos period = (durationFromMs a, durationFromMs l)"
    by (simp add: applyManualLivelinessQos_def a_def l_def Let_def)
  then show "nanos (fst (applyManualLivelinessQos period)) + 1000000000 \<le> nanos (snd (applyManualLivelinessQos period))"
    "3 * period * 1000000 \<le> nanos (snd (applyManualLivelinessQos period))"
    "snd (fst (applyManualLivelinessQos period)) < 1000000000" "snd (snd (applyManualLivelinessQos period)) < 1000000000"
    using durationFromMs_exact[OF b(1,2)] durationFromMs_exact[OF b(3,4)] b(5,6) by simp_all
qed

theorem lease_outlasts_period_witness:
  "nanos (fst (applyManualLivelinessQos 4000000000)) + 1000000000 \<le> nanos (snd (applyManualLivelinessQos 4000000000))"
  by (rule lease_outlasts_period(1)) simp_all

section \<open>Throttled lines\<close>

text \<open>A call of \<open>logDdsEventThrottled\<close>: the clock, the key and the line; the interval belongs to the key.\<close>

definition log_calls :: "(string \<Rightarrow> nat) \<Rightarrow> (int \<times> string \<times> string) list \<Rightarrow> dds_log \<Rightarrow> dds_log" where
  "log_calls interval calls L = fold (\<lambda>(now, key, line). logDdsEventThrottled now key line (int (interval key))) calls L"

definition spaced :: "(string \<Rightarrow> nat) \<Rightarrow> int \<times> string \<times> string \<Rightarrow> int \<times> string \<times> string \<Rightarrow> bool" where
  "spaced interval a b = (fst (snd a) = fst (snd b) \<longrightarrow> int (interval (fst (snd b))) \<le> fst b - fst a)"

definition throttle_state :: "(int \<times> string \<times> string) list \<Rightarrow> (string, int) qmap \<Rightarrow> bool" where
  "throttle_state kept th \<longleftrightarrow>
     (\<forall>n k l. (n, k, l) \<in> set kept \<longrightarrow> (\<exists>t. map_of th k = Some t \<and> n \<le> t))"

lemma throttle_kept:
  "\<exists>kept. subseq kept calls \<and> dl_lines (log_calls interval calls \<lparr>dl_throttle = [], dl_lines = []\<rparr>) = map (snd \<circ> snd) kept \<and>
     sorted_wrt (spaced interval) kept \<and>
     throttle_state kept (dl_throttle (log_calls interval calls \<lparr>dl_throttle = [], dl_lines = []\<rparr>))"
proof (induction calls rule: rev_induct)
  case Nil
  show ?case by (rule exI[of _ "[]"]) (simp add: log_calls_def throttle_state_def)
next
  case (snoc c calls)
  obtain now k l where c: "c = (now, k, l)" by (metis prod_cases3)
  let ?L = "log_calls interval calls \<lparr>dl_throttle = [], dl_lines = []\<rparr>"
  let ?M = "log_calls interval (calls @ [c]) \<lparr>dl_throttle = [], dl_lines = []\<rparr>"
  have m: "?M = logDdsEventThrottled now k l (int (interval k)) ?L" by (simp add: log_calls_def c)
  from snoc obtain kept where kept: "subseq kept calls" "dl_lines ?L = map (snd \<circ> snd) kept" "sorted_wrt (spaced interval) kept"
    "throttle_state kept (dl_throttle ?L)" by blast
  show ?case
  proof (cases "\<exists>t. map_of (dl_throttle ?L) k = Some t \<and> now - t < int (interval k)")
    case True
    then have "?M = ?L" by (auto simp: m logDdsEventThrottled_def)
    then show ?thesis using kept subseq_append[of kept calls "[c]"] by auto
  next
    case False
    then have M: "dl_lines ?M = dl_lines ?L @ [l]" "dl_throttle ?M = qm_insert k now (dl_throttle ?L)"
      by (auto simp: m logDdsEventThrottled_def logDdsEvent_def split: option.splits)
    have sp: "spaced interval a c" if a: "a \<in> set kept" for a
    proof -
      obtain n k' l' where "a = (n, k', l')" by (metis prod_cases3)
      with a kept(4) False show ?thesis by (fastforce simp: spaced_def c throttle_state_def)
    qed
    moreover have "throttle_state (kept @ [c]) (qm_insert k now (dl_throttle ?L))"
      using kept(4) sp by (fastforce simp: throttle_state_def c spaced_def)
    moreover have "subseq (kept @ [c]) (calls @ [c])" using kept(1) by simp
    ultimately show ?thesis using kept M
      by (intro exI[of _ "kept @ [c]"]) (auto simp: sorted_wrt_append c)
  qed
qed

text \<open>
  Throttling: the lines written are those of some of the calls, in their order, and between two lines of one key passes at least the interval of
  the key, whatever the readings of the clock are.
\<close>
theorem throttled_lines_spaced:
  "\<exists>kept. subseq kept calls \<and> dl_lines (log_calls interval calls \<lparr>dl_throttle = [], dl_lines = []\<rparr>) = map (snd \<circ> snd) kept \<and>
     sorted_wrt (spaced interval) kept"
  using throttle_kept[of calls interval] by blast

section \<open>Log files\<close>

text \<open>
  The directory of the logs (whether it exists, the files with their times and lines) and the time of the last purge.  The environment
  has the texts of a date, whether the directory can be made and a file opened, and which files can be removed.
\<close>

record log_dir =
  ld_exists :: bool
  ld_files :: "(string, int \<times> string list) qmap"
  ld_lastPurge :: int

record log_env =
  le_hour :: "int \<Rightarrow> string"
  le_stamp :: "int \<Rightarrow> string"
  le_mkpath :: bool
  le_opens :: bool
  le_removes :: "string \<Rightarrow> bool"

definition hourlyLogFilePath :: "log_env \<Rightarrow> int \<Rightarrow> string \<Rightarrow> string" where
  "hourlyLogFilePath E now filePrefix = filePrefix @ le_hour E now @ ''.log''"

definition appendLine :: "log_env \<Rightarrow> int \<Rightarrow> string \<Rightarrow> string \<Rightarrow> log_dir \<Rightarrow> log_dir" where
  "appendLine E now filePrefix content D =
     (let D1 = D\<lparr>ld_exists := ld_exists D \<or> le_mkpath E\<rparr>; name = hourlyLogFilePath E now filePrefix in
      if \<not> ld_exists D1 \<or> \<not> le_opens E then D1
      else D1\<lparr>ld_files := qm_insert name (now, snd (qm_value (ld_files D1) name (0, [])) @ [le_stamp E now @ '' '' @ content]) (ld_files D1)\<rparr>)"

text \<open>The names that the filter \<open>*.log\<close> lists: letters of either case, no hidden files.\<close>

definition log_name :: "string \<Rightarrow> bool" where
  "log_name n = (4 \<le> length n \<and> hd n \<noteq> CHR ''.'' \<and>
     list_all2 (\<lambda>c cs. c \<in> set cs) (drop (length n - 4) n) [''.'', ''lL'', ''oO'', ''gG''])"

definition purgeOldLogsIfNeeded :: "log_env \<Rightarrow> int \<Rightarrow> int \<Rightarrow> log_dir \<Rightarrow> log_dir" where
  "purgeOldLogsIfNeeded E nowMs maxAgeMs D =
     (if 0 < ld_lastPurge D \<and> nowMs - ld_lastPurge D < 600000 then D
      else let D1 = D\<lparr>ld_lastPurge := nowMs\<rparr> in
        if \<not> ld_exists D1 then D1
        else let cutoff = nowMs - maxAgeMs in
          D1\<lparr>ld_files := filter (\<lambda>(n, t, ls). \<not> (log_name n \<and> t < cutoff \<and> le_removes E n)) (ld_files D1)\<rparr>)"

definition log_line :: "string \<Rightarrow> log_env \<Rightarrow> int \<Rightarrow> string \<Rightarrow> log_dir \<Rightarrow> log_dir" where
  "log_line filePrefix E now content D = purgeOldLogsIfNeeded E now 3600000 (appendLine E now filePrefix content D)"

definition logNewAlarmTrack :: "log_env \<Rightarrow> int \<Rightarrow> string \<Rightarrow> log_dir \<Rightarrow> log_dir" where
  "logNewAlarmTrack = log_line ''alarm_track_''"

definition logAlarmEventDds :: "log_env \<Rightarrow> int \<Rightarrow> string \<Rightarrow> log_dir \<Rightarrow> log_dir" where
  "logAlarmEventDds = log_line ''alarm_event_dds_''"

definition logGrpcAlarmSnapshot :: "log_env \<Rightarrow> int \<Rightarrow> string \<Rightarrow> log_dir \<Rightarrow> log_dir" where
  "logGrpcAlarmSnapshot = log_line ''alarm_grpc_''"

definition log_dir_ok :: "log_dir \<Rightarrow> bool" where
  "log_dir_ok D \<longleftrightarrow> qm_ok (ld_files D) \<and> (ld_exists D \<or> ld_files D = [])"

lemma log_dir_ok_line: "log_dir_ok D \<Longrightarrow> log_dir_ok (log_line pre E now line D)"
  by (auto simp: log_dir_ok_def log_line_def purgeOldLogsIfNeeded_def appendLine_def Let_def qm_ok_insert qm_ok_filter)

text \<open>Everything listed was written after the last purge but one hour.\<close>

definition purged :: "int \<Rightarrow> log_dir \<Rightarrow> bool" where
  "purged now D \<longleftrightarrow> 0 < ld_lastPurge D \<and> ld_lastPurge D \<le> now \<and> now - ld_lastPurge D < 600000 \<and>
     (\<forall>n t ls. (n, t, ls) \<in> set (ld_files D) \<longrightarrow> log_name n \<longrightarrow> ld_lastPurge D - 3600000 \<le> t)"

lemma set_qm_insert: "set (qm_insert k v m) \<subseteq> insert (k, v) (set m)"
  by (induction m) (auto split: if_splits)

lemma purged_line:
  assumes "0 < now" and "\<And>n. le_removes E n" and "log_dir_ok D"
    and "ld_lastPurge D = 0 \<or> (purged before D \<and> before \<le> now)"
  shows "purged now (log_line pre E now line D)"
proof -
  let ?D = "appendLine E now pre line D"
  have f: "t = now \<or> (n, t, ls) \<in> set (ld_files D)" if "(n, t, ls) \<in> set (ld_files ?D)" for n t ls
    using that by (auto simp: appendLine_def Let_def split: if_splits dest!: set_qm_insert[THEN subsetD])
  have l: "ld_lastPurge ?D = ld_lastPurge D" and e: "ld_exists ?D \<or> ld_files ?D = []"
    using assms(3) by (auto simp: appendLine_def Let_def log_dir_ok_def)
  show ?thesis
  proof (cases "0 < ld_lastPurge ?D \<and> now - ld_lastPurge ?D < 600000")
    case True
    then have old: "purged before D" "before \<le> now" using assms(4) l by auto
    have "ld_lastPurge D - 3600000 \<le> t" if "(n, t, ls) \<in> set (ld_files ?D)" "log_name n" for n t ls
      using f[OF that(1)] that(2) True old l by (auto simp: purged_def)
    then show ?thesis using True l old by (auto simp: log_line_def purgeOldLogsIfNeeded_def purged_def)
  next
    case False
    then show ?thesis using assms(1,2) e by (auto simp: log_line_def purgeOldLogsIfNeeded_def purged_def Let_def)
  qed
qed

lemma map_of_filter_keep: "map_of m k = Some v \<Longrightarrow> P (k, v) \<Longrightarrow> map_of (filter P m) k = Some v"
  by (induction m) (auto split: if_splits)

lemma logged_line_kept:
  assumes "le_mkpath E" and "le_opens E"
  shows "\<exists>ls. map_of (ld_files (log_line pre E now line D)) (hourlyLogFilePath E now pre) = Some (now, ls @ [le_stamp E now @ '' '' @ line])"
proof -
  let ?D = "appendLine E now pre line D"
  obtain ls where a: "map_of (ld_files ?D) (hourlyLogFilePath E now pre) = Some (now, ls @ [le_stamp E now @ '' '' @ line])"
    using assms by (simp add: appendLine_def Let_def)
  show ?thesis
    by (rule exI[of _ ls]) (simp add: log_line_def purgeOldLogsIfNeeded_def Let_def a map_of_filter_keep)
qed

definition log_run :: "log_env \<Rightarrow> (string \<times> int \<times> string) list \<Rightarrow> log_dir \<Rightarrow> log_dir" where
  "log_run E calls D = fold (\<lambda>(pre, now, line). log_line pre E now line) calls D"

lemma log_run_purged:
  assumes "log_dir_ok D" and "ld_lastPurge D = 0" and "\<And>n. le_removes E n"
  shows "\<lbrakk>list_all (\<lambda>c. 0 < fst (snd c)) calls; sorted (map (\<lambda>c. fst (snd c)) calls); calls \<noteq> []\<rbrakk> \<Longrightarrow>
    log_dir_ok (log_run E calls D) \<and> purged (fst (snd (last calls))) (log_run E calls D)"
proof (induction calls rule: rev_induct)
  case (snoc c calls)
  obtain pre now line where c: "c = (pre, now, line)" by (metis prod_cases3)
  have r: "log_run E (calls @ [c]) D = log_line pre E now line (log_run E calls D)" by (simp add: log_run_def c)
  show ?case
  proof (cases "calls = []")
    case True
    then show ?thesis using purged_line[OF _ assms(3,1), of now 0] log_dir_ok_line[OF assms(1)] snoc.prems assms(2)
      by (simp add: log_run_def c)
  next
    case False
    with snoc have "log_dir_ok (log_run E calls D)" "purged (fst (snd (last calls))) (log_run E calls D)"
      "fst (snd (last calls)) \<le> now" "0 < now" by (auto simp: sorted_append c)
    then show ?thesis using purged_line[OF _ assms(3), where before = "fst (snd (last calls))"] log_dir_ok_line by (simp add: r[unfolded c] c)
  qed
qed simp

text \<open>
  The log files stay young: when the clock does not go back and files can be removed, after any number of log lines every \<open>.log\<close> file
  in the directory was written within the last seventy minutes (an hour of retention and ten minutes between purges), and the line
  written last is at the end of the file of its hour.
\<close>
theorem log_files_young:
  assumes "log_dir_ok D" and "ld_lastPurge D = 0" and "\<And>n. le_removes E n"
    and "list_all (\<lambda>c. 0 < fst (snd c)) (calls @ [(pre, now, line)])"
    and "sorted (map (\<lambda>c. fst (snd c)) (calls @ [(pre, now, line)]))"
  shows "(n, t, ls) \<in> set (ld_files (log_run E (calls @ [(pre, now, line)]) D)) \<Longrightarrow> log_name n \<Longrightarrow> now - 4200000 < t"
    and "le_mkpath E \<Longrightarrow> le_opens E \<Longrightarrow>
      \<exists>ls. map_of (ld_files (log_run E (calls @ [(pre, now, line)]) D)) (hourlyLogFilePath E now pre) =
        Some (now, ls @ [le_stamp E now @ '' '' @ line])"
proof -
  let ?D = "log_run E (calls @ [(pre, now, line)]) D"
  show "now - 4200000 < t" if "(n, t, ls) \<in> set (ld_files ?D)" "log_name n"
    using log_run_purged[OF assms] that by (force simp: purged_def)
  show "\<exists>ls. map_of (ld_files ?D) (hourlyLogFilePath E now pre) = Some (now, ls @ [le_stamp E now @ '' '' @ line])"
    if "le_mkpath E" "le_opens E"
    using that logged_line_kept[of E pre now line "log_run E calls D"] by (simp add: log_run_def)
qed

definition sample_log_env :: log_env where
  "sample_log_env = \<lparr>le_hour = (\<lambda>now. if now < 3600000 then ''0'' else ''2''), le_stamp = (\<lambda>_. ''02:00''), le_mkpath = True, le_opens = True,
     le_removes = (\<lambda>_. True)\<rparr>"

definition old_logs :: log_dir where
  "old_logs = \<lparr>ld_exists = True, ld_files = [(''alarm_grpc_0.log'', 1000, [''x''])], ld_lastPurge = 0\<rparr>"

theorem log_files_young_witness:
  "(\<exists>ls. map_of (ld_files (log_run sample_log_env ([] @ [(''alarm_grpc_'', 7200000, ''hello'')]) old_logs)) ''alarm_grpc_2.log'' =
     Some (7200000, ls @ [''02:00 hello''])) \<and>
   (''alarm_grpc_0.log'', 1000, [''x'']) \<notin> set (ld_files (log_run sample_log_env ([] @ [(''alarm_grpc_'', 7200000, ''hello'')]) old_logs))"
proof -
  have ok: "log_dir_ok old_logs" "ld_lastPurge old_logs = 0" by (simp_all add: old_logs_def log_dir_ok_def qm_ok_def)
  have rm: "le_removes sample_log_env n" for n by (simp add: sample_log_env_def)
  have path: "hourlyLogFilePath sample_log_env 7200000 ''alarm_grpc_'' = ''alarm_grpc_2.log''"
    by (simp add: hourlyLogFilePath_def sample_log_env_def)
  have stamp: "le_stamp sample_log_env 7200000 @ '' '' @ ''hello'' = ''02:00 hello''"
    by (simp add: sample_log_env_def)
  have op: "le_mkpath sample_log_env" "le_opens sample_log_env" by (simp_all add: sample_log_env_def)
  have n: "log_name ''alarm_grpc_0.log''" by code_simp
  note y = log_files_young[OF ok rm, of "[]" "''alarm_grpc_''" 7200000 "''hello''"]
  show ?thesis
    using y(2)[OF _ _ op] y(1)[OF _ _ _ n, of 1000 "[''x'']"] unfolding path stamp by auto
qed

text \<open>An alarm that has ended: it was sent once, then a pass with empty tables hands over an event without alarms.\<close>

theorem ended_alarms_linger_witness:
  "\<exists>(p :: AlarmInfo publisher) info. sent_by (pub_run ([Handed \<lparr>ev_eventId = ''a'', ev_alarm = [info]\<rparr>, Matched 1 1, Turn good_turn] @
       Handed \<lparr>ev_eventId = ''b'', ev_alarm = []\<rparr> # [Turn good_turn, Turn good_turn]) p) = [Periodic \<lparr>ev_eventId = ''a'', ev_alarm = [info]\<rparr>]"
proof -
  define info where "info = manual_info [] False 0 (sample_alarm ''a'' 1 10)"
  obtain p :: "AlarmInfo publisher" where p: "newAlarmPublisher sample_cfg (\<lambda>_. VInvalid) (\<lambda>_. True) 7 0 = Inr p"
    by (simp add: newAlarmPublisher_def)
  have send: "fst (SendAllAlarmEventMsg sample_publish 0 empty_state) = Some []"
    "mapAlarmData (synced_state sample_publish 0 empty_state) = []" "manualAlarmData (synced_state sample_publish 0 empty_state) = []"
    by code_simp+
  have "sent_by (pub_run [Handed \<lparr>ev_eventId = ''a'', ev_alarm = [info]\<rparr>, Matched 1 1] p) = []"
    by (simp add: pub_run_def on_publication_matched_def Let_def)
  then have "sent_by (pub_run [Handed \<lparr>ev_eventId = ''a'', ev_alarm = [info]\<rparr>, Matched 1 1, Turn good_turn] p) =
      [Periodic \<lparr>ev_eventId = ''a'', ev_alarm = [info]\<rparr>]"
    using samples_exact_step[OF p, of "[Handed \<lparr>ev_eventId = ''a'', ev_alarm = [info]\<rparr>, Matched 1 1]" "Turn good_turn"]
    by (simp add: subscribers_def held_event_def)
  moreover from send(1) obtain s' ops where "SendAllAlarmEventMsg sample_publish 0 empty_state = (Some [], s', ops)"
    by (metis prod.collapse)
  ultimately show ?thesis
    using ended_alarms_linger[OF p _ send(2,3), of "[]" s' ops "[Turn good_turn, Turn good_turn]"
        "[Handed \<lparr>ev_eventId = ''a'', ev_alarm = [info]\<rparr>, Matched 1 1, Turn good_turn]" "''b''"] by (intro exI[of _ p] exI[of _ info]) auto
qed

end
