(* ===== verification/Alarm_Record.thy ===== *)
theory Alarm_Record
  imports Alarm_Store
begin

text \<open>
  What the program writes to the database (\<open>db/DataAccessLayer.cpp\<close>): the tables \<open>alarm_data\<close> and \<open>system_evaluation_data\<close>.  The
  components that write record a \<open>db_op\<close>; here each operation is its SQL statement on the tables.  A statement can fail
  (\<open>executeNonQuery\<close> returns false), which the callers ignore.
\<close>

section \<open>Tables and statements\<close>

text \<open>
  A row of \<open>alarm_data\<close>; the two time columns hold the time the text of the alarm parses to.
\<close>

record alarm_row =
  ro_alarm_id :: string
  ro_condition_id :: string
  ro_mode_id :: int
  ro_track_id :: int
  ro_targettype :: int
  ro_targetbehavior :: int
  ro_targetdist :: real
  ro_targetlon :: real
  ro_targetlat :: real
  ro_targetspeed :: real
  ro_targetdir :: real
  ro_time :: int
  ro_alarm_status :: int
  ro_origintime :: int
  ro_unique_id :: int
  ro_threat_score :: int

record eval_row =
  ev_unique_id :: int
  ev_threat_time :: int
  ev_alarm_time :: "int option"

record alarm_tables =
  tb_alarm_data :: "alarm_row list"
  tb_evaluation :: "(string, eval_row) umap"

definition insert_values :: "AlarmData \<Rightarrow> alarm_row" where
  "insert_values d = \<lparr>ro_alarm_id = alarm_id d, ro_condition_id = condition_id d, ro_mode_id = mode_id d, ro_track_id = track_id d,
     ro_targettype = targettype d, ro_targetbehavior = targetbehavior d, ro_targetdist = targetdist d, ro_targetlon = targetlon d,
     ro_targetlat = targetlat d, ro_targetspeed = targetspeed d, ro_targetdir = targetdir d, ro_time = alarm_time d,
     ro_alarm_status = alarm_status d, ro_origintime = origintime d, ro_unique_id = unique_id d, ro_threat_score = threatScore d\<rparr>"

definition update_values :: "AlarmData \<Rightarrow> alarm_row \<Rightarrow> alarm_row" where
  "update_values d r = r\<lparr>ro_targetdist := targetdist d, ro_targetlat := targetlat d, ro_targetlon := targetlon d,
     ro_targetspeed := targetspeed d, ro_targetdir := targetdir d, ro_time := alarm_time d, ro_origintime := origintime d,
     ro_alarm_status := alarm_status d, ro_threat_score := threatScore d, ro_unique_id := unique_id d\<rparr>"

text \<open>\<open>updateAlarmStatus\<close> and \<open>updateAlarmData\<close>: every row with the id, none when there is none.\<close>

definition updateAlarmStatus :: "bool \<Rightarrow> string \<Rightarrow> int \<Rightarrow> alarm_tables \<Rightarrow> bool \<times> alarm_tables" where
  "updateAlarmStatus ok i st D =
     (ok, if ok then D\<lparr>tb_alarm_data := map (\<lambda>r. if ro_alarm_id r = i then r\<lparr>ro_alarm_status := st\<rparr> else r) (tb_alarm_data D)\<rparr> else D)"

definition updateAlarmData :: "bool \<Rightarrow> string \<Rightarrow> AlarmData \<Rightarrow> alarm_tables \<Rightarrow> bool \<times> alarm_tables" where
  "updateAlarmData ok i d D =
     (ok, if ok then D\<lparr>tb_alarm_data := map (\<lambda>r. if ro_alarm_id r = i then update_values d r else r) (tb_alarm_data D)\<rparr> else D)"

text \<open>\<open>INSERT ... ON CONFLICT (alarm_id) DO NOTHING\<close>.\<close>

definition saveSystemEvaluationThreatOnce :: "bool \<Rightarrow> AlarmData \<Rightarrow> alarm_tables \<Rightarrow> alarm_tables" where
  "saveSystemEvaluationThreatOnce ok d D =
     (if ok \<and> map_of (tb_evaluation D) (alarm_id d) = None
      then D\<lparr>tb_evaluation := um_insert (alarm_id d)
               \<lparr>ev_unique_id = unique_id d, ev_threat_time = threat_time_ms d, ev_alarm_time = None\<rparr> (tb_evaluation D)\<rparr>
      else D)"

text \<open>\<open>INSERT ... ON CONFLICT (alarm_id) DO UPDATE SET alarm_time = ... WHERE alarm_time IS NULL\<close>.\<close>

definition setSystemEvaluationAlarmTimeOnce :: "bool \<Rightarrow> string \<Rightarrow> int \<Rightarrow> int \<Rightarrow> int \<Rightarrow> alarm_tables \<Rightarrow> bool \<times> alarm_tables" where
  "setSystemEvaluationAlarmTimeOnce ok i uid threatTimeMs alarmTimeMs D =
     (let threatMs = (if threatTimeMs > 0 then threatTimeMs else alarmTimeMs) in
      (ok, if \<not> ok then D
           else case map_of (tb_evaluation D) i of
             None \<Rightarrow> D\<lparr>tb_evaluation := um_insert i
                        \<lparr>ev_unique_id = uid, ev_threat_time = threatMs, ev_alarm_time = Some alarmTimeMs\<rparr> (tb_evaluation D)\<rparr>
           | Some r \<Rightarrow> (if ev_alarm_time r = None
                       then D\<lparr>tb_evaluation := um_insert i (r\<lparr>ev_alarm_time := Some alarmTimeMs\<rparr>) (tb_evaluation D)\<rparr> else D)))"

text \<open>\<open>addAlarmData\<close> writes the evaluation row first, whether or not the alarm can be inserted.\<close>

definition addAlarmData :: "bool \<Rightarrow> bool \<Rightarrow> AlarmData \<Rightarrow> alarm_tables \<Rightarrow> alarm_tables" where
  "addAlarmData okEval okData d D =
     (let D1 = saveSystemEvaluationThreatOnce okEval d D in
      if okData then D1\<lparr>tb_alarm_data := tb_alarm_data D1 @ [insert_values d]\<rparr> else D1)"

text \<open>A recorded operation with the success of its statements.\<close>

fun exec_op :: "bool \<times> bool \<times> db_op \<Rightarrow> alarm_tables \<Rightarrow> alarm_tables" where
  "exec_op (ok1, ok2, DbInsert d) D = addAlarmData ok1 ok2 d D"
| "exec_op (ok1, ok2, DbUpdate d) D = snd (updateAlarmData ok1 (alarm_id d) d D)"
| "exec_op (ok1, ok2, DbEvaluation i uid threatMs alarmMs) D = snd (setSystemEvaluationAlarmTimeOnce ok1 i uid threatMs alarmMs D)"

section \<open>The evaluation times are written once\<close>

definition eval_le :: "eval_row \<Rightarrow> eval_row \<Rightarrow> bool" where
  "eval_le r r' \<longleftrightarrow> ev_unique_id r' = ev_unique_id r \<and> ev_threat_time r' = ev_threat_time r \<and>
     (ev_alarm_time r \<noteq> None \<longrightarrow> ev_alarm_time r' = ev_alarm_time r)"

lemma exec_op_eval:
  assumes "map_of (tb_evaluation D) i = Some r"
  shows "\<exists>r'. map_of (tb_evaluation (exec_op x D)) i = Some r' \<and> eval_le r r'"
proof -
  obtain ok1 ok2 oper where x: "x = (ok1, ok2, oper)" by (cases x)
  show ?thesis using assms unfolding x
    by (cases oper) (auto simp: addAlarmData_def saveSystemEvaluationThreatOnce_def updateAlarmData_def
      setSystemEvaluationAlarmTimeOnce_def eval_le_def Let_def split: option.splits)
qed

lemma exec_ops_eval:
  assumes "map_of (tb_evaluation D) i = Some r"
  shows "\<exists>r'. map_of (tb_evaluation (fold exec_op xs D)) i = Some r' \<and> eval_le r r'"
  using assms
proof (induction xs arbitrary: D r)
  case (Cons x xs)
  obtain r1 where r1: "map_of (tb_evaluation (exec_op x D)) i = Some r1" "eval_le r r1"
    using exec_op_eval[OF Cons.prems, of x] by blast
  obtain r2 where "map_of (tb_evaluation (fold exec_op xs (exec_op x D))) i = Some r2" "eval_le r1 r2"
    using Cons.IH[OF r1(1)] by blast
  then show ?case using r1(2) by (auto simp: eval_le_def)
qed (simp add: eval_le_def)

text \<open>
  The times of the evaluation chain are written once: after a successful resolution of an alarm its row has that target and
  time, or the earlier time already there, and through all later operations, failing or not, neither the threat time nor the
  resolution time changes.
\<close>
theorem evaluation_times_fixed:
  "\<exists>r r'. map_of (tb_evaluation (exec_op (True, ok, DbEvaluation i uid threatMs alarmMs) D)) i = Some r \<and>
     ev_alarm_time r = (case map_of (tb_evaluation D) i of
        Some r0 \<Rightarrow> (case ev_alarm_time r0 of Some t \<Rightarrow> Some t | None \<Rightarrow> Some alarmMs) | None \<Rightarrow> Some alarmMs) \<and>
     ev_threat_time r = (case map_of (tb_evaluation D) i of
        Some r0 \<Rightarrow> ev_threat_time r0 | None \<Rightarrow> if threatMs > 0 then threatMs else alarmMs) \<and>
     map_of (tb_evaluation (fold exec_op xs (exec_op (True, ok, DbEvaluation i uid threatMs alarmMs) D))) i = Some r' \<and>
     ev_alarm_time r' = ev_alarm_time r \<and> ev_threat_time r' = ev_threat_time r"
proof -
  let ?D = "exec_op (True, ok, DbEvaluation i uid threatMs alarmMs) D"
  have "\<exists>r. map_of (tb_evaluation ?D) i = Some r \<and>
    ev_alarm_time r = (case map_of (tb_evaluation D) i of
        Some r0 \<Rightarrow> (case ev_alarm_time r0 of Some t \<Rightarrow> Some t | None \<Rightarrow> Some alarmMs) | None \<Rightarrow> Some alarmMs) \<and>
    ev_threat_time r = (case map_of (tb_evaluation D) i of
        Some r0 \<Rightarrow> ev_threat_time r0 | None \<Rightarrow> if threatMs > 0 then threatMs else alarmMs)"
    by (simp add: setSystemEvaluationAlarmTimeOnce_def Let_def split: option.split)
  then obtain r where r: "map_of (tb_evaluation ?D) i = Some r"
    "ev_alarm_time r = (case map_of (tb_evaluation D) i of
        Some r0 \<Rightarrow> (case ev_alarm_time r0 of Some t \<Rightarrow> Some t | None \<Rightarrow> Some alarmMs) | None \<Rightarrow> Some alarmMs)"
    "ev_threat_time r = (case map_of (tb_evaluation D) i of
        Some r0 \<Rightarrow> ev_threat_time r0 | None \<Rightarrow> if threatMs > 0 then threatMs else alarmMs)" by blast
  moreover have "ev_alarm_time r \<noteq> None" using r(2) by (auto split: option.splits)
  moreover obtain r' where "map_of (tb_evaluation (fold exec_op xs ?D)) i = Some r'" "eval_le r r'"
    using exec_ops_eval[OF r(1)] by blast
  ultimately show ?thesis by (auto simp: eval_le_def)
qed

section \<open>The table of alarms follows the memory\<close>



























end
