(* ===== verification/Pool_Contract.thy ===== *)
theory Pool_Contract
  imports Alarm_Prelude
begin

text \<open>
  What the program relies on when it takes a connection from a pool: the contract of \<open>getConnection\<close> and \<open>releaseConnection\<close>, which both the
  libpq pool (\<open>PgConnectionPool\<close>) and the pool of the Qt driver (\<open>DbConnectionPool\<close>) are shown to keep.  \<open>busy\<close> are the connections
  given out and not yet given back.
\<close>

locale connection_pool =
  fixes ok :: "'p \<Rightarrow> bool"
    and busy :: "'p \<Rightarrow> 'c set"
    and take_conn :: "'p \<Rightarrow> 'c option \<times> 'p"
    and give_back :: "'c \<Rightarrow> 'p \<Rightarrow> 'p"
  assumes taken: "ok P \<Longrightarrow> take_conn P = (Some c, P') \<Longrightarrow> ok P' \<and> c \<notin> busy P \<and> busy P' = insert c (busy P)"
    and refused: "ok P \<Longrightarrow> take_conn P = (None, P') \<Longrightarrow> ok P' \<and> busy P' = busy P"
    and given: "ok P \<Longrightarrow> ok (give_back c P) \<and> busy (give_back c P) = busy P - {c}"
begin

text \<open>A connection taken and given back leaves the pool as busy as it was.\<close>

lemma bracket:
  assumes "ok P" "take_conn P = (Some c, P')"
  shows "ok (give_back c P') \<and> busy (give_back c P') = busy P"
  using taken[OF assms] given[of P' c] by auto

text \<open>While one holder keeps its connection nobody else gets it.\<close>

lemma exclusive:
  assumes "ok P" "take_conn P = (Some c, P')" "ok Q" "busy P' \<subseteq> busy Q" "take_conn Q = (Some d, Q')"
  shows "c \<noteq> d"
  using taken[OF assms(1,2)] taken[OF assms(3,5)] assms(4) by auto

text \<open>A holder that takes a second connection meanwhile gets another one, and giving both back in any order restores the pool.\<close>

lemma nested:
  assumes "ok P" "take_conn P = (Some c, P')" "take_conn P' = (Some d, Q)"
  shows "c \<noteq> d \<and> busy (give_back c (give_back d Q)) = busy P \<and> busy (give_back d (give_back c Q)) = busy P"
proof -
  note a = taken[OF assms(1,2)]
  note b = taken[OF a[THEN conjunct1] assms(3)]
  show ?thesis using a b given[of Q c] given[of Q d] given[of "give_back d Q" c] given[of "give_back c Q" d] by auto
qed

end

end
