(* ===== verification/Pg_Pool.thy ===== *)
theory Pg_Pool
  imports Pool_Contract
begin

text \<open>
  The connection pool of the libpq access (\<open>db/postgres/PgConnectionPool.cpp\<close>).  Every operation takes the pool's mutex, so each is one
  step on the pool; \<open>getConnection\<close> gives the mutex up while it waits and is two steps.  What the server does is a parameter of the step.
\<close>

section \<open>The pool\<close>

text \<open>
  A \<open>PGconn*\<close> is a number.  \<open>pl_open\<close> lists the connection objects that exist: \<open>PQconnectdb\<close> makes one, \<open>PQfinish\<close> ends it.
  Times are milliseconds.
\<close>

record pooled =
  pc_connection :: nat
  pc_inUse :: bool
  pc_lastUsed :: int

record pool =
  pl_connections :: "pooled list"
  pl_max :: int
  pl_min :: int
  pl_running :: bool
  pl_open :: "nat list"
  pl_next :: nat

definition empty_pool :: pool where
  "empty_pool = \<lparr>pl_connections = [], pl_max = 50, pl_min = 1, pl_running = False, pl_open = [], pl_next = 0\<rparr>"

text \<open>
  \<open>sv_connect\<close>: \<open>PQconnectdb\<close> gives a connection; \<open>sv_valid c\<close>: its status is good and \<open>SELECT 1\<close> answers
  (\<open>isConnectionValid\<close>); \<open>sv_reset c\<close>: its status is good after \<open>PQreset\<close> (\<open>reopenConnection\<close>).
\<close>

record server =
  sv_connect :: bool
  sv_valid :: "nat \<Rightarrow> bool"
  sv_reset :: "nat \<Rightarrow> bool"

definition usable :: "server \<Rightarrow> nat \<Rightarrow> bool" where
  "usable S c \<longleftrightarrow> sv_valid S c \<or> sv_reset S c"

definition createConnection :: "server \<Rightarrow> int \<Rightarrow> pool \<Rightarrow> pooled option \<times> pool" where
  "createConnection S now P =
     (if sv_connect S
      then (Some \<lparr>pc_connection = pl_next P, pc_inUse = False, pc_lastUsed = now\<rparr>,
            P\<lparr>pl_open := pl_open P @ [pl_next P], pl_next := Suc (pl_next P)\<rparr>)
      else (None, P))"

definition add_connection :: "pooled \<Rightarrow> pool \<Rightarrow> pool" where
  "add_connection c P = P\<lparr>pl_connections := pl_connections P @ [c]\<rparr>"

definition initializePool :: "server \<Rightarrow> int \<Rightarrow> int \<Rightarrow> int \<Rightarrow> pool \<Rightarrow> bool \<times> pool" where
  "initializePool S now maxConnections minConnections P =
     (case createConnection S now (P\<lparr>pl_max := maxConnections, pl_min := minConnections\<rparr>) of
        (Some c, P1) \<Rightarrow> (True, (add_connection c P1)\<lparr>pl_running := True\<rparr>)
      | (None, P1) \<Rightarrow> (False, P1))"

text \<open>The scan for an idle connection that is valid or can be reset; it is taken into use.\<close>

fun claim :: "server \<Rightarrow> int \<Rightarrow> pooled list \<Rightarrow> (nat \<times> pooled list) option" where
  "claim S now [] = None"
| "claim S now (c # cs) =
     (if \<not> pc_inUse c \<and> usable S (pc_connection c)
      then Some (pc_connection c, c\<lparr>pc_inUse := True, pc_lastUsed := now\<rparr> # cs)
      else case claim S now cs of Some (x, cs') \<Rightarrow> Some (x, c # cs') | None \<Rightarrow> None)"

text \<open>\<open>getConnection\<close> up to the wait (\<open>None\<close>: it waits), and after it on the pool it then finds.\<close>

definition get_now :: "server \<Rightarrow> int \<Rightarrow> pool \<Rightarrow> nat option \<times> pool" where
  "get_now S now P =
     (case claim S now (pl_connections P) of
        Some (x, cs) \<Rightarrow> (Some x, P\<lparr>pl_connections := cs\<rparr>)
      | None \<Rightarrow>
          if int (length (pl_connections P)) < pl_max P
          then (case createConnection S now P of
                  (Some c, P1) \<Rightarrow> (Some (pc_connection c), add_connection (c\<lparr>pc_inUse := True\<rparr>) P1)
                | (None, P1) \<Rightarrow> (None, P1))
          else (None, P))"

text \<open>The wait ends at once when the pool has an idle connection, usable or not.\<close>

definition wait_over :: "pool \<Rightarrow> bool" where
  "wait_over P \<longleftrightarrow> (\<exists>c \<in> set (pl_connections P). \<not> pc_inUse c)"

definition get_after_wait :: "server \<Rightarrow> int \<Rightarrow> pool \<Rightarrow> nat option \<times> pool" where
  "get_after_wait S now P =
     (if wait_over P
      then (case claim S now (pl_connections P) of Some (x, cs) \<Rightarrow> (Some x, P\<lparr>pl_connections := cs\<rparr>) | None \<Rightarrow> (None, P))
      else (None, P))"

fun mark_free :: "int \<Rightarrow> nat \<Rightarrow> pooled list \<Rightarrow> pooled list" where
  "mark_free now x [] = []"
| "mark_free now x (c # cs) =
     (if pc_connection c = x then c\<lparr>pc_inUse := False, pc_lastUsed := now\<rparr> # cs else c # mark_free now x cs)"

definition releaseConnection :: "int \<Rightarrow> nat option \<Rightarrow> pool \<Rightarrow> pool" where
  "releaseConnection now x P =
     (case x of None \<Rightarrow> P | Some c \<Rightarrow> P\<lparr>pl_connections := mark_free now c (pl_connections P)\<rparr>)"

definition closeAllConnections :: "pool \<Rightarrow> pool" where
  "closeAllConnections P =
     P\<lparr>pl_connections := [], pl_open := filter (\<lambda>x. x \<notin> pc_connection ` set (pl_connections P)) (pl_open P)\<rparr>"

text \<open>One round of the check thread: each of the two parts takes the mutex on its own.\<close>

definition idle_too_long :: "int \<Rightarrow> pooled \<Rightarrow> bool" where
  "idle_too_long now c \<longleftrightarrow> \<not> pc_inUse c \<and> (now - pc_lastUsed c) div 1000 > 3000"

definition removeStaleConnections :: "int \<Rightarrow> pool \<Rightarrow> pool" where
  "removeStaleConnections now P =
     P\<lparr>pl_connections := filter (\<lambda>c. \<not> idle_too_long now c) (pl_connections P),
       pl_open := filter (\<lambda>x. x \<notin> pc_connection ` set (filter (idle_too_long now) (pl_connections P))) (pl_open P)\<rparr>"

fun add_missing :: "server \<Rightarrow> int \<Rightarrow> nat \<Rightarrow> pool \<Rightarrow> pool" where
  "add_missing S now 0 P = P"
| "add_missing S now (Suc n) P =
     (case createConnection S now P of
        (Some c, P1) \<Rightarrow> add_missing S now n (add_connection c P1)
      | (None, P1) \<Rightarrow> P1)"

definition ensureMinConnections :: "server \<Rightarrow> int \<Rightarrow> pool \<Rightarrow> pool" where
  "ensureMinConnections S now P = add_missing S now (nat (pl_min P - int (length (pl_connections P)))) P"

definition check_round :: "server \<Rightarrow> int \<Rightarrow> pool \<Rightarrow> pool" where
  "check_round S now P = (if pl_running P then ensureMinConnections S now (removeStaleConnections now P) else P)"

record pool_stats =
  ps_total :: nat
  ps_active :: nat
  ps_idle :: nat

definition getStats :: "pool \<Rightarrow> pool_stats" where
  "getStats P = \<lparr>ps_total = length (pl_connections P), ps_active = length (filter pc_inUse (pl_connections P)),
     ps_idle = length (filter (\<lambda>c. \<not> pc_inUse c) (pl_connections P))\<rparr>"

section \<open>Threads that use the pool\<close>

text \<open>
  A system: the pool, the connections each thread holds and the threads that wait.  Any thread may ask for or give back a connection
  at any time, and the check thread works in between.
\<close>

record pool_system =
  ys_pool :: pool
  ys_held :: "nat \<Rightarrow> nat list"
  ys_waiting :: "nat set"

inductive pool_step :: "pool_system \<Rightarrow> pool_system \<Rightarrow> bool" where
  step_get: "get_now S now (ys_pool y) = (Some x, P) \<Longrightarrow> t \<notin> ys_waiting y \<Longrightarrow>
    pool_step y (y\<lparr>ys_pool := P, ys_held := (ys_held y)(t := x # ys_held y t)\<rparr>)"
| step_wait: "get_now S now (ys_pool y) = (None, P) \<Longrightarrow> t \<notin> ys_waiting y \<Longrightarrow>
    pool_step y (y\<lparr>ys_pool := P, ys_waiting := insert t (ys_waiting y)\<rparr>)"
| step_wake: "get_after_wait S now (ys_pool y) = (Some x, P) \<Longrightarrow> t \<in> ys_waiting y \<Longrightarrow>
    pool_step y (y\<lparr>ys_pool := P, ys_held := (ys_held y)(t := x # ys_held y t), ys_waiting := ys_waiting y - {t}\<rparr>)"
| step_fail: "get_after_wait S now (ys_pool y) = (None, P) \<Longrightarrow> t \<in> ys_waiting y \<Longrightarrow>
    pool_step y (y\<lparr>ys_pool := P, ys_waiting := ys_waiting y - {t}\<rparr>)"
| step_release: "x \<in> set (ys_held y t) \<Longrightarrow>
    pool_step y (y\<lparr>ys_pool := releaseConnection now (Some x) (ys_pool y), ys_held := (ys_held y)(t := remove1 x (ys_held y t))\<rparr>)"
| step_stale: "pool_step y (y\<lparr>ys_pool := removeStaleConnections now (ys_pool y)\<rparr>)"
| step_ensure: "pool_step y (y\<lparr>ys_pool := ensureMinConnections S now (ys_pool y)\<rparr>)"

inductive pool_reach :: "pool \<Rightarrow> pool_system \<Rightarrow> bool" for P0 where
  reach_start: "pool_reach P0 \<lparr>ys_pool = P0, ys_held = (\<lambda>t. []), ys_waiting = {}\<rparr>"
| reach_step: "pool_reach P0 y \<Longrightarrow> pool_step y y' \<Longrightarrow> pool_reach P0 y'"

section \<open>The invariant\<close>

definition conn_pool_ok :: "pool \<Rightarrow> bool" where
  "conn_pool_ok P \<longleftrightarrow> distinct (map pc_connection (pl_connections P)) \<and>
     set (pl_open P) = pc_connection ` set (pl_connections P) \<and> (\<forall>x \<in> set (pl_open P). x < pl_next P) \<and>
     1 \<le> pl_max P \<and> pl_min P \<le> pl_max P \<and> int (length (pl_connections P)) \<le> pl_max P"

definition conns_in_use :: "pool \<Rightarrow> nat set" where
  "conns_in_use P = set (map pc_connection (filter pc_inUse (pl_connections P)))"

definition system_ok :: "pool_system \<Rightarrow> bool" where
  "system_ok y \<longleftrightarrow> conn_pool_ok (ys_pool y) \<and> (\<forall>t. distinct (ys_held y t)) \<and>
     (\<forall>t u. t \<noteq> u \<longrightarrow> set (ys_held y t) \<inter> set (ys_held y u) = {}) \<and>
     (\<Union>t. set (ys_held y t)) = conns_in_use (ys_pool y)"

lemma claim_Some:
  assumes "claim S now cs = Some (x, cs')"
  shows "\<exists>as c bs. cs = as @ c # bs \<and> cs' = as @ c\<lparr>pc_inUse := True, pc_lastUsed := now\<rparr> # bs \<and> \<not> pc_inUse c \<and>
     x = pc_connection c \<and> usable S x"
  using assms
proof (induction cs arbitrary: cs')
  case (Cons c cs)
  show ?case
  proof (cases "\<not> pc_inUse c \<and> usable S (pc_connection c)")
    case True
    then show ?thesis using Cons.prems by (intro exI[of _ "[]"]) auto
  next
    case False
    then obtain ds where "claim S now cs = Some (x, ds)" "cs' = c # ds" using Cons.prems by (auto split: option.splits)
    then obtain as d bs where "cs = as @ d # bs" "ds = as @ d\<lparr>pc_inUse := True, pc_lastUsed := now\<rparr> # bs" "\<not> pc_inUse d"
      "x = pc_connection d" "usable S x" using Cons.IH by blast
    then show ?thesis using \<open>cs' = c # ds\<close> by (intro exI[of _ "c # as"] exI[of _ d] exI[of _ bs]) simp
  qed
qed simp

lemma claim_None: "claim S now cs = None \<longleftrightarrow> (\<forall>c \<in> set cs. pc_inUse c \<or> \<not> usable S (pc_connection c))"
  by (induction cs) (auto split: option.splits)

lemma claim_pool:
  assumes "conn_pool_ok P" "claim S now (pl_connections P) = Some (x, cs)"
  shows "conn_pool_ok (P\<lparr>pl_connections := cs\<rparr>)" "conns_in_use (P\<lparr>pl_connections := cs\<rparr>) = insert x (conns_in_use P)" "x \<notin> conns_in_use P"
    "x \<in> set (pl_open P)"
proof -
  obtain as c bs where c: "pl_connections P = as @ c # bs" "cs = as @ c\<lparr>pc_inUse := True, pc_lastUsed := now\<rparr> # bs" "\<not> pc_inUse c"
    "x = pc_connection c" using claim_Some[OF assms(2)] by blast
  show "conn_pool_ok (P\<lparr>pl_connections := cs\<rparr>)" using assms(1) c by (simp add: conn_pool_ok_def)
  show "conns_in_use (P\<lparr>pl_connections := cs\<rparr>) = insert x (conns_in_use P)" using c by (auto simp: conns_in_use_def)
  show "x \<notin> conns_in_use P" using assms(1) c by (auto simp: conns_in_use_def conn_pool_ok_def)
  show "x \<in> set (pl_open P)" using assms(1) c by (auto simp: conn_pool_ok_def)
qed

lemma create_pool:
  assumes ok: "conn_pool_ok P" and c: "createConnection S now P = (Some c, P1)" and room: "int (length (pl_connections P)) < pl_max P"
  shows "conn_pool_ok (add_connection (c\<lparr>pc_inUse := b\<rparr>) P1)" "pc_connection c = pl_next P" "pl_next P \<notin> conns_in_use P"
    "conns_in_use (add_connection (c\<lparr>pc_inUse := b\<rparr>) P1) = (if b then insert (pl_next P) (conns_in_use P) else conns_in_use P)"
    "pl_max P1 = pl_max P" "pl_connections P1 = pl_connections P"
proof -
  have P1: "P1 = P\<lparr>pl_open := pl_open P @ [pl_next P], pl_next := Suc (pl_next P)\<rparr>" "pc_connection c = pl_next P"
    using c by (auto simp: createConnection_def split: if_splits)
  have below: "\<forall>d \<in> set (pl_connections P). pc_connection d < pl_next P" using ok by (auto simp: conn_pool_ok_def)
  then have new: "pl_next P \<notin> pc_connection ` set (pl_connections P)" by auto
  show "conn_pool_ok (add_connection (c\<lparr>pc_inUse := b\<rparr>) P1)" using ok room new below P1
    by (fastforce simp: add_connection_def conn_pool_ok_def)
  show "pl_next P \<notin> conns_in_use P" using new by (auto simp: conns_in_use_def)
  show "conns_in_use (add_connection (c\<lparr>pc_inUse := b\<rparr>) P1) = (if b then insert (pl_next P) (conns_in_use P) else conns_in_use P)"
    using P1 by (simp add: conns_in_use_def add_connection_def)
qed (use c in \<open>auto simp: createConnection_def split: if_splits\<close>)

lemma create_None: "createConnection S now P = (None, P1) \<Longrightarrow> P1 = P"
  by (auto simp: createConnection_def split: if_splits)

lemma get_now_Some:
  assumes "conn_pool_ok P" "get_now S now P = (Some x, P')"
  shows "conn_pool_ok P'" "conns_in_use P' = insert x (conns_in_use P)" "x \<notin> conns_in_use P"
proof -
  have "conn_pool_ok P' \<and> conns_in_use P' = insert x (conns_in_use P) \<and> x \<notin> conns_in_use P"
  proof (cases "claim S now (pl_connections P)")
    case None
    then obtain c P1 where "int (length (pl_connections P)) < pl_max P" "createConnection S now P = (Some c, P1)" "x = pc_connection c"
      "P' = add_connection (c\<lparr>pc_inUse := True\<rparr>) P1" using assms(2) by (auto simp: get_now_def split: if_splits prod.splits option.splits)
    then show ?thesis using create_pool(1,4)[OF assms(1), where b = True] create_pool(2,3)[OF assms(1)] by metis
  next
    case (Some r)
    then obtain cs where "claim S now (pl_connections P) = Some (x, cs)" "P' = P\<lparr>pl_connections := cs\<rparr>"
      using assms(2) by (cases r) (auto simp: get_now_def)
    then show ?thesis using claim_pool[OF assms(1)] by metis
  qed
  then show "conn_pool_ok P'" "conns_in_use P' = insert x (conns_in_use P)" "x \<notin> conns_in_use P" by simp_all
qed

lemma get_now_None: "get_now S now P = (None, P') \<Longrightarrow> P' = P"
  by (auto simp: get_now_def dest: create_None split: option.splits prod.splits if_splits)

lemma get_after_wait_Some:
  assumes "conn_pool_ok P" "get_after_wait S now P = (Some x, P')"
  shows "conn_pool_ok P'" "conns_in_use P' = insert x (conns_in_use P)" "x \<notin> conns_in_use P"
proof -
  obtain cs where "claim S now (pl_connections P) = Some (x, cs)" "P' = P\<lparr>pl_connections := cs\<rparr>"
    using assms(2) by (auto simp: get_after_wait_def split: if_splits option.splits)
  then show "conn_pool_ok P'" "conns_in_use P' = insert x (conns_in_use P)" "x \<notin> conns_in_use P" using claim_pool[OF assms(1)] by metis+
qed

lemma get_after_wait_None: "get_after_wait S now P = (None, P') \<Longrightarrow> P' = P"
  by (auto simp: get_after_wait_def split: option.splits if_splits)

lemma mark_free_conns: "map pc_connection (mark_free now x cs) = map pc_connection cs"
  by (induction cs) auto

lemma mark_free_active:
  "distinct (map pc_connection cs) \<Longrightarrow>
     set (map pc_connection (filter pc_inUse (mark_free now x cs))) = set (map pc_connection (filter pc_inUse cs)) - {x}"
proof (induction cs)
  case (Cons c cs)
  have "x \<notin> set (map pc_connection (filter pc_inUse cs))" if "pc_connection c = x" using Cons.prems that by auto
  then show ?case using Cons by auto
qed simp

lemma release_pool:
  assumes "conn_pool_ok P"
  shows "conn_pool_ok (releaseConnection now (Some x) P)" "conns_in_use (releaseConnection now (Some x) P) = conns_in_use P - {x}"
proof -
  have "length (mark_free now x cs) = length cs" for cs by (induction cs) auto
  moreover have "pc_connection ` set (mark_free now x cs) = pc_connection ` set cs" for cs
    using arg_cong[OF mark_free_conns, of set] by simp
  ultimately show "conn_pool_ok (releaseConnection now (Some x) P)" using assms
    by (simp add: conn_pool_ok_def releaseConnection_def mark_free_conns)
  show "conns_in_use (releaseConnection now (Some x) P) = conns_in_use P - {x}"
    using mark_free_active[of "pl_connections P"] assms by (simp add: conns_in_use_def releaseConnection_def conn_pool_ok_def)
qed

text \<open>Both ways to a connection, at once and after a wait, keep the contract of a pool.\<close>

interpretation pg_now: connection_pool conn_pool_ok conns_in_use "get_now S now" "\<lambda>c. releaseConnection now (Some c)" for S now
  by unfold_locales (auto dest: get_now_Some get_now_None simp: release_pool)

interpretation pg_woken: connection_pool conn_pool_ok conns_in_use "get_after_wait S now" "\<lambda>c. releaseConnection now (Some c)" for S now
  by unfold_locales (auto dest: get_after_wait_Some get_after_wait_None simp: release_pool)

lemma stale_pool:
  assumes "conn_pool_ok P"
  shows "conn_pool_ok (removeStaleConnections now P)" "conns_in_use (removeStaleConnections now P) = conns_in_use P"
proof -
  let ?cs = "pl_connections P"
  let ?keep = "filter (\<lambda>c. \<not> idle_too_long now c) ?cs"
  have d: "distinct (map pc_connection ?cs)" using assms by (simp add: conn_pool_ok_def)
  have "pc_connection ` set ?cs - pc_connection ` set (filter (idle_too_long now) ?cs) = pc_connection ` set ?keep"
    using d by (auto simp: distinct_map inj_on_def)
  then have "set (pl_open (removeStaleConnections now P)) = pc_connection ` set ?keep"
    using assms by (auto simp: conn_pool_ok_def removeStaleConnections_def)
  moreover have "int (length ?keep) \<le> pl_max P"
    using assms length_filter_le[of "\<lambda>c. \<not> idle_too_long now c" ?cs] unfolding conn_pool_ok_def by linarith
  ultimately show "conn_pool_ok (removeStaleConnections now P)" using assms d
    by (simp add: conn_pool_ok_def removeStaleConnections_def distinct_map_filter)
  have "pc_inUse c \<and> \<not> idle_too_long now c \<longleftrightarrow> pc_inUse c" for c by (auto simp: idle_too_long_def)
  then show "conns_in_use (removeStaleConnections now P) = conns_in_use P"
    by (simp add: conns_in_use_def removeStaleConnections_def conj_commute)
qed

lemma add_missing_pool:
  assumes "conn_pool_ok P" "int (length (pl_connections P) + n) \<le> pl_max P"
  shows "conn_pool_ok (add_missing S now n P) \<and> conns_in_use (add_missing S now n P) = conns_in_use P"
  using assms
proof (induction n arbitrary: P)
  case (Suc n)
  show ?case
  proof (cases "createConnection S now P")
    case (Pair r P1)
    show ?thesis
    proof (cases r)
      case None
      then show ?thesis using Suc.prems(1) Pair create_None[of S now P P1] by simp
    next
      case (Some c)
      then have c: "createConnection S now P = (Some c, P1)" using Pair by simp
      have room: "int (length (pl_connections P)) < pl_max P" using Suc.prems(2) by simp
      have idle: "c\<lparr>pc_inUse := False\<rparr> = c" using c by (auto simp: createConnection_def split: if_splits)
      have "conn_pool_ok (add_connection c P1)" "conns_in_use (add_connection c P1) = conns_in_use P"
        "int (length (pl_connections (add_connection c P1)) + n) \<le> pl_max (add_connection c P1)"
        using create_pool(1,4)[OF Suc.prems(1) c room, where b = False] create_pool(5,6)[OF Suc.prems(1) c room] Suc.prems(2) idle by (simp_all add: add_connection_def)
      then show ?thesis using Suc.IH c by simp
    qed
  qed
qed simp

lemma ensure_pool:
  assumes "conn_pool_ok P"
  shows "conn_pool_ok (ensureMinConnections S now P)" "conns_in_use (ensureMinConnections S now P) = conns_in_use P"
proof -
  let ?n = "nat (pl_min P - int (length (pl_connections P)))"
  have "int (length (pl_connections P) + ?n) \<le> pl_max P" using assms by (simp add: conn_pool_ok_def max_def)
  then show "conn_pool_ok (ensureMinConnections S now P)" "conns_in_use (ensureMinConnections S now P) = conns_in_use P"
    using add_missing_pool[OF assms] by (simp_all add: ensureMinConnections_def)
qed

lemma system_ok_take:
  assumes "system_ok y" "conn_pool_ok P" "conns_in_use P = insert x (conns_in_use (ys_pool y))" "x \<notin> conns_in_use (ys_pool y)"
  shows "system_ok (y\<lparr>ys_pool := P, ys_held := (ys_held y)(t := x # ys_held y t), ys_waiting := w\<rparr>)"
proof -
  have new: "x \<notin> set (ys_held y u)" for u using assms(1,4) by (auto simp: system_ok_def)
  have "(\<Union>u. set (((ys_held y)(t := x # ys_held y t)) u)) = insert x (\<Union>u. set (ys_held y u))"
    by (auto split: if_splits)
  moreover have "u \<noteq> v \<longrightarrow> set (((ys_held y)(t := x # ys_held y t)) u) \<inter> set (((ys_held y)(t := x # ys_held y t)) v) = {}" for u v
    using new assms(1) by (auto simp: system_ok_def)
  ultimately show ?thesis using assms new by (simp add: system_ok_def)
qed

lemma system_ok_same:
  "system_ok y \<Longrightarrow> conn_pool_ok P \<Longrightarrow> conns_in_use P = conns_in_use (ys_pool y) \<Longrightarrow> system_ok (y\<lparr>ys_pool := P, ys_waiting := w\<rparr>)"
  by (simp add: system_ok_def)

lemma system_ok_release:
  assumes "system_ok y" "x \<in> set (ys_held y t)"
  shows "system_ok (y\<lparr>ys_pool := releaseConnection now (Some x) (ys_pool y), ys_held := (ys_held y)(t := remove1 x (ys_held y t))\<rparr>)"
proof -
  have ok: "conn_pool_ok (ys_pool y)" using assms(1) by (simp add: system_ok_def)
  have other: "x \<notin> set (ys_held y u)" if "u \<noteq> t" for u using assms that by (auto simp: system_ok_def)
  have d: "distinct (ys_held y u)" for u using assms(1) by (simp add: system_ok_def)
  have "(\<Union>u. set (((ys_held y)(t := remove1 x (ys_held y t))) u)) = (\<Union>u. set (ys_held y u)) - {x}"
    using other d by (auto split: if_splits)
  moreover have "u \<noteq> v \<longrightarrow> set (((ys_held y)(t := remove1 x (ys_held y t))) u) \<inter> set (((ys_held y)(t := remove1 x (ys_held y t))) v) = {}" for u v
    using d assms(1) by (auto simp: system_ok_def)
  ultimately show ?thesis using assms(1) release_pool[OF ok] d by (simp add: system_ok_def distinct_remove1)
qed

lemma system_ok_step: "pool_step y y' \<Longrightarrow> system_ok y \<Longrightarrow> system_ok y'"
proof (induction rule: pool_step.induct)
  case (step_get S now y x P t)
  then have "conn_pool_ok (ys_pool y)" by (simp add: system_ok_def)
  from get_now_Some[OF this step_get(1)] show ?case
    using system_ok_take[OF step_get(3), where P = P and x = x and t = t and w = "ys_waiting y"] by simp
next
  case (step_wait S now y P t)
  then show ?case using get_now_None[OF step_wait(1)] system_ok_same[of y P] by (simp add: system_ok_def)
next
  case (step_wake S now y x P t)
  then have "conn_pool_ok (ys_pool y)" by (simp add: system_ok_def)
  from get_after_wait_Some[OF this step_wake(1)] show ?case using step_wake(3) by (intro system_ok_take) simp_all
next
  case (step_fail S now y P t)
  then show ?case using get_after_wait_None[OF step_fail(1)] by (simp add: system_ok_def)
next
  case (step_release x y t now)
  then show ?case by (simp add: system_ok_release)
next
  case (step_stale y now)
  then show ?case using stale_pool[of "ys_pool y"] by (simp add: system_ok_def)
next
  case (step_ensure y S now)
  then show ?case using ensure_pool[of "ys_pool y"] by (simp add: system_ok_def)
qed

lemma system_ok_reach: "pool_reach P0 y \<Longrightarrow> conn_pool_ok P0 \<Longrightarrow> conns_in_use P0 = {} \<Longrightarrow> system_ok y"
proof (induction rule: pool_reach.induct)
  case reach_start
  then show ?case by (simp add: system_ok_def)
next
  case (reach_step y y')
  then show ?case using system_ok_step by blast
qed

text \<open>The start of the program initialises the pool twice, each time adding a connection.\<close>

definition start_pool :: "int \<Rightarrow> int \<Rightarrow> int \<Rightarrow> server list \<Rightarrow> pool" where
  "start_pool now m n Ss = fold (\<lambda>S P. snd (initializePool S now m n P)) Ss empty_pool"

lemma initialized_pool:
  assumes "Ss \<noteq> []" "int (length Ss) \<le> m" "n \<le> m"
  shows "conn_pool_ok (start_pool now m n Ss)" "conns_in_use (start_pool now m n Ss) = {}" "pl_max (start_pool now m n Ss) = m"
proof -
  have one: "(conn_pool_ok P' \<and> conns_in_use P' = {} \<and> pl_max P' = m \<and> length (pl_connections P') \<le> Suc (length (pl_connections P)))"
    if "conn_pool_ok (P\<lparr>pl_max := m, pl_min := n\<rparr>)" "conns_in_use P = {}" "int (length (pl_connections P)) < m" "P' = snd (initializePool S now m n P)" for S P P'
  proof (cases "createConnection S now (P\<lparr>pl_max := m, pl_min := n\<rparr>)")
    case (Pair r P1)
    show ?thesis
    proof (cases r)
      case None
      then have "P1 = P\<lparr>pl_max := m, pl_min := n\<rparr>" using Pair create_None[of S now _ P1] by simp
      then show ?thesis using that Pair None by (simp add: initializePool_def conns_in_use_def)
    next
      case (Some c)
      then have c: "createConnection S now (P\<lparr>pl_max := m, pl_min := n\<rparr>) = (Some c, P1)" using Pair by simp
      have idle: "c\<lparr>pc_inUse := False\<rparr> = c" using c by (auto simp: createConnection_def split: if_splits)
      have "int (length (pl_connections (P\<lparr>pl_max := m, pl_min := n\<rparr>))) < pl_max (P\<lparr>pl_max := m, pl_min := n\<rparr>)" using that(3) by simp
      then have "conn_pool_ok (add_connection c P1)" "conns_in_use (add_connection c P1) = conns_in_use P" "pl_max P1 = m" "pl_connections P1 = pl_connections P"
        using create_pool(1,4)[OF that(1) c, where b = False] create_pool(5,6)[OF that(1) c] idle by (simp_all add: conns_in_use_def)
      moreover have P': "P' = (add_connection c P1)\<lparr>pl_running := True\<rparr>" using that(4) c by (simp add: initializePool_def)
      moreover have "conns_in_use P' = conns_in_use (add_connection c P1)" "conn_pool_ok P' = conn_pool_ok (add_connection c P1)" unfolding P'
        by (simp_all add: conns_in_use_def conn_pool_ok_def)
      ultimately show ?thesis using that(2) by (simp add: add_connection_def)
    qed
  qed
  have again: "P\<lparr>pl_max := m, pl_min := n\<rparr> = P" if "pl_max P = m" "pl_min P = n" for P :: pool using that by simp
  have min: "pl_min (snd (initializePool S now m n P)) = n" for S P
    by (auto simp: initializePool_def createConnection_def add_connection_def)
  have "conn_pool_ok P \<and> conns_in_use P = {} \<and> pl_max P = m \<and> pl_min P = n \<and> length (pl_connections P) \<le> length Ss"
    if "Ss \<noteq> []" "int (length Ss) \<le> m" "P = start_pool now m n Ss" for P Ss
    using that
  proof (induction Ss arbitrary: P rule: rev_induct)
    case (snoc S Ss)
    let ?Q = "start_pool now m n Ss"
    have P: "P = snd (initializePool S now m n ?Q)" using snoc.prems by (simp add: start_pool_def)
    have "conn_pool_ok (?Q\<lparr>pl_max := m, pl_min := n\<rparr>) \<and> conns_in_use ?Q = {} \<and> length (pl_connections ?Q) \<le> length Ss"
    proof (cases "Ss = []")
      case True
      then show ?thesis using snoc.prems(2) assms(3) by (simp add: start_pool_def empty_pool_def conn_pool_ok_def conns_in_use_def)
    next
      case False
      then have "conn_pool_ok ?Q \<and> conns_in_use ?Q = {} \<and> pl_max ?Q = m \<and> pl_min ?Q = n \<and> length (pl_connections ?Q) \<le> length Ss"
        using snoc.IH snoc.prems(2) by simp
      then show ?thesis using again[of ?Q] by metis
    qed
    then show ?case using one[of ?Q P S] P min snoc.prems(2) by auto
  qed simp
  from this[OF assms(1,2) refl] show "conn_pool_ok (start_pool now m n Ss)" "conns_in_use (start_pool now m n Ss) = {}" "pl_max (start_pool now m n Ss) = m"
    by simp_all
qed

lemma pool_step_max: "pool_step y y' \<Longrightarrow> pl_max (ys_pool y') = pl_max (ys_pool y)"
proof -
  have add: "pl_max (add_missing S now n P) = pl_max P" for S now n P
    by (induction n arbitrary: P) (auto simp: createConnection_def add_connection_def)
  show "pool_step y y' \<Longrightarrow> pl_max (ys_pool y') = pl_max (ys_pool y)"
    by (induction rule: pool_step.induct)
      (auto simp: get_now_def get_after_wait_def createConnection_def add_connection_def releaseConnection_def
        removeStaleConnections_def ensureMinConnections_def add split: option.splits prod.splits if_splits)
qed

lemma pool_reach_max: "pool_reach P0 y \<Longrightarrow> pl_max (ys_pool y) = pl_max P0"
  by (induction rule: pool_reach.induct) (simp_all add: pool_step_max)

section \<open>What the pool guarantees\<close>

text \<open>
  C17. The pool is exclusive and bounded: after the initialisations of the start, however the threads and the check thread interleave, a
  connection that a thread holds is held by it alone, is marked in use, its object has not been closed under it, and the pool never has
  more connections than the maximum.
\<close>
theorem one_holder_per_connection:
  assumes "Ss \<noteq> []" "int (length Ss) \<le> m" "n \<le> m" "pool_reach (start_pool now m n Ss) y" "x \<in> set (ys_held y t)"
  shows "(\<forall>u. u \<noteq> t \<longrightarrow> x \<notin> set (ys_held y u)) \<and> x \<in> conns_in_use (ys_pool y) \<and> x \<in> set (pl_open (ys_pool y)) \<and> int (length (pl_connections (ys_pool y))) \<le> m"
proof -
  have ok: "system_ok y" using system_ok_reach[OF assms(4)] initialized_pool[OF assms(1-3)] by simp
  have "pl_max (ys_pool y) = m" using pool_reach_max[OF assms(4)] initialized_pool(3)[OF assms(1-3)] by simp
  moreover have "x \<in> conns_in_use (ys_pool y)" using ok assms(5) by (auto simp: system_ok_def)
  moreover have "x \<notin> set (ys_held y u)" if "u \<noteq> t" for u using ok assms(5) that by (auto simp: system_ok_def)
  moreover have "conn_pool_ok (ys_pool y)" using ok by (simp add: system_ok_def)
  ultimately show ?thesis by (simp add: conn_pool_ok_def) (auto simp: conns_in_use_def)
qed

definition sample_server :: server where
  "sample_server = \<lparr>sv_connect = True, sv_valid = (\<lambda>c. True), sv_reset = (\<lambda>c. True)\<rparr>"

definition sample_pool :: pool where
  "sample_pool = \<lparr>pl_connections = [\<lparr>pc_connection = 0, pc_inUse = False, pc_lastUsed = 0\<rparr>], pl_max = 2, pl_min = 1,
     pl_running = True, pl_open = [0], pl_next = 1\<rparr>"

lemma sample_init: "start_pool 0 2 1 [sample_server] = sample_pool"
  by (simp add: start_pool_def initializePool_def createConnection_def sample_server_def empty_pool_def add_connection_def sample_pool_def)

theorem one_holder_per_connection_witness:
  "\<exists>y. pool_reach sample_pool y \<and> ys_held y 7 = [0] \<and> 0 \<notin> set (ys_held y 8) \<and> 0 \<in> conns_in_use (ys_pool y) \<and> 0 \<in> set (pl_open (ys_pool y))"
proof -
  let ?P = "sample_pool\<lparr>pl_connections := [\<lparr>pc_connection = 0, pc_inUse = True, pc_lastUsed = 5\<rparr>]\<rparr>"
  let ?y = "\<lparr>ys_pool = sample_pool, ys_held = (\<lambda>t. []), ys_waiting = {}\<rparr>"
  let ?y' = "?y\<lparr>ys_pool := ?P, ys_held := (ys_held ?y)(7 := 0 # ys_held ?y 7)\<rparr>"
  have "get_now sample_server 5 (ys_pool ?y) = (Some 0, ?P)"
    by (simp add: get_now_def usable_def sample_server_def sample_pool_def)
  then have "pool_step ?y ?y'" by (rule step_get) simp
  then have r: "pool_reach sample_pool ?y'" using reach_start[of sample_pool] by (rule reach_step[rotated])
  have "0 \<in> set (ys_held ?y' 7)" by simp
  from one_holder_per_connection[of "[sample_server]" 2 1 0 ?y', unfolded sample_init, OF _ _ _ r this] show ?thesis
    using r by (intro exI[of _ ?y']) simp
qed

text \<open>
  Waiting for a connection: with every connection of a full pool in use a request waits, and once one that works is given back the waiting
  thread gets it. But one idle connection that is dead and cannot be reset, in an otherwise busy pool, ends every wait at once and
  without a connection, whatever would be given back later.
\<close>
theorem waiting_thread_served:
  assumes "pl_max P \<le> int (length (pl_connections P))" "distinct (map pc_connection (pl_connections P))"
    "\<forall>c \<in> set (pl_connections P). pc_inUse c" "x \<in> pc_connection ` set (pl_connections P)" "usable S x"
    and "\<forall>c \<in> set (pl_connections D). pc_inUse c \<longleftrightarrow> pc_connection c \<noteq> d" "pl_max D \<le> int (length (pl_connections D))"
    "d \<in> pc_connection ` set (pl_connections D)" "\<not> usable S d"
  shows "get_now S now P = (None, P) \<and> \<not> wait_over P \<and> fst (get_after_wait S later (releaseConnection soon (Some x) P)) = Some x \<and>
    get_now S now D = (None, D) \<and> wait_over D \<and> get_after_wait S later D = (None, D)"
proof -
  have free: "claim S later (mark_free soon x cs) = Some (x, map (\<lambda>c. if pc_connection c = x then c\<lparr>pc_inUse := True, pc_lastUsed := later\<rparr> else c) cs)"
    if "\<forall>c \<in> set cs. pc_inUse c" "x \<in> pc_connection ` set cs" "distinct (map pc_connection cs)" for cs
    using that assms(5)
  proof (induction cs)
    case (Cons c cs)
    have "map (\<lambda>c. if pc_connection c = x then c\<lparr>pc_inUse := True, pc_lastUsed := later\<rparr> else c) cs = cs" if "pc_connection c = x"
      using Cons.prems(3) that by (intro map_idI) (auto simp: image_iff)
    then show ?case using Cons by auto
  qed simp
  have "\<exists>c \<in> set (mark_free soon x cs). \<not> pc_inUse c" if "x \<in> pc_connection ` set cs" for cs
    using that by (induction cs) auto
  then have P: "get_now S now P = (None, P)" "fst (get_after_wait S later (releaseConnection soon (Some x) P)) = Some x" "\<not> wait_over P"
    using assms(1,3,4) claim_None[of S now "pl_connections P"] free[OF assms(3,4,2)]
    by (auto simp: get_now_def get_after_wait_def wait_over_def releaseConnection_def)
  have "claim S t (pl_connections D) = None" for t using assms(6,9) by (auto simp: claim_None)
  moreover have "wait_over D" using assms(6,8) by (auto simp: wait_over_def)
  ultimately show ?thesis using P assms(7) by (simp add: get_now_def get_after_wait_def)
qed

theorem waiting_thread_served_witness:
  "fst (get_after_wait (sample_server\<lparr>sv_valid := (\<lambda>c. c = 0), sv_reset := (\<lambda>c. False)\<rparr>) 9 (releaseConnection 8 (Some 0)
      (sample_pool\<lparr>pl_max := 1, pl_connections := [\<lparr>pc_connection = 0, pc_inUse = True, pc_lastUsed = 0\<rparr>]\<rparr>))) = Some 0 \<and>
   fst (get_after_wait (sample_server\<lparr>sv_valid := (\<lambda>c. c = 0), sv_reset := (\<lambda>c. False)\<rparr>) 9
      (sample_pool\<lparr>pl_connections := [\<lparr>pc_connection = 1, pc_inUse = False, pc_lastUsed = 0\<rparr>, \<lparr>pc_connection = 0, pc_inUse = True, pc_lastUsed = 0\<rparr>]\<rparr>)) = None"
  using waiting_thread_served[of "sample_pool\<lparr>pl_max := 1, pl_connections := [\<lparr>pc_connection = 0, pc_inUse = True, pc_lastUsed = 0\<rparr>]\<rparr>"
      0 "sample_server\<lparr>sv_valid := (\<lambda>c. c = 0), sv_reset := (\<lambda>c. False)\<rparr>"
      "sample_pool\<lparr>pl_connections := [\<lparr>pc_connection = 1, pc_inUse = False, pc_lastUsed = 0\<rparr>, \<lparr>pc_connection = 0, pc_inUse = True, pc_lastUsed = 0\<rparr>]\<rparr>"
      1 0 9 8]
  by (simp add: sample_pool_def usable_def)

text \<open>
  Closing the pool is not final: it ends the connections that threads still hold, whose pointers then point to freed objects, and when the server
  still answers the next round of the check thread, which closing does not stop, opens connections again up to the minimum.
\<close>
theorem close_not_final:
  assumes "x \<in> conns_in_use P"
  shows "x \<notin> set (pl_open (closeAllConnections P)) \<and> pl_connections (closeAllConnections P) = [] \<and>
    (pl_running P \<and> sv_connect S \<longrightarrow> int (length (pl_connections (check_round S now (closeAllConnections P)))) = max 0 (pl_min P))"
proof -
  have "length (pl_connections (add_missing S now n Q)) = n + length (pl_connections Q)" if "sv_connect S" for n Q
    using that by (induction n arbitrary: Q) (auto simp: createConnection_def add_connection_def)
  then show ?thesis using assms
    by (auto simp: closeAllConnections_def conns_in_use_def check_round_def ensureMinConnections_def removeStaleConnections_def)
qed

theorem close_not_final_witness:
  "0 \<notin> set (pl_open (closeAllConnections (sample_pool\<lparr>pl_connections := [\<lparr>pc_connection = 0, pc_inUse = True, pc_lastUsed = 0\<rparr>]\<rparr>))) \<and>
   length (pl_connections (check_round sample_server 9 (closeAllConnections
      (sample_pool\<lparr>pl_connections := [\<lparr>pc_connection = 0, pc_inUse = True, pc_lastUsed = 0\<rparr>]\<rparr>)))) = 1"
  using close_not_final[of 0 "sample_pool\<lparr>pl_connections := [\<lparr>pc_connection = 0, pc_inUse = True, pc_lastUsed = 0\<rparr>]\<rparr>" sample_server 9]
  by (simp add: conns_in_use_def sample_pool_def sample_server_def)

end
