(* ===== verification/Qt_Pool.thy ===== *)
theory Qt_Pool
  imports Pg_Pool
begin

text \<open>
  The connection pool of the Qt driver (\<open>db/dbconnectionpool.cpp\<close>), which the program uses with \<open>AccessMode=0\<close>.  Every operation takes the
  pool's mutex.  A connection is the name it was registered under with \<open>QSqlDatabase::addDatabase\<close>; the names contain a new UUID each,
  so they are numbered here.  What the driver and the server answer is a parameter of every operation.
\<close>

section \<open>The pool\<close>

text \<open>
  \<open>qv_driver\<close>: \<open>isValid()\<close>, the same for every handle; \<open>qv_isOpen\<close>, \<open>qv_open\<close>: \<open>isOpen()\<close> and \<open>open()\<close>; \<open>qv_probe\<close>: \<open>SELECT 1\<close>.
\<close>

record qt_server =
  qv_driver :: bool
  qv_isOpen :: "nat \<Rightarrow> bool"
  qv_open :: "nat \<Rightarrow> bool"
  qv_probe :: "nat \<Rightarrow> bool"

text \<open>\<open>PooledConnection\<close> has the members of \<open>PgPooledConnection\<close>; \<open>qp_registered\<close> counts the names registered so far.\<close>

record qt_pool =
  qp_connections :: "pooled list"
  qp_max :: int
  qp_min :: int
  qp_registered :: nat

text \<open>\<open>secsTo\<close>: the difference of the two times in whole seconds of the clock.\<close>

definition secsTo :: "int \<Rightarrow> int \<Rightarrow> int" where
  "secsTo t u = u div 1000 - t div 1000"

definition qt_createConnection :: "qt_server \<Rightarrow> int \<Rightarrow> qt_pool \<Rightarrow> pooled \<times> bool \<times> qt_pool" where
  "qt_createConnection S now P =
     (let n = qp_registered P
      in (\<lparr>pc_connection = n, pc_inUse = False, pc_lastUsed = now\<rparr>, qv_open S n, P\<lparr>qp_registered := Suc n\<rparr>))"

definition qt_initializePool :: "qt_server \<Rightarrow> int \<Rightarrow> int \<Rightarrow> int \<Rightarrow> qt_pool \<Rightarrow> bool \<times> qt_pool" where
  "qt_initializePool S now mx mn P =
     (case qt_createConnection S now (P\<lparr>qp_max := mx, qp_min := mn\<rparr>) of
        (c, opened, P1) \<Rightarrow> (opened, if opened then P1\<lparr>qp_connections := qp_connections P1 @ [c]\<rparr> else P1))"

text \<open>An idle connection is taken when it is open and valid or can be opened.\<close>

definition qt_usable :: "qt_server \<Rightarrow> server" where
  "qt_usable S = \<lparr>sv_connect = True, sv_valid = (\<lambda>c. qv_isOpen S c \<and> qv_driver S), sv_reset = qv_open S\<rparr>"

definition qt_getConnection :: "qt_server \<Rightarrow> int \<Rightarrow> qt_pool \<Rightarrow> nat option \<times> qt_pool" where
  "qt_getConnection S now P =
     (case claim (qt_usable S) now (qp_connections P) of
        Some (x, cs) \<Rightarrow> (Some x, P\<lparr>qp_connections := cs\<rparr>)
      | None \<Rightarrow>
          if int (length (qp_connections P)) < qp_max P
          then (case qt_createConnection S now P of
                  (c, opened, P1) \<Rightarrow>
                    if opened then (Some (pc_connection c), P1\<lparr>qp_connections := qp_connections P1 @ [c\<lparr>pc_inUse := True\<rparr>]\<rparr>)
                    else (None, P1))
          else (None, P))"

text \<open>The handle of a failed \<open>getConnection\<close> has an empty name and matches no connection.\<close>

definition qt_releaseConnection :: "int \<Rightarrow> nat option \<Rightarrow> qt_pool \<Rightarrow> qt_pool" where
  "qt_releaseConnection now h P =
     (case h of None \<Rightarrow> P | Some x \<Rightarrow> P\<lparr>qp_connections := mark_free now x (qp_connections P)\<rparr>)"

definition qt_closeAllConnections :: "qt_pool \<Rightarrow> qt_pool" where
  "qt_closeAllConnections P = P\<lparr>qp_connections := []\<rparr>"

definition qt_isConnectionValid :: "qt_server \<Rightarrow> nat \<Rightarrow> bool" where
  "qt_isConnectionValid S x \<longleftrightarrow> qv_isOpen S x \<and> qv_probe S x"

text \<open>The timer's check; both limits are those of the constructor (3000 s idle, 300 s in use).\<close>

fun qt_check :: "qt_server \<Rightarrow> int \<Rightarrow> pooled list \<Rightarrow> pooled list" where
  "qt_check S now [] = []"
| "qt_check S now (c # cs) =
     (if \<not> pc_inUse c
      then (if secsTo (pc_lastUsed c) now > 3000 then qt_check S now cs
            else if \<not> qv_driver S \<and> \<not> qv_open S (pc_connection c) then qt_check S now cs
            else c # qt_check S now cs)
      else if secsTo (pc_lastUsed c) now > 300 then qt_check S now cs
      else c # qt_check S now cs)"

definition checkConnections :: "qt_server \<Rightarrow> int \<Rightarrow> qt_pool \<Rightarrow> qt_pool" where
  "checkConnections S now P = P\<lparr>qp_connections := qt_check S now (qp_connections P)\<rparr>"

definition qt_removeStaleConnections :: "int \<Rightarrow> qt_pool \<Rightarrow> qt_pool" where
  "qt_removeStaleConnections now P =
     P\<lparr>qp_connections := filter (\<lambda>c. \<not> (\<not> pc_inUse c \<and> secsTo (pc_lastUsed c) now > 3000)) (qp_connections P)\<rparr>"

text \<open>The loop of \<open>ensureMinConnections\<close> goes on after a connection that cannot be opened.\<close>

fun qt_add_missing :: "qt_server \<Rightarrow> int \<Rightarrow> nat \<Rightarrow> qt_pool \<Rightarrow> qt_pool" where
  "qt_add_missing S now 0 P = P"
| "qt_add_missing S now (Suc n) P =
     (case qt_createConnection S now P of
        (c, opened, P1) \<Rightarrow> qt_add_missing S now n (if opened then P1\<lparr>qp_connections := qp_connections P1 @ [c]\<rparr> else P1))"

definition qt_ensureMinConnections :: "qt_server \<Rightarrow> int \<Rightarrow> qt_pool \<Rightarrow> qt_pool" where
  "qt_ensureMinConnections S now P = qt_add_missing S now (nat (max 0 (qp_min P - int (length (qp_connections P))))) P"

section \<open>The contract of a pool\<close>

definition qt_pool_ok :: "qt_pool \<Rightarrow> bool" where
  "qt_pool_ok P \<longleftrightarrow> distinct (map pc_connection (qp_connections P)) \<and> (\<forall>c \<in> set (qp_connections P). pc_connection c < qp_registered P) \<and>
     int (length (qp_connections P)) \<le> qp_max P"

definition qt_busy :: "qt_pool \<Rightarrow> nat set" where
  "qt_busy P = set (map pc_connection (filter pc_inUse (qp_connections P)))"

lemma qt_claim:
  assumes "qt_pool_ok P" "claim S now (qp_connections P) = Some (x, cs)"
  shows "qt_pool_ok (P\<lparr>qp_connections := cs\<rparr>) \<and> x \<notin> qt_busy P \<and> qt_busy (P\<lparr>qp_connections := cs\<rparr>) = insert x (qt_busy P)"
proof -
  obtain as c bs where c: "qp_connections P = as @ c # bs" "cs = as @ c\<lparr>pc_inUse := True, pc_lastUsed := now\<rparr> # bs" "\<not> pc_inUse c"
    "x = pc_connection c" using claim_Some[OF assms(2)] by blast
  show ?thesis using assms(1) c by (auto simp: qt_pool_ok_def qt_busy_def)
qed

lemma qt_taken:
  assumes "qt_pool_ok P" "qt_getConnection S now P = (Some x, P')"
  shows "qt_pool_ok P' \<and> x \<notin> qt_busy P \<and> qt_busy P' = insert x (qt_busy P)"
proof (cases "claim (qt_usable S) now (qp_connections P)")
  case None
  then have "P' = P\<lparr>qp_registered := Suc (qp_registered P), qp_connections := qp_connections P @
      [\<lparr>pc_connection = qp_registered P, pc_inUse = True, pc_lastUsed = now\<rparr>]\<rparr>" "x = qp_registered P" "int (length (qp_connections P)) < qp_max P"
    using assms(2) by (auto simp: qt_getConnection_def qt_createConnection_def Let_def split: if_splits)
  moreover have "qp_registered P \<notin> pc_connection ` set (qp_connections P)" using assms(1) by (auto simp: qt_pool_ok_def)
  ultimately show ?thesis using assms(1) by (auto simp: qt_pool_ok_def qt_busy_def less_Suc_eq)
next
  case (Some r)
  then show ?thesis using qt_claim[OF assms(1)] assms(2) by (cases r) (auto simp: qt_getConnection_def)
qed

lemma qt_refused: "qt_pool_ok P \<Longrightarrow> qt_getConnection S now P = (None, P') \<Longrightarrow> qt_pool_ok P' \<and> qt_busy P' = qt_busy P"
  by (auto simp: qt_getConnection_def qt_createConnection_def Let_def qt_pool_ok_def qt_busy_def less_Suc_eq split: option.splits if_splits)

lemma qt_given: "qt_pool_ok P \<Longrightarrow> qt_pool_ok (qt_releaseConnection now (Some x) P) \<and> qt_busy (qt_releaseConnection now (Some x) P) = qt_busy P - {x}"
proof -
  assume ok: "qt_pool_ok P"
  have "length (mark_free now x cs) = length cs" for cs by (induction cs) auto
  moreover have "pc_connection ` set (mark_free now x cs) = pc_connection ` set cs" for cs
    using arg_cong[OF mark_free_conns, of set] by simp
  ultimately have "qt_pool_ok (qt_releaseConnection now (Some x) P)" using ok
    by (simp add: qt_pool_ok_def qt_releaseConnection_def mark_free_conns) (metis (mono_tags, lifting) imageE imageI)
  then show ?thesis using mark_free_active[of "qp_connections P"] ok by (simp add: qt_busy_def qt_releaseConnection_def qt_pool_ok_def)
qed

interpretation qt_conns: connection_pool qt_pool_ok qt_busy "qt_getConnection S now" "\<lambda>c. qt_releaseConnection now (Some c)" for S now
  using qt_taken qt_refused qt_given by unfold_locales

section \<open>What the checks do\<close>

lemma qt_check_filter:
  "qv_driver S \<Longrightarrow> qt_check S now cs = filter (\<lambda>c. secsTo (pc_lastUsed c) now \<le> (if pc_inUse c then 300 else 3000)) cs"
  by (induction cs) auto

lemma qt_check_subset: "set (qt_check S now cs) \<subseteq> set cs" "length (qt_check S now cs) \<le> length cs"
  by (induction cs) auto

lemma qt_check_kept: "c \<in> set (qt_check S now cs) \<Longrightarrow> pc_inUse c \<Longrightarrow> secsTo (pc_lastUsed c) now \<le> 300"
  by (induction cs) (auto split: if_splits)

lemma qt_check_busy: "c \<in> set cs \<Longrightarrow> pc_inUse c \<Longrightarrow> secsTo (pc_lastUsed c) now \<le> 300 \<Longrightarrow> c \<in> set (qt_check S now cs)"
  by (induction cs) auto

lemma qt_check_shorter: "c \<in> set cs \<Longrightarrow> pc_inUse c \<Longrightarrow> 300 < secsTo (pc_lastUsed c) now \<Longrightarrow> length (qt_check S now cs) < length cs"
proof (induction cs)
  case (Cons d ds)
  then show ?case using qt_check_subset(2)[of S now ds] by (auto simp: less_Suc_eq_le)
qed simp

lemma mark_free_absent: "x \<notin> pc_connection ` set cs \<Longrightarrow> mark_free now x cs = cs"
  by (induction cs) auto

text \<open>
  The timer takes a connection away from whoever holds it for more than 300 seconds: it is closed and no longer counted as given out,
  giving it back has no effect, and even a full pool then has room for another holder.  Every other connection in use stays.
\<close>
theorem qt_long_holder_cut_off:
  assumes "qt_pool_ok P" "c \<in> set (qp_connections P)" "pc_inUse c" "300 < secsTo (pc_lastUsed c) now"
  shows "pc_connection c \<notin> qt_busy (checkConnections S now P) \<and>
    qt_releaseConnection later (Some (pc_connection c)) (checkConnections S now P) = checkConnections S now P \<and>
    int (length (qp_connections (checkConnections S now P))) < qp_max P \<and>
    qt_busy (checkConnections S now P) = {pc_connection d |d. d \<in> set (qp_connections P) \<and> pc_inUse d \<and> secsTo (pc_lastUsed d) now \<le> 300}"
proof -
  let ?cs = "qp_connections P" and ?Q = "checkConnections S now P"
  have d: "distinct (map pc_connection ?cs)" using assms(1) by (simp add: qt_pool_ok_def)
  have gone: "pc_connection c \<notin> pc_connection ` set (qp_connections ?Q)"
  proof
    assume "pc_connection c \<in> pc_connection ` set (qp_connections ?Q)"
    then obtain e where e: "e \<in> set (qt_check S now ?cs)" "pc_connection e = pc_connection c" by (auto simp: checkConnections_def)
    then have "e = c" using d assms(2) qt_check_subset(1)[of S now ?cs] by (auto simp: distinct_map inj_on_def)
    then show False using qt_check_kept[OF e(1)] assms(3,4) by simp
  qed
  have "qt_releaseConnection later (Some (pc_connection c)) ?Q = ?Q" using mark_free_absent[OF gone] by (simp add: qt_releaseConnection_def)
  moreover have "int (length (qp_connections ?Q)) < qp_max P"
    using qt_check_shorter[OF assms(2-4), of S] assms(1) by (simp add: checkConnections_def qt_pool_ok_def)
  moreover have "qt_busy ?Q = {pc_connection d |d. d \<in> set ?cs \<and> pc_inUse d \<and> secsTo (pc_lastUsed d) now \<le> 300}"
    using qt_check_subset(1)[of S now ?cs] qt_check_kept[of _ S now ?cs] qt_check_busy[of _ ?cs now S]
    by (auto simp: qt_busy_def checkConnections_def)
  ultimately show ?thesis using gone by (auto simp: qt_busy_def)
qed

text \<open>One connection used once in every while: the check, then a holder that gives back at once.\<close>

definition qt_visit :: "qt_server \<Rightarrow> int \<Rightarrow> qt_pool \<Rightarrow> qt_pool" where
  "qt_visit S now P = (case qt_getConnection S now (checkConnections S now P) of (h, P1) \<Rightarrow> qt_releaseConnection now h P1)"

text \<open>
  Names are never unregistered: when the program needs a connection once in more than 3001 seconds, every use drops the idle connection,
  opens another one under a new name and leaves the old name with Qt, so that after any number of uses the pool has one connection
  and as many names as uses more than at the beginning.
\<close>
theorem qt_recycling_leaks:
  assumes "qp_connections P = [\<lparr>pc_connection = x, pc_inUse = False, pc_lastUsed = t0\<rparr>]" "1 \<le> qp_max P" "\<forall>n. qv_open S n"
    "sorted_wrt (\<lambda>t u. t + 3001000 \<le> u) (t0 # ts)"
  shows "qp_registered (fold (qt_visit S) ts P) = qp_registered P + length ts \<and> length (qp_connections (fold (qt_visit S) ts P)) = 1"
  using assms(1,2,4)
proof (induction ts arbitrary: P x t0)
  case (Cons t ts)
  have "t div 1000 \<ge> (t0 + 3001000) div 1000" using Cons.prems(3) by (intro zdiv_mono1) auto
  then have "3000 < secsTo t0 t" by (simp add: secsTo_def)
  then have "checkConnections S t P = P\<lparr>qp_connections := []\<rparr>" using Cons.prems(1) by (simp add: checkConnections_def)
  then have v: "qt_visit S t P = P\<lparr>qp_registered := Suc (qp_registered P), qp_connections := [\<lparr>pc_connection = qp_registered P, pc_inUse = False, pc_lastUsed = t\<rparr>]\<rparr>"
    using Cons.prems(2) assms(3)
    by (simp add: qt_visit_def qt_getConnection_def qt_createConnection_def Let_def qt_releaseConnection_def)
  then show ?case using Cons.IH[of "qt_visit S t P" "qp_registered P" t] Cons.prems by simp
qed simp

definition qt_sample_server :: qt_server where
  "qt_sample_server = \<lparr>qv_driver = True, qv_isOpen = (\<lambda>c. True), qv_open = (\<lambda>c. True), qv_probe = (\<lambda>c. True)\<rparr>"

definition qt_sample_pool :: qt_pool where
  "qt_sample_pool = \<lparr>qp_connections = [\<lparr>pc_connection = 0, pc_inUse = False, pc_lastUsed = 0\<rparr>], qp_max = 1, qp_min = 1, qp_registered = 1\<rparr>"

theorem qt_recycling_leaks_witness:
  "qp_registered (fold (qt_visit qt_sample_server) [4000000, 8000000] qt_sample_pool) = 3"
  using qt_recycling_leaks[of qt_sample_pool 0 0 qt_sample_server "[4000000, 8000000]"] by (simp add: qt_sample_pool_def qt_sample_server_def)

theorem qt_long_holder_cut_off_witness:
  "fst (qt_getConnection qt_sample_server 0 qt_sample_pool) = Some 0 \<and>
   int (length (qp_connections (checkConnections qt_sample_server 301000 (snd (qt_getConnection qt_sample_server 0 qt_sample_pool))))) < 1"
proof -
  let ?P = "snd (qt_getConnection qt_sample_server 0 qt_sample_pool)"
  have g: "qt_getConnection qt_sample_server 0 qt_sample_pool = (Some 0, qt_sample_pool\<lparr>qp_connections := [\<lparr>pc_connection = 0, pc_inUse = True, pc_lastUsed = 0\<rparr>]\<rparr>)"
    by (simp add: qt_getConnection_def qt_sample_pool_def qt_sample_server_def qt_usable_def usable_def)
  have "qt_pool_ok qt_sample_pool" by (simp add: qt_pool_ok_def qt_sample_pool_def)
  then have "qt_pool_ok ?P" using qt_conns.taken[OF _ g] g by simp
  then show ?thesis
    using qt_long_holder_cut_off[of ?P "\<lparr>pc_connection = 0, pc_inUse = True, pc_lastUsed = 0\<rparr>" 301000 qt_sample_server 0] g
    by (simp add: secsTo_def qt_sample_pool_def)
qed

end
