(* ===== verification/Pg_Manager.thy ===== *)
theory Pg_Manager
  imports Pg_Pool Key_Store
begin

text \<open>
  The libpq access (\<open>db/postgres/PgDatabaseManager.cpp\<close>): parameters, one statement on one connection, queries with a connection of the
  pool, transactions and the batch insertion. What libpq and the server answer is a parameter; \<open>session_laws\<close> is what PostgreSQL
  documents of a transaction.
\<close>

section \<open>Parameters\<close>

datatype PgParam = PgNull | PgInt int | PgInt64 int | PgDouble real | PgString string | PgBool bool | PgBytea "nat list"

text \<open>
  \<open>prepareParams\<close> fills an array of pointers. A pointer is null, or to the i-th text of \<open>stringStorage\<close> as it was placed after so
  many reallocations, or to the bytes inside the parameter.  A push beyond the capacity moves the texts.
\<close>

datatype cptr = NullPtr | InStorage nat nat | InParam "nat list"

record prep =
  pr_values :: "cptr list"
  pr_lengths :: "nat list"
  pr_formats :: "nat list"
  pr_storage :: "string list"
  pr_capacity :: nat
  pr_moves :: nat

definition push_text :: "string \<Rightarrow> prep \<Rightarrow> prep" where
  "push_text str q =
     (let q1 = (if length (pr_storage q) < pr_capacity q then q
                else q\<lparr>pr_capacity := 2 * pr_capacity q + 1, pr_moves := Suc (pr_moves q)\<rparr>)
      in q1\<lparr>pr_storage := pr_storage q1 @ [str], pr_values := pr_values q1 @ [InStorage (pr_moves q1) (length (pr_storage q1))],
             pr_lengths := pr_lengths q1 @ [length str], pr_formats := pr_formats q1 @ [0]\<rparr>)"

definition push_ptr :: "cptr \<Rightarrow> nat \<Rightarrow> nat \<Rightarrow> prep \<Rightarrow> prep" where
  "push_ptr p len fmt q =
     q\<lparr>pr_values := pr_values q @ [p], pr_lengths := pr_lengths q @ [len], pr_formats := pr_formats q @ [fmt]\<rparr>"

fun prepare_param :: "(real \<Rightarrow> string) \<Rightarrow> PgParam \<Rightarrow> prep \<Rightarrow> prep" where
  "prepare_param D PgNull q = push_ptr NullPtr 0 0 q"
| "prepare_param D (PgInt i) q = push_text (dec_int i) q"
| "prepare_param D (PgInt64 i) q = push_text (dec_int i) q"
| "prepare_param D (PgDouble r) q = push_text (D r) q"
| "prepare_param D (PgString s) q = push_text s q"
| "prepare_param D (PgBool b) q = push_text (if b then ''true'' else ''false'') q"
| "prepare_param D (PgBytea bs) q = (if bs \<noteq> [] then push_ptr (InParam bs) (length bs) 1 q else push_ptr NullPtr 0 0 q)"

definition prepareParams :: "(real \<Rightarrow> string) \<Rightarrow> PgParam list \<Rightarrow> prep" where
  "prepareParams D ps = fold (prepare_param D) ps
     \<lparr>pr_values = [], pr_lengths = [], pr_formats = [], pr_storage = [], pr_capacity = length ps, pr_moves = 0\<rparr>"

text \<open>
  What libpq reads through the arrays: a text parameter up to its first NUL, whatever length is given, a binary one (format 1) for its length.  Nothing
  defined is read through a pointer to a text that has moved, nor from bytes read as a text or beyond their end.
\<close>

definition c_string :: "string \<Rightarrow> string" where
  "c_string s = takeWhile (\<lambda>c. c \<noteq> CHR 0x00) s"

datatype wire = WNull | WText string | WBytes "nat list" | WDangling

definition read_ptr :: "prep \<Rightarrow> cptr \<times> nat \<times> nat \<Rightarrow> wire" where
  "read_ptr q = (\<lambda>(p, len, fmt). case p of NullPtr \<Rightarrow> WNull
     | InParam bs \<Rightarrow> if fmt = 1 \<and> len \<le> length bs then WBytes (take len bs) else WDangling
     | InStorage g i \<Rightarrow> if g = pr_moves q \<and> i < length (pr_storage q) \<and> fmt = 0 then WText (c_string (pr_storage q ! i)) else WDangling)"

definition sent :: "prep \<Rightarrow> wire list" where
  "sent q = map (read_ptr q) (zip (pr_values q) (zip (pr_lengths q) (pr_formats q)))"

text \<open>One parameter as it arrives.\<close>

fun param_wire :: "(real \<Rightarrow> string) \<Rightarrow> PgParam \<Rightarrow> wire" where
  "param_wire D PgNull = WNull"
| "param_wire D (PgInt i) = WText (dec_int i)"
| "param_wire D (PgInt64 i) = WText (dec_int i)"
| "param_wire D (PgDouble r) = WText (c_string (D r))"
| "param_wire D (PgString s) = WText (c_string s)"
| "param_wire D (PgBool b) = WText (if b then ''true'' else ''false'')"
| "param_wire D (PgBytea bs) = (if bs \<noteq> [] then WBytes bs else WNull)"

definition prep_inv :: "wire list \<Rightarrow> nat \<Rightarrow> prep \<Rightarrow> bool" where
  "prep_inv ws n q \<longleftrightarrow> sent q = ws \<and> length (pr_lengths q) = length (pr_values q) \<and> length (pr_formats q) = length (pr_values q) \<and>
     pr_moves q = 0 \<and> WDangling \<notin> set ws \<and> length (pr_storage q) + n \<le> pr_capacity q"

lemma dec_no_nul: "CHR 0x00 \<notin> set (dec n)"
proof (induction n rule: dec.induct)
  case (1 n)
  have "CHR 0x00 \<noteq> char_of (48 + d)" if "d < 10" for d :: nat
  proof
    assume "CHR 0x00 = char_of (48 + d)"
    then have "of_char (CHR 0x00) = (48 + d) mod 256" by simp
    with that show False by simp
  qed
  then show ?case using 1 by (cases "n < 10") (simp_all add: dec.simps[of n])
qed

lemma c_string_plain: "CHR 0x00 \<notin> set s \<Longrightarrow> c_string s = s"
  by (auto simp: c_string_def takeWhile_eq_all_conv)

lemma c_string_dec_int [simp]: "c_string (dec_int i) = dec_int i"
  by (rule c_string_plain) (simp add: dec_int_def dec_no_nul)

lemma c_string_bool [simp]: "c_string (if b then ''true'' else ''false'') = (if b then ''true'' else ''false'')"
  by (simp add: c_string_def)

lemma c_string_cases: "c_string s = s \<or> (\<exists>rest. s = c_string s @ CHR 0x00 # rest)"
  unfolding c_string_def by (induction s) auto

lemma c_string_no_nul: "CHR 0x00 \<notin> set (c_string s)"
  unfolding c_string_def by (auto dest: set_takeWhileD)

lemma read_ptr_push: "read_ptr q x \<noteq> WDangling \<Longrightarrow> pr_moves q' = pr_moves q \<Longrightarrow> pr_storage q' = pr_storage q @ ts \<Longrightarrow> read_ptr q' x = read_ptr q x"
  by (auto simp: read_ptr_def nth_append split: cptr.splits if_splits prod.splits)

lemma prep_inv_text:
  assumes "prep_inv ws (Suc n) q"
  shows "prep_inv (ws @ [WText (c_string s)]) n (push_text s q)"
proof -
  let ?slots = "\<lambda>q. zip (pr_values q) (zip (pr_lengths q) (pr_formats q))"
  have room: "length (pr_storage q) < pr_capacity q" using assms by (simp add: prep_inv_def)
  have old: "read_ptr q x \<noteq> WDangling" if "x \<in> set (?slots q)" for x
    using assms that by (force simp: prep_inv_def sent_def)
  let ?q = "push_text s q"
  have same: "read_ptr ?q x = read_ptr q x" if "x \<in> set (?slots q)" for x
    using read_ptr_push[OF old[OF that], of ?q "[s]"] room by (simp add: push_text_def Let_def)
  have "map (read_ptr ?q) (?slots q) = map (read_ptr q) (?slots q)" by (rule map_cong[OF refl same])
  moreover have "?slots ?q = ?slots q @ [(InStorage (pr_moves ?q) (length (pr_storage q)), length s, 0)]" "pr_storage ?q = pr_storage q @ [s]"
    using room assms by (simp_all add: push_text_def Let_def prep_inv_def)
  ultimately have "sent ?q = sent q @ [WText (c_string s)]" by (simp add: sent_def) (simp add: read_ptr_def)
  then show ?thesis using assms room by (simp add: prep_inv_def push_text_def Let_def)
qed

lemma prep_inv_ptr:
  assumes "prep_inv ws (Suc n) q" "w = read_ptr q (p, len, fmt)" "w \<noteq> WDangling"
  shows "prep_inv (ws @ [w]) n (push_ptr p len fmt q)"
  using assms by (auto simp: prep_inv_def sent_def push_ptr_def read_ptr_def split: cptr.splits)

lemma prep_inv_param: "prep_inv ws (Suc n) q \<Longrightarrow> prep_inv (ws @ [param_wire D p]) n (prepare_param D p q)"
proof (cases p)
  case (PgInt i)
  then show "prep_inv ws (Suc n) q \<Longrightarrow> ?thesis" using prep_inv_text[of ws n q "dec_int i"] by simp
next
  case (PgInt64 i)
  then show "prep_inv ws (Suc n) q \<Longrightarrow> ?thesis" using prep_inv_text[of ws n q "dec_int i"] by simp
next
  case (PgBool b)
  then show "prep_inv ws (Suc n) q \<Longrightarrow> ?thesis" using prep_inv_text[of ws n q "if b then ''true'' else ''false''"] by simp
qed (auto intro!: prep_inv_text prep_inv_ptr simp: read_ptr_def)

lemma prep_inv_fold:
  "prep_inv ws (length ps) q \<Longrightarrow> prep_inv (ws @ map (param_wire D) ps) 0 (fold (prepare_param D) ps q)"
proof (induction ps arbitrary: ws q)
  case (Cons p ps)
  then show ?case using prep_inv_param[of ws "length ps" q D p] by fastforce
qed simp

lemma prepared_params:
  "sent (prepareParams D ps) = map (param_wire D) ps" "WDangling \<notin> set (map (param_wire D) ps)"
proof -
  let ?q = "\<lparr>pr_values = [], pr_lengths = [], pr_formats = [], pr_storage = [], pr_capacity = length ps, pr_moves = 0\<rparr>"
  have "prep_inv [] (length ps) ?q" by (simp add: prep_inv_def sent_def)
  from prep_inv_fold[OF this, of D] show "sent (prepareParams D ps) = map (param_wire D) ps" "WDangling \<notin> set (map (param_wire D) ps)"
    by (simp_all add: prepareParams_def prep_inv_def)
qed

text \<open>The number a decimal text stands for.\<close>

definition int_text :: "string \<Rightarrow> int" where
  "int_text s = (case s of CHR ''-'' # t \<Rightarrow> - int (undec t) | _ \<Rightarrow> int (undec s))"

lemma int_text_dec_int: "int_text (dec_int i) = i"
proof (cases "i < 0")
  case False
  have "CHR ''-'' \<notin> set (dec (nat i))" by (rule dec_no_sign)
  then have "int_text (dec (nat i)) = int (undec (dec (nat i)))"
    unfolding int_text_def by (auto split: list.splits char.splits bool.splits)
  then show ?thesis using False undec_dec by (simp add: dec_int_def)
qed (simp add: dec_int_def int_text_def undec_dec)

text \<open>
  C36. Every parameter arrives: because the storage is reserved for all of them beforehand no text moves under a pointer handed out before.
  At the place of each parameter libpq reads SQL NULL exactly for a null parameter and for empty bytes, the same bytes for other bytes, a decimal text of the
  same number for integers, \<open>true\<close> or \<open>false\<close>, a string up to its first NUL (all of it when it has none), and a double as the stream printed
  it (\<open>pe_double\<close>, 15 significant digits).
\<close>
theorem params_sent_exact:
  "length (sent (prepareParams D ps)) = length ps \<and> WDangling \<notin> set (sent (prepareParams D ps)) \<and>
   (\<forall>i < length ps. let p = ps ! i; w = sent (prepareParams D ps) ! i in
      (w = WNull \<longleftrightarrow> p = PgNull \<or> p = PgBytea []) \<and>
      (\<forall>bs. bs \<noteq> [] \<longrightarrow> (w = WBytes bs \<longleftrightarrow> p = PgBytea bs)) \<and>
      (\<forall>k. p = PgInt k \<or> p = PgInt64 k \<longrightarrow> (\<exists>t. w = WText t \<and> int_text t = k)) \<and>
      (\<forall>b. p = PgBool b \<longrightarrow> (w = WText ''true'' \<longleftrightarrow> b) \<and> (w = WText ''false'' \<longleftrightarrow> \<not> b)) \<and>
      (\<forall>s. p = PgString s \<longrightarrow> (\<exists>t. w = WText t \<and> CHR 0x00 \<notin> set t \<and> (s = t \<or> (\<exists>rest. s = t @ CHR 0x00 # rest)))) \<and>
      (\<forall>r. p = PgDouble r \<and> CHR 0x00 \<notin> set (D r) \<longrightarrow> w = WText (D r)))"
proof -
  have "(w = WNull \<longleftrightarrow> p = PgNull \<or> p = PgBytea []) \<and>
      (\<forall>bs. bs \<noteq> [] \<longrightarrow> (w = WBytes bs \<longleftrightarrow> p = PgBytea bs)) \<and>
      (\<forall>k. p = PgInt k \<or> p = PgInt64 k \<longrightarrow> (\<exists>t. w = WText t \<and> int_text t = k)) \<and>
      (\<forall>b. p = PgBool b \<longrightarrow> (w = WText ''true'' \<longleftrightarrow> b) \<and> (w = WText ''false'' \<longleftrightarrow> \<not> b)) \<and>
      (\<forall>s. p = PgString s \<longrightarrow> (\<exists>t. w = WText t \<and> CHR 0x00 \<notin> set t \<and> (s = t \<or> (\<exists>rest. s = t @ CHR 0x00 # rest)))) \<and>
      (\<forall>r. p = PgDouble r \<and> CHR 0x00 \<notin> set (D r) \<longrightarrow> w = WText (D r))" if "w = param_wire D p" for p w
  proof (cases p)
    case (PgString s)
    then show ?thesis using that c_string_no_nul[of s] c_string_cases[of s] by auto
  qed (use that in \<open>auto simp: int_text_dec_int c_string_plain\<close>)
  then show ?thesis using prepared_params by (simp add: Let_def)
qed

theorem params_sent_exact_witness:
  "\<exists>t n. sent (prepareParams (\<lambda>r. []) [PgInt (- 7), PgString [CHR ''a'', CHR 0x00, CHR ''b''], PgBytea [1, 0], PgNull]) = [WText n, WText t, WBytes [1, 0], WNull] \<and>
     int_text n = - 7 \<and> t = ''a''"
proof -
  let ?ps = "[PgInt (- 7), PgString [CHR ''a'', CHR 0x00, CHR ''b''], PgBytea [1, 0], PgNull]"
  let ?w = "sent (prepareParams (\<lambda>r. []) ?ps)"
  note all = params_sent_exact[of "\<lambda>r. []" ?ps, unfolded Let_def]
  have P: "length ?w = 4" using all by simp
  note at = conjunct2[OF conjunct2[OF all], rule_format]
  have "\<exists>n. ?w ! 0 = WText n \<and> int_text n = - 7" using at[of 0] by simp
  moreover have "\<exists>t. ?w ! 1 = WText t \<and> t = ''a''"
  proof -
    obtain t where t: "?w ! 1 = WText t" "CHR 0x00 \<notin> set t" "[CHR ''a'', CHR 0x00, CHR ''b''] = t \<or> (\<exists>rest. [CHR ''a'', CHR 0x00, CHR ''b''] = t @ CHR 0x00 # rest)"
      using at[of 1] by auto
    then have "t = ''a''" by (cases t) (auto simp: Cons_eq_append_conv)
    then show ?thesis using t(1) by blast
  qed
  moreover have "?w ! 2 = WBytes [1, 0]" "?w ! 3 = WNull" using at[of 2] at[of 3] by simp_all
  ultimately obtain n t where "?w ! 0 = WText n" "int_text n = - 7" "?w ! 1 = WText t" "t = ''a''" "?w ! 2 = WBytes [1, 0]" "?w ! 3 = WNull" by blast
  moreover have "?w = [?w ! 0, ?w ! 1, ?w ! 2, ?w ! 3]" using P by (intro nth_equalityI) (auto simp: less_Suc_eq numeral_eq_Suc)
  ultimately show ?thesis by metis
qed

section \<open>One statement on one connection\<close>

text \<open>
  What \<open>PQexec\<close> or \<open>PQexecParams\<close> returns: rows (column names and cells, a cell of SQL NULL being \<open>None\<close>), success without rows, an
  error, or no result object.  \<open>pg_results\<close> counts the \<open>PGresult\<close> objects not yet cleared.  \<open>pg_stopping\<close> is \<open>m_shuttingDown\<close>,
  \<open>pg_db\<close> the server's data.
\<close>

datatype pg_answer = Tuples "string list" "string option list list" | CommandOk | Failed | NoAnswer

record 'd pg_env =
  pe_exec :: "nat \<Rightarrow> string \<Rightarrow> wire list \<Rightarrow> 'd \<Rightarrow> pg_answer \<times> 'd"
  pe_double :: "real \<Rightarrow> string"
  pe_server :: server
  pe_others :: "pool \<Rightarrow> pool"
  pe_now :: int

record 'd pg_state =
  pg_pool :: pool
  pg_stopping :: bool
  pg_results :: nat
  pg_db :: 'd

text \<open>\<open>getConnection\<close> as one call: while it waits, the others do what \<open>pe_others\<close> says.\<close>

definition getConnection :: "'d pg_env \<Rightarrow> 'd pg_state \<Rightarrow> nat option \<times> 'd pg_state" where
  "getConnection E s =
     (case get_now (pe_server E) (pe_now E) (pg_pool s) of
        (Some c, P) \<Rightarrow> (Some c, s\<lparr>pg_pool := P\<rparr>)
      | (None, P) \<Rightarrow> (case get_after_wait (pe_server E) (pe_now E) (pe_others E P) of (r, P1) \<Rightarrow> (r, s\<lparr>pg_pool := P1\<rparr>)))"

definition release :: "'d pg_env \<Rightarrow> nat \<Rightarrow> 'd pg_state \<Rightarrow> 'd pg_state" where
  "release E c s = s\<lparr>pg_pool := releaseConnection (pe_now E) (Some c) (pg_pool s)\<rparr>"

text \<open>\<open>executeInternal\<close>: a successful result stays with the caller, an error's is cleared.\<close>

definition executeInternal :: "'d pg_env \<Rightarrow> nat \<Rightarrow> string \<Rightarrow> PgParam list \<Rightarrow> 'd pg_state \<Rightarrow> pg_answer option \<times> 'd pg_state" where
  "executeInternal E c query params s =
     (case pe_exec E c query (sent (prepareParams (pe_double E) params)) (pg_db s) of
        (a, d) \<Rightarrow> if a = Failed \<or> a = NoAnswer then (None, s\<lparr>pg_db := d\<rparr>)
                  else (Some a, s\<lparr>pg_db := d, pg_results := Suc (pg_results s)\<rparr>))"

record PgResultRow =
  rr_columns :: "string list"
  rr_valuesByIndex :: "string list"
  rr_values :: "(string, string) qmap"

definition cell_text :: "string option \<Rightarrow> string" where
  "cell_text v = (case v of None \<Rightarrow> [] | Some t \<Rightarrow> t)"

definition convert_row :: "string list \<Rightarrow> string option list \<Rightarrow> PgResultRow" where
  "convert_row cols cells =
     (let vs = map cell_text cells in
      \<lparr>rr_columns = cols, rr_valuesByIndex = vs, rr_values = fold (\<lambda>(k, v). qm_insert k v) (zip cols vs) []\<rparr>)"

text \<open>\<open>convertResult\<close> clears the result.\<close>

definition convertResult :: "pg_answer \<Rightarrow> 'd pg_state \<Rightarrow> PgResultRow list \<times> 'd pg_state" where
  "convertResult a s =
     (case a of Tuples cols rows \<Rightarrow> map (convert_row cols) rows | _ \<Rightarrow> [], s\<lparr>pg_results := pg_results s - 1\<rparr>)"

section \<open>Queries\<close>

definition pg_executeQuery :: "'d pg_env \<Rightarrow> string \<Rightarrow> PgParam list \<Rightarrow> 'd pg_state \<Rightarrow> PgResultRow list \<times> 'd pg_state" where
  "pg_executeQuery E query params s =
     (if pg_stopping s then ([], s)
      else case getConnection E s of
        (None, s1) \<Rightarrow> ([], s1)
      | (Some c, s1) \<Rightarrow>
          (case executeInternal E c query params s1 of
             (None, s2) \<Rightarrow> ([], release E c s2)
           | (Some a, s2) \<Rightarrow> convertResult a (release E c s2)))"

definition pg_executeNonQuery :: "'d pg_env \<Rightarrow> string \<Rightarrow> PgParam list \<Rightarrow> 'd pg_state \<Rightarrow> bool \<times> 'd pg_state" where
  "pg_executeNonQuery E query params s =
     (if pg_stopping s then (False, s)
      else case getConnection E s of
        (None, s1) \<Rightarrow> (False, s1)
      | (Some c, s1) \<Rightarrow> (case executeInternal E c query params s1 of (a, s2) \<Rightarrow> (a \<noteq> None, release E c s2)))"

text \<open>\<open>executeScalar\<close> takes the first entry of the map from column names to values.\<close>

definition pg_executeScalar :: "'d pg_env \<Rightarrow> string \<Rightarrow> PgParam list \<Rightarrow> 'd pg_state \<Rightarrow> string \<times> 'd pg_state" where
  "pg_executeScalar E query params s =
     (case pg_executeQuery E query params s of
        (r # rs, s1) \<Rightarrow> (case rr_values r of (k, v) # m \<Rightarrow> (v, s1) | [] \<Rightarrow> ([], s1))
      | ([], s1) \<Rightarrow> ([], s1))"

section \<open>Transactions\<close>

record transaction =
  tx_connection :: "nat option"
  tx_active :: bool

definition no_transaction :: transaction where
  "no_transaction = \<lparr>tx_connection = None, tx_active = False\<rparr>"

text \<open>The three commands without parameters; their result is always cleared.\<close>

definition command :: "'d pg_env \<Rightarrow> nat \<Rightarrow> string \<Rightarrow> 'd pg_state \<Rightarrow> bool \<times> 'd pg_state" where
  "command E c sql s = (case pe_exec E c sql [] (pg_db s) of (a, d) \<Rightarrow> (a = CommandOk, s\<lparr>pg_db := d\<rparr>))"

definition pg_beginTransaction :: "'d pg_env \<Rightarrow> 'd pg_state \<Rightarrow> transaction \<times> 'd pg_state" where
  "pg_beginTransaction E s =
     (case getConnection E s of
        (None, s1) \<Rightarrow> (no_transaction, s1)
      | (Some c, s1) \<Rightarrow>
          (case command E c ''BEGIN'' s1 of
             (True, s2) \<Rightarrow> (\<lparr>tx_connection = Some c, tx_active = True\<rparr>, s2)
           | (False, s2) \<Rightarrow> (no_transaction, release E c s2)))"

definition end_transaction :: "string \<Rightarrow> 'd pg_env \<Rightarrow> transaction \<Rightarrow> 'd pg_state \<Rightarrow> bool \<times> transaction \<times> 'd pg_state" where
  "end_transaction sql E tx s =
     (case (tx_active tx, tx_connection tx) of
        (True, Some c) \<Rightarrow> (case command E c sql s of (ok, s1) \<Rightarrow> (ok, no_transaction, release E c s1))
      | _ \<Rightarrow> (False, tx, s))"

definition pg_commitTransaction :: "'d pg_env \<Rightarrow> transaction \<Rightarrow> 'd pg_state \<Rightarrow> bool \<times> transaction \<times> 'd pg_state" where
  "pg_commitTransaction = end_transaction ''COMMIT''"

definition pg_rollbackTransaction :: "'d pg_env \<Rightarrow> transaction \<Rightarrow> 'd pg_state \<Rightarrow> bool \<times> transaction \<times> 'd pg_state" where
  "pg_rollbackTransaction = end_transaction ''ROLLBACK''"

definition executeQueryInTransaction :: "'d pg_env \<Rightarrow> transaction \<Rightarrow> string \<Rightarrow> PgParam list \<Rightarrow> 'd pg_state
    \<Rightarrow> PgResultRow list \<times> 'd pg_state" where
  "executeQueryInTransaction E tx query params s =
     (case (tx_active tx, tx_connection tx) of
        (True, Some c) \<Rightarrow> (case executeInternal E c query params s of
            (None, s1) \<Rightarrow> ([], s1) | (Some a, s1) \<Rightarrow> convertResult a s1)
      | _ \<Rightarrow> ([], s))"

definition executeNonQueryInTransaction :: "'d pg_env \<Rightarrow> transaction \<Rightarrow> string \<Rightarrow> PgParam list \<Rightarrow> 'd pg_state \<Rightarrow> bool \<times> 'd pg_state" where
  "executeNonQueryInTransaction E tx query params s =
     (case (tx_active tx, tx_connection tx) of
        (True, Some c) \<Rightarrow> (case executeInternal E c query params s of (a, s1) \<Rightarrow> (a \<noteq> None, s1))
      | _ \<Rightarrow> (False, s))"

section \<open>Batch insertion\<close>

fun join_sql :: "string \<Rightarrow> string list \<Rightarrow> string" where
  "join_sql sep [] = []"
| "join_sql sep [x] = x"
| "join_sql sep (x # xs) = x @ sep @ join_sql sep xs"

definition insert_sql :: "string \<Rightarrow> string list \<Rightarrow> string" where
  "insert_sql table cols =
     ''INSERT INTO '' @ table @ '' ('' @ join_sql '', '' cols @ '') VALUES ('' @ join_sql '', '' (map (\<lambda>i. ''$'' @ dec (Suc i)) [0..<length cols]) @ '')''"

text \<open>
  The body of the asynchronous insertion; \<open>halt n\<close> is \<open>m_shuttingDown\<close> as the loop reads it before the n-th row.
\<close>

fun batch_loop :: "'d pg_env \<Rightarrow> (nat \<Rightarrow> bool) \<Rightarrow> string \<Rightarrow> string list \<Rightarrow> transaction \<Rightarrow> nat \<Rightarrow> (string, PgParam) qmap list \<Rightarrow> 'd pg_state
    \<Rightarrow> nat \<times> 'd pg_state" where
  "batch_loop E halt sql cols tx n [] s =
     (case pg_commitTransaction E tx s of (ok, tx1, s1) \<Rightarrow> (if ok then n else 0, s1))"
| "batch_loop E halt sql cols tx n (row # rows) s =
     (if halt n then (n, snd (snd (pg_rollbackTransaction E tx s)))
      else case executeNonQueryInTransaction E tx sql (map (\<lambda>c. qm_value row c PgNull) cols) s of
        (True, s1) \<Rightarrow> batch_loop E halt sql cols tx (Suc n) rows s1
      | (False, s1) \<Rightarrow> (n, snd (snd (pg_rollbackTransaction E tx s1))))"

definition pg_batchInsert :: "'d pg_env \<Rightarrow> (nat \<Rightarrow> bool) \<Rightarrow> string \<Rightarrow> (string, PgParam) qmap list \<Rightarrow> 'd pg_state \<Rightarrow> nat \<times> 'd pg_state" where
  "pg_batchInsert E halt table rows s =
     (if pg_stopping s \<or> rows = [] then (0, s)
      else case pg_beginTransaction E s of
        (tx, s1) \<Rightarrow> if \<not> tx_active tx then (0, s1)
                    else let cols = map fst (hd rows) in batch_loop E halt (insert_sql table cols) cols tx 0 rows s1)"

section \<open>Results and connections are given back, or not\<close>

lemma getConnection_results: "pg_results (snd (getConnection E s)) = pg_results s" "pg_db (snd (getConnection E s)) = pg_db s"
  by (auto simp: getConnection_def split: option.splits prod.splits)

lemma release_results [simp]: "pg_results (release E c s) = pg_results s" "pg_db (release E c s) = pg_db s"
  by (simp_all add: release_def)

lemma executeInternal_results:
  "executeInternal E c q ps s = (a, s') \<Longrightarrow> pg_results s' = pg_results s + (if a = None then 0 else 1) \<and> pg_pool s' = pg_pool s"
  by (auto simp: executeInternal_def split: prod.splits if_splits)

text \<open>
  A query clears its result, a statement that is not a query never does: after any sequence of such statements as many result objects
  are left behind as statements succeeded.
\<close>
theorem non_query_leaks_results:
  "pg_results (snd (pg_executeQuery E query params s)) = pg_results s \<and>
   pg_results (snd (fold (\<lambda>(sql, ps) (n, s1). case pg_executeNonQuery E sql ps s1 of (ok, s2) \<Rightarrow> (if ok then Suc n else n, s2)) sts (0, s))) =
     pg_results s + fst (fold (\<lambda>(sql, ps) (n, s1). case pg_executeNonQuery E sql ps s1 of (ok, s2) \<Rightarrow> (if ok then Suc n else n, s2)) sts (0, s))"
proof -
  let ?f = "\<lambda>(sql, ps) (n, s1). case pg_executeNonQuery E sql ps s1 of (ok, s2) \<Rightarrow> (if ok then Suc n else n, s2)"
  have one: "pg_results (snd (pg_executeNonQuery E q ps s)) = pg_results s + (if fst (pg_executeNonQuery E q ps s) then 1 else 0)" for q ps s
    using getConnection_results(1)[of E s]
    by (auto simp: pg_executeNonQuery_def split: prod.splits option.splits dest!: executeInternal_results)
  have "pg_results (snd (fold ?f sts (n, s))) + n = pg_results s + fst (fold ?f sts (n, s))" for n s
  proof (induction sts arbitrary: n s)
    case (Cons st sts)
    obtain sql ps where st: "st = (sql, ps)" by (cases st)
    obtain ok s2 where r: "pg_executeNonQuery E sql ps s = (ok, s2)" by (cases "pg_executeNonQuery E sql ps s")
    have "pg_results s2 = pg_results s + (if ok then 1 else 0)" using one[of sql ps s] r by simp
    then show ?case using Cons.IH[of "if ok then Suc n else n" s2] st r by (simp split: if_splits)
  qed simp
  from this[of 0 s] show ?thesis using getConnection_results(1)[of E s]
    by (auto simp: pg_executeQuery_def convertResult_def split: prod.splits option.splits dest!: executeInternal_results)
qed

lemma getConnection_Some:
  assumes "conn_pool_ok (pg_pool s)" "conn_pool_ok (pe_others E (pg_pool s))" "getConnection E s = (Some c, s')"
  shows "\<exists>P. (P = pg_pool s \<or> P = pe_others E (pg_pool s)) \<and> conn_pool_ok (pg_pool s') \<and> conns_in_use (pg_pool s') = insert c (conns_in_use P) \<and> c \<notin> conns_in_use P"
proof (cases "get_now (pe_server E) (pe_now E) (pg_pool s)")
  case (Pair r P)
  show ?thesis
  proof (cases r)
    case None
    then have "P = pg_pool s" using Pair get_now_None[of "pe_server E" "pe_now E" "pg_pool s" P] by simp
    then show ?thesis using assms None Pair get_after_wait_Some[OF assms(2), of "pe_server E" "pe_now E" c "pg_pool s'"]
      by (force simp: getConnection_def split: prod.splits)
  next
    case (Some x)
    then show ?thesis using assms Pair get_now_Some[OF assms(1), of "pe_server E" "pe_now E" x P] by (force simp: getConnection_def)
  qed
qed

lemma getConnection_None:
  assumes "getConnection E s = (None, s')"
  shows "pg_pool s' = pe_others E (pg_pool s)"
  using assms
  by (auto simp: getConnection_def dest!: get_now_None get_after_wait_None split: prod.splits option.splits)

lemma release_active:
  "conn_pool_ok (pg_pool s) \<Longrightarrow> conns_in_use (pg_pool s) = insert c A \<Longrightarrow> c \<notin> A \<Longrightarrow> conns_in_use (pg_pool (release E c s)) = A \<and> conn_pool_ok (pg_pool (release E c s))"
  using release_pool[of "pg_pool s" "pe_now E" c] by (simp add: release_def)

text \<open>
  No statement keeps its connection, on any path: after a query or a statement the connections in use are those in use before it, or those the
  other threads left in use while it waited.
\<close>
theorem statements_return_connections:
  assumes "conn_pool_ok (pg_pool s)" "conn_pool_ok (pe_others E (pg_pool s))"
  shows "conns_in_use (pg_pool (snd (pg_executeQuery E q ps s))) \<in> {conns_in_use (pg_pool s), conns_in_use (pe_others E (pg_pool s))} \<and>
    conns_in_use (pg_pool (snd (pg_executeNonQuery E q ps s))) \<in> {conns_in_use (pg_pool s), conns_in_use (pe_others E (pg_pool s))}"
proof (cases "getConnection E s")
  case (Pair r s1)
  show ?thesis
  proof (cases r)
    case None
    then show ?thesis using Pair getConnection_None[of E s s1] by (simp add: pg_executeQuery_def pg_executeNonQuery_def)
  next
    case (Some c)
    then obtain P where P: "P = pg_pool s \<or> P = pe_others E (pg_pool s)" "conn_pool_ok (pg_pool s1)" "conns_in_use (pg_pool s1) = insert c (conns_in_use P)"
      "c \<notin> conns_in_use P" using getConnection_Some[OF assms] Pair by blast
    obtain a s2 where i: "executeInternal E c q ps s1 = (a, s2)" by (cases "executeInternal E c q ps s1")
    then have "pg_pool s2 = pg_pool s1" using executeInternal_results by blast
    then have "conns_in_use (pg_pool (release E c s2)) = conns_in_use P" using release_active[of s2 c "conns_in_use P" E] P by simp
    then show ?thesis using P(1) Pair Some i
      by (auto simp: pg_executeQuery_def pg_executeNonQuery_def convertResult_def split: option.splits)
  qed
qed

section \<open>Transactions and the count of a batch\<close>

text \<open>
  What PostgreSQL documents: a session's changes inside a transaction block are not visible outside until its \<open>COMMIT\<close>, and
  \<open>ROLLBACK\<close> drops them.
\<close>

definition session_laws :: "'d pg_env \<Rightarrow> ('d \<Rightarrow> 'v) \<Rightarrow> (nat \<Rightarrow> 'd \<Rightarrow> bool) \<Rightarrow> bool" where
  "session_laws E committed open_tx \<longleftrightarrow>
     (\<forall>c d. committed (snd (pe_exec E c ''BEGIN'' [] d)) = committed d) \<and>
     (\<forall>c d. fst (pe_exec E c ''BEGIN'' [] d) = CommandOk \<longrightarrow> open_tx c (snd (pe_exec E c ''BEGIN'' [] d))) \<and>
     (\<forall>c d sql ps. open_tx c d \<and> sql \<noteq> ''BEGIN'' \<and> sql \<noteq> ''COMMIT'' \<and> sql \<noteq> ''ROLLBACK'' \<longrightarrow>
        committed (snd (pe_exec E c sql ps d)) = committed d \<and> open_tx c (snd (pe_exec E c sql ps d))) \<and>
     (\<forall>c d. open_tx c d \<longrightarrow> committed (snd (pe_exec E c ''ROLLBACK'' [] d)) = committed d)"

definition in_tx :: "(nat \<Rightarrow> 'd \<Rightarrow> bool) \<Rightarrow> transaction \<Rightarrow> 'd pg_state \<Rightarrow> bool" where
  "in_tx open_tx tx s \<longleftrightarrow> tx_active tx \<and> (case tx_connection tx of Some c \<Rightarrow> open_tx c (pg_db s) | None \<Rightarrow> False)"

lemma begin_tx:
  assumes "session_laws E committed open_tx" "pg_beginTransaction E s = (tx, s1)"
  shows "committed (pg_db s1) = committed (pg_db s)" "tx_active tx \<Longrightarrow> in_tx open_tx tx s1"
proof -
  have "pg_db (snd (getConnection E s)) = pg_db s" by (rule getConnection_results)
  then have "committed (pg_db s1) = committed (pg_db s) \<and> (tx_active tx \<longrightarrow> in_tx open_tx tx s1)"
    using assms unfolding session_laws_def
    by (auto simp: pg_beginTransaction_def command_def in_tx_def no_transaction_def split: prod.splits option.splits bool.splits)
      (metis snd_conv fst_conv)+
  then show "committed (pg_db s1) = committed (pg_db s)" "tx_active tx \<Longrightarrow> in_tx open_tx tx s1" by simp_all
qed

lemma statement_in_tx:
  assumes "session_laws E committed open_tx" "in_tx open_tx tx s" "sql \<noteq> ''BEGIN''" "sql \<noteq> ''COMMIT''" "sql \<noteq> ''ROLLBACK''"
    "executeNonQueryInTransaction E tx sql ps s = (ok, s1)"
  shows "committed (pg_db s1) = committed (pg_db s)" "in_tx open_tx tx s1"
proof -
  obtain c where c: "tx_active tx" "tx_connection tx = Some c" "open_tx c (pg_db s)" using assms(2) by (auto simp: in_tx_def split: option.splits)
  let ?d = "snd (pe_exec E c sql (sent (prepareParams (pe_double E) ps)) (pg_db s))"
  have "committed ?d = committed (pg_db s) \<and> open_tx c ?d" using assms(1,3-5) c(3) unfolding session_laws_def by blast
  moreover have "pg_db s1 = ?d" using assms(6) c by (auto simp: executeNonQueryInTransaction_def executeInternal_def split: prod.splits if_splits)
  ultimately show "committed (pg_db s1) = committed (pg_db s)" "in_tx open_tx tx s1" using c by (simp_all add: in_tx_def)
qed

lemma rollback_tx:
  assumes "session_laws E committed open_tx" "in_tx open_tx tx s"
  shows "committed (pg_db (snd (snd (pg_rollbackTransaction E tx s)))) = committed (pg_db s)"
  using assms unfolding session_laws_def
  by (auto simp: in_tx_def pg_rollbackTransaction_def end_transaction_def command_def split: option.splits prod.splits) (metis snd_conv)

lemma batch_loop_stopped:
  assumes "session_laws E committed open_tx" "in_tx open_tx tx s" "sql \<noteq> ''BEGIN''" "sql \<noteq> ''COMMIT''" "sql \<noteq> ''ROLLBACK''"
    "batch_loop E halt sql cols tx n rows s = (m, s')" "m < n + length rows" "m \<noteq> 0"
  shows "committed (pg_db s') = committed (pg_db s) \<and> n \<le> m"
  using assms(2,6-8)
proof (induction rows arbitrary: n s)
  case (Cons row rows)
  show ?case
  proof (cases "halt n")
    case True
    then show ?thesis using Cons.prems rollback_tx[OF assms(1) Cons.prems(1)] by auto
  next
    case False
    let ?ps = "map (\<lambda>c. qm_value row c PgNull) cols"
    obtain ok s1 where r: "executeNonQueryInTransaction E tx sql ?ps s = (ok, s1)"
      by (cases "executeNonQueryInTransaction E tx sql ?ps s")
    note st = statement_in_tx[OF assms(1) Cons.prems(1) assms(3-5) r]
    show ?thesis
    proof (cases ok)
      case True
      then show ?thesis using Cons.IH[OF st(2), of "Suc n"] Cons.prems False r st(1) by simp
    next
      case no: False
      then show ?thesis using Cons.prems False r rollback_tx[OF assms(1) st(2)] st(1) by auto
    qed
  qed
qed (auto split: prod.splits if_splits)

text \<open>
  A batch insertion that is stopped by a failing row, or because the program ends, is rolled back completely, and yet the function returns how many rows had
  been accepted before: with a result between one and the number of rows nothing at all was stored.
\<close>
theorem batch_count_after_rollback:
  assumes "session_laws E committed open_tx" "pg_batchInsert E halt table rows s = (n, s')" "0 < n" "n < length rows"
  shows "committed (pg_db s') = committed (pg_db s)"
proof -
  obtain tx s1 where b: "pg_beginTransaction E s = (tx, s1)" by (cases "pg_beginTransaction E s")
  let ?cols = "map fst (hd rows)"
  have act: "tx_active tx" and loop: "batch_loop E halt (insert_sql table ?cols) ?cols tx 0 rows s1 = (n, s')"
    using assms(2,3) b by (auto simp: pg_batchInsert_def Let_def split: if_splits)
  have sql: "insert_sql table ?cols \<noteq> ''BEGIN''" "insert_sql table ?cols \<noteq> ''COMMIT''" "insert_sql table ?cols \<noteq> ''ROLLBACK''"
    by (simp_all add: insert_sql_def)
  from batch_loop_stopped[OF assms(1) begin_tx(2)[OF assms(1) b act] sql loop] assms(3,4) show ?thesis
    using begin_tx(1)[OF assms(1) b] by simp
qed

text \<open>A server with one table, which refuses the row \<open>bad\<close>: what is committed, and the open transaction's view.\<close>

definition sample_exec :: "nat \<Rightarrow> string \<Rightarrow> wire list \<Rightarrow> wire list list \<times> wire list list option \<Rightarrow> pg_answer \<times> wire list list \<times> wire list list option" where
  "sample_exec c sql ps d =
     (if sql = ''BEGIN'' then (CommandOk, fst d, Some (fst d))
      else if sql = ''COMMIT'' then (CommandOk, (case snd d of Some x \<Rightarrow> x | None \<Rightarrow> fst d), None)
      else if sql = ''ROLLBACK'' then (CommandOk, fst d, None)
      else if ps = [WText ''bad''] then (Failed, d)
      else (CommandOk, (case snd d of Some x \<Rightarrow> (fst d, Some (x @ [ps])) | None \<Rightarrow> (fst d @ [ps], None))))"

definition sample_pg_env :: "(wire list list \<times> wire list list option) pg_env" where
  "sample_pg_env = \<lparr>pe_exec = sample_exec, pe_double = (\<lambda>r. ''0''), pe_server = sample_server, pe_others = (\<lambda>P. P), pe_now = 0\<rparr>"

definition sample_state :: "(wire list list \<times> wire list list option) pg_state" where
  "sample_state = \<lparr>pg_pool = sample_pool, pg_stopping = False, pg_results = 0, pg_db = ([], None)\<rparr>"

lemma sample_session: "session_laws sample_pg_env fst (\<lambda>c d. snd d \<noteq> None)"
  by (simp add: session_laws_def sample_pg_env_def sample_exec_def split: option.splits)

lemma sample_param [simp]: "CHR 0x00 \<notin> set x \<Longrightarrow> sent (prepareParams D [PgString x]) = [WText x]"
  using prepared_params(1)[of D "[PgString x]"] c_string_plain[of x] by simp

theorem batch_count_after_rollback_witness:
  "fst (pg_batchInsert sample_pg_env (\<lambda>n. False) ''t'' [[(''a'', PgString ''ok'')], [(''a'', PgString ''bad'')]] sample_state) = 1 \<and>
   fst (pg_db (snd (pg_batchInsert sample_pg_env (\<lambda>n. False) ''t'' [[(''a'', PgString ''ok'')], [(''a'', PgString ''bad'')]] sample_state))) = []"
proof -
  let ?r = "pg_batchInsert sample_pg_env (\<lambda>n. False) ''t'' [[(''a'', PgString ''ok'')], [(''a'', PgString ''bad'')]] sample_state"
  have n: "fst ?r = 1"
    by (simp add: pg_batchInsert_def sample_state_def pg_beginTransaction_def getConnection_def get_now_def usable_def sample_pool_def
        sample_pg_env_def sample_server_def command_def sample_exec_def executeNonQueryInTransaction_def executeInternal_def qm_value_def
        pg_rollbackTransaction_def end_transaction_def insert_sql_def Let_def)
  have "?r = (1, snd ?r)" using n by (metis prod.collapse)
  from batch_count_after_rollback[OF sample_session this] show ?thesis using n by (simp add: sample_state_def)
qed

theorem statements_return_connections_witness:
  "fst (pg_executeNonQuery sample_pg_env ''x'' [PgString ''ok''] sample_state) \<and>
   conns_in_use (pg_pool (snd (pg_executeNonQuery sample_pg_env ''x'' [PgString ''ok''] sample_state))) = {}"
proof -
  have ok: "conn_pool_ok (pg_pool sample_state)" "conns_in_use (pg_pool sample_state) = {}" "pe_others sample_pg_env (pg_pool sample_state) = pg_pool sample_state"
    by (simp_all add: sample_state_def sample_pool_def conn_pool_ok_def conns_in_use_def sample_pg_env_def)
  have "fst (pg_executeNonQuery sample_pg_env ''x'' [PgString ''ok''] sample_state)"
    by (simp add: pg_executeNonQuery_def sample_state_def getConnection_def get_now_def usable_def sample_pool_def
        sample_pg_env_def sample_server_def sample_exec_def executeInternal_def)
  then show ?thesis using statements_return_connections[of sample_state sample_pg_env "''x''" "[PgString ''ok'']"] ok by simp
qed

end
