(* ===== verification/Db_Manager.thy ===== *)
theory Db_Manager
  imports Pg_Manager
begin

text \<open>
  The Qt side of the database access: \<open>PgQtDatabaseManager\<close> (placeholders, parameters, rows, one transaction per thread) and
  \<open>DatabaseManager\<close>, which in its default mode sends every statement through libpq and copies the rows of a query into an SQLite table in
  memory so that its callers can read a \<open>QSqlQuery\<close>.  The other mode, Qt's own PostgreSQL driver, is a parameter.
\<close>

section \<open>Placeholders\<close>

abbreviation quote :: char where "quote \<equiv> CHR 0x27"

function placeholders :: "bool \<Rightarrow> nat \<Rightarrow> string \<Rightarrow> string" where
  "placeholders inSingle idx [] = []"
| "placeholders inSingle idx (c # cs) =
     (if c = quote
      then (case cs of
              d # ds \<Rightarrow> if inSingle \<and> d = quote then c # d # placeholders inSingle idx ds
                       else c # placeholders (\<not> inSingle) idx cs
            | [] \<Rightarrow> c # placeholders (\<not> inSingle) idx cs)
      else if \<not> inSingle \<and> c = CHR ''?'' then CHR ''$'' # dec (Suc idx) @ placeholders inSingle (Suc idx) cs
      else c # placeholders inSingle idx cs)"
  by pat_completeness auto
termination by (relation "measure (\<lambda>(b, i, cs). length cs)") auto

definition convertQtPlaceholders :: "string \<Rightarrow> string" where
  "convertQtPlaceholders sql = placeholders False 0 sql"

text \<open>The reference: split at the quotes; in the parts outside, the question marks are numbered.\<close>

fun number_marks :: "bool \<Rightarrow> nat \<Rightarrow> string \<Rightarrow> string" where
  "number_marks inside idx [] = []"
| "number_marks inside idx (c # cs) =
     (if \<not> inside \<and> c = CHR ''?'' then CHR ''$'' # dec (Suc idx) @ number_marks inside (Suc idx) cs
      else c # number_marks (inside \<noteq> (c = quote)) idx cs)"

lemma numbered_placeholders:
  "convertQtPlaceholders sql = number_marks False 0 sql \<and> (CHR ''?'' \<in> set sql \<or> convertQtPlaceholders sql = sql)"
proof -
  have same: "placeholders b i cs = number_marks b i cs" for b i cs
  proof (induction b i cs rule: placeholders.induct)
    case (2 b i c cs)
    show ?case
    proof (cases "c = quote")
      case True
      show ?thesis
      proof (cases cs)
        case Nil
        then show ?thesis using 2(1)[OF True Nil] True Nil by simp
      next
        case (Cons d ds)
        then show ?thesis using 2(2,3)[OF True Cons] True Cons by (cases "b \<and> d = quote") auto
      qed
    next
      case False
      then show ?thesis using 2(4)[OF False] 2(5)[OF False] by (cases "\<not> b \<and> c = CHR ''?''") auto
    qed
  qed simp
  have "number_marks b i cs = cs" if "CHR ''?'' \<notin> set cs" for b i cs
    using that by (induction b i cs rule: number_marks.induct) auto
  then show ?thesis using same by (auto simp: convertQtPlaceholders_def)
qed

text \<open>
  A doubled quote inside a literal needs no care: the conversion of placeholders is the plain numbering of the question marks outside
  quotes, and a statement without a question mark is sent as it is, so that one with named placeholders reaches the server unconverted.
\<close>
theorem placeholders_plain:
  "convertQtPlaceholders sql = number_marks False 0 sql \<and> (CHR ''?'' \<in> set sql \<or> convertQtPlaceholders sql = sql)"
  by (rule numbered_placeholders)

section \<open>Parameters and rows\<close>

text \<open>A \<open>QVariant\<close> as the callers make them; \<open>DvText\<close> is the text of every type without a case of its own.\<close>

datatype db_variant = DvInvalid | DvNull | DvBool bool | DvInt int | DvUInt int | DvLongLong int | DvULongLong int | DvDouble real
  | DvDateTime int | DvBytes "nat list" | DvText qstring

record qt_db =
  qd_toStd :: "qstring \<Rightarrow> string"
  qd_fromStd :: "string \<Rightarrow> qstring"
  qd_utc :: "int \<Rightarrow> string"

definition toPgParam :: "qt_db \<Rightarrow> db_variant \<Rightarrow> PgParam" where
  "toPgParam Q v =
     (case v of
        DvInvalid \<Rightarrow> PgNull | DvNull \<Rightarrow> PgNull | DvBool b \<Rightarrow> PgBool b | DvInt i \<Rightarrow> PgInt i | DvUInt i \<Rightarrow> PgInt (to_i32 i)
      | DvLongLong i \<Rightarrow> PgInt64 i | DvULongLong i \<Rightarrow> PgInt64 (to_i64 i) | DvDouble r \<Rightarrow> PgDouble r
      | DvDateTime t \<Rightarrow> PgString (qd_utc Q t) | DvBytes bs \<Rightarrow> PgBytea bs | DvText s \<Rightarrow> PgString (qd_toStd Q s))"

definition c_name :: "nat \<Rightarrow> string" where
  "c_name i = ''_c'' @ dec i"

definition toQtRow :: "qt_db \<Rightarrow> PgResultRow \<Rightarrow> (string, qstring) qmap" where
  "toQtRow Q row = fold (\<lambda>i m.
       let key = rr_columns row ! i;
           val = (if i < length (rr_valuesByIndex row) then qd_fromStd Q (rr_valuesByIndex row ! i) else [])
       in qm_insert key val (qm_insert (c_name i) val m)) [0..<length (rr_columns row)] []"

section \<open>\<open>PgQtDatabaseManager\<close>\<close>

text \<open>\<open>pq_slot t\<close> is the transaction of thread \<open>t\<close>; no entry is the same as an inactive one.\<close>

record 'd pgqt =
  pq_initialized :: bool
  pq_pg :: "'d pg_state"
  pq_slot :: "nat \<Rightarrow> transaction"

definition slot_active :: "nat \<Rightarrow> 'd pgqt \<Rightarrow> bool" where
  "slot_active t s = tx_active (pq_slot s t)"

definition pgqt_executeQuery :: "qt_db \<Rightarrow> 'd pg_env \<Rightarrow> nat \<Rightarrow> string \<Rightarrow> db_variant list \<Rightarrow> 'd pgqt \<Rightarrow> (string, qstring) qmap list \<times> 'd pgqt" where
  "pgqt_executeQuery Q E t query params s =
     (if \<not> pq_initialized s then ([], s)
      else let sql = convertQtPlaceholders query;
               ps = map (toPgParam Q) params;
               (rows, g) = (if slot_active t s then executeQueryInTransaction E (pq_slot s t) sql ps (pq_pg s)
                            else pg_executeQuery E sql ps (pq_pg s))
           in (map (toQtRow Q) rows, s\<lparr>pq_pg := g\<rparr>))"

definition pgqt_executeNonQuery :: "qt_db \<Rightarrow> 'd pg_env \<Rightarrow> nat \<Rightarrow> string \<Rightarrow> db_variant list \<Rightarrow> 'd pgqt \<Rightarrow> bool \<times> 'd pgqt" where
  "pgqt_executeNonQuery Q E t query params s =
     (if \<not> pq_initialized s then (False, s)
      else let sql = convertQtPlaceholders query;
               ps = map (toPgParam Q) params;
               (ok, g) = (if slot_active t s then executeNonQueryInTransaction E (pq_slot s t) sql ps (pq_pg s)
                          else pg_executeNonQuery E sql ps (pq_pg s))
           in (ok, s\<lparr>pq_pg := g\<rparr>))"

text \<open>In a transaction the scalar is the first column, outside it what \<open>executeScalar\<close> below gives; \<open>None\<close> is an invalid variant.\<close>

definition pgqt_executeScalar :: "qt_db \<Rightarrow> 'd pg_env \<Rightarrow> nat \<Rightarrow> string \<Rightarrow> db_variant list \<Rightarrow> 'd pgqt \<Rightarrow> qstring option \<times> 'd pgqt" where
  "pgqt_executeScalar Q E t query params s =
     (if \<not> pq_initialized s then (None, s)
      else let sql = convertQtPlaceholders query;
               ps = map (toPgParam Q) params
           in if slot_active t s
              then (case executeQueryInTransaction E (pq_slot s t) sql ps (pq_pg s) of
                      (r # rs, g) \<Rightarrow> (case rr_valuesByIndex r of v # vs \<Rightarrow> Some (qd_fromStd Q v) | [] \<Rightarrow> None, s\<lparr>pq_pg := g\<rparr>)
                    | ([], g) \<Rightarrow> (None, s\<lparr>pq_pg := g\<rparr>))
              else (case pg_executeScalar E sql ps (pq_pg s) of (v, g) \<Rightarrow> (Some (qd_fromStd Q v), s\<lparr>pq_pg := g\<rparr>)))"

definition pgqt_beginTransaction :: "'d pg_env \<Rightarrow> nat \<Rightarrow> 'd pgqt \<Rightarrow> bool \<times> 'd pgqt" where
  "pgqt_beginTransaction E t s =
     (if \<not> pq_initialized s \<or> slot_active t s then (False, s)
      else case pg_beginTransaction E (pq_pg s) of
        (tx, g) \<Rightarrow> (tx_active tx, s\<lparr>pq_pg := g, pq_slot := (pq_slot s)(t := tx)\<rparr>))"

definition pgqt_end :: "('d pg_env \<Rightarrow> transaction \<Rightarrow> 'd pg_state \<Rightarrow> bool \<times> transaction \<times> 'd pg_state) \<Rightarrow> 'd pg_env \<Rightarrow> nat \<Rightarrow> 'd pgqt \<Rightarrow> bool \<times> 'd pgqt" where
  "pgqt_end f E t s =
     (if \<not> slot_active t s then (False, s)
      else case f E (pq_slot s t) (pq_pg s) of
        (ok, tx, g) \<Rightarrow> (ok, s\<lparr>pq_pg := g, pq_slot := (pq_slot s)(t := tx\<lparr>tx_active := False\<rparr>)\<rparr>))"

definition pgqt_commitTransaction :: "'d pg_env \<Rightarrow> nat \<Rightarrow> 'd pgqt \<Rightarrow> bool \<times> 'd pgqt" where
  "pgqt_commitTransaction = pgqt_end pg_commitTransaction"

definition pgqt_rollbackTransaction :: "'d pg_env \<Rightarrow> nat \<Rightarrow> 'd pgqt \<Rightarrow> bool \<times> 'd pgqt" where
  "pgqt_rollbackTransaction = pgqt_end pg_rollbackTransaction"

section \<open>The copy into SQLite\<close>

text \<open>
  \<open>sq_create cols\<close>: a table with these columns can be made (SQLite refuses two names that differ only in case); \<open>sq_insert\<close>: a row can
  be inserted. \<open>None\<close> is \<open>QSqlQuery()\<close>, which has no rows.
\<close>

record sqlite =
  sq_open :: bool
  sq_create :: "string list \<Rightarrow> bool"
  sq_insert :: "qstring option list \<Rightarrow> bool"

record table_result =
  tr_columns :: "string list"
  tr_rows :: "qstring option list list"

definition column_names :: "(string, qstring) qmap \<Rightarrow> string list" where
  "column_names first = takeWhile (\<lambda>k. qm_contains first k) (map c_name [0..<Suc (length first)])"

definition display_columns :: "(string, qstring) qmap \<Rightarrow> string list" where
  "display_columns first =
     (let cs = column_names first;
          colNames = (if cs = [] then filter (\<lambda>k. k \<noteq> []) (map fst first) else cs)
      in if colNames \<noteq> [] \<and> starts_with ''_c'' (hd colNames)
         then colNames @ filter (\<lambda>k. \<not> starts_with ''_c'' k \<and> k \<notin> set colNames) (map fst first)
         else colNames)"

text \<open>The loop that appends a number until the name is new tries at most one more name than there are.\<close>

definition unique_name :: "string list \<Rightarrow> string \<Rightarrow> string" where
  "unique_name used name =
     (case find (\<lambda>u. u \<notin> set used) (name # map (\<lambda>j. name @ ''_'' @ dec j) [1..<Suc (length used)]) of Some u \<Rightarrow> u | None \<Rightarrow> name)"

definition unique_columns :: "string list \<Rightarrow> string list" where
  "unique_columns cs = fold (\<lambda>i used. used @ [unique_name used (if cs ! i = [] then c_name i else cs ! i)]) [0..<length cs] []"

text \<open>The tables the thread's database has, and the thread's counter; the new table is never dropped.\<close>

record buffers =
  bf_tables :: "string list"
  bf_seq :: nat

definition materializeRowsToSqlQuery :: "sqlite \<Rightarrow> (string, qstring) qmap list \<Rightarrow> buffers \<Rightarrow> table_result option \<times> buffers" where
  "materializeRowsToSqlQuery L rows b =
     (case rows of
        [] \<Rightarrow> (None, b)
      | first # rest \<Rightarrow>
          if \<not> sq_open L then (None, b)
          else let shown = display_columns first;
                   cols = unique_columns shown;
                   b1 = b\<lparr>bf_seq := Suc (bf_seq b)\<rparr>
               in if \<not> sq_create L cols then (None, b1)
                  else let copied = map (\<lambda>r. map (map_of r) shown) rows;
                           b2 = b1\<lparr>bf_tables := bf_tables b @ [''qbuf_'' @ dec (bf_seq b1)]\<rparr>
                       in if list_all (sq_insert L) copied then (Some \<lparr>tr_columns = cols, tr_rows = copied\<rparr>, b2) else (None, b2))"

section \<open>\<open>DatabaseManager\<close>\<close>

text \<open>
  The value a caller reads from a row: through libpq always a text, with Qt's driver a typed value.  A name or place the row does not have
  is \<open>VNull\<close>.
\<close>

datatype db_value = VNull | VText qstring | VInt int | VReal real | VBool bool | VTime int

record db_row =
  by_name :: "string \<Rightarrow> db_value"
  by_index :: "nat \<Rightarrow> db_value"

definition cell_value :: "qstring option \<Rightarrow> db_value" where
  "cell_value c = (case c of Some s \<Rightarrow> VText s | None \<Rightarrow> VNull)"

definition table_row :: "string list \<Rightarrow> qstring option list \<Rightarrow> db_row" where
  "table_row cols cells =
     \<lparr>by_name = (\<lambda>k. case map_of (zip cols cells) k of Some c \<Rightarrow> cell_value c | None \<Rightarrow> VNull),
      by_index = (\<lambda>i. if i < length cells then cell_value (cells ! i) else VNull)\<rparr>"

definition table_rows :: "table_result option \<Rightarrow> db_row list" where
  "table_rows r = (case r of None \<Rightarrow> [] | Some x \<Rightarrow> map (table_row (tr_columns x)) (tr_rows x))"

text \<open>Qt's driver with its own pool, as a parameter on the server's data.\<close>

record 'd qt_driver =
  dq_open :: bool
  dq_query :: "string \<Rightarrow> db_variant list \<Rightarrow> 'd \<Rightarrow> db_row list \<times> 'd"
  dq_nonQuery :: "string \<Rightarrow> db_variant list \<Rightarrow> 'd \<Rightarrow> bool \<times> 'd"
  dq_begin :: "'d \<Rightarrow> bool \<times> 'd"
  dq_end :: "string \<Rightarrow> 'd \<Rightarrow> bool \<times> 'd"

record 'd db_env =
  en_qt :: qt_db
  en_pg :: "'d pg_env"
  en_sqlite :: sqlite
  en_driver :: "'d qt_driver"

record 'd db_manager =
  dm_accessMode :: int
  dm_libpqReady :: bool
  dm_shuttingDown :: bool
  dm_pgqt :: "'d pgqt"
  dm_buffers :: "nat \<Rightarrow> buffers"

definition useLibpq :: "'d db_manager \<Rightarrow> bool" where
  "useLibpq m \<longleftrightarrow> dm_accessMode m = 1"

definition on_data :: "('d \<Rightarrow> 'r \<times> 'd) \<Rightarrow> 'd db_manager \<Rightarrow> 'r \<times> 'd db_manager" where
  "on_data f m =
     (case f (pg_db (pq_pg (dm_pgqt m))) of
        (r, d) \<Rightarrow> (r, m\<lparr>dm_pgqt := (dm_pgqt m)\<lparr>pq_pg := (pq_pg (dm_pgqt m))\<lparr>pg_db := d\<rparr>\<rparr>\<rparr>))"

text \<open>\<open>initialize\<close> and \<open>initializeLibpq\<close>.\<close>

definition initialize :: "'d db_env \<Rightarrow> int \<Rightarrow> int \<Rightarrow> 'd db_manager \<Rightarrow> bool \<times> 'd db_manager" where
  "initialize E accessMode maxConnections m =
     (let m1 = m\<lparr>dm_accessMode := (if accessMode \<noteq> 0 \<and> accessMode \<noteq> 1 then 1 else accessMode)\<rparr> in
      if useLibpq m1
      then (case initializePool (pe_server (en_pg E)) (pe_now (en_pg E)) maxConnections 1 (pg_pool (pq_pg (dm_pgqt m))) of
              (ok, P) \<Rightarrow> (ok, m1\<lparr>dm_libpqReady := ok,
                 dm_pgqt := (dm_pgqt m)\<lparr>pq_initialized := ok, pq_pg := (pq_pg (dm_pgqt m))\<lparr>pg_pool := P\<rparr>\<rparr>\<rparr>))
      else (dq_open (en_driver E), m1\<lparr>dm_libpqReady := False\<rparr>))"

definition cleanup :: "'d db_manager \<Rightarrow> 'd db_manager" where
  "cleanup m =
     (if useLibpq m \<and> dm_libpqReady m
      then m\<lparr>dm_libpqReady := False, dm_pgqt := (dm_pgqt m)\<lparr>pq_initialized := False,
                pq_pg := (pq_pg (dm_pgqt m))\<lparr>pg_pool := closeAllConnections (pg_pool (pq_pg (dm_pgqt m)))\<rparr>\<rparr>\<rparr>
      else m)"

definition executeQuery :: "'d db_env \<Rightarrow> nat \<Rightarrow> string \<Rightarrow> db_variant list \<Rightarrow> 'd db_manager \<Rightarrow> db_row list \<times> 'd db_manager" where
  "executeQuery E t query params m =
     (if useLibpq m
      then (if \<not> dm_libpqReady m then ([], m)
            else case pgqt_executeQuery (en_qt E) (en_pg E) t query params (dm_pgqt m) of
              (rows, p) \<Rightarrow> (case materializeRowsToSqlQuery (en_sqlite E) rows (dm_buffers m t) of
                 (r, b) \<Rightarrow> (table_rows r, m\<lparr>dm_pgqt := p, dm_buffers := (dm_buffers m)(t := b)\<rparr>)))
      else on_data (dq_query (en_driver E) query params) m)"

definition executeNonQuery :: "'d db_env \<Rightarrow> nat \<Rightarrow> string \<Rightarrow> db_variant list \<Rightarrow> 'd db_manager \<Rightarrow> bool \<times> 'd db_manager" where
  "executeNonQuery E t query params m =
     (if useLibpq m
      then (if \<not> dm_libpqReady m then (False, m)
            else case pgqt_executeNonQuery (en_qt E) (en_pg E) t query params (dm_pgqt m) of (ok, p) \<Rightarrow> (ok, m\<lparr>dm_pgqt := p\<rparr>))
      else on_data (dq_nonQuery (en_driver E) query params) m)"

text \<open>\<open>executeNonQueryAsync\<close>, run to its end: it refuses when the manager shuts down.\<close>

definition executeNonQueryAsync :: "'d db_env \<Rightarrow> nat \<Rightarrow> string \<Rightarrow> db_variant list \<Rightarrow> 'd db_manager \<Rightarrow> bool \<times> 'd db_manager" where
  "executeNonQueryAsync E t query params m = (if dm_shuttingDown m then (False, m) else executeNonQuery E t query params m)"

definition buildInsertSql :: "string \<Rightarrow> (string, db_variant) qmap \<Rightarrow> string" where
  "buildInsertSql table data =
     ''INSERT INTO '' @ table @ '' ('' @ join_sql '', '' (map fst data) @ '') VALUES ('' @ join_sql '', '' (map (\<lambda>p. ''?'') data) @ '')''"

text \<open>\<open>beginTransaction\<close>: the returned database is valid exactly when a transaction was begun.\<close>

definition beginTransaction :: "'d db_env \<Rightarrow> nat \<Rightarrow> 'd db_manager \<Rightarrow> bool \<times> 'd db_manager" where
  "beginTransaction E t m =
     (if useLibpq m
      then (if \<not> dm_libpqReady m then (False, m)
            else case pgqt_beginTransaction (en_pg E) t (dm_pgqt m) of (ok, p) \<Rightarrow> (ok, m\<lparr>dm_pgqt := p\<rparr>))
      else on_data (dq_begin (en_driver E)) m)"

definition commitTransaction :: "'d db_env \<Rightarrow> nat \<Rightarrow> 'd db_manager \<Rightarrow> bool \<times> 'd db_manager" where
  "commitTransaction E t m =
     (if useLibpq m then (case pgqt_commitTransaction (en_pg E) t (dm_pgqt m) of (ok, p) \<Rightarrow> (ok, m\<lparr>dm_pgqt := p\<rparr>))
      else on_data (dq_end (en_driver E) ''COMMIT'') m)"

definition rollbackTransaction :: "'d db_env \<Rightarrow> nat \<Rightarrow> 'd db_manager \<Rightarrow> bool \<times> 'd db_manager" where
  "rollbackTransaction E t m =
     (if useLibpq m then (case pgqt_rollbackTransaction (en_pg E) t (dm_pgqt m) of (ok, p) \<Rightarrow> (ok, m\<lparr>dm_pgqt := p\<rparr>))
      else on_data (dq_end (en_driver E) ''ROLLBACK'') m)"

section \<open>What a caller reads through libpq\<close>

text \<open>The column names of an answer: none empty and none of the form \<open>_c...\<close>; several may be the same.\<close>

definition plain_columns :: "string list \<Rightarrow> bool" where
  "plain_columns cols \<longleftrightarrow> [] \<notin> set cols \<and> (\<forall>k \<in> set cols. \<not> starts_with ''_c'' k)"

lemma c_name_inject [simp]: "c_name i = c_name j \<longleftrightarrow> i = j"
  by (simp add: c_name_def)

lemma starts_c_name [simp]: "starts_with ''_c'' (c_name i)"
  by (simp add: c_name_def)

definition row_fold :: "(nat \<Rightarrow> string) \<Rightarrow> (nat \<Rightarrow> qstring) \<Rightarrow> nat \<Rightarrow> (string, qstring) qmap" where
  "row_fold key val n = fold (\<lambda>i m. qm_insert (key i) (val i) (qm_insert (c_name i) (val i) m)) [0..<n] []"

lemma row_fold_ok: "qm_ok (row_fold key val n)"
proof -
  have "qm_ok ([] :: (string, qstring) qmap)" by (simp add: qm_ok_def)
  then show ?thesis unfolding row_fold_def by (induction n) (simp_all add: qm_ok_insert)
qed

lemma row_fold_lookup:
  assumes "\<forall>i < n. \<not> starts_with ''_c'' (key i)"
  shows "inj_on key {..<n} \<Longrightarrow> i < n \<Longrightarrow> map_of (row_fold key val n) (key i) = Some (val i)"
    and "map_of (row_fold key val n) (c_name i) = (if i < n then Some (val i) else None)"
    and "fst ` set (row_fold key val n) = key ` {..<n} \<union> c_name ` {..<n}"
proof -
  have keys: "fst ` set (row_fold key val m) = key ` {..<m} \<union> c_name ` {..<m}" for m
    unfolding row_fold_def by (induction m) (auto simp: keys_qm_insert lessThan_Suc)
  then show "fst ` set (row_fold key val n) = key ` {..<n} \<union> c_name ` {..<n}" .
  have named: "map_of (row_fold key val m) (key i) = Some (val i)" if "i < m" "m \<le> n" "inj_on key {..<n}" for m
    using that(1,2)
  proof (induction m)
    case (Suc m)
    have "key m \<noteq> key i" if "i \<noteq> m" using \<open>inj_on key {..<n}\<close> Suc.prems that by (auto simp: inj_on_def)
    moreover have "key i \<noteq> c_name m" using assms Suc.prems by (metis less_le_trans starts_c_name)
    ultimately show ?case using Suc unfolding row_fold_def by (cases "i = m") auto
  qed simp
  then show "inj_on key {..<n} \<Longrightarrow> i < n \<Longrightarrow> map_of (row_fold key val n) (key i) = Some (val i)" by simp
  have "map_of (row_fold key val m) (c_name i) = (if i < m then Some (val i) else None)" if "m \<le> n" for m
    using that
  proof (induction m)
    case (Suc m)
    have "key m \<noteq> c_name i" using assms Suc.prems by (metis Suc_le_lessD starts_c_name)
    then show ?case using Suc unfolding row_fold_def by (cases "i = m") auto
  qed (simp add: row_fold_def)
  then show "map_of (row_fold key val n) (c_name i) = (if i < n then Some (val i) else None)" by simp
qed

lemma toQtRow_fold:
  assumes "length cells = length cols"
  shows "toQtRow Q (convert_row cols cells) = row_fold (\<lambda>i. cols ! i) (\<lambda>i. qd_fromStd Q (cell_text (cells ! i))) (length cols)"
  unfolding toQtRow_def row_fold_def convert_row_def Let_def
  using assms by (intro fold_cong) auto

lemma plain_key:
  assumes "plain_columns cols"
  shows "\<forall>i < length cols. \<not> starts_with ''_c'' (cols ! i)" "(\<lambda>i. cols ! i) ` {..<length cols} = set cols"
  using assms unfolding plain_columns_def by (force simp: in_set_conv_nth)+

lemma distinct_key: "distinct cols \<Longrightarrow> inj_on (\<lambda>i. cols ! i) {..<length cols}"
  by (auto simp: inj_on_def nth_eq_iff_index_eq)

lemma takeWhile_upt: "(\<And>i. i < n \<Longrightarrow> P (f i)) \<Longrightarrow> \<not> P (f n) \<Longrightarrow> n < m \<Longrightarrow> takeWhile P (map f [0..<m]) = map f [0..<n]"
proof -
  assume P: "\<And>i. i < n \<Longrightarrow> P (f i)" "\<not> P (f n)" and "n < m"
  then have "[0..<m] = [0..<n] @ n # [Suc n..<m]" by (metis Suc_leI le_add_diff_inverse2 upt_add_eq_append upt_conv_Cons zero_le less_imp_le_nat le_add_diff_inverse)
  then show ?thesis using P by (simp add: takeWhile_append)
qed

lemma display_plain:
  fixes cols :: "string list"
  defines "n \<equiv> length cols"
  assumes p: "plain_columns cols" and ne: "cols \<noteq> []"
  shows "\<exists>names. display_columns (row_fold (\<lambda>i. cols ! i) val n) = map c_name [0..<n] @ names \<and> distinct names \<and> set names = set cols"
proof -
  let ?m = "row_fold (\<lambda>i. cols ! i) val n"
  note look = row_fold_lookup[OF plain_key(1)[OF p], where val = val, folded n_def]
  have n: "0 < n" using ne by (simp add: n_def)
  have "c_name ` {..<n} \<subseteq> set (map fst ?m)" using look(3) by auto
  then have "card (c_name ` {..<n}) \<le> length ?m"
    using card_mono[OF finite_set, of "c_name ` {..<n}" "map fst ?m"] card_length[of "map fst ?m"] by simp
  moreover have "card (c_name ` {..<n}) = n" by (subst card_image) (auto simp: inj_on_def)
  ultimately have len: "n < Suc (length ?m)" by simp
  have cn: "column_names ?m = map c_name [0..<n]"
    unfolding column_names_def by (rule takeWhile_upt[OF _ _ len]) (simp_all add: look(2))
  let ?names = "filter (\<lambda>k. \<not> starts_with ''_c'' k \<and> k \<notin> set (map c_name [0..<n])) (map fst ?m)"
  have "hd (map c_name [0..<n]) = c_name 0" using n by (simp add: hd_map)
  then have "display_columns ?m = map c_name [0..<n] @ ?names" using n cn by (simp add: display_columns_def Let_def)
  moreover have "distinct ?names" using qm_ok_distinct[OF row_fold_ok] by (intro distinct_filter) simp
  moreover have "set ?names = set cols" using look(3) plain_key[OF p] p unfolding n_def plain_columns_def by auto
  ultimately show ?thesis by blast
qed

lemma unique_columns_distinct:
  assumes "distinct cs" "[] \<notin> set cs"
  shows "unique_columns cs = cs"
proof -
  have "fold (\<lambda>i used. used @ [unique_name used (if cs ! i = [] then c_name i else cs ! i)]) [0..<n] [] = take n cs" if "n \<le> length cs" for n
    using that
  proof (induction n)
    case (Suc n)
    have "cs ! n \<notin> set (take n cs)" using assms(1) Suc.prems by (metis Suc_le_lessD distinct_take id_take_nth_drop not_distinct_conv_prefix
        append_Cons append_assoc distinct_append in_set_conv_decomp list.set_intros(1) disjoint_insert(1) inf_commute insert_disjoint(1) list.simps(15) Int_iff empty_iff)
    moreover have "cs ! n \<noteq> []" using assms(2) Suc.prems by (metis Suc_le_lessD nth_mem)
    ultimately show ?case using Suc by (simp add: unique_name_def take_Suc_conv_app_nth)
  qed simp
  from this[of "length cs"] show ?thesis by (simp add: unique_columns_def)
qed

lemma materialized_rows:
  assumes p: "plain_columns cols" "cols \<noteq> []" and rows: "\<forall>r \<in> set cells. length r = length cols" "cells \<noteq> []"
    and m: "materializeRowsToSqlQuery L (map (\<lambda>r. toQtRow Q (convert_row cols r)) cells) b = (Some x, b')"
  shows "list_all2 (\<lambda>r row. \<forall>j < length cols. by_index row j = VText (qd_fromStd Q (cell_text (r ! j))) \<and>
      (distinct cols \<longrightarrow> by_name row (cols ! j) = VText (qd_fromStd Q (cell_text (r ! j))))) cells (table_rows (Some x))"
proof -
  let ?n = "length cols"
  let ?row = "\<lambda>r. row_fold (\<lambda>i. cols ! i) (\<lambda>i. qd_fromStd Q (cell_text (r ! i))) ?n"
  have fold: "map (\<lambda>r. toQtRow Q (convert_row cols r)) cells = map ?row cells" using rows(1) toQtRow_fold by (intro map_cong) auto
  obtain names where names: "display_columns (?row (hd cells)) = map c_name [0..<?n] @ names" "distinct names" "set names = set cols"
    using display_plain[OF p] by blast
  let ?shown = "map c_name [0..<?n] @ names"
  have "distinct ?shown" using names(2,3) plain_key(1)[OF p(1)] p(1)
    by (auto simp: distinct_map inj_on_def plain_columns_def)
  moreover have "[] \<notin> set ?shown" using names(3) p(1) by (auto simp: plain_columns_def c_name_def)
  ultimately have "unique_columns ?shown = ?shown" by (rule unique_columns_distinct)
  then have x: "tr_columns x = ?shown" "tr_rows x = map (\<lambda>r. map (map_of (?row r)) ?shown) cells"
    using m rows(2) names(1) unfolding fold
    by (cases cells; auto simp: materializeRowsToSqlQuery_def Let_def split: if_splits)+
  have "by_index (table_row ?shown (map (map_of (?row r)) ?shown)) j = VText (qd_fromStd Q (cell_text (r ! j))) \<and>
      (distinct cols \<longrightarrow> by_name (table_row ?shown (map (map_of (?row r)) ?shown)) (cols ! j) = VText (qd_fromStd Q (cell_text (r ! j))))"
    if "j < ?n" for r j
  proof -
    note look = row_fold_lookup[OF plain_key(1)[OF p(1)], where val = "\<lambda>i. qd_fromStd Q (cell_text (r ! i))"]
    have "cols ! j \<in> set ?shown" using that names(3) by simp
    then have "map_of (zip ?shown (map (map_of (?row r)) ?shown)) (cols ! j) = Some (map_of (?row r) (cols ! j))"
      by (simp only: map_of_zip_map if_True)
    moreover have "map (map_of (?row r)) ?shown ! j = map_of (?row r) (c_name j)" using that by (simp add: nth_append)
    ultimately show ?thesis using that look(1)[OF distinct_key, of j] look(2)[of j] by (simp add: table_row_def cell_value_def)
  qed
  then show ?thesis unfolding table_rows_def x option.case by (simp add: list_all2_map2 list_all2_same x)
qed

text \<open>The answer of the server as the caller of \<open>executeQuery\<close> sees it, outside a transaction.\<close>

definition answered :: "'d db_env \<Rightarrow> string \<Rightarrow> db_variant list \<Rightarrow> 'd db_manager \<Rightarrow> string list \<Rightarrow> string option list list \<Rightarrow> bool" where
  "answered E sql ps m cols cells \<longleftrightarrow>
     fst (pg_executeQuery (en_pg E) (convertQtPlaceholders sql) (map (toPgParam (en_qt E)) ps) (pq_pg (dm_pgqt m))) = map (convert_row cols) cells \<and>
     plain_columns cols \<and> cols \<noteq> [] \<and> (\<forall>r \<in> set cells. length r = length cols)"

lemma executeQuery_rows:
  assumes "useLibpq m" "\<not> slot_active t (dm_pgqt m)" "answered E sql ps m cols cells" "executeQuery E t sql ps m = (rows, m')" "rows \<noteq> []"
  shows "list_all2 (\<lambda>r row. \<forall>j < length cols. by_index row j = VText (qd_fromStd (en_qt E) (cell_text (r ! j))) \<and>
      (distinct cols \<longrightarrow> by_name row (cols ! j) = VText (qd_fromStd (en_qt E) (cell_text (r ! j))))) cells rows"
proof -
  let ?q = "pgqt_executeQuery (en_qt E) (en_pg E) t sql ps (dm_pgqt m)"
  obtain qs p where q: "?q = (qs, p)" by (cases ?q)
  obtain r b where r: "materializeRowsToSqlQuery (en_sqlite E) qs (dm_buffers m t) = (r, b)" by (cases "materializeRowsToSqlQuery (en_sqlite E) qs (dm_buffers m t)")
  have rows: "rows = table_rows r" "dm_libpqReady m" using assms(1,4,5) q r by (auto simp: executeQuery_def split: if_splits)
  then obtain x where x: "r = Some x" using assms(5) by (cases r) (simp_all add: table_rows_def)
  have "qs = map (toQtRow (en_qt E)) (map (convert_row cols) cells) \<or> qs = []"
    using q assms(2,3) unfolding answered_def by (auto simp: pgqt_executeQuery_def Let_def split: prod.splits if_splits)
  moreover have "qs \<noteq> []" using r x by (auto simp: materializeRowsToSqlQuery_def)
  ultimately have qs: "qs = map (\<lambda>r. toQtRow (en_qt E) (convert_row cols r)) cells" "cells \<noteq> []" by (auto simp: o_def)
  show ?thesis using materialized_rows[of cols cells "en_sqlite E" "en_qt E" "dm_buffers m t" x b] assms(3) qs r x rows(1)
    by (simp add: answered_def)
qed

lemma libpq_cells:
  assumes "useLibpq m" "\<not> slot_active t (dm_pgqt m)" "answered E sql ps m cols cells" "executeQuery E t sql ps m = (rows, m')" "rows \<noteq> []"
    "i < length cells" "j < length cols"
  shows "length rows = length cells \<and> by_index (rows ! i) j = VText (qd_fromStd (en_qt E) (case cells ! i ! j of Some x \<Rightarrow> x | None \<Rightarrow> [])) \<and>
    (distinct cols \<longrightarrow> by_name (rows ! i) (cols ! j) = by_index (rows ! i) j)"
  using list_all2_nthD[OF executeQuery_rows[OF assms(1-5)] assms(6)] list_all2_lengthD[OF executeQuery_rows[OF assms(1-5)]] assms(7)
  by (simp add: cell_text_def)

text \<open>
  In the default mode everything a caller reads is text: for rows the server answered, the value at a place is the text of its cell, SQL's NULL is the
  empty text, and when the column names differ the value of a name is the one at its place, so that no value is ever null.
\<close>
theorem libpq_values_are_text:
  assumes "useLibpq m" "\<not> slot_active t (dm_pgqt m)" "answered E sql ps m cols cells" "executeQuery E t sql ps m = (rows, m')" "rows \<noteq> []"
    "i < length cells" "j < length cols"
  shows "length rows = length cells \<and> by_index (rows ! i) j = VText (qd_fromStd (en_qt E) (case cells ! i ! j of Some x \<Rightarrow> x | None \<Rightarrow> [])) \<and>
    (distinct cols \<longrightarrow> by_name (rows ! i) (cols ! j) = by_index (rows ! i) j)"
  using assms by (rule libpq_cells)

definition sample_db_env :: "string list \<Rightarrow> string option list list \<Rightarrow> unit db_env" where
  "sample_db_env cols cells = \<lparr>en_qt = \<lparr>qd_toStd = map char_of, qd_fromStd = qs, qd_utc = (\<lambda>t. [])\<rparr>,
     en_pg = \<lparr>pe_exec = (\<lambda>c sql ps d. (Tuples cols cells, ())), pe_double = (\<lambda>r. []), pe_server = sample_server, pe_others = (\<lambda>P. P), pe_now = 0\<rparr>,
     en_sqlite = \<lparr>sq_open = True, sq_create = (\<lambda>cs. True), sq_insert = (\<lambda>r. True)\<rparr>,
     en_driver = \<lparr>dq_open = False, dq_query = (\<lambda>q ps d. ([], d)), dq_nonQuery = (\<lambda>q ps d. (False, d)), dq_begin = (\<lambda>d. (False, d)),
        dq_end = (\<lambda>q d. (False, d))\<rparr>\<rparr>"

definition sample_manager :: "unit db_manager" where
  "sample_manager = \<lparr>dm_accessMode = 1, dm_libpqReady = True, dm_shuttingDown = False,
     dm_pgqt = \<lparr>pq_initialized = True, pq_pg = \<lparr>pg_pool = sample_pool, pg_stopping = False, pg_results = 0, pg_db = ()\<rparr>,
        pq_slot = (\<lambda>t. no_transaction)\<rparr>, dm_buffers = (\<lambda>t. \<lparr>bf_tables = [], bf_seq = 0\<rparr>)\<rparr>"

lemma sample_query:
  "fst (pg_executeQuery (en_pg (sample_db_env cols cells)) sql ps (pq_pg (dm_pgqt sample_manager))) = map (convert_row cols) cells"
  by (simp add: pg_executeQuery_def sample_db_env_def sample_manager_def getConnection_def get_now_def sample_pool_def sample_server_def
      usable_def executeInternal_def convertResult_def)

lemma sample_answered:
  "plain_columns cols \<Longrightarrow> cols \<noteq> [] \<Longrightarrow> (\<forall>r \<in> set cells. length r = length cols) \<Longrightarrow>
   answered (sample_db_env cols cells) sql ps sample_manager cols cells"
  by (simp add: answered_def sample_query)

lemma sample_slot: "useLibpq sample_manager" "\<not> slot_active t (dm_pgqt sample_manager)"
  by (simp_all add: useLibpq_def sample_manager_def slot_active_def no_transaction_def)

lemma sample_rows_ne:
  "cells \<noteq> [] \<Longrightarrow> fst (executeQuery (sample_db_env cols cells) t sql ps sample_manager) \<noteq> []"
  using sample_query[of cols cells "convertQtPlaceholders sql" "map (toPgParam (en_qt (sample_db_env cols cells))) ps"]
  by (cases cells) (auto simp: executeQuery_def useLibpq_def pgqt_executeQuery_def sample_manager_def slot_active_def no_transaction_def
      Let_def materializeRowsToSqlQuery_def table_rows_def sample_db_env_def list_all_iff split: prod.splits)

theorem libpq_values_are_text_witness:
  "by_name (fst (executeQuery (sample_db_env [''id'', ''enabled''] [[Some ''1'', None]]) 0 ''SELECT'' [] sample_manager) ! 0) ''enabled'' = VText []"
proof -
  let ?E = "sample_db_env [''id'', ''enabled''] [[Some ''1'', None]]"
  obtain rows m' where q: "executeQuery ?E 0 ''SELECT'' [] sample_manager = (rows, m')" by (cases "executeQuery ?E 0 ''SELECT'' [] sample_manager")
  have ans: "answered ?E ''SELECT'' [] sample_manager [''id'', ''enabled''] [[Some ''1'', None]]"
    by (rule sample_answered) (simp_all add: plain_columns_def)
  have ne: "rows \<noteq> []" using sample_rows_ne[of "[[Some ''1'', None]]" "[''id'', ''enabled'']" 0 "''SELECT''" "[]"] q by simp
  from libpq_values_are_text[OF sample_slot ans q ne, of 0 1] show ?thesis using q by (simp add: sample_db_env_def qs_def)
qed

lemma materialize_tables:
  "materializeRowsToSqlQuery L rows b = (r, b') \<Longrightarrow> length (bf_tables b) + (if r = None then 0 else 1) \<le> length (bf_tables b')"
  by (auto simp: materializeRowsToSqlQuery_def Let_def split: list.splits if_splits)

text \<open>
  Every query that returns rows leaves its table behind: through any sequence of queries of a thread the tables in its memory database grow by
  at least the number of queries with a result, and none is ever dropped.
\<close>
theorem query_buffers_grow:
  assumes "useLibpq m"
  shows "length (bf_tables (dm_buffers m t)) + fst (fold (\<lambda>(sql, ps) (n, m1). case executeQuery E t sql ps m1 of (rows, m2) \<Rightarrow>
       (if rows \<noteq> [] then Suc n else n, m2)) queries (0, m)) \<le>
     length (bf_tables (dm_buffers (snd (fold (\<lambda>(sql, ps) (n, m1). case executeQuery E t sql ps m1 of (rows, m2) \<Rightarrow>
       (if rows \<noteq> [] then Suc n else n, m2)) queries (0, m))) t))"
proof -
  let ?f = "\<lambda>(sql, ps) (n, m1). case executeQuery E t sql ps m1 of (rows, m2) \<Rightarrow> (if rows \<noteq> [] then Suc n else n, m2)"
  have one: "useLibpq m2 \<and> length (bf_tables (dm_buffers m t)) + (if rows \<noteq> [] then 1 else 0) \<le> length (bf_tables (dm_buffers m2 t))"
    if "useLibpq m" "executeQuery E t sql ps m = (rows, m2)" for m sql ps rows m2
    using that by (auto simp: executeQuery_def useLibpq_def table_rows_def split: if_splits prod.splits option.splits dest!: materialize_tables)
  have "length (bf_tables (dm_buffers m t)) + fst (fold ?f queries (n, m)) \<le> length (bf_tables (dm_buffers (snd (fold ?f queries (n, m))) t)) + n"
    if "useLibpq m" for n m
    using that
  proof (induction queries arbitrary: n m)
    case (Cons q queries)
    obtain sql ps where [simp]: "q = (sql, ps)" by (cases q)
    obtain rows m2 where r: "executeQuery E t sql ps m = (rows, m2)" by (cases "executeQuery E t sql ps m")
    from one[OF Cons.prems r] Cons.IH[of m2 "if rows \<noteq> [] then Suc n else n"] show ?case by (simp add: r split: if_splits)
  qed simp
  from this[OF assms, of 0] show ?thesis by simp
qed

theorem query_buffers_grow_witness:
  "1 \<le> length (bf_tables (dm_buffers (snd (executeQuery (sample_db_env [''id''] [[Some ''1'']]) 0 ''SELECT'' [] sample_manager)) 0))"
proof -
  have "fst (executeQuery (sample_db_env [''id''] [[Some ''1'']]) 0 ''SELECT'' [] sample_manager) \<noteq> []" by (rule sample_rows_ne) simp
  then show ?thesis using query_buffers_grow[OF sample_slot(1), of 0 "sample_db_env [''id''] [[Some ''1'']]" "[(''SELECT'', [])]"]
    by (auto split: prod.splits)
qed

end
