(* ===== verification/Qt_Driver.thy ===== *)
theory Qt_Driver
  imports Qt_Pool Db_Manager
begin

text \<open>
  \<open>DatabaseManager\<close> over the Qt driver (\<open>AccessMode=0\<close>): every statement takes a connection of the pool, tests it, executes and gives it
  back; a transaction holds a connection until its end; a batch insertion runs in a transaction of its own, a hundred rows a
  statement.  The driver and the server are parameters: \<open>qx_prepare\<close>, and \<open>qx_exec\<close> with the rows or \<open>None\<close> for an error (a query whose
  preparation failed executes nothing), both on a given connection.
\<close>

section \<open>Statements\<close>

record 'd qt_sql =
  qx_server :: qt_server
  qx_now :: int
  qx_prepare :: "nat \<Rightarrow> string \<Rightarrow> 'd \<Rightarrow> bool"
  qx_exec :: "nat \<Rightarrow> string \<Rightarrow> db_variant list \<Rightarrow> 'd \<Rightarrow> db_row list option \<times> 'd"
  qx_begin :: "nat \<Rightarrow> 'd \<Rightarrow> bool \<times> 'd"
  qx_commit :: "nat \<Rightarrow> 'd \<Rightarrow> bool \<times> 'd"
  qx_rollback :: "nat \<Rightarrow> 'd \<Rightarrow> bool \<times> 'd"

text \<open>\<open>qs_handle\<close> is the \<open>QSqlDatabase\<close> a caller keeps between the beginning and the end of its transaction.\<close>

record 'd qt_state =
  qs_pool :: qt_pool
  qs_data :: 'd
  qs_handle :: "nat option"

definition qt_get :: "'d qt_sql \<Rightarrow> 'd qt_state \<Rightarrow> nat option \<times> 'd qt_state" where
  "qt_get X s = (case qt_getConnection (qx_server X) (qx_now X) (qs_pool s) of (h, P) \<Rightarrow> (h, s\<lparr>qs_pool := P\<rparr>))"

definition qt_put :: "'d qt_sql \<Rightarrow> nat option \<Rightarrow> 'd qt_state \<Rightarrow> 'd qt_state" where
  "qt_put X h s = s\<lparr>qs_pool := qt_releaseConnection (qx_now X) h (qs_pool s)\<rparr>"

text \<open>\<open>prepare\<close>, binding and \<open>exec\<close>.\<close>

definition qt_run :: "'d qt_sql \<Rightarrow> nat \<Rightarrow> string \<Rightarrow> db_variant list \<Rightarrow> 'd \<Rightarrow> db_row list option \<times> 'd" where
  "qt_run X c sql ps d = (if qx_prepare X c sql d then qx_exec X c sql ps d else (None, d))"

text \<open>The test of a connection before it is used: \<open>isConnectionValid\<close>, else \<open>reopenConnection\<close>.\<close>

definition qt_alive :: "'d qt_sql \<Rightarrow> nat \<Rightarrow> bool" where
  "qt_alive X c \<longleftrightarrow> qt_isConnectionValid (qx_server X) c \<or> qv_open (qx_server X) c"

definition rows_or_none :: "db_row list option \<Rightarrow> db_row list" where
  "rows_or_none r = (case r of Some rows \<Rightarrow> rows | None \<Rightarrow> [])"

definition qt_executeQuery :: "'d qt_sql \<Rightarrow> string \<Rightarrow> db_variant list \<Rightarrow> 'd qt_state \<Rightarrow> db_row list \<times> 'd qt_state" where
  "qt_executeQuery X sql ps s =
     (case qt_get X s of
        (None, s1) \<Rightarrow> ([], s1)
      | (Some c, s1) \<Rightarrow>
          if \<not> qv_driver (qx_server X) then ([], s1)
          else if \<not> qt_alive X c then ([], qt_put X (Some c) s1)
          else case qt_run X c sql ps (qs_data s1) of (r, d) \<Rightarrow> (rows_or_none r, qt_put X (Some c) (s1\<lparr>qs_data := d\<rparr>)))"

definition qt_executeNonQuery :: "'d qt_sql \<Rightarrow> string \<Rightarrow> db_variant list \<Rightarrow> 'd qt_state \<Rightarrow> bool \<times> 'd qt_state" where
  "qt_executeNonQuery X sql ps s =
     (case qt_get X s of
        (None, s1) \<Rightarrow> (False, s1)
      | (Some c, s1) \<Rightarrow>
          if \<not> qv_driver (qx_server X) then (False, s1)
          else if \<not> qt_alive X c then (False, qt_put X (Some c) s1)
          else case qt_run X c sql ps (qs_data s1) of (r, d) \<Rightarrow> (r \<noteq> None, qt_put X (Some c) (s1\<lparr>qs_data := d\<rparr>)))"

text \<open>\<open>executeScalar\<close> tests nothing: on the handle of a failed \<open>getConnection\<close> no query can be prepared.\<close>

definition qt_executeScalar :: "'d qt_sql \<Rightarrow> string \<Rightarrow> db_variant list \<Rightarrow> 'd qt_state \<Rightarrow> db_value \<times> 'd qt_state" where
  "qt_executeScalar X sql ps s =
     (case qt_get X s of
        (None, s1) \<Rightarrow> (VNull, s1)
      | (Some c, s1) \<Rightarrow> (case qt_run X c sql ps (qs_data s1) of (r, d) \<Rightarrow>
          (case rows_or_none r of y # ys \<Rightarrow> by_index y 0 | [] \<Rightarrow> VNull, qt_put X (Some c) (s1\<lparr>qs_data := d\<rparr>))))"

text \<open>
  With a time limit the statement runs on a thread of its own.  \<open>late\<close>: the timer fires first; then the result is dropped, the attempt to
  cancel finds no connection named \<open>admin\<close>, and the function still waits for the statement before it gives the connection back.
\<close>

definition qt_timedQuery :: "bool \<Rightarrow> 'd qt_sql \<Rightarrow> string \<Rightarrow> db_variant list \<Rightarrow> 'd qt_state \<Rightarrow> db_row list \<times> 'd qt_state" where
  "qt_timedQuery late X sql ps s =
     (case qt_get X s of
        (None, s1) \<Rightarrow> ([], s1)
      | (Some c, s1) \<Rightarrow>
          if \<not> qv_driver (qx_server X) then ([], s1)
          else case qt_run X c sql ps (qs_data s1) of (r, d) \<Rightarrow>
            (if late then [] else rows_or_none r, qt_put X (Some c) (s1\<lparr>qs_data := d\<rparr>)))"

definition qt_timedNonQuery :: "bool \<Rightarrow> 'd qt_sql \<Rightarrow> string \<Rightarrow> db_variant list \<Rightarrow> 'd qt_state \<Rightarrow> bool \<times> 'd qt_state" where
  "qt_timedNonQuery late X sql ps s =
     (case qt_get X s of
        (None, s1) \<Rightarrow> (False, s1)
      | (Some c, s1) \<Rightarrow>
          if \<not> qv_driver (qx_server X) then (False, s1)
          else case qt_run X c sql ps (qs_data s1) of (r, d) \<Rightarrow>
            (\<not> late \<and> r \<noteq> None, qt_put X (Some c) (s1\<lparr>qs_data := d\<rparr>)))"

section \<open>Transactions\<close>

definition qt_beginTransaction :: "'d qt_sql \<Rightarrow> 'd qt_state \<Rightarrow> nat option \<times> 'd qt_state" where
  "qt_beginTransaction X s =
     (case qt_get X s of
        (None, s1) \<Rightarrow> (None, s1)
      | (Some c, s1) \<Rightarrow> (case qx_begin X c (qs_data s1) of
          (True, d) \<Rightarrow> (Some c, s1\<lparr>qs_data := d\<rparr>)
        | (False, d) \<Rightarrow> (None, qt_put X (Some c) (s1\<lparr>qs_data := d\<rparr>))))"

text \<open>\<open>commitTransaction\<close> and \<open>rollbackTransaction\<close>: an invalid handle neither commits nor rolls back.\<close>

definition qt_end :: "('d qt_sql \<Rightarrow> nat \<Rightarrow> 'd \<Rightarrow> bool \<times> 'd) \<Rightarrow> 'd qt_sql \<Rightarrow> nat option \<Rightarrow> 'd qt_state \<Rightarrow> bool \<times> 'd qt_state" where
  "qt_end f X h s =
     (case h of
        None \<Rightarrow> (False, s)
      | Some c \<Rightarrow> (case f X c (qs_data s) of (ok, d) \<Rightarrow> (ok, qt_put X (Some c) (s\<lparr>qs_data := d\<rparr>))))"

definition qt_commitTransaction :: "'d qt_sql \<Rightarrow> nat option \<Rightarrow> 'd qt_state \<Rightarrow> bool \<times> 'd qt_state" where
  "qt_commitTransaction = qt_end qx_commit"

definition qt_rollbackTransaction :: "'d qt_sql \<Rightarrow> nat option \<Rightarrow> 'd qt_state \<Rightarrow> bool \<times> 'd qt_state" where
  "qt_rollbackTransaction = qt_end qx_rollback"

text \<open>The driver as \<open>DatabaseManager\<close> and its callers see it in mode 0.\<close>

definition pooled_driver :: "'d qt_sql \<Rightarrow> ('d qt_state) qt_driver" where
  "pooled_driver X = \<lparr>dq_open = True, dq_query = qt_executeQuery X, dq_nonQuery = qt_executeNonQuery X,
     dq_begin = (\<lambda>s. case qt_beginTransaction X s of (h, s1) \<Rightarrow> (h \<noteq> None, s1\<lparr>qs_handle := h\<rparr>)),
     dq_end = (\<lambda>sql s. (if sql = ''COMMIT'' then qt_commitTransaction else qt_rollbackTransaction) X (qs_handle s) s)\<rparr>"

section \<open>Batch insertion\<close>

fun batches :: "'a list \<Rightarrow> 'a list list" where
  "batches [] = []"
| "batches (x # xs) = (x # take 99 xs) # batches (drop 99 xs)"

definition batch_sql :: "string \<Rightarrow> string list \<Rightarrow> nat \<Rightarrow> string" where
  "batch_sql table cols n =
     ''INSERT INTO '' @ table @ '' ('' @ join_sql '', '' cols @ '') VALUES '' @
       join_sql '', '' (replicate n (''('' @ join_sql '', '' (map (\<lambda>c. ''?'') cols) @ '')''))"

text \<open>\<open>halt k\<close>: before the batch of number \<open>k\<close> the program is ending or the time is over.\<close>

definition batch_stop :: "'d qt_sql \<Rightarrow> nat \<Rightarrow> 'd qt_state \<Rightarrow> 'd qt_state" where
  "batch_stop X c s = snd (qt_rollbackTransaction X (Some c) s)"

fun qt_batch_loop :: "'d qt_sql \<Rightarrow> (nat \<Rightarrow> bool) \<Rightarrow> string \<Rightarrow> string list \<Rightarrow> nat \<Rightarrow> nat \<Rightarrow> nat \<Rightarrow> (string, db_variant) qmap list list
    \<Rightarrow> 'd qt_state \<Rightarrow> nat \<times> 'd qt_state" where
  "qt_batch_loop X halt table cols c k n [] s =
     (case qx_commit X c (qs_data s) of
        (ok, d) \<Rightarrow> (n, if ok then qt_put X (Some c) (s\<lparr>qs_data := d\<rparr>) else batch_stop X c (s\<lparr>qs_data := d\<rparr>)))"
| "qt_batch_loop X halt table cols c k n (b # bs) s =
     (let sql = batch_sql table cols (length b) in
      if halt k then (n, batch_stop X c s)
      else if \<not> qx_prepare X c sql (qs_data s) then (n, batch_stop X c s)
      else case qx_exec X c sql (concat (map (\<lambda>row. map (\<lambda>col. qm_value row col DvInvalid) cols) b)) (qs_data s) of
        (Some r, d) \<Rightarrow> qt_batch_loop X halt table cols c (Suc k) (n + length b) bs (s\<lparr>qs_data := d\<rparr>)
      | (None, d) \<Rightarrow> (n, batch_stop X c (s\<lparr>qs_data := d\<rparr>)))"

definition qt_batchInsert :: "'d qt_sql \<Rightarrow> (nat \<Rightarrow> bool) \<Rightarrow> string \<Rightarrow> (string, db_variant) qmap list \<Rightarrow> 'd qt_state \<Rightarrow> nat \<times> 'd qt_state" where
  "qt_batchInsert X halt table rows s =
     (case qt_get X s of
        (None, s1) \<Rightarrow> (0, s1)
      | (Some c, s1) \<Rightarrow>
          if \<not> qv_driver (qx_server X) then (0, s1)
          else if \<not> qt_alive X c then (0, qt_put X (Some c) s1)
          else if rows = [] then (0, qt_put X (Some c) s1)
          else case qx_begin X c (qs_data s1) of
            (False, d) \<Rightarrow> (0, qt_put X (Some c) (s1\<lparr>qs_data := d\<rparr>))
          | (True, d) \<Rightarrow> qt_batch_loop X halt table (map fst (hd rows)) c 0 0 (batches rows) (s1\<lparr>qs_data := d\<rparr>))"

section \<open>Connections come back\<close>

lemma qt_get_busy:
  assumes "qt_pool_ok (qs_pool s)" "qt_get X s = (h, s1)"
  shows "qt_pool_ok (qs_pool s1) \<and> qs_data s1 = qs_data s \<and> qs_handle s1 = qs_handle s \<and>
    (case h of None \<Rightarrow> qt_busy (qs_pool s1) = qt_busy (qs_pool s)
     | Some c \<Rightarrow> c \<notin> qt_busy (qs_pool s) \<and> qt_busy (qs_pool s1) = insert c (qt_busy (qs_pool s)))"
  using assms qt_conns.taken[OF assms(1)] qt_conns.refused[OF assms(1)]
  by (auto simp: qt_get_def split: prod.splits option.splits)

lemma qt_put_parts [simp]: "qs_data (qt_put X h s) = qs_data s" "qs_handle (qt_put X h s) = qs_handle s"
  by (simp_all add: qt_put_def)

lemma qt_put_busy:
  "qt_pool_ok (qs_pool s) \<Longrightarrow> qt_pool_ok (qs_pool (qt_put X (Some c) s)) \<and> qt_busy (qs_pool (qt_put X (Some c) s)) = qt_busy (qs_pool s) - {c}"
  using qt_conns.given by (simp add: qt_put_def)

text \<open>A connection taken, anything done to the data, and the connection given back.\<close>

lemma qt_bracket:
  assumes "qt_pool_ok (qs_pool s)" "qt_get X s = (Some c, s1)"
  shows "qt_busy (qs_pool (qt_put X (Some c) s1)) = qt_busy (qs_pool s) \<and> qt_busy (qs_pool (qt_put X (Some c) (s1\<lparr>qs_data := d\<rparr>))) = qt_busy (qs_pool s)"
  using qt_get_busy[OF assms] qt_put_busy[of s1 X c] qt_put_busy[of "s1\<lparr>qs_data := d\<rparr>" X c] by auto

lemma qt_refused_busy: "qt_pool_ok (qs_pool s) \<Longrightarrow> qt_get X s = (None, s1) \<Longrightarrow> qt_busy (qs_pool s1) = qt_busy (qs_pool s)"
  using qt_get_busy by fastforce

lemma batch_stop_pool: "qs_pool (batch_stop X c s) = qs_pool (qt_put X (Some c) s)"
  by (simp add: batch_stop_def qt_rollbackTransaction_def qt_end_def qt_put_def split: prod.splits)

lemma qt_batch_loop_pool: "qs_pool (snd (qt_batch_loop X halt table cols c k n bs s)) = qs_pool (qt_put X (Some c) s)"
  by (induction bs arbitrary: k n s)
    (auto simp: Let_def batch_stop_pool qt_put_def split: prod.splits option.splits)

text \<open>
  With a loaded driver every statement gives its connection back on every path, errors, failed tests and time limits included, and a batch
  insertion does so however it ends.
\<close>
theorem qt_statements_return_connections:
  assumes "qt_pool_ok (qs_pool s)" "qv_driver (qx_server X)"
  shows "qt_busy (qs_pool (snd (qt_executeQuery X sql ps s))) = qt_busy (qs_pool s) \<and>
    qt_busy (qs_pool (snd (qt_executeNonQuery X sql ps s))) = qt_busy (qs_pool s) \<and>
    qt_busy (qs_pool (snd (qt_executeScalar X sql ps s))) = qt_busy (qs_pool s) \<and>
    qt_busy (qs_pool (snd (qt_timedQuery late X sql ps s))) = qt_busy (qs_pool s) \<and>
    qt_busy (qs_pool (snd (qt_timedNonQuery late X sql ps s))) = qt_busy (qs_pool s) \<and>
    qt_busy (qs_pool (snd (qt_batchInsert X halt table rows s))) = qt_busy (qs_pool s)"
proof -
  obtain h s1 where g: "qt_get X s = (h, s1)" by (cases "qt_get X s")
  show ?thesis
  proof (cases h)
    case None
    then show ?thesis using qt_refused_busy[OF assms(1), of X s1] g
      by (simp add: qt_executeQuery_def qt_executeNonQuery_def qt_executeScalar_def qt_timedQuery_def qt_timedNonQuery_def qt_batchInsert_def)
  next
    case (Some c)
    note b = qt_bracket[OF assms(1) g[unfolded Some]]
    have "qt_busy (qs_pool (snd (qt_batchInsert X halt table rows s))) = qt_busy (qs_pool s)" using b assms(2) g Some
      by (auto simp: qt_batchInsert_def qt_batch_loop_pool split: prod.splits bool.splits)
    then show ?thesis using b assms(2) g Some
      by (simp add: qt_executeQuery_def qt_executeNonQuery_def qt_executeScalar_def qt_timedQuery_def qt_timedNonQuery_def split: prod.splits)
  qed
qed

section \<open>A transaction and the statements of its thread\<close>

text \<open>
  What the server documents of a statement on a connection without an open transaction, and of a rollback: a statement that succeeds takes its
  effect on the committed data, a rollback changes none of them.
\<close>

definition autocommit_law :: "'d qt_sql \<Rightarrow> ('d \<Rightarrow> 'v) \<Rightarrow> (nat \<Rightarrow> 'd \<Rightarrow> bool) \<Rightarrow> string \<Rightarrow> db_variant list \<Rightarrow> ('v \<Rightarrow> 'v) \<Rightarrow> bool" where
  "autocommit_law X committed open_tx sql ps effect \<longleftrightarrow>
     (\<forall>e d. \<not> open_tx e d \<and> fst (qx_exec X e sql ps d) \<noteq> None \<longrightarrow> committed (snd (qx_exec X e sql ps d)) = effect (committed d)) \<and>
     (\<forall>c d. committed (snd (qx_rollback X c d)) = committed d)"

text \<open>
  C35. In mode 0 a transaction is no bracket around the statements between its ends: while it holds its connection, a statement runs on
  another one, so that (a transaction being open only on connections somebody holds) its effect is on the committed data at once, and rolling the transaction
  back does not undo it.
\<close>
theorem statements_miss_transaction:
  assumes "qt_pool_ok (qs_pool s)" "qt_beginTransaction X s = (Some c, s1)" "c \<in> qt_busy (qs_pool s2)" "qt_pool_ok (qs_pool s2)"
    "qt_executeNonQuery Y sql ps s2 = (True, s3)" "autocommit_law Y committed open_tx sql ps effect"
    "\<forall>e. e \<notin> qt_busy (qs_pool s2) \<longrightarrow> \<not> open_tx e (qs_data s2)"
  shows "c \<notin> qt_busy (qs_pool s) \<and> c \<in> qt_busy (qs_pool s1) \<and> c \<in> qt_busy (qs_pool s3) \<and>
    committed (qs_data s3) = effect (committed (qs_data s2)) \<and>
    committed (qs_data (snd (qt_rollbackTransaction Y (Some c) s3))) = effect (committed (qs_data s2))"
proof -
  obtain s0 where "qt_get X s = (Some c, s0)" "qs_pool s1 = qs_pool s0"
    using assms(2) by (auto simp: qt_beginTransaction_def split: prod.splits option.splits bool.splits)
  then have held: "c \<notin> qt_busy (qs_pool s) \<and> c \<in> qt_busy (qs_pool s1)" using qt_get_busy[OF assms(1), of X "Some c" s0] by auto
  obtain d s4 where g: "qt_get Y s2 = (Some d, s4)" and e: "s3 = qt_put Y (Some d) (s4\<lparr>qs_data := snd (qt_run Y d sql ps (qs_data s4))\<rparr>)"
    "fst (qt_run Y d sql ps (qs_data s4)) \<noteq> None"
    using assms(5) by (auto simp: qt_executeNonQuery_def split: prod.splits option.splits if_splits)
  note p = qt_get_busy[OF assms(4) g]
  have "\<not> open_tx d (qs_data s2)" using p assms(7) by auto
  moreover have run: "qs_data s3 = snd (qx_exec Y d sql ps (qs_data s2))" "fst (qx_exec Y d sql ps (qs_data s2)) \<noteq> None"
    using e p by (auto simp: qt_run_def split: if_splits)
  ultimately have stored: "committed (qs_data s3) = effect (committed (qs_data s2))" using assms(6) by (simp add: autocommit_law_def)
  moreover have "committed (qs_data (snd (qt_rollbackTransaction Y (Some c) s3))) = committed (qs_data s3)"
    using assms(6) by (auto simp: autocommit_law_def qt_rollbackTransaction_def qt_end_def split: prod.splits) (metis snd_conv)+
  moreover have "c \<in> qt_busy (qs_pool s3)" using qt_bracket[OF assms(4) g] e(1) assms(3) by simp
  ultimately show ?thesis using held by simp
qed

text \<open>
  A statement that runs out of time is reported as failed although the function waits for it: the data afterwards are those of the
  statement, and a caller that repeats it executes it twice.
\<close>
theorem timed_out_statement_executed:
  "\<not> fst (qt_timedNonQuery True X sql ps s) \<and> fst (qt_timedQuery True X sql ps s) = [] \<and>
   snd (qt_timedNonQuery True X sql ps s) = snd (qt_timedNonQuery False X sql ps s) \<and>
   snd (qt_timedQuery True X sql ps s) = snd (qt_timedQuery False X sql ps s)"
  by (auto simp: qt_timedNonQuery_def qt_timedQuery_def split: prod.splits option.splits)

section \<open>What a batch stores and what it counts\<close>

text \<open>What the server documents of a session, for the driver's calls: see \<open>session_laws\<close>; a failed commit leaves nothing stored.\<close>

definition qt_session_laws :: "'d qt_sql \<Rightarrow> ('d \<Rightarrow> 'v) \<Rightarrow> (nat \<Rightarrow> 'd \<Rightarrow> bool) \<Rightarrow> bool" where
  "qt_session_laws X committed open_tx \<longleftrightarrow>
     (\<forall>c d. committed (snd (qx_begin X c d)) = committed d \<and> (fst (qx_begin X c d) \<longrightarrow> open_tx c (snd (qx_begin X c d)))) \<and>
     (\<forall>c sql ps d. open_tx c d \<longrightarrow> committed (snd (qx_exec X c sql ps d)) = committed d \<and> open_tx c (snd (qx_exec X c sql ps d))) \<and>
     (\<forall>c d. open_tx c d \<and> \<not> fst (qx_commit X c d) \<longrightarrow> committed (snd (qx_commit X c d)) = committed d \<and>
        committed (snd (qx_rollback X c (snd (qx_commit X c d)))) = committed d) \<and>
     (\<forall>c d. open_tx c d \<longrightarrow> committed (snd (qx_rollback X c d)) = committed d)"

lemma batches_length: "sum_list (map length (batches xs)) = length xs"
  by (induction xs rule: batches.induct) auto

lemma batches_size: "b \<in> set (batches xs) \<Longrightarrow> 1 \<le> length b \<and> length b \<le> 100"
  by (induction xs rule: batches.induct) auto

lemma batches_concat: "concat (batches xs) = xs"
  by (induction xs rule: batches.induct) simp_all

lemma qt_batch_loop_count:
  "n \<le> fst (qt_batch_loop X halt table cols c k n bs s) \<and> fst (qt_batch_loop X halt table cols c k n bs s) \<le> n + sum_list (map length bs)"
proof (induction bs arbitrary: k n s)
  case (Cons b bs)
  have "n + length b \<le> fst (qt_batch_loop X halt table cols c (Suc k) (n + length b) bs s1) \<and>
      fst (qt_batch_loop X halt table cols c (Suc k) (n + length b) bs s1) \<le> n + length b + sum_list (map length bs)" for s1
    using Cons.IH by blast
  then show ?case by (auto simp: Let_def add.assoc split: prod.splits option.splits) (meson le_trans le_add1)+
qed (auto split: prod.splits)

lemma batch_stop_committed:
  "qt_session_laws X committed open_tx \<Longrightarrow> open_tx c (qs_data s) \<Longrightarrow> committed (qs_data (batch_stop X c s)) = committed (qs_data s)"
  by (simp add: qt_session_laws_def batch_stop_def qt_rollbackTransaction_def qt_end_def split: prod.splits) (metis snd_conv)

lemma qt_batch_loop_stored:
  assumes "qt_session_laws X committed open_tx" "open_tx c (qs_data s)" "\<forall>d. \<not> fst (qx_commit X c d)"
  shows "committed (qs_data (snd (qt_batch_loop X halt table cols c k n bs s))) = committed (qs_data s)"
  using assms(2)
proof (induction bs arbitrary: k n s)
  case Nil
  let ?d = "snd (qx_commit X c (qs_data s))"
  have "committed (snd (qx_rollback X c ?d)) = committed (qs_data s)" using assms(1,3) Nil unfolding qt_session_laws_def by blast
  then show ?case using assms(3)
    by (auto simp: batch_stop_def qt_rollbackTransaction_def qt_end_def split: prod.splits) (metis fst_conv snd_conv)+
next
  case (Cons b bs)
  let ?sql = "batch_sql table cols (length b)"
  let ?ps = "concat (map (\<lambda>row. map (\<lambda>col. qm_value row col DvInvalid) cols) b)"
  let ?s1 = "s\<lparr>qs_data := snd (qx_exec X c ?sql ?ps (qs_data s))\<rparr>"
  have e: "committed (qs_data ?s1) = committed (qs_data s)" "open_tx c (qs_data ?s1)"
    using assms(1) Cons.prems unfolding qt_session_laws_def by auto
  have ih: "committed (qs_data (snd (qt_batch_loop X halt table cols c (Suc k) (n + length b) bs ?s1))) = committed (qs_data s)"
    using Cons.IH[of ?s1 "Suc k" "n + length b"] e by simp
  have st: "committed (qs_data (batch_stop X c s)) = committed (qs_data s)" "committed (qs_data (batch_stop X c ?s1)) = committed (qs_data s)"
    using batch_stop_committed[OF assms(1), of c s] batch_stop_committed[OF assms(1), of c ?s1] Cons.prems e by simp_all
  show ?case
  proof (cases "qx_exec X c ?sql ?ps (qs_data s)")
    case (Pair r d)
    then show ?thesis using ih st by (cases r) (simp_all add: Let_def)
  qed
qed

text \<open>
  When the transaction of a batch cannot be committed nothing is stored, whatever number the function returns; and when every batch is
  accepted that number is the number of rows.
\<close>
theorem qt_batch_count_unstored:
  assumes "qt_session_laws X committed open_tx" "\<forall>c d. \<not> fst (qx_commit X c d)"
  shows "committed (qs_data (snd (qt_batchInsert X halt table rows s))) = committed (qs_data s) \<and>
    fst (qt_batchInsert X halt table rows s) \<le> length rows"
proof -
  obtain h s1 where g: "qt_get X s = (h, s1)" by (cases "qt_get X s")
  then have d: "qs_data s1 = qs_data s" by (auto simp: qt_get_def split: prod.splits)
  show ?thesis
  proof (cases h)
    case None
    then show ?thesis using g d by (simp add: qt_batchInsert_def)
  next
    case (Some c)
    obtain ok e where b: "qx_begin X c (qs_data s) = (ok, e)" by (cases "qx_begin X c (qs_data s)")
    have laws: "committed e = committed (qs_data s)" "ok \<Longrightarrow> open_tx c e" using assms(1) b unfolding qt_session_laws_def by (metis snd_conv, metis fst_conv snd_conv)
    have "committed (qs_data (snd (qt_batch_loop X halt table cols c 0 0 bs (s1\<lparr>qs_data := e\<rparr>)))) = committed (qs_data s)" if ok for cols bs
      using qt_batch_loop_stored[OF assms(1), of c "s1\<lparr>qs_data := e\<rparr>"] assms(2) laws that by simp
    moreover have "fst (qt_batch_loop X halt table cols c 0 0 (batches rows) (s1\<lparr>qs_data := e\<rparr>)) \<le> length rows" for cols
      using qt_batch_loop_count[of 0 X halt table cols c 0 "batches rows"] by (simp add: batches_length)
    ultimately show ?thesis using g d Some b laws(1) by (cases ok) (auto simp: qt_batchInsert_def)
  qed
qed

section \<open>Instances\<close>

text \<open>A server that counts rows, committed and in an open transaction, and refuses every commit.\<close>

definition failing_commit :: "(nat \<times> nat option) qt_sql" where
  "failing_commit = \<lparr>qx_server = qt_sample_server, qx_now = 0, qx_prepare = (\<lambda>c q d. True),
     qx_exec = (\<lambda>c q ps d. (Some [], case snd d of Some k \<Rightarrow> (fst d, Some (Suc k)) | None \<Rightarrow> (Suc (fst d), None))),
     qx_begin = (\<lambda>c d. (True, (fst d, Some (fst d)))), qx_commit = (\<lambda>c d. (False, d)), qx_rollback = (\<lambda>c d. (True, (fst d, None)))\<rparr>"

definition two_connections :: "(nat \<times> nat option) qt_state" where
  "two_connections = \<lparr>qs_pool = \<lparr>qp_connections = [\<lparr>pc_connection = 0, pc_inUse = False, pc_lastUsed = 0\<rparr>], qp_max = 2, qp_min = 1, qp_registered = 1\<rparr>,
     qs_data = (0, None), qs_handle = None\<rparr>"

lemma two_connections_ok: "qt_pool_ok (qs_pool two_connections)"
  by (simp add: two_connections_def qt_pool_ok_def)

lemma two_connections_get:
  "qt_get failing_commit two_connections = (Some 0, two_connections\<lparr>qs_pool := (qs_pool two_connections)\<lparr>qp_connections :=
     [\<lparr>pc_connection = 0, pc_inUse = True, pc_lastUsed = 0\<rparr>]\<rparr>\<rparr>)"
  by (simp add: qt_get_def two_connections_def failing_commit_def qt_getConnection_def qt_usable_def usable_def qt_sample_server_def)

theorem qt_batch_count_unstored_witness:
  "fst (qt_batchInsert failing_commit (\<lambda>k. False) ''t'' [[(''a'', DvInt 1)]] two_connections) = 1 \<and>
   fst (qs_data (snd (qt_batchInsert failing_commit (\<lambda>k. False) ''t'' [[(''a'', DvInt 1)]] two_connections))) = 0"
proof -
  have laws: "qt_session_laws failing_commit fst (\<lambda>c d. snd d \<noteq> None)"
    by (auto simp: qt_session_laws_def failing_commit_def)
  have "\<forall>c d. \<not> fst (qx_commit failing_commit c d)" by (simp add: failing_commit_def)
  from qt_batch_count_unstored[OF laws this, of "\<lambda>k. False" "''t''" "[[(''a'', DvInt 1)]]" two_connections]
  have "fst (qs_data (snd (qt_batchInsert failing_commit (\<lambda>k. False) ''t'' [[(''a'', DvInt 1)]] two_connections))) = 0"
    by (simp add: two_connections_def)
  moreover have "fst (qt_batchInsert failing_commit (\<lambda>k. False) ''t'' [[(''a'', DvInt 1)]] two_connections) = 1"
    by (simp add: qt_batchInsert_def two_connections_get Let_def)
       (simp add: failing_commit_def two_connections_def qt_sample_server_def qt_alive_def qt_isConnectionValid_def)
  ultimately show ?thesis by simp
qed

theorem qt_statements_return_connections_witness:
  "qt_busy (qs_pool (snd (qt_executeNonQuery failing_commit ''DELETE'' [] two_connections))) = {}"
  using qt_statements_return_connections[OF two_connections_ok, of failing_commit "''DELETE''" "[]" False "\<lambda>k. False" "''t''" "[]"]
  by (simp add: failing_commit_def qt_sample_server_def) (simp add: two_connections_def qt_busy_def)

text \<open>A server that counts rows, committed and in the open transaction of one connection.\<close>

definition counting_server :: "(nat \<times> (nat \<times> nat) option) qt_sql" where
  "counting_server = \<lparr>qx_server = qt_sample_server, qx_now = 0, qx_prepare = (\<lambda>c q d. True),
     qx_exec = (\<lambda>c q ps d. (Some [], case snd d of Some (h, k) \<Rightarrow> if h = c then (fst d, Some (h, Suc k)) else (Suc (fst d), snd d) | None \<Rightarrow> (Suc (fst d), None))),
     qx_begin = (\<lambda>c d. (True, (fst d, Some (c, fst d)))), qx_commit = (\<lambda>c d. (True, (case snd d of Some (h, k) \<Rightarrow> k | None \<Rightarrow> fst d), None)),
     qx_rollback = (\<lambda>c d. (True, (fst d, None)))\<rparr>"

definition counted_state :: "(nat \<times> (nat \<times> nat) option) qt_state" where
  "counted_state = \<lparr>qs_pool = qs_pool two_connections, qs_data = (0, None), qs_handle = None\<rparr>"

theorem statements_miss_transaction_witness:
  "fst (qs_data (snd (qt_rollbackTransaction counting_server (Some 0)
     (snd (qt_executeNonQuery counting_server ''DELETE'' [] (snd (qt_beginTransaction counting_server counted_state))))))) = 1"
proof -
  let ?s1 = "snd (qt_beginTransaction counting_server counted_state)"
  let ?s3 = "snd (qt_executeNonQuery counting_server ''DELETE'' [] ?s1)"
  have g: "qt_get counting_server counted_state = (Some 0, counted_state\<lparr>qs_pool := (qs_pool two_connections)\<lparr>qp_connections :=
     [\<lparr>pc_connection = 0, pc_inUse = True, pc_lastUsed = 0\<rparr>]\<rparr>\<rparr>)"
    by (simp add: qt_get_def counted_state_def two_connections_def counting_server_def qt_getConnection_def qt_usable_def usable_def qt_sample_server_def)
  have b: "qt_beginTransaction counting_server counted_state = (Some 0, ?s1)" and p: "qs_pool ?s1 = \<lparr>qp_connections =
      [\<lparr>pc_connection = 0, pc_inUse = True, pc_lastUsed = 0\<rparr>], qp_max = 2, qp_min = 1, qp_registered = 1\<rparr>" "qs_data ?s1 = (0, Some (0, 0))"
    by (simp_all add: qt_beginTransaction_def g) (simp_all add: counting_server_def counted_state_def two_connections_def)
  have ok: "0 \<in> qt_busy (qs_pool ?s1)" "qt_pool_ok (qs_pool ?s1)" by (simp_all add: p qt_busy_def qt_pool_ok_def)
  have "fst (qt_executeNonQuery counting_server ''DELETE'' [] s)" if "qs_pool s = \<lparr>qp_connections =
      [\<lparr>pc_connection = 0, pc_inUse = True, pc_lastUsed = 0\<rparr>], qp_max = 2, qp_min = 1, qp_registered = 1\<rparr>" for s
    by (simp add: qt_executeNonQuery_def qt_get_def that qt_getConnection_def qt_createConnection_def Let_def counting_server_def qt_sample_server_def
        qt_alive_def qt_isConnectionValid_def qt_run_def)
  from this[OF p(1)] have run: "qt_executeNonQuery counting_server ''DELETE'' [] ?s1 = (True, ?s3)" by (metis prod.collapse)
  have law: "autocommit_law counting_server fst (\<lambda>c d. \<exists>k. snd d = Some (c, k)) ''DELETE'' [] Suc"
    by (auto simp: autocommit_law_def counting_server_def split: option.splits)
  have "\<forall>e. e \<notin> qt_busy (qs_pool ?s1) \<longrightarrow> \<not> (\<exists>k. snd (qs_data ?s1) = Some (e, k))" using ok(1) by (metis p(2) snd_conv option.inject prod.inject)
  from statements_miss_transaction[OF _ b ok run law this] show ?thesis using two_connections_ok p(2) by (simp add: counted_state_def)
qed

end
