(* ===== verification/Data_Access.thy ===== *)
theory Data_Access
  imports Db_Manager Alarm_Control Area_Judge
begin

text \<open>
  What the program reads from the database (\<open>db/DataAccessLayer.cpp\<close>): each function sends its SQL text and turns the rows into the
  structures of the program, with the conversions of \<open>QVariant\<close>.  What a statement selects is the server's business and a parameter (the answer of
  \<open>executeQuery\<close>); the theorems say what the program makes of the rows, and in the default mode of the cells.
\<close>

section \<open>Conversions of a value\<close>

text \<open>The conversions of a text to a number, of a value that is not a text to a text, and of an id to the model's ids.\<close>

record val_env =
  ve_qt :: qt_text
  ve_textInt :: "qstring \<Rightarrow> int"
  ve_textLong :: "qstring \<Rightarrow> int"
  ve_textReal :: "qstring \<Rightarrow> real"
  ve_realInt :: "real \<Rightarrow> int"
  ve_show :: "db_value \<Rightarrow> qstring"
  ve_time :: "db_value \<Rightarrow> int option"
  ve_date :: "int \<Rightarrow> qstring"
  ve_id :: "qstring \<Rightarrow> string"

definition to_int :: "val_env \<Rightarrow> db_value \<Rightarrow> int" where
  "to_int V v = (case v of VText s \<Rightarrow> ve_textInt V s | VInt i \<Rightarrow> to_i32 i | VReal r \<Rightarrow> ve_realInt V r | VBool b \<Rightarrow> (if b then 1 else 0) | _ \<Rightarrow> 0)"

definition to_long :: "val_env \<Rightarrow> db_value \<Rightarrow> int" where
  "to_long V v = (case v of VText s \<Rightarrow> ve_textLong V s | VInt i \<Rightarrow> i | VReal r \<Rightarrow> ve_realInt V r | VBool b \<Rightarrow> (if b then 1 else 0) | _ \<Rightarrow> 0)"

definition to_real :: "val_env \<Rightarrow> db_value \<Rightarrow> real" where
  "to_real V v = (case v of VText s \<Rightarrow> ve_textReal V s | VInt i \<Rightarrow> of_int i | VReal r \<Rightarrow> r | VBool b \<Rightarrow> (if b then 1 else 0) | _ \<Rightarrow> 0)"

definition to_text :: "val_env \<Rightarrow> db_value \<Rightarrow> qstring" where
  "to_text V v = (case v of VNull \<Rightarrow> [] | VText s \<Rightarrow> s | _ \<Rightarrow> ve_show V v)"

text \<open>A text is false only when it is empty, \<open>0\<close> or \<open>false\<close>.\<close>

definition to_bool :: "val_env \<Rightarrow> db_value \<Rightarrow> bool" where
  "to_bool V v =
     (case v of VText s \<Rightarrow> toLower (ve_qt V) s \<noteq> [] \<and> toLower (ve_qt V) s \<noteq> qs ''0'' \<and> toLower (ve_qt V) s \<noteq> qs ''false''
      | VInt i \<Rightarrow> i \<noteq> 0 | VReal r \<Rightarrow> r \<noteq> 0 | VBool b \<Rightarrow> b | _ \<Rightarrow> False)"

definition to_id :: "val_env \<Rightarrow> db_value \<Rightarrow> string" where
  "to_id V v = ve_id V (to_text V v)"

text \<open>A query whose rows are turned into a result.\<close>

definition reading :: "'d db_env \<Rightarrow> nat \<Rightarrow> string \<Rightarrow> db_variant list \<Rightarrow> (db_row list \<Rightarrow> 'r) \<Rightarrow> 'd db_manager \<Rightarrow> 'r \<times> 'd db_manager" where
  "reading E t sql ps f m = (case executeQuery E t sql ps m of (rows, m1) \<Rightarrow> (f rows, m1))"

section \<open>The active scheme\<close>

definition getActiveSchemeId :: "val_env \<Rightarrow> 'd db_env \<Rightarrow> nat \<Rightarrow> 'd db_manager \<Rightarrow> qstring \<times> 'd db_manager" where
  "getActiveSchemeId V E t m =
     reading E t ''SELECT scheme_id FROM alarm_master_schemes WHERE enabled = true LIMIT 1'' []
       (\<lambda>rows. case rows of r # rs \<Rightarrow> to_text V (by_name r ''scheme_id'') | [] \<Rightarrow> qs ''default'') m"

text \<open>A query for the active scheme.\<close>

definition for_scheme :: "val_env \<Rightarrow> 'd db_env \<Rightarrow> nat \<Rightarrow> string \<Rightarrow> (db_row list \<Rightarrow> 'r) \<Rightarrow> 'd db_manager \<Rightarrow> 'r \<times> 'd db_manager" where
  "for_scheme V E t sql f m = (case getActiveSchemeId V E t m of (sid, m1) \<Rightarrow> reading E t sql [DvText sid] f m1)"

section \<open>Alarm rules\<close>

text \<open>The members of \<open>AlarmRule\<close> that no other component uses.\<close>

record StoredRule = AlarmRule +
  sr_filterstate :: int
  sr_area_function :: int
  sr_area_type :: int
  sr_area_st :: qstring
  sr_area_et :: qstring
  sr_area_cycle :: int
  sr_targetattr_st :: qstring
  sr_targetattr_et :: qstring
  sr_targetattr_cycle :: int
  sr_targetattr_side :: int
  sr_targetattr_ifmil :: int
  sr_targetbh_st :: qstring
  sr_targetbh_et :: qstring
  sr_targetbh_cycle :: int
  sr_targetbh_type :: int
  sr_has_ais :: int
  sr_ais_type :: int
  sr_ais_behavior :: int

definition stored_rule :: "val_env \<Rightarrow> db_row \<Rightarrow> StoredRule" where
  "stored_rule V r =
     (let n = (\<lambda>k. to_int V (by_name r k)); s = (\<lambda>k. to_text V (by_name r k)) in
      \<lparr>rule_condition_id = to_id V (by_name r ''condition_id''), rule_track_type = n ''track_type'',
       rule_speed_condition = n ''speed_condition'', rule_speed = n ''speed'', rule_area_judge = n ''area_judge'',
       rule_group_id = n ''group_id'', rule_area_id = n ''area_id'', rule_alarm_level = n ''alarm_level'',
       rule_height_min = n ''height_min'', rule_height_max = n ''height_max'', rule_course_min = n ''course_min'',
       rule_course_max = n ''course_max'', rule_blacklist_judge = n ''blacklist_judge'', rule_whitelist_judge = n ''whitelist_judge'',
       rule_affiliation_judge = n ''affiliation_judge'', rule_corp_judge = n ''corp_judge'', rule_name = s ''name'',
       rule_alarmstate = n ''alarmstate'', rule_area_name = s ''area_name'', rule_direction = n ''direction'',
       rule_distance_condition = n ''distance_condition'', rule_distance = n ''distance'', rule_isBirdTrack = -1,
       rule_targetattr_type = n ''targetattr_type'', rule_camera_detect_type = n ''camera_detect_type'', rule_llm_detect_type = 0,
       rule_uav_detect_type = n ''uav_detect_type'', rule_threat_level1 = n ''threat_level1'', rule_threat_level2 = n ''threat_level2'',
       rule_dist_to_protect_area = n ''dist_to_protect_area'', rule_entry_time = n ''entry_time_value'',
       sr_filterstate = n ''filterstate'', sr_area_function = n ''area_function'', sr_area_type = n ''area_type'',
       sr_area_st = s ''area_st'', sr_area_et = s ''area_et'', sr_area_cycle = n ''area_cycle'',
       sr_targetattr_st = s ''targetattr_st'', sr_targetattr_et = s ''targetattr_et'', sr_targetattr_cycle = n ''targetattr_cycle'',
       sr_targetattr_side = n ''targetattr_side'', sr_targetattr_ifmil = n ''targetattr_ifmil'', sr_targetbh_st = s ''targetbh_st'',
       sr_targetbh_et = s ''targetbh_et'', sr_targetbh_cycle = n ''targetbh_cycle'', sr_targetbh_type = n ''targetbh_type'',
       sr_has_ais = n ''has_ais'', sr_ais_type = n ''corp_judge'', sr_ais_behavior = n ''ais_behavior''\<rparr>)"

text \<open>\<open>info[id] = rule\<close> for every row.\<close>

definition keyed :: "('a \<Rightarrow> 'k::linorder) \<Rightarrow> 'a list \<Rightarrow> ('k, 'a) qmap" where
  "keyed key xs = fold (\<lambda>x m. qm_insert (key x) x m) xs []"

definition getAlarmRule :: "val_env \<Rightarrow> 'd db_env \<Rightarrow> nat \<Rightarrow> 'd db_manager \<Rightarrow> (string, StoredRule) qmap \<times> 'd db_manager" where
  "getAlarmRule V E t m =
     reading E t ''SELECT * FROM alarm_setting'' [] (\<lambda>rows. keyed rule_condition_id (map (stored_rule V) rows)) m"

section \<open>Identification rules\<close>

record StoredSub = RuleSub +
  ss_id :: int
  ss_rule_id :: string
  ss_criteria_type :: int
  ss_criteria_order :: int
  ss_logic_operator :: qstring
  ss_created_at :: "int option"
  ss_updated_at :: "int option"

text \<open>\<open>!det.isNull() ? text : empty\<close>, \<open>en.isNull() ? true : en.toBool()\<close>, and a time only when it is not null.\<close>

definition time_unless_null :: "val_env \<Rightarrow> db_value \<Rightarrow> int option" where
  "time_unless_null V v = (if v = VNull then None else ve_time V v)"

definition enabled_value :: "val_env \<Rightarrow> db_value \<Rightarrow> bool" where
  "enabled_value V v = (if v = VNull then True else to_bool V v)"

definition stored_sub :: "val_env \<Rightarrow> db_row \<Rightarrow> StoredSub" where
  "stored_sub V r =
     (let lop = to_text V (by_name r ''logic_operator'') in
      \<lparr>criteria_id = to_text V (by_name r ''criteria_id''), detection_rules_json = to_text V (by_name r ''detection_rules''),
       sub_enabled = enabled_value V (by_name r ''enabled''), ss_id = to_int V (by_name r ''id''), ss_rule_id = to_id V (by_name r ''rule_id''),
       ss_criteria_type = to_int V (by_name r ''criteria_type''), ss_criteria_order = to_int V (by_name r ''criteria_order''),
       ss_logic_operator = (if lop = [] then qs ''AND'' else lop), ss_created_at = time_unless_null V (by_name r ''created_at''),
       ss_updated_at = time_unless_null V (by_name r ''updated_at'')\<rparr>)"

text \<open>\<open>map[key].append(x)\<close> for every item.\<close>

definition grouped :: "('a \<Rightarrow> 'k::linorder) \<Rightarrow> 'a list \<Rightarrow> ('k, 'a list) qmap" where
  "grouped key xs = fold (\<lambda>x m. qm_insert (key x) (qm_value m (key x) [] @ [x]) m) xs []"

definition sql_rule_subs :: string where
  "sql_rule_subs = ''SELECT s.id, s.rule_id, s.criteria_id, s.criteria_type, s.criteria_order, s.detection_rules, s.logic_operator, s.enabled, s.created_at, s.updated_at FROM alarm_identification_rules_sub s WHERE EXISTS (  SELECT 1 FROM area_identification_rules a   WHERE a.rule_id = s.rule_id AND a.scheme_id = ? AND COALESCE(a.enabled, true) = true) ORDER BY s.rule_id, s.criteria_order, s.id''"

definition getAlarmIdentificationRulesSub :: "val_env \<Rightarrow> 'd db_env \<Rightarrow> nat \<Rightarrow> 'd db_manager \<Rightarrow> (string, StoredSub list) qmap \<times> 'd db_manager" where
  "getAlarmIdentificationRulesSub V E t m = for_scheme V E t sql_rule_subs (\<lambda>rows. grouped ss_rule_id (map (stored_sub V) rows)) m"

text \<open>The ids of the rules bound to an area, each once.\<close>

definition row_area_key :: "val_env \<Rightarrow> db_row \<Rightarrow> string" where
  "row_area_key V r = dec_int (to_int V (by_name r ''group_id'')) @ ''_'' @ dec_int (to_int V (by_name r ''area_id''))"

definition collect_ids :: "val_env \<Rightarrow> db_row list \<Rightarrow> (string, string list) qmap" where
  "collect_ids V rows = fold (\<lambda>r m.
       let rid = to_id V (by_name r ''rule_id''); k = row_area_key V r; lst = qm_value m k []
       in qm_insert k (if rid \<in> set lst then lst else lst @ [rid]) m) rows []"

definition getIdentificationRuleIdsByArea :: "val_env \<Rightarrow> 'd db_env \<Rightarrow> nat \<Rightarrow> 'd db_manager \<Rightarrow> (string, string list) qmap \<times> 'd db_manager" where
  "getIdentificationRuleIdsByArea V E t m = for_scheme V E t
     ''SELECT group_id, area_id, rule_id FROM area_identification_rules WHERE scheme_id = ? AND COALESCE(enabled, true) = true ORDER BY group_id, area_id, rule_id''
     (collect_ids V) m"

definition getVerificationRuleIdsByArea :: "val_env \<Rightarrow> 'd db_env \<Rightarrow> nat \<Rightarrow> 'd db_manager \<Rightarrow> (string, string list) qmap \<times> 'd db_manager" where
  "getVerificationRuleIdsByArea V E t m = for_scheme V E t
     ''SELECT group_id, area_id, rule_id FROM area_verification_rules WHERE scheme_id = ? AND COALESCE(enabled, true) = true ORDER BY group_id, area_id, rule_id''
     (collect_ids V) m"

record AreaHandleRuleBinding =
  hb_id :: int
  hb_handle_scheme_id :: qstring
  hb_handle_scheme_name :: qstring
  hb_priority :: int
  hb_enabled :: bool
  hb_created_at :: "int option"

definition handle_binding :: "val_env \<Rightarrow> db_row \<Rightarrow> AreaHandleRuleBinding" where
  "handle_binding V r = \<lparr>hb_id = to_int V (by_name r ''id''), hb_handle_scheme_id = to_text V (by_name r ''handle_scheme_id''),
     hb_handle_scheme_name = to_text V (by_name r ''handle_scheme_name''), hb_priority = to_int V (by_name r ''priority''),
     hb_enabled = enabled_value V (by_name r ''enabled''), hb_created_at = time_unless_null V (by_name r ''created_at'')\<rparr>"

definition getAreaHandleRulesByArea :: "val_env \<Rightarrow> 'd db_env \<Rightarrow> nat \<Rightarrow> 'd db_manager
    \<Rightarrow> (string, AreaHandleRuleBinding list) qmap \<times> 'd db_manager" where
  "getAreaHandleRulesByArea V E t m = for_scheme V E t
     ''SELECT id, group_id, area_id, handle_scheme_id, handle_scheme_name, priority, enabled, created_at FROM area_handle_rules WHERE scheme_id = ? AND COALESCE(enabled, true) = true ORDER BY group_id, area_id, priority ASC, created_at ASC''
     (\<lambda>rows. fold (\<lambda>r mm. qm_insert (row_area_key V r) (qm_value mm (row_area_key V r) [] @ [handle_binding V r]) mm) rows []) m"

section \<open>Targets, areas and schemes\<close>

record StoredFilter = TargetInfoFilter +
  sf_reid :: int

definition getTargetInfoFilter :: "val_env \<Rightarrow> 'd db_env \<Rightarrow> nat \<Rightarrow> 'd db_manager \<Rightarrow> (int, StoredFilter) qmap \<times> 'd db_manager" where
  "getTargetInfoFilter V E t m =
     reading E t ''SELECT * FROM filter_target_table'' [] (\<lambda>rows. keyed sf_reid (map (\<lambda>r.
        \<lparr>black_white_attr = to_int V (by_name r ''black_white_attr''), affiliation_attr = to_int V (by_name r ''affiliation_attr''),
         corp_attr = to_int V (by_name r ''corp_attr''), sf_reid = to_int V (by_name r ''reid'')\<rparr>) rows)) m"

definition getActiveSchemeProtectAreas :: "val_env \<Rightarrow> 'd db_env \<Rightarrow> nat \<Rightarrow> 'd db_manager \<Rightarrow> (int \<times> int, int \<times> int) qmap \<times> 'd db_manager" where
  "getActiveSchemeProtectAreas V E t m = for_scheme V E t
     ''SELECT group_id, area_id, protect_group_id, protect_area_id FROM alarm_scheme_areas WHERE scheme_id = ?''
     (\<lambda>rows. fold (\<lambda>r mm. qm_insert (to_int V (by_name r ''group_id''), to_int V (by_name r ''area_id''))
        (to_int V (by_name r ''protect_group_id''), to_int V (by_name r ''protect_area_id'')) mm) rows []) m"

record StoredArea = AreaInfo +
  sa_groupName :: qstring
  sa_lineWidth :: int
  sa_lineColor :: qstring
  sa_checkState :: int
  sa_waringType :: int
  sa_waringTime :: int
  sa_protectGroupID :: int
  sa_protectAreaID :: int

definition stored_area :: "val_env \<Rightarrow> db_row \<Rightarrow> StoredArea" where
  "stored_area V r =
     (let n = (\<lambda>k. to_int V (by_name r k)); s = (\<lambda>k. to_text V (by_name r k)) in
      \<lparr>an_groupID = n ''group_id'', an_areaID = n ''area_id'', an_areaName = s ''area_name'', an_areaType = n ''area_type'',
       an_startPoint = s ''start_point'', an_endPoint = s ''end_point'', an_areaRect = s ''area_rect'', an_areaPoints = s ''area_points'',
       sa_groupName = s ''group_name'', sa_lineWidth = n ''line_width'', sa_lineColor = s ''line_color'', sa_checkState = n ''check_state'',
       sa_waringType = n ''waring_type'', sa_waringTime = n ''waring_time'', sa_protectGroupID = n ''protect_group_id'',
       sa_protectAreaID = n ''protect_area_id''\<rparr>)"

definition getAreaInfo :: "val_env \<Rightarrow> 'd db_env \<Rightarrow> nat \<Rightarrow> 'd db_manager \<Rightarrow> StoredArea list \<times> 'd db_manager" where
  "getAreaInfo V E t m = reading E t ''SELECT *FROM area_table order by area_id'' [] (map (stored_area V)) m"

record TargetInfo =
  ti_targetId :: int
  ti_targetType :: int
  ti_targetName :: qstring

definition target_info :: "val_env \<Rightarrow> db_row \<Rightarrow> TargetInfo" where
  "target_info V r = \<lparr>ti_targetId = to_long V (by_name r ''target_id''), ti_targetType = to_int V (by_name r ''target_type''),
     ti_targetName = to_text V (by_name r ''target_name'')\<rparr>"

definition getAllTargetInfo :: "val_env \<Rightarrow> 'd db_env \<Rightarrow> nat \<Rightarrow> 'd db_manager \<Rightarrow> TargetInfo list \<times> 'd db_manager" where
  "getAllTargetInfo V E t m = reading E t ''SELECT target_id, target_type, target_name FROM target_info'' [] (map (target_info V)) m"

section \<open>Threat parameters\<close>

text \<open>The members of \<open>ThreatAssessmentParams\<close> that the assessment does not use.\<close>

record StoredParams = ThreatAssessmentParams +
  intentionAttackScore :: real
  intentionReconnaissanceScore :: real
  intentionPatrolScore :: real
  intentionTrainingScore :: real
  intentionTransitOperationScore :: real
  intentionTransitReturnScore :: real
  intentionCargoRouteScore :: real
  intentionOtherScore :: real
  highThreatThreshold :: real
  mediumThreatThreshold :: real
  sp_createdAt :: qstring
  sp_updatedAt :: qstring

text \<open>A time that is null, or no time, gives no text.\<close>

definition date_text :: "val_env \<Rightarrow> db_value \<Rightarrow> qstring" where
  "date_text V v = (if v = VNull then [] else case ve_time V v of Some t \<Rightarrow> ve_date V t | None \<Rightarrow> [])"

definition stored_params :: "val_env \<Rightarrow> db_row \<Rightarrow> StoredParams" where
  "stored_params V r =
     (let d = (\<lambda>k. to_real V (by_name r k)) in
      \<lparr>tp_groupId = to_int V (by_name r ''group_id''), tp_areaId = to_int V (by_name r ''area_id''),
       seaSpeedboatScore = d ''sea_speedboat_score'', seaWarshipScore = d ''sea_warship_score'',
       seaMotorboatScore = d ''sea_motorboat_score'', seaFishingBoatScore = d ''sea_fishing_boat_score'',
       seaShipScore = d ''sea_ship_score'', seaCargoShipScore = d ''sea_cargo_ship_score'',
       seaUnknownScore = d ''sea_unknown_score'', seaBuoyScore = d ''sea_buoy_score'', airDroneScore = d ''air_drone_score'',
       airDroneSwarmScore = d ''air_drone_swarm_score'', airCompoundWingScore = d ''air_compound_wing_score'',
       airRotorcraftScore = d ''air_rotorcraft_score'', airAircraftScore = d ''air_aircraft_score'',
       airBirdScore = d ''air_bird_score'', airBirdFlockScore = d ''air_bird_flock_score'', typeWeight = d ''type_weight'',
       angleWeight = d ''angle_weight'', speedWeight = d ''speed_weight'', distanceWeight = d ''distance_weight'',
       speedThresholdLow = d ''speed_threshold_low'', speedThresholdHigh = d ''speed_threshold_high'',
       maxEffectiveDistance = d ''max_effective_distance'', intentionAttackScore = d ''intention_attack_score'',
       intentionReconnaissanceScore = d ''intention_reconnaissance_score'', intentionPatrolScore = d ''intention_patrol_score'',
       intentionTrainingScore = d ''intention_training_score'',
       intentionTransitOperationScore = d ''intention_transit_operation_score'',
       intentionTransitReturnScore = d ''intention_transit_return_score'',
       intentionCargoRouteScore = d ''intention_cargo_route_score'', intentionOtherScore = d ''intention_other_score'',
       highThreatThreshold = d ''high_threat_threshold'', mediumThreatThreshold = d ''medium_threat_threshold'',
       sp_createdAt = date_text V (by_name r ''created_at''), sp_updatedAt = date_text V (by_name r ''updated_at'')\<rparr>)"

definition default_stored_params :: "int \<Rightarrow> int \<Rightarrow> StoredParams" where
  "default_stored_params g a = ThreatAssessmentParams.extend (default_params g a)
     \<lparr>intentionAttackScore = 10, intentionReconnaissanceScore = 8, intentionPatrolScore = 6, intentionTrainingScore = 4,
      intentionTransitOperationScore = 3, intentionTransitReturnScore = 2, intentionCargoRouteScore = 5 / 2, intentionOtherScore = 5,
      highThreatThreshold = 70, mediumThreatThreshold = 30, sp_createdAt = [], sp_updatedAt = []\<rparr>"

definition getThreatParamsList :: "val_env \<Rightarrow> 'd db_env \<Rightarrow> nat \<Rightarrow> 'd db_manager \<Rightarrow> StoredParams list \<times> 'd db_manager" where
  "getThreatParamsList V E t m =
     for_scheme V E t ''SELECT * FROM area_params WHERE scheme_id = ? ORDER BY group_id, area_id'' (map (stored_params V)) m"

definition getThreatParamsIn :: "val_env \<Rightarrow> 'd db_env \<Rightarrow> nat \<Rightarrow> int \<Rightarrow> int \<Rightarrow> qstring \<Rightarrow> 'd db_manager \<Rightarrow> StoredParams \<times> 'd db_manager" where
  "getThreatParamsIn V E t g a sid m =
     reading E t ''SELECT * FROM area_params WHERE group_id = ? AND area_id = ? AND scheme_id = ?'' [DvInt g, DvInt a, DvText sid]
       (\<lambda>rows. case rows of r # rs \<Rightarrow> stored_params V r | [] \<Rightarrow> default_stored_params g a) m"

definition getThreatParamsOf :: "val_env \<Rightarrow> 'd db_env \<Rightarrow> nat \<Rightarrow> int \<Rightarrow> int \<Rightarrow> 'd db_manager \<Rightarrow> StoredParams \<times> 'd db_manager" where
  "getThreatParamsOf V E t g a m = (case getActiveSchemeId V E t m of (sid, m1) \<Rightarrow> getThreatParamsIn V E t g a sid m1)"

text \<open>Saving: an update when the area has a row of any scheme, an insertion otherwise.\<close>

definition param_columns :: "string list" where
  "param_columns = [
     ''sea_speedboat_score'', ''sea_warship_score'', ''sea_motorboat_score'', ''sea_fishing_boat_score'', ''sea_ship_score'',
     ''sea_cargo_ship_score'', ''sea_unknown_score'', ''sea_buoy_score'', ''air_drone_score'', ''air_drone_swarm_score'',
     ''air_compound_wing_score'', ''air_rotorcraft_score'', ''air_aircraft_score'', ''air_bird_score'',
     ''air_bird_flock_score'', ''intention_attack_score'', ''intention_reconnaissance_score'', ''intention_patrol_score'',
     ''intention_training_score'', ''intention_transit_operation_score'', ''intention_transit_return_score'',
     ''intention_cargo_route_score'', ''intention_other_score'', ''type_weight'', ''angle_weight'', ''speed_weight'',
     ''distance_weight'', ''speed_threshold_low'', ''speed_threshold_high'', ''max_effective_distance'',
     ''high_threat_threshold'', ''medium_threat_threshold'']"

definition param_fields :: "StoredParams \<Rightarrow> real list" where
  "param_fields p = [
     seaSpeedboatScore p, seaWarshipScore p, seaMotorboatScore p, seaFishingBoatScore p, seaShipScore p, seaCargoShipScore p,
     seaUnknownScore p, seaBuoyScore p, airDroneScore p, airDroneSwarmScore p, airCompoundWingScore p, airRotorcraftScore p,
     airAircraftScore p, airBirdScore p, airBirdFlockScore p, intentionAttackScore p, intentionReconnaissanceScore p,
     intentionPatrolScore p, intentionTrainingScore p, intentionTransitOperationScore p, intentionTransitReturnScore p,
     intentionCargoRouteScore p, intentionOtherScore p, typeWeight p, angleWeight p, speedWeight p, distanceWeight p,
     speedThresholdLow p, speedThresholdHigh p, maxEffectiveDistance p, highThreatThreshold p, mediumThreatThreshold p]"

definition update_params_sql :: string where
  "update_params_sql = ''UPDATE area_params SET '' @ join_sql '', '' (map (\<lambda>c. c @ '' = ?'') param_columns) @
     '', updated_at = CURRENT_TIMESTAMP WHERE group_id = ? AND area_id = ?''"

definition insert_params_sql :: string where
  "insert_params_sql = ''INSERT INTO area_params (group_id, area_id, '' @ join_sql '', '' param_columns @ '') VALUES ('' @
     join_sql '', '' (map (\<lambda>i. ''?'') [0..<34]) @ '')''"

definition saveThreatAssessmentParams :: "val_env \<Rightarrow> 'd db_env \<Rightarrow> nat \<Rightarrow> StoredParams \<Rightarrow> 'd db_manager \<Rightarrow> bool \<times> 'd db_manager" where
  "saveThreatAssessmentParams V E t p m =
     (case reading E t ''SELECT COUNT(*) FROM area_params WHERE group_id = ? AND area_id = ?'' [DvInt (tp_groupId p), DvInt (tp_areaId p)]
         (\<lambda>rows. case rows of r # rs \<Rightarrow> to_int V (by_index r 0) > 0 | [] \<Rightarrow> False) m of
        (True, m1) \<Rightarrow> executeNonQuery E t update_params_sql (map DvDouble (param_fields p) @ [DvInt (tp_groupId p), DvInt (tp_areaId p)]) m1
      | (False, m1) \<Rightarrow> executeNonQuery E t insert_params_sql ([DvInt (tp_groupId p), DvInt (tp_areaId p)] @ map DvDouble (param_fields p)) m1)"

section \<open>Detections and judgements\<close>

definition getDetectionTypesByReId :: "val_env \<Rightarrow> 'd db_env \<Rightarrow> nat \<Rightarrow> int \<Rightarrow> 'd db_manager \<Rightarrow> (DetectionTypeResult \<times> int) \<times> 'd db_manager" where
  "getDetectionTypesByReId V E t reId m =
     reading E t ''SELECT final_target_type, llm_target_type, cam_target_type, uav_target_type, final_threat_level FROM cognitive_results_comprehensive WHERE unique_id = ? ORDER BY observed_at DESC LIMIT 1''
       [DvLongLong reId]
       (\<lambda>rows. case rows of
          r # rs \<Rightarrow> (\<lparr>det_found = True, det_final = to_text V (by_name r ''final_target_type''), det_llm = to_text V (by_name r ''llm_target_type''),
             det_cam = to_text V (by_name r ''cam_target_type''), det_uav = to_text V (by_name r ''uav_target_type'')\<rparr>,
             to_int V (by_name r ''final_threat_level''))
        | [] \<Rightarrow> (\<lparr>det_found = False, det_final = [], det_llm = [], det_cam = [], det_uav = []\<rparr>, 0)) m"

text \<open>The row of the judgement with the camera's type, which the fusion does not read.\<close>

record StoredJudge = JudgeRow +
  sj_camTargetType :: qstring

definition judge_row :: "val_env \<Rightarrow> db_row \<Rightarrow> StoredJudge" where
  "judge_row V r = \<lparr>row_id = to_long V (by_index r 0), trackTargetType = to_text V (by_index r 2), llmTargetType = to_text V (by_index r 3),
     finalTargetType = to_text V (by_index r 4), finalTypeSource = to_text V (by_index r 5), sj_camTargetType = to_text V (by_index r 1)\<rparr>"

definition empty_literal :: string where
  "empty_literal = [quote, quote]"

definition judge_sql :: "nat \<Rightarrow> string" where
  "judge_sql n = ''SELECT unique_id, COALESCE(cam_target_type, '' @ empty_literal @ ''), COALESCE(NULLIF(track_target_type, '' @ empty_literal @
     ''), NULLIF(time_target_type, '' @ empty_literal @ ''), '' @ empty_literal @ ''), COALESCE(llm_target_type, '' @ empty_literal @
     ''), COALESCE(final_target_type, '' @ empty_literal @ ''), COALESCE(final_type_source::text, '' @ empty_literal @
     '') FROM cognitive_results_comprehensive WHERE unique_id IN ('' @ join_sql '','' (replicate n ''?'') @ '')''"

definition fetchCognitiveTypeJudgeRows :: "val_env \<Rightarrow> 'd db_env \<Rightarrow> nat \<Rightarrow> int list \<Rightarrow> 'd db_manager \<Rightarrow> StoredJudge list \<times> 'd db_manager" where
  "fetchCognitiveTypeJudgeRows V E t uniqueIds m =
     (if uniqueIds = [] then ([], m)
      else reading E t (judge_sql (length uniqueIds)) (map DvLongLong uniqueIds) (map (judge_row V)) m)"

definition update_final_sql :: string where
  "update_final_sql = ''UPDATE cognitive_results_comprehensive SET final_target_type = ?, final_type_source = ?::dict_source_enum, observed_at = ? WHERE unique_id = ?''"

definition updateFinalTargetTypeJudgement :: "'d db_env \<Rightarrow> nat \<Rightarrow> int \<Rightarrow> int \<Rightarrow> qstring \<Rightarrow> qstring \<Rightarrow> 'd db_manager \<Rightarrow> bool \<times> 'd db_manager" where
  "updateFinalTargetTypeJudgement E t now uniqueId final source m =
     executeNonQuery E t update_final_sql [DvText final, DvText source, DvDateTime now, DvLongLong uniqueId] m"

section \<open>Evidence pictures\<close>

record MinioMetadataResult =
  mo_minioBucket :: qstring
  mo_minioObjectKey :: qstring
  mo_downloadUrl :: qstring
  mo_cameraIndex :: qstring
  mo_fileName :: qstring
  mo_uploadedAt :: qstring
  mo_found :: bool

definition no_minio :: MinioMetadataResult where
  "no_minio = \<lparr>mo_minioBucket = [], mo_minioObjectKey = [], mo_downloadUrl = [], mo_cameraIndex = [], mo_fileName = [], mo_uploadedAt = [],
     mo_found = False\<rparr>"

definition hasMinioMultiMetadataForUniqueId :: "'d db_env \<Rightarrow> nat \<Rightarrow> int \<Rightarrow> qstring \<Rightarrow> 'd db_manager \<Rightarrow> bool \<times> 'd db_manager" where
  "hasMinioMultiMetadataForUniqueId E t uniqueId fileNameLikePattern m =
     (if uniqueId \<le> 0 then (False, m)
      else reading E t ''SELECT id FROM minio_multi_metadata WHERE \"unique_id\" = ? AND \"file_name\" LIKE ? ORDER BY uploaded_at DESC LIMIT 1''
             [DvLongLong uniqueId, DvText fileNameLikePattern] (\<lambda>rows. rows \<noteq> []) m)"

definition minio_result :: "val_env \<Rightarrow> db_row \<Rightarrow> MinioMetadataResult" where
  "minio_result V r =
     (let trim = (\<lambda>k. trimmed (ve_qt V) (to_text V (by_name r k)));
          date = (case ve_time V (by_name r ''uploaded_at'') of Some t \<Rightarrow> ve_date V t | None \<Rightarrow> [])
      in \<lparr>mo_minioBucket = trim ''minio_bucket'', mo_minioObjectKey = trim ''minio_object_key'', mo_downloadUrl = trim ''download_url'',
          mo_cameraIndex = trim ''camera_index'', mo_fileName = trim ''file_name'',
          mo_uploadedAt = (if date = [] then trim ''uploaded_at'' else date),
          mo_found = (trim ''minio_bucket'' \<noteq> [] \<and> trim ''minio_object_key'' \<noteq> [])\<rparr>)"

definition sql_latest_minio :: string where
  "sql_latest_minio = ''SELECT minio_bucket, minio_object_key, download_url, camera_index, file_name, uploaded_at FROM minio_multi_metadata WHERE \"unique_id\" = ? AND minio_bucket IS NOT NULL AND trim(minio_bucket) <> '' @ empty_literal @
     '' AND minio_object_key IS NOT NULL AND trim(minio_object_key) <> '' @ empty_literal @ '' ORDER BY uploaded_at DESC NULLS LAST LIMIT 1''"

definition getLatestMinioMetadataByUniqueId :: "val_env \<Rightarrow> 'd db_env \<Rightarrow> nat \<Rightarrow> int \<Rightarrow> 'd db_manager \<Rightarrow> MinioMetadataResult \<times> 'd db_manager" where
  "getLatestMinioMetadataByUniqueId V E t uniqueId m =
     (if uniqueId \<le> 0 then (no_minio, m)
      else reading E t sql_latest_minio [DvLongLong uniqueId] (\<lambda>rows. case rows of r # rs \<Rightarrow> minio_result V r | [] \<Rightarrow> no_minio) m)"

section \<open>Loading everything\<close>

text \<open>
  The tables the constructor of \<open>CustomConfig\<close> reads after the initialisation of the database, in its order; they are read whether or not
  that succeeded.
\<close>

type_synonym loaded_tables = "((string, string list) qmap, (string, AreaHandleRuleBinding list) qmap) db_tables"

definition load_db_tables :: "val_env \<Rightarrow> 'd db_env \<Rightarrow> nat \<Rightarrow> 'd db_manager
    \<Rightarrow> (TargetInfo list \<times> loaded_tables \<times> (int, StoredFilter) qmap) \<times> 'd db_manager" where
  "load_db_tables V E t m =
     (let (targets, m1) = getAllTargetInfo V E t m;
          (rules, m2) = getAlarmRule V E t m1;
          (subs, m3) = getAlarmIdentificationRulesSub V E t m2;
          (idents, m4) = getIdentificationRuleIdsByArea V E t m3;
          (verifs, m5) = getVerificationRuleIdsByArea V E t m4;
          (handles, m6) = getAreaHandleRulesByArea V E t m5;
          (areas, m7) = getAreaInfo V E t m6;
          (filters, m8) = getTargetInfoFilter V E t m7;
          (threats, m9) = getThreatParamsList V E t m8;
          (protects, m10) = getActiveSchemeProtectAreas V E t m9
      in ((targets,
           \<lparr>dt_rules = map (\<lambda>(k, r). (k, AlarmRule.truncate r)) rules, dt_areas = map AreaInfo.truncate areas, dt_protect = protects,
            dt_threat = map ThreatAssessmentParams.truncate threats, dt_identSubs = map (\<lambda>(k, l). (k, map RuleSub.truncate l)) subs,
            dt_identAreas = idents, dt_verification = verifs, dt_handle = handles\<rparr>,
           filters), m10))"

section \<open>What loading gives\<close>

lemma fst_reading [simp]: "fst (reading E t sql ps f m) = f (fst (executeQuery E t sql ps m))"
  "snd (reading E t sql ps f m) = snd (executeQuery E t sql ps m)"
  by (simp_all add: reading_def split: prod.splits)

lemma keyed_lookup: "map_of (keyed key xs) k = (case filter (\<lambda>x. key x = k) xs of [] \<Rightarrow> None | y # ys \<Rightarrow> Some (last (y # ys)))"
proof -
  have "map_of (fold (\<lambda>x m. qm_insert (key x) x m) xs m) k =
      (case filter (\<lambda>x. key x = k) xs of [] \<Rightarrow> map_of m k | y # ys \<Rightarrow> Some (last (y # ys)))" for m
    by (induction xs arbitrary: m) (auto split: list.splits)
  from this[of "[]"] show ?thesis by (simp add: keyed_def split: list.splits)
qed

lemma grouped_lookup: "qm_value (grouped key xs) k [] = filter (\<lambda>x. key x = k) xs"
proof -
  have "qm_value (fold (\<lambda>x m. qm_insert (key x) (qm_value m (key x) [] @ [x]) m) xs m) k [] = qm_value m k [] @ filter (\<lambda>x. key x = k) xs" for m
    by (induction xs arbitrary: m) (auto simp: qm_value_def)
  from this[of "[]"] show ?thesis by (simp add: grouped_def qm_value_def)
qed

lemma rules_of_rows:
  "map_of (fst (getAlarmRule V E t m)) k =
     (case filter (\<lambda>r. to_id V (by_name r ''condition_id'') = k) (fst (executeQuery E t ''SELECT * FROM alarm_setting'' [] m)) of
        [] \<Rightarrow> None | y # ys \<Rightarrow> Some (stored_rule V (last (y # ys)))) \<and>
   qm_ok (fst (getAlarmRule V E t m))"
proof -
  have f: "filter (\<lambda>x. rule_condition_id x = k) (map (stored_rule V) rows) =
      map (stored_rule V) (filter (\<lambda>r. to_id V (by_name r ''condition_id'') = k) rows)" for rows
    by (simp add: filter_map o_def stored_rule_def Let_def)
  have "qm_ok (fold (\<lambda>x m. qm_insert (key x) x m) xs m)" if "qm_ok m" for key xs and m :: "(string, StoredRule) qmap"
    using that by (induction xs arbitrary: m) (simp_all add: qm_ok_insert)
  moreover have "qm_ok ([] :: (string, StoredRule) qmap)" by (simp add: qm_ok_def)
  ultimately have "qm_ok (keyed key xs)" for key :: "StoredRule \<Rightarrow> string" and xs by (simp add: keyed_def)
  then show ?thesis by (auto simp: getAlarmRule_def keyed_lookup f last_map split: list.splits)
qed

text \<open>
  The rules in memory are those of the table: under a condition id there is the rule of the last row with that id, or none when there
  is no such row, with every field the conversion of its column, and the map is in key order.
\<close>
theorem alarm_rules_loaded:
  "map_of (fst (getAlarmRule V E t m)) k =
     (case filter (\<lambda>r. to_id V (by_name r ''condition_id'') = k) (fst (executeQuery E t ''SELECT * FROM alarm_setting'' [] m)) of
        [] \<Rightarrow> None | y # ys \<Rightarrow> Some (stored_rule V (last (y # ys)))) \<and>
   qm_ok (fst (getAlarmRule V E t m))"
  by (rule rules_of_rows)

lemma loaded_rules:
  "dt_rules (fst (snd (fst (load_db_tables V E t m)))) =
     map (\<lambda>(k, r). (k, AlarmRule.truncate r)) (fst (getAlarmRule V E t (snd (getAllTargetInfo V E t m))))"
  by (simp add: load_db_tables_def Let_def case_prod_beta)

text \<open>
  The column for the language model's detection types is never read: every rule loaded from the database has 0 there, so its
  verdict on a detection does not depend on the language model's result, and a rule that asks only for that result asks for no detection at all.
\<close>
theorem llm_mask_never_loaded:
  assumes "load_db_tables V E t m = ((targets, D, filters), m')" "map_of (dt_rules D) k = Some info"
  shows "detection_ok T type info (d\<lparr>det_llm := x\<rparr>) = detection_ok T type info d \<and>
    (needs_detection info \<longleftrightarrow> rule_camera_detect_type info > 0 \<or> rule_uav_detect_type info > 0 \<or> rule_threat_level1 info > 0 \<or> rule_threat_level2 info > 0)"
proof -
  define m1 where "m1 = snd (getAllTargetInfo V E t m)"
  have "dt_rules D = map (\<lambda>(k, r). (k, AlarmRule.truncate r)) (fst (getAlarmRule V E t m1))"
    using loaded_rules[of V E t m] assms(1) by (simp add: m1_def)
  then obtain r where r: "map_of (fst (getAlarmRule V E t m1)) k = Some r" "info = AlarmRule.truncate r"
    using assms(2) by (auto simp: map_of_map)
  then obtain y where "r = stored_rule V y" using rules_of_rows[of V E t m1 k] by (auto split: list.splits)
  then have "rule_llm_detect_type info = 0" using r(2) by (simp add: stored_rule_def AlarmRule.truncate_def Let_def)
  then show ?thesis by (simp add: detection_ok_def needs_detection_def mask_ok_def)
qed

lemma collect_ids_value:
  "distinct (qm_value (collect_ids V rows) k []) \<and>
   set (qm_value (collect_ids V rows) k []) = {to_id V (by_name r ''rule_id'') |r. r \<in> set rows \<and> row_area_key V r = k} \<and>
   (map_of (collect_ids V rows) k \<noteq> None \<longleftrightarrow> (\<exists>r \<in> set rows. row_area_key V r = k))"
proof -
  let ?f = "\<lambda>r m. let rid = to_id V (by_name r ''rule_id''); k = row_area_key V r; lst = qm_value m k []
       in qm_insert k (if rid \<in> set lst then lst else lst @ [rid]) m"
  have "distinct (qm_value m k []) \<Longrightarrow> distinct (qm_value (fold ?f rows m) k []) \<and>
     set (qm_value (fold ?f rows m) k []) = set (qm_value m k []) \<union> {to_id V (by_name r ''rule_id'') |r. r \<in> set rows \<and> row_area_key V r = k} \<and>
     (map_of (fold ?f rows m) k \<noteq> None \<longleftrightarrow> map_of m k \<noteq> None \<or> (\<exists>r \<in> set rows. row_area_key V r = k))" for m
  proof (induction rows arbitrary: m)
    case (Cons r rows)
    have d: "distinct (qm_value (?f r m) k [])" using Cons.prems by (auto simp: Let_def qm_value_def split: if_splits)
    have s: "set (qm_value (?f r m) k []) = set (qm_value m k []) \<union> (if row_area_key V r = k then {to_id V (by_name r ''rule_id'')} else {})"
      by (auto simp: Let_def qm_value_def split: if_splits)
    have e: "map_of (?f r m) k \<noteq> None \<longleftrightarrow> map_of m k \<noteq> None \<or> row_area_key V r = k" by (simp add: Let_def)
    show ?case using Cons.IH[OF d] unfolding fold_Cons o_apply s e by (auto split: if_splits)
  qed simp
  from this[of "[]"] show ?thesis by (simp add: collect_ids_def qm_value_def)
qed

text \<open>
  The rules bound to an area are exactly the ones the database has for it in the active scheme: the list of an area has each of them
  once, and an area without a binding has no entry.
\<close>
theorem area_bindings_loaded:
  assumes "getActiveSchemeId V E t m = (sid, m1)"
    "rows = fst (executeQuery E t ''SELECT group_id, area_id, rule_id FROM area_identification_rules WHERE scheme_id = ? AND COALESCE(enabled, true) = true ORDER BY group_id, area_id, rule_id'' [DvText sid] m1)"
    "R = fst (getIdentificationRuleIdsByArea V E t m)"
  shows "distinct (qm_value R k []) \<and> set (qm_value R k []) = {to_id V (by_name r ''rule_id'') |r. r \<in> set rows \<and> row_area_key V r = k} \<and>
    (map_of R k = None \<longleftrightarrow> (\<forall>r \<in> set rows. row_area_key V r \<noteq> k))"
proof -
  have "R = collect_ids V rows" using assms by (simp add: getIdentificationRuleIdsByArea_def for_scheme_def)
  then show ?thesis using collect_ids_value[of V rows k] by auto
qed

text \<open>
  Qt reads the server's three answers for a boolean column, empty for NULL, \<open>t\<close> and \<open>f\<close>, as these texts.
\<close>

definition latin_booleans :: "val_env \<Rightarrow> qt_db \<Rightarrow> bool" where
  "latin_booleans V Q \<longleftrightarrow> (\<forall>s \<in> {[], ''t'', ''f''}. qd_fromStd Q s = qs s \<and> toLower (ve_qt V) (qs s) = qs s)"

text \<open>
  C25. In the default mode a sub-rule is enabled exactly when its \<open>enabled\<close> column is not NULL: PostgreSQL's \<open>f\<close> is a text that is
  neither empty nor \<open>false\<close>, so a disabled sub-rule is loaded as enabled, and NULL, which the code means as enabled, arrives as the empty
  string and disables. For every rule the list has the sub-rules of its rows in their order.
\<close>
theorem disabled_sub_rules_enabled:
  assumes "useLibpq m1" "\<not> slot_active t (dm_pgqt m1)" "getActiveSchemeId V E t m = (sid, m1)"
    "answered E sql_rule_subs [DvText sid] m1 cols cells" "distinct cols" "j < length cols" "cols ! j = ''enabled''"
    "\<forall>r \<in> set cells. r ! j \<in> {None, Some ''t'', Some ''f''}" "latin_booleans V (en_qt E)"
    "executeQuery E t sql_rule_subs [DvText sid] m1 = (rows, m2)" "rows \<noteq> []" "i < length cells"
  shows "sub_enabled (stored_sub V (rows ! i)) = (cells ! i ! j \<noteq> None) \<and>
    qm_value (fst (getAlarmIdentificationRulesSub V E t m)) rid [] = filter (\<lambda>s. ss_rule_id s = rid) (map (stored_sub V) rows)"
proof -
  note vals = libpq_cells[OF assms(1,2,4,10,11,12,6)]
  have "by_name (rows ! i) ''enabled'' = VText (qd_fromStd (en_qt E) (case cells ! i ! j of Some x \<Rightarrow> x | None \<Rightarrow> []))"
    using vals assms(5,7) by auto
  moreover have "cells ! i ! j \<in> {None, Some ''t'', Some ''f''}" using assms(8,12) by simp
  ultimately have "sub_enabled (stored_sub V (rows ! i)) = (cells ! i ! j \<noteq> None)"
    using assms(9) by (auto simp: stored_sub_def Let_def enabled_value_def to_bool_def latin_booleans_def)
  moreover have "fst (getAlarmIdentificationRulesSub V E t m) = grouped ss_rule_id (map (stored_sub V) rows)"
    using assms(3,10) by (simp add: getAlarmIdentificationRulesSub_def for_scheme_def)
  ultimately show ?thesis using grouped_lookup[of ss_rule_id "map (stored_sub V) rows" rid] by simp
qed

section \<open>A reload that fails\<close>

text \<open>The ways a query ends without rows although nobody said the table is empty.\<close>

definition query_fails :: "'d db_env \<Rightarrow> nat \<Rightarrow> string \<Rightarrow> db_variant list \<Rightarrow> 'd db_manager \<Rightarrow> bool" where
  "query_fails E t sql ps m \<longleftrightarrow>
     (let g = pq_pg (dm_pgqt m) in
      \<not> dm_libpqReady m \<or> \<not> pq_initialized (dm_pgqt m) \<or> pg_stopping g \<or> fst (getConnection (en_pg E) g) = None \<or>
      (case getConnection (en_pg E) g of
         (Some c, g1) \<Rightarrow> fst (pe_exec (en_pg E) c (convertQtPlaceholders sql)
            (sent (prepareParams (pe_double (en_pg E)) (map (toPgParam (en_qt E)) ps))) (pg_db g1)) \<in> {Failed, NoAnswer}
       | (None, g1) \<Rightarrow> True) \<or> \<not> sq_open (en_sqlite E))"

lemma query_fails_no_rows:
  assumes "useLibpq m" "\<not> slot_active t (dm_pgqt m)" "query_fails E t sql ps m"
  shows "fst (executeQuery E t sql ps m) = []"
proof -
  let ?g = "pq_pg (dm_pgqt m)"
  consider (early) "\<not> dm_libpqReady m \<or> \<not> pq_initialized (dm_pgqt m) \<or> \<not> sq_open (en_sqlite E)"
    | (none) "pg_stopping ?g \<or> fst (getConnection (en_pg E) ?g) = None"
    | (failed) c g1 where "getConnection (en_pg E) ?g = (Some c, g1)" "fst (pe_exec (en_pg E) c (convertQtPlaceholders sql)
        (sent (prepareParams (pe_double (en_pg E)) (map (toPgParam (en_qt E)) ps))) (pg_db g1)) \<in> {Failed, NoAnswer}"
    using assms(3) by (auto simp: query_fails_def Let_def split: prod.splits option.splits)
  then show ?thesis
  proof cases
    case early
    then show ?thesis using assms(1)
      by (auto simp: executeQuery_def pgqt_executeQuery_def materializeRowsToSqlQuery_def table_rows_def split: prod.splits list.splits)
  next
    case none
    then have "fst (pg_executeQuery (en_pg E) (convertQtPlaceholders sql) (map (toPgParam (en_qt E)) ps) ?g) = []"
      by (auto simp: pg_executeQuery_def split: prod.splits)
    then show ?thesis using assms(1,2)
      by (auto simp: executeQuery_def pgqt_executeQuery_def Let_def materializeRowsToSqlQuery_def table_rows_def split: prod.splits)
  next
    case failed
    then have "fst (pg_executeQuery (en_pg E) (convertQtPlaceholders sql) (map (toPgParam (en_qt E)) ps) ?g) = []"
      by (auto simp: pg_executeQuery_def executeInternal_def split: prod.splits)
    then show ?thesis using assms(1,2)
      by (auto simp: executeQuery_def pgqt_executeQuery_def Let_def materializeRowsToSqlQuery_def table_rows_def split: prod.splits)
  qed
qed

text \<open>
  A failed query empties what was loaded: when the rules are reloaded while the query fails, because no connection is free, the server refuses or the buffer
  cannot be opened, the reload replaces the rules in memory by no rules and reports nothing.
\<close>
theorem failed_reload_clears_rules:
  assumes "useLibpq m" "\<not> slot_active t (dm_pgqt m)" "query_fails E t ''SELECT * FROM alarm_setting'' [] m"
    "trimmed T scope \<in> {[], qs ''all'', qs ''alarm_rules''}"
    "dt_rules fresh = map (\<lambda>(k, r). (k, AlarmRule.truncate r)) (fst (getAlarmRule V E t m))"
  shows "dt_rules (reloadAlarmConfigFromDb T True fresh scope c) = []"
  using assms(4,5) query_fails_no_rows[OF assms(1-3)]
  by (auto simp: reloadAlarmConfigFromDb_def Let_def getAlarmRule_def keyed_def)

section \<open>Parameters and judgements round trip\<close>

text \<open>
  Threat parameters are saved under the columns they are read from: both statements have as many placeholders as parameters, and a row that holds the
  saved numbers under the columns of the statement reads back to the same parameters.
\<close>
theorem threat_params_columns_agree:
  assumes "\<forall>i < length param_columns. to_real V (by_name r (param_columns ! i)) = param_fields p ! i"
  shows "param_fields (stored_params V r) = param_fields p \<and> length (param_fields p) = length param_columns \<and>
    length (filter (\<lambda>c. c = CHR ''?'') update_params_sql) = length (param_fields p) + 2 \<and>
    length (filter (\<lambda>c. c = CHR ''?'') insert_params_sql) = length (param_fields p) + 2"
proof -
  have len: "length (param_fields q) = length param_columns" for q by (simp add: param_fields_def param_columns_def)
  have "map (\<lambda>c. to_real V (by_name r c)) param_columns = param_fields p" using assms len by (intro nth_equalityI) auto
  moreover have "param_fields (stored_params V r) = map (\<lambda>c. to_real V (by_name r c)) param_columns"
    by (simp add: param_fields_def param_columns_def stored_params_def Let_def)
  moreover have "length (filter (\<lambda>c. c = CHR ''?'') update_params_sql) = 34" by code_simp
  moreover have "length (filter (\<lambda>c. c = CHR ''?'') insert_params_sql) = 34" by code_simp
  ultimately show ?thesis using len[of p] by (simp add: param_columns_def)
qed

text \<open>What SQL documents of the two statements: after the update the row of the id has the two texts.\<close>

definition final_type_law :: "'d pg_env \<Rightarrow> bool" where
  "final_type_law X \<longleftrightarrow> (\<forall>c d f so ob u a d'. pe_exec X c (convertQtPlaceholders update_final_sql) [WText f, WText so, WText ob, WText u] d = (a, d') \<and>
       a \<noteq> Failed \<and> a \<noteq> NoAnswer \<longrightarrow>
     (\<forall>c' n ws cols cells. fst (pe_exec X c' (convertQtPlaceholders (judge_sql n)) ws d') = Tuples cols cells \<longrightarrow>
        (\<forall>r \<in> set cells. r ! 0 = Some u \<longrightarrow> r ! 4 = Some f \<and> r ! 5 = Some so)))"

lemma executeNonQuery_exec:
  assumes "useLibpq m" "\<not> slot_active t (dm_pgqt m)" "executeNonQuery E t sql ps m = (True, m1)"
  shows "\<exists>c d a. pe_exec (en_pg E) c (convertQtPlaceholders sql) (map (param_wire (pe_double (en_pg E)) \<circ> toPgParam (en_qt E)) ps) d =
      (a, pg_db (pq_pg (dm_pgqt m1))) \<and> a \<noteq> Failed \<and> a \<noteq> NoAnswer"
proof -
  have "sent (prepareParams D qs) = map (param_wire D) qs" for D qs using prepared_params by blast
  then show ?thesis using assms
    by (auto simp: executeNonQuery_def pgqt_executeNonQuery_def pg_executeNonQuery_def executeInternal_def Let_def
        split: prod.splits option.splits if_splits) blast+
qed

lemma dec_int_nonempty: "[] \<noteq> dec_int i"
proof -
  have "[] \<noteq> dec n" for n by (subst dec.simps) simp
  then show ?thesis by (simp add: dec_int_def)
qed

lemma executeNonQuery_keeps:
  assumes "executeNonQuery E t sql ps m = (ok, m1)"
  shows "useLibpq m1 = useLibpq m" "pq_slot (dm_pgqt m1) = pq_slot (dm_pgqt m)"
  using assms
  by (auto simp: executeNonQuery_def useLibpq_def pgqt_executeNonQuery_def on_data_def Let_def split: prod.splits if_splits)

lemma pg_executeQuery_tuples:
  assumes "fst (pg_executeQuery X sql ps g) = rs" "rs \<noteq> []"
  shows "\<exists>c cols cells. fst (pe_exec X c sql (sent (prepareParams (pe_double X) ps)) (pg_db g)) = Tuples cols cells \<and> rs = map (convert_row cols) cells"
proof -
  obtain c g1 where g: "getConnection X g = (Some c, g1)" "\<not> pg_stopping g"
    using assms by (auto simp: pg_executeQuery_def split: prod.splits option.splits if_splits)
  have d: "pg_db g1 = pg_db g" using getConnection_results(2)[of X g] g by simp
  obtain a g2 where a: "executeInternal X c sql ps g1 = (a, g2)" by (cases "executeInternal X c sql ps g1")
  then obtain b where b: "a = Some b" "rs = (case b of Tuples cols rows \<Rightarrow> map (convert_row cols) rows | _ \<Rightarrow> [])"
    using assms g by (cases a) (auto simp: pg_executeQuery_def convertResult_def)
  then have "fst (pe_exec X c sql (sent (prepareParams (pe_double X) ps)) (pg_db g)) = b"
    using a d by (auto simp: executeInternal_def split: prod.splits if_splits)
  then show ?thesis using b assms(2) by (cases b) auto
qed

text \<open>
  C21. A judgement is written once: after the fused type and its source were stored for a target, the row read back for it, through
  parameters, server, cells and the copy, has exactly these texts, so the fusion finds nothing to update. The texts are ones that survive
  the way to a C string and back, so without a NUL.
\<close>
theorem judgement_roundtrip:
  assumes "text_laws T" "useLibpq m" "\<not> slot_active t (dm_pgqt m)" "final_type_law (en_pg E)"
    "updateFinalTargetTypeJudgement E t now uid final source m = (True, m1)"
    "answered E (judge_sql (length ids)) (map DvLongLong ids) m1 cols cells" "length cols = 6"
    "executeQuery E t (judge_sql (length ids)) (map DvLongLong ids) m1 = (rows, m2)" "rows \<noteq> []" "ids \<noteq> []"
    "i < length cells" "cells ! i ! 0 = Some (dec_int uid)"
    "qd_fromStd (en_qt E) (c_string (qd_toStd (en_qt E) final)) = final" "qd_fromStd (en_qt E) (c_string (qd_toStd (en_qt E) source)) = source"
    "finalType fused = final" "finalSource fused = source" "trimmed T source \<noteq> []"
  shows "fst (fetchCognitiveTypeJudgeRows V E t ids m1) ! i = judge_row V (rows ! i) \<and>
    \<not> needsDbUpdate T (JudgeRow.truncate (judge_row V (rows ! i))) fused"
proof -
  let ?Q = "en_qt E" and ?X = "en_pg E" and ?g = "pq_pg (dm_pgqt m1)"
  note up = assms(5)[unfolded updateFinalTargetTypeJudgement_def]
  have lib: "useLibpq m1" "\<not> slot_active t (dm_pgqt m1)" using executeNonQuery_keeps[OF up] assms(2,3) by (simp_all add: slot_active_def)
  obtain c d a where x: "pe_exec ?X c (convertQtPlaceholders update_final_sql)
      [WText (c_string (qd_toStd ?Q final)), WText (c_string (qd_toStd ?Q source)), WText (c_string (qd_utc ?Q now)), WText (dec_int uid)] d = (a, pg_db ?g)"
    "a \<noteq> Failed" "a \<noteq> NoAnswer"
    using executeNonQuery_exec[OF assms(2,3) up] by (auto simp: toPgParam_def)
  let ?sql = "convertQtPlaceholders (judge_sql (length ids))" and ?ps = "map (toPgParam ?Q) (map DvLongLong ids)"
  have ans: "fst (pg_executeQuery ?X ?sql ?ps ?g) = map (convert_row cols) cells" and len: "\<forall>r \<in> set cells. length r = 6"
    using assms(6,7) by (simp_all add: answered_def)
  have "map (convert_row cols) cells \<noteq> []" using assms(11) by auto
  then obtain c' cols' cells' where y: "fst (pe_exec ?X c' ?sql (sent (prepareParams (pe_double ?X) ?ps)) (pg_db ?g)) = Tuples cols' cells'"
    "map (convert_row cols) cells = map (convert_row cols') cells'" using pg_executeQuery_tuples[OF ans] by blast
  have "length cells' = length cells" using y(2) by (metis length_map)
  then have i: "i < length cells'" "convert_row cols (cells ! i) = convert_row cols' (cells' ! i)" using assms(11) y(2)
    by (metis, metis nth_map)
  then have texts: "map cell_text (cells ! i) = map cell_text (cells' ! i)" by (simp add: convert_row_def Let_def)
  have six: "length (cells ! i) = 6" "length (cells' ! i) = 6" using len assms(11) map_eq_imp_length_eq[OF texts] by auto
  have same: "cell_text (cells' ! i ! k) = cell_text (cells ! i ! k)" if "k < 6" for k
    using arg_cong[OF texts, of "\<lambda>l. l ! k"] six that by simp
  have "cell_text (cells' ! i ! 0) = dec_int uid" using same[of 0] assms(12) by (simp add: cell_text_def)
  then have "cells' ! i ! 0 = Some (dec_int uid)" using dec_int_nonempty[of uid] by (auto simp: cell_text_def split: option.splits)
  then have "cells' ! i ! 4 = Some (c_string (qd_toStd ?Q final)) \<and> cells' ! i ! 5 = Some (c_string (qd_toStd ?Q source))"
    using assms(4) x y(1) nth_mem[OF i(1)] unfolding final_type_law_def by blast
  then have "cell_text (cells ! i ! 4) = c_string (qd_toStd ?Q final)" "cell_text (cells ! i ! 5) = c_string (qd_toStd ?Q source)"
    using same[of 4] same[of 5] by (simp_all add: cell_text_def)
  then have "by_index (rows ! i) 4 = VText final" "by_index (rows ! i) 5 = VText source"
    using list_all2_nthD[OF executeQuery_rows[OF lib assms(6,8,9)] assms(11)] assms(7,13,14) by simp_all
  then have "finalTargetType (judge_row V (rows ! i)) = final" "finalTypeSource (judge_row V (rows ! i)) = source"
    by (simp_all add: judge_row_def to_text_def)
  moreover have "i < length rows" using list_all2_lengthD[OF executeQuery_rows[OF lib assms(6,8,9)]] assms(11) by simp
  ultimately show ?thesis using text_lawsD(6)[OF assms(1)] assms(8,10,15-17)
    by (simp add: needsDbUpdate_def Let_def JudgeRow.truncate_def fetchCognitiveTypeJudgeRows_def)
qed

section \<open>Instances\<close>

definition sample_val :: val_env where
  "sample_val = \<lparr>ve_qt = ascii_text, ve_textInt = (\<lambda>s. case ascii_toLongLong s of Some v \<Rightarrow> v | None \<Rightarrow> 0),
     ve_textLong = (\<lambda>s. case ascii_toLongLong s of Some v \<Rightarrow> v | None \<Rightarrow> 0), ve_textReal = (\<lambda>s. 0), ve_realInt = (\<lambda>r. \<lfloor>r\<rfloor>),
     ve_show = (\<lambda>v. []), ve_time = (\<lambda>v. None), ve_date = (\<lambda>t. []), ve_id = map char_of\<rparr>"

text \<open>Qt's driver answering every query with the same rows.\<close>

definition driver_env :: "db_row list \<Rightarrow> unit db_env" where
  "driver_env rows = (sample_db_env [] [])\<lparr>en_driver := \<lparr>dq_open = True, dq_query = (\<lambda>q ps d. (rows, d)), dq_nonQuery = (\<lambda>q ps d. (True, d)),
     dq_begin = (\<lambda>d. (True, d)), dq_end = (\<lambda>q d. (True, d))\<rparr>\<rparr>"

definition driver_manager :: "unit db_manager" where
  "driver_manager = sample_manager\<lparr>dm_accessMode := 0\<rparr>"

lemma driver_query [simp]: "executeQuery (driver_env rows) t sql ps driver_manager = (rows, driver_manager)"
  by (simp add: executeQuery_def useLibpq_def driver_manager_def driver_env_def on_data_def)

definition row_of :: "(string \<times> db_value) list \<Rightarrow> db_row" where
  "row_of cells = \<lparr>by_name = (\<lambda>k. case map_of cells k of Some v \<Rightarrow> v | None \<Rightarrow> VNull), by_index = (\<lambda>i. if i < length cells then snd (cells ! i) else VNull)\<rparr>"

lemma char_of_qs [simp]: "map char_of (qs s) = s"
  by (simp add: qs_def o_def)

lemma distinct_set_single: "distinct xs \<and> set xs = {a} \<Longrightarrow> xs = [a]"
  by (cases xs rule: remdups_adj.cases) auto

theorem llm_mask_never_loaded_witness:
  "\<not> needs_detection (the (map_of (dt_rules (fst (snd (fst (load_db_tables sample_val
     (driver_env [row_of [(''condition_id'', VText (qs ''c1'')), (''llm_detect_type'', VInt 4)]]) 0 driver_manager))))) ''c1''))"
proof -
  let ?rows = "[row_of [(''condition_id'', VText (qs ''c1'')), (''llm_detect_type'', VInt 4)]]"
  let ?L = "load_db_tables sample_val (driver_env ?rows) 0 driver_manager"
  obtain targets D filters m' where L: "?L = ((targets, D, filters), m')" by (metis prod.collapse)
  have D: "D = fst (snd (fst ?L))" using L by simp
  have "map_of (fst (getAlarmRule sample_val (driver_env ?rows) 0 driver_manager)) ''c1'' = Some (stored_rule sample_val (hd ?rows))"
    using rules_of_rows[of sample_val "driver_env ?rows" 0 driver_manager "''c1''"]
    by (simp add: to_id_def to_text_def row_of_def sample_val_def)
  then have r: "map_of (dt_rules D) ''c1'' = Some (AlarmRule.truncate (stored_rule sample_val (hd ?rows)))"
    using loaded_rules[of sample_val "driver_env ?rows" 0 driver_manager] D by (simp add: getAllTargetInfo_def map_of_map)
  from llm_mask_never_loaded[OF L r] have "needs_detection (AlarmRule.truncate (stored_rule sample_val (hd ?rows))) \<longleftrightarrow> False"
    by (simp add: stored_rule_def AlarmRule.truncate_def Let_def row_of_def to_int_def)
  then show ?thesis using r D by simp
qed

theorem area_bindings_loaded_witness:
  "qm_value (fst (getIdentificationRuleIdsByArea sample_val (driver_env [row_of [(''group_id'', VInt 1), (''area_id'', VInt 2), (''rule_id'', VText (qs ''r''))],
      row_of [(''group_id'', VInt 1), (''area_id'', VInt 2), (''rule_id'', VText (qs ''r''))]]) 0 driver_manager)) ''1_2'' [] = [''r'']"
proof -
  let ?r = "row_of [(''group_id'', VInt 1), (''area_id'', VInt 2), (''rule_id'', VText (qs ''r''))]"
  obtain sid where s: "getActiveSchemeId sample_val (driver_env [?r, ?r]) 0 driver_manager = (sid, driver_manager)"
    by (simp add: getActiveSchemeId_def reading_def)
  let ?R = "qm_value (fst (getIdentificationRuleIdsByArea sample_val (driver_env [?r, ?r]) 0 driver_manager)) ''1_2'' []"
  have "to_int sample_val (by_name ?r ''group_id'') = 1" "to_int sample_val (by_name ?r ''area_id'') = 2"
    and rid: "to_id sample_val (by_name ?r ''rule_id'') = ''r''"
    by (simp_all add: row_of_def to_int_def to_id_def to_text_def sample_val_def)
  moreover have "dec_int 1 = ''1''" "dec_int 2 = ''2''" by code_simp+
  ultimately have key: "row_area_key sample_val ?r = ''1_2''" by (simp add: row_area_key_def)
  have "distinct ?R \<and> set ?R = {to_id sample_val (by_name r ''rule_id'') |r. r \<in> set [?r, ?r] \<and> row_area_key sample_val r = ''1_2''}"
    using area_bindings_loaded[OF s refl refl, of "''1_2''"] by (simp only: driver_query fst_conv)
  moreover have "{to_id sample_val (by_name r ''rule_id'') |r. r \<in> set [?r, ?r] \<and> row_area_key sample_val r = ''1_2''} = {''r''}"
    using key rid by auto
  ultimately show ?thesis by (simp only: distinct_set_single)
qed

definition libpq_like :: "unit db_manager \<Rightarrow> bool" where
  "libpq_like m \<longleftrightarrow> dm_accessMode m = 1 \<and> dm_libpqReady m \<and> dm_pgqt m = dm_pgqt sample_manager"

lemma libpq_like_query:
  assumes "libpq_like m" "cells \<noteq> []" "executeQuery (sample_db_env cols cells) t sql ps m = (rows, m')"
  shows "libpq_like m'" "rows \<noteq> []"
proof -
  have pg: "pg_executeQuery (en_pg (sample_db_env cols cells)) q p (pq_pg (dm_pgqt sample_manager)) =
      (map (convert_row cols) cells, pq_pg (dm_pgqt sample_manager))" for q p
    by (simp add: pg_executeQuery_def sample_db_env_def sample_manager_def getConnection_def get_now_def sample_pool_def sample_server_def
        usable_def executeInternal_def convertResult_def release_def releaseConnection_def)
  have slot: "\<not> slot_active t (dm_pgqt m)" "pq_initialized (dm_pgqt m)" using assms(1)
    by (simp_all add: libpq_like_def sample_manager_def slot_active_def no_transaction_def)
  have q: "pgqt_executeQuery (en_qt (sample_db_env cols cells)) (en_pg (sample_db_env cols cells)) t sql ps (dm_pgqt m) =
      (map (toQtRow (en_qt (sample_db_env cols cells))) (map (convert_row cols) cells), dm_pgqt m)"
    using assms(1) slot pg by (simp add: pgqt_executeQuery_def Let_def libpq_like_def)
  show "libpq_like m'" using assms(1,3) q by (auto simp: executeQuery_def useLibpq_def libpq_like_def split: prod.splits)
  obtain r rs where "cells = r # rs" using assms(2) by (cases cells) auto
  then show "rows \<noteq> []" using assms(1,3) q
    by (auto simp: executeQuery_def useLibpq_def libpq_like_def materializeRowsToSqlQuery_def Let_def table_rows_def list_all_iff
        sample_db_env_def split: prod.splits)
qed

lemma libpq_like_facts:
  assumes "libpq_like m"
  shows "useLibpq m" "\<not> slot_active t (dm_pgqt m)"
    "plain_columns cols \<Longrightarrow> cols \<noteq> [] \<Longrightarrow> (\<forall>r \<in> set cells. length r = length cols) \<Longrightarrow> answered (sample_db_env cols cells) sql ps m cols cells"
  using assms sample_slot(1) sample_slot(2)[of t] sample_answered[of cols cells sql ps] by (simp_all add: libpq_like_def useLibpq_def answered_def)

theorem disabled_sub_rules_enabled_witness:
  "map sub_enabled (qm_value (fst (getAlarmIdentificationRulesSub sample_val
     (sample_db_env [''scheme_id'', ''rule_id'', ''enabled''] [[Some ''s'', Some ''r'', Some ''f''], [Some ''s'', Some ''r'', None]])
     0 sample_manager)) ''r'' []) = [True, False]"
proof -
  let ?cols = "[''scheme_id'', ''rule_id'', ''enabled'']" and ?cells = "[[Some ''s'', Some ''r'', Some ''f''], [Some ''s'', Some ''r'', None]]"
  let ?E = "sample_db_env ?cols ?cells"
  have m: "libpq_like sample_manager" by (simp add: libpq_like_def sample_manager_def)
  obtain sid m1 where s: "getActiveSchemeId sample_val ?E 0 sample_manager = (sid, m1)" by (metis prod.collapse)
  then have "m1 = snd (executeQuery ?E 0 ''SELECT scheme_id FROM alarm_master_schemes WHERE enabled = true LIMIT 1'' [] sample_manager)"
    by (simp add: getActiveSchemeId_def reading_def split: prod.splits)
  then have m1: "libpq_like m1" using libpq_like_query(1)[OF m, of ?cells ?cols] by (metis list.distinct(1) prod.collapse)
  obtain rows m2 where r: "executeQuery ?E 0 sql_rule_subs [DvText sid] m1 = (rows, m2)" by (metis prod.collapse)
  have ne: "rows \<noteq> []" by (rule libpq_like_query(2)[OF m1 _ r]) simp
  have a: "answered ?E sql_rule_subs [DvText sid] m1 ?cols ?cells" by (rule libpq_like_facts(3)[OF m1]) (simp_all add: plain_columns_def)
  have lat: "latin_booleans sample_val (en_qt ?E)"
    by (simp add: latin_booleans_def sample_val_def sample_db_env_def ascii_text_def qs_def ascii_lower_def)
  note T = disabled_sub_rules_enabled[OF libpq_like_facts(1,2)[OF m1] s a _ _ _ _ lat r ne, of 2 _ "''r''"]
  have "length rows = 2" using list_all2_lengthD[OF executeQuery_rows[OF libpq_like_facts(1,2)[OF m1] a r ne]] by simp
  then obtain x y where xy: "rows = [x, y]" by (metis length_0_conv length_Suc_conv numeral_2_eq_2)
  have "ss_rule_id (stored_sub sample_val z) = ''r''" if "z \<in> {x, y}" for z
  proof -
    have "by_name (rows ! i) ''rule_id'' = VText (qs ''r'')" if "i < 2" for i
      using list_all2_nthD[OF executeQuery_rows[OF libpq_like_facts(1,2)[OF m1] a r ne], of i] that
      by (cases i) (auto simp: sample_db_env_def cell_text_def dest: spec[of _ 1])
    from this[of 0] this[of 1] that xy show ?thesis by (auto simp: stored_sub_def Let_def to_id_def to_text_def sample_val_def)
  qed
  then show ?thesis using T[of 0] T[of 1] xy by simp
qed

theorem failed_reload_clears_rules_witness:
  "dt_rules (reloadAlarmConfigFromDb ascii_text True (no_db_tables\<lparr>dt_rules := map (\<lambda>(k, r). (k, AlarmRule.truncate r))
     (fst (getAlarmRule sample_val (sample_db_env [] []) 0 (sample_manager\<lparr>dm_libpqReady := False\<rparr>)))\<rparr>) (qs ''all'')
     (no_db_tables\<lparr>dt_rules := [(''c1'', default_rule)]\<rparr>)) = []"
proof -
  let ?m = "sample_manager\<lparr>dm_libpqReady := False\<rparr>"
  have m: "useLibpq ?m" "\<not> slot_active 0 (dm_pgqt ?m)" using sample_slot(1) sample_slot(2)[of 0] by (simp_all add: useLibpq_def)
  have q: "query_fails (sample_db_env [] []) 0 ''SELECT * FROM alarm_setting'' [] ?m" by (simp add: query_fails_def Let_def)
  have t: "trimmed ascii_text (qs ''all'') = qs ''all''" using ascii_trimmed_scopes by simp
  show ?thesis by (rule failed_reload_clears_rules[OF m q]) (simp_all add: t)
qed

theorem threat_params_columns_agree_witness:
  "param_fields (stored_params sample_val (row_of (zip param_columns (map VReal (param_fields (default_stored_params 1 1)))))) =
     param_fields (default_stored_params 1 1)"
proof -
  let ?p = "default_stored_params 1 1"
  have d: "distinct param_columns" by code_simp
  have "length (param_fields ?p) = length param_columns" by (simp add: param_fields_def param_columns_def)
  then have "\<forall>i < length param_columns. to_real sample_val (by_name (row_of (zip param_columns (map VReal (param_fields ?p)))) (param_columns ! i)) =
      param_fields ?p ! i"
    using d by (simp add: row_of_def map_of_zip_nth to_real_def)
  from threat_params_columns_agree[OF this] show ?thesis by simp
qed

text \<open>A server that keeps the judgement of target 7 and answers every other statement with its row.\<close>

definition judge_columns :: "string list" where
  "judge_columns = [''unique_id'', ''coalesce'', ''coalesce'', ''coalesce'', ''coalesce'', ''coalesce'']"

definition kept_judge_exec :: "nat \<Rightarrow> string \<Rightarrow> wire list \<Rightarrow> string \<times> string \<Rightarrow> pg_answer \<times> (string \<times> string)" where
  "kept_judge_exec c sql ws d =
     (if hd sql = CHR ''U'' then (case ws of WText f # WText so # _ \<Rightarrow> (CommandOk, (f, so)) | _ \<Rightarrow> (Failed, d))
      else (Tuples judge_columns [[Some (dec_int 7), None, None, None, Some (fst d), Some (snd d)]], d))"

definition kept_judge_env :: "(string \<times> string) db_env" where
  "kept_judge_env = \<lparr>en_qt = \<lparr>qd_toStd = map char_of, qd_fromStd = qs, qd_utc = (\<lambda>t. [])\<rparr>,
     en_pg = \<lparr>pe_exec = kept_judge_exec, pe_double = (\<lambda>r. []), pe_server = sample_server, pe_others = (\<lambda>P. P), pe_now = 0\<rparr>,
     en_sqlite = \<lparr>sq_open = True, sq_create = (\<lambda>cs. True), sq_insert = (\<lambda>r. True)\<rparr>,
     en_driver = \<lparr>dq_open = False, dq_query = (\<lambda>q ps d. ([], d)), dq_nonQuery = (\<lambda>q ps d. (False, d)), dq_begin = (\<lambda>d. (False, d)),
        dq_end = (\<lambda>q d. (False, d))\<rparr>\<rparr>"

definition kept_judge_manager :: "string \<times> string \<Rightarrow> (string \<times> string) db_manager" where
  "kept_judge_manager d = \<lparr>dm_accessMode = 1, dm_libpqReady = True, dm_shuttingDown = False,
     dm_pgqt = \<lparr>pq_initialized = True, pq_pg = \<lparr>pg_pool = sample_pool, pg_stopping = False, pg_results = 0, pg_db = d\<rparr>,
        pq_slot = (\<lambda>t. no_transaction)\<rparr>, dm_buffers = (\<lambda>t. \<lparr>bf_tables = [], bf_seq = 0\<rparr>)\<rparr>"

lemma judge_statements: "hd (convertQtPlaceholders update_final_sql) = CHR ''U''" "hd (convertQtPlaceholders (judge_sql n)) = CHR ''S''"
  by (simp_all add: numbered_placeholders[THEN conjunct1] update_final_sql_def judge_sql_def)

lemma judge_law: "final_type_law (en_pg kept_judge_env)"
  unfolding final_type_law_def by (auto simp: kept_judge_env_def kept_judge_exec_def judge_statements)

theorem judgement_roundtrip_witness:
  "\<not> needsDbUpdate ascii_text (JudgeRow.truncate (judge_row sample_val (fst (executeQuery kept_judge_env 0 (judge_sql 1) [DvLongLong 7]
     (snd (updateFinalTargetTypeJudgement kept_judge_env 0 0 7 (qs ''bird'') (qs ''llm'') (kept_judge_manager ([], []))))) ! 0)))
     \<lparr>shouldUpdate = True, finalType = qs ''bird'', finalSource = qs ''llm''\<rparr>"
proof -
  let ?cells = "[[Some (dec_int 7), None, None, None, Some ''bird'', Some ''llm'']]"
  let ?m1 = "kept_judge_manager (''bird'', ''llm'')\<lparr>dm_pgqt := dm_pgqt (kept_judge_manager (''bird'', ''llm''))\<lparr>pq_pg := (pq_pg (dm_pgqt (kept_judge_manager (''bird'', ''llm''))))\<lparr>pg_results := 1\<rparr>\<rparr>\<rparr>"
  have m: "useLibpq (kept_judge_manager d)" "\<not> slot_active 0 (dm_pgqt (kept_judge_manager d))" for d
    by (simp_all add: useLibpq_def kept_judge_manager_def slot_active_def no_transaction_def)
  have get: "getConnection (en_pg kept_judge_env) g = (Some 0, g\<lparr>pg_pool := sample_pool\<lparr>pl_connections := [\<lparr>pc_connection = 0, pc_inUse = True, pc_lastUsed = 0\<rparr>]\<rparr>\<rparr>)"
    if "pg_pool g = sample_pool" for g
    using that by (simp add: getConnection_def get_now_def sample_pool_def sample_server_def usable_def kept_judge_env_def)
  have put: "releaseConnection (pe_now (en_pg kept_judge_env)) (Some 0)
      (sample_pool\<lparr>pl_connections := [\<lparr>pc_connection = 0, pc_inUse = True, pc_lastUsed = 0\<rparr>]\<rparr>) = sample_pool"
    by (simp add: releaseConnection_def sample_pool_def kept_judge_env_def)
  have pars: "sent (prepareParams D qs) = map (param_wire D) qs" for D qs using prepared_params by blast
  have up: "updateFinalTargetTypeJudgement kept_judge_env 0 0 7 (qs ''bird'') (qs ''llm'') (kept_judge_manager ([], [])) = (True, ?m1)"
    using m get[of "pq_pg (dm_pgqt (kept_judge_manager ([], [])))"] put
    by (simp add: updateFinalTargetTypeJudgement_def executeNonQuery_def pgqt_executeNonQuery_def Let_def pg_executeNonQuery_def
        executeInternal_def release_def pars judge_statements kept_judge_manager_def toPgParam_def) (simp add: kept_judge_env_def kept_judge_exec_def judge_statements c_string_plain)
  have plain: "plain_columns judge_columns" by (simp add: plain_columns_def judge_columns_def)
  have ans: "answered kept_judge_env (judge_sql (length [7 :: int])) (map DvLongLong [7]) ?m1 judge_columns ?cells"
    using get[of "pq_pg (dm_pgqt ?m1)"] plain
    by (simp add: answered_def pg_executeQuery_def executeInternal_def convertResult_def kept_judge_manager_def)
       (simp add: kept_judge_env_def kept_judge_exec_def judge_statements judge_columns_def convertResult_def)
  obtain rows m2 where q: "executeQuery kept_judge_env 0 (judge_sql (length [7 :: int])) (map DvLongLong [7]) ?m1 = (rows, m2)" by (metis prod.collapse)
  have lib: "useLibpq ?m1" "\<not> slot_active 0 (dm_pgqt ?m1)" "pq_initialized (dm_pgqt ?m1)" "dm_libpqReady ?m1"
    by (simp_all add: useLibpq_def kept_judge_manager_def slot_active_def no_transaction_def)
  have "fst (pgqt_executeQuery (en_qt kept_judge_env) (en_pg kept_judge_env) 0 (judge_sql (length [7 :: int])) (map DvLongLong [7]) (dm_pgqt ?m1)) =
      map (toQtRow (en_qt kept_judge_env)) (map (convert_row judge_columns) ?cells)"
    using ans lib by (auto simp: pgqt_executeQuery_def Let_def answered_def split: prod.splits)
  then have "rows \<noteq> []" using q lib
    by (auto simp: executeQuery_def materializeRowsToSqlQuery_def Let_def table_rows_def list_all_iff split: prod.splits)
       (auto simp: kept_judge_env_def Let_def)
  then have "fst (fetchCognitiveTypeJudgeRows sample_val kept_judge_env 0 [7] ?m1) ! 0 = judge_row sample_val (rows ! 0) \<and>
      \<not> needsDbUpdate ascii_text (JudgeRow.truncate (judge_row sample_val (rows ! 0))) \<lparr>shouldUpdate = True, finalType = qs ''bird'', finalSource = qs ''llm''\<rparr>"
    by (intro judgement_roundtrip[OF ascii_text_laws m judge_law up ans _ q])
       (simp_all add: judge_columns_def kept_judge_env_def, simp_all add: ascii_text_def ascii_space_def qs_def c_string_plain)
  then show ?thesis using up q by simp
qed

end
