(* ===== verification/Target_Records.thy ===== *)
theory Target_Records
  imports Data_Access "HOL-Library.Word"
begin

text \<open>
  The target tables of \<open>db/DataAccessLayer.cpp\<close>: targets, their associations and collections, sensors, and the two operations that change several
  tables in one transaction.  As in the other tables the SQL texts are the code's, and what a statement does is the server's business.  An
  asynchronous variant is the synchronous one run to its end.
\<close>

unbundle bit_operations_syntax

section \<open>Statements\<close>

text \<open>\<open>INSERT INTO table (columns) VALUES (?, ...)\<close>, the same text that \<open>buildInsertSql\<close> makes.\<close>

definition insert_stmt :: "string \<Rightarrow> string list \<Rightarrow> string" where
  "insert_stmt table cols = ''INSERT INTO '' @ table @ '' ('' @ join_sql '', '' cols @ '') VALUES ('' @ join_sql '', '' (map (\<lambda>c. ''?'') cols) @ '')''"

text \<open>A time that is not valid is null.\<close>

definition DvTime :: "int option \<Rightarrow> db_variant" where
  "DvTime t = (case t of Some ms \<Rightarrow> DvDateTime ms | None \<Rightarrow> DvNull)"

text \<open>Statements until one fails.\<close>

fun run_all :: "'d db_env \<Rightarrow> nat \<Rightarrow> (string \<times> db_variant list) list \<Rightarrow> 'd db_manager \<Rightarrow> bool \<times> 'd db_manager" where
  "run_all E t [] m = (True, m)"
| "run_all E t ((sql, ps) # sts) m =
     (case executeNonQuery E t sql ps m of (True, m1) \<Rightarrow> run_all E t sts m1 | (False, m1) \<Rightarrow> (False, m1))"

section \<open>Targets\<close>

definition target_columns :: "string list" where
  "target_columns = [''target_id'', ''target_type'', ''target_name'']"

definition target_values :: "TargetInfo \<Rightarrow> db_variant list" where
  "target_values i = [DvLongLong (ti_targetId i), DvInt (ti_targetType i), DvText (ti_targetName i)]"

definition addTargetInfo :: "'d db_env \<Rightarrow> nat \<Rightarrow> TargetInfo \<Rightarrow> 'd db_manager \<Rightarrow> bool \<times> 'd db_manager" where
  "addTargetInfo E t i m = executeNonQuery E t (insert_stmt ''target_info'' target_columns) (target_values i) m"

definition addTargetInfoAsync :: "'d db_env \<Rightarrow> nat \<Rightarrow> TargetInfo \<Rightarrow> 'd db_manager \<Rightarrow> bool \<times> 'd db_manager" where
  "addTargetInfoAsync E t i m = executeNonQueryAsync E t (insert_stmt ''target_info'' target_columns) (target_values i) m"

text \<open>Without a row the id and the type are what the memory held: \<open>TargetInfo\<close> has no initialisers.\<close>

definition getTargetInfo :: "val_env \<Rightarrow> TargetInfo \<Rightarrow> 'd db_env \<Rightarrow> nat \<Rightarrow> int \<Rightarrow> 'd db_manager \<Rightarrow> TargetInfo \<times> 'd db_manager" where
  "getTargetInfo V unset E t targetId m =
     reading E t ''SELECT target_id, target_type, target_name FROM target_info WHERE target_id = ?'' [DvLongLong targetId]
       (\<lambda>rows. case rows of r # rs \<Rightarrow> target_info V r | [] \<Rightarrow> unset\<lparr>ti_targetName := []\<rparr>) m"

definition updateTargetInfo :: "'d db_env \<Rightarrow> nat \<Rightarrow> TargetInfo \<Rightarrow> 'd db_manager \<Rightarrow> bool \<times> 'd db_manager" where
  "updateTargetInfo E t i m = executeNonQuery E t ''UPDATE target_info SET target_type = ?, target_name = ? WHERE target_id = ?''
     [DvInt (ti_targetType i), DvText (ti_targetName i), DvLongLong (ti_targetId i)] m"

definition updateTargetInfoAsync :: "'d db_env \<Rightarrow> nat \<Rightarrow> TargetInfo \<Rightarrow> 'd db_manager \<Rightarrow> bool \<times> 'd db_manager" where
  "updateTargetInfoAsync E t i m = executeNonQueryAsync E t ''UPDATE target_info SET target_type = ?, target_name = ? WHERE target_id = ?''
     [DvInt (ti_targetType i), DvText (ti_targetName i), DvLongLong (ti_targetId i)] m"

text \<open>
  \<open>generateUniqueTargetId\<close>: the first eight bytes of the hash, shifted together in 64 bits, without the sign bit.  The hash of the new
  UUID is the argument.
\<close>

definition generateUniqueTargetId :: "8 word list \<Rightarrow> 64 word" where
  "generateUniqueTargetId hash = fold (\<lambda>b i. push_bit 8 i OR ucast b) (take 8 hash) 0 AND mask 63"

subsection \<open>Deleting a target\<close>

text \<open>
  Errors are thrown to the end of the function, which rolls back.  The results of the beginning and of the commit are not looked at.  \<open>U\<close> is
  the conversion of a value to a \<open>QUuid\<close> and of that to the text which is sent.
\<close>

definition collection_tables :: "string list" where
  "collection_tables = [''collection_radar_echo'', ''collection_video'', ''collection_sonar'', ''collection_ais'', ''collection_track'', ''collection_adsb'']"

definition target_deletions :: "qstring list \<Rightarrow> int \<Rightarrow> (string \<times> db_variant list) list" where
  "target_deletions ids targetId =
     concat (map (\<lambda>table. map (\<lambda>c. (''DELETE FROM '' @ table @ '' WHERE collection_id = ?'', [DvText c])) ids) collection_tables) @
     [(''DELETE FROM target_collection WHERE target_id = ?'', [DvLongLong targetId]), (''DELETE FROM target_info WHERE target_id = ?'', [DvLongLong targetId])]"

definition delete_statements :: "(db_value \<Rightarrow> qstring) \<Rightarrow> 'd db_env \<Rightarrow> nat \<Rightarrow> int \<Rightarrow> 'd db_manager \<Rightarrow> bool \<times> 'd db_manager" where
  "delete_statements U E t targetId m =
     (case executeNonQuery E t ''DELETE FROM target_association WHERE target_id = ?'' [DvLongLong targetId] m of
        (False, m1) \<Rightarrow> (False, m1)
      | (True, m1) \<Rightarrow>
          (case reading E t ''SELECT collection_id FROM target_collection WHERE target_id = ?'' [DvLongLong targetId] (map (\<lambda>r. U (by_index r 0))) m1 of
             (ids, m2) \<Rightarrow> run_all E t (target_deletions ids targetId) m2))"

definition deleteTarget :: "(db_value \<Rightarrow> qstring) \<Rightarrow> 'd db_env \<Rightarrow> nat \<Rightarrow> int \<Rightarrow> 'd db_manager \<Rightarrow> bool \<times> 'd db_manager" where
  "deleteTarget U E t targetId m =
     (case delete_statements U E t targetId (snd (beginTransaction E t m)) of
        (True, m1) \<Rightarrow> (True, snd (commitTransaction E t m1))
      | (False, m1) \<Rightarrow> (False, snd (rollbackTransaction E t m1)))"

subsection \<open>Merging targets\<close>

definition merge_statements :: "int list \<Rightarrow> TargetInfo \<Rightarrow> (string \<times> db_variant list) list" where
  "merge_statements ids i =
     (let data = qm_insert ''target_name'' (DvText (ti_targetName i)) (qm_insert ''target_type'' (DvInt (ti_targetType i))
                   (qm_insert ''target_id'' (DvLongLong (ti_targetId i)) []));
          places = join_sql '','' (map (\<lambda>x. ''?'') ids);
          moved = DvLongLong (ti_targetId i) # map DvLongLong ids
      in [(buildInsertSql ''target_info'' data, map snd data),
          (''UPDATE target_association SET target_id = ? WHERE target_id IN ('' @ places @ '')'', moved),
          (''UPDATE target_collection SET target_id = ? WHERE target_id IN ('' @ places @ '')'', moved),
          (''DELETE FROM target_info WHERE target_id IN ('' @ places @ '')'', map DvLongLong ids)])"

definition mergeTargets :: "'d db_env \<Rightarrow> nat \<Rightarrow> int list \<Rightarrow> TargetInfo \<Rightarrow> 'd db_manager \<Rightarrow> bool \<times> 'd db_manager" where
  "mergeTargets E t ids i m =
     (case beginTransaction E t m of
        (False, m1) \<Rightarrow> (False, m1)
      | (True, m1) \<Rightarrow>
          (case run_all E t (merge_statements ids i) m1 of
             (False, m2) \<Rightarrow> (False, snd (rollbackTransaction E t m2))
           | (True, m2) \<Rightarrow>
               (case commitTransaction E t m2 of
                  (True, m3) \<Rightarrow> (True, m3)
                | (False, m3) \<Rightarrow> (False, snd (rollbackTransaction E t m3)))))"

section \<open>Associations\<close>

record TargetAssociation =
  as_associationId :: int
  as_targetId :: int
  as_targetName :: qstring
  as_identifier :: qstring
  as_trackId :: int
  as_fusedTrackId :: int
  as_associationTime :: "int option"

definition association_columns :: "string list" where
  "association_columns = [''target_id'', ''target_name'', ''identifier'', ''track_id'', ''fused_track_id'', ''association_time'']"

definition association_values :: "TargetAssociation \<Rightarrow> db_variant list" where
  "association_values a = [DvLongLong (as_targetId a), DvText (as_targetName a), DvText (as_identifier a), DvLongLong (as_trackId a),
     DvLongLong (as_fusedTrackId a), DvTime (as_associationTime a)]"

definition association_row :: "val_env \<Rightarrow> db_row \<Rightarrow> TargetAssociation" where
  "association_row V r = \<lparr>as_associationId = to_long V (by_name r ''association_id''), as_targetId = to_long V (by_name r ''target_id''),
     as_targetName = to_text V (by_name r ''target_name''), as_identifier = to_text V (by_name r ''identifier''),
     as_trackId = to_long V (by_name r ''track_id''), as_fusedTrackId = to_long V (by_name r ''fused_track_id''),
     as_associationTime = ve_time V (by_name r ''association_time'')\<rparr>"

text \<open>A new association has the current time.\<close>

definition new_association :: "int \<Rightarrow> TargetAssociation" where
  "new_association now = \<lparr>as_associationId = 0, as_targetId = 0, as_targetName = [], as_identifier = [], as_trackId = 0,
     as_fusedTrackId = 0, as_associationTime = Some now\<rparr>"

definition addTargetAssociation :: "'d db_env \<Rightarrow> nat \<Rightarrow> TargetAssociation \<Rightarrow> 'd db_manager \<Rightarrow> bool \<times> 'd db_manager" where
  "addTargetAssociation E t a m = executeNonQuery E t (insert_stmt ''target_association'' association_columns) (association_values a) m"

definition addTargetAssociationAsync :: "'d db_env \<Rightarrow> nat \<Rightarrow> TargetAssociation \<Rightarrow> 'd db_manager \<Rightarrow> bool \<times> 'd db_manager" where
  "addTargetAssociationAsync E t a m = executeNonQueryAsync E t (insert_stmt ''target_association'' association_columns) (association_values a) m"

definition getTargetAssociations :: "val_env \<Rightarrow> 'd db_env \<Rightarrow> nat \<Rightarrow> int \<Rightarrow> 'd db_manager \<Rightarrow> TargetAssociation list \<times> 'd db_manager" where
  "getTargetAssociations V E t targetId m =
     reading E t ''SELECT * FROM target_association WHERE target_id = ? ORDER BY association_time DESC'' [DvLongLong targetId] (map (association_row V)) m"

definition getLatestTargetAssociation :: "val_env \<Rightarrow> int \<Rightarrow> 'd db_env \<Rightarrow> nat \<Rightarrow> int \<Rightarrow> 'd db_manager \<Rightarrow> TargetAssociation \<times> 'd db_manager" where
  "getLatestTargetAssociation V now E t targetId m =
     reading E t ''SELECT * FROM target_association WHERE target_id = ? ORDER BY association_time DESC LIMIT 1'' [DvLongLong targetId]
       (\<lambda>rows. case rows of r # rs \<Rightarrow> association_row V r | [] \<Rightarrow> new_association now) m"

definition getAllLatestTargetAssociations :: "val_env \<Rightarrow> 'd db_env \<Rightarrow> nat \<Rightarrow> 'd db_manager \<Rightarrow> (int, TargetAssociation) qmap \<times> 'd db_manager" where
  "getAllLatestTargetAssociations V E t m =
     reading E t ''SELECT DISTINCT ON (target_id) * FROM target_association ORDER BY target_id, association_time DESC'' []
       (\<lambda>rows. keyed as_targetId (map (association_row V) rows)) m"

section \<open>Collections\<close>

record TargetCollection =
  tc_collectionId :: qstring
  tc_targetId :: int
  tc_modalityId :: int
  tc_collectionTime :: "int option"
  tc_collectionMethod :: int
  tc_longitude :: real
  tc_latitude :: real
  tc_sensorId :: int
  tc_relativeBearing :: real
  tc_relativeDistance :: real
  tc_behaviorId :: int

definition collection_columns :: "string list" where
  "collection_columns = [''collection_id'', ''target_id'', ''modality_id'', ''collection_time'', ''collection_method'', ''longitude'', ''latitude'',
     ''sensor_id'', ''relative_bearing'', ''relative_distance'', ''behavior_id'']"

definition collection_values :: "TargetCollection \<Rightarrow> db_variant list" where
  "collection_values c = [DvText (tc_collectionId c), DvLongLong (tc_targetId c), DvInt (tc_modalityId c), DvTime (tc_collectionTime c),
     DvInt (tc_collectionMethod c), DvDouble (tc_longitude c), DvDouble (tc_latitude c), DvInt (tc_sensorId c), DvDouble (tc_relativeBearing c),
     DvDouble (tc_relativeDistance c), DvInt (tc_behaviorId c)]"

definition collection_row :: "val_env \<Rightarrow> (db_value \<Rightarrow> qstring) \<Rightarrow> db_row \<Rightarrow> TargetCollection" where
  "collection_row V U r = \<lparr>tc_collectionId = U (by_name r ''collection_id''), tc_targetId = to_long V (by_name r ''target_id''),
     tc_modalityId = to_int V (by_name r ''modality_id''), tc_collectionTime = ve_time V (by_name r ''collection_time''),
     tc_collectionMethod = to_int V (by_name r ''collection_method''), tc_longitude = to_real V (by_name r ''longitude''),
     tc_latitude = to_real V (by_name r ''latitude''), tc_sensorId = to_int V (by_name r ''sensor_id''),
     tc_relativeBearing = to_real V (by_name r ''relative_bearing''), tc_relativeDistance = to_real V (by_name r ''relative_distance''),
     tc_behaviorId = to_int V (by_name r ''behavior_id'')\<rparr>"

definition addTargetCollection :: "'d db_env \<Rightarrow> nat \<Rightarrow> TargetCollection \<Rightarrow> 'd db_manager \<Rightarrow> bool \<times> 'd db_manager" where
  "addTargetCollection E t c m = executeNonQuery E t (insert_stmt ''target_collection'' collection_columns) (collection_values c) m"

definition addTargetCollectionAsync :: "'d db_env \<Rightarrow> nat \<Rightarrow> TargetCollection \<Rightarrow> 'd db_manager \<Rightarrow> bool \<times> 'd db_manager" where
  "addTargetCollectionAsync E t c m = executeNonQueryAsync E t (insert_stmt ''target_collection'' collection_columns) (collection_values c) m"

definition getTargetCollections :: "val_env \<Rightarrow> (db_value \<Rightarrow> qstring) \<Rightarrow> 'd db_env \<Rightarrow> nat \<Rightarrow> int \<Rightarrow> 'd db_manager
    \<Rightarrow> TargetCollection list \<times> 'd db_manager" where
  "getTargetCollections V U E t targetId m =
     reading E t ''SELECT * FROM target_collection WHERE target_id = ? ORDER BY collection_time DESC'' [DvLongLong targetId] (map (collection_row V U)) m"

section \<open>Sensors and cameras\<close>

record SensorInfo =
  si_sensorId :: int
  si_sensorName :: qstring

definition sensor_columns :: "string list" where
  "sensor_columns = [''sensor_id'', ''sensor_name'']"

definition sensor_values :: "SensorInfo \<Rightarrow> db_variant list" where
  "sensor_values s = [DvInt (si_sensorId s), DvText (si_sensorName s)]"

definition sensor_row :: "val_env \<Rightarrow> db_row \<Rightarrow> SensorInfo" where
  "sensor_row V r = \<lparr>si_sensorId = to_int V (by_name r ''sensor_id''), si_sensorName = to_text V (by_name r ''sensor_name'')\<rparr>"

definition addSensorInfo :: "'d db_env \<Rightarrow> nat \<Rightarrow> SensorInfo \<Rightarrow> 'd db_manager \<Rightarrow> bool \<times> 'd db_manager" where
  "addSensorInfo E t s m = executeNonQuery E t (insert_stmt ''sensor_info'' sensor_columns) (sensor_values s) m"

definition addSensorInfoAsync :: "'d db_env \<Rightarrow> nat \<Rightarrow> SensorInfo \<Rightarrow> 'd db_manager \<Rightarrow> bool \<times> 'd db_manager" where
  "addSensorInfoAsync E t s m = executeNonQueryAsync E t (insert_stmt ''sensor_info'' sensor_columns) (sensor_values s) m"

definition getSensorInfo :: "val_env \<Rightarrow> SensorInfo \<Rightarrow> 'd db_env \<Rightarrow> nat \<Rightarrow> int \<Rightarrow> 'd db_manager \<Rightarrow> SensorInfo \<times> 'd db_manager" where
  "getSensorInfo V unset E t sensorId m =
     reading E t ''SELECT sensor_id, sensor_name FROM sensor_info WHERE sensor_id = ?'' [DvInt sensorId]
       (\<lambda>rows. case rows of r # rs \<Rightarrow> sensor_row V r | [] \<Rightarrow> unset\<lparr>si_sensorName := []\<rparr>) m"

definition updateSensorInfo :: "'d db_env \<Rightarrow> nat \<Rightarrow> SensorInfo \<Rightarrow> 'd db_manager \<Rightarrow> bool \<times> 'd db_manager" where
  "updateSensorInfo E t s m = executeNonQuery E t ''UPDATE sensor_info SET sensor_name = ? WHERE sensor_id = ?'' [DvText (si_sensorName s), DvInt (si_sensorId s)] m"

definition updateSensorInfoAsync :: "'d db_env \<Rightarrow> nat \<Rightarrow> SensorInfo \<Rightarrow> 'd db_manager \<Rightarrow> bool \<times> 'd db_manager" where
  "updateSensorInfoAsync E t s m =
     executeNonQueryAsync E t ''UPDATE sensor_info SET sensor_name = ? WHERE sensor_id = ?'' [DvText (si_sensorName s), DvInt (si_sensorId s)] m"

definition getCameraRootPos :: "val_env \<Rightarrow> 'd db_env \<Rightarrow> nat \<Rightarrow> int \<Rightarrow> 'd db_manager \<Rightarrow> int \<times> 'd db_manager" where
  "getCameraRootPos V E t camera m =
     reading E t ''SELECT root_pos FROM camera_root WHERE camera_id = ?'' [DvInt camera]
       (\<lambda>rows. case rows of r # rs \<Rightarrow> to_int V (by_name r ''root_pos'') | [] \<Rightarrow> 0) m"

text \<open>
  The future is converted to its result, which waits for it; the empty future that a manager which shuts down returns has no result, and
  reading it is undefined.
\<close>

definition awaited :: "'d db_env \<Rightarrow> nat \<Rightarrow> string \<Rightarrow> db_variant list \<Rightarrow> 'd db_manager \<Rightarrow> (bool \<times> 'd db_manager) option" where
  "awaited E t sql ps m = (if dm_shuttingDown m then None else Some (executeNonQueryAsync E t sql ps m))"

definition updateCameraRoot :: "'d db_env \<Rightarrow> nat \<Rightarrow> int \<Rightarrow> int \<Rightarrow> 'd db_manager \<Rightarrow> (bool \<times> 'd db_manager) option" where
  "updateCameraRoot E t camera pos m = awaited E t ''UPDATE camera_root SET root_pos = ? WHERE camera_id = ?'' [DvInt pos, DvInt camera] m"

definition getAllSensorInfo :: "val_env \<Rightarrow> 'd db_env \<Rightarrow> nat \<Rightarrow> 'd db_manager \<Rightarrow> (int, qstring) qmap \<times> 'd db_manager" where
  "getAllSensorInfo V E t m =
     reading E t ''SELECT sensor_id, sensor_name FROM sensor_info'' []
       (\<lambda>rows. fold (\<lambda>r. qm_insert (to_int V (by_name r ''sensor_id'')) (to_text V (by_name r ''sensor_name''))) rows []) m"

definition getAllCameraRootPos :: "val_env \<Rightarrow> 'd db_env \<Rightarrow> nat \<Rightarrow> 'd db_manager \<Rightarrow> (int, int) qmap \<times> 'd db_manager" where
  "getAllCameraRootPos V E t m =
     reading E t ''SELECT camera_id, root_pos FROM camera_root'' []
       (\<lambda>rows. fold (\<lambda>r. qm_insert (to_int V (by_name r ''camera_id'')) (to_int V (by_name r ''root_pos''))) rows []) m"

section \<open>All or nothing\<close>

text \<open>
  The data of the server, and what a server commits of them: \<open>session_laws\<close> are the laws of transactions, and \<open>COMMIT\<close> is atomic: whatever it
  answers, and also when the answer is lost, afterwards the data committed are those before it or those the transaction saw (\<open>view\<close>).
\<close>

abbreviation server_data :: "'d db_manager \<Rightarrow> 'd" where
  "server_data m \<equiv> pg_db (pq_pg (dm_pgqt m))"

definition commit_law :: "'d pg_env \<Rightarrow> ('d \<Rightarrow> 'v) \<Rightarrow> (nat \<Rightarrow> 'd \<Rightarrow> 'v) \<Rightarrow> (nat \<Rightarrow> 'd \<Rightarrow> bool) \<Rightarrow> bool" where
  "commit_law E committed view open_tx \<longleftrightarrow>
     (\<forall>c d. open_tx c d \<longrightarrow> committed (snd (pe_exec E c ''COMMIT'' [] d)) \<in> {committed d, view c d})"

text \<open>Thread \<open>t\<close> is in a transaction of the libpq path.\<close>

definition in_db_tx :: "(nat \<Rightarrow> 'd \<Rightarrow> bool) \<Rightarrow> nat \<Rightarrow> 'd db_manager \<Rightarrow> bool" where
  "in_db_tx open_tx t m \<longleftrightarrow> useLibpq m \<and> dm_libpqReady m \<and> in_tx open_tx (pq_slot (dm_pgqt m) t) (pq_pg (dm_pgqt m))"

text \<open>A text that is none of the three commands, whatever its placeholders.\<close>

definition plain_sql :: "string \<Rightarrow> bool" where
  "plain_sql sql \<longleftrightarrow> sql \<noteq> [] \<and> hd sql \<notin> {quote, CHR ''?'', CHR ''B'', CHR ''C'', CHR ''R''}"

lemma plain_sql_converted:
  assumes "plain_sql sql"
  shows "convertQtPlaceholders sql \<noteq> ''BEGIN''" "convertQtPlaceholders sql \<noteq> ''COMMIT''" "convertQtPlaceholders sql \<noteq> ''ROLLBACK''"
proof -
  obtain c cs where c: "sql = c # cs" "c \<notin> {quote, CHR ''?'', CHR ''B'', CHR ''C'', CHR ''R''}"
    using assms by (cases sql) (auto simp: plain_sql_def)
  then have "convertQtPlaceholders sql = c # number_marks False 0 cs" using numbered_placeholders[of sql] by simp
  then show "convertQtPlaceholders sql \<noteq> ''BEGIN''" "convertQtPlaceholders sql \<noteq> ''COMMIT''" "convertQtPlaceholders sql \<noteq> ''ROLLBACK''"
    using c(2) by auto
qed

lemma begin_db_tx:
  assumes "session_laws (en_pg E) committed open_tx" "useLibpq m" "beginTransaction E t m = (ok, m1)"
  shows "committed (server_data m1) = committed (server_data m)" "ok \<Longrightarrow> in_db_tx open_tx t m1" "useLibpq m1"
    "\<not> ok \<Longrightarrow> \<not> slot_active t (dm_pgqt m) \<Longrightarrow> \<not> slot_active t (dm_pgqt m1)"
proof -
  obtain tx g where b: "pg_beginTransaction (en_pg E) (pq_pg (dm_pgqt m)) = (tx, g)" by (cases "pg_beginTransaction (en_pg E) (pq_pg (dm_pgqt m))")
  note laws = begin_tx[OF assms(1) b]
  show "committed (server_data m1) = committed (server_data m)" "ok \<Longrightarrow> in_db_tx open_tx t m1" "useLibpq m1"
    "\<not> ok \<Longrightarrow> \<not> slot_active t (dm_pgqt m) \<Longrightarrow> \<not> slot_active t (dm_pgqt m1)"
    using assms(2,3) b laws
    by (auto simp: beginTransaction_def pgqt_beginTransaction_def in_db_tx_def useLibpq_def slot_active_def split: if_splits prod.splits)
qed

lemma nonQuery_db_tx:
  assumes "session_laws (en_pg E) committed open_tx" "in_db_tx open_tx t m" "plain_sql sql" "executeNonQuery E t sql ps m = (ok, m1)"
  shows "committed (server_data m1) = committed (server_data m) \<and> in_db_tx open_tx t m1"
proof -
  obtain ok' g where e: "executeNonQueryInTransaction (en_pg E) (pq_slot (dm_pgqt m) t) (convertQtPlaceholders sql) (map (toPgParam (en_qt E)) ps) (pq_pg (dm_pgqt m)) = (ok', g)"
    by fastforce
  have tx: "in_tx open_tx (pq_slot (dm_pgqt m) t) (pq_pg (dm_pgqt m))" using assms(2) by (simp add: in_db_tx_def)
  note kept = statement_in_tx[OF assms(1) tx plain_sql_converted[OF assms(3)] e]
  have act: "slot_active t (dm_pgqt m)" using tx by (simp add: in_tx_def slot_active_def)
  show ?thesis using assms(2,4) e kept act
    by (auto simp: executeNonQuery_def pgqt_executeNonQuery_def in_db_tx_def useLibpq_def Let_def split: if_splits)
qed

lemma query_in_tx:
  assumes "session_laws E committed open_tx" "in_tx open_tx tx s" "sql \<noteq> ''BEGIN''" "sql \<noteq> ''COMMIT''" "sql \<noteq> ''ROLLBACK''"
    "executeQueryInTransaction E tx sql ps s = (rows, s1)"
  shows "committed (pg_db s1) = committed (pg_db s)" "in_tx open_tx tx s1"
proof -
  have "convertResult a s2 = (rows, s1) \<Longrightarrow> pg_db s1 = pg_db s2" for a s2 by (auto simp: convertResult_def)
  then have "pg_db s1 = pg_db (snd (executeNonQueryInTransaction E tx sql ps s))"
    using assms(6) by (auto simp: executeQueryInTransaction_def executeNonQueryInTransaction_def split: bool.splits option.splits prod.splits)
  moreover obtain ok s2 where e: "executeNonQueryInTransaction E tx sql ps s = (ok, s2)" by fastforce
  ultimately show "committed (pg_db s1) = committed (pg_db s)" "in_tx open_tx tx s1"
    using statement_in_tx[OF assms(1-5) e] by (auto simp: in_tx_def split: option.splits)
qed

lemma query_db_tx:
  assumes "session_laws (en_pg E) committed open_tx" "in_db_tx open_tx t m" "plain_sql sql" "executeQuery E t sql ps m = (rows, m1)"
  shows "committed (server_data m1) = committed (server_data m) \<and> in_db_tx open_tx t m1"
proof -
  obtain rs g where e: "executeQueryInTransaction (en_pg E) (pq_slot (dm_pgqt m) t) (convertQtPlaceholders sql) (map (toPgParam (en_qt E)) ps) (pq_pg (dm_pgqt m)) = (rs, g)"
    by fastforce
  have tx: "in_tx open_tx (pq_slot (dm_pgqt m) t) (pq_pg (dm_pgqt m))" using assms(2) by (simp add: in_db_tx_def)
  note kept = query_in_tx[OF assms(1) tx plain_sql_converted[OF assms(3)] e]
  have act: "slot_active t (dm_pgqt m)" using tx by (simp add: in_tx_def slot_active_def)
  show ?thesis using assms(2,4) e kept act
    by (auto simp: executeQuery_def pgqt_executeQuery_def in_db_tx_def useLibpq_def Let_def split: if_splits prod.splits)
qed

lemma run_all_db_tx:
  assumes "session_laws (en_pg E) committed open_tx" "in_db_tx open_tx t m" "\<forall>st \<in> set sts. plain_sql (fst st)" "run_all E t sts m = (ok, m1)"
  shows "committed (server_data m1) = committed (server_data m) \<and> in_db_tx open_tx t m1"
  using assms(2-4)
proof (induction sts arbitrary: m)
  case (Cons st sts)
  obtain sql ps where st: "st = (sql, ps)" by (cases st)
  obtain b m2 where e: "executeNonQuery E t sql ps m = (b, m2)" by fastforce
  have "committed (server_data m2) = committed (server_data m) \<and> in_db_tx open_tx t m2"
    using nonQuery_db_tx[OF assms(1) Cons.prems(1) _ e] Cons.prems(2) st by simp
  then show ?case using Cons.IH[of m2] Cons.prems st e by (cases b) auto
qed simp

lemma rollback_db_tx:
  assumes "session_laws (en_pg E) committed open_tx" "in_db_tx open_tx t m"
  shows "committed (server_data (snd (rollbackTransaction E t m))) = committed (server_data m)"
  using assms rollback_tx[OF assms(1), of "pq_slot (dm_pgqt m) t" "pq_pg (dm_pgqt m)"]
  by (auto simp: rollbackTransaction_def in_db_tx_def useLibpq_def pgqt_rollbackTransaction_def pgqt_end_def split: prod.splits)

text \<open>Ending a transaction that the thread does not have changes nothing.\<close>

lemma end_without_tx:
  assumes "useLibpq m" "\<not> slot_active t (dm_pgqt m)"
  shows "commitTransaction E t m = (False, m)" "rollbackTransaction E t m = (False, m)"
  using assms by (simp_all add: commitTransaction_def rollbackTransaction_def useLibpq_def pgqt_commitTransaction_def pgqt_rollbackTransaction_def pgqt_end_def)

lemma commit_db_tx:
  assumes "commit_law (en_pg E) committed view open_tx" "in_db_tx open_tx t m" "commitTransaction E t m = (ok, m1)"
  shows "\<exists>c. tx_connection (pq_slot (dm_pgqt m) t) = Some c \<and> ok = (fst (pe_exec (en_pg E) c ''COMMIT'' [] (server_data m)) = CommandOk) \<and>
      committed (server_data m1) \<in> {committed (server_data m), view c (server_data m)}"
    "useLibpq m1" "\<not> slot_active t (dm_pgqt m1)"
proof -
  obtain c where c: "tx_active (pq_slot (dm_pgqt m) t)" "tx_connection (pq_slot (dm_pgqt m) t) = Some c" "open_tx c (server_data m)"
    using assms(2) by (auto simp: in_db_tx_def in_tx_def split: option.splits)
  have m1: "m1 = m\<lparr>dm_pgqt := snd (pgqt_commitTransaction (en_pg E) t (dm_pgqt m))\<rparr>"
    "ok = fst (pgqt_commitTransaction (en_pg E) t (dm_pgqt m))" "useLibpq m"
    using assms(2,3) by (auto simp: commitTransaction_def in_db_tx_def split: prod.splits)
  obtain a d where e: "pe_exec (en_pg E) c ''COMMIT'' [] (server_data m) = (a, d)" by fastforce
  have "committed d \<in> {committed (server_data m), view c (server_data m)}" using assms(1) c(3) e unfolding commit_law_def by (metis snd_conv)
  then show "\<exists>c. tx_connection (pq_slot (dm_pgqt m) t) = Some c \<and> ok = (fst (pe_exec (en_pg E) c ''COMMIT'' [] (server_data m)) = CommandOk) \<and>
      committed (server_data m1) \<in> {committed (server_data m), view c (server_data m)}"
    "useLibpq m1" "\<not> slot_active t (dm_pgqt m1)"
    using c e m1
    by (simp_all add: pgqt_commitTransaction_def pgqt_end_def slot_active_def pg_commitTransaction_def end_transaction_def command_def
        no_transaction_def useLibpq_def)
qed

lemma plain_merge: "\<forall>st \<in> set (merge_statements ids i). plain_sql (fst st)"
  by (simp add: merge_statements_def Let_def plain_sql_def buildInsertSql_def)

text \<open>
  C29. On the libpq path merging targets is all or nothing. When the transaction cannot be begun or one of the statements is refused, the merge reports a
  failure and the server has committed what it had before; when all statements ran, the merge reports what the COMMIT answered, and the data
  committed are those before the merge or those the transaction saw after its last statement, never a part of the merge.
\<close>
theorem merge_all_or_nothing:
  assumes "session_laws (en_pg E) committed open_tx" "commit_law (en_pg E) committed view open_tx" "useLibpq m"
    "beginTransaction E t m = (begun, m1)" "run_all E t (merge_statements ids i) m1 = (all_ok, m2)" "mergeTargets E t ids i m = (ok, m')"
  shows "(\<not> (begun \<and> all_ok) \<longrightarrow> \<not> ok \<and> committed (server_data m') = committed (server_data m)) \<and>
    (begun \<and> all_ok \<longrightarrow> (\<exists>c. tx_connection (pq_slot (dm_pgqt m2) t) = Some c \<and>
       ok = (fst (pe_exec (en_pg E) c ''COMMIT'' [] (server_data m2)) = CommandOk) \<and>
       committed (server_data m') \<in> {committed (server_data m), view c (server_data m2)}))"
proof -
  note begun = begin_db_tx[OF assms(1,3,4)]
  have "\<not> ok \<and> committed (server_data m') = committed (server_data m)" if "\<not> begun"
    using assms(4,6) begun(1) that by (auto simp: mergeTargets_def)
  moreover have "\<not> ok \<and> committed (server_data m') = committed (server_data m)" if "begun" "\<not> all_ok"
  proof -
    note kept = run_all_db_tx[OF assms(1) begun(2)[OF that(1)] plain_merge assms(5)]
    then show ?thesis using assms(4-6) that begun(1) rollback_db_tx[OF assms(1) conjunct2[OF kept]] by (auto simp: mergeTargets_def)
  qed
  moreover have "\<exists>c. tx_connection (pq_slot (dm_pgqt m2) t) = Some c \<and> ok = (fst (pe_exec (en_pg E) c ''COMMIT'' [] (server_data m2)) = CommandOk) \<and>
       committed (server_data m') \<in> {committed (server_data m), view c (server_data m2)}" if "begun" "all_ok"
  proof -
    note kept = run_all_db_tx[OF assms(1) begun(2)[OF that(1)] plain_merge assms(5)]
    obtain ok3 m3 where c: "commitTransaction E t m2 = (ok3, m3)" by fastforce
    note fin = commit_db_tx[OF assms(2) conjunct2[OF kept] c]
    have "ok = ok3 \<and> m' = m3" using assms(4-6) that c end_without_tx(2)[OF fin(2,3)] by (cases ok3) (auto simp: mergeTargets_def)
    then show ?thesis using fin(1) kept begun(1) by simp
  qed
  ultimately show ?thesis by blast
qed

lemma plain_deletions: "\<forall>st \<in> set (target_deletions ids targetId). plain_sql (fst st)"
  by (auto simp: target_deletions_def plain_sql_def)

lemma delete_statements_db_tx:
  assumes "session_laws (en_pg E) committed open_tx" "in_db_tx open_tx t m" "delete_statements U E t targetId m = (ok, m1)"
  shows "committed (server_data m1) = committed (server_data m) \<and> in_db_tx open_tx t m1"
proof -
  obtain a m2 where e: "executeNonQuery E t ''DELETE FROM target_association WHERE target_id = ?'' [DvLongLong targetId] m = (a, m2)" by fastforce
  have n: "committed (server_data m2) = committed (server_data m) \<and> in_db_tx open_tx t m2"
    using nonQuery_db_tx[OF assms(1,2) _ e] by (simp add: plain_sql_def)
  obtain rows m3 where q: "executeQuery E t ''SELECT collection_id FROM target_collection WHERE target_id = ?'' [DvLongLong targetId] m2 = (rows, m3)"
    by fastforce
  have k: "committed (server_data m3) = committed (server_data m2) \<and> in_db_tx open_tx t m3"
    using query_db_tx[OF assms(1) conjunct2[OF n] _ q] by (simp add: plain_sql_def)
  show ?thesis
  proof (cases a)
    case True
    then have "run_all E t (target_deletions (map (\<lambda>r. U (by_index r 0)) rows) targetId) m3 = (ok, m1)"
      using assms(3) e q by (simp add: delete_statements_def reading_def)
    from run_all_db_tx[OF assms(1) conjunct2[OF k] plain_deletions this] show ?thesis using n k by simp
  next
    case False
    then show ?thesis using assms(3) e n by (simp add: delete_statements_def)
  qed
qed

text \<open>Statements outside a transaction start none.\<close>

lemma statement_slot:
  "dm_accessMode (snd (executeNonQuery E t sql ps m)) = dm_accessMode m \<and> pq_slot (dm_pgqt (snd (executeNonQuery E t sql ps m))) = pq_slot (dm_pgqt m)"
  "dm_accessMode (snd (executeQuery E t sql ps m)) = dm_accessMode m \<and> pq_slot (dm_pgqt (snd (executeQuery E t sql ps m))) = pq_slot (dm_pgqt m)"
  by (auto simp: executeNonQuery_def executeQuery_def pgqt_executeNonQuery_def pgqt_executeQuery_def on_data_def Let_def split: prod.splits if_splits)

lemma run_all_slot:
  "dm_accessMode (snd (run_all E t sts m)) = dm_accessMode m \<and> pq_slot (dm_pgqt (snd (run_all E t sts m))) = pq_slot (dm_pgqt m)"
proof (induction sts arbitrary: m)
  case (Cons st sts)
  obtain sql ps b m1 where st: "st = (sql, ps)" "executeNonQuery E t sql ps m = (b, m1)" by (cases st) fastforce
  then show ?case using Cons[of m1] statement_slot(1)[of E t sql ps m] by (cases b) simp_all
qed simp

lemma delete_statements_slot:
  "dm_accessMode (snd (delete_statements U E t targetId m)) = dm_accessMode m \<and> pq_slot (dm_pgqt (snd (delete_statements U E t targetId m))) = pq_slot (dm_pgqt m)"
proof -
  obtain a m2 where e: "executeNonQuery E t ''DELETE FROM target_association WHERE target_id = ?'' [DvLongLong targetId] m = (a, m2)" by fastforce
  have 1: "dm_accessMode m2 = dm_accessMode m \<and> pq_slot (dm_pgqt m2) = pq_slot (dm_pgqt m)"
    using statement_slot(1)[of E t "''DELETE FROM target_association WHERE target_id = ?''" "[DvLongLong targetId]" m] e by simp
  show ?thesis
    using 1 e statement_slot(2)[of E t "''SELECT collection_id FROM target_collection WHERE target_id = ?''" "[DvLongLong targetId]" m2]
    by (cases a) (simp_all add: delete_statements_def case_prod_beta run_all_slot)
qed

text \<open>
  Deleting a target is all or nothing only when its transaction could be begun: then a failure leaves what the server has committed
  unchanged.  When the transaction could not be begun the deletions run all the same, one by one, and the rollback at a failure does
  nothing: the result and the data are those of the bare statements.
\<close>
theorem delete_needs_transaction:
  assumes "session_laws (en_pg E) committed open_tx" "useLibpq m" "\<not> slot_active t (dm_pgqt m)" "beginTransaction E t m = (begun, m1)"
    "deleteTarget U E t targetId m = (ok, m')"
  shows "(begun \<longrightarrow> \<not> ok \<longrightarrow> committed (server_data m') = committed (server_data m)) \<and>
    (\<not> begun \<longrightarrow> (ok, m') = delete_statements U E t targetId m1)"
proof -
  note b = begin_db_tx[OF assms(1,2,4)]
  obtain ok2 m2 where d: "delete_statements U E t targetId m1 = (ok2, m2)" by fastforce
  have "committed (server_data m') = committed (server_data m)" if "begun" "\<not> ok"
    using delete_statements_db_tx[OF assms(1) b(2)[OF that(1)] d] rollback_db_tx[OF assms(1), of t m2] assms(4,5) d that(2) b(1)
    by (auto simp: deleteTarget_def split: bool.splits)
  moreover have "(ok, m') = (ok2, m2)" if "\<not> begun"
    using delete_statements_slot[of U E t targetId m1] d b(3) b(4)[OF that assms(3)] end_without_tx[of m2 t] assms(4,5)
    by (cases ok2) (auto simp: deleteTarget_def useLibpq_def slot_active_def)
  ultimately show ?thesis using d by auto
qed

section \<open>Identifiers\<close>

definition bytes_value :: "8 word list \<Rightarrow> int" where
  "bytes_value bs = fold (\<lambda>b n. n * 256 + uint b) bs 0"

lemma shifted_or: "(push_bit 8 i OR ucast b :: 64 word) = of_int (uint i) * 256 + of_int (uint (b :: 8 word))"
proof -
  have "push_bit 8 i AND ucast b = (0 :: 64 word)"
    by (rule bit_word_eqI) (auto simp: bit_simps dest: bit_imp_le_length)
  then have "push_bit 8 i OR ucast b = push_bit 8 i + (ucast b :: 64 word)" by (simp add: disjunctive_add_eq_or)
  then show ?thesis by (simp add: push_bit_eq_mult)
qed

lemma shifted_bytes: "fold (\<lambda>b i. push_bit 8 i OR ucast b) (bs :: 8 word list) (of_int n) = (of_int (fold (\<lambda>b n. n * 256 + uint b) bs n) :: 64 word)"
proof (induction bs arbitrary: n)
  case (Cons b bs)
  have "(of_int (uint (of_int n :: 64 word)) :: 64 word) = of_int n" by (rule word_of_int_uint)
  then have "(push_bit 8 (of_int n) OR ucast b :: 64 word) = of_int (n * 256 + uint b)"
    unfolding shifted_or of_int_add of_int_mult by (simp only: of_int_numeral)
  then show ?case using Cons[of "n * 256 + uint b"] by (simp only: fold_Cons o_apply)
qed simp

text \<open>
  A new target id is the first eight bytes of the hash read as a big-endian number without its highest bit, so it is never
  negative, and two hashes give the same id exactly when they agree in these 63 bits.
\<close>
theorem target_id_exact:
  "sint (generateUniqueTargetId hash) = bytes_value (take 8 hash) mod 2 ^ 63 \<and>
   (generateUniqueTargetId hash = generateUniqueTargetId hash' \<longleftrightarrow>
      bytes_value (take 8 hash) mod 2 ^ 63 = bytes_value (take 8 hash') mod 2 ^ 63)"
proof -
  have u: "uint (generateUniqueTargetId h) = bytes_value (take 8 h) mod 2 ^ 63" for h
  proof -
    have "generateUniqueTargetId h = take_bit 63 (of_int (bytes_value (take 8 h)))"
      using shifted_bytes[of "take 8 h" 0] by (simp add: generateUniqueTargetId_def bytes_value_def take_bit_eq_mask)
    then have "uint (generateUniqueTargetId h) = take_bit 63 (uint (of_int (bytes_value (take 8 h)) :: 64 word))"
      by (simp only: unsigned_take_bit_eq)
    then show ?thesis by (simp add: uint_word_of_int take_bit_eq_mod mod_mod_cancel)
  qed
  have "sint w = uint w" if "uint w < 2 ^ 63" for w :: "64 word"
    using that signed_take_bit_int_eq_self[of 63 "uint w"] uint_nonnegative[of w] by (simp add: sint_uint)
  then have "sint (generateUniqueTargetId hash) = uint (generateUniqueTargetId hash)" by (simp add: u)
  then show ?thesis using u word_uint_eq_iff by metis
qed

section \<open>What is written is read back\<close>

text \<open>
  \<open>shown\<close>: the value a column has for the parameter it was written from.  The laws are those of a server and a driver that keep numbers in their
  range, texts and times; a real comes back as \<open>rnd\<close> makes it (through libpq it is sent with 15 significant digits).
\<close>

definition reads_back :: "val_env \<Rightarrow> (real \<Rightarrow> real) \<Rightarrow> (db_variant \<Rightarrow> db_value) \<Rightarrow> bool" where
  "reads_back V rnd shown \<longleftrightarrow>
     (\<forall>i. - (2 ^ 31) \<le> i \<and> i < 2 ^ 31 \<longrightarrow> to_int V (shown (DvInt i)) = i) \<and>
     (\<forall>i. - (2 ^ 63) \<le> i \<and> i < 2 ^ 63 \<longrightarrow> to_long V (shown (DvLongLong i)) = i) \<and>
     (\<forall>s. to_text V (shown (DvText s)) = s) \<and> (\<forall>r. to_real V (shown (DvDouble r)) = rnd r) \<and>
     (\<forall>ms. ve_time V (shown (DvDateTime ms)) = Some ms) \<and> ve_time V (shown DvNull) = None"

text \<open>
  The row an insertion leaves, read by column names: the columns it names hold its parameters, all others what the server puts there
  (\<open>rest\<close>: the tables' defaults are not in the repository).
\<close>

definition written_row :: "(db_variant \<Rightarrow> db_value) \<Rightarrow> db_row \<Rightarrow> string list \<Rightarrow> db_variant list \<Rightarrow> db_row" where
  "written_row shown rest cols ps =
     rest\<lparr>by_name := (\<lambda>k. case map_of (zip cols (map shown ps)) k of Some v \<Rightarrow> v | None \<Rightarrow> by_name rest k)\<rparr>"

abbreviation int_member :: "int \<Rightarrow> bool" where
  "int_member i \<equiv> - (2 ^ 31) \<le> i \<and> i < 2 ^ 31"

abbreviation long_member :: "int \<Rightarrow> bool" where
  "long_member i \<equiv> - (2 ^ 63) \<le> i \<and> i < 2 ^ 63"

lemma reads_backD:
  assumes "reads_back V rnd shown"
  shows "int_member i \<Longrightarrow> to_int V (shown (DvInt i)) = i" "long_member i \<Longrightarrow> to_long V (shown (DvLongLong i)) = i"
    "to_text V (shown (DvText s)) = s" "to_real V (shown (DvDouble r)) = rnd r" "ve_time V (shown (DvTime x)) = x"
  using assms by (auto simp: reads_back_def DvTime_def split: option.splits)

text \<open>
  The four target tables are read as they are written: from the row the insertion left, whatever the columns it does not name hold, the reader makes
  the structure that was inserted, member by member (an association gets its own number from the server, a real its rounding).
\<close>
theorem target_tables_roundtrip:
  assumes "reads_back V rnd shown" "long_member (ti_targetId i)" "int_member (ti_targetType i)"
    "long_member (as_targetId a)" "long_member (as_trackId a)" "long_member (as_fusedTrackId a)"
    "long_member (tc_targetId c)" "int_member (tc_modalityId c)" "int_member (tc_collectionMethod c)" "int_member (tc_sensorId c)"
    "int_member (tc_behaviorId c)" "U (shown (DvText (tc_collectionId c))) = tc_collectionId c" "int_member (si_sensorId s)"
  shows "target_info V (written_row shown rest target_columns (target_values i)) = i \<and>
    (association_row V (written_row shown rest association_columns (association_values a)))\<lparr>as_associationId := as_associationId a\<rparr> = a \<and>
    collection_row V U (written_row shown rest collection_columns (collection_values c)) =
      c\<lparr>tc_longitude := rnd (tc_longitude c), tc_latitude := rnd (tc_latitude c), tc_relativeBearing := rnd (tc_relativeBearing c),
        tc_relativeDistance := rnd (tc_relativeDistance c)\<rparr> \<and>
    sensor_row V (written_row shown rest sensor_columns (sensor_values s)) = s"
proof -
  note read = reads_backD[OF assms(1)]
  note kept = read(3-5) read(2)[OF assms(2)] read(1)[OF assms(3)] read(2)[OF assms(4)] read(2)[OF assms(5)] read(2)[OF assms(6)] read(2)[OF assms(7)]
    read(1)[OF assms(8)] read(1)[OF assms(9)] read(1)[OF assms(10)] read(1)[OF assms(11)] assms(12) read(1)[OF assms(13)]
  have 1: "target_info V (written_row shown rest target_columns (target_values i)) = i"
    by (simp add: target_info_def written_row_def target_columns_def target_values_def kept)
  have 2: "(association_row V (written_row shown rest association_columns (association_values a)))\<lparr>as_associationId := as_associationId a\<rparr> = a"
    by (simp add: association_row_def written_row_def association_columns_def association_values_def kept)
  have 3: "collection_row V U (written_row shown rest collection_columns (collection_values c)) =
      c\<lparr>tc_longitude := rnd (tc_longitude c), tc_latitude := rnd (tc_latitude c), tc_relativeBearing := rnd (tc_relativeBearing c),
        tc_relativeDistance := rnd (tc_relativeDistance c)\<rparr>"
    by (simp add: collection_row_def written_row_def collection_columns_def collection_values_def kept)
  have 4: "sensor_row V (written_row shown rest sensor_columns (sensor_values s)) = s"
    by (simp add: sensor_row_def written_row_def sensor_columns_def sensor_values_def kept)
  show ?thesis using 1 2 3 4 by simp
qed

text \<open>Qt's driver keeps the values as they are.\<close>

definition typed_value :: "db_variant \<Rightarrow> db_value" where
  "typed_value v = (case v of DvBool b \<Rightarrow> VBool b | DvInt i \<Rightarrow> VInt i | DvLongLong i \<Rightarrow> VInt i | DvDouble r \<Rightarrow> VReal r
     | DvDateTime ms \<Rightarrow> VTime ms | DvText s \<Rightarrow> VText s | _ \<Rightarrow> VNull)"

definition typed_env :: val_env where
  "typed_env = \<lparr>ve_qt = ascii_text, ve_textInt = (\<lambda>s. 0), ve_textLong = (\<lambda>s. 0), ve_textReal = (\<lambda>s. 0), ve_realInt = (\<lambda>r. 0), ve_show = (\<lambda>v. []),
     ve_time = (\<lambda>v. case v of VTime ms \<Rightarrow> Some ms | _ \<Rightarrow> None), ve_date = (\<lambda>ms. []), ve_id = map char_of\<rparr>"

lemma typed_reads_back: "reads_back typed_env id typed_value"
  by (simp add: reads_back_def typed_env_def typed_value_def to_int_def to_long_def to_real_def to_text_def to_i32_id)

theorem target_tables_roundtrip_witness:
  "target_info typed_env (written_row typed_value \<lparr>by_name = (\<lambda>k. VNull), by_index = (\<lambda>i. VNull)\<rparr> target_columns [DvLongLong 7, DvInt 2, DvText [65]]) =
     \<lparr>ti_targetId = 7, ti_targetType = 2, ti_targetName = [65]\<rparr>"
  using target_tables_roundtrip[OF typed_reads_back, of "\<lparr>ti_targetId = 7, ti_targetType = 2, ti_targetName = [65]\<rparr>" "new_association 0"
      "\<lparr>tc_collectionId = [], tc_targetId = 0, tc_modalityId = 0, tc_collectionTime = None, tc_collectionMethod = 0, tc_longitude = 0,
        tc_latitude = 0, tc_sensorId = 0, tc_relativeBearing = 0, tc_relativeDistance = 0, tc_behaviorId = 0\<rparr>"
      "to_text typed_env" "\<lparr>si_sensorId = 0, si_sensorName = []\<rparr>"]
  by (simp add: new_association_def target_values_def reads_backD(3)[OF typed_reads_back])

section \<open>A server with transactions\<close>

text \<open>What is committed and the open transaction's count of statements; \<open>R\<close> are the refused texts.\<close>

definition refusing_exec :: "(string \<Rightarrow> bool) \<Rightarrow> nat \<Rightarrow> string \<Rightarrow> wire list \<Rightarrow> nat \<times> nat option \<Rightarrow> pg_answer \<times> nat \<times> nat option" where
  "refusing_exec R c sql ps d =
     (if sql = ''BEGIN'' then (CommandOk, fst d, Some (fst d))
      else if sql = ''COMMIT'' then (CommandOk, (case snd d of Some x \<Rightarrow> x | None \<Rightarrow> fst d), None)
      else if sql = ''ROLLBACK'' then (CommandOk, fst d, None)
      else if R sql then (Failed, d)
      else (CommandOk, (case snd d of Some x \<Rightarrow> (fst d, Some (Suc x)) | None \<Rightarrow> (Suc (fst d), None))))"

definition refusing_env :: "(string \<Rightarrow> bool) \<Rightarrow> (nat \<times> nat option) db_env" where
  "refusing_env R = \<lparr>en_qt = \<lparr>qd_toStd = map char_of, qd_fromStd = qs, qd_utc = (\<lambda>t. [])\<rparr>,
     en_pg = \<lparr>pe_exec = refusing_exec R, pe_double = (\<lambda>r. []), pe_server = sample_server, pe_others = (\<lambda>P. P), pe_now = 0\<rparr>,
     en_sqlite = \<lparr>sq_open = True, sq_create = (\<lambda>cs. True), sq_insert = (\<lambda>r. True)\<rparr>,
     en_driver = \<lparr>dq_open = False, dq_query = (\<lambda>q ps d. ([], d)), dq_nonQuery = (\<lambda>q ps d. (False, d)), dq_begin = (\<lambda>d. (False, d)),
        dq_end = (\<lambda>q d. (False, d))\<rparr>\<rparr>"

definition refusing_manager :: "(nat \<times> nat option) db_manager" where
  "refusing_manager = \<lparr>dm_accessMode = 1, dm_libpqReady = True, dm_shuttingDown = False,
     dm_pgqt = \<lparr>pq_initialized = True, pq_pg = \<lparr>pg_pool = sample_pool, pg_stopping = False, pg_results = 0, pg_db = (0, None)\<rparr>,
        pq_slot = (\<lambda>t. no_transaction)\<rparr>, dm_buffers = (\<lambda>t. \<lparr>bf_tables = [], bf_seq = 0\<rparr>)\<rparr>"

lemma refusing_laws: "session_laws (en_pg (refusing_env R)) fst (\<lambda>c d. snd d \<noteq> None)" 
    "commit_law (en_pg (refusing_env R)) fst (\<lambda>c d. case snd d of Some x \<Rightarrow> x | None \<Rightarrow> fst d) (\<lambda>c d. snd d \<noteq> None)"
  by (auto simp: session_laws_def commit_law_def refusing_env_def refusing_exec_def split: option.splits)

lemmas run_model = executeNonQuery_def pgqt_executeNonQuery_def executeNonQueryInTransaction_def executeQuery_def pgqt_executeQuery_def
  executeQueryInTransaction_def executeInternal_def convertResult_def pgqt_beginTransaction_def pg_beginTransaction_def command_def slot_active_def useLibpq_def
  getConnection_def get_now_def sample_pool_def sample_server_def usable_def no_transaction_def materializeRowsToSqlQuery_def table_rows_def reading_def

definition refusing_begun :: "(nat \<times> nat option) db_manager" where
  "refusing_begun = snd (beginTransaction (refusing_env (\<lambda>sql. True)) 0 refusing_manager)"

lemma refusing_begin: "beginTransaction (refusing_env R) 0 refusing_manager = (True, refusing_begun)"
  by (simp add: refusing_begun_def beginTransaction_def refusing_env_def refusing_manager_def refusing_exec_def run_model)

lemma refusing_begun_facts: "dm_libpqReady refusing_begun" "useLibpq refusing_begun" "slot_active 0 (dm_pgqt refusing_begun)"
  "pq_initialized (dm_pgqt refusing_begun)" "tx_connection (pq_slot (dm_pgqt refusing_begun) 0) = Some 0"
  by (simp_all add: refusing_begun_def beginTransaction_def refusing_env_def refusing_manager_def refusing_exec_def run_model)

lemma refused_statement:
  assumes "dm_libpqReady m" "useLibpq m" "slot_active 0 (dm_pgqt m)" "pq_initialized (dm_pgqt m)" "plain_sql sql"
    "R (convertQtPlaceholders sql)" "tx_connection (pq_slot (dm_pgqt m) 0) = Some c"
  shows "fst (executeNonQuery (refusing_env R) 0 sql ps m) = False"
  using assms plain_sql_converted[OF assms(5)]
  by (simp add: run_model refusing_env_def refusing_exec_def)

lemma converted_hd: "plain_sql sql \<Longrightarrow> hd (convertQtPlaceholders sql) = hd sql"
  using numbered_placeholders[of sql] by (cases sql) (auto simp: plain_sql_def)

lemma accepted_statement:
  assumes "dm_libpqReady m" "useLibpq m" "slot_active 0 (dm_pgqt m)" "pq_initialized (dm_pgqt m)" "plain_sql sql"
    "\<not> R (convertQtPlaceholders sql)" "tx_connection (pq_slot (dm_pgqt m) 0) = Some c"
  shows "\<exists>m'. executeNonQuery (refusing_env R) 0 sql ps m = (True, m') \<and> dm_libpqReady m' \<and> useLibpq m' \<and> slot_active 0 (dm_pgqt m') \<and>
    pq_initialized (dm_pgqt m') \<and> tx_connection (pq_slot (dm_pgqt m') 0) = Some c"
  using assms plain_sql_converted[OF assms(5)]
  by (simp add: run_model refusing_env_def refusing_exec_def split: option.splits)

theorem merge_all_or_nothing_witness:
  "fst (mergeTargets (refusing_env (\<lambda>sql. hd sql = CHR ''U'')) 0 [1, 2] \<lparr>ti_targetId = 3, ti_targetType = 0, ti_targetName = []\<rparr> refusing_manager) = False \<and>
   fst (server_data (snd (mergeTargets (refusing_env (\<lambda>sql. hd sql = CHR ''U'')) 0 [1, 2]
     \<lparr>ti_targetId = 3, ti_targetType = 0, ti_targetName = []\<rparr> refusing_manager))) = 0"
proof -
  let ?R = "\<lambda>sql. hd sql = CHR ''U''" and ?i = "\<lparr>ti_targetId = 3, ti_targetType = 0, ti_targetName = []\<rparr>"
  let ?E = "refusing_env ?R"
  obtain st1 st2 sts where st: "merge_statements [1, 2] ?i = st1 # st2 # sts" "hd (fst st1) = CHR ''I''" "hd (fst st2) = CHR ''U''"
    by (simp add: merge_statements_def Let_def buildInsertSql_def)
  have plain: "plain_sql (fst st1)" "plain_sql (fst st2)" using plain_merge[of "[1, 2]" ?i] st(1) by simp_all
  obtain m' where m': "executeNonQuery ?E 0 (fst st1) (snd st1) refusing_begun = (True, m')" "dm_libpqReady m'" "useLibpq m'" "slot_active 0 (dm_pgqt m')"
    "pq_initialized (dm_pgqt m')" "tx_connection (pq_slot (dm_pgqt m') 0) = Some 0"
    using accepted_statement[of refusing_begun "fst st1" ?R 0 "snd st1"] plain(1) refusing_begun_facts st(2) converted_hd by auto
  have "fst (executeNonQuery ?E 0 (fst st2) (snd st2) m') = False"
    using m' plain(2) st(3) converted_hd by (intro refused_statement[of m' "fst st2" ?R 0 "snd st2"]) auto
  then have "fst (run_all ?E 0 (merge_statements [1, 2] ?i) refusing_begun) = False"
    using m'(1) st(1) by (cases st1; cases st2) (auto split: prod.splits bool.splits)
  then obtain m2 where ran: "run_all ?E 0 (merge_statements [1, 2] ?i) refusing_begun = (False, m2)" by (metis prod.collapse)
  have "useLibpq refusing_manager" by (simp add: useLibpq_def refusing_manager_def)
  from merge_all_or_nothing[OF refusing_laws this refusing_begin ran prod.collapse[symmetric]]
  show ?thesis by (simp add: refusing_manager_def)
qed

theorem delete_needs_transaction_witness:
  "fst (server_data (snd (deleteTarget (\<lambda>v. []) (refusing_env (\<lambda>sql. True)) 0 7 refusing_manager))) = 0 \<and>
   \<not> fst (deleteTarget (\<lambda>v. []) (refusing_env (\<lambda>sql. True)) 0 7 refusing_manager)"
proof -
  let ?E = "refusing_env (\<lambda>sql. True)"
  obtain ok m' where r: "deleteTarget (\<lambda>v. []) ?E 0 7 refusing_manager = (ok, m')" by fastforce
  have "fst (executeNonQuery ?E 0 ''DELETE FROM target_association WHERE target_id = ?'' [DvLongLong 7] refusing_begun) = False"
    by (rule refused_statement) (simp_all add: refusing_begun_facts plain_sql_def)
  then have "ok = False" using r refusing_begin[of "\<lambda>sql. True"]
    by (auto simp: deleteTarget_def delete_statements_def split: prod.splits bool.splits)
  moreover have "useLibpq refusing_manager" "\<not> slot_active 0 (dm_pgqt refusing_manager)"
    by (simp_all add: useLibpq_def refusing_manager_def slot_active_def no_transaction_def)
  ultimately have "fst (server_data m') = fst (server_data refusing_manager)"
    using delete_needs_transaction[OF refusing_laws(1) _ _ refusing_begin r] by blast
  then show ?thesis using r \<open>ok = False\<close> by (simp add: refusing_manager_def)
qed

end
