(* ===== verification/Capture_Records.thy ===== *)
theory Capture_Records
  imports Target_Records
begin

text \<open>
  The captures of a target in \<open>db/DataAccessLayer.cpp\<close>: pictures, videos, sonar, AIS, tracks and ADS-B, and the dictionaries in memory.  Their
  statements name their placeholders (\<open>:target_id\<close>), which Qt's driver binds by position and the libpq path does not convert.
\<close>

section \<open>Statements with named placeholders\<close>

definition named :: "string \<Rightarrow> string" where
  "named c = CHR '':'' # c"

definition named_insert :: "string \<Rightarrow> string list \<Rightarrow> string" where
  "named_insert table cols = ''INSERT INTO '' @ table @ '' ('' @ join_sql '', '' cols @ '') VALUES ('' @ join_sql '', '' (map named cols) @ '')''"

definition named_delete :: "string \<Rightarrow> string list \<Rightarrow> string" where
  "named_delete table cols = ''DELETE FROM '' @ table @ '' WHERE '' @ join_sql '' AND '' (map (\<lambda>c. c @ '' = '' @ named c) cols)"

text \<open>One insertion per item, all of them tried; the result says whether all succeeded.\<close>

fun insert_each :: "'d db_env \<Rightarrow> nat \<Rightarrow> string \<Rightarrow> db_variant list list \<Rightarrow> 'd db_manager \<Rightarrow> bool \<times> 'd db_manager" where
  "insert_each E t sql [] m = (True, m)"
| "insert_each E t sql (ps # rest) m =
     (case executeNonQuery E t sql ps m of (ok, m1) \<Rightarrow> (case insert_each E t sql rest m1 of (all, m2) \<Rightarrow> (ok \<and> all, m2)))"

section \<open>Dictionaries and sensor names\<close>

record dal =
  da_targetCategories :: "(int, qstring) qmap"
  da_modalityTypes :: "(int, qstring) qmap"
  da_collectionMethods :: "(int, qstring) qmap"
  da_behaviorTypes :: "(int, qstring) qmap"
  da_behaviorTypes2 :: "qstring list"
  da_dictTargetTypes :: "qstring list"
  da_dictSeaState :: "(qstring, int) qmap"
  da_dictWeatherTypes :: "(qstring, int) qmap"
  da_dictVisible :: "(qstring, int) qmap"
  da_dictPrecipitation :: "(qstring, int) qmap"
  da_dictRouteFlight :: "(qstring, qstring) qmap"
  da_dictRouteFlightID :: "(qstring, int) qmap"
  da_sensorInfo :: "(int, qstring) qmap"

text \<open>The four local functions of \<open>loadDictionaries\<close>; they add to what is there.\<close>

definition loadDictionary :: "val_env \<Rightarrow> db_row list \<Rightarrow> (int, qstring) qmap \<Rightarrow> (int, qstring) qmap" where
  "loadDictionary V rows d = fold (\<lambda>r. qm_insert (to_int V (by_index r 0)) (to_text V (by_index r 1))) rows d"

definition loadDictionaryVec :: "val_env \<Rightarrow> db_row list \<Rightarrow> qstring list \<Rightarrow> qstring list" where
  "loadDictionaryVec V rows d = d @ map (\<lambda>r. to_text V (by_index r 1)) rows"

definition loadDictionaryMap :: "val_env \<Rightarrow> db_row list \<Rightarrow> (qstring, int) qmap \<Rightarrow> (qstring, int) qmap" where
  "loadDictionaryMap V rows d = fold (\<lambda>r. qm_insert (to_text V (by_index r 1)) (to_int V (by_index r 0))) rows d"

definition loadDictionaryMap2 :: "val_env \<Rightarrow> db_row list \<Rightarrow> (qstring, qstring) qmap \<Rightarrow> (qstring, qstring) qmap" where
  "loadDictionaryMap2 V rows d = fold (\<lambda>r. qm_insert (to_text V (by_index r 0)) (to_text V (by_index r 1))) rows d"

text \<open>The queries of \<open>loadDictionaries\<close> in their order, with the members they fill.\<close>

definition dictionary_loads :: "val_env \<Rightarrow> (string \<times> (db_row list \<Rightarrow> dal \<Rightarrow> dal)) list" where
  "dictionary_loads V = [
     (''SELECT category_id, category_name FROM dict_target_category'', \<lambda>rows. da_targetCategories_update (loadDictionary V rows)),
     (''SELECT modality_id, modality_name FROM dict_modality_type'', \<lambda>rows. da_modalityTypes_update (loadDictionary V rows)),
     (''SELECT method_id, method_name FROM dict_collection_method'', \<lambda>rows. da_collectionMethods_update (loadDictionary V rows)),
     (''SELECT id, description FROM dict_behavior_types'', \<lambda>rows. da_behaviorTypes_update (loadDictionary V rows)),
     (''SELECT id, description FROM dict_behavior_types2'', \<lambda>rows. da_behaviorTypes2_update (loadDictionaryVec V rows)),
     (''SELECT id, description FROM dict_type'', \<lambda>rows. da_dictTargetTypes_update (loadDictionaryVec V rows)),
     (''SELECT id, description FROM dict_sea_state'', \<lambda>rows. da_dictSeaState_update (loadDictionaryMap V rows)),
     (''SELECT id, description FROM dict_weather'', \<lambda>rows. da_dictWeatherTypes_update (loadDictionaryMap V rows)),
     (''SELECT id, description FROM dict_visible'', \<lambda>rows. da_dictVisible_update (loadDictionaryMap V rows)),
     (''SELECT id, description FROM dict_precipitation'', \<lambda>rows. da_dictPrecipitation_update (loadDictionaryMap V rows)),
     (''SELECT area_name, area_points FROM area_table WHERE group_id = 0'', \<lambda>rows. da_dictRouteFlight_update (loadDictionaryMap2 V rows)),
     (''SELECT area_id, area_name FROM area_table WHERE group_id = 0'', \<lambda>rows. da_dictRouteFlightID_update (loadDictionaryMap V rows))]"

definition loadDictionaries :: "val_env \<Rightarrow> 'd db_env \<Rightarrow> nat \<Rightarrow> 'd db_manager \<times> dal \<Rightarrow> 'd db_manager \<times> dal" where
  "loadDictionaries V E t s =
     fold (\<lambda>(sql, put) (m, D). case executeQuery E t sql [] m of (rows, m1) \<Rightarrow> (m1, put rows D)) (dictionary_loads V) s"

definition loadSensorInfo :: "val_env \<Rightarrow> 'd db_env \<Rightarrow> nat \<Rightarrow> 'd db_manager \<times> dal \<Rightarrow> 'd db_manager \<times> dal" where
  "loadSensorInfo V E t s = (case s of (m, D) \<Rightarrow> case getAllSensorInfo V E t m of (names, m1) \<Rightarrow> (m1, D\<lparr>da_sensorInfo := names\<rparr>))"

text \<open>\<open>m_sensorInfo[sensorId]\<close> and \<open>m_targetCategories[type]\<close> make an entry when there is none.\<close>

definition entry :: "'k::linorder \<Rightarrow> ('k, qstring) qmap \<Rightarrow> qstring \<times> ('k, qstring) qmap" where
  "entry k d = (case map_of d k of Some x \<Rightarrow> (x, d) | None \<Rightarrow> ([], qm_insert k [] d))"

definition getSensorName :: "int \<Rightarrow> dal \<Rightarrow> qstring \<times> dal" where
  "getSensorName k D = (case entry k (da_sensorInfo D) of (x, d) \<Rightarrow> (x, D\<lparr>da_sensorInfo := d\<rparr>))"

definition categoryName :: "int \<Rightarrow> dal \<Rightarrow> qstring \<times> dal" where
  "categoryName k D = (case entry k (da_targetCategories D) of (x, d) \<Rightarrow> (x, D\<lparr>da_targetCategories := d\<rparr>))"

text \<open>The rows of a query in order, each seeing the dictionaries the ones before it left.\<close>

fun each_row :: "('r \<Rightarrow> 's \<Rightarrow> 'a \<times> 's) \<Rightarrow> 'r list \<Rightarrow> 's \<Rightarrow> 'a list \<times> 's" where
  "each_row f [] s = ([], s)"
| "each_row f (r # rs) s = (case f r s of (x, s1) \<Rightarrow> (case each_row f rs s1 of (xs, s2) \<Rightarrow> (x # xs, s2)))"

definition with_sensor :: "val_env \<Rightarrow> (db_row \<Rightarrow> int \<Rightarrow> qstring \<Rightarrow> 'a) \<Rightarrow> db_row \<Rightarrow> dal \<Rightarrow> 'a \<times> dal" where
  "with_sensor V mk r D =
     (let sid = to_int V (by_name r ''sensor_id'') in case getSensorName sid D of (name, D1) \<Rightarrow> (mk r sid name, D1))"

definition captures :: "'d db_env \<Rightarrow> nat \<Rightarrow> string \<Rightarrow> db_variant list \<Rightarrow> (db_row \<Rightarrow> dal \<Rightarrow> 'a \<times> dal) \<Rightarrow> 'd db_manager \<times> dal
    \<Rightarrow> 'a list \<times> 'd db_manager \<times> dal" where
  "captures E t sql ps f s =
     (case s of (m, D) \<Rightarrow> case executeQuery E t sql ps m of (rows, m1) \<Rightarrow> (case each_row f rows D of (xs, D1) \<Rightarrow> (xs, m1, D1)))"

text \<open>The conversions of a value to a UUID (its text) and to bytes.\<close>

record blob_env =
  bl_uuid :: "db_value \<Rightarrow> qstring"
  bl_bytes :: "db_value \<Rightarrow> nat list"

section \<open>Pictures\<close>

record RadarEchoCollection =
  re_collectionId :: qstring
  re_sequenceNumber :: int
  re_sensorId :: int
  re_sensorName :: qstring
  re_collectionTime :: "int option"
  re_distance :: real
  re_azimuth :: real
  re_imagePath :: qstring
  re_imageBlob :: "nat list"

definition echo_columns :: "string list" where
  "echo_columns = [''collection_id'', ''sequence_number'', ''sensor_id'', ''collection_time'', ''distance'', ''azimuth'', ''image_path'', ''image_blob'']"

definition echo_values :: "RadarEchoCollection \<Rightarrow> db_variant list" where
  "echo_values c = [DvText (re_collectionId c), DvInt (re_sequenceNumber c), DvInt (re_sensorId c), DvTime (re_collectionTime c),
     DvDouble (re_distance c), DvDouble (re_azimuth c), DvText (re_imagePath c), DvBytes (re_imageBlob c)]"

definition echo_row :: "val_env \<Rightarrow> blob_env \<Rightarrow> db_row \<Rightarrow> int \<Rightarrow> qstring \<Rightarrow> RadarEchoCollection" where
  "echo_row V B r sid name = \<lparr>re_collectionId = bl_uuid B (by_name r ''collection_id''), re_sequenceNumber = to_int V (by_name r ''sequence_number''),
     re_sensorId = sid, re_sensorName = name, re_collectionTime = ve_time V (by_name r ''collection_time''),
     re_distance = to_real V (by_name r ''distance''), re_azimuth = to_real V (by_name r ''azimuth''),
     re_imagePath = to_text V (by_name r ''image_path''), re_imageBlob = bl_bytes B (by_name r ''image_blob'')\<rparr>"

definition addRadarEchoCollections :: "'d db_env \<Rightarrow> nat \<Rightarrow> RadarEchoCollection list \<Rightarrow> 'd db_manager \<Rightarrow> bool \<times> 'd db_manager" where
  "addRadarEchoCollections E t cs m = insert_each E t (named_insert ''collection_radar_echo'' echo_columns) (map echo_values cs) m"

definition getRadarEchoCollections :: "val_env \<Rightarrow> blob_env \<Rightarrow> 'd db_env \<Rightarrow> nat \<Rightarrow> int \<Rightarrow> 'd db_manager \<times> dal
    \<Rightarrow> RadarEchoCollection list \<times> 'd db_manager \<times> dal" where
  "getRadarEchoCollections V B E t targetId s =
     captures E t ''SELECT c.*, tc.sensor_id FROM collection_radar_echo c JOIN target_collection tc ON c.collection_id = tc.collection_id WHERE tc.target_id = :target_id ORDER BY c.collection_time ASC''
       [DvLongLong targetId] (with_sensor V (echo_row V B)) s"

record VideoCollection =
  vc_collectionId :: qstring
  vc_sequenceNumber :: int
  vc_sensorId :: int
  vc_sensorName :: qstring
  vc_cameraType :: int
  vc_collectionTime :: "int option"
  vc_p :: real
  vc_t :: real
  vc_z :: real
  vc_imagePath :: qstring
  vc_imageBlob :: "nat list"

definition video_columns :: "string list" where
  "video_columns = [''collection_id'', ''sequence_number'', ''sensor_id'', ''camera_type'', ''collection_time'', ''p'', ''t'', ''z'', ''image_path'', ''image_blob'']"

definition video_values :: "VideoCollection \<Rightarrow> db_variant list" where
  "video_values c = [DvText (vc_collectionId c), DvInt (vc_sequenceNumber c), DvInt (vc_sensorId c), DvInt (vc_cameraType c),
     DvTime (vc_collectionTime c), DvDouble (vc_p c), DvDouble (vc_t c), DvDouble (vc_z c), DvText (vc_imagePath c), DvBytes (vc_imageBlob c)]"

definition video_row :: "val_env \<Rightarrow> blob_env \<Rightarrow> db_row \<Rightarrow> int \<Rightarrow> qstring \<Rightarrow> VideoCollection" where
  "video_row V B r sid name = \<lparr>vc_collectionId = bl_uuid B (by_name r ''collection_id''), vc_sequenceNumber = to_int V (by_name r ''sequence_number''),
     vc_sensorId = sid, vc_sensorName = name, vc_cameraType = to_int V (by_name r ''camera_type''),
     vc_collectionTime = ve_time V (by_name r ''collection_time''), vc_p = to_real V (by_name r ''p''), vc_t = to_real V (by_name r ''t''),
     vc_z = to_real V (by_name r ''z''), vc_imagePath = to_text V (by_name r ''image_path''), vc_imageBlob = bl_bytes B (by_name r ''image_blob'')\<rparr>"

definition addVideoCollections :: "'d db_env \<Rightarrow> nat \<Rightarrow> VideoCollection list \<Rightarrow> 'd db_manager \<Rightarrow> bool \<times> 'd db_manager" where
  "addVideoCollections E t cs m = insert_each E t (named_insert ''collection_video'' video_columns) (map video_values cs) m"

definition getVideoCollectionsByCameraType :: "val_env \<Rightarrow> blob_env \<Rightarrow> 'd db_env \<Rightarrow> nat \<Rightarrow> int \<Rightarrow> int \<Rightarrow> 'd db_manager \<times> dal
    \<Rightarrow> VideoCollection list \<times> 'd db_manager \<times> dal" where
  "getVideoCollectionsByCameraType V B E t targetId cameraType s =
     captures E t ''SELECT c.*, tc.sensor_id FROM collection_video c JOIN target_collection tc ON c.collection_id = tc.collection_id WHERE tc.target_id = :target_id AND c.camera_type = :camera_type ORDER BY c.collection_time ASC''
       [DvLongLong targetId, DvInt cameraType] (with_sensor V (video_row V B)) s"

definition getVisibleLightVideoCollections :: "val_env \<Rightarrow> blob_env \<Rightarrow> 'd db_env \<Rightarrow> nat \<Rightarrow> int \<Rightarrow> 'd db_manager \<times> dal
    \<Rightarrow> VideoCollection list \<times> 'd db_manager \<times> dal" where
  "getVisibleLightVideoCollections V B E t targetId s = getVideoCollectionsByCameraType V B E t targetId 1 s"

definition getInfraredVideoCollections :: "val_env \<Rightarrow> blob_env \<Rightarrow> 'd db_env \<Rightarrow> nat \<Rightarrow> int \<Rightarrow> 'd db_manager \<times> dal
    \<Rightarrow> VideoCollection list \<times> 'd db_manager \<times> dal" where
  "getInfraredVideoCollections V B E t targetId s = getVideoCollectionsByCameraType V B E t targetId 0 s"

record PicCollection =
  pi_collectionId :: qstring
  pi_sensorId :: int
  pi_cameraType :: int
  pi_collectionTime :: "int option"
  pi_weatherId :: int
  pi_seaStateId :: int
  pi_visibleId :: int
  pi_p :: real
  pi_t :: real
  pi_z :: real
  pi_rectInfo :: qstring
  pi_imageBlob :: "nat list"

definition pic_columns :: "string list" where
  "pic_columns = [''dict_id'', ''sensor_id'', ''camera_type'', ''catch_time'', ''weather_id'', ''sea_state_id'', ''visible_id'', ''p'', ''t'', ''z'',
     ''catch_rect'', ''catch_blob'']"

definition pic_values :: "PicCollection \<Rightarrow> db_variant list" where
  "pic_values c = [DvText (pi_collectionId c), DvInt (pi_sensorId c), DvInt (pi_cameraType c), DvTime (pi_collectionTime c), DvInt (pi_weatherId c),
     DvInt (pi_seaStateId c), DvInt (pi_visibleId c), DvDouble (pi_p c), DvDouble (pi_t c), DvDouble (pi_z c), DvText (pi_rectInfo c), DvBytes (pi_imageBlob c)]"

definition addPicDict :: "'d db_env \<Rightarrow> nat \<Rightarrow> PicCollection list \<Rightarrow> 'd db_manager \<Rightarrow> bool \<times> 'd db_manager" where
  "addPicDict E t cs m = insert_each E t (named_insert ''dict_pic'' pic_columns) (map pic_values cs) m"

record SonarCollection =
  so_collectionId :: qstring
  so_sequenceNumber :: int
  so_sensorId :: int
  so_sensorName :: qstring
  so_collectionTime :: "int option"
  so_imagePath :: qstring
  so_imageBlob :: "nat list"

definition sonar_columns :: "string list" where
  "sonar_columns = [''collection_id'', ''sequence_number'', ''sensor_id'', ''collection_time'', ''image_path'', ''image_blob'']"

definition sonar_values :: "SonarCollection \<Rightarrow> db_variant list" where
  "sonar_values c = [DvText (so_collectionId c), DvInt (so_sequenceNumber c), DvInt (so_sensorId c), DvTime (so_collectionTime c),
     DvText (so_imagePath c), DvBytes (so_imageBlob c)]"

definition sonar_row :: "val_env \<Rightarrow> blob_env \<Rightarrow> db_row \<Rightarrow> int \<Rightarrow> qstring \<Rightarrow> SonarCollection" where
  "sonar_row V B r sid name = \<lparr>so_collectionId = bl_uuid B (by_name r ''collection_id''), so_sequenceNumber = to_int V (by_name r ''sequence_number''),
     so_sensorId = sid, so_sensorName = name, so_collectionTime = ve_time V (by_name r ''collection_time''),
     so_imagePath = to_text V (by_name r ''image_path''), so_imageBlob = bl_bytes B (by_name r ''image_blob'')\<rparr>"

definition addSonarCollections :: "'d db_env \<Rightarrow> nat \<Rightarrow> SonarCollection list \<Rightarrow> 'd db_manager \<Rightarrow> bool \<times> 'd db_manager" where
  "addSonarCollections E t cs m = insert_each E t (named_insert ''collection_sonar'' sonar_columns) (map sonar_values cs) m"

definition getSonarCollections :: "val_env \<Rightarrow> blob_env \<Rightarrow> 'd db_env \<Rightarrow> nat \<Rightarrow> int \<Rightarrow> 'd db_manager \<times> dal
    \<Rightarrow> SonarCollection list \<times> 'd db_manager \<times> dal" where
  "getSonarCollections V B E t targetId s =
     captures E t ''SELECT c.*, tc.sensor_id FROM collection_sonar c JOIN target_collection tc ON c.collection_id = tc.collection_id WHERE tc.target_id = :target_id ORDER BY c.collection_time ASC''
       [DvLongLong targetId] (with_sensor V (sonar_row V B)) s"

section \<open>AIS, ADS-B and tracks\<close>

record AISCollectionRecord =
  ac_collectionId :: qstring
  ac_sensorId :: int
  ac_sensorName :: qstring
  ac_sequenceNumber :: int
  ac_mmsi :: int
  ac_recordTime :: "int option"
  ac_name :: qstring
  ac_longitude :: real
  ac_latitude :: real
  ac_speed :: real
  ac_course :: real
  ac_heading :: int
  ac_imo :: int
  ac_callSign :: qstring
  ac_shipType :: int
  ac_fileName :: qstring
  ac_messageOffset :: int
  ac_messageSize :: int
  ac_waveByte :: "nat list"

definition ais_row :: "val_env \<Rightarrow> blob_env \<Rightarrow> db_row \<Rightarrow> int \<Rightarrow> qstring \<Rightarrow> AISCollectionRecord" where
  "ais_row V B r sid name =
     (let n = (\<lambda>k. to_int V (by_name r k)); d = (\<lambda>k. to_real V (by_name r k)); s = (\<lambda>k. to_text V (by_name r k)) in
      \<lparr>ac_collectionId = bl_uuid B (by_name r ''collection_id''), ac_sensorId = sid, ac_sensorName = name, ac_sequenceNumber = n ''sequence_number'',
       ac_mmsi = n ''mmsi'', ac_recordTime = ve_time V (by_name r ''record_time''), ac_name = s ''name'', ac_longitude = d ''longitude'',
       ac_latitude = d ''latitude'', ac_speed = d ''speed'', ac_course = d ''course'', ac_heading = n ''heading'', ac_imo = n ''imo'',
       ac_callSign = s ''call_sign'', ac_shipType = n ''ship_type'', ac_fileName = s ''file_name'', ac_messageOffset = n ''message_offset'',
       ac_messageSize = n ''message_size'', ac_waveByte = bl_bytes B (by_name r ''wave_byte'')\<rparr>)"

definition capture_sql :: "string \<Rightarrow> string" where
  "capture_sql table = ''SELECT c.* FROM '' @ table @ '' c JOIN target_collection tc ON c.collection_id = tc.collection_id WHERE tc.target_id = :target_id ORDER BY c.record_time ASC''"

definition getAISCollections :: "val_env \<Rightarrow> blob_env \<Rightarrow> 'd db_env \<Rightarrow> nat \<Rightarrow> int \<Rightarrow> 'd db_manager \<times> dal
    \<Rightarrow> AISCollectionRecord list \<times> 'd db_manager \<times> dal" where
  "getAISCollections V B E t targetId s = captures E t (capture_sql ''collection_ais'') [DvLongLong targetId] (with_sensor V (ais_row V B)) s"

record ADSBCollectionRecord =
  ad_collectionId :: qstring
  ad_sensorId :: int
  ad_sensorName :: qstring
  ad_sequenceNumber :: int
  ad_icao :: qstring
  ad_recordTime :: "int option"
  ad_longitude :: real
  ad_latitude :: real
  ad_altitude :: real

definition adsb_row :: "val_env \<Rightarrow> blob_env \<Rightarrow> db_row \<Rightarrow> int \<Rightarrow> qstring \<Rightarrow> ADSBCollectionRecord" where
  "adsb_row V B r sid name = \<lparr>ad_collectionId = bl_uuid B (by_name r ''collection_id''), ad_sensorId = sid, ad_sensorName = name,
     ad_sequenceNumber = to_int V (by_name r ''sequence_number''), ad_icao = to_text V (by_name r ''icao''),
     ad_recordTime = ve_time V (by_name r ''record_time''), ad_longitude = to_real V (by_name r ''longitude''),
     ad_latitude = to_real V (by_name r ''latitude''), ad_altitude = to_real V (by_name r ''altitude'')\<rparr>"

definition getADSBCollections :: "val_env \<Rightarrow> blob_env \<Rightarrow> 'd db_env \<Rightarrow> nat \<Rightarrow> int \<Rightarrow> 'd db_manager \<times> dal
    \<Rightarrow> ADSBCollectionRecord list \<times> 'd db_manager \<times> dal" where
  "getADSBCollections V B E t targetId s = captures E t (capture_sql ''collection_adsb'') [DvLongLong targetId] (with_sensor V (adsb_row V B)) s"

record TrackInfo =
  tk_trackId :: int
  tk_sequenceNumber :: int
  tk_recordTime :: "int option"
  tk_distance :: real
  tk_azimuth :: real
  tk_speed :: real
  tk_course :: real
  tk_size :: real
  tk_longitude :: real
  tk_latitude :: real
  tk_cpa :: real
  tk_tcpa :: real

record TrackCollectionRecord =
  tr_collectionId :: qstring
  tr_sensorId :: int
  tr_sensorName :: qstring
  tr_collectionTime :: "int option"
  tr_isFused :: bool
  tr_tracks :: "TrackInfo list"

definition track_point :: "val_env \<Rightarrow> db_row \<Rightarrow> TrackInfo" where
  "track_point V r =
     (let d = (\<lambda>k. to_real V (by_name r k)) in
      \<lparr>tk_trackId = to_long V (by_name r ''track_id''), tk_sequenceNumber = to_int V (by_name r ''sequence_number''),
       tk_recordTime = ve_time V (by_name r ''record_time''), tk_distance = d ''distance'', tk_azimuth = d ''azimuth'', tk_speed = d ''speed'',
       tk_course = d ''course'', tk_size = d ''size'', tk_longitude = d ''longitude'', tk_latitude = d ''latitude'', tk_cpa = d ''cpa'',
       tk_tcpa = d ''tcpa''\<rparr>)"

text \<open>
  The rows are collected under their UUID; the sensor's name is looked up for the first one.  Keys are in the order of their texts, which is
  that of \<open>QUuid\<close> for UUIDs of one variant.
\<close>

definition track_step :: "val_env \<Rightarrow> blob_env \<Rightarrow> db_row \<Rightarrow> (qstring, TrackCollectionRecord) qmap \<times> dal \<Rightarrow> (qstring, TrackCollectionRecord) qmap \<times> dal" where
  "track_step V B r s =
     (case s of (mp, D) \<Rightarrow>
        let k = bl_uuid B (by_name r ''collection_id'');
            (c, D1) = (case map_of mp k of
                Some c \<Rightarrow> (c, D)
              | None \<Rightarrow> with_sensor V (\<lambda>r sid name. \<lparr>tr_collectionId = k, tr_sensorId = sid, tr_sensorName = name,
                    tr_collectionTime = ve_time V (by_name r ''record_time''), tr_isFused = False, tr_tracks = []\<rparr>) r D);
            c1 = c\<lparr>tr_tracks := tr_tracks c @ [track_point V r]\<rparr>
        in (qm_insert k (if to_bool V (by_name r ''is_fused'') then c1\<lparr>tr_isFused := True\<rparr> else c1) mp, D1))"

definition getTrackCollections :: "val_env \<Rightarrow> blob_env \<Rightarrow> 'd db_env \<Rightarrow> nat \<Rightarrow> int \<Rightarrow> 'd db_manager \<times> dal
    \<Rightarrow> TrackCollectionRecord list \<times> 'd db_manager \<times> dal" where
  "getTrackCollections V B E t targetId s =
     (case s of (m, D) \<Rightarrow> case executeQuery E t (capture_sql ''collection_track'') [DvLongLong targetId] m of
        (rows, m1) \<Rightarrow> (case fold (track_step V B) rows ([], D) of (mp, D1) \<Rightarrow> (map snd mp, m1, D1)))"

section \<open>Deleting captures\<close>

definition deleteRadarEchoRecord :: "'d db_env \<Rightarrow> nat \<Rightarrow> qstring \<Rightarrow> int \<Rightarrow> 'd db_manager \<Rightarrow> bool \<times> 'd db_manager" where
  "deleteRadarEchoRecord E t c n m = executeNonQuery E t (named_delete ''collection_radar_echo'' [''collection_id'', ''sequence_number'']) [DvText c, DvInt n] m"

definition deleteVideoRecord :: "'d db_env \<Rightarrow> nat \<Rightarrow> qstring \<Rightarrow> int \<Rightarrow> int \<Rightarrow> 'd db_manager \<Rightarrow> bool \<times> 'd db_manager" where
  "deleteVideoRecord E t c n camera m =
     executeNonQuery E t (named_delete ''collection_video'' [''collection_id'', ''sequence_number'', ''camera_type'']) [DvText c, DvInt n, DvInt camera] m"

definition deleteSonarRecord :: "'d db_env \<Rightarrow> nat \<Rightarrow> qstring \<Rightarrow> int \<Rightarrow> 'd db_manager \<Rightarrow> bool \<times> 'd db_manager" where
  "deleteSonarRecord E t c n m = executeNonQuery E t (named_delete ''collection_sonar'' [''collection_id'', ''sequence_number'']) [DvText c, DvInt n] m"

definition deleteAISRecord :: "'d db_env \<Rightarrow> nat \<Rightarrow> qstring \<Rightarrow> int \<Rightarrow> 'd db_manager \<Rightarrow> bool \<times> 'd db_manager" where
  "deleteAISRecord E t c n m = executeNonQuery E t (named_delete ''collection_ais'' [''collection_id'', ''sequence_number'']) [DvText c, DvInt n] m"

definition deleteTrackRecords :: "'d db_env \<Rightarrow> nat \<Rightarrow> qstring \<Rightarrow> 'd db_manager \<Rightarrow> bool \<times> 'd db_manager" where
  "deleteTrackRecords E t c m = executeNonQuery E t (named_delete ''collection_track'' [''collection_id'']) [DvText c] m"

definition deleteADSBRecord :: "'d db_env \<Rightarrow> nat \<Rightarrow> qstring \<Rightarrow> int \<Rightarrow> 'd db_manager \<Rightarrow> bool \<times> 'd db_manager" where
  "deleteADSBRecord E t c n m = executeNonQuery E t (named_delete ''collection_adsb'' [''collection_id'', ''sequence_number'']) [DvText c, DvInt n] m"

section \<open>What is known of a target\<close>

text \<open>The fields of \<open>CaptureTargetItem\<close> that are set; \<open>unset\<close> is what the memory of a new one holds.\<close>

record CaptureTargetItem =
  ci_type :: int
  ci_id :: int
  ci_name :: qstring
  ci_typeName :: qstring
  ci_captureTime :: "int option"
  ci_isRealTime :: bool

definition capture_item :: "val_env \<Rightarrow> db_row \<Rightarrow> dal \<Rightarrow> CaptureTargetItem \<times> dal" where
  "capture_item V r D =
     (let ty = to_int V (by_name r ''target_type'') in
      case categoryName ty D of
        (name, D1) \<Rightarrow> (\<lparr>ci_type = ty, ci_id = to_long V (by_name r ''target_id''), ci_name = to_text V (by_name r ''target_name''), ci_typeName = name,
           ci_captureTime = ve_time V (by_name r ''last_collection_time''), ci_isRealTime = False\<rparr>, D1))"

definition capture_info_sql :: "string \<Rightarrow> string \<Rightarrow> string" where
  "capture_info_sql condition groups =
     ''SELECT ti.target_id, ti.target_name, ti.target_type, tcs.radar_echo_collections, tcs.visible_light_collections, tcs.infrared_collections, tcs.sonar_collections, tcs.ais_collections, tcs.track_collections, tcs.adsb_collections, MAX(tc.collection_time) as last_collection_time FROM target_info ti LEFT JOIN target_collection_stats tcs ON ti.target_id = tcs.target_id LEFT JOIN target_collection tc ON ti.target_id = tc.target_id ''
       @ condition @ ''GROUP BY ti.target_id, '' @ groups @
     ''tcs.total_collections, tcs.radar_echo_collections, tcs.visible_light_collections, tcs.infrared_collections, tcs.sonar_collections, tcs.ais_collections, tcs.track_collections, tcs.adsb_collections''"

definition ship_file_sql :: string where
  "ship_file_sql = ''SELECT* FROM mmsi_info WHERE mmsi = :target_id''"

definition getTargetCaptureInfo :: "val_env \<Rightarrow> CaptureTargetItem \<Rightarrow> 'd db_env \<Rightarrow> nat \<Rightarrow> int \<Rightarrow> 'd db_manager \<times> dal
    \<Rightarrow> CaptureTargetItem \<times> 'd db_manager \<times> dal" where
  "getTargetCaptureInfo V unset E t targetId s =
     (case s of (m, D) \<Rightarrow> case executeQuery E t (capture_info_sql ''WHERE ti.target_id = :target_id '' []) [DvLongLong targetId] m of
        (rows, m1) \<Rightarrow>
          (case (case rows of r # rs \<Rightarrow> capture_item V r D | [] \<Rightarrow> (unset\<lparr>ci_name := [], ci_typeName := [], ci_captureTime := None\<rparr>, D)) of
             (item, D1) \<Rightarrow> (item, snd (executeQuery E t ship_file_sql [DvLongLong targetId] m1), D1)))"

definition getAllTargetCaptureInfo :: "val_env \<Rightarrow> 'd db_env \<Rightarrow> nat \<Rightarrow> 'd db_manager \<times> dal \<Rightarrow> (int, CaptureTargetItem) qmap \<times> 'd db_manager \<times> dal" where
  "getAllTargetCaptureInfo V E t s =
     (case s of (m, D) \<Rightarrow> case executeQuery E t (capture_info_sql [] ''ti.target_name, ti.target_type, '') [] m of
        (rows, m1) \<Rightarrow> fold (\<lambda>r (mp, m2, D2). case capture_item V r D2 of
            (item, D3) \<Rightarrow> (qm_insert (ci_id item) item mp, snd (executeQuery E t ship_file_sql [DvLongLong (ci_id item)] m2), D3)) rows ([], m1, D))"

text \<open>
  \<open>convertToDegreeMinute\<close>: whole degrees, whole minutes, and the rest of the minute in thousandths, rounded; 176 is the sign of the degree,
  8242 that of the minute.  The conversions to \<open>int\<close> are exact below \<open>2^31\<close>.
\<close>

definition degree_parts :: "real \<Rightarrow> int \<times> int \<times> int" where
  "degree_parts x =
     (let c = \<bar>x\<bar>; d = \<lfloor>c\<rfloor>; minutes = (c - of_int d) * 60; mi = \<lfloor>minutes\<rfloor> in (d, mi, qRound ((minutes - of_int mi) * 1000)))"

definition padded :: "nat \<Rightarrow> int \<Rightarrow> qstring" where
  "padded n i = (let s = dec_int i in qs (replicate (n - length s) CHR ''0'' @ s))"

definition convertToDegreeMinute :: "real \<Rightarrow> qstring" where
  "convertToDegreeMinute x =
     (case degree_parts x of (d, mi, fr) \<Rightarrow> qs (if x < 0 then ''-'' else []) @ qs (dec_int d) @ [176] @ padded 2 mi @ qs ''.'' @ padded 3 fr @ [8242])"

record TargetRealtimeInfo =
  rt_targetId :: int
  rt_targetName :: qstring
  rt_targetType :: qstring
  rt_longitude :: real
  rt_latitude :: real
  rt_strLon :: qstring
  rt_strLat :: qstring
  rt_distanceNm :: real
  rt_directionDeg :: real
  rt_speed :: real
  rt_course :: real
  rt_recordTime :: "int option"

definition realtime_sql :: string where
  "realtime_sql = ''WITH latest_track AS (     SELECT ct.*     FROM collection_track ct     JOIN target_collection tc ON ct.collection_id = tc.collection_id     WHERE tc.target_id = :target_id     ORDER BY ct.record_time DESC     LIMIT 1 ), latest_ais AS (     SELECT ca.*     FROM collection_ais ca     JOIN target_collection tc ON ca.collection_id = tc.collection_id     WHERE tc.target_id = :target_id     ORDER BY ca.record_time DESC     LIMIT 1 ) SELECT COALESCE(lt.longitude, la.longitude) AS longitude,        COALESCE(lt.latitude, la.latitude) AS latitude,        COALESCE(lt.distance, 0) AS distance,        COALESCE(lt.azimuth, 0) AS direction,        COALESCE(lt.speed, la.speed) AS speed,        COALESCE(lt.course, la.course) AS course,        COALESCE(lt.record_time, la.record_time) AS record_time FROM latest_track lt FULL OUTER JOIN latest_ais la ON 1=1 ORDER BY COALESCE(lt.record_time, la.record_time) DESC LIMIT 1''"

definition getTargetRealtimeInfo :: "val_env \<Rightarrow> int \<Rightarrow> 'd db_env \<Rightarrow> nat \<Rightarrow> int \<Rightarrow> 'd db_manager \<Rightarrow> TargetRealtimeInfo \<times> 'd db_manager" where
  "getTargetRealtimeInfo V now E t targetId m =
     reading E t realtime_sql [DvLongLong targetId, DvLongLong targetId]
       (\<lambda>rows. let info = \<lparr>rt_targetId = targetId, rt_targetName = [], rt_targetType = [], rt_longitude = 0, rt_latitude = 0, rt_strLon = [],
            rt_strLat = [], rt_distanceNm = 0, rt_directionDeg = 0, rt_speed = 0, rt_course = 0, rt_recordTime = Some now\<rparr> in
          case rows of
            r # rs \<Rightarrow>
              (let d = (\<lambda>k. to_real V (by_name r k)) in
               info\<lparr>rt_longitude := d ''longitude'', rt_latitude := d ''latitude'', rt_strLon := convertToDegreeMinute (d ''longitude''),
                 rt_strLat := convertToDegreeMinute (d ''latitude''), rt_distanceNm := d ''distance'' * (539957 / 1000000000),
                 rt_directionDeg := d ''direction'', rt_speed := d ''speed'', rt_course := d ''course'',
                 rt_recordTime := ve_time V (by_name r ''record_time'')\<rparr>)
          | [] \<Rightarrow> info) m"

section \<open>The task history\<close>

text \<open>A time is printed again, or kept as text when it is no time.\<close>

record CollectionTaskHistoryInfo =
  ht_taskName :: qstring
  ht_collector :: qstring
  ht_collectionTime :: qstring
  ht_collectionDuration :: int
  ht_collectionStatus :: qstring

definition history_columns :: "string list" where
  "history_columns = [''task_name'', ''collector'', ''collection_time'', ''collection_duration'', ''collection_status'']"

definition addCollectionTaskHistoryInfo :: "'d db_env \<Rightarrow> nat \<Rightarrow> CollectionTaskHistoryInfo \<Rightarrow> 'd db_manager \<Rightarrow> bool \<times> 'd db_manager" where
  "addCollectionTaskHistoryInfo E t h m =
     executeNonQuery E t (''INSERT INTO collection_history ('' @ join_sql '', '' history_columns @ '') VALUES('' @ join_sql '', '' (map (\<lambda>c. ''?'') history_columns) @ '')'')
       [DvText (ht_taskName h), DvText (ht_collector h), DvText (ht_collectionTime h), DvInt (ht_collectionDuration h), DvText (ht_collectionStatus h)] m"

definition getAllCollectionTaskHistoryInfo :: "val_env \<Rightarrow> (db_value \<Rightarrow> bool) \<Rightarrow> (int option \<Rightarrow> qstring) \<Rightarrow> 'd db_env \<Rightarrow> nat \<Rightarrow> 'd db_manager
    \<Rightarrow> CollectionTaskHistoryInfo list \<times> 'd db_manager" where
  "getAllCollectionTaskHistoryInfo V isTime showTime E t m =
     reading E t (''SELECT '' @ join_sql '', '' history_columns @ '' FROM collection_history'') [] (map (\<lambda>r.
       \<lparr>ht_taskName = to_text V (by_name r ''task_name''), ht_collector = to_text V (by_name r ''collector''),
        ht_collectionTime = (let v = by_name r ''collection_time'' in if isTime v then showTime (ve_time V v) else to_text V v),
        ht_collectionDuration = to_int V (by_name r ''collection_duration''), ht_collectionStatus = to_text V (by_name r ''collection_status'')\<rparr>)) m"

section \<open>The placeholders in the default mode\<close>

text \<open>The server refuses parameters for which the statement has no place, and commits nothing then.\<close>

definition places_law :: "'d pg_env \<Rightarrow> ('d \<Rightarrow> 'v) \<Rightarrow> bool" where
  "places_law E committed \<longleftrightarrow>
     (\<forall>c d sql ps. CHR ''$'' \<notin> set sql \<and> ps \<noteq> [] \<longrightarrow> fst (pe_exec E c sql ps d) = Failed \<and> committed (snd (pe_exec E c sql ps d)) = committed d)"

definition no_places :: "string \<Rightarrow> bool" where
  "no_places sql \<longleftrightarrow> CHR ''$'' \<notin> set sql \<and> CHR ''?'' \<notin> set sql"

lemma no_places_append [simp]: "no_places (xs @ ys) \<longleftrightarrow> no_places xs \<and> no_places ys" "no_places (c # cs) \<longleftrightarrow> c \<noteq> CHR ''$'' \<and> c \<noteq> CHR ''?'' \<and> no_places cs"
  "no_places []"
  by (auto simp: no_places_def)

lemma no_places_join: "no_places sep \<Longrightarrow> list_all no_places xs \<Longrightarrow> no_places (join_sql sep xs)"
  by (induction sep xs rule: join_sql.induct) auto

lemma no_places_named:
  "no_places table \<Longrightarrow> list_all no_places cols \<Longrightarrow> no_places (named_insert table cols)"
  "no_places table \<Longrightarrow> list_all no_places cols \<Longrightarrow> no_places (named_delete table cols)"
  unfolding named_insert_def named_delete_def no_places_append
  by (auto intro!: no_places_join simp: list_all_iff named_def)

lemma unplaced_statement:
  assumes "places_law (en_pg E) committed" "useLibpq m" "no_places sql" "ps \<noteq> []"
  shows "\<not> fst (executeNonQuery E t sql ps m) \<and> committed (server_data (snd (executeNonQuery E t sql ps m))) = committed (server_data m) \<and>
      useLibpq (snd (executeNonQuery E t sql ps m))"
    "fst (executeQuery E t sql ps m) = [] \<and> committed (server_data (snd (executeQuery E t sql ps m))) = committed (server_data m) \<and>
      useLibpq (snd (executeQuery E t sql ps m))"
proof -
  let ?ws = "sent (prepareParams (pe_double (en_pg E)) (map (toPgParam (en_qt E)) ps))"
  have "length ?ws = length ps" using prepared_params[of "pe_double (en_pg E)" "map (toPgParam (en_qt E)) ps"] by simp
  then have ws: "?ws \<noteq> []" using assms(4) by auto
  have sql: "convertQtPlaceholders sql = sql" using conjunct2[OF numbered_placeholders[of sql]] assms(3) unfolding no_places_def by blast
  have bad: "fst (pe_exec (en_pg E) c sql ?ws d) = Failed" "committed (snd (pe_exec (en_pg E) c sql ?ws d)) = committed d" for c d
    using assms(1,3) ws by (simp_all add: places_law_def no_places_def)
  have intern: "executeInternal (en_pg E) c sql (map (toPgParam (en_qt E)) ps) s = (None, s\<lparr>pg_db := snd (pe_exec (en_pg E) c sql ?ws (pg_db s))\<rparr>)" for c s
    using bad(1)[of c "pg_db s"] by (cases "pe_exec (en_pg E) c sql ?ws (pg_db s)") (simp add: executeInternal_def)
  note conn = getConnection_results(2)[of "en_pg E"]
  have outside: "\<not> fst (pg_executeNonQuery (en_pg E) sql (map (toPgParam (en_qt E)) ps) s) \<and>
      committed (pg_db (snd (pg_executeNonQuery (en_pg E) sql (map (toPgParam (en_qt E)) ps) s))) = committed (pg_db s)"
    "fst (pg_executeQuery (en_pg E) sql (map (toPgParam (en_qt E)) ps) s) = [] \<and>
      committed (pg_db (snd (pg_executeQuery (en_pg E) sql (map (toPgParam (en_qt E)) ps) s))) = committed (pg_db s)" for s
    using conn[of s] by (auto simp: pg_executeNonQuery_def pg_executeQuery_def intern bad(2) split: prod.splits option.splits)
  have inside: "\<not> fst (executeNonQueryInTransaction (en_pg E) tx sql (map (toPgParam (en_qt E)) ps) s) \<and>
      committed (pg_db (snd (executeNonQueryInTransaction (en_pg E) tx sql (map (toPgParam (en_qt E)) ps) s))) = committed (pg_db s)"
    "fst (executeQueryInTransaction (en_pg E) tx sql (map (toPgParam (en_qt E)) ps) s) = [] \<and>
      committed (pg_db (snd (executeQueryInTransaction (en_pg E) tx sql (map (toPgParam (en_qt E)) ps) s))) = committed (pg_db s)" for tx s
    by (auto simp: executeNonQueryInTransaction_def executeQueryInTransaction_def intern bad(2) split: prod.splits option.splits bool.splits)
  show "\<not> fst (executeNonQuery E t sql ps m) \<and> committed (server_data (snd (executeNonQuery E t sql ps m))) = committed (server_data m) \<and>
      useLibpq (snd (executeNonQuery E t sql ps m))"
    using assms(2) outside(1)[of "pq_pg (dm_pgqt m)"] inside(1)[of "pq_slot (dm_pgqt m) t" "pq_pg (dm_pgqt m)"]
    by (auto simp: executeNonQuery_def pgqt_executeNonQuery_def useLibpq_def sql Let_def split: prod.splits)
  show "fst (executeQuery E t sql ps m) = [] \<and> committed (server_data (snd (executeQuery E t sql ps m))) = committed (server_data m) \<and>
      useLibpq (snd (executeQuery E t sql ps m))"
    using assms(2) outside(2)[of "pq_pg (dm_pgqt m)"] inside(2)[of "pq_slot (dm_pgqt m) t" "pq_pg (dm_pgqt m)"]
    by (auto simp: executeQuery_def pgqt_executeQuery_def useLibpq_def sql Let_def materializeRowsToSqlQuery_def table_rows_def split: prod.splits)
qed

lemma insert_each_unplaced:
  assumes "places_law (en_pg E) committed" "useLibpq m" "no_places sql" "[] \<notin> set pss" "pss \<noteq> []"
  shows "\<not> fst (insert_each E t sql pss m) \<and> committed (server_data (snd (insert_each E t sql pss m))) = committed (server_data m)"
proof -
  have kept: "committed (server_data (snd (insert_each E t sql pss m))) = committed (server_data m)" if "useLibpq m" "[] \<notin> set pss" for pss m
    using that
  proof (induction pss arbitrary: m)
    case (Cons ps pss)
    note one = unplaced_statement(1)[OF assms(1) Cons.prems(1) assms(3), of ps t]
    show ?case using Cons.IH[of "snd (executeNonQuery E t sql ps m)"] Cons.prems one by (auto split: prod.splits)
  qed simp
  obtain ps rest where pss: "pss = ps # rest" using assms(5) by (cases pss) auto
  have "\<not> fst (insert_each E t sql pss m)"
    using unplaced_statement(1)[OF assms(1-3), of ps t] assms(4) pss by (auto split: prod.splits)
  then show ?thesis using kept[OF assms(2,4)] by simp
qed

lemma no_places_columns:
  "list_all no_places echo_columns" "list_all no_places video_columns" "list_all no_places pic_columns" "list_all no_places sonar_columns"
  by (simp_all add: echo_columns_def video_columns_def pic_columns_def sonar_columns_def)

text \<open>
  In the default mode none of the capture functions does anything: their placeholders are names, which reach the server unconverted, so that every
  insertion and deletion fails and leaves the data as they are, and no capture is ever found.
\<close>
theorem captures_never_stored:
  assumes "places_law (en_pg E) committed" "useLibpq m" "es \<noteq> []" "vs \<noteq> []" "ps \<noteq> []" "ss \<noteq> []"
  shows "fst ` {addRadarEchoCollections E t es m, addVideoCollections E t vs m, addPicDict E t ps m, addSonarCollections E t ss m,
      deleteRadarEchoRecord E t c n m, deleteVideoRecord E t c n k m, deleteSonarRecord E t c n m, deleteAISRecord E t c n m,
      deleteTrackRecords E t c m, deleteADSBRecord E t c n m} = {False} \<and>
    (\<lambda>r. committed (server_data (snd r))) ` {addRadarEchoCollections E t es m, addVideoCollections E t vs m, addPicDict E t ps m, addSonarCollections E t ss m,
      deleteRadarEchoRecord E t c n m, deleteVideoRecord E t c n k m, deleteSonarRecord E t c n m, deleteAISRecord E t c n m,
      deleteTrackRecords E t c m, deleteADSBRecord E t c n m} = {committed (server_data m)} \<and>
    fst (getRadarEchoCollections V B E t i (m, D)) = [] \<and> fst (getVideoCollectionsByCameraType V B E t i k (m, D)) = [] \<and>
    fst (getSonarCollections V B E t i (m, D)) = [] \<and> fst (getAISCollections V B E t i (m, D)) = [] \<and>
    fst (getADSBCollections V B E t i (m, D)) = [] \<and> fst (getTrackCollections V B E t i (m, D)) = []"
proof -
  have vals: "[] \<notin> set (map echo_values es)" "[] \<notin> set (map video_values vs)" "[] \<notin> set (map pic_values ps)" "[] \<notin> set (map sonar_values ss)"
    by (auto simp: echo_values_def video_values_def pic_values_def sonar_values_def)
  have add: "\<not> fst (insert_each E t (named_insert table cols) pss m) \<and>
      committed (server_data (snd (insert_each E t (named_insert table cols) pss m))) = committed (server_data m)"
    if "no_places table" "list_all no_places cols" "[] \<notin> set pss" "pss \<noteq> []" for table cols pss
    using insert_each_unplaced[OF assms(1,2) no_places_named(1)[OF that(1,2)] that(3,4)] .
  have del: "\<not> fst (executeNonQuery E t (named_delete table cols) qs m) \<and>
      committed (server_data (snd (executeNonQuery E t (named_delete table cols) qs m))) = committed (server_data m)"
    if "no_places table" "list_all no_places cols" "qs \<noteq> []" for table cols qs
    using unplaced_statement(1)[OF assms(1,2) no_places_named(2)[OF that(1,2)] that(3)] by blast
  have none: "fst (executeQuery E t sql qs m) = []" if "no_places sql" "qs \<noteq> []" for sql qs
    using unplaced_statement(2)[OF assms(1,2) that] by blast
  have empty: "fst (captures E t sql qs f (m, D)) = []" if "no_places sql" "qs \<noteq> []" for sql qs and f :: "db_row \<Rightarrow> dal \<Rightarrow> 'x \<times> dal"
    using none[OF that] by (cases "executeQuery E t sql qs m") (simp add: captures_def)
  note adds = add[OF _ no_places_columns(1) vals(1)] add[OF _ no_places_columns(2) vals(2)] add[OF _ no_places_columns(3) vals(3)]
    add[OF _ no_places_columns(4) vals(4)]
  have stored: "r \<in> {addRadarEchoCollections E t es m, addVideoCollections E t vs m, addPicDict E t ps m, addSonarCollections E t ss m,
      deleteRadarEchoRecord E t c n m, deleteVideoRecord E t c n k m, deleteSonarRecord E t c n m, deleteAISRecord E t c n m,
      deleteTrackRecords E t c m, deleteADSBRecord E t c n m} \<Longrightarrow> \<not> fst r \<and> committed (server_data (snd r)) = committed (server_data m)" for r
    using assms(3-6) adds(1)[of "''collection_radar_echo''"] adds(2)[of "''collection_video''"] adds(3)[of "''dict_pic''"] adds(4)[of "''collection_sonar''"]
      del[of "''collection_radar_echo''" "[''collection_id'', ''sequence_number'']" "[DvText c, DvInt n]"]
      del[of "''collection_video''" "[''collection_id'', ''sequence_number'', ''camera_type'']" "[DvText c, DvInt n, DvInt k]"]
      del[of "''collection_sonar''" "[''collection_id'', ''sequence_number'']" "[DvText c, DvInt n]"]
      del[of "''collection_ais''" "[''collection_id'', ''sequence_number'']" "[DvText c, DvInt n]"]
      del[of "''collection_track''" "[''collection_id'']" "[DvText c]"]
      del[of "''collection_adsb''" "[''collection_id'', ''sequence_number'']" "[DvText c, DvInt n]"]
    unfolding addRadarEchoCollections_def addVideoCollections_def addPicDict_def addSonarCollections_def deleteRadarEchoRecord_def deleteVideoRecord_def
      deleteSonarRecord_def deleteAISRecord_def deleteTrackRecords_def deleteADSBRecord_def
    by auto
  have found: "fst (getRadarEchoCollections V B E t i (m, D)) = [] \<and> fst (getVideoCollectionsByCameraType V B E t i k (m, D)) = [] \<and>
      fst (getSonarCollections V B E t i (m, D)) = [] \<and> fst (getAISCollections V B E t i (m, D)) = [] \<and>
      fst (getADSBCollections V B E t i (m, D)) = []"
    unfolding getRadarEchoCollections_def getVideoCollectionsByCameraType_def getSonarCollections_def getAISCollections_def getADSBCollections_def
      capture_sql_def by (simp add: empty)
  have tracks: "fst (getTrackCollections V B E t i (m, D)) = []"
    using none[of "capture_sql ''collection_track''" "[DvLongLong i]"]
    by (cases "executeQuery E t (capture_sql ''collection_track'') [DvLongLong i] m") (simp add: getTrackCollections_def, simp add: capture_sql_def)
  show ?thesis using stored found tracks by auto
qed

definition places_env :: "(nat \<times> nat option) db_env" where
  "places_env = (refusing_env (\<lambda>sql. False))\<lparr>en_pg := (en_pg (refusing_env (\<lambda>sql. False)))\<lparr>pe_exec := (\<lambda>c sql ps d.
     if ps \<noteq> [] \<and> CHR ''$'' \<notin> set sql then (Failed, d) else refusing_exec (\<lambda>sql. False) c sql ps d)\<rparr>\<rparr>"

lemma places_env_law: "places_law (en_pg places_env) fst"
  by (simp add: places_law_def places_env_def)

definition some_dal :: dal where
  "some_dal = \<lparr>da_targetCategories = [], da_modalityTypes = [], da_collectionMethods = [], da_behaviorTypes = [], da_behaviorTypes2 = [],
     da_dictTargetTypes = [], da_dictSeaState = [], da_dictWeatherTypes = [], da_dictVisible = [], da_dictPrecipitation = [],
     da_dictRouteFlight = [], da_dictRouteFlightID = [], da_sensorInfo = []\<rparr>"

definition some_echo :: RadarEchoCollection where
  "some_echo = \<lparr>re_collectionId = [], re_sequenceNumber = 0, re_sensorId = 0, re_sensorName = [], re_collectionTime = None, re_distance = 0,
     re_azimuth = 0, re_imagePath = [], re_imageBlob = []\<rparr>"

definition no_blobs :: blob_env where
  "no_blobs = \<lparr>bl_uuid = (\<lambda>v. []), bl_bytes = (\<lambda>v. [])\<rparr>"

theorem captures_never_stored_witness:
  "\<not> fst (addRadarEchoCollections places_env 0 [some_echo] refusing_manager) \<and>
   fst (getTrackCollections typed_env no_blobs places_env 0 7 (refusing_manager, some_dal)) = []"
proof -
  have "useLibpq refusing_manager" by (simp add: useLibpq_def refusing_manager_def)
  from captures_never_stored[OF places_env_law this, of "[some_echo]" "[undefined]" "[undefined]" "[undefined]"] show ?thesis by simp
qed

section \<open>Reloading the dictionaries\<close>

lemma inserted_lookup:
  "map_of (fold (\<lambda>x. qm_insert (f x) (g x)) xs d) k = (case map_of (rev (map (\<lambda>x. (f x, g x)) xs)) k of Some v \<Rightarrow> Some v | None \<Rightarrow> map_of d k)"
  by (induction xs arbitrary: d) (auto simp: map_add_def split: option.splits)

lemma inserted_twice: "map_of (fold (\<lambda>x. qm_insert (f x) (g x)) xs (fold (\<lambda>x. qm_insert (f x) (g x)) xs d)) = map_of (fold (\<lambda>x. qm_insert (f x) (g x)) xs d)"
  by (rule ext) (simp only: inserted_lookup split: option.splits, simp)

lemma loadDictionaries_answers:
  assumes "\<forall>sql. \<forall>m \<in> M. fst (executeQuery E t sql [] m) = A sql \<and> snd (executeQuery E t sql [] m) \<in> M" "m \<in> M"
  shows "snd (loadDictionaries V E t (m, D)) = fold (\<lambda>(sql, put). put (A sql)) (dictionary_loads V) D \<and> fst (loadDictionaries V E t (m, D)) \<in> M"
proof -
  let ?f = "\<lambda>(sql, put) (m, D). case executeQuery E t sql [] m of (rows, m1) \<Rightarrow> (m1, put rows D)"
  have "snd (fold ?f xs (m, D)) = fold (\<lambda>(sql, put). put (A sql)) xs D \<and> fst (fold ?f xs (m, D)) \<in> M" for xs
    using assms(2)
  proof (induction xs arbitrary: m D)
    case (Cons x xs)
    obtain sql put where x: "x = (sql, put)" by (cases x)
    obtain m1 where "executeQuery E t sql [] m = (A sql, m1)" "m1 \<in> M" using assms(1) Cons.prems by (metis prod.collapse)
    then show ?case using Cons.IH[of m1 "put (A sql) D"] x by simp
  qed simp
  then show ?thesis by (simp add: loadDictionaries_def)
qed

text \<open>
  A second loading of the dictionaries, while the queries give the same answers (in the states M), changes no map but appends the two lists again: every type is
  offered twice, after n loadings n times.
\<close>
theorem reload_doubles_lists:
  assumes "\<forall>sql. \<forall>m \<in> M. fst (executeQuery E t sql [] m) = A sql \<and> snd (executeQuery E t sql [] m) \<in> M" "m \<in> M"
    "s1 = loadDictionaries V E t (m, D)" "s2 = loadDictionaries V E t s1"
  shows "da_dictTargetTypes (snd s2) = da_dictTargetTypes (snd s1) @ map (\<lambda>r. to_text V (by_index r 1)) (A ''SELECT id, description FROM dict_type'') \<and>
    da_behaviorTypes2 (snd s2) = da_behaviorTypes2 (snd s1) @ map (\<lambda>r. to_text V (by_index r 1)) (A ''SELECT id, description FROM dict_behavior_types2'') \<and>
    map_of (da_targetCategories (snd s2)) = map_of (da_targetCategories (snd s1)) \<and> map_of (da_modalityTypes (snd s2)) = map_of (da_modalityTypes (snd s1)) \<and>
    map_of (da_collectionMethods (snd s2)) = map_of (da_collectionMethods (snd s1)) \<and> map_of (da_behaviorTypes (snd s2)) = map_of (da_behaviorTypes (snd s1)) \<and>
    map_of (da_dictSeaState (snd s2)) = map_of (da_dictSeaState (snd s1)) \<and> map_of (da_dictWeatherTypes (snd s2)) = map_of (da_dictWeatherTypes (snd s1)) \<and>
    map_of (da_dictVisible (snd s2)) = map_of (da_dictVisible (snd s1)) \<and> map_of (da_dictPrecipitation (snd s2)) = map_of (da_dictPrecipitation (snd s1)) \<and>
    map_of (da_dictRouteFlight (snd s2)) = map_of (da_dictRouteFlight (snd s1)) \<and> map_of (da_dictRouteFlightID (snd s2)) = map_of (da_dictRouteFlightID (snd s1))"
proof -
  note load = loadDictionaries_answers[OF assms(1), of _ V]
  have 1: "snd s1 = fold (\<lambda>(sql, put). put (A sql)) (dictionary_loads V) D" "fst s1 \<in> M" using assms(3) load[OF assms(2), of D] by simp_all
  have 2: "snd s2 = fold (\<lambda>(sql, put). put (A sql)) (dictionary_loads V) (snd s1)" using assms(4) load[OF 1(2), of "snd s1"] by simp
  show ?thesis unfolding 2 1(1)
    by (simp add: dictionary_loads_def loadDictionary_def loadDictionaryVec_def loadDictionaryMap_def loadDictionaryMap2_def inserted_twice)
qed

definition one_row_env :: "unit db_env" where
  "one_row_env = (sample_db_env [] [])\<lparr>en_driver := \<lparr>dq_open = True, dq_query = (\<lambda>q ps d. ([row_of [(''id'', VInt 1), (''description'', VText [65])]], d)),
     dq_nonQuery = (\<lambda>q ps d. (True, d)), dq_begin = (\<lambda>d. (True, d)), dq_end = (\<lambda>q d. (True, d))\<rparr>\<rparr>"

theorem reload_doubles_lists_witness:
  "da_dictTargetTypes (snd (loadDictionaries typed_env one_row_env 0 (loadDictionaries typed_env one_row_env 0 (sample_manager\<lparr>dm_accessMode := 0\<rparr>, some_dal)))) =
     [[65], [65]]"
proof -
  let ?m = "sample_manager\<lparr>dm_accessMode := 0\<rparr>" and ?rows = "[row_of [(''id'', VInt 1), (''description'', VText [65])]]"
  have answers: "\<forall>sql. \<forall>m \<in> {m. \<not> useLibpq m}. fst (executeQuery one_row_env 0 sql [] m) = ?rows \<and> snd (executeQuery one_row_env 0 sql [] m) \<in> {m. \<not> useLibpq m}"
    by (simp add: executeQuery_def useLibpq_def on_data_def one_row_env_def)
  have m: "?m \<in> {m. \<not> useLibpq m}" by (simp add: useLibpq_def)
  have cell: "to_text typed_env (by_index (row_of [(''id'', VInt 1), (''description'', VText [65])]) 1) = [65]"
    by (simp add: row_of_def to_text_def)
  have "da_dictTargetTypes (snd (loadDictionaries typed_env one_row_env 0 (?m, some_dal))) = [[65]]"
    using loadDictionaries_answers[OF answers m, of typed_env some_dal] cell
    by (simp add: dictionary_loads_def loadDictionaryVec_def some_dal_def)
  then show ?thesis using reload_doubles_lists[OF answers m refl refl, of typed_env some_dal] cell by simp
qed

section \<open>Degrees and minutes\<close>

text \<open>
  The printed coordinate is within half a thousandth of a minute of the given one, with whole minutes below 60; the thousandths are
  rounded without a carry, so that they reach 1000, printed with four digits, exactly when the rest of the minute is at least 0.9995.
\<close>
theorem degree_minute_exact:
  "case degree_parts x of (d, mi, fr) \<Rightarrow>
     0 \<le> d \<and> 0 \<le> mi \<and> mi < 60 \<and> 0 \<le> fr \<and> fr \<le> 1000 \<and> \<bar>\<bar>x\<bar> - (of_int d + (of_int mi + of_int fr / 1000) / 60)\<bar> \<le> 1 / 120000 \<and>
     (fr = 1000 \<longleftrightarrow> 9995 / 10000 \<le> frac ((\<bar>x\<bar> - of_int d) * 60))"
proof -
  define d where "d = \<lfloor>\<bar>x\<bar>\<rfloor>"
  define mn where "mn = (\<bar>x\<bar> - of_int d) * 60"
  define mi where "mi = \<lfloor>mn\<rfloor>"
  define fr where "fr = qRound ((mn - of_int mi) * 1000)"
  have d: "0 \<le> d" "of_int d \<le> \<bar>x\<bar>" "\<bar>x\<bar> < of_int d + 1" unfolding d_def by linarith+
  have mn: "0 \<le> mn" "mn < 60" using d unfolding mn_def by simp_all
  have mi: "of_int mi \<le> mn" "mn < of_int mi + 1" "0 \<le> mi" "mi < 60" unfolding mi_def using mn by linarith+
  have fr: "of_int fr \<le> (mn - of_int mi) * 1000 + 1 / 2" "(mn - of_int mi) * 1000 + 1 / 2 < of_int fr + 1" unfolding fr_def qRound_def by linarith+
  have "0 < (of_int (fr + 1) :: real)" "(of_int fr :: real) < 1001" using fr mi by simp_all
  then have range: "0 \<le> fr" "fr \<le> 1000" by (simp_all only: of_int_0_less_iff of_int_less_numeral_iff)
  have x: "\<bar>x\<bar> = of_int d + mn / 60" by (simp add: mn_def field_simps)
  have err: "\<bar>\<bar>x\<bar> - (of_int d + (of_int mi + of_int fr / 1000) / 60)\<bar> \<le> 1 / 120000" unfolding x using fr by (simp add: field_simps abs_le_iff)
  have carry: "fr = 1000 \<longleftrightarrow> 9995 / 10000 \<le> frac mn"
  proof
    assume "fr = 1000"
    then show "9995 / 10000 \<le> frac mn" using fr(1) by (simp add: frac_def mi_def[symmetric])
  next
    assume "9995 / 10000 \<le> frac mn"
    then have "(999 :: real) < of_int fr" using fr(2) by (simp add: frac_def mi_def[symmetric])
    then show "fr = 1000" using range by simp
  qed
  have "degree_parts x = (d, mi, fr)" by (simp add: degree_parts_def d_def mn_def mi_def fr_def Let_def)
  then show ?thesis using d(1) mi(3,4) range err carry by (simp add: mn_def)
qed

lemma degree_minute_sample: "convertToDegreeMinute (- (21 / 2)) = qs ''-10'' @ [176] @ qs ''30.000'' @ [8242]"
proof -
  have "\<lfloor>21 / 2 :: real\<rfloor> = 10" by linarith
  then have "degree_parts (- (21 / 2)) = (10, 30, 0)" by (simp add: degree_parts_def Let_def qRound_def)
  moreover have "dec 10 = ''10''" "dec 30 = ''30''" "dec 0 = ''0''" by code_simp+
  ultimately show ?thesis by (simp add: convertToDegreeMinute_def padded_def dec_int_def qs_def numeral_2_eq_2 numeral_3_eq_3)
qed

end
