(* ===== verification/Record_Batches.thy ===== *)
theory Record_Batches
  imports Qt_Driver Capture_Records
begin

text \<open>
  The recorded AIS, ADS-B, radar and fused tracks of \<open>db/DataAccessLayer.cpp\<close>, which are inserted in batches, and the two functions that take a connection
  of the Qt pool themselves.
\<close>

section \<open>Records as maps\<close>

text \<open>\<open>data[key] = value\<close>, one after another.\<close>

definition data_map :: "(string \<times> db_variant) list \<Rightarrow> (string, db_variant) qmap" where
  "data_map kvs = fold (\<lambda>(k, v). qm_insert k v) kvs []"

record AISRecord =
  rec_mmsi :: int
  rec_recordTime :: "int option"
  rec_sensorId :: int
  rec_name :: qstring
  rec_longitude :: real
  rec_latitude :: real
  rec_speed :: real
  rec_course :: real
  rec_heading :: int
  rec_imo :: int
  rec_callSign :: qstring
  rec_shipType :: int
  rec_fileName :: qstring
  rec_messageOffset :: int
  rec_messageSize :: int
  rec_waveByte :: "nat list"

definition ais_data :: "AISRecord \<Rightarrow> (string \<times> db_variant) list" where
  "ais_data r = [(''mmsi'', DvLongLong (rec_mmsi r)), (''record_time'', DvTime (rec_recordTime r)), (''sensor_id'', DvInt (rec_sensorId r)),
     (''name'', DvText (rec_name r)), (''longitude'', DvDouble (rec_longitude r)), (''latitude'', DvDouble (rec_latitude r)),
     (''speed'', DvDouble (rec_speed r)), (''course'', DvDouble (rec_course r)), (''heading'', DvInt (rec_heading r)), (''imo'', DvInt (rec_imo r)),
     (''call_sign'', DvText (rec_callSign r)), (''ship_type'', DvInt (rec_shipType r)), (''file_name'', DvText (rec_fileName r)),
     (''message_offset'', DvInt (rec_messageOffset r)), (''message_size'', DvInt (rec_messageSize r)), (''wave_byte'', DvBytes (rec_waveByte r))]"

record ADSBRecord =
  ab_icao :: qstring
  ab_recordTime :: "int option"
  ab_sensorId :: int
  ab_longitude :: real
  ab_latitude :: real
  ab_altitude :: real

definition adsb_data :: "ADSBRecord \<Rightarrow> (string \<times> db_variant) list" where
  "adsb_data r = [(''icao'', DvText (ab_icao r)), (''record_time'', DvTime (ab_recordTime r)), (''sensor_id'', DvInt (ab_sensorId r)),
     (''longitude'', DvDouble (ab_longitude r)), (''latitude'', DvDouble (ab_latitude r)), (''altitude'', DvDouble (ab_altitude r))]"

record TrackRecord =
  rt_trackId :: int
  rt_recTime :: "int option"
  rt_sensorId :: int
  rt_name :: qstring
  rt_type :: int
  rt_mmsi :: int
  rt_distance :: real
  rt_azimuth :: real
  rt_recSpeed :: real
  rt_recCourse :: real
  rt_size :: real
  rt_lon :: real
  rt_lat :: real
  rt_cpa :: real
  rt_tcpa :: real

definition radar_track_data :: "TrackRecord \<Rightarrow> (string \<times> db_variant) list" where
  "radar_track_data r = [(''track_id'', DvLongLong (rt_trackId r)), (''record_time'', DvTime (rt_recTime r)), (''sensor_id'', DvInt (rt_sensorId r)),
     (''name'', DvText (rt_name r)), (''type'', DvInt (rt_type r)), (''mmsi'', DvLongLong (rt_mmsi r)), (''distance'', DvDouble (rt_distance r)),
     (''azimuth'', DvDouble (rt_azimuth r)), (''speed'', DvDouble (rt_recSpeed r)), (''course'', DvDouble (rt_recCourse r)), (''size'', DvDouble (rt_size r)),
     (''longitude'', DvDouble (rt_lon r)), (''latitude'', DvDouble (rt_lat r)), (''cpa'', DvDouble (rt_cpa r)), (''tcpa'', DvDouble (rt_tcpa r))]"

record FusedTrackRecord =
  ft_fusedTrackId :: int
  ft_recordTime :: "int option"
  ft_sensorId :: int
  ft_name :: qstring
  ft_fusionType :: int
  ft_originalTrackIds :: "int list"
  ft_distance :: real
  ft_azimuth :: real
  ft_speed :: real
  ft_course :: real
  ft_size :: real
  ft_longitude :: real
  ft_latitude :: real
  ft_cpa :: real
  ft_tcpa :: real

text \<open>Eight columns for the original tracks: what there is, then nulls; more than eight are dropped.\<close>

definition original_data :: "int list \<Rightarrow> (string \<times> db_variant) list" where
  "original_data ids = map (\<lambda>i. (''original_track_id'' @ dec (i + 1), if i < length ids then DvLongLong (ids ! i) else DvInvalid)) [0..<8]"

definition fused_data :: "FusedTrackRecord \<Rightarrow> (string \<times> db_variant) list" where
  "fused_data r = [(''fused_track_id'', DvLongLong (ft_fusedTrackId r)), (''record_time'', DvTime (ft_recordTime r)), (''sensor_id'', DvInt (ft_sensorId r)),
     (''name'', DvText (ft_name r)), (''fusion_type'', DvInt (ft_fusionType r))] @ original_data (ft_originalTrackIds r) @
     [(''distance'', DvDouble (ft_distance r)), (''azimuth'', DvDouble (ft_azimuth r)), (''speed'', DvDouble (ft_speed r)),
      (''course'', DvDouble (ft_course r)), (''size'', DvDouble (ft_size r)), (''longitude'', DvDouble (ft_longitude r)),
      (''latitude'', DvDouble (ft_latitude r)), (''cpa'', DvDouble (ft_cpa r)), (''tcpa'', DvDouble (ft_tcpa r))]"

text \<open>\<open>executeBatchInsertAsync\<close> on the Qt pool, run to its end; \<open>halt\<close> as in \<open>qt_batchInsert\<close>.\<close>

definition addAISRecords :: "'d qt_sql \<Rightarrow> (nat \<Rightarrow> bool) \<Rightarrow> AISRecord list \<Rightarrow> 'd qt_state \<Rightarrow> nat \<times> 'd qt_state" where
  "addAISRecords X halt rs s = qt_batchInsert X halt ''record_ais'' (map (data_map \<circ> ais_data) rs) s"

definition addADSBRecords :: "'d qt_sql \<Rightarrow> (nat \<Rightarrow> bool) \<Rightarrow> ADSBRecord list \<Rightarrow> 'd qt_state \<Rightarrow> nat \<times> 'd qt_state" where
  "addADSBRecords X halt rs s = qt_batchInsert X halt ''record_adsb'' (map (data_map \<circ> adsb_data) rs) s"

definition addTrackRecords :: "'d qt_sql \<Rightarrow> (nat \<Rightarrow> bool) \<Rightarrow> TrackRecord list \<Rightarrow> 'd qt_state \<Rightarrow> nat \<times> 'd qt_state" where
  "addTrackRecords X halt rs s = qt_batchInsert X halt ''record_radar_track'' (map (data_map \<circ> radar_track_data) rs) s"

definition addFusedTrackRecords :: "'d qt_sql \<Rightarrow> (nat \<Rightarrow> bool) \<Rightarrow> FusedTrackRecord list \<Rightarrow> 'd qt_state \<Rightarrow> nat \<times> 'd qt_state" where
  "addFusedTrackRecords X halt rs s = qt_batchInsert X halt ''record_fused_track'' (map (data_map \<circ> fused_data) rs) s"

section \<open>A batch has one set of columns\<close>

lemma data_map_facts: "qm_ok (data_map kvs)" "fst ` set (data_map kvs) = fst ` set kvs"
proof -
  have "qm_ok m \<Longrightarrow> qm_ok (fold (\<lambda>(k, v). qm_insert k v) kvs m)" for m :: "(string, db_variant) qmap"
    by (induction kvs arbitrary: m) (auto simp: qm_ok_insert)
  then show "qm_ok (data_map kvs)" by (simp add: data_map_def)
  have "fst ` set (fold (\<lambda>(k, v). qm_insert k v) kvs m) = fst ` set m \<union> fst ` set kvs" for m :: "(string, db_variant) qmap"
  proof (induction kvs arbitrary: m)
    case (Cons kv kvs)
    then show ?case by (cases kv) (simp add: keys_qm_insert)
  qed simp
  then show "fst ` set (data_map kvs) = fst ` set kvs" by (simp add: data_map_def)
qed

lemma data_map_columns:
  assumes "map fst kvs = map fst kvs'"
  shows "map fst (data_map kvs) = map fst (data_map kvs')"
proof (rule strict_sorted_equal)
  show "sorted_wrt (<) (map fst (data_map kvs))" "sorted_wrt (<) (map fst (data_map kvs'))" using data_map_facts(1) by (simp_all add: qm_ok_def)
  show "set (map fst (data_map kvs)) = set (map fst (data_map kvs'))"
    using data_map_facts(2)[of kvs] data_map_facts(2)[of kvs'] arg_cong[OF assms, of set] by simp
qed

lemma data_map_values:
  assumes "distinct (map fst kvs)"
  shows "map (\<lambda>(k, v). qm_value (data_map kvs) k DvInvalid) kvs = map snd kvs"
proof -
  have look: "map_of (fold (\<lambda>(k, v). qm_insert k v) kvs m) k = (case map_of kvs k of Some v \<Rightarrow> Some v | None \<Rightarrow> map_of m k)"
    if "distinct (map fst kvs)" for kvs m k
    using that
  proof (induction kvs arbitrary: m)
    case (Cons kv kvs)
    obtain k' v where kv: "kv = (k', v)" by (cases kv)
    have "map_of kvs k' = None" using Cons.prems kv by (simp add: map_of_eq_None_iff)
    then show ?case using Cons.IH[of "qm_insert k' v m"] Cons.prems kv by (auto split: option.splits)
  qed simp
  have "qm_value (data_map kvs) k DvInvalid = v" if "(k, v) \<in> set kvs" for k v
    using look[OF assms, of "[]" k] map_of_is_SomeI[OF assms that] by (simp add: data_map_def qm_value_def)
  then show ?thesis by auto
qed

lemma data_columns_distinct: "distinct (map fst (ais_data a))" "distinct (map fst (adsb_data b))" "distinct (map fst (radar_track_data t))"
  "distinct (map fst (fused_data f))"
proof -
  have ids: "fst ` set (original_data xs) = (\<lambda>i. ''original_track_id'' @ dec (i + 1)) ` {..<8}" "map fst (original_data xs) = map (\<lambda>i. ''original_track_id'' @ dec (i + 1)) [0..<8]" for xs
    by (simp_all add: original_data_def o_def image_image lessThan_atLeast0)
  have "distinct (map (\<lambda>i. ''original_track_id'' @ dec (i + 1)) [0..<8])" by (auto simp: distinct_map inj_on_def)
  then show "distinct (map fst (fused_data f))" by (auto simp: fused_data_def ids)
qed (simp_all add: ais_data_def adsb_data_def radar_track_data_def)

text \<open>
  The statement of a batch, made from the columns of its first record, fits every other one: all records of a kind have the same columns in the
  same order, and under each column every record sends its own value, original tracks beyond the eighth excepted.
\<close>
theorem batch_columns_fit:
  "map fst (data_map (ais_data a)) = map fst (data_map (ais_data a')) \<and> map (\<lambda>(k, v). qm_value (data_map (ais_data a)) k DvInvalid) (ais_data a) = map snd (ais_data a) \<and>
   map fst (data_map (adsb_data b)) = map fst (data_map (adsb_data b')) \<and> map (\<lambda>(k, v). qm_value (data_map (adsb_data b)) k DvInvalid) (adsb_data b) = map snd (adsb_data b) \<and>
   map fst (data_map (radar_track_data t)) = map fst (data_map (radar_track_data t')) \<and> map (\<lambda>(k, v). qm_value (data_map (radar_track_data t)) k DvInvalid) (radar_track_data t) = map snd (radar_track_data t) \<and>
   map fst (data_map (fused_data f)) = map fst (data_map (fused_data f')) \<and> map (\<lambda>(k, v). qm_value (data_map (fused_data f)) k DvInvalid) (fused_data f) = map snd (fused_data f)"
proof -
  have same: "map fst (ais_data a) = map fst (ais_data a')" "map fst (adsb_data b) = map fst (adsb_data b')" "map fst (radar_track_data t) = map fst (radar_track_data t')"
    "map fst (fused_data f) = map fst (fused_data f')"
    by (simp_all add: ais_data_def adsb_data_def radar_track_data_def fused_data_def original_data_def)
  show ?thesis using same[THEN data_map_columns] data_map_values[OF data_columns_distinct(1), of a] data_map_values[OF data_columns_distinct(2), of b]
      data_map_values[OF data_columns_distinct(3), of t] data_map_values[OF data_columns_distinct(4), of f]
    by simp
qed

section \<open>Ships\<close>

text \<open>
  The register of ships has Chinese column names, here as their UTF-8 bytes: call sign, type, state, length, width, destination, arrival, update
  and draught.  \<open>unset\<close> is what the memory holds in the two members without an initial value, \<open>mmsi\<close> and \<open>SearchTime\<close>.
\<close>

definition utf8 :: "nat list \<Rightarrow> string" where
  "utf8 bs = map char_of bs"

record ShipFileInfo =
  sf_targetId :: int
  sf_collectionTime :: "int option"
  sf_CallSign :: qstring
  sf_mmsi :: int
  sf_targetType :: qstring
  sf_shipLength :: qstring
  sf_shipWidth :: qstring
  sf_shipDraft :: qstring
  sf_Condition :: qstring
  sf_Destination :: qstring
  sf_ArrTime :: qstring
  sf_SearchTime :: int
  sf_Updatetime :: qstring
  sf_imageBlob :: "nat list list"

definition ship_row :: "val_env \<Rightarrow> ShipFileInfo \<Rightarrow> db_row \<Rightarrow> ShipFileInfo" where
  "ship_row V unset r =
     (let s = (\<lambda>bs. to_text V (by_name r (utf8 bs))) in
      \<lparr>sf_targetId = 0, sf_collectionTime = None, sf_CallSign = s [229, 145, 188, 229, 143, 183], sf_mmsi = sf_mmsi unset,
       sf_targetType = s [231, 177, 187, 229, 158, 139], sf_shipLength = s [232, 136, 185, 233, 149, 191], sf_shipWidth = s [232, 136, 185, 229, 174, 189],
       sf_shipDraft = s [229, 144, 131, 230, 176, 180], sf_Condition = s [231, 138, 182, 230, 128, 129], sf_Destination = s [231, 155, 174, 231, 154, 132, 229, 156, 176],
       sf_ArrTime = s [233, 162, 132, 229, 136, 176, 230, 151, 182, 233, 151, 180], sf_SearchTime = sf_SearchTime unset, sf_Updatetime = [], sf_imageBlob = []\<rparr>)"

definition update_key :: string where
  "update_key = utf8 [230, 155, 180, 230, 150, 176, 230, 151, 182, 233, 151, 180]"

definition no_ship :: "ShipFileInfo \<Rightarrow> ShipFileInfo" where
  "no_ship unset = \<lparr>sf_targetId = 0, sf_collectionTime = None, sf_CallSign = [], sf_mmsi = sf_mmsi unset, sf_targetType = [], sf_shipLength = [],
     sf_shipWidth = [], sf_shipDraft = [], sf_Condition = [], sf_Destination = [], sf_ArrTime = [], sf_SearchTime = sf_SearchTime unset,
     sf_Updatetime = [], sf_imageBlob = []\<rparr>"

text \<open>The first row on a connection of the Qt pool, which is not tested before and which an invalid handle does not give back.\<close>

definition direct_read :: "'d qt_sql \<Rightarrow> string \<Rightarrow> db_variant list \<Rightarrow> (db_row \<Rightarrow> 'r) \<Rightarrow> 'r \<Rightarrow> 'd qt_state \<Rightarrow> 'r \<times> 'd qt_state" where
  "direct_read X sql ps f none s =
     (case qt_get X s of
        (None, s1) \<Rightarrow> (none, s1)
      | (Some c, s1) \<Rightarrow>
          if \<not> qv_driver (qx_server X) then (none, s1)
          else case qt_run X c sql ps (qs_data s1) of
            (r, d) \<Rightarrow> (case rows_or_none r of row # rest \<Rightarrow> f row | [] \<Rightarrow> none, qt_put X (Some c) (s1\<lparr>qs_data := d\<rparr>)))"

definition getShipFileInfo :: "val_env \<Rightarrow> ShipFileInfo \<Rightarrow> 'd qt_sql \<Rightarrow> qstring \<Rightarrow> 'd qt_state \<Rightarrow> ShipFileInfo \<times> 'd qt_state" where
  "getShipFileInfo V unset X mmsi s = direct_read X ''SELECT * FROM mmsi_info WHERE mmsi = ?'' [DvText mmsi]
     (\<lambda>r. (ship_row V unset r)\<lparr>sf_mmsi := to_int V (by_name r ''mmsi''), sf_Updatetime := to_text V (by_name r update_key),
        sf_SearchTime := to_int V (by_name r ''update_time'') mod 2 ^ 32\<rparr>) (no_ship unset) s"

definition getShipPicture :: "blob_env \<Rightarrow> 'd qt_sql \<Rightarrow> int \<Rightarrow> 'd qt_state \<Rightarrow> nat list list \<times> 'd qt_state" where
  "getShipPicture B X mmsi s = direct_read X ''SELECT image_bytes FROM mmsi_pics WHERE mmsi = ?'' [DvUInt mmsi]
     (\<lambda>r. [if by_name r ''image_bytes'' = VNull then [] else bl_bytes B (by_name r ''image_bytes'')]) [] s"

text \<open>All ships of a number with all its pictures; \<open>readTime\<close> reads the time of the update as \<open>yyyy-MM-dd HH:mm:ss\<close>.\<close>

definition getShipFileCollections :: "val_env \<Rightarrow> blob_env \<Rightarrow> (qstring \<Rightarrow> int option) \<Rightarrow> ShipFileInfo \<Rightarrow> 'd db_env \<Rightarrow> nat \<Rightarrow> int \<Rightarrow> 'd db_manager
    \<Rightarrow> ShipFileInfo list \<times> 'd db_manager" where
  "getShipFileCollections V B readTime unset E t targetId m =
     (case executeQuery E t ship_file_sql [DvLongLong targetId] m of
        (rows, m1) \<Rightarrow>
          reading E t ''SELECT image_bytes FROM mmsi_pics WHERE mmsi = :target_id'' [DvLongLong targetId]
            (\<lambda>pics. map (\<lambda>r. (ship_row V unset r)\<lparr>sf_mmsi := to_i32 targetId, sf_collectionTime := readTime (to_text V (by_name r update_key)),
               sf_imageBlob := map (\<lambda>p. bl_bytes B (by_name p ''image_bytes'')) pics\<rparr>) rows) m1)"

text \<open>
  With a loaded driver the two functions give the connection they take back, whether or not the statement succeeded or found a row; and what
  they return is made from the first row alone.
\<close>
theorem direct_reads_return_connections:
  assumes "qt_pool_ok (qs_pool s)" "qv_driver (qx_server X)"
    "(info, s1) = getShipFileInfo V unset X mmsi s" "(pics, s2) = getShipPicture B X n s"
  shows "qt_busy (qs_pool s1) = qt_busy (qs_pool s) \<and> qt_busy (qs_pool s2) = qt_busy (qs_pool s) \<and> length pics \<le> 1"
proof -
  have given: "qt_busy (qs_pool (snd (direct_read X sql ps f none s))) = qt_busy (qs_pool s)" for sql ps and f :: "db_row \<Rightarrow> 'x" and none
  proof (cases "qt_get X s")
    case (Pair h s3)
    show ?thesis
    proof (cases h)
      case None
      then show ?thesis using qt_refused_busy[OF assms(1)] Pair by (simp add: direct_read_def)
    next
      case (Some c)
      obtain r d where q: "qt_run X c sql ps (qs_data s3) = (r, d)" by fastforce
      have "qs_pool (qt_put X (Some c) (s3\<lparr>qs_data := d\<rparr>)) = qs_pool (qt_put X (Some c) s3)" by (simp add: qt_put_def)
      then show ?thesis using qt_bracket[OF assms(1)] Pair Some assms(2) q by (simp add: direct_read_def)
    qed
  qed
  have "length (fst (getShipPicture B X n s)) \<le> 1" by (simp add: getShipPicture_def direct_read_def split: prod.split option.split list.split)
  then have "length pics \<le> 1" using arg_cong[OF assms(4), of fst] by simp
  moreover have "s1 = snd (getShipFileInfo V unset X mmsi s)" "s2 = snd (getShipPicture B X n s)"
    using arg_cong[OF assms(3), of snd] arg_cong[OF assms(4), of snd] by simp_all
  ultimately show ?thesis by (simp add: given getShipFileInfo_def getShipPicture_def)
qed

theorem direct_reads_return_connections_witness:
  "qt_busy (qs_pool (snd (getShipPicture no_blobs failing_commit 7 two_connections))) = {}"
proof -
  let ?u = "\<lparr>sf_targetId = 0, sf_collectionTime = None, sf_CallSign = [], sf_mmsi = 0, sf_targetType = [], sf_shipLength = [], sf_shipWidth = [], sf_shipDraft = [],
    sf_Condition = [], sf_Destination = [], sf_ArrTime = [], sf_SearchTime = 0, sf_Updatetime = [], sf_imageBlob = []\<rparr>"
  have "qv_driver (qx_server failing_commit)" by (simp add: failing_commit_def qt_sample_server_def)
  from direct_reads_return_connections[OF two_connections_ok this prod.collapse prod.collapse, of typed_env ?u "[]" no_blobs 7]
  have "qt_busy (qs_pool (snd (getShipPicture no_blobs failing_commit 7 two_connections))) = qt_busy (qs_pool two_connections)" by blast
  then show ?thesis by (simp add: two_connections_def qt_busy_def)
qed

end
