(* ===== verification/Alarm_Settings.thy ===== *)
theory Alarm_Settings
  imports Capture_Records
begin

text \<open>
  The rest of the alarm tables in \<open>db/DataAccessLayer.cpp\<close>: writing the rules back, reading stored alarms, alarm pictures, areas, the texts of
  the loudspeaker and today's weather.
\<close>

section \<open>Writing rules\<close>

definition setting_columns :: "string list" where
  "setting_columns = [''name'', ''alarmstate'', ''area_name'', ''filterstate'', ''area_function'', ''area_type'', ''track_type'', ''speed_condition'', ''speed'',
     ''area_judge'', ''direction'', ''group_id'', ''area_id'', ''condition_id'', ''alarm_level'', ''distance_condition'', ''distance'', ''area_st'', ''area_et'',
     ''area_cycle'', ''targetattr_st'', ''targetattr_et'', ''targetattr_cycle'', ''targetattr_side'', ''targetattr_ifmil'', ''targetattr_type'',
     ''targetbh_st'', ''targetbh_et'', ''targetbh_cycle'', ''targetbh_type'', ''height_min'', ''height_max'', ''course_min'', ''course_max'',
     ''blacklist_judge'', ''whitelist_judge'', ''affiliation_judge'', ''corp_judge'']"

definition setting_values :: "StoredRule \<Rightarrow> db_variant list" where
  "setting_values r = [DvText (rule_name r), DvInt (rule_alarmstate r), DvText (rule_area_name r), DvInt (sr_filterstate r), DvInt (sr_area_function r),
     DvInt (sr_area_type r), DvInt (rule_track_type r), DvInt (rule_speed_condition r), DvInt (rule_speed r), DvInt (rule_area_judge r),
     DvInt (rule_direction r), DvInt (rule_group_id r), DvInt (rule_area_id r), DvText (qs (rule_condition_id r)), DvInt (rule_alarm_level r),
     DvInt (rule_distance_condition r), DvInt (rule_distance r), DvText (sr_area_st r), DvText (sr_area_et r), DvInt (sr_area_cycle r),
     DvText (sr_targetattr_st r), DvText (sr_targetattr_et r), DvInt (sr_targetattr_cycle r), DvInt (sr_targetattr_side r),
     DvInt (sr_targetattr_ifmil r), DvInt (rule_targetattr_type r), DvText (sr_targetbh_st r), DvText (sr_targetbh_et r),
     DvInt (sr_targetbh_cycle r), DvInt (sr_targetbh_type r), DvInt (rule_height_min r), DvInt (rule_height_max r), DvInt (rule_course_min r),
     DvInt (rule_course_max r), DvInt (rule_blacklist_judge r), DvInt (rule_whitelist_judge r), DvInt (rule_affiliation_judge r), DvInt (rule_corp_judge r)]"

definition deleteAlarmSettings :: "'d db_env \<Rightarrow> nat \<Rightarrow> 'd db_manager \<Rightarrow> 'd db_manager" where
  "deleteAlarmSettings E t m = snd (executeNonQuery E t ''DELETE FROM alarm_setting'' [] m)"

definition deleteAlarmSetting :: "'d db_env \<Rightarrow> nat \<Rightarrow> qstring \<Rightarrow> 'd db_manager \<Rightarrow> 'd db_manager" where
  "deleteAlarmSetting E t condition m = snd (executeNonQuery E t ''DELETE FROM alarm_setting where condition_id = ?'' [DvText condition] m)"

definition addAlarmSetting :: "'d db_env \<Rightarrow> nat \<Rightarrow> StoredRule \<Rightarrow> 'd db_manager \<Rightarrow> 'd db_manager" where
  "addAlarmSetting E t r m = snd (executeNonQuery E t (named_insert ''alarm_setting'' setting_columns) (setting_values r) m)"

text \<open>The condition id is the last parameter; all others keep their order.\<close>

definition without_condition :: "'a list \<Rightarrow> 'a list" where
  "without_condition xs = take 13 xs @ drop 14 xs"

definition update_setting_sql :: string where
  "update_setting_sql = ''UPDATE alarm_setting set '' @ join_sql '', '' (map (\<lambda>c. c @ '' = '' @ named c) (take 8 setting_columns)) @ '','' @
     join_sql '', '' (map (\<lambda>c. c @ '' = '' @ named c) (drop 8 (without_condition setting_columns))) @ '' where condition_id = :condition_id''"

definition updateAlarmSetting :: "'d db_env \<Rightarrow> nat \<Rightarrow> StoredRule \<Rightarrow> 'd db_manager \<Rightarrow> 'd db_manager" where
  "updateAlarmSetting E t r m =
     snd (executeNonQuery E t update_setting_sql (without_condition (setting_values r) @ [DvText (qs (rule_condition_id r))]) m)"

text \<open>\<open>saveAlarmSetting\<close> deletes with a query and inserts rule by rule, whatever the results.\<close>

definition saveAlarmSetting :: "'d db_env \<Rightarrow> nat \<Rightarrow> StoredRule list \<Rightarrow> 'd db_manager \<Rightarrow> 'd db_manager" where
  "saveAlarmSetting E t rules m = fold (addAlarmSetting E t) rules (snd (executeQuery E t ''DELETE FROM alarm_setting'' [] m))"

section \<open>Reading settings and areas\<close>

record AlarmSettingInfo =
  st_alramName :: qstring
  st_alarmState :: int
  st_area_name :: qstring
  st_filterState :: int
  st_area_function :: int
  st_track_type :: int
  st_speed_condition :: int
  st_speed :: int
  st_area_judge :: int
  st_direction :: int
  st_group_id :: int
  st_area_id :: int
  st_ID :: int

definition getAlarmSetting :: "val_env \<Rightarrow> 'd db_env \<Rightarrow> nat \<Rightarrow> 'd db_manager \<Rightarrow> AlarmSettingInfo list \<times> 'd db_manager" where
  "getAlarmSetting V E t m = reading E t ''SELECT * FROM alarm_setting'' [] (map (\<lambda>r. let n = (\<lambda>k. to_int V (by_name r k)) in
     \<lparr>st_alramName = to_text V (by_name r ''name''), st_alarmState = n ''alarmstate'', st_area_name = to_text V (by_name r ''area_name''),
      st_filterState = n ''filterstate'', st_area_function = n ''area_function'', st_track_type = n ''track_type'',
      st_speed_condition = n ''speed_condition'', st_speed = n ''speed'', st_area_judge = n ''area_judge'', st_direction = n ''direction'',
      st_group_id = n ''group_id'', st_area_id = n ''area_id'', st_ID = n ''condition_id''\<rparr>)) m"

record AlarmAreaInfo =
  aa_area_name :: qstring
  aa_area_type :: int
  aa_area_id :: int
  aa_group_id :: int
  aa_warning_type :: int

definition getAlarmAreaInfo :: "val_env \<Rightarrow> 'd db_env \<Rightarrow> nat \<Rightarrow> 'd db_manager \<Rightarrow> AlarmAreaInfo list \<times> 'd db_manager" where
  "getAlarmAreaInfo V E t m = reading E t ''SELECT * FROM area_table'' [] (map (\<lambda>r.
     \<lparr>aa_area_name = to_text V (by_name r ''area_name''), aa_area_type = to_int V (by_name r ''area_type''), aa_area_id = to_int V (by_name r ''area_id''),
      aa_group_id = to_int V (by_name r ''group_id''), aa_warning_type = to_int V (by_name r ''waring_type'')\<rparr>)) m"

text \<open>The last row wins; without a row the numbers are what the memory held.\<close>

definition getStoredAlarmArea :: "val_env \<Rightarrow> StoredArea \<Rightarrow> 'd db_env \<Rightarrow> nat \<Rightarrow> int \<Rightarrow> int \<Rightarrow> 'd db_manager \<Rightarrow> StoredArea \<times> 'd db_manager" where
  "getStoredAlarmArea V unset E t g a m =
     reading E t ''SELECT *FROM area_table WHERE group_id=? AND area_id=?'' [DvInt g, DvInt a]
       (\<lambda>rows. if rows = [] then unset\<lparr>sa_groupName := [], an_areaName := [], an_startPoint := [], an_endPoint := [], an_areaRect := [],
            an_areaPoints := [], sa_lineColor := []\<rparr>
          else stored_area V (last rows)) m"

text \<open>The query has no place for the group; the two protected areas are not read.\<close>

definition getGroupArea :: "val_env \<Rightarrow> int \<times> int \<Rightarrow> 'd db_env \<Rightarrow> nat \<Rightarrow> int \<Rightarrow> 'd db_manager \<Rightarrow> StoredArea list \<times> 'd db_manager" where
  "getGroupArea V unset E t g m = reading E t ''SELECT *FROM area_table order by area_id'' [DvInt g]
     (map (\<lambda>r. (stored_area V r)\<lparr>sa_protectGroupID := fst unset, sa_protectAreaID := snd unset\<rparr>)) m"

section \<open>Reading alarms\<close>

text \<open>
  The members of \<open>AlarmData\<close> that are read, with the times as the printed texts; \<open>showTime ms\<close> prints with milliseconds or without.
\<close>

record AlarmDataRow =
  rd_alarm_id :: qstring
  rd_condition_id :: qstring
  rd_mode_id :: int
  rd_track_id :: int
  rd_targettype :: int
  rd_targetbehavior :: int
  rd_targetdist :: real
  rd_targetlon :: real
  rd_targetlat :: real
  rd_targetspeed :: real
  rd_targetdir :: real
  rd_time :: qstring
  rd_origintime :: qstring
  rd_alarm_status :: int
  rd_task_status :: int
  rd_unique_id :: int
  rd_threatScore :: int

definition alarm_data_row :: "val_env \<Rightarrow> (bool \<Rightarrow> int option \<Rightarrow> qstring) \<Rightarrow> bool \<Rightarrow> db_row \<Rightarrow> AlarmDataRow" where
  "alarm_data_row V showTime recent r =
     (let n = (\<lambda>k. to_int V (by_name r k)); d = (\<lambda>k. to_real V (by_name r k)); orig = by_name r ''origintime'' in
      \<lparr>rd_alarm_id = to_text V (by_name r ''alarm_id''), rd_condition_id = to_text V (by_name r ''condition_id''), rd_mode_id = n ''mode_id'',
       rd_track_id = n ''track_id'', rd_targettype = n ''targettype'', rd_targetbehavior = n ''targetbehavior'', rd_targetdist = d ''targetdist'',
       rd_targetlon = d ''targetlon'', rd_targetlat = d ''targetlat'', rd_targetspeed = d ''targetspeed'', rd_targetdir = d ''targetdir'',
       rd_time = showTime recent (ve_time V (by_name r ''time'')),
       rd_origintime = (if \<not> recent \<and> orig = VNull then [] else showTime True (ve_time V orig)),
       rd_alarm_status = n ''alarm_status'', rd_task_status = n ''task_status'', rd_unique_id = to_long V (by_name r ''unique_id''),
       rd_threatScore = n ''threat_score''\<rparr>)"

definition alarm_data_rows :: "val_env \<Rightarrow> (bool \<Rightarrow> int option \<Rightarrow> qstring) \<Rightarrow> bool \<Rightarrow> db_row list \<Rightarrow> (qstring, AlarmDataRow) qmap" where
  "alarm_data_rows V showTime recent rows = keyed rd_alarm_id (map (alarm_data_row V showTime recent) rows)"

definition getAlarmData :: "val_env \<Rightarrow> (bool \<Rightarrow> int option \<Rightarrow> qstring) \<Rightarrow> 'd db_env \<Rightarrow> nat \<Rightarrow> 'd db_manager \<Rightarrow> (qstring, AlarmDataRow) qmap \<times> 'd db_manager" where
  "getAlarmData V showTime E t m = reading E t ''SELECT * FROM alarm_data ORDER BY \"time\"'' [] (alarm_data_rows V showTime False) m"

text \<open>A level up to 7 is a set of bits, a higher one a single level.\<close>

definition level_list :: "int \<Rightarrow> string list" where
  "level_list level = (if bit level 0 then [''1''] else []) @ (if bit level 1 then [''2''] else []) @ (if bit level 2 then [''3''] else [])"

definition recent_alarms_query :: "int option \<Rightarrow> int \<Rightarrow> string \<times> db_variant list" where
  "recent_alarms_query start level =
     (if level = 0 then (''SELECT * FROM alarm_data WHERE \"time\" > ? ORDER BY \"time\"'', [DvTime start])
      else if level \<le> 7
      then (''SELECT * FROM alarm_data WHERE \"time\" > ? AND condition_id IN (SELECT condition_id FROM alarm_setting WHERE alarm_level IN ('' @
              join_sql '','' (level_list level) @ '')) ORDER BY \"time\"'', [DvTime start])
      else (''SELECT * FROM alarm_data WHERE \"time\" > ? AND condition_id IN (SELECT condition_id FROM alarm_setting WHERE alarm_level = ?) ORDER BY \"time\"'',
            [DvTime start, DvInt level]))"

definition getRecentAlarmData :: "val_env \<Rightarrow> (bool \<Rightarrow> int option \<Rightarrow> qstring) \<Rightarrow> 'd db_env \<Rightarrow> nat \<Rightarrow> int option \<Rightarrow> int \<Rightarrow> 'd db_manager
    \<Rightarrow> (qstring, AlarmDataRow) qmap \<times> 'd db_manager" where
  "getRecentAlarmData V showTime E t start level m =
     (case recent_alarms_query start level of (sql, ps) \<Rightarrow> reading E t sql ps (alarm_data_rows V showTime True) m)"

definition getTargetType :: "val_env \<Rightarrow> 'd db_env \<Rightarrow> nat \<Rightarrow> int \<Rightarrow> 'd db_manager \<Rightarrow> qstring \<times> 'd db_manager" where
  "getTargetType V E t i m = reading E t ''SELECT final_target_type FROM cognitive_results_comprehensive WHERE reid = ?'' [DvInt i]
     (\<lambda>rows. case rows of r # rs \<Rightarrow> to_text V (by_name r ''final_target_type'') | [] \<Rightarrow> []) m"

section \<open>Alarm pictures\<close>

record AlarmPicInfo =
  ap_alarm_id :: qstring
  ap_pic_time :: "int option"
  ap_imageBlob :: "nat list"

definition alarm_pic_columns :: "string list" where
  "alarm_pic_columns = [''alarm_id'', ''alarm_time'', ''alarm_pic'']"

definition getAlarmPicCollections :: "val_env \<Rightarrow> blob_env \<Rightarrow> 'd db_env \<Rightarrow> nat \<Rightarrow> qstring \<Rightarrow> 'd db_manager \<Rightarrow> AlarmPicInfo list \<times> 'd db_manager" where
  "getAlarmPicCollections V B E t alarmId m = reading E t ''SELECT* FROM alarm_pic_data WHERE alarm_id = :alarmId'' [DvText alarmId] (map (\<lambda>r.
     \<lparr>ap_alarm_id = to_text V (by_name r ''alarm_id''), ap_pic_time = ve_time V (by_name r ''alarm_time''),
      ap_imageBlob = bl_bytes B (by_name r ''alarm_pic'')\<rparr>)) m"

definition addAlarmPic :: "'d db_env \<Rightarrow> nat \<Rightarrow> AlarmPicInfo list \<Rightarrow> 'd db_manager \<Rightarrow> bool \<times> 'd db_manager" where
  "addAlarmPic E t cs m = insert_each E t (named_insert ''alarm_pic_data'' alarm_pic_columns)
     (map (\<lambda>c. [DvText (ap_alarm_id c), DvTime (ap_pic_time c), DvBytes (ap_imageBlob c)]) cs) m"

section \<open>Loudspeaker texts and weather\<close>

record UavSpeakerText =
  us_id :: qstring
  us_mode :: int
  us_name :: qstring
  us_content :: qstring
  us_time :: qstring
  us_md5 :: qstring
  us_file_id :: qstring

definition ReadAllUavTextMsg :: "val_env \<Rightarrow> 'd db_env \<Rightarrow> nat \<Rightarrow> 'd db_manager \<Rightarrow> UavSpeakerText list \<times> 'd db_manager" where
  "ReadAllUavTextMsg V E t m = reading E t ''SELECT * FROM uav_speaker_file order by createtime'' [] (map (\<lambda>r.
     \<lparr>us_id = to_text V (by_name r ''text_id''), us_mode = to_int V (by_name r ''mode_id''), us_name = to_text V (by_name r ''text_name''),
      us_content = to_text V (by_name r ''content''), us_time = to_text V (by_name r ''createtime''), us_md5 = to_text V (by_name r ''md5''),
      us_file_id = to_text V (by_name r ''file_id'')\<rparr>)) m"

definition insertUavTextMsg :: "'d db_env \<Rightarrow> nat \<Rightarrow> UavSpeakerText \<Rightarrow> 'd db_manager \<Rightarrow> bool \<times> 'd db_manager" where
  "insertUavTextMsg E t u m = executeNonQuery E t
     ''insert into uav_speaker_file (text_id, text_name, mode_id, content, createtime, md5, file_id) values (?,?,?,?,?,?,?)''
     [DvText (us_id u), DvText (us_name u), DvInt (us_mode u), DvText (us_content u), DvText (us_time u), DvText (us_md5 u), DvText (us_file_id u)] m"

definition updateUavTextMsg :: "'d db_env \<Rightarrow> nat \<Rightarrow> UavSpeakerText \<Rightarrow> 'd db_manager \<Rightarrow> bool \<times> 'd db_manager" where
  "updateUavTextMsg E t u m = executeNonQuery E t ''UPDATE uav_speaker_file SET text_name = ? ,content = ? where text_id = ?''
     [DvText (us_name u), DvText (us_content u), DvText (us_id u)] m"

definition deleteUavTextMsg :: "'d db_env \<Rightarrow> nat \<Rightarrow> UavSpeakerText \<Rightarrow> 'd db_manager \<Rightarrow> bool \<times> 'd db_manager" where
  "deleteUavTextMsg E t u m = executeNonQuery E t ''delete from uav_speaker_file where text_id = ?'' [DvText (us_id u)] m"

text \<open>The last row of the day wins; the date is year, month and day.\<close>

definition getTodayWeatherInfo :: "val_env \<Rightarrow> int \<times> int \<times> int \<Rightarrow> 'd db_env \<Rightarrow> nat \<Rightarrow> 'd db_manager \<Rightarrow> (qstring \<times> qstring) \<times> 'd db_manager" where
  "getTodayWeatherInfo V today E t m =
     (case today of (y, mo, d) \<Rightarrow>
        reading E t ''SELECT description, info FROM weather_info WHERE date = :date'' [DvText (qs (dec_int y) @ padded 2 mo @ padded 2 d)]
          (\<lambda>rows. if rows = [] then ([], []) else (to_text V (by_name (last rows) ''description''), to_text V (by_name (last rows) ''info''))) m)"

section \<open>Saving and loading the rules\<close>

lemma no_places_settings: "list_all no_places setting_columns"
  by (simp add: setting_columns_def)

lemma no_places_update: "no_places update_setting_sql"
  unfolding update_setting_sql_def no_places_append
  by (simp add: no_places_join setting_columns_def without_condition_def named_def)

lemma setting_values_nonempty: "setting_values r \<noteq> []"
  by (simp add: setting_values_def)

lemma addAlarmSetting_unplaced:
  assumes "places_law (en_pg E) committed" "useLibpq m"
  shows "committed (server_data (addAlarmSetting E t r m)) = committed (server_data m) \<and> useLibpq (addAlarmSetting E t r m)"
proof -
  have "no_places (named_insert ''alarm_setting'' setting_columns)" by (rule no_places_named(1)[OF _ no_places_settings]) simp
  from unplaced_statement(1)[OF assms this setting_values_nonempty] show ?thesis by (simp add: addAlarmSetting_def)
qed

text \<open>
  C23. In the default mode saving the rules empties the table: whatever rules are saved, what is committed afterwards is what the deletion of all
  rules left; adding or changing a single rule changes nothing, and the alarm areas of a group, alarm pictures and today's weather are never found.
\<close>
theorem saving_rules_deletes_them:
  assumes "places_law (en_pg E) committed" "useLibpq m" "pics \<noteq> []"
  shows "committed (server_data (saveAlarmSetting E t rules m)) = committed (server_data (saveAlarmSetting E t [] m)) \<and>
    committed (server_data (addAlarmSetting E t r m)) = committed (server_data m) \<and>
    committed (server_data (updateAlarmSetting E t r m)) = committed (server_data m) \<and>
    fst (getGroupArea V u E t g m) = [] \<and> fst (getAlarmPicCollections V B E t a m) = [] \<and> \<not> fst (addAlarmPic E t pics m) \<and>
    fst (getTodayWeatherInfo V d E t m) = ([], [])"
proof -
  have fold: "committed (server_data (fold (addAlarmSetting E t) rs m)) = committed (server_data m)" if "useLibpq m" for rs m
    using that by (induction rs arbitrary: m) (simp_all add: addAlarmSetting_unplaced[OF assms(1)])
  have "useLibpq (snd (executeQuery E t ''DELETE FROM alarm_setting'' [] m))"
    using statement_slot(2)[of E t "''DELETE FROM alarm_setting''" "[]" m] assms(2) by (simp add: useLibpq_def)
  then have 1: "committed (server_data (saveAlarmSetting E t rules m)) = committed (server_data (saveAlarmSetting E t [] m))"
    by (simp add: saveAlarmSetting_def fold)
  have 2: "committed (server_data (updateAlarmSetting E t r m)) = committed (server_data m)"
    using unplaced_statement(1)[OF assms(1,2) no_places_update, of "without_condition (setting_values r) @ [DvText (qs (rule_condition_id r))]" t]
    by (simp add: updateAlarmSetting_def)
  note none = conjunct1[OF unplaced_statement(2)[OF assms(1,2)]]
  have 3: "fst (getGroupArea V u E t g m) = []" using none[of "''SELECT *FROM area_table order by area_id''" "[DvInt g]" t]
    by (simp add: getGroupArea_def)
  have 4: "fst (getAlarmPicCollections V B E t a m) = []"
    using none[of "''SELECT* FROM alarm_pic_data WHERE alarm_id = :alarmId''" "[DvText a]" t] by (simp add: getAlarmPicCollections_def)
  have 5: "\<not> fst (addAlarmPic E t pics m)"
    using insert_each_unplaced[OF assms(1,2) no_places_named(1)[of "''alarm_pic_data''" alarm_pic_columns],
        of "map (\<lambda>c. [DvText (ap_alarm_id c), DvTime (ap_pic_time c), DvBytes (ap_imageBlob c)]) pics" t] assms(3)
    by (auto simp: addAlarmPic_def alarm_pic_columns_def)
  have 6: "fst (getTodayWeatherInfo V d E t m) = ([], [])"
    using none[of "''SELECT description, info FROM weather_info WHERE date = :date''" _ t] by (cases d) (simp add: getTodayWeatherInfo_def)
  show ?thesis using 1 2 3 4 5 6 addAlarmSetting_unplaced[OF assms(1,2)] by simp
qed

text \<open>
  What SQL documents of an insertion that succeeded, with Qt's driver: the table then has the rows it had and the row written, whose other columns
  hold what the server puts there.
\<close>

definition insert_law :: "'d qt_driver \<Rightarrow> (db_variant \<Rightarrow> db_value) \<Rightarrow> (string \<Rightarrow> 'd \<Rightarrow> db_row) \<Rightarrow> string \<Rightarrow> string list \<Rightarrow> bool" where
  "insert_law D shown rest table cols \<longleftrightarrow>
     (\<forall>ps d d'. length ps = length cols \<and> dq_nonQuery D (named_insert table cols) ps d = (True, d') \<longrightarrow>
        set (fst (dq_query D (''SELECT * FROM '' @ table) [] d')) =
          insert (written_row shown (rest table d) cols ps) (set (fst (dq_query D (''SELECT * FROM '' @ table) [] d))))"

lemma written_rule:
  assumes "reads_back V rnd shown" "\<forall>i \<in> set (setting_values r). \<forall>n. i = DvInt n \<longrightarrow> int_member n" "ve_id V (qs (rule_condition_id r)) = rule_condition_id r"
  shows "stored_rule V (written_row shown rest setting_columns (setting_values r)) =
    r\<lparr>rule_isBirdTrack := -1, rule_camera_detect_type := rule_camera_detect_type (stored_rule V rest), rule_llm_detect_type := 0,
      rule_uav_detect_type := rule_uav_detect_type (stored_rule V rest), rule_threat_level1 := rule_threat_level1 (stored_rule V rest),
      rule_threat_level2 := rule_threat_level2 (stored_rule V rest), rule_dist_to_protect_area := rule_dist_to_protect_area (stored_rule V rest),
      rule_entry_time := rule_entry_time (stored_rule V rest), sr_has_ais := sr_has_ais (stored_rule V rest),
      sr_ais_type := rule_corp_judge r, sr_ais_behavior := sr_ais_behavior (stored_rule V rest)\<rparr>"
proof -
  note read = reads_backD[OF assms(1)]
  have n: "to_int V (shown (DvInt n)) = n" if "DvInt n \<in> set (setting_values r)" for n using assms(2) that read(1) by blast
  note ints = n[unfolded setting_values_def, simplified]
  show ?thesis unfolding stored_rule_def Let_def written_row_def setting_columns_def setting_values_def
    by (simp add: ints read(3) to_id_def assms(3))
qed

text \<open>
  C32. Where rules can be written (with Qt's driver) a rule does not survive its saving. \<open>addAlarmSetting\<close> does the same whatever detections, threat
  levels, distance to the protected area, entry time and AIS behaviour the rule asks for; after an insertion that succeeded the rules loaded
  hold the new rule with its conditions on course, height, speed, distance and area, but with whatever the table puts in the columns that are not written, no
  detection by the language model, and the corporation list as the AIS type.
\<close>
theorem saved_rule_loses_detection:
  assumes "\<not> useLibpq m" "insert_law (en_driver E) shown rest ''alarm_setting'' setting_columns" "reads_back V rnd shown"
    "\<forall>i \<in> set (setting_values r). \<forall>n. i = DvInt n \<longrightarrow> int_member n" "ve_id V (qs (rule_condition_id r)) = rule_condition_id r"
    "fst (executeNonQuery E t (named_insert ''alarm_setting'' setting_columns) (setting_values r) m)"
    "map_of (fst (getAlarmRule V E t m)) (rule_condition_id r) = None" "kept = stored_rule V (rest ''alarm_setting'' (server_data m))"
  shows "addAlarmSetting E t (r\<lparr>rule_isBirdTrack := a1, rule_camera_detect_type := a2, rule_llm_detect_type := a3, rule_uav_detect_type := a4,
      rule_threat_level1 := a5, rule_threat_level2 := a6, rule_dist_to_protect_area := d1, rule_entry_time := d2, sr_has_ais := d3,
      sr_ais_type := d4, sr_ais_behavior := d5\<rparr>) m = addAlarmSetting E t r m \<and>
    map_of (fst (getAlarmRule V E t (addAlarmSetting E t r m))) (rule_condition_id r) =
      Some (r\<lparr>rule_isBirdTrack := -1, rule_camera_detect_type := rule_camera_detect_type kept, rule_llm_detect_type := 0,
        rule_uav_detect_type := rule_uav_detect_type kept, rule_threat_level1 := rule_threat_level1 kept, rule_threat_level2 := rule_threat_level2 kept,
        rule_dist_to_protect_area := rule_dist_to_protect_area kept, rule_entry_time := rule_entry_time kept, sr_has_ais := sr_has_ais kept,
        sr_ais_type := rule_corp_judge r, sr_ais_behavior := sr_ais_behavior kept\<rparr>)"
proof -
  let ?w = "written_row shown (rest ''alarm_setting'' (server_data m)) setting_columns (setting_values r)"
  let ?ins = "named_insert ''alarm_setting'' setting_columns" and ?sel = "''SELECT * FROM alarm_setting''"
  let ?is = "\<lambda>x. to_id V (by_name x ''condition_id'') = rule_condition_id r"
  have len: "length (setting_values r) = length setting_columns" by (simp add: setting_values_def setting_columns_def)
  obtain d' where d': "dq_nonQuery (en_driver E) ?ins (setting_values r) (server_data m) = (True, d')" "server_data (addAlarmSetting E t r m) = d'"
    "\<not> useLibpq (addAlarmSetting E t r m)"
    using assms(1,6) by (auto simp: executeNonQuery_def addAlarmSetting_def on_data_def useLibpq_def split: prod.splits)
  have asked: "fst (executeQuery E t q ps x) = fst (dq_query (en_driver E) q ps (server_data x))" if "\<not> useLibpq x" for x q ps
    using that by (simp add: executeQuery_def on_data_def case_prod_beta)
  have rows: "set (fst (executeQuery E t ?sel [] (addAlarmSetting E t r m))) = insert ?w (set (fst (executeQuery E t ?sel [] m)))"
    using assms(2)[unfolded insert_law_def, rule_format, OF conjI[OF len d'(1)]] asked[OF assms(1)] asked[OF d'(3)] d'(2) by simp
  note w = written_rule[OF assms(3-5), of "rest ''alarm_setting'' (server_data m)", folded assms(8)]
  have "?is ?w" using arg_cong[OF w, of rule_condition_id] by (simp add: stored_rule_def Let_def)
  moreover have "\<not> ?is x" if "x \<in> set (fst (executeQuery E t ?sel [] m))" for x
    using rules_of_rows[of V E t m "rule_condition_id r"] assms(7) that by (auto simp: filter_empty_conv split: list.splits)
  ultimately have only: "set (filter ?is (fst (executeQuery E t ?sel [] (addAlarmSetting E t r m)))) = {?w}" using rows by auto
  then obtain y ys where ys: "filter ?is (fst (executeQuery E t ?sel [] (addAlarmSetting E t r m))) = y # ys" by (cases "filter ?is (fst (executeQuery E t ?sel [] (addAlarmSetting E t r m)))") auto
  then have "last (y # ys) = ?w" using only last_in_set[of "y # ys"] by auto
  then have "map_of (fst (getAlarmRule V E t (addAlarmSetting E t r m))) (rule_condition_id r) = Some (stored_rule V ?w)"
    using rules_of_rows[of V E t "addAlarmSetting E t r m" "rule_condition_id r"] ys by simp
  then show ?thesis unfolding w by (simp add: addAlarmSetting_def setting_values_def)
qed

definition asking_rule :: StoredRule where
  "asking_rule = (stored_rule typed_env \<lparr>by_name = (\<lambda>k. VNull), by_index = (\<lambda>i. VNull)\<rparr>)\<lparr>rule_condition_id := ''r1'', rule_camera_detect_type := 3\<rparr>"

text \<open>A server with one table of rules, whose default for the camera's detection types is 8.\<close>

definition default_row :: db_row where
  "default_row = row_of [(''camera_detect_type'', VInt 8)]"

definition rules_server :: "db_row list db_env" where
  "rules_server = \<lparr>en_qt = \<lparr>qd_toStd = map char_of, qd_fromStd = qs, qd_utc = (\<lambda>t. [])\<rparr>,
     en_pg = \<lparr>pe_exec = (\<lambda>c q ps d. (Failed, d)), pe_double = (\<lambda>r. []), pe_server = sample_server, pe_others = (\<lambda>P. P), pe_now = 0\<rparr>,
     en_sqlite = \<lparr>sq_open = True, sq_create = (\<lambda>cs. True), sq_insert = (\<lambda>r. True)\<rparr>,
     en_driver = \<lparr>dq_open = True, dq_query = (\<lambda>q ps d. (d, d)),
       dq_nonQuery = (\<lambda>q ps d. (True, written_row typed_value default_row setting_columns ps # d)), dq_begin = (\<lambda>d. (True, d)), dq_end = (\<lambda>q d. (True, d))\<rparr>\<rparr>"

definition rules_manager :: "db_row list db_manager" where
  "rules_manager = \<lparr>dm_accessMode = 0, dm_libpqReady = False, dm_shuttingDown = False,
     dm_pgqt = \<lparr>pq_initialized = False, pq_pg = \<lparr>pg_pool = sample_pool, pg_stopping = False, pg_results = 0, pg_db = []\<rparr>,
        pq_slot = (\<lambda>t. no_transaction)\<rparr>, dm_buffers = (\<lambda>t. \<lparr>bf_tables = [], bf_seq = 0\<rparr>)\<rparr>"

theorem saved_rule_loses_detection_witness:
  "map_option rule_camera_detect_type (map_of (fst (getAlarmRule typed_env rules_server 0 (addAlarmSetting rules_server 0 asking_rule rules_manager))) ''r1'') = Some 8 \<and>
   rule_camera_detect_type asking_rule = 3"
proof -
  have mode: "\<not> useLibpq rules_manager" by (simp add: useLibpq_def rules_manager_def)
  have law: "insert_law (en_driver rules_server) typed_value (\<lambda>table d. default_row) ''alarm_setting'' setting_columns"
    by (simp add: insert_law_def rules_server_def)
  have ints: "\<forall>i \<in> set (setting_values asking_rule). \<forall>n. i = DvInt n \<longrightarrow> int_member n"
    by (simp add: setting_values_def asking_rule_def stored_rule_def Let_def to_int_def)
  have id: "ve_id typed_env (qs (rule_condition_id asking_rule)) = rule_condition_id asking_rule" by (simp add: typed_env_def char_of_qs)
  have ok: "fst (executeNonQuery rules_server 0 (named_insert ''alarm_setting'' setting_columns) (setting_values asking_rule) rules_manager)"
    by (simp add: executeNonQuery_def useLibpq_def rules_manager_def on_data_def rules_server_def)
  have none: "map_of (fst (getAlarmRule typed_env rules_server 0 rules_manager)) (rule_condition_id asking_rule) = None"
    by (simp add: getAlarmRule_def reading_def executeQuery_def useLibpq_def rules_manager_def on_data_def rules_server_def keyed_def)
  have "rule_camera_detect_type (stored_rule typed_env default_row) = 8"
    by (simp add: stored_rule_def Let_def default_row_def row_of_def to_int_def to_i32_def)
  then show ?thesis
    using saved_rule_loses_detection[OF mode law typed_reads_back ints id ok none refl] by (simp add: asking_rule_def)
qed

theorem saving_rules_deletes_them_witness:
  "fst (server_data (saveAlarmSetting places_env 0 [asking_rule] refusing_manager)) = 1"
proof -
  have m: "useLibpq refusing_manager" by (simp add: useLibpq_def refusing_manager_def)
  have "convertQtPlaceholders ''DELETE FROM alarm_setting'' = ''DELETE FROM alarm_setting''"
    using conjunct2[OF numbered_placeholders[of "''DELETE FROM alarm_setting''"]] by simp
  then have "fst (server_data (saveAlarmSetting places_env 0 [] refusing_manager)) = 1"
    by (simp add: saveAlarmSetting_def places_env_def refusing_env_def refusing_manager_def refusing_exec_def run_model pg_executeQuery_def release_def releaseConnection_def prepareParams_def sent_def Let_def)
  then show ?thesis
    using saving_rules_deletes_them[OF places_env_law m, of "[\<lparr>ap_alarm_id = [], ap_pic_time = None, ap_imageBlob = []\<rparr>]" 0 "[asking_rule]"] by simp
qed

end
