(* ===== verification/Cognitive_Results.thy ===== *)
theory Cognitive_Results
  imports Target_Records
begin

text \<open>
  The comprehensive results of \<open>db/DataAccessLayer.cpp\<close>: the two enumerations and their texts, and the statements that insert, change and save a
  result.
\<close>

section \<open>Sources and affiliations\<close>

datatype SourceEnum = SOURCE_AIS | SOURCE_LLM | SOURCE_FUSION_ENGINE | SOURCE_RADAR | SOURCE_MANUAL | SOURCE_ARCHIVE | SOURCE_UNKNOWN | SOURCE_CAM | SOURCE_TRACK

datatype AffiliationEnum = AFFILIATION_ENEMY | AFFILIATION_OWNERSHIP | AFFILIATION_FRIENDLY | AFFILIATION_NEUTRAL | AFFILIATION_UNKNOWN

definition sourceEnumToString :: "SourceEnum \<Rightarrow> qstring" where
  "sourceEnumToString s = qs (case s of SOURCE_AIS \<Rightarrow> ''ais'' | SOURCE_LLM \<Rightarrow> ''llm'' | SOURCE_FUSION_ENGINE \<Rightarrow> ''fusion_engine'' | SOURCE_RADAR \<Rightarrow> ''radar''
     | SOURCE_MANUAL \<Rightarrow> ''manual'' | SOURCE_ARCHIVE \<Rightarrow> ''archive'' | SOURCE_CAM \<Rightarrow> ''cam'' | SOURCE_TRACK \<Rightarrow> ''track'' | SOURCE_UNKNOWN \<Rightarrow> ''llm'')"

definition affiliationEnumToString :: "AffiliationEnum \<Rightarrow> qstring" where
  "affiliationEnumToString a = qs (case a of AFFILIATION_ENEMY \<Rightarrow> ''enemy'' | AFFILIATION_OWNERSHIP \<Rightarrow> ''ownership'' | AFFILIATION_FRIENDLY \<Rightarrow> ''friendly''
     | AFFILIATION_NEUTRAL \<Rightarrow> ''neutral'' | AFFILIATION_UNKNOWN \<Rightarrow> ''unknown'')"

definition stringToSourceEnum :: "qstring \<Rightarrow> SourceEnum" where
  "stringToSourceEnum s =
     (if s = qs ''ais'' then SOURCE_AIS else if s = qs ''llm'' then SOURCE_LLM else if s = qs ''fusion_engine'' then SOURCE_FUSION_ENGINE
      else if s = qs ''radar'' then SOURCE_RADAR else if s = qs ''manual'' then SOURCE_MANUAL else if s = qs ''archive'' then SOURCE_ARCHIVE
      else if s = qs ''cam'' then SOURCE_CAM else if s = qs ''track'' then SOURCE_TRACK else SOURCE_UNKNOWN)"

definition stringToAffiliationEnum :: "qstring \<Rightarrow> AffiliationEnum" where
  "stringToAffiliationEnum s =
     (if s = qs ''enemy'' then AFFILIATION_ENEMY else if s = qs ''ownership'' then AFFILIATION_OWNERSHIP else if s = qs ''friendly'' then AFFILIATION_FRIENDLY
      else if s = qs ''neutral'' then AFFILIATION_NEUTRAL else AFFILIATION_UNKNOWN)"

section \<open>Results\<close>

record CognitiveResultsComprehensive =
  cr_trackId :: int
  cr_uniqueId :: int
  cr_reId :: int
  cr_observedAt :: "int option"
  cr_finalTargetType :: qstring
  cr_finalTypeSource :: SourceEnum
  cr_finalTargetStatus :: qstring
  cr_finalStatusSource :: SourceEnum
  cr_finalAffiliation :: AffiliationEnum
  cr_finalAffiliationSource :: SourceEnum
  cr_finalThreatLevel :: int
  cr_finalIntent :: qstring
  cr_fusedLongitude :: real
  cr_fusedLatitude :: real
  cr_fusedAltitudeM :: real
  cr_fusedSpeedKnots :: real
  cr_fusedCourseDeg :: real
  cr_aisMmsi :: int
  cr_aisImo :: int
  cr_aisCallsign :: qstring
  cr_aisTargetTypeRaw :: qstring
  cr_aisNavStatusCode :: int
  cr_aisLengthM :: real
  cr_aisWidthM :: real
  cr_archiveTargetType :: qstring
  cr_archiveLengthM :: real
  cr_archiveWidthM :: real
  cr_archiveDestination :: qstring
  cr_archiveStatus :: qstring
  cr_llmTargetType :: qstring
  cr_llmTargetTypeConfidence :: real
  cr_llmIntentRaw :: qstring
  cr_llmDetectionConfidence :: real
  cr_createdAt :: "int option"
  cr_timeTargetType :: qstring
  cr_timeTargetConfidence :: real

definition new_result :: "int \<Rightarrow> CognitiveResultsComprehensive" where
  "new_result now = \<lparr>cr_trackId = 0, cr_uniqueId = 0, cr_reId = 0, cr_observedAt = Some now, cr_finalTargetType = [], cr_finalTypeSource = SOURCE_UNKNOWN,
     cr_finalTargetStatus = [], cr_finalStatusSource = SOURCE_UNKNOWN, cr_finalAffiliation = AFFILIATION_UNKNOWN,
     cr_finalAffiliationSource = SOURCE_UNKNOWN, cr_finalThreatLevel = 0, cr_finalIntent = [], cr_fusedLongitude = 0, cr_fusedLatitude = 0,
     cr_fusedAltitudeM = 0, cr_fusedSpeedKnots = 0, cr_fusedCourseDeg = 0, cr_aisMmsi = 0, cr_aisImo = 0, cr_aisCallsign = [],
     cr_aisTargetTypeRaw = [], cr_aisNavStatusCode = 0, cr_aisLengthM = 0, cr_aisWidthM = 0, cr_archiveTargetType = [], cr_archiveLengthM = 0,
     cr_archiveWidthM = 0, cr_archiveDestination = [], cr_archiveStatus = [], cr_llmTargetType = [], cr_llmTargetTypeConfidence = 0,
     cr_llmIntentRaw = [], cr_llmDetectionConfidence = 0, cr_createdAt = Some now, cr_timeTargetType = [], cr_timeTargetConfidence = 0\<rparr>"

text \<open>The columns with the form of their places; the location takes two parameters.\<close>

definition result_places :: "(string \<times> string) list" where
  "result_places = [(''track_id'', ''?''), (''unique_id'', ''?''), (''observed_at'', ''?''), (''final_target_type'', ''?''),
     (''final_type_source'', ''?::dict_source_enum''), (''final_target_status'', ''?''), (''final_status_source'', ''?::dict_source_enum''),
     (''final_affiliation'', ''?::dict_affiliation_enum''), (''final_affiliation_source'', ''?::dict_source_enum''), (''final_threat_level'', ''?''),
     (''final_intent'', ''?''), (''fused_location'', ''ST_SetSRID(ST_MakePoint(?, ?), 4326)''), (''fused_altitude_m'', ''?''), (''fused_speed_knots'', ''?''),
     (''fused_course_deg'', ''?''), (''ais_mmsi'', ''?''), (''ais_imo'', ''?''), (''ais_callsign'', ''?''), (''ais_target_type_raw'', ''?''),
     (''ais_nav_status_code'', ''?''), (''ais_length_m'', ''?''), (''ais_width_m'', ''?''), (''archive_target_type'', ''?''), (''archive_length_m'', ''?''),
     (''archive_width_m'', ''?''), (''archive_destination'', ''?''), (''archive_status'', ''?''), (''llm_target_type'', ''?''),
     (''llm_target_type_confidence'', ''?''), (''llm_intent_raw'', ''?''), (''llm_detection_confidence'', ''?''), (''created_at'', ''?''),
     (''time_target_type'', ''?''), (''time_target_confidence'', ''?''), (''reid'', ''?'')]"

definition result_values :: "CognitiveResultsComprehensive \<Rightarrow> db_variant list" where
  "result_values r = [DvLongLong (cr_trackId r), DvLongLong (cr_uniqueId r), DvTime (cr_observedAt r), DvText (cr_finalTargetType r),
     DvText (sourceEnumToString (cr_finalTypeSource r)), DvText (cr_finalTargetStatus r), DvText (sourceEnumToString (cr_finalStatusSource r)),
     DvText (affiliationEnumToString (cr_finalAffiliation r)), DvText (sourceEnumToString (cr_finalAffiliationSource r)), DvInt (cr_finalThreatLevel r),
     DvText (cr_finalIntent r), DvDouble (cr_fusedLongitude r), DvDouble (cr_fusedLatitude r), DvDouble (cr_fusedAltitudeM r),
     DvDouble (cr_fusedSpeedKnots r), DvDouble (cr_fusedCourseDeg r), DvLongLong (cr_aisMmsi r), DvLongLong (cr_aisImo r), DvText (cr_aisCallsign r),
     DvText (cr_aisTargetTypeRaw r), DvInt (cr_aisNavStatusCode r), DvDouble (cr_aisLengthM r), DvDouble (cr_aisWidthM r), DvText (cr_archiveTargetType r),
     DvDouble (cr_archiveLengthM r), DvDouble (cr_archiveWidthM r), DvText (cr_archiveDestination r), DvText (cr_archiveStatus r),
     DvText (cr_llmTargetType r), DvDouble (cr_llmTargetTypeConfidence r), DvText (cr_llmIntentRaw r), DvDouble (cr_llmDetectionConfidence r),
     DvTime (cr_createdAt r), DvText (cr_timeTargetType r), DvDouble (cr_timeTargetConfidence r), DvLongLong (cr_reId r)]"

text \<open>The last three columns follow without a space in \<open>addCognitiveResult\<close>.\<close>

definition insert_result_sql :: "string \<Rightarrow> string" where
  "insert_result_sql sep = ''INSERT INTO cognitive_results_comprehensive ('' @ join_sql '', '' (take 32 (map fst result_places)) @ sep @
     join_sql sep (drop 32 (map fst result_places)) @ '') VALUES ('' @ join_sql '', '' (map snd result_places) @ '')''"

text \<open>What a conflict on the unique id takes over from the new row.\<close>

definition taken_over :: "string list" where
  "taken_over = [''track_id'', ''observed_at'', ''final_target_type'', ''final_threat_level'', ''time_target_type'', ''time_target_confidence'', ''reid'',
     ''fused_location'', ''fused_speed_knots'', ''fused_course_deg'']"

definition upsert_result_sql :: string where
  "upsert_result_sql = insert_result_sql '', '' @ '' ON CONFLICT (unique_id) DO UPDATE SET '' @ join_sql '', '' (map (\<lambda>c. c @ '' = EXCLUDED.'' @ c) taken_over)"

definition addCognitiveResult :: "'d db_env \<Rightarrow> nat \<Rightarrow> CognitiveResultsComprehensive \<Rightarrow> 'd db_manager \<Rightarrow> (bool \<times> 'd db_manager) option" where
  "addCognitiveResult E t r m = awaited E t (insert_result_sql '','') (result_values r) m"

text \<open>\<open>hasUniqueConstraint\<close> is the constant true: the other branch is dead.\<close>

definition saveCognitiveResult :: "'d db_env \<Rightarrow> nat \<Rightarrow> CognitiveResultsComprehensive \<Rightarrow> 'd db_manager \<Rightarrow> (bool \<times> 'd db_manager) option" where
  "saveCognitiveResult E t r m = awaited E t upsert_result_sql (result_values r) m"

text \<open>An update keeps a result within its group of types.\<close>

definition quoted :: "string \<Rightarrow> string" where
  "quoted s = quote # s @ [quote]"

definition result_group :: "CognitiveResultsComprehensive \<Rightarrow> string \<times> db_variant list" where
  "result_group r =
     (let ty = cr_finalTargetType r; one_of = (\<lambda>a b. ''(final_target_type = '' @ quoted a @ '' OR final_target_type = '' @ quoted b @ '')'') in
      if ty = qs ''ship'' \<or> ty = qs ''buoy'' then (one_of ''ship'' ''buoy'', [])
      else if ty = qs ''uav'' \<or> ty = qs ''missile'' then (one_of ''uav'' ''missile'', [])
      else (''final_target_type = ?'', [DvText ty]))"

definition updateCognitiveResult :: "'d db_env \<Rightarrow> nat \<Rightarrow> CognitiveResultsComprehensive \<Rightarrow> 'd db_manager \<Rightarrow> (bool \<times> 'd db_manager) option" where
  "updateCognitiveResult E t r m =
     (case result_group r of (condition, ps) \<Rightarrow>
        awaited E t (''UPDATE cognitive_results_comprehensive SET observed_at = ?, final_target_type = ?, time_target_type = ?, final_threat_level = ?, time_target_confidence = ?, reid = ? WHERE unique_id = ? AND '' @ condition)
          ([DvTime (cr_observedAt r), DvText (cr_finalTargetType r), DvText (cr_timeTargetType r), DvInt (cr_finalThreatLevel r),
            DvDouble (cr_timeTargetConfidence r), DvLongLong (cr_reId r), DvLongLong (cr_uniqueId r)] @ ps) m)"

section \<open>Properties\<close>

text \<open>
  The texts of the enumerations lead back to their values, except that an unknown source is stored as the language model's and read as that; two
  affiliations never share a text.
\<close>
theorem enum_texts_roundtrip:
  "stringToSourceEnum (sourceEnumToString s) = (if s = SOURCE_UNKNOWN then SOURCE_LLM else s) \<and>
   stringToAffiliationEnum (affiliationEnumToString a) = a \<and>
   (affiliationEnumToString a = affiliationEnumToString b \<longleftrightarrow> a = b)"
proof -
  have "stringToSourceEnum (sourceEnumToString s) = (if s = SOURCE_UNKNOWN then SOURCE_LLM else s)"
    by (cases s) (simp_all add: sourceEnumToString_def stringToSourceEnum_def)
  moreover have b: "stringToAffiliationEnum (affiliationEnumToString x) = x" for x
    by (cases x) (simp_all add: affiliationEnumToString_def stringToAffiliationEnum_def)
  ultimately show ?thesis by (metis (no_types))
qed

text \<open>The marks of a statement, as the server counts them after the conversion.\<close>

definition mark_count :: "string \<Rightarrow> nat" where
  "mark_count sql = length (filter (\<lambda>c. c = CHR ''?'') sql)"

lemma mark_count_append [simp]: "mark_count (xs @ ys) = mark_count xs + mark_count ys"
  "mark_count (c # cs) = (if c = CHR ''?'' then Suc (mark_count cs) else mark_count cs)" "mark_count [] = 0"
  by (simp_all add: mark_count_def)

lemma mark_count_join: "mark_count sep = 0 \<Longrightarrow> mark_count (join_sql sep xs) = sum_list (map mark_count xs)"
  by (induction sep xs rule: join_sql.induct) simp_all

text \<open>
  Every statement on a result has a place for each of its parameters: 36 for an insertion and for saving, seven or eight for an update, whatever the
  final type is.
\<close>
theorem result_places_match:
  "mark_count (insert_result_sql '','') = length (result_values r) \<and> mark_count upsert_result_sql = length (result_values r) \<and>
   mark_count (fst (result_group r)) = length (snd (result_group r)) \<and>
   distinct (map fst result_places) \<and> set taken_over \<subseteq> set (map fst result_places) - {''unique_id'', ''final_type_source'', ''created_at''}"
proof -
  have columns: "sum_list (map mark_count (take 32 (map fst result_places))) = 0" "sum_list (map mark_count (drop 32 (map fst result_places))) = 0"
    "sum_list (map mark_count (map snd result_places)) = 36"
    by (simp_all add: result_places_def)
  have join: "mark_count (join_sql '', '' xs) = sum_list (map mark_count xs)" "mark_count (join_sql '','' xs) = sum_list (map mark_count xs)" for xs
    by (simp_all add: mark_count_join)
  have ins: "mark_count (insert_result_sql '', '') = 36" "mark_count (insert_result_sql '','') = 36"
    unfolding insert_result_sql_def mark_count_append(1) join columns by simp_all
  have "sum_list (map mark_count (map (\<lambda>c. c @ '' = EXCLUDED.'' @ c) taken_over)) = 0" by (simp add: taken_over_def)
  then have ups: "mark_count upsert_result_sql = 36" unfolding upsert_result_sql_def mark_count_append(1) join ins by simp
  have group: "mark_count (fst (result_group r)) = length (snd (result_group r))" by (simp add: result_group_def Let_def quoted_def)
  have cols: "distinct (map fst result_places)" "set taken_over \<subseteq> set (map fst result_places) - {''unique_id'', ''final_type_source'', ''created_at''}"
    by (simp_all add: result_places_def taken_over_def)
  show ?thesis using ins ups group cols by (simp add: result_values_def)
qed

end
