(* ===== verification/Spec2Isabelle.thy ===== *)
theory Spec2Isabelle
  imports Track_Streams Dds_Cleanup Alarm_Snapshot Rule_Evidence Alarm_Cycle Suspicious_Target Alarm_Control Process_Life Alarm_Publisher Alarm_Record Record_Batches Alarm_Settings Cognitive_Results
begin

text \<open>
  Verification development for AlarmSys (C++ with Qt, sources under \<open>src/src\<close>).

  \<^bold>\<open>The program.\<close>  AlarmSys receives fused tracks of ships and aircraft, judges them against rules and areas configured in a database, raises and
  publishes alarms and lets operators confirm and silence them.  Its parts and how they interact:

  \<^item> Track input: gRPC streams (\<open>grpc_track\<close>) or DDS topics (\<open>fastdds_newtrack\<close>, and the older \<open>fastdds_track\<close>) fill four track
    tables and their trails, members of the singleton \<open>CustomConfig\<close> (\<open>customconfig.cpp\<close>).
  \<^item> The alarm thread (\<open>dialog/alarm/TrackAlarmThread.cpp\<close>) takes a copy of the tables every pass, finds the targets that satisfy the area
    condition of each rule, evaluates the rule on them, assesses their threat, and saves alarms in the alarm tables of \<open>CustomConfig\<close>.
  \<^item> The suspicious-target thread (\<open>dialog/alarm/SuspiciousTargetThread.cpp\<close>) keeps the list of targets with conspicuous behaviour.
  \<^item> The type judgement (\<open>dialog/analysis\<close>) merges the types found by language model, camera and track into one and sends it over gRPC.
  \<^item> Output: alarm events over DDS, a full snapshot over gRPC (\<open>grpc_alarm\<close>), rows of the database.
  \<^item> Control: an HTTP server (\<open>AlarmHttpServer.cpp\<close>), destroy events over gRPC (\<open>AlarmGrpcDestroySubscriber.cpp\<close>), the system-alarm service (\<open>grpc_system_alarm\<close>).
  \<^item> The database: \<open>DataAccessLayer\<close> over \<open>DatabaseManager\<close>, which uses libpq by default and Qt's driver with \<open>AccessMode=0\<close>, each with a pool.

  \<^bold>\<open>Theories and sources.\<close>

  Vocabulary: \<open>Alarm_Prelude\<close> (texts as UTF-16 code units, printing and reading of numbers, casts between integer widths), \<open>Key_Store\<close> (\<open>QMap\<close> as a
  sorted association list and \<open>unordered_map\<close> as one with distinct keys; the locale \<open>key_store\<close>, interpreted for both as \<open>qm\<close> and \<open>um\<close>),
  \<open>Alarm_Types\<close> (\<open>SPxPackets.h\<close>, \<open>datastruct/commonStruct.h\<close>), \<open>Geometry\<close> (\<open>common/commonfunc.cpp\<close>, \<open>alarm_geoproj.cpp\<close>), \<open>Qt_Json\<close>.

  Tracks: \<open>Track_Convert\<close> (both converters of a received target), \<open>Track_Ingest\<close> (the clients that store, prune and extend trails),
  \<open>Track_Subscriber\<close> (the DDS subscriber), \<open>Track_Streams\<close> (the gRPC streams and their threads), \<open>Track_Class\<close> (the older subscriber).

  Publishing: \<open>Alarm_Publisher\<close> (\<open>AlarmEventPublisherApp.cxx\<close>, \<open>NewTrackStructAlarmPublisherApp.cxx\<close>, and the log files of
  \<open>AlarmFileLogger.cpp\<close>).

  Alarms in memory: \<open>Alarm_Store\<close> (saving with deduplication, silencing, pruning), \<open>Alarm_Confirm\<close>, \<open>Alarm_Disposition\<close>, \<open>Alarm_Event\<close> (all
  \<open>customconfig.cpp\<close>), \<open>Alarm_Snapshot\<close> (\<open>AlarmGrpcSnapshotClient.cpp\<close>), \<open>Rpc_Client\<close> (the locale \<open>rpc_client\<close> that the gRPC clients
  share, interpreted as \<open>type_rpc\<close> and \<open>snapshot_rpc\<close>).

  Judgement: \<open>Target_Type_Fusion\<close> and \<open>Target_Type_Client\<close>, \<open>Threat_Assessment\<close>, \<open>Alarm_Content\<close> (\<open>AlarmContentBuilder.cpp\<close>), \<open>Track_Area\<close>,
  \<open>Rule_Eval\<close>, \<open>Rule_Evidence\<close>, \<open>Area_Judge\<close>, \<open>Alarm_Cycle\<close> (all \<open>TrackAlarmThread.cpp\<close>), \<open>Suspicious_Target\<close>.

  Process: \<open>Alarm_Control\<close> (HTTP server, destroy subscriber), \<open>System_Alarm\<close>, \<open>Config_Load\<close> (\<open>LoadConfig\<close> and the parameter store),
  \<open>Process_Life\<close> (channels, \<open>main\<close>, stopping), \<open>Dds_Cleanup\<close> (what is removed before the channels are opened).

  Database, from below: \<open>Pool_Contract\<close> (the locale \<open>connection_pool\<close>, interpreted as \<open>pg_now\<close>, \<open>pg_woken\<close> and \<open>qt_conns\<close>), \<open>Pg_Pool\<close>,
  \<open>Qt_Pool\<close> (\<open>dbconnectionpool.cpp\<close>), \<open>Pg_Manager\<close> (parameters, statements, transactions and batches over libpq), \<open>Db_Manager\<close>
  (\<open>PgQtDatabaseManager\<close> and \<open>DatabaseManager\<close> over libpq, with the copy of rows into a memory table), \<open>Qt_Driver\<close> (\<open>DatabaseManager\<close> over Qt's
  driver), \<open>Data_Access\<close> (what the alarm program reads), \<open>Alarm_Record\<close> (what it writes), \<open>Target_Records\<close>, \<open>Capture_Records\<close>,
  \<open>Record_Batches\<close>, \<open>Alarm_Settings\<close> and \<open>Cognitive_Results\<close> (the other tables of \<open>DataAccessLayer\<close>).

  Definitions carry the names of the code where these are free; a name that two components use has a prefix.  State is passed explicitly: the
  records \<open>alarm_state\<close>, \<open>thread_state\<close>, \<open>control_state\<close>, \<open>db_manager\<close> and so on hold the members the operations read and write.

  \<^bold>\<open>What the lemmas show.\<close>

  \<^item> Well-formedness: the track tables pair every track with its trail, the alarm tables are sorted by id and hold valid statuses, at most one
    alarm of a target is live; every operation and every pass of the alarm thread keeps this.  For the alarm thread the locales
    \<open>batch_invariant\<close> and \<open>table_invariant\<close> carry an invariant through all submissions of a pass (\<open>table_ok\<close>, \<open>one_live\<close>, \<open>silence\<close>,
    \<open>ready\<close>, \<open>raised\<close>).
  \<^item> Exactness: which targets satisfy an area condition, when a rule raises an alarm, what an event and a snapshot contain, which targets are
    suspicious (through the locale \<open>sample_memory\<close>), what a configuration loads, which channels and services run.
  \<^item> Safety: no alarm without a rule that judged its target on the tables of the pass (\<open>judged_through\<close>), none for a silenced target from request to table,
    requests touch only what they name.
  \<^item> Progress: a pass never runs forever and completes when no rule reads out of range (\<open>reads_in_range\<close>), and a target that stays in an
    area long enough is published.
  \<^item> Delivery: what the DDS publisher sends and when (it never sends that the alarms have ended), how long log files stay.
  \<^item> Refinement: a run of the system-alarm pool against its abstract map; the rows of \<open>alarm_data\<close> against the alarms in memory.
  \<^item> Database: connections have one holder and come back on every path, parameters arrive as they are, judgements and target tables are
    read back as written, a merge over libpq is all or nothing.  Several theorems state behaviour that the code does not intend (findings): for
    example that in the default mode disabled sub-rules are enabled and that saving the rules deletes them.

  \<^bold>\<open>How code is modelled.\<close>

  \<^item> Loops are recursion over lists; the only loop without an obvious bound, the search back through a trail for the entry into an area, is a
    \<open>partial_function (option)\<close>, and it ends on all tables the track clients can produce (\<open>sea_air_reachable\<close>, \<open>radar_ais_reachable\<close> in \<open>Track_Streams\<close>).  No fuel is used.  The results of a pass are
    \<open>Ok\<close>, \<open>Undefined\<close> (the C++ reads out of range, divides by zero or dereferences null) or \<open>Forever\<close>.
  \<^item> \<open>float\<close> and \<open>double\<close> are real numbers.  Integers are mathematical ones with the casts of the code written out
    (\<open>to_i32\<close>, \<open>to_i64\<close>, \<open>to_u32\<close>), words where bits matter.  Times are milliseconds, one reading of the clock per operation.
  \<^item> Qt's conversions between texts and numbers, dates, JSON parsing, the settings file, gRPC and DDS delivery, libpq, the driver, and the answers
    of the server are parameters.  What is assumed of them are named hypotheses (\<open>text_laws\<close>, \<open>session_laws\<close>, \<open>qt_session_laws\<close>,
    \<open>commit_law\<close> (COMMIT keeps all or nothing), \<open>autocommit_law\<close>, \<open>places_law\<close>, \<open>insert_law\<close> (what an insertion puts in the columns it does not name
    is an argument), \<open>reads_back\<close>, \<open>final_type_law\<close>), each with an instance in a witness.  A text goes to libpq as a C string, up to its first NUL.
  \<^item> Members without initial values are arguments (\<open>unset\<close>).  The order of \<open>QSet\<close> and \<open>QHash\<close> is an argument.  A null \<open>QString\<close> is
    not told apart from an empty one.
  \<^item> Threads interleave operation by operation: everything under one mutex is one step.  Data shared without a mutex is modelled the same way, so
    races inside an operation are outside the model.  An asynchronous call is the call run to its end.

  \<^bold>\<open>Not modelled.\<close>  Code generated from the interface files (\<open>fastdds_alarmevent\<close>, \<open>fastdds_track\<close> type support, protobuf) and third-party
  headers and the generator's sample applications; structures of \<open>commonStruct.h\<close> and \<open>structPackets.h\<close> that no function of the program uses; \<open>PgHelper\<close>, \<open>dbhelper\<close>, \<open>dbconnthread\<close>
  and the copies \<open>DatabaseManager-.cpp\<close> and \<open>dbconnectionpool-.cpp\<close>, which nothing calls; \<open>getWeatherInfo\<close>, which executes a finished query a second time, with a result
  that Qt does not document; the wording of console output, signals to a user interface and the tools under \<open>src/tools\<close>.
\<close>

section \<open>The track clients and the alarm thread\<close>







section \<open>The control interfaces and the alarm thread\<close>




end
